(* ===== verification/OT_Prelude.thy ===== *)
theory OT_Prelude
  imports Main "HOL-Library.AList" "HOL-Library.Char_ord" "HOL-Library.List_Lexorder"
    "HOL-Library.Product_Lexorder"
begin

text \<open>
  Shared vocabulary of the OpenTrading development.

  \<^item> Names for the data every component passes around: identifiers (a UUID is the integer
    \<open>UUID.int\<close> of Python), instants (microseconds since the Unix epoch, UTC), durations in
    microseconds and calendar helpers (\<open>datetime.weekday\<close>, \<open>datetime.time\<close>).
  \<^item> Effects: a Python method that may raise and that mutates an object is a function
    \<open>'s \<Rightarrow> ('e + 'a) \<times> 's\<close>. An exception is a value \<open>Inl e\<close>, and the
    state that was reached when it was raised is kept, as Python keeps it.
  \<^item> Dictionaries with Python's insertion order are association lists under
    \<open>AList.update\<close> and \<open>AList.delete\<close> (an existing key keeps its place, a new one is
    appended).
  \<^item> The collections \<open>ot_simps\<close> (unfolding of the operations) and \<open>ot_inv\<close>
    (preservation facts) that the component theories extend.
\<close>

named_theorems ot_simps \<open>definitions a component proof unfolds\<close>
named_theorems ot_inv \<open>invariant preservation facts\<close>

subsection \<open>Identifiers and time\<close>

type_synonym uuid = nat
type_synonym instant = int
type_synonym duration = int
type_synonym ('k, 'v) dict = "('k \<times> 'v) list"

definition seconds :: "int \<Rightarrow> duration" where
  "seconds n = n * 1000000"

definition day_micros :: int where
  "day_micros = 86400 * 1000000"

text \<open>\<open>datetime.weekday()\<close>: Monday is 0; the epoch (1970-01-01) was a Thursday.\<close>

definition weekday :: "instant \<Rightarrow> int" where
  "weekday t = (t div day_micros + 3) mod 7"

text \<open>\<open>datetime.time()\<close>: microseconds since midnight UTC.\<close>

definition time_of_day :: "instant \<Rightarrow> int" where
  "time_of_day t = t mod day_micros"

lemma weekday_range: "0 \<le> weekday t \<and> weekday t < 7"
  by (simp add: weekday_def)

lemma time_of_day_range: "0 \<le> time_of_day t \<and> time_of_day t < day_micros"
  by (simp add: time_of_day_def day_micros_def)

subsection \<open>Programs with state and exceptions\<close>

type_synonym ('s, 'e, 'a) prog = "'s \<Rightarrow> ('e + 'a) \<times> 's"

definition ret :: "'a \<Rightarrow> ('s, 'e, 'a) prog" where
  "ret x = (\<lambda>s. (Inr x, s))"

definition raise :: "'e \<Rightarrow> ('s, 'e, 'a) prog" where
  "raise e = (\<lambda>s. (Inl e, s))"

definition seq :: "('s, 'e, 'a) prog \<Rightarrow> ('a \<Rightarrow> ('s, 'e, 'b) prog) \<Rightarrow> ('s, 'e, 'b) prog" where
  "seq m k = (\<lambda>s. case m s of (Inl e, s') \<Rightarrow> (Inl e, s') | (Inr x, s') \<Rightarrow> k x s')"

definition reads :: "('s \<Rightarrow> 'a) \<Rightarrow> ('s, 'e, 'a) prog" where
  "reads f = (\<lambda>s. (Inr (f s), s))"

definition modify :: "('s \<Rightarrow> 's) \<Rightarrow> ('s, 'e, unit) prog" where
  "modify f = (\<lambda>s. (Inr (), f s))"

definition guard :: "bool \<Rightarrow> 'e \<Rightarrow> ('s, 'e, unit) prog" where
  "guard b e = (if b then ret () else raise e)"

text \<open>\<open>try: m except: h\<close>; the state reached by the failing body is what the handler sees.\<close>

definition handle :: "('s, 'e, 'a) prog \<Rightarrow> ('e \<Rightarrow> ('s, 'e, 'a) prog) \<Rightarrow> ('s, 'e, 'a) prog" where
  "handle m h = (\<lambda>s. case m s of (Inl e, s') \<Rightarrow> h e s' | (Inr x, s') \<Rightarrow> (Inr x, s'))"

text \<open>A Python \<open>for\<close> loop over a sequence that is evaluated once, before the loop.\<close>

primrec for_each :: "'x list \<Rightarrow> ('x \<Rightarrow> ('s, 'e, unit) prog) \<Rightarrow> ('s, 'e, unit) prog" where
  "for_each [] f = ret ()"
| "for_each (x # xs) f = seq (f x) (\<lambda>_. for_each xs f)"

text \<open>Running a program that works on one component of a larger state.\<close>

definition zoom :: "('t \<Rightarrow> 's) \<Rightarrow> ('s \<Rightarrow> 't \<Rightarrow> 't) \<Rightarrow> ('s, 'e, 'a) prog \<Rightarrow> ('t, 'e, 'a) prog" where
  "zoom get put m = (\<lambda>t. case m (get t) of (r, s) \<Rightarrow> (r, put s t))"

lemma ret_run [simp]: "ret x s = (Inr x, s)"
  by (simp add: ret_def)

lemma raise_run [simp]: "raise e s = (Inl e, s)"
  by (simp add: raise_def)

lemma reads_run [simp]: "reads f s = (Inr (f s), s)"
  by (simp add: reads_def)

lemma modify_run [simp]: "modify f s = (Inr (), f s)"
  by (simp add: modify_def)

lemma guard_run [simp]: "guard b e s = (if b then (Inr (), s) else (Inl e, s))"
  by (simp add: guard_def)

lemma seq_run: "seq m k s = (case m s of (Inl e, s') \<Rightarrow> (Inl e, s') | (Inr x, s') \<Rightarrow> k x s')"
  by (simp add: seq_def)

lemma seq_Inr [simp]: "m s = (Inr x, s') \<Longrightarrow> seq m k s = k x s'"
  by (simp add: seq_def)

lemma seq_Inl [simp]: "m s = (Inl e, s') \<Longrightarrow> seq m k s = (Inl e, s')"
  by (simp add: seq_def)

lemma seq_InrE:
  assumes "seq m k s = (Inr y, s'')"
  obtains x s' where "m s = (Inr x, s')" and "k x s' = (Inr y, s'')"
  using assms by (auto simp: seq_def split: prod.splits sum.splits)

lemma snd_seq_ret [simp]: "snd (seq m (\<lambda>x. ret (f x)) s) = snd (m s)"
  by (simp add: seq_run split: prod.split sum.split)

lemma seq_ret [simp]: "seq (ret x) k = k x"
  by (rule ext) simp

lemma seq_reads [simp]: "seq (reads f) k s = k (f s) s"
  by (simp add: seq_def)

lemma seq_modify [simp]: "seq (modify f) k s = k () (f s)"
  by (simp add: seq_def)

lemma seq_raise [simp]: "seq (raise e) k = raise e"
  by (rule ext) (simp add: seq_def)

lemma seq_guard [simp]: "seq (guard b e) k s = (if b then k () s else (Inl e, s))"
  by (simp add: seq_def)

lemma seq_assoc: "seq (seq m f) g = seq m (\<lambda>x. seq (f x) g)"
  by (rule ext) (simp add: seq_def split: prod.splits sum.splits)

text \<open>
  A predicate on the state that a program keeps, whether it returns or raises. The rules
  decompose a program along its combinators, so that an operation keeps an invariant as
  soon as its leaves do.
\<close>

definition keeps :: "('s \<Rightarrow> bool) \<Rightarrow> ('s, 'e, 'a) prog \<Rightarrow> bool" where
  "keeps P m \<longleftrightarrow> (\<forall>s. P s \<longrightarrow> P (snd (m s)))"

lemma keepsI: "(\<And>s. P s \<Longrightarrow> P (snd (m s))) \<Longrightarrow> keeps P m"
  by (simp add: keeps_def)

lemma keepsD: "keeps P m \<Longrightarrow> P s \<Longrightarrow> P (snd (m s))"
  by (simp add: keeps_def)

lemma keeps_run: "keeps P m \<Longrightarrow> P s \<Longrightarrow> m s = (r, s') \<Longrightarrow> P s'"
  using keepsD by fastforce

lemma keeps_ret [ot_inv]: "keeps P (ret x)"
  by (simp add: keeps_def)

lemma keeps_raise [ot_inv]: "keeps P (raise e)"
  by (simp add: keeps_def)

lemma keeps_reads [ot_inv]: "keeps P (reads f)"
  by (simp add: keeps_def)

lemma keeps_guard [ot_inv]: "keeps P (guard b e)"
  by (simp add: keeps_def)

lemma keeps_modify: "(\<And>s. P s \<Longrightarrow> P (f s)) \<Longrightarrow> keeps P (modify f)"
  by (simp add: keeps_def)

lemma keeps_seq [ot_inv]:
  assumes "keeps P m" and "\<And>x. keeps P (k x)"
  shows "keeps P (seq m k)"
proof (rule keepsI)
  fix s assume "P s"
  then have "P (snd (m s))" using assms(1) by (simp add: keeps_def)
  then show "P (snd (seq m k s))"
    using assms(2) by (auto simp: seq_def keeps_def split: prod.splits sum.splits)
qed

lemma keeps_handle [ot_inv]:
  assumes "keeps P m" and "\<And>e. keeps P (h e)"
  shows "keeps P (handle m h)"
proof (rule keepsI)
  fix s assume "P s"
  then have "P (snd (m s))" using assms(1) by (simp add: keeps_def)
  then show "P (snd (handle m h s))"
    using assms(2) by (auto simp: handle_def keeps_def split: prod.splits sum.splits)
qed

lemma keeps_for_each [ot_inv]: "(\<And>x. x \<in> set xs \<Longrightarrow> keeps P (f x)) \<Longrightarrow> keeps P (for_each xs f)"
  by (induction xs) (auto intro: ot_inv)

lemma keeps_if [ot_inv]: "keeps P m \<Longrightarrow> keeps P n \<Longrightarrow> keeps P (if b then m else n)"
  by simp

lemma keeps_option [ot_inv]:
  "keeps P m \<Longrightarrow> (\<And>x. keeps P (k x)) \<Longrightarrow> keeps P (case r of None \<Rightarrow> m | Some x \<Rightarrow> k x)"
  by (cases r) auto

lemma zoom_keeps:
  assumes "\<And>w x. P w \<Longrightarrow> P (put x w)"
  shows "keeps P (zoom get put m)"
  using assms by (auto simp: keeps_def zoom_def split: prod.split)

subsection \<open>Results\<close>

text \<open>Sequencing of pure computations that may raise.\<close>

definition rbind :: "'e + 'a \<Rightarrow> ('a \<Rightarrow> 'e + 'b) \<Rightarrow> 'e + 'b" where
  "rbind r k = (case r of Inl e \<Rightarrow> Inl e | Inr x \<Rightarrow> k x)"

lemma rbind_simps [simp]: "rbind (Inl e) k = Inl e" "rbind (Inr x) k = k x"
  by (simp_all add: rbind_def)

lemma rbind_Inr_iff: "rbind r k = Inr y \<longleftrightarrow> (\<exists>x. r = Inr x \<and> k x = Inr y)"
  by (cases r) simp_all

subsection \<open>Dictionaries\<close>

lemma map_of_alist_update [simp]: "map_of (AList.update k v d) = (map_of d)(k \<mapsto> v)"
  by (rule AList.update_conv')

lemma set_alist_update_subset: "set (AList.update k v d) \<subseteq> insert (k, v) (set d)"
  by (induction d) auto

lemma alist_update_values:
  "x \<in> snd ` set (AList.update k v d) \<Longrightarrow> x = v \<or> x \<in> snd ` set d"
  using set_alist_update_subset [of k v d] by auto

subsection \<open>Order-preserving removal of duplicates\<close>

text \<open>
  \<open>dict.fromkeys(xs)\<close> and the \<open>_dedupe\<close> loops of the code keep the first occurrence of
  every element.
\<close>

primrec dedupe_onto :: "'a list \<Rightarrow> 'a list \<Rightarrow> 'a list" where
  "dedupe_onto acc [] = acc"
| "dedupe_onto acc (x # xs) = dedupe_onto (if x \<in> set acc then acc else acc @ [x]) xs"

definition dedupe :: "'a list \<Rightarrow> 'a list" where
  "dedupe xs = dedupe_onto [] xs"

lemma set_dedupe_onto: "set (dedupe_onto acc xs) = set acc \<union> set xs"
  by (induction xs arbitrary: acc) auto

lemma distinct_dedupe_onto: "distinct acc \<Longrightarrow> distinct (dedupe_onto acc xs)"
  by (induction xs arbitrary: acc) auto

lemma set_dedupe [simp]: "set (dedupe xs) = set xs"
  by (simp add: dedupe_def set_dedupe_onto)

lemma distinct_dedupe [simp]: "distinct (dedupe xs)"
  by (simp add: dedupe_def distinct_dedupe_onto)

lemma dedupe_eq_Nil [simp]: "dedupe xs = [] \<longleftrightarrow> xs = []"
  using set_dedupe [of xs] by (metis set_empty)

subsection \<open>Strings\<close>

text \<open>\<open>not s.strip()\<close>: the string holds white space only.\<close>

definition is_space :: "char \<Rightarrow> bool" where
  "is_space c \<longleftrightarrow> c \<in> {CHR '' '', CHR 0x09, CHR 0x0A, CHR 0x0B, CHR 0x0C, CHR 0x0D,
     CHR 0x1C, CHR 0x1D, CHR 0x1E, CHR 0x1F}"

definition strip :: "string \<Rightarrow> string" where
  "strip s = rev (dropWhile is_space (rev (dropWhile is_space s)))"

definition is_blank :: "string \<Rightarrow> bool" where
  "is_blank s \<longleftrightarrow> strip s = []"

lemma is_blank_iff: "is_blank s \<longleftrightarrow> (\<forall>c \<in> set s. is_space c)"
proof -
  have "is_blank s \<longleftrightarrow> (\<forall>c \<in> set (dropWhile is_space s). is_space c)"
    by (simp add: is_blank_def strip_def dropWhile_eq_Nil_conv)
  also have "\<dots> \<longleftrightarrow> (\<forall>c \<in> set s. is_space c)"
    by (induction s) auto
  finally show ?thesis .
qed

text \<open>Decimal notation of a number, as an f-string renders it.\<close>

fun decimal_str :: "nat \<Rightarrow> string" where
  "decimal_str n = (if n < 10 then [char_of (48 + n)] else decimal_str (n div 10) @ [char_of (48 + n mod 10)])"

declare decimal_str.simps [simp del]

text \<open>A number is read back from its notation, so identifiers made from a counter never collide.\<close>

definition digits_value :: "string \<Rightarrow> nat" where
  "digits_value s = foldl (\<lambda>n ch. 10 * n + (of_char ch - 48)) 0 s"

lemma digits_value_decimal_str: "digits_value (decimal_str n) = n"
proof (induction n rule: decimal_str.induct)
  case (1 n)
  have digit: "(of_char (char_of (48 + d)) :: nat) - 48 = d" if "d < 10" for d :: nat using that by simp
  show ?case
  proof (cases "n < 10")
    case True
    then show ?thesis using digit [of n] by (simp add: decimal_str.simps [of n] digits_value_def)
  next
    case False
    then show ?thesis using 1 digit [of "n mod 10"] by (simp add: decimal_str.simps [of n] digits_value_def)
  qed
qed

lemma decimal_str_inj [simp]: "decimal_str m = decimal_str n \<longleftrightarrow> m = n"
  using digits_value_decimal_str by metis

end
