(* ===== verification/Decimal.thy ===== *)
theory Decimal
  imports OT_Prelude Complex_Main
begin

text \<open>
  Python's \<^verbatim>\<open>decimal.Decimal\<close> under the default context (precision 28,
  \<open>ROUND_HALF_EVEN\<close>), the arithmetic of every price, quantity and amount of the code.

  A decimal is modelled by its value, a rational number: comparison and equality of Python
  decimals are numeric, so \<open>Decimal("1.0") == Decimal("1.00")\<close>. An operation computes the
  exact result and rounds it to 28 significant digits (\<open>ctx_round\<close>); operands are not
  rounded. The exponent of the representation matters to \<open>quantize\<close> only, which takes it
  as an argument (\<open>dec\<close> is a decimal with its representation). Exponents stay far inside
  \<open>Emin\<close>/\<open>Emax\<close>, whose overflow is not modelled.

  The lemmas say when rounding is the identity (\<open>fits28\<close>), bound the relative error by
  \<open>10 ^ -27 / 2\<close>, and show that rounding keeps signs and order.
\<close>

type_synonym decimal = rat

subsection \<open>Powers of ten and the adjusted exponent\<close>

definition pow10 :: "int \<Rightarrow> rat" where
  "pow10 e = (if 0 \<le> e then 10 ^ nat e else 1 / 10 ^ nat (- e))"

fun ndigits :: "nat \<Rightarrow> nat" where
  "ndigits n = (if n < 10 then 1 else Suc (ndigits (n div 10)))"

declare ndigits.simps [simp del]

text \<open>\<open>Decimal.adjusted()\<close>: the exponent of the most significant digit.\<close>

definition adjusted :: "rat \<Rightarrow> int" where
  "adjusted x =
     (let (n, d) = quotient_of \<bar>x\<bar>;
          e = int (ndigits (nat n)) - int (ndigits (nat d))
      in if pow10 e \<le> \<bar>x\<bar> then e else e - 1)"

lemma pow10_pos [simp]: "0 < pow10 e"
  by (simp add: pow10_def)

lemma pow10_nonneg [simp]: "0 \<le> pow10 e"
  using pow10_pos [of e] by linarith

lemma pow10_not_neg [simp]: "\<not> pow10 e < 0"
  by (simp add: not_less)

lemma pow10_nz [simp]: "pow10 e \<noteq> 0"
  using pow10_pos [of e] by linarith

lemma pow10_powi: "pow10 e = 10 powi e"
  by (simp add: pow10_def power_int_def field_simps)

lemma pow10_add: "pow10 (a + b) = pow10 a * pow10 b"
  by (simp add: pow10_powi power_int_add)

lemma pow10_diff: "pow10 (a - b) = pow10 a / pow10 b"
  by (simp add: pow10_powi power_int_diff)

lemma pow10_0 [simp]: "pow10 0 = 1"
  by (simp add: pow10_def)

lemma pow10_mono: "a \<le> b \<Longrightarrow> pow10 a \<le> pow10 b"
  by (simp add: pow10_powi power_int_increasing)

lemma pow10_mono_strict: "a < b \<Longrightarrow> pow10 a < pow10 b"
  by (simp add: pow10_powi power_int_strict_increasing)

lemma pow10_of_nat: "pow10 (int n) = 10 ^ n"
  by (simp add: pow10_def)

lemma pow10_int: "0 \<le> e \<Longrightarrow> pow10 e = of_int (10 ^ nat e)"
  by (simp add: pow10_def)

lemma ndigits_bounds: "0 < n \<Longrightarrow> 10 ^ (ndigits n - 1) \<le> n \<and> n < 10 ^ ndigits n"
proof (induction n rule: ndigits.induct)
  case (1 n)
  show ?case
  proof (cases "n < 10")
    case True
    with "1.prems" show ?thesis by (simp add: ndigits.simps [of n])
  next
    case False
    let ?m = "n div 10"
    from False have "0 < ?m" by simp
    with "1.IH" False have IH: "10 ^ (ndigits ?m - 1) \<le> ?m" "?m < 10 ^ ndigits ?m" by auto
    have pos: "0 < ndigits ?m" by (simp add: ndigits.simps [of ?m])
    then obtain k where k: "ndigits ?m = Suc k" using gr0_implies_Suc by blast
    have nd: "ndigits n = Suc (Suc k)" using False k by (simp add: ndigits.simps [of n])
    have "10 ^ Suc k \<le> n" using IH(1) k by simp
    moreover have "n < 10 ^ Suc (Suc k)" using IH(2) k by simp
    ultimately show ?thesis using nd by simp
  qed
qed

lemma ndigits_pos: "0 < ndigits n"
  by (simp add: ndigits.simps [of n])

lemma adjusted_bounds:
  assumes "x \<noteq> 0"
  shows "pow10 (adjusted x) \<le> \<bar>x\<bar>" and "\<bar>x\<bar> < pow10 (adjusted x + 1)"
proof -
  obtain n d where q: "quotient_of \<bar>x\<bar> = (n, d)" by fastforce
  have d: "0 < d" using quotient_of_denom_pos [OF q] .
  have x: "\<bar>x\<bar> = of_int n / of_int d" using quotient_of_div [OF q] .
  have n: "0 < n"
  proof (rule ccontr)
    assume "\<not> 0 < n"
    then have "of_int n / of_int d \<le> (0::rat)" using d by (simp add: divide_nonpos_pos)
    with x assms show False by simp
  qed
  define a where "a = ndigits (nat n)"
  define b where "b = ndigits (nat d)"
  define e where "e = int a - int b"
  have a: "0 < a" "10 ^ (a - 1) \<le> nat n" "nat n < 10 ^ a"
    using ndigits_bounds [of "nat n"] n by (auto simp: a_def ndigits_pos)
  have b: "0 < b" "10 ^ (b - 1) \<le> nat d" "nat d < 10 ^ b"
    using ndigits_bounds [of "nat d"] d by (auto simp: b_def ndigits_pos)
  have nr: "of_int n = (of_nat (nat n) :: rat)" and dr: "of_int d = (of_nat (nat d) :: rat)"
    using n d by simp_all
  have n_lo: "10 ^ (a - 1) \<le> (of_int n :: rat)" and n_hi: "(of_int n :: rat) < 10 ^ a"
    using a(2,3) unfolding nr by (metis of_nat_le_iff of_nat_numeral of_nat_power,
      metis of_nat_less_iff of_nat_numeral of_nat_power)
  have d_lo: "10 ^ (b - 1) \<le> (of_int d :: rat)" and d_hi: "(of_int d :: rat) < 10 ^ b"
    using b(2,3) unfolding dr by (metis of_nat_le_iff of_nat_numeral of_nat_power,
      metis of_nat_less_iff of_nat_numeral of_nat_power)
  have dpos: "(0::rat) < of_int d" using d by simp
  have hi: "\<bar>x\<bar> < pow10 (e + 1)"
  proof -
    have "\<bar>x\<bar> < 10 ^ a / of_int d" using n_hi dpos x by (simp add: divide_strict_right_mono)
    also have "\<dots> \<le> 10 ^ a / 10 ^ (b - 1)" using d_lo by (simp add: frac_le)
    also have "\<dots> = pow10 (int a) / pow10 (int (b - 1))" by (simp add: pow10_of_nat)
    also have "\<dots> = pow10 (int a - int (b - 1))" by (simp only: pow10_diff)
    also have "int a - int (b - 1) = e + 1" using b(1) by (simp add: e_def of_nat_diff)
    finally show ?thesis .
  qed
  have lo: "pow10 (e - 1) \<le> \<bar>x\<bar>"
  proof -
    have "pow10 (e - 1) = pow10 (int (a - 1) - int b)"
      using a(1) by (simp add: e_def of_nat_diff algebra_simps)
    also have "\<dots> = 10 ^ (a - 1) / 10 ^ b" by (simp only: pow10_diff pow10_of_nat)
    also have "\<dots> \<le> 10 ^ (a - 1) / of_int d" using d_hi dpos by (simp add: frac_le)
    also have "\<dots> \<le> \<bar>x\<bar>" using n_lo dpos x by (simp add: divide_right_mono)
    finally show ?thesis .
  qed
  have adj: "adjusted x = (if pow10 e \<le> \<bar>x\<bar> then e else e - 1)"
    by (simp add: adjusted_def q a_def b_def e_def)
  show "pow10 (adjusted x) \<le> \<bar>x\<bar>" using adj lo by (simp split: if_splits)
  show "\<bar>x\<bar> < pow10 (adjusted x + 1)" using adj hi by (simp split: if_splits)
qed

subsection \<open>Rounding\<close>

definition round_half_even :: "rat \<Rightarrow> int" where
  "round_half_even x =
     (let f = \<lfloor>x\<rfloor>; r = x - of_int f
      in if r < 1 / 2 then f else if 1 / 2 < r then f + 1 else if even f then f else f + 1)"

text \<open>\<open>ROUND_HALF_UP\<close>: ties go away from zero.\<close>

definition round_half_up :: "rat \<Rightarrow> int" where
  "round_half_up x = (if 0 \<le> x then \<lfloor>x + 1 / 2\<rfloor> else - \<lfloor>- x + 1 / 2\<rfloor>)"

text \<open>\<open>ROUND_DOWN\<close>: towards zero.\<close>

definition round_down :: "rat \<Rightarrow> int" where
  "round_down x = (if 0 \<le> x then \<lfloor>x\<rfloor> else - \<lfloor>- x\<rfloor>)"

lemma round_half_even_error: "\<bar>of_int (round_half_even x) - x\<bar> \<le> 1 / 2"
proof -
  have "of_int \<lfloor>x\<rfloor> \<le> x" "x < of_int \<lfloor>x\<rfloor> + 1" by linarith+
  then show ?thesis by (auto simp: round_half_even_def Let_def abs_le_iff)
qed

lemma round_half_even_of_int [simp]: "round_half_even (of_int k) = k"
  by (simp add: round_half_even_def)

lemma round_half_even_mono: "x \<le> y \<Longrightarrow> round_half_even x \<le> round_half_even y"
proof -
  assume xy: "x \<le> y"
  show ?thesis
  proof (cases "\<lfloor>x\<rfloor> = \<lfloor>y\<rfloor>")
    case True
    with xy show ?thesis by (auto simp: round_half_even_def Let_def)
  next
    case False
    with xy have lt: "\<lfloor>x\<rfloor> + 1 \<le> \<lfloor>y\<rfloor>" using floor_mono [OF xy] by linarith
    have "round_half_even x \<le> \<lfloor>x\<rfloor> + 1" and "\<lfloor>y\<rfloor> \<le> round_half_even y"
      by (auto simp: round_half_even_def Let_def)
    with lt show ?thesis by linarith
  qed
qed

text \<open>The context's rounding of an exact result to 28 significant digits.\<close>

definition prec :: int where
  "prec = 28"

definition ctx_round :: "rat \<Rightarrow> decimal" where
  "ctx_round x =
     (if x = 0 then 0
      else let q = pow10 (adjusted x - (prec - 1)) in of_int (round_half_even (x / q)) * q)"

text \<open>A value with at most 28 significant digits.\<close>

definition fits28 :: "rat \<Rightarrow> bool" where
  "fits28 x \<longleftrightarrow> (\<exists>k e. x = of_int k * pow10 e \<and> \<bar>k\<bar> < 10 ^ 28)"

lemma fits28I: "x = of_int k * pow10 e \<Longrightarrow> \<bar>k\<bar> < 10 ^ 28 \<Longrightarrow> fits28 x"
  by (auto simp: fits28_def)

lemma ctx_round_0 [simp]: "ctx_round 0 = 0"
  by (simp add: ctx_round_def)

lemma ctx_round_nz:
  "x \<noteq> 0 \<Longrightarrow>
   ctx_round x = of_int (round_half_even (x / pow10 (adjusted x - 27))) * pow10 (adjusted x - 27)"
  by (simp add: ctx_round_def prec_def Let_def)

lemma ctx_round_exact: "fits28 x \<Longrightarrow> ctx_round x = x"
proof (cases "x = 0")
  case True
  then show ?thesis by simp
next
  case False
  assume "fits28 x"
  then obtain k e where x: "x = of_int k * pow10 e" and k: "\<bar>k\<bar> < 10 ^ 28"
    by (auto simp: fits28_def)
  let ?q = "adjusted x - 27"
  have "?q \<le> e"
  proof (rule ccontr)
    assume "\<not> ?q \<le> e"
    then have le: "28 + e \<le> adjusted x" by simp
    have "of_int \<bar>k\<bar> < (of_int (10 ^ 28) :: rat)" using k by (simp only: of_int_less_iff)
    then have "\<bar>x\<bar> < 10 ^ 28 * pow10 e" by (simp add: x abs_mult)
    also have "\<dots> = pow10 (28 + e)" using pow10_of_nat [of 28] by (simp add: pow10_add)
    also have "\<dots> \<le> pow10 (adjusted x)" using le by (rule pow10_mono)
    finally show False using adjusted_bounds(1) [OF False] by simp
  qed
  then have "pow10 (e - ?q) = of_int (10 ^ nat (e - ?q))" by (simp add: pow10_int)
  moreover have "x / pow10 ?q = of_int k * pow10 (e - ?q)"
    by (subst x) (simp only: pow10_diff [of e ?q] times_divide_eq_right)
  ultimately have "x / pow10 ?q = of_int (k * 10 ^ nat (e - ?q))" by (simp only: of_int_mult)
  then have "of_int (round_half_even (x / pow10 ?q)) = x / pow10 ?q"
    by (metis round_half_even_of_int)
  with False show ?thesis by (simp add: ctx_round_nz)
qed

lemma ctx_round_error: "\<bar>ctx_round x - x\<bar> \<le> \<bar>x\<bar> / (2 * 10 ^ 27)"
proof (cases "x = 0")
  case True
  then show ?thesis by simp
next
  case False
  let ?q = "pow10 (adjusted x - 27)"
  have "ctx_round x - x = (of_int (round_half_even (x / ?q)) - x / ?q) * ?q"
    using False by (simp add: ctx_round_nz left_diff_distrib)
  then have "\<bar>ctx_round x - x\<bar> = \<bar>of_int (round_half_even (x / ?q)) - x / ?q\<bar> * ?q"
    by (simp add: abs_mult)
  also have "\<dots> \<le> 1 / 2 * ?q"
    by (rule mult_right_mono [OF round_half_even_error]) simp
  also have "\<dots> = pow10 (adjusted x) / (2 * 10 ^ 27)"
    using pow10_of_nat [of 27] by (simp add: pow10_diff)
  also have "\<dots> \<le> \<bar>x\<bar> / (2 * 10 ^ 27)"
    using adjusted_bounds(1) [OF False] by (simp add: divide_right_mono)
  finally show ?thesis .
qed

lemma ctx_round_pos: "0 < x \<Longrightarrow> 0 < ctx_round x"
proof -
  assume x: "0 < x"
  then have "\<bar>x\<bar> / (2 * 10 ^ 27) < x" by simp
  with ctx_round_error [of x] x show ?thesis by linarith
qed

lemma ctx_round_neg: "x < 0 \<Longrightarrow> ctx_round x < 0"
proof -
  assume x: "x < 0"
  then have "\<bar>x\<bar> / (2 * 10 ^ 27) < - x" by simp
  with ctx_round_error [of x] x show ?thesis by linarith
qed

lemma ctx_round_zero_iff [simp]: "ctx_round x = 0 \<longleftrightarrow> x = 0"
  using ctx_round_pos [of x] ctx_round_neg [of x] by (cases x "0::rat" rule: linorder_cases) auto

lemma ctx_round_pos_iff [simp]: "0 < ctx_round x \<longleftrightarrow> 0 < x"
  using ctx_round_pos [of x] ctx_round_neg [of x] by (cases x "0::rat" rule: linorder_cases) auto

lemma ctx_round_nonneg_iff [simp]: "0 \<le> ctx_round x \<longleftrightarrow> 0 \<le> x"
  using ctx_round_pos [of x] ctx_round_neg [of x]
  by (cases x "0::rat" rule: linorder_cases) (auto simp: less_imp_le)

lemma fits28_0 [simp]: "fits28 0"
  by (rule fits28I [of _ 0 0]) simp_all

lemma fits28_of_int: "\<bar>k\<bar> < 10 ^ 28 \<Longrightarrow> fits28 (of_int k)"
  by (rule fits28I [of _ k 0]) simp_all

lemma fits28_uminus [simp]: "fits28 (- x) \<longleftrightarrow> fits28 x"
proof -
  have "fits28 y \<Longrightarrow> fits28 (- y)" for y
  proof -
    assume "fits28 y"
    then obtain k e where "y = of_int k * pow10 e" "\<bar>k\<bar> < 10 ^ 28" by (auto simp: fits28_def)
    then show "fits28 (- y)" by (intro fits28I [of _ "- k" e]) simp_all
  qed
  from this [of x] this [of "- x"] show ?thesis by auto
qed

text \<open>
  Every result of the context has at most 28 digits, so rounding is idempotent: a stored
  value is not changed by being read again.
\<close>

lemma fits28_ctx_round: "fits28 (ctx_round x)"
proof (cases "x = 0")
  case True
  then show ?thesis by simp
next
  case False
  let ?q = "pow10 (adjusted x - 27)"
  let ?k = "round_half_even (x / ?q)"
  have r: "ctx_round x = of_int ?k * ?q" using False by (rule ctx_round_nz)
  have hi: "\<bar>x\<bar> / ?q < 10 ^ 28"
  proof -
    have "\<bar>x\<bar> < pow10 (28 + (adjusted x - 27))" using adjusted_bounds(2) [OF False] by (simp add: add.commute)
    also have "\<dots> = 10 ^ 28 * ?q" using pow10_of_nat [of 28] by (simp only: pow10_add) simp
    finally show ?thesis by (simp add: divide_less_eq)
  qed
  have ab: "\<bar>x / ?q\<bar> < of_int (10 ^ 28)" using hi by (simp add: abs_divide)
  have "x / ?q \<le> of_int (10 ^ 28)" and "of_int (- (10 ^ 28)) \<le> x / ?q"
    using ab unfolding abs_less_iff of_int_minus by linarith+
  then have "?k \<le> round_half_even (of_int (10 ^ 28))"
    and "round_half_even (of_int (- (10 ^ 28))) \<le> ?k"
    by (auto intro: round_half_even_mono)
  then have k: "?k \<le> 10 ^ 28" "- (10 ^ 28) \<le> ?k" by (simp_all only: round_half_even_of_int)
  show ?thesis
  proof (cases "\<bar>?k\<bar> < 10 ^ 28")
    case True
    then show ?thesis using r by (rule fits28I [rotated])
  next
    case 2: False
    then have "?k = 10 ^ 28 \<or> ?k = - (10 ^ 28)" using k by linarith
    moreover have "of_int (10 ^ 28) * ?q = pow10 (28 + (adjusted x - 27))"
      using pow10_of_nat [of 28] by (simp only: pow10_add) simp
    ultimately have "ctx_round x = of_int 1 * pow10 (28 + (adjusted x - 27)) \<or>
        ctx_round x = of_int (- 1) * pow10 (28 + (adjusted x - 27))"
      using r by (metis mult_1 mult_minus_left of_int_1 of_int_minus)
    then show ?thesis by (metis abs_1 abs_minus_cancel fits28I one_less_numeral_iff
      one_less_power semiring_norm(76) zero_less_numeral)
  qed
qed

lemma ctx_round_idem [simp]: "ctx_round (ctx_round x) = ctx_round x"
  by (rule ctx_round_exact [OF fits28_ctx_round])

text \<open>Rounding is odd and monotone.\<close>

lemma round_half_even_minus: "round_half_even (- x) = - round_half_even x"
proof (cases "x = of_int \<lfloor>x\<rfloor>")
  case True
  then have "round_half_even x = \<lfloor>x\<rfloor>" by (metis round_half_even_of_int)
  moreover have "round_half_even (- x) = - \<lfloor>x\<rfloor>"
    by (subst True) (metis of_int_minus round_half_even_of_int)
  ultimately show ?thesis by simp
next
  case False
  then have f: "\<lfloor>- x\<rfloor> = - \<lfloor>x\<rfloor> - 1"
    by (simp add: floor_minus ceiling_altdef)
  have e: "even (- \<lfloor>x\<rfloor> - 1) \<longleftrightarrow> odd \<lfloor>x\<rfloor>" by simp
  show ?thesis by (auto simp: round_half_even_def Let_def f)
qed

lemma adjusted_minus [simp]: "adjusted (- x) = adjusted x"
  by (simp add: adjusted_def)

lemma ctx_round_minus: "ctx_round (- x) = - ctx_round x"
  by (simp add: ctx_round_def Let_def round_half_even_minus)

lemma ctx_round_between:
  assumes "0 < x"
  shows "pow10 (adjusted x) \<le> ctx_round x" and "ctx_round x \<le> pow10 (adjusted x + 1)"
proof -
  let ?q = "pow10 (adjusted x - 27)"
  have q: "pow10 (adjusted x) = of_int (10 ^ 27) * ?q" "pow10 (adjusted x + 1) = of_int (10 ^ 28) * ?q"
    using pow10_add [of 27 "adjusted x - 27"] pow10_add [of 28 "adjusted x - 27"]
      pow10_of_nat [of 27] pow10_of_nat [of 28] by (simp_all add: add.commute)
  have lo: "of_int (10 ^ 27) \<le> x / ?q" and hi: "x / ?q \<le> of_int (10 ^ 28)"
    using adjusted_bounds [of x] assms unfolding q by (simp_all add: pos_le_divide_eq pos_divide_le_eq)
  have "10 ^ 27 \<le> round_half_even (x / ?q)" "round_half_even (x / ?q) \<le> 10 ^ 28"
    using round_half_even_mono [OF lo] round_half_even_mono [OF hi]
    by (simp_all only: round_half_even_of_int)
  then have "of_int (10 ^ 27) \<le> (of_int (round_half_even (x / ?q)) :: rat)"
    "(of_int (round_half_even (x / ?q)) :: rat) \<le> of_int (10 ^ 28)"
    by (simp_all only: of_int_le_iff)
  then show "pow10 (adjusted x) \<le> ctx_round x" "ctx_round x \<le> pow10 (adjusted x + 1)"
    using assms unfolding q by (simp_all add: ctx_round_nz mult_right_mono)
qed

lemma adjusted_mono: "0 < x \<Longrightarrow> x \<le> y \<Longrightarrow> adjusted x \<le> adjusted y"
proof (rule ccontr)
  assume a: "0 < x" "x \<le> y" "\<not> adjusted x \<le> adjusted y"
  then have "pow10 (adjusted y + 1) \<le> pow10 (adjusted x)" by (intro pow10_mono) simp
  with adjusted_bounds [of x] adjusted_bounds [of y] a show False by simp
qed

lemma ctx_round_mono_pos:
  assumes "0 < x" and "x \<le> y"
  shows "ctx_round x \<le> ctx_round y"
proof (cases "adjusted x = adjusted y")
  case True
  have "x / pow10 (adjusted x - 27) \<le> y / pow10 (adjusted x - 27)"
    using assms(2) by (simp add: divide_right_mono)
  then have "round_half_even (x / pow10 (adjusted x - 27)) \<le> round_half_even (y / pow10 (adjusted x - 27))"
    by (rule round_half_even_mono)
  with True assms show ?thesis by (simp add: ctx_round_nz mult_right_mono)
next
  case False
  with adjusted_mono [OF assms] have "adjusted x + 1 \<le> adjusted y" by simp
  then have "pow10 (adjusted x + 1) \<le> pow10 (adjusted y)" by (rule pow10_mono)
  with ctx_round_between(2) [OF assms(1)] ctx_round_between(1) [of y] assms show ?thesis by simp
qed

lemma ctx_round_mono: "x \<le> y \<Longrightarrow> ctx_round x \<le> ctx_round y"
proof -
  assume xy: "x \<le> y"
  consider "0 < x" | "y < 0" | "x \<le> 0" "0 \<le> y" by linarith
  then show ?thesis
  proof cases
    case 1
    then show ?thesis using xy by (rule ctx_round_mono_pos)
  next
    case 2
    then have "ctx_round (- y) \<le> ctx_round (- x)" using xy by (intro ctx_round_mono_pos) simp_all
    then show ?thesis by (simp add: ctx_round_minus)
  next
    case 3
    then have "ctx_round x \<le> 0" "0 \<le> ctx_round y"
      using ctx_round_pos_iff [of x] ctx_round_nonneg_iff [of y] by linarith+
    then show ?thesis by linarith
  qed
qed

lemma ctx_round_le_fits: "fits28 y \<Longrightarrow> x \<le> y \<Longrightarrow> ctx_round x \<le> y"
  using ctx_round_mono [of x y] by (simp add: ctx_round_exact)

lemma ctx_round_ge_fits: "fits28 y \<Longrightarrow> y \<le> x \<Longrightarrow> y \<le> ctx_round x"
  using ctx_round_mono [of y x] by (simp add: ctx_round_exact)

subsection \<open>The operators\<close>

definition dadd :: "decimal \<Rightarrow> decimal \<Rightarrow> decimal" where
  "dadd a b = ctx_round (a + b)"

definition dsub :: "decimal \<Rightarrow> decimal \<Rightarrow> decimal" where
  "dsub a b = ctx_round (a - b)"

definition dmul :: "decimal \<Rightarrow> decimal \<Rightarrow> decimal" where
  "dmul a b = ctx_round (a * b)"

text \<open>Unary minus and \<open>abs\<close> round like any other operation.\<close>

definition dneg :: "decimal \<Rightarrow> decimal" where
  "dneg a = ctx_round (- a)"

definition dabs :: "decimal \<Rightarrow> decimal" where
  "dabs a = ctx_round \<bar>a\<bar>"

text \<open>Division: \<open>0 / 0\<close> is \<open>InvalidOperation\<close>, \<open>x / 0\<close> is \<open>DivisionByZero\<close>.\<close>

datatype decimal_error = DivisionByZero | InvalidOperation

definition ddiv :: "decimal \<Rightarrow> decimal \<Rightarrow> decimal_error + decimal" where
  "ddiv a b = (if b = 0 then Inl (if a = 0 then InvalidOperation else DivisionByZero)
               else Inr (ctx_round (a / b)))"

text \<open>Division by a divisor the types of the code guarantee to be non-zero.\<close>

definition ddiv_nz :: "decimal \<Rightarrow> decimal \<Rightarrow> decimal" where
  "ddiv_nz a b = ctx_round (a / b)"

text \<open>A decimal together with the exponent of its representation.\<close>

datatype dec = Dec (coefficient: int) (exponent: int)

definition dec_val :: "dec \<Rightarrow> decimal" where
  "dec_val d = of_int (coefficient d) * pow10 (exponent d)"

text \<open>
  \<open>Decimal.quantize\<close>: the value rounded to a multiple of \<open>10 ^ e\<close>;
  \<open>InvalidOperation\<close> when the coefficient would need more than 28 digits.
\<close>

definition quantize :: "decimal \<Rightarrow> int \<Rightarrow> decimal_error + decimal" where
  "quantize x e =
     (let c = round_half_even (x / pow10 e)
      in if 10 ^ 28 \<le> \<bar>c\<bar> then Inl InvalidOperation else Inr (of_int c * pow10 e))"

text \<open>
  \<open>Decimal.__mod__\<close> of two positive values: \<open>InvalidOperation\<close> when the integer
  quotient needs more than 28 digits, as for a zero divisor.
\<close>

definition dmod :: "decimal \<Rightarrow> decimal \<Rightarrow> decimal_error + decimal" where
  "dmod a b =
     (if b = 0 \<or> 10 ^ 28 \<le> \<bar>round_down (a / b)\<bar> then Inl InvalidOperation
      else Inr (ctx_round (a - of_int (round_down (a / b)) * b)))"

lemma dadd_exact: "fits28 (a + b) \<Longrightarrow> dadd a b = a + b"
  by (simp add: dadd_def ctx_round_exact)

lemma dsub_exact: "fits28 (a - b) \<Longrightarrow> dsub a b = a - b"
  by (simp add: dsub_def ctx_round_exact)

lemma dmul_exact: "fits28 (a * b) \<Longrightarrow> dmul a b = a * b"
  by (simp add: dmul_def ctx_round_exact)

lemma dmul_pos: "0 < a \<Longrightarrow> 0 < b \<Longrightarrow> 0 < dmul a b"
  by (simp add: dmul_def)

lemma dadd_pos: "0 < a \<Longrightarrow> 0 < b \<Longrightarrow> 0 < dadd a b"
  by (simp add: dadd_def)

lemma dsub_zero_iff [simp]: "dsub a b = 0 \<longleftrightarrow> a = b"
  by (simp add: dsub_def)

lemma dsub_pos_iff [simp]: "0 < dsub a b \<longleftrightarrow> b < a"
  by (simp add: dsub_def)

lemma dabs_zero_iff [simp]: "dabs a = 0 \<longleftrightarrow> a = 0"
  by (simp add: dabs_def)

lemma dabs_pos_iff [simp]: "0 < dabs a \<longleftrightarrow> a \<noteq> 0"
  by (simp add: dabs_def)

text \<open>The relative error of one operation.\<close>

lemma ctx_round_lower: "0 \<le> x \<Longrightarrow> x * (1 - 1 / (2 * 10 ^ 27)) \<le> ctx_round x"
proof -
  assume "0 \<le> x"
  then have "x - ctx_round x \<le> x / (2 * 10 ^ 27)" using ctx_round_error [of x] by linarith
  moreover have "x * (1 - 1 / (2 * 10 ^ 27)) = x - x / (2 * 10 ^ 27)"
    by (simp only: right_diff_distrib mult_1_right times_divide_eq_right)
  ultimately show ?thesis by linarith
qed

lemma ctx_round_upper: "0 \<le> x \<Longrightarrow> ctx_round x \<le> x * (1 + 1 / (2 * 10 ^ 27))"
proof -
  assume "0 \<le> x"
  then have "ctx_round x - x \<le> x / (2 * 10 ^ 27)" using ctx_round_error [of x] by linarith
  moreover have "x * (1 + 1 / (2 * 10 ^ 27)) = x + x / (2 * 10 ^ 27)"
    by (simp only: distrib_left mult_1_right times_divide_eq_right)
  ultimately show ?thesis by linarith
qed

lemma dmul_lower: "0 \<le> a * b \<Longrightarrow> a * b * (1 - 1 / (2 * 10 ^ 27)) \<le> dmul a b"
  unfolding dmul_def by (rule ctx_round_lower)

lemma dadd_lower: "0 \<le> a + b \<Longrightarrow> (a + b) * (1 - 1 / (2 * 10 ^ 27)) \<le> dadd a b"
  unfolding dadd_def by (rule ctx_round_lower)

lemma dmul_dmul_lower:
  assumes "0 \<le> a" "0 \<le> b" "0 \<le> c"
  shows "a * b * c * (1 - 1 / (2 * 10 ^ 27)) ^ 2 \<le> dmul (dmul a b) c"
proof -
  let ?k = "1 - 1 / (2 * 10 ^ 27) :: rat"
  have k: "0 \<le> ?k" by simp
  have ab: "a * b * ?k \<le> dmul a b" using assms by (intro dmul_lower) simp
  have "a * b * ?k * c \<le> dmul a b * c" using ab assms(3) by (rule mult_right_mono)
  then have "a * b * ?k * c * ?k \<le> dmul a b * c * ?k" using k by (rule mult_right_mono)
  also have "\<dots> \<le> dmul (dmul a b) c"
    using assms by (intro dmul_lower) (simp add: dmul_def)
  finally show ?thesis by (simp add: power2_eq_square mult_ac)
qed

lemma quantize_exact:
  assumes "x = of_int k * pow10 e" and "\<bar>k\<bar> < 10 ^ 28"
  shows "quantize x e = Inr x"
proof -
  have "x / pow10 e = of_int k" using assms(1) by simp
  then have "round_half_even (x / pow10 e) = k" by (simp only: round_half_even_of_int)
  with assms show ?thesis by (simp add: quantize_def)
qed

lemma quantize_grid:
  assumes "quantize x e = Inr y"
  obtains k where "y = of_int k * pow10 e" and "\<bar>k\<bar> < 10 ^ 28"
  using assms by (auto simp: quantize_def Let_def not_le split: if_splits)

subsection \<open>A fixed-point grid\<close>

text \<open>
  The execution tables store quantities as \<open>NUMERIC(38, 8)\<close>. On multiples of
  \<open>10 ^ -8\<close> below \<open>10 ^ 19\<close> sums and differences need at most 28 digits, so the
  decimal arithmetic of the order records is exact.
\<close>

definition on_grid :: "rat \<Rightarrow> bool" where
  "on_grid x \<longleftrightarrow> (\<exists>k. x = of_int k / 10 ^ 8 \<and> \<bar>k\<bar> \<le> 10 ^ 27)"

lemma on_gridI: "x = of_int k / 10 ^ 8 \<Longrightarrow> \<bar>k\<bar> \<le> 10 ^ 27 \<Longrightarrow> on_grid x"
  by (auto simp: on_grid_def)

lemma on_grid_fits28_sum:
  assumes "on_grid x" and "on_grid y"
  shows "fits28 (x + y)" and "fits28 (x - y)"
proof -
  obtain j k where jk: "x = of_int j / 10 ^ 8" "y = of_int k / 10 ^ 8"
    "\<bar>j\<bar> \<le> 10 ^ 27" "\<bar>k\<bar> \<le> 10 ^ 27"
    using assms by (auto simp: on_grid_def)
  have p: "pow10 (- 8) = 1 / 10 ^ 8" by (simp add: pow10_def)
  have "x + y = of_int (j + k) * pow10 (- 8)" "x - y = of_int (j - k) * pow10 (- 8)"
    by (simp_all only: p jk of_int_add of_int_diff add_divide_distrib diff_divide_distrib
      times_divide_eq_right mult_1_right)
  moreover have "\<bar>j + k\<bar> < 10 ^ 28" "\<bar>j - k\<bar> < 10 ^ 28"
    using jk(3,4) by (simp_all add: abs_le_iff abs_less_iff)
  ultimately show "fits28 (x + y)" and "fits28 (x - y)" by (blast intro: fits28I)+
qed

lemma on_grid_dadd [simp]: "on_grid x \<Longrightarrow> on_grid y \<Longrightarrow> dadd x y = x + y"
  by (simp add: dadd_exact on_grid_fits28_sum)

lemma on_grid_dsub [simp]: "on_grid x \<Longrightarrow> on_grid y \<Longrightarrow> dsub x y = x - y"
  by (simp add: dsub_exact on_grid_fits28_sum)

lemma on_grid_0 [simp]: "on_grid 0"
  by (auto simp: on_grid_def)

text \<open>A value between zero and a value of the grid, itself a sum on the grid, is on it.\<close>

lemma on_grid_add_le:
  assumes "on_grid x" and "on_grid y" and "0 \<le> x + y" and "x + y \<le> z" and "on_grid z"
  shows "on_grid (x + y)"
proof -
  obtain i j k where ijk: "x = of_int i / 10 ^ 8" "y = of_int j / 10 ^ 8" "z = of_int k / 10 ^ 8"
    "\<bar>k\<bar> \<le> 10 ^ 27" using assms(1,2,5) by (auto simp: on_grid_def)
  have xy: "x + y = of_int (i + j) / 10 ^ 8" by (simp add: ijk(1,2) add_divide_distrib)
  have "0 \<le> (of_int (i + j) :: rat)" "(of_int (i + j) :: rat) \<le> of_int k"
    using assms(3,4) unfolding xy ijk(3) by simp_all
  then have "0 \<le> i + j" "i + j \<le> k" by (simp_all only: of_int_0_le_iff of_int_le_iff)
  then have "\<bar>i + j\<bar> \<le> 10 ^ 27" using ijk(4) by linarith
  with xy show ?thesis by (rule on_gridI)
qed

lemma on_grid_diff_le:
  assumes "on_grid x" and "on_grid y" and "0 \<le> y" and "y \<le> x"
  shows "on_grid (x - y)"
proof -
  obtain i j where ij: "x = of_int i / 10 ^ 8" "y = of_int j / 10 ^ 8" "\<bar>i\<bar> \<le> 10 ^ 27"
    using assms(1,2) by (auto simp: on_grid_def)
  have xy: "x - y = of_int (i - j) / 10 ^ 8" by (simp add: ij(1,2) diff_divide_distrib)
  have "0 \<le> (of_int j :: rat)" "(of_int j :: rat) \<le> of_int i"
    using assms(3,4) unfolding ij by simp_all
  then have "0 \<le> j" "j \<le> i" by (simp_all only: of_int_0_le_iff of_int_le_iff)
  then have "\<bar>i - j\<bar> \<le> 10 ^ 27" using ij(3) by linarith
  with xy show ?thesis by (rule on_gridI)
qed


subsection \<open>Evaluation\<close>

text \<open>Code equations over the integers, for the evaluation of concrete inputs.\<close>

fun idigits :: "int \<Rightarrow> int" where
  "idigits n = (if n < 10 then 1 else 1 + idigits (n div 10))"

declare idigits.simps [simp del]

lemma ndigits_nat: "int (ndigits (nat n)) = idigits n"
proof (induction n rule: idigits.induct)
  case (1 n)
  show ?case
  proof (cases "n < 10")
    case True
    then have "nat n < 10" by linarith
    with True show ?thesis by (simp add: ndigits.simps [of "nat n"] idigits.simps [of n])
  next
    case False
    then have "nat n div 10 = nat (n div 10)" "\<not> nat n < 10" by (simp_all add: nat_div_distrib)
    with False 1 show ?thesis by (simp add: ndigits.simps [of "nat n"] idigits.simps [of n])
  qed
qed

lemma adjusted_code [code]:
  "adjusted x =
     (let (n, d) = quotient_of \<bar>x\<bar>; e = idigits n - idigits d
      in if pow10 e \<le> \<bar>x\<bar> then e else e - 1)"
  by (simp add: adjusted_def ndigits_nat split_def Let_def)

lemma pow10_code [code]:
  "pow10 e = (if 0 \<le> e then of_int (10 ^ nat e) else 1 / of_int (10 ^ nat (- e)))"
  by (simp add: pow10_def)

end
