(* ===== verification/Domain.thy ===== *)
theory Domain
  imports Decimal
begin

text \<open>
  The canonical domain layer: the enumerations of \<^verbatim>\<open>core/domain/enums.py\<close> and the three
  lifecycles of \<^verbatim>\<open>core/domain/state_machines.py\<close> (orders, strategies, trades), with
  the exceptions of the engines collected in one datatype.

  Each lifecycle is the transition table of the source and its two functions
  (\<open>is_valid_*\<close>, \<open>assert_valid_*\<close>). The locale \<open>lifecycle\<close> states what the tables
  share, a rank that every transition to another state increases, and proves once that a run
  never comes back to a state it has left.
\<close>

subsection \<open>Enumerations\<close>

datatype operating_mode = OM_RESEARCH | OM_BACKTEST | OM_PAPER | OM_LIVE_GATED | OM_LIVE_AUTO

definition is_live_mode :: "operating_mode \<Rightarrow> bool" where
  "is_live_mode mode \<longleftrightarrow> mode \<in> {OM_LIVE_GATED, OM_LIVE_AUTO}"

definition allows_order_submission :: "operating_mode \<Rightarrow> bool" where
  "allows_order_submission mode \<longleftrightarrow> mode \<in> {OM_BACKTEST, OM_PAPER, OM_LIVE_GATED, OM_LIVE_AUTO}"

datatype order_state =
    OS_CANDIDATE | OS_RISK_REJECTED | OS_APPROVED | OS_ORDER_INTENT | OS_SUBMITTED
  | OS_ACKNOWLEDGED | OS_PARTIALLY_FILLED | OS_FILLED | OS_CANCELLED | OS_REJECTED
  | OS_RECONCILED | OS_CLOSED | OS_REVIEWED

datatype discrepancy_code =
    ORDER_ACK_LOST | ORDER_NEVER_ACKNOWLEDGED | FILL_EVENT_LOST | POSITION_EVENT_LOST
  | POSITION_CLOSED_AT_VENUE | PRICE_DRIFT | BROKER_DEGRADED | UNEXPECTED_BROKER_ORDER
  | UNEXPECTED_BROKER_POSITION | MISSING_BROKER_ORDER | QUANTITY_MISMATCH
  | IDENTIFIER_MISMATCH | OVERFILL | BROKER_UNREACHABLE

datatype safe_mode_reason =
    SMR_RECONCILIATION_DIVERGENCE | SMR_BROKER_UNREACHABLE | SMR_OVERFILL_DETECTED
  | SMR_MANUAL_INTERVENTION

datatype safe_mode_action = NEW_ENTRY | RISK_REDUCING | RECONCILIATION | MONITORING

datatype emergency_level = STRATEGY_KILL | INSTRUMENT_KILL | NO_NEW_POSITIONS | EMERGENCY_KILL

datatype strategy_state =
    SS_IDEA | SS_CANDIDATE | SS_BACKTESTED | SS_WALK_FORWARD_OK | SS_ROBUSTNESS_OK
  | SS_PAPER | SS_SHADOW | SS_LIVE_GATED | SS_LIVE_AUTO | SS_RETIRED

datatype order_side = BUY | SELL

datatype position_side = PS_LONG | PS_SHORT | PS_FLAT

datatype order_type = MARKET | LIMIT | STOP | STOP_LIMIT

datatype time_in_force = GTC | DAY | IOC | FOK

datatype execution_state =
    ES_SUBMITTED | ES_ACKNOWLEDGED | ES_PARTIAL_FILL | ES_FILLED | ES_REJECTED | ES_CANCELLED

datatype signal_direction = SD_LONG | SD_SHORT | SD_FLAT

datatype risk_decision_type = RD_APPROVE | RD_RESIZE | RD_REJECT

datatype risk_reason_code =
    INSUFFICIENT_MARGIN | RISK_LIMIT_EXCEEDED | MAX_DAILY_LOSS_REACHED | MAX_DRAWDOWN_REACHED
  | EXPOSURE_LIMIT_EXCEEDED | CONCENTRATION_LIMIT_EXCEEDED | LEVERAGE_LIMIT_EXCEEDED
  | TURNOVER_LIMIT_EXCEEDED | MAX_POSITIONS_REACHED | MAX_ORDERS_REACHED
  | LOSS_SEQUENCE_COOLDOWN | SYMBOL_NOT_WHITELISTED | STRATEGY_INACTIVE | MARKET_CLOSED
  | TRADING_HOURS_RESTRICTED | EVENT_RESTRICTED | STALE_QUOTES | SPREAD_TOO_HIGH
  | SLIPPAGE_CAP_EXCEEDED | INVALID_STOP_DISTANCE | SIZE_BELOW_MINIMUM | SIZE_ABOVE_MAXIMUM
  | LOT_STEP_INVALID | BROKER_DISCONNECTED | HEARTBEAT_LOST | RECONCILIATION_DIVERGENCE
  | SAFE_MODE_ACTIVE | POLICY_NOT_FOUND | UNKNOWN

datatype asset_class = FX | EQUITY | COMMODITY | CRYPTO | INDEX | BOND

datatype trade_lifecycle_state =
    TL_RESEARCHING | TL_SIGNAL_FUSED | TL_PROPOSED | TL_RISK_REJECTED | TL_RISK_APPROVED
  | TL_ORDER_CREATED | TL_ORDER_REJECTED | TL_POSITION_OPEN | TL_POSITION_CLOSED
  | TL_REVIEWED | TL_FAILED

text \<open>The \<open>StrEnum\<close> values the code stores or sorts by.\<close>

fun safe_mode_reason_value :: "safe_mode_reason \<Rightarrow> string" where
  "safe_mode_reason_value SMR_RECONCILIATION_DIVERGENCE = ''RECONCILIATION_DIVERGENCE''"
| "safe_mode_reason_value SMR_BROKER_UNREACHABLE = ''BROKER_UNREACHABLE''"
| "safe_mode_reason_value SMR_OVERFILL_DETECTED = ''OVERFILL_DETECTED''"
| "safe_mode_reason_value SMR_MANUAL_INTERVENTION = ''MANUAL_INTERVENTION''"

fun emergency_level_value :: "emergency_level \<Rightarrow> string" where
  "emergency_level_value STRATEGY_KILL = ''STRATEGY_KILL''"
| "emergency_level_value INSTRUMENT_KILL = ''INSTRUMENT_KILL''"
| "emergency_level_value NO_NEW_POSITIONS = ''NO_NEW_POSITIONS''"
| "emergency_level_value EMERGENCY_KILL = ''EMERGENCY_KILL''"

subsection \<open>Exceptions\<close>

text \<open>
  The exceptions the engines raise. \<open>InvalidStateTransition\<close> is a subclass of
  \<open>ValueError\<close> in the source (\<open>is_value_error\<close>); a decimal error is an
  \<open>ArithmeticError\<close>.
\<close>

datatype exn =
    ValueError string
  | InvalidStateTransition order_state order_state
  | StaleStateError uuid int int
  | ExecutionDivergenceError discrepancy_code uuid
  | SafeModeViolation safe_mode_action "string list"
  | EmergencyControlViolation "string list"
  | LiveGateViolation string
  | LiveAutoViolation string
  | RiskEngineInputError string
  | Mt4ProtocolError string
  | DecimalError decimal_error
  | AssertionError
  | NotImplementedError string
  | RuntimeError string
  | KeyError string
  | StalePipelineStateError string int int
  | InvalidTradeTransition trade_lifecycle_state trade_lifecycle_state

fun is_value_error :: "exn \<Rightarrow> bool" where
  "is_value_error (ValueError _) = True"
| "is_value_error (InvalidStateTransition _ _) = True"
| "is_value_error (RiskEngineInputError _) = True"
| "is_value_error (InvalidTradeTransition _ _) = True"
| "is_value_error _ = False"

subsection \<open>State machines\<close>

fun order_state_transitions :: "order_state \<Rightarrow> order_state list" where
  "order_state_transitions OS_CANDIDATE = [OS_RISK_REJECTED, OS_APPROVED]"
| "order_state_transitions OS_RISK_REJECTED = []"
| "order_state_transitions OS_APPROVED = [OS_ORDER_INTENT]"
| "order_state_transitions OS_ORDER_INTENT = [OS_SUBMITTED, OS_CANCELLED]"
| "order_state_transitions OS_SUBMITTED = [OS_ACKNOWLEDGED, OS_REJECTED, OS_CANCELLED]"
| "order_state_transitions OS_ACKNOWLEDGED =
     [OS_PARTIALLY_FILLED, OS_FILLED, OS_REJECTED, OS_CANCELLED]"
| "order_state_transitions OS_PARTIALLY_FILLED =
     [OS_PARTIALLY_FILLED, OS_FILLED, OS_REJECTED, OS_CANCELLED]"
| "order_state_transitions OS_FILLED = [OS_RECONCILED, OS_CLOSED]"
| "order_state_transitions OS_CANCELLED = [OS_RECONCILED]"
| "order_state_transitions OS_REJECTED = [OS_RECONCILED]"
| "order_state_transitions OS_RECONCILED = [OS_CLOSED]"
| "order_state_transitions OS_CLOSED = [OS_REVIEWED]"
| "order_state_transitions OS_REVIEWED = []"

fun strategy_state_transitions :: "strategy_state \<Rightarrow> strategy_state list" where
  "strategy_state_transitions SS_IDEA = [SS_CANDIDATE, SS_RETIRED]"
| "strategy_state_transitions SS_CANDIDATE = [SS_BACKTESTED, SS_RETIRED]"
| "strategy_state_transitions SS_BACKTESTED = [SS_WALK_FORWARD_OK, SS_RETIRED]"
| "strategy_state_transitions SS_WALK_FORWARD_OK = [SS_ROBUSTNESS_OK, SS_RETIRED]"
| "strategy_state_transitions SS_ROBUSTNESS_OK = [SS_PAPER, SS_RETIRED]"
| "strategy_state_transitions SS_PAPER = [SS_SHADOW, SS_RETIRED]"
| "strategy_state_transitions SS_SHADOW = [SS_LIVE_GATED, SS_RETIRED]"
| "strategy_state_transitions SS_LIVE_GATED = [SS_LIVE_AUTO, SS_RETIRED]"
| "strategy_state_transitions SS_LIVE_AUTO = [SS_RETIRED]"
| "strategy_state_transitions SS_RETIRED = []"

fun trade_lifecycle_transitions :: "trade_lifecycle_state \<Rightarrow> trade_lifecycle_state list" where
  "trade_lifecycle_transitions TL_RESEARCHING = [TL_SIGNAL_FUSED, TL_FAILED]"
| "trade_lifecycle_transitions TL_SIGNAL_FUSED = [TL_PROPOSED, TL_FAILED]"
| "trade_lifecycle_transitions TL_PROPOSED = [TL_RISK_REJECTED, TL_RISK_APPROVED, TL_FAILED]"
| "trade_lifecycle_transitions TL_RISK_REJECTED = []"
| "trade_lifecycle_transitions TL_RISK_APPROVED = [TL_ORDER_CREATED, TL_FAILED]"
| "trade_lifecycle_transitions TL_ORDER_CREATED =
     [TL_ORDER_REJECTED, TL_POSITION_OPEN, TL_POSITION_CLOSED, TL_FAILED]"
| "trade_lifecycle_transitions TL_ORDER_REJECTED = []"
| "trade_lifecycle_transitions TL_POSITION_OPEN = [TL_POSITION_CLOSED, TL_FAILED]"
| "trade_lifecycle_transitions TL_POSITION_CLOSED = [TL_REVIEWED]"
| "trade_lifecycle_transitions TL_REVIEWED = []"
| "trade_lifecycle_transitions TL_FAILED = []"

definition is_valid_order_transition :: "order_state \<Rightarrow> order_state \<Rightarrow> bool" where
  "is_valid_order_transition current target \<longleftrightarrow> target \<in> set (order_state_transitions current)"

definition is_valid_strategy_transition :: "strategy_state \<Rightarrow> strategy_state \<Rightarrow> bool" where
  "is_valid_strategy_transition current target \<longleftrightarrow>
     target \<in> set (strategy_state_transitions current)"

definition is_valid_trade_transition :: "trade_lifecycle_state \<Rightarrow> trade_lifecycle_state \<Rightarrow> bool" where
  "is_valid_trade_transition current target \<longleftrightarrow>
     target \<in> set (trade_lifecycle_transitions current)"

definition assert_valid_order_transition :: "order_state \<Rightarrow> order_state \<Rightarrow> exn + unit" where
  "assert_valid_order_transition current target =
     (if \<not> is_valid_order_transition current target
      then Inl (InvalidStateTransition current target) else Inr ())"

lemmas transition_defs =
  is_valid_order_transition_def is_valid_strategy_transition_def is_valid_trade_transition_def

subsection \<open>Ranked lifecycles\<close>

locale lifecycle =
  fixes valid :: "'s \<Rightarrow> 's \<Rightarrow> bool"
    and rank :: "'s \<Rightarrow> nat"
  assumes rank_step: "valid s t \<Longrightarrow> s \<noteq> t \<Longrightarrow> rank s < rank t"
begin

lemma path_rank_le: "successively valid (s # p) \<Longrightarrow> t \<in> set p \<Longrightarrow> rank s \<le> rank t"
proof (induction p arbitrary: s)
  case Nil
  then show ?case by simp
next
  case (Cons u p)
  have "rank s \<le> rank u" using Cons.prems(1) rank_step [of s u] by (cases "s = u") auto
  moreover have "rank u \<le> rank t" using Cons by (cases "t = u") auto
  ultimately show ?case by linarith
qed

lemma path_distinct:
  "successively valid p \<Longrightarrow> successively (\<noteq>) p \<Longrightarrow> distinct p"
proof (induction p)
  case Nil
  then show ?case by simp
next
  case (Cons s p)
  have "s \<notin> set p"
  proof
    assume s: "s \<in> set p"
    then obtain u q where p: "p = u # q" by (cases p) auto
    have su: "rank s < rank u" using Cons.prems rank_step [of s u] by (auto simp: p)
    have "rank u \<le> rank s"
      using s su Cons.prems(1) path_rank_le [of u q s] by (auto simp: p)
    with su show False by simp
  qed
  with Cons show ?case by (cases p) (auto simp: successively_Cons)
qed

end

fun order_rank :: "order_state \<Rightarrow> nat" where
  "order_rank OS_CANDIDATE = 0"
| "order_rank OS_RISK_REJECTED = 1"
| "order_rank OS_APPROVED = 1"
| "order_rank OS_ORDER_INTENT = 2"
| "order_rank OS_SUBMITTED = 3"
| "order_rank OS_ACKNOWLEDGED = 4"
| "order_rank OS_PARTIALLY_FILLED = 5"
| "order_rank OS_FILLED = 6"
| "order_rank OS_CANCELLED = 6"
| "order_rank OS_REJECTED = 6"
| "order_rank OS_RECONCILED = 7"
| "order_rank OS_CLOSED = 8"
| "order_rank OS_REVIEWED = 9"

fun strategy_rank :: "strategy_state \<Rightarrow> nat" where
  "strategy_rank SS_IDEA = 0"
| "strategy_rank SS_CANDIDATE = 1"
| "strategy_rank SS_BACKTESTED = 2"
| "strategy_rank SS_WALK_FORWARD_OK = 3"
| "strategy_rank SS_ROBUSTNESS_OK = 4"
| "strategy_rank SS_PAPER = 5"
| "strategy_rank SS_SHADOW = 6"
| "strategy_rank SS_LIVE_GATED = 7"
| "strategy_rank SS_LIVE_AUTO = 8"
| "strategy_rank SS_RETIRED = 9"

fun trade_rank :: "trade_lifecycle_state \<Rightarrow> nat" where
  "trade_rank TL_RESEARCHING = 0"
| "trade_rank TL_SIGNAL_FUSED = 1"
| "trade_rank TL_PROPOSED = 2"
| "trade_rank TL_RISK_REJECTED = 7"
| "trade_rank TL_RISK_APPROVED = 3"
| "trade_rank TL_ORDER_CREATED = 4"
| "trade_rank TL_ORDER_REJECTED = 7"
| "trade_rank TL_POSITION_OPEN = 5"
| "trade_rank TL_POSITION_CLOSED = 6"
| "trade_rank TL_REVIEWED = 7"
| "trade_rank TL_FAILED = 7"

interpretation order_lc: lifecycle is_valid_order_transition order_rank
proof unfold_locales
  fix s t assume "is_valid_order_transition s t" "s \<noteq> t"
  then show "order_rank s < order_rank t" by (cases s) (auto simp: transition_defs)
qed

interpretation strategy_lc: lifecycle is_valid_strategy_transition strategy_rank
proof unfold_locales
  fix s t assume "is_valid_strategy_transition s t" "s \<noteq> t"
  then show "strategy_rank s < strategy_rank t" by (cases s) (auto simp: transition_defs)
qed

interpretation trade_lc: lifecycle is_valid_trade_transition trade_rank
proof unfold_locales
  fix s t assume "is_valid_trade_transition s t" "s \<noteq> t"
  then show "trade_rank s < trade_rank t" by (cases s) (auto simp: transition_defs)
qed

text \<open>The promotion ladder of INV-8, in order.\<close>

definition promotion_ladder :: "strategy_state list" where
  "promotion_ladder = [SS_IDEA, SS_CANDIDATE, SS_BACKTESTED, SS_WALK_FORWARD_OK,
     SS_ROBUSTNESS_OK, SS_PAPER, SS_SHADOW, SS_LIVE_GATED, SS_LIVE_AUTO]"

lemma ladder_suffix:
  "successively is_valid_strategy_transition (s # p) \<Longrightarrow> last (s # p) = SS_LIVE_AUTO \<Longrightarrow>
   s # p = dropWhile (\<lambda>t. t \<noteq> s) promotion_ladder"
proof (induction p arbitrary: s)
  case Nil
  then show ?case by (simp add: promotion_ladder_def)
next
  case (Cons u p)
  have step: "is_valid_strategy_transition s u" and
    IH: "u # p = dropWhile (\<lambda>t. t \<noteq> u) promotion_ladder"
    using Cons by (auto simp del: last.simps simp: last_ConsR)
  have "u \<noteq> SS_RETIRED" using IH by (auto simp: promotion_ladder_def)
  with step IH show ?case
    by (cases s) (auto simp: transition_defs promotion_ladder_def)
qed

text \<open>
  A strategy reaches \<open>LIVE_AUTO\<close> from \<open>IDEA\<close> along exactly one path, the whole
  promotion ladder; no run of the strategy lifecycle skips \<open>PAPER\<close>, \<open>SHADOW\<close> or
  \<open>LIVE_GATED\<close> (INV-8).
\<close>

lemma strategy_reaches_live_only_by_ladder:
  assumes "successively is_valid_strategy_transition p" and "p \<noteq> []"
    and "hd p = SS_IDEA" and "last p = SS_LIVE_AUTO"
  shows "p = promotion_ladder"
proof -
  from assms(2,3) obtain q where p: "p = SS_IDEA # q" by (cases p) auto
  then have "p = dropWhile (\<lambda>t. t \<noteq> SS_IDEA) promotion_ladder"
    using ladder_suffix [of SS_IDEA q] assms by simp
  then show ?thesis by (simp add: promotion_ladder_def)
qed

lemma strategy_reaches_live_only_by_ladder_witness:
  "[SS_IDEA, SS_CANDIDATE, SS_BACKTESTED, SS_WALK_FORWARD_OK, SS_ROBUSTNESS_OK, SS_PAPER,
     SS_SHADOW, SS_LIVE_GATED, SS_LIVE_AUTO] = promotion_ladder"
  by (rule strategy_reaches_live_only_by_ladder) (simp_all add: transition_defs)

lemma order_path_to_fill:
  "successively is_valid_order_transition (s # p) \<Longrightarrow> OS_FILLED \<in> set p \<Longrightarrow>
   s \<in> {OS_CANDIDATE, OS_APPROVED, OS_ORDER_INTENT, OS_SUBMITTED} \<Longrightarrow> OS_ACKNOWLEDGED \<in> set p"
proof (induction p arbitrary: s)
  case Nil
  then show ?case by simp
next
  case (Cons u p)
  have step: "is_valid_order_transition s u" using Cons.prems(1) by simp
  consider "u = OS_ACKNOWLEDGED" | "u \<in> {OS_APPROVED, OS_ORDER_INTENT, OS_SUBMITTED}"
    | "u \<in> {OS_RISK_REJECTED, OS_CANCELLED, OS_REJECTED}"
    using step Cons.prems(3) by (auto simp: transition_defs)
  then show ?case
  proof cases
    case 1
    then show ?thesis by simp
  next
    case 2
    then have "OS_FILLED \<in> set p" using Cons.prems(2) by auto
    then show ?thesis using Cons.IH [of u] Cons.prems(1) 2 by (auto simp: successively_Cons)
  next
    case 3
    then have "OS_FILLED \<in> set p" using Cons.prems(2) by auto
    then have False
      using order_lc.path_rank_le [of u p OS_FILLED] 3 Cons.prems(1)
    proof -
      obtain w q where pw: "p = w # q" using \<open>OS_FILLED \<in> set p\<close> by (cases p) auto
      have "is_valid_order_transition u w" using Cons.prems(1) pw by simp
      then have "order_rank w \<ge> 7" using 3 by (auto simp: transition_defs)
      moreover have "order_rank w \<le> order_rank OS_FILLED"
        using \<open>OS_FILLED \<in> set p\<close> pw Cons.prems(1) order_lc.path_rank_le [of w q OS_FILLED]
        by (cases "w = OS_FILLED") auto
      ultimately show False by simp
    qed
    then show ?thesis ..
  qed
qed

text \<open>
  The order lifecycle never repeats a state it has left and never fills an order that the
  venue did not acknowledge: a run of valid transitions that starts before \<open>ACKNOWLEDGED\<close>
  and contains \<open>FILLED\<close> contains \<open>ACKNOWLEDGED\<close>, and a run without self-loops visits
  each state at most once (INV-6).
\<close>

lemma order_lifecycle_runs:
  assumes "successively is_valid_order_transition (s # p)"
    and "s \<in> {OS_CANDIDATE, OS_APPROVED, OS_ORDER_INTENT, OS_SUBMITTED}"
  shows "(OS_FILLED \<in> set p \<longrightarrow> OS_ACKNOWLEDGED \<in> set p) \<and>
    (successively (\<noteq>) (s # p) \<longrightarrow> distinct (s # p))"
  using order_path_to_fill [OF assms(1)] assms order_lc.path_distinct [of "s # p"] by blast

lemma order_lifecycle_runs_witness:
  "OS_ACKNOWLEDGED \<in> set [OS_ACKNOWLEDGED, OS_PARTIALLY_FILLED, OS_FILLED, OS_RECONCILED]
   \<and> distinct [OS_SUBMITTED, OS_ACKNOWLEDGED, OS_PARTIALLY_FILLED, OS_FILLED, OS_RECONCILED]"
  using order_lifecycle_runs [of OS_SUBMITTED
      "[OS_ACKNOWLEDGED, OS_PARTIALLY_FILLED, OS_FILLED, OS_RECONCILED]"]
  by (simp add: transition_defs)

lemma trade_path_length:
  "successively is_valid_trade_transition (s # p) \<Longrightarrow> length p + trade_rank s \<le> 7"
proof (induction p arbitrary: s)
  case Nil
  then show ?case by (cases s) auto
next
  case (Cons u p)
  have "is_valid_trade_transition s u" and "length p + trade_rank u \<le> 7"
    using Cons by (auto simp: successively_Cons)
  then show ?case using trade_lc.rank_step [of s u] by (cases s) (auto simp: transition_defs)
qed

text \<open>
  Every trade lifecycle ends: a run of valid transitions has at most eight states, and the
  states without successors are exactly the two rejections, \<open>REVIEWED\<close> and
  \<open>FAILED\<close>.
\<close>

lemma trade_lifecycle_terminates:
  "(successively is_valid_trade_transition p \<longrightarrow> length p \<le> 8) \<and>
   (trade_lifecycle_transitions s = [] \<longleftrightarrow>
      s \<in> {TL_RISK_REJECTED, TL_ORDER_REJECTED, TL_REVIEWED, TL_FAILED})"
proof -
  have "successively is_valid_trade_transition p \<Longrightarrow> length p \<le> 8"
    using trade_path_length by (cases p) fastforce+
  then show ?thesis by (cases s) auto
qed

lemma trade_lifecycle_terminates_witness:
  "length [TL_RESEARCHING, TL_SIGNAL_FUSED, TL_PROPOSED, TL_RISK_REJECTED] \<le> 8 \<and>
   trade_lifecycle_transitions TL_RISK_REJECTED = []"
  using trade_lifecycle_terminates
    [of "[TL_RESEARCHING, TL_SIGNAL_FUSED, TL_PROPOSED, TL_RISK_REJECTED]" TL_RISK_REJECTED]
  by (simp add: transition_defs)



end
