(* ===== verification/Contracts.thy ===== *)
theory Contracts
  imports Domain
begin

text \<open>
  The frozen contracts of \<^verbatim>\<open>core/schemas/market.py\<close>, \<^verbatim>\<open>core/schemas/trading.py\<close> and
  \<^verbatim>\<open>core/schemas/risk.py\<close>: one record per pydantic model and one predicate \<open>valid_*\<close>
  per model that collects its field constraints and validators. The envelope of
  \<open>DomainObject\<close> (schema version, provenance) is left out, except \<open>trace_id\<close> and
  \<open>produced_at\<close> where the code reads them.
\<close>

definition get_or :: "('k, 'v) dict \<Rightarrow> 'k \<Rightarrow> 'v \<Rightarrow> 'v" where
  "get_or d k dflt = (case map_of d k of None \<Rightarrow> dflt | Some v \<Rightarrow> v)"

definition opt_pos :: "decimal option \<Rightarrow> bool" where
  "opt_pos x \<longleftrightarrow> (case x of None \<Rightarrow> True | Some v \<Rightarrow> 0 < v)"

subsection \<open>Market\<close>

text \<open>
  \<open>lot_step\<close> keeps its representation, because \<open>floor_to_step\<close> quantizes to its
  exponent.
\<close>

record instrument =
  ins_instrument_id :: string
  ins_symbol :: string
  ins_exchange :: string
  ins_asset_class :: asset_class
  ins_base_currency :: "string option"
  ins_quote_currency :: "string option"
  ins_price_precision :: int
  ins_tick_size :: decimal
  ins_lot_size :: decimal
  ins_lot_step :: dec
  ins_min_lot :: decimal
  ins_max_lot :: decimal
  ins_contract_size :: decimal
  ins_is_active :: bool

definition instrument_id_ok :: "string \<Rightarrow> bool" where
  "instrument_id_ok s \<longleftrightarrow> 1 \<le> length s \<and> length s \<le> 32 \<and>
     list_all (\<lambda>c. (CHR ''A'' \<le> c \<and> c \<le> CHR ''Z'') \<or> (CHR ''0'' \<le> c \<and> c \<le> CHR ''9'') \<or>
       c \<in> set ''._/-'') s"

definition valid_instrument :: "instrument \<Rightarrow> bool" where
  "valid_instrument i \<longleftrightarrow>
     instrument_id_ok (ins_instrument_id i) \<and> ins_symbol i \<noteq> [] \<and> length (ins_symbol i) \<le> 64 \<and>
     ins_exchange i \<noteq> [] \<and> length (ins_exchange i) \<le> 64 \<and>
     0 \<le> ins_price_precision i \<and> ins_price_precision i \<le> 8 \<and>
     0 < ins_tick_size i \<and> 0 < ins_lot_size i \<and> 0 < dec_val (ins_lot_step i) \<and>
     0 < ins_min_lot i \<and> 0 < ins_max_lot i \<and> 0 < ins_contract_size i \<and>
     ins_min_lot i \<le> ins_max_lot i"

record market_snapshot =
  ms_instrument_id :: string
  ms_as_of :: instant
  ms_source_timestamp :: instant
  ms_bid :: decimal
  ms_ask :: decimal
  ms_high :: "decimal option"
  ms_low :: "decimal option"
  ms_close :: "decimal option"

definition valid_market_snapshot :: "market_snapshot \<Rightarrow> bool" where
  "valid_market_snapshot s \<longleftrightarrow>
     ms_instrument_id s \<noteq> [] \<and> 0 < ms_bid s \<and> 0 < ms_ask s \<and>
     opt_pos (ms_high s) \<and> opt_pos (ms_low s) \<and> opt_pos (ms_close s) \<and>
     ms_bid s \<le> ms_ask s \<and> ms_source_timestamp s \<le> ms_as_of s"

definition ms_mid :: "market_snapshot \<Rightarrow> decimal" where
  "ms_mid s = ddiv_nz (dadd (ms_bid s) (ms_ask s)) 2"

lemma ms_mid_pos: "valid_market_snapshot s \<Longrightarrow> 0 < ms_mid s"
  by (simp add: ms_mid_def ddiv_nz_def valid_market_snapshot_def dadd_pos)

subsection \<open>Trading\<close>

record trade_proposal =
  tp_proposal_id :: uuid
  tp_strategy_id :: string
  tp_strategy_version :: string
  tp_instrument_id :: string
  tp_operating_mode :: operating_mode
  tp_direction :: signal_direction
  tp_order_type :: order_type
  tp_time_in_force :: time_in_force
  tp_quantity :: decimal
  tp_limit_price :: "decimal option"
  tp_stop_loss :: "decimal option"
  tp_take_profit :: "decimal option"
  tp_rationale :: string
  tp_expires_at :: "instant option"
  tp_trace_id :: "uuid option"

definition valid_trade_proposal :: "trade_proposal \<Rightarrow> bool" where
  "valid_trade_proposal p \<longleftrightarrow>
     tp_strategy_id p \<noteq> [] \<and> tp_strategy_version p \<noteq> [] \<and> tp_instrument_id p \<noteq> [] \<and>
     0 < tp_quantity p \<and> opt_pos (tp_limit_price p) \<and> opt_pos (tp_stop_loss p) \<and>
     opt_pos (tp_take_profit p) \<and> tp_rationale p \<noteq> [] \<and> tp_direction p \<noteq> SD_FLAT"

record risk_decision =
  rd_decision_id :: uuid
  rd_proposal_id :: uuid
  rd_decision :: risk_decision_type
  rd_reason_codes :: "risk_reason_code list"
  rd_approved_quantity :: "decimal option"
  rd_approved_stop :: "decimal option"
  rd_risk_amount :: "decimal option"
  rd_policy_version :: string
  rd_risk_engine_version :: string
  rd_inputs_hash :: "string option"
  rd_produced_at :: instant
  rd_trace_id :: "uuid option"

text \<open>\<open>RiskDecision._check_shape\<close> together with the field constraints.\<close>

definition valid_risk_decision :: "risk_decision \<Rightarrow> bool" where
  "valid_risk_decision d \<longleftrightarrow>
     opt_pos (rd_approved_quantity d) \<and> opt_pos (rd_approved_stop d) \<and>
     opt_pos (rd_risk_amount d) \<and> rd_policy_version d \<noteq> [] \<and> rd_risk_engine_version d \<noteq> [] \<and>
     (if rd_decision d = RD_APPROVE \<or> rd_decision d = RD_RESIZE
      then rd_approved_quantity d \<noteq> None \<and> rd_approved_stop d \<noteq> None \<and>
           rd_risk_amount d \<noteq> None \<and>
           (rd_decision d = RD_APPROVE \<longrightarrow> rd_reason_codes d = []) \<and>
           (rd_decision d = RD_RESIZE \<longrightarrow> rd_reason_codes d \<noteq> [])
      else rd_reason_codes d \<noteq> [] \<and> rd_approved_quantity d = None \<and>
           rd_approved_stop d = None \<and> rd_risk_amount d = None)"

record order_intent =
  oi_order_intent_id :: uuid
  oi_risk_decision_id :: uuid
  oi_proposal_id :: "uuid option"
  oi_strategy_id :: string
  oi_strategy_version :: string
  oi_instrument_id :: string
  oi_operating_mode :: operating_mode
  oi_side :: order_side
  oi_order_type :: order_type
  oi_time_in_force :: time_in_force
  oi_quantity :: decimal
  oi_price :: "decimal option"
  oi_stop_loss :: "decimal option"
  oi_take_profit :: "decimal option"
  oi_max_slippage :: decimal
  oi_sequence :: int
  oi_valid_until :: "instant option"
  oi_created_by :: string
  oi_trace_id :: "uuid option"
  oi_produced_at :: instant

definition valid_order_intent :: "order_intent \<Rightarrow> bool" where
  "valid_order_intent i \<longleftrightarrow>
     oi_strategy_id i \<noteq> [] \<and> oi_strategy_version i \<noteq> [] \<and> oi_instrument_id i \<noteq> [] \<and>
     0 < oi_quantity i \<and> opt_pos (oi_price i) \<and> opt_pos (oi_stop_loss i) \<and>
     opt_pos (oi_take_profit i) \<and> 0 \<le> oi_max_slippage i \<and> 0 \<le> oi_sequence i \<and>
     oi_created_by i \<noteq> [] \<and> allows_order_submission (oi_operating_mode i) \<and>
     (oi_order_type i \<noteq> MARKET \<longrightarrow> oi_price i \<noteq> None)"

record execution_report =
  er_execution_report_id :: uuid
  er_order_intent_id :: uuid
  er_venue_order_id :: "string option"
  er_status :: execution_state
  er_filled_quantity :: decimal
  er_average_fill_price :: "decimal option"
  er_commission :: decimal
  er_fees :: decimal
  er_slippage :: "decimal option"
  er_reject_reason :: "string option"
  er_report_time :: instant
  er_sequence :: int

definition valid_execution_report :: "execution_report \<Rightarrow> bool" where
  "valid_execution_report r \<longleftrightarrow>
     0 \<le> er_filled_quantity r \<and> opt_pos (er_average_fill_price r) \<and> 0 \<le> er_commission r \<and>
     0 \<le> er_fees r \<and> 0 \<le> er_sequence r \<and>
     (er_status r = ES_FILLED \<longrightarrow> 0 < er_filled_quantity r)"

record position_snapshot =
  pos_position_id :: string
  pos_account_id :: string
  pos_strategy_id :: "string option"
  pos_instrument_id :: string
  pos_side :: position_side
  pos_quantity :: decimal
  pos_average_entry_price :: decimal
  pos_mark_price :: "decimal option"
  pos_unrealized_pnl :: "decimal option"
  pos_as_of :: instant

definition valid_position_snapshot :: "position_snapshot \<Rightarrow> bool" where
  "valid_position_snapshot p \<longleftrightarrow>
     pos_position_id p \<noteq> [] \<and> pos_account_id p \<noteq> [] \<and> pos_instrument_id p \<noteq> [] \<and>
     0 < pos_quantity p \<and> 0 < pos_average_entry_price p \<and> opt_pos (pos_mark_price p) \<and>
     pos_side p \<noteq> PS_FLAT"

record trade_outcome =
  to_trade_id :: uuid
  to_position_id :: "string option"
  to_order_intent_ids :: "uuid list"
  to_instrument_id :: string
  to_direction :: signal_direction
  to_quantity :: decimal
  to_entry_price :: decimal
  to_exit_price :: decimal
  to_realized_pnl :: decimal
  to_costs :: decimal
  to_opened_at :: instant
  to_closed_at :: instant
  to_exit_reason :: string

definition valid_trade_outcome :: "trade_outcome \<Rightarrow> bool" where
  "valid_trade_outcome t \<longleftrightarrow>
     to_instrument_id t \<noteq> [] \<and> 0 < to_quantity t \<and> 0 < to_entry_price t \<and>
     0 < to_exit_price t \<and> 0 \<le> to_costs t \<and> to_exit_reason t \<noteq> [] \<and>
     to_direction t \<noteq> SD_FLAT \<and> to_opened_at t \<le> to_closed_at t"

subsection \<open>Risk\<close>

definition tradable_strategy_states :: "strategy_state list" where
  "tradable_strategy_states = [SS_PAPER, SS_SHADOW, SS_LIVE_GATED, SS_LIVE_AUTO]"

record risk_policy =
  rp_policy_id :: string
  rp_policy_version :: string
  rp_max_risk_per_trade :: decimal
  rp_strategy_risk_budgets :: "(string, decimal) dict"
  rp_max_total_exposure :: decimal
  rp_max_instrument_exposure :: decimal
  rp_max_asset_class_exposure :: "(asset_class, decimal) dict"
  rp_max_currency_exposure :: "(string, decimal) dict"
  rp_max_leverage :: decimal
  rp_margin_rates :: "(asset_class, decimal) dict"
  rp_max_positions :: int
  rp_max_pending_orders :: int
  rp_max_daily_loss :: decimal
  rp_max_drawdown_pct :: decimal
  rp_max_consecutive_losses :: int
  rp_cooldown_seconds :: int
  rp_max_spread_relative :: decimal
  rp_max_slippage_relative :: decimal
  rp_min_stop_distance :: decimal
  rp_market_data_max_age_seconds :: int
  rp_heartbeat_max_age_seconds :: int
  rp_min_position_size :: "decimal option"
  rp_max_position_size :: "decimal option"
  rp_instrument_whitelist :: "string list option"
  rp_trading_days :: "int list"
  rp_session_open_utc :: "int option"
  rp_session_close_utc :: "int option"

definition currency_ok :: "string \<Rightarrow> bool" where
  "currency_ok s \<longleftrightarrow> length s = 3 \<and> list_all (\<lambda>c. CHR ''A'' \<le> c \<and> c \<le> CHR ''Z'') s"

definition valid_risk_policy :: "risk_policy \<Rightarrow> bool" where
  "valid_risk_policy p \<longleftrightarrow>
     rp_policy_id p \<noteq> [] \<and> rp_policy_version p \<noteq> [] \<and> 0 < rp_max_risk_per_trade p \<and>
     list_all (\<lambda>(k, b). k \<noteq> [] \<and> 0 < b) (rp_strategy_risk_budgets p) \<and>
     0 < rp_max_total_exposure p \<and> 0 < rp_max_instrument_exposure p \<and>
     list_all (\<lambda>(_, l). 0 < l) (rp_max_asset_class_exposure p) \<and>
     list_all (\<lambda>(c, l). currency_ok c \<and> 0 < l) (rp_max_currency_exposure p) \<and>
     0 < rp_max_leverage p \<and>
     list_all (\<lambda>(_, r). 0 < r \<and> r < 1) (rp_margin_rates p) \<and>
     1 \<le> rp_max_positions p \<and> 1 \<le> rp_max_pending_orders p \<and>
     0 < rp_max_daily_loss p \<and> 0 < rp_max_drawdown_pct p \<and> rp_max_drawdown_pct p < 1 \<and>
     1 \<le> rp_max_consecutive_losses p \<and> 0 \<le> rp_cooldown_seconds p \<and>
     0 \<le> rp_max_spread_relative p \<and> 0 \<le> rp_max_slippage_relative p \<and>
     0 < rp_min_stop_distance p \<and> 0 \<le> rp_market_data_max_age_seconds p \<and>
     0 \<le> rp_heartbeat_max_age_seconds p \<and>
     opt_pos (rp_min_position_size p) \<and> opt_pos (rp_max_position_size p) \<and>
     list_all (\<lambda>d. 0 \<le> d \<and> d < 7) (rp_trading_days p) \<and>
     list_all (\<lambda>(c, _). map_of (rp_margin_rates p) c \<noteq> None) (rp_max_asset_class_exposure p) \<and>
     (rp_session_open_utc p = None \<longleftrightarrow> rp_session_close_utc p = None) \<and>
     (case (rp_min_position_size p, rp_max_position_size p) of
        (Some lo, Some hi) \<Rightarrow> lo \<le> hi | _ \<Rightarrow> True)"

record portfolio_exposure =
  pe_total_notional :: decimal
  pe_by_instrument :: "(string, decimal) dict"
  pe_by_asset_class :: "(asset_class, decimal) dict"
  pe_net_by_currency :: "(string, decimal) dict"

definition valid_portfolio_exposure :: "portfolio_exposure \<Rightarrow> bool" where
  "valid_portfolio_exposure e \<longleftrightarrow>
     0 \<le> pe_total_notional e \<and> list_all (\<lambda>(_, n). 0 \<le> n) (pe_by_instrument e) \<and>
     list_all (\<lambda>(_, n). 0 \<le> n) (pe_by_asset_class e)"

record portfolio_state =
  pf_account_id :: string
  pf_positions :: "position_snapshot list"
  pf_pending_order_count :: int
  pf_exposure :: portfolio_exposure
  pf_as_of :: instant

definition valid_portfolio_state :: "portfolio_state \<Rightarrow> bool" where
  "valid_portfolio_state p \<longleftrightarrow>
     pf_account_id p \<noteq> [] \<and> list_all valid_position_snapshot (pf_positions p) \<and>
     0 \<le> pf_pending_order_count p \<and> valid_portfolio_exposure (pf_exposure p) \<and>
     set (map fst (pe_by_instrument (pf_exposure p))) = set (map pos_instrument_id (pf_positions p)) \<and>
     list_all (\<lambda>q. pos_account_id q = pf_account_id p) (pf_positions p)"

record account_state =
  ac_account_id :: string
  ac_currency :: string
  ac_balance :: decimal
  ac_equity :: decimal
  ac_free_margin :: decimal
  ac_leverage :: decimal
  ac_peak_equity :: decimal
  ac_daily_pnl :: decimal
  ac_consecutive_losses :: int
  ac_last_loss_at :: "instant option"
  ac_broker_connected :: bool
  ac_last_heartbeat_at :: "instant option"
  ac_safe_mode :: bool
  ac_as_of :: instant

definition valid_account_state :: "account_state \<Rightarrow> bool" where
  "valid_account_state a \<longleftrightarrow>
     ac_account_id a \<noteq> [] \<and> currency_ok (ac_currency a) \<and> 0 \<le> ac_balance a \<and>
     0 < ac_equity a \<and> 0 \<le> ac_free_margin a \<and> 0 < ac_leverage a \<and> 0 < ac_peak_equity a \<and>
     0 \<le> ac_consecutive_losses a \<and>
     (0 < ac_consecutive_losses a \<longrightarrow> ac_last_loss_at a \<noteq> None)"

record strategy_configuration =
  sc_strategy_id :: string
  sc_strategy_version :: string
  sc_enabled :: bool
  sc_state :: strategy_state
  sc_allowed_instruments :: "string list option"
  sc_as_of :: instant

definition valid_strategy_configuration :: "strategy_configuration \<Rightarrow> bool" where
  "valid_strategy_configuration s \<longleftrightarrow> sc_strategy_id s \<noteq> [] \<and> sc_strategy_version s \<noteq> []"

lemma valid_policy_min_le_max:
  assumes "valid_risk_policy p" and "rp_min_position_size p = Some lo"
    and "rp_max_position_size p = Some hi"
  shows "lo \<le> hi"
  using assms by (simp add: valid_risk_policy_def)

lemma get_or_in_range:
  assumes "list_all (\<lambda>(k, v). P v) d" and "P dflt"
  shows "P (get_or d k dflt)"
proof (cases "map_of d k")
  case None
  with assms show ?thesis by (simp add: get_or_def)
next
  case (Some v)
  then have "(k, v) \<in> set d" by (rule map_of_SomeD)
  with assms Some show ?thesis by (auto simp: get_or_def list_all_iff)
qed



end
