(* ===== verification/Risk_Checks.thy ===== *)
theory Risk_Checks
  imports Contracts
begin

text \<open>
  The hard, fail-closed policy checks of \<^verbatim>\<open>engines/risk/checks.py\<close>. Every predicate
  returns \<open>True\<close> when its rule is violated; \<open>hard_check_order\<close> lists them with their
  reason codes in the canonical order and \<open>run_hard_checks\<close> collects the violated codes.

  Ages are compared in microseconds: \<open>timedelta.total_seconds()\<close> is an exact quotient by
  \<open>10 ^ 6\<close> for spans below \<open>2 ^ 31\<close> seconds. The divisions by the mid price and by the
  peak equity cannot fail, because the contracts keep both positive (\<open>ms_mid_pos\<close>,
  \<open>valid_account_state\<close>).
\<close>

record check_args =
  ca_proposal :: trade_proposal
  ca_account :: account_state
  ca_portfolio :: portfolio_state
  ca_snapshot :: "market_snapshot option"
  ca_strategy :: strategy_configuration
  ca_policy :: risk_policy
  ca_instrument_is_active :: bool
  ca_now :: instant

definition strategy_inactive :: "trade_proposal \<Rightarrow> strategy_configuration \<Rightarrow> bool" where
  "strategy_inactive proposal strategy \<longleftrightarrow>
     tp_strategy_id proposal \<noteq> sc_strategy_id strategy \<or>
     tp_strategy_version proposal \<noteq> sc_strategy_version strategy \<or>
     \<not> sc_enabled strategy \<or>
     sc_state strategy \<notin> set tradable_strategy_states"

definition symbol_not_whitelisted ::
    "trade_proposal \<Rightarrow> strategy_configuration \<Rightarrow> risk_policy \<Rightarrow> bool \<Rightarrow> bool" where
  "symbol_not_whitelisted proposal strategy policy instrument_is_active \<longleftrightarrow>
     (if \<not> instrument_is_active then True
      else if (case rp_instrument_whitelist policy of None \<Rightarrow> False
               | Some w \<Rightarrow> tp_instrument_id proposal \<notin> set w) then True
      else (case sc_allowed_instruments strategy of None \<Rightarrow> False
            | Some w \<Rightarrow> tp_instrument_id proposal \<notin> set w))"

definition stale_quotes :: "market_snapshot option \<Rightarrow> risk_policy \<Rightarrow> instant \<Rightarrow> bool" where
  "stale_quotes snapshot policy now =
     (case snapshot of None \<Rightarrow> True
      | Some s \<Rightarrow>
          (let age = now - ms_source_timestamp s
           in if age < 0 then True else seconds (rp_market_data_max_age_seconds policy) < age))"

definition broker_disconnected :: "account_state \<Rightarrow> bool" where
  "broker_disconnected account \<longleftrightarrow> \<not> ac_broker_connected account"

definition heartbeat_lost :: "account_state \<Rightarrow> risk_policy \<Rightarrow> instant \<Rightarrow> bool" where
  "heartbeat_lost account policy now =
     (if rp_heartbeat_max_age_seconds policy \<le> 0 then False
      else case ac_last_heartbeat_at account of None \<Rightarrow> True
           | Some t \<Rightarrow> seconds (rp_heartbeat_max_age_seconds policy) < now - t)"

definition safe_mode_active :: "account_state \<Rightarrow> bool" where
  "safe_mode_active account = ac_safe_mode account"

definition outside_trading_schedule :: "risk_policy \<Rightarrow> instant \<Rightarrow> bool" where
  "outside_trading_schedule policy now =
     (if weekday now \<notin> set (rp_trading_days policy) then True
      else case rp_session_open_utc policy of None \<Rightarrow> False
      | Some opens \<Rightarrow>
        (case rp_session_close_utc policy of None \<Rightarrow> False
         | Some closes \<Rightarrow>
           (let current = time_of_day now
            in if opens \<le> closes then \<not> (opens \<le> current \<and> current \<le> closes)
               else \<not> (opens \<le> current \<or> current \<le> closes))))"

definition daily_loss_reached :: "account_state \<Rightarrow> risk_policy \<Rightarrow> bool" where
  "daily_loss_reached account policy \<longleftrightarrow> ac_daily_pnl account \<le> dneg (rp_max_daily_loss policy)"

definition drawdown_reached :: "account_state \<Rightarrow> risk_policy \<Rightarrow> bool" where
  "drawdown_reached account policy \<longleftrightarrow>
     rp_max_drawdown_pct policy \<le>
       ddiv_nz (dsub (ac_peak_equity account) (ac_equity account)) (ac_peak_equity account)"

definition loss_sequence_cooldown :: "account_state \<Rightarrow> risk_policy \<Rightarrow> instant \<Rightarrow> bool" where
  "loss_sequence_cooldown account policy now =
     (if ac_consecutive_losses account < rp_max_consecutive_losses policy then False
      else case ac_last_loss_at account of None \<Rightarrow> True
           | Some t \<Rightarrow> now - t < seconds (rp_cooldown_seconds policy))"

definition max_positions_reached :: "portfolio_state \<Rightarrow> risk_policy \<Rightarrow> bool" where
  "max_positions_reached portfolio policy \<longleftrightarrow>
     rp_max_positions policy < int (length (pf_positions portfolio)) + 1"

definition max_orders_reached :: "portfolio_state \<Rightarrow> risk_policy \<Rightarrow> bool" where
  "max_orders_reached portfolio policy \<longleftrightarrow>
     rp_max_pending_orders policy < pf_pending_order_count portfolio + 1"

definition spread_too_high :: "market_snapshot option \<Rightarrow> risk_policy \<Rightarrow> bool" where
  "spread_too_high snapshot policy =
     (case snapshot of None \<Rightarrow> False
      | Some s \<Rightarrow> rp_max_spread_relative policy < ddiv_nz (dsub (ms_ask s) (ms_bid s)) (ms_mid s))"

definition slippage_cap_exceeded ::
    "trade_proposal \<Rightarrow> market_snapshot option \<Rightarrow> risk_policy \<Rightarrow> bool" where
  "slippage_cap_exceeded proposal snapshot policy =
     (case snapshot of None \<Rightarrow> False
      | Some s \<Rightarrow>
          if tp_order_type proposal \<noteq> MARKET then False
          else
            (let relative =
               (if tp_direction proposal = SD_LONG
                then ddiv_nz (dsub (ms_ask s) (ms_mid s)) (ms_mid s)
                else ddiv_nz (dsub (ms_mid s) (ms_bid s)) (ms_mid s))
             in rp_max_slippage_relative policy < relative))"

text \<open>The entry price a stop is measured against; \<open>None\<close> when there is none.\<close>

definition stop_reference :: "trade_proposal \<Rightarrow> market_snapshot option \<Rightarrow> decimal option" where
  "stop_reference proposal snapshot =
     (case snapshot of None \<Rightarrow> tp_limit_price proposal
      | Some s \<Rightarrow> (case tp_limit_price proposal of Some p \<Rightarrow> Some p | None \<Rightarrow> Some (ms_mid s)))"

definition invalid_stop_distance ::
    "trade_proposal \<Rightarrow> market_snapshot option \<Rightarrow> risk_policy \<Rightarrow> bool" where
  "invalid_stop_distance proposal snapshot policy =
     (case tp_stop_loss proposal of None \<Rightarrow> True
      | Some stop \<Rightarrow>
        (case stop_reference proposal snapshot of None \<Rightarrow> False
         | Some entry \<Rightarrow>
            if tp_direction proposal = SD_LONG
            then (if entry \<le> stop then True else dsub entry stop < rp_min_stop_distance policy)
            else (if stop \<le> entry then True else dsub stop entry < rp_min_stop_distance policy)))"

definition hard_check_order :: "(risk_reason_code \<times> (check_args \<Rightarrow> bool)) list" where
  "hard_check_order =
    [(STRATEGY_INACTIVE, \<lambda>k. strategy_inactive (ca_proposal k) (ca_strategy k)),
     (SYMBOL_NOT_WHITELISTED, \<lambda>k. symbol_not_whitelisted (ca_proposal k) (ca_strategy k)
        (ca_policy k) (ca_instrument_is_active k)),
     (STALE_QUOTES, \<lambda>k. stale_quotes (ca_snapshot k) (ca_policy k) (ca_now k)),
     (BROKER_DISCONNECTED, \<lambda>k. broker_disconnected (ca_account k)),
     (HEARTBEAT_LOST, \<lambda>k. heartbeat_lost (ca_account k) (ca_policy k) (ca_now k)),
     (SAFE_MODE_ACTIVE, \<lambda>k. safe_mode_active (ca_account k)),
     (TRADING_HOURS_RESTRICTED, \<lambda>k. outside_trading_schedule (ca_policy k) (ca_now k)),
     (MAX_DAILY_LOSS_REACHED, \<lambda>k. daily_loss_reached (ca_account k) (ca_policy k)),
     (MAX_DRAWDOWN_REACHED, \<lambda>k. drawdown_reached (ca_account k) (ca_policy k)),
     (LOSS_SEQUENCE_COOLDOWN, \<lambda>k. loss_sequence_cooldown (ca_account k) (ca_policy k) (ca_now k)),
     (MAX_POSITIONS_REACHED, \<lambda>k. max_positions_reached (ca_portfolio k) (ca_policy k)),
     (MAX_ORDERS_REACHED, \<lambda>k. max_orders_reached (ca_portfolio k) (ca_policy k)),
     (SPREAD_TOO_HIGH, \<lambda>k. spread_too_high (ca_snapshot k) (ca_policy k)),
     (SLIPPAGE_CAP_EXCEEDED, \<lambda>k. slippage_cap_exceeded (ca_proposal k) (ca_snapshot k) (ca_policy k)),
     (INVALID_STOP_DISTANCE, \<lambda>k. invalid_stop_distance (ca_proposal k) (ca_snapshot k) (ca_policy k))]"

definition run_hard_checks :: "check_args \<Rightarrow> risk_reason_code list" where
  "run_hard_checks k = map fst (filter (\<lambda>(code, predicate). predicate k) hard_check_order)"

lemma run_hard_checks_distinct: "distinct (run_hard_checks k)"
proof -
  have "distinct (map fst hard_check_order)" by (simp add: hard_check_order_def)
  then show ?thesis unfolding run_hard_checks_def by (rule distinct_map_filter)
qed

lemma run_hard_checks_iff:
  assumes "(code, p) \<in> set hard_check_order"
  shows "code \<in> set (run_hard_checks k) \<longleftrightarrow> p k"
proof -
  have d: "distinct (map fst hard_check_order)" by (simp add: hard_check_order_def)
  have "(code, p') \<in> set hard_check_order \<longleftrightarrow> p' = p" for p'
    using assms d by (metis map_of_eq_Some_iff option.inject)
  moreover have "code \<in> set (run_hard_checks k) \<longleftrightarrow>
      (\<exists>p'. (code, p') \<in> set hard_check_order \<and> p' k)"
    unfolding run_hard_checks_def by force
  ultimately show ?thesis by simp
qed

lemma run_hard_checks_empty:
  "run_hard_checks k = [] \<longleftrightarrow> (\<forall>(code, p) \<in> set hard_check_order. \<not> p k)"
  by (auto simp: run_hard_checks_def filter_empty_conv)

text \<open>
  What an empty list of violations guarantees: the facts sizing relies on.
\<close>

lemma no_violation_facts:
  assumes "run_hard_checks k = []"
  shows "ca_snapshot k \<noteq> None" and "tp_stop_loss (ca_proposal k) \<noteq> None"
    and "\<not> ac_safe_mode (ca_account k)" and "ac_broker_connected (ca_account k)"
    and "\<not> invalid_stop_distance (ca_proposal k) (ca_snapshot k) (ca_policy k)"
proof -
  have v: "\<not> stale_quotes (ca_snapshot k) (ca_policy k) (ca_now k)"
    "\<not> invalid_stop_distance (ca_proposal k) (ca_snapshot k) (ca_policy k)"
    "\<not> safe_mode_active (ca_account k)" "\<not> broker_disconnected (ca_account k)"
    using assms by (auto simp: run_hard_checks_empty hard_check_order_def)
  show "ca_snapshot k \<noteq> None" using v(1) by (cases "ca_snapshot k") (simp_all add: stale_quotes_def)
  show "tp_stop_loss (ca_proposal k) \<noteq> None"
    using v(2) by (cases "tp_stop_loss (ca_proposal k)") (simp_all add: invalid_stop_distance_def)
  show "\<not> ac_safe_mode (ca_account k)" using v(3) by (simp add: safe_mode_active_def)
  show "ac_broker_connected (ca_account k)" using v(4) by (simp add: broker_disconnected_def)
  show "\<not> invalid_stop_distance (ca_proposal k) (ca_snapshot k) (ca_policy k)" by (rule v(2))
qed

end
