(* ===== verification/Risk_Sizing.thy ===== *)
theory Risk_Sizing
  imports Risk_Checks
begin

text \<open>
  Deterministic sizing, \<^verbatim>\<open>engines/risk/sizing.py\<close>. \<open>size_caps\<close> is the list of caps
  of \<open>compute_size_plan\<close>, \<open>size_loop\<close> its \<open>while True\<close> loop, a
  \<open>partial_function\<close> into \<open>option\<close>: \<open>None\<close> would be a loop that never ends.
  The lemmas show that the loop ends for every lot step greater than zero, that its result
  is on the lot grid and not above its start, and that it passed the gate
  \<open>soft_limits_ok\<close> or is below the minimum.
\<close>

record sizing_plan =
  sp_final_quantity :: decimal
  sp_min_effective :: decimal
  sp_max_effective :: decimal
  sp_binding_codes :: "risk_reason_code list"
  sp_floor_applied :: bool
  sp_below_minimum :: bool
  sp_entry_price :: decimal
  sp_stop_distance :: decimal
  sp_notional_per_lot :: decimal
  sp_risk_per_lot :: decimal
  sp_effective_risk_budget :: decimal

definition lift_dec :: "decimal_error + 'a \<Rightarrow> exn + 'a" where
  "lift_dec r = (case r of Inl e \<Rightarrow> Inl (DecimalError e) | Inr x \<Rightarrow> Inr x)"

lemma lift_dec_Inr_iff [simp]: "lift_dec r = Inr x \<longleftrightarrow> r = Inr x"
  by (cases r) (simp_all add: lift_dec_def)

definition floor_to_step :: "decimal \<Rightarrow> dec \<Rightarrow> exn + decimal" where
  "floor_to_step quantity step =
     (if quantity \<le> 0 then Inr 0
      else if dec_val step \<le> 0 then Inl (ValueError ''lot step must be > 0'')
      else
        (let steps = of_int (round_down (ddiv_nz quantity (dec_val step)))
         in lift_dec (quantize (dmul steps (dec_val step)) (exponent step))))"

definition currency_legs :: "trade_proposal \<Rightarrow> instrument \<Rightarrow> (string option \<times> int) list" where
  "currency_legs proposal ins =
     (if tp_direction proposal = SD_LONG
      then [(ins_base_currency ins, 1), (ins_quote_currency ins, - 1)]
      else [(ins_base_currency ins, - 1), (ins_quote_currency ins, 1)])"

definition soft_limits_ok ::
    "trade_proposal \<Rightarrow> instrument \<Rightarrow> risk_policy \<Rightarrow> portfolio_state \<Rightarrow> account_state \<Rightarrow>
     decimal \<Rightarrow> decimal \<Rightarrow> decimal \<Rightarrow> decimal \<Rightarrow> decimal \<Rightarrow> decimal \<Rightarrow> bool" where
  "soft_limits_ok proposal ins policy portfolio account budget entry stop_distance margin_rate
       max_effective quantity =
     (if max_effective < quantity then False
      else let
        notional = dmul (dmul (ins_contract_size ins) quantity) entry;
        risk = dmul (dmul (ins_contract_size ins) quantity) stop_distance;
        exposure = pf_exposure portfolio;
        asset = ins_asset_class ins
      in
        if budget < risk then False
        else if rp_max_instrument_exposure policy
             < dadd notional (get_or (pe_by_instrument exposure) (tp_instrument_id proposal) 0)
             then False
        else if get_or (rp_max_asset_class_exposure policy) asset 0
             < dadd notional (get_or (pe_by_asset_class exposure) asset 0) then False
        else if rp_max_total_exposure policy < dadd notional (pe_total_notional exposure) then False
        else if dmul (rp_max_leverage policy) (ac_equity account)
             < dadd notional (pe_total_notional exposure) then False
        else if ac_free_margin account < dmul notional margin_rate then False
        else list_all (\<lambda>(currency, sign). case currency of None \<Rightarrow> False
               | Some c \<Rightarrow> \<not> get_or (rp_max_currency_exposure policy) c 0
                   < dabs (dadd (get_or (pe_net_by_currency exposure) c 0)
                        (dmul (of_int sign) notional)))
             (currency_legs proposal ins))"

definition max_currency_notional ::
    "trade_proposal \<Rightarrow> instrument \<Rightarrow> risk_policy \<Rightarrow> (string, decimal) dict \<Rightarrow> decimal" where
  "max_currency_notional proposal ins policy net_by_currency =
     (let allowed = Min (set (map (\<lambda>(currency, sign). case currency of None \<Rightarrow> 0
            | Some c \<Rightarrow> dsub (get_or (rp_max_currency_exposure policy) c 0)
                (dmul (of_int sign) (get_or net_by_currency c 0)))
          (currency_legs proposal ins)))
      in if 0 < allowed then allowed else 0)"

definition entry_price :: "trade_proposal \<Rightarrow> market_snapshot \<Rightarrow> decimal" where
  "entry_price proposal snapshot =
     (case tp_limit_price proposal of Some p \<Rightarrow> p | None \<Rightarrow> ms_mid snapshot)"

definition risk_budget :: "trade_proposal \<Rightarrow> risk_policy \<Rightarrow> decimal" where
  "risk_budget proposal policy =
     min (rp_max_risk_per_trade policy)
       (get_or (rp_strategy_risk_budgets policy) (tp_strategy_id proposal)
          (rp_max_risk_per_trade policy))"

definition max_effective_size :: "risk_policy \<Rightarrow> instrument \<Rightarrow> decimal" where
  "max_effective_size policy ins =
     min (case rp_max_position_size policy of Some m \<Rightarrow> m | None \<Rightarrow> ins_max_lot ins) (ins_max_lot ins)"

definition min_effective_size :: "risk_policy \<Rightarrow> instrument \<Rightarrow> decimal" where
  "min_effective_size policy ins =
     max (case rp_min_position_size policy of Some m \<Rightarrow> m | None \<Rightarrow> 0) (ins_min_lot ins)"

text \<open>The caps in the order of the source; the divisions may fail.\<close>

definition size_caps ::
    "trade_proposal \<Rightarrow> account_state \<Rightarrow> portfolio_state \<Rightarrow> risk_policy \<Rightarrow> instrument \<Rightarrow>
     decimal \<Rightarrow> decimal \<Rightarrow> decimal \<Rightarrow> decimal \<Rightarrow> decimal \<Rightarrow>
     exn + (risk_reason_code \<times> decimal) list" where
  "size_caps proposal account portfolio policy ins budget notional_per_lot risk_per_lot
       margin_rate max_effective =
     (let exposure = pf_exposure portfolio;
          asset = ins_asset_class ins;
          current_instrument = get_or (pe_by_instrument exposure) (tp_instrument_id proposal) 0;
          current_class = get_or (pe_by_asset_class exposure) asset 0;
          per_lot = (\<lambda>room. lift_dec (ddiv room notional_per_lot))
      in
      rbind (lift_dec (ddiv budget risk_per_lot)) (\<lambda>c1.
      rbind (per_lot (dsub (rp_max_instrument_exposure policy) current_instrument)) (\<lambda>c2.
      rbind (per_lot (dsub (get_or (rp_max_asset_class_exposure policy) asset 0) current_class)) (\<lambda>c3.
      rbind (per_lot (max_currency_notional proposal ins policy (pe_net_by_currency exposure))) (\<lambda>c4.
      rbind (per_lot (dsub (rp_max_total_exposure policy) (pe_total_notional exposure))) (\<lambda>c5.
      rbind (per_lot (dsub (dmul (rp_max_leverage policy) (ac_equity account))
               (pe_total_notional exposure))) (\<lambda>c6.
      rbind (if 0 < margin_rate
             then lift_dec (ddiv (ac_free_margin account) (dmul notional_per_lot margin_rate))
             else Inr 0) (\<lambda>c7.
      Inr [(RISK_LIMIT_EXCEEDED, c1), (CONCENTRATION_LIMIT_EXCEEDED, c2),
           (CONCENTRATION_LIMIT_EXCEEDED, c3), (CONCENTRATION_LIMIT_EXCEEDED, c4),
           (EXPOSURE_LIMIT_EXCEEDED, c5), (LEVERAGE_LIMIT_EXCEEDED, c6),
           (INSUFFICIENT_MARGIN, c7), (SIZE_ABOVE_MAXIMUM, max_effective)]))))))))"

partial_function (option) size_loop ::
    "(decimal \<Rightarrow> bool) \<Rightarrow> decimal \<Rightarrow> dec \<Rightarrow> decimal \<Rightarrow> (exn + decimal) option" where
  "size_loop ok min_effective step q =
     (if q < min_effective then Some (Inr q)
      else if ok q then Some (Inr q)
      else case quantize (dsub q (dec_val step)) (exponent step) of
             Inl e \<Rightarrow> Some (Inl (DecimalError e))
           | Inr q' \<Rightarrow> size_loop ok min_effective step q')"

declare size_loop.simps [code]

definition margin_rate_of :: "risk_policy \<Rightarrow> instrument \<Rightarrow> decimal" where
  "margin_rate_of policy ins = get_or (rp_margin_rates policy) (ins_asset_class ins) 0"

definition clip_caps :: "(risk_reason_code \<times> decimal) list \<Rightarrow> (risk_reason_code \<times> decimal) list" where
  "clip_caps caps = map (\<lambda>(code, cap). (code, if 0 < cap then cap else 0)) caps"

definition size_target :: "decimal \<Rightarrow> (risk_reason_code \<times> decimal) list \<Rightarrow> decimal" where
  "size_target quantity caps = fold (\<lambda>(_, cap) target. if cap < target then cap else target) caps quantity"

definition compute_size_plan ::
    "trade_proposal \<Rightarrow> account_state \<Rightarrow> portfolio_state \<Rightarrow> market_snapshot \<Rightarrow> risk_policy \<Rightarrow>
     instrument \<Rightarrow> (exn + sizing_plan) option" where
  "compute_size_plan proposal account portfolio snapshot policy ins =
     (case tp_stop_loss proposal of
        None \<Rightarrow> Some (Inl (ValueError ''a stop loss is required to compute a size (INV-4)''))
      | Some stop \<Rightarrow>
        (let entry = entry_price proposal snapshot;
             stop_distance = dabs (dsub entry stop);
             notional_per_lot = dmul (ins_contract_size ins) entry;
             risk_per_lot = dmul (ins_contract_size ins) stop_distance;
             budget = risk_budget proposal policy;
             margin_rate = margin_rate_of policy ins;
             max_effective = max_effective_size policy ins;
             min_effective = min_effective_size policy ins
         in case size_caps proposal account portfolio policy ins budget notional_per_lot
                   risk_per_lot margin_rate max_effective of
              Inl e \<Rightarrow> Some (Inl e)
            | Inr raw_caps \<Rightarrow>
              (let caps = clip_caps raw_caps;
                   target = size_target (tp_quantity proposal) caps;
                   binding_codes = map fst (filter (\<lambda>(_, cap). cap < tp_quantity proposal) caps)
               in case floor_to_step target (ins_lot_step ins) of
                    Inl e \<Rightarrow> Some (Inl e)
                  | Inr start \<Rightarrow>
                    (let floor_applied = start < target
                     in case size_loop
                            (soft_limits_ok proposal ins policy portfolio account budget entry
                               stop_distance margin_rate max_effective)
                            min_effective (ins_lot_step ins) start of
                          None \<Rightarrow> None
                        | Some (Inl e) \<Rightarrow> Some (Inl e)
                        | Some (Inr final) \<Rightarrow>
                            Some (Inr \<lparr>sp_final_quantity = final,
                              sp_min_effective = min_effective,
                              sp_max_effective = max_effective,
                              sp_binding_codes = binding_codes @
                                (if floor_applied then [LOT_STEP_INVALID] else []),
                              sp_floor_applied = floor_applied,
                              sp_below_minimum = final < min_effective,
                              sp_entry_price = entry,
                              sp_stop_distance = stop_distance,
                              sp_notional_per_lot = notional_per_lot,
                              sp_risk_per_lot = risk_per_lot,
                              sp_effective_risk_budget = budget\<rparr>)))))"

subsection \<open>The walk down the lot grid ends\<close>

lemma size_loop_stop:
  "q < m \<or> ok q \<Longrightarrow> size_loop ok m step q = Some (Inr q)"
  by (subst size_loop.simps) auto

lemma size_loop_error:
  "\<not> q < m \<Longrightarrow> \<not> ok q \<Longrightarrow> quantize (dsub q (dec_val step)) (exponent step) = Inl e \<Longrightarrow>
   size_loop ok m step q = Some (Inl (DecimalError e))"
  by (subst size_loop.simps) simp

lemma size_loop_next:
  "\<not> q < m \<Longrightarrow> \<not> ok q \<Longrightarrow> quantize (dsub q (dec_val step)) (exponent step) = Inr q' \<Longrightarrow>
   size_loop ok m step q = size_loop ok m step q'"
  by (subst size_loop.simps) simp

text \<open>A step below a value of the grid: exact, unless the step alone has over 28 digits.\<close>

lemma grid_step:
  assumes "\<bar>k - c\<bar> < 10 ^ 28"
  shows "quantize (dsub (of_int k * pow10 e) (dec_val (Dec c e))) e = Inr (of_int (k - c) * pow10 e)"
proof -
  have d: "of_int k * pow10 e - dec_val (Dec c e) = of_int (k - c) * pow10 e"
    by (simp add: dec_val_def left_diff_distrib)
  then have "fits28 (of_int k * pow10 e - dec_val (Dec c e))" using assms by (rule fits28I)
  then have "dsub (of_int k * pow10 e) (dec_val (Dec c e)) = of_int (k - c) * pow10 e"
    using d by (simp add: dsub_exact)
  then show ?thesis using quantize_exact [OF refl assms] by simp
qed

lemma grid_step_below_zero:
  assumes "k \<le> c" and "quantize (dsub (of_int k * pow10 e) (dec_val (Dec c e))) e = Inr q"
  shows "q \<le> 0"
proof -
  have "of_int k * pow10 e - dec_val (Dec c e) \<le> 0"
    using assms(1) by (simp add: dec_val_def mult_right_mono)
  then have "dsub (of_int k * pow10 e) (dec_val (Dec c e)) \<le> 0"
    by (simp add: dsub_def ctx_round_le_fits)
  then have "round_half_even (dsub (of_int k * pow10 e) (dec_val (Dec c e)) / pow10 e)
      \<le> round_half_even (of_int 0)"
    by (intro round_half_even_mono) (simp add: divide_nonpos_pos)
  then have "round_half_even (dsub (of_int k * pow10 e) (dec_val (Dec c e)) / pow10 e) \<le> 0"
    by (simp only: round_half_even_of_int)
  then show ?thesis using assms(2)
    by (auto simp: quantize_def Let_def mult_nonpos_nonneg split: if_splits)
qed

lemma size_loop_walk:
  assumes c: "0 < c" and m: "0 < m"
  shows "k < 10 ^ 28 \<Longrightarrow> \<exists>r. size_loop ok m (Dec c e) (of_int k * pow10 e) = Some r \<and>
    (\<forall>x. r = Inr x \<longrightarrow> (x < m \<or> ok x) \<and> x \<le> of_int k * pow10 e \<and>
       (\<not> x < m \<longrightarrow> (\<exists>n. x = of_int (k - int n * c) * pow10 e)))"
proof (induction "nat k" arbitrary: k rule: less_induct)
  case less
  let ?q = "of_int k * pow10 e"
  show ?case
  proof (cases "?q < m \<or> ok ?q")
    case True
    then have "size_loop ok m (Dec c e) ?q = Some (Inr ?q)" by (rule size_loop_stop)
    moreover have "?q = of_int (k - int 0 * c) * pow10 e" by simp
    ultimately show ?thesis using True by (metis Inr_inject order_refl)
  next
    case False
    then have "0 < ?q" using m by linarith
    then have k: "0 < k" by (simp add: zero_less_mult_iff)
    show ?thesis
    proof (cases "k \<le> c")
      case le: True
      show ?thesis
      proof (cases "quantize (dsub ?q (dec_val (Dec c e))) e")
        case (Inl err)
        then show ?thesis using False size_loop_error [of ?q m ok "Dec c e" err] by auto
      next
        case (Inr q')
        have "q' \<le> 0" using le Inr by (rule grid_step_below_zero)
        then have "q' < m" using m by simp
        then have "size_loop ok m (Dec c e) q' = Some (Inr q')" by (intro size_loop_stop) simp
        moreover have "q' \<le> ?q" using \<open>q' \<le> 0\<close> \<open>0 < ?q\<close> by simp
        ultimately show ?thesis
          using False Inr \<open>q' < m\<close> size_loop_next [of ?q m ok "Dec c e" q'] by auto
      qed
    next
      case gt: False
      then have b: "\<bar>k - c\<bar> < 10 ^ 28" "nat (k - c) < nat k" "k - c < 10 ^ 28"
        using less.prems c k by auto
      have nxt: "size_loop ok m (Dec c e) ?q = size_loop ok m (Dec c e) (of_int (k - c) * pow10 e)"
        using False grid_step [OF b(1)] by (intro size_loop_next) auto
      obtain r where r: "size_loop ok m (Dec c e) (of_int (k - c) * pow10 e) = Some r"
        and R: "\<And>x. r = Inr x \<Longrightarrow> (x < m \<or> ok x) \<and> x \<le> of_int (k - c) * pow10 e \<and>
          (\<not> x < m \<longrightarrow> (\<exists>n. x = of_int (k - c - int n * c) * pow10 e))"
        using less.hyps [OF b(2,3)] by auto
      have le: "of_int (k - c) * pow10 e \<le> ?q" using c by (simp add: mult_right_mono)
      have "(x < m \<or> ok x) \<and> x \<le> ?q \<and>
          (\<not> x < m \<longrightarrow> (\<exists>n. x = of_int (k - int n * c) * pow10 e))" if "r = Inr x" for x
      proof -
        have "k - c - int n * c = k - int (Suc n) * c" for n by (simp add: algebra_simps)
        then show ?thesis using R [OF that] le by (metis order_trans)
      qed
      then show ?thesis using nxt r by auto
    qed
  qed
qed

subsection \<open>Rounding down to a lot step\<close>

lemma round_down_nonneg: "0 \<le> x \<Longrightarrow> round_down x = \<lfloor>x\<rfloor>"
  by (simp add: round_down_def)

text \<open>A product that \<open>quantize\<close> accepts was not rounded.\<close>

lemma lot_multiple_exact:
  assumes qz: "quantize (dmul (of_int n) (dec_val (Dec c e))) e = Inr r" and n: "0 \<le> n" and c: "0 < c"
  shows "r = of_int (n * c) * pow10 e" and "n * c < 10 ^ 28"
proof -
  have v: "of_int n * dec_val (Dec c e) = of_int (n * c) * pow10 e" by (simp add: dec_val_def)
  show lt: "n * c < 10 ^ 28"
  proof (rule ccontr)
    assume "\<not> n * c < 10 ^ 28"
    then have "(10 ^ 28 :: int) \<le> n * c" by simp
    then have "of_int (10 ^ 28) \<le> (of_int (n * c) :: rat)" by (simp only: of_int_le_iff)
    then have "of_int (10 ^ 28) * pow10 e \<le> of_int n * dec_val (Dec c e)"
      unfolding v by (intro mult_right_mono) simp_all
    moreover have "of_int (10 ^ 28) * pow10 e = of_int 1 * pow10 (28 + e)"
      using pow10_of_nat [of 28] by (simp add: pow10_add)
    then have "fits28 (of_int (10 ^ 28) * pow10 e)" by (rule fits28I) simp
    ultimately have "of_int (10 ^ 28) * pow10 e \<le> dmul (of_int n) (dec_val (Dec c e))"
      unfolding dmul_def by (intro ctx_round_ge_fits)
    then have "of_int (10 ^ 28) \<le> dmul (of_int n) (dec_val (Dec c e)) / pow10 e"
      by (simp only: pos_le_divide_eq [OF pow10_pos])
    then have "round_half_even (of_int (10 ^ 28)) \<le>
        round_half_even (dmul (of_int n) (dec_val (Dec c e)) / pow10 e)"
      by (rule round_half_even_mono)
    then have "10 ^ 28 \<le> round_half_even (dmul (of_int n) (dec_val (Dec c e)) / pow10 e)"
      by (simp only: round_half_even_of_int)
    then show False using qz by (simp add: quantize_def Let_def split: if_splits)
  qed
  have ab: "\<bar>n * c\<bar> < 10 ^ 28" using lt n c by simp
  have "dmul (of_int n) (dec_val (Dec c e)) = of_int (n * c) * pow10 e"
    unfolding dmul_def v by (rule ctx_round_exact [OF fits28I [OF refl ab]])
  then show "r = of_int (n * c) * pow10 e" using qz quantize_exact [OF refl ab] by simp
qed

lemma floor_to_step_steps:
  assumes "floor_to_step q (Dec c e) = Inr r" and "0 < q"
  shows "0 < c" and "0 \<le> round_down (ddiv_nz q (dec_val (Dec c e)))"
    and "quantize (dmul (of_int (round_down (ddiv_nz q (dec_val (Dec c e))))) (dec_val (Dec c e))) e = Inr r"
proof -
  have s: "0 < dec_val (Dec c e)"
    using assms by (auto simp: floor_to_step_def Let_def not_le split: if_splits)
  show "0 < c" using s by (simp add: dec_val_def zero_less_mult_iff)
  show "0 \<le> round_down (ddiv_nz q (dec_val (Dec c e)))"
    using assms(2) s by (simp add: round_down_nonneg ddiv_nz_def)
  show "quantize (dmul (of_int (round_down (ddiv_nz q (dec_val (Dec c e))))) (dec_val (Dec c e))) e = Inr r"
    using assms s by (auto simp: floor_to_step_def Let_def split: if_splits)
qed

lemma floor_to_step_grid:
  assumes "floor_to_step q (Dec c e) = Inr r"
  obtains k where "r = of_int k * pow10 e" and "0 \<le> k" and "k < 10 ^ 28" and "c dvd k"
proof (cases "q \<le> 0")
  case True
  then have "r = of_int 0 * pow10 e" using assms by (simp add: floor_to_step_def)
  then show ?thesis by (rule that) simp_all
next
  case False
  then have q: "0 < q" by simp
  note st = floor_to_step_steps [OF assms q]
  show ?thesis
    by (rule that [OF lot_multiple_exact(1) [OF st(3,2,1)] _ lot_multiple_exact(2) [OF st(3,2,1)]])
      (use st in simp_all)
qed

text \<open>The documented contract of \<open>floor_to_step\<close>, for quotients of at most 28 digits.\<close>

lemma floor_to_step_le:
  assumes "floor_to_step q (Dec c e) = Inr r" and "0 < q" and "fits28 (q / dec_val (Dec c e))"
  shows "r \<le> q" and "q < r + dec_val (Dec c e)"
proof -
  let ?s = "dec_val (Dec c e)"
  note st = floor_to_step_steps [OF assms(1,2)]
  have s: "0 < ?s" using st(1) by (simp add: dec_val_def)
  have n: "round_down (ddiv_nz q ?s) = \<lfloor>q / ?s\<rfloor>"
    using assms(2,3) s by (simp add: ddiv_nz_def ctx_round_exact round_down_nonneg)
  have r: "r = of_int \<lfloor>q / ?s\<rfloor> * ?s"
    using lot_multiple_exact(1) [OF st(3,2,1)] unfolding n by (simp add: dec_val_def)
  have "of_int \<lfloor>q / ?s\<rfloor> \<le> q / ?s" by linarith
  then show "r \<le> q" unfolding r by (simp only: pos_le_divide_eq [OF s])
  have "q / ?s < of_int \<lfloor>q / ?s\<rfloor> + 1" by linarith
  then have "q < (of_int \<lfloor>q / ?s\<rfloor> + 1) * ?s" by (simp only: pos_divide_less_eq [OF s])
  then show "q < r + ?s" unfolding r by (simp add: algebra_simps)
qed

text \<open>
  Without that assumption the division may round up to the next integer: the result stays
  below the quantity up to one unit of the 28th digit, and below any multiple of the step
  that bounds the quantity.
\<close>

lemma floor_to_step_value:
  assumes "floor_to_step q (Dec c e) = Inr r" and "0 < q"
  shows "r = of_int \<lfloor>ctx_round (q / dec_val (Dec c e))\<rfloor> * dec_val (Dec c e)"
proof -
  note st = floor_to_step_steps [OF assms]
  have "0 < dec_val (Dec c e)" using st(1) by (simp add: dec_val_def)
  then have "round_down (ddiv_nz q (dec_val (Dec c e))) = \<lfloor>ctx_round (q / dec_val (Dec c e))\<rfloor>"
    using assms(2) by (simp add: ddiv_nz_def round_down_nonneg)
  then show ?thesis using lot_multiple_exact(1) [OF st(3,2,1)] by (simp add: dec_val_def)
qed

lemma floor_to_step_upper:
  assumes "floor_to_step q (Dec c e) = Inr r" and "0 < c" and "0 \<le> p" and "q \<le> p"
  shows "r \<le> p * (1 + 1 / (2 * 10 ^ 27))"
    and "p = of_int n * dec_val (Dec c e) \<Longrightarrow> n < 10 ^ 28 \<Longrightarrow> r \<le> p"
proof -
  let ?s = "dec_val (Dec c e)"
  have s: "0 < ?s" using assms(2) by (simp add: dec_val_def)
  have "r \<le> p * (1 + 1 / (2 * 10 ^ 27)) \<and>
    (p = of_int n * ?s \<and> n < 10 ^ 28 \<longrightarrow> r \<le> p)"
  proof (cases "0 < q")
    case False
    then have "r = 0" using assms(1) by (simp add: floor_to_step_def)
    with assms(3) show ?thesis by simp
  next
    case True
    have r: "r = of_int \<lfloor>ctx_round (q / ?s)\<rfloor> * ?s" using assms(1) True by (rule floor_to_step_value)
    have "of_int \<lfloor>ctx_round (q / ?s)\<rfloor> \<le> ctx_round (q / ?s)" by linarith
    also have "\<dots> \<le> q / ?s * (1 + 1 / (2 * 10 ^ 27))" using True s by (intro ctx_round_upper) simp
    finally have "r \<le> q / ?s * (1 + 1 / (2 * 10 ^ 27)) * ?s"
      unfolding r using s by (intro mult_right_mono) simp_all
    also have "\<dots> = q * (1 + 1 / (2 * 10 ^ 27))" using s by simp
    also have "\<dots> \<le> p * (1 + 1 / (2 * 10 ^ 27))" using assms(4) by (intro mult_right_mono) simp_all
    finally have A: "r \<le> p * (1 + 1 / (2 * 10 ^ 27))" .
    have "r \<le> p" if p: "p = of_int n * ?s" and n: "n < 10 ^ 28"
    proof -
      have "q / ?s \<le> of_int n" using assms(4) p by (simp add: pos_divide_le_eq [OF s])
      moreover have "0 < of_int n * ?s" using True assms(4) p by linarith
      then have "0 < n" using s by (simp add: zero_less_mult_iff)
      then have "fits28 (of_int n)" using n by (intro fits28_of_int) simp
      ultimately have "ctx_round (q / ?s) \<le> of_int n" by (intro ctx_round_le_fits)
      then have "\<lfloor>ctx_round (q / ?s)\<rfloor> \<le> n" by linarith
      then show ?thesis unfolding r p using s by (intro mult_right_mono) simp_all
    qed
    with A show ?thesis by blast
  qed
  then show "r \<le> p * (1 + 1 / (2 * 10 ^ 27))" and "p = of_int n * ?s \<Longrightarrow> n < 10 ^ 28 \<Longrightarrow> r \<le> p"
    by blast+
qed

text \<open>
  The documented contract of \<open>floor_to_step\<close> (\<^verbatim>\<open>never up - only smaller\<close>) fails
  on such a division: 0.08999999999999999999999999999 rounded to the step 0.03 becomes 0.09,
  because the quotient rounds up to 3 in the 28-digit context.
\<close>

lemma floor_to_step_can_round_up:
  "floor_to_step (8999999999999999999999999999 / 10 ^ 29) (Dec 3 (- 2)) = Inr (9 / 100) \<and>
   (8999999999999999999999999999 / 10 ^ 29 :: decimal) < 9 / 100"
  by code_simp


subsection \<open>The plan\<close>

lemma min_effective_pos: "valid_instrument ins \<Longrightarrow> 0 < min_effective_size policy ins"
  by (auto simp: min_effective_size_def valid_instrument_def max_def)

lemma valid_lot_step:
  assumes "valid_instrument ins"
  obtains c e where "ins_lot_step ins = Dec c e" and "0 < c"
proof (cases "ins_lot_step ins")
  case (Dec c e)
  then have "0 < c" using assms
    by (simp add: valid_instrument_def dec_val_def zero_less_mult_iff)
  with Dec show ?thesis by (rule that)
qed

text \<open>From the rounded-down target the loop returns, on the lot grid and gated.\<close>

lemma size_loop_from_floor:
  assumes ins: "valid_instrument ins" and fl: "floor_to_step target (ins_lot_step ins) = Inr start"
  obtains r where "size_loop ok (min_effective_size policy ins) (ins_lot_step ins) start = Some r"
    and "\<And>x. r = Inr x \<Longrightarrow> (x < min_effective_size policy ins \<or> ok x) \<and> x \<le> start \<and>
      (\<not> x < min_effective_size policy ins \<longrightarrow> (\<exists>n. x = of_int n * dec_val (ins_lot_step ins)))"
proof -
  let ?m = "min_effective_size policy ins"
  obtain c e where step: "ins_lot_step ins = Dec c e" and c: "0 < c"
    using ins by (rule valid_lot_step)
  obtain k where k: "start = of_int k * pow10 e" "k < 10 ^ 28" "c dvd k"
    using fl unfolding step by (rule floor_to_step_grid)
  obtain j where j: "k = c * j" using k(3) by (rule dvdE)
  obtain r where r: "size_loop ok ?m (Dec c e) start = Some r"
    and R: "\<And>x. r = Inr x \<Longrightarrow> (x < ?m \<or> ok x) \<and> x \<le> start \<and>
      (\<not> x < ?m \<longrightarrow> (\<exists>n. x = of_int (k - int n * c) * pow10 e))"
    using size_loop_walk [OF c min_effective_pos [OF ins, of policy] k(2), of ok e]
    unfolding k(1) by blast
  have lot: "of_int (k - int n * c) * pow10 e = of_int (j - int n) * dec_val (Dec c e)" for n
    by (simp add: j dec_val_def algebra_simps)
  show ?thesis
  proof (rule that)
    show "size_loop ok ?m (ins_lot_step ins) start = Some r" using r step by simp
    show "(x < ?m \<or> ok x) \<and> x \<le> start \<and>
        (\<not> x < ?m \<longrightarrow> (\<exists>n. x = of_int n * dec_val (ins_lot_step ins)))" if "r = Inr x" for x
      using R [OF that] lot unfolding step by metis
  qed
qed

lemma size_loop_from_floor_returns:
  "valid_instrument ins \<Longrightarrow> floor_to_step target (ins_lot_step ins) = Inr start \<Longrightarrow>
   size_loop ok (min_effective_size policy ins) (ins_lot_step ins) start \<noteq> None"
  by (metis size_loop_from_floor option.distinct(1))

lemma compute_size_plan_returns:
  assumes "valid_instrument ins"
  shows "compute_size_plan proposal account portfolio snapshot policy ins \<noteq> None"
proof (cases "tp_stop_loss proposal")
  case None
  then show ?thesis by (simp add: compute_size_plan_def)
next
  case (Some stop)
  show ?thesis
    unfolding compute_size_plan_def Some option.case Let_def
    by (auto split: sum.split option.split dest: size_loop_from_floor_returns [OF assms])
qed

text \<open>
  The gate of a plan: the predicate the loop evaluated, with the values the plan reports.
\<close>

definition plan_gate ::
    "trade_proposal \<Rightarrow> account_state \<Rightarrow> portfolio_state \<Rightarrow> market_snapshot \<Rightarrow> risk_policy \<Rightarrow>
     instrument \<Rightarrow> decimal \<Rightarrow> decimal \<Rightarrow> bool" where
  "plan_gate proposal account portfolio snapshot policy ins stop =
     soft_limits_ok proposal ins policy portfolio account (risk_budget proposal policy)
       (entry_price proposal snapshot) (dabs (dsub (entry_price proposal snapshot) stop))
       (margin_rate_of policy ins) (max_effective_size policy ins)"

lemma size_target_le: "size_target q caps \<le> q"
proof (induction caps arbitrary: q)
  case Nil
  then show ?case by (simp add: size_target_def)
next
  case (Cons cap caps)
  have "size_target (if snd cap < q then snd cap else q) caps \<le> (if snd cap < q then snd cap else q)"
    by (rule Cons.IH)
  then show ?case by (auto simp: size_target_def split_def split: if_splits)
qed

lemma compute_size_plan_sound:
  assumes ins: "valid_instrument ins"
    and plan: "compute_size_plan proposal account portfolio snapshot policy ins = Some (Inr plan)"
  obtains stop caps start where "tp_stop_loss proposal = Some stop"
    and "floor_to_step (size_target (tp_quantity proposal) (clip_caps caps)) (ins_lot_step ins) = Inr start"
    and "sp_final_quantity plan \<le> start"
    and "sp_below_minimum plan \<longleftrightarrow> sp_final_quantity plan < min_effective_size policy ins"
    and "sp_risk_per_lot plan =
      dmul (ins_contract_size ins) (dabs (dsub (entry_price proposal snapshot) stop))"
    and "\<not> sp_below_minimum plan \<Longrightarrow>
      plan_gate proposal account portfolio snapshot policy ins stop (sp_final_quantity plan) \<and>
      (\<exists>n. sp_final_quantity plan = of_int n * dec_val (ins_lot_step ins))"
proof -
  obtain stop where stop: "tp_stop_loss proposal = Some stop"
    using plan by (cases "tp_stop_loss proposal") (auto simp: compute_size_plan_def)
  note plan' = plan [unfolded compute_size_plan_def stop option.case Let_def]
  obtain caps where caps: "size_caps proposal account portfolio policy ins (risk_budget proposal policy)
      (dmul (ins_contract_size ins) (entry_price proposal snapshot))
      (dmul (ins_contract_size ins) (dabs (dsub (entry_price proposal snapshot) stop)))
      (margin_rate_of policy ins) (max_effective_size policy ins) = Inr caps"
    using plan' by (auto split: sum.splits)
  note plan2 = plan' [unfolded caps sum.case]
  let ?target = "size_target (tp_quantity proposal) (clip_caps caps)"
  obtain start where start: "floor_to_step ?target (ins_lot_step ins) = Inr start"
    using plan2 by (auto split: sum.splits)
  note plan3 = plan2 [unfolded start sum.case]
  obtain r where r: "size_loop (plan_gate proposal account portfolio snapshot policy ins stop)
      (min_effective_size policy ins) (ins_lot_step ins) start = Some r"
    and R: "\<And>x. r = Inr x \<Longrightarrow>
      (x < min_effective_size policy ins \<or> plan_gate proposal account portfolio snapshot policy ins stop x) \<and>
      x \<le> start \<and> (\<not> x < min_effective_size policy ins \<longrightarrow>
        (\<exists>n. x = of_int n * dec_val (ins_lot_step ins)))"
    by (rule size_loop_from_floor [OF ins start, of
          "plan_gate proposal account portfolio snapshot policy ins stop" policy]) blast
  note plan4 = plan3 [folded plan_gate_def, unfolded r option.case]
  obtain final where final: "r = Inr final" using plan4 by (cases r) auto
  note plan5 = plan4 [unfolded final sum.case]
  show ?thesis
    by (rule that [OF stop start]) (use plan5 R [OF final] in auto)
qed

end
