(* ===== verification/Canonical_Json.thy ===== *)
theory Canonical_Json
  imports Contracts
begin

text \<open>
  Canonical JSON: the values that the engines render with sorted keys before they hash or sign
  them (\<open>json.dumps(..., sort_keys=True, default=_json_default)\<close>), the string values of the
  enumerations, and how a field is read back from a sorted object. SHA-256 and HMAC-SHA256
  over the rendered text are parameters of the functions that use them.
\<close>

datatype json =
    JNull
  | JBool bool
  | JInt int
  | JStr string
  | JDecimal decimal
  | JPlain dec
  | JDatetime instant
  | JTime int
  | JUuid uuid
  | JArr "json list"
  | JObj "(string \<times> json) list"

text \<open>\<open>json.dumps(..., sort_keys=True)\<close>: the members of every object in key order.\<close>

fun sort_keys :: "json \<Rightarrow> json" where
  "sort_keys (JObj members) =
     JObj (sort_key fst (map (\<lambda>(k, v). (k, sort_keys v)) members))"
| "sort_keys (JArr items) = JArr (map sort_keys items)"
| "sort_keys v = v"

text \<open>
  \<open>format(value, 'f')\<close> of a decimal whose representation matters: no exponent is printed,
  so a positive one is multiplied out.
\<close>

fun format_f :: "dec \<Rightarrow> dec" where
  "format_f (Dec c e) = (if 0 < e then Dec (c * 10 ^ nat e) 0 else Dec c e)"

fun operating_mode_value :: "operating_mode \<Rightarrow> string" where
  "operating_mode_value OM_RESEARCH = ''RESEARCH''"
| "operating_mode_value OM_BACKTEST = ''BACKTEST''"
| "operating_mode_value OM_PAPER = ''PAPER''"
| "operating_mode_value OM_LIVE_GATED = ''LIVE_GATED''"
| "operating_mode_value OM_LIVE_AUTO = ''LIVE_AUTO''"

fun signal_direction_value :: "signal_direction \<Rightarrow> string" where
  "signal_direction_value SD_LONG = ''LONG''"
| "signal_direction_value SD_SHORT = ''SHORT''"
| "signal_direction_value SD_FLAT = ''FLAT''"

fun order_type_value :: "order_type \<Rightarrow> string" where
  "order_type_value MARKET = ''MARKET''"
| "order_type_value LIMIT = ''LIMIT''"
| "order_type_value STOP = ''STOP''"
| "order_type_value STOP_LIMIT = ''STOP_LIMIT''"

fun time_in_force_value :: "time_in_force \<Rightarrow> string" where
  "time_in_force_value GTC = ''GTC''"
| "time_in_force_value DAY = ''DAY''"
| "time_in_force_value IOC = ''IOC''"
| "time_in_force_value FOK = ''FOK''"

fun position_side_value :: "position_side \<Rightarrow> string" where
  "position_side_value PS_LONG = ''LONG''"
| "position_side_value PS_SHORT = ''SHORT''"
| "position_side_value PS_FLAT = ''FLAT''"

fun strategy_state_value :: "strategy_state \<Rightarrow> string" where
  "strategy_state_value SS_IDEA = ''IDEA''"
| "strategy_state_value SS_CANDIDATE = ''CANDIDATE''"
| "strategy_state_value SS_BACKTESTED = ''BACKTESTED''"
| "strategy_state_value SS_WALK_FORWARD_OK = ''WALK_FORWARD_OK''"
| "strategy_state_value SS_ROBUSTNESS_OK = ''ROBUSTNESS_OK''"
| "strategy_state_value SS_PAPER = ''PAPER''"
| "strategy_state_value SS_SHADOW = ''SHADOW''"
| "strategy_state_value SS_LIVE_GATED = ''LIVE_GATED''"
| "strategy_state_value SS_LIVE_AUTO = ''LIVE_AUTO''"
| "strategy_state_value SS_RETIRED = ''RETIRED''"

fun asset_class_value :: "asset_class \<Rightarrow> string" where
  "asset_class_value FX = ''FX''"
| "asset_class_value EQUITY = ''EQUITY''"
| "asset_class_value COMMODITY = ''COMMODITY''"
| "asset_class_value CRYPTO = ''CRYPTO''"
| "asset_class_value INDEX = ''INDEX''"
| "asset_class_value BOND = ''BOND''"

definition jopt :: "('a \<Rightarrow> json) \<Rightarrow> 'a option \<Rightarrow> json" where
  "jopt leaf x = (case x of None \<Rightarrow> JNull | Some v \<Rightarrow> leaf v)"

definition jdict :: "('k \<Rightarrow> string) \<Rightarrow> ('k, decimal) dict \<Rightarrow> json" where
  "jdict key d = JObj (map (\<lambda>(k, v). (key k, JDecimal v)) d)"

text \<open>A \<open>frozenset\<close> is rendered as its sorted elements.\<close>

definition jset :: "('a :: linorder \<Rightarrow> json) \<Rightarrow> 'a list \<Rightarrow> json" where
  "jset leaf xs = JArr (map leaf (sort (remdups xs)))"

subsection \<open>Reading a sorted object\<close>

fun jget :: "string \<Rightarrow> json \<Rightarrow> json option" where
  "jget k (JObj members) = map_of members k"
| "jget k _ = None"

lemma map_of_insort: "map_of (insort_key fst (k, v) xs) = (map_of xs)(k \<mapsto> v)"
  by (induction xs) (auto simp: fun_upd_twist)

lemma map_of_sort_key [simp]: "map_of (sort_key fst xs) = map_of xs"
  by (induction xs) (auto simp: map_of_insort)

lemma map_of_map_snd: "map_of (map (\<lambda>(k, v). (k, f v)) xs) k = map_option f (map_of xs k)"
  by (induction xs) auto

lemma jget_sort_keys: "jget k (sort_keys t) = map_option sort_keys (jget k t)"
  by (cases t) (simp_all add: map_of_map_snd)

lemma jget_eq:
  "sort_keys s = sort_keys t \<Longrightarrow> map_option sort_keys (jget k s) = map_option sort_keys (jget k t)"
  by (metis jget_sort_keys)

lemma sort_keys_jopt [simp]: "sort_keys (jopt leaf x) = jopt (\<lambda>v. sort_keys (leaf v)) x"
  by (cases x) (simp_all add: jopt_def)

lemma jopt_eq_iff:
  "(\<And>v. leaf v \<noteq> JNull) \<Longrightarrow>
   jopt leaf x = jopt leaf y \<longleftrightarrow> map_option leaf x = map_option leaf y"
  by (cases x; cases y) (auto simp: jopt_def dest: sym)

lemma jopt_leaf_eq [simp]:
  "jopt JDecimal a = jopt JDecimal b \<longleftrightarrow> a = b" "jopt JDatetime t = jopt JDatetime u \<longleftrightarrow> t = u"
  "jopt JTime i = jopt JTime j \<longleftrightarrow> i = j" "jopt JStr s = jopt JStr r \<longleftrightarrow> s = r"
  by (auto simp: jopt_eq_iff option.inj_map_strong inj_def intro: option.inj_map [THEN injD, rotated])

lemma jset_eq_iff:
  assumes "inj leaf" and "\<And>v. sort_keys (leaf v) = leaf v"
  shows "sort_keys (jset leaf xs) = sort_keys (jset leaf ys) \<longleftrightarrow> set xs = set ys"
proof -
  have "sort_keys (jset leaf zs) = JArr (map leaf (sort (remdups zs)))" for zs
    using assms(2) by (simp add: jset_def)
  moreover have "map leaf (sort (remdups xs)) = map leaf (sort (remdups ys)) \<longleftrightarrow>
      sort (remdups xs) = sort (remdups ys)"
    using assms(1) by (simp add: inj_map_eq_map)
  moreover have "sort (remdups xs) = sort (remdups ys) \<longleftrightarrow> set xs = set ys"
    by (metis set_remdups set_sort sorted_list_of_set_sort_remdups)
  ultimately show ?thesis by simp
qed

lemma jdict_eq:
  assumes "sort_keys (jdict key d) = sort_keys (jdict key d')" and "inj key"
  shows "map_of d = map_of d'"
proof
  fix k
  have get: "jget (key k) (jdict key e) = map_option JDecimal (map_of e k)" for e
    using assms(2) by (induction e) (auto simp: jdict_def inj_eq)
  have "map_option (\<lambda>v. sort_keys (JDecimal v)) (map_of d k) =
      map_option (\<lambda>v. sort_keys (JDecimal v)) (map_of d' k)"
    using jget_eq [OF assms(1), of "key k"] by (simp add: get option.map_comp comp_def)
  then show "map_of d k = map_of d' k" by (cases "map_of d k"; cases "map_of d' k") auto
qed

lemma enum_values_inj:
  "inj operating_mode_value" "inj signal_direction_value" "inj order_type_value"
  "inj time_in_force_value" "inj strategy_state_value" "inj asset_class_value"
proof -
  show "inj operating_mode_value" by (rule injI, case_tac x; case_tac y; simp)
  show "inj signal_direction_value" by (rule injI, case_tac x; case_tac y; simp)
  show "inj order_type_value" by (rule injI, case_tac x; case_tac y; simp)
  show "inj time_in_force_value" by (rule injI, case_tac x; case_tac y; simp)
  show "inj strategy_state_value" by (rule injI, case_tac x; case_tac y; simp)
  show "inj asset_class_value" by (rule injI, case_tac x; case_tac y; simp)
qed

lemmas enum_value_eq = enum_values_inj [THEN inj_eq]

lemma format_f_eq:
  "exponent a \<le> 0 \<Longrightarrow> exponent b \<le> 0 \<Longrightarrow> format_f a = format_f b \<longleftrightarrow> a = b"
  by (cases a; cases b) auto

text \<open>Sets, up to the order of their elements.\<close>

lemma jset_leaf_eq [simp]:
  "sort_keys (jset JStr u) = sort_keys (jset JStr v) \<longleftrightarrow> set u = set v"
  "sort_keys (jset JInt i) = sort_keys (jset JInt j) \<longleftrightarrow> set i = set j"
  by (rule jset_eq_iff; simp add: inj_def)+

lemma jopt_jset_eq [simp]:
  "jopt (\<lambda>v. sort_keys (jset JStr v)) x = jopt (\<lambda>v. sort_keys (jset JStr v)) y \<longleftrightarrow>
   map_option set x = map_option set y"
proof -
  have "sort_keys (jset JStr v) \<noteq> JNull" for v by (simp add: jset_def)
  then show ?thesis by (cases x; cases y) (auto simp: jopt_def dest: sym)
qed

end
