(* ===== verification/Risk_Engine.thy ===== *)
theory Risk_Engine
  imports Risk_Sizing Canonical_Json
begin

text \<open>
  The decision pipeline of \<^verbatim>\<open>engines/risk/engine.py\<close>: input validation, hard checks,
  the canonical form of the inputs that \<open>compute_inputs_hash\<close> digests, sizing, and the
  decision with its contract. SHA-256 over the rendered JSON and UUIDv5 are the parameters
  \<open>digest\<close> and \<open>uuid5\<close>; the JSON value with its sorted keys is modelled.

  A decimal leaf is its value (the text \<open>format(value, 'f')\<close> also shows trailing zeros,
  which only the digest sees), except the lot step, whose exponent the sizing reads. Exception messages are shortened to their constant part.
\<close>

subsection \<open>Canonical inputs\<close>

record risk_inputs =
  ri_proposal :: trade_proposal
  ri_account :: account_state
  ri_portfolio :: portfolio_state
  ri_snapshot :: "market_snapshot option"
  ri_strategy :: strategy_configuration
  ri_policy :: risk_policy
  ri_instrument :: instrument

definition proposal_json :: "trade_proposal \<Rightarrow> json" where
  "proposal_json p = JObj
    [(''proposal_id'', JUuid (tp_proposal_id p)),
     (''strategy_id'', JStr (tp_strategy_id p)),
     (''strategy_version'', JStr (tp_strategy_version p)),
     (''instrument_id'', JStr (tp_instrument_id p)),
     (''operating_mode'', JStr (operating_mode_value (tp_operating_mode p))),
     (''direction'', JStr (signal_direction_value (tp_direction p))),
     (''order_type'', JStr (order_type_value (tp_order_type p))),
     (''time_in_force'', JStr (time_in_force_value (tp_time_in_force p))),
     (''quantity'', JDecimal (tp_quantity p)),
     (''limit_price'', jopt JDecimal (tp_limit_price p)),
     (''stop_loss'', jopt JDecimal (tp_stop_loss p)),
     (''take_profit'', jopt JDecimal (tp_take_profit p)),
     (''expires_at'', jopt JDatetime (tp_expires_at p))]"

definition account_json :: "account_state \<Rightarrow> json" where
  "account_json a = JObj
    [(''account_id'', JStr (ac_account_id a)),
     (''currency'', JStr (ac_currency a)),
     (''balance'', JDecimal (ac_balance a)),
     (''equity'', JDecimal (ac_equity a)),
     (''free_margin'', JDecimal (ac_free_margin a)),
     (''leverage'', JDecimal (ac_leverage a)),
     (''peak_equity'', JDecimal (ac_peak_equity a)),
     (''daily_pnl'', JDecimal (ac_daily_pnl a)),
     (''consecutive_losses'', JInt (ac_consecutive_losses a)),
     (''last_loss_at'', jopt JDatetime (ac_last_loss_at a)),
     (''broker_connected'', JBool (ac_broker_connected a)),
     (''last_heartbeat_at'', jopt JDatetime (ac_last_heartbeat_at a)),
     (''safe_mode'', JBool (ac_safe_mode a)),
     (''as_of'', JDatetime (ac_as_of a))]"

definition portfolio_json :: "portfolio_state \<Rightarrow> json" where
  "portfolio_json f = JObj
    [(''account_id'', JStr (pf_account_id f)),
     (''pending_order_count'', JInt (pf_pending_order_count f)),
     (''positions'', JArr (map (\<lambda>p. JObj
        [(''position_id'', JStr (pos_position_id p)),
         (''instrument_id'', JStr (pos_instrument_id p)),
         (''side'', JStr (position_side_value (pos_side p))),
         (''quantity'', JDecimal (pos_quantity p)),
         (''average_entry_price'', JDecimal (pos_average_entry_price p)),
         (''mark_price'', jopt JDecimal (pos_mark_price p))]) (pf_positions f))),
     (''exposure'', JObj
        [(''total_notional'', JDecimal (pe_total_notional (pf_exposure f))),
         (''by_instrument'', jdict id (pe_by_instrument (pf_exposure f))),
         (''by_asset_class'', jdict asset_class_value (pe_by_asset_class (pf_exposure f))),
         (''net_by_currency'', jdict id (pe_net_by_currency (pf_exposure f)))]),
     (''as_of'', JDatetime (pf_as_of f))]"

definition snapshot_json :: "market_snapshot \<Rightarrow> json" where
  "snapshot_json s = JObj
    [(''instrument_id'', JStr (ms_instrument_id s)),
     (''as_of'', JDatetime (ms_as_of s)),
     (''source_timestamp'', JDatetime (ms_source_timestamp s)),
     (''bid'', JDecimal (ms_bid s)),
     (''ask'', JDecimal (ms_ask s))]"

definition strategy_json :: "strategy_configuration \<Rightarrow> json" where
  "strategy_json s = JObj
    [(''strategy_id'', JStr (sc_strategy_id s)),
     (''strategy_version'', JStr (sc_strategy_version s)),
     (''enabled'', JBool (sc_enabled s)),
     (''state'', JStr (strategy_state_value (sc_state s))),
     (''allowed_instruments'', jopt (jset JStr) (sc_allowed_instruments s)),
     (''as_of'', JDatetime (sc_as_of s))]"

definition instrument_json :: "instrument \<Rightarrow> json" where
  "instrument_json i = JObj
    [(''instrument_id'', JStr (ins_instrument_id i)),
     (''asset_class'', JStr (asset_class_value (ins_asset_class i))),
     (''base_currency'', jopt JStr (ins_base_currency i)),
     (''quote_currency'', jopt JStr (ins_quote_currency i)),
     (''contract_size'', JDecimal (ins_contract_size i)),
     (''tick_size'', JDecimal (ins_tick_size i)),
     (''lot_size'', JDecimal (ins_lot_size i)),
     (''lot_step'', JPlain (format_f (ins_lot_step i))),
     (''min_lot'', JDecimal (ins_min_lot i)),
     (''max_lot'', JDecimal (ins_max_lot i)),
     (''is_active'', JBool (ins_is_active i))]"

definition policy_json :: "risk_policy \<Rightarrow> json" where
  "policy_json p = JObj
    [(''policy_id'', JStr (rp_policy_id p)),
     (''policy_version'', JStr (rp_policy_version p)),
     (''max_risk_per_trade'', JDecimal (rp_max_risk_per_trade p)),
     (''strategy_risk_budgets'', jdict id (rp_strategy_risk_budgets p)),
     (''max_total_exposure'', JDecimal (rp_max_total_exposure p)),
     (''max_instrument_exposure'', JDecimal (rp_max_instrument_exposure p)),
     (''max_asset_class_exposure'', jdict asset_class_value (rp_max_asset_class_exposure p)),
     (''max_currency_exposure'', jdict id (rp_max_currency_exposure p)),
     (''max_leverage'', JDecimal (rp_max_leverage p)),
     (''margin_rates'', jdict asset_class_value (rp_margin_rates p)),
     (''max_positions'', JInt (rp_max_positions p)),
     (''max_pending_orders'', JInt (rp_max_pending_orders p)),
     (''max_daily_loss'', JDecimal (rp_max_daily_loss p)),
     (''max_drawdown_pct'', JDecimal (rp_max_drawdown_pct p)),
     (''max_consecutive_losses'', JInt (rp_max_consecutive_losses p)),
     (''cooldown_seconds'', JInt (rp_cooldown_seconds p)),
     (''max_spread_relative'', JDecimal (rp_max_spread_relative p)),
     (''max_slippage_relative'', JDecimal (rp_max_slippage_relative p)),
     (''min_stop_distance'', JDecimal (rp_min_stop_distance p)),
     (''market_data_max_age_seconds'', JInt (rp_market_data_max_age_seconds p)),
     (''heartbeat_max_age_seconds'', JInt (rp_heartbeat_max_age_seconds p)),
     (''min_position_size'', jopt JDecimal (rp_min_position_size p)),
     (''max_position_size'', jopt JDecimal (rp_max_position_size p)),
     (''instrument_whitelist'', jopt (jset JStr) (rp_instrument_whitelist p)),
     (''trading_days'', jset JInt (rp_trading_days p)),
     (''session_open_utc'', jopt JTime (rp_session_open_utc p)),
     (''session_close_utc'', jopt JTime (rp_session_close_utc p))]"

definition risk_engine_version :: string where
  "risk_engine_version = ''1.0.0''"

definition canonical_inputs :: "risk_inputs \<Rightarrow> json" where
  "canonical_inputs x = JObj
    [(''engine_version'', JStr risk_engine_version),
     (''proposal'', proposal_json (ri_proposal x)),
     (''account'', account_json (ri_account x)),
     (''portfolio'', portfolio_json (ri_portfolio x)),
     (''snapshot'', jopt snapshot_json (ri_snapshot x)),
     (''strategy'', strategy_json (ri_strategy x)),
     (''instrument'', instrument_json (ri_instrument x)),
     (''policy'', policy_json (ri_policy x))]"

definition compute_inputs_hash :: "(json \<Rightarrow> string) \<Rightarrow> risk_inputs \<Rightarrow> string" where
  "compute_inputs_hash digest x = digest (sort_keys (canonical_inputs x))"

subsection \<open>Evaluation\<close>

definition validate_inputs :: "risk_inputs \<Rightarrow> exn + instant" where
  "validate_inputs x =
     (let p = ri_proposal x; a = ri_account x; f = ri_portfolio x; st = ri_strategy x in
      if ins_instrument_id (ri_instrument x) \<noteq> tp_instrument_id p
      then Inl (RiskEngineInputError ''instrument does not match proposal'')
      else if ac_account_id a \<noteq> pf_account_id f
      then Inl (RiskEngineInputError ''account and portfolio must belong to the same account'')
      else if (case ri_snapshot x of None \<Rightarrow> False
               | Some s \<Rightarrow> ms_instrument_id s \<noteq> tp_instrument_id p)
      then Inl (RiskEngineInputError ''snapshot instrument does not match proposal'')
      else
        (let now = (case ri_snapshot x of Some s \<Rightarrow> ms_as_of s | None \<Rightarrow> ac_as_of a) in
         if now < ac_as_of a then Inl (RiskEngineInputError ''account as_of is in the future (INV-3)'')
         else if now < pf_as_of f
         then Inl (RiskEngineInputError ''portfolio as_of is in the future (INV-3)'')
         else if now < sc_as_of st
         then Inl (RiskEngineInputError ''strategy as_of is in the future (INV-3)'')
         else Inr now))"

definition hard_check_args :: "risk_inputs \<Rightarrow> instant \<Rightarrow> check_args" where
  "hard_check_args x now =
     \<lparr>ca_proposal = ri_proposal x, ca_account = ri_account x, ca_portfolio = ri_portfolio x,
      ca_snapshot = ri_snapshot x, ca_strategy = ri_strategy x, ca_policy = ri_policy x,
      ca_instrument_is_active = ins_is_active (ri_instrument x), ca_now = now\<rparr>"

text \<open>\<open>RiskEngine._decision\<close>: an invalid shape is a pydantic \<open>ValidationError\<close>.\<close>

definition make_decision ::
    "(string \<Rightarrow> uuid) \<Rightarrow> risk_decision_type \<Rightarrow> risk_reason_code list \<Rightarrow> decimal option \<Rightarrow>
     decimal option \<Rightarrow> decimal option \<Rightarrow> trade_proposal \<Rightarrow> risk_policy \<Rightarrow> instant \<Rightarrow> string \<Rightarrow>
     exn + risk_decision" where
  "make_decision uuid5 decision_type reason_codes approved_quantity approved_stop risk_amount
       proposal policy now inputs_hash =
     (let d = \<lparr>rd_decision_id = uuid5 inputs_hash, rd_proposal_id = tp_proposal_id proposal,
               rd_decision = decision_type, rd_reason_codes = reason_codes,
               rd_approved_quantity = approved_quantity, rd_approved_stop = approved_stop,
               rd_risk_amount = risk_amount, rd_policy_version = rp_policy_version policy,
               rd_risk_engine_version = risk_engine_version, rd_inputs_hash = Some inputs_hash,
               rd_produced_at = now, rd_trace_id = tp_trace_id proposal\<rparr>
      in if valid_risk_decision d then Inr d else Inl (ValueError ''RiskDecision''))"

definition decide_from_plan ::
    "(string \<Rightarrow> uuid) \<Rightarrow> string \<Rightarrow> risk_inputs \<Rightarrow> instant \<Rightarrow> sizing_plan \<Rightarrow> exn + risk_decision" where
  "decide_from_plan uuid5 inputs_hash x now plan =
     (let proposal = ri_proposal x; policy = ri_policy x in
      if sp_below_minimum plan
      then make_decision uuid5 RD_REJECT (dedupe (sp_binding_codes plan @ [SIZE_BELOW_MINIMUM]))
             None None None proposal policy now inputs_hash
      else let risk_amount = dmul (sp_final_quantity plan) (sp_risk_per_lot plan) in
        if sp_final_quantity plan = tp_quantity proposal
        then make_decision uuid5 RD_APPROVE [] (Some (sp_final_quantity plan))
               (tp_stop_loss proposal) (Some risk_amount) proposal policy now inputs_hash
        else make_decision uuid5 RD_RESIZE (dedupe (sp_binding_codes plan))
               (Some (sp_final_quantity plan)) (tp_stop_loss proposal) (Some risk_amount)
               proposal policy now inputs_hash)"

text \<open>\<open>None\<close> stands for a sizing loop that does not end (excluded by \<open>evaluate_returns\<close>).\<close>

definition evaluate ::
    "(json \<Rightarrow> string) \<Rightarrow> (string \<Rightarrow> uuid) \<Rightarrow> risk_inputs \<Rightarrow> (exn + risk_decision) option" where
  "evaluate digest uuid5 x =
     (case validate_inputs x of Inl e \<Rightarrow> Some (Inl e)
      | Inr now \<Rightarrow>
        (let hard_reasons = run_hard_checks (hard_check_args x now);
             inputs_hash = compute_inputs_hash digest x
         in if hard_reasons \<noteq> []
            then Some (make_decision uuid5 RD_REJECT hard_reasons None None None
                   (ri_proposal x) (ri_policy x) now inputs_hash)
            else case ri_snapshot x of None \<Rightarrow> Some (Inl AssertionError)
            | Some snapshot \<Rightarrow>
               (case compute_size_plan (ri_proposal x) (ri_account x) (ri_portfolio x) snapshot
                       (ri_policy x) (ri_instrument x) of
                  None \<Rightarrow> None
                | Some (Inl e) \<Rightarrow> Some (Inl e)
                | Some (Inr plan) \<Rightarrow> Some (decide_from_plan uuid5 inputs_hash x now plan))))"


definition evaluate_proposal ::
    "(json \<Rightarrow> string) \<Rightarrow> (string \<Rightarrow> uuid) \<Rightarrow> risk_inputs \<Rightarrow> (exn + risk_decision) option" where
  "evaluate_proposal digest uuid5 x = evaluate digest uuid5 x"

lemmas evaluate_defs = evaluate_def evaluate_proposal_def make_decision_def decide_from_plan_def

subsection \<open>What a decision tells\<close>

lemma make_decision_InrD:
  assumes "make_decision u t codes q stop amount p pol now h = Inr d"
  shows "valid_risk_decision d" and "rd_decision d = t" and "rd_reason_codes d = codes"
    and "rd_approved_quantity d = q" and "rd_approved_stop d = stop" and "rd_risk_amount d = amount"
  using assms by (auto simp: make_decision_def Let_def split: if_splits)

text \<open>The inputs of a run that reached sizing.\<close>

lemma evaluate_cases:
  assumes "evaluate digest uuid5 x = Some (Inr d)"
  obtains (hard) now where "validate_inputs x = Inr now"
    and "run_hard_checks (hard_check_args x now) \<noteq> []" and "rd_decision d = RD_REJECT"
    and "rd_reason_codes d = run_hard_checks (hard_check_args x now)"
  | (sized) now snapshot plan where "validate_inputs x = Inr now"
    and "run_hard_checks (hard_check_args x now) = []" and "ri_snapshot x = Some snapshot"
    and "compute_size_plan (ri_proposal x) (ri_account x) (ri_portfolio x) snapshot
           (ri_policy x) (ri_instrument x) = Some (Inr plan)"
    and "decide_from_plan uuid5 (compute_inputs_hash digest x) x now plan = Inr d"
proof -
  obtain now where now: "validate_inputs x = Inr now"
    using assms by (auto simp: evaluate_def split: sum.splits)
  show thesis
  proof (cases "run_hard_checks (hard_check_args x now) = []")
    case True
    obtain snapshot where snap: "ri_snapshot x = Some snapshot"
      using assms now True by (cases "ri_snapshot x") (auto simp: evaluate_def)
    obtain plan where "compute_size_plan (ri_proposal x) (ri_account x) (ri_portfolio x) snapshot
        (ri_policy x) (ri_instrument x) = Some (Inr plan)"
      using assms now True snap by (auto simp: evaluate_def split: option.splits sum.splits)
    then show thesis
      using sized [OF now True snap] assms now True snap by (simp add: evaluate_def)
  next
    case False
    then have "make_decision uuid5 RD_REJECT (run_hard_checks (hard_check_args x now)) None None None
        (ri_proposal x) (ri_policy x) now (compute_inputs_hash digest x) = Inr d"
      using assms now by (simp add: evaluate_def)
    note d = make_decision_InrD [OF this]
    show thesis by (rule hard [OF now False d(2,3)])
  qed
qed

lemma decide_from_plan_cases:
  assumes "decide_from_plan uuid5 h x now plan = Inr d"
  obtains (below) "sp_below_minimum plan" and "rd_decision d = RD_REJECT"
    and "rd_reason_codes d = dedupe (sp_binding_codes plan @ [SIZE_BELOW_MINIMUM])"
  | (sized) "\<not> sp_below_minimum plan" and "rd_decision d \<noteq> RD_REJECT"
    and "rd_decision d = RD_APPROVE \<longleftrightarrow> sp_final_quantity plan = tp_quantity (ri_proposal x)"
    and "rd_approved_quantity d = Some (sp_final_quantity plan)"
    and "rd_approved_stop d = tp_stop_loss (ri_proposal x)"
    and "rd_risk_amount d = Some (dmul (sp_final_quantity plan) (sp_risk_per_lot plan))"
proof (cases "sp_below_minimum plan")
  case True
  with assms show thesis
    by (intro below) (auto simp: decide_from_plan_def dest: make_decision_InrD)
next
  case False
  with assms show thesis
    by (intro sized) (auto simp: decide_from_plan_def Let_def dest: make_decision_InrD split: if_splits)
qed

lemma evaluate_valid:
  assumes "evaluate digest uuid5 x = Some (Inr d)"
  shows "valid_risk_decision d"
  using assms by (auto simp: evaluate_def decide_from_plan_def Let_def make_decision_InrD(1)
      split: sum.splits if_splits option.splits)

subsection \<open>A concrete evaluation\<close>

definition example_instrument :: instrument where
  "example_instrument =
     \<lparr>ins_instrument_id = ''EURUSD'', ins_symbol = ''EURUSD'', ins_exchange = ''MT4'',
      ins_asset_class = FX, ins_base_currency = Some ''EUR'', ins_quote_currency = Some ''USD'',
      ins_price_precision = 5, ins_tick_size = 1 / 100000, ins_lot_size = 100000,
      ins_lot_step = Dec 1 (- 2), ins_min_lot = 1 / 100, ins_max_lot = 50,
      ins_contract_size = 100000, ins_is_active = True\<rparr>"

definition example_policy :: risk_policy where
  "example_policy =
     \<lparr>rp_policy_id = ''default'', rp_policy_version = ''1.0'', rp_max_risk_per_trade = 200,
      rp_strategy_risk_budgets = [(''trend'', 150)], rp_max_total_exposure = 1000000,
      rp_max_instrument_exposure = 500000, rp_max_asset_class_exposure = [(FX, 800000)],
      rp_max_currency_exposure = [(''EUR'', 600000), (''USD'', 600000)], rp_max_leverage = 30,
      rp_margin_rates = [(FX, 1 / 25)], rp_max_positions = 5, rp_max_pending_orders = 5,
      rp_max_daily_loss = 1000, rp_max_drawdown_pct = 1 / 5, rp_max_consecutive_losses = 3,
      rp_cooldown_seconds = 3600, rp_max_spread_relative = 1 / 1000,
      rp_max_slippage_relative = 1 / 1000, rp_min_stop_distance = 1 / 10000,
      rp_market_data_max_age_seconds = 30, rp_heartbeat_max_age_seconds = 60,
      rp_min_position_size = None, rp_max_position_size = Some 10,
      rp_instrument_whitelist = None, rp_trading_days = [0, 1, 2, 3, 4],
      rp_session_open_utc = None, rp_session_close_utc = None\<rparr>"

definition example_proposal :: trade_proposal where
  "example_proposal =
     \<lparr>tp_proposal_id = 11, tp_strategy_id = ''trend'', tp_strategy_version = ''1'',
      tp_instrument_id = ''EURUSD'', tp_operating_mode = OM_PAPER, tp_direction = SD_LONG,
      tp_order_type = MARKET, tp_time_in_force = GTC, tp_quantity = 1, tp_limit_price = None,
      tp_stop_loss = Some (998 / 1000), tp_take_profit = None, tp_rationale = ''breakout'',
      tp_expires_at = None, tp_trace_id = None\<rparr>"

definition example_inputs :: risk_inputs where
  "example_inputs =
     \<lparr>ri_proposal = example_proposal,
      ri_account = \<lparr>ac_account_id = ''A1'', ac_currency = ''USD'', ac_balance = 50000,
        ac_equity = 50000, ac_free_margin = 40000, ac_leverage = 30, ac_peak_equity = 50000,
        ac_daily_pnl = 0, ac_consecutive_losses = 0, ac_last_loss_at = None,
        ac_broker_connected = True, ac_last_heartbeat_at = Some 0, ac_safe_mode = False,
        ac_as_of = 0\<rparr>,
      ri_portfolio = \<lparr>pf_account_id = ''A1'', pf_positions = [], pf_pending_order_count = 0,
        pf_exposure = \<lparr>pe_total_notional = 0, pe_by_instrument = [], pe_by_asset_class = [],
          pe_net_by_currency = []\<rparr>, pf_as_of = 0\<rparr>,
      ri_snapshot = Some \<lparr>ms_instrument_id = ''EURUSD'', ms_as_of = 1000000,
        ms_source_timestamp = 0, ms_bid = 9999 / 10000, ms_ask = 10001 / 10000,
        ms_high = None, ms_low = None, ms_close = None\<rparr>,
      ri_strategy = \<lparr>sc_strategy_id = ''trend'', sc_strategy_version = ''1'', sc_enabled = True,
        sc_state = SS_PAPER, sc_allowed_instruments = None, sc_as_of = 0\<rparr>,
      ri_policy = example_policy, ri_instrument = example_instrument\<rparr>"

definition example_decision :: risk_decision where
  "example_decision =
     \<lparr>rd_decision_id = 7, rd_proposal_id = 11, rd_decision = RD_RESIZE,
      rd_reason_codes = [RISK_LIMIT_EXCEEDED],
      rd_approved_quantity = Some (3 / 4), rd_approved_stop = Some (998 / 1000),
      rd_risk_amount = Some 150, rd_policy_version = ''1.0'', rd_risk_engine_version = ''1.0.0'',
      rd_inputs_hash = Some ''h'', rd_produced_at = 1000000, rd_trace_id = None\<rparr>"

definition example_snapshot :: market_snapshot where
  "example_snapshot = \<lparr>ms_instrument_id = ''EURUSD'', ms_as_of = 1000000,
     ms_source_timestamp = 0, ms_bid = 9999 / 10000, ms_ask = 10001 / 10000,
     ms_high = None, ms_low = None, ms_close = None\<rparr>"

definition example_caps :: "(risk_reason_code \<times> decimal) list" where
  "example_caps = [(RISK_LIMIT_EXCEEDED, 3 / 4), (CONCENTRATION_LIMIT_EXCEEDED, 5),
     (CONCENTRATION_LIMIT_EXCEEDED, 8), (CONCENTRATION_LIMIT_EXCEEDED, 6),
     (EXPOSURE_LIMIT_EXCEEDED, 10), (LEVERAGE_LIMIT_EXCEEDED, 15), (INSUFFICIENT_MARGIN, 10),
     (SIZE_ABOVE_MAXIMUM, 10)]"

lemma example_sizing_values:
  "tp_stop_loss example_proposal = Some (998 / 1000)"
  "entry_price example_proposal example_snapshot = 1"
  "dabs (dsub 1 (998 / 1000)) = 1 / 500"
  "dmul (ins_contract_size example_instrument) 1 = 100000"
  "dmul (ins_contract_size example_instrument) (1 / 500) = 200"
  "risk_budget example_proposal example_policy = 150"
  "margin_rate_of example_policy example_instrument = 1 / 25"
  "max_effective_size example_policy example_instrument = 10"
  "min_effective_size example_policy example_instrument = 1 / 100"
  "size_target (tp_quantity example_proposal) (clip_caps example_caps) = 3 / 4"
  "map fst (filter (\<lambda>(_, cap). cap < tp_quantity example_proposal) (clip_caps example_caps))
     = [RISK_LIMIT_EXCEEDED]"
  "floor_to_step (3 / 4) (ins_lot_step example_instrument) = Inr (3 / 4)"
  by code_simp+

lemma example_size_caps:
  "size_caps example_proposal (ri_account example_inputs) (ri_portfolio example_inputs)
     example_policy example_instrument 150 100000 200 (1 / 25) 10 = Inr example_caps"
  by code_simp

lemma example_gate:
  "soft_limits_ok example_proposal example_instrument example_policy (ri_portfolio example_inputs)
     (ri_account example_inputs) 150 1 (1 / 500) (1 / 25) 10 (3 / 4)"
  by code_simp

lemma example_hard: "run_hard_checks (hard_check_args example_inputs 1000000) = []"
  by code_simp

lemma example_validate: "validate_inputs example_inputs = Inr 1000000"
  by code_simp

lemma example_select:
  "ri_proposal example_inputs = example_proposal" "ri_policy example_inputs = example_policy"
  "ri_instrument example_inputs = example_instrument"
  "ri_snapshot example_inputs = Some example_snapshot"
  by (simp_all add: example_inputs_def example_snapshot_def)

lemma example_amount: "dmul (3 / 4) 200 = 150" "tp_quantity example_proposal = 1"
  by code_simp+

lemma example_decision_valid: "valid_risk_decision example_decision"
  by code_simp

lemma example_evaluation:
  "evaluate (\<lambda>_. ''h'') (\<lambda>_. 7) example_inputs = Some (Inr example_decision)"
proof -
  have loop: "size_loop (soft_limits_ok example_proposal example_instrument example_policy
      (ri_portfolio example_inputs) (ri_account example_inputs) 150 1 (1 / 500) (1 / 25) 10)
      (1 / 100) (ins_lot_step example_instrument) (3 / 4) = Some (Inr (3 / 4))"
    by (rule size_loop_stop) (simp add: example_gate)
  have plan: "compute_size_plan example_proposal (ri_account example_inputs)
      (ri_portfolio example_inputs) example_snapshot example_policy example_instrument =
    Some (Inr \<lparr>sp_final_quantity = 3 / 4, sp_min_effective = 1 / 100, sp_max_effective = 10,
      sp_binding_codes = [RISK_LIMIT_EXCEEDED], sp_floor_applied = False, sp_below_minimum = False,
      sp_entry_price = 1, sp_stop_distance = 1 / 500, sp_notional_per_lot = 100000,
      sp_risk_per_lot = 200, sp_effective_risk_budget = 150\<rparr>)"
    by (simp only: compute_size_plan_def example_sizing_values example_size_caps loop Let_def
        option.case sum.case) simp
  have d: "example_decision = \<lparr>rd_decision_id = 7, rd_proposal_id = tp_proposal_id example_proposal,
      rd_decision = RD_RESIZE, rd_reason_codes = dedupe [RISK_LIMIT_EXCEEDED],
      rd_approved_quantity = Some (3 / 4), rd_approved_stop = tp_stop_loss example_proposal,
      rd_risk_amount = Some 150, rd_policy_version = rp_policy_version example_policy,
      rd_risk_engine_version = risk_engine_version, rd_inputs_hash = Some ''h'',
      rd_produced_at = 1000000, rd_trace_id = tp_trace_id example_proposal\<rparr>"
    by (simp add: example_decision_def example_proposal_def example_policy_def
        risk_engine_version_def dedupe_def)
  show ?thesis
    using example_decision_valid unfolding d
    by (simp add: evaluate_def example_validate example_hard example_select plan
        decide_from_plan_def make_decision_def compute_inputs_hash_def example_amount)
qed

subsection \<open>Properties\<close>

definition valid_risk_inputs :: "risk_inputs \<Rightarrow> bool" where
  "valid_risk_inputs x \<longleftrightarrow>
     valid_trade_proposal (ri_proposal x) \<and> valid_account_state (ri_account x) \<and>
     valid_portfolio_state (ri_portfolio x) \<and>
     (case ri_snapshot x of None \<Rightarrow> True | Some s \<Rightarrow> valid_market_snapshot s) \<and>
     valid_strategy_configuration (ri_strategy x) \<and> valid_risk_policy (ri_policy x) \<and>
     valid_instrument (ri_instrument x)"

lemma example_inputs_valid: "valid_risk_inputs example_inputs"
  by code_simp

lemma example_instrument_valid: "valid_instrument (ri_instrument example_inputs)"
  by code_simp

text \<open>The facts of a run that approved or resized.\<close>

lemma approved_facts:
  assumes ins: "valid_instrument (ri_instrument x)"
    and ev: "evaluate digest uuid5 x = Some (Inr d)" and ok: "rd_decision d \<noteq> RD_REJECT"
  obtains now snapshot stop q caps start where "validate_inputs x = Inr now"
    and "run_hard_checks (hard_check_args x now) = []"
    and "ri_snapshot x = Some snapshot" and "tp_stop_loss (ri_proposal x) = Some stop"
    and "rd_approved_quantity d = Some q" and "rd_approved_stop d = Some stop"
    and "rd_decision d = RD_APPROVE \<longleftrightarrow> q = tp_quantity (ri_proposal x)"
    and "rd_risk_amount d = Some (dmul q (dmul (ins_contract_size (ri_instrument x))
           (dabs (dsub (entry_price (ri_proposal x) snapshot) stop))))"
    and "min_effective_size (ri_policy x) (ri_instrument x) \<le> q"
    and "plan_gate (ri_proposal x) (ri_account x) (ri_portfolio x) snapshot (ri_policy x)
           (ri_instrument x) stop q"
    and "\<exists>n. q = of_int n * dec_val (ins_lot_step (ri_instrument x))"
    and "q \<le> start"
    and "floor_to_step (size_target (tp_quantity (ri_proposal x)) (clip_caps caps))
           (ins_lot_step (ri_instrument x)) = Inr start"
  using ev
proof (cases rule: evaluate_cases)
  case (hard now)
  with ok show thesis by simp
next
  case (sized now snapshot plan)
  from sized(5) show thesis
  proof (cases rule: decide_from_plan_cases)
    case below
    with ok show thesis by simp
  next
    case s: sized
    obtain stop caps start where P: "tp_stop_loss (ri_proposal x) = Some stop"
      "floor_to_step (size_target (tp_quantity (ri_proposal x)) (clip_caps caps))
         (ins_lot_step (ri_instrument x)) = Inr start"
      "sp_final_quantity plan \<le> start"
      "sp_below_minimum plan \<longleftrightarrow>
         sp_final_quantity plan < min_effective_size (ri_policy x) (ri_instrument x)"
      "sp_risk_per_lot plan = dmul (ins_contract_size (ri_instrument x))
         (dabs (dsub (entry_price (ri_proposal x) snapshot) stop))"
      and G: "\<not> sp_below_minimum plan \<Longrightarrow>
        plan_gate (ri_proposal x) (ri_account x) (ri_portfolio x) snapshot (ri_policy x)
           (ri_instrument x) stop (sp_final_quantity plan) \<and>
        (\<exists>n. sp_final_quantity plan = of_int n * dec_val (ins_lot_step (ri_instrument x)))"
      using compute_size_plan_sound [OF ins sized(4)] by blast
    show thesis
      by (rule that [of now snapshot stop "sp_final_quantity plan" start caps])
        (use sized(1,2,3) P s G [OF s(1)] in \<open>simp_all add: not_less\<close>)
  qed
qed

text \<open>
  C14: the risk engine always returns. For every instrument that satisfies its contract the
  evaluation of any inputs ends with a decision or an exception: the lot-step walk of
  \<open>compute_size_plan\<close> cannot run forever.
\<close>

theorem evaluate_returns:
  assumes "valid_instrument (ri_instrument x)"
  shows "\<exists>r. evaluate digest uuid5 x = Some r"
proof -
  have "evaluate digest uuid5 x \<noteq> None"
    by (auto simp: evaluate_def Let_def split: sum.split option.split
        elim: notE [OF compute_size_plan_returns [OF assms]])
  then show ?thesis by blast
qed

theorem evaluate_returns_witness:
  "\<exists>r. evaluate (\<lambda>_. ''h'') (\<lambda>_. 7) example_inputs = Some r"
  by (rule evaluate_returns [OF example_instrument_valid])

text \<open>
  C15: no approval without all guards. When the engine approves or resizes, the inputs were
  consistent, no hard check was violated (in particular there is a fresh snapshot, a stop on
  the right side, no safe mode), the quantity is a multiple of the lot step between the
  effective minimum and maximum, it passed the soft-limit gate, the approved stop is the
  proposed one, and the decision is \<open>APPROVE\<close> exactly when the quantity is unchanged.
\<close>

theorem approval_sound:
  assumes "valid_instrument (ri_instrument x)"
    and "evaluate digest uuid5 x = Some (Inr d)" and "rd_decision d \<noteq> RD_REJECT"
  shows "\<exists>now snapshot stop q.
    validate_inputs x = Inr now \<and> run_hard_checks (hard_check_args x now) = [] \<and>
    ri_snapshot x = Some snapshot \<and> tp_stop_loss (ri_proposal x) = Some stop \<and>
    rd_approved_quantity d = Some q \<and> rd_approved_stop d = Some stop \<and>
    (rd_decision d = RD_APPROVE \<longleftrightarrow> q = tp_quantity (ri_proposal x)) \<and>
    rd_risk_amount d = Some (dmul q (dmul (ins_contract_size (ri_instrument x))
      (dabs (dsub (entry_price (ri_proposal x) snapshot) stop)))) \<and>
    min_effective_size (ri_policy x) (ri_instrument x) \<le> q \<and>
    q \<le> max_effective_size (ri_policy x) (ri_instrument x) \<and>
    soft_limits_ok (ri_proposal x) (ri_instrument x) (ri_policy x) (ri_portfolio x) (ri_account x)
      (risk_budget (ri_proposal x) (ri_policy x)) (entry_price (ri_proposal x) snapshot)
      (dabs (dsub (entry_price (ri_proposal x) snapshot) stop))
      (margin_rate_of (ri_policy x) (ri_instrument x))
      (max_effective_size (ri_policy x) (ri_instrument x)) q \<and>
    (\<exists>n. q = of_int n * dec_val (ins_lot_step (ri_instrument x)))"
proof -
  have max: "soft_limits_ok p i pol f a b en sd mr mx q \<Longrightarrow> q \<le> mx" for p i pol f a b en sd mr mx q
    by (auto simp: soft_limits_ok_def split: if_splits)
  from assms show ?thesis
    by (rule approved_facts) (use max in \<open>simp only: plan_gate_def; blast\<close>)
qed

theorem approval_sound_witness:
  "\<exists>q. rd_approved_quantity example_decision = Some q \<and>
     q \<le> max_effective_size (ri_policy example_inputs) (ri_instrument example_inputs)"
proof -
  have "rd_decision example_decision \<noteq> RD_REJECT" by (simp add: example_decision_def)
  from approval_sound [OF example_instrument_valid example_evaluation this] show ?thesis by blast
qed

text \<open>The limits that the gate compared, as inequalities between decimals.\<close>

lemma soft_limits_okD:
  assumes "soft_limits_ok p i pol f a budget en sd mr mx q"
  defines "notional \<equiv> dmul (dmul (ins_contract_size i) q) en"
  shows "q \<le> mx" and "dmul (dmul (ins_contract_size i) q) sd \<le> budget"
    and "dadd notional (get_or (pe_by_instrument (pf_exposure f)) (tp_instrument_id p) 0)
      \<le> rp_max_instrument_exposure pol"
    and "dadd notional (pe_total_notional (pf_exposure f)) \<le> rp_max_total_exposure pol"
    and "dadd notional (pe_total_notional (pf_exposure f)) \<le> dmul (rp_max_leverage pol) (ac_equity a)"
    and "dmul notional mr \<le> ac_free_margin a"
  using assms(1) by (auto simp: soft_limits_ok_def Let_def notional_def split: if_splits)

lemma entry_price_pos:
  assumes "valid_risk_inputs x" and "ri_snapshot x = Some snapshot"
  shows "0 < entry_price (ri_proposal x) snapshot"
  using assms ms_mid_pos [of snapshot]
  by (auto simp: valid_risk_inputs_def entry_price_def valid_trade_proposal_def opt_pos_def
      split: option.splits)

lemma exposure_lower:
  assumes "0 \<le> cs" "0 \<le> q" "0 \<le> en" "0 \<le> cur" and "dadd (dmul (dmul cs q) en) cur \<le> limit"
  shows "(cs * q * en * (1 - 1 / (2 * 10 ^ 27)) ^ 2 + cur) * (1 - 1 / (2 * 10 ^ 27)) \<le> limit"
proof -
  have n: "cs * q * en * (1 - 1 / (2 * 10 ^ 27)) ^ 2 \<le> dmul (dmul cs q) en"
    using assms by (intro dmul_dmul_lower)
  have pos: "0 \<le> dmul (dmul cs q) en" using assms by (simp add: dmul_def)
  have "(cs * q * en * (1 - 1 / (2 * 10 ^ 27)) ^ 2 + cur) * (1 - 1 / (2 * 10 ^ 27))
      \<le> (dmul (dmul cs q) en + cur) * (1 - 1 / (2 * 10 ^ 27))"
    using n by (intro mult_right_mono) simp_all
  also have "\<dots> \<le> dadd (dmul (dmul cs q) en) cur" using pos assms(4) by (intro dadd_lower) simp
  also have "\<dots> \<le> limit" by (rule assms(5))
  finally show ?thesis .
qed

text \<open>
  C16: an approved size cannot bypass a limit by more than the rounding of the 28-digit
  context. The exact capital at risk (contract size, quantity, stop distance) stays within the
  per-trade budget, the exact notional plus the current exposure within the instrument and
  total limits, each up to the factors \<open>1 - 10 ^ -27 / 2\<close> of the operations involved.
\<close>

theorem approved_size_within_limits:
  assumes "valid_risk_inputs x" and "ri_snapshot x = Some snapshot"
    and "tp_stop_loss (ri_proposal x) = Some stop" and "rd_approved_quantity d = Some q"
    and "evaluate digest uuid5 x = Some (Inr d)" and "rd_decision d \<noteq> RD_REJECT"
  defines "\<kappa> \<equiv> 1 - 1 / (2 * 10 ^ 27)" and "lot \<equiv> ins_contract_size (ri_instrument x)"
    and "entry \<equiv> entry_price (ri_proposal x) snapshot"
    and "exposure \<equiv> pf_exposure (ri_portfolio x)"
  shows "lot * q * dabs (dsub entry stop) * \<kappa> ^ 2 \<le> rp_max_risk_per_trade (ri_policy x) \<and>
    (lot * q * entry * \<kappa> ^ 2 +
       get_or (pe_by_instrument exposure) (tp_instrument_id (ri_proposal x)) 0) * \<kappa>
      \<le> rp_max_instrument_exposure (ri_policy x) \<and>
    (lot * q * entry * \<kappa> ^ 2 + pe_total_notional exposure) * \<kappa>
      \<le> rp_max_total_exposure (ri_policy x)"
proof -
  have ins: "valid_instrument (ri_instrument x)" using assms(1) by (simp add: valid_risk_inputs_def)
  have gate: "plan_gate (ri_proposal x) (ri_account x) (ri_portfolio x) snapshot (ri_policy x)
        (ri_instrument x) stop q"
    and q: "min_effective_size (ri_policy x) (ri_instrument x) \<le> q"
    using ins assms(5,6) by (rule approved_facts; use assms(2,3,4) in simp)+
  note G = soft_limits_okD [OF gate [unfolded plan_gate_def], folded lot_def entry_def exposure_def]
  have cs: "0 \<le> lot" using ins by (simp add: lot_def valid_instrument_def)
  have q0: "0 \<le> q" using q min_effective_pos [OF ins, of "ri_policy x"] by linarith
  have en: "0 \<le> entry" using entry_price_pos [OF assms(1,2)] by (simp add: entry_def)
  have ex: "0 \<le> get_or (pe_by_instrument exposure) (tp_instrument_id (ri_proposal x)) 0"
    "0 \<le> pe_total_notional exposure"
    using assms(1) by (auto simp: exposure_def valid_risk_inputs_def valid_portfolio_state_def
        valid_portfolio_exposure_def intro!: get_or_in_range)
  have "lot * q * dabs (dsub entry stop) * \<kappa> ^ 2 \<le> dmul (dmul lot q) (dabs (dsub entry stop))"
    unfolding \<kappa>_def using cs q0 by (intro dmul_dmul_lower) (simp_all add: dabs_def)
  also have "\<dots> \<le> risk_budget (ri_proposal x) (ri_policy x)" by (rule G(2))
  also have "\<dots> \<le> rp_max_risk_per_trade (ri_policy x)" by (simp add: risk_budget_def)
  finally show ?thesis
    unfolding \<kappa>_def using exposure_lower [OF cs q0 en ex(1) G(3)] exposure_lower [OF cs q0 en ex(2) G(4)]
    by simp
qed

theorem approved_size_within_limits_witness:
  "100000 * (3 / 4) * dabs (dsub (entry_price example_proposal example_snapshot) (998 / 1000)) *
     (1 - 1 / (2 * 10 ^ 27)) ^ 2 \<le> (200 :: decimal)"
  using approved_size_within_limits [OF example_inputs_valid example_select(4) _ _ example_evaluation,
      of "998 / 1000" "3 / 4"]
  by (simp add: example_select example_decision_def example_proposal_def example_policy_def
      example_instrument_def)

text \<open>
  The proposal's quantity is an upper bound. The approved quantity never exceeds the
  proposed one by more than one unit of the 28th digit, and not at all when the proposal is a
  multiple of the lot step.
\<close>

lemma approved_size_bounded_by_proposal:
  assumes "valid_instrument (ri_instrument x)" and "0 \<le> tp_quantity (ri_proposal x)"
    and "evaluate digest uuid5 x = Some (Inr d)" and "rd_approved_quantity d = Some q"
  shows "q \<le> tp_quantity (ri_proposal x) * (1 + 1 / (2 * 10 ^ 27)) \<and>
    (\<forall>n. tp_quantity (ri_proposal x) = of_int n * dec_val (ins_lot_step (ri_instrument x)) \<and>
       n < 10 ^ 28 \<longrightarrow> q \<le> tp_quantity (ri_proposal x))"
proof -
  let ?p = "tp_quantity (ri_proposal x)"
  obtain c e where st: "ins_lot_step (ri_instrument x) = Dec c e" and c: "0 < c"
    using assms(1) by (rule valid_lot_step)
  have "rd_decision d \<noteq> RD_REJECT"
    using evaluate_valid [OF assms(3)] assms(4) by (auto simp: valid_risk_decision_def)
  with assms(1,3) obtain caps start where le: "q \<le> start"
    and fl: "floor_to_step (size_target ?p (clip_caps caps)) (Dec c e) = Inr start"
    unfolding st [symmetric] by (rule approved_facts) (use assms(4) in simp)
  have t: "size_target ?p (clip_caps caps) \<le> ?p" by (rule size_target_le)
  show ?thesis unfolding st
    using le floor_to_step_upper [OF fl c assms(2) t] order_trans by blast
qed

lemma approved_size_bounded_by_proposal_witness:
  "(3 / 4 :: decimal) \<le> tp_quantity example_proposal"
proof -
  have "tp_quantity example_proposal = of_int 100 * dec_val (ins_lot_step example_instrument)"
    by code_simp
  then show ?thesis
    using approved_size_bounded_by_proposal [OF example_instrument_valid _ example_evaluation,
        of "3 / 4"]
    by (auto simp: example_select example_amount example_decision_def)
qed

text \<open>
  Rejections are complete and fail closed. A validated input that violates a hard rule is
  rejected, the reason codes are exactly the violated rules in their canonical order without
  duplicates, and no quantity is approved; a rejection without a hard violation names
  \<open>SIZE_BELOW_MINIMUM\<close>.
\<close>

lemma hard_violation_rejects:
  assumes "validate_inputs x = Inr now" and "rp_policy_version (ri_policy x) \<noteq> []"
  shows "(\<forall>(code, violated) \<in> set hard_check_order. violated (hard_check_args x now) \<longrightarrow>
      (\<exists>d. evaluate digest uuid5 x = Some (Inr d) \<and> rd_decision d = RD_REJECT \<and>
        code \<in> set (rd_reason_codes d) \<and> distinct (rd_reason_codes d) \<and>
        rd_reason_codes d = map fst (filter (\<lambda>(_, p). p (hard_check_args x now)) hard_check_order) \<and>
        rd_approved_quantity d = None)) \<and>
    (\<forall>d. evaluate digest uuid5 x = Some (Inr d) \<and> rd_decision d = RD_REJECT \<and>
        (\<forall>(_, violated) \<in> set hard_check_order. \<not> violated (hard_check_args x now)) \<longrightarrow>
      SIZE_BELOW_MINIMUM \<in> set (rd_reason_codes d))"
proof (intro conjI allI impI ballI, clarify)
  fix code violated
  let ?k = "hard_check_args x now"
  assume v: "(code, violated) \<in> set hard_check_order" "violated ?k"
  then have c: "code \<in> set (run_hard_checks ?k)" by (simp add: run_hard_checks_iff)
  then have "run_hard_checks ?k \<noteq> []" by auto
  with assms have "\<exists>d. evaluate digest uuid5 x = Some (Inr d) \<and> rd_decision d = RD_REJECT \<and>
      rd_reason_codes d = run_hard_checks ?k \<and> rd_approved_quantity d = None"
    by (simp add: evaluate_def make_decision_def valid_risk_decision_def opt_pos_def
        risk_engine_version_def Let_def)
  then show "\<exists>d. evaluate digest uuid5 x = Some (Inr d) \<and> rd_decision d = RD_REJECT \<and>
        code \<in> set (rd_reason_codes d) \<and> distinct (rd_reason_codes d) \<and>
        rd_reason_codes d = map fst (filter (\<lambda>(_, p). p ?k) hard_check_order) \<and>
        rd_approved_quantity d = None"
    using c run_hard_checks_distinct [of ?k] run_hard_checks_def [of ?k] by metis
next
  fix d
  assume d: "evaluate digest uuid5 x = Some (Inr d) \<and> rd_decision d = RD_REJECT \<and>
    (\<forall>(_, violated) \<in> set hard_check_order. \<not> violated (hard_check_args x now))"
  then have "run_hard_checks (hard_check_args x now) = []" by (simp add: run_hard_checks_empty)
  moreover from d have "evaluate digest uuid5 x = Some (Inr d)" by simp
  ultimately obtain plan h where "decide_from_plan uuid5 h x now plan = Inr d"
    using assms(1) by (auto elim!: evaluate_cases)
  then show "SIZE_BELOW_MINIMUM \<in> set (rd_reason_codes d)"
    by (cases rule: decide_from_plan_cases) (use d in auto)
qed

theorem hard_violation_rejects_witness:
  "\<exists>d. evaluate (\<lambda>_. ''h'') (\<lambda>_. 7) (example_inputs\<lparr>ri_snapshot := None, ri_account :=
      (ri_account example_inputs)\<lparr>ac_as_of := 1000000\<rparr>\<rparr>) = Some (Inr d) \<and>
    STALE_QUOTES \<in> set (rd_reason_codes d)"
proof -
  let ?x = "example_inputs\<lparr>ri_snapshot := None, ri_account :=
      (ri_account example_inputs)\<lparr>ac_as_of := 1000000\<rparr>\<rparr>"
  have "validate_inputs ?x = Inr 1000000" "rp_policy_version (ri_policy ?x) \<noteq> []" by code_simp+
  note R = hard_violation_rejects [OF this, of "\<lambda>_. ''h''" "\<lambda>_. 7", THEN conjunct1]
  have "(STALE_QUOTES, \<lambda>k. stale_quotes (ca_snapshot k) (ca_policy k) (ca_now k))
      \<in> set hard_check_order"
    by (simp add: hard_check_order_def)
  moreover have "stale_quotes (ca_snapshot (hard_check_args ?x 1000000))
      (ca_policy (hard_check_args ?x 1000000)) (ca_now (hard_check_args ?x 1000000))"
    by code_simp
  ultimately show ?thesis using R by fastforce
qed

end
