(* ===== verification/Risk_Determinism.thy ===== *)
theory Risk_Determinism
  imports Risk_Engine
begin

text \<open>
  The claim of \<^verbatim>\<open>engines/risk/engine.py\<close> that the hashed inputs are the decision-relevant
  ones: two evaluations whose canonical JSON is the same return the same decision, whatever the
  fields that are not hashed (rationale, provenance, the symbol of an instrument). The lemmas
  read the fields back from the sorted JSON.
\<close>

subsection \<open>The fields of each section\<close>

lemma proposal_json_fields:
  assumes "sort_keys (proposal_json x) = sort_keys (proposal_json y)"
  shows "tp_proposal_id x = tp_proposal_id y \<and> tp_strategy_id x = tp_strategy_id y \<and>
     tp_strategy_version x = tp_strategy_version y \<and> tp_instrument_id x = tp_instrument_id y
     \<and> tp_direction x = tp_direction y \<and> tp_order_type x = tp_order_type y \<and>
     tp_quantity x = tp_quantity y \<and> tp_limit_price x = tp_limit_price y \<and> tp_stop_loss
     x = tp_stop_loss y"
  using jget_eq [OF assms(1), of "''proposal_id''"] jget_eq [OF assms(1), of "''strategy_id''"]
    jget_eq [OF assms(1), of "''strategy_version''"] jget_eq [OF assms(1), of "''instrument_id''"]
    jget_eq [OF assms(1), of "''direction''"] jget_eq [OF assms(1), of "''order_type''"]
    jget_eq [OF assms(1), of "''quantity''"] jget_eq [OF assms(1), of "''limit_price''"]
    jget_eq [OF assms(1), of "''stop_loss''"]
  by (simp add: proposal_json_def enum_value_eq)

lemma account_json_fields:
  assumes "sort_keys (account_json x) = sort_keys (account_json y)"
  shows "ac_account_id x = ac_account_id y \<and> ac_equity x = ac_equity y \<and> ac_free_margin x =
     ac_free_margin y \<and> ac_peak_equity x = ac_peak_equity y \<and> ac_daily_pnl x =
     ac_daily_pnl y \<and> ac_consecutive_losses x = ac_consecutive_losses y \<and>
     ac_last_loss_at x = ac_last_loss_at y \<and> ac_broker_connected x = ac_broker_connected y
     \<and> ac_last_heartbeat_at x = ac_last_heartbeat_at y \<and> ac_safe_mode x = ac_safe_mode
     y \<and> ac_as_of x = ac_as_of y"
  using jget_eq [OF assms(1), of "''account_id''"] jget_eq [OF assms(1), of "''equity''"]
    jget_eq [OF assms(1), of "''free_margin''"] jget_eq [OF assms(1), of "''peak_equity''"]
    jget_eq [OF assms(1), of "''daily_pnl''"] jget_eq [OF assms(1), of "''consecutive_losses''"]
    jget_eq [OF assms(1), of "''last_loss_at''"] jget_eq [OF assms(1), of "''broker_connected''"]
    jget_eq [OF assms(1), of "''last_heartbeat_at''"] jget_eq [OF assms(1), of "''safe_mode''"]
    jget_eq [OF assms(1), of "''as_of''"]
  by (simp add: account_json_def enum_value_eq)

lemma snapshot_json_fields:
  assumes "sort_keys (snapshot_json x) = sort_keys (snapshot_json y)"
  shows "ms_instrument_id x = ms_instrument_id y \<and> ms_as_of x = ms_as_of y \<and>
     ms_source_timestamp x = ms_source_timestamp y \<and> ms_bid x = ms_bid y \<and> ms_ask x =
     ms_ask y"
  using jget_eq [OF assms(1), of "''instrument_id''"] jget_eq [OF assms(1), of "''as_of''"]
    jget_eq [OF assms(1), of "''source_timestamp''"] jget_eq [OF assms(1), of "''bid''"]
    jget_eq [OF assms(1), of "''ask''"]
  by (simp add: snapshot_json_def enum_value_eq)

lemma strategy_json_fields:
  assumes "sort_keys (strategy_json x) = sort_keys (strategy_json y)"
  shows "sc_strategy_id x = sc_strategy_id y \<and> sc_strategy_version x = sc_strategy_version y
     \<and> sc_enabled x = sc_enabled y \<and> sc_state x = sc_state y \<and> map_option set
     (sc_allowed_instruments x) = map_option set (sc_allowed_instruments y) \<and> sc_as_of x =
     sc_as_of y"
  using jget_eq [OF assms(1), of "''strategy_id''"] jget_eq [OF assms(1), of "''strategy_version''"]
    jget_eq [OF assms(1), of "''enabled''"] jget_eq [OF assms(1), of "''state''"]
    jget_eq [OF assms(1), of "''allowed_instruments''"] jget_eq [OF assms(1), of "''as_of''"]
  by (simp add: strategy_json_def enum_value_eq)

lemma instrument_json_fields:
  assumes "sort_keys (instrument_json x) = sort_keys (instrument_json y)" and "exponent (ins_lot_step x) \<le> 0" and "exponent (ins_lot_step y) \<le> 0"
  shows "ins_instrument_id x = ins_instrument_id y \<and> ins_asset_class x = ins_asset_class y
     \<and> ins_base_currency x = ins_base_currency y \<and> ins_quote_currency x =
     ins_quote_currency y \<and> ins_contract_size x = ins_contract_size y \<and> ins_lot_step x
     = ins_lot_step y \<and> ins_min_lot x = ins_min_lot y \<and> ins_max_lot x = ins_max_lot y
     \<and> ins_is_active x = ins_is_active y"
  using jget_eq [OF assms(1), of "''instrument_id''"] jget_eq [OF assms(1), of "''asset_class''"]
    jget_eq [OF assms(1), of "''base_currency''"] jget_eq [OF assms(1), of "''quote_currency''"]
    jget_eq [OF assms(1), of "''contract_size''"] jget_eq [OF assms(1), of "''lot_step''"]
    jget_eq [OF assms(1), of "''min_lot''"] jget_eq [OF assms(1), of "''max_lot''"]
    jget_eq [OF assms(1), of "''is_active''"]
  by (simp add: instrument_json_def enum_value_eq format_f_eq [OF assms(2,3)])

lemma policy_json_fields:
  assumes "sort_keys (policy_json x) = sort_keys (policy_json y)"
  shows "rp_policy_version x = rp_policy_version y \<and> rp_max_risk_per_trade x =
     rp_max_risk_per_trade y \<and> rp_max_total_exposure x = rp_max_total_exposure y \<and>
     rp_max_instrument_exposure x = rp_max_instrument_exposure y \<and> rp_max_leverage x =
     rp_max_leverage y \<and> rp_max_positions x = rp_max_positions y \<and>
     rp_max_pending_orders x = rp_max_pending_orders y \<and> rp_max_daily_loss x =
     rp_max_daily_loss y \<and> rp_max_drawdown_pct x = rp_max_drawdown_pct y \<and>
     rp_max_consecutive_losses x = rp_max_consecutive_losses y \<and> rp_cooldown_seconds x =
     rp_cooldown_seconds y \<and> rp_max_spread_relative x = rp_max_spread_relative y \<and>
     rp_max_slippage_relative x = rp_max_slippage_relative y \<and> rp_min_stop_distance x =
     rp_min_stop_distance y \<and> rp_market_data_max_age_seconds x =
     rp_market_data_max_age_seconds y \<and> rp_heartbeat_max_age_seconds x =
     rp_heartbeat_max_age_seconds y \<and> rp_min_position_size x = rp_min_position_size y \<and>
     rp_max_position_size x = rp_max_position_size y \<and> map_option set
     (rp_instrument_whitelist x) = map_option set (rp_instrument_whitelist y) \<and> set
     (rp_trading_days x) = set (rp_trading_days y) \<and> rp_session_open_utc x =
     rp_session_open_utc y \<and> rp_session_close_utc x = rp_session_close_utc y"
  using jget_eq [OF assms(1), of "''policy_version''"] jget_eq [OF assms(1), of "''max_risk_per_trade''"]
    jget_eq [OF assms(1), of "''max_total_exposure''"] jget_eq [OF assms(1), of "''max_instrument_exposure''"]
    jget_eq [OF assms(1), of "''max_leverage''"] jget_eq [OF assms(1), of "''max_positions''"]
    jget_eq [OF assms(1), of "''max_pending_orders''"] jget_eq [OF assms(1), of "''max_daily_loss''"]
    jget_eq [OF assms(1), of "''max_drawdown_pct''"] jget_eq [OF assms(1), of "''max_consecutive_losses''"]
    jget_eq [OF assms(1), of "''cooldown_seconds''"] jget_eq [OF assms(1), of "''max_spread_relative''"]
    jget_eq [OF assms(1), of "''max_slippage_relative''"] jget_eq [OF assms(1), of "''min_stop_distance''"]
    jget_eq [OF assms(1), of "''market_data_max_age_seconds''"] jget_eq [OF assms(1), of "''heartbeat_max_age_seconds''"]
    jget_eq [OF assms(1), of "''min_position_size''"] jget_eq [OF assms(1), of "''max_position_size''"]
    jget_eq [OF assms(1), of "''instrument_whitelist''"] jget_eq [OF assms(1), of "''trading_days''"]
    jget_eq [OF assms(1), of "''session_open_utc''"] jget_eq [OF assms(1), of "''session_close_utc''"]
  by (simp add: policy_json_def enum_value_eq)

lemma policy_json_dicts:
  assumes "sort_keys (policy_json x) = sort_keys (policy_json y)"
  shows "map_of (rp_strategy_risk_budgets x) = map_of (rp_strategy_risk_budgets y)"
    and "map_of (rp_max_asset_class_exposure x) = map_of (rp_max_asset_class_exposure y)"
    and "map_of (rp_max_currency_exposure x) = map_of (rp_max_currency_exposure y)"
    and "map_of (rp_margin_rates x) = map_of (rp_margin_rates y)"
  using jget_eq [OF assms, of "''strategy_risk_budgets''"]
    jget_eq [OF assms, of "''max_asset_class_exposure''"]
    jget_eq [OF assms, of "''max_currency_exposure''"] jget_eq [OF assms, of "''margin_rates''"]
  by (auto simp: policy_json_def intro: jdict_eq enum_values_inj inj_on_id)

lemma portfolio_json_fields:
  assumes "sort_keys (portfolio_json x) = sort_keys (portfolio_json y)"
  shows "pf_account_id x = pf_account_id y \<and> pf_pending_order_count x = pf_pending_order_count y \<and>
    length (pf_positions x) = length (pf_positions y) \<and> pf_as_of x = pf_as_of y"
  using jget_eq [OF assms, of "''account_id''"] jget_eq [OF assms, of "''pending_order_count''"]
    jget_eq [OF assms, of "''positions''"] jget_eq [OF assms, of "''as_of''"]
  by (auto simp: portfolio_json_def dest: map_eq_imp_length_eq)

definition exposure_json :: "portfolio_state \<Rightarrow> json" where
  "exposure_json f = the (jget ''exposure'' (portfolio_json f))"

lemma exposure_json_fields:
  assumes "sort_keys (portfolio_json x) = sort_keys (portfolio_json y)"
  shows "pe_total_notional (pf_exposure x) = pe_total_notional (pf_exposure y)"
    and "map_of (pe_by_instrument (pf_exposure x)) = map_of (pe_by_instrument (pf_exposure y))"
    and "map_of (pe_by_asset_class (pf_exposure x)) = map_of (pe_by_asset_class (pf_exposure y))"
    and "map_of (pe_net_by_currency (pf_exposure x)) = map_of (pe_net_by_currency (pf_exposure y))"
proof -
  have E: "sort_keys (exposure_json x) = sort_keys (exposure_json y)"
    using jget_eq [OF assms, of "''exposure''"] by (simp add: exposure_json_def portfolio_json_def)
  show "pe_total_notional (pf_exposure x) = pe_total_notional (pf_exposure y)"
    using jget_eq [OF E, of "''total_notional''"] by (simp add: exposure_json_def portfolio_json_def)
  show "map_of (pe_by_instrument (pf_exposure x)) = map_of (pe_by_instrument (pf_exposure y))"
    and "map_of (pe_by_asset_class (pf_exposure x)) = map_of (pe_by_asset_class (pf_exposure y))"
    and "map_of (pe_net_by_currency (pf_exposure x)) = map_of (pe_net_by_currency (pf_exposure y))"
    using jget_eq [OF E, of "''by_instrument''"] jget_eq [OF E, of "''by_asset_class''"]
      jget_eq [OF E, of "''net_by_currency''"]
    by (auto simp: exposure_json_def portfolio_json_def intro: jdict_eq enum_values_inj inj_on_id)
qed

subsection \<open>Equal canonical inputs, equal decisions\<close>

lemma canonical_sections:
  assumes "sort_keys (canonical_inputs x) = sort_keys (canonical_inputs y)"
  shows "sort_keys (proposal_json (ri_proposal x)) = sort_keys (proposal_json (ri_proposal y))"
    and "sort_keys (account_json (ri_account x)) = sort_keys (account_json (ri_account y))"
    and "sort_keys (portfolio_json (ri_portfolio x)) = sort_keys (portfolio_json (ri_portfolio y))"
    and "sort_keys (strategy_json (ri_strategy x)) = sort_keys (strategy_json (ri_strategy y))"
    and "sort_keys (instrument_json (ri_instrument x)) = sort_keys (instrument_json (ri_instrument y))"
    and "sort_keys (policy_json (ri_policy x)) = sort_keys (policy_json (ri_policy y))"
    and "jopt (\<lambda>s. sort_keys (snapshot_json s)) (ri_snapshot x) =
      jopt (\<lambda>s. sort_keys (snapshot_json s)) (ri_snapshot y)"
  using jget_eq [OF assms, of "''proposal''"] jget_eq [OF assms, of "''account''"]
    jget_eq [OF assms, of "''portfolio''"] jget_eq [OF assms, of "''strategy''"]
    jget_eq [OF assms, of "''instrument''"] jget_eq [OF assms, of "''policy''"]
    jget_eq [OF assms, of "''snapshot''"]
  by (simp_all add: canonical_inputs_def)

lemma canonical_snapshot:
  assumes "sort_keys (canonical_inputs x) = sort_keys (canonical_inputs y)"
  obtains (none) "ri_snapshot x = None" and "ri_snapshot y = None"
  | (some) s t where "ri_snapshot x = Some s" and "ri_snapshot y = Some t"
    and "sort_keys (snapshot_json s) = sort_keys (snapshot_json t)"
proof -
  have "sort_keys (snapshot_json s) \<noteq> JNull" for s by (simp add: snapshot_json_def)
  then show thesis
    using canonical_sections(7) [OF assms] none some
    by (cases "ri_snapshot x"; cases "ri_snapshot y") (auto simp: jopt_def dest: sym)
qed

lemma set_member_option:
  "map_option set x = map_option set y \<Longrightarrow>
   (case x of None \<Rightarrow> b | Some w \<Rightarrow> a \<notin> set w) = (case y of None \<Rightarrow> b | Some w \<Rightarrow> a \<notin> set w)"
  by (cases x; cases y) auto

lemma compute_size_plan_cong:
  assumes P: "sort_keys (proposal_json p) = sort_keys (proposal_json p')"
    and A: "sort_keys (account_json a) = sort_keys (account_json a')"
    and F: "sort_keys (portfolio_json f) = sort_keys (portfolio_json f')"
    and S: "sort_keys (snapshot_json s) = sort_keys (snapshot_json s')"
    and R: "sort_keys (policy_json r) = sort_keys (policy_json r')"
    and I: "sort_keys (instrument_json i) = sort_keys (instrument_json i')"
      "exponent (ins_lot_step i) \<le> 0" "exponent (ins_lot_step i') \<le> 0"
  shows "compute_size_plan p a f s r i = compute_size_plan p' a' f' s' r' i'"
proof -
  note E = proposal_json_fields [OF P] account_json_fields [OF A] snapshot_json_fields [OF S]
    policy_json_fields [OF R] policy_json_dicts [OF R] instrument_json_fields [OF I]
    exposure_json_fields [OF F]
  have legs: "currency_legs p i = currency_legs p' i'" using E by (simp add: currency_legs_def)
  have "get_or d = get_or d'" if "map_of d = map_of d'" for d d' :: "('k, decimal) dict"
    using that by (intro ext) (simp add: get_or_def)
  note G = this [OF policy_json_dicts(1) [OF R]] this [OF policy_json_dicts(2) [OF R]]
    this [OF policy_json_dicts(3) [OF R]] this [OF policy_json_dicts(4) [OF R]]
    this [OF exposure_json_fields(2) [OF F]] this [OF exposure_json_fields(3) [OF F]]
    this [OF exposure_json_fields(4) [OF F]]
  have caps: "size_caps p a f r i = size_caps p' a' f' r' i'"
    by (intro ext) (simp only: size_caps_def max_currency_notional_def Let_def legs G E)
  have gate: "soft_limits_ok p i r f a = soft_limits_ok p' i' r' f' a'"
    by (intro ext) (simp only: soft_limits_ok_def Let_def legs G E)
  show ?thesis
    by (simp only: compute_size_plan_def caps gate entry_price_def ms_mid_def risk_budget_def
        margin_rate_of_def max_effective_size_def min_effective_size_def G E)
qed

lemma hard_checks_cong:
  assumes "sort_keys (canonical_inputs x) = sort_keys (canonical_inputs y)"
    and "ins_is_active (ri_instrument x) = ins_is_active (ri_instrument y)"
  shows "run_hard_checks (hard_check_args x now) = run_hard_checks (hard_check_args y now)"
proof -
  note C = canonical_sections [OF assms(1)]
  note E = proposal_json_fields [OF C(1)] account_json_fields [OF C(2)]
    portfolio_json_fields [OF C(3)] strategy_json_fields [OF C(4)] policy_json_fields [OF C(6)]
  have quotes: "stale_quotes (ri_snapshot x) (ri_policy x) now = stale_quotes (ri_snapshot y) (ri_policy y) now \<and>
    spread_too_high (ri_snapshot x) (ri_policy x) = spread_too_high (ri_snapshot y) (ri_policy y) \<and>
    slippage_cap_exceeded (ri_proposal x) (ri_snapshot x) (ri_policy x) =
     slippage_cap_exceeded (ri_proposal y) (ri_snapshot y) (ri_policy y) \<and>
    invalid_stop_distance (ri_proposal x) (ri_snapshot x) (ri_policy x) =
     invalid_stop_distance (ri_proposal y) (ri_snapshot y) (ri_policy y)"
    using assms(1)
  proof (cases rule: canonical_snapshot)
    case none
    then show ?thesis
      by (simp only: stale_quotes_def spread_too_high_def slippage_cap_exceeded_def
          invalid_stop_distance_def stop_reference_def E none option.case simp_thms)
  next
    case (some s t)
    then show ?thesis
      by (simp only: stale_quotes_def spread_too_high_def slippage_cap_exceeded_def
          invalid_stop_distance_def stop_reference_def ms_mid_def E option.case
          snapshot_json_fields [OF some(3)] simp_thms)
  qed
  have w: "map_option set (rp_instrument_whitelist (ri_policy x)) =
      map_option set (rp_instrument_whitelist (ri_policy y))"
    "map_option set (sc_allowed_instruments (ri_strategy x)) =
      map_option set (sc_allowed_instruments (ri_strategy y))"
    using E by simp_all
  show ?thesis
    by (simp only: run_hard_checks_def hard_check_order_def hard_check_args_def check_args.simps
        strategy_inactive_def symbol_not_whitelisted_def broker_disconnected_def heartbeat_lost_def
        safe_mode_active_def outside_trading_schedule_def daily_loss_reached_def
        drawdown_reached_def loss_sequence_cooldown_def max_positions_reached_def
        max_orders_reached_def E assms(2) quotes set_member_option [OF w(1)]
        set_member_option [OF w(2)] filter.simps split_conv)
qed

lemma validate_cong:
  assumes "sort_keys (canonical_inputs x) = sort_keys (canonical_inputs y)"
    and "ins_instrument_id (ri_instrument x) = ins_instrument_id (ri_instrument y)"
  shows "validate_inputs x = validate_inputs y"
proof -
  note C = canonical_sections [OF assms(1)]
  note E = proposal_json_fields [OF C(1)] account_json_fields [OF C(2)]
    portfolio_json_fields [OF C(3)] strategy_json_fields [OF C(4)]
  from assms(1) show ?thesis
  proof (cases rule: canonical_snapshot)
    case none
    then show ?thesis by (simp only: validate_inputs_def Let_def E assms(2) option.case)
  next
    case (some s t)
    then show ?thesis
      by (simp only: validate_inputs_def Let_def E assms(2) option.case snapshot_json_fields [OF some(3)])
  qed
qed

text \<open>
  C17: the hash covers every decision-relevant input. Two evaluations with the same canonical
  JSON (and plainly written lot steps) give the same result, exceptions included: the same
  decision id, type, reason codes, quantity, stop, amount and time. Only the correlation id
  \<open>trace_id\<close>, which is passed through, may differ.
\<close>

theorem decision_determined_by_hashed_inputs:
  assumes eq: "sort_keys (canonical_inputs x) = sort_keys (canonical_inputs y)"
    and "exponent (ins_lot_step (ri_instrument x)) \<le> 0"
    and "exponent (ins_lot_step (ri_instrument y)) \<le> 0"
  shows "map_option (map_sum id (\<lambda>d. d\<lparr>rd_trace_id := None\<rparr>)) (evaluate digest uuid5 x) =
    map_option (map_sum id (\<lambda>d. d\<lparr>rd_trace_id := None\<rparr>)) (evaluate digest uuid5 y)"
proof -
  note C = canonical_sections [OF eq]
  note E = proposal_json_fields [OF C(1)] policy_json_fields [OF C(6)]
  have I: "ins_is_active (ri_instrument x) = ins_is_active (ri_instrument y)"
    "ins_instrument_id (ri_instrument x) = ins_instrument_id (ri_instrument y)"
    using instrument_json_fields [OF C(5) assms(2,3)] by simp_all
  have V: "validate_inputs x = validate_inputs y" by (rule validate_cong [OF eq I(2)])
  have H: "run_hard_checks (hard_check_args x now) = run_hard_checks (hard_check_args y now)" for now
    by (rule hard_checks_cong [OF eq I(1)])
  have M: "map_sum id (\<lambda>d. d\<lparr>rd_trace_id := None\<rparr>)
        (make_decision uuid5 t codes q st amount (ri_proposal x) (ri_policy x) now h) =
      map_sum id (\<lambda>d. d\<lparr>rd_trace_id := None\<rparr>)
        (make_decision uuid5 t codes q st amount (ri_proposal y) (ri_policy y) now h)"
    for t codes q st amount now h
    using E by (simp add: make_decision_def valid_risk_decision_def Let_def)
  have D: "map_sum id (\<lambda>d. d\<lparr>rd_trace_id := None\<rparr>) (decide_from_plan uuid5 h x now plan) =
      map_sum id (\<lambda>d. d\<lparr>rd_trace_id := None\<rparr>) (decide_from_plan uuid5 h y now plan)" for h now plan
    using E M by (simp add: decide_from_plan_def Let_def)
  have hash: "compute_inputs_hash digest x = compute_inputs_hash digest y"
    using eq by (simp add: compute_inputs_hash_def)
  from eq show ?thesis
  proof (cases rule: canonical_snapshot)
    case none
    then show ?thesis by (simp add: evaluate_def V H M hash Let_def split: sum.split)
  next
    case (some s t)
    have "compute_size_plan (ri_proposal x) (ri_account x) (ri_portfolio x) s (ri_policy x)
        (ri_instrument x) =
      compute_size_plan (ri_proposal y) (ri_account y) (ri_portfolio y) t (ri_policy y)
        (ri_instrument y)"
      by (rule compute_size_plan_cong [OF C(1,2,3) some(3) C(6,5) assms(2,3)])
    with some show ?thesis
      by (simp add: evaluate_def V H M D hash Let_def split: sum.split option.split)
  qed
qed

theorem decision_determined_by_hashed_inputs_witness:
  "map_option (map_sum id (\<lambda>d. d\<lparr>rd_trace_id := None\<rparr>))
     (evaluate (\<lambda>_. ''h'') (\<lambda>_. 7) (example_inputs\<lparr>ri_proposal := example_proposal
        \<lparr>tp_rationale := ''other'', tp_trace_id := Some 3\<rparr>\<rparr>)) =
   map_option (map_sum id (\<lambda>d. d\<lparr>rd_trace_id := None\<rparr>))
     (evaluate (\<lambda>_. ''h'') (\<lambda>_. 7) example_inputs)"
proof -
  let ?y = "example_inputs\<lparr>ri_proposal := example_proposal
        \<lparr>tp_rationale := ''other'', tp_trace_id := Some 3\<rparr>\<rparr>"
  have "sort_keys (canonical_inputs ?y) = sort_keys (canonical_inputs example_inputs)"
    by (simp add: canonical_inputs_def example_select proposal_json_def)
  then show ?thesis
    by (rule decision_determined_by_hashed_inputs)
      (simp_all add: example_select example_instrument_def)
qed

end
