(* ===== verification/Exec_Contracts.thy ===== *)
theory Exec_Contracts
  imports Contracts
begin

text \<open>
  The persisted records of \<^verbatim>\<open>core/schemas/execution.py\<close>: orders, positions,
  reconciliation runs, SAFE_MODE, alerts, emergency controls and the dead man switch, each with
  the predicate of its validators. \<open>model_copy\<close> does not run the validators, so the
  engines have to keep the shape of a record on their own; the theories of the engines prove
  that they do.
\<close>

definition live_order_states :: "order_state list" where
  "live_order_states = [OS_SUBMITTED, OS_ACKNOWLEDGED, OS_PARTIALLY_FILLED]"

definition venue_terminal_states :: "order_state list" where
  "venue_terminal_states = [OS_FILLED, OS_CANCELLED, OS_REJECTED]"

definition default_price_tolerance :: decimal where
  "default_price_tolerance = 5 / 1000"

definition opt_nonempty :: "string option \<Rightarrow> bool" where
  "opt_nonempty x \<longleftrightarrow> (case x of None \<Rightarrow> True | Some s \<Rightarrow> s \<noteq> [])"

record order_record =
  or_order_intent_id :: uuid
  or_state :: order_state
  or_strategy_id :: string
  or_strategy_version :: string
  or_instrument_id :: string
  or_venue :: "string option"
  or_side :: order_side
  or_order_type :: order_type
  or_requested_quantity :: decimal
  or_filled_quantity :: decimal
  or_remaining_quantity :: decimal
  or_average_fill_price :: "decimal option"
  or_venue_order_id :: "string option"
  or_venue_position_id :: "string option"
  or_commission :: decimal
  or_fees :: decimal
  or_slippage :: "decimal option"
  or_reject_reason :: "string option"
  or_last_event_sequence :: int
  or_processed_event_ids :: "string list"
  or_version :: int
  or_created_at :: instant
  or_updated_at :: instant
  or_submitted_at :: "instant option"
  or_acknowledged_at :: "instant option"
  or_filled_at :: "instant option"
  or_cancelled_at :: "instant option"
  or_rejected_at :: "instant option"
  or_reconciled_at :: "instant option"
  or_closed_at :: "instant option"
  or_reviewed_at :: "instant option"
  or_reconciliation_note :: "string option"

definition order_record_shape :: "order_record \<Rightarrow> bool" where
  "order_record_shape r \<longleftrightarrow>
     dadd (or_filled_quantity r) (or_remaining_quantity r) \<le> or_requested_quantity r \<and>
     (or_state r \<in> set live_order_states \<or> or_state r = OS_ORDER_INTENT \<longrightarrow> or_venue r \<noteq> None) \<and>
     (or_state r = OS_ORDER_INTENT \<longrightarrow> 0 < or_requested_quantity r) \<and>
     (or_state r \<in> {OS_SUBMITTED, OS_ACKNOWLEDGED, OS_PARTIALLY_FILLED} \<longrightarrow>
        0 < or_remaining_quantity r)"

definition valid_order_record :: "order_record \<Rightarrow> bool" where
  "valid_order_record r \<longleftrightarrow>
     or_strategy_id r \<noteq> [] \<and> or_strategy_version r \<noteq> [] \<and> or_instrument_id r \<noteq> [] \<and>
     0 < or_requested_quantity r \<and> 0 \<le> or_filled_quantity r \<and> 0 \<le> or_remaining_quantity r \<and>
     opt_pos (or_average_fill_price r) \<and> opt_nonempty (or_venue_order_id r) \<and>
     opt_nonempty (or_venue_position_id r) \<and> 0 \<le> or_commission r \<and> 0 \<le> or_fees r \<and>
     0 \<le> or_last_event_sequence r \<and> 1 \<le> or_version r \<and> order_record_shape r"

record execution_position =
  ep_venue_position_id :: string
  ep_account_id :: string
  ep_instrument_id :: string
  ep_side :: position_side
  ep_quantity :: decimal
  ep_average_entry_price :: decimal
  ep_order_intent_id :: "uuid option"
  ep_opened_at :: instant
  ep_updated_at :: instant
  ep_closed_at :: "instant option"

definition valid_execution_position :: "execution_position \<Rightarrow> bool" where
  "valid_execution_position p \<longleftrightarrow>
     ep_venue_position_id p \<noteq> [] \<and> ep_account_id p \<noteq> [] \<and> ep_instrument_id p \<noteq> [] \<and>
     0 < ep_quantity p \<and> 0 < ep_average_entry_price p \<and> ep_side p \<noteq> PS_FLAT"

datatype severity = EXPLAINABLE | WARNING | MATERIAL

record reconciliation_discrepancy =
  dc_code :: discrepancy_code
  dc_severity :: severity
  dc_order_intent_id :: "uuid option"
  dc_venue_order_id :: "string option"
  dc_venue_position_id :: "string option"
  dc_explanation :: string
  dc_resolution :: "string option"

record reconciliation_run =
  rr_run_id :: uuid
  rr_started_at :: instant
  rr_compared_at :: instant
  rr_broker_reachable :: bool
  rr_broker_connected :: bool
  rr_trading_enabled :: bool
  rr_discrepancies :: "reconciliation_discrepancy list"
  rr_material_discrepancies :: int
  rr_orders_reconciled :: int
  rr_orders_resolved :: int
  rr_positions_adopted :: int
  rr_positions_closed :: int
  rr_safe_mode_entered :: bool
  rr_safe_mode_exited :: bool

definition material_count :: "reconciliation_discrepancy list \<Rightarrow> int" where
  "material_count ds = int (length (filter (\<lambda>d. dc_severity d = MATERIAL) ds))"

definition valid_reconciliation_run :: "reconciliation_run \<Rightarrow> bool" where
  "valid_reconciliation_run r \<longleftrightarrow>
     list_all (\<lambda>d. dc_explanation d \<noteq> []) (rr_discrepancies r) \<and>
     0 \<le> rr_orders_reconciled r \<and> 0 \<le> rr_orders_resolved r \<and> 0 \<le> rr_positions_adopted r \<and>
     0 \<le> rr_positions_closed r \<and>
     rr_material_discrepancies r = material_count (rr_discrepancies r)"

record safe_mode_record =
  sm_active :: bool
  sm_since :: "instant option"
  sm_reason_codes :: "string list"
  sm_note :: "string option"
  sm_exited_at :: "instant option"
  sm_updated_at :: instant

definition valid_safe_mode_record :: "safe_mode_record \<Rightarrow> bool" where
  "valid_safe_mode_record m \<longleftrightarrow>
     (sm_active m \<longrightarrow> sm_since m \<noteq> None \<and> sm_reason_codes m \<noteq> [])"

datatype alert_severity = AS_CRITICAL | AS_WARNING | AS_INFO

record operational_alert =
  oa_alert_id :: uuid
  oa_kind :: string
  oa_severity :: alert_severity
  oa_title :: string
  oa_detail :: string
  oa_raised_at :: instant
  oa_run_id :: "uuid option"

record emergency_control_state =
  ec_level :: emergency_level
  ec_target :: "string option"
  ec_active :: bool
  ec_activated_by :: string
  ec_activated_at :: instant
  ec_reason :: string
  ec_deactivated_by :: "string option"
  ec_deactivate_reason :: "string option"
  ec_deactivated_at :: "instant option"
  ec_updated_at :: instant

definition targeted_levels :: "emergency_level list" where
  "targeted_levels = [STRATEGY_KILL, INSTRUMENT_KILL]"

text \<open>A target is set when it is a non-empty string (Python truth value).\<close>

definition has_target :: "string option \<Rightarrow> bool" where
  "has_target t \<longleftrightarrow> (case t of None \<Rightarrow> False | Some s \<Rightarrow> s \<noteq> [])"

definition valid_emergency_control :: "emergency_control_state \<Rightarrow> bool" where
  "valid_emergency_control c \<longleftrightarrow>
     ec_activated_by c \<noteq> [] \<and> ec_reason c \<noteq> [] \<and>
     (ec_level c \<in> set targeted_levels \<longleftrightarrow> has_target (ec_target c)) \<and>
     (\<not> ec_active c \<longrightarrow> ec_deactivated_at c \<noteq> None)"

record dead_man_switch_state =
  dm_enabled :: bool
  dm_heartbeat_timeout :: duration
  dm_armed_at :: instant
  dm_last_heartbeat_at :: "instant option"
  dm_safe_execution_state :: bool
  dm_heartbeat_lost_at :: "instant option"
  dm_reason_codes :: "string list"
  dm_updated_at :: instant

definition heartbeat_lost_code :: string where
  "heartbeat_lost_code = ''HEARTBEAT_LOST''"

definition valid_dead_man_switch :: "dead_man_switch_state \<Rightarrow> bool" where
  "valid_dead_man_switch d \<longleftrightarrow>
     0 < dm_heartbeat_timeout d \<and>
     (dm_safe_execution_state d \<longrightarrow>
        dm_heartbeat_lost_at d \<noteq> None \<and> heartbeat_lost_code \<in> set (dm_reason_codes d))"

record startup_outcome =
  so_run_id :: uuid
  so_broker_reachable :: bool
  so_safe_mode_active :: bool
  so_safe_mode_reason_codes :: "string list"
  so_material_discrepancies :: int
  so_orders_reconciled :: int

end
