(* ===== verification/Exec_Store.thy ===== *)
theory Exec_Store
  imports Exec_Contracts
begin

text \<open>
  The execution-state store: \<open>InMemoryExecutionStateStore\<close> of
  \<^verbatim>\<open>engines/execution/persistence.py\<close>, whose semantics the PostgreSQL store mirrors.
  The locale \<open>cas_store\<close> is the \<open>ExecutionStateStore\<close> protocol as its clients use it:
  an insert for new orders and a compare-and-set on the version for existing ones.
\<close>

record exec_store =
  es_orders :: "(uuid, order_record) dict"
  es_positions :: "(string, execution_position) dict"
  es_runs :: "reconciliation_run list"
  es_safe_mode :: "safe_mode_record option"
  es_created_order :: "(uuid, instant) dict"

definition empty_store :: exec_store where
  "empty_store = \<lparr>es_orders = [], es_positions = [], es_runs = [], es_safe_mode = None,
     es_created_order = []\<rparr>"

definition get_order :: "uuid \<Rightarrow> exec_store \<Rightarrow> order_record option" where
  "get_order oid s = map_of (es_orders s) oid"

definition save_order :: "order_record \<Rightarrow> (exec_store, exn, order_record) prog" where
  "save_order record s =
     (case get_order (or_order_intent_id record) s of
        Some existing \<Rightarrow>
          (Inl (StaleStateError (or_order_intent_id record) 0 (or_version existing)), s)
      | None \<Rightarrow>
          if or_version record \<noteq> 1
          then (Inl (ValueError ''save_order requires a version-1 record''), s)
          else (Inr record, s\<lparr>
            es_orders := AList.update (or_order_intent_id record) record (es_orders s),
            es_created_order := AList.update (or_order_intent_id record) (or_created_at record)
              (es_created_order s)\<rparr>))"

definition update_order :: "order_record \<Rightarrow> int \<Rightarrow> (exec_store, exn, order_record) prog" where
  "update_order record expected_version s =
     (case get_order (or_order_intent_id record) s of
        None \<Rightarrow> (Inl (StaleStateError (or_order_intent_id record) expected_version 0), s)
      | Some current \<Rightarrow>
          if or_version current \<noteq> expected_version
          then (Inl (StaleStateError (or_order_intent_id record) expected_version
                  (or_version current)), s)
          else if or_version record \<noteq> expected_version + 1
          then (Inl (ValueError ''update_order requires version expected + 1''), s)
          else (Inr record,
            s\<lparr>es_orders := AList.update (or_order_intent_id record) record (es_orders s)\<rparr>))"

definition list_orders :: "exec_store \<Rightarrow> order_record list" where
  "list_orders s = sort_key
     (\<lambda>r. (get_or (es_created_order s) (or_order_intent_id r) 0, or_updated_at r))
     (map snd (es_orders s))"

definition upsert_position ::
    "execution_position \<Rightarrow> (exec_store, exn, execution_position) prog" where
  "upsert_position position s =
     (Inr position, s\<lparr>es_positions := AList.update (ep_venue_position_id position) position
        (es_positions s)\<rparr>)"

definition get_position :: "string \<Rightarrow> exec_store \<Rightarrow> execution_position option" where
  "get_position pid s = map_of (es_positions s) pid"

definition list_positions :: "bool \<Rightarrow> exec_store \<Rightarrow> execution_position list" where
  "list_positions open_only s =
     (let values = map snd (es_positions s);
          values = (if open_only then filter (\<lambda>p. ep_closed_at p = None) values else values)
      in sort_key ep_opened_at values)"

definition save_reconciliation_run ::
    "reconciliation_run \<Rightarrow> (exec_store, exn, reconciliation_run) prog" where
  "save_reconciliation_run run s = (Inr run, s\<lparr>es_runs := es_runs s @ [run]\<rparr>)"

text \<open>\<open>runs[-limit:]\<close>: the last \<open>limit\<close> runs, and all of them for \<open>-0\<close>.\<close>

definition list_reconciliation_runs :: "nat \<Rightarrow> exec_store \<Rightarrow> reconciliation_run list" where
  "list_reconciliation_runs limit s =
     (if limit = 0 then es_runs s else drop (length (es_runs s) - limit) (es_runs s))"

text \<open>\<open>datetime.min\<close>: microseconds from 0001-01-01 to the epoch.\<close>

definition epoch_min :: instant where
  "epoch_min = - 719162 * day_micros"

definition empty_safe_mode :: "instant \<Rightarrow> safe_mode_record" where
  "empty_safe_mode now = \<lparr>sm_active = False, sm_since = None, sm_reason_codes = [],
     sm_note = None, sm_exited_at = None, sm_updated_at = now\<rparr>"

definition get_safe_mode :: "exec_store \<Rightarrow> safe_mode_record" where
  "get_safe_mode s = (case es_safe_mode s of Some m \<Rightarrow> m | None \<Rightarrow> empty_safe_mode epoch_min)"

definition set_safe_mode :: "safe_mode_record \<Rightarrow> (exec_store, exn, safe_mode_record) prog" where
  "set_safe_mode record s = (Inr record, s\<lparr>es_safe_mode := Some record\<rparr>)"

lemmas store_op_defs = save_order_def update_order_def upsert_position_def
  save_reconciliation_run_def set_safe_mode_def

subsection \<open>The compare-and-set protocol\<close>

text \<open>
  What a client of the store relies on: a successful write is what a later read returns, it
  leaves every other order alone, and a write over another version changes nothing.
\<close>

locale cas_store =
  fixes lookup :: "uuid \<Rightarrow> 's \<Rightarrow> order_record option"
    and insert_new :: "order_record \<Rightarrow> ('s, exn, order_record) prog"
    and compare_and_set :: "order_record \<Rightarrow> int \<Rightarrow> ('s, exn, order_record) prog"
  assumes insert_new_ok: "insert_new r s = (Inr r', s') \<Longrightarrow>
      r' = r \<and> lookup (or_order_intent_id r) s = None \<and> or_version r = 1 \<and>
      (\<forall>k. lookup k s' = (if k = or_order_intent_id r then Some r else lookup k s))"
    and insert_new_fail: "insert_new r s = (Inl e, s') \<Longrightarrow> s' = s"
    and cas_ok: "compare_and_set r v s = (Inr r', s') \<Longrightarrow>
      r' = r \<and> or_version r = v + 1 \<and>
      (\<exists>old. lookup (or_order_intent_id r) s = Some old \<and> or_version old = v) \<and>
      (\<forall>k. lookup k s' = (if k = or_order_intent_id r then Some r else lookup k s))"
    and cas_fail: "compare_and_set r v s = (Inl e, s') \<Longrightarrow> s' = s"
    and cas_match: "lookup (or_order_intent_id r) s = Some old \<Longrightarrow> or_version r = or_version old + 1 \<Longrightarrow>
      fst (compare_and_set r (or_version old) s) = Inr r"
begin

lemma cas_read_back:
  assumes "compare_and_set r v s = (Inr r', s')"
  shows "lookup (or_order_intent_id r) s' = Some r"
  using cas_ok [OF assms] by simp

lemma version_grows:
  assumes "compare_and_set r v s = (Inr r', s')"
  shows "\<exists>old. lookup (or_order_intent_id r) s = Some old \<and> or_version r = or_version old + 1"
  using cas_ok [OF assms] by auto

text \<open>Of two writers that read the same version at most one wins.\<close>

lemma second_writer_loses:
  assumes "compare_and_set r v s = (Inr r', s')" and "or_order_intent_id q = or_order_intent_id r"
  shows "\<exists>e. compare_and_set q v s' = (Inl e, s')"
proof (cases "compare_and_set q v s'")
  case (Pair res s'')
  show ?thesis
  proof (cases res)
    case (Inl e)
    then show ?thesis using Pair cas_fail by auto
  next
    case (Inr q')
    then obtain old where "lookup (or_order_intent_id q) s' = Some old" "or_version old = v"
      using cas_ok [of q v s' q' s''] Pair by auto
    moreover have "lookup (or_order_intent_id q) s' = Some r" "or_version r = v + 1"
      using cas_ok [OF assms(1)] assms(2) by auto
    ultimately show ?thesis by simp
  qed
qed

end

interpretation mem: cas_store get_order save_order update_order
  by unfold_locales
    (auto simp: save_order_def update_order_def get_order_def split: option.splits if_splits)

lemma get_order_other_fields [simp]:
  "get_order k (s\<lparr>es_positions := p\<rparr>) = get_order k s"
  "get_order k (s\<lparr>es_runs := r\<rparr>) = get_order k s"
  "get_order k (s\<lparr>es_safe_mode := m\<rparr>) = get_order k s"
  by (simp_all add: get_order_def)

text \<open>
  Optimistic concurrency. When two writers compute an update of the same order from the
  same version, the second compare-and-set raises \<open>StaleStateError\<close> and changes nothing,
  so no update is silently overwritten.
\<close>

lemma stale_writer_changes_nothing:
  assumes "update_order r v s = (Inr r', s')" and "or_order_intent_id q = or_order_intent_id r"
  shows "update_order q v s' = (Inl (StaleStateError (or_order_intent_id r) v (v + 1)), s')"
proof -
  have "get_order (or_order_intent_id r) s' = Some r" and "or_version r = v + 1"
    using mem.cas_read_back [OF assms(1)] mem.cas_ok [OF assms(1)] by simp_all
  then show ?thesis using assms(2) by (simp add: update_order_def)
qed

definition example_order :: order_record where
  "example_order =
     \<lparr>or_order_intent_id = 5, or_state = OS_SUBMITTED, or_strategy_id = ''trend'',
      or_strategy_version = ''1'', or_instrument_id = ''EURUSD'', or_venue = Some ''mt4'',
      or_side = BUY, or_order_type = MARKET, or_requested_quantity = 2, or_filled_quantity = 0,
      or_remaining_quantity = 2, or_average_fill_price = None, or_venue_order_id = None,
      or_venue_position_id = None, or_commission = 0, or_fees = 0, or_slippage = None,
      or_reject_reason = None, or_last_event_sequence = 0, or_processed_event_ids = [],
      or_version = 2, or_created_at = 100, or_updated_at = 100, or_submitted_at = Some 100,
      or_acknowledged_at = None, or_filled_at = None, or_cancelled_at = None,
      or_rejected_at = None, or_reconciled_at = None, or_closed_at = None,
      or_reviewed_at = None, or_reconciliation_note = None\<rparr>"

definition example_store :: exec_store where
  "example_store = empty_store\<lparr>es_orders := [(5, example_order)], es_created_order := [(5, 100)]\<rparr>"

lemma stale_writer_changes_nothing_witness:
  "let r = example_order\<lparr>or_version := 3\<rparr>; s = snd (update_order r 2 example_store)
   in fst (update_order (r\<lparr>or_state := OS_CANCELLED\<rparr>) 2 s) = Inl (StaleStateError 5 2 3)"
proof -
  have "update_order (example_order\<lparr>or_version := 3\<rparr>) 2 example_store =
      (Inr (example_order\<lparr>or_version := 3\<rparr>),
       snd (update_order (example_order\<lparr>or_version := 3\<rparr>) 2 example_store))"
    by (simp add: update_order_def get_order_def example_store_def example_order_def)
  from stale_writer_changes_nothing
    [OF this, of "example_order\<lparr>or_version := 3, or_state := OS_CANCELLED\<rparr>"]
  show ?thesis by (simp add: Let_def example_order_def)
qed

end
