(* ===== verification/Applier.thy ===== *)
theory Applier
  imports Exec_Store
begin

text \<open>
  The order state applier, \<^verbatim>\<open>engines/execution/applier.py\<close>, the only writer of order
  state. The keyword dictionaries \<open>updates\<close> are lists of \<open>field_update\<close>;
  \<open>model_copy(update=...)\<close> is \<open>model_copy\<close>; \<open>_apply\<close> is \<open>apply_loop\<close> with four
  attempts. Its argument \<open>others\<close> is what concurrent writers do to the store between the
  read and the compare-and-set of an attempt; the public operations run without
  interference. \<open>Clock.now()\<close> is the argument \<open>now\<close>.
\<close>

definition max_processed_event_ids :: nat where
  "max_processed_event_ids = 64"

datatype field_update =
    U_strategy_id string | U_strategy_version string | U_instrument_id string | U_venue string
  | U_side order_side | U_order_type order_type | U_requested_quantity decimal
  | U_filled_quantity decimal | U_remaining_quantity decimal | U_average_fill_price decimal
  | U_commission decimal | U_last_event_sequence int | U_venue_order_id string
  | U_venue_position_id string | U_slippage decimal | U_reject_reason string
  | U_reconciliation_note string

primrec set_field :: "field_update \<Rightarrow> order_record \<Rightarrow> order_record" where
  "set_field (U_strategy_id v) r = r\<lparr>or_strategy_id := v\<rparr>"
| "set_field (U_strategy_version v) r = r\<lparr>or_strategy_version := v\<rparr>"
| "set_field (U_instrument_id v) r = r\<lparr>or_instrument_id := v\<rparr>"
| "set_field (U_venue v) r = r\<lparr>or_venue := Some v\<rparr>"
| "set_field (U_side v) r = r\<lparr>or_side := v\<rparr>"
| "set_field (U_order_type v) r = r\<lparr>or_order_type := v\<rparr>"
| "set_field (U_requested_quantity v) r = r\<lparr>or_requested_quantity := v\<rparr>"
| "set_field (U_filled_quantity v) r = r\<lparr>or_filled_quantity := v\<rparr>"
| "set_field (U_remaining_quantity v) r = r\<lparr>or_remaining_quantity := v\<rparr>"
| "set_field (U_average_fill_price v) r = r\<lparr>or_average_fill_price := Some v\<rparr>"
| "set_field (U_commission v) r = r\<lparr>or_commission := v\<rparr>"
| "set_field (U_last_event_sequence v) r = r\<lparr>or_last_event_sequence := v\<rparr>"
| "set_field (U_venue_order_id v) r = r\<lparr>or_venue_order_id := Some v\<rparr>"
| "set_field (U_venue_position_id v) r = r\<lparr>or_venue_position_id := Some v\<rparr>"
| "set_field (U_slippage v) r = r\<lparr>or_slippage := Some v\<rparr>"
| "set_field (U_reject_reason v) r = r\<lparr>or_reject_reason := Some v\<rparr>"
| "set_field (U_reconciliation_note v) r = r\<lparr>or_reconciliation_note := Some v\<rparr>"

definition model_copy :: "field_update list \<Rightarrow> order_record \<Rightarrow> order_record" where
  "model_copy updates r = fold set_field updates r"

text \<open>\<open>field_updates.get("venue_order_id")\<close>, kept as an update of its own.\<close>

fun is_venue_order_update :: "field_update \<Rightarrow> bool" where
  "is_venue_order_update (U_venue_order_id _) = True"
| "is_venue_order_update _ = False"

fun stamp_time :: "order_state \<Rightarrow> instant \<Rightarrow> order_record \<Rightarrow> order_record" where
  "stamp_time OS_SUBMITTED t r = r\<lparr>or_submitted_at := Some t\<rparr>"
| "stamp_time OS_ACKNOWLEDGED t r = r\<lparr>or_acknowledged_at := Some t\<rparr>"
| "stamp_time OS_FILLED t r = r\<lparr>or_filled_at := Some t\<rparr>"
| "stamp_time OS_CANCELLED t r = r\<lparr>or_cancelled_at := Some t\<rparr>"
| "stamp_time OS_REJECTED t r = r\<lparr>or_rejected_at := Some t\<rparr>"
| "stamp_time OS_RECONCILED t r = r\<lparr>or_reconciled_at := Some t\<rparr>"
| "stamp_time OS_CLOSED t r = r\<lparr>or_closed_at := Some t\<rparr>"
| "stamp_time OS_REVIEWED t r = r\<lparr>or_reviewed_at := Some t\<rparr>"
| "stamp_time _ t r = r"

definition transition ::
    "order_record \<Rightarrow> order_state \<Rightarrow> instant \<Rightarrow> field_update list \<Rightarrow> exn + order_record" where
  "transition current target when updates =
     rbind (assert_valid_order_transition (or_state current) target) (\<lambda>_.
       Inr (stamp_time target when (model_copy updates
         (current\<lparr>or_state := target, or_updated_at := when,
            or_version := or_version current + 1\<rparr>))))"

definition keep_last :: "nat \<Rightarrow> 'a list \<Rightarrow> 'a list" where
  "keep_last n xs = (if n = 0 then xs else drop (length xs - n) xs)"

definition stamp_event :: "order_record \<Rightarrow> string \<Rightarrow> order_record" where
  "stamp_event r event_id = r\<lparr>or_processed_event_ids :=
     keep_last max_processed_event_ids (or_processed_event_ids r @ [event_id])\<rparr>"

definition stamp_opt :: "string option \<Rightarrow> order_record \<Rightarrow> order_record" where
  "stamp_opt event_id r = (case event_id of None \<Rightarrow> r | Some e \<Rightarrow> stamp_event r e)"

definition already_processed :: "string option \<Rightarrow> order_record \<Rightarrow> bool" where
  "already_processed event_id r =
     (case event_id of None \<Rightarrow> False | Some e \<Rightarrow> e \<in> set (or_processed_event_ids r))"

fun is_stale_error :: "exn \<Rightarrow> bool" where
  "is_stale_error (StaleStateError _ _ _) = True"
| "is_stale_error _ = False"

definition unknown_order :: exn where
  "unknown_order = ValueError ''unknown order_intent_id''"

fun apply_loop ::
    "(nat \<Rightarrow> exec_store \<Rightarrow> exec_store) \<Rightarrow> nat \<Rightarrow> uuid \<Rightarrow> order_state \<Rightarrow> string option \<Rightarrow>
     field_update list \<Rightarrow> instant \<Rightarrow> (exec_store, exn, order_record) prog" where
  "apply_loop others 0 oid target event_id updates when s = (Inl (StaleStateError oid (- 1) (- 1)), s)"
| "apply_loop others (Suc n) oid target event_id updates when s =
     (case get_order oid s of
        None \<Rightarrow> (Inl unknown_order, s)
      | Some current \<Rightarrow>
          if already_processed event_id current then (Inr current, s)
          else if \<not> is_valid_order_transition (or_state current) target then
            (if target \<in> {OS_PARTIALLY_FILLED, OS_FILLED} \<and> or_state current = OS_SUBMITTED then
               (case transition current OS_ACKNOWLEDGED when (filter is_venue_order_update updates) of
                  Inl e \<Rightarrow> (Inl e, s)
                | Inr acked \<Rightarrow>
                    (case update_order acked (or_version current) (others n s) of
                       (Inl e, s') \<Rightarrow>
                         if is_stale_error e
                         then apply_loop others n oid target event_id updates when s'
                         else (Inl e, s')
                     | (Inr _, s') \<Rightarrow> apply_loop others n oid target event_id updates when s'))
             else (Inl (InvalidStateTransition (or_state current) target), s))
          else
            (case transition current target when updates of
               Inl e \<Rightarrow> (Inl e, s)
             | Inr next_record \<Rightarrow>
                 (case update_order (stamp_opt event_id next_record) (or_version current)
                         (others n s) of
                    (Inl e, s') \<Rightarrow>
                      if is_stale_error e
                      then apply_loop others n oid target event_id updates when s'
                      else (Inl e, s')
                  | (Inr r, s') \<Rightarrow> (Inr r, s'))))"

declare apply_loop.simps [simp del]

definition apply_order ::
    "uuid \<Rightarrow> order_state \<Rightarrow> string option \<Rightarrow> field_update list \<Rightarrow> instant \<Rightarrow>
     (exec_store, exn, order_record) prog" where
  "apply_order = apply_loop (\<lambda>_ s. s) 4"

fun update_fields_loop ::
    "nat \<Rightarrow> uuid \<Rightarrow> field_update list \<Rightarrow> instant \<Rightarrow> (exec_store, exn, order_record) prog" where
  "update_fields_loop 0 oid updates now s = (Inl (StaleStateError oid (- 1) (- 1)), s)"
| "update_fields_loop (Suc n) oid updates now s =
     (case get_order oid s of
        None \<Rightarrow> (Inl unknown_order, s)
      | Some current \<Rightarrow>
          (case update_order ((model_copy updates current)
                   \<lparr>or_updated_at := now, or_version := or_version current + 1\<rparr>)
                  (or_version current) s of
             (Inl e, s') \<Rightarrow> if is_stale_error e then update_fields_loop n oid updates now s'
                            else (Inl e, s')
           | (Inr r, s') \<Rightarrow> (Inr r, s')))"

definition update_fields ::
    "uuid \<Rightarrow> field_update list \<Rightarrow> instant \<Rightarrow> (exec_store, exn, order_record) prog" where
  "update_fields = update_fields_loop 4"

subsection \<open>Upstream stages\<close>

definition new_record ::
    "uuid \<Rightarrow> order_state \<Rightarrow> string \<Rightarrow> string \<Rightarrow> string \<Rightarrow> string option \<Rightarrow> order_side \<Rightarrow> order_type \<Rightarrow>
     decimal \<Rightarrow> instant \<Rightarrow> order_record" where
  "new_record oid st strategy_id strategy_version instrument_id venue side order_type quantity now =
     \<lparr>or_order_intent_id = oid, or_state = st, or_strategy_id = strategy_id,
      or_strategy_version = strategy_version, or_instrument_id = instrument_id,
      or_venue = venue, or_side = side, or_order_type = order_type,
      or_requested_quantity = quantity, or_filled_quantity = 0,
      or_remaining_quantity = quantity, or_average_fill_price = None, or_venue_order_id = None,
      or_venue_position_id = None, or_commission = 0, or_fees = 0, or_slippage = None,
      or_reject_reason = None, or_last_event_sequence = 0, or_processed_event_ids = [],
      or_version = 1, or_created_at = now, or_updated_at = now, or_submitted_at = None,
      or_acknowledged_at = None, or_filled_at = None, or_cancelled_at = None,
      or_rejected_at = None, or_reconciled_at = None, or_closed_at = None,
      or_reviewed_at = None, or_reconciliation_note = None\<rparr>"

definition construct_order :: "order_record \<Rightarrow> exn + order_record" where
  "construct_order r = (if valid_order_record r then Inr r else Inl (ValueError ''OrderRecord''))"

definition save_new :: "order_record \<Rightarrow> (exec_store, exn, order_record) prog" where
  "save_new r s = (case construct_order r of Inl e \<Rightarrow> (Inl e, s) | Inr r \<Rightarrow> save_order r s)"

definition record_candidate ::
    "uuid \<Rightarrow> string \<Rightarrow> string \<Rightarrow> string \<Rightarrow> order_side \<Rightarrow> order_type \<Rightarrow> decimal \<Rightarrow> instant \<Rightarrow>
     (exec_store, exn, order_record) prog" where
  "record_candidate oid strategy_id strategy_version instrument_id side order_type quantity now =
     save_new (new_record oid OS_CANDIDATE strategy_id strategy_version instrument_id None side
       order_type quantity now)"

definition record_risk_rejected ::
    "uuid \<Rightarrow> string \<Rightarrow> instant \<Rightarrow> (exec_store, exn, order_record) prog" where
  "record_risk_rejected oid reason now =
     apply_order oid OS_RISK_REJECTED None [U_reject_reason reason] now"

definition record_approved :: "uuid \<Rightarrow> instant \<Rightarrow> (exec_store, exn, order_record) prog" where
  "record_approved oid now = apply_order oid OS_APPROVED None [] now"

definition record_order_intent ::
    "order_intent \<Rightarrow> string \<Rightarrow> instant \<Rightarrow> (exec_store, exn, order_record) prog" where
  "record_order_intent intent venue now s =
     (case get_order (oi_order_intent_id intent) s of
        None \<Rightarrow> save_new (new_record (oi_order_intent_id intent) OS_ORDER_INTENT
            (oi_strategy_id intent) (oi_strategy_version intent) (oi_instrument_id intent)
            (Some venue) (oi_side intent) (oi_order_type intent) (oi_quantity intent) now) s
      | Some current \<Rightarrow>
          if or_state current = OS_ORDER_INTENT then (Inr current, s)
          else apply_order (oi_order_intent_id intent) OS_ORDER_INTENT None
            [U_strategy_id (oi_strategy_id intent), U_strategy_version (oi_strategy_version intent),
             U_instrument_id (oi_instrument_id intent), U_venue venue, U_side (oi_side intent),
             U_order_type (oi_order_type intent), U_requested_quantity (oi_quantity intent),
             U_remaining_quantity (oi_quantity intent)] now s)"

subsection \<open>Execution stages\<close>

definition record_submitted :: "uuid \<Rightarrow> instant \<Rightarrow> (exec_store, exn, order_record) prog" where
  "record_submitted oid now s =
     (case get_order oid s of
        Some current \<Rightarrow> if or_state current = OS_SUBMITTED then (Inr current, s)
                        else apply_order oid OS_SUBMITTED None [] now s
      | None \<Rightarrow> apply_order oid OS_SUBMITTED None [] now s)"

definition stale_ack_states :: "order_state list" where
  "stale_ack_states = [OS_ACKNOWLEDGED, OS_PARTIALLY_FILLED, OS_FILLED]"

definition opt_update :: "('a \<Rightarrow> field_update) \<Rightarrow> 'a option \<Rightarrow> field_update list" where
  "opt_update mk x = (case x of None \<Rightarrow> [] | Some v \<Rightarrow> [mk v])"

definition record_acknowledged ::
    "uuid \<Rightarrow> string option \<Rightarrow> string option \<Rightarrow> instant \<Rightarrow> (exec_store, exn, order_record) prog" where
  "record_acknowledged oid venue_order_id event_id now s =
     (case get_order oid s of
        None \<Rightarrow> (Inl unknown_order, s)
      | Some current \<Rightarrow>
          if or_state current \<in> set stale_ack_states \<or>
             or_state current \<in> {OS_CANCELLED, OS_REJECTED, OS_RECONCILED, OS_CLOSED, OS_REVIEWED}
          then (Inr current, s)
          else apply_order oid OS_ACKNOWLEDGED event_id (opt_update U_venue_order_id venue_order_id)
                 now s)"

definition record_cancelled ::
    "uuid \<Rightarrow> string option \<Rightarrow> string option \<Rightarrow> instant \<Rightarrow> (exec_store, exn, order_record) prog" where
  "record_cancelled oid event_id note now s =
     (case get_order oid s of
        None \<Rightarrow> (Inl unknown_order, s)
      | Some current \<Rightarrow>
          if or_state current \<in> {OS_FILLED, OS_REJECTED, OS_CANCELLED, OS_RECONCILED, OS_CLOSED,
               OS_REVIEWED}
          then (Inr current, s)
          else apply_order oid OS_CANCELLED event_id (opt_update U_reconciliation_note note) now s)"

definition record_rejected ::
    "uuid \<Rightarrow> string \<Rightarrow> string option \<Rightarrow> instant \<Rightarrow> (exec_store, exn, order_record) prog" where
  "record_rejected oid reason event_id now s =
     (case get_order oid s of
        None \<Rightarrow> (Inl unknown_order, s)
      | Some current \<Rightarrow>
          if or_state current \<in> {OS_FILLED, OS_CANCELLED, OS_REJECTED, OS_RECONCILED, OS_CLOSED,
               OS_REVIEWED}
          then (Inr current, s)
          else apply_order oid OS_REJECTED event_id [U_reject_reason reason] now s)"

subsection \<open>Fills\<close>

record fill_event =
  fe_event_id :: "string option"
  fe_sequence :: int
  fe_quantity :: decimal
  fe_price :: decimal
  fe_venue_order_id :: "string option"
  fe_venue_position_id :: "string option"
  fe_commission :: decimal
  fe_slippage :: "decimal option"

definition fill_cumulative :: "order_record \<Rightarrow> fill_event \<Rightarrow> decimal" where
  "fill_cumulative current f = dadd (or_filled_quantity current) (fe_quantity f)"

text \<open>The divisor is positive: both quantities are, when the branch is taken.\<close>

definition fill_average :: "order_record \<Rightarrow> fill_event \<Rightarrow> decimal" where
  "fill_average current f =
     (if 0 < or_filled_quantity current
      then ddiv_nz
        (dadd (dmul (case or_average_fill_price current of None \<Rightarrow> 0 | Some a \<Rightarrow> a)
                 (or_filled_quantity current))
              (dmul (fe_price f) (fe_quantity f)))
        (fill_cumulative current f)
      else fe_price f)"

definition fill_target :: "order_record \<Rightarrow> fill_event \<Rightarrow> order_state" where
  "fill_target current f =
     (if fill_cumulative current f = or_requested_quantity current
      then OS_FILLED else OS_PARTIALLY_FILLED)"

definition fill_updates :: "order_record \<Rightarrow> fill_event \<Rightarrow> field_update list" where
  "fill_updates current f =
     [U_filled_quantity (fill_cumulative current f),
      U_remaining_quantity (dsub (or_requested_quantity current) (fill_cumulative current f)),
      U_average_fill_price (fill_average current f),
      U_commission (dadd (or_commission current) (fe_commission f)),
      U_last_event_sequence (max (or_last_event_sequence current) (fe_sequence f))]
     @ opt_update U_venue_order_id (fe_venue_order_id f)
     @ opt_update U_venue_position_id (fe_venue_position_id f)
     @ opt_update U_slippage (fe_slippage f)"

definition record_fill :: "uuid \<Rightarrow> fill_event \<Rightarrow> instant \<Rightarrow> (exec_store, exn, order_record) prog" where
  "record_fill oid f now s =
     (if fe_quantity f \<le> 0 then (Inl (ValueError ''fill quantity must be positive''), s)
      else case get_order oid s of
        None \<Rightarrow> (Inl unknown_order, s)
      | Some current \<Rightarrow>
          if or_state current \<in> {OS_CANCELLED, OS_REJECTED}
          then (Inl (ExecutionDivergenceError IDENTIFIER_MISMATCH oid), s)
          else if or_state current \<in> {OS_RECONCILED, OS_CLOSED, OS_REVIEWED}
          then (Inl (ExecutionDivergenceError IDENTIFIER_MISMATCH oid), s)
          else if already_processed (fe_event_id f) current then (Inr current, s)
          else if or_requested_quantity current < fill_cumulative current f
          then (Inl (ExecutionDivergenceError OVERFILL oid), s)
          else apply_order oid (fill_target current f) (fe_event_id f) (fill_updates current f) now s)"

definition record_partial_fill ::
    "uuid \<Rightarrow> fill_event \<Rightarrow> instant \<Rightarrow> (exec_store, exn, order_record) prog" where
  "record_partial_fill oid f now = record_fill oid (f\<lparr>fe_venue_position_id := None\<rparr>) now"

subsection \<open>Reconciliation-driven healing\<close>

definition heal_acknowledged ::
    "uuid \<Rightarrow> string \<Rightarrow> instant \<Rightarrow> (exec_store, exn, order_record) prog" where
  "heal_acknowledged oid note now s =
     (case get_order oid s of
        None \<Rightarrow> (Inl unknown_order, s)
      | Some current \<Rightarrow>
          if or_state current = OS_SUBMITTED
          then apply_order oid OS_ACKNOWLEDGED None [U_reconciliation_note note] now s
          else (Inr current, s))"

definition heal_fill ::
    "uuid \<Rightarrow> string \<Rightarrow> decimal \<Rightarrow> decimal \<Rightarrow> string \<Rightarrow> instant \<Rightarrow>
     (exec_store, exn, order_record) prog" where
  "heal_fill oid venue_position_id quantity price note now =
     seq (record_fill oid \<lparr>fe_event_id = None, fe_sequence = 0, fe_quantity = quantity,
            fe_price = price, fe_venue_order_id = None,
            fe_venue_position_id = Some venue_position_id, fe_commission = 0,
            fe_slippage = None\<rparr> now)
       (\<lambda>_. update_fields oid [U_reconciliation_note note] now)"

definition adopt_position ::
    "uuid \<Rightarrow> string \<Rightarrow> string \<Rightarrow> instant \<Rightarrow> (exec_store, exn, order_record) prog" where
  "adopt_position oid venue_position_id note now =
     update_fields oid [U_venue_position_id venue_position_id, U_reconciliation_note note] now"

definition mark_reconciled ::
    "uuid \<Rightarrow> string \<Rightarrow> instant \<Rightarrow> (exec_store, exn, order_record) prog" where
  "mark_reconciled oid note now s =
     (case get_order oid s of
        None \<Rightarrow> (Inl unknown_order, s)
      | Some current \<Rightarrow>
          if or_state current \<in> {OS_RECONCILED, OS_CLOSED, OS_REVIEWED} then (Inr current, s)
          else if or_state current \<in> set live_order_states
          then (Inl (InvalidStateTransition (or_state current) OS_RECONCILED), s)
          else apply_order oid OS_RECONCILED None [U_reconciliation_note note] now s)"

definition record_closed ::
    "uuid \<Rightarrow> string option \<Rightarrow> instant \<Rightarrow> (exec_store, exn, order_record) prog" where
  "record_closed oid note now =
     apply_order oid OS_CLOSED None (opt_update U_reconciliation_note note) now"

definition record_reviewed :: "uuid \<Rightarrow> instant \<Rightarrow> (exec_store, exn, order_record) prog" where
  "record_reviewed oid now = apply_order oid OS_REVIEWED None [] now"


section \<open>How orders evolve\<close>

subsection \<open>The effect of one attempt\<close>

text \<open>The record a valid transition writes.\<close>

definition advance :: "order_record \<Rightarrow> order_state \<Rightarrow> instant \<Rightarrow> field_update list \<Rightarrow> order_record" where
  "advance current target when updates =
     stamp_time target when (model_copy updates
       (current\<lparr>or_state := target, or_updated_at := when, or_version := or_version current + 1\<rparr>))"

lemma transition_valid:
  "is_valid_order_transition (or_state c) t \<Longrightarrow> transition c t w us = Inr (advance c t w us)"
  by (simp add: transition_def assert_valid_order_transition_def advance_def)

lemma set_field_keeps [simp]:
  "or_order_intent_id (set_field u r) = or_order_intent_id r"
  "or_state (set_field u r) = or_state r" "or_version (set_field u r) = or_version r"
  "or_processed_event_ids (set_field u r) = or_processed_event_ids r"
  "or_fees (set_field u r) = or_fees r" "or_created_at (set_field u r) = or_created_at r"
  by (cases u; simp)+

lemma model_copy_keeps [simp]:
  "or_order_intent_id (model_copy us r) = or_order_intent_id r"
  "or_state (model_copy us r) = or_state r" "or_version (model_copy us r) = or_version r"
  "or_processed_event_ids (model_copy us r) = or_processed_event_ids r"
  by (induction us arbitrary: r; simp add: model_copy_def)+

lemma stamp_time_keeps [simp]:
  "or_order_intent_id (stamp_time t w r) = or_order_intent_id r"
  "or_state (stamp_time t w r) = or_state r" "or_version (stamp_time t w r) = or_version r"
  "or_processed_event_ids (stamp_time t w r) = or_processed_event_ids r"
  "or_strategy_id (stamp_time t w r) = or_strategy_id r"
  "or_strategy_version (stamp_time t w r) = or_strategy_version r"
  "or_instrument_id (stamp_time t w r) = or_instrument_id r"
  "or_venue (stamp_time t w r) = or_venue r"
  "or_requested_quantity (stamp_time t w r) = or_requested_quantity r"
  "or_filled_quantity (stamp_time t w r) = or_filled_quantity r"
  "or_remaining_quantity (stamp_time t w r) = or_remaining_quantity r"
  "or_average_fill_price (stamp_time t w r) = or_average_fill_price r"
  "or_venue_order_id (stamp_time t w r) = or_venue_order_id r"
  "or_venue_position_id (stamp_time t w r) = or_venue_position_id r"
  "or_commission (stamp_time t w r) = or_commission r"
  "or_fees (stamp_time t w r) = or_fees r"
  "or_last_event_sequence (stamp_time t w r) = or_last_event_sequence r"
  by (cases t; simp)+

lemma advance_keeps [simp]:
  "or_order_intent_id (advance c t w us) = or_order_intent_id c"
  "or_state (advance c t w us) = t" "or_version (advance c t w us) = or_version c + 1"
  "or_processed_event_ids (advance c t w us) = or_processed_event_ids c"
  by (simp_all add: advance_def)

lemma stamp_opt_keeps [simp]:
  "or_order_intent_id (stamp_opt ev r) = or_order_intent_id r"
  "or_state (stamp_opt ev r) = or_state r" "or_version (stamp_opt ev r) = or_version r"
  "or_strategy_id (stamp_opt ev r) = or_strategy_id r"
  "or_strategy_version (stamp_opt ev r) = or_strategy_version r"
  "or_instrument_id (stamp_opt ev r) = or_instrument_id r"
  "or_venue (stamp_opt ev r) = or_venue r"
  "or_requested_quantity (stamp_opt ev r) = or_requested_quantity r"
  "or_filled_quantity (stamp_opt ev r) = or_filled_quantity r"
  "or_remaining_quantity (stamp_opt ev r) = or_remaining_quantity r"
  "or_average_fill_price (stamp_opt ev r) = or_average_fill_price r"
  "or_venue_order_id (stamp_opt ev r) = or_venue_order_id r"
  "or_venue_position_id (stamp_opt ev r) = or_venue_position_id r"
  "or_commission (stamp_opt ev r) = or_commission r"
  "or_fees (stamp_opt ev r) = or_fees r"
  "or_last_event_sequence (stamp_opt ev r) = or_last_event_sequence r"
  by (simp_all add: stamp_opt_def stamp_event_def split: option.split)

subsection \<open>Edges of the lifecycle\<close>

text \<open>
  One write of an order: the same order, the next version, and the same state or a valid
  transition. \<open>evolves\<close> says that every order of a store moved along such edges.
\<close>

definition order_edge :: "order_record \<Rightarrow> order_record \<Rightarrow> bool" where
  "order_edge a b \<longleftrightarrow> or_order_intent_id b = or_order_intent_id a \<and>
     or_version b = or_version a + 1 \<and>
     (or_state b = or_state a \<or> is_valid_order_transition (or_state a) (or_state b))"

definition keyed :: "exec_store \<Rightarrow> bool" where
  "keyed s \<longleftrightarrow> (\<forall>k r. get_order k s = Some r \<longrightarrow> or_order_intent_id r = k)"

definition evolves :: "exec_store \<Rightarrow> exec_store \<Rightarrow> bool" where
  "evolves s s' \<longleftrightarrow> (keyed s \<longrightarrow> keyed s') \<and>
     (\<forall>k c. get_order k s = Some c \<longrightarrow> (\<exists>c'. get_order k s' = Some c' \<and> order_edge\<^sup>*\<^sup>* c c'))"

lemma order_edges_version: "order_edge\<^sup>*\<^sup>* a b \<Longrightarrow> or_version a \<le> or_version b"
  by (induction rule: rtranclp_induct) (auto simp: order_edge_def)

lemma order_edges_same_version:
  assumes "order_edge\<^sup>*\<^sup>* a b" and "or_version a = or_version b"
  shows "a = b"
  using assms
proof (cases rule: rtranclp.cases)
  case (rtrancl_into_rtrancl b')
  then have "or_version a \<le> or_version b'" "or_version b = or_version b' + 1"
    by (auto simp: order_edge_def dest: order_edges_version)
  with assms(2) show ?thesis by simp
qed simp

lemma evolves_refl [simp, intro]: "evolves s s"
  by (auto simp: evolves_def)

lemma evolves_keyed: "evolves s s' \<Longrightarrow> keyed s \<Longrightarrow> keyed s'"
  by (simp add: evolves_def)

lemma evolves_trans:
  assumes "evolves s t" and "evolves t u"
  shows "evolves s u"
  unfolding evolves_def
proof (intro conjI allI impI)
  show "keyed u" if "keyed s" using assms that by (simp add: evolves_def)
  fix k c assume "get_order k s = Some c"
  then obtain d where "get_order k t = Some d" "order_edge\<^sup>*\<^sup>* c d" using assms(1) by (auto simp: evolves_def)
  moreover then obtain e where "get_order k u = Some e" "order_edge\<^sup>*\<^sup>* d e"
    using assms(2) by (auto simp: evolves_def)
  ultimately show "\<exists>e. get_order k u = Some e \<and> order_edge\<^sup>*\<^sup>* c e" by (meson rtranclp_trans)
qed

lemma evolves_cas:
  assumes "update_order r v s = (res, s')" and "get_order (or_order_intent_id r) s = Some c"
    and "v = or_version c \<Longrightarrow> order_edge c r"
  shows "evolves s s'"
proof (cases res)
  case (Inl e)
  then have "s' = s" using mem.cas_fail [of r v s e s'] assms(1) by simp
  then show ?thesis by simp
next
  case (Inr r')
  note ok = mem.cas_ok [OF assms(1) [unfolded Inr]]
  then have edge: "order_edge c r" using assms(2,3) by auto
  show ?thesis
    unfolding evolves_def keyed_def
    using ok edge assms(2) by (auto split: if_splits)
qed

text \<open>The compare-and-set of an attempt, after the other writers have moved.\<close>

lemma attempt_evolves:
  assumes read: "get_order oid s = Some c" and key: "keyed s" and rely: "evolves s t"
    and r: "order_edge c r" and upd: "update_order r (or_version c) t = (res, s')"
  shows "evolves s s'"
proof -
  have oid: "or_order_intent_id r = oid" using r read key by (auto simp: order_edge_def keyed_def)
  obtain d where d: "get_order oid t = Some d" "order_edge\<^sup>*\<^sup>* c d"
    using rely read by (auto simp: evolves_def)
  have "evolves t s'"
    by (rule evolves_cas [OF upd, of d]) (use d oid r order_edges_same_version in auto)
  with rely show ?thesis by (rule evolves_trans)
qed

lemma advance_edge:
  "is_valid_order_transition (or_state c) t \<Longrightarrow> order_edge c (stamp_opt ev (advance c t w us))"
  "is_valid_order_transition (or_state c) t \<Longrightarrow> order_edge c (advance c t w us)"
  by (simp_all add: order_edge_def)

lemma attempt_branch:
  assumes "get_order oid s = Some c" and "keyed s" and "evolves s t" and "order_edge c r"
    and "\<And>s'. evolves s s' \<Longrightarrow> evolves s (snd (again s'))"
    and "\<And>x s'. evolves s s' \<Longrightarrow> evolves s (snd (k x s'))"
  shows "evolves s (snd (case update_order r (or_version c) t of
      (Inl e, s') \<Rightarrow> if is_stale_error e then again s' else (Inl e, s')
    | (Inr x, s') \<Rightarrow> k x s'))"
proof (cases "update_order r (or_version c) t")
  case (Pair res s')
  have "evolves s s'" using assms(1-4) Pair by (rule attempt_evolves)
  then show ?thesis using Pair assms(5,6) by (auto split: sum.split)
qed

lemma apply_loop_evolves:
  assumes rely: "\<And>n s. keyed s \<Longrightarrow> evolves s (others n s)"
  shows "keyed s \<Longrightarrow> evolves s (snd (apply_loop others n oid t ev us w s))"
proof (induction n arbitrary: s)
  case 0
  then show ?case by (simp add: apply_loop.simps)
next
  case (Suc n)
  have again: "evolves s (snd (apply_loop others n oid t ev us w s'))" if "evolves s s'" for s'
    using evolves_trans [OF that Suc.IH [OF evolves_keyed [OF that Suc.prems]]] .
  show ?case
  proof (cases "get_order oid s")
    case None
    then show ?thesis by (simp add: apply_loop.simps)
  next
    case (Some c)
    note attempt = attempt_branch [OF Some Suc.prems rely [OF Suc.prems] _ again]
    consider (dup) "already_processed ev c"
      | (valid) "\<not> already_processed ev c" "is_valid_order_transition (or_state c) t"
      | (ack) "\<not> already_processed ev c" "\<not> is_valid_order_transition (or_state c) t"
          "t \<in> {OS_PARTIALLY_FILLED, OS_FILLED} \<and> or_state c = OS_SUBMITTED"
      | (invalid) "\<not> already_processed ev c" "\<not> is_valid_order_transition (or_state c) t"
          "\<not> (t \<in> {OS_PARTIALLY_FILLED, OS_FILLED} \<and> or_state c = OS_SUBMITTED)"
      by blast
    then show ?thesis
    proof cases
      case dup
      with Some show ?thesis by (simp add: apply_loop.simps)
    next
      case valid
      with Some show ?thesis
        using attempt [OF advance_edge(1) [OF valid(2), of ev w us],
            where k = "\<lambda>x s'. (Inr x, s')"]
        by (simp add: apply_loop.simps transition_valid)
    next
      case ack
      then have v: "is_valid_order_transition (or_state c) OS_ACKNOWLEDGED"
        by (simp add: transition_defs)
      from Some ack show ?thesis
        using again attempt [OF advance_edge(2) [OF v, of w "filter is_venue_order_update us"],
            where k = "\<lambda>_. apply_loop others n oid t ev us w"]
        by (simp add: apply_loop.simps transition_valid [OF v])
    next
      case invalid
      with Some show ?thesis by (auto simp: apply_loop.simps)
    qed
  qed
qed

lemma apply_order_evolves: "keyed s \<Longrightarrow> evolves s (snd (apply_order oid t ev us w s))"
  unfolding apply_order_def by (rule apply_loop_evolves) simp_all

lemma update_fields_evolves: "keyed s \<Longrightarrow> evolves s (snd (update_fields oid us w s))"
proof -
  assume key: "keyed s"
  show ?thesis
  proof (cases "get_order oid s")
    case None
    then show ?thesis by (simp add: update_fields_def eval_nat_numeral)
  next
    case (Some c)
    let ?r = "(model_copy us c)\<lparr>or_updated_at := w, or_version := or_version c + 1\<rparr>"
    have id: "or_order_intent_id ?r = oid" using key Some by (simp add: keyed_def)
    have "fst (update_order ?r (or_version c) s) = Inr ?r"
      by (rule mem.cas_match) (use Some id in simp_all)
    moreover have "evolves s (snd (update_order ?r (or_version c) s))"
      by (rule evolves_cas [of ?r "or_version c" s "fst (update_order ?r (or_version c) s)" _ c])
        (use Some id in \<open>simp_all add: order_edge_def\<close>)
    ultimately show ?thesis
      using Some by (cases "update_order ?r (or_version c) s")
        (simp add: update_fields_def eval_nat_numeral)
  qed
qed

lemma save_new_evolves: "keyed s \<Longrightarrow> evolves s (snd (save_new r s))"
proof -
  assume key: "keyed s"
  have "evolves s (snd (save_order r s))"
  proof (cases "save_order r s")
    case (Pair res s')
    show ?thesis
    proof (cases res)
      case (Inl e)
      then have "s' = s" using mem.insert_new_fail Pair by blast
      then show ?thesis using Pair by simp
    next
      case (Inr r')
      then show ?thesis
        using mem.insert_new_ok [of r s r' s'] Pair key by (auto simp: evolves_def keyed_def)
    qed
  qed
  then show ?thesis by (simp add: save_new_def construct_order_def)
qed

lemma record_fill_evolves: "keyed s \<Longrightarrow> evolves s (snd (record_fill oid f w s))"
  by (simp add: record_fill_def apply_order_evolves split: option.split)

subsection \<open>Every operation\<close>

datatype applier_op =
    RecordCandidate uuid string string string order_side order_type decimal
  | RecordRiskRejected uuid string
  | RecordApproved uuid
  | RecordOrderIntent order_intent string
  | RecordSubmitted uuid
  | RecordAcknowledged uuid "string option" "string option"
  | RecordCancelled uuid "string option" "string option"
  | RecordRejected uuid string "string option"
  | RecordPartialFill uuid fill_event
  | RecordFill uuid fill_event
  | HealAcknowledged uuid string
  | HealFill uuid string decimal decimal string
  | AdoptPosition uuid string string
  | MarkReconciled uuid string
  | RecordClosed uuid "string option"
  | RecordReviewed uuid

primrec run_applier_op :: "applier_op \<Rightarrow> instant \<Rightarrow> (exec_store, exn, order_record) prog" where
  "run_applier_op (RecordCandidate oid sid sv ins side ot q) now = record_candidate oid sid sv ins side ot q now"
| "run_applier_op (RecordRiskRejected oid reason) now = record_risk_rejected oid reason now"
| "run_applier_op (RecordApproved oid) now = record_approved oid now"
| "run_applier_op (RecordOrderIntent intent venue) now = record_order_intent intent venue now"
| "run_applier_op (RecordSubmitted oid) now = record_submitted oid now"
| "run_applier_op (RecordAcknowledged oid void ev) now = record_acknowledged oid void ev now"
| "run_applier_op (RecordCancelled oid ev note) now = record_cancelled oid ev note now"
| "run_applier_op (RecordRejected oid reason ev) now = record_rejected oid reason ev now"
| "run_applier_op (RecordPartialFill oid f) now = record_partial_fill oid f now"
| "run_applier_op (RecordFill oid f) now = record_fill oid f now"
| "run_applier_op (HealAcknowledged oid note) now = heal_acknowledged oid note now"
| "run_applier_op (HealFill oid pid q p note) now = heal_fill oid pid q p note now"
| "run_applier_op (AdoptPosition oid pid note) now = adopt_position oid pid note now"
| "run_applier_op (MarkReconciled oid note) now = mark_reconciled oid note now"
| "run_applier_op (RecordClosed oid note) now = record_closed oid note now"
| "run_applier_op (RecordReviewed oid) now = record_reviewed oid now"

lemma heal_fill_evolves: "keyed s \<Longrightarrow> evolves s (snd (heal_fill oid pid q p note w s))"
proof -
  let ?f = "\<lparr>fe_event_id = None, fe_sequence = 0, fe_quantity = q, fe_price = p,
    fe_venue_order_id = None, fe_venue_position_id = Some pid, fe_commission = 0, fe_slippage = None\<rparr>"
  assume "keyed s"
  then have "evolves s (snd (record_fill oid ?f w s))" and "keyed (snd (record_fill oid ?f w s))"
    using record_fill_evolves evolves_keyed by blast+
  then show ?thesis
    using update_fields_evolves [of "snd (record_fill oid ?f w s)" oid "[U_reconciliation_note note]" w]
    by (cases "record_fill oid ?f w s")
      (auto simp: heal_fill_def seq_run split: sum.split intro: evolves_trans)
qed

lemma run_applier_op_evolves: "keyed s \<Longrightarrow> evolves s (snd (run_applier_op opn w s))"
  by (cases opn)
    (simp_all add: apply_order_evolves update_fields_evolves save_new_evolves record_fill_evolves
      heal_fill_evolves record_candidate_def record_risk_rejected_def record_approved_def
      record_order_intent_def record_submitted_def record_acknowledged_def record_cancelled_def
      record_rejected_def record_partial_fill_def heal_acknowledged_def adopt_position_def
      mark_reconciled_def record_closed_def record_reviewed_def split: option.split)

text \<open>A run of operations, each with its reading of the clock; failures leave their state.\<close>

definition run_applier_ops :: "(applier_op \<times> instant) list \<Rightarrow> exec_store \<Rightarrow> exec_store" where
  "run_applier_ops ops s = fold (\<lambda>(opn, w) s. snd (run_applier_op opn w s)) ops s"

lemma run_applier_ops_evolves: "keyed s \<Longrightarrow> evolves s (run_applier_ops ops s)"
proof (induction ops arbitrary: s)
  case Nil
  then show ?case by (simp add: run_applier_ops_def)
next
  case (Cons x ops)
  obtain opn w where x: "x = (opn, w)" by fastforce
  have e: "evolves s (snd (run_applier_op opn w s))" using Cons.prems by (rule run_applier_op_evolves)
  have "evolves (snd (run_applier_op opn w s)) (run_applier_ops ops (snd (run_applier_op opn w s)))"
    by (rule Cons.IH [OF evolves_keyed [OF e Cons.prems]])
  with e show ?case by (auto simp: run_applier_ops_def x intro: evolves_trans)
qed


section \<open>Without interference\<close>

definition put_order :: "order_record \<Rightarrow> exec_store \<Rightarrow> exec_store" where
  "put_order r s = s\<lparr>es_orders := AList.update (or_order_intent_id r) r (es_orders s)\<rparr>"

lemma get_put_order [simp]:
  "get_order k (put_order r s) = (if k = or_order_intent_id r then Some r else get_order k s)"
  by (simp add: get_order_def put_order_def)

lemma update_order_next:
  "get_order (or_order_intent_id r) s = Some c \<Longrightarrow> v = or_version c \<Longrightarrow> or_version r = v + 1 \<Longrightarrow>
   update_order r v s = (Inr r, put_order r s)"
  by (simp add: update_order_def put_order_def)

text \<open>What \<open>_apply\<close> does when nobody else writes: at most two writes, never stale.\<close>

lemma apply_order_run:
  assumes key: "keyed s" and c: "get_order oid s = Some c"
  shows "apply_order oid t ev us w s =
    (if already_processed ev c then (Inr c, s)
     else if is_valid_order_transition (or_state c) t then
       (Inr (stamp_opt ev (advance c t w us)), put_order (stamp_opt ev (advance c t w us)) s)
     else if t \<in> {OS_PARTIALLY_FILLED, OS_FILLED} \<and> or_state c = OS_SUBMITTED then
       (let acked = advance c OS_ACKNOWLEDGED w (filter is_venue_order_update us);
            r = stamp_opt ev (advance acked t w us)
        in (Inr r, put_order r (put_order acked s)))
     else (Inl (InvalidStateTransition (or_state c) t), s))"
proof -
  have oid: "or_order_intent_id c = oid" using key c by (simp add: keyed_def)
  have ack: "is_valid_order_transition OS_SUBMITTED OS_ACKNOWLEDGED"
    "t \<in> {OS_PARTIALLY_FILLED, OS_FILLED} \<Longrightarrow> is_valid_order_transition OS_ACKNOWLEDGED t"
    by (auto simp: transition_defs)
  have processed: "already_processed ev (advance c q w vs) = already_processed ev c" for q vs
    by (simp add: already_processed_def split: option.split)
  show ?thesis
    using c oid ack processed
    by (auto simp: apply_order_def eval_nat_numeral apply_loop.simps transition_valid
        update_order_next Let_def)
qed

lemma apply_order_unknown: "get_order oid s = None \<Longrightarrow> apply_order oid t ev us w s = (Inl unknown_order, s)"
  by (simp add: apply_order_def eval_nat_numeral apply_loop.simps)

lemma update_fields_run:
  assumes "keyed s" and "get_order oid s = Some c"
  shows "update_fields oid us w s =
    (let r = (model_copy us c)\<lparr>or_updated_at := w, or_version := or_version c + 1\<rparr>
     in (Inr r, put_order r s))"
  using assms update_order_next [of "(model_copy us c)\<lparr>or_updated_at := w, or_version := or_version c + 1\<rparr>" s c]
  by (simp add: update_fields_def eval_nat_numeral keyed_def Let_def)

lemma update_fields_unknown: "get_order oid s = None \<Longrightarrow> update_fields oid us w s = (Inl unknown_order, s)"
  by (simp add: update_fields_def eval_nat_numeral)

subsection \<open>The accounting invariant of an order\<close>

text \<open>
  Quantities are \<open>NUMERIC(38, 8)\<close> values (\<open>on_grid\<close>), so sums and differences are exact.
\<close>

definition order_inv :: "order_record \<Rightarrow> bool" where
  "order_inv r \<longleftrightarrow>
     valid_order_record r \<and> on_grid (or_requested_quantity r) \<and> on_grid (or_filled_quantity r) \<and>
     or_remaining_quantity r = or_requested_quantity r - or_filled_quantity r \<and>
     or_filled_quantity r \<le> or_requested_quantity r \<and>
     (or_state r \<in> {OS_CANDIDATE, OS_RISK_REJECTED, OS_APPROVED, OS_ORDER_INTENT, OS_SUBMITTED,
        OS_ACKNOWLEDGED} \<longrightarrow> or_filled_quantity r = 0) \<and>
     (or_state r = OS_PARTIALLY_FILLED \<longrightarrow>
        0 < or_filled_quantity r \<and> or_filled_quantity r < or_requested_quantity r) \<and>
     (or_state r = OS_FILLED \<longrightarrow> or_filled_quantity r = or_requested_quantity r) \<and>
     (or_state r \<notin> {OS_CANDIDATE, OS_RISK_REJECTED, OS_APPROVED} \<longrightarrow> or_venue r \<noteq> None) \<and>
     (0 < or_filled_quantity r \<longrightarrow> or_average_fill_price r \<noteq> None)"

text \<open>The validators of the shape follow from the accounting clauses.\<close>

lemma order_inv_iff:
  "order_inv r \<longleftrightarrow>
     or_strategy_id r \<noteq> [] \<and> or_strategy_version r \<noteq> [] \<and> or_instrument_id r \<noteq> [] \<and>
     0 < or_requested_quantity r \<and> 0 \<le> or_filled_quantity r \<and>
     opt_pos (or_average_fill_price r) \<and> opt_nonempty (or_venue_order_id r) \<and>
     opt_nonempty (or_venue_position_id r) \<and> 0 \<le> or_commission r \<and> 0 \<le> or_fees r \<and>
     0 \<le> or_last_event_sequence r \<and> 1 \<le> or_version r \<and>
     on_grid (or_requested_quantity r) \<and> on_grid (or_filled_quantity r) \<and>
     or_remaining_quantity r = or_requested_quantity r - or_filled_quantity r \<and>
     or_filled_quantity r \<le> or_requested_quantity r \<and>
     (or_state r \<in> {OS_CANDIDATE, OS_RISK_REJECTED, OS_APPROVED, OS_ORDER_INTENT, OS_SUBMITTED,
        OS_ACKNOWLEDGED} \<longrightarrow> or_filled_quantity r = 0) \<and>
     (or_state r = OS_PARTIALLY_FILLED \<longrightarrow>
        0 < or_filled_quantity r \<and> or_filled_quantity r < or_requested_quantity r) \<and>
     (or_state r = OS_FILLED \<longrightarrow> or_filled_quantity r = or_requested_quantity r) \<and>
     (or_state r \<notin> {OS_CANDIDATE, OS_RISK_REJECTED, OS_APPROVED} \<longrightarrow> or_venue r \<noteq> None) \<and>
     (0 < or_filled_quantity r \<longrightarrow> or_average_fill_price r \<noteq> None)" (is "_ \<longleftrightarrow> ?R")
proof
  show "order_inv r \<Longrightarrow> ?R" by (simp add: order_inv_def valid_order_record_def)
next
  assume R: ?R
  let ?f = "or_filled_quantity r" and ?q = "or_requested_quantity r"
  have "on_grid (?q - ?f)" using R by (intro on_grid_diff_le) simp_all
  then have "dadd ?f (or_remaining_quantity r) = ?q" using R by simp
  moreover have "or_state r \<in> {OS_SUBMITTED, OS_ACKNOWLEDGED, OS_PARTIALLY_FILLED} \<longrightarrow>
      0 < or_remaining_quantity r" using R by auto
  moreover have "or_state r \<in> set live_order_states \<or> or_state r = OS_ORDER_INTENT \<longrightarrow>
      or_venue r \<noteq> None" using R by (auto simp: live_order_states_def)
  ultimately have "order_record_shape r" using R by (simp add: order_record_shape_def)
  with R show "order_inv r" by (simp add: order_inv_def valid_order_record_def)
qed

lemma order_invD:
  assumes "order_inv r"
  shows "or_strategy_id r \<noteq> []" "or_strategy_version r \<noteq> []" "or_instrument_id r \<noteq> []"
    "0 < or_requested_quantity r" "0 \<le> or_filled_quantity r"
    "opt_nonempty (or_venue_order_id r)" "opt_nonempty (or_venue_position_id r)"
    "0 \<le> or_commission r" "0 \<le> or_fees r" "0 \<le> or_last_event_sequence r" "1 \<le> or_version r"
    "on_grid (or_requested_quantity r)" "on_grid (or_filled_quantity r)"
    "or_remaining_quantity r = or_requested_quantity r - or_filled_quantity r"
    "or_filled_quantity r \<le> or_requested_quantity r"
    "or_state r \<notin> {OS_CANDIDATE, OS_RISK_REJECTED, OS_APPROVED} \<Longrightarrow> or_venue r \<noteq> None"
  using assms by (simp_all add: order_inv_iff)

definition orders_inv :: "exec_store \<Rightarrow> bool" where
  "orders_inv s \<longleftrightarrow> keyed s \<and> (\<forall>k r. get_order k s = Some r \<longrightarrow> order_inv r)"

lemma orders_inv_put: "orders_inv s \<Longrightarrow> order_inv r \<Longrightarrow> orders_inv (put_order r s)"
  by (simp add: orders_inv_def keyed_def)

text \<open>Updates of notes and venue identifiers do not touch the accounting.\<close>

fun harmless :: "field_update \<Rightarrow> bool" where
  "harmless (U_reject_reason _) = True"
| "harmless (U_reconciliation_note _) = True"
| "harmless (U_venue_order_id v) = (v \<noteq> [])"
| "harmless (U_venue_position_id v) = (v \<noteq> [])"
| "harmless _ = False"

lemma harmless_inv: "harmless u \<Longrightarrow> order_inv r \<Longrightarrow> order_inv (set_field u r)"
  by (cases u) (auto simp: order_inv_iff opt_nonempty_def)

lemma harmless_model_copy: "list_all harmless us \<Longrightarrow> order_inv r \<Longrightarrow> order_inv (model_copy us r)"
  by (induction us arbitrary: r) (simp_all add: model_copy_def harmless_inv)

lemma order_inv_stamps [simp]:
  "order_inv (stamp_time t w r) = order_inv r" "order_inv (stamp_opt ev r) = order_inv r"
  by (simp_all add: order_inv_iff)

lemma order_inv_next_version:
  "order_inv r \<Longrightarrow> order_inv (r\<lparr>or_updated_at := w, or_version := or_version r + 1\<rparr>)"
  by (simp add: order_inv_iff)

text \<open>A transition that is not a fill and keeps the quantities.\<close>

lemma state_change_inv:
  assumes "order_inv r" and "is_valid_order_transition (or_state r) t"
    and "t \<notin> {OS_PARTIALLY_FILLED, OS_FILLED, OS_ORDER_INTENT}"
  shows "order_inv (r\<lparr>or_state := t, or_updated_at := w, or_version := or_version r + 1\<rparr>)"
  using assms by (cases "or_state r") (auto simp: order_inv_iff transition_defs)

lemma advance_inv:
  assumes "order_inv r" and "is_valid_order_transition (or_state r) t"
    and "t \<notin> {OS_PARTIALLY_FILLED, OS_FILLED, OS_ORDER_INTENT}" and "list_all harmless us"
  shows "order_inv (advance r t w us)"
  unfolding advance_def using state_change_inv [OF assms(1-3)] assms(4)
  by (simp add: harmless_model_copy)

subsection \<open>Fills keep the accounting\<close>

definition fill_ok :: "fill_event \<Rightarrow> bool" where
  "fill_ok f \<longleftrightarrow> on_grid (fe_quantity f) \<and> 0 < fe_price f \<and> 0 \<le> fe_commission f \<and>
     opt_nonempty (fe_venue_order_id f) \<and> opt_nonempty (fe_venue_position_id f)"

text \<open>Two records that agree on what a fill reads.\<close>

definition same_account :: "order_record \<Rightarrow> order_record \<Rightarrow> bool" where
  "same_account a c \<longleftrightarrow>
     or_requested_quantity a = or_requested_quantity c \<and> or_filled_quantity a = or_filled_quantity c \<and>
     or_average_fill_price a = or_average_fill_price c \<and> or_commission a = or_commission c \<and>
     or_last_event_sequence a = or_last_event_sequence c"

lemma fill_cumulative_exact:
  assumes "order_inv c" and "fill_ok f" and "0 < fe_quantity f"
    and "\<not> or_requested_quantity c < fill_cumulative c f"
  shows "fill_cumulative c f = or_filled_quantity c + fe_quantity f" and "on_grid (fill_cumulative c f)"
proof -
  show eq: "fill_cumulative c f = or_filled_quantity c + fe_quantity f"
    using assms(1,2) by (simp add: fill_cumulative_def order_inv_iff fill_ok_def)
  show "on_grid (fill_cumulative c f)"
    unfolding eq using assms(1-3) assms(4) [unfolded eq]
    by (intro on_grid_add_le [of _ _ "or_requested_quantity c"]) (auto simp: order_inv_iff fill_ok_def)
qed

lemma fill_average_pos:
  assumes "order_inv c" and "fill_ok f" and "0 < fe_quantity f"
  shows "0 < fill_average c f"
proof (cases "0 < or_filled_quantity c")
  case True
  then obtain a where a: "or_average_fill_price c = Some a" "0 < a"
    using assms(1) by (auto simp: order_inv_iff opt_pos_def)
  have "0 < dadd (dmul a (or_filled_quantity c)) (dmul (fe_price f) (fe_quantity f))"
    using True a assms by (intro dadd_pos dmul_pos) (simp_all add: fill_ok_def)
  moreover have "0 < fill_cumulative c f" unfolding fill_cumulative_def using True assms(3) by (rule dadd_pos)
  ultimately show ?thesis using True a by (simp add: fill_average_def ddiv_nz_def)
next
  case False
  with assms(2) show ?thesis by (simp add: fill_average_def fill_ok_def)
qed

lemma opt_update_fold:
  "fold set_field (opt_update U_venue_order_id v) r =
     (case v of None \<Rightarrow> r | Some x \<Rightarrow> r\<lparr>or_venue_order_id := Some x\<rparr>)"
  "fold set_field (opt_update U_venue_position_id v) r =
     (case v of None \<Rightarrow> r | Some x \<Rightarrow> r\<lparr>or_venue_position_id := Some x\<rparr>)"
  "fold set_field (opt_update U_slippage q) r =
     (case q of None \<Rightarrow> r | Some x \<Rightarrow> r\<lparr>or_slippage := Some x\<rparr>)"
  by (simp_all add: opt_update_def split: option.split)

text \<open>The record after the fill's updates, field by field.\<close>

lemma fill_advance_fields [simp]:
  "or_strategy_id (advance a t w (fill_updates c f)) = or_strategy_id a"
  "or_strategy_version (advance a t w (fill_updates c f)) = or_strategy_version a"
  "or_instrument_id (advance a t w (fill_updates c f)) = or_instrument_id a"
  "or_venue (advance a t w (fill_updates c f)) = or_venue a"
  "or_requested_quantity (advance a t w (fill_updates c f)) = or_requested_quantity a"
  "or_filled_quantity (advance a t w (fill_updates c f)) = fill_cumulative c f"
  "or_remaining_quantity (advance a t w (fill_updates c f)) =
     dsub (or_requested_quantity c) (fill_cumulative c f)"
  "or_average_fill_price (advance a t w (fill_updates c f)) = Some (fill_average c f)"
  "or_commission (advance a t w (fill_updates c f)) = dadd (or_commission c) (fe_commission f)"
  "or_fees (advance a t w (fill_updates c f)) = or_fees a"
  "or_last_event_sequence (advance a t w (fill_updates c f)) =
     max (or_last_event_sequence c) (fe_sequence f)"
  "or_venue_order_id (advance a t w (fill_updates c f)) =
     (case fe_venue_order_id f of None \<Rightarrow> or_venue_order_id a | Some v \<Rightarrow> Some v)"
  "or_venue_position_id (advance a t w (fill_updates c f)) =
     (case fe_venue_position_id f of None \<Rightarrow> or_venue_position_id a | Some v \<Rightarrow> Some v)"
  by (simp_all add: advance_def model_copy_def fill_updates_def opt_update_fold split: option.split)

lemma fill_advance_inv:
  assumes c: "order_inv c" and a: "order_inv a" "same_account a c"
    and st: "or_state a \<in> {OS_ACKNOWLEDGED, OS_PARTIALLY_FILLED}"
    and f: "fill_ok f" "0 < fe_quantity f" and le: "\<not> or_requested_quantity c < fill_cumulative c f"
  shows "order_inv (advance a (fill_target c f) w (fill_updates c f))"
proof -
  note cum = fill_cumulative_exact [OF c f le]
  have avg: "0 < fill_average c f" by (rule fill_average_pos [OF c f])
  have com: "0 \<le> dadd (or_commission c) (fe_commission f)"
    using c f by (simp add: dadd_def order_inv_iff fill_ok_def)
  have rem: "dsub (or_requested_quantity c) (fill_cumulative c f) =
      or_requested_quantity c - fill_cumulative c f"
    using c cum(2) by (simp add: order_inv_iff)
  have pos: "0 < fill_cumulative c f" using cum(1) c f by (simp add: order_inv_iff)
  have ids: "opt_nonempty (case fe_venue_order_id f of None \<Rightarrow> or_venue_order_id a | Some v \<Rightarrow> Some v)"
    "opt_nonempty (case fe_venue_position_id f of None \<Rightarrow> or_venue_position_id a | Some v \<Rightarrow> Some v)"
    using order_invD(6,7) [OF a(1)] f(1) by (auto simp: fill_ok_def split: option.split)
  have A: "or_strategy_id a \<noteq> []" "or_strategy_version a \<noteq> []" "or_instrument_id a \<noteq> []"
    "0 < or_requested_quantity a" "on_grid (or_requested_quantity a)" "0 \<le> or_fees a"
    "1 \<le> or_version a" "or_venue a \<noteq> None" "0 \<le> or_last_event_sequence c"
    "or_requested_quantity a = or_requested_quantity c"
    using order_invD [OF a(1)] order_invD(10) [OF c] a(2) st by (auto simp: same_account_def)
  show ?thesis
    unfolding order_inv_iff
    using A ids cum(2) avg com rem pos le by (auto simp: fill_target_def opt_pos_def)
qed

lemma filter_fill_updates [simp]:
  "filter is_venue_order_update (fill_updates c f) = opt_update U_venue_order_id (fe_venue_order_id f)"
  by (simp add: fill_updates_def opt_update_def split: option.split)

lemma fill_updates_harmless: "fill_ok f \<Longrightarrow> list_all harmless (opt_update U_venue_order_id (fe_venue_order_id f))"
  by (simp add: fill_ok_def opt_update_def opt_nonempty_def split: option.splits)

lemma ack_same_account: "same_account (advance c OS_ACKNOWLEDGED w (opt_update U_venue_order_id v)) c"
  by (simp add: same_account_def advance_def model_copy_def opt_update_def split: option.split)

text \<open>
  The outcome of a fill that is neither a duplicate nor refused: one write, or two with the
  synthesized acknowledgement.
\<close>

lemma record_fill_run:
  assumes inv: "orders_inv s" and c: "get_order oid s = Some c" and f: "fill_ok f"
  shows "record_fill oid f w s =
    (if fe_quantity f \<le> 0 then (Inl (ValueError ''fill quantity must be positive''), s)
     else if or_state c \<in> {OS_CANCELLED, OS_REJECTED, OS_RECONCILED, OS_CLOSED, OS_REVIEWED}
     then (Inl (ExecutionDivergenceError IDENTIFIER_MISMATCH oid), s)
     else if already_processed (fe_event_id f) c then (Inr c, s)
     else if or_requested_quantity c < fill_cumulative c f
     then (Inl (ExecutionDivergenceError OVERFILL oid), s)
     else if or_state c \<in> {OS_ACKNOWLEDGED, OS_PARTIALLY_FILLED} then
       (let r = stamp_opt (fe_event_id f) (advance c (fill_target c f) w (fill_updates c f))
        in (Inr r, put_order r s))
     else if or_state c = OS_SUBMITTED then
       (let acked = advance c OS_ACKNOWLEDGED w (opt_update U_venue_order_id (fe_venue_order_id f));
            r = stamp_opt (fe_event_id f) (advance acked (fill_target c f) w (fill_updates c f))
        in (Inr r, put_order r (put_order acked s)))
     else (Inl (InvalidStateTransition (or_state c) (fill_target c f)), s))"
proof -
  have key: "keyed s" using inv by (simp add: orders_inv_def)
  have t: "fill_target c f \<in> {OS_PARTIALLY_FILLED, OS_FILLED}" by (simp add: fill_target_def)
  then have v: "is_valid_order_transition (or_state c) (fill_target c f) \<longleftrightarrow>
      or_state c \<in> {OS_ACKNOWLEDGED, OS_PARTIALLY_FILLED}"
    by (cases "or_state c") (auto simp: transition_defs)
  show ?thesis
    using c t v by (simp add: record_fill_def apply_order_run [OF key c] Let_def)
qed

lemma record_fill_inv:
  assumes inv: "orders_inv s" and f: "fill_ok f"
  shows "orders_inv (snd (record_fill oid f w s))"
proof (cases "get_order oid s")
  case None
  then show ?thesis using inv by (simp add: record_fill_def)
next
  case (Some c)
  have c: "order_inv c" using inv Some by (simp add: orders_inv_def)
  have ack: "order_inv (advance c OS_ACKNOWLEDGED w (opt_update U_venue_order_id (fe_venue_order_id f)))"
    if "or_state c = OS_SUBMITTED"
    by (rule advance_inv [OF c _ _ fill_updates_harmless [OF f]]) (simp_all add: that transition_defs)
  show ?thesis
    unfolding record_fill_run [OF inv Some f]
    by (auto simp: inv Let_def not_le ack_same_account same_account_def [of c c]
        intro!: orders_inv_put inv fill_advance_inv ack c f)
qed

subsection \<open>The invariant over every operation\<close>

lemma apply_order_inv:
  assumes inv: "orders_inv s" and t: "t \<notin> {OS_PARTIALLY_FILLED, OS_FILLED, OS_ORDER_INTENT}"
    and us: "list_all harmless us"
  shows "orders_inv (snd (apply_order oid t ev us w s))"
proof (cases "get_order oid s")
  case None
  then show ?thesis using inv by (simp add: apply_order_unknown)
next
  case (Some c)
  have "keyed s" and c: "order_inv c" using inv Some by (simp_all add: orders_inv_def)
  then show ?thesis
    using t by (auto simp: apply_order_run [OF _ Some] inv intro!: orders_inv_put advance_inv us)
qed

lemma update_fields_inv:
  assumes inv: "orders_inv s" and us: "list_all harmless us"
  shows "orders_inv (snd (update_fields oid us w s))"
proof (cases "get_order oid s")
  case None
  then show ?thesis using inv by (simp add: update_fields_unknown)
next
  case (Some c)
  have key: "keyed s" and c: "order_inv c" using inv Some by (simp_all add: orders_inv_def)
  have "order_inv ((model_copy us c)\<lparr>or_updated_at := w, or_version := or_version c + 1\<rparr>)"
    using order_inv_next_version [OF harmless_model_copy [OF us c]] by simp
  then show ?thesis by (simp add: update_fields_run [OF key Some] Let_def orders_inv_put inv)
qed

lemma save_new_inv:
  assumes inv: "orders_inv s" and r: "valid_order_record r \<Longrightarrow> order_inv r"
  shows "orders_inv (snd (save_new r s))"
proof (cases "save_new r s")
  case (Pair res s')
  show ?thesis
  proof (cases "valid_order_record r")
    case False
    then show ?thesis using inv by (simp add: save_new_def construct_order_def)
  next
    case True
    then have "save_new r s = save_order r s" by (simp add: save_new_def construct_order_def)
    then show ?thesis
      using inv r [OF True]
      by (auto simp: save_order_def orders_inv_def keyed_def get_order_def split: option.split)
  qed
qed

lemma new_record_inv:
  assumes "on_grid q" and "valid_order_record (new_record oid st sid sv ins venue side ot q w)"
    and "st = OS_CANDIDATE \<or> st = OS_ORDER_INTENT \<and> venue \<noteq> None"
  shows "order_inv (new_record oid st sid sv ins venue side ot q w)"
  using assms by (auto simp: order_inv_def new_record_def valid_order_record_def)

text \<open>The record that \<open>record_order_intent\<close> writes over an approved candidate.\<close>

lemma order_intent_inv:
  assumes "order_inv c" and "is_valid_order_transition (or_state c) OS_ORDER_INTENT"
    and "valid_order_intent i" and "on_grid (oi_quantity i)"
  shows "order_inv (advance c OS_ORDER_INTENT w
    [U_strategy_id (oi_strategy_id i), U_strategy_version (oi_strategy_version i),
     U_instrument_id (oi_instrument_id i), U_venue venue, U_side (oi_side i),
     U_order_type (oi_order_type i), U_requested_quantity (oi_quantity i),
     U_remaining_quantity (oi_quantity i)])"
proof -
  have "or_state c = OS_APPROVED" using assms(2) by (cases "or_state c") (auto simp: transition_defs)
  then have "or_filled_quantity c = 0" using assms(1) by (simp add: order_inv_iff)
  with assms(1,3,4) show ?thesis
    by (simp add: order_inv_iff advance_def model_copy_def valid_order_intent_def)
qed

lemma record_order_intent_inv:
  assumes inv: "orders_inv s" and i: "valid_order_intent i" "on_grid (oi_quantity i)"
  shows "orders_inv (snd (record_order_intent i venue w s))"
proof (cases "get_order (oi_order_intent_id i) s")
  case None
  then show ?thesis
    using inv i by (auto simp: record_order_intent_def intro!: save_new_inv new_record_inv)
next
  case (Some c)
  have key: "keyed s" and c: "order_inv c" using inv Some by (simp_all add: orders_inv_def)
  show ?thesis
    using Some inv i c
    by (auto simp: record_order_intent_def apply_order_run [OF key Some]
        intro!: orders_inv_put order_intent_inv)
qed

text \<open>Inputs that satisfy the contracts of the layers above the applier.\<close>

primrec op_ok :: "applier_op \<Rightarrow> bool" where
  "op_ok (RecordCandidate oid sid sv ins side ot q) = on_grid q"
| "op_ok (RecordRiskRejected oid reason) = True"
| "op_ok (RecordApproved oid) = True"
| "op_ok (RecordOrderIntent intent venue) = (valid_order_intent intent \<and> on_grid (oi_quantity intent))"
| "op_ok (RecordSubmitted oid) = True"
| "op_ok (RecordAcknowledged oid void ev) = opt_nonempty void"
| "op_ok (RecordCancelled oid ev note) = True"
| "op_ok (RecordRejected oid reason ev) = True"
| "op_ok (RecordPartialFill oid f) = fill_ok f"
| "op_ok (RecordFill oid f) = fill_ok f"
| "op_ok (HealAcknowledged oid note) = True"
| "op_ok (HealFill oid pid q p note) = (pid \<noteq> [] \<and> on_grid q \<and> 0 < p)"
| "op_ok (AdoptPosition oid pid note) = (pid \<noteq> [])"
| "op_ok (MarkReconciled oid note) = True"
| "op_ok (RecordClosed oid note) = True"
| "op_ok (RecordReviewed oid) = True"

lemma opt_update_harmless:
  "opt_nonempty v \<Longrightarrow> list_all harmless (opt_update U_venue_order_id v)"
  "list_all harmless (opt_update U_reconciliation_note note)"
  by (simp_all add: opt_update_def opt_nonempty_def split: option.splits)

lemma heal_fill_inv:
  assumes inv: "orders_inv s" and "pid \<noteq> []" "on_grid q" "0 < p"
  shows "orders_inv (snd (heal_fill oid pid q p note w s))"
proof -
  let ?f = "\<lparr>fe_event_id = None, fe_sequence = 0, fe_quantity = q, fe_price = p,
    fe_venue_order_id = None, fe_venue_position_id = Some pid, fe_commission = 0, fe_slippage = None\<rparr>"
  have "orders_inv (snd (record_fill oid ?f w s))"
    using inv assms(2-4) by (intro record_fill_inv) (simp_all add: fill_ok_def opt_nonempty_def)
  then show ?thesis
    using update_fields_inv [of "snd (record_fill oid ?f w s)" "[U_reconciliation_note note]" oid w]
    by (cases "record_fill oid ?f w s") (auto simp: heal_fill_def seq_run split: sum.split)
qed

lemma run_applier_op_inv:
  assumes inv: "orders_inv s" and opn: "op_ok opn"
  shows "orders_inv (snd (run_applier_op opn w s))"
  using opn inv
  by (cases opn)
    (auto simp: record_candidate_def record_risk_rejected_def record_approved_def
      record_submitted_def record_acknowledged_def record_cancelled_def record_rejected_def
      record_partial_fill_def heal_acknowledged_def adopt_position_def mark_reconciled_def
      record_closed_def record_reviewed_def fill_ok_def opt_nonempty_def opt_update_harmless
      split: option.split
      intro!: apply_order_inv update_fields_inv save_new_inv new_record_inv record_order_intent_inv
        record_fill_inv heal_fill_inv)

lemma run_applier_ops_inv:
  "orders_inv s \<Longrightarrow> list_all (\<lambda>(opn, w). op_ok opn) ops \<Longrightarrow> orders_inv (run_applier_ops ops s)"
  by (induction ops arbitrary: s) (auto simp: run_applier_ops_def run_applier_op_inv)

end
