(* ===== verification/Applier_Properties.thy ===== *)
theory Applier_Properties
  imports Applier
begin

text \<open>
  What the applier promises (\<^verbatim>\<open>engines/execution/applier.py\<close>): orders only move along the
  canonical lifecycle, also under concurrent writers; the accounting of every record stays
  valid; fills are counted exactly once; contradictory reports are refused without a write.
  The last section has two concrete runs in which the documented duplicate protection and the
  protection against concurrent fills do not hold.
\<close>

subsection \<open>Lifecycle\<close>

lemma order_edges_states: "order_edge\<^sup>*\<^sup>* a b \<Longrightarrow> is_valid_order_transition\<^sup>*\<^sup>* (or_state a) (or_state b)"
  by (induction rule: rtranclp_induct)
    (auto simp: order_edge_def intro: rtranclp.rtrancl_into_rtrancl)

lemma keyed_empty: "keyed empty_store"
  by (simp add: keyed_def get_order_def empty_store_def)

text \<open>
  C18: orders only move along the canonical state machine. Whatever operations of the applier
  run, in whatever order and with whatever outcomes, an order that is in the store stays in
  it, its version never decreases, and its state is reached by valid transitions of
  \<open>ORDER_STATE_TRANSITIONS\<close> from the state it had before.
\<close>

theorem applier_follows_lifecycle:
  assumes "get_order oid (run_applier_ops ops1 empty_store) = Some c"
  shows "\<exists>c'. get_order oid (run_applier_ops ops2 (run_applier_ops ops1 empty_store)) = Some c' \<and>
    is_valid_order_transition\<^sup>*\<^sup>* (or_state c) (or_state c') \<and>
    or_version c \<le> or_version c' \<and> (or_version c = or_version c' \<longrightarrow> c' = c)"
proof -
  have "keyed (run_applier_ops ops1 empty_store)"
    using run_applier_ops_evolves [OF keyed_empty] keyed_empty by (rule evolves_keyed)
  from run_applier_ops_evolves [OF this, of ops2] assms
  obtain c' where "get_order oid (run_applier_ops ops2 (run_applier_ops ops1 empty_store)) = Some c'"
    and e: "order_edge\<^sup>*\<^sup>* c c'" by (auto simp: evolves_def)
  then show ?thesis
    using order_edges_states [OF e] order_edges_version [OF e] order_edges_same_version [OF e] by auto
qed

definition example_candidate :: applier_op where
  "example_candidate = RecordCandidate 5 ''trend'' ''1'' ''EURUSD'' BUY MARKET 2"

theorem applier_follows_lifecycle_witness:
  "is_valid_order_transition\<^sup>*\<^sup>* OS_CANDIDATE OS_APPROVED \<and>
   map_option or_state (get_order 5 (run_applier_ops [(RecordApproved 5, 101)]
     (run_applier_ops [(example_candidate, 100)] empty_store))) = Some OS_APPROVED"
proof -
  have a: "map_option or_state (get_order 5 (run_applier_ops [(example_candidate, 100)] empty_store)) =
      Some OS_CANDIDATE" by code_simp
  then obtain c where c: "get_order 5 (run_applier_ops [(example_candidate, 100)] empty_store) = Some c"
    "or_state c = OS_CANDIDATE" by auto
  have b: "map_option or_state (get_order 5 (run_applier_ops [(RecordApproved 5, 101)]
      (run_applier_ops [(example_candidate, 100)] empty_store))) = Some OS_APPROVED" by code_simp
  from applier_follows_lifecycle [OF c(1), of "[(RecordApproved 5, 101)]"] b c(2) show ?thesis by auto
qed

lemma apply_loop_result:
  assumes rely: "\<And>n s. keyed s \<Longrightarrow> evolves s (others n s)"
  shows "keyed s \<Longrightarrow> apply_loop others n oid t ev us w s = (Inr r, s') \<Longrightarrow> get_order oid s' = Some r"
proof (induction n arbitrary: s)
  case 0
  then show ?case by (simp add: apply_loop.simps)
next
  case (Suc n)
  obtain c where c: "get_order oid s = Some c"
    using Suc.prems by (cases "get_order oid s") (simp_all add: apply_loop.simps)
  have oid: "or_order_intent_id c = oid" using c Suc.prems(1) by (simp add: keyed_def)
  have key: "keyed t'" if "update_order x (or_version c) (others n s) = (res, t')" and "order_edge c x"
    for x res t'
    using attempt_evolves [OF c Suc.prems(1) rely [OF Suc.prems(1)] that(2,1)] Suc.prems(1)
    by (rule evolves_keyed)
  show ?case
  proof (cases "is_valid_order_transition (or_state c) t")
    case True
    note edge = advance_edge(1) [OF True, of ev w us]
    show ?thesis
      using Suc.prems(2) c True Suc.IH key [OF _ edge] oid mem.cas_read_back
      by (auto simp: apply_loop.simps transition_valid split: if_splits prod.splits sum.splits
          dest: mem.cas_ok)
  next
    case False
    show ?thesis
    proof (cases "t \<in> {OS_PARTIALLY_FILLED, OS_FILLED} \<and> or_state c = OS_SUBMITTED")
      case True
      then have v: "is_valid_order_transition (or_state c) OS_ACKNOWLEDGED" by (simp add: transition_defs)
      note edge = advance_edge(2) [OF v, of w "filter is_venue_order_update us"]
      show ?thesis
        using Suc.prems(2) c False True Suc.IH key [OF _ edge]
        by (auto simp: apply_loop.simps transition_valid [OF v] split: if_splits prod.splits sum.splits)
    next
      case nack: False
      then show ?thesis using Suc.prems(2) c False by (auto simp: apply_loop.simps split: if_splits)
    qed
  qed
qed

text \<open>
  C19: safety under concurrent writers. Let other writers change the store between the read
  and the compare-and-set of every attempt, as long as they too only move orders along the
  lifecycle with growing versions. Then the retry loop of \<open>_apply\<close> moves every order along
  the lifecycle as well, and the record it returns is the one that is in the store.
\<close>

theorem apply_safe_under_interference:
  assumes "\<forall>n s. keyed s \<longrightarrow> evolves s (others n s)" and "keyed s"
  shows "evolves s (snd (apply_loop others attempts oid target event_id updates when s)) \<and>
    (\<forall>r. fst (apply_loop others attempts oid target event_id updates when s) = Inr r \<longrightarrow>
      get_order oid (snd (apply_loop others attempts oid target event_id updates when s)) = Some r)"
  using apply_loop_evolves [of others s] apply_loop_result [of others s] assms
  by (metis prod.collapse)

lemma keyed_example: "keyed example_store"
  by (auto simp: keyed_def get_order_def example_store_def example_order_def)

theorem apply_safe_under_interference_witness:
  "evolves example_store (snd (apply_loop (\<lambda>n s. if n = 3 then snd (record_acknowledged 5 None None 9 s)
     else s) 4 5 OS_CANCELLED None [] 10 example_store))"
proof -
  have "\<forall>n s. keyed s \<longrightarrow> evolves s (if n = 3 then snd (record_acknowledged 5 None None 9 s) else s)"
    using run_applier_op_evolves [of _ "RecordAcknowledged 5 None None" 9] by simp
  from apply_safe_under_interference [OF this keyed_example] show ?thesis by blast
qed

subsection \<open>Accounting\<close>

lemma orders_inv_empty: "orders_inv empty_store"
  using keyed_empty by (simp add: orders_inv_def get_order_def empty_store_def)

text \<open>
  C20: the accounting of an order is always consistent, although \<open>model_copy\<close> skips the
  validators. In every store that operations with well-formed inputs can produce, each record
  satisfies the contract of \<open>OrderRecord\<close>, filled plus remaining is the requested
  quantity, nothing is filled before the acknowledgement, \<open>PARTIALLY_FILLED\<close> means strictly
  between zero and the requested quantity, and \<open>FILLED\<close> means exactly the requested one.
\<close>

theorem order_accounting_invariant:
  assumes "list_all (\<lambda>(opn, w). op_ok opn) ops"
    and "get_order oid (run_applier_ops ops empty_store) = Some r"
  shows "valid_order_record r \<and>
    or_filled_quantity r + or_remaining_quantity r = or_requested_quantity r \<and>
    0 \<le> or_filled_quantity r \<and> or_filled_quantity r \<le> or_requested_quantity r \<and>
    (or_state r \<in> {OS_CANDIDATE, OS_APPROVED, OS_ORDER_INTENT, OS_SUBMITTED, OS_ACKNOWLEDGED} \<longrightarrow>
       or_filled_quantity r = 0) \<and>
    (or_state r = OS_PARTIALLY_FILLED \<longrightarrow>
       0 < or_filled_quantity r \<and> or_filled_quantity r < or_requested_quantity r) \<and>
    (or_state r = OS_FILLED \<longrightarrow> or_filled_quantity r = or_requested_quantity r)"
proof -
  have "order_inv r"
    using run_applier_ops_inv [OF orders_inv_empty assms(1)] assms(2) by (simp add: orders_inv_def)
  then show ?thesis unfolding order_inv_def by (simp add: valid_order_record_def)
qed

definition example_fill :: "string \<Rightarrow> decimal \<Rightarrow> fill_event" where
  "example_fill event_id q = \<lparr>fe_event_id = Some event_id, fe_sequence = 1, fe_quantity = q,
     fe_price = 11 / 10, fe_venue_order_id = None, fe_venue_position_id = None, fe_commission = 0,
     fe_slippage = None\<rparr>"

definition example_intent :: order_intent where
  "example_intent = \<lparr>oi_order_intent_id = 5, oi_risk_decision_id = 7, oi_proposal_id = None,
     oi_strategy_id = ''trend'', oi_strategy_version = ''1'', oi_instrument_id = ''EURUSD'',
     oi_operating_mode = OM_PAPER, oi_side = BUY, oi_order_type = MARKET, oi_time_in_force = GTC,
     oi_quantity = 2, oi_price = None, oi_stop_loss = Some 1, oi_take_profit = None,
     oi_max_slippage = 0, oi_sequence = 0, oi_valid_until = None, oi_created_by = ''x'',
     oi_trace_id = None, oi_produced_at = 0\<rparr>"

definition example_ops :: "(applier_op \<times> instant) list" where
  "example_ops = [(RecordOrderIntent example_intent ''mt4'', 1), (RecordSubmitted 5, 2),
     (RecordFill 5 (example_fill ''a'' 1), 3)]"

lemma on_grid_int: "\<bar>k\<bar> \<le> 10 ^ 19 \<Longrightarrow> on_grid (of_int k)"
  by (rule on_gridI [of _ "k * 10 ^ 8"]) (simp_all add: abs_mult)

lemma example_ops_ok: "list_all (\<lambda>(opn, w). op_ok opn) example_ops"
  using on_grid_int [of 2] on_grid_int [of 1]
  by (simp add: example_ops_def example_intent_def example_fill_def fill_ok_def opt_nonempty_def
      valid_order_intent_def opt_pos_def allows_order_submission_def)

theorem order_accounting_invariant_witness:
  "\<exists>r. get_order 5 (run_applier_ops example_ops empty_store) = Some r \<and>
     or_state r = OS_PARTIALLY_FILLED \<and> or_filled_quantity r < or_requested_quantity r"
proof -
  have "map_option or_state (get_order 5 (run_applier_ops example_ops empty_store)) =
      Some OS_PARTIALLY_FILLED" by code_simp
  then obtain r where r: "get_order 5 (run_applier_ops example_ops empty_store) = Some r"
    "or_state r = OS_PARTIALLY_FILLED" by auto
  from order_accounting_invariant [OF example_ops_ok r(1)] r show ?thesis by auto
qed

subsection \<open>Fills\<close>

text \<open>
  One fill. On a live order, a new event whose quantity fits is applied exactly: the
  filled quantity grows by the quantity of the event, the remaining one shrinks by it, the
  order becomes \<open>FILLED\<close> exactly when nothing remains, the event is remembered, and an order
  that was still \<open>SUBMITTED\<close> passes through \<open>ACKNOWLEDGED\<close> (two versions).
\<close>

lemma fill_applied_exactly:
  assumes "orders_inv s" and "get_order oid s = Some c" and "fill_ok f" and "0 < fe_quantity f"
    and "or_state c \<in> set live_order_states" and "\<not> already_processed (fe_event_id f) c"
    and "or_filled_quantity c + fe_quantity f \<le> or_requested_quantity c"
  shows "\<exists>r. fst (record_fill oid f now s) = Inr r \<and>
    get_order oid (snd (record_fill oid f now s)) = Some r \<and>
    or_filled_quantity r = or_filled_quantity c + fe_quantity f \<and>
    or_remaining_quantity r = or_remaining_quantity c - fe_quantity f \<and>
    or_state r = (if or_remaining_quantity r = 0 then OS_FILLED else OS_PARTIALLY_FILLED) \<and>
    or_version r = or_version c + (if or_state c = OS_SUBMITTED then 2 else 1) \<and>
    already_processed (fe_event_id f) r = (fe_event_id f \<noteq> None)"
proof -
  have c: "order_inv c" and oid: "or_order_intent_id c = oid"
    using assms(1,2) by (simp_all add: orders_inv_def keyed_def)
  have cum: "fill_cumulative c f = or_filled_quantity c + fe_quantity f"
    using order_invD(13) [OF c] assms(3) by (simp add: fill_cumulative_def fill_ok_def)
  then have le: "\<not> or_requested_quantity c < fill_cumulative c f" using assms(7) by simp
  have rem: "dsub (or_requested_quantity c) (or_filled_quantity c + fe_quantity f) =
      or_requested_quantity c - or_filled_quantity c - fe_quantity f"
    using fill_cumulative_exact(2) [OF c assms(3,4) le] order_invD(12) [OF c] unfolding cum by simp
  have mem: "already_processed ev (stamp_opt ev x) = (ev \<noteq> None)" for ev x
    by (auto simp: already_processed_def stamp_opt_def stamp_event_def keep_last_def
        max_processed_event_ids_def split: option.split)
  have "\<not> fe_quantity f \<le> 0" using assms(4) by simp
  then show ?thesis
    using assms(5,6) le order_invD(14) [OF c]
    unfolding record_fill_run [OF assms(1,2,3)]
    by (auto simp: live_order_states_def Let_def oid cum rem mem fill_target_def)
qed

lemma example_store_inv: "orders_inv example_store"
proof -
  have "order_inv example_order"
    using on_grid_int [of 2]
    by (simp add: order_inv_iff example_order_def opt_pos_def opt_nonempty_def)
  then show ?thesis
    using keyed_example by (auto simp: orders_inv_def get_order_def example_store_def split: if_splits)
qed

lemma example_store_get: "get_order 5 example_store = Some example_order"
  by (simp add: get_order_def example_store_def)

lemma fill_applied_exactly_witness:
  "\<exists>r. get_order 5 (snd (record_fill 5 (example_fill ''a'' 2) 9 example_store)) = Some r \<and>
     or_filled_quantity r = 2 \<and> or_state r = OS_FILLED \<and> or_version r = 4"
proof -
  have ok: "fill_ok (example_fill ''a'' 2)"
    using on_grid_int [of 2] by (simp add: fill_ok_def example_fill_def opt_nonempty_def)
  have "0 < fe_quantity (example_fill ''a'' 2)" "or_state example_order \<in> set live_order_states"
    "\<not> already_processed (fe_event_id (example_fill ''a'' 2)) example_order"
    "or_filled_quantity example_order + fe_quantity (example_fill ''a'' 2)
       \<le> or_requested_quantity example_order"
    by (simp_all add: example_fill_def example_order_def live_order_states_def already_processed_def)
  from fill_applied_exactly [OF example_store_inv example_store_get ok this, of 9]
  show ?thesis by (auto simp: example_order_def example_fill_def)
qed

text \<open>
  Contradictory reports are refused without a write. A fill of a cancelled, rejected,
  reconciled, closed or reviewed order, a fill beyond the requested quantity, a non-positive
  fill and a fill of an order that was never submitted each raise their exception and leave
  the store as it was.
\<close>

lemma contradictory_fill_refused:
  assumes "orders_inv s" and "get_order oid s = Some c" and "fill_ok f"
  shows "(fe_quantity f \<le> 0 \<longrightarrow>
      record_fill oid f now s = (Inl (ValueError ''fill quantity must be positive''), s)) \<and>
    (0 < fe_quantity f \<and> or_state c \<in> {OS_CANCELLED, OS_REJECTED, OS_RECONCILED, OS_CLOSED, OS_REVIEWED} \<longrightarrow>
      record_fill oid f now s = (Inl (ExecutionDivergenceError IDENTIFIER_MISMATCH oid), s)) \<and>
    (0 < fe_quantity f \<and> or_state c \<in> {OS_SUBMITTED, OS_ACKNOWLEDGED, OS_PARTIALLY_FILLED, OS_FILLED} \<and>
     \<not> already_processed (fe_event_id f) c \<and>
     or_requested_quantity c < or_filled_quantity c + fe_quantity f \<longrightarrow>
      record_fill oid f now s = (Inl (ExecutionDivergenceError OVERFILL oid), s)) \<and>
    (0 < fe_quantity f \<and> or_state c \<in> {OS_CANDIDATE, OS_RISK_REJECTED, OS_APPROVED, OS_ORDER_INTENT} \<and>
     \<not> already_processed (fe_event_id f) c \<longrightarrow>
      snd (record_fill oid f now s) = s \<and> isl (fst (record_fill oid f now s)))"
proof -
  have c: "order_inv c" using assms(1,2) by (simp add: orders_inv_def)
  have cum: "fill_cumulative c f = or_filled_quantity c + fe_quantity f"
    using order_invD(13) [OF c] assms(3) by (simp add: fill_cumulative_def fill_ok_def)
  show ?thesis unfolding record_fill_run [OF assms] cum by (auto simp: Let_def)
qed

lemma contradictory_fill_refused_witness:
  "record_fill 5 (example_fill ''a'' 3) 9 example_store =
     (Inl (ExecutionDivergenceError OVERFILL 5), example_store)"
proof -
  have ok: "fill_ok (example_fill ''a'' 3)"
    using on_grid_int [of 3] by (simp add: fill_ok_def example_fill_def opt_nonempty_def)
  show ?thesis
    using contradictory_fill_refused [OF example_store_inv example_store_get ok, of 9]
    by (simp add: example_order_def example_fill_def already_processed_def)
qed

text \<open>
  The deliveries that a consumer should count: the first one of every event id that is not
  among the ids already seen.
\<close>

primrec first_deliveries :: "string option set \<Rightarrow> fill_event list \<Rightarrow> fill_event list" where
  "first_deliveries seen [] = []"
| "first_deliveries seen (f # fs) =
     (if fe_event_id f \<in> seen then first_deliveries seen fs
      else f # first_deliveries (insert (fe_event_id f) seen) fs)"

lemma first_deliveries_nonneg:
  "(\<And>f. f \<in> set fs \<Longrightarrow> 0 < fe_quantity f) \<Longrightarrow>
   0 \<le> sum_list (map fe_quantity (first_deliveries seen fs))"
  by (induction fs arbitrary: seen) (auto simp: less_imp_le)

definition deliver_fills :: "uuid \<Rightarrow> fill_event list \<Rightarrow> instant \<Rightarrow> exec_store \<Rightarrow> exec_store" where
  "deliver_fills oid fs now s = fold (\<lambda>f s. snd (record_fill oid f now s)) fs s"

text \<open>One delivery on a live or filled order: a duplicate changes nothing, a new event is stamped.\<close>

lemma fill_delivery:
  assumes inv: "orders_inv s" and c: "get_order oid s = Some c" and f: "fill_ok f" "0 < fe_quantity f"
    and ev: "fe_event_id f = Some e"
    and st: "or_state c \<in> {OS_SUBMITTED, OS_ACKNOWLEDGED, OS_PARTIALLY_FILLED, OS_FILLED}"
  shows "e \<in> set (or_processed_event_ids c) \<Longrightarrow> snd (record_fill oid f now s) = s"
    and "e \<notin> set (or_processed_event_ids c) \<Longrightarrow>
      or_filled_quantity c + fe_quantity f \<le> or_requested_quantity c \<Longrightarrow>
      length (or_processed_event_ids c) < max_processed_event_ids \<Longrightarrow>
      \<exists>r. get_order oid (snd (record_fill oid f now s)) = Some r \<and>
        or_filled_quantity r = or_filled_quantity c + fe_quantity f \<and>
        or_requested_quantity r = or_requested_quantity c \<and>
        or_state r \<in> {OS_PARTIALLY_FILLED, OS_FILLED} \<and>
        or_processed_event_ids r = or_processed_event_ids c @ [e]"
proof -
  have oi: "order_inv c" and oid: "or_order_intent_id c = oid"
    using inv c by (simp_all add: orders_inv_def keyed_def)
  have q: "\<not> fe_quantity f \<le> 0" using f(2) by simp
  have cum: "fill_cumulative c f = or_filled_quantity c + fe_quantity f"
    using order_invD(13) [OF oi] f(1) by (simp add: fill_cumulative_def fill_ok_def)
  show "snd (record_fill oid f now s) = s" if "e \<in> set (or_processed_event_ids c)"
    unfolding record_fill_run [OF inv c f(1)] using q st that by (auto simp: ev already_processed_def)
  assume new: "e \<notin> set (or_processed_event_ids c)"
    and le: "or_filled_quantity c + fe_quantity f \<le> or_requested_quantity c"
    and room: "length (or_processed_event_ids c) < max_processed_event_ids"
  have "or_state c \<noteq> OS_FILLED" using le f(2) oi by (auto simp: order_inv_iff)
  moreover have "or_requested_quantity (advance c OS_ACKNOWLEDGED now (opt_update U_venue_order_id v))
      = or_requested_quantity c" for v
    by (simp add: advance_def model_copy_def opt_update_fold split: option.split)
  moreover have "or_processed_event_ids (stamp_opt (Some e) x) = or_processed_event_ids x @ [e]"
    if "or_processed_event_ids x = or_processed_event_ids c" for x
    using room that by (simp add: stamp_opt_def stamp_event_def keep_last_def)
  ultimately show "\<exists>r. get_order oid (snd (record_fill oid f now s)) = Some r \<and>
      or_filled_quantity r = or_filled_quantity c + fe_quantity f \<and>
      or_requested_quantity r = or_requested_quantity c \<and>
      or_state r \<in> {OS_PARTIALLY_FILLED, OS_FILLED} \<and>
      or_processed_event_ids r = or_processed_event_ids c @ [e]"
    unfolding record_fill_run [OF inv c f(1)] cum
    using q st new le by (auto simp: ev already_processed_def Let_def oid fill_target_def cum)
qed

lemma deliver_fills_counts:
  assumes "orders_inv s" and "get_order oid s = Some c"
    and "or_state c \<in> {OS_SUBMITTED, OS_ACKNOWLEDGED, OS_PARTIALLY_FILLED, OS_FILLED}"
    and "list_all (\<lambda>f. fill_ok f \<and> 0 < fe_quantity f \<and> fe_event_id f \<noteq> None) fs"
    and "length (or_processed_event_ids c) +
      length (first_deliveries (Some ` set (or_processed_event_ids c)) fs) \<le> max_processed_event_ids"
    and "or_filled_quantity c + sum_list (map fe_quantity
      (first_deliveries (Some ` set (or_processed_event_ids c)) fs)) \<le> or_requested_quantity c"
  shows "\<exists>r. get_order oid (deliver_fills oid fs now s) = Some r \<and>
    or_filled_quantity r = or_filled_quantity c + sum_list (map fe_quantity
      (first_deliveries (Some ` set (or_processed_event_ids c)) fs))"
  using assms
proof (induction fs arbitrary: s c)
  case Nil
  then show ?case by (simp add: deliver_fills_def)
next
  case (Cons f fs)
  obtain e where e: "fe_event_id f = Some e" and f: "fill_ok f" "0 < fe_quantity f"
    using Cons.prems(4) by auto
  let ?seen = "Some ` set (or_processed_event_ids c)"
  note step = fill_delivery [OF Cons.prems(1,2) f e Cons.prems(3), of now]
  have unfold: "deliver_fills oid (f # fs) now s = deliver_fills oid fs now (snd (record_fill oid f now s))"
    by (simp add: deliver_fills_def)
  show ?case
  proof (cases "e \<in> set (or_processed_event_ids c)")
    case True
    then show ?thesis using Cons.IH [OF Cons.prems(1-3)] Cons.prems(4-6) step(1) by (simp add: unfold e)
  next
    case False
    then have new: "fe_event_id f \<notin> ?seen" by (auto simp: e)
    have nonneg: "0 \<le> sum_list (map fe_quantity (first_deliveries S fs))" for S
      by (rule first_deliveries_nonneg) (use Cons.prems(4) in \<open>auto simp: list_all_iff\<close>)
    obtain r where r: "get_order oid (snd (record_fill oid f now s)) = Some r"
      "or_filled_quantity r = or_filled_quantity c + fe_quantity f"
      "or_requested_quantity r = or_requested_quantity c"
      "or_state r \<in> {OS_PARTIALLY_FILLED, OS_FILLED}"
      "or_processed_event_ids r = or_processed_event_ids c @ [e]"
      using step(2) [OF False] Cons.prems(5,6) new nonneg [of "insert (Some e) ?seen"] by (auto simp: e)
    have seen: "Some ` set (or_processed_event_ids r) = insert (fe_event_id f) ?seen" by (auto simp: r e)
    show ?thesis
      unfolding unfold
      using Cons.IH [OF record_fill_inv [OF Cons.prems(1) f(1)] r(1)] Cons.prems(4-6) r new
      by (auto simp: seen e add.assoc)
  qed
qed

text \<open>
  C21: fills are counted exactly once. Deliver any sequence of fill events, with repetitions
  and in any order, to a live order: the filled quantity grows by the sum over the first
  delivery of each event id, provided that the distinct events are at most 64 (the retained
  fingerprints) and do not exceed the requested quantity.
\<close>

theorem fills_counted_exactly_once:
  assumes "orders_inv s" and "get_order oid s = Some c" and "or_state c \<in> set live_order_states"
    and "or_processed_event_ids c = []"
    and "list_all (\<lambda>f. fill_ok f \<and> 0 < fe_quantity f \<and> fe_event_id f \<noteq> None) fs"
    and "length (first_deliveries {} fs) \<le> 64"
    and "or_filled_quantity c + sum_list (map fe_quantity (first_deliveries {} fs))
      \<le> or_requested_quantity c"
  shows "\<exists>r. get_order oid (deliver_fills oid fs now s) = Some r \<and>
    or_filled_quantity r =
      or_filled_quantity c + sum_list (map fe_quantity (first_deliveries {} fs))"
  using deliver_fills_counts [OF assms(1,2) _ assms(5), of now] assms(3,4,6,7)
  by (auto simp: max_processed_event_ids_def live_order_states_def)

theorem fills_counted_exactly_once_witness:
  "\<exists>r. get_order 5 (deliver_fills 5 [example_fill ''a'' 1, example_fill ''a'' 1, example_fill ''b'' 1,
      example_fill ''a'' 1] 9 example_store) = Some r \<and> or_filled_quantity r = 2"
proof -
  have ok: "fill_ok (example_fill e 1)" for e
    using on_grid_int [of 1] by (simp add: fill_ok_def example_fill_def opt_nonempty_def)
  have "or_state example_order \<in> set live_order_states" "or_processed_event_ids example_order = []"
    by (simp_all add: example_order_def live_order_states_def)
  from fills_counted_exactly_once [OF example_store_inv example_store_get this,
      of "[example_fill ''a'' 1, example_fill ''a'' 1, example_fill ''b'' 1, example_fill ''a'' 1]" 9]
  show ?thesis using ok by (simp add: example_order_def) (simp add: example_fill_def)
qed

text \<open>
  Late reports are no-ops. An acknowledgement after a fill, cancel or reject, a cancel or
  a reject after the end of the order, and a repeated submission return the stored record and
  write nothing.
\<close>

lemma late_reports_are_no_ops:
  assumes "get_order oid s = Some c"
  shows "(or_state c \<in> {OS_ACKNOWLEDGED, OS_PARTIALLY_FILLED, OS_FILLED, OS_CANCELLED, OS_REJECTED,
       OS_RECONCILED, OS_CLOSED, OS_REVIEWED} \<longrightarrow>
      record_acknowledged oid v ev now s = (Inr c, s)) \<and>
    (or_state c \<in> {OS_FILLED, OS_CANCELLED, OS_REJECTED, OS_RECONCILED, OS_CLOSED, OS_REVIEWED} \<longrightarrow>
      record_cancelled oid ev note now s = (Inr c, s) \<and>
      record_rejected oid reason ev now s = (Inr c, s)) \<and>
    (or_state c = OS_SUBMITTED \<longrightarrow> record_submitted oid now s = (Inr c, s))"
  using assms by (auto simp: record_acknowledged_def record_cancelled_def record_rejected_def
      record_submitted_def stale_ack_states_def)

lemma late_reports_are_no_ops_witness:
  "record_submitted 5 9 example_store = (Inr example_order, example_store)"
  using late_reports_are_no_ops [OF example_store_get, where now = 9] by (simp add: example_order_def)

subsection \<open>Two limits of the protection\<close>

text \<open>
  The fingerprints are bounded. On an order that has processed 64 events, a new event
  pushes out the oldest one, and the replay of that oldest event is counted a second time.
\<close>

lemma replay_after_64_events_counts_twice:
  "let c = example_order\<lparr>or_state := OS_PARTIALLY_FILLED, or_requested_quantity := 3,
           or_filled_quantity := 1, or_remaining_quantity := 2, or_average_fill_price := Some 1,
           or_processed_event_ids := ''old'' # replicate 63 ''f''\<rparr>;
       s = example_store\<lparr>es_orders := [(5, c)]\<rparr>
   in map_option or_filled_quantity (get_order 5
        (deliver_fills 5 [example_fill ''new'' 1, example_fill ''old'' 1] 9 s)) = Some 3"
  by code_simp

text \<open>
  The new totals of a fill are computed from a read that precedes the compare-and-set loop: when another
  writer applies a fill in between, its quantity is overwritten although both events are marked
  as processed.
\<close>

lemma concurrent_fill_is_lost:
  "let s0 = example_store\<lparr>es_orders := [(5, example_order\<lparr>or_state := OS_ACKNOWLEDGED\<rparr>)]\<rparr>;
       c = example_order\<lparr>or_state := OS_ACKNOWLEDGED\<rparr>;
       mine = example_fill ''a'' 1;
       s1 = snd (record_fill 5 (example_fill ''b'' 1) 9 s0);
       s2 = snd (apply_order 5 (fill_target c mine) (Some ''a'') (fill_updates c mine) 10 s1)
   in map_option (\<lambda>r. (or_filled_quantity r, or_processed_event_ids r)) (get_order 5 s2) =
      Some (1, [''b'', ''a''])"
  by code_simp

end
