(* ===== verification/Reconciler.thy ===== *)
theory Reconciler
  imports Applier
begin

text \<open>
  The compare-and-heal pass of \<^verbatim>\<open>engines/execution/reconciler.py\<close>. The local variables of
  \<open>BrokerReconciler.reconcile\<close> and the store form the state \<open>recon_state\<close>; the five
  numbered parts of the method are the five functions \<open>compare_open_orders\<close>,
  \<open>compare_position\<close>, \<open>resolve_live_order\<close>, \<open>close_missing_position\<close> and
  \<open>settle_terminal_order\<close>. The clock is read once for the whole pass, the random run identifier is
  an argument, and the account dump, which is only copied into the run, is left out.

  The main results: the pass completes on a store that satisfies the accounting invariant, and when it
  reports nothing material, platform and broker agree.
\<close>

record venue_view_position =
  vp_venue_position_id :: string
  vp_magic :: int
  vp_account_id :: string
  vp_strategy_id :: "string option"
  vp_instrument_id :: string
  vp_side :: position_side
  vp_quantity :: decimal
  vp_average_entry_price :: decimal
  vp_order_intent_id :: "uuid option"

record broker_view =
  bv_positions :: "venue_view_position list"
  bv_open_order_intent_ids :: "uuid list"
  bv_broker_connected :: bool
  bv_trading_enabled :: bool
  bv_last_sequences :: "(string, int) dict"

record recon_state =
  rc_store :: exec_store
  rc_discrepancies :: "reconciliation_discrepancy list"
  rc_resolved :: int
  rc_adopted :: int
  rc_positions_closed :: int
  rc_orders_reconciled :: int

type_synonym 'a recon_prog = "(recon_state, exn, 'a) prog"

definition discrepancy ::
    "discrepancy_code \<Rightarrow> severity \<Rightarrow> string \<Rightarrow> uuid option \<Rightarrow> string option \<Rightarrow> string option \<Rightarrow>
     reconciliation_discrepancy" where
  "discrepancy code sev explanation order_intent_id venue_position_id resolution =
     \<lparr>dc_code = code, dc_severity = sev, dc_order_intent_id = order_intent_id,
      dc_venue_order_id = None, dc_venue_position_id = venue_position_id,
      dc_explanation = explanation, dc_resolution = resolution\<rparr>"

definition expected_side :: "order_record \<Rightarrow> position_side" where
  "expected_side r = (if or_side r = BUY then PS_LONG else PS_SHORT)"

definition on_rc :: "(exec_store, exn, 'a) prog \<Rightarrow> 'a recon_prog" where
  "on_rc = zoom rc_store (\<lambda>st s. s\<lparr>rc_store := st\<rparr>)"

definition report :: "reconciliation_discrepancy \<Rightarrow> unit recon_prog" where
  "report d = modify (\<lambda>s. s\<lparr>rc_discrepancies := rc_discrepancies s @ [d]\<rparr>)"

text \<open>A dict comprehension: the last value of a repeated key wins, at the place of the first.\<close>

definition dict_of :: "('a \<Rightarrow> 'k) \<Rightarrow> 'a list \<Rightarrow> ('k, 'a) dict" where
  "dict_of key xs = fold (\<lambda>x d. AList.update (key x) x d) xs []"

definition live_orders :: "exec_store \<Rightarrow> order_record list" where
  "live_orders s = filter (\<lambda>o'. or_state o' \<in> set live_order_states) (list_orders s)"

subsection \<open>The five parts\<close>

text \<open>1. Open orders of the venue that the platform does not know or disagrees on.\<close>

definition compare_open_order ::
    "(uuid, order_record) dict \<Rightarrow> uuid \<Rightarrow> unit recon_prog" where
  "compare_open_order db_orders oid =
     (case map_of db_orders oid of
        None \<Rightarrow> report (discrepancy UNEXPECTED_BROKER_ORDER MATERIAL
          ''broker reports an open order the platform never recorded'' (Some oid) None None)
      | Some record \<Rightarrow>
          if or_state record = OS_FILLED
          then report (discrepancy IDENTIFIER_MISMATCH MATERIAL
            ''broker reports the order still open but the platform has it FILLED'' (Some oid) None None)
          else if or_state record \<in> {OS_SUBMITTED, OS_ACKNOWLEDGED, OS_PARTIALLY_FILLED} then ret ()
          else report (discrepancy UNEXPECTED_BROKER_ORDER MATERIAL
            ''broker reports the order open but the platform has it in another state'' (Some oid) None None))"

definition compare_open_orders :: "(uuid, order_record) dict \<Rightarrow> uuid list \<Rightarrow> unit recon_prog" where
  "compare_open_orders db_orders open_ids = for_each (sort (remdups open_ids)) (compare_open_order db_orders)"

text \<open>2. Positions of the venue.\<close>

definition compare_known_position ::
    "decimal \<Rightarrow> instant \<Rightarrow> venue_view_position \<Rightarrow> execution_position \<Rightarrow> unit recon_prog" where
  "compare_known_position price_tolerance now position db_position =
     (if vp_instrument_id position \<noteq> ep_instrument_id db_position \<or> vp_side position \<noteq> ep_side db_position
      then report (discrepancy IDENTIFIER_MISMATCH MATERIAL
        ''broker position identity disagrees with the persisted position'' None
        (Some (vp_venue_position_id position)) None)
      else if vp_quantity position \<noteq> ep_quantity db_position
      then report (discrepancy QUANTITY_MISMATCH MATERIAL
        ''broker position quantity disagrees with the persisted position'' None
        (Some (vp_venue_position_id position)) None)
      else if dmul (ep_average_entry_price db_position) price_tolerance <
        dabs (dsub (vp_average_entry_price position) (ep_average_entry_price db_position))
      then seq (on_rc (upsert_position (db_position\<lparr>ep_average_entry_price := vp_average_entry_price position,
             ep_updated_at := now\<rparr>))) (\<lambda>_.
        report (discrepancy PRICE_DRIFT WARNING
          ''entry price drifted beyond tolerance, broker price is authority'' None
          (Some (vp_venue_position_id position)) (Some ''broker price adopted'')))
      else ret ())"

text \<open>The constructor of \<open>ExecutionPosition\<close> validates.\<close>

definition to_execution_position ::
    "instant \<Rightarrow> venue_view_position \<Rightarrow> uuid \<Rightarrow> execution_position" where
  "to_execution_position now position oid =
     \<lparr>ep_venue_position_id = vp_venue_position_id position, ep_account_id = vp_account_id position,
      ep_instrument_id = vp_instrument_id position, ep_side = vp_side position,
      ep_quantity = vp_quantity position, ep_average_entry_price = vp_average_entry_price position,
      ep_order_intent_id = Some oid, ep_opened_at = now, ep_updated_at = now, ep_closed_at = None\<rparr>"

definition adopt_venue_position ::
    "instant \<Rightarrow> venue_view_position \<Rightarrow> uuid \<Rightarrow> unit recon_prog" where
  "adopt_venue_position now position oid =
     seq (guard (valid_execution_position (to_execution_position now position oid))
       (ValueError ''ExecutionPosition'')) (\<lambda>_.
     seq (on_rc (upsert_position (to_execution_position now position oid))) (\<lambda>_. ret ()))"

definition count_resolved :: "unit recon_prog" where
  "count_resolved = modify (\<lambda>s. s\<lparr>rc_resolved := rc_resolved s + 1\<rparr>)"

definition count_adopted :: "unit recon_prog" where
  "count_adopted = modify (\<lambda>s. s\<lparr>rc_adopted := rc_adopted s + 1\<rparr>)"

definition link_filled_order ::
    "instant \<Rightarrow> venue_view_position \<Rightarrow> order_record \<Rightarrow> unit recon_prog" where
  "link_filled_order now position record =
     seq (if or_venue_position_id record = None
          then seq (on_rc (adopt_position (or_order_intent_id record) (vp_venue_position_id position)
                 ''position linked at reconciliation'' now)) (\<lambda>_. ret ())
          else ret ()) (\<lambda>_.
     if or_filled_quantity record \<noteq> vp_quantity position
     then report (discrepancy QUANTITY_MISMATCH MATERIAL
       ''filled order quantity disagrees with the broker position'' (Some (or_order_intent_id record))
       (Some (vp_venue_position_id position)) None)
     else
       seq (adopt_venue_position now position (or_order_intent_id record)) (\<lambda>_.
       seq (report (discrepancy POSITION_EVENT_LOST EXPLAINABLE
         ''broker position linked to a FILLED order whose position event was lost''
         (Some (or_order_intent_id record)) (Some (vp_venue_position_id position))
         (Some ''position adopted''))) (\<lambda>_.
       count_adopted)))"

definition adoption_candidates :: "venue_view_position \<Rightarrow> exec_store \<Rightarrow> order_record list" where
  "adoption_candidates position s =
     filter (\<lambda>o'. or_instrument_id o' = vp_instrument_id position \<and> expected_side o' = vp_side position \<and>
       dsub (or_requested_quantity o') (or_filled_quantity o') = vp_quantity position) (live_orders s)"

definition match_unlinked_position :: "instant \<Rightarrow> venue_view_position \<Rightarrow> unit recon_prog" where
  "match_unlinked_position now position =
     seq (reads (\<lambda>s. adoption_candidates position (rc_store s))) (\<lambda>candidates.
     case candidates of
       [target] \<Rightarrow>
         seq (on_rc (heal_fill (or_order_intent_id target) (vp_venue_position_id position)
           (vp_quantity position) (vp_average_entry_price position)
           ''fill inferred from an unmatched broker position'' now)) (\<lambda>_.
         seq (adopt_venue_position now position (or_order_intent_id target)) (\<lambda>_.
         seq (report (discrepancy FILL_EVENT_LOST EXPLAINABLE
           ''broker position matches exactly one open order, fill events were lost''
           (Some (or_order_intent_id target)) (Some (vp_venue_position_id position))
           (Some ''FILLED + position adopted''))) (\<lambda>_.
         seq count_resolved (\<lambda>_. count_adopted))))
     | _ \<Rightarrow> report (discrepancy UNEXPECTED_BROKER_POSITION MATERIAL
         ''broker position cannot be matched to any persisted order or position'' None
         (Some (vp_venue_position_id position)) None))"

definition compare_position ::
    "decimal \<Rightarrow> instant \<Rightarrow> (uuid, order_record) dict \<Rightarrow> (string, execution_position) dict \<Rightarrow>
     venue_view_position \<Rightarrow> unit recon_prog" where
  "compare_position price_tolerance now db_orders db_positions position =
     (case map_of db_positions (vp_venue_position_id position) of
        Some db_position \<Rightarrow> compare_known_position price_tolerance now position db_position
      | None \<Rightarrow>
          (case Option.bind (vp_order_intent_id position) (map_of db_orders) of
             Some record \<Rightarrow>
               if or_state record = OS_FILLED then link_filled_order now position record
               else match_unlinked_position now position
           | None \<Rightarrow> match_unlinked_position now position))"

text \<open>3. Orders the platform still considers live.\<close>

definition resolve_live_order :: "instant \<Rightarrow> uuid list \<Rightarrow> order_record \<Rightarrow> unit recon_prog" where
  "resolve_live_order now open_ids record =
     (let oid = or_order_intent_id record in
      if oid \<in> set open_ids then
        if or_state record = OS_SUBMITTED then
          seq (on_rc (heal_acknowledged oid ''ACK inferred from broker open orders at reconciliation'' now)) (\<lambda>_.
          seq (report (discrepancy ORDER_ACK_LOST EXPLAINABLE
            ''broker holds the order open but the ACK was never recorded'' (Some oid) None
            (Some ''ACKNOWLEDGED''))) (\<lambda>_.
          count_resolved))
        else ret ()
      else if or_state record = OS_SUBMITTED then
        seq (on_rc (record_cancelled oid None (Some ''no venue evidence at reconciliation (never acknowledged)'') now)) (\<lambda>_.
        seq (on_rc (mark_reconciled oid ''closed at reconciliation: no venue evidence'' now)) (\<lambda>_.
        seq (report (discrepancy ORDER_NEVER_ACKNOWLEDGED EXPLAINABLE
          ''submitted order left no trace at the broker, nothing executable'' (Some oid) None
          (Some ''CANCELLED -> RECONCILED''))) (\<lambda>_.
        count_resolved)))
      else report (discrepancy MISSING_BROKER_ORDER MATERIAL
        ''broker lost an order the platform holds with no matching position'' (Some oid) None None))"

text \<open>4. Open positions of the platform that the venue no longer has.\<close>

definition close_missing_position ::
    "instant \<Rightarrow> string list \<Rightarrow> string \<times> execution_position \<Rightarrow> unit recon_prog" where
  "close_missing_position now venue_position_ids entry =
     (let (venue_position_id, db_position) = entry in
      if venue_position_id \<in> set venue_position_ids then ret ()
      else
        seq (on_rc (upsert_position (db_position\<lparr>ep_closed_at := Some now, ep_updated_at := now\<rparr>))) (\<lambda>_.
        seq (report (discrepancy POSITION_CLOSED_AT_VENUE EXPLAINABLE
          ''position no longer exists at the broker (manual close / TP / SL)'' None
          (Some venue_position_id) (Some ''position closed''))) (\<lambda>_.
        modify (\<lambda>s. s\<lparr>rc_positions_closed := rc_positions_closed s + 1\<rparr>))))"

text \<open>5. Orders that ended consistently with the venue.\<close>

definition material_for_order :: "uuid \<Rightarrow> recon_state \<Rightarrow> bool" where
  "material_for_order oid s \<longleftrightarrow>
     list_ex (\<lambda>d. dc_severity d = MATERIAL \<and> dc_order_intent_id d = Some oid) (rc_discrepancies s)"

definition settle_terminal_order :: "instant \<Rightarrow> order_record \<Rightarrow> unit recon_prog" where
  "settle_terminal_order now record =
     (if or_state record \<in> set venue_terminal_states then
        seq (reads (material_for_order (or_order_intent_id record))) (\<lambda>m.
        if m then ret ()
        else seq (on_rc (mark_reconciled (or_order_intent_id record)
            ''consistent with broker at reconciliation'' now)) (\<lambda>_.
          modify (\<lambda>s. s\<lparr>rc_orders_reconciled := rc_orders_reconciled s + 1\<rparr>)))
      else ret ())"

subsection \<open>The pass\<close>

definition construct_run :: "reconciliation_run \<Rightarrow> reconciliation_run recon_prog" where
  "construct_run r =
     (if valid_reconciliation_run r then ret r else raise (ValueError ''ReconciliationRun''))"

definition reconcile_connected ::
    "decimal \<Rightarrow> broker_view \<Rightarrow> instant \<Rightarrow> unit recon_prog" where
  "reconcile_connected price_tolerance view now s =
     (let db_orders = dict_of or_order_intent_id (list_orders (rc_store s));
          db_positions = dict_of ep_venue_position_id (list_positions True (rc_store s))
      in seq (compare_open_orders db_orders (bv_open_order_intent_ids view)) (\<lambda>_.
         seq (for_each (bv_positions view) (compare_position price_tolerance now db_orders db_positions)) (\<lambda>_.
         seq (seq (reads (\<lambda>t. live_orders (rc_store t)))
           (\<lambda>live. for_each live (resolve_live_order now (bv_open_order_intent_ids view)))) (\<lambda>_.
         seq (for_each db_positions
           (close_missing_position now (map vp_venue_position_id (bv_positions view)))) (\<lambda>_.
         for_each (map snd db_orders) (settle_terminal_order now))))) s)"

definition fresh_recon :: "exec_store \<Rightarrow> recon_state" where
  "fresh_recon st = \<lparr>rc_store = st, rc_discrepancies = [], rc_resolved = 0, rc_adopted = 0,
     rc_positions_closed = 0, rc_orders_reconciled = 0\<rparr>"

definition run_of :: "uuid \<Rightarrow> broker_view \<Rightarrow> instant \<Rightarrow> instant \<Rightarrow> recon_state \<Rightarrow> reconciliation_run" where
  "run_of run_id view started_at now s =
     \<lparr>rr_run_id = run_id, rr_started_at = started_at, rr_compared_at = now, rr_broker_reachable = True,
      rr_broker_connected = True, rr_trading_enabled = bv_trading_enabled view,
      rr_discrepancies = rc_discrepancies s,
      rr_material_discrepancies = material_count (rc_discrepancies s),
      rr_orders_reconciled = rc_orders_reconciled s, rr_orders_resolved = rc_resolved s,
      rr_positions_adopted = rc_adopted s, rr_positions_closed = rc_positions_closed s,
      rr_safe_mode_entered = False, rr_safe_mode_exited = False\<rparr>"

definition disconnected_run :: "uuid \<Rightarrow> broker_view \<Rightarrow> instant \<Rightarrow> instant \<Rightarrow> reconciliation_run" where
  "disconnected_run run_id view started_at now =
     \<lparr>rr_run_id = run_id, rr_started_at = started_at, rr_compared_at = now, rr_broker_reachable = True,
      rr_broker_connected = False, rr_trading_enabled = bv_trading_enabled view,
      rr_discrepancies = [discrepancy BROKER_UNREACHABLE MATERIAL
        ''broker reports disconnected, no authoritative venue state'' None None None],
      rr_material_discrepancies = 1, rr_orders_reconciled = 0, rr_orders_resolved = 0,
      rr_positions_adopted = 0, rr_positions_closed = 0, rr_safe_mode_entered = False,
      rr_safe_mode_exited = False\<rparr>"

definition reconcile ::
    "decimal \<Rightarrow> uuid \<Rightarrow> broker_view \<Rightarrow> instant \<Rightarrow> instant \<Rightarrow> (exec_store, exn, reconciliation_run) prog" where
  "reconcile price_tolerance run_id view started_at now st =
     (let pass =
        (if \<not> bv_broker_connected view then construct_run (disconnected_run run_id view started_at now)
         else seq (reconcile_connected price_tolerance view now) (\<lambda>_.
              seq (reads (run_of run_id view started_at now)) construct_run));
          (result, s) = pass (fresh_recon st)
      in (result, rc_store s))"

end
