(* ===== verification/Safe_Mode.thy ===== *)
theory Safe_Mode
  imports Exec_Store
begin

text \<open>
  The SAFE_MODE controller of \<^verbatim>\<open>engines/execution/safe_mode.py\<close>. Its state is the
  execution store and the chronological list of what it sends to its sinks (domain events, audit
  entries, operational alerts), with all three sinks present; the random identifiers of
  events and alerts are left out.
\<close>

datatype signal =
    Emitted string
  | Audited string string
  | Alerted string alert_severity string

record engine_state =
  en_store :: exec_store
  en_signals :: "signal list"

definition on_store :: "(exec_store, exn, 'a) prog \<Rightarrow> (engine_state, exn, 'a) prog" where
  "on_store = zoom en_store (\<lambda>st s. s\<lparr>en_store := st\<rparr>)"

definition send :: "signal \<Rightarrow> (engine_state, exn, unit) prog" where
  "send x = modify (\<lambda>s. s\<lparr>en_signals := en_signals s @ [x]\<rparr>)"

text \<open>\<open>OperationalAlert\<close> requires a non-empty detail.\<close>

definition alert :: "string \<Rightarrow> alert_severity \<Rightarrow> string \<Rightarrow> (engine_state, exn, unit) prog" where
  "alert kind sev detail =
     seq (guard (detail \<noteq> []) (ValueError ''OperationalAlert'')) (\<lambda>_. send (Alerted kind sev detail))"

text \<open>\<open>a or b\<close> on optional strings: an empty string is false.\<close>

definition or_else :: "string option \<Rightarrow> string option \<Rightarrow> string option" where
  "or_else a b = (if has_target a then a else b)"

definition or_text :: "string option \<Rightarrow> string \<Rightarrow> string" where
  "or_text a b = (case a of Some t \<Rightarrow> if t \<noteq> [] then t else b | None \<Rightarrow> b)"

fun join_comma :: "string list \<Rightarrow> string" where
  "join_comma [] = []"
| "join_comma [x] = x"
| "join_comma (x # y # xs) = x @ '', '' @ join_comma (y # xs)"

definition safe_mode_is_active :: "engine_state \<Rightarrow> bool" where
  "safe_mode_is_active s = sm_active (get_safe_mode (en_store s))"

definition construct_safe_mode :: "safe_mode_record \<Rightarrow> (engine_state, exn, safe_mode_record) prog" where
  "construct_safe_mode r =
     (if valid_safe_mode_record r then ret r else raise (ValueError ''SafeModeRecord''))"

definition enter_safe_mode ::
    "string list \<Rightarrow> string option \<Rightarrow> instant \<Rightarrow> (engine_state, exn, safe_mode_record) prog" where
  "enter_safe_mode reason_codes note now =
     seq (reads (\<lambda>s. get_safe_mode (en_store s))) (\<lambda>current.
     let merged = dedupe (sm_reason_codes current @ reason_codes);
         detail = or_text note (join_comma merged)
     in seq (construct_safe_mode
          \<lparr>sm_active = True, sm_since = (if sm_active current then sm_since current else Some now),
           sm_reason_codes = merged, sm_note = or_else note (sm_note current),
           sm_exited_at = None, sm_updated_at = now\<rparr>) (\<lambda>record.
     seq (on_store (set_safe_mode record)) (\<lambda>stored.
     if \<not> sm_active current then
       seq (send (Emitted ''system.safe_mode.entered'')) (\<lambda>_.
       seq (send (Audited ''safe_mode.entered'' detail)) (\<lambda>_.
       seq (alert ''SAFE_MODE_ENTERED'' AS_CRITICAL detail) (\<lambda>_. ret stored)))
     else ret stored)))"

definition exit_safe_mode ::
    "string option \<Rightarrow> instant \<Rightarrow> (engine_state, exn, safe_mode_record) prog" where
  "exit_safe_mode note now =
     seq (reads (\<lambda>s. get_safe_mode (en_store s))) (\<lambda>current.
     if \<not> sm_active current then ret current
     else let detail = or_text note ''clean reconciliation'' in
       seq (construct_safe_mode
          \<lparr>sm_active = False, sm_since = sm_since current,
           sm_reason_codes = sm_reason_codes current, sm_note = or_else note (sm_note current),
           sm_exited_at = Some now, sm_updated_at = now\<rparr>) (\<lambda>record.
       seq (on_store (set_safe_mode record)) (\<lambda>stored.
       seq (send (Emitted ''system.safe_mode.exited'')) (\<lambda>_.
       seq (send (Audited ''safe_mode.exited'' detail)) (\<lambda>_.
       seq (alert ''SAFE_MODE_EXITED'' AS_INFO detail) (\<lambda>_. ret stored))))))"

definition blocked_actions :: "safe_mode_action list" where
  "blocked_actions = [NEW_ENTRY]"

definition assert_allowed :: "safe_mode_action \<Rightarrow> (engine_state, exn, unit) prog" where
  "assert_allowed action =
     seq (reads (\<lambda>s. get_safe_mode (en_store s))) (\<lambda>state.
       guard (\<not> (sm_active state \<and> action \<in> set blocked_actions))
         (SafeModeViolation action (sm_reason_codes state)))"

definition can_submit_new_entries :: "engine_state \<Rightarrow> bool" where
  "can_submit_new_entries s \<longleftrightarrow> \<not> sm_active (get_safe_mode (en_store s))"

lemmas safe_mode_defs = enter_safe_mode_def exit_safe_mode_def assert_allowed_def
  construct_safe_mode_def on_store_def zoom_def send_def alert_def set_safe_mode_def

lemma get_set_safe_mode [simp]: "get_safe_mode (s\<lparr>es_safe_mode := Some m\<rparr>) = m"
  by (simp add: get_safe_mode_def)

text \<open>The outcome of entering: the record is stored before the signals are sent.\<close>

lemma enter_safe_mode_store:
  assumes "reason_codes \<noteq> [] \<or> sm_reason_codes (get_safe_mode (en_store s)) \<noteq> []"
    and "sm_active (get_safe_mode (en_store s)) \<Longrightarrow> sm_since (get_safe_mode (en_store s)) \<noteq> None"
  shows "en_store (snd (enter_safe_mode reason_codes note now s)) = (en_store s)\<lparr>es_safe_mode := Some
     \<lparr>sm_active = True,
      sm_since = (if sm_active (get_safe_mode (en_store s)) then sm_since (get_safe_mode (en_store s))
                  else Some now),
      sm_reason_codes = dedupe (sm_reason_codes (get_safe_mode (en_store s)) @ reason_codes),
      sm_note = or_else note (sm_note (get_safe_mode (en_store s))), sm_exited_at = None,
      sm_updated_at = now\<rparr>\<rparr>"
  using assms by (auto simp: safe_mode_defs seq_run Let_def valid_safe_mode_record_def)

lemma exit_safe_mode_active:
  "\<not> safe_mode_is_active (snd (exit_safe_mode note now s))"
  by (auto simp: safe_mode_defs seq_run Let_def valid_safe_mode_record_def safe_mode_is_active_def
      or_text_def split: option.split)

text \<open>
  SAFE_MODE blocks new entries and nothing else. While it is active, \<open>NEW_ENTRY\<close>
  raises \<open>SafeModeViolation\<close> with the stored reasons; monitoring, reconciliation and
  risk-reducing actions pass in every state, and no check changes the state.
\<close>

lemma safe_mode_blocks_only_new_entries:
  "assert_allowed action s =
     (if safe_mode_is_active s \<and> action = NEW_ENTRY
      then Inl (SafeModeViolation NEW_ENTRY (sm_reason_codes (get_safe_mode (en_store s))))
      else Inr (), s)"
  by (simp add: assert_allowed_def blocked_actions_def safe_mode_is_active_def)

text \<open>
  Entering SAFE_MODE. With a reason, entering leaves SAFE_MODE active, keeps every earlier
  and adds every new reason code without repetition, touches nothing else of the store, and
  raises exactly one critical alert when SAFE_MODE was off and no signal when it was already
  on, in which case the beginning of the episode is kept.
\<close>

lemma enter_safe_mode_effect:
  assumes "valid_safe_mode_record (get_safe_mode (en_store s))"
    and "reason_codes \<noteq> []" and "\<forall>c \<in> set reason_codes. c \<noteq> []"
    and "sm_reason_codes (get_safe_mode (en_store s)) = [] \<or> hd (sm_reason_codes (get_safe_mode (en_store s))) \<noteq> []"
  shows "let s' = snd (enter_safe_mode reason_codes note now s); old = get_safe_mode (en_store s);
             m = get_safe_mode (en_store s')
    in isl (fst (enter_safe_mode reason_codes note now s)) = False \<and> sm_active m \<and>
       set (sm_reason_codes m) = set (sm_reason_codes old) \<union> set reason_codes \<and>
       distinct (sm_reason_codes m) \<and>
       (\<exists>x. en_store s' = (en_store s)\<lparr>es_safe_mode := x\<rparr>) \<and>
       (if sm_active old then sm_since m = sm_since old \<and> en_signals s' = en_signals s
        else sm_since m = Some now \<and>
          (\<exists>detail. en_signals s' = en_signals s @ [Emitted ''system.safe_mode.entered'',
             Audited ''safe_mode.entered'' detail, Alerted ''SAFE_MODE_ENTERED'' AS_CRITICAL detail]))"
proof -
  let ?codes = "dedupe (sm_reason_codes (get_safe_mode (en_store s)) @ reason_codes)"
  have hd: "hd (dedupe (x # xs)) = x" "dedupe (x # xs) \<noteq> []" for x :: string and xs
  proof -
    have "hd (dedupe_onto (x # acc) xs) = x" for acc
      by (induction xs arbitrary: acc) auto
    then show "hd (dedupe (x # xs)) = x" by (simp add: dedupe_def)
  qed simp
  have join: "join_comma (x # xs) \<noteq> []" if "x \<noteq> []" for x xs
    using that by (cases xs) auto
  have ne: "join_comma ?codes \<noteq> []"
  proof -
    obtain y ys where y: "sm_reason_codes (get_safe_mode (en_store s)) @ reason_codes = y # ys" "y \<noteq> []"
      using assms(2-4) by (cases "sm_reason_codes (get_safe_mode (en_store s))"; cases reason_codes) auto
    obtain z zs where z: "dedupe (y # ys) = z # zs" using hd(2) by (cases "dedupe (y # ys)") auto
    then have "z = y" using hd(1) [of y ys] by simp
    then show ?thesis using join y z by simp
  qed
  have codes: "?codes \<noteq> []" using assms(2) by simp
  show ?thesis
    using assms(1) ne codes
    by (auto simp: safe_mode_defs seq_run Let_def valid_safe_mode_record_def or_text_def
        split: option.split)
qed

definition example_engine :: engine_state where
  "example_engine = \<lparr>en_store = example_store, en_signals = []\<rparr>"

lemma enter_safe_mode_effect_witness:
  "safe_mode_is_active (snd (enter_safe_mode [''OVERFILL_DETECTED''] None 50 example_engine)) \<and>
   length (en_signals (snd (enter_safe_mode [''OVERFILL_DETECTED''] None 50 example_engine))) = 3"
proof -
  have m: "get_safe_mode (en_store example_engine) = empty_safe_mode epoch_min"
    by (simp add: example_engine_def example_store_def empty_store_def get_safe_mode_def)
  have v: "valid_safe_mode_record (get_safe_mode (en_store example_engine))"
    and r: "sm_reason_codes (get_safe_mode (en_store example_engine)) = []"
    and a: "\<not> sm_active (get_safe_mode (en_store example_engine))"
    by (simp_all add: m valid_safe_mode_record_def empty_safe_mode_def)
  have sig: "en_signals example_engine = []" by (simp add: example_engine_def)
  have "\<exists>detail. en_signals (snd (enter_safe_mode [''OVERFILL_DETECTED''] None 50 example_engine)) =
      [Emitted ''system.safe_mode.entered'', Audited ''safe_mode.entered'' detail,
       Alerted ''SAFE_MODE_ENTERED'' AS_CRITICAL detail] \<and>
    sm_active (get_safe_mode (en_store (snd (enter_safe_mode [''OVERFILL_DETECTED''] None 50 example_engine))))"
    using enter_safe_mode_effect [OF v, of "[''OVERFILL_DETECTED'']" None 50, OF _ _ disjI1, OF _ _ r] a
    unfolding Let_def sig by simp
  then show ?thesis unfolding safe_mode_is_active_def by fastforce
qed

text \<open>
  Leaving SAFE_MODE always works and is idempotent. After \<open>exit\<close> new entries are
  allowed, a second exit changes nothing, and the reasons of the episode stay on record.
\<close>

lemma exit_safe_mode_effect:
  "can_submit_new_entries (snd (exit_safe_mode note now s)) \<and>
   snd (exit_safe_mode note' now' (snd (exit_safe_mode note now s))) = snd (exit_safe_mode note now s) \<and>
   sm_reason_codes (get_safe_mode (en_store (snd (exit_safe_mode note now s)))) =
     sm_reason_codes (get_safe_mode (en_store s))"
proof -
  have "snd (exit_safe_mode nt w t) = t" if "\<not> safe_mode_is_active t" for nt w t
    using that by (simp add: exit_safe_mode_def safe_mode_is_active_def)
  moreover have "sm_reason_codes (get_safe_mode (en_store (snd (exit_safe_mode note now s)))) =
     sm_reason_codes (get_safe_mode (en_store s))"
    by (auto simp: safe_mode_defs seq_run Let_def valid_safe_mode_record_def or_text_def
        split: option.split)
  ultimately show ?thesis
    using exit_safe_mode_active [of "note" now s]
    by (simp add: can_submit_new_entries_def safe_mode_is_active_def)
qed

end
