(* ===== verification/Emergency.thy ===== *)
theory Emergency
  imports Safe_Mode
begin

text \<open>
  Kill switches and the dead man switch: \<^verbatim>\<open>engines/execution/emergency.py\<close> over the
  in-memory store of \<^verbatim>\<open>engines/execution/emergency_persistence.py\<close>.

  The state of a controller is its store, its two in-memory heartbeat fields and its signals.
  The callbacks that cancel pending orders and flatten positions belong to the execution
  service: they are arguments of the operations, programs over the controller's state together
  with a world \<open>'w\<close> that only they can change.
\<close>

section \<open>Store and controller\<close>

type_synonym control_key = "emergency_level \<times> string option"

record emergency_state =
  em_controls :: "(control_key, emergency_control_state) dict"
  em_dead_man :: "dead_man_switch_state option"
  em_armed_at :: instant
  em_last_heartbeat_at :: "instant option"
  em_signals :: "signal list"

record emergency_policy =
  epol_dead_man_switch_enabled :: bool
  epol_heartbeat_timeout :: duration
  epol_cancel_pending_on_emergency_kill :: bool
  epol_flatten_on_emergency_kill :: bool
  epol_flatten_on_heartbeat_loss :: bool

definition default_emergency_policy :: emergency_policy where
  "default_emergency_policy = \<lparr>epol_dead_man_switch_enabled = True,
     epol_heartbeat_timeout = seconds 6, epol_cancel_pending_on_emergency_kill = True,
     epol_flatten_on_emergency_kill = False, epol_flatten_on_heartbeat_loss = False\<rparr>"

definition valid_emergency_policy :: "emergency_policy \<Rightarrow> bool" where
  "valid_emergency_policy p \<longleftrightarrow> 0 < epol_heartbeat_timeout p"

definition new_controller :: "instant \<Rightarrow> emergency_state" where
  "new_controller now = \<lparr>em_controls = [], em_dead_man = None, em_armed_at = now,
     em_last_heartbeat_at = None, em_signals = []\<rparr>"

definition control_order :: "emergency_control_state \<Rightarrow> string \<times> string" where
  "control_order c = (emergency_level_value (ec_level c), or_text (ec_target c) [])"

definition list_active_controls :: "emergency_state \<Rightarrow> emergency_control_state list" where
  "list_active_controls s =
     sort_key control_order (filter ec_active (map snd (em_controls s)))"

definition get_control :: "emergency_level \<Rightarrow> string option \<Rightarrow> emergency_state \<Rightarrow> emergency_control_state option" where
  "get_control level target s = map_of (em_controls s) (level, target)"

definition set_control :: "emergency_control_state \<Rightarrow> emergency_state \<Rightarrow> emergency_state" where
  "set_control c s =
     s\<lparr>em_controls := AList.update (ec_level c, ec_target c) c (em_controls s)\<rparr>"

text \<open>The record returned for a control that was never set is not stored.\<close>

definition clear_control ::
    "emergency_level \<Rightarrow> string option \<Rightarrow> string \<Rightarrow> string \<Rightarrow> instant \<Rightarrow> emergency_state \<Rightarrow>
     emergency_control_state \<times> emergency_state" where
  "clear_control level target actor reason when s =
     (case get_control level target s of
        None \<Rightarrow> (\<lparr>ec_level = level, ec_target = target, ec_active = False, ec_activated_by = actor,
            ec_activated_at = when, ec_reason = reason, ec_deactivated_by = Some actor,
            ec_deactivate_reason = Some reason, ec_deactivated_at = Some when,
            ec_updated_at = when\<rparr>, s)
      | Some current \<Rightarrow>
          (let cleared = current\<lparr>ec_active := False, ec_deactivated_by := Some actor,
                 ec_deactivate_reason := Some reason, ec_deactivated_at := Some when,
                 ec_updated_at := when\<rparr>
           in (cleared, s\<lparr>em_controls := AList.update (level, target) cleared (em_controls s)\<rparr>)))"

definition empty_dead_man :: "instant \<Rightarrow> bool \<Rightarrow> duration \<Rightarrow> dead_man_switch_state" where
  "empty_dead_man now enabled timeout = \<lparr>dm_enabled = enabled, dm_heartbeat_timeout = timeout,
     dm_armed_at = now, dm_last_heartbeat_at = None, dm_safe_execution_state = False,
     dm_heartbeat_lost_at = None, dm_reason_codes = [], dm_updated_at = now\<rparr>"

definition get_dead_man :: "emergency_state \<Rightarrow> dead_man_switch_state" where
  "get_dead_man s = (case em_dead_man s of Some d \<Rightarrow> d
     | None \<Rightarrow> empty_dead_man epoch_min True (seconds 1))"

definition set_dead_man :: "dead_man_switch_state \<Rightarrow> emergency_state \<Rightarrow> emergency_state" where
  "set_dead_man d s = s\<lparr>em_dead_man := Some d\<rparr>"

definition safe_execution_state_active :: "emergency_state \<Rightarrow> bool" where
  "safe_execution_state_active s = dm_safe_execution_state (get_dead_man s)"

definition emergency_strategy_id :: string where
  "emergency_strategy_id = ''CORE-EMERGENCY''"

definition validate_target :: "emergency_level \<Rightarrow> string option \<Rightarrow> exn + unit" where
  "validate_target level target =
     (if level \<in> set targeted_levels \<and> \<not> has_target target
      then Inl (ValueError ''level requires a target'')
      else if level \<notin> set targeted_levels \<and> has_target target
      then Inl (ValueError ''level does not accept a target'')
      else Inr ())"

type_synonym 'w em_world = "emergency_state \<times> 'w"

definition on_em :: "(emergency_state \<Rightarrow> emergency_state) \<Rightarrow> ('w em_world, exn, unit) prog" where
  "on_em f = modify (\<lambda>(s, w). (f s, w))"

definition em_send :: "signal \<Rightarrow> ('w em_world, exn, unit) prog" where
  "em_send x = on_em (\<lambda>s. s\<lparr>em_signals := em_signals s @ [x]\<rparr>)"

text \<open>The payload of an emergency event requires an actor and a reason.\<close>

definition em_emit :: "string \<Rightarrow> string \<Rightarrow> string \<Rightarrow> ('w em_world, exn, unit) prog" where
  "em_emit name actor reason =
     seq (guard (actor \<noteq> [] \<and> reason \<noteq> []) (ValueError ''EmergencyEvent'')) (\<lambda>_. em_send (Emitted name))"

definition kill_active :: "emergency_level \<Rightarrow> string option \<Rightarrow> emergency_state \<Rightarrow> bool" where
  "kill_active level target s =
     list_ex (\<lambda>c. ec_level c = level \<and> ec_target c = target) (list_active_controls s)"

definition strategy_killed :: "string \<Rightarrow> emergency_state \<Rightarrow> bool" where
  "strategy_killed strategy_id s = kill_active STRATEGY_KILL (Some strategy_id) s"

definition instrument_killed :: "string \<Rightarrow> emergency_state \<Rightarrow> bool" where
  "instrument_killed instrument_id s = kill_active INSTRUMENT_KILL (Some instrument_id) s"

definition emergency_kill_active :: "emergency_state \<Rightarrow> bool" where
  "emergency_kill_active s = kill_active EMERGENCY_KILL None s"

text \<open>An optional callback of the service.\<close>

type_synonym 'w callback = "(string \<Rightarrow> ('w em_world, exn, string list) prog) option"

definition joined_or :: "string list \<Rightarrow> string \<Rightarrow> string" where
  "joined_or xs none = (if xs = [] then none else join_comma xs)"

definition run_callback ::
    "bool \<Rightarrow> 'w callback \<Rightarrow> string \<Rightarrow> string \<Rightarrow> string \<Rightarrow> ('w em_world, exn, unit) prog" where
  "run_callback enabled cb reason action none =
     (case cb of
        Some f \<Rightarrow> if enabled then seq (f reason) (\<lambda>done. em_send (Audited action (joined_or done none)))
                  else ret ()
      | None \<Rightarrow> ret ())"

definition run_emergency_side_effects ::
    "emergency_policy \<Rightarrow> 'w callback \<Rightarrow> 'w callback \<Rightarrow> string \<Rightarrow> ('w em_world, exn, unit) prog" where
  "run_emergency_side_effects policy canceller flattener reason =
     seq (run_callback (epol_cancel_pending_on_emergency_kill policy) canceller
            (''emergency kill: '' @ reason) ''emergency.cancel_pending'' ''no pending orders'')
       (\<lambda>_. run_callback (epol_flatten_on_emergency_kill policy) flattener
            (''emergency kill: '' @ reason) ''emergency.flatten'' ''no open positions'')"

definition activate ::
    "emergency_policy \<Rightarrow> 'w callback \<Rightarrow> 'w callback \<Rightarrow> emergency_level \<Rightarrow> string option \<Rightarrow> string \<Rightarrow>
     string \<Rightarrow> instant \<Rightarrow> ('w em_world, exn, emergency_control_state) prog" where
  "activate policy canceller flattener level target actor reason now =
     seq (guard (\<not> is_blank actor) (ValueError ''an authenticated actor identity is required'')) (\<lambda>_.
     case validate_target level target of Inl e \<Rightarrow> raise e | Inr _ \<Rightarrow>
     (let state = \<lparr>ec_level = level, ec_target = target, ec_active = True,
            ec_activated_by = strip actor, ec_activated_at = now, ec_reason = reason,
            ec_deactivated_by = None, ec_deactivate_reason = None, ec_deactivated_at = None,
            ec_updated_at = now\<rparr>
      in seq (guard (valid_emergency_control state) (ValueError ''EmergencyControlState'')) (\<lambda>_.
         seq (on_em (set_control state)) (\<lambda>_.
         seq (em_send (Audited ''emergency.activated'' reason)) (\<lambda>_.
         seq (em_emit ''system.emergency.activated'' actor reason) (\<lambda>_.
         seq (em_send (Alerted (emergency_level_value level @ ''_ACTIVATED'')
                (if level = EMERGENCY_KILL then AS_CRITICAL else AS_WARNING) reason)) (\<lambda>_.
         seq (if level = EMERGENCY_KILL
              then run_emergency_side_effects policy canceller flattener reason else ret ()) (\<lambda>_.
         ret state))))))))"

definition deactivate ::
    "emergency_level \<Rightarrow> string option \<Rightarrow> string \<Rightarrow> string \<Rightarrow> instant \<Rightarrow>
     ('w em_world, exn, emergency_control_state) prog" where
  "deactivate level target actor reason now =
     seq (guard (\<not> is_blank actor) (ValueError ''an authenticated actor identity is required'')) (\<lambda>_.
     case validate_target level target of Inl e \<Rightarrow> raise e | Inr _ \<Rightarrow>
     seq (reads (\<lambda>(s, w). (kill_active level target s, get_control level target s = None,
            fst (clear_control level target (strip actor) reason now s))))
       (\<lambda>(was_active, unknown, stored).
     seq (guard (unknown \<longrightarrow> valid_emergency_control stored) (ValueError ''EmergencyControlState'')) (\<lambda>_.
     seq (on_em (\<lambda>s. snd (clear_control level target (strip actor) reason now s))) (\<lambda>_.
     seq (em_send (Audited ''emergency.deactivated'' reason)) (\<lambda>_.
     if \<not> was_active then ret stored
     else seq (em_emit ''system.emergency.deactivated'' actor reason) (\<lambda>_.
       seq (if level = EMERGENCY_KILL
            then em_send (Alerted ''EMERGENCY_KILL_DEACTIVATED'' AS_INFO reason) else ret ()) (\<lambda>_.
       ret stored)))))))"

section \<open>Gating\<close>

definition control_reason :: "string \<Rightarrow> string \<Rightarrow> emergency_control_state \<Rightarrow> string list" where
  "control_reason strategy_id instrument_id c =
     (if ec_level c = STRATEGY_KILL \<and> ec_target c = Some strategy_id
      then [''STRATEGY_KILL:'' @ strategy_id]
      else if ec_level c = INSTRUMENT_KILL \<and> ec_target c = Some instrument_id
      then [''INSTRUMENT_KILL:'' @ instrument_id]
      else if ec_level c = NO_NEW_POSITIONS then [emergency_level_value NO_NEW_POSITIONS]
      else if ec_level c = EMERGENCY_KILL then [emergency_level_value EMERGENCY_KILL]
      else [])"

definition blocked_reasons :: "string \<Rightarrow> string \<Rightarrow> emergency_state \<Rightarrow> string list" where
  "blocked_reasons strategy_id instrument_id s =
     dedupe (concat (map (control_reason strategy_id instrument_id) (list_active_controls s)) @
       (if safe_execution_state_active s then [heartbeat_lost_code] else []))"

definition assert_can_enter :: "string \<Rightarrow> string \<Rightarrow> ('w em_world, exn, unit) prog" where
  "assert_can_enter strategy_id instrument_id =
     seq (reads (\<lambda>(s, w). blocked_reasons strategy_id instrument_id s)) (\<lambda>reasons.
       guard (reasons = []) (EmergencyControlViolation reasons))"

definition new_entries_blocked :: "emergency_state \<Rightarrow> bool" where
  "new_entries_blocked s =
     (if list_ex (\<lambda>c. ec_level c = NO_NEW_POSITIONS \<or> ec_level c = EMERGENCY_KILL)
           (list_active_controls s)
      then True else safe_execution_state_active s)"

section \<open>Dead man switch\<close>

definition on_heartbeat :: "emergency_policy \<Rightarrow> instant \<Rightarrow> ('w em_world, exn, unit) prog" where
  "on_heartbeat policy received =
     seq (on_em (\<lambda>s. s\<lparr>em_last_heartbeat_at := Some received\<rparr>)) (\<lambda>_.
     seq (reads (\<lambda>(s, w). (get_dead_man s, em_armed_at s))) (\<lambda>(state, armed_at).
     if dm_safe_execution_state state \<and> heartbeat_lost_code \<in> set (dm_reason_codes state) then
       seq (on_em (set_dead_man \<lparr>dm_enabled = epol_dead_man_switch_enabled policy,
              dm_heartbeat_timeout = epol_heartbeat_timeout policy, dm_armed_at = armed_at,
              dm_last_heartbeat_at = Some received, dm_safe_execution_state = False,
              dm_heartbeat_lost_at = None, dm_reason_codes = [], dm_updated_at = received\<rparr>)) (\<lambda>_.
       seq (em_send (Audited ''dead_man.restored'' ''heartbeat restored'')) (\<lambda>_.
       seq (em_send (Emitted ''system.emergency.heartbeat_restored'')) (\<lambda>_.
       em_send (Alerted ''DEAD_MAN_SWITCH_RESTORED'' AS_INFO ''heartbeat restored''))))
     else ret ()))"

definition heartbeat_reference :: "emergency_state \<Rightarrow> instant" where
  "heartbeat_reference s = (case em_last_heartbeat_at s of Some t \<Rightarrow> t | None \<Rightarrow> em_armed_at s)"

definition check_dead_man ::
    "emergency_policy \<Rightarrow> 'w callback \<Rightarrow> instant \<Rightarrow> ('w em_world, exn, dead_man_switch_state) prog" where
  "check_dead_man policy flattener now =
     (if \<not> epol_dead_man_switch_enabled policy then reads (\<lambda>(s, w). get_dead_man s)
      else seq (reads fst) (\<lambda>s.
        if dm_safe_execution_state (get_dead_man s) then ret (get_dead_man s)
        else if now - heartbeat_reference s \<le> epol_heartbeat_timeout policy then ret (get_dead_man s)
        else
          (let engaged = \<lparr>dm_enabled = epol_dead_man_switch_enabled policy,
                 dm_heartbeat_timeout = epol_heartbeat_timeout policy, dm_armed_at = em_armed_at s,
                 dm_last_heartbeat_at = em_last_heartbeat_at s, dm_safe_execution_state = True,
                 dm_heartbeat_lost_at = Some now, dm_reason_codes = [heartbeat_lost_code],
                 dm_updated_at = now\<rparr>
           in seq (on_em (set_dead_man engaged)) (\<lambda>_.
              seq (em_send (Audited ''dead_man.engaged'' ''heartbeat lost'')) (\<lambda>_.
              seq (em_send (Emitted ''system.emergency.heartbeat_lost'')) (\<lambda>_.
              seq (em_send (Alerted ''DEAD_MAN_SWITCH_ENGAGED'' AS_CRITICAL ''heartbeat lost'')) (\<lambda>_.
              seq (run_callback (epol_flatten_on_heartbeat_loss policy) flattener
                     ''dead man switch: heartbeat lost'' ''dead_man.flatten'' ''no open positions'') (\<lambda>_.
              ret engaged))))))))"

section \<open>Emergency closures\<close>

definition assert_emergency_close_authorized ::
    "emergency_policy \<Rightarrow> order_intent \<Rightarrow> ('w em_world, exn, unit) prog" where
  "assert_emergency_close_authorized policy intent =
     seq (guard (oi_strategy_id intent = emergency_strategy_id)
           (EmergencyControlViolation [''NOT_AN_EMERGENCY_CLOSURE''])) (\<lambda>_.
     seq (reads (\<lambda>(s, w). emergency_kill_active s \<or> safe_execution_state_active s)) (\<lambda>active.
     seq (guard active (EmergencyControlViolation [''NO_EMERGENCY_ACTIVE''])) (\<lambda>_.
     guard (epol_flatten_on_emergency_kill policy \<or> epol_flatten_on_heartbeat_loss policy)
       (EmergencyControlViolation [''FLATTEN_NOT_CONFIGURED'']))))"

definition assert_mutation_authorized :: "('w em_world, exn, unit) prog" where
  "assert_mutation_authorized =
     seq (reads (\<lambda>(s, w). emergency_kill_active s)) (\<lambda>active.
       guard active (EmergencyControlViolation [''NO_EMERGENCY_ACTIVE'']))"

definition offsetting_side :: "position_side \<Rightarrow> order_side" where
  "offsetting_side side = (if side = PS_LONG then SELL else BUY)"

fun closes_some_position :: "execution_position list \<Rightarrow> order_intent \<Rightarrow> bool" where
  "closes_some_position [] intent = False"
| "closes_some_position (p # ps) intent =
     (if ep_instrument_id p \<noteq> oi_instrument_id intent then closes_some_position ps intent
      else if oi_side intent = offsetting_side (ep_side p) \<and> oi_quantity intent = ep_quantity p
      then True else closes_some_position ps intent)"

definition assert_emergency_closure_matches_positions ::
    "execution_position list \<Rightarrow> order_intent \<Rightarrow> exn + unit" where
  "assert_emergency_closure_matches_positions positions intent =
     (if oi_order_type intent \<noteq> MARKET then Inl (EmergencyControlViolation [''NOT_A_MARKET_CLOSURE''])
      else if closes_some_position positions intent then Inr ()
      else Inl (EmergencyControlViolation [''INTENT_DOES_NOT_CLOSE_AN_OPEN_POSITION'']))"


section \<open>Properties\<close>

text \<open>The dictionary is keyed by level and target, which every operation keeps.\<close>

definition controls_ok :: "emergency_state \<Rightarrow> bool" where
  "controls_ok s \<longleftrightarrow> distinct (map fst (em_controls s)) \<and>
     (\<forall>(k, c) \<in> set (em_controls s). k = (ec_level c, ec_target c))"

lemma set_active_controls:
  "set (list_active_controls s) = {c. c \<in> snd ` set (em_controls s) \<and> ec_active c}"
  by (auto simp: list_active_controls_def)

lemma kill_active_iff:
  assumes "controls_ok s"
  shows "kill_active level target s \<longleftrightarrow> (\<exists>c. get_control level target s = Some c \<and> ec_active c)"
proof -
  have "get_control level target s = Some c \<longleftrightarrow> ((level, target), c) \<in> set (em_controls s)" for c
    using assms by (simp add: get_control_def controls_ok_def)
  then show ?thesis
    using assms
    by (force simp: kill_active_def list_ex_iff set_active_controls controls_ok_def)
qed

lemma controls_ok_update:
  assumes "controls_ok s" and "k = (ec_level c, ec_target c)"
  shows "controls_ok (s\<lparr>em_controls := AList.update k c (em_controls s)\<rparr>)"
  using assms set_alist_update_subset [of k c "em_controls s"]
  by (auto simp: controls_ok_def distinct_update)

lemma controls_ok_signals [simp]:
  "controls_ok (s\<lparr>em_signals := x\<rparr>) = controls_ok s"
  "controls_ok (s\<lparr>em_dead_man := d\<rparr>) = controls_ok s"
  by (simp_all add: controls_ok_def)

lemma active_controls_cong:
  "em_controls s = em_controls t \<Longrightarrow> list_active_controls s = list_active_controls t"
  by (simp add: list_active_controls_def)

text \<open>
  The entry gate is sound and complete. A new entry of a strategy in an instrument passes
  exactly when the strategy is not killed, the instrument is not killed, and neither a
  platform-wide control nor the dead man switch blocks entries; otherwise the exception names
  at least one reason. The check never changes the state.
\<close>

lemma entry_gate_exact:
  "assert_can_enter strategy_id instrument_id (s, w) =
     (if strategy_killed strategy_id s \<or> instrument_killed instrument_id s \<or> new_entries_blocked s
      then Inl (EmergencyControlViolation (blocked_reasons strategy_id instrument_id s))
      else Inr (), s, w) \<and>
   (blocked_reasons strategy_id instrument_id s = [] \<longleftrightarrow>
      \<not> (strategy_killed strategy_id s \<or> instrument_killed instrument_id s \<or> new_entries_blocked s))"
proof -
  have none: "control_reason strategy_id instrument_id c = [] \<longleftrightarrow>
      \<not> (ec_level c = STRATEGY_KILL \<and> ec_target c = Some strategy_id) \<and>
      \<not> (ec_level c = INSTRUMENT_KILL \<and> ec_target c = Some instrument_id) \<and>
      ec_level c \<noteq> NO_NEW_POSITIONS \<and> ec_level c \<noteq> EMERGENCY_KILL" for c
    by (cases "ec_level c") (auto simp: control_reason_def)
  have "blocked_reasons strategy_id instrument_id s = [] \<longleftrightarrow>
      \<not> (strategy_killed strategy_id s \<or> instrument_killed instrument_id s \<or> new_entries_blocked s)"
    by (auto simp: blocked_reasons_def none strategy_killed_def instrument_killed_def
        kill_active_def new_entries_blocked_def list_ex_iff)
  then show ?thesis by (simp add: assert_can_enter_def)
qed

lemma activate_run:
  assumes "\<not> is_blank actor" and "reason \<noteq> []" and "validate_target level target = Inr ()"
    and "level \<noteq> EMERGENCY_KILL"
  shows "\<exists>c sig. activate policy canceller flattener level target actor reason now (s, w) =
     (Inr c, (set_control c s)\<lparr>em_signals := sig\<rparr>, w) \<and>
     ec_level c = level \<and> ec_target c = target \<and> ec_active c"
proof -
  have "strip actor \<noteq> []" using assms(1) by (simp add: is_blank_def)
  moreover have "actor \<noteq> []" using assms(1) by (auto simp: is_blank_def strip_def)
  moreover have "(level \<in> set targeted_levels) = has_target target"
    using assms(3) by (auto simp: validate_target_def split: if_splits)
  ultimately show ?thesis
    using assms
    by (simp add: activate_def Let_def on_em_def em_send_def em_emit_def
        valid_emergency_control_def set_control_def) (rule exI, rule refl)
qed

lemma deactivate_run:
  assumes "\<not> is_blank actor" and "reason \<noteq> []" and "validate_target level target = Inr ()"
  shows "\<exists>c sig. deactivate level target actor reason now (s, w) =
     (Inr c, (snd (clear_control level target (strip actor) reason now s))\<lparr>em_signals := sig\<rparr>, w)"
proof -
  have "strip actor \<noteq> []" "actor \<noteq> []" using assms(1) by (auto simp: is_blank_def strip_def)
  moreover have "(level \<in> set targeted_levels) = has_target target"
    using assms(3) by (auto simp: validate_target_def split: if_splits)
  ultimately show ?thesis
    using assms
    by (auto simp: deactivate_def on_em_def em_send_def em_emit_def clear_control_def
        valid_emergency_control_def Let_def split: option.split)
qed

lemma kill_active_signals [simp]: "kill_active l t (s\<lparr>em_signals := x\<rparr>) = kill_active l t s"
  by (simp add: kill_active_def list_active_controls_def)

lemma clear_control_effect:
  assumes "controls_ok s"
  shows "controls_ok (snd (clear_control level target actor reason now s))"
    and "kill_active l t (snd (clear_control level target actor reason now s)) \<longleftrightarrow>
      (l, t) \<noteq> (level, target) \<and> kill_active l t s"
proof -
  let ?u = "snd (clear_control level target actor reason now s)"
  show ok: "controls_ok ?u"
  proof (cases "get_control level target s")
    case None
    then show ?thesis using assms by (simp add: clear_control_def)
  next
    case (Some x)
    then have "((level, target), x) \<in> set (em_controls s)"
      unfolding get_control_def by (rule map_of_SomeD)
    then have "(level, target) = (ec_level x, ec_target x)" using assms by (auto simp: controls_ok_def)
    then show ?thesis using Some assms by (simp add: clear_control_def Let_def controls_ok_update)
  qed
  have "get_control l t ?u = (if (l, t) = (level, target) then
      map_option (\<lambda>x. x\<lparr>ec_active := False, ec_deactivated_by := Some actor,
        ec_deactivate_reason := Some reason, ec_deactivated_at := Some now, ec_updated_at := now\<rparr>)
        (get_control level target s)
      else get_control l t s)"
    by (simp add: get_control_def clear_control_def Let_def split: option.split)
  then show "kill_active l t ?u \<longleftrightarrow> (l, t) \<noteq> (level, target) \<and> kill_active l t s"
    unfolding kill_active_iff [OF ok] kill_active_iff [OF assms] by auto
qed

text \<open>
  A kill switch does what its name says and nothing else. Activating a strategy,
  instrument or portfolio kill makes exactly that control active and leaves every other as it
  was; deactivating it makes exactly that control inactive.
\<close>

lemma kill_switch_effect:
  assumes "controls_ok s" and "\<not> is_blank actor" and "reason \<noteq> []"
    and "validate_target level target = Inr ()" and "level \<noteq> EMERGENCY_KILL"
  shows "let s1 = fst (snd (activate policy canceller flattener level target actor reason now (s, w)));
             s2 = fst (snd (deactivate level target actor reason now (s, w)))
    in controls_ok s1 \<and> controls_ok s2 \<and>
       (\<forall>l t. kill_active l t s1 \<longleftrightarrow> (l, t) = (level, target) \<or> kill_active l t s) \<and>
       (\<forall>l t. kill_active l t s2 \<longleftrightarrow> (l, t) \<noteq> (level, target) \<and> kill_active l t s)"
proof -
  obtain c sig where a: "activate policy canceller flattener level target actor reason now (s, w) =
      (Inr c, (set_control c s)\<lparr>em_signals := sig\<rparr>, w)"
    and c: "ec_level c = level" "ec_target c = target" "ec_active c"
    using activate_run [OF assms(2-5), of policy canceller flattener now s w] by auto
  have ok1: "controls_ok (set_control c s)"
    unfolding set_control_def using assms(1) by (rule controls_ok_update) simp
  have k1: "kill_active l t (set_control c s) \<longleftrightarrow> (l, t) = (level, target) \<or> kill_active l t s" for l t
    unfolding kill_active_iff [OF ok1] kill_active_iff [OF assms(1)]
    using c by (auto simp: get_control_def set_control_def)
  let ?u = "snd (clear_control level target (strip actor) reason now s)"
  obtain d sig' where d: "deactivate level target actor reason now (s, w) = (Inr d, ?u\<lparr>em_signals := sig'\<rparr>, w)"
    using deactivate_run [OF assms(2-4), of now s w] by auto
  show ?thesis using a d ok1 k1 clear_control_effect [OF assms(1)] by (simp add: Let_def)
qed

lemma kill_switch_effect_witness:
  "strategy_killed ''trend'' (fst (snd (activate default_emergency_policy None None STRATEGY_KILL
     (Some ''trend'') ''ops'' ''drift'' 5 (new_controller 0, ()))))"
proof -
  have ok: "controls_ok (new_controller 0)" by (simp add: controls_ok_def new_controller_def)
  have "\<not> is_blank ''ops''" "''drift'' \<noteq> []" "validate_target STRATEGY_KILL (Some ''trend'') = Inr ()"
    "STRATEGY_KILL \<noteq> EMERGENCY_KILL"
    by (simp_all add: is_blank_iff is_space_def validate_target_def has_target_def targeted_levels_def)
  from kill_switch_effect [OF ok this, of default_emergency_policy None None 5 "()"]
  show ?thesis by (simp add: Let_def strategy_killed_def)
qed

text \<open>
  Flattening is never implicit. Without the explicit opt-in of the policy the flattener is
  irrelevant: neither an emergency kill nor a lost heartbeat runs it, whatever it would do.
\<close>

lemma flattening_needs_opt_in:
  "(\<not> epol_flatten_on_emergency_kill policy \<longrightarrow>
      activate policy canceller flattener level target actor reason now =
      activate policy canceller None level target actor reason now) \<and>
   (\<not> epol_flatten_on_heartbeat_loss policy \<longrightarrow>
      check_dead_man policy flattener now = check_dead_man policy None now \<and>
      snd (snd (check_dead_man policy flattener now (s, w))) = w)"
proof (intro conjI impI)
  have off: "run_callback False f r a n = ret ()" for f :: "'a callback" and r a n
    by (simp add: run_callback_def split: option.split)
  assume "\<not> epol_flatten_on_emergency_kill policy"
  then have "run_emergency_side_effects policy canceller flattener =
      run_emergency_side_effects policy canceller None"
    by (intro ext) (simp add: run_emergency_side_effects_def off)
  then show "activate policy canceller flattener level target actor reason now =
      activate policy canceller None level target actor reason now"
    by (simp only: activate_def)
next
  have off: "run_callback False f r a n = ret ()" for f :: "'b callback" and r a n
    by (simp add: run_callback_def split: option.split)
  assume "\<not> epol_flatten_on_heartbeat_loss policy"
  then have no: "run_callback (epol_flatten_on_heartbeat_loss policy) f r a n = ret ()"
    for f :: "'b callback" and r a n by (simp add: off)
  show "check_dead_man policy flattener now = check_dead_man policy None now"
    by (simp only: check_dead_man_def no)
  show "snd (snd (check_dead_man policy flattener now (s, w))) = w"
    by (simp add: check_dead_man_def no on_em_def em_send_def Let_def)
qed

lemma flattening_needs_opt_in_witness:
  "check_dead_man default_emergency_policy (Some (\<lambda>_ (s, w). (Inr [], s, Suc w))) 9000000
     (new_controller 0, 0) = check_dead_man default_emergency_policy None 9000000 (new_controller 0, 0)"
proof -
  have "\<not> epol_flatten_on_heartbeat_loss default_emergency_policy"
    by (simp add: default_emergency_policy_def)
  then show ?thesis
    using flattening_needs_opt_in [of default_emergency_policy None
        "Some (\<lambda>_ (s, w). (Inr [], s, Suc w))" STRATEGY_KILL None "[]" "[]" 9000000]
    by simp
qed

text \<open>
  The dead man switch. With the default opt-outs, a check leaves the controls alone and
  ends in the safe execution state exactly when it was in it before or the last heartbeat is
  older than the timeout; it then blocks every entry, is recorded once (a second check changes
  nothing), and a later heartbeat clears it.
\<close>

lemma dead_man_switch:
  assumes "epol_dead_man_switch_enabled policy" and "\<not> epol_flatten_on_heartbeat_loss policy"
  shows "let s1 = fst (snd (check_dead_man policy flattener now (s, w))) in
    em_controls s1 = em_controls s \<and>
    (safe_execution_state_active s1 \<longleftrightarrow>
       safe_execution_state_active s \<or> epol_heartbeat_timeout policy < now - heartbeat_reference s) \<and>
    (safe_execution_state_active s1 \<longrightarrow> new_entries_blocked s1) \<and>
    snd (check_dead_man policy flattener now (s1, w)) = (s1, w) \<and>
    (\<not> safe_execution_state_active s \<longrightarrow> safe_execution_state_active s1 \<longrightarrow>
       \<not> safe_execution_state_active (fst (snd (on_heartbeat policy received (s1, w)))))"
proof -
  have cb: "run_callback (epol_flatten_on_heartbeat_loss policy) flattener r a n = ret ()" for r a n
    using assms(2) by (simp add: run_callback_def split: option.split)
  show ?thesis
    using assms(1)
    by (auto simp: check_dead_man_def on_em_def em_send_def cb Let_def set_dead_man_def
        safe_execution_state_active_def get_dead_man_def new_entries_blocked_def on_heartbeat_def
        heartbeat_lost_code_def heartbeat_reference_def split: option.splits)
qed

lemma dead_man_switch_witness:
  "safe_execution_state_active (fst (snd (check_dead_man default_emergency_policy None 9000000
     (new_controller 0, ()))))"
proof -
  have "epol_dead_man_switch_enabled default_emergency_policy"
    "\<not> epol_flatten_on_heartbeat_loss default_emergency_policy"
    by (simp_all add: default_emergency_policy_def)
  from dead_man_switch [OF this, of None 9000000 "new_controller 0" "()"]
  show ?thesis
    by (simp add: Let_def default_emergency_policy_def heartbeat_reference_def new_controller_def
        seconds_def)
qed

lemma closes_some_position_iff:
  "closes_some_position ps intent \<longleftrightarrow>
   (\<exists>p \<in> set ps. ep_instrument_id p = oi_instrument_id intent \<and>
      oi_side intent = offsetting_side (ep_side p) \<and> oi_quantity intent = ep_quantity p)"
  by (induction ps) auto


end
