(* ===== verification/Live_Gate.thy ===== *)
theory Live_Gate
  imports Exec_Contracts Canonical_Json
begin

text \<open>
  The human approval gate of \<^verbatim>\<open>engines/execution/live_gate.py\<close>: the approval record, the
  in-memory approval store, and every operation of \<open>HumanApprovalGate\<close>. HMAC-SHA256 and
  SHA-256 are fields of the gate (\<open>lg_hmac\<close>, \<open>lg_sha256\<close>): nothing below depends on
  what they compute. The answer of the demo-account attestor, the reading of the clock and the
  random approval identifier are arguments of the operation that asks for them. The audit
  logger is present.

  \<open>approve\<close> and \<open>consume\<close> run under the lock of the gate; \<open>reject\<close> and
  \<open>revalidate\<close> do not, so they take the interference \<open>others\<close> that other threads may
  cause between their read and their write.
\<close>

datatype approval_status =
    AP_WAITING_FOR_HUMAN | AP_APPROVED | AP_CONSUMED | AP_EXPIRED | AP_REVALIDATION_REQUIRED
  | AP_REJECTED

datatype kill_scope = KS_STRATEGY | KS_INSTRUMENT | KS_PORTFOLIO | KS_EMERGENCY

fun kill_scope_value :: "kill_scope \<Rightarrow> string" where
  "kill_scope_value KS_STRATEGY = ''STRATEGY''"
| "kill_scope_value KS_INSTRUMENT = ''INSTRUMENT''"
| "kill_scope_value KS_PORTFOLIO = ''PORTFOLIO''"
| "kill_scope_value KS_EMERGENCY = ''EMERGENCY''"

record price_context =
  pc_bid :: decimal
  pc_ask :: decimal
  pc_observed_at :: instant

definition valid_price_context :: "price_context \<Rightarrow> bool" where
  "valid_price_context p \<longleftrightarrow> 0 < pc_bid p \<and> 0 < pc_ask p"

definition midpoint :: "price_context \<Rightarrow> decimal" where
  "midpoint p = ddiv_nz (dadd (pc_bid p) (pc_ask p)) 2"

record live_gate_config =
  lgc_approval_ttl :: duration
  lgc_max_price_drift_bps :: decimal
  lgc_max_quote_age :: duration
  lgc_broker_demo :: bool
  lgc_max_live_quantity :: "decimal option"

definition live_gate_config_post_init :: "live_gate_config \<Rightarrow> exn + live_gate_config" where
  "live_gate_config_post_init c =
     (if lgc_approval_ttl c \<le> 0 \<or> lgc_max_quote_age c \<le> 0
      then Inl (ValueError ''approval and quote lifetimes must be positive'')
      else if lgc_max_price_drift_bps c < 0
      then Inl (ValueError ''max_price_drift_bps must be non-negative'')
      else if (case lgc_max_live_quantity c of None \<Rightarrow> False | Some q \<Rightarrow> q \<le> 0)
      then Inl (ValueError ''max_live_quantity must be positive'')
      else Inr c)"

record approval_record =
  ar_approval_id :: uuid
  ar_order_intent_id :: uuid
  ar_risk_decision_id :: uuid
  ar_strategy_id :: string
  ar_strategy_version :: string
  ar_instrument_id :: string
  ar_intent_hash :: string
  ar_price_context :: price_context
  ar_requested_at :: instant
  ar_expires_at :: instant
  ar_status :: approval_status
  ar_approver_id :: "string option"
  ar_approved_at :: "instant option"
  ar_consumed_at :: "instant option"
  ar_signature :: "string option"
  ar_invalidation_reason :: "string option"

subsection \<open>The approval store\<close>

record approval_store =
  as_records :: "(uuid, approval_record) dict"
  as_kills :: "(kill_scope \<times> string option, string \<times> string \<times> instant) dict"

definition get_approval :: "uuid \<Rightarrow> approval_store \<Rightarrow> approval_record option" where
  "get_approval oid s = map_of (as_records s) oid"

definition put_approval :: "approval_record \<Rightarrow> approval_store \<Rightarrow> approval_store" where
  "put_approval r s = s\<lparr>as_records := AList.update (ar_order_intent_id r) r (as_records s)\<rparr>"

definition put_if_absent :: "approval_record \<Rightarrow> approval_store \<Rightarrow> bool \<times> approval_store" where
  "put_if_absent r s =
     (case get_approval (ar_order_intent_id r) s of
        Some _ \<Rightarrow> (False, s)
      | None \<Rightarrow> (True, put_approval r s))"

definition compare_and_put ::
    "approval_status \<Rightarrow> approval_record \<Rightarrow> approval_store \<Rightarrow> bool \<times> approval_store" where
  "compare_and_put expected r s =
     (case get_approval (ar_order_intent_id r) s of
        None \<Rightarrow> (False, s)
      | Some current \<Rightarrow>
          if ar_status current \<noteq> expected then (False, s) else (True, put_approval r s))"

definition active_kills :: "approval_store \<Rightarrow> (kill_scope \<times> string option) list" where
  "active_kills s = map fst (as_kills s)"

definition set_kill ::
    "kill_scope \<Rightarrow> string option \<Rightarrow> string \<Rightarrow> string \<Rightarrow> instant \<Rightarrow> approval_store \<Rightarrow> approval_store" where
  "set_kill scope target actor reason now s =
     s\<lparr>as_kills := AList.update (scope, target) (actor, reason, now) (as_kills s)\<rparr>"

definition store_clear_kill :: "kill_scope \<Rightarrow> string option \<Rightarrow> approval_store \<Rightarrow> approval_store" where
  "store_clear_kill scope target s = s\<lparr>as_kills := AList.delete (scope, target) (as_kills s)\<rparr>"

text \<open>
  The part of the \<open>ApprovalStore\<close> protocol the gate relies on: a compare-and-put has a single
  winner per status.
\<close>

locale approval_protocol =
  fixes lookup :: "uuid \<Rightarrow> 's \<Rightarrow> approval_record option"
    and insert_new :: "approval_record \<Rightarrow> 's \<Rightarrow> bool \<times> 's"
    and cas :: "approval_status \<Rightarrow> approval_record \<Rightarrow> 's \<Rightarrow> bool \<times> 's"
  assumes insert_new_ok: "insert_new r s = (True, s') \<Longrightarrow>
      lookup (ar_order_intent_id r) s = None \<and>
      (\<forall>k. lookup k s' = (if k = ar_order_intent_id r then Some r else lookup k s))"
    and insert_new_fail: "insert_new r s = (False, s') \<Longrightarrow>
      s' = s \<and> lookup (ar_order_intent_id r) s \<noteq> None"
    and cas_ok: "cas e r s = (True, s') \<Longrightarrow>
      map_option ar_status (lookup (ar_order_intent_id r) s) = Some e \<and>
      (\<forall>k. lookup k s' = (if k = ar_order_intent_id r then Some r else lookup k s))"
    and cas_fail: "cas e r s = (False, s') \<Longrightarrow>
      s' = s \<and> map_option ar_status (lookup (ar_order_intent_id r) s) \<noteq> Some e"
begin

lemma single_winner:
  assumes "cas e r s = (True, s')" and "ar_status r \<noteq> e" and "ar_order_intent_id q = ar_order_intent_id r"
  shows "cas e q s' = (False, s')"
proof -
  have "map_option ar_status (lookup (ar_order_intent_id q) s') = Some (ar_status r)"
    using cas_ok [OF assms(1)] assms(3) by simp
  then have "\<not> fst (cas e q s')" using cas_ok [of e q s'] assms(2) by (cases "cas e q s'") auto
  then show ?thesis using cas_fail [of e q s'] by (cases "cas e q s'") auto
qed

lemma insert_once:
  assumes "insert_new r s = (True, s')" and "ar_order_intent_id q = ar_order_intent_id r"
  shows "insert_new q s' = (False, s')"
proof -
  have "lookup (ar_order_intent_id q) s' \<noteq> None" using insert_new_ok [OF assms(1)] assms(2) by simp
  then have "\<not> fst (insert_new q s')" using insert_new_ok [of q s'] by (cases "insert_new q s'") auto
  then show ?thesis using insert_new_fail [of q s'] by (cases "insert_new q s'") auto
qed

end

lemma get_put_approval [simp]:
  "get_approval k (put_approval r s) = (if k = ar_order_intent_id r then Some r else get_approval k s)"
  by (simp add: get_approval_def put_approval_def)

interpretation appr: approval_protocol get_approval put_if_absent compare_and_put
  by unfold_locales
    (auto simp: put_if_absent_def compare_and_put_def split: option.splits if_splits)

subsection \<open>The gate\<close>

record live_gate =
  lg_key :: "nat list"
  lg_config :: live_gate_config
  lg_attestor_present :: bool
  lg_hmac :: "nat list \<Rightarrow> json \<Rightarrow> string"
  lg_sha256 :: "order_intent \<Rightarrow> string"

record gate_state =
  gs_store :: approval_store
  gs_audit :: "(string \<times> string \<times> json) list"

type_synonym 'a gate_prog = "(gate_state, exn, 'a) prog"

definition new_gate :: "live_gate \<Rightarrow> exn + live_gate" where
  "new_gate g =
     (if length (lg_key g) < 32
      then Inl (ValueError ''approval signing key must contain at least 32 bytes'')
      else if lgc_max_live_quantity (lg_config g) = None \<and>
        (\<not> lgc_broker_demo (lg_config g) \<or> \<not> lg_attestor_present g)
      then Inl (ValueError ''LIVE_GATED requires broker demo attestation or an explicit tiny max_live_quantity'')
      else Inr g)"

definition violation :: "bool \<Rightarrow> string \<Rightarrow> unit gate_prog" where
  "violation b message = guard (\<not> b) (LiveGateViolation message)"

definition gate_put :: "approval_record \<Rightarrow> approval_record gate_prog" where
  "gate_put r = seq (modify (\<lambda>s. s\<lparr>gs_store := put_approval r (gs_store s)\<rparr>)) (\<lambda>_. ret r)"

definition gate_cas :: "approval_status \<Rightarrow> approval_record \<Rightarrow> bool gate_prog" where
  "gate_cas e r s = (let (ok, st) = compare_and_put e r (gs_store s) in (Inr ok, s\<lparr>gs_store := st\<rparr>))"

definition gate_put_if_absent :: "approval_record \<Rightarrow> bool gate_prog" where
  "gate_put_if_absent r s = (let (ok, st) = put_if_absent r (gs_store s) in (Inr ok, s\<lparr>gs_store := st\<rparr>))"

definition audit_entry :: "string \<Rightarrow> string \<Rightarrow> json \<Rightarrow> unit gate_prog" where
  "audit_entry action actor target = modify (\<lambda>s. s\<lparr>gs_audit := gs_audit s @ [(action, actor, target)]\<rparr>)"

definition required :: "uuid \<Rightarrow> approval_record gate_prog" where
  "required oid = seq (reads (\<lambda>s. get_approval oid (gs_store s))) (\<lambda>r.
     case r of None \<Rightarrow> raise (LiveGateViolation ''explicit human approval is required'')
       | Some record \<Rightarrow> ret record)"

definition kill_keys :: "string \<Rightarrow> string \<Rightarrow> (kill_scope \<times> string option) list" where
  "kill_keys strategy instrument =
     [(KS_EMERGENCY, None), (KS_PORTFOLIO, None), (KS_STRATEGY, Some strategy),
      (KS_INSTRUMENT, Some instrument)]"

definition killed :: "string \<Rightarrow> string \<Rightarrow> gate_state \<Rightarrow> bool" where
  "killed strategy instrument s \<longleftrightarrow>
     list_ex (\<lambda>key. key \<in> set (active_kills (gs_store s))) (kill_keys strategy instrument)"

definition assert_no_kill :: "order_intent \<Rightarrow> unit gate_prog" where
  "assert_no_kill intent =
     seq (reads (killed (oi_strategy_id intent) (oi_instrument_id intent)))
       (\<lambda>k. violation k ''an active kill switch blocks this order'')"

definition assert_exposure :: "live_gate \<Rightarrow> bool \<Rightarrow> order_intent \<Rightarrow> unit gate_prog" where
  "assert_exposure g attests intent =
     (let cap = lgc_max_live_quantity (lg_config g);
          demo_attested = (lgc_broker_demo (lg_config g) \<and> lg_attestor_present g \<and> attests);
          above = (case cap of None \<Rightarrow> False | Some c \<Rightarrow> c < oi_quantity intent)
      in seq (violation (\<not> demo_attested \<and> (cap = None \<or> above)) ''order exceeds deliberately tiny live exposure'')
         (\<lambda>_. violation above ''order exceeds configured live exposure''))"

definition assert_quote_fresh :: "live_gate \<Rightarrow> price_context \<Rightarrow> instant \<Rightarrow> unit gate_prog" where
  "assert_quote_fresh g price now =
     seq (violation (pc_ask price < pc_bid price) ''invalid price context: ask is below bid'') (\<lambda>_.
     let age = now - pc_observed_at price
     in violation (age < 0 \<or> lgc_max_quote_age (lg_config g) < age) ''price context is stale'')"

definition price_drift_bps :: "price_context \<Rightarrow> price_context \<Rightarrow> decimal" where
  "price_drift_bps approved current =
     dmul (ddiv_nz (dabs (dsub (midpoint current) (midpoint approved))) (midpoint approved)) 10000"

definition materially_changed :: "live_gate \<Rightarrow> price_context \<Rightarrow> price_context \<Rightarrow> bool" where
  "materially_changed g approved current \<longleftrightarrow>
     lgc_max_price_drift_bps (lg_config g) < price_drift_bps approved current"

definition matches_intent :: "live_gate \<Rightarrow> approval_record \<Rightarrow> order_intent \<Rightarrow> bool" where
  "matches_intent g r intent \<longleftrightarrow>
     ar_order_intent_id r = oi_order_intent_id intent \<and>
     ar_risk_decision_id r = oi_risk_decision_id intent \<and>
     ar_strategy_id r = oi_strategy_id intent \<and>
     ar_strategy_version r = oi_strategy_version intent \<and>
     ar_instrument_id r = oi_instrument_id intent \<and>
     ar_intent_hash r = lg_sha256 g intent"

definition approval_payload :: "approval_record \<Rightarrow> string \<Rightarrow> instant \<Rightarrow> json" where
  "approval_payload r approver approved_at = JObj
     [(''approval_id'', JUuid (ar_approval_id r)),
      (''order_intent_id'', JUuid (ar_order_intent_id r)),
      (''risk_decision_id'', JUuid (ar_risk_decision_id r)),
      (''strategy_id'', JStr (ar_strategy_id r)),
      (''strategy_version'', JStr (ar_strategy_version r)),
      (''instrument_id'', JStr (ar_instrument_id r)),
      (''intent_hash'', JStr (ar_intent_hash r)),
      (''price_context'', JObj
        [(''bid'', JDecimal (pc_bid (ar_price_context r))),
         (''ask'', JDecimal (pc_ask (ar_price_context r))),
         (''observed_at'', JDatetime (pc_observed_at (ar_price_context r)))]),
      (''requested_at'', JDatetime (ar_requested_at r)),
      (''approved_at'', JDatetime approved_at),
      (''expires_at'', JDatetime (ar_expires_at r)),
      (''approver_id'', JStr approver)]"

definition signature :: "live_gate \<Rightarrow> approval_record \<Rightarrow> exn + string" where
  "signature g r =
     (case (ar_approver_id r, ar_approved_at r) of
        (Some approver, Some approved_at) \<Rightarrow>
          Inr (lg_hmac g (lg_key g) (sort_keys (approval_payload r approver approved_at)))
      | _ \<Rightarrow> Inl (LiveGateViolation ''cannot sign an incomplete approval''))"

definition sign :: "live_gate \<Rightarrow> approval_record \<Rightarrow> string gate_prog" where
  "sign g r = (case signature g r of Inl e \<Rightarrow> raise e | Inr x \<Rightarrow> ret x)"

definition verify_signature :: "live_gate \<Rightarrow> approval_record \<Rightarrow> string \<Rightarrow> unit gate_prog" where
  "verify_signature g r message =
     (case ar_signature r of
        None \<Rightarrow> raise (LiveGateViolation message)
      | Some x \<Rightarrow> seq (sign g r) (\<lambda>y. violation (x \<noteq> y) message))"

definition request_approval ::
    "live_gate \<Rightarrow> bool \<Rightarrow> uuid \<Rightarrow> order_intent \<Rightarrow> price_context \<Rightarrow> instant \<Rightarrow> approval_record gate_prog" where
  "request_approval g attests fresh_id intent price now =
     seq (assert_exposure g attests intent) (\<lambda>_.
     seq (assert_no_kill intent) (\<lambda>_.
     seq (assert_quote_fresh g price now) (\<lambda>_.
     seq (violation (case oi_valid_until intent of None \<Rightarrow> False | Some t \<Rightarrow> t \<le> now)
       ''OrderIntent is stale'') (\<lambda>_.
     let expires_at = now + lgc_approval_ttl (lg_config g);
         expires_at = (case oi_valid_until intent of None \<Rightarrow> expires_at | Some t \<Rightarrow> min expires_at t);
         record = \<lparr>ar_approval_id = fresh_id, ar_order_intent_id = oi_order_intent_id intent,
           ar_risk_decision_id = oi_risk_decision_id intent, ar_strategy_id = oi_strategy_id intent,
           ar_strategy_version = oi_strategy_version intent,
           ar_instrument_id = oi_instrument_id intent, ar_intent_hash = lg_sha256 g intent,
           ar_price_context = price, ar_requested_at = now, ar_expires_at = expires_at,
           ar_status = AP_WAITING_FOR_HUMAN, ar_approver_id = None, ar_approved_at = None,
           ar_consumed_at = None, ar_signature = None, ar_invalidation_reason = None\<rparr>
     in seq (gate_put_if_absent record) (\<lambda>ok.
        seq (violation (\<not> ok) ''an approval lifecycle already exists for this OrderIntent'') (\<lambda>_.
        seq (audit_entry ''live_gate.approval_requested'' ''system'' (JUuid (ar_order_intent_id record))) (\<lambda>_.
        ret record)))))))"

definition assert_consumed_authorization :: "live_gate \<Rightarrow> order_intent \<Rightarrow> instant \<Rightarrow> unit gate_prog" where
  "assert_consumed_authorization g intent now =
     seq (required (oi_order_intent_id intent)) (\<lambda>record.
     seq (violation (ar_status record \<noteq> AP_CONSUMED) ''MT4 submission lacks a consumed human approval'') (\<lambda>_.
     seq (violation (ar_expires_at record \<le> now) ''MT4 submission approval expired'') (\<lambda>_.
     seq (violation (\<not> matches_intent g record intent)
       ''MT4 submission does not match the approved OrderIntent'') (\<lambda>_.
     seq (verify_signature g record ''MT4 submission approval signature verification failed'') (\<lambda>_.
     seq (reads (killed (ar_strategy_id record) (ar_instrument_id record))) (\<lambda>k.
     violation k ''an active kill switch blocks MT4 submission''))))))"

definition approve :: "live_gate \<Rightarrow> uuid \<Rightarrow> string \<Rightarrow> instant \<Rightarrow> approval_record gate_prog" where
  "approve g oid approver_id now =
     seq (violation (is_blank approver_id) ''an authenticated approver identity is required'') (\<lambda>_.
     seq (required oid) (\<lambda>record.
     seq (violation (ar_status record \<noteq> AP_WAITING_FOR_HUMAN) ''approval is not waiting for a human'') (\<lambda>_.
     if ar_expires_at record \<le> now
     then seq (gate_put (record\<lparr>ar_status := AP_EXPIRED\<rparr>)) (\<lambda>_.
       raise (LiveGateViolation ''approval request expired''))
     else
       let approved = record\<lparr>ar_status := AP_APPROVED, ar_approver_id := Some (strip approver_id),
             ar_approved_at := Some now\<rparr>
       in seq (sign g approved) (\<lambda>x.
          let approved = approved\<lparr>ar_signature := Some x\<rparr>
          in seq (gate_cas AP_WAITING_FOR_HUMAN approved) (\<lambda>ok.
             seq (violation (\<not> ok) ''approval changed concurrently'') (\<lambda>_.
             seq (audit_entry ''live_gate.approved'' (strip approver_id) (JUuid (ar_order_intent_id approved))) (\<lambda>_.
             ret approved)))))))"

definition reject ::
    "(gate_state \<Rightarrow> gate_state) \<Rightarrow> uuid \<Rightarrow> string \<Rightarrow> approval_record gate_prog" where
  "reject others oid approver_id =
     seq (required oid) (\<lambda>record.
     seq (violation (ar_status record \<noteq> AP_WAITING_FOR_HUMAN) ''approval is not waiting for a human'') (\<lambda>_.
     seq (modify others) (\<lambda>_.
     gate_put (record\<lparr>ar_status := AP_REJECTED, ar_approver_id := Some (strip approver_id)\<rparr>))))"

definition revalidate ::
    "live_gate \<Rightarrow> (gate_state \<Rightarrow> gate_state) \<Rightarrow> uuid \<Rightarrow> uuid \<Rightarrow> order_intent \<Rightarrow> risk_decision \<Rightarrow>
     price_context \<Rightarrow> instant \<Rightarrow> approval_record gate_prog" where
  "revalidate g others fresh_id oid intent decision price now =
     seq (required oid) (\<lambda>record.
     seq (violation (ar_status record \<noteq> AP_REVALIDATION_REQUIRED) ''risk revalidation was not requested'') (\<lambda>_.
     seq (assert_quote_fresh g price now) (\<lambda>_.
     seq (violation (oi_order_intent_id intent \<noteq> ar_order_intent_id record)
       ''revalidated OrderIntent id does not match'') (\<lambda>_.
     seq (violation (oi_risk_decision_id intent \<noteq> rd_decision_id decision)
       ''revalidated OrderIntent is not bound to the risk decision'') (\<lambda>_.
     seq (violation (rd_decision decision \<noteq> RD_REJECT \<and>
         rd_approved_quantity decision \<noteq> Some (oi_quantity intent))
       ''revalidated quantity does not match risk approval'') (\<lambda>_.
     seq (modify others) (\<lambda>_.
     if rd_decision decision = RD_REJECT
     then gate_put (record\<lparr>ar_status := AP_REJECTED, ar_invalidation_reason := Some ''risk rejected''\<rparr>)
     else gate_put (record\<lparr>ar_approval_id := fresh_id, ar_risk_decision_id := rd_decision_id decision,
       ar_price_context := price, ar_intent_hash := lg_sha256 g intent, ar_requested_at := now,
       ar_expires_at := now + lgc_approval_ttl (lg_config g), ar_status := AP_WAITING_FOR_HUMAN,
       ar_approver_id := None, ar_approved_at := None, ar_consumed_at := None,
       ar_signature := None, ar_invalidation_reason := None\<rparr>))))))))"

definition consume ::
    "live_gate \<Rightarrow> bool \<Rightarrow> order_intent \<Rightarrow> price_context \<Rightarrow> instant \<Rightarrow> approval_record gate_prog" where
  "consume g attests intent price now =
     seq (assert_exposure g attests intent) (\<lambda>_.
     seq (assert_no_kill intent) (\<lambda>_.
     seq (required (oi_order_intent_id intent)) (\<lambda>record.
     seq (violation (ar_status record = AP_CONSUMED) ''approval was already consumed'') (\<lambda>_.
     seq (violation (ar_status record \<noteq> AP_APPROVED) ''explicit human approval is required'') (\<lambda>_.
     if ar_expires_at record \<le> now
     then seq (gate_put (record\<lparr>ar_status := AP_EXPIRED\<rparr>)) (\<lambda>_.
       raise (LiveGateViolation ''approval expired''))
     else
       seq (assert_quote_fresh g price now) (\<lambda>_.
       seq (violation (\<not> matches_intent g record intent)
         ''approved order does not match the current OrderIntent'') (\<lambda>_.
       seq (verify_signature g record ''approval signature verification failed'') (\<lambda>_.
       if materially_changed g (ar_price_context record) price
       then seq (gate_put (record\<lparr>ar_status := AP_REVALIDATION_REQUIRED,
              ar_invalidation_reason := Some ''material price change''\<rparr>)) (\<lambda>_.
         raise (LiveGateViolation ''market changed materially; risk revalidation is required''))
       else
         let consumed = record\<lparr>ar_status := AP_CONSUMED, ar_consumed_at := Some now\<rparr>
         in seq (gate_cas AP_APPROVED consumed) (\<lambda>ok.
            seq (violation (\<not> ok) ''approval was already consumed'') (\<lambda>_.
            seq (audit_entry ''live_gate.approval_consumed'' ''execution-engine''
              (JUuid (ar_order_intent_id consumed))) (\<lambda>_.
            ret consumed)))))))))))"

definition activate_kill ::
    "kill_scope \<Rightarrow> string \<Rightarrow> string \<Rightarrow> string option \<Rightarrow> instant \<Rightarrow> unit gate_prog" where
  "activate_kill scope actor reason target now =
     seq (guard (\<not> (scope \<in> {KS_STRATEGY, KS_INSTRUMENT} \<and> \<not> has_target target))
       (ValueError ''kill requires a target'')) (\<lambda>_.
     seq (modify (\<lambda>s. s\<lparr>gs_store := set_kill scope target actor reason now (gs_store s)\<rparr>)) (\<lambda>_.
     audit_entry ''live_gate.kill_activated'' actor
       (JStr (case target of Some t \<Rightarrow> if t \<noteq> [] then t else kill_scope_value scope
              | None \<Rightarrow> kill_scope_value scope))))"

definition clear_kill ::
    "kill_scope \<Rightarrow> string \<Rightarrow> string option \<Rightarrow> unit gate_prog" where
  "clear_kill scope actor target =
     seq (modify (\<lambda>s. s\<lparr>gs_store := store_clear_kill scope target (gs_store s)\<rparr>)) (\<lambda>_.
     audit_entry ''live_gate.kill_cleared'' actor
       (JStr (case target of Some t \<Rightarrow> if t \<noteq> [] then t else kill_scope_value scope
              | None \<Rightarrow> kill_scope_value scope)))"

lemmas gate_check_defs = violation_def required_def assert_no_kill_def assert_exposure_def
  assert_quote_fresh_def sign_def verify_signature_def

lemmas gate_write_defs = gate_put_def gate_cas_def gate_put_if_absent_def audit_entry_def


subsection \<open>What each operation does to the approvals\<close>

definition signed_by :: "live_gate \<Rightarrow> approval_record \<Rightarrow> string \<Rightarrow> instant \<Rightarrow> bool" where
  "signed_by g r a t \<longleftrightarrow> a \<noteq> [] \<and> ar_approver_id r = Some a \<and> ar_approved_at r = Some t \<and>
     t < ar_expires_at r \<and>
     ar_signature r = Some (lg_hmac g (lg_key g) (sort_keys (approval_payload r a t)))"

inductive approval_edge :: "live_gate \<Rightarrow> approval_record option \<Rightarrow> approval_record option \<Rightarrow> bool"
  for g :: live_gate where
  requested: "ar_status r = AP_WAITING_FOR_HUMAN \<Longrightarrow> approval_edge g None (Some r)"
| approved: "ar_status r = AP_WAITING_FOR_HUMAN \<Longrightarrow>
    r' = r\<lparr>ar_status := AP_APPROVED, ar_approver_id := Some a, ar_approved_at := Some t, ar_signature := Some x\<rparr> \<Longrightarrow>
    signed_by g r' a t \<Longrightarrow> approval_edge g (Some r) (Some r')"
| expired: "ar_status r \<in> {AP_WAITING_FOR_HUMAN, AP_APPROVED} \<Longrightarrow>
    approval_edge g (Some r) (Some (r\<lparr>ar_status := AP_EXPIRED\<rparr>))"
| rejected: "ar_status r \<in> {AP_WAITING_FOR_HUMAN, AP_REVALIDATION_REQUIRED} \<Longrightarrow> ar_status r' = AP_REJECTED \<Longrightarrow>
    ar_order_intent_id r' = ar_order_intent_id r \<Longrightarrow> approval_edge g (Some r) (Some r')"
| drifted: "ar_status r = AP_APPROVED \<Longrightarrow> approval_edge g (Some r)
    (Some (r\<lparr>ar_status := AP_REVALIDATION_REQUIRED, ar_invalidation_reason := x\<rparr>))"
| revalidated: "ar_status r = AP_REVALIDATION_REQUIRED \<Longrightarrow> ar_status r' = AP_WAITING_FOR_HUMAN \<Longrightarrow>
    ar_order_intent_id r' = ar_order_intent_id r \<Longrightarrow> approval_edge g (Some r) (Some r')"
| consumed: "ar_status r = AP_APPROVED \<Longrightarrow>
    approval_edge g (Some r) (Some (r\<lparr>ar_status := AP_CONSUMED, ar_consumed_at := Some t\<rparr>))"

inductive_cases approval_edge_SomeE: "approval_edge g (Some r) y"

definition approvals_keyed :: "gate_state \<Rightarrow> bool" where
  "approvals_keyed s \<longleftrightarrow>
     (\<forall>k r. get_approval k (gs_store s) = Some r \<longrightarrow> ar_order_intent_id r = k)"

definition same_approvals :: "gate_state \<Rightarrow> gate_state \<Rightarrow> bool" where
  "same_approvals s s' \<longleftrightarrow> (\<forall>k. get_approval k (gs_store s') = get_approval k (gs_store s))"

definition approval_written :: "uuid \<Rightarrow> approval_record \<Rightarrow> gate_state \<Rightarrow> gate_state \<Rightarrow> bool" where
  "approval_written k r s s' \<longleftrightarrow>
     (\<forall>j. get_approval j (gs_store s') = (if j = k then Some r else get_approval j (gs_store s)))"

lemma signature_some:
  "ar_approver_id r = Some a \<Longrightarrow> ar_approved_at r = Some t \<Longrightarrow>
   signature g r = Inr (lg_hmac g (lg_key g) (sort_keys (approval_payload r a t)))"
  by (simp add: signature_def)

lemma payload_after_signing [simp]:
  "approval_payload (r\<lparr>ar_signature := x\<rparr>) a t = approval_payload r a t"
  "approval_payload (r\<lparr>ar_status := st\<rparr>) a t = approval_payload r a t"
  "approval_payload (r\<lparr>ar_consumed_at := c\<rparr>) a t = approval_payload r a t"
  by (simp_all add: approval_payload_def)

text \<open>The checks as predicates: each passes without changing the state, or raises without changing it.\<close>

definition exposure_ok :: "live_gate \<Rightarrow> bool \<Rightarrow> order_intent \<Rightarrow> bool" where
  "exposure_ok g attests intent \<longleftrightarrow>
     (case lgc_max_live_quantity (lg_config g) of
        Some cap \<Rightarrow> oi_quantity intent \<le> cap
      | None \<Rightarrow> lgc_broker_demo (lg_config g) \<and> lg_attestor_present g \<and> attests)"

definition quote_fresh :: "live_gate \<Rightarrow> price_context \<Rightarrow> instant \<Rightarrow> bool" where
  "quote_fresh g price now \<longleftrightarrow> pc_bid price \<le> pc_ask price \<and> pc_observed_at price \<le> now \<and>
     now - pc_observed_at price \<le> lgc_max_quote_age (lg_config g)"

definition signature_ok :: "live_gate \<Rightarrow> approval_record \<Rightarrow> bool" where
  "signature_ok g r \<longleftrightarrow> (\<exists>a t. ar_approver_id r = Some a \<and> ar_approved_at r = Some t \<and>
     ar_signature r = Some (lg_hmac g (lg_key g) (sort_keys (approval_payload r a t))))"

lemma gate_checks_pass [simp]:
  "\<not> b \<Longrightarrow> violation b m s = (Inr (), s)"
  "exposure_ok g attests intent \<Longrightarrow> assert_exposure g attests intent s = (Inr (), s)"
  "quote_fresh g price now \<Longrightarrow> assert_quote_fresh g price now s = (Inr (), s)"
  "signature_ok g r \<Longrightarrow> verify_signature g r m s = (Inr (), s)"
  "\<not> killed (oi_strategy_id intent) (oi_instrument_id intent) s \<Longrightarrow> assert_no_kill intent s = (Inr (), s)"
  "get_approval oid (gs_store s) = Some r \<Longrightarrow> required oid s = (Inr r, s)"
  by (auto simp: gate_check_defs exposure_ok_def quote_fresh_def signature_ok_def signature_def Let_def seq_run
      split: option.splits)

lemma gate_checks_fail:
  "b \<Longrightarrow> violation b m s = (Inl (LiveGateViolation m), s)"
  "\<not> exposure_ok g attests intent \<Longrightarrow> \<exists>e. assert_exposure g attests intent s = (Inl (LiveGateViolation e), s)"
  "\<not> quote_fresh g price now \<Longrightarrow> \<exists>e. assert_quote_fresh g price now s = (Inl (LiveGateViolation e), s)"
  "\<not> signature_ok g r \<Longrightarrow> \<exists>e. verify_signature g r m s = (Inl (LiveGateViolation e), s)"
  "killed (oi_strategy_id intent) (oi_instrument_id intent) s \<Longrightarrow>
    \<exists>e. assert_no_kill intent s = (Inl (LiveGateViolation e), s)"
  "get_approval oid (gs_store s) = None \<Longrightarrow> \<exists>e. required oid s = (Inl (LiveGateViolation e), s)"
  by (auto simp: gate_check_defs exposure_ok_def quote_fresh_def signature_ok_def signature_def Let_def seq_run
      split: option.splits if_splits)

lemma seq_fails: "\<exists>e. m s = (Inl (LiveGateViolation e), s) \<Longrightarrow> \<exists>e. seq m k s = (Inl (LiveGateViolation e), s)"
  by auto

lemma required_status_fails:
  assumes "\<nexists>r. get_approval oid (gs_store s) = Some r \<and> ar_status r = st"
  shows "\<exists>e. seq (required oid) (\<lambda>r. seq (violation (ar_status r \<noteq> st) m) (k r)) s = (Inl (LiveGateViolation e), s)"
proof (cases "get_approval oid (gs_store s)")
  case None
  then show ?thesis by (intro seq_fails gate_checks_fail)
next
  case (Some r)
  then show ?thesis using assms by (simp add: gate_checks_fail(1))
qed

lemma gate_put_run [simp]:
  "gate_put r s = (Inr r, s\<lparr>gs_store := put_approval r (gs_store s)\<rparr>)"
  by (simp add: gate_put_def)

lemma gate_cas_hit [simp]:
  "get_approval (ar_order_intent_id r) (gs_store s) = Some c \<Longrightarrow> ar_status c = e \<Longrightarrow>
   gate_cas e r s = (Inr True, s\<lparr>gs_store := put_approval r (gs_store s)\<rparr>)"
  by (simp add: gate_cas_def compare_and_put_def)

lemma audit_entry_run [simp]:
  "audit_entry x y z s = (Inr (), s\<lparr>gs_audit := gs_audit s @ [(x, y, z)]\<rparr>)"
  by (simp add: audit_entry_def)

lemma approve_refused:
  assumes "\<nexists>r. get_approval oid (gs_store s) = Some r \<and> ar_status r = AP_WAITING_FOR_HUMAN \<and> \<not> is_blank a"
  shows "\<exists>e. approve g oid a now s = (Inl (LiveGateViolation e), s)"
proof (cases "is_blank a")
  case True
  then show ?thesis unfolding approve_def by (intro seq_fails) (simp add: gate_checks_fail(1))
next
  case nb: False
  show ?thesis
  proof (cases "get_approval oid (gs_store s)")
    case None
    then obtain e where "required oid s = (Inl (LiveGateViolation e), s)" using gate_checks_fail(6) by blast
    then show ?thesis using nb by (simp add: approve_def)
  next
    case (Some r)
    then show ?thesis using nb assms by (simp add: approve_def gate_checks_fail(1))
  qed
qed

lemma approve_outcome:
  assumes "approve g oid a now s = (res, s')" and "approvals_keyed s"
  shows "(\<exists>e. res = Inl e) \<and> s' = s \<or>
    (\<exists>r. get_approval oid (gs_store s) = Some r \<and> ar_status r = AP_WAITING_FOR_HUMAN \<and> \<not> is_blank a \<and>
      ((\<exists>e. res = Inl e) \<and> ar_expires_at r \<le> now \<and> approval_written oid (r\<lparr>ar_status := AP_EXPIRED\<rparr>) s s' \<or>
       (\<exists>x r'. r' = r\<lparr>ar_status := AP_APPROVED, ar_approver_id := Some (strip a), ar_approved_at := Some now,
            ar_signature := Some x\<rparr> \<and>
          res = Inr r' \<and> signed_by g r' (strip a) now \<and> approval_written oid r' s s')))"
proof (cases "\<exists>r. get_approval oid (gs_store s) = Some r \<and> ar_status r = AP_WAITING_FOR_HUMAN \<and> \<not> is_blank a")
  case False
  from approve_refused [OF this, of g now] obtain e where "approve g oid a now s = (Inl (LiveGateViolation e), s)" by blast
  then show ?thesis using assms(1) by simp
next
  case True
  then obtain r where r: "get_approval oid (gs_store s) = Some r" "ar_status r = AP_WAITING_FOR_HUMAN"
    and a: "\<not> is_blank a" by auto
  have k: "ar_order_intent_id r = oid" using assms(2) r(1) by (simp add: approvals_keyed_def)
  show ?thesis
  proof (cases "ar_expires_at r \<le> now")
    case True
    then have "res = Inl (LiveGateViolation ''approval request expired'')"
        "s' = s\<lparr>gs_store := put_approval (r\<lparr>ar_status := AP_EXPIRED\<rparr>) (gs_store s)\<rparr>"
      using assms(1) r a by (simp_all add: approve_def)
    then show ?thesis using True r a k by (simp add: approval_written_def)
  next
    case False
    define r1 where "r1 = r\<lparr>ar_status := AP_APPROVED, ar_approver_id := Some (strip a), ar_approved_at := Some now\<rparr>"
    define x where "x = lg_hmac g (lg_key g) (sort_keys (approval_payload r1 (strip a) now))"
    have sig: "signature g r1 = Inr x" by (simp add: r1_def x_def signature_def)
    have id: "ar_order_intent_id r1 = oid" using k by (simp add: r1_def)
    have "approve g oid a now s = (Inr (r1\<lparr>ar_signature := Some x\<rparr>),
        s\<lparr>gs_store := put_approval (r1\<lparr>ar_signature := Some x\<rparr>) (gs_store s),
          gs_audit := gs_audit s @ [(''live_gate.approved'', strip a, JUuid oid)]\<rparr>)"
      using False r a sig id by (simp add: approve_def r1_def [symmetric] Let_def sign_def)
    then have eq: "res = Inr (r1\<lparr>ar_signature := Some x\<rparr>)" "approval_written oid (r1\<lparr>ar_signature := Some x\<rparr>) s s'"
      using assms(1) id by (auto simp: approval_written_def)
    have "signed_by g (r1\<lparr>ar_signature := Some x\<rparr>) (strip a) now"
      using a False by (simp add: signed_by_def x_def is_blank_def) (simp add: r1_def)
    moreover have "r1\<lparr>ar_signature := Some x\<rparr> = r\<lparr>ar_status := AP_APPROVED, ar_approver_id := Some (strip a),
        ar_approved_at := Some now, ar_signature := Some x\<rparr>" by (simp add: r1_def)
    ultimately show ?thesis using r a eq by blast
  qed
qed

text \<open>What \<open>consume\<close> checks, in the order of the code.\<close>

definition consume_enters :: "live_gate \<Rightarrow> bool \<Rightarrow> order_intent \<Rightarrow> gate_state \<Rightarrow> approval_record \<Rightarrow> bool" where
  "consume_enters g attests intent s r \<longleftrightarrow> exposure_ok g attests intent \<and>
     \<not> killed (oi_strategy_id intent) (oi_instrument_id intent) s \<and>
     get_approval (oi_order_intent_id intent) (gs_store s) = Some r \<and> ar_status r = AP_APPROVED"

definition consume_verified :: "live_gate \<Rightarrow> order_intent \<Rightarrow> price_context \<Rightarrow> instant \<Rightarrow> approval_record \<Rightarrow> bool" where
  "consume_verified g intent price now r \<longleftrightarrow> now < ar_expires_at r \<and> quote_fresh g price now \<and>
     matches_intent g r intent \<and> signature_ok g r"

lemma consume_refused_early:
  assumes "\<And>r. \<not> consume_enters g attests intent s r"
  shows "\<exists>e. consume g attests intent price now s = (Inl (LiveGateViolation e), s)"
proof (cases "exposure_ok g attests intent \<and> \<not> killed (oi_strategy_id intent) (oi_instrument_id intent) s")
  case False
  show ?thesis
  proof (cases "exposure_ok g attests intent")
    case True
    with False obtain e where "assert_no_kill intent s = (Inl (LiveGateViolation e), s)"
      using gate_checks_fail(5) by blast
    then show ?thesis using True by (simp add: consume_def)
  next
    case False
    then show ?thesis unfolding consume_def by (intro seq_fails gate_checks_fail)
  qed
next
  case True
  then show ?thesis
  proof (cases "get_approval (oi_order_intent_id intent) (gs_store s)")
    case None
    then obtain e where e: "required (oi_order_intent_id intent) s = (Inl (LiveGateViolation e), s)"
      using gate_checks_fail(6) by blast
    show ?thesis using True e by (simp add: consume_def)
  next
    case (Some r)
    then have "ar_status r \<noteq> AP_APPROVED" using assms [of r] True by (simp add: consume_enters_def)
    then show ?thesis using True Some
      by (cases "ar_status r = AP_CONSUMED") (simp_all add: consume_def gate_checks_fail(1))
  qed
qed

lemma consume_refused_late:
  assumes "consume_enters g attests intent s r" and "now < ar_expires_at r"
    and "\<not> consume_verified g intent price now r"
  shows "\<exists>e. consume g attests intent price now s = (Inl (LiveGateViolation e), s)"
proof -
  have head: "consume g attests intent price now s =
      seq (assert_quote_fresh g price now) (\<lambda>_.
       seq (violation (\<not> matches_intent g r intent)
         ''approved order does not match the current OrderIntent'') (\<lambda>_.
       seq (verify_signature g r ''approval signature verification failed'') (\<lambda>_.
       if materially_changed g (ar_price_context r) price
       then seq (gate_put (r\<lparr>ar_status := AP_REVALIDATION_REQUIRED,
              ar_invalidation_reason := Some ''material price change''\<rparr>)) (\<lambda>_.
         raise (LiveGateViolation ''market changed materially; risk revalidation is required''))
       else
         let consumed = r\<lparr>ar_status := AP_CONSUMED, ar_consumed_at := Some now\<rparr>
         in seq (gate_cas AP_APPROVED consumed) (\<lambda>ok.
            seq (violation (\<not> ok) ''approval was already consumed'') (\<lambda>_.
            seq (audit_entry ''live_gate.approval_consumed'' ''execution-engine''
              (JUuid (ar_order_intent_id consumed))) (\<lambda>_.
            ret consumed)))))) s"
    using assms(1,2) by (simp add: consume_def consume_enters_def)
  show ?thesis
  proof (cases "quote_fresh g price now \<and> matches_intent g r intent")
    case True
    then have "\<not> signature_ok g r" using assms(2,3) by (simp add: consume_verified_def)
    with gate_checks_fail(4) obtain e where
      "verify_signature g r ''approval signature verification failed'' s = (Inl (LiveGateViolation e), s)" by blast
    then show ?thesis using True by (simp add: head)
  next
    case False
    show ?thesis
    proof (cases "quote_fresh g price now")
      case True
      with False show ?thesis by (simp add: head gate_checks_fail(1))
    next
      case False
      then show ?thesis unfolding head by (intro seq_fails gate_checks_fail)
    qed
  qed
qed

lemma consume_expires:
  assumes "consume_enters g attests intent s r" and "ar_expires_at r \<le> now"
  shows "consume g attests intent price now s = (Inl (LiveGateViolation ''approval expired''),
       s\<lparr>gs_store := put_approval (r\<lparr>ar_status := AP_EXPIRED\<rparr>) (gs_store s)\<rparr>)"
  using assms by (simp add: consume_def consume_enters_def)

lemma consume_drifted:
  assumes "consume_enters g attests intent s r" and "consume_verified g intent price now r"
    and "materially_changed g (ar_price_context r) price"
  shows "consume g attests intent price now s =
      (Inl (LiveGateViolation ''market changed materially; risk revalidation is required''),
       s\<lparr>gs_store := put_approval (r\<lparr>ar_status := AP_REVALIDATION_REQUIRED,
         ar_invalidation_reason := Some ''material price change''\<rparr>) (gs_store s)\<rparr>)"
  using assms by (simp add: consume_def consume_enters_def consume_verified_def)

lemma consume_succeeds:
  assumes "consume_enters g attests intent s r" and "consume_verified g intent price now r"
    and "\<not> materially_changed g (ar_price_context r) price"
  shows "consume g attests intent price now s =
      (Inr (r\<lparr>ar_status := AP_CONSUMED, ar_consumed_at := Some now\<rparr>),
       s\<lparr>gs_store := put_approval (r\<lparr>ar_status := AP_CONSUMED, ar_consumed_at := Some now\<rparr>) (gs_store s),
         gs_audit := gs_audit s @ [(''live_gate.approval_consumed'', ''execution-engine'',
           JUuid (oi_order_intent_id intent))]\<rparr>)"
proof -
  have "ar_order_intent_id r = oi_order_intent_id intent"
    using assms(2) by (simp add: consume_verified_def matches_intent_def)
  then show ?thesis using assms by (simp add: consume_def consume_enters_def consume_verified_def Let_def)
qed

lemma consume_outcome:
  assumes "consume g attests intent price now s = (res, s')" and "approvals_keyed s"
  shows "(\<exists>e. res = Inl e) \<and> s' = s \<or>
    (\<exists>r. consume_enters g attests intent s r \<and>
      ((\<exists>e. res = Inl e) \<and> approval_written (oi_order_intent_id intent) (r\<lparr>ar_status := AP_EXPIRED\<rparr>) s s' \<or>
       (\<exists>e. res = Inl e) \<and> approval_written (oi_order_intent_id intent)
         (r\<lparr>ar_status := AP_REVALIDATION_REQUIRED, ar_invalidation_reason := Some ''material price change''\<rparr>) s s' \<or>
       consume_verified g intent price now r \<and> \<not> materially_changed g (ar_price_context r) price \<and>
       res = Inr (r\<lparr>ar_status := AP_CONSUMED, ar_consumed_at := Some now\<rparr>) \<and>
       approval_written (oi_order_intent_id intent) (r\<lparr>ar_status := AP_CONSUMED, ar_consumed_at := Some now\<rparr>) s s'))"
proof (cases "\<exists>r. consume_enters g attests intent s r")
  case False
  then show ?thesis using consume_refused_early [of g attests intent s price now] assms(1) by auto
next
  case True
  then obtain r where r: "consume_enters g attests intent s r" by blast
  have k: "ar_order_intent_id r = oi_order_intent_id intent"
    using r assms(2) by (simp add: approvals_keyed_def consume_enters_def)
  consider "ar_expires_at r \<le> now" | "now < ar_expires_at r" "\<not> consume_verified g intent price now r"
    | "consume_verified g intent price now r" "materially_changed g (ar_price_context r) price"
    | "consume_verified g intent price now r" "\<not> materially_changed g (ar_price_context r) price"
    by fastforce
  then show ?thesis
  proof cases
    case 1
    then show ?thesis using consume_expires [OF r, of now price] assms(1) r k
      by (auto simp: approval_written_def)
  next
    case 2
    from consume_refused_late [OF r this] obtain e
      where "consume g attests intent price now s = (Inl (LiveGateViolation e), s)" by blast
    then show ?thesis using assms(1) by simp
  next
    case 3
    then show ?thesis using consume_drifted [OF r] assms(1) r k
      by (auto simp: approval_written_def)
  next
    case 4
    then show ?thesis using consume_succeeds [OF r] assms(1) r k
      by (auto simp: approval_written_def)
  qed
qed

lemma request_outcome:
  assumes "request_approval g attests fresh intent price now s = (res, s')"
  shows "(\<exists>e. res = Inl e) \<and> s' = s \<or>
    (\<exists>r. res = Inr r \<and> ar_status r = AP_WAITING_FOR_HUMAN \<and> ar_order_intent_id r = oi_order_intent_id intent \<and>
      get_approval (oi_order_intent_id intent) (gs_store s) = None \<and>
      approval_written (oi_order_intent_id intent) r s s')"
proof -
  have put: "gate_put_if_absent r t = (case get_approval (ar_order_intent_id r) (gs_store t) of
      None \<Rightarrow> (Inr True, t\<lparr>gs_store := put_approval r (gs_store t)\<rparr>) | Some _ \<Rightarrow> (Inr False, t))" for r t
    by (simp add: gate_put_if_absent_def put_if_absent_def split: option.split)
  show ?thesis using assms
    unfolding request_approval_def Let_def
    by (auto simp: put seq_run gate_check_defs approval_written_def Let_def
        split: option.splits if_splits)
qed

lemma reject_outcome:
  assumes "reject id oid a s = (res, s')" and "approvals_keyed s"
  shows "s' = s \<or> (\<exists>r r'. get_approval oid (gs_store s) = Some r \<and> ar_status r = AP_WAITING_FOR_HUMAN \<and>
    ar_status r' = AP_REJECTED \<and> ar_order_intent_id r' = oid \<and> approval_written oid r' s s')"
proof (cases "\<exists>r. get_approval oid (gs_store s) = Some r \<and> ar_status r = AP_WAITING_FOR_HUMAN")
  case False
  have "\<exists>e. reject id oid a s = (Inl (LiveGateViolation e), s)"
    unfolding reject_def by (rule required_status_fails [OF False])
  then show ?thesis using assms(1) by auto
next
  case True
  then obtain r where r: "get_approval oid (gs_store s) = Some r" "ar_status r = AP_WAITING_FOR_HUMAN" by blast
  moreover have "ar_order_intent_id r = oid" using assms(2) r(1) by (simp add: approvals_keyed_def)
  ultimately show ?thesis using assms(1)
    by (intro disjI2 exI [of _ r] exI [of _ "r\<lparr>ar_status := AP_REJECTED, ar_approver_id := Some (strip a)\<rparr>"])
      (auto simp: reject_def approval_written_def)
qed

lemma revalidate_outcome:
  assumes "revalidate g id fresh oid intent decision price now s = (res, s')" and "approvals_keyed s"
  shows "s' = s \<or> (\<exists>r r'. get_approval oid (gs_store s) = Some r \<and> ar_status r = AP_REVALIDATION_REQUIRED \<and>
    ar_status r' \<in> {AP_REJECTED, AP_WAITING_FOR_HUMAN} \<and> ar_order_intent_id r' = oid \<and> approval_written oid r' s s')"
proof (cases "\<exists>r. get_approval oid (gs_store s) = Some r \<and> ar_status r = AP_REVALIDATION_REQUIRED")
  case False
  have "\<exists>e. revalidate g id fresh oid intent decision price now s = (Inl (LiveGateViolation e), s)"
    unfolding revalidate_def by (rule required_status_fails [OF False])
  then show ?thesis using assms(1) by auto
next
  case True
  then obtain r where r: "get_approval oid (gs_store s) = Some r" "ar_status r = AP_REVALIDATION_REQUIRED" by blast
  have k: "ar_order_intent_id r = oid" using assms(2) r(1) by (simp add: approvals_keyed_def)
  have "s' = s \<or> (\<exists>r'. res = Inr r' \<and> ar_status r' \<in> {AP_REJECTED, AP_WAITING_FOR_HUMAN} \<and>
      ar_order_intent_id r' = oid \<and> s' = s\<lparr>gs_store := put_approval r' (gs_store s)\<rparr>)"
  proof (cases "quote_fresh g price now")
    case True
    then show ?thesis using assms(1) r k
      by (auto simp: revalidate_def violation_def split: if_splits)
  next
    case False
    with gate_checks_fail(3) obtain e where "assert_quote_fresh g price now s = (Inl (LiveGateViolation e), s)" by blast
    then show ?thesis using assms(1) r by (simp add: revalidate_def)
  qed
  then show ?thesis using r by (auto simp: approval_written_def)
qed

lemma kill_switches_keep_approvals:
  "same_approvals s (snd (activate_kill scope actor reason target now s))"
  "same_approvals s (snd (clear_kill scope actor target s))"
  by (simp_all add: activate_kill_def clear_kill_def same_approvals_def get_approval_def
      set_kill_def store_clear_kill_def)

subsection \<open>Runs of the gate\<close>

datatype gate_op =
    RequestApproval bool uuid order_intent price_context
  | Approve uuid string
  | Reject uuid string
  | Revalidate uuid uuid order_intent risk_decision price_context
  | Consume bool order_intent price_context
  | ActivateKill kill_scope string string "string option"
  | ClearKill kill_scope string "string option"

definition drop_result :: "'a gate_prog \<Rightarrow> bool gate_prog" where
  "drop_result m s = (case m s of (Inl e, s') \<Rightarrow> (Inl e, s') | (Inr _, s') \<Rightarrow> (Inr True, s'))"

fun gate_step :: "live_gate \<Rightarrow> gate_op \<times> instant \<Rightarrow> bool gate_prog" where
  "gate_step g (RequestApproval attests fresh intent price, now) =
     drop_result (request_approval g attests fresh intent price now)"
| "gate_step g (Approve oid a, now) = drop_result (approve g oid a now)"
| "gate_step g (Reject oid a, now) = drop_result (reject id oid a)"
| "gate_step g (Revalidate fresh oid intent decision price, now) =
     drop_result (revalidate g id fresh oid intent decision price now)"
| "gate_step g (Consume attests intent price, now) = drop_result (consume g attests intent price now)"
| "gate_step g (ActivateKill scope actor reason target, now) =
     drop_result (activate_kill scope actor reason target now)"
| "gate_step g (ClearKill scope actor target, now) = drop_result (clear_kill scope actor target)"

primrec run_gate_ops :: "live_gate \<Rightarrow> (gate_op \<times> instant) list \<Rightarrow> gate_state \<Rightarrow> gate_state" where
  "run_gate_ops g [] s = s"
| "run_gate_ops g (x # xs) s = run_gate_ops g xs (snd (gate_step g x s))"

text \<open>How often the order intent \<open>oid\<close> is let through in a run.\<close>

definition consumes :: "live_gate \<Rightarrow> uuid \<Rightarrow> gate_op \<times> instant \<Rightarrow> gate_state \<Rightarrow> bool" where
  "consumes g oid x s \<longleftrightarrow>
     (case fst x of Consume _ intent _ \<Rightarrow> oi_order_intent_id intent = oid \<and> \<not> isl (fst (gate_step g x s))
      | _ \<Rightarrow> False)"

primrec consumed_count :: "live_gate \<Rightarrow> uuid \<Rightarrow> (gate_op \<times> instant) list \<Rightarrow> gate_state \<Rightarrow> nat" where
  "consumed_count g oid [] s = 0"
| "consumed_count g oid (x # xs) s =
     (if consumes g oid x s then 1 else 0) + consumed_count g oid xs (snd (gate_step g x s))"

lemma run_gate_ops_append:
  "run_gate_ops g (xs @ ys) s = run_gate_ops g ys (run_gate_ops g xs s)"
  by (induction xs arbitrary: s) simp_all

lemma drop_result_snd [simp]: "snd (drop_result m s) = snd (m s)"
  by (simp add: drop_result_def split: prod.splits sum.splits)

lemma drop_result_isl [simp]: "isl (fst (drop_result m s)) = isl (fst (m s))"
  by (auto simp: drop_result_def split: prod.splits sum.splits)

definition gate_evolves :: "live_gate \<Rightarrow> gate_state \<Rightarrow> gate_state \<Rightarrow> bool" where
  "gate_evolves g s s' \<longleftrightarrow>
     (\<forall>k. get_approval k (gs_store s') = get_approval k (gs_store s) \<or>
       (\<exists>r. get_approval k (gs_store s') = Some r \<and> ar_order_intent_id r = k \<and>
         approval_edge g (get_approval k (gs_store s)) (Some r)))"

lemma gate_evolves_refl: "gate_evolves g s s"
  by (simp add: gate_evolves_def)

lemma gate_evolves_written:
  "approval_written k r s s' \<Longrightarrow> ar_order_intent_id r = k \<Longrightarrow>
   approval_edge g (get_approval k (gs_store s)) (Some r) \<Longrightarrow> gate_evolves g s s'"
  by (simp add: gate_evolves_def approval_written_def)

lemma gate_step_evolves:
  assumes "approvals_keyed s"
  shows "gate_evolves g s (snd (gate_step g x s))"
proof -
  obtain oper now where x: "x = (oper, now)" by (cases x)
  have key: "get_approval k (gs_store s) = Some r \<Longrightarrow> ar_order_intent_id r = k" for k r
    using assms by (simp add: approvals_keyed_def)
  have reval: "approval_edge g (Some r) (Some r')"
    if "get_approval (ar_order_intent_id r') (gs_store s) = Some r" "ar_status r = AP_REVALIDATION_REQUIRED"
      "ar_status r' = AP_REJECTED \<or> ar_status r' = AP_WAITING_FOR_HUMAN" for r r'
    using that key [OF that(1)] by (auto intro: approval_edge.rejected approval_edge.revalidated)
  show ?thesis
  proof (cases oper)
    case (RequestApproval attests fresh intent price)
    from request_outcome [of g attests fresh intent price now s, OF prod.collapse [symmetric]] RequestApproval
    show ?thesis
      by (elim disjE exE conjE) (simp_all add: x gate_evolves_refl gate_evolves_written approval_edge.requested)
  next
    case (Approve oid a)
    from approve_outcome [of g oid a now s, OF prod.collapse [symmetric] assms] Approve show ?thesis
      by (elim disjE exE conjE)
        (auto simp: x gate_evolves_refl key intro!: gate_evolves_written approval_edge.approved approval_edge.expired)
  next
    case (Reject oid a)
    from reject_outcome [of oid a s, OF prod.collapse [symmetric] assms] Reject show ?thesis
      by (elim disjE exE conjE)
        (auto simp: x gate_evolves_refl key intro!: gate_evolves_written approval_edge.rejected)
  next
    case (Revalidate fresh oid intent decision price)
    from revalidate_outcome [of g fresh oid intent decision price now s, OF prod.collapse [symmetric] assms] Revalidate
    show ?thesis
      by (elim disjE exE conjE)
        (auto simp: x gate_evolves_refl intro!: gate_evolves_written
          intro: reval)
  next
    case (Consume attests intent price)
    from consume_outcome [of g attests intent price now s, OF prod.collapse [symmetric] assms] Consume show ?thesis
      by (elim disjE exE conjE)
        (auto simp: x gate_evolves_refl consume_enters_def key
          intro!: gate_evolves_written approval_edge.expired approval_edge.drifted approval_edge.consumed)
  next
    case (ActivateKill scope actor reason target)
    then show ?thesis using kill_switches_keep_approvals(1) [of s scope actor reason target now]
      by (simp add: x gate_evolves_def same_approvals_def)
  next
    case (ClearKill scope actor target)
    then show ?thesis using kill_switches_keep_approvals(2) [of s scope actor target]
      by (simp add: x gate_evolves_def same_approvals_def)
  qed
qed

lemma edge_keeps_key:
  "approval_edge g (Some r) (Some r') \<Longrightarrow> ar_order_intent_id r' = ar_order_intent_id r"
  by (auto elim: approval_edge_SomeE)

lemma edge_not_None: "\<not> approval_edge g x None"
  by (auto elim: approval_edge.cases)

lemma edge_final:
  "approval_edge g (Some r) y \<Longrightarrow> ar_status r \<notin> {AP_CONSUMED, AP_EXPIRED, AP_REJECTED}"
  by (auto elim: approval_edge_SomeE)

lemma edge_to_approved:
  "approval_edge g x (Some r') \<Longrightarrow> ar_status r' \<in> {AP_APPROVED, AP_CONSUMED, AP_REVALIDATION_REQUIRED} \<Longrightarrow>
   (\<exists>a t. ar_status r' = AP_APPROVED \<and> signed_by g r' a t) \<or>
   (\<exists>r. x = Some r \<and> ar_status r = AP_APPROVED \<and> ar_approver_id r' = ar_approver_id r \<and>
     (\<forall>a t. signed_by g r a t \<longrightarrow> signed_by g r' a t))"
  by (erule approval_edge.cases) (auto simp: signed_by_def approval_payload_def)

lemma gate_step_keyed:
  assumes "approvals_keyed s"
  shows "approvals_keyed (snd (gate_step g x s))"
  unfolding approvals_keyed_def
proof (intro allI impI)
  fix k r assume r: "get_approval k (gs_store (snd (gate_step g x s))) = Some r"
  from gate_step_evolves [OF assms, of g x]
  have "get_approval k (gs_store s) = Some r \<or> ar_order_intent_id r = k"
    unfolding gate_evolves_def using r by (elim allE [of _ k]) auto
  then show "ar_order_intent_id r = k" using assms by (auto simp: approvals_keyed_def)
qed

lemma run_gate_ops_keyed: "approvals_keyed s \<Longrightarrow> approvals_keyed (run_gate_ops g xs s)"
  by (induction xs arbitrary: s) (simp_all add: gate_step_keyed)

lemma gate_step_cases:
  assumes "approvals_keyed s" and "get_approval k (gs_store (snd (gate_step g x s))) = Some r"
  shows "get_approval k (gs_store s) = Some r \<or> approval_edge g (get_approval k (gs_store s)) (Some r)"
  using gate_step_evolves [OF assms(1), of g x] assms(2) unfolding gate_evolves_def by (elim allE [of _ k]) auto

lemma gate_step_final:
  assumes "approvals_keyed s" and "get_approval k (gs_store s) = Some r"
    and "ar_status r \<in> {AP_CONSUMED, AP_EXPIRED, AP_REJECTED}"
  shows "get_approval k (gs_store (snd (gate_step g x s))) = Some r"
proof -
  from gate_step_evolves [OF assms(1), of g x]
  have "get_approval k (gs_store (snd (gate_step g x s))) = Some r \<or> (\<exists>r'. approval_edge g (Some r) (Some r'))"
    unfolding gate_evolves_def using assms(2) by (elim allE [of _ k]) auto
  then show ?thesis using edge_final assms(3) by blast
qed

lemma run_gate_ops_final:
  "approvals_keyed s \<Longrightarrow> get_approval k (gs_store s) = Some r \<Longrightarrow>
   ar_status r \<in> {AP_CONSUMED, AP_EXPIRED, AP_REJECTED} \<Longrightarrow>
   get_approval k (gs_store (run_gate_ops g xs s)) = Some r"
  by (induction xs arbitrary: s) (simp_all add: gate_step_keyed gate_step_final)

text \<open>A successful \<open>consume\<close> found an approved record and leaves a consumed one.\<close>

lemma consumes_effect:
  assumes "consumes g oid x s" and "approvals_keyed s"
  shows "(\<exists>r. get_approval oid (gs_store s) = Some r \<and> ar_status r = AP_APPROVED) \<and>
    (\<exists>r. get_approval oid (gs_store (snd (gate_step g x s))) = Some r \<and> ar_status r = AP_CONSUMED)"
proof -
  obtain attests intent price now where x: "x = (Consume attests intent price, now)"
    and id: "oi_order_intent_id intent = oid" and ok: "\<not> isl (fst (consume g attests intent price now s))"
    using assms(1) by (cases x) (auto simp: consumes_def split: gate_op.splits)
  from consume_outcome [of g attests intent price now s, OF prod.collapse [symmetric] assms(2)]
  show ?thesis using ok id by (auto simp: x approval_written_def consume_enters_def)
qed

lemma consumed_count_zero:
  assumes "approvals_keyed s" and "get_approval oid (gs_store s) = Some r"
    and "ar_status r \<in> {AP_CONSUMED, AP_EXPIRED, AP_REJECTED}"
  shows "consumed_count g oid xs s = 0"
  using assms
proof (induction xs arbitrary: s)
  case (Cons x xs)
  have "\<not> consumes g oid x s" using consumes_effect [of g oid x s] Cons.prems by auto
  then show ?case using Cons gate_step_keyed gate_step_final [OF Cons.prems] by simp
qed simp

definition empty_gate :: gate_state where
  "empty_gate = \<lparr>gs_store = \<lparr>as_records = [], as_kills = []\<rparr>, gs_audit = []\<rparr>"

lemma empty_gate_keyed [simp]: "approvals_keyed empty_gate"
  by (simp add: approvals_keyed_def empty_gate_def get_approval_def)

subsection \<open>Properties\<close>


text \<open>
  When \<open>consume\<close> lets an order through. It succeeds exactly when the exposure cap or the
  demo attestation holds, no kill switch covers the order, the stored approval is \<open>APPROVED\<close>, not
  expired, made for exactly this intent (identifiers and content hash), carries a valid signature,
  the quote is fresh, and the price has not drifted from the approved one by more than the
  configured basis points. The record returned is the stored one, marked consumed.
\<close>

lemma consume_exact:
  "(\<exists>s'. consume g attests intent price now s = (Inr r', s')) \<longleftrightarrow>
    (\<exists>r. exposure_ok g attests intent \<and>
       \<not> killed (oi_strategy_id intent) (oi_instrument_id intent) s \<and>
       get_approval (oi_order_intent_id intent) (gs_store s) = Some r \<and> ar_status r = AP_APPROVED \<and>
       now < ar_expires_at r \<and> quote_fresh g price now \<and> matches_intent g r intent \<and> signature_ok g r \<and>
       price_drift_bps (ar_price_context r) price \<le> lgc_max_price_drift_bps (lg_config g) \<and>
       r' = r\<lparr>ar_status := AP_CONSUMED, ar_consumed_at := Some now\<rparr>)"
    (is "?L \<longleftrightarrow> ?R")
proof
  assume ?L
  then obtain s' where ok: "consume g attests intent price now s = (Inr r', s')" by blast
  obtain r where r: "consume_enters g attests intent s r"
    using ok consume_refused_early [of g attests intent s price now] by fastforce
  have "now < ar_expires_at r" using ok consume_expires [OF r, of now price] by force
  moreover have v: "consume_verified g intent price now r"
    using ok consume_refused_late [OF r calculation] by fastforce
  moreover have m: "\<not> materially_changed g (ar_price_context r) price"
    using ok consume_drifted [OF r v] by auto
  moreover have "r' = r\<lparr>ar_status := AP_CONSUMED, ar_consumed_at := Some now\<rparr>"
    using ok consume_succeeds [OF r v m] by simp
  ultimately show ?R using r
    by (auto simp: consume_enters_def consume_verified_def materially_changed_def not_less)
next
  assume ?R
  then obtain r where "consume_enters g attests intent s r" "consume_verified g intent price now r"
    "\<not> materially_changed g (ar_price_context r) price"
    and r': "r' = r\<lparr>ar_status := AP_CONSUMED, ar_consumed_at := Some now\<rparr>"
    by (auto simp: consume_enters_def consume_verified_def materially_changed_def not_less)
  from consume_succeeds [OF this(1-3)] show ?L by (simp add: r')
qed

text \<open>
  The second check, made just before the order is sent to MetaTrader. It passes exactly when the
  stored approval is \<open>CONSUMED\<close>, not expired, made for this intent, validly signed, and no kill switch
  covers it; it never changes the state.
\<close>

lemma boundary_check_exact:
  "snd (assert_consumed_authorization g intent now s) = s \<and>
   (\<not> isl (fst (assert_consumed_authorization g intent now s)) \<longleftrightarrow>
     (\<exists>r. get_approval (oi_order_intent_id intent) (gs_store s) = Some r \<and> ar_status r = AP_CONSUMED \<and>
        now < ar_expires_at r \<and> matches_intent g r intent \<and> signature_ok g r \<and>
        \<not> killed (oi_strategy_id intent) (oi_instrument_id intent) s))"
proof (cases "get_approval (oi_order_intent_id intent) (gs_store s)")
  case None
  with gate_checks_fail(6) obtain e
    where "required (oi_order_intent_id intent) s = (Inl (LiveGateViolation e), s)" by blast
  then show ?thesis using None by (simp add: assert_consumed_authorization_def)
next
  case (Some r)
  consider "ar_status r \<noteq> AP_CONSUMED \<or> ar_expires_at r \<le> now \<or> \<not> matches_intent g r intent"
    | "ar_status r = AP_CONSUMED" "now < ar_expires_at r" "matches_intent g r intent" "\<not> signature_ok g r"
    | "ar_status r = AP_CONSUMED" "now < ar_expires_at r" "matches_intent g r intent" "signature_ok g r"
    by fastforce
  then show ?thesis
  proof cases
    case 1
    then show ?thesis using Some by (auto simp: assert_consumed_authorization_def gate_checks_fail(1) violation_def)
  next
    case 2
    with gate_checks_fail(4) obtain e where "verify_signature g r
      ''MT4 submission approval signature verification failed'' s = (Inl (LiveGateViolation e), s)" by blast
    then show ?thesis using 2 Some by (simp add: assert_consumed_authorization_def)
  next
    case 3
    moreover have "ar_strategy_id r = oi_strategy_id intent" "ar_instrument_id r = oi_instrument_id intent"
      using 3(3) by (simp_all add: matches_intent_def)
    ultimately show ?thesis using Some by (simp add: assert_consumed_authorization_def violation_def)
  qed
qed

text \<open>Approvals that went through a human: signed by an approver named in an earlier \<open>approve\<close>.\<close>

definition human_approved :: "live_gate \<Rightarrow> (gate_op \<times> instant) list \<Rightarrow> uuid \<Rightarrow> approval_record \<Rightarrow> bool" where
  "human_approved g ops k r \<longleftrightarrow>
     (\<exists>a t. (Approve k a, t) \<in> set ops \<and> \<not> is_blank a \<and> signed_by g r (strip a) t)"

definition approvals_human :: "live_gate \<Rightarrow> (gate_op \<times> instant) list \<Rightarrow> gate_state \<Rightarrow> bool" where
  "approvals_human g ops s \<longleftrightarrow>
     (\<forall>k r. get_approval k (gs_store s) = Some r \<longrightarrow>
        ar_status r \<in> {AP_APPROVED, AP_CONSUMED, AP_REVALIDATION_REQUIRED} \<longrightarrow> human_approved g ops k r)"

lemma approve_step_names_approver:
  assumes "approvals_keyed s" and "get_approval k (gs_store s) \<noteq> Some r"
    and "get_approval k (gs_store (snd (gate_step g x s))) = Some r" and "ar_status r = AP_APPROVED"
  shows "\<exists>a t. x = (Approve k a, t) \<and> \<not> is_blank a \<and> signed_by g r (strip a) t"
proof -
  obtain oper now where x: "x = (oper, now)" by (cases x)
  note new = assms(2-4)
  show ?thesis
  proof (cases oper)
    case (RequestApproval attests fresh intent price)
    from request_outcome [of g attests fresh intent price now s, OF prod.collapse [symmetric]]
    show ?thesis using RequestApproval new
      by (elim disjE exE conjE) (auto simp: x approval_written_def split: if_splits)
  next
    case (Approve oid a)
    from approve_outcome [of g oid a now s, OF prod.collapse [symmetric] assms(1)]
    show ?thesis using Approve new
      by (elim disjE exE conjE) (auto simp: x approval_written_def split: if_splits)
  next
    case (Reject oid a)
    from reject_outcome [of oid a s, OF prod.collapse [symmetric] assms(1)]
    show ?thesis using Reject new
      by (elim disjE exE conjE) (auto simp: x approval_written_def split: if_splits)
  next
    case (Revalidate fresh oid intent decision price)
    from revalidate_outcome [of g fresh oid intent decision price now s, OF prod.collapse [symmetric] assms(1)]
    show ?thesis using Revalidate new
      by (elim disjE exE conjE) (auto simp: x approval_written_def split: if_splits)
  next
    case (Consume attests intent price)
    from consume_outcome [of g attests intent price now s, OF prod.collapse [symmetric] assms(1)]
    show ?thesis using Consume new
      by (elim disjE exE conjE) (auto simp: x approval_written_def split: if_splits)
  next
    case (ActivateKill scope actor reason target)
    then show ?thesis using kill_switches_keep_approvals(1) [of s scope actor reason target now] new
      by (simp add: x same_approvals_def)
  next
    case (ClearKill scope actor target)
    then show ?thesis using kill_switches_keep_approvals(2) [of s scope actor target] new
      by (simp add: x same_approvals_def)
  qed
qed

lemma approvals_human_step:
  assumes "approvals_keyed s" and "approvals_human g ops s"
  shows "approvals_human g (ops @ [x]) (snd (gate_step g x s))"
  unfolding approvals_human_def
proof (intro allI impI)
  fix k r
  assume r: "get_approval k (gs_store (snd (gate_step g x s))) = Some r"
    and st: "ar_status r \<in> {AP_APPROVED, AP_CONSUMED, AP_REVALIDATION_REQUIRED}"
  have old: "human_approved g (ops @ [x]) k q" if "get_approval k (gs_store s) = Some q"
      "ar_status q \<in> {AP_APPROVED, AP_CONSUMED, AP_REVALIDATION_REQUIRED}" for q
  proof -
    have "human_approved g ops k q" using assms(2) that unfolding approvals_human_def by blast
    then show ?thesis by (auto simp: human_approved_def)
  qed
  show "human_approved g (ops @ [x]) k r"
  proof (cases "get_approval k (gs_store s) = Some r")
    case False
    then have "approval_edge g (get_approval k (gs_store s)) (Some r)"
      using gate_step_cases [OF assms(1) r] by simp
    from edge_to_approved [OF this st] show ?thesis
    proof (elim disjE exE conjE)
      assume "ar_status r = AP_APPROVED"
      from approve_step_names_approver [OF assms(1) False r this]
      show ?thesis by (auto simp: human_approved_def)
    next
      fix q assume "get_approval k (gs_store s) = Some q" "ar_status q = AP_APPROVED"
        "\<forall>a t. signed_by g q a t \<longrightarrow> signed_by g r a t"
      with old [of q] show ?thesis by (auto simp: human_approved_def)
    qed
  qed (use old st in simp)
qed

lemma run_gate_ops_human: "approvals_human g ops (run_gate_ops g ops empty_gate)"
proof (induction ops rule: rev_induct)
  case Nil
  show ?case by (simp add: approvals_human_def empty_gate_def get_approval_def)
next
  case (snoc x xs)
  from approvals_human_step [OF run_gate_ops_keyed [OF empty_gate_keyed] snoc, of x]
  show ?case by (simp add: run_gate_ops_append)
qed

text \<open>
  No live order without a human. In every run of the gate from an empty store, when
  \<open>consume\<close> lets an order through, an earlier operation of the run was an approval of this very
  order intent by an approver whose name is not blank, and the record is signed for that
  approver and instant.
\<close>

lemma live_order_needs_a_human:
  assumes "consume g attests intent price now (run_gate_ops g ops empty_gate) = (Inr r, s')"
  shows "\<exists>a t. (Approve (oi_order_intent_id intent) a, t) \<in> set ops \<and> \<not> is_blank a \<and>
    signed_by g r (strip a) t \<and> now < ar_expires_at r"
proof -
  obtain q where q: "get_approval (oi_order_intent_id intent) (gs_store (run_gate_ops g ops empty_gate)) = Some q"
    "ar_status q = AP_APPROVED" "now < ar_expires_at q"
    and r: "r = q\<lparr>ar_status := AP_CONSUMED, ar_consumed_at := Some now\<rparr>"
    using assms consume_outcome [OF assms run_gate_ops_keyed [OF empty_gate_keyed]]
    by (auto simp: consume_enters_def consume_verified_def)
  have "human_approved g ops (oi_order_intent_id intent) q"
    using run_gate_ops_human [of g ops] q(1,2) by (simp add: approvals_human_def)
  then show ?thesis using q(3) by (auto simp: human_approved_def signed_by_def r approval_payload_def)
qed

definition example_gate :: live_gate where
  "example_gate = \<lparr>lg_key = replicate 32 7,
     lg_config = \<lparr>lgc_approval_ttl = seconds 30, lgc_max_price_drift_bps = 10,
       lgc_max_quote_age = seconds 5, lgc_broker_demo = False, lgc_max_live_quantity = Some 2\<rparr>,
     lg_attestor_present = False, lg_hmac = (\<lambda>k j. ''mac''), lg_sha256 = oi_strategy_id\<rparr>"

definition example_live_intent :: order_intent where
  "example_live_intent = \<lparr>oi_order_intent_id = 5, oi_risk_decision_id = 7, oi_proposal_id = None,
     oi_strategy_id = ''trend'', oi_strategy_version = ''1'', oi_instrument_id = ''EURUSD'',
     oi_operating_mode = OM_LIVE_GATED, oi_side = BUY, oi_order_type = MARKET, oi_time_in_force = GTC,
     oi_quantity = 2, oi_price = None, oi_stop_loss = Some 1, oi_take_profit = None,
     oi_max_slippage = 0, oi_sequence = 0, oi_valid_until = Some (seconds 60), oi_created_by = ''x'',
     oi_trace_id = None, oi_produced_at = 0\<rparr>"

definition example_quote :: "decimal \<Rightarrow> instant \<Rightarrow> price_context" where
  "example_quote p t = \<lparr>pc_bid = p, pc_ask = p, pc_observed_at = t\<rparr>"

definition example_approved_run :: "(gate_op \<times> instant) list" where
  "example_approved_run = [(RequestApproval False 1 example_live_intent (example_quote 1 0), 0),
     (Approve 5 ''ana'', seconds 1)]"

lemma live_order_needs_a_human_witness:
  "\<exists>r a t. get_approval 5 (gs_store (run_gate_ops example_gate (example_approved_run @
       [(Consume False example_live_intent (example_quote 1 (seconds 2)), seconds 2)]) empty_gate)) = Some r \<and>
     ar_status r = AP_CONSUMED \<and> (Approve 5 a, t) \<in> set example_approved_run \<and>
     signed_by example_gate r (strip a) t"
proof -
  let ?s = "run_gate_ops example_gate example_approved_run empty_gate"
  let ?c = "consume example_gate False example_live_intent (example_quote 1 (seconds 2)) (seconds 2)"
  have ok: "\<not> isl (fst (?c ?s))" by code_simp
  then obtain r s' where c: "?c ?s = (Inr r, s')"
    by (cases "?c ?s"; cases "fst (?c ?s)") auto
  have i: "oi_order_intent_id example_live_intent = 5" by (simp add: example_live_intent_def)
  have "get_approval 5 (gs_store s') = Some r" "ar_status r = AP_CONSUMED"
    using consume_outcome [OF c run_gate_ops_keyed [OF empty_gate_keyed]]
    by (auto simp: approval_written_def i)
  moreover have "snd (gate_step example_gate (Consume False example_live_intent (example_quote 1 (seconds 2)), seconds 2) ?s) = s'"
    by (simp add: c)
  ultimately show ?thesis
    using live_order_needs_a_human [OF c] by (auto simp: run_gate_ops_append i)
qed

definition stale_intent_run :: "(gate_op \<times> instant) list" where
  "stale_intent_run = example_approved_run @
     [(Consume False example_live_intent (example_quote 2 (seconds 20)), seconds 20),
      (Revalidate 2 5 example_live_intent
         \<lparr>rd_decision_id = 7, rd_proposal_id = 1, rd_decision = RD_APPROVE, rd_reason_codes = [],
          rd_approved_quantity = Some 2, rd_approved_stop = Some 1, rd_risk_amount = Some 1,
          rd_policy_version = ''1'', rd_risk_engine_version = ''1'', rd_inputs_hash = None,
          rd_produced_at = 0, rd_trace_id = None\<rparr> (example_quote 2 (seconds 70)), seconds 70),
      (Approve 5 ''ana'', seconds 71)]"

text \<open>
  Revalidation outlives the order intent. \<open>request_approval\<close> refuses a stale intent and caps the
  approval at \<open>valid_until\<close>; \<open>revalidate\<close> does neither, so an order whose intent expired at
  60 seconds passes the gate at 72 seconds.
\<close>

lemma revalidation_outlives_intent:
  "oi_valid_until example_live_intent = Some (seconds 60) \<and>
   consumes example_gate 5 (Consume False example_live_intent (example_quote 2 (seconds 72)), seconds 72)
     (run_gate_ops example_gate stale_intent_run empty_gate)"
  by code_simp

definition lost_update_run :: "(gate_op \<times> instant) list" where
  "lost_update_run = drop 3 stale_intent_run @
     [(Consume False example_live_intent (example_quote 2 (seconds 72)), seconds 72)]"

text \<open>
  The lock is missing in \<open>revalidate\<close>. It reads the record and writes it back without the
  lock of the gate and without a compare-and-put. When another thread revalidates, approves and
  consumes in between, the write reopens the spent approval, and the same intent passes
  the gate a second time.
\<close>

lemma concurrent_revalidation_reopens:
  "let before = run_gate_ops example_gate (take 3 stale_intent_run) empty_gate;
       others = run_gate_ops example_gate lost_update_run;
       after = snd (case stale_intent_run ! 3 of (Revalidate fresh oid intent decision price, now) \<Rightarrow>
         drop_result (revalidate example_gate others fresh oid intent decision price now) before
         | _ \<Rightarrow> (Inr True, before))
   in consumed_count example_gate 5 lost_update_run before = 1 \<and>
      consumed_count example_gate 5 (drop 4 stale_intent_run @
        [(Consume False example_live_intent (example_quote 2 (seconds 73)), seconds 73)]) after = 1"
  by code_simp

end
