(* ===== verification/Live_Auto.thy ===== *)
theory Live_Auto
  imports Live_Gate
begin

text \<open>
  Governance of automated execution: \<^verbatim>\<open>engines/live_auto/config.py\<close> and
  \<^verbatim>\<open>engines/live_auto/registry.py\<close> over the in-memory store, which is a dictionary of
  strategy records and the append-only list of realized profits and losses. The audit logger is
  present; its metadata is left out, as is \<open>status()\<close>, which only renders the state.
\<close>

record live_auto_config =
  lac_enabled :: bool
  lac_max_strategies :: int
  lac_max_capital :: "decimal option"
  lac_max_loss :: "decimal option"
  lac_strategy_risk_budget_ceilings :: "(string, decimal) dict"
  lac_max_quote_age :: duration
  lac_max_quantity :: "decimal option"

definition positive_limit :: "decimal option \<Rightarrow> bool" where
  "positive_limit x \<longleftrightarrow> (case x of None \<Rightarrow> True | Some v \<Rightarrow> 0 < v)"

definition live_auto_config_post_init :: "live_auto_config \<Rightarrow> exn + live_auto_config" where
  "live_auto_config_post_init c =
     (if lac_max_strategies c < 0 then Inl (ValueError ''live_auto_max_strategies must be non-negative'')
      else if \<not> positive_limit (lac_max_capital c) then Inl (ValueError ''live_auto_max_capital must be positive'')
      else if \<not> positive_limit (lac_max_loss c) then Inl (ValueError ''live_auto_max_loss must be positive'')
      else if list_ex (\<lambda>(sid, cap). sid = [] \<or> cap \<le> 0) (lac_strategy_risk_budget_ceilings c)
      then Inl (ValueError ''live_auto risk-budget ceilings'')
      else if lac_max_quote_age c \<le> 0 then Inl (ValueError ''live_auto max quote age must be positive'')
      else if \<not> positive_limit (lac_max_quantity c) then Inl (ValueError ''live_auto max quantity must be positive'')
      else Inr c)"

definition assert_enabled :: "live_auto_config \<Rightarrow> exn + unit" where
  "assert_enabled c =
     (if \<not> lac_enabled c then Inl (LiveAutoViolation ''LIVE_AUTO is disabled by configuration'')
      else if lac_max_strategies c < 1
      then Inl (LiveAutoViolation ''LIVE_AUTO requires OT_LIVE_AUTO_MAX_STRATEGIES >= 1 to be usable'')
      else if (case lac_max_capital c of None \<Rightarrow> True | Some v \<Rightarrow> v \<le> 0)
      then Inl (LiveAutoViolation ''LIVE_AUTO requires a positive OT_LIVE_AUTO_MAX_CAPITAL'')
      else if (case lac_max_loss c of None \<Rightarrow> True | Some v \<Rightarrow> v \<le> 0)
      then Inl (LiveAutoViolation ''LIVE_AUTO requires a positive OT_LIVE_AUTO_MAX_LOSS'')
      else Inr ())"

record live_auto_strategy_record =
  las_strategy_id :: string
  las_strategy_version :: string
  las_from_state :: strategy_state
  las_state :: strategy_state
  las_risk_budget :: decimal
  las_capital_allocation :: decimal
  las_promoted_by :: string
  las_promoted_at :: instant
  las_evidence :: "string list"
  las_active :: bool
  las_demoted_by :: "string option"
  las_demoted_at :: "instant option"
  las_demote_reason :: "string option"

record pnl_entry =
  pnl_ledger_id :: uuid
  pnl_strategy_id :: string
  pnl_amount :: decimal
  pnl_recorded_by :: string
  pnl_recorded_at :: instant
  pnl_source :: string

record registry_state =
  rg_strategies :: "(string, live_auto_strategy_record) dict"
  rg_pnl :: "pnl_entry list"
  rg_audit :: "(string \<times> string \<times> string) list"

type_synonym 'a registry_prog = "(registry_state, exn, 'a) prog"

definition get_strategy :: "string \<Rightarrow> registry_state \<Rightarrow> live_auto_strategy_record option" where
  "get_strategy sid s = map_of (rg_strategies s) sid"

definition save_strategy :: "live_auto_strategy_record \<Rightarrow> unit registry_prog" where
  "save_strategy r = modify (\<lambda>s. s\<lparr>rg_strategies := AList.update (las_strategy_id r) r (rg_strategies s)\<rparr>)"

definition list_strategies :: "registry_state \<Rightarrow> live_auto_strategy_record list" where
  "list_strategies s = map snd (rg_strategies s)"

definition append_pnl :: "pnl_entry \<Rightarrow> unit registry_prog" where
  "append_pnl e = modify (\<lambda>s. s\<lparr>rg_pnl := rg_pnl s @ [e]\<rparr>)"

text \<open>\<open>sum(values, start=Decimal(0))\<close>: from the left, rounded at every step.\<close>

definition dsum :: "decimal list \<Rightarrow> decimal" where
  "dsum xs = foldl dadd 0 xs"

definition total_pnl :: "registry_state \<Rightarrow> decimal" where
  "total_pnl s = dsum (map pnl_amount (rg_pnl s))"

definition rg_audit_entry :: "string \<Rightarrow> string \<Rightarrow> string \<Rightarrow> unit registry_prog" where
  "rg_audit_entry action actor target =
     modify (\<lambda>s. s\<lparr>rg_audit := rg_audit s @ [(action, actor, target)]\<rparr>)"

definition refuse :: "bool \<Rightarrow> string \<Rightarrow> unit registry_prog" where
  "refuse b message = guard (\<not> b) (LiveAutoViolation message)"

definition pure_result :: "exn + 'a \<Rightarrow> 'a registry_prog" where
  "pure_result r = (case r of Inl e \<Rightarrow> raise e | Inr x \<Rightarrow> ret x)"

definition active_strategies :: "registry_state \<Rightarrow> live_auto_strategy_record list" where
  "active_strategies s = filter las_active (list_strategies s)"

definition allocated_capital :: "registry_state \<Rightarrow> decimal" where
  "allocated_capital s = dsum (map las_capital_allocation (active_strategies s))"

text \<open>\<open>assert x is not None\<close>.\<close>

definition assert_some :: "'a option \<Rightarrow> 'a registry_prog" where
  "assert_some x = (case x of None \<Rightarrow> raise AssertionError | Some v \<Rightarrow> ret v)"

definition promote ::
    "live_auto_config \<Rightarrow> string \<Rightarrow> string \<Rightarrow> strategy_state \<Rightarrow> decimal \<Rightarrow> decimal \<Rightarrow> string \<Rightarrow> string list \<Rightarrow>
     instant \<Rightarrow> live_auto_strategy_record registry_prog" where
  "promote cfg sid version from_state risk_budget capital actor evidence now =
     seq (pure_result (assert_enabled cfg)) (\<lambda>_.
     seq (refuse (from_state \<noteq> SS_LIVE_GATED)
       ''LIVE_AUTO promotion is only allowed from the LIVE_GATED lifecycle state'') (\<lambda>_.
     seq (refuse (sid = [] \<or> version = []) ''promotion requires a strategy id and version'') (\<lambda>_.
     seq (refuse (risk_budget \<le> 0) ''per-strategy risk budget must be positive'') (\<lambda>_.
     seq (refuse (case map_of (lac_strategy_risk_budget_ceilings cfg) sid of
         None \<Rightarrow> False | Some cap \<Rightarrow> cap < risk_budget) ''risk budget exceeds the configured ceiling'') (\<lambda>_.
     seq (refuse (capital \<le> 0) ''capital allocation must be positive'') (\<lambda>_.
     seq (reads (get_strategy sid)) (\<lambda>existing.
     seq (refuse (case existing of None \<Rightarrow> False | Some r \<Rightarrow> las_active r) ''strategy is already in LIVE_AUTO'') (\<lambda>_.
     seq (reads active_strategies) (\<lambda>active.
     seq (refuse (lac_max_strategies cfg \<le> int (length active)) ''LIVE_AUTO strategy ceiling reached'') (\<lambda>_.
     seq (reads allocated_capital) (\<lambda>allocated.
     seq (assert_some (lac_max_capital cfg)) (\<lambda>max_capital.
     seq (refuse (max_capital < dadd allocated capital)
       ''capital allocation would exceed the LIVE_AUTO ceiling'') (\<lambda>_.
     let record = \<lparr>las_strategy_id = sid, las_strategy_version = version, las_from_state = from_state,
           las_state = SS_LIVE_AUTO, las_risk_budget = risk_budget, las_capital_allocation = capital,
           las_promoted_by = actor, las_promoted_at = now, las_evidence = evidence, las_active = True,
           las_demoted_by = None, las_demoted_at = None, las_demote_reason = None\<rparr>
     in seq (save_strategy record) (\<lambda>_.
        seq (rg_audit_entry ''live_auto.strategy_promoted'' actor sid) (\<lambda>_. ret record)))))))))))))))"

definition demote ::
    "string \<Rightarrow> string \<Rightarrow> string \<Rightarrow> instant \<Rightarrow> live_auto_strategy_record registry_prog" where
  "demote sid actor reason now =
     seq (reads (get_strategy sid)) (\<lambda>existing.
     case existing of
       None \<Rightarrow> raise (LiveAutoViolation ''strategy is not in LIVE_AUTO'')
     | Some r \<Rightarrow>
         seq (refuse (\<not> las_active r) ''strategy is not in LIVE_AUTO'') (\<lambda>_.
         seq (refuse (reason = []) ''demotion requires a reason'') (\<lambda>_.
         let record = r\<lparr>las_active := False, las_state := SS_RETIRED, las_demoted_by := Some actor,
               las_demoted_at := Some now, las_demote_reason := Some reason\<rparr>
         in seq (save_strategy record) (\<lambda>_.
            seq (rg_audit_entry ''live_auto.strategy_demoted'' actor sid) (\<lambda>_. ret record)))))"

definition record_realized_pnl ::
    "uuid \<Rightarrow> string \<Rightarrow> decimal \<Rightarrow> string \<Rightarrow> string \<Rightarrow> instant \<Rightarrow> unit registry_prog" where
  "record_realized_pnl ledger_id sid amount actor source now =
     seq (reads (get_strategy sid)) (\<lambda>existing.
     seq (refuse (existing = None) ''strategy is not in the LIVE_AUTO registry'') (\<lambda>_.
     seq (refuse (amount = 0) ''realized-PnL entries must be non-zero'') (\<lambda>_.
     seq (refuse (source = []) ''realized-PnL entries require a source'') (\<lambda>_.
     seq (append_pnl \<lparr>pnl_ledger_id = ledger_id, pnl_strategy_id = sid, pnl_amount = amount,
       pnl_recorded_by = actor, pnl_recorded_at = now, pnl_source = source\<rparr>) (\<lambda>_.
     rg_audit_entry ''live_auto.pnl_recorded'' actor sid)))))"

definition active_record :: "order_intent \<Rightarrow> live_auto_strategy_record registry_prog" where
  "active_record intent =
     seq (reads (get_strategy (oi_strategy_id intent))) (\<lambda>existing.
     case existing of
       None \<Rightarrow> raise (LiveAutoViolation ''strategy is not in the LIVE_AUTO lifecycle state'')
     | Some r \<Rightarrow> seq (refuse (\<not> las_active r \<or> las_state r \<noteq> SS_LIVE_AUTO)
         ''strategy is not in the LIVE_AUTO lifecycle state'') (\<lambda>_. ret r))"

definition assert_ceilings :: "live_auto_config \<Rightarrow> unit registry_prog" where
  "assert_ceilings cfg =
     seq (reads active_strategies) (\<lambda>active.
     seq (refuse (lac_max_strategies cfg < int (length active)) ''LIVE_AUTO strategy ceiling exceeded'') (\<lambda>_.
     seq (reads allocated_capital) (\<lambda>allocated.
     seq (assert_some (lac_max_capital cfg)) (\<lambda>max_capital.
     refuse (max_capital < allocated) ''LIVE_AUTO capital ceiling exceeded''))))"

definition assert_loss_limit :: "live_auto_config \<Rightarrow> unit registry_prog" where
  "assert_loss_limit cfg =
     seq (assert_some (lac_max_loss cfg)) (\<lambda>max_loss.
     seq (reads total_pnl) (\<lambda>total.
     refuse (total \<le> dneg max_loss) ''LIVE_AUTO global loss limit reached''))"

definition assert_quantity_ceiling :: "live_auto_config \<Rightarrow> order_intent \<Rightarrow> unit registry_prog" where
  "assert_quantity_ceiling cfg intent =
     refuse (case lac_max_quantity cfg of None \<Rightarrow> False | Some q \<Rightarrow> q < oi_quantity intent)
       ''quantity exceeds the live quantity ceiling''"

definition assert_wire_impl :: "live_auto_config \<Rightarrow> order_intent \<Rightarrow> unit registry_prog" where
  "assert_wire_impl cfg intent =
     seq (pure_result (assert_enabled cfg)) (\<lambda>_.
     seq (refuse (oi_operating_mode intent \<noteq> OM_LIVE_AUTO)
       ''only LIVE_AUTO OrderIntents may use automated execution'') (\<lambda>_.
     seq (active_record intent) (\<lambda>_.
     seq (assert_ceilings cfg) (\<lambda>_.
     seq (assert_loss_limit cfg) (\<lambda>_.
     assert_quantity_ceiling cfg intent)))))"

definition assert_submission_impl ::
    "live_auto_config \<Rightarrow> order_intent \<Rightarrow> risk_decision \<Rightarrow> price_context \<Rightarrow> instant \<Rightarrow>
     live_auto_strategy_record registry_prog" where
  "assert_submission_impl cfg intent decision price now =
     seq (pure_result (assert_enabled cfg)) (\<lambda>_.
     seq (refuse (oi_operating_mode intent \<noteq> OM_LIVE_AUTO)
       ''only LIVE_AUTO OrderIntents may use automated execution'') (\<lambda>_.
     seq (active_record intent) (\<lambda>record.
     seq (assert_ceilings cfg) (\<lambda>_.
     seq (refuse (rd_decision decision \<noteq> RD_APPROVE \<and> rd_decision decision \<noteq> RD_RESIZE)
       ''LIVE_AUTO requires an APPROVE/RESIZE Risk Engine decision'') (\<lambda>_.
     seq (refuse (rd_decision_id decision \<noteq> oi_risk_decision_id intent)
       ''Risk Engine decision does not match the risk_decision_id'') (\<lambda>_.
     seq (refuse (rd_approved_quantity decision \<noteq> Some (oi_quantity intent))
       ''OrderIntent quantity does not match the Risk Engine approved_quantity'') (\<lambda>_.
     seq (refuse (rd_risk_amount decision = None) ''Risk Engine decision carries no risk_amount'') (\<lambda>_.
     seq (refuse (case rd_risk_amount decision of None \<Rightarrow> False | Some a \<Rightarrow> las_risk_budget record < a)
       ''risk_amount exceeds the LIVE_AUTO risk budget'') (\<lambda>_.
     seq (assert_loss_limit cfg) (\<lambda>_.
     seq (assert_quantity_ceiling cfg intent) (\<lambda>_.
     seq (refuse (lac_max_quote_age cfg < now - pc_observed_at price)
       ''quote age exceeds the LIVE_AUTO freshness ceiling'') (\<lambda>_.
     ret record))))))))))))"

text \<open>Only a \<open>LiveAutoViolation\<close> is caught, audited and raised again.\<close>

definition audited_denial :: "order_intent \<Rightarrow> 'a registry_prog \<Rightarrow> 'a registry_prog" where
  "audited_denial intent m =
     handle m (\<lambda>e. case e of
         LiveAutoViolation msg \<Rightarrow>
           seq (rg_audit_entry ''live_auto.order_denied'' ''live-auto-registry'' (oi_strategy_id intent)) (\<lambda>_. raise e)
       | _ \<Rightarrow> raise e)"

definition assert_submission_authorized ::
    "live_auto_config \<Rightarrow> order_intent \<Rightarrow> risk_decision \<Rightarrow> price_context \<Rightarrow> instant \<Rightarrow> unit registry_prog" where
  "assert_submission_authorized cfg intent decision price now =
     seq (audited_denial intent (assert_submission_impl cfg intent decision price now)) (\<lambda>_.
     rg_audit_entry ''live_auto.order_authorized'' ''live-auto-registry'' (oi_strategy_id intent))"

definition assert_wire_authorized :: "live_auto_config \<Rightarrow> order_intent \<Rightarrow> unit registry_prog" where
  "assert_wire_authorized cfg intent = audited_denial intent (assert_wire_impl cfg intent)"

subsection \<open>The checks\<close>

lemma seq_refuse [simp]:
  "seq (refuse b m) k s = (if b then (Inl (LiveAutoViolation m), s) else k () s)"
  by (simp add: refuse_def)

lemma refuse_run [simp]: "refuse b m s = (if b then Inl (LiveAutoViolation m) else Inr (), s)"
  by (simp add: refuse_def)

lemma seq_pure_result [simp]:
  "seq (pure_result r) k s = (case r of Inl e \<Rightarrow> (Inl e, s) | Inr x \<Rightarrow> k x s)"
  by (simp add: pure_result_def split: sum.split)

lemma seq_assert_some [simp]:
  "seq (assert_some x) k s = (case x of None \<Rightarrow> (Inl AssertionError, s) | Some v \<Rightarrow> k v s)"
  by (simp add: assert_some_def split: option.split)

definition usable :: "live_auto_config \<Rightarrow> decimal \<Rightarrow> decimal \<Rightarrow> bool" where
  "usable c cap loss \<longleftrightarrow> lac_enabled c \<and> 1 \<le> lac_max_strategies c \<and>
     lac_max_capital c = Some cap \<and> 0 < cap \<and> lac_max_loss c = Some loss \<and> 0 < loss"

lemma assert_enabled_usable: "assert_enabled c = Inr () \<longleftrightarrow> (\<exists>cap loss. usable c cap loss)"
  by (auto simp: assert_enabled_def usable_def split: option.splits if_splits)

lemma assert_enabled_violation: "assert_enabled c = Inl e \<Longrightarrow> \<exists>m. e = LiveAutoViolation m"
  by (auto simp: assert_enabled_def split: if_splits)

definition trading_record :: "order_intent \<Rightarrow> registry_state \<Rightarrow> live_auto_strategy_record \<Rightarrow> bool" where
  "trading_record intent s r \<longleftrightarrow> get_strategy (oi_strategy_id intent) s = Some r \<and> las_active r \<and> las_state r = SS_LIVE_AUTO"

definition within_ceilings :: "live_auto_config \<Rightarrow> decimal \<Rightarrow> registry_state \<Rightarrow> bool" where
  "within_ceilings c cap s \<longleftrightarrow> int (length (active_strategies s)) \<le> lac_max_strategies c \<and> allocated_capital s \<le> cap"

definition within_quantity :: "live_auto_config \<Rightarrow> order_intent \<Rightarrow> bool" where
  "within_quantity c intent \<longleftrightarrow> (case lac_max_quantity c of None \<Rightarrow> True | Some q \<Rightarrow> oi_quantity intent \<le> q)"

lemma seq_active_record:
  "seq (active_record intent) k s =
     (case get_strategy (oi_strategy_id intent) s of
        None \<Rightarrow> (Inl (LiveAutoViolation ''strategy is not in the LIVE_AUTO lifecycle state''), s)
      | Some r \<Rightarrow> if las_active r \<and> las_state r = SS_LIVE_AUTO then k r s
          else (Inl (LiveAutoViolation ''strategy is not in the LIVE_AUTO lifecycle state''), s))"
  by (simp add: active_record_def seq_assoc split: option.split)

lemma seq_assert_ceilings:
  "lac_max_capital c = Some cap \<Longrightarrow> seq (assert_ceilings c) k s =
     (if within_ceilings c cap s then k () s
      else (Inl (LiveAutoViolation (if lac_max_strategies c < int (length (active_strategies s))
        then ''LIVE_AUTO strategy ceiling exceeded'' else ''LIVE_AUTO capital ceiling exceeded'')), s))"
  by (auto simp: assert_ceilings_def seq_assoc within_ceilings_def)

lemma seq_assert_loss_limit:
  "lac_max_loss c = Some loss \<Longrightarrow> seq (assert_loss_limit c) k s =
     (if dneg loss < total_pnl s then k () s
      else (Inl (LiveAutoViolation ''LIVE_AUTO global loss limit reached''), s))"
  by (auto simp: assert_loss_limit_def seq_assoc)

lemma seq_assert_quantity:
  "seq (assert_quantity_ceiling c intent) k s =
     (if within_quantity c intent then k () s
      else (Inl (LiveAutoViolation ''quantity exceeds the live quantity ceiling''), s))"
  by (auto simp: assert_quantity_ceiling_def within_quantity_def split: option.split)

definition decision_fits :: "order_intent \<Rightarrow> risk_decision \<Rightarrow> live_auto_strategy_record \<Rightarrow> bool" where
  "decision_fits intent d r \<longleftrightarrow> rd_decision d \<in> {RD_APPROVE, RD_RESIZE} \<and>
     rd_decision_id d = oi_risk_decision_id intent \<and> rd_approved_quantity d = Some (oi_quantity intent) \<and>
     (\<exists>a. rd_risk_amount d = Some a \<and> a \<le> las_risk_budget r)"

lemma submission_impl_run:
  assumes "usable c cap loss"
  shows "\<exists>m. assert_submission_impl c intent d price now s =
    (if oi_operating_mode intent = OM_LIVE_AUTO \<and> (\<exists>r. trading_record intent s r \<and> decision_fits intent d r) \<and>
        within_ceilings c cap s \<and> dneg loss < total_pnl s \<and> within_quantity c intent \<and>
        now - pc_observed_at price \<le> lac_max_quote_age c
     then Inr (the (get_strategy (oi_strategy_id intent) s)) else Inl (LiveAutoViolation m), s)"
proof -
  have en: "assert_enabled c = Inr ()" using assms assert_enabled_usable by blast
  have caps: "lac_max_capital c = Some cap" "lac_max_loss c = Some loss" using assms by (simp_all add: usable_def)
  note run = assert_submission_impl_def seq_active_record seq_assert_ceilings [OF caps(1)] seq_assert_loss_limit [OF caps(2)]
    seq_assert_quantity
  show ?thesis
  proof (cases "get_strategy (oi_strategy_id intent) s")
    case None
    then show ?thesis by (simp add: run en trading_record_def)
  next
    case (Some r)
    show ?thesis
    proof (cases "rd_risk_amount d")
      case None
      then show ?thesis using Some by (simp add: run en trading_record_def decision_fits_def not_le not_less)
    next
      case (Some a)
      with \<open>get_strategy (oi_strategy_id intent) s = Some r\<close> show ?thesis
        by (simp add: run en trading_record_def decision_fits_def not_le not_less)
    qed
  qed
qed

lemma submission_impl_disabled:
  assumes "\<nexists>cap loss. usable c cap loss"
  shows "\<exists>m. assert_submission_impl c intent d price now s = (Inl (LiveAutoViolation m), s)"
proof -
  obtain e where e: "assert_enabled c = Inl e" using assms assert_enabled_usable by (cases "assert_enabled c") auto
  then obtain m where "e = LiveAutoViolation m" using assert_enabled_violation by blast
  then show ?thesis using e by (simp add: assert_submission_impl_def)
qed

lemma rg_audit_run [simp]:
  "rg_audit_entry x y z s = (Inr (), s\<lparr>rg_audit := rg_audit s @ [(x, y, z)]\<rparr>)"
  by (simp add: rg_audit_entry_def)

lemma submission_run:
  "assert_submission_impl c intent d price now s = (Inl (LiveAutoViolation m), s) \<Longrightarrow>
   assert_submission_authorized c intent d price now s = (Inl (LiveAutoViolation m),
     s\<lparr>rg_audit := rg_audit s @ [(''live_auto.order_denied'', ''live-auto-registry'', oi_strategy_id intent)]\<rparr>)"
  "assert_submission_impl c intent d price now s = (Inr r, s) \<Longrightarrow>
   assert_submission_authorized c intent d price now s = (Inr (),
     s\<lparr>rg_audit := rg_audit s @ [(''live_auto.order_authorized'', ''live-auto-registry'', oi_strategy_id intent)]\<rparr>)"
  by (simp_all add: assert_submission_authorized_def audited_denial_def handle_def seq_run)


subsection \<open>Governance over time\<close>

datatype registry_op =
    Promote string string strategy_state decimal decimal string "string list"
  | Demote string string string
  | RecordPnl uuid string decimal string string
  | Submit order_intent risk_decision price_context
  | CheckWire order_intent

fun registry_step :: "live_auto_config \<Rightarrow> registry_op \<times> instant \<Rightarrow> registry_state \<Rightarrow> registry_state" where
  "registry_step c (Promote sid v from b cap actor ev, now) s = snd (promote c sid v from b cap actor ev now s)"
| "registry_step c (Demote sid actor reason, now) s = snd (demote sid actor reason now s)"
| "registry_step c (RecordPnl lid sid amount actor source, now) s = snd (record_realized_pnl lid sid amount actor source now s)"
| "registry_step c (Submit intent d price, now) s = snd (assert_submission_authorized c intent d price now s)"
| "registry_step c (CheckWire intent, now) s = snd (assert_wire_authorized c intent s)"

definition run_registry :: "live_auto_config \<Rightarrow> (registry_op \<times> instant) list \<Rightarrow> registry_state \<Rightarrow> registry_state" where
  "run_registry c ops s = fold (registry_step c) ops s"

text \<open>The exact capital of the active strategies.\<close>

definition exact_capital :: "registry_state \<Rightarrow> rat" where
  "exact_capital s = sum_list (map las_capital_allocation (active_strategies s))"

definition registry_inv :: "live_auto_config \<Rightarrow> decimal \<Rightarrow> registry_state \<Rightarrow> bool" where
  "registry_inv c cap s \<longleftrightarrow> distinct (map fst (rg_strategies s)) \<and>
     (\<forall>(k, r) \<in> set (rg_strategies s). las_strategy_id r = k \<and> 0 < las_capital_allocation r \<and>
        on_grid (las_capital_allocation r) \<and>
        (if las_active r then las_state r = SS_LIVE_AUTO \<and> las_from_state r = SS_LIVE_GATED else las_state r = SS_RETIRED)) \<and>
     int (length (active_strategies s)) \<le> lac_max_strategies c \<and> exact_capital s \<le> cap"

lemma dsum_exact:
  assumes "\<forall>x \<in> set xs. 0 \<le> x \<and> on_grid x" and "on_grid b" and "0 \<le> a" and "on_grid a" and "a + sum_list xs \<le> b"
  shows "foldl dadd a xs = a + sum_list xs"
  using assms
proof (induction xs arbitrary: a)
  case (Cons x xs)
  have nonneg: "0 \<le> sum_list xs" using Cons.prems(1) by (intro sum_list_nonneg) auto
  have "on_grid (a + x)"
    by (rule on_grid_add_le [of a x b]) (use Cons.prems nonneg in auto)
  then show ?case using Cons nonneg by (simp add: add.assoc)
qed simp

lemma registry_capital_exact:
  assumes "registry_inv c cap s" and "on_grid cap"
  shows "allocated_capital s = exact_capital s"
proof -
  have "\<forall>x \<in> set (map las_capital_allocation (active_strategies s)). 0 \<le> x \<and> on_grid x"
    using assms(1) by (fastforce simp: registry_inv_def active_strategies_def list_strategies_def)
  from dsum_exact [OF this assms(2), of 0] show ?thesis
    using assms(1) by (simp add: allocated_capital_def dsum_def exact_capital_def registry_inv_def)
qed

lemma sum_alist_update:
  fixes g :: "'b \<Rightarrow> 'c :: ab_group_add"
  shows "sum_list (map (\<lambda>x. g (snd x)) (AList.update k v d)) =
     sum_list (map (\<lambda>x. g (snd x)) d) - (case map_of d k of None \<Rightarrow> 0 | Some w \<Rightarrow> g w) + g v"
  by (induction d) (auto simp: algebra_simps split: option.split)

definition active_weight :: "(live_auto_strategy_record \<Rightarrow> 'c) \<Rightarrow> live_auto_strategy_record \<Rightarrow> 'c :: zero" where
  "active_weight f r = (if las_active r then f r else 0)"

lemma active_sum: "sum_list (map f (active_strategies s)) = sum_list (map (\<lambda>x. active_weight f (snd x)) (rg_strategies s))"
  by (simp add: active_strategies_def list_strategies_def active_weight_def sum_list_map_filter' comp_def)

lemma active_length: "int (length (active_strategies s)) = sum_list (map (\<lambda>x. active_weight (\<lambda>_. 1) (snd x)) (rg_strategies s))"
  by (simp flip: active_sum add: sum_list_triv)

text \<open>Writing one strategy record keeps the invariant when its weight fits.\<close>

lemma registry_inv_save:
  assumes inv: "registry_inv c cap s" and r: "las_strategy_id r = k" "0 < las_capital_allocation r" "on_grid (las_capital_allocation r)"
      "if las_active r then las_state r = SS_LIVE_AUTO \<and> las_from_state r = SS_LIVE_GATED else las_state r = SS_RETIRED"
    and fit: "\<not> las_active r \<or> (case get_strategy k s of None \<Rightarrow> True | Some q \<Rightarrow> \<not> las_active q) \<and>
      int (length (active_strategies s)) + 1 \<le> lac_max_strategies c \<and> exact_capital s + las_capital_allocation r \<le> cap"
  shows "registry_inv c cap (s\<lparr>rg_strategies := AList.update k r (rg_strategies s)\<rparr>)"
proof -
  let ?s = "s\<lparr>rg_strategies := AList.update k r (rg_strategies s)\<rparr>"
  have len: "int (length (active_strategies ?s)) = int (length (active_strategies s)) -
      (case get_strategy k s of None \<Rightarrow> 0 | Some q \<Rightarrow> active_weight (\<lambda>_. 1) q) + active_weight (\<lambda>_. 1) r"
    unfolding active_length by (simp add: sum_alist_update get_strategy_def)
  have cap': "exact_capital ?s = exact_capital s -
      (case get_strategy k s of None \<Rightarrow> 0 | Some q \<Rightarrow> active_weight las_capital_allocation q) + active_weight las_capital_allocation r"
    unfolding exact_capital_def active_sum by (simp add: sum_alist_update get_strategy_def)
  have old: "0 \<le> (case get_strategy k s of None \<Rightarrow> 0 | Some q \<Rightarrow> active_weight las_capital_allocation q)"
      "0 \<le> (case get_strategy k s of None \<Rightarrow> 0 | Some q \<Rightarrow> active_weight (\<lambda>_. 1 :: int) q)"
    using inv by (auto simp: registry_inv_def get_strategy_def active_weight_def dest!: map_of_SomeD split: option.split)
  have bound: "int (length (active_strategies ?s)) \<le> lac_max_strategies c" "exact_capital ?s \<le> cap"
    using inv fit old len cap' by (auto simp: registry_inv_def active_weight_def split: option.splits)
  have "\<forall>(j, q) \<in> set (rg_strategies ?s). las_strategy_id q = j \<and> 0 < las_capital_allocation q \<and>
        on_grid (las_capital_allocation q) \<and>
        (if las_active q then las_state q = SS_LIVE_AUTO \<and> las_from_state q = SS_LIVE_GATED else las_state q = SS_RETIRED)"
    using inv r set_alist_update_subset [of k r "rg_strategies s"] unfolding registry_inv_def by fastforce
  then show ?thesis using inv bound by (simp add: registry_inv_def distinct_update)
qed

lemma registry_inv_audit [simp]:
  "registry_inv c cap (s\<lparr>rg_audit := a\<rparr>) = registry_inv c cap s"
  "registry_inv c cap (s\<lparr>rg_pnl := b, rg_audit := a\<rparr>) = registry_inv c cap s"
  by (simp_all add: registry_inv_def exact_capital_def active_strategies_def list_strategies_def)

lemma save_strategy_run [simp]:
  "save_strategy r s = (Inr (), s\<lparr>rg_strategies := AList.update (las_strategy_id r) r (rg_strategies s)\<rparr>)"
  by (simp add: save_strategy_def)

lemma promote_inv:
  assumes inv: "registry_inv c cap s" and cap: "lac_max_capital c = Some cap" "on_grid cap" and g: "on_grid capital"
  shows "registry_inv c cap (snd (promote c sid v from b capital actor ev now s))"
proof (cases "assert_enabled c")
  case (Inl e)
  then show ?thesis using inv by (simp add: promote_def)
next
  case (Inr u)
  have ex: "allocated_capital s = exact_capital s" by (rule registry_capital_exact [OF inv cap(2)])
  have "0 \<le> exact_capital s" unfolding exact_capital_def
    using inv by (intro sum_list_nonneg) (fastforce simp: registry_inv_def active_strategies_def list_strategies_def)
  have "on_grid (exact_capital s)"
  proof -
    have "on_grid z" if "\<forall>x \<in> set xs. 0 \<le> x \<and> on_grid x" "z = sum_list xs" "z \<le> cap" for z :: rat and xs
      using that
    proof (induction xs arbitrary: z)
      case (Cons x xs)
      have "0 \<le> sum_list xs" using Cons.prems(1) by (intro sum_list_nonneg) auto
      moreover have "on_grid (sum_list xs)" using Cons.IH [of "sum_list xs"] Cons.prems by auto
      ultimately show ?case using Cons.prems on_grid_add_le [of x "sum_list xs" cap] cap(2) by auto
    qed simp
    from this [of "map las_capital_allocation (active_strategies s)" "exact_capital s"] show ?thesis
      using inv by (fastforce simp: registry_inv_def exact_capital_def active_strategies_def list_strategies_def)
  qed
  then have sum: "dadd (allocated_capital s) capital = exact_capital s + capital" using g by (simp add: ex)
  show ?thesis
    using inv g by (auto simp: promote_def Inr cap(1) sum Let_def not_le not_less
        intro!: registry_inv_save split: option.splits)
qed

lemma demote_inv:
  assumes inv: "registry_inv c cap s"
  shows "registry_inv c cap (snd (demote sid actor reason now s))"
proof (cases "get_strategy sid s")
  case None
  then show ?thesis using inv by (simp add: demote_def)
next
  case (Some r)
  then have "las_strategy_id r = sid" "0 < las_capital_allocation r" "on_grid (las_capital_allocation r)"
    using inv by (auto simp: registry_inv_def get_strategy_def dest!: map_of_SomeD)
  then show ?thesis using inv Some by (auto simp: demote_def Let_def intro!: registry_inv_save)
qed

lemma pnl_strategies [simp]: "rg_strategies (snd (record_realized_pnl lid sid amount actor source now s)) = rg_strategies s"
  by (simp add: record_realized_pnl_def append_pnl_def)

text \<open>The checks read the registry and write nothing but the audit trail.\<close>

definition reads_only :: "'a registry_prog \<Rightarrow> bool" where
  "reads_only m \<longleftrightarrow> (\<forall>s. snd (m s) = s)"

lemma reads_only_rules [simp]:
  "reads_only (ret x)" "reads_only (raise e)" "reads_only (reads f)" "reads_only (refuse b m)"
  "reads_only (pure_result r)" "reads_only (assert_some y)"
  by (simp_all add: reads_only_def pure_result_def assert_some_def split: sum.split option.split)

lemma reads_only_seq [intro!]: "reads_only m \<Longrightarrow> (\<And>x. reads_only (k x)) \<Longrightarrow> reads_only (seq m k)"
  unfolding reads_only_def seq_run by (metis (mono_tags, lifting) case_prod_unfold old.sum.exhaust old.sum.simps(5) old.sum.simps(6) snd_conv)

lemma checks_reads_only:
  "reads_only (active_record intent)" "reads_only (assert_ceilings c)" "reads_only (assert_loss_limit c)"
  "reads_only (assert_quantity_ceiling c intent)"
  unfolding active_record_def assert_ceilings_def assert_loss_limit_def assert_quantity_ceiling_def
  by (auto split: option.split)

lemma impl_reads_only: "reads_only (assert_submission_impl c intent d price now)" "reads_only (assert_wire_impl c intent)"
  unfolding assert_submission_impl_def assert_wire_impl_def by (auto intro: checks_reads_only)

lemma audited_denial_strategies:
  "reads_only m \<Longrightarrow> rg_strategies (snd (audited_denial intent m s)) = rg_strategies s"
  by (auto simp: audited_denial_def handle_def reads_only_def split: prod.split sum.split exn.split)
     (metis snd_conv)+

lemma gate_strategies [simp]:
  "rg_strategies (snd (assert_submission_authorized c intent d price now s)) = rg_strategies s"
  "rg_strategies (snd (assert_wire_authorized c intent s)) = rg_strategies s"
proof -
  show "rg_strategies (snd (assert_submission_authorized c intent d price now s)) = rg_strategies s"
    using audited_denial_strategies [OF impl_reads_only(1), of intent c intent d price now s]
    by (auto simp: assert_submission_authorized_def seq_run split: prod.split sum.split)
qed (simp add: assert_wire_authorized_def audited_denial_strategies impl_reads_only)

lemma registry_inv_strategies: "rg_strategies s' = rg_strategies s \<Longrightarrow> registry_inv c cap s' = registry_inv c cap s"
  by (simp add: registry_inv_def exact_capital_def active_strategies_def list_strategies_def)

definition grid_op :: "registry_op \<times> instant \<Rightarrow> bool" where
  "grid_op x = (case fst x of Promote _ _ _ _ capital _ _ \<Rightarrow> on_grid capital | _ \<Rightarrow> True)"

lemma registry_step_inv:
  assumes "registry_inv c cap s" "lac_max_capital c = Some cap" "on_grid cap" "grid_op x"
  shows "registry_inv c cap (registry_step c x s)"
proof -
  obtain op now where x: "x = (op, now)" by (cases x)
  show ?thesis
  proof (cases op)
    case (Promote sid v prev b capital actor ev)
    then show ?thesis using promote_inv [OF assms(1-3)] assms(4) by (simp add: x grid_op_def)
  next
    case (Demote sid actor reason)
    then show ?thesis using demote_inv [OF assms(1)] by (simp add: x)
  qed (use assms(1) registry_inv_strategies [of "registry_step c x s" s c cap] x in simp_all)
qed

lemma run_registry_inv:
  assumes "lac_max_capital c = Some cap" "on_grid cap" "registry_inv c cap s" "list_all grid_op ops"
  shows "registry_inv c cap (run_registry c ops s)"
  using assms(3,4) unfolding run_registry_def
  by (induction ops arbitrary: s) (auto intro: registry_step_inv [OF _ assms(1,2)])

definition empty_registry :: registry_state where
  "empty_registry = \<lparr>rg_strategies = [], rg_pnl = [], rg_audit = []\<rparr>"

text \<open>
  C27: the governance invariant of automated execution. Whatever sequence of promotions, demotions,
  profit and loss entries and order checks runs on an empty registry, at whatever times and with
  whatever outcomes, the number of active strategies stays within the configured ceiling and the
  exact sum of their capital within the configured capital; every active
  strategy came from LIVE_GATED and is LIVE_AUTO, every other is RETIRED. The capital amounts are those of a
  NUMERIC(38,8) column, for which the rounded sums of the code are exact.
\<close>

theorem governance_invariant:
  assumes "live_auto_config_post_init c = Inr c" and "lac_max_capital c = Some cap" and "on_grid cap"
    and "list_all grid_op ops"
  shows "let s = run_registry c ops empty_registry in
     int (length (active_strategies s)) \<le> lac_max_strategies c \<and>
     sum_list (map las_capital_allocation (active_strategies s)) \<le> cap \<and>
     distinct (map fst (rg_strategies s)) \<and>
     list_all (\<lambda>(k, r). las_strategy_id r = k \<and> 0 < las_capital_allocation r \<and>
       (if las_active r then las_state r = SS_LIVE_AUTO \<and> las_from_state r = SS_LIVE_GATED else las_state r = SS_RETIRED))
       (rg_strategies s)"
proof -
  have "registry_inv c cap empty_registry"
    using assms(1,2) by (auto simp: live_auto_config_post_init_def positive_limit_def registry_inv_def empty_registry_def
        active_strategies_def list_strategies_def exact_capital_def split: if_splits)
  from run_registry_inv [OF assms(2,3) this assms(4)] show ?thesis
    by (auto simp: Let_def registry_inv_def exact_capital_def list_all_iff)
qed

definition example_live_auto_config :: live_auto_config where
  "example_live_auto_config = \<lparr>lac_enabled = True, lac_max_strategies = 2, lac_max_capital = Some 1000,
     lac_max_loss = Some 100, lac_strategy_risk_budget_ceilings = [(''s1'', 50)], lac_max_quote_age = 5000000,
     lac_max_quantity = None\<rparr>"

definition example_registry_ops :: "(registry_op \<times> instant) list" where
  "example_registry_ops =
     [(Promote ''s1'' ''v1'' SS_LIVE_GATED 40 600 ''op'' [], 10),
      (Promote ''s2'' ''v1'' SS_LIVE_GATED 40 500 ''op'' [], 20),
      (Promote ''s2'' ''v1'' SS_LIVE_GATED 40 400 ''op'' [], 30),
      (Promote ''s3'' ''v1'' SS_LIVE_GATED 40 1 ''op'' [], 40),
      (Demote ''s1'' ''op'' ''drawdown'', 50),
      (Promote ''s3'' ''v1'' SS_LIVE_GATED 40 600 ''op'' [], 60)]"

lemma example_registry_run:
  "map (\<lambda>r. (las_strategy_id r, las_active r, las_capital_allocation r)) (list_strategies (run_registry example_live_auto_config example_registry_ops empty_registry))
   = [(''s1'', False, 600), (''s2'', True, 400), (''s3'', True, 600)]"
  by code_simp

lemma on_grid_small: "on_grid 1" "on_grid 400" "on_grid 500" "on_grid 600" "on_grid 1000"
proof -
  have "on_grid (of_int k)" if "\<bar>k\<bar> \<le> 1000" for k
    by (rule on_gridI [of _ "k * 10 ^ 8"]) (use that in simp_all)
  from this [of 1] this [of 400] this [of 500] this [of 600] this [of 1000]
  show "on_grid 1" "on_grid 400" "on_grid 500" "on_grid 600" "on_grid 1000" by simp_all
qed

theorem governance_invariant_witness:
  "let s = run_registry example_live_auto_config example_registry_ops empty_registry in
     int (length (active_strategies s)) \<le> 2 \<and>
     sum_list (map las_capital_allocation (active_strategies s)) \<le> 1000"
proof -
  have "live_auto_config_post_init example_live_auto_config = Inr example_live_auto_config" by code_simp
  moreover have "lac_max_capital example_live_auto_config = Some 1000" "lac_max_strategies example_live_auto_config = 2"
    by (simp_all add: example_live_auto_config_def)
  moreover have "list_all grid_op example_registry_ops"
    by (simp add: example_registry_ops_def grid_op_def on_grid_small)
  ultimately show ?thesis
    using governance_invariant [of example_live_auto_config 1000 example_registry_ops] on_grid_small by (simp add: Let_def)
qed

subsection \<open>Demotion\<close>

text \<open>A strategy is grounded when the registry has no active record of it.\<close>

definition grounded :: "string \<Rightarrow> registry_state \<Rightarrow> bool" where
  "grounded sid s \<longleftrightarrow> (case get_strategy sid s of None \<Rightarrow> True | Some r \<Rightarrow> \<not> las_active r)"

definition promotes :: "string \<Rightarrow> registry_op \<times> instant \<Rightarrow> bool" where
  "promotes sid x = (case fst x of Promote k _ _ _ _ _ _ \<Rightarrow> k = sid | _ \<Rightarrow> False)"

lemma get_strategy_update [simp]:
  "get_strategy sid (s\<lparr>rg_strategies := AList.update k r (rg_strategies s)\<rparr>) = (if sid = k then Some r else get_strategy sid s)"
  "get_strategy sid (s\<lparr>rg_strategies := AList.update k r (rg_strategies s), rg_audit := a\<rparr>) =
     (if sid = k then Some r else get_strategy sid s)"
  by (simp_all add: get_strategy_def update_conv')

lemma promote_other: "k \<noteq> sid \<Longrightarrow> get_strategy sid (snd (promote c k v st b capital actor ev now s)) = get_strategy sid s"
  by (simp add: promote_def Let_def split: sum.split option.split)

lemma grounded_strategies: "rg_strategies s' = rg_strategies s \<Longrightarrow> grounded sid s' = grounded sid s"
  by (simp add: grounded_def get_strategy_def)

lemma registry_step_grounded:
  assumes "grounded sid s" and "\<not> promotes sid x"
  shows "grounded sid (registry_step c x s)"
proof -
  obtain op now where x: "x = (op, now)" by (cases x)
  show ?thesis
  proof (cases op)
    case (Promote k v prev b capital actor ev)
    then show ?thesis using assms by (simp add: x promotes_def grounded_def promote_other)
  next
    case (Demote k actor reason)
    then show ?thesis using assms(1) by (auto simp: x demote_def Let_def grounded_def split: option.split)
  qed (use assms(1) grounded_strategies [of "registry_step c x s" s sid] x in simp_all)
qed

lemma run_registry_grounded:
  "grounded sid s \<Longrightarrow> list_all (\<lambda>x. \<not> promotes sid x) ops \<Longrightarrow> grounded sid (run_registry c ops s)"
  unfolding run_registry_def by (induction ops arbitrary: s) (auto intro: registry_step_grounded)

lemma audited_denial_error: "m s = (Inl e, s) \<Longrightarrow> \<exists>s'. audited_denial intent m s = (Inl e, s')"
  by (auto simp: audited_denial_def handle_def split: exn.split)

lemma grounded_refused:
  assumes "grounded (oi_strategy_id intent) s"
  shows "fst (assert_submission_authorized c intent d price now s) \<noteq> Inr ()"
    and "fst (assert_wire_authorized c intent s) \<noteq> Inr ()"
proof -
  have impl: "\<exists>e. assert_submission_impl c intent d price now s = (Inl e, s)" "\<exists>e. assert_wire_impl c intent s = (Inl e, s)"
    using assms by (auto simp: assert_submission_impl_def assert_wire_impl_def seq_active_record grounded_def
        split: sum.split option.split)
  from impl(1) obtain e s' where "audited_denial intent (assert_submission_impl c intent d price now) s = (Inl e, s')"
    using audited_denial_error by blast
  then show "fst (assert_submission_authorized c intent d price now s) \<noteq> Inr ()"
    by (simp add: assert_submission_authorized_def seq_run)
  from impl(2) obtain e s' where "audited_denial intent (assert_wire_impl c intent) s = (Inl e, s')"
    using audited_denial_error by blast
  then show "fst (assert_wire_authorized c intent s) \<noteq> Inr ()"
    by (simp add: assert_wire_authorized_def)
qed

text \<open>
  A demoted strategy stops trading. After a successful demotion, whatever the
  registry does next short of promoting that strategy again, no order of the strategy is authorized, neither when it is
  submitted nor at the wire boundary.
\<close>

lemma demoted_strategy_cannot_trade:
  assumes "fst (demote sid actor reason t s) = Inr r" and "registry_inv c cap s"
    and "list_all (\<lambda>x. \<not> promotes sid x) ops" and "oi_strategy_id intent = sid"
  shows "let s' = run_registry c ops (snd (demote sid actor reason t s)) in
     fst (assert_submission_authorized c intent d price now s') \<noteq> Inr () \<and>
     fst (assert_wire_authorized c intent s') \<noteq> Inr ()"
proof -
  have id: "las_strategy_id q = sid" if "get_strategy sid s = Some q" for q
    using assms(2) that by (auto simp: registry_inv_def get_strategy_def dest!: map_of_SomeD)
  have "grounded sid (snd (demote sid actor reason t s))"
    using assms(1) id by (auto simp: demote_def Let_def grounded_def split: option.splits if_splits)
  from run_registry_grounded [OF this assms(3), of c] show ?thesis
    using grounded_refused [of intent] assms(4) by (simp add: Let_def)
qed

definition example_demotion_ops :: "(registry_op \<times> instant) list" where
  "example_demotion_ops = [(Promote ''s2'' ''v1'' SS_LIVE_GATED 40 500 ''op'' [], 20)]"

definition example_demotable :: registry_state where
  "example_demotable = run_registry example_live_auto_config [(Promote ''s1'' ''v1'' SS_LIVE_GATED 40 600 ''op'' [], 10)] empty_registry"

theorem demoted_strategy_cannot_trade_witness:
  "let s' = run_registry example_live_auto_config example_demotion_ops (snd (demote ''s1'' ''op'' ''drawdown'' 15 example_demotable)) in
   length (active_strategies s') = 1 \<and>
   fst (assert_wire_authorized example_live_auto_config (example_live_intent\<lparr>oi_strategy_id := ''s1''\<rparr>) s') \<noteq> Inr ()"
proof -
  let ?i = "example_live_intent\<lparr>oi_strategy_id := ''s1''\<rparr>"
  have "\<exists>r. fst (demote ''s1'' ''op'' ''drawdown'' 15 example_demotable) = Inr r"
  proof -
    have "isl (fst (demote ''s1'' ''op'' ''drawdown'' 15 example_demotable)) = False" by code_simp
    then show ?thesis by (metis sum.collapse(2))
  qed
  then obtain r where r: "fst (demote ''s1'' ''op'' ''drawdown'' 15 example_demotable) = Inr r" by blast
  have "registry_inv example_live_auto_config 1000 empty_registry"
    by (simp add: example_live_auto_config_def registry_inv_def empty_registry_def active_strategies_def list_strategies_def exact_capital_def)
  then have inv: "registry_inv example_live_auto_config 1000 example_demotable"
    unfolding example_demotable_def
    by (intro run_registry_inv) (simp_all add: example_live_auto_config_def on_grid_small grid_op_def)
  have "list_all (\<lambda>x. \<not> promotes ''s1'' x) example_demotion_ops" by (simp add: example_demotion_ops_def promotes_def)
  from demoted_strategy_cannot_trade [OF r inv this, of ?i]
  have "fst (assert_wire_authorized example_live_auto_config ?i
     (run_registry example_live_auto_config example_demotion_ops (snd (demote ''s1'' ''op'' ''drawdown'' 15 example_demotable)))) \<noteq> Inr ()"
    by (simp add: Let_def)
  moreover have "length (active_strategies (run_registry example_live_auto_config example_demotion_ops
     (snd (demote ''s1'' ''op'' ''drawdown'' 15 example_demotable)))) = 1" by code_simp
  ultimately show ?thesis unfolding Let_def by blast
qed

end
