(* ===== verification/Uuid_Text.thy ===== *)
theory Uuid_Text
  imports OT_Prelude
begin

text \<open>
  Identifiers as text. The execution service writes \<open>str(uuid)\<close> into event fingerprints and
  reads the order a venue position belongs to back from the provenance of the position with
  \<open>UUID(text)\<close> (\<open>ExecutionService._provenance_intent\<close>). Both are functions of Python's
  \<^verbatim>\<open>uuid\<close> module: \<open>str\<close> prints 32 lower-case hexadecimal digits in five groups; the
  constructor removes \<open>urn:\<close>, \<open>uuid:\<close>, braces at the ends and hyphens, requires 32
  characters and reads them with \<open>int(text, 16)\<close>, which itself accepts surrounding white
  space, a sign, a prefix \<open>0x\<close> and single underscores between digits. Text is ASCII.
\<close>

subsection \<open>Printing\<close>

definition hex_digit :: "nat \<Rightarrow> char" where
  "hex_digit n = char_of (if n < 10 then 48 + n else 87 + n)"

primrec hex_fixed :: "nat \<Rightarrow> nat \<Rightarrow> string" where
  "hex_fixed 0 n = []"
| "hex_fixed (Suc k) n = hex_fixed k (n div 16) @ [hex_digit (n mod 16)]"

definition uuid_str :: "uuid \<Rightarrow> string" where
  "uuid_str u = (let h = hex_fixed 32 u in
     take 8 h @ ''-'' @ take 4 (drop 8 h) @ ''-'' @ take 4 (drop 12 h) @ ''-'' @
     take 4 (drop 16 h) @ ''-'' @ drop 20 h)"

subsection \<open>Reading\<close>

definition hex_value :: "char \<Rightarrow> nat option" where
  "hex_value c = (let n = of_char c :: nat in
     if 48 \<le> n \<and> n \<le> 57 then Some (n - 48)
     else if 97 \<le> n \<and> n \<le> 102 then Some (n - 87)
     else if 65 \<le> n \<and> n \<le> 70 then Some (n - 55)
     else None)"

text \<open>Digits with single underscores between them, most significant first.\<close>

fun hex_digits :: "nat \<Rightarrow> string \<Rightarrow> nat option" where
  "hex_digits acc [] = Some acc"
| "hex_digits acc (c # cs) =
     (case hex_value c of
        Some d \<Rightarrow> hex_digits (16 * acc + d) cs
      | None \<Rightarrow>
          (case cs of
             d # _ \<Rightarrow> if c = CHR ''_'' \<and> hex_value d \<noteq> None then hex_digits acc cs else None
           | [] \<Rightarrow> None))"

definition int_base16 :: "string \<Rightarrow> int option" where
  "int_base16 text =
     (let t = strip text;
          (negative, t) = (case t of CHR ''-'' # r \<Rightarrow> (True, r) | CHR ''+'' # r \<Rightarrow> (False, r) | _ \<Rightarrow> (False, t));
          t = (case t of a # b # r \<Rightarrow>
                 if a = CHR ''0'' \<and> (b = CHR ''x'' \<or> b = CHR ''X'')
                 then (case r of c # r' \<Rightarrow> if c = CHR ''_'' then r' else r | [] \<Rightarrow> r) else t
               | _ \<Rightarrow> t)
      in case t of
           [] \<Rightarrow> None
         | c # _ \<Rightarrow> if c = CHR ''_'' then None
             else map_option (\<lambda>n. if negative then - int n else int n) (hex_digits 0 t))"

text \<open>\<open>text.replace(pattern, "")\<close> for a non-empty pattern.\<close>

function remove_all :: "string \<Rightarrow> string \<Rightarrow> string" where
  "remove_all p [] = []"
| "remove_all p (c # cs) =
     (if p \<noteq> [] \<and> take (length p) (c # cs) = p then remove_all p (drop (length p) (c # cs))
      else c # remove_all p cs)"
  by pat_completeness auto
termination
  by (relation "measure (length \<circ> snd)") auto

definition strip_braces :: "string \<Rightarrow> string" where
  "strip_braces s = (let brace = (\<lambda>c. c = CHR ''{'' \<or> c = CHR ''}'')
     in rev (dropWhile brace (rev (dropWhile brace s))))"

definition uuid_of_string :: "string \<Rightarrow> uuid option" where
  "uuid_of_string raw =
     (let hex = filter (\<lambda>c. c \<noteq> CHR ''-'') (strip_braces (remove_all ''uuid:'' (remove_all ''urn:'' raw)))
      in if length hex \<noteq> 32 then None
         else case int_base16 hex of
                None \<Rightarrow> None
              | Some n \<Rightarrow> if 0 \<le> n \<and> n < 2 ^ 128 then Some (nat n) else None)"

subsection \<open>Reading what was printed\<close>

lemma hex_value_digit: "n < 16 \<Longrightarrow> hex_value (hex_digit n) = Some n"
  by (auto simp: hex_digit_def hex_value_def Let_def of_char_of take_bit_eq_mod)

lemma length_hex_fixed [simp]: "length (hex_fixed k n) = k"
  by (induction k arbitrary: n) simp_all

lemma hex_fixed_hex: "c \<in> set (hex_fixed k n) \<Longrightarrow> hex_value c \<noteq> None"
  by (induction k arbitrary: n) (auto simp: hex_value_digit)

lemma hex_digits_append:
  "\<forall>c \<in> set xs. hex_value c \<noteq> None \<Longrightarrow>
   hex_digits acc (xs @ ys) = (case hex_digits acc xs of None \<Rightarrow> None | Some a \<Rightarrow> hex_digits a ys)"
  by (induction xs arbitrary: acc) (auto split: option.split)

lemma hex_digits_fixed: "hex_digits acc (hex_fixed k n) = Some (acc * 16 ^ k + n mod 16 ^ k)"
proof (induction k arbitrary: n)
  case (Suc k)
  have "n mod 16 ^ Suc k = (n div 16) mod 16 ^ k * 16 + n mod 16"
    by (metis mod_mult2_eq mult.commute power_Suc add.commute)
  then show ?case
    using Suc hex_fixed_hex [of _ k "n div 16"]
    by (simp add: hex_digits_append hex_value_digit algebra_simps)
qed simp

text \<open>Text of hexadecimal digits and hyphens is left alone by the clean-up of the constructor.\<close>

definition plain :: "string \<Rightarrow> bool" where
  "plain s \<longleftrightarrow> (\<forall>c \<in> set s. hex_value c \<noteq> None \<or> c = CHR ''-'')"

lemma remove_all_plain: "plain s \<Longrightarrow> p \<noteq> [] \<Longrightarrow> hex_value (hd p) = None \<Longrightarrow> hd p \<noteq> CHR ''-'' \<Longrightarrow> remove_all p s = s"
proof (induction s)
  case (Cons c cs)
  have "take (length p) (c # cs) \<noteq> p"
    using Cons.prems by (cases p) (auto simp: plain_def)
  then show ?case using Cons by (simp add: plain_def)
qed simp

lemma trim_none:
  assumes "\<forall>c \<in> set s. \<not> P c"
  shows "rev (dropWhile P (rev (dropWhile P s))) = s"
proof -
  have none: "dropWhile P xs = xs" if "\<forall>c \<in> set xs. \<not> P c" for xs
    using that by (cases xs) simp_all
  from none [OF assms] none [of "rev s"] assms show ?thesis by simp
qed

lemma not_hex [simp]:
  "hex_value CHR ''{'' = None" "hex_value CHR ''}'' = None" "hex_value CHR ''u'' = None"
  "hex_value CHR ''-'' = None" "hex_value CHR ''+'' = None" "hex_value CHR ''x'' = None"
  "hex_value CHR ''X'' = None" "hex_value CHR ''_'' = None"
  by code_simp+

lemma space_not_hex: "is_space c \<Longrightarrow> hex_value c = None"
  by (auto simp: is_space_def hex_value_def)

lemma strip_braces_plain: "plain s \<Longrightarrow> strip_braces s = s"
  unfolding strip_braces_def Let_def by (rule trim_none) (auto simp: plain_def)

lemma int_base16_hex:
  assumes "s \<noteq> []" and hex: "\<forall>c \<in> set s. hex_value c \<noteq> None"
  shows "int_base16 s = map_option int (hex_digits 0 s)"
proof -
  have strip: "strip s = s"
    unfolding strip_def by (rule trim_none) (use hex space_not_hex in auto)
  obtain c cs where s: "s = c # cs" using assms(1) by (cases s) auto
  have nc: "c \<noteq> CHR ''-''" "c \<noteq> CHR ''+''" "c \<noteq> CHR ''_''" using hex s by auto
  have sign: "(case s of CHR ''-'' # r \<Rightarrow> (True, r) | CHR ''+'' # r \<Rightarrow> (False, r) | _ \<Rightarrow> (False, s)) = (False, s)"
    using nc s by (auto split: char.splits bool.splits)
  have prefix: "(case s of a # b # r \<Rightarrow>
                 if a = CHR ''0'' \<and> (b = CHR ''x'' \<or> b = CHR ''X'')
                 then (case r of c # r' \<Rightarrow> if c = CHR ''_'' then r' else r | [] \<Rightarrow> r) else s
               | _ \<Rightarrow> s) = s"
    using hex s by (auto split: list.split)
  show ?thesis
    unfolding int_base16_def strip Let_def sign prod.case prefix
    using nc s by simp
qed

lemma uuid_groups:
  "take 8 h @ take 4 (drop 8 h) @ take 4 (drop 12 h) @ take 4 (drop 16 h) @ drop 20 h = h"
proof -
  have join: "take k (drop n h) @ drop (n + k) h = drop n h" for n k
    by (metis append_take_drop_id drop_drop add.commute)
  show ?thesis using join [of 4 16] join [of 4 12] join [of 4 8] by simp
qed

lemma hex_not_hyphen: "\<forall>c \<in> set s. hex_value c \<noteq> None \<Longrightarrow> filter (\<lambda>c. c \<noteq> CHR ''-'') s = s"
  by (rule filter_True) auto

lemma filter_uuid_str: "filter (\<lambda>c. c \<noteq> CHR ''-'') (uuid_str u) = hex_fixed 32 u"
proof -
  have hex: "\<forall>c \<in> set (hex_fixed 32 u). hex_value c \<noteq> None" using hex_fixed_hex by blast
  have part: "filter (\<lambda>c. c \<noteq> CHR ''-'') (take n (drop m (hex_fixed 32 u))) = take n (drop m (hex_fixed 32 u))"
      "filter (\<lambda>c. c \<noteq> CHR ''-'') (drop m (hex_fixed 32 u)) = drop m (hex_fixed 32 u)" for n m
    using hex by (auto intro!: hex_not_hyphen dest!: in_set_takeD in_set_dropD)
  show ?thesis
    unfolding uuid_str_def Let_def filter_append
    using uuid_groups [of "hex_fixed 32 u"] part part(1) [of 8 0] by simp
qed

lemma plain_uuid_str: "plain (uuid_str u)"
  using hex_fixed_hex [of _ 32 u]
  by (auto simp: plain_def uuid_str_def Let_def dest!: in_set_takeD in_set_dropD)

theorem uuid_round_trip:
  assumes "u < 2 ^ 128"
  shows "uuid_of_string (uuid_str u) = Some u"
proof -
  have "remove_all ''uuid:'' (remove_all ''urn:'' (uuid_str u)) = uuid_str u"
    by (simp add: remove_all_plain plain_uuid_str)
  moreover have "int_base16 (hex_fixed 32 u) = Some (int u)"
    using assms hex_fixed_hex [of _ 32 u] int_base16_hex [of "hex_fixed 32 u"]
    by (simp add: hex_digits_fixed) (metis length_0_conv length_hex_fixed zero_neq_numeral)
  moreover have "int u < 2 ^ 128" using assms by (metis of_nat_less_iff of_nat_numeral of_nat_power)
  ultimately show ?thesis
    by (simp add: uuid_of_string_def Let_def strip_braces_plain plain_uuid_str filter_uuid_str)
qed

end
