(* ===== verification/Service.thy ===== *)
theory Service
  imports Reconciler Emergency Live_Auto Uuid_Text
begin

text \<open>
  The execution service of \<^verbatim>\<open>engines/execution/service.py\<close>: the submit path, the event
  pump, the executors of the emergency controller and the restart reconciliation.

  The state is the emergency controller together with a world: the order store with
  the SAFE_MODE controller, the approval gate, the LIVE_AUTO registry, the number of readings of
  the clock and of \<open>uuid4\<close> so far, and the state of the execution client. The client is
  the protocol \<open>ReconcileClient\<close>: a record of programs that may look at everything, since the
  production client calls back into gate, registry, emergency controller and store. The field
  \<open>w_sent\<close> is not part of the program: it remembers every submission that was handed to the
  client, together with the order store at that moment.

  Left out: metrics, the text of audit entries and the identifiers of emitted events.
\<close>

section \<open>Messages\<close>

datatype ack_status = Ack_SUBMITTED | Ack_ACKNOWLEDGED | Ack_CANCELLED | Ack_FILLED | Ack_MODIFIED

datatype venue_reply =
    OrderAck uuid ack_status "string option"
  | OrderReject uuid string

record submit_args =
  sa_order_intent_id :: uuid
  sa_strategy_id :: string
  sa_strategy_version :: string
  sa_symbol :: string
  sa_side :: order_side
  sa_quantity :: decimal
  sa_order_type :: order_type
  sa_price :: "decimal option"
  sa_stop_loss :: "decimal option"
  sa_take_profit :: "decimal option"
  sa_max_slippage :: decimal
  sa_expires_at :: "instant option"
  sa_trace_id :: "uuid option"
  sa_live_intent :: "order_intent option"

record cancel_args =
  ca_order_intent_id :: uuid
  ca_strategy_id :: string
  ca_strategy_version :: string
  ca_symbol :: string
  ca_side :: order_side
  ca_quantity :: decimal
  ca_order_type :: order_type
  ca_reason :: string

record fill_message =
  fm_message_id :: uuid
  fm_sequence :: int
  fm_order_intent_id :: uuid
  fm_venue_order_id :: string
  fm_filled_quantity :: decimal
  fm_average_fill_price :: decimal
  fm_commission :: decimal
  fm_slippage :: "decimal option"

record venue_position =
  ven_venue_position_id :: string
  ven_magic :: int
  ven_position :: position_snapshot
  ven_source_ids :: "(string, string) dict"

datatype wire_event =
    PartialFillEvent fill_message
  | FillEvent fill_message
  | PositionSnapshotEvent string "venue_position list"
  | HeartbeatEvent instant
  | OtherEvent

record reconciliation_response =
  rs_is_demo :: bool
  rs_positions :: "venue_position list"
  rs_open_order_intent_ids :: "uuid list"
  rs_last_sequences :: "(string, int) dict"
  rs_broker_connected :: bool
  rs_trading_enabled :: bool

section \<open>State\<close>

record 'c world =
  w_engine :: engine_state
  w_gate :: gate_state
  w_registry :: registry_state
  w_ticks :: nat
  w_sent :: "(submit_args \<times> exec_store) list"
  w_client :: 'c

type_synonym 'c service = "emergency_state \<times> 'c world"
type_synonym ('c, 'a) sv_prog = "('c service, exn, 'a) prog"

record 'c client =
  cl_submit_order :: "submit_args \<Rightarrow> 'c service \<Rightarrow> (exn + venue_reply) \<times> 'c service"
  cl_cancel_order :: "cancel_args \<Rightarrow> 'c service \<Rightarrow> (exn + venue_reply) \<times> 'c service"
  cl_reconcile :: "'c service \<Rightarrow> (exn + reconciliation_response) \<times> 'c service"
  cl_resync_sequences :: "(string, int) dict \<Rightarrow> 'c service \<Rightarrow> (exn + unit) \<times> 'c service"
  cl_drain_events :: "'c service \<Rightarrow> (exn + wire_event list) \<times> 'c service"

record service_config =
  sc_operating_mode :: operating_mode
  sc_clock :: "nat \<Rightarrow> instant"
  sc_uuid4 :: "nat \<Rightarrow> uuid"
  sc_emergency :: "emergency_policy option"
  sc_live_gate :: "live_gate option"
  sc_live_auto :: "live_auto_config option"
  sc_price_tolerance :: decimal

text \<open>The constructor requires the gate of its mode.\<close>

definition service_init :: "service_config \<Rightarrow> exn + service_config" where
  "service_init c =
     (if sc_operating_mode c = OM_LIVE_GATED \<and> sc_live_gate c = None
      then Inl (ValueError ''LIVE_GATED execution service requires a human approval gate'')
      else if sc_operating_mode c = OM_LIVE_AUTO \<and> sc_live_auto c = None
      then Inl (ValueError ''LIVE_AUTO execution service requires the deterministic live-auto registry'')
      else Inr c)"

definition w_store :: "'c world \<Rightarrow> exec_store" where
  "w_store w = en_store (w_engine w)"

definition on_world :: "('c world, exn, 'a) prog \<Rightarrow> ('c, 'a) sv_prog" where
  "on_world = zoom snd (\<lambda>w (e, _). (e, w))"

definition on_engine :: "(engine_state, exn, 'a) prog \<Rightarrow> ('c, 'a) sv_prog" where
  "on_engine m = on_world (zoom w_engine (\<lambda>x w. w\<lparr>w_engine := x\<rparr>) m)"

definition on_orders :: "(exec_store, exn, 'a) prog \<Rightarrow> ('c, 'a) sv_prog" where
  "on_orders m = on_engine (on_store m)"

definition on_gate :: "'a gate_prog \<Rightarrow> ('c, 'a) sv_prog" where
  "on_gate m = on_world (zoom w_gate (\<lambda>x w. w\<lparr>w_gate := x\<rparr>) m)"

definition on_registry :: "'a registry_prog \<Rightarrow> ('c, 'a) sv_prog" where
  "on_registry m = on_world (zoom w_registry (\<lambda>x w. w\<lparr>w_registry := x\<rparr>) m)"

text \<open>Every reading of the clock or of \<open>uuid4\<close> gives the next value of an arbitrary sequence.\<close>

definition next_of :: "(nat \<Rightarrow> 'a) \<Rightarrow> ('c, 'a) sv_prog" where
  "next_of f = on_world (seq (reads (\<lambda>w. f (w_ticks w)))
     (\<lambda>x. seq (modify (\<lambda>w. w\<lparr>w_ticks := w_ticks w + 1\<rparr>)) (\<lambda>_. ret x)))"

definition clock_now :: "service_config \<Rightarrow> ('c, instant) sv_prog" where
  "clock_now c = next_of (sc_clock c)"

definition uuid4 :: "service_config \<Rightarrow> ('c, uuid) sv_prog" where
  "uuid4 c = next_of (sc_uuid4 c)"

text \<open>An operation of the applier reads the clock itself.\<close>

definition applying ::
    "service_config \<Rightarrow> (instant \<Rightarrow> (exec_store, exn, 'a) prog) \<Rightarrow> ('c, 'a) sv_prog" where
  "applying c m = seq (clock_now c) (\<lambda>now. on_orders (m now))"

definition audit_note :: "string \<Rightarrow> ('c, unit) sv_prog" where
  "audit_note action = on_engine (send (Audited action ''execution-service''))"

definition send_submit :: "'c client \<Rightarrow> submit_args \<Rightarrow> ('c, venue_reply) sv_prog" where
  "send_submit cl args =
     seq (on_world (modify (\<lambda>w. w\<lparr>w_sent := w_sent w @ [(args, w_store w)]\<rparr>))) (\<lambda>_.
     cl_submit_order cl args)"

section \<open>Replies and events\<close>

definition apply_ack ::
    "service_config \<Rightarrow> uuid \<Rightarrow> uuid \<Rightarrow> ack_status \<Rightarrow> string option \<Rightarrow> ('c, order_record) sv_prog" where
  "apply_ack c oid message_id status venue_order_id =
     (if status = Ack_CANCELLED
      then applying c (record_cancelled oid (Some (uuid_str message_id)) None)
      else applying c (record_acknowledged oid venue_order_id (Some (uuid_str message_id))))"

definition apply_reply :: "service_config \<Rightarrow> uuid \<Rightarrow> venue_reply \<Rightarrow> ('c, order_record) sv_prog" where
  "apply_reply c oid reply =
     (case reply of
        OrderAck message_id status venue_order_id \<Rightarrow> apply_ack c oid message_id status venue_order_id
      | OrderReject message_id code \<Rightarrow>
          applying c (record_rejected oid code (Some (uuid_str message_id))))"

definition event_key :: "fill_message \<Rightarrow> string" where
  "event_key m = uuid_str (fm_message_id m) @ '':'' @ decimal_str (nat (fm_sequence m))"

definition fill_of_message :: "fill_message \<Rightarrow> fill_event" where
  "fill_of_message m = \<lparr>fe_event_id = Some (event_key m), fe_sequence = fm_sequence m,
     fe_quantity = fm_filled_quantity m, fe_price = fm_average_fill_price m,
     fe_venue_order_id = Some (fm_venue_order_id m), fe_venue_position_id = None,
     fe_commission = fm_commission m, fe_slippage = fm_slippage m\<rparr>"

definition provenance_intent :: "(string, string) dict \<Rightarrow> uuid option" where
  "provenance_intent source_ids =
     (case map_of source_ids ''order_intent_id'' of
        None \<Rightarrow> None
      | Some raw \<Rightarrow> uuid_of_string raw)"

definition snapshot_position :: "string \<Rightarrow> venue_position \<Rightarrow> execution_position" where
  "snapshot_position account_id v = (let p = ven_position v in
     \<lparr>ep_venue_position_id = ven_venue_position_id v, ep_account_id = account_id,
      ep_instrument_id = pos_instrument_id p, ep_side = pos_side p, ep_quantity = pos_quantity p,
      ep_average_entry_price = pos_average_entry_price p,
      ep_order_intent_id = provenance_intent (ven_source_ids v), ep_opened_at = pos_as_of p,
      ep_updated_at = pos_as_of p, ep_closed_at = None\<rparr>)"

definition store_snapshot :: "string \<Rightarrow> venue_position \<Rightarrow> ('c, unit) sv_prog" where
  "store_snapshot account_id v =
     seq (guard (valid_execution_position (snapshot_position account_id v)) (ValueError ''ExecutionPosition'')) (\<lambda>_.
     seq (on_orders (upsert_position (snapshot_position account_id v))) (\<lambda>_. ret ()))"

definition seen_before :: "fill_message \<Rightarrow> exec_store \<Rightarrow> bool" where
  "seen_before m st = (case get_order (fm_order_intent_id m) st of
     None \<Rightarrow> False | Some r \<Rightarrow> event_key m \<in> set (or_processed_event_ids r))"

definition apply_event :: "service_config \<Rightarrow> wire_event \<Rightarrow> ('c, unit) sv_prog" where
  "apply_event c ev =
     (case ev of
        PartialFillEvent m \<Rightarrow>
          seq (applying c (record_partial_fill (fm_order_intent_id m) (fill_of_message m))) (\<lambda>_. ret ())
      | FillEvent m \<Rightarrow>
          seq (reads (\<lambda>(e, w). seen_before m (w_store w))) (\<lambda>seen.
          if seen then ret ()
          else seq (clock_now c) (\<lambda>_.
            seq (applying c (record_fill (fm_order_intent_id m) (fill_of_message m))) (\<lambda>_. ret ())))
      | PositionSnapshotEvent account_id positions \<Rightarrow> for_each positions (store_snapshot account_id)
      | HeartbeatEvent _ \<Rightarrow> ret ()
      | OtherEvent \<Rightarrow> ret ())"

definition on_divergence :: "service_config \<Rightarrow> discrepancy_code \<Rightarrow> ('c, unit) sv_prog" where
  "on_divergence c code =
     (let reason = (if code = OVERFILL then safe_mode_reason_value SMR_OVERFILL_DETECTED
                    else safe_mode_reason_value SMR_RECONCILIATION_DIVERGENCE)
      in seq (clock_now c) (\<lambda>now.
         seq (on_engine (enter_safe_mode [reason] (Some ''execution divergence'') now)) (\<lambda>_.
         audit_note ''execution.divergence'')))"

section \<open>Emergency executors\<close>

definition closing_intent ::
    "service_config \<Rightarrow> execution_position \<Rightarrow> instant \<Rightarrow> uuid \<Rightarrow> uuid \<Rightarrow> order_intent" where
  "closing_intent c position now oid decision_id =
     \<lparr>oi_order_intent_id = oid, oi_risk_decision_id = decision_id, oi_proposal_id = None,
      oi_strategy_id = emergency_strategy_id, oi_strategy_version = ''CORE'',
      oi_instrument_id = ep_instrument_id position, oi_operating_mode = sc_operating_mode c,
      oi_side = (if ep_side position = PS_LONG then SELL else BUY), oi_order_type = MARKET,
      oi_time_in_force = GTC, oi_quantity = ep_quantity position, oi_price = None,
      oi_stop_loss = None, oi_take_profit = None, oi_max_slippage = 0, oi_sequence = 0,
      oi_valid_until = None, oi_created_by = ''emergency-controller'', oi_trace_id = None,
      oi_produced_at = now\<rparr>"

definition args_of_intent ::
    "order_intent \<Rightarrow> instant option \<Rightarrow> order_intent option \<Rightarrow> submit_args" where
  "args_of_intent i expires_at live_intent =
     \<lparr>sa_order_intent_id = oi_order_intent_id i, sa_strategy_id = oi_strategy_id i,
      sa_strategy_version = oi_strategy_version i, sa_symbol = oi_instrument_id i,
      sa_side = oi_side i, sa_quantity = oi_quantity i, sa_order_type = oi_order_type i,
      sa_price = oi_price i, sa_stop_loss = oi_stop_loss i, sa_take_profit = oi_take_profit i,
      sa_max_slippage = oi_max_slippage i, sa_expires_at = expires_at,
      sa_trace_id = oi_trace_id i, sa_live_intent = live_intent\<rparr>"

text \<open>INV-6: the intent and then its submission are persisted before anything is sent.\<close>

definition persist_submission :: "service_config \<Rightarrow> order_intent \<Rightarrow> string \<Rightarrow> ('c, order_record) sv_prog" where
  "persist_submission c intent venue =
     seq (applying c (record_order_intent intent venue)) (\<lambda>_.
     applying c (record_submitted (oi_order_intent_id intent)))"

definition flatten_position :: "service_config \<Rightarrow> 'c client \<Rightarrow> instant \<Rightarrow> execution_position \<Rightarrow> ('c, unit) sv_prog" where
  "flatten_position c cl now position =
     seq (uuid4 c) (\<lambda>oid.
     seq (uuid4 c) (\<lambda>decision_id.
     let intent = closing_intent c position now oid decision_id in
     seq (guard (valid_order_intent intent) (ValueError ''OrderIntent'')) (\<lambda>_.
     seq (persist_submission c intent ''mt4'') (\<lambda>_.
     seq (clock_now c) (\<lambda>t.
     seq (send_submit cl (args_of_intent intent (Some (t + seconds 30))
       (if sc_operating_mode c \<in> {OM_LIVE_GATED, OM_LIVE_AUTO} then Some intent else None))) (\<lambda>reply.
     seq (apply_reply c oid reply) (\<lambda>_.
     audit_note ''emergency.flatten'')))))))"

definition flatten_positions :: "service_config \<Rightarrow> 'c client \<Rightarrow> string \<Rightarrow> ('c, string list) sv_prog" where
  "flatten_positions c cl reason =
     seq (reads (\<lambda>(e, w). sc_emergency c \<noteq> None \<and> (emergency_kill_active e \<or> safe_execution_state_active e))) (\<lambda>active.
     seq (guard active (LiveGateViolation ''position flattening requires an active emergency'')) (\<lambda>_.
     seq (clock_now c) (\<lambda>now.
     seq (reads (\<lambda>(e, w). list_positions True (w_store w))) (\<lambda>positions.
     seq (for_each positions (flatten_position c cl now)) (\<lambda>_.
     ret (map ep_venue_position_id positions))))))"

definition cancel_order_of :: "order_record \<Rightarrow> string \<Rightarrow> cancel_args" where
  "cancel_order_of r reason =
     \<lparr>ca_order_intent_id = or_order_intent_id r, ca_strategy_id = or_strategy_id r,
      ca_strategy_version = or_strategy_version r, ca_symbol = or_instrument_id r,
      ca_side = or_side r, ca_quantity = or_requested_quantity r, ca_order_type = or_order_type r,
      ca_reason = reason\<rparr>"

definition cancel_pending :: "service_config \<Rightarrow> 'c client \<Rightarrow> string \<Rightarrow> order_record \<Rightarrow> ('c, unit) sv_prog" where
  "cancel_pending c cl reason record =
     seq (cl_cancel_order cl (cancel_order_of record reason)) (\<lambda>reply.
     seq (case reply of
            OrderAck message_id _ _ \<Rightarrow>
              seq (applying c (record_cancelled (or_order_intent_id record) (Some (uuid_str message_id)) None)) (\<lambda>_. ret ())
          | OrderReject _ _ \<Rightarrow> ret ()) (\<lambda>_.
     audit_note ''emergency.cancel_pending''))"

definition cancel_pending_orders :: "service_config \<Rightarrow> 'c client \<Rightarrow> string \<Rightarrow> ('c, string list) sv_prog" where
  "cancel_pending_orders c cl reason =
     seq (reads (\<lambda>(e, w). sc_emergency c \<noteq> None \<and> emergency_kill_active e)) (\<lambda>active.
     seq (guard active (LiveGateViolation ''pending-order cancellation requires an active EMERGENCY_KILL'')) (\<lambda>_.
     seq (reads (\<lambda>(e, w). filter (\<lambda>r. or_state r \<in> set live_order_states) (list_orders (w_store w)))) (\<lambda>pending.
     seq (for_each pending (cancel_pending c cl reason)) (\<lambda>_.
     ret (map (\<lambda>r. uuid_str (or_order_intent_id r)) pending)))))"

text \<open>The emergency controller of the live runtime calls these two executors.\<close>

definition check_emergency :: "service_config \<Rightarrow> 'c client \<Rightarrow> ('c, unit) sv_prog" where
  "check_emergency c cl =
     (case sc_emergency c of
        None \<Rightarrow> ret ()
      | Some policy \<Rightarrow>
          seq (clock_now c) (\<lambda>now.
          seq (check_dead_man policy (Some (flatten_positions c cl)) now) (\<lambda>_. ret ())))"

definition pump_event :: "service_config \<Rightarrow> wire_event \<Rightarrow> ('c, unit) sv_prog" where
  "pump_event c ev =
     (let other = handle (apply_event c ev) (\<lambda>e. case e of
            ExecutionDivergenceError code oid \<Rightarrow> seq (on_divergence c code) (\<lambda>_. raise e)
          | _ \<Rightarrow> if is_value_error e then audit_note ''execution.event.skipped'' else raise e)
      in case ev of
           HeartbeatEvent t \<Rightarrow>
             (case sc_emergency c of Some policy \<Rightarrow> on_heartbeat policy t | None \<Rightarrow> other)
         | _ \<Rightarrow> other)"

definition drain_events :: "service_config \<Rightarrow> 'c client \<Rightarrow> ('c, wire_event list) sv_prog" where
  "drain_events c cl =
     seq (cl_drain_events cl) (\<lambda>drained.
     seq (for_each drained (pump_event c)) (\<lambda>_.
     seq (check_emergency c cl) (\<lambda>_. ret drained)))"

section \<open>The submit path\<close>

text \<open>
  The gate of the operating mode. The result is the consumed approval, if any, and whether the
  registry authorized the order; \<open>attests\<close> is the answer of the demo attestor of the gate.
\<close>

definition authorize ::
    "service_config \<Rightarrow> order_intent \<Rightarrow> bool \<Rightarrow> price_context option \<Rightarrow> risk_decision option \<Rightarrow>
     ('c, approval_record option \<times> bool) sv_prog" where
  "authorize c intent attests price decision =
     (if oi_operating_mode intent = OM_LIVE_GATED then
        (case (sc_live_gate c, price) of
           (Some g, Some p) \<Rightarrow>
             seq (clock_now c) (\<lambda>now.
             seq (on_gate (consume g attests intent p now)) (\<lambda>approval. ret (Some approval, False)))
         | _ \<Rightarrow> raise (LiveGateViolation ''explicit human approval is required''))
      else if oi_operating_mode intent = OM_LIVE_AUTO then
        (case (sc_live_auto c, decision, price) of
           (Some lac, Some d, Some p) \<Rightarrow>
             seq (clock_now c) (\<lambda>now.
             seq (on_registry (assert_submission_authorized lac intent d p now)) (\<lambda>_. ret (None, True)))
         | _ \<Rightarrow> raise (LiveGateViolation ''LIVE_AUTO requires the live-auto registry, a decision and a fresh quote''))
      else ret (None, False))"

definition submit_args_of :: "order_intent \<Rightarrow> approval_record option \<Rightarrow> bool \<Rightarrow> submit_args" where
  "submit_args_of intent approval auto =
     args_of_intent intent
       (case approval of Some a \<Rightarrow> Some (ar_expires_at a) | None \<Rightarrow> oi_valid_until intent)
       (if approval \<noteq> None \<or> auto then Some intent else None)"

definition submit ::
    "service_config \<Rightarrow> 'c client \<Rightarrow> order_intent \<Rightarrow> string \<Rightarrow> bool \<Rightarrow> price_context option \<Rightarrow>
     risk_decision option \<Rightarrow> ('c, order_record) sv_prog" where
  "submit c cl intent venue attests price decision =
     seq (check_emergency c cl) (\<lambda>_.
     seq (case sc_emergency c of
            None \<Rightarrow> ret ()
          | Some _ \<Rightarrow> assert_can_enter (oi_strategy_id intent) (oi_instrument_id intent)) (\<lambda>_.
     seq (on_engine (assert_allowed NEW_ENTRY)) (\<lambda>_.
     seq (guard (oi_operating_mode intent = sc_operating_mode c)
       (LiveGateViolation ''OrderIntent mode does not match the authoritative execution mode'')) (\<lambda>_.
     seq (authorize c intent attests price decision) (\<lambda>(approval, auto).
     seq (persist_submission c intent venue) (\<lambda>_.
     seq (send_submit cl (submit_args_of intent approval auto)) (\<lambda>reply.
     seq (apply_reply c (oi_order_intent_id intent) reply) (\<lambda>_.
     seq (drain_events c cl) (\<lambda>_.
     seq (reads (\<lambda>(e, w). get_order (oi_order_intent_id intent) (w_store w))) (\<lambda>stored.
     case stored of
       None \<Rightarrow> raise (RuntimeError ''order vanished from the store'')
     | Some record \<Rightarrow> ret record))))))))))"

section \<open>Startup reconciliation\<close>

definition view_position :: "venue_position \<Rightarrow> venue_view_position" where
  "view_position v = (let p = ven_position v in
     \<lparr>vp_venue_position_id = ven_venue_position_id v, vp_magic = ven_magic v,
      vp_account_id = pos_account_id p, vp_strategy_id = pos_strategy_id p,
      vp_instrument_id = pos_instrument_id p, vp_side = pos_side p, vp_quantity = pos_quantity p,
      vp_average_entry_price = pos_average_entry_price p,
      vp_order_intent_id = provenance_intent (ven_source_ids v)\<rparr>)"

definition broker_view_of :: "reconciliation_response \<Rightarrow> broker_view" where
  "broker_view_of r =
     \<lparr>bv_positions = map view_position (rs_positions r),
      bv_open_order_intent_ids = rs_open_order_intent_ids r,
      bv_broker_connected = rs_broker_connected r, bv_trading_enabled = rs_trading_enabled r,
      bv_last_sequences = rs_last_sequences r\<rparr>"

definition unreachable_run :: "uuid \<Rightarrow> instant \<Rightarrow> instant \<Rightarrow> reconciliation_run" where
  "unreachable_run run_id started_at now =
     \<lparr>rr_run_id = run_id, rr_started_at = started_at, rr_compared_at = now, rr_broker_reachable = False,
      rr_broker_connected = False, rr_trading_enabled = True,
      rr_discrepancies = [discrepancy BROKER_UNREACHABLE MATERIAL
        ''broker unreachable during startup reconciliation'' None None None],
      rr_material_discrepancies = 1, rr_orders_reconciled = 0, rr_orders_resolved = 0,
      rr_positions_adopted = 0, rr_positions_closed = 0, rr_safe_mode_entered = False,
      rr_safe_mode_exited = False\<rparr>"

definition record_unreachable_run :: "service_config \<Rightarrow> instant \<Rightarrow> ('c, reconciliation_run) sv_prog" where
  "record_unreachable_run c started_at =
     seq (uuid4 c) (\<lambda>run_id.
     seq (clock_now c) (\<lambda>now.
     on_orders (save_reconciliation_run (unreachable_run run_id started_at now))))"

definition emit_reconciliation_event :: "bool \<Rightarrow> ('c, unit) sv_prog" where
  "emit_reconciliation_event divergence =
     on_engine (send (Emitted (if divergence then ''reconciliation.divergence'' else ''order.reconciled'')))"

text \<open>\<open>except Mt4ProtocolError\<close> around one call.\<close>

definition catch_protocol_error :: "('c, 'a) sv_prog \<Rightarrow> ('c, 'a option) sv_prog" where
  "catch_protocol_error m =
     handle (seq m (\<lambda>x. ret (Some x))) (\<lambda>e. case e of Mt4ProtocolError _ \<Rightarrow> ret None | _ \<Rightarrow> raise e)"

definition broker_unreachable :: "service_config \<Rightarrow> instant \<Rightarrow> ('c, startup_outcome) sv_prog" where
  "broker_unreachable c started_at =
     seq (record_unreachable_run c started_at) (\<lambda>run.
     seq (clock_now c) (\<lambda>now.
     seq (on_engine (enter_safe_mode [safe_mode_reason_value SMR_BROKER_UNREACHABLE]
       (Some ''startup reconciliation could not reach the broker'') now)) (\<lambda>entered.
     seq (emit_reconciliation_event True) (\<lambda>_.
     ret \<lparr>so_run_id = rr_run_id run, so_broker_reachable = False, so_safe_mode_active = True,
          so_safe_mode_reason_codes = sm_reason_codes entered,
          so_material_discrepancies = rr_material_discrepancies run,
          so_orders_reconciled = rr_orders_reconciled run\<rparr>))))"

text \<open>SAFE_MODE follows the run: material differences enter it, a clean run leaves it.\<close>

definition react_to_run :: "service_config \<Rightarrow> bool \<Rightarrow> reconciliation_run \<Rightarrow> ('c, reconciliation_run) sv_prog" where
  "react_to_run c was_active run =
     seq (clock_now c) (\<lambda>now.
     if 0 < rr_material_discrepancies run then
       seq (on_engine (enter_safe_mode [safe_mode_reason_value SMR_RECONCILIATION_DIVERGENCE]
         (Some ''material discrepancies at startup'') now)) (\<lambda>_.
       ret (run\<lparr>rr_safe_mode_entered := True\<rparr>))
     else
       seq (on_engine (exit_safe_mode (Some ''clean startup reconciliation'') now)) (\<lambda>exited.
       ret (run\<lparr>rr_safe_mode_exited := \<not> sm_active exited \<and> was_active\<rparr>)))"

definition reconcile_with :: "service_config \<Rightarrow> 'c client \<Rightarrow> bool \<Rightarrow> broker_view \<Rightarrow> ('c, startup_outcome) sv_prog" where
  "reconcile_with c cl was_active view =
     seq (clock_now c) (\<lambda>started.
     seq (uuid4 c) (\<lambda>run_id.
     seq (clock_now c) (\<lambda>now.
     seq (on_orders (reconcile (sc_price_tolerance c) run_id view started now)) (\<lambda>run0.
     seq (cl_resync_sequences cl (bv_last_sequences view)) (\<lambda>_.
     seq (react_to_run c was_active run0) (\<lambda>run.
     seq (on_orders (save_reconciliation_run run)) (\<lambda>_.
     seq (emit_reconciliation_event (0 < rr_material_discrepancies run)) (\<lambda>_.
     seq (audit_note ''reconciliation.run'') (\<lambda>_.
     reads (\<lambda>(e, w). \<lparr>so_run_id = rr_run_id run, so_broker_reachable = True,
        so_safe_mode_active = safe_mode_is_active (w_engine w),
        so_safe_mode_reason_codes = sm_reason_codes (get_safe_mode (w_store w)),
        so_material_discrepancies = rr_material_discrepancies run,
        so_orders_reconciled = rr_orders_reconciled run\<rparr>))))))))))"

definition startup_reconciliation :: "service_config \<Rightarrow> 'c client \<Rightarrow> ('c, startup_outcome) sv_prog" where
  "startup_reconciliation c cl =
     seq (clock_now c) (\<lambda>started_at.
     seq (check_emergency c cl) (\<lambda>_.
     seq (reads (\<lambda>(e, w). sm_active (get_safe_mode (w_store w)))) (\<lambda>was_active.
     seq (catch_protocol_error (cl_reconcile cl)) (\<lambda>response.
     case response of
       None \<Rightarrow> broker_unreachable c started_at
     | Some r \<Rightarrow> reconcile_with c cl was_active (broker_view_of r)))))"

end
