(* ===== verification/Mt4_Bridge.thy ===== *)
theory Mt4_Bridge
  imports Service
begin

text \<open>
  The venue side of the wire protocol: the commands of \<^verbatim>\<open>adapters/mt4/protocol.py\<close> with their
  validators, the idempotency ledger and sequence tracker of \<^verbatim>\<open>adapters/mt4/ledger.py\<close>, the command
  gate of \<^verbatim>\<open>adapters/mt4/guards.py\<close>, and the command handler of
  \<^verbatim>\<open>adapters/mt4/emulator.py\<close> that runs the gate in front of a broker.

  A frame is the record of the fields it decodes to; the schema validation of \<open>parse_message\<close>
  is the predicate \<open>valid_command\<close>, the JSON syntax below it is left out.
  SHA-256 over the canonical JSON is a parameter: one function for the checksum of a frame, one
  for the fingerprint of the content. The broker is a parameter too, over a state of its
  own: the guarantees hold for every venue. The field \<open>br_executed\<close> remembers the
  commands that were handed to the broker.
\<close>

section \<open>Errors\<close>

datatype mt4_error_code =
    NOT_CONNECTED | TIMEOUT | CONNECTION_LOST
  | SCHEMA_INVALID | CHECKSUM_MISMATCH | PROTOCOL_VERSION_MISMATCH | UNKNOWN_MESSAGE_TYPE
  | SEQUENCE_VIOLATION | COMMAND_EXPIRED | DUPLICATE_INTENT | INTENT_CONFLICT | UNKNOWN_ORDER
  | ORDER_NOT_ACTIVE | INVALID_MODIFICATION
  | TRADING_DISABLED | EC_SAFE_MODE_ACTIVE | EC_BROKER_DISCONNECTED | SYMBOL_NOT_ALLOWED
  | LOT_STEP_INVALID | LOT_LIMIT_EXCEEDED | INSUFFICIENT_MARGIN | EC_SPREAD_TOO_HIGH
  | EC_STALE_QUOTES | MARKET_CLOSED | STOP_LEVEL_VIOLATION | INVALID_MAGIC | SLIPPAGE_CAP_EXCEEDED
  | BROKER_ERROR | INTERNAL_ERROR

fun mt4_error_value :: "mt4_error_code \<Rightarrow> string" where
  "mt4_error_value NOT_CONNECTED = ''NOT_CONNECTED''"
| "mt4_error_value TIMEOUT = ''TIMEOUT''"
| "mt4_error_value CONNECTION_LOST = ''CONNECTION_LOST''"
| "mt4_error_value SCHEMA_INVALID = ''SCHEMA_INVALID''"
| "mt4_error_value CHECKSUM_MISMATCH = ''CHECKSUM_MISMATCH''"
| "mt4_error_value PROTOCOL_VERSION_MISMATCH = ''PROTOCOL_VERSION_MISMATCH''"
| "mt4_error_value UNKNOWN_MESSAGE_TYPE = ''UNKNOWN_MESSAGE_TYPE''"
| "mt4_error_value SEQUENCE_VIOLATION = ''SEQUENCE_VIOLATION''"
| "mt4_error_value COMMAND_EXPIRED = ''COMMAND_EXPIRED''"
| "mt4_error_value DUPLICATE_INTENT = ''DUPLICATE_INTENT''"
| "mt4_error_value INTENT_CONFLICT = ''INTENT_CONFLICT''"
| "mt4_error_value UNKNOWN_ORDER = ''UNKNOWN_ORDER''"
| "mt4_error_value ORDER_NOT_ACTIVE = ''ORDER_NOT_ACTIVE''"
| "mt4_error_value INVALID_MODIFICATION = ''INVALID_MODIFICATION''"
| "mt4_error_value TRADING_DISABLED = ''TRADING_DISABLED''"
| "mt4_error_value EC_SAFE_MODE_ACTIVE = ''SAFE_MODE_ACTIVE''"
| "mt4_error_value EC_BROKER_DISCONNECTED = ''BROKER_DISCONNECTED''"
| "mt4_error_value SYMBOL_NOT_ALLOWED = ''SYMBOL_NOT_ALLOWED''"
| "mt4_error_value LOT_STEP_INVALID = ''LOT_STEP_INVALID''"
| "mt4_error_value LOT_LIMIT_EXCEEDED = ''LOT_LIMIT_EXCEEDED''"
| "mt4_error_value INSUFFICIENT_MARGIN = ''INSUFFICIENT_MARGIN''"
| "mt4_error_value EC_SPREAD_TOO_HIGH = ''SPREAD_TOO_HIGH''"
| "mt4_error_value EC_STALE_QUOTES = ''STALE_QUOTES''"
| "mt4_error_value MARKET_CLOSED = ''MARKET_CLOSED''"
| "mt4_error_value STOP_LEVEL_VIOLATION = ''STOP_LEVEL_VIOLATION''"
| "mt4_error_value INVALID_MAGIC = ''INVALID_MAGIC''"
| "mt4_error_value SLIPPAGE_CAP_EXCEEDED = ''SLIPPAGE_CAP_EXCEEDED''"
| "mt4_error_value BROKER_ERROR = ''BROKER_ERROR''"
| "mt4_error_value INTERNAL_ERROR = ''INTERNAL_ERROR''"

definition is_retryable :: "mt4_error_code \<Rightarrow> bool" where
  "is_retryable code \<longleftrightarrow> code \<in> {TIMEOUT, CONNECTION_LOST, EC_BROKER_DISCONNECTED, INTERNAL_ERROR}"

section \<open>Commands\<close>

datatype command_type = SUBMIT_ORDER | CANCEL_ORDER | MODIFY_ORDER | RECONCILIATION_REQUEST

fun command_type_value :: "command_type \<Rightarrow> string" where
  "command_type_value SUBMIT_ORDER = ''submit_order''"
| "command_type_value CANCEL_ORDER = ''cancel_order''"
| "command_type_value MODIFY_ORDER = ''modify_order''"
| "command_type_value RECONCILIATION_REQUEST = ''reconciliation_request''"

record command =
  cmd_type :: command_type
  cmd_message_id :: uuid
  cmd_trace_id :: "uuid option"
  cmd_timestamp :: instant
  cmd_sequence :: int
  cmd_correlation_id :: "uuid option"
  cmd_checksum :: "string option"
  cmd_order_intent_id :: "uuid option"
  cmd_strategy_id :: string
  cmd_strategy_version :: string
  cmd_expires_at :: "instant option"
  cmd_symbol :: "string option"
  cmd_side :: "order_side option"
  cmd_quantity :: "decimal option"
  cmd_order_type :: "order_type option"
  cmd_price :: "decimal option"
  cmd_stop_loss :: "decimal option"
  cmd_take_profit :: "decimal option"
  cmd_max_slippage :: decimal
  cmd_time_in_force :: time_in_force
  cmd_reason :: "string option"
  cmd_new_price :: "decimal option"
  cmd_new_stop_loss :: "decimal option"
  cmd_new_take_profit :: "decimal option"

text \<open>The field constraints common to all commands.\<close>

definition valid_command_fields :: "command \<Rightarrow> bool" where
  "valid_command_fields c \<longleftrightarrow> 0 \<le> cmd_sequence c \<and> cmd_strategy_id c \<noteq> [] \<and> cmd_strategy_version c \<noteq> [] \<and>
     opt_nonempty (cmd_symbol c) \<and> opt_pos (cmd_quantity c) \<and> opt_pos (cmd_price c) \<and>
     opt_pos (cmd_stop_loss c) \<and> opt_pos (cmd_take_profit c) \<and> 0 \<le> cmd_max_slippage c"

text \<open>The fields every order-bearing command needs.\<close>

definition order_fields_present :: "command \<Rightarrow> bool" where
  "order_fields_present c \<longleftrightarrow> cmd_order_intent_id c \<noteq> None \<and> cmd_symbol c \<noteq> None \<and> cmd_side c \<noteq> None \<and>
     cmd_quantity c \<noteq> None \<and> cmd_order_type c \<noteq> None \<and>
     (case cmd_expires_at c of None \<Rightarrow> False | Some t \<Rightarrow> cmd_timestamp c < t)"

definition valid_submit_command :: "command \<Rightarrow> bool" where
  "valid_submit_command c \<longleftrightarrow> valid_command_fields c \<and> order_fields_present c \<and>
     (cmd_order_type c = Some MARKET \<or> cmd_price c \<noteq> None)"

definition valid_cancel_command :: "command \<Rightarrow> bool" where
  "valid_cancel_command c \<longleftrightarrow> valid_command_fields c \<and> order_fields_present c \<and>
     (case cmd_reason c of None \<Rightarrow> True | Some r \<Rightarrow> length r \<le> 200)"

definition valid_modify_command :: "command \<Rightarrow> bool" where
  "valid_modify_command c \<longleftrightarrow> valid_command_fields c \<and> opt_pos (cmd_new_price c) \<and>
     opt_pos (cmd_new_stop_loss c) \<and> opt_pos (cmd_new_take_profit c) \<and> order_fields_present c \<and>
     (cmd_new_price c \<noteq> None \<or> cmd_new_stop_loss c \<noteq> None \<or> cmd_new_take_profit c \<noteq> None)"

fun valid_command :: "command \<Rightarrow> bool" where
  "valid_command c =
     (case cmd_type c of
        SUBMIT_ORDER \<Rightarrow> valid_submit_command c
      | CANCEL_ORDER \<Rightarrow> valid_cancel_command c
      | MODIFY_ORDER \<Rightarrow> valid_modify_command c
      | RECONCILIATION_REQUEST \<Rightarrow> valid_command_fields c)"

text \<open>
  The fields that do not take part in the fingerprint are masked: a retry may come in a fresh
  frame. \<open>digest\<close> stands for SHA-256 of the canonical JSON of the rest.
\<close>

definition fingerprint_content :: "command \<Rightarrow> command" where
  "fingerprint_content c = c\<lparr>cmd_checksum := None, cmd_correlation_id := None, cmd_message_id := 0,
     cmd_sequence := 0, cmd_timestamp := 0, cmd_trace_id := None\<rparr>"

definition fingerprint :: "(command \<Rightarrow> string) \<Rightarrow> command \<Rightarrow> string" where
  "fingerprint digest c = digest (fingerprint_content c)"

definition compute_checksum :: "(command \<Rightarrow> string) \<Rightarrow> command \<Rightarrow> string" where
  "compute_checksum digest c = digest (c\<lparr>cmd_checksum := None\<rparr>)"

definition with_checksum :: "(command \<Rightarrow> string) \<Rightarrow> command \<Rightarrow> command" where
  "with_checksum digest c = c\<lparr>cmd_checksum := Some (compute_checksum digest c)\<rparr>"

definition checksum_ok :: "(command \<Rightarrow> string) \<Rightarrow> command \<Rightarrow> bool" where
  "checksum_ok digest c \<longleftrightarrow> cmd_checksum c = Some (compute_checksum digest c)"

section \<open>Replies\<close>

datatype reply_body =
    ReplyOrder venue_reply
  | ReplyReconciliation reconciliation_response
  | ReplyHeartbeat
  | ReplyOther

record wire_reply =
  wr_correlation_id :: "uuid option"
  wr_body :: reply_body

section \<open>Ledger and sequences\<close>

record intent_record =
  ir_order_intent_id :: uuid
  ir_fingerprint :: string
  ir_command_type :: command_type
  ir_sequence :: int
  ir_strategy_id :: string
  ir_symbol :: "string option"
  ir_original_reply :: "reply_body option"

record gate_memory =
  gm_records :: "(uuid \<times> command_type, intent_record) dict"
  gm_last :: "(string, int) dict"

type_synonym 'a gate_memory_prog = "(gate_memory, exn, 'a) prog"

definition ledger_lookup :: "uuid \<Rightarrow> command_type \<Rightarrow> gate_memory \<Rightarrow> intent_record option" where
  "ledger_lookup oid ty g = map_of (gm_records g) (oid, ty)"

definition has_submit :: "uuid \<Rightarrow> gate_memory \<Rightarrow> bool" where
  "has_submit oid g \<longleftrightarrow> (oid, SUBMIT_ORDER) \<in> set (map fst (gm_records g))"

definition ledger_record :: "intent_record \<Rightarrow> bool \<Rightarrow> unit gate_memory_prog" where
  "ledger_record r allow_replace =
     (let key = (ir_order_intent_id r, ir_command_type r) in
      seq (reads (\<lambda>g. map_of (gm_records g) key \<noteq> None)) (\<lambda>present.
      seq (guard (\<not> (present \<and> \<not> allow_replace)) (ValueError ''intent already recorded'')) (\<lambda>_.
      modify (\<lambda>g. g\<lparr>gm_records := AList.update key r (gm_records g)\<rparr>))))"

definition attach_reply :: "uuid \<Rightarrow> command_type \<Rightarrow> reply_body \<Rightarrow> unit gate_memory_prog" where
  "attach_reply oid ty reply =
     seq (reads (ledger_lookup oid ty)) (\<lambda>found. case found of
       None \<Rightarrow> raise (ValueError ''intent not in ledger'')
     | Some r \<Rightarrow> modify (\<lambda>g. g\<lparr>gm_records := AList.update (oid, ty) (r\<lparr>ir_original_reply := Some reply\<rparr>) (gm_records g)\<rparr>))"

definition submitted_intent_ids :: "gate_memory \<Rightarrow> uuid list" where
  "submitted_intent_ids g = map fst (filter (\<lambda>k. snd k = SUBMIT_ORDER) (map fst (gm_records g)))"

definition last_sequence :: "string \<Rightarrow> gate_memory \<Rightarrow> int" where
  "last_sequence sid g = (case map_of (gm_last g) sid of None \<Rightarrow> 0 | Some n \<Rightarrow> n)"

definition expected_sequence :: "string \<Rightarrow> gate_memory \<Rightarrow> int" where
  "expected_sequence sid g = last_sequence sid g + 1"

definition is_valid_next :: "string \<Rightarrow> int \<Rightarrow> gate_memory \<Rightarrow> bool" where
  "is_valid_next sid n g \<longleftrightarrow> n = expected_sequence sid g"

definition accept_sequence :: "string \<Rightarrow> int \<Rightarrow> unit gate_memory_prog" where
  "accept_sequence sid n =
     seq (reads (expected_sequence sid)) (\<lambda>expected.
     seq (guard (n = expected) (ValueError ''sequence not accepted'')) (\<lambda>_.
     modify (\<lambda>g. g\<lparr>gm_last := AList.update sid n (gm_last g)\<rparr>)))"

definition sequences_snapshot :: "gate_memory \<Rightarrow> (string, int) dict" where
  "sequences_snapshot g = gm_last g"

definition build_intent_record :: "(command \<Rightarrow> string) \<Rightarrow> command \<Rightarrow> exn + intent_record" where
  "build_intent_record digest c =
     (case cmd_order_intent_id c of
        None \<Rightarrow> Inl (ValueError ''order-bearing commands require order_intent_id'')
      | Some oid \<Rightarrow> Inr \<lparr>ir_order_intent_id = oid, ir_fingerprint = fingerprint digest c,
          ir_command_type = cmd_type c, ir_sequence = cmd_sequence c, ir_strategy_id = cmd_strategy_id c,
          ir_symbol = cmd_symbol c, ir_original_reply = None\<rparr>)"

section \<open>The command gate\<close>

record gate_outcome =
  go_accepted :: bool
  go_error :: "mt4_error_code option"
  go_replay :: "reply_body option"
  go_expected_sequence :: "int option"

definition accept_outcome :: gate_outcome where
  "accept_outcome = \<lparr>go_accepted = True, go_error = None, go_replay = None, go_expected_sequence = None\<rparr>"

definition refuse_outcome :: "mt4_error_code \<Rightarrow> command \<Rightarrow> gate_memory \<Rightarrow> gate_outcome" where
  "refuse_outcome code c g = \<lparr>go_accepted = False, go_error = Some code, go_replay = None,
     go_expected_sequence = Some (expected_sequence (cmd_strategy_id c) g)\<rparr>"

definition evaluate_sequence :: "command \<Rightarrow> gate_memory \<Rightarrow> gate_outcome" where
  "evaluate_sequence c g =
     (if is_valid_next (cmd_strategy_id c) (cmd_sequence c) g then accept_outcome
      else refuse_outcome SEQUENCE_VIOLATION c g)"

definition gate_evaluate :: "(command \<Rightarrow> string) \<Rightarrow> instant \<Rightarrow> command \<Rightarrow> gate_memory \<Rightarrow> gate_outcome" where
  "gate_evaluate digest now c g =
     (if cmd_type c = RECONCILIATION_REQUEST then accept_outcome
      else if (case cmd_expires_at c of None \<Rightarrow> False | Some t \<Rightarrow> t \<le> now)
      then refuse_outcome COMMAND_EXPIRED c g
      else
        (case Option.bind (cmd_order_intent_id c) (\<lambda>oid. ledger_lookup oid (cmd_type c) g) of
           None \<Rightarrow> evaluate_sequence c g
         | Some r \<Rightarrow>
             if ir_fingerprint r = fingerprint digest c
             then \<lparr>go_accepted = False, go_error = None, go_replay = ir_original_reply r,
                   go_expected_sequence = Some (expected_sequence (cmd_strategy_id c) g)\<rparr>
             else if cmd_type c = MODIFY_ORDER then evaluate_sequence c g
             else refuse_outcome INTENT_CONFLICT c g))"

definition gate_record :: "(command \<Rightarrow> string) \<Rightarrow> command \<Rightarrow> reply_body \<Rightarrow> unit gate_memory_prog" where
  "gate_record digest c reply =
     (if cmd_type c = RECONCILIATION_REQUEST then ret ()
      else
        seq (case cmd_order_intent_id c of
               None \<Rightarrow> ret ()
             | Some oid \<Rightarrow>
                 (case build_intent_record digest c of
                    Inl e \<Rightarrow> raise e
                  | Inr r \<Rightarrow>
                      seq (ledger_record r (cmd_type c = MODIFY_ORDER)) (\<lambda>_.
                      attach_reply oid (cmd_type c) reply))) (\<lambda>_.
        accept_sequence (cmd_strategy_id c) (cmd_sequence c)))"

section \<open>The command handler\<close>

record 'b venue =
  vn_process :: "command \<Rightarrow> instant \<Rightarrow> 'b \<Rightarrow> (mt4_error_code + venue_reply \<times> wire_event list) \<times> 'b"
  vn_is_demo :: "'b \<Rightarrow> bool"
  vn_positions :: "instant \<Rightarrow> 'b \<Rightarrow> venue_position list"
  vn_open_order_intent_ids :: "'b \<Rightarrow> uuid list"
  vn_trading_enabled :: "'b \<Rightarrow> bool"

record 'b bridge =
  br_gate :: gate_memory
  br_safe_mode :: bool
  br_broker_connected :: bool
  br_reply_seq :: nat
  br_broker :: 'b
  br_executed :: "command list"

record bridge_functions =
  bf_checksum :: "command \<Rightarrow> string"
  bf_digest :: "command \<Rightarrow> string"
  bf_uuid5 :: "uuid \<Rightarrow> string \<Rightarrow> uuid"
  bf_emulator_id :: uuid

text \<open>A reject reply takes the next number of the emulator; there is no command when the frame did not parse.\<close>

definition reject_reply ::
    "bridge_functions \<Rightarrow> command option \<Rightarrow> mt4_error_code \<Rightarrow> ('b bridge, exn, reply_body) prog" where
  "reject_reply f c code =
     seq (modify (\<lambda>b. b\<lparr>br_reply_seq := br_reply_seq b + 1\<rparr>)) (\<lambda>_.
     reads (\<lambda>b. ReplyOrder (OrderReject
       (bf_uuid5 f (case c of None \<Rightarrow> bf_emulator_id f | Some c' \<Rightarrow> cmd_message_id c')
         (''reject-'' @ decimal_str (br_reply_seq b))) (mt4_error_value code))))"

fun with_message_id :: "uuid \<Rightarrow> reply_body \<Rightarrow> reply_body" where
  "with_message_id mid (ReplyOrder (OrderAck _ st v)) = ReplyOrder (OrderAck mid st v)"
| "with_message_id mid (ReplyOrder (OrderReject _ code)) = ReplyOrder (OrderReject mid code)"
| "with_message_id mid r = r"

fun reply_type_value :: "reply_body \<Rightarrow> string" where
  "reply_type_value (ReplyOrder (OrderAck _ _ _)) = ''order_ack''"
| "reply_type_value (ReplyOrder (OrderReject _ _)) = ''order_reject''"
| "reply_type_value (ReplyReconciliation _) = ''reconciliation_response''"
| "reply_type_value ReplyHeartbeat = ''heartbeat''"
| "reply_type_value ReplyOther = ''other''"

definition reframe_reply :: "bridge_functions \<Rightarrow> command \<Rightarrow> reply_body \<Rightarrow> wire_reply" where
  "reframe_reply f c reply = \<lparr>wr_correlation_id = Some (cmd_message_id c),
     wr_body = with_message_id (bf_uuid5 f (cmd_message_id c) (reply_type_value reply)) reply\<rparr>"

definition dispatch ::
    "bridge_functions \<Rightarrow> 'b venue \<Rightarrow> instant \<Rightarrow> command \<Rightarrow> ('b bridge, exn, reply_body \<times> wire_event list) prog" where
  "dispatch f v now c =
     (if cmd_type c = RECONCILIATION_REQUEST then
        reads (\<lambda>b. (ReplyReconciliation \<lparr>rs_is_demo = vn_is_demo v (br_broker b),
          rs_positions = vn_positions v now (br_broker b),
          rs_open_order_intent_ids = vn_open_order_intent_ids v (br_broker b),
          rs_last_sequences = sequences_snapshot (br_gate b),
          rs_broker_connected = br_broker_connected b,
          rs_trading_enabled = vn_trading_enabled v (br_broker b)\<rparr>, []))
      else
        seq (modify (\<lambda>b. b\<lparr>br_executed := br_executed b @ [c]\<rparr>)) (\<lambda>_.
        seq (reads (\<lambda>b. vn_process v c now (br_broker b))) (\<lambda>(result, broker).
        seq (modify (\<lambda>b. b\<lparr>br_broker := broker\<rparr>)) (\<lambda>_.
        case result of
          Inl code \<Rightarrow> seq (reject_reply f (Some c) code) (\<lambda>reply. ret (reply, []))
        | Inr (ack, events) \<Rightarrow> ret (ReplyOrder ack, events)))))"

definition on_bridge_gate :: "'a gate_memory_prog \<Rightarrow> ('b bridge, exn, 'a) prog" where
  "on_bridge_gate = zoom br_gate (\<lambda>g b. b\<lparr>br_gate := g\<rparr>)"

definition refuse_with ::
    "bridge_functions \<Rightarrow> command option \<Rightarrow> mt4_error_code \<Rightarrow> ('b bridge, exn, wire_reply \<times> wire_event list) prog" where
  "refuse_with f c code =
     seq (reject_reply f c code) (\<lambda>r.
     ret (\<lparr>wr_correlation_id = map_option cmd_message_id c, wr_body = r\<rparr>, []))"

definition execute_command ::
    "bridge_functions \<Rightarrow> 'b venue \<Rightarrow> instant \<Rightarrow> command \<Rightarrow> ('b bridge, exn, wire_reply \<times> wire_event list) prog" where
  "execute_command f v now c =
     seq (dispatch f v now c) (\<lambda>(reply, events).
     seq (on_bridge_gate (gate_record (bf_digest f) c reply)) (\<lambda>_.
     ret (reframe_reply f c reply, events)))"

definition handle_command ::
    "bridge_functions \<Rightarrow> 'b venue \<Rightarrow> instant \<Rightarrow> command \<Rightarrow> ('b bridge, exn, wire_reply \<times> wire_event list) prog" where
  "handle_command f v now c =
     (if \<not> valid_command c then refuse_with f None SCHEMA_INVALID
      else if \<not> checksum_ok (bf_checksum f) c then refuse_with f (Some c) CHECKSUM_MISMATCH
      else seq (reads br_safe_mode) (\<lambda>safe_mode.
        if safe_mode \<and> cmd_type c = SUBMIT_ORDER then refuse_with f (Some c) EC_SAFE_MODE_ACTIVE
        else seq (reads (\<lambda>b. gate_evaluate (bf_digest f) now c (br_gate b))) (\<lambda>outcome.
          case go_replay outcome of
            Some replay \<Rightarrow> ret (reframe_reply f c replay, [])
          | None \<Rightarrow>
              (case go_error outcome of
                 Some code \<Rightarrow> refuse_with f (Some c) code
               | None \<Rightarrow> execute_command f v now c))))"

section \<open>At most once, in order\<close>

text \<open>
  The bridge runs on any sequence of frames. Its invariant: every remembered command has its
  reply, every executed submission or cancellation is remembered and occurred once, and the executed commands of a
  strategy carry the sequence numbers 1, 2, 3 and so on up to the last accepted one.
\<close>

definition order_key :: "command \<Rightarrow> uuid option \<times> command_type" where
  "order_key c = (cmd_order_intent_id c, cmd_type c)"

definition one_shot :: "command \<Rightarrow> bool" where
  "one_shot c \<longleftrightarrow> cmd_type c \<noteq> MODIFY_ORDER"

definition executed_of :: "string \<Rightarrow> 'b bridge \<Rightarrow> command list" where
  "executed_of sid b = filter (\<lambda>c. cmd_strategy_id c = sid) (br_executed b)"

definition bridge_inv :: "'b bridge \<Rightarrow> bool" where
  "bridge_inv b \<longleftrightarrow>
     (\<forall>k r. map_of (gm_records (br_gate b)) k = Some r \<longrightarrow> ir_original_reply r \<noteq> None) \<and>
     (\<forall>c \<in> set (br_executed b). cmd_type c \<noteq> RECONCILIATION_REQUEST \<and>
        (\<exists>oid r. cmd_order_intent_id c = Some oid \<and> ledger_lookup oid (cmd_type c) (br_gate b) = Some r)) \<and>
     distinct (map order_key (filter one_shot (br_executed b))) \<and>
     (\<forall>sid. 0 \<le> last_sequence sid (br_gate b) \<and>
        map cmd_sequence (executed_of sid b) = [1..last_sequence sid (br_gate b)])"

lemma valid_command_intent:
  "valid_command c \<Longrightarrow> cmd_type c \<noteq> RECONCILIATION_REQUEST \<Longrightarrow> \<exists>oid. cmd_order_intent_id c = Some oid"
  by (cases "cmd_type c")
    (auto simp: valid_submit_command_def valid_cancel_command_def valid_modify_command_def order_fields_present_def)

lemma refuse_with_run:
  "\<exists>r. refuse_with f c code b = (Inr r, b\<lparr>br_reply_seq := br_reply_seq b + 1\<rparr>)"
  by (simp add: refuse_with_def reject_reply_def seq_run)

lemma gate_passes:
  assumes "gate_evaluate d now c g = out" and "go_replay out = None" and "go_error out = None"
    and "\<And>k r. map_of (gm_records g) k = Some r \<Longrightarrow> ir_original_reply r \<noteq> None"
  shows "cmd_type c = RECONCILIATION_REQUEST \<or>
     (cmd_sequence c = last_sequence (cmd_strategy_id c) g + 1 \<and>
      (one_shot c \<longrightarrow> (\<forall>oid. cmd_order_intent_id c = Some oid \<longrightarrow> ledger_lookup oid (cmd_type c) g = None)))"
proof (cases "Option.bind (cmd_order_intent_id c) (\<lambda>oid. ledger_lookup oid (cmd_type c) g)")
  case None
  then show ?thesis
    using assms(1-3) by (auto simp: gate_evaluate_def evaluate_sequence_def refuse_outcome_def is_valid_next_def
        expected_sequence_def split: if_splits)
next
  case (Some r)
  then have "ir_original_reply r \<noteq> None" using assms(4) by (auto simp: ledger_lookup_def bind_eq_Some_conv)
  then show ?thesis
    using Some assms(1-3) by (auto simp: gate_evaluate_def evaluate_sequence_def refuse_outcome_def is_valid_next_def
        expected_sequence_def one_shot_def split: if_splits option.splits)
qed

text \<open>What remembering an executed command does to the memory.\<close>

definition remembered :: "(command \<Rightarrow> string) \<Rightarrow> uuid \<Rightarrow> command \<Rightarrow> reply_body \<Rightarrow> intent_record" where
  "remembered d oid c reply = \<lparr>ir_order_intent_id = oid, ir_fingerprint = fingerprint d c,
     ir_command_type = cmd_type c, ir_sequence = cmd_sequence c, ir_strategy_id = cmd_strategy_id c,
     ir_symbol = cmd_symbol c, ir_original_reply = Some reply\<rparr>"

lemma gate_record_run:
  assumes "cmd_type c \<noteq> RECONCILIATION_REQUEST" and "cmd_order_intent_id c = Some oid"
    and "cmd_sequence c = last_sequence (cmd_strategy_id c) g + 1"
    and "one_shot c \<Longrightarrow> ledger_lookup oid (cmd_type c) g = None"
  shows "gate_record d c reply g = (Inr (),
    g\<lparr>gm_records := AList.update (oid, cmd_type c) (remembered d oid c reply) (gm_records g),
      gm_last := AList.update (cmd_strategy_id c) (cmd_sequence c) (gm_last g)\<rparr>)"
proof -
  have "map_of (gm_records g) (oid, cmd_type c) = None \<or> cmd_type c = MODIFY_ORDER"
    using assms(4) by (auto simp: one_shot_def ledger_lookup_def)
  then show ?thesis
    using assms(1-3)
    by (auto simp: gate_record_def build_intent_record_def ledger_record_def attach_reply_def accept_sequence_def
        expected_sequence_def last_sequence_def ledger_lookup_def seq_run Let_def remembered_def)
qed

text \<open>Handing a command to the broker, whatever it answers.\<close>

lemma dispatch_run:
  assumes "cmd_type c \<noteq> RECONCILIATION_REQUEST"
  shows "\<exists>reply events b'. dispatch f v now c b = (Inr (reply, events), b') \<and>
    br_executed b' = br_executed b @ [c] \<and> br_gate b' = br_gate b"
proof -
  obtain result broker where p: "vn_process v c now (br_broker b) = (result, broker)" by (rule prod.exhaust)
  show ?thesis
    using p assms by (cases result) (auto simp: dispatch_def reject_reply_def seq_run)
qed

lemma executed_sequences:
  assumes "0 \<le> last_sequence (cmd_strategy_id c) (br_gate b)"
    and "map cmd_sequence (executed_of (cmd_strategy_id c) b) = [1..last_sequence (cmd_strategy_id c) (br_gate b)]"
    and "cmd_sequence c = last_sequence (cmd_strategy_id c) (br_gate b) + 1"
  shows "map cmd_sequence (executed_of (cmd_strategy_id c) b @ [c]) = [1..cmd_sequence c]"
  using assms upto_rec2 [of 1 "cmd_sequence c"] by simp

definition memory_after :: "(command \<Rightarrow> string) \<Rightarrow> uuid \<Rightarrow> command \<Rightarrow> reply_body \<Rightarrow> gate_memory \<Rightarrow> gate_memory" where
  "memory_after d oid c reply g =
     g\<lparr>gm_records := AList.update (oid, cmd_type c) (remembered d oid c reply) (gm_records g),
       gm_last := AList.update (cmd_strategy_id c) (cmd_sequence c) (gm_last g)\<rparr>"

lemma memory_after_simps [simp]:
  "last_sequence sid (memory_after d oid c reply g) = (if sid = cmd_strategy_id c then cmd_sequence c else last_sequence sid g)"
  "ledger_lookup k t (memory_after d oid c reply g) =
     (if (k, t) = (oid, cmd_type c) then Some (remembered d oid c reply) else ledger_lookup k t g)"
  "map_of (gm_records (memory_after d oid c reply g)) = (map_of (gm_records g))((oid, cmd_type c) \<mapsto> remembered d oid c reply)"
  by (simp_all add: memory_after_def last_sequence_def ledger_lookup_def)

lemma execute_command_run:
  assumes ty: "cmd_type c \<noteq> RECONCILIATION_REQUEST" and oid: "cmd_order_intent_id c = Some oid"
    and sq: "cmd_sequence c = last_sequence (cmd_strategy_id c) (br_gate b) + 1"
    and fresh: "one_shot c \<Longrightarrow> ledger_lookup oid (cmd_type c) (br_gate b) = None"
  shows "\<exists>reply events b'. execute_command f v now c b = (Inr (reframe_reply f c reply, events), b') \<and>
    br_executed b' = br_executed b @ [c] \<and> br_gate b' = memory_after (bf_digest f) oid c reply (br_gate b)"
proof -
  obtain reply events b1 where d: "dispatch f v now c b = (Inr (reply, events), b1)"
      "br_executed b1 = br_executed b @ [c]" "br_gate b1 = br_gate b"
    using dispatch_run [OF ty, of f v now b] by blast
  then have "execute_command f v now c b =
      (Inr (reframe_reply f c reply, events), b1\<lparr>br_gate := memory_after (bf_digest f) oid c reply (br_gate b)\<rparr>)"
    using gate_record_run [OF ty oid sq fresh, of "bf_digest f" reply]
    by (simp add: execute_command_def seq_run on_bridge_gate_def zoom_def memory_after_def)
  then show ?thesis using d(2) by auto
qed

lemma execute_command_inv:
  assumes inv: "bridge_inv b" and ty: "cmd_type c \<noteq> RECONCILIATION_REQUEST" and oid: "cmd_order_intent_id c = Some oid"
    and sq: "cmd_sequence c = last_sequence (cmd_strategy_id c) (br_gate b) + 1"
    and fresh: "one_shot c \<Longrightarrow> ledger_lookup oid (cmd_type c) (br_gate b) = None"
  shows "\<exists>out b'. execute_command f v now c b = (Inr out, b') \<and> bridge_inv b'"
proof -
  obtain reply events b' where run: "execute_command f v now c b = (Inr (reframe_reply f c reply, events), b')"
      "br_executed b' = br_executed b @ [c]" "br_gate b' = memory_after (bf_digest f) oid c reply (br_gate b)"
    using execute_command_run [OF ty oid sq fresh, of f v now] by blast
  have exec: "executed_of sid b' = executed_of sid b @ (if cmd_strategy_id c = sid then [c] else [])" for sid
    using run(2) by (simp add: executed_of_def)
  have base: "0 \<le> last_sequence sid (br_gate b)" "map cmd_sequence (executed_of sid b) = [1..last_sequence sid (br_gate b)]" for sid
    using inv by (simp_all add: bridge_inv_def)
  have "map cmd_sequence (executed_of sid b') = [1..last_sequence sid (br_gate b')] \<and> 0 \<le> last_sequence sid (br_gate b')" for sid
  proof (cases "sid = cmd_strategy_id c")
    case True
    have "0 \<le> cmd_sequence c" using base(1) [of "cmd_strategy_id c"] sq by simp
    then show ?thesis unfolding exec run(3) memory_after_simps using executed_sequences [OF base sq] True by simp
  next
    case False
    then show ?thesis unfolding exec run(3) memory_after_simps using base [of sid] by simp
  qed
  moreover have "order_key c \<notin> set (map order_key (filter one_shot (br_executed b)))" if "one_shot c"
    using inv fresh [OF that] oid by (fastforce simp: bridge_inv_def order_key_def)
  moreover have "\<exists>o' r. cmd_order_intent_id x = Some o' \<and> ledger_lookup o' (cmd_type x) (br_gate b') = Some r"
    if "x \<in> set (br_executed b @ [c])" for x
    using that inv oid by (fastforce simp: bridge_inv_def run(3))
  ultimately have "bridge_inv b'"
    using inv ty run(2,3) by (auto simp: bridge_inv_def remembered_def)
  with run(1) show ?thesis by blast
qed

lemma bridge_inv_reply_seq [simp]: "bridge_inv (b\<lparr>br_reply_seq := n\<rparr>) = bridge_inv b"
  by (simp add: bridge_inv_def executed_of_def)

text \<open>How the handler ends, in three ways: a refusal, a replay, or an execution.\<close>

lemma handle_command_cases:
  assumes inv: "bridge_inv b"
  shows "(\<exists>code c'. handle_command f v now c b = refuse_with f c' code b) \<or>
    (\<exists>oid r reply. valid_command c \<and> cmd_order_intent_id c = Some oid \<and> ledger_lookup oid (cmd_type c) (br_gate b) = Some r \<and>
       ir_fingerprint r = fingerprint (bf_digest f) c \<and> ir_original_reply r = Some reply \<and>
       handle_command f v now c b = (Inr (reframe_reply f c reply, []), b)) \<or>
    (valid_command c \<and> handle_command f v now c b = execute_command f v now c b \<and>
       (cmd_type c = RECONCILIATION_REQUEST \<or>
        (cmd_sequence c = last_sequence (cmd_strategy_id c) (br_gate b) + 1 \<and>
         (one_shot c \<longrightarrow> (\<forall>oid. cmd_order_intent_id c = Some oid \<longrightarrow> ledger_lookup oid (cmd_type c) (br_gate b) = None)))))"
proof (cases "\<not> valid_command c \<or> \<not> checksum_ok (bf_checksum f) c \<or> (br_safe_mode b \<and> cmd_type c = SUBMIT_ORDER)")
  case True
  have "\<exists>code c'. handle_command f v now c b = refuse_with f c' code b"
    unfolding handle_command_def using True by auto
  then show ?thesis by blast
next
  case False
  let ?out = "gate_evaluate (bf_digest f) now c (br_gate b)"
  have replies: "map_of (gm_records (br_gate b)) k = Some r \<Longrightarrow> ir_original_reply r \<noteq> None" for k r
    using inv unfolding bridge_inv_def by blast
  have run: "handle_command f v now c b = (case go_replay ?out of
            Some replay \<Rightarrow> ret (reframe_reply f c replay, [])
          | None \<Rightarrow> (case go_error ?out of Some code \<Rightarrow> refuse_with f (Some c) code | None \<Rightarrow> execute_command f v now c)) b"
    using False by (auto simp: handle_command_def)
  show ?thesis
  proof (cases "go_replay ?out")
    case (Some reply)
    then obtain oid r where "cmd_order_intent_id c = Some oid" "ledger_lookup oid (cmd_type c) (br_gate b) = Some r"
        "ir_fingerprint r = fingerprint (bf_digest f) c" "ir_original_reply r = Some reply"
      by (auto simp: gate_evaluate_def accept_outcome_def refuse_outcome_def evaluate_sequence_def bind_eq_Some_conv
          split: if_splits option.splits)
    then show ?thesis using False run Some by auto
  next
    case None
    show ?thesis
    proof (cases "go_error ?out")
      case (Some code)
      then show ?thesis using run None by auto
    next
      case none: None
      have "handle_command f v now c b = execute_command f v now c b" using run None none by simp
      moreover have "cmd_type c = RECONCILIATION_REQUEST \<or>
        (cmd_sequence c = last_sequence (cmd_strategy_id c) (br_gate b) + 1 \<and>
         (one_shot c \<longrightarrow> (\<forall>oid. cmd_order_intent_id c = Some oid \<longrightarrow> ledger_lookup oid (cmd_type c) (br_gate b) = None)))"
        by (rule gate_passes [OF refl None none]) (rule replies)
      ultimately show ?thesis using False by blast
    qed
  qed
qed

lemma reconciliation_run:
  assumes "cmd_type c = RECONCILIATION_REQUEST"
  shows "\<exists>out. execute_command f v now c b = (Inr out, b)"
  using assms by (simp add: execute_command_def dispatch_def gate_record_def seq_run on_bridge_gate_def zoom_def)

lemma handle_command_inv:
  assumes inv: "bridge_inv b"
  shows "\<exists>out b'. handle_command f v now c b = (Inr out, b') \<and> bridge_inv b'"
  using handle_command_cases [OF inv, of f v now c]
proof (elim disjE exE conjE)
  fix code c' assume "handle_command f v now c b = refuse_with f c' code b"
  then show ?thesis using refuse_with_run [of f c' code b] inv by auto
next
  assume run: "handle_command f v now c b = execute_command f v now c b" and "valid_command c"
    and "cmd_sequence c = last_sequence (cmd_strategy_id c) (br_gate b) + 1"
    and "one_shot c \<longrightarrow> (\<forall>oid. cmd_order_intent_id c = Some oid \<longrightarrow> ledger_lookup oid (cmd_type c) (br_gate b) = None)"
  show ?thesis
  proof (cases "cmd_type c = RECONCILIATION_REQUEST")
    case True
    then show ?thesis using reconciliation_run [of c f v now b] run inv by auto
  next
    case False
    then obtain oid where "cmd_order_intent_id c = Some oid" using valid_command_intent \<open>valid_command c\<close> by blast
    then show ?thesis using execute_command_inv [OF inv False] run
        \<open>cmd_sequence c = _\<close> \<open>one_shot c \<longrightarrow> _\<close> by simp
  qed
next
  assume "handle_command f v now c b = execute_command f v now c b" and "cmd_type c = RECONCILIATION_REQUEST"
  then show ?thesis using reconciliation_run [of c f v now b] inv by auto
next
  fix reply assume "handle_command f v now c b = (Inr (reframe_reply f c reply, []), b)"
  then show ?thesis using inv by simp
qed

text \<open>Frames interleave with the market, the operator and the connection to the broker.\<close>

datatype 'b bridge_event =
    Frame command instant
  | SafeModeSwitch bool
  | ConnectionSwitch bool
  | MarketStep "'b \<Rightarrow> 'b"

primrec bridge_step :: "bridge_functions \<Rightarrow> 'b venue \<Rightarrow> 'b bridge_event \<Rightarrow> 'b bridge \<Rightarrow> 'b bridge" where
  "bridge_step f v (Frame c now) b = snd (handle_command f v now c b)"
| "bridge_step f v (SafeModeSwitch x) b = b\<lparr>br_safe_mode := x\<rparr>"
| "bridge_step f v (ConnectionSwitch x) b = b\<lparr>br_broker_connected := x\<rparr>"
| "bridge_step f v (MarketStep h) b = b\<lparr>br_broker := h (br_broker b)\<rparr>"

definition run_bridge :: "bridge_functions \<Rightarrow> 'b venue \<Rightarrow> 'b bridge_event list \<Rightarrow> 'b bridge \<Rightarrow> 'b bridge" where
  "run_bridge f v evs b = fold (bridge_step f v) evs b"

definition fresh_bridge :: "'b \<Rightarrow> 'b bridge" where
  "fresh_bridge broker = \<lparr>br_gate = \<lparr>gm_records = [], gm_last = []\<rparr>, br_safe_mode = False,
     br_broker_connected = True, br_reply_seq = 0, br_broker = broker, br_executed = []\<rparr>"

lemma bridge_step_inv: "bridge_inv b \<Longrightarrow> bridge_inv (bridge_step f v ev b)"
proof (cases ev)
  case (Frame c now)
  assume "bridge_inv b"
  then show ?thesis using handle_command_inv [of b f v now c] Frame by auto
qed (simp_all add: bridge_inv_def executed_of_def)

lemma run_bridge_inv: "bridge_inv b \<Longrightarrow> bridge_inv (run_bridge f v evs b)"
  unfolding run_bridge_def by (induction evs arbitrary: b) (simp_all add: bridge_step_inv)

lemma fresh_bridge_inv: "bridge_inv (fresh_bridge broker)"
  by (simp add: bridge_inv_def fresh_bridge_def executed_of_def last_sequence_def)

lemma distinct_filter_once:
  assumes "distinct (map f (filter P xs))" and "\<And>x. Q x \<Longrightarrow> P x \<and> f x = k"
  shows "length (filter Q xs) \<le> 1"
  using assms(1)
proof (induction xs)
  case (Cons x xs)
  show ?case
  proof (cases "Q x")
    case True
    then have "P x" "f x = k" using assms(2) by auto
    then have "k \<notin> f ` set (filter P xs)" using Cons.prems by auto
    then have "filter Q xs = []" using assms(2) by (fastforce simp: filter_empty_conv)
    then show ?thesis using True by simp
  next
    case False
    then show ?thesis using Cons by (cases "P x") auto
  qed
qed simp


text \<open>What is remembered of a submission or a cancellation is remembered for good.\<close>

lemma handle_command_remembers:
  assumes inv: "bridge_inv b" and mem: "ledger_lookup oid ty (br_gate b) = Some r" and ty: "ty \<noteq> MODIFY_ORDER"
  shows "ledger_lookup oid ty (br_gate (snd (handle_command f v now c b))) = Some r"
  using handle_command_cases [OF inv, of f v now c]
proof (elim disjE exE conjE)
  fix code c' assume "handle_command f v now c b = refuse_with f c' code b"
  then show ?thesis using refuse_with_run [of f c' code b] mem by auto
next
  assume run: "handle_command f v now c b = execute_command f v now c b" and "valid_command c"
    and sq: "cmd_sequence c = last_sequence (cmd_strategy_id c) (br_gate b) + 1"
    and fresh: "one_shot c \<longrightarrow> (\<forall>oid. cmd_order_intent_id c = Some oid \<longrightarrow> ledger_lookup oid (cmd_type c) (br_gate b) = None)"
  show ?thesis
  proof (cases "cmd_type c = RECONCILIATION_REQUEST")
    case True
    then show ?thesis using reconciliation_run [of c f v now b] run mem by auto
  next
    case False
    then obtain k where k: "cmd_order_intent_id c = Some k" using valid_command_intent \<open>valid_command c\<close> by blast
    obtain reply events b' where "execute_command f v now c b = (Inr (reframe_reply f c reply, events), b')"
        "br_gate b' = memory_after (bf_digest f) k c reply (br_gate b)"
      using execute_command_run [OF False k sq, of f v now] fresh k by blast
    moreover have "(oid, ty) \<noteq> (k, cmd_type c)" using fresh k mem ty by (auto simp: one_shot_def)
    ultimately show ?thesis using run mem by auto
  qed
next
  assume "handle_command f v now c b = execute_command f v now c b" and "cmd_type c = RECONCILIATION_REQUEST"
  then show ?thesis using reconciliation_run [of c f v now b] mem by auto
next
  fix reply assume "handle_command f v now c b = (Inr (reframe_reply f c reply, []), b)"
  then show ?thesis using mem by simp
qed

lemma run_bridge_remembers:
  assumes "bridge_inv b" and "ledger_lookup oid ty (br_gate b) = Some r" and "ty \<noteq> MODIFY_ORDER"
  shows "ledger_lookup oid ty (br_gate (run_bridge f v evs b)) = Some r"
proof -
  have step: "ledger_lookup oid ty (br_gate (bridge_step f v ev b)) = Some r"
    if "bridge_inv b" "ledger_lookup oid ty (br_gate b) = Some r" for b ev
    using that assms(3) by (cases ev) (simp_all add: handle_command_remembers)
  show ?thesis
    using assms(1,2) unfolding run_bridge_def
    by (induction evs arbitrary: b) (simp_all add: step bridge_step_inv)
qed

text \<open>When a frame was executed, it passed the gate.\<close>

lemma executed_means:
  assumes inv: "bridge_inv b" and run: "handle_command f v now c b = (r, b1)" and ex: "br_executed b1 = br_executed b @ [c]"
    and ty: "cmd_type c \<noteq> RECONCILIATION_REQUEST"
  shows "valid_command c \<and> handle_command f v now c b = execute_command f v now c b \<and>
      cmd_sequence c = last_sequence (cmd_strategy_id c) (br_gate b) + 1 \<and>
      (one_shot c \<longrightarrow> (\<forall>oid. cmd_order_intent_id c = Some oid \<longrightarrow> ledger_lookup oid (cmd_type c) (br_gate b) = None))"
  using handle_command_cases [OF inv, of f v now c]
proof (elim disjE exE conjE)
  fix code c' assume "handle_command f v now c b = refuse_with f c' code b"
  then have "br_executed b1 = br_executed b" using refuse_with_run [of f c' code b] run by auto
  with ex show ?thesis by simp
next
  fix reply assume "handle_command f v now c b = (Inr (reframe_reply f c reply, []), b)"
  with run ex show ?thesis by simp
qed (use ty in simp_all)


definition accepting_venue :: "nat venue" where
  "accepting_venue = \<lparr>vn_process = (\<lambda>c now n. (Inr (OrderAck 1 Ack_ACKNOWLEDGED (Some ''1''), []), n + 1)),
     vn_is_demo = (\<lambda>_. True), vn_positions = (\<lambda>_ _. []), vn_open_order_intent_ids = (\<lambda>_. []), vn_trading_enabled = (\<lambda>_. True)\<rparr>"

definition fixed_functions :: bridge_functions where
  "fixed_functions = \<lparr>bf_checksum = (\<lambda>c. decimal_str (cmd_message_id c)), bf_digest = (\<lambda>c. decimal_str (nat (the (cmd_expires_at c)))),
     bf_uuid5 = (\<lambda>n _. n), bf_emulator_id = 0\<rparr>"

definition example_frame :: "uuid \<Rightarrow> instant \<Rightarrow> int \<Rightarrow> command" where
  "example_frame mid now n = with_checksum (bf_checksum fixed_functions)
     \<lparr>cmd_type = SUBMIT_ORDER, cmd_message_id = mid, cmd_trace_id = None, cmd_timestamp = now, cmd_sequence = n,
      cmd_correlation_id = None, cmd_checksum = None, cmd_order_intent_id = Some 5, cmd_strategy_id = ''trend'',
      cmd_strategy_version = ''1'', cmd_expires_at = Some 100, cmd_symbol = Some ''EURUSD'', cmd_side = Some BUY,
      cmd_quantity = Some 2, cmd_order_type = Some MARKET, cmd_price = None, cmd_stop_loss = None,
      cmd_take_profit = None, cmd_max_slippage = 0, cmd_time_in_force = GTC, cmd_reason = None,
      cmd_new_price = None, cmd_new_stop_loss = None, cmd_new_take_profit = None\<rparr>"


end
