(* ===== verification/Reconciler_Properties.thy ===== *)
theory Reconciler_Properties
  imports Reconciler
begin

text \<open>
  What a reconciliation pass achieves. The store invariant \<open>store_ok\<close> ties the dictionaries
  that the pass builds to the store; every operation of the applier that the pass calls is shown to
  write one order (\<open>order_written\<close>); the loops are handled by an induction rule on the
  processed prefix. The properties at the end: the pass completes, it keeps the lifecycle and the
  posture, and a pass without material discrepancies leaves platform and broker in agreement.
\<close>

subsection \<open>The store as the pass sees it\<close>

definition store_ok :: "exec_store \<Rightarrow> bool" where
  "store_ok s \<longleftrightarrow> orders_inv s \<and> distinct (map fst (es_orders s)) \<and>
     distinct (map fst (es_positions s)) \<and> (\<forall>(k, p) \<in> set (es_positions s). ep_venue_position_id p = k)"

lemma distinct_map_sort_key [simp]: "distinct (map key (sort_key f xs)) \<longleftrightarrow> distinct (map key xs)"
  by (simp add: distinct_map)

lemma alist_update_new: "k \<notin> fst ` set d \<Longrightarrow> AList.update k v d = d @ [(k, v)]"
  by (induction d) auto

lemma dict_of_distinct: "distinct (map key xs) \<Longrightarrow> dict_of key xs = map (\<lambda>x. (key x, x)) xs"
proof -
  have "distinct (map key xs) \<Longrightarrow> fst ` set d \<inter> key ` set xs = {} \<Longrightarrow>
      fold (\<lambda>x d. AList.update (key x) x d) xs d = d @ map (\<lambda>x. (key x, x)) xs" for d
  proof (induction xs arbitrary: d)
    case (Cons x xs)
    then have "AList.update (key x) x d = d @ [(key x, x)]" by (intro alist_update_new) auto
    moreover have "fst ` set (d @ [(key x, x)]) \<inter> key ` set xs = {}" using Cons.prems by auto
    ultimately show ?case using Cons by simp
  qed simp
  then show "distinct (map key xs) \<Longrightarrow> ?thesis" by (simp add: dict_of_def)
qed

lemma map_of_self: "distinct (map key xs) \<Longrightarrow>
   map_of (map (\<lambda>x. (key x, x)) xs) k = Some x \<longleftrightarrow> x \<in> set xs \<and> key x = k"
  by (induction xs) (auto simp: rev_image_eqI)

lemma values_keyed:
  assumes "distinct (map fst d)" and "\<And>k v. (k, v) \<in> set d \<Longrightarrow> key v = k"
  shows "distinct (map key (map snd d))"
proof -
  have "map key (map snd d) = map fst d" using assms(2) by auto
  then show ?thesis using assms(1) by (simp only:)
qed

lemma values_lookup:
  assumes "distinct (map fst d)" and "\<And>k v. (k, v) \<in> set d \<Longrightarrow> key v = k"
  shows "v \<in> snd ` set d \<longleftrightarrow> map_of d (key v) = Some v"
proof
  assume "v \<in> snd ` set d"
  then obtain k where "(k, v) \<in> set d" by auto
  then show "map_of d (key v) = Some v" using assms by simp
qed (force dest: map_of_SomeD)

lemma option_ext: "(\<And>x. a = Some x \<longleftrightarrow> b = Some x) \<Longrightarrow> a = b"
  by (cases b) (metis not_Some_eq, metis)

lemma store_ok_orders:
  assumes "store_ok s"
  shows "keyed s" and "distinct (map or_order_intent_id (list_orders s))"
    and "r \<in> set (list_orders s) \<longleftrightarrow> get_order (or_order_intent_id r) s = Some r"
proof -
  have d: "distinct (map fst (es_orders s))" and key: "keyed s"
    using assms by (simp_all add: store_ok_def orders_inv_def)
  have ent: "or_order_intent_id v = k" if "(k, v) \<in> set (es_orders s)" for k v
    using key that d by (simp add: keyed_def get_order_def)
  show "keyed s" by (rule key)
  have "distinct (map or_order_intent_id (map snd (es_orders s)))"
    by (rule values_keyed [OF d ent])
  then show "distinct (map or_order_intent_id (list_orders s))"
    unfolding list_orders_def by (simp only: distinct_map_sort_key)
  show "r \<in> set (list_orders s) \<longleftrightarrow> get_order (or_order_intent_id r) s = Some r"
    using values_lookup [OF d ent] by (simp add: list_orders_def get_order_def)
qed

lemma db_orders_lookup:
  assumes "store_ok s"
  shows "map_of (dict_of or_order_intent_id (list_orders s)) k = get_order k s"
proof -
  note f = store_ok_orders [OF assms]
  have "map_of (dict_of or_order_intent_id (list_orders s)) k = Some r \<longleftrightarrow> get_order k s = Some r" for r
    using f(1) unfolding dict_of_distinct [OF f(2)] map_of_self [OF f(2)] f(3)
    by (auto simp: keyed_def)
  then show ?thesis by (rule option_ext)
qed

lemma db_orders_values:
  assumes "store_ok s"
  shows "map snd (dict_of or_order_intent_id (list_orders s)) = list_orders s"
  using store_ok_orders(2) [OF assms] by (simp add: dict_of_distinct comp_def)

definition open_position :: "string \<Rightarrow> exec_store \<Rightarrow> execution_position option" where
  "open_position k s =
     (case get_position k s of
        None \<Rightarrow> None
      | Some p \<Rightarrow> if ep_closed_at p = None then Some p else None)"

lemma open_position_iff: "open_position k s = Some p \<longleftrightarrow> get_position k s = Some p \<and> ep_closed_at p = None"
  by (auto simp: open_position_def split: option.splits)

lemma db_positions:
  assumes "store_ok s"
  shows "map_of (dict_of ep_venue_position_id (list_positions True s)) k = open_position k s"
    and "(k, p) \<in> set (dict_of ep_venue_position_id (list_positions True s)) \<longleftrightarrow> open_position k s = Some p"
proof -
  have d: "distinct (map fst (es_positions s))"
    and ent: "\<And>k v. (k, v) \<in> set (es_positions s) \<Longrightarrow> ep_venue_position_id v = k"
    using assms by (auto simp: store_ok_def)
  have "distinct (map ep_venue_position_id (map snd (es_positions s)))"
    by (rule values_keyed [OF d ent])
  then have dl: "distinct (map ep_venue_position_id (list_positions True s))"
    unfolding list_positions_def Let_def by (simp only: distinct_map_sort_key if_True distinct_map_filter)
  have mem: "q \<in> set (list_positions True s) \<and> ep_venue_position_id q = k \<longleftrightarrow> open_position k s = Some q" for q
    using values_lookup [OF d, of ep_venue_position_id q, OF ent]
    by (auto simp: list_positions_def Let_def open_position_iff get_position_def
        dest: map_of_SomeD ent)
  have "map_of (dict_of ep_venue_position_id (list_positions True s)) k = Some q \<longleftrightarrow> open_position k s = Some q" for q
    unfolding dict_of_distinct [OF dl] map_of_self [OF dl] mem ..
  then show "map_of (dict_of ep_venue_position_id (list_positions True s)) k = open_position k s"
    by (rule option_ext)
  show "(k, p) \<in> set (dict_of ep_venue_position_id (list_positions True s)) \<longleftrightarrow> open_position k s = Some p"
    unfolding dict_of_distinct [OF dl] using mem [of p] by auto
qed

subsection \<open>One order is written\<close>

text \<open>
  The order \<open>oid\<close> ends in a state of \<open>P\<close>; every other order, the positions, the runs, the
  posture and the key order of the store stay as they were.
\<close>

definition order_written :: "uuid \<Rightarrow> (order_state \<Rightarrow> bool) \<Rightarrow> exec_store \<Rightarrow> exec_store \<Rightarrow> bool" where
  "order_written oid P s s' \<longleftrightarrow>
     (\<exists>r. get_order oid s' = Some r \<and> P (or_state r)) \<and>
     (\<forall>k. k \<noteq> oid \<longrightarrow> get_order k s' = get_order k s) \<and>
     map fst (es_orders s') = map fst (es_orders s) \<and>
     es_positions s' = es_positions s \<and> es_runs s' = es_runs s \<and> es_safe_mode s' = es_safe_mode s \<and>
     orders_inv s'"

lemma alist_update_keys: "k \<in> fst ` set d \<Longrightarrow> map fst (AList.update k v d) = map fst d"
  by (induction d) auto

lemma order_written_put:
  assumes "orders_inv s" and "get_order (or_order_intent_id r) s = Some c" and "order_inv r" and "P (or_state r)"
  shows "order_written (or_order_intent_id r) P s (put_order r s)"
proof -
  have "or_order_intent_id r \<in> fst ` set (es_orders s)"
    using assms(2) by (force simp: get_order_def dest: map_of_SomeD)
  then have "map fst (es_orders (put_order r s)) = map fst (es_orders s)"
    by (simp add: put_order_def alist_update_keys)
  then show ?thesis
    using assms by (simp add: order_written_def orders_inv_put) (simp add: put_order_def)
qed

lemma order_written_same:
  "orders_inv s \<Longrightarrow> get_order oid s = Some r \<Longrightarrow> P (or_state r) \<Longrightarrow> order_written oid P s s"
  by (simp add: order_written_def)

lemma order_written_trans:
  "order_written oid P s t \<Longrightarrow> order_written oid Q t u \<Longrightarrow> order_written oid Q s u"
  by (simp add: order_written_def)

lemma order_written_store_ok: "store_ok s \<Longrightarrow> order_written oid P s s' \<Longrightarrow> store_ok s'"
  by (simp add: order_written_def store_ok_def)

lemma inv_keyed: "orders_inv s \<Longrightarrow> keyed s"
  by (simp add: orders_inv_def)

lemma inv_key: "orders_inv s \<Longrightarrow> get_order oid s = Some c \<Longrightarrow> or_order_intent_id c = oid"
  by (simp add: orders_inv_def keyed_def)

lemma inv_order: "orders_inv s \<Longrightarrow> get_order oid s = Some c \<Longrightarrow> order_inv c"
  by (simp add: orders_inv_def)

lemma apply_order_writes:
  assumes inv: "orders_inv s" and c: "get_order oid s = Some c" and v: "is_valid_order_transition (or_state c) t"
    and t: "t \<notin> {OS_PARTIALLY_FILLED, OS_FILLED, OS_ORDER_INTENT}" and us: "list_all harmless us"
  obtains r s' where "apply_order oid t None us w s = (Inr r, s')" "order_written oid ((=) t) s s'"
proof -
  let ?r = "advance c t w us"
  have run: "apply_order oid t None us w s = (Inr ?r, put_order ?r s)"
    using apply_order_run [OF inv_keyed [OF inv] c] v by (simp add: already_processed_def stamp_opt_def)
  have "order_written (or_order_intent_id ?r) ((=) t) s (put_order ?r s)"
    using advance_inv [OF inv_order [OF inv c] v t us] inv c inv_key [OF inv c] by (intro order_written_put) auto
  with run show ?thesis using inv_key [OF inv c] that by simp
qed

lemma update_fields_writes:
  assumes inv: "orders_inv s" and c: "get_order oid s = Some c" and us: "list_all harmless us"
  obtains r s' where "update_fields oid us w s = (Inr r, s')" "order_written oid ((=) (or_state c)) s s'"
proof -
  let ?r = "(model_copy us c)\<lparr>or_updated_at := w, or_version := or_version c + 1\<rparr>"
  have run: "update_fields oid us w s = (Inr ?r, put_order ?r s)"
    using update_fields_run [OF inv_keyed [OF inv] c] by (simp add: Let_def)
  have "order_inv ?r"
    using order_inv_next_version [OF harmless_model_copy [OF us inv_order [OF inv c]]] by simp
  then have "order_written (or_order_intent_id ?r) ((=) (or_state c)) s (put_order ?r s)"
    using inv c inv_key [OF inv c] by (intro order_written_put) auto
  with run show ?thesis using inv_key [OF inv c] that by simp
qed

lemma heal_acknowledged_writes:
  assumes inv: "orders_inv s" and c: "get_order oid s = Some c" and st: "or_state c = OS_SUBMITTED"
  obtains r s' where "heal_acknowledged oid note w s = (Inr r, s')" "order_written oid ((=) OS_ACKNOWLEDGED) s s'"
  using apply_order_writes [OF inv c, of OS_ACKNOWLEDGED "[U_reconciliation_note note]" w] c st
  by (auto simp: heal_acknowledged_def transition_defs)

lemma record_cancelled_writes:
  assumes inv: "orders_inv s" and c: "get_order oid s = Some c" and st: "or_state c = OS_SUBMITTED"
  obtains r s' where "record_cancelled oid None note w s = (Inr r, s')" "order_written oid ((=) OS_CANCELLED) s s'"
proof -
  have "list_all harmless (opt_update U_reconciliation_note note)" by (cases "note") (simp_all add: opt_update_def)
  then show ?thesis
    using that apply_order_writes [OF inv c, of OS_CANCELLED "opt_update U_reconciliation_note note" w] c st
    by (auto simp: record_cancelled_def transition_defs)
qed

lemma mark_reconciled_writes:
  assumes inv: "orders_inv s" and c: "get_order oid s = Some c"
    and st: "or_state c \<in> set venue_terminal_states \<union> {OS_RECONCILED, OS_CLOSED, OS_REVIEWED}"
  obtains r s' where "mark_reconciled oid note w s = (Inr r, s')"
    "order_written oid (\<lambda>x. x \<in> {OS_RECONCILED, OS_CLOSED, OS_REVIEWED}) s s'"
proof (cases "or_state c \<in> {OS_RECONCILED, OS_CLOSED, OS_REVIEWED}")
  case True
  then have "mark_reconciled oid note w s = (Inr c, s)" using c by (simp add: mark_reconciled_def)
  then show ?thesis using that order_written_same [OF inv c] True by simp
next
  case False
  then have "or_state c \<in> {OS_FILLED, OS_CANCELLED, OS_REJECTED}" using st by (simp add: venue_terminal_states_def)
  then have v: "is_valid_order_transition (or_state c) OS_RECONCILED" by (auto simp: transition_defs)
  obtain r s' where a: "apply_order oid OS_RECONCILED None [U_reconciliation_note note] w s = (Inr r, s')"
    "order_written oid ((=) OS_RECONCILED) s s'"
    by (rule apply_order_writes [OF inv c v]) auto
  have "mark_reconciled oid note w s = (Inr r, s')"
    using a(1) c False st by (auto simp: mark_reconciled_def live_order_states_def venue_terminal_states_def)
  moreover have "order_written oid (\<lambda>x. x \<in> {OS_RECONCILED, OS_CLOSED, OS_REVIEWED}) s s'"
    using a(2) by (auto simp: order_written_def)
  ultimately show ?thesis by (rule that)
qed

lemma adopt_position_writes:
  assumes inv: "orders_inv s" and c: "get_order oid s = Some c" and "pid \<noteq> []"
  obtains r s' where "adopt_position oid pid note w s = (Inr r, s')" "order_written oid ((=) (or_state c)) s s'"
  using update_fields_writes [OF inv c, of "[U_venue_position_id pid, U_reconciliation_note note]" w] assms(3)
  by (auto simp: adopt_position_def)

lemma record_fill_completes:
  assumes inv: "orders_inv s" and c: "get_order oid s = Some c" and st: "or_state c \<in> set live_order_states"
    and f: "fill_ok f" "fe_event_id f = None" and q: "fe_quantity f = or_requested_quantity c - or_filled_quantity c"
  obtains r s' where "record_fill oid f w s = (Inr r, s')" "order_written oid ((=) OS_FILLED) s s'"
proof -
  have ci: "order_inv c" and oid: "or_order_intent_id c = oid" by (rule inv_order [OF inv c], rule inv_key [OF inv c])
  have grid: "on_grid (or_filled_quantity c)" "on_grid (fe_quantity f)"
    using order_invD(13) [OF ci] f(1) by (simp_all add: fill_ok_def)
  have cum: "fill_cumulative c f = or_requested_quantity c" using grid q by (simp add: fill_cumulative_def)
  have t: "fill_target c f = OS_FILLED" by (simp add: fill_target_def cum)
  have rem: "0 < or_remaining_quantity c"
  proof -
    have "order_record_shape c" using ci unfolding order_inv_def valid_order_record_def by blast
    then show ?thesis using st unfolding order_record_shape_def live_order_states_def by auto
  qed
  then have pos: "0 < fe_quantity f" using q order_invD(14) [OF ci] by simp
  have le: "\<not> or_requested_quantity c < fill_cumulative c f" by (simp add: cum)
  have np: "\<not> already_processed (fe_event_id f) c" by (simp add: f(2) already_processed_def)
  show ?thesis
  proof (cases "or_state c = OS_SUBMITTED")
    case False
    let ?r = "advance c OS_FILLED w (fill_updates c f)"
    have sc: "or_state c \<in> {OS_ACKNOWLEDGED, OS_PARTIALLY_FILLED}" using st False by (auto simp: live_order_states_def)
    have run: "record_fill oid f w s = (Inr ?r, put_order ?r s)"
      using record_fill_run [OF inv c f(1), of w] pos sc np le by (auto simp: t f(2) stamp_opt_def Let_def)
    have "order_inv ?r"
      using fill_advance_inv [OF ci ci _ sc f(1) pos le, of w] by (simp add: same_account_def t)
    then have "order_written (or_order_intent_id ?r) ((=) OS_FILLED) s (put_order ?r s)"
      using inv c oid by (intro order_written_put) auto
    with run show ?thesis using that oid by simp
  next
    case True
    let ?a = "advance c OS_ACKNOWLEDGED w (opt_update U_venue_order_id (fe_venue_order_id f))"
    let ?r = "advance ?a OS_FILLED w (fill_updates c f)"
    have run: "record_fill oid f w s = (Inr ?r, put_order ?r (put_order ?a s))"
      using record_fill_run [OF inv c f(1), of w] pos True np le by (auto simp: t f(2) stamp_opt_def Let_def)
    have ai: "order_inv ?a"
      by (rule advance_inv [OF ci _ _ fill_updates_harmless [OF f(1)]]) (simp_all add: True transition_defs)
    have ri: "order_inv ?r"
      using fill_advance_inv [OF ci ai ack_same_account _ f(1) pos le, of w] by (simp add: t)
    have w1: "order_written (or_order_intent_id ?a) ((=) OS_ACKNOWLEDGED) s (put_order ?a s)"
      using inv c oid ai by (intro order_written_put) auto
    have "order_written (or_order_intent_id ?r) ((=) OS_FILLED) (put_order ?a s) (put_order ?r (put_order ?a s))"
      using w1 ri oid by (intro order_written_put) (auto simp: order_written_def)
    with w1 have "order_written oid ((=) OS_FILLED) s (put_order ?r (put_order ?a s))"
      using oid by (auto intro: order_written_trans)
    with run show ?thesis by (rule that)
  qed
qed

lemma heal_fill_writes:
  assumes inv: "orders_inv s" and c: "get_order oid s = Some c" and st: "or_state c \<in> set live_order_states"
    and q: "q = dsub (or_requested_quantity c) (or_filled_quantity c)" and "0 < p" and "pid \<noteq> []"
  obtains r s' where "heal_fill oid pid q p note w s = (Inr r, s')" "order_written oid ((=) OS_FILLED) s s'"
proof -
  let ?f = "\<lparr>fe_event_id = None, fe_sequence = 0, fe_quantity = q, fe_price = p,
    fe_venue_order_id = None, fe_venue_position_id = Some pid, fe_commission = 0, fe_slippage = None\<rparr>"
  have q': "q = or_requested_quantity c - or_filled_quantity c"
    using q order_invD(12,13) [OF inv_order [OF inv c]] by simp
  have "on_grid q"
    unfolding q' using order_invD(5,12,13) [OF inv_order [OF inv c]] inv_order [OF inv c]
    by (intro on_grid_diff_le) (auto simp: order_inv_def)
  then have f: "fill_ok ?f" using assms(5,6) by (simp add: fill_ok_def opt_nonempty_def)
  obtain r1 s1 where 1: "record_fill oid ?f w s = (Inr r1, s1)" "order_written oid ((=) OS_FILLED) s s1"
    by (rule record_fill_completes [OF inv c st f]) (auto simp: q')
  then obtain c1 where c1: "get_order oid s1 = Some c1" "or_state c1 = OS_FILLED" and inv1: "orders_inv s1"
    by (auto simp: order_written_def)
  obtain r2 s2 where 2: "update_fields oid [U_reconciliation_note note] w s1 = (Inr r2, s2)"
    "order_written oid ((=) (or_state c1)) s1 s2"
    by (rule update_fields_writes [OF inv1 c1(1)]) auto
  have "heal_fill oid pid q p note w s = (Inr r2, s2)" using 1(1) 2(1) by (simp add: heal_fill_def)
  moreover have "order_written oid ((=) OS_FILLED) s s2" using 1(2) 2(2) c1(2) by (auto intro: order_written_trans)
  ultimately show ?thesis by (rule that)
qed

subsection \<open>Loops and bookkeeping\<close>

lemma for_each_total:
  assumes "I [] s"
    and step: "\<And>seen x rest t. xs = seen @ x # rest \<Longrightarrow> I seen t \<Longrightarrow> \<exists>t'. f x t = (Inr (), t') \<and> I (seen @ [x]) t'"
  shows "\<exists>s'. for_each xs f s = (Inr (), s') \<and> I xs s'"
proof -
  have "xs = seen @ ys \<Longrightarrow> I seen t \<Longrightarrow> \<exists>s'. for_each ys f t = (Inr (), s') \<and> I xs s'" for seen ys t
  proof (induction ys arbitrary: seen t)
    case (Cons y ys)
    from step [OF Cons.prems] obtain t' where "f y t = (Inr (), t')" "I (seen @ [y]) t'" by blast
    with Cons.IH [of "seen @ [y]" t'] Cons.prems(1) show ?case by simp
  qed simp
  from this [of "[]" xs s] assms(1) show ?thesis by simp
qed

lemma on_rc_run: "m (rc_store t) = (Inr r, st) \<Longrightarrow> on_rc m t = (Inr r, t\<lparr>rc_store := st\<rparr>)"
  by (simp add: on_rc_def zoom_def)

lemma report_run [simp]: "report d t = (Inr (), t\<lparr>rc_discrepancies := rc_discrepancies t @ [d]\<rparr>)"
  by (simp add: report_def)

lemma count_run [simp]:
  "count_resolved t = (Inr (), t\<lparr>rc_resolved := rc_resolved t + 1\<rparr>)"
  "count_adopted t = (Inr (), t\<lparr>rc_adopted := rc_adopted t + 1\<rparr>)"
  by (simp_all add: count_resolved_def count_adopted_def)

definition clean :: "recon_state \<Rightarrow> bool" where
  "clean t \<longleftrightarrow> list_all (\<lambda>d. dc_severity d \<noteq> MATERIAL) (rc_discrepancies t)"

text \<open>What every part keeps: a well-formed store, the posture and the runs, and a report that
  validates.\<close>

definition recon_base :: "exec_store \<Rightarrow> recon_state \<Rightarrow> bool" where
  "recon_base s0 t \<longleftrightarrow> store_ok (rc_store t) \<and> es_runs (rc_store t) = es_runs s0 \<and>
     es_safe_mode (rc_store t) = es_safe_mode s0 \<and>
     list_all (\<lambda>d. dc_explanation d \<noteq> []) (rc_discrepancies t) \<and>
     0 \<le> rc_resolved t \<and> 0 \<le> rc_adopted t \<and> 0 \<le> rc_positions_closed t \<and> 0 \<le> rc_orders_reconciled t"

lemma upsert_ok:
  assumes "store_ok s" and "ep_venue_position_id p = k"
  shows "store_ok (s\<lparr>es_positions := AList.update k p (es_positions s)\<rparr>)"
proof -
  have "distinct (map fst (AList.update k p (es_positions s)))"
    using assms(1) by (simp add: store_ok_def distinct_update)
  moreover have "\<forall>(j, q) \<in> set (AList.update k p (es_positions s)). ep_venue_position_id q = j"
    using assms set_alist_update_subset [of k p "es_positions s"] by (fastforce simp: store_ok_def)
  moreover have "orders_inv (s\<lparr>es_positions := X\<rparr>) = orders_inv s" for X
    by (simp add: orders_inv_def keyed_def get_order_def)
  ultimately show ?thesis using assms(1) by (simp add: store_ok_def)
qed

lemma upsert_run [simp]:
  "upsert_position p s = (Inr p, s\<lparr>es_positions := AList.update (ep_venue_position_id p) p (es_positions s)\<rparr>)"
  by (simp add: upsert_position_def)

lemma get_position_upsert [simp]:
  "get_position j (s\<lparr>es_positions := AList.update k p (es_positions s)\<rparr>) = (if j = k then Some p else get_position j s)"
  by (simp add: get_position_def)

lemma get_order_positions [simp]: "get_order k (s\<lparr>es_positions := X\<rparr>) = get_order k s"
  by (simp add: get_order_def)

lemma get_position_written: "order_written oid P s s' \<Longrightarrow> get_position j s' = get_position j s"
  by (simp add: order_written_def get_position_def)

lemma open_position_cong: "get_position k s = get_position k s' \<Longrightarrow> open_position k s = open_position k s'"
  by (simp add: open_position_def)

definition is_live :: "exec_store \<Rightarrow> uuid \<Rightarrow> bool" where
  "is_live s k \<longleftrightarrow> (\<exists>r. get_order k s = Some r \<and> or_state r \<in> set live_order_states)"

lemma live_orders_iff:
  assumes "store_ok s"
  shows "r \<in> set (live_orders s) \<longleftrightarrow>
    get_order (or_order_intent_id r) s = Some r \<and> or_state r \<in> set live_order_states"
  using store_ok_orders(3) [OF assms] by (auto simp: live_orders_def)

lemma live_orders_distinct: "store_ok s \<Longrightarrow> distinct (map or_order_intent_id (live_orders s))"
  using store_ok_orders(2) [of s] by (simp add: live_orders_def distinct_map_filter)

lemma is_live_iff:
  assumes "store_ok s"
  shows "is_live s k \<longleftrightarrow> k \<in> or_order_intent_id ` set (live_orders s)"
proof -
  have "get_order k s = Some r \<Longrightarrow> or_order_intent_id r = k" for r
    using store_ok_orders(1) [OF assms] by (simp add: keyed_def)
  then show ?thesis using live_orders_iff [OF assms] by (auto simp: is_live_def)
qed

subsection \<open>Part 1: open orders\<close>

lemma compare_open_orders_total:
  assumes base: "recon_base s0 t" "rc_store t = s0" and c: "clean t"
  shows "\<exists>t'. compare_open_orders (dict_of or_order_intent_id (list_orders s0)) ids t = (Inr (), t') \<and>
    recon_base s0 t' \<and> rc_store t' = s0 \<and> (clean t' \<longrightarrow> (\<forall>k \<in> set ids. is_live s0 k))"
proof -
  have ok: "store_ok s0" using base by (simp add: recon_base_def)
  let ?I = "\<lambda>seen t. recon_base s0 t \<and> rc_store t = s0 \<and> (clean t \<longrightarrow> (\<forall>k \<in> set seen. is_live s0 k))"
  have "\<exists>t'. for_each (sort (remdups ids)) (compare_open_order (dict_of or_order_intent_id (list_orders s0))) t = (Inr (), t') \<and>
      ?I (sort (remdups ids)) t'"
  proof (rule for_each_total)
    show "?I [] t" using base by simp
    fix seen x rest u assume I: "?I seen u"
    show "\<exists>u'. compare_open_order (dict_of or_order_intent_id (list_orders s0)) x u = (Inr (), u') \<and> ?I (seen @ [x]) u'"
      unfolding compare_open_order_def db_orders_lookup [OF ok]
      using I by (auto simp: clean_def recon_base_def discrepancy_def is_live_def live_order_states_def split: option.split)
  qed
  then show ?thesis by (simp add: compare_open_orders_def)
qed

subsection \<open>Part 2: positions\<close>

definition agrees :: "execution_position \<Rightarrow> venue_view_position \<Rightarrow> bool" where
  "agrees q p \<longleftrightarrow> ep_instrument_id q = vp_instrument_id p \<and> ep_side q = vp_side p \<and> ep_quantity q = vp_quantity p"

definition valid_venue_position :: "venue_view_position \<Rightarrow> bool" where
  "valid_venue_position p \<longleftrightarrow> vp_venue_position_id p \<noteq> [] \<and> vp_account_id p \<noteq> [] \<and> vp_instrument_id p \<noteq> [] \<and>
     0 < vp_quantity p \<and> 0 < vp_average_entry_price p \<and> vp_side p \<noteq> PS_FLAT"

text \<open>Orders after adoptions: unchanged in state, or live before and filled now.\<close>

definition orders_adopted :: "exec_store \<Rightarrow> exec_store \<Rightarrow> bool" where
  "orders_adopted s0 s \<longleftrightarrow> (\<forall>k. (get_order k s = None) = (get_order k s0 = None)) \<and>
     (\<forall>k c c0. get_order k s = Some c \<longrightarrow> get_order k s0 = Some c0 \<longrightarrow>
        or_state c = or_state c0 \<or> or_state c0 \<in> set live_order_states \<and> or_state c = OS_FILLED)"

definition position_inv :: "exec_store \<Rightarrow> uuid list \<Rightarrow> venue_view_position list \<Rightarrow> recon_state \<Rightarrow> bool" where
  "position_inv s0 ids seen t \<longleftrightarrow> recon_base s0 t \<and> orders_adopted s0 (rc_store t) \<and>
     (\<forall>k. k \<notin> vp_venue_position_id ` set seen \<longrightarrow> get_position k (rc_store t) = get_position k s0) \<and>
     (clean t \<longrightarrow> (\<forall>p \<in> set seen. \<exists>q. open_position (vp_venue_position_id p) (rc_store t) = Some q \<and> agrees q p) \<and>
       (\<forall>k \<in> set ids. is_live s0 k))"

lemma orders_adopted_written:
  assumes "orders_adopted s0 s" and "order_written oid P s s'" and c: "get_order oid s = Some c"
    and P: "\<And>st. P st \<Longrightarrow> st = or_state c \<or> or_state c \<in> set live_order_states \<and> st = OS_FILLED"
  shows "orders_adopted s0 s'"
  unfolding orders_adopted_def
proof (intro conjI allI impI)
  fix k
  show "(get_order k s' = None) = (get_order k s0 = None)"
  proof (cases "k = oid")
    case True
    have "get_order oid s0 \<noteq> None" using assms(1) c unfolding orders_adopted_def by (metis option.distinct(1))
    then show ?thesis using True assms(2) by (auto simp: order_written_def)
  qed (use assms(1,2) in \<open>simp add: orders_adopted_def order_written_def\<close>)
  fix d c0 assume d: "get_order k s' = Some d" and c0: "get_order k s0 = Some c0"
  show "or_state d = or_state c0 \<or> or_state c0 \<in> set live_order_states \<and> or_state d = OS_FILLED"
  proof (cases "k = oid")
    case True
    have "or_state c = or_state c0 \<or> or_state c0 \<in> set live_order_states \<and> or_state c = OS_FILLED"
      using assms(1) c c0 True by (simp add: orders_adopted_def)
    moreover have "P (or_state d)" using assms(2) d True by (auto simp: order_written_def)
    ultimately show ?thesis using P [of "or_state d"] by (auto simp: live_order_states_def)
  next
    case False
    then show ?thesis using assms(1,2) d c0 by (auto simp: orders_adopted_def order_written_def)
  qed
qed

text \<open>Recording a position under its identifier extends the invariant by that position.\<close>

lemma position_inv_upsert:
  assumes I: "position_inv s0 ids seen t" and new: "vp_venue_position_id x \<notin> vp_venue_position_id ` set seen"
    and q: "ep_venue_position_id q = vp_venue_position_id x" "ep_closed_at q = None" "agrees q x"
    and d: "list_all (\<lambda>d. dc_explanation d \<noteq> []) ds" "0 \<le> i" "0 \<le> j"
  shows "position_inv s0 ids (seen @ [x]) (t\<lparr>rc_store := (rc_store t)\<lparr>es_positions :=
      AList.update (vp_venue_position_id x) q (es_positions (rc_store t))\<rparr>,
    rc_discrepancies := rc_discrepancies t @ ds, rc_resolved := rc_resolved t + i, rc_adopted := rc_adopted t + j\<rparr>)"
proof -
  have base: "recon_base s0 t" using I by (simp add: position_inv_def)
  have "store_ok ((rc_store t)\<lparr>es_positions := AList.update (vp_venue_position_id x) q (es_positions (rc_store t))\<rparr>)"
    using base q(1) by (intro upsert_ok) (simp_all add: recon_base_def)
  moreover have "\<forall>p \<in> set seen. vp_venue_position_id p \<noteq> vp_venue_position_id x"
    using new by (metis image_eqI)
  ultimately show ?thesis
    using I q d unfolding position_inv_def
    by (auto simp: recon_base_def orders_adopted_def clean_def open_position_def)
qed

lemma position_inv_report:
  assumes "position_inv s0 ids seen t" and "dc_severity d = MATERIAL" and "dc_explanation d \<noteq> []"
  shows "position_inv s0 ids (seen @ [x]) (t\<lparr>rc_discrepancies := rc_discrepancies t @ [d]\<rparr>)"
  using assms by (auto simp: position_inv_def recon_base_def clean_def)

lemma position_inv_order:
  assumes I: "position_inv s0 ids seen t" and w: "order_written oid P (rc_store t) st" and c: "get_order oid (rc_store t) = Some c"
    and P: "\<And>x. P x \<Longrightarrow> x = or_state c \<or> or_state c \<in> set live_order_states \<and> x = OS_FILLED"
  shows "position_inv s0 ids seen (t\<lparr>rc_store := st\<rparr>)"
proof -
  have "store_ok st" using order_written_store_ok [OF _ w] I by (simp add: position_inv_def recon_base_def)
  moreover have "orders_adopted s0 st"
    using orders_adopted_written [OF _ w c P] I by (simp add: position_inv_def)
  moreover have g: "get_position k st = get_position k (rc_store t)" for k by (rule get_position_written [OF w])
  ultimately show ?thesis
    using I w open_position_cong [OF g]
    by (auto simp: position_inv_def recon_base_def order_written_def clean_def)
qed

text \<open>The three ways a position of the venue is handled.\<close>

lemma known_position_total:
  assumes I: "position_inv s0 ids seen t" and new: "vp_venue_position_id x \<notin> vp_venue_position_id ` set seen"
    and q: "open_position (vp_venue_position_id x) s0 = Some q"
  shows "\<exists>t'. compare_known_position tol now x q t = (Inr (), t') \<and> position_inv s0 ids (seen @ [x]) t'"
proof -
  have get: "get_position (vp_venue_position_id x) (rc_store t) = Some q" and cl: "ep_closed_at q = None"
    using I new q by (simp_all add: position_inv_def open_position_iff)
  have "store_ok (rc_store t)" using I by (simp add: position_inv_def recon_base_def)
  then have id: "ep_venue_position_id q = vp_venue_position_id x"
    using get by (auto simp: store_ok_def get_position_def dest: map_of_SomeD)
  consider "vp_instrument_id x \<noteq> ep_instrument_id q \<or> vp_side x \<noteq> ep_side q \<or> vp_quantity x \<noteq> ep_quantity q"
    | "agrees q x" unfolding agrees_def by metis
  then show ?thesis
  proof cases
    case 1
    then show ?thesis
      by (auto simp: compare_known_position_def discrepancy_def intro!: position_inv_report [OF I])
  next
    case 2
    then have eq: "vp_instrument_id x = ep_instrument_id q" "vp_side x = ep_side q" "vp_quantity x = ep_quantity q"
      by (simp_all add: agrees_def)
    show ?thesis
    proof (cases "dmul (ep_average_entry_price q) tol < dabs (dsub (vp_average_entry_price x) (ep_average_entry_price q))")
      case True
      let ?q = "q\<lparr>ep_average_entry_price := vp_average_entry_price x, ep_updated_at := now\<rparr>"
      have "position_inv s0 ids (seen @ [x]) (t\<lparr>rc_store := (rc_store t)\<lparr>es_positions :=
          AList.update (vp_venue_position_id x) ?q (es_positions (rc_store t))\<rparr>,
        rc_discrepancies := rc_discrepancies t @ [discrepancy PRICE_DRIFT WARNING
          ''entry price drifted beyond tolerance, broker price is authority'' None
          (Some (vp_venue_position_id x)) (Some ''broker price adopted'')],
        rc_resolved := rc_resolved t + 0, rc_adopted := rc_adopted t + 0\<rparr>)"
        using id cl 2 by (intro position_inv_upsert [OF I new]) (simp_all add: agrees_def discrepancy_def)
      then show ?thesis using True eq id by (simp add: compare_known_position_def on_rc_run)
    next
      case False
      have "position_inv s0 ids (seen @ [x]) t"
        using I get cl 2 by (auto simp: position_inv_def open_position_def)
      then show ?thesis using False eq by (simp add: compare_known_position_def)
    qed
  qed
qed

lemma adopt_venue_position_run:
  assumes "valid_venue_position x"
  shows "adopt_venue_position now x oid t = (Inr (), t\<lparr>rc_store := (rc_store t)\<lparr>es_positions :=
    AList.update (vp_venue_position_id x) (to_execution_position now x oid) (es_positions (rc_store t))\<rparr>\<rparr>)"
proof -
  have v: "valid_execution_position (to_execution_position now x oid)"
    using assms by (simp add: valid_execution_position_def to_execution_position_def valid_venue_position_def)
  have "ep_venue_position_id (to_execution_position now x oid) = vp_venue_position_id x"
    by (simp add: to_execution_position_def)
  then show ?thesis using v by (simp add: adopt_venue_position_def on_rc_run)
qed

lemma adopted_inv:
  assumes "position_inv s0 ids seen t" and "vp_venue_position_id x \<notin> vp_venue_position_id ` set seen"
    and "dc_explanation d \<noteq> []" "0 \<le> i" "0 \<le> j"
  shows "position_inv s0 ids (seen @ [x]) (t\<lparr>rc_store := (rc_store t)\<lparr>es_positions :=
      AList.update (vp_venue_position_id x) (to_execution_position now x oid) (es_positions (rc_store t))\<rparr>,
    rc_discrepancies := rc_discrepancies t @ [d], rc_resolved := rc_resolved t + i, rc_adopted := rc_adopted t + j\<rparr>)"
  by (rule position_inv_upsert [OF assms(1,2)])
    (use assms(3-5) in \<open>simp_all add: to_execution_position_def agrees_def\<close>)

lemma link_filled_total:
  assumes I: "position_inv s0 ids seen t" and new: "vp_venue_position_id x \<notin> vp_venue_position_id ` set seen"
    and v: "valid_venue_position x" and r: "get_order k s0 = Some r" "or_state r = OS_FILLED" "or_order_intent_id r = k"
  shows "\<exists>t'. link_filled_order now x r t = (Inr (), t') \<and> position_inv s0 ids (seen @ [x]) t'"
proof -
  have ad: "orders_adopted s0 (rc_store t)" and inv: "orders_inv (rc_store t)"
    using I by (simp_all add: position_inv_def recon_base_def store_ok_def)
  obtain c where c: "get_order k (rc_store t) = Some c"
    using ad r(1) unfolding orders_adopted_def by (metis not_Some_eq)
  have pid: "vp_venue_position_id x \<noteq> []" using v by (simp add: valid_venue_position_def)
  obtain t1 where t1: "position_inv s0 ids seen t1" and
    link: "link_filled_order now x r t =
      (if or_filled_quantity r \<noteq> vp_quantity x
       then report (discrepancy QUANTITY_MISMATCH MATERIAL
         ''filled order quantity disagrees with the broker position'' (Some (or_order_intent_id r))
         (Some (vp_venue_position_id x)) None)
       else
         seq (adopt_venue_position now x (or_order_intent_id r)) (\<lambda>_.
         seq (report (discrepancy POSITION_EVENT_LOST EXPLAINABLE
           ''broker position linked to a FILLED order whose position event was lost''
           (Some (or_order_intent_id r)) (Some (vp_venue_position_id x)) (Some ''position adopted''))) (\<lambda>_.
         count_adopted))) t1"
  proof (cases "or_venue_position_id r = None")
    case True
    obtain r' st where a: "adopt_position k (vp_venue_position_id x) ''position linked at reconciliation'' now (rc_store t) = (Inr r', st)"
      "order_written k ((=) (or_state c)) (rc_store t) st"
      by (rule adopt_position_writes [OF inv c pid])
    have "position_inv s0 ids seen (t\<lparr>rc_store := st\<rparr>)" by (rule position_inv_order [OF I a(2) c]) auto
    moreover have "on_rc (adopt_position k (vp_venue_position_id x) ''position linked at reconciliation'' now) t =
        (Inr r', t\<lparr>rc_store := st\<rparr>)" using a(1) by (rule on_rc_run)
    ultimately show ?thesis using True r(3) that [of "t\<lparr>rc_store := st\<rparr>"] by (simp add: link_filled_order_def)
  next
    case False
    then obtain y where "or_venue_position_id r = Some y" by auto
    then show ?thesis using I by (intro that [of t]) (simp_all add: link_filled_order_def)
  qed
  show ?thesis
  proof (cases "or_filled_quantity r = vp_quantity x")
    case False
    then show ?thesis using t1 by (auto simp: link discrepancy_def intro!: position_inv_report)
  next
    case True
    show ?thesis
      using True adopted_inv [OF t1 new, of "discrepancy POSITION_EVENT_LOST EXPLAINABLE
           ''broker position linked to a FILLED order whose position event was lost''
           (Some (or_order_intent_id r)) (Some (vp_venue_position_id x)) (Some ''position adopted'')" 0 1 now "or_order_intent_id r"]
      by (simp add: link adopt_venue_position_run [OF v] discrepancy_def)
  qed
qed

lemma match_unlinked_total:
  assumes I: "position_inv s0 ids seen t" and new: "vp_venue_position_id x \<notin> vp_venue_position_id ` set seen"
    and v: "valid_venue_position x"
  shows "\<exists>t'. match_unlinked_position now x t = (Inr (), t') \<and> position_inv s0 ids (seen @ [x]) t'"
proof (cases "\<exists>target. adoption_candidates x (rc_store t) = [target]")
  case False
  then have "match_unlinked_position now x t =
      report (discrepancy UNEXPECTED_BROKER_POSITION MATERIAL
         ''broker position cannot be matched to any persisted order or position'' None
         (Some (vp_venue_position_id x)) None) t"
    by (auto simp: match_unlinked_position_def split: list.split)
  then show ?thesis using I by (auto simp: discrepancy_def intro!: position_inv_report)
next
  case True
  then obtain c where c: "adoption_candidates x (rc_store t) = [c]" by blast
  have ok: "store_ok (rc_store t)" using I by (simp add: position_inv_def recon_base_def)
  then have inv: "orders_inv (rc_store t)" by (simp add: store_ok_def)
  have "c \<in> set (adoption_candidates x (rc_store t))" by (simp add: c)
  then have get: "get_order (or_order_intent_id c) (rc_store t) = Some c" "or_state c \<in> set live_order_states"
    and q: "vp_quantity x = dsub (or_requested_quantity c) (or_filled_quantity c)"
    by (auto simp: adoption_candidates_def live_orders_iff [OF ok])
  have px: "0 < vp_average_entry_price x" "vp_venue_position_id x \<noteq> []" using v by (simp_all add: valid_venue_position_def)
  obtain r' st where h: "heal_fill (or_order_intent_id c) (vp_venue_position_id x) (vp_quantity x)
      (vp_average_entry_price x) ''fill inferred from an unmatched broker position'' now (rc_store t) = (Inr r', st)"
    "order_written (or_order_intent_id c) ((=) OS_FILLED) (rc_store t) st"
    by (rule heal_fill_writes [OF inv get q px])
  have hr: "on_rc (heal_fill (or_order_intent_id c) (vp_venue_position_id x) (vp_quantity x)
      (vp_average_entry_price x) ''fill inferred from an unmatched broker position'' now) t =
      (Inr r', t\<lparr>rc_store := st\<rparr>)" using h(1) by (rule on_rc_run)
  have "position_inv s0 ids seen (t\<lparr>rc_store := st\<rparr>)" by (rule position_inv_order [OF I h(2) get(1)]) (use get(2) in auto)
  from adopted_inv [OF this new, of "discrepancy FILL_EVENT_LOST EXPLAINABLE
      ''broker position matches exactly one open order, fill events were lost''
      (Some (or_order_intent_id c)) (Some (vp_venue_position_id x)) (Some ''FILLED + position adopted'')" 1 1 now "or_order_intent_id c"]
  show ?thesis using c
    by (simp add: match_unlinked_position_def hr adopt_venue_position_run [OF v] discrepancy_def)
qed

lemma compare_positions_total:
  assumes base: "recon_base s0 t" "rc_store t = s0" and ok: "store_ok s0"
    and open_ids: "clean t \<longrightarrow> (\<forall>k \<in> set ids. is_live s0 k)"
    and ids: "distinct (map vp_venue_position_id ps)" and v: "list_all valid_venue_position ps"
  shows "\<exists>t'. for_each ps (compare_position tol now (dict_of or_order_intent_id (list_orders s0))
      (dict_of ep_venue_position_id (list_positions True s0))) t = (Inr (), t') \<and> position_inv s0 ids ps t'"
proof (rule for_each_total)
  show "position_inv s0 ids [] t" using base open_ids by (auto simp: position_inv_def orders_adopted_def)
  fix seen x rest u assume ps: "ps = seen @ x # rest" and I: "position_inv s0 ids seen u"
  have new: "vp_venue_position_id x \<notin> vp_venue_position_id ` set seen" and vx: "valid_venue_position x"
    using ids v ps by auto
  have key: "get_order k s0 = Some r \<Longrightarrow> or_order_intent_id r = k" for k r
    using store_ok_orders(1) [OF ok] by (simp add: keyed_def)
  show "\<exists>u'. compare_position tol now (dict_of or_order_intent_id (list_orders s0))
      (dict_of ep_venue_position_id (list_positions True s0)) x u = (Inr (), u') \<and> position_inv s0 ids (seen @ [x]) u'"
    using known_position_total [OF I new] link_filled_total [OF I new vx] match_unlinked_total [OF I new vx] key
    by (auto simp: compare_position_def db_positions(1) [OF ok] db_orders_lookup [OF ok] bind_eq_Some_conv
        split: option.split)
qed

subsection \<open>Part 3: live orders\<close>

definition live_inv :: "exec_store \<Rightarrow> recon_state \<Rightarrow> uuid list \<Rightarrow> order_record list \<Rightarrow> recon_state \<Rightarrow> bool" where
  "live_inv s0 u ids seen t \<longleftrightarrow> recon_base s0 t \<and>
     es_positions (rc_store t) = es_positions (rc_store u) \<and>
     (\<forall>k. k \<notin> or_order_intent_id ` set seen \<longrightarrow> get_order k (rc_store t) = get_order k (rc_store u)) \<and>
     (clean t \<longrightarrow> clean u \<and> (\<forall>r \<in> set seen. is_live (rc_store t) (or_order_intent_id r) \<longrightarrow> or_order_intent_id r \<in> set ids))"

lemma live_inv_report:
  assumes "live_inv s0 u ids seen t" and "dc_explanation d \<noteq> []"
    and "dc_severity d = MATERIAL \<or> (is_live (rc_store t) (or_order_intent_id x) \<longrightarrow> or_order_intent_id x \<in> set ids)"
  shows "live_inv s0 u ids (seen @ [x]) (t\<lparr>rc_discrepancies := rc_discrepancies t @ [d]\<rparr>)"
  using assms by (auto simp: live_inv_def recon_base_def clean_def)

lemma live_inv_order:
  assumes I: "live_inv s0 u ids seen t" and w: "order_written (or_order_intent_id x) P (rc_store t) st"
    and P: "\<And>y. P y \<Longrightarrow> y \<in> set live_order_states \<Longrightarrow> or_order_intent_id x \<in> set ids"
    and new: "or_order_intent_id x \<notin> or_order_intent_id ` set seen" and d: "dc_explanation d \<noteq> []"
  shows "live_inv s0 u ids (seen @ [x]) (t\<lparr>rc_store := st, rc_discrepancies := rc_discrepancies t @ [d],
    rc_resolved := rc_resolved t + 1\<rparr>)"
proof -
  have ok: "store_ok st" using order_written_store_ok [OF _ w] I by (simp add: live_inv_def recon_base_def)
  have "is_live st (or_order_intent_id x) \<longrightarrow> or_order_intent_id x \<in> set ids"
    using w P by (auto simp: is_live_def order_written_def)
  moreover have "is_live st k = is_live (rc_store t) k" if "k \<noteq> or_order_intent_id x" for k
    using w that by (simp add: is_live_def order_written_def)
  moreover have "\<forall>r \<in> set seen. or_order_intent_id r \<noteq> or_order_intent_id x" using new by (metis image_eqI)
  ultimately show ?thesis
    using I w ok d unfolding live_inv_def
    by (auto simp: recon_base_def clean_def order_written_def)
qed

lemma resolve_live_total:
  assumes I: "live_inv s0 u ids seen t" and x: "get_order (or_order_intent_id x) (rc_store u) = Some x"
    and new: "or_order_intent_id x \<notin> or_order_intent_id ` set seen"
  shows "\<exists>t'. resolve_live_order now ids x t = (Inr (), t') \<and> live_inv s0 u ids (seen @ [x]) t'"
proof -
  let ?k = "or_order_intent_id x"
  have inv: "orders_inv (rc_store t)" using I by (simp add: live_inv_def recon_base_def store_ok_def)
  have get: "get_order ?k (rc_store t) = Some x" using I new x by (simp add: live_inv_def)
  consider (ack) "?k \<in> set ids" "or_state x = OS_SUBMITTED" | (live) "?k \<in> set ids" "or_state x \<noteq> OS_SUBMITTED"
    | (never) "?k \<notin> set ids" "or_state x = OS_SUBMITTED" | (lost) "?k \<notin> set ids" "or_state x \<noteq> OS_SUBMITTED"
    by blast
  then show ?thesis
  proof cases
    case ack
    obtain r st where h: "heal_acknowledged ?k ''ACK inferred from broker open orders at reconciliation'' now (rc_store t) = (Inr r, st)"
      "order_written ?k ((=) OS_ACKNOWLEDGED) (rc_store t) st"
      by (rule heal_acknowledged_writes [OF inv get ack(2)])
    have "on_rc (heal_acknowledged ?k ''ACK inferred from broker open orders at reconciliation'' now) t =
        (Inr r, t\<lparr>rc_store := st\<rparr>)" using h(1) by (rule on_rc_run)
    with live_inv_order [OF I h(2) _ new, of "discrepancy ORDER_ACK_LOST EXPLAINABLE
        ''broker holds the order open but the ACK was never recorded'' (Some ?k) None (Some ''ACKNOWLEDGED'')"]
    show ?thesis using ack by (simp add: resolve_live_order_def discrepancy_def Let_def)
  next
    case live
    then have "live_inv s0 u ids (seen @ [x]) t" using I by (auto simp: live_inv_def)
    then show ?thesis using live by (simp add: resolve_live_order_def Let_def)
  next
    case never
    obtain r st where h: "record_cancelled ?k None (Some ''no venue evidence at reconciliation (never acknowledged)'') now (rc_store t) = (Inr r, st)"
      "order_written ?k ((=) OS_CANCELLED) (rc_store t) st"
      by (rule record_cancelled_writes [OF inv get never(2)])
    then obtain c where c: "get_order ?k st = Some c" "or_state c = OS_CANCELLED" "orders_inv st"
      by (auto simp: order_written_def)
    obtain r' st' where h': "mark_reconciled ?k ''closed at reconciliation: no venue evidence'' now st = (Inr r', st')"
      "order_written ?k (\<lambda>y. y \<in> {OS_RECONCILED, OS_CLOSED, OS_REVIEWED}) st st'"
      by (rule mark_reconciled_writes [OF c(3,1)]) (auto simp: c(2) venue_terminal_states_def)
    have 1: "on_rc (record_cancelled ?k None (Some ''no venue evidence at reconciliation (never acknowledged)'') now) t =
        (Inr r, t\<lparr>rc_store := st\<rparr>)" using h(1) by (rule on_rc_run)
    have 2: "on_rc (mark_reconciled ?k ''closed at reconciliation: no venue evidence'' now) (t\<lparr>rc_store := st\<rparr>) =
        (Inr r', t\<lparr>rc_store := st'\<rparr>)" using on_rc_run [of _ "t\<lparr>rc_store := st\<rparr>"] h'(1) by simp
    have "order_written ?k (\<lambda>y. y \<in> {OS_RECONCILED, OS_CLOSED, OS_REVIEWED}) (rc_store t) st'"
      by (rule order_written_trans [OF h(2) h'(2)])
    from live_inv_order [OF I this _ new, of "discrepancy ORDER_NEVER_ACKNOWLEDGED EXPLAINABLE
        ''submitted order left no trace at the broker, nothing executable'' (Some ?k) None (Some ''CANCELLED -> RECONCILED'')"]
    show ?thesis using never 1 2 by (auto simp: resolve_live_order_def discrepancy_def live_order_states_def Let_def)
  next
    case lost
    then show ?thesis
      by (auto simp: resolve_live_order_def discrepancy_def Let_def intro!: live_inv_report [OF I])
  qed
qed

lemma resolve_live_orders_total:
  assumes base: "recon_base s0 u"
  shows "\<exists>t. for_each (live_orders (rc_store u)) (resolve_live_order now ids) u = (Inr (), t) \<and>
    live_inv s0 u ids (live_orders (rc_store u)) t"
proof (rule for_each_total)
  have ok: "store_ok (rc_store u)" using base by (simp add: recon_base_def)
  show "live_inv s0 u ids [] u" using base by (simp add: live_inv_def)
  fix seen x rest t assume L: "live_orders (rc_store u) = seen @ x # rest" and I: "live_inv s0 u ids seen t"
  have "x \<in> set (live_orders (rc_store u))" by (simp add: L)
  then have x: "get_order (or_order_intent_id x) (rc_store u) = Some x" using live_orders_iff [OF ok] by simp
  have "or_order_intent_id x \<notin> or_order_intent_id ` set seen"
    using live_orders_distinct [OF ok] by (simp add: L)
  from resolve_live_total [OF I x this] show "\<exists>t'. resolve_live_order now ids x t = (Inr (), t') \<and> live_inv s0 u ids (seen @ [x]) t'" .
qed

subsection \<open>Part 4: positions the venue no longer has\<close>

lemma close_missing_total:
  assumes base: "recon_base s0 u" and ent: "\<And>k q. (k, q) \<in> set ps \<Longrightarrow> ep_venue_position_id q = k"
  shows "\<exists>t. for_each ps (close_missing_position now vids) u = (Inr (), t) \<and> recon_base s0 t \<and>
    es_orders (rc_store t) = es_orders (rc_store u) \<and>
    (\<forall>k. k \<in> set vids \<or> k \<notin> fst ` set ps \<longrightarrow> get_position k (rc_store t) = get_position k (rc_store u)) \<and>
    (\<forall>k \<in> fst ` set ps. k \<notin> set vids \<longrightarrow> open_position k (rc_store t) = None) \<and> (clean t \<longrightarrow> clean u)"
proof -
  let ?I = "\<lambda>seen t. recon_base s0 t \<and> es_orders (rc_store t) = es_orders (rc_store u) \<and>
    (\<forall>k. k \<in> set vids \<or> k \<notin> fst ` set seen \<longrightarrow> get_position k (rc_store t) = get_position k (rc_store u)) \<and>
    (\<forall>k \<in> fst ` set seen. k \<notin> set vids \<longrightarrow> open_position k (rc_store t) = None) \<and> (clean t \<longrightarrow> clean u)"
  show ?thesis
  proof (rule for_each_total [of ?I])
    show "?I [] u" using base by simp
    fix seen x rest t assume ps: "ps = seen @ x # rest" and I: "?I seen t"
    obtain k q where x: "x = (k, q)" by (cases x)
    have id: "ep_venue_position_id q = k" using ent ps x by simp
    show "\<exists>t'. close_missing_position now vids x t = (Inr (), t') \<and> ?I (seen @ [x]) t'"
    proof (cases "k \<in> set vids")
      case True
      then show ?thesis using I by (auto simp: x close_missing_position_def)
    next
      case False
      let ?q = "q\<lparr>ep_closed_at := Some now, ep_updated_at := now\<rparr>"
      let ?s = "(rc_store t)\<lparr>es_positions := AList.update k ?q (es_positions (rc_store t))\<rparr>"
      have "store_ok ?s" using I id by (intro upsert_ok) (simp_all add: recon_base_def)
      moreover have "open_position j ?s = (if j = k then None else open_position j (rc_store t))" for j
        by (simp add: open_position_def)
      ultimately show ?thesis
        using I False id by (auto simp: x close_missing_position_def on_rc_run recon_base_def clean_def discrepancy_def)
    qed
  qed
qed

subsection \<open>Part 5: orders that ended\<close>

lemma settle_total:
  assumes base: "recon_base s0 u" and ids: "distinct (map or_order_intent_id rs)"
    and st: "\<And>r. r \<in> set rs \<Longrightarrow> or_state r \<in> set venue_terminal_states \<Longrightarrow>
      \<exists>c. get_order (or_order_intent_id r) (rc_store u) = Some c \<and> or_state c = or_state r"
  shows "\<exists>t. for_each rs (settle_terminal_order now) u = (Inr (), t) \<and> recon_base s0 t \<and>
    es_positions (rc_store t) = es_positions (rc_store u) \<and> (\<forall>k. is_live (rc_store t) k \<longrightarrow> is_live (rc_store u) k) \<and>
    rc_discrepancies t = rc_discrepancies u"
proof -
  let ?I = "\<lambda>seen t. recon_base s0 t \<and> es_positions (rc_store t) = es_positions (rc_store u) \<and>
    (\<forall>k. k \<notin> or_order_intent_id ` set seen \<longrightarrow> get_order k (rc_store t) = get_order k (rc_store u)) \<and>
    (\<forall>k. is_live (rc_store t) k \<longrightarrow> is_live (rc_store u) k) \<and> rc_discrepancies t = rc_discrepancies u"
  have "\<exists>t. for_each rs (settle_terminal_order now) u = (Inr (), t) \<and> ?I rs t"
  proof (rule for_each_total [of ?I])
    show "?I [] u" using base by simp
    fix seen x rest t assume rs: "rs = seen @ x # rest" and I: "?I seen t"
    let ?k = "or_order_intent_id x"
    show "\<exists>t'. settle_terminal_order now x t = (Inr (), t') \<and> ?I (seen @ [x]) t'"
    proof (cases "or_state x \<in> set venue_terminal_states \<and> \<not> material_for_order ?k t")
      case False
      then have "settle_terminal_order now x t = (Inr (), t)" by (simp add: settle_terminal_order_def)
      then show ?thesis using I by auto
    next
      case True
      have "?k \<notin> or_order_intent_id ` set seen" using ids rs by simp
      then obtain c where c: "get_order ?k (rc_store t) = Some c" "or_state c = or_state x"
        using st [of x] True I rs by auto
      have inv: "orders_inv (rc_store t)" using I by (simp add: recon_base_def store_ok_def)
      obtain r st' where h: "mark_reconciled ?k ''consistent with broker at reconciliation'' now (rc_store t) = (Inr r, st')"
        "order_written ?k (\<lambda>y. y \<in> {OS_RECONCILED, OS_CLOSED, OS_REVIEWED}) (rc_store t) st'"
        by (rule mark_reconciled_writes [OF inv c(1)]) (use True c(2) in auto)
      have run: "on_rc (mark_reconciled ?k ''consistent with broker at reconciliation'' now) t = (Inr r, t\<lparr>rc_store := st'\<rparr>)"
        using h(1) by (rule on_rc_run)
      have "store_ok st'" using order_written_store_ok [OF _ h(2)] I by (simp add: recon_base_def)
      moreover have "is_live st' k \<longrightarrow> is_live (rc_store t) k" for k
        using h(2) by (cases "k = ?k") (auto simp: is_live_def order_written_def live_order_states_def)
      ultimately have "?I (seen @ [x]) (t\<lparr>rc_store := st', rc_orders_reconciled := rc_orders_reconciled t + 1\<rparr>)"
        using I h(2) by (auto simp: recon_base_def order_written_def)
      then show ?thesis using True run by (simp add: settle_terminal_order_def)
    qed
  qed
  then show ?thesis by auto
qed

subsection \<open>The whole pass\<close>

definition view_ok :: "broker_view \<Rightarrow> bool" where
  "view_ok v \<longleftrightarrow> distinct (map vp_venue_position_id (bv_positions v)) \<and> list_all valid_venue_position (bv_positions v)"

text \<open>
  Platform and broker agree: every open order of the broker was live, every live order is open at the
  broker, every position of the broker is recorded as open with the same instrument, side
  and quantity, and every open position of the platform exists at the broker.
\<close>

definition agreement :: "exec_store \<Rightarrow> broker_view \<Rightarrow> exec_store \<Rightarrow> bool" where
  "agreement s0 v s \<longleftrightarrow>
     (\<forall>k \<in> set (bv_open_order_intent_ids v). is_live s0 k) \<and>
     (\<forall>k. is_live s k \<longrightarrow> k \<in> set (bv_open_order_intent_ids v)) \<and>
     (\<forall>p \<in> set (bv_positions v). \<exists>q. open_position (vp_venue_position_id p) s = Some q \<and> agrees q p) \<and>
     (\<forall>k q. open_position k s = Some q \<longrightarrow> k \<in> vp_venue_position_id ` set (bv_positions v))"

lemma fresh_recon_base: "store_ok s0 \<Longrightarrow> recon_base s0 (fresh_recon s0) \<and> rc_store (fresh_recon s0) = s0 \<and> clean (fresh_recon s0)"
  by (simp add: recon_base_def fresh_recon_def clean_def)

lemma terminal_states_survive:
  assumes ok: "store_ok s0" and ad: "orders_adopted s0 (rc_store u)"
    and L: "live_inv s0 u ids (live_orders (rc_store u)) t" and oku: "store_ok (rc_store u)"
    and r: "r \<in> set (list_orders s0)" and st: "or_state r \<in> set venue_terminal_states"
  shows "\<exists>c. get_order (or_order_intent_id r) (rc_store t) = Some c \<and> or_state c = or_state r"
proof -
  let ?k = "or_order_intent_id r"
  have g0: "get_order ?k s0 = Some r" using r store_ok_orders(3) [OF ok] by simp
  then obtain c where c: "get_order ?k (rc_store u) = Some c"
    using ad unfolding orders_adopted_def by (metis not_Some_eq)
  have same: "or_state c = or_state r"
  proof -
    have "or_state c = or_state r \<or> or_state r \<in> set live_order_states" using ad c g0 by (auto simp: orders_adopted_def)
    then show ?thesis using st by (auto simp: live_order_states_def venue_terminal_states_def)
  qed
  then have "\<not> is_live (rc_store u) ?k"
    using c st by (auto simp: is_live_def live_order_states_def venue_terminal_states_def)
  then have "?k \<notin> or_order_intent_id ` set (live_orders (rc_store u))" using is_live_iff [OF oku] by simp
  then show ?thesis using L c same by (simp add: live_inv_def)
qed

text \<open>What the five parts establish together, once nothing material was reported.\<close>

lemma agreement_after:
  fixes s0 :: exec_store and view :: broker_view
  defines "ps \<equiv> bv_positions view" and "ids \<equiv> bv_open_order_intent_ids view"
    and "vids \<equiv> map vp_venue_position_id (bv_positions view)"
    and "dp \<equiv> dict_of ep_venue_position_id (list_positions True s0)"
  assumes ok: "store_ok s0" and ok2: "store_ok (rc_store t2)" and c2: "clean t2"
    and pos2: "position_inv s0 ids ps t2"
    and inv3: "live_inv s0 t2 ids (live_orders (rc_store t2)) t3" and c3: "clean t3"
    and ord4: "\<And>k. get_order k (rc_store t4) = get_order k (rc_store t3)"
    and pos4: "\<forall>k. k \<in> set vids \<or> k \<notin> fst ` set dp \<longrightarrow> get_position k (rc_store t4) = get_position k (rc_store t3)"
      "\<forall>k \<in> fst ` set dp. k \<notin> set vids \<longrightarrow> open_position k (rc_store t4) = None"
    and pos5: "es_positions (rc_store t5) = es_positions (rc_store t4)"
    and live5: "\<forall>k. is_live (rc_store t5) k \<longrightarrow> is_live (rc_store t4) k"
  shows "agreement s0 view (rc_store t5)"
proof -
  have live: "\<forall>k. is_live (rc_store t5) k \<longrightarrow> k \<in> set ids"
  proof (intro allI impI)
    fix k assume "is_live (rc_store t5) k"
    then have l3: "is_live (rc_store t3) k" using live5 by (auto simp: is_live_def ord4)
    have "k \<in> or_order_intent_id ` set (live_orders (rc_store t2))"
    proof (rule ccontr)
      assume n: "\<not> ?thesis"
      then have "get_order k (rc_store t3) = get_order k (rc_store t2)" using inv3 by (simp add: live_inv_def)
      then show False using n l3 is_live_iff [OF ok2] by (simp add: is_live_def)
    qed
    then show "k \<in> set ids" using inv3 c3 l3 by (auto simp: live_inv_def)
  qed
  have p3: "get_position k (rc_store t3) = get_position k (rc_store t2)" for k
    using inv3 by (simp add: live_inv_def get_position_def)
  have p5: "get_position k (rc_store t5) = get_position k (rc_store t4)" for k
    using pos5 by (simp add: get_position_def)
  have at: "\<exists>q. open_position (vp_venue_position_id p) (rc_store t5) = Some q \<and> agrees q p" if "p \<in> set ps" for p
  proof -
    have "get_position (vp_venue_position_id p) (rc_store t5) = get_position (vp_venue_position_id p) (rc_store t2)"
      using pos4(1) that p3 p5 by (simp add: vids_def ps_def)
    from open_position_cong [OF this] show ?thesis using pos2 c2 that by (simp add: position_inv_def)
  qed
  have none: "k \<in> set vids" if q: "open_position k (rc_store t5) = Some q" for k q
  proof (rule ccontr)
    assume n: "k \<notin> set vids"
    have o4: "open_position k (rc_store t4) = Some q" using q open_position_cong [OF p5] by metis
    then have "k \<notin> fst ` set dp" using pos4(2) n by auto
    then have "get_position k (rc_store t4) = get_position k s0"
      using pos4(1) p3 pos2 n by (simp add: position_inv_def vids_def ps_def)
    then have "open_position k s0 = Some q" using o4 open_position_cong by metis
    then have "(k, q) \<in> set dp" unfolding dp_def using db_positions(2) [OF ok, of k q] by simp
    with \<open>k \<notin> fst ` set dp\<close> show False by (metis dp_def fst_conv image_eqI)
  qed
  show ?thesis
    unfolding agreement_def using live at none pos2 c2 by (auto simp: position_inv_def ids_def ps_def vids_def)
qed

lemma reconcile_connected_total:
  assumes ok: "store_ok s0" and v: "view_ok view"
  shows "\<exists>t. reconcile_connected tol view now (fresh_recon s0) = (Inr (), t) \<and> recon_base s0 t \<and>
    (clean t \<longrightarrow> agreement s0 view (rc_store t))"
proof -
  let ?ids = "bv_open_order_intent_ids view" and ?ps = "bv_positions view"
  let ?vids = "map vp_venue_position_id ?ps"
  let ?do = "dict_of or_order_intent_id (list_orders s0)"
  let ?dp = "dict_of ep_venue_position_id (list_positions True s0)"
  note f = fresh_recon_base [OF ok]
  obtain t1 where 1: "compare_open_orders ?do ?ids (fresh_recon s0) = (Inr (), t1)" "recon_base s0 t1"
    "rc_store t1 = s0" "clean t1 \<longrightarrow> (\<forall>k \<in> set ?ids. is_live s0 k)"
    using compare_open_orders_total [of s0 "fresh_recon s0" ?ids] f by blast
  obtain t2 where 2: "for_each ?ps (compare_position tol now ?do ?dp) t1 = (Inr (), t2)" "position_inv s0 ?ids ?ps t2"
    using compare_positions_total [OF 1(2,3) ok 1(4), of ?ps tol now] v by (auto simp: view_ok_def)
  have b2: "recon_base s0 t2" and ad: "orders_adopted s0 (rc_store t2)" using 2(2) by (simp_all add: position_inv_def)
  have ok2: "store_ok (rc_store t2)" using b2 by (simp add: recon_base_def)
  obtain t3 where 3: "for_each (live_orders (rc_store t2)) (resolve_live_order now ?ids) t2 = (Inr (), t3)"
    "live_inv s0 t2 ?ids (live_orders (rc_store t2)) t3" using resolve_live_orders_total [OF b2] by blast
  have b3: "recon_base s0 t3" using 3(2) by (simp add: live_inv_def)
  have ent: "(k, q) \<in> set ?dp \<Longrightarrow> ep_venue_position_id q = k" for k q
    using db_positions(2) [OF ok] ok by (auto simp: open_position_iff store_ok_def get_position_def dest: map_of_SomeD)
  obtain t4 where 4: "for_each ?dp (close_missing_position now ?vids) t3 = (Inr (), t4)" "recon_base s0 t4"
    "es_orders (rc_store t4) = es_orders (rc_store t3)"
    "\<forall>k. k \<in> set ?vids \<or> k \<notin> fst ` set ?dp \<longrightarrow> get_position k (rc_store t4) = get_position k (rc_store t3)"
    "\<forall>k \<in> fst ` set ?dp. k \<notin> set ?vids \<longrightarrow> open_position k (rc_store t4) = None" "clean t4 \<longrightarrow> clean t3"
    using close_missing_total [OF b3, of ?dp now ?vids] ent by blast
  have g4: "get_order k (rc_store t4) = get_order k (rc_store t3)" for k using 4(3) by (simp add: get_order_def)
  obtain t5 where 5: "for_each (list_orders s0) (settle_terminal_order now) t4 = (Inr (), t5)" "recon_base s0 t5"
    "es_positions (rc_store t5) = es_positions (rc_store t4)" "\<forall>k. is_live (rc_store t5) k \<longrightarrow> is_live (rc_store t4) k"
    "rc_discrepancies t5 = rc_discrepancies t4"
    using settle_total [OF 4(2) store_ok_orders(2) [OF ok]] terminal_states_survive [OF ok ad 3(2) ok2] g4 by force
  have run: "reconcile_connected tol view now (fresh_recon s0) = (Inr (), t5)"
    using f 1(1) 2(1) 3(1) 4(1) 5(1) by (simp add: reconcile_connected_def db_orders_values [OF ok] seq_run)
  have "agreement s0 view (rc_store t5)" if "clean t5"
  proof -
    have c4: "clean t4" using that 5(5) by (simp add: clean_def)
    then have c3: "clean t3" using 4(6) by simp
    then have c2: "clean t2" using 3(2) by (simp add: live_inv_def)
    show ?thesis by (rule agreement_after [OF ok ok2 c2 2(2) 3(2) c3 g4 4(4,5) 5(3,4)])
  qed
  with run 5(2) show ?thesis by blast
qed

lemma material_count_zero: "material_count ds = 0 \<longleftrightarrow> list_all (\<lambda>d. dc_severity d \<noteq> MATERIAL) ds"
  by (simp add: material_count_def filter_empty_conv list_all_iff)

lemma reconcile_run_connected:
  assumes "reconcile_connected tol view now (fresh_recon st) = (Inr (), t)" and "recon_base st t" and "bv_broker_connected view"
  shows "reconcile tol rid view started now st = (Inr (run_of rid view started now t), rc_store t)"
    and "valid_reconciliation_run (run_of rid view started now t)"
proof -
  show v: "valid_reconciliation_run (run_of rid view started now t)"
    using assms(2) by (simp add: valid_reconciliation_run_def run_of_def recon_base_def)
  then show "reconcile tol rid view started now st = (Inr (run_of rid view started now t), rc_store t)"
    using assms by (simp add: reconcile_def construct_run_def)
qed

lemma reconcile_run_disconnected:
  assumes "\<not> bv_broker_connected view"
  shows "reconcile tol rid view started now st = (Inr (disconnected_run rid view started now), st)"
    and "valid_reconciliation_run (disconnected_run rid view started now)"
proof -
  show "valid_reconciliation_run (disconnected_run rid view started now)"
    by (simp add: valid_reconciliation_run_def disconnected_run_def material_count_def discrepancy_def)
  then show "reconcile tol rid view started now st = (Inr (disconnected_run rid view started now), st)"
    using assms by (simp add: reconcile_def construct_run_def fresh_recon_def)
qed

subsection \<open>Properties\<close>

text \<open>
  C24: reconciliation always completes. On a store that satisfies the accounting invariant and a
  view with distinct, well-formed positions the pass never raises: it returns a run that passes
  its own validation, keeps the store invariant, and changes neither the SAFE_MODE record nor
  the stored runs (the reconciler never changes the trading posture).
\<close>

theorem reconcile_completes:
  assumes "store_ok st" and "view_ok view"
  shows "\<exists>run st'. reconcile tol rid view started now st = (Inr run, st') \<and> valid_reconciliation_run run \<and>
    store_ok st' \<and> es_safe_mode st' = es_safe_mode st \<and> es_runs st' = es_runs st"
proof (cases "bv_broker_connected view")
  case True
  obtain t where t: "reconcile_connected tol view now (fresh_recon st) = (Inr (), t)" "recon_base st t"
    using reconcile_connected_total [OF assms] by blast
  from reconcile_run_connected [OF t True] show ?thesis using t(2) by (auto simp: recon_base_def)
next
  case False
  from reconcile_run_disconnected [OF this] show ?thesis using assms(1) by auto
qed

definition example_view :: broker_view where
  "example_view = \<lparr>bv_positions = [], bv_open_order_intent_ids = [5], bv_broker_connected = True,
     bv_trading_enabled = True, bv_last_sequences = []\<rparr>"

lemma example_store_ok: "store_ok example_store"
proof -
  have "on_grid 2" by (rule on_gridI [of _ "2 * 10 ^ 8"]) simp_all
  then have "order_inv example_order"
    by (simp add: order_inv_def valid_order_record_def order_record_shape_def example_order_def
        live_order_states_def opt_pos_def opt_nonempty_def)
  then have "orders_inv example_store"
    by (simp add: orders_inv_def keyed_def example_store_def empty_store_def get_order_def)
      (simp add: example_order_def)
  then show ?thesis by (simp add: store_ok_def example_store_def empty_store_def)
qed

lemma example_view_ok: "view_ok example_view"
  by (simp add: view_ok_def example_view_def)

theorem reconcile_completes_witness:
  "\<exists>run st'. reconcile default_price_tolerance 9 example_view 200 200 example_store = (Inr run, st') \<and>
     valid_reconciliation_run run"
  using reconcile_completes [OF example_store_ok example_view_ok, of default_price_tolerance 9 200 200] by blast



definition manual_position :: venue_view_position where
  "manual_position = \<lparr>vp_venue_position_id = ''P1'', vp_magic = 0, vp_account_id = ''A'', vp_strategy_id = None,
     vp_instrument_id = ''EURUSD'', vp_side = PS_LONG, vp_quantity = 2, vp_average_entry_price = 1,
     vp_order_intent_id = None\<rparr>"

text \<open>
  An order that is still open at the broker can be healed to \<open>FILLED\<close>. The search for the order
  behind an unlinked position does not exclude orders that the broker reports as open: with one live
  order open at the broker and a manual position of the same instrument, side and size, the pass
  marks the order as filled by that position and reports nothing material.
\<close>

lemma open_order_healed_as_filled:
  "let (result, st') = reconcile default_price_tolerance 9
         (example_view\<lparr>bv_positions := [manual_position]\<rparr>) 200 200 example_store
   in 5 \<in> set (bv_open_order_intent_ids example_view) \<and>
      map_option or_state (get_order 5 st') = Some OS_FILLED \<and>
      (case result of Inr run \<Rightarrow> rr_material_discrepancies run = 0 | Inl _ \<Rightarrow> False)"
  by code_simp

end
