(* ===== verification/Service_Properties.thy ===== *)
theory Service_Properties
  imports Service Reconciler_Properties
begin

text \<open>
  What the execution service guarantees whatever the venue answers. The locale
  \<open>quiet_client\<close> is the interface to the execution client: its operations reach the
  wire and may read anything, but they leave the order store, the emergency controls, the approvals
  and the strategies alone. Under this contract every submission that is handed
  to the client was persisted as SUBMITTED before, and no order intent is handed over twice.
\<close>

section \<open>The contract of the client\<close>

definition same_core :: "'c service \<Rightarrow> 'c service \<Rightarrow> bool" where
  "same_core s s' \<longleftrightarrow> fst s' = fst s \<and> w_engine (snd s') = w_engine (snd s) \<and>
     w_sent (snd s') = w_sent (snd s) \<and> gs_store (w_gate (snd s')) = gs_store (w_gate (snd s)) \<and>
     rg_strategies (w_registry (snd s')) = rg_strategies (w_registry (snd s)) \<and>
     rg_pnl (w_registry (snd s')) = rg_pnl (w_registry (snd s))"

definition quiet :: "('c, 'a) sv_prog \<Rightarrow> bool" where
  "quiet m \<longleftrightarrow> (\<forall>s. same_core s (snd (m s)))"

lemma same_core_refl [simp]: "same_core s s"
  by (simp add: same_core_def)

lemma same_core_trans: "same_core s t \<Longrightarrow> same_core t u \<Longrightarrow> same_core s u"
  by (simp add: same_core_def)

lemma quietD: "quiet m \<Longrightarrow> m s = (r, s') \<Longrightarrow> same_core s s'"
  by (metis quiet_def snd_conv)

locale quiet_client =
  fixes cl :: "'c client"
  assumes submit_quiet: "quiet (cl_submit_order cl a)"
    and cancel_quiet: "quiet (cl_cancel_order cl b)"
    and reconcile_quiet: "quiet (cl_reconcile cl)"
    and resync_quiet: "quiet (cl_resync_sequences cl m)"
    and drain_quiet: "quiet (cl_drain_events cl)"

section \<open>Persisted before it is sent, and sent once\<close>

text \<open>The states an order can be in once it has been submitted.\<close>

definition past_submission :: "order_state \<Rightarrow> bool" where
  "past_submission st \<longleftrightarrow> st \<notin> {OS_CANDIDATE, OS_RISK_REJECTED, OS_APPROVED, OS_ORDER_INTENT}"

definition order_past :: "uuid \<Rightarrow> exec_store \<Rightarrow> bool" where
  "order_past oid st \<longleftrightarrow> (\<exists>r. get_order oid st = Some r \<and> past_submission (or_state r))"

definition persisted_submitted :: "uuid \<Rightarrow> exec_store \<Rightarrow> bool" where
  "persisted_submitted oid st \<longleftrightarrow> (\<exists>r. get_order oid st = Some r \<and> or_state r = OS_SUBMITTED)"

definition sends_ok :: "'c service \<Rightarrow> bool" where
  "sends_ok s \<longleftrightarrow> keyed (w_store (snd s)) \<and>
     distinct (map (\<lambda>x. sa_order_intent_id (fst x)) (w_sent (snd s))) \<and>
     (\<forall>(a, st) \<in> set (w_sent (snd s)). persisted_submitted (sa_order_intent_id a) st \<and>
        order_past (sa_order_intent_id a) (w_store (snd s)))"

lemma past_submission_edge: "order_edge\<^sup>*\<^sup>* a b \<Longrightarrow> past_submission (or_state a) \<Longrightarrow> past_submission (or_state b)"
proof (induction rule: rtranclp_induct)
  case (step b d)
  then show ?case
    by (cases "or_state b"; cases "or_state d") (auto simp: order_edge_def past_submission_def is_valid_order_transition_def)
qed

lemma order_past_evolves: "evolves st st' \<Longrightarrow> order_past oid st \<Longrightarrow> order_past oid st'"
  unfolding order_past_def evolves_def by (meson past_submission_edge)

lemma sends_ok_step:
  assumes "sends_ok s" and "evolves (w_store (snd s)) (w_store (snd s'))" and "w_sent (snd s') = w_sent (snd s)"
  shows "sends_ok s'"
  using assms order_past_evolves [OF assms(2)] unfolding sends_ok_def evolves_def by fastforce

lemma sends_ok_untouched:
  "sends_ok s \<Longrightarrow> w_engine (snd s') = w_engine (snd s) \<Longrightarrow> w_sent (snd s') = w_sent (snd s) \<Longrightarrow> sends_ok s'"
  by (simp add: sends_ok_def w_store_def)

lemma keeps_untouched:
  fixes m :: "('c, 'a) sv_prog"
  assumes "\<And>s. w_engine (snd (snd (m s))) = w_engine (snd s) \<and> w_sent (snd (snd (m s))) = w_sent (snd s)"
  shows "keeps sends_ok m"
proof (rule keepsI)
  fix s :: "'c service" assume "sends_ok s"
  then show "sends_ok (snd (m s))" by (rule sends_ok_untouched) (simp_all add: assms)
qed

lemma keeps_quiet: "quiet m \<Longrightarrow> keeps sends_ok m"
  by (rule keeps_untouched) (simp add: quiet_def same_core_def split_paired_all)

lemma on_world_run: "on_world m (e, w) = (case m w of (r, w') \<Rightarrow> (r, (e, w')))"
  by (simp add: on_world_def zoom_def)

lemma on_engine_run: "on_engine m (e, w) = (case m (w_engine w) of (r, x) \<Rightarrow> (r, (e, w\<lparr>w_engine := x\<rparr>)))"
  by (simp add: on_engine_def on_world_run zoom_def split: prod.split)

lemma on_orders_run:
  "on_orders m (e, w) = (case m (w_store w) of (r, st) \<Rightarrow> (r, (e, w\<lparr>w_engine := (w_engine w)\<lparr>en_store := st\<rparr>\<rparr>)))"
  by (simp add: on_orders_def on_engine_run on_store_def zoom_def w_store_def split: prod.split)

lemma w_store_put [simp]: "w_store (w\<lparr>w_engine := x\<rparr>) = en_store x"
  by (simp add: w_store_def)

definition evolving :: "(exec_store, exn, 'a) prog \<Rightarrow> bool" where
  "evolving m \<longleftrightarrow> (\<forall>s. keyed s \<longrightarrow> evolves s (snd (m s)))"

lemma keeps_on_orders [ot_inv]:
  assumes "evolving m"
  shows "keeps sends_ok (on_orders m)"
proof (rule keepsI)
  fix s :: "'c service" assume ok: "sends_ok s"
  obtain e w where s: "s = (e, w)" by (cases s)
  show "sends_ok (snd (on_orders m s))"
    by (rule sends_ok_step [OF ok]) (use ok assms s in \<open>auto simp: on_orders_run evolving_def sends_ok_def split: prod.split\<close>)
qed

lemma keeps_on_engine:
  assumes "\<And>x. es_orders (en_store (snd (m x))) = es_orders (en_store x)"
  shows "keeps sends_ok (on_engine m)"
proof (rule keepsI)
  fix s :: "'c service" assume ok: "sends_ok s"
  obtain e w where s: "s = (e, w)" by (cases s)
  have "get_order k (en_store (snd (m (w_engine w)))) = get_order k (w_store w)" for k
    using assms [of "w_engine w"] by (simp add: get_order_def w_store_def)
  then have "evolves (w_store w) (en_store (snd (m (w_engine w))))"
    by (auto simp: evolves_def keyed_def)
  then show "sends_ok (snd (on_engine m s))"
    by (intro sends_ok_step [OF ok]) (auto simp: s on_engine_run split: prod.split)
qed

lemma zoom_untouched [ot_inv]: "keeps sends_ok (on_gate m)" "keeps sends_ok (on_registry n)" "keeps sends_ok (next_of f)" "keeps sends_ok (on_em g)"
  by (rule keeps_untouched; auto simp: on_gate_def on_registry_def next_of_def on_em_def on_world_def zoom_def seq_run
      split: prod.split sum.split)+

lemma keeps_clock [ot_inv]: "keeps sends_ok (clock_now c)" "keeps sends_ok (uuid4 c)"
  by (simp_all add: clock_now_def uuid4_def ot_inv)

lemma keeps_applying [ot_inv]: "(\<And>now. evolving (m now)) \<Longrightarrow> keeps sends_ok (applying c m)"
  by (simp add: applying_def ot_inv)

lemma keeps_audit_note [ot_inv]: "keeps sends_ok (audit_note a)"
  by (simp add: audit_note_def send_def keeps_on_engine)

lemma keeps_safe_mode [ot_inv]:
  "keeps sends_ok (on_engine (enter_safe_mode rs n now))" "keeps sends_ok (on_engine (exit_safe_mode n now))"
  "keeps sends_ok (on_engine (assert_allowed a))" "keeps sends_ok (on_engine (send x))"
  by (rule keeps_on_engine; simp add: safe_mode_defs seq_run Let_def split: option.split)+

lemma evolving_ops [ot_inv]:
  "evolving (record_order_intent i v now)" "evolving (record_submitted oid now)"
  "evolving (record_acknowledged oid x y now)" "evolving (record_cancelled oid x z now)"
  "evolving (record_rejected oid reason y now)" "evolving (record_partial_fill oid f now)"
  "evolving (record_fill oid f now)"
  using run_applier_op_evolves [of _ "RecordOrderIntent i v" now] run_applier_op_evolves [of _ "RecordSubmitted oid" now]
    run_applier_op_evolves [of _ "RecordAcknowledged oid x y" now] run_applier_op_evolves [of _ "RecordCancelled oid x z" now]
    run_applier_op_evolves [of _ "RecordRejected oid reason y" now] run_applier_op_evolves [of _ "RecordPartialFill oid f" now]
    run_applier_op_evolves [of _ "RecordFill oid f" now]
  by (simp_all add: evolving_def)

lemma evolves_same_orders: "es_orders s' = es_orders s \<Longrightarrow> evolves s s'"
  by (auto simp: evolves_def keyed_def get_order_def)

lemma evolving_positions [ot_inv]: "evolving (upsert_position p)" "evolving (save_reconciliation_run r)"
  by (auto simp: evolving_def upsert_position_def save_reconciliation_run_def intro: evolves_same_orders)

section \<open>Replies and events keep the discipline\<close>

lemma keeps_apply_reply [ot_inv]: "keeps sends_ok (apply_reply c oid reply)"
  by (cases reply) (auto simp: apply_reply_def apply_ack_def intro!: ot_inv)

lemma keeps_store_snapshot [ot_inv]: "keeps sends_ok (store_snapshot a v)"
  unfolding store_snapshot_def by (intro ot_inv)

lemma keeps_apply_event [ot_inv]: "keeps sends_ok (apply_event c ev)"
  by (cases ev) (auto simp: apply_event_def intro!: ot_inv)

lemma keeps_on_divergence [ot_inv]: "keeps sends_ok (on_divergence c code)"
  unfolding on_divergence_def Let_def by (intro ot_inv)

lemma keeps_on_heartbeat [ot_inv]: "keeps sends_ok (on_heartbeat policy t)"
  unfolding on_heartbeat_def em_send_def by (auto intro!: ot_inv split: prod.split)

lemma keeps_pump_event [ot_inv]: "keeps sends_ok (pump_event c ev)"
proof -
  have other: "keeps sends_ok (handle (apply_event c ev) (\<lambda>e. case e of
            ExecutionDivergenceError code oid \<Rightarrow> seq (on_divergence c code) (\<lambda>_. raise e)
          | _ \<Rightarrow> if is_value_error e then audit_note ''execution.event.skipped'' else raise e))"
    by (rule keeps_handle) (auto intro!: ot_inv split: exn.split)
  then show ?thesis by (cases ev; cases "sc_emergency c") (auto simp: pump_event_def Let_def intro!: ot_inv)
qed

section \<open>Reconciliation moves orders along their lifecycle\<close>

lemma evolving_healing [ot_inv]:
  "evolving (heal_acknowledged oid note now)" "evolving (heal_fill oid pid q p note now)"
  "evolving (adopt_position oid pid note now)" "evolving (mark_reconciled oid note now)"
  using run_applier_op_evolves [of _ "HealAcknowledged oid note" now] run_applier_op_evolves [of _ "HealFill oid pid q p note" now]
    run_applier_op_evolves [of _ "AdoptPosition oid pid note" now] run_applier_op_evolves [of _ "MarkReconciled oid note" now]
  by (simp_all add: evolving_def)

definition recon_evolved :: "exec_store \<Rightarrow> recon_state \<Rightarrow> bool" where
  "recon_evolved s0 t \<longleftrightarrow> evolves s0 (rc_store t) \<and> keyed (rc_store t)"

lemma keeps_on_rc [ot_inv]: "evolving m \<Longrightarrow> keeps (recon_evolved s0) (on_rc m)"
proof (rule keepsI)
  fix s assume m: "evolving m" and s: "recon_evolved s0 s"
  then have "evolves (rc_store s) (snd (m (rc_store s)))" by (simp add: evolving_def recon_evolved_def)
  with s show "recon_evolved s0 (snd (on_rc m s))"
    by (auto simp: recon_evolved_def on_rc_def zoom_def case_prod_unfold intro: evolves_trans evolves_keyed)
qed

lemma keeps_recon_local [ot_inv]:
  "keeps (recon_evolved s0) (report d)" "keeps (recon_evolved s0) count_resolved" "keeps (recon_evolved s0) count_adopted"
  "keeps (recon_evolved s0) (modify (\<lambda>s. s\<lparr>rc_positions_closed := f s\<rparr>))"
  "keeps (recon_evolved s0) (modify (\<lambda>s. s\<lparr>rc_orders_reconciled := g s\<rparr>))"
  by (rule keepsI; simp add: recon_evolved_def)+

lemma keeps_compare_open [ot_inv]: "keeps (recon_evolved s0) (compare_open_orders db ids)"
  unfolding compare_open_orders_def compare_open_order_def by (intro ot_inv)

lemma keeps_adopt_venue [ot_inv]: "keeps (recon_evolved s0) (adopt_venue_position now p oid)"
  unfolding adopt_venue_position_def by (intro ot_inv)

lemma keeps_match_unlinked [ot_inv]: "keeps (recon_evolved s0) (match_unlinked_position now p)"
  unfolding match_unlinked_position_def by (auto intro!: ot_inv split: list.split)

lemma keeps_compare_position [ot_inv]: "keeps (recon_evolved s0) (compare_position tol now db dp p)"
  unfolding compare_position_def compare_known_position_def link_filled_order_def by (intro ot_inv)

lemma keeps_resolve_live [ot_inv]: "keeps (recon_evolved s0) (resolve_live_order now ids r)"
  unfolding resolve_live_order_def Let_def by (intro ot_inv)

lemma keeps_close_missing [ot_inv]: "keeps (recon_evolved s0) (close_missing_position now ids x)"
  unfolding close_missing_position_def Let_def by (auto intro!: ot_inv split: prod.split)

lemma keeps_settle [ot_inv]: "keeps (recon_evolved s0) (settle_terminal_order now r)"
  unfolding settle_terminal_order_def by (intro ot_inv)

lemma keeps_reconcile_connected [ot_inv]: "keeps (recon_evolved s0) (reconcile_connected tol view now)"
proof (rule keepsI)
  fix s assume "recon_evolved s0 s"
  then show "recon_evolved s0 (snd (reconcile_connected tol view now s))"
    unfolding reconcile_connected_def Let_def
    by (rule keepsD [rotated]) (intro ot_inv)
qed

lemma keeps_construct_run [ot_inv]: "keeps P (construct_run r)"
  unfolding construct_run_def by (intro ot_inv)

lemma reconcile_evolving [ot_inv]: "evolving (reconcile tol rid view started now)"
  unfolding evolving_def
proof (intro allI impI)
  fix s assume "keyed s"
  then have base: "recon_evolved s (fresh_recon s)" by (simp add: recon_evolved_def fresh_recon_def)
  let ?pass = "if \<not> bv_broker_connected view then construct_run (disconnected_run rid view started now)
         else seq (reconcile_connected tol view now) (\<lambda>_. seq (reads (run_of rid view started now)) construct_run)"
  have "keeps (recon_evolved s) ?pass" by (intro ot_inv)
  from keepsD [OF this base] show "evolves s (snd (reconcile tol rid view started now s))"
    by (simp add: reconcile_def Let_def recon_evolved_def case_prod_unfold)
qed

section \<open>Persist, then send\<close>

text \<open>
  A triple over the discipline: when the program starts in \<open>P\<close> it either returns in \<open>Q\<close> or raises
  with the discipline intact.
\<close>

definition secures :: "('c service \<Rightarrow> bool) \<Rightarrow> ('c, 'a) sv_prog \<Rightarrow> ('c service \<Rightarrow> bool) \<Rightarrow> bool" where
  "secures P m Q \<longleftrightarrow> (\<forall>s. P s \<longrightarrow> (case m s of (Inl e, s') \<Rightarrow> sends_ok s' | (Inr x, s') \<Rightarrow> Q s'))"

lemma secures_seq: "secures P m Q \<Longrightarrow> (\<And>x. secures Q (k x) R) \<Longrightarrow> secures P (seq m k) R"
  unfolding secures_def seq_run by (fastforce split: prod.splits sum.splits)

lemma secures_keeps:
  fixes m :: "('c, 'a) sv_prog"
  shows "keeps sends_ok m \<longleftrightarrow> secures sends_ok m sends_ok"
proof -
  have "(case r of (Inl e, s') \<Rightarrow> sends_ok s' | (Inr x, s') \<Rightarrow> sends_ok s') = sends_ok (snd r)" for r :: "(exn + 'a) \<times> 'c service"
    by (cases r; cases "fst r") auto
  then show ?thesis by (simp add: secures_def keeps_def)
qed

definition ready :: "uuid \<Rightarrow> 'c service \<Rightarrow> bool" where
  "ready oid s \<longleftrightarrow> sends_ok s \<and> persisted_submitted oid (w_store (snd s)) \<and>
     oid \<notin> set (map (\<lambda>x. sa_order_intent_id (fst x)) (w_sent (snd s)))"

lemma record_order_intent_result:
  assumes "keyed s" and "record_order_intent i v now s = (Inr r, s')"
  shows "\<not> order_past (oi_order_intent_id i) s"
proof (cases "get_order (oi_order_intent_id i) s")
  case None
  then show ?thesis by (simp add: order_past_def)
next
  case (Some c)
  then have "or_state c = OS_ORDER_INTENT \<or> is_valid_order_transition (or_state c) OS_ORDER_INTENT"
    using assms by (auto simp: record_order_intent_def apply_order_run already_processed_def split: if_splits)
  then have "\<not> past_submission (or_state c)"
    by (cases "or_state c") (auto simp: past_submission_def is_valid_order_transition_def)
  then show ?thesis using Some by (simp add: order_past_def)
qed

lemma record_submitted_result:
  assumes "keyed s" and "record_submitted oid now s = (Inr r, s')"
  shows "persisted_submitted oid s'"
proof (cases "get_order oid s")
  case None
  then show ?thesis using assms(2) by (simp add: record_submitted_def apply_order_unknown)
next
  case (Some c)
  have "or_order_intent_id c = oid" using assms(1) Some by (simp add: keyed_def)
  then show ?thesis
    using assms Some
    by (auto simp: record_submitted_def apply_order_run already_processed_def persisted_submitted_def stamp_opt_def
        split: if_splits)
qed

lemma next_of_run: "next_of f (e, w) = (Inr (f (w_ticks w)), (e, w\<lparr>w_ticks := w_ticks w + 1\<rparr>))"
  by (simp add: next_of_def on_world_run)

lemma applying_run:
  "applying c m (e, w) = on_orders (m (sc_clock c (w_ticks w))) (e, w\<lparr>w_ticks := w_ticks w + 1\<rparr>)"
  by (simp add: applying_def clock_now_def seq_run next_of_run)

lemma w_store_ticks [simp]: "w_store (w\<lparr>w_ticks := n\<rparr>) = w_store w" "w_store (w\<lparr>w_sent := x\<rparr>) = w_store w"
  by (simp_all add: w_store_def)

lemma persist_secures: "secures sends_ok (persist_submission c intent venue) (ready (oi_order_intent_id intent))"
  unfolding secures_def
proof (intro allI impI)
  fix s :: "'c service" assume ok: "sends_ok s"
  let ?oid = "oi_order_intent_id intent"
  obtain e w where s: "s = (e, w)" by (cases s)
  have keep: "keeps sends_ok (persist_submission c intent venue)" unfolding persist_submission_def by (intro ot_inv)
  have key: "keyed (w_store w)" using ok s by (simp add: sends_ok_def)
  show "case persist_submission c intent venue s of (Inl e, s') \<Rightarrow> sends_ok s' | (Inr x, s') \<Rightarrow> ready ?oid s'"
  proof -
    obtain res s' where Pair: "persist_submission c intent venue s = (res, s')" by (rule prod.exhaust)
    have ok': "sends_ok s'" by (rule keeps_run [OF keep ok Pair])
    show ?thesis
    proof (cases res)
      case (Inr x)
      obtain r1 st1 where 1: "record_order_intent intent venue (sc_clock c (w_ticks w)) (w_store w) = (Inr r1, st1)"
        and 2: "applying c (record_submitted ?oid) (e, w\<lparr>w_ticks := w_ticks w + 1, w_engine := (w_engine w)\<lparr>en_store := st1\<rparr>\<rparr>) = (Inr x, s')"
        using Pair Inr s by (auto simp: persist_submission_def seq_run applying_run on_orders_run split: prod.splits sum.splits)
      have key1: "keyed st1"
        using evolving_ops(1) key 1 evolves_keyed unfolding evolving_def by (metis snd_conv)
      have "persisted_submitted ?oid (w_store (snd s')) \<and> w_sent (snd s') = w_sent w"
        using 2 record_submitted_result [OF key1] by (auto simp: applying_run on_orders_run split: prod.splits)
      moreover have "?oid \<notin> set (map (\<lambda>x. sa_order_intent_id (fst x)) (w_sent w))"
        using record_order_intent_result [OF key 1] ok s by (auto simp: sends_ok_def)
      ultimately show ?thesis using ok' Pair Inr by (simp add: ready_def)
    qed (use ok' Pair in simp)
  qed
qed

lemma clock_ready: "secures (ready oid) (clock_now c) (ready oid)"
  by (auto simp: secures_def clock_now_def next_of_run ready_def sends_ok_def)

section \<open>Runs of the service\<close>

text \<open>
  Everything that happens to the state, one operation at a time and in any order: the service's
  own operations, the operators of the emergency controller and of the approval gate, and the registry.
  Outcomes are dropped, a failing operation leaves the state it reached.
\<close>

datatype service_op =
    OpSubmit order_intent string bool "price_context option" "risk_decision option"
  | OpDrain
  | OpStartup
  | OpCheckEmergency
  | OpCancelPending string
  | OpFlatten string
  | OpActivate emergency_level "string option" string string
  | OpDeactivate emergency_level "string option" string string
  | OpGate gate_op
  | OpRegistry registry_op

primrec service_step :: "service_config \<Rightarrow> 'c client \<Rightarrow> service_op \<Rightarrow> 'c service \<Rightarrow> 'c service" where
  "service_step c cl (OpSubmit i v a p d) s = snd (submit c cl i v a p d s)"
| "service_step c cl OpDrain s = snd (drain_events c cl s)"
| "service_step c cl OpStartup s = snd (startup_reconciliation c cl s)"
| "service_step c cl OpCheckEmergency s = snd (check_emergency c cl s)"
| "service_step c cl (OpCancelPending r) s = snd (cancel_pending_orders c cl r s)"
| "service_step c cl (OpFlatten r) s = snd (flatten_positions c cl r s)"
| "service_step c cl (OpActivate l t a r) s =
     (case sc_emergency c of
        None \<Rightarrow> s
      | Some policy \<Rightarrow> snd (seq (clock_now c)
          (activate policy (Some (cancel_pending_orders c cl)) (Some (flatten_positions c cl)) l t a r) s))"
| "service_step c cl (OpDeactivate l t a r) s =
     (case sc_emergency c of None \<Rightarrow> s | Some policy \<Rightarrow> snd (seq (clock_now c) (deactivate l t a r) s))"
| "service_step c cl (OpGate g) s =
     (case sc_live_gate c of
        None \<Rightarrow> s
      | Some gate \<Rightarrow> snd (seq (clock_now c) (\<lambda>now. on_gate (gate_step gate (g, now))) s))"
| "service_step c cl (OpRegistry r) s =
     (case sc_live_auto c of
        None \<Rightarrow> s
      | Some lac \<Rightarrow> snd (seq (clock_now c) (\<lambda>now. on_registry (modify (registry_step lac (r, now)))) s))"

definition run_service :: "service_config \<Rightarrow> 'c client \<Rightarrow> service_op list \<Rightarrow> 'c service \<Rightarrow> 'c service" where
  "run_service c cl ops s = fold (service_step c cl) ops s"

lemma keeps_Let [ot_inv]: "(\<And>x. keeps P (f x)) \<Longrightarrow> keeps P (let x = y in f x)"
  by (simp add: Let_def)

lemma keeps_em_send [ot_inv]: "keeps sends_ok (em_send x)"
  unfolding em_send_def by (rule ot_inv)

lemma keeps_em_emit [ot_inv]: "keeps sends_ok (em_emit n a r)"
  unfolding em_emit_def by (intro ot_inv)

lemma keeps_run_callback [ot_inv]:
  "(\<And>f r. cb = Some f \<Longrightarrow> keeps sends_ok (f r)) \<Longrightarrow> keeps sends_ok (run_callback en cb reason action none)"
  by (cases cb) (auto simp: run_callback_def intro!: ot_inv)

lemma keeps_check_dead_man [ot_inv]:
  assumes "\<And>r. keeps sends_ok (f r)"
  shows "keeps sends_ok (check_dead_man policy (Some f) now)"
  unfolding check_dead_man_def by (intro ot_inv) (use assms in auto)

lemma keeps_activate [ot_inv]:
  assumes "\<And>r. keeps sends_ok (f r)" and "\<And>r. keeps sends_ok (g r)"
  shows "keeps sends_ok (activate policy (Some f) (Some g) l t a r now)"
proof (cases "validate_target l t")
  case (Inl e)
  then show ?thesis by (auto simp: activate_def intro!: ot_inv)
next
  case (Inr u)
  show ?thesis
    unfolding activate_def run_emergency_side_effects_def Let_def Inr sum.case
    by (intro ot_inv) (use assms in auto)
qed

lemma keeps_deactivate [ot_inv]: "keeps sends_ok (deactivate l t a r now)"
proof (cases "validate_target l t")
  case (Inl e)
  then show ?thesis by (auto simp: deactivate_def intro!: ot_inv)
next
  case (Inr u)
  then show ?thesis by (auto simp: deactivate_def intro!: ot_inv split: prod.split)
qed

context quiet_client
begin

lemma send_secures: "secures (ready (sa_order_intent_id args)) (send_submit cl args) sends_ok"
  unfolding secures_def
proof (intro allI impI)
  fix s :: "'c service" assume r: "ready (sa_order_intent_id args) s"
  obtain e w where s: "s = (e, w)" by (cases s)
  let ?s1 = "(e, w\<lparr>w_sent := w_sent w @ [(args, w_store w)]\<rparr>)"
  have "sends_ok ?s1"
    using r s by (auto simp: ready_def sends_ok_def persisted_submitted_def order_past_def past_submission_def)
  then have "sends_ok (snd (cl_submit_order cl args ?s1))" by (rule keepsD [OF keeps_quiet [OF submit_quiet]])
  then show "case send_submit cl args s of (Inl e, s') \<Rightarrow> sends_ok s' | (Inr x, s') \<Rightarrow> sends_ok s'"
    by (auto simp: send_submit_def s seq_run on_world_run split: prod.split sum.split)
qed

lemma flatten_position_keeps [ot_inv]: "keeps sends_ok (flatten_position c cl now p)"
proof -
  have rest: "secures sends_ok (seq (apply_reply c oid reply) (\<lambda>_. audit_note x)) sends_ok" for oid reply x
    unfolding secures_keeps [symmetric] by (intro ot_inv)
  have send: "secures sends_ok (seq (persist_submission c intent v) (\<lambda>_. seq (clock_now c) (\<lambda>t.
      seq (send_submit cl (args_of_intent intent (Some (t + seconds 30)) live)) (\<lambda>reply.
      seq (apply_reply c oid reply) (\<lambda>_. audit_note x))))) sends_ok" for intent v oid live x
    by (rule secures_seq [OF persist_secures secures_seq [OF clock_ready secures_seq [OF _ rest]]])
      (use send_secures [of "args_of_intent intent _ live"] in \<open>simp add: args_of_intent_def\<close>)
  show ?thesis
    unfolding flatten_position_def Let_def
    by (rule keeps_seq [OF keeps_clock(2)], rule keeps_seq [OF keeps_clock(2)], rule keeps_seq [OF keeps_guard])
      (use send in \<open>simp add: secures_keeps\<close>)
qed

lemma flatten_positions_keeps [ot_inv]: "keeps sends_ok (flatten_positions c cl r)"
  unfolding flatten_positions_def by (intro ot_inv)

lemma cancel_pending_orders_keeps [ot_inv]: "keeps sends_ok (cancel_pending_orders c cl r)"
  unfolding cancel_pending_orders_def cancel_pending_def
  by (intro ot_inv keeps_quiet [OF cancel_quiet]) (auto intro!: ot_inv split: venue_reply.split)

lemma check_emergency_keeps [ot_inv]: "keeps sends_ok (check_emergency c cl)"
  unfolding check_emergency_def by (intro ot_inv)

lemma drain_events_keeps [ot_inv]: "keeps sends_ok (drain_events c cl)"
  unfolding drain_events_def by (intro ot_inv keeps_quiet [OF drain_quiet])

lemma submit_keeps [ot_inv]: "keeps sends_ok (submit c cl i v a p d)"
proof -
  have rest: "secures sends_ok (seq (apply_reply c oid reply) (\<lambda>_. seq (drain_events c cl) (\<lambda>_.
      seq (reads (\<lambda>(e, w). get_order oid (w_store w))) (\<lambda>stored. case stored of
        None \<Rightarrow> raise (RuntimeError ''order vanished from the store'') | Some record \<Rightarrow> ret record)))) sends_ok" for oid reply
    unfolding secures_keeps [symmetric] by (intro ot_inv)
  have send: "secures sends_ok (seq (persist_submission c i v) (\<lambda>_. seq (send_submit cl (submit_args_of i ap au)) (\<lambda>reply.
      seq (apply_reply c (oi_order_intent_id i) reply) (\<lambda>_. seq (drain_events c cl) (\<lambda>_.
      seq (reads (\<lambda>(e, w). get_order (oi_order_intent_id i) (w_store w))) (\<lambda>stored. case stored of
        None \<Rightarrow> raise (RuntimeError ''order vanished from the store'') | Some record \<Rightarrow> ret record)))))) sends_ok" for ap au
    by (rule secures_seq [OF persist_secures secures_seq [OF _ rest]])
      (use send_secures [of "submit_args_of i ap au"] in \<open>simp add: submit_args_of_def args_of_intent_def\<close>)
  have auth: "keeps sends_ok (authorize c i a p d)"
    unfolding authorize_def by (auto intro!: ot_inv split: option.split)
  have enter: "keeps sends_ok (case sc_emergency c of None \<Rightarrow> ret () | Some _ \<Rightarrow> assert_can_enter x y)" for x y
    unfolding assert_can_enter_def by (intro ot_inv)
  show ?thesis
    unfolding submit_def
    by (rule keeps_seq [OF check_emergency_keeps], rule keeps_seq [OF enter], rule keeps_seq [OF keeps_safe_mode(3)],
        rule keeps_seq [OF keeps_guard], rule keeps_seq [OF auth])
      (use send in \<open>simp add: secures_keeps split: prod.split\<close>)
qed

lemma startup_keeps [ot_inv]: "keeps sends_ok (startup_reconciliation c cl)"
  unfolding startup_reconciliation_def catch_protocol_error_def broker_unreachable_def record_unreachable_run_def
    emit_reconciliation_event_def reconcile_with_def react_to_run_def
  by (intro ot_inv keeps_quiet [OF reconcile_quiet] keeps_quiet [OF resync_quiet]) (auto intro!: ot_inv split: exn.split)

lemma service_step_keeps: "sends_ok s \<Longrightarrow> sends_ok (service_step c cl opn s)"
proof -
  assume s: "sends_ok s"
  have "keeps sends_ok (seq (clock_now c) (activate policy (Some (cancel_pending_orders c cl)) (Some (flatten_positions c cl)) l t a r))"
      "keeps sends_ok (seq (clock_now c) (deactivate l t a r))"
      "keeps sends_ok (seq (clock_now c) (\<lambda>now. on_gate (gate_step gate (g, now))))"
      "keeps sends_ok (seq (clock_now c) (\<lambda>now. on_registry (modify (registry_step lac (ro, now)))))"
    for policy l t a r gate g lac ro
    by (intro ot_inv)+
  then show ?thesis
    using s by (cases opn) (auto intro: keepsD ot_inv split: option.split)
qed

lemma run_service_keeps: "sends_ok s \<Longrightarrow> sends_ok (run_service c cl ops s)"
  unfolding run_service_def by (induction ops arbitrary: s) (simp_all add: service_step_keeps)

end

section \<open>Nothing passes a closed gate\<close>

text \<open>
  The parts of the service that touch neither the approvals nor the client nor the list of sent submissions
  keep every predicate that looks at nothing else.
\<close>

named_theorems frame_inv \<open>preservation of predicates on approvals, client and sent submissions\<close>

definition service_frame :: "('c service \<Rightarrow> bool) \<Rightarrow> bool" where
  "service_frame P \<longleftrightarrow> (\<forall>s s'. w_sent (snd s') = w_sent (snd s) \<longrightarrow> w_gate (snd s') = w_gate (snd s) \<longrightarrow>
     w_client (snd s') = w_client (snd s) \<longrightarrow> P s \<longrightarrow> P s')"

lemma frame_untouched:
  fixes m :: "('c, 'a) sv_prog"
  assumes "service_frame P" and "\<And>s. w_sent (snd (snd (m s))) = w_sent (snd s)"
    and "\<And>s. w_gate (snd (snd (m s))) = w_gate (snd s)" and "\<And>s. w_client (snd (snd (m s))) = w_client (snd s)"
  shows "keeps P m"
proof (rule keepsI)
  fix s :: "'c service" assume "P s"
  then show "P (snd (m s))" using assms(1) assms(2-4) [of s] unfolding service_frame_def by blast
qed

lemma frame_zoom [frame_inv]:
  assumes "service_frame P"
  shows "keeps P (on_registry m2)" "keeps P (next_of f)" "keeps P (on_em g)" "keeps P (on_engine m3)"
  by (rule frame_untouched [OF assms]; auto simp: on_registry_def next_of_def on_em_def on_engine_def on_world_def
      zoom_def seq_run split: prod.split sum.split)+

lemma frame_leaves [frame_inv]:
  assumes "service_frame P"
  shows "keeps P (on_orders m)" "keeps P (clock_now c)" "keeps P (uuid4 c)" "keeps P (audit_note a)" "keeps P (em_send x)"
  unfolding on_orders_def clock_now_def uuid4_def audit_note_def em_send_def by (intro frame_inv assms)+

lemma frame_applying [frame_inv]: "service_frame P \<Longrightarrow> keeps P (applying c m)"
  unfolding applying_def by (intro ot_inv frame_inv)

lemma frame_apply_reply [frame_inv]: "service_frame P \<Longrightarrow> keeps P (apply_reply c oid reply)"
  by (cases reply) (auto simp: apply_reply_def apply_ack_def intro!: frame_inv)

lemma frame_persist [frame_inv]: "service_frame P \<Longrightarrow> keeps P (persist_submission c i v)"
  unfolding persist_submission_def by (intro ot_inv frame_inv)

lemma frame_apply_event [frame_inv]: "service_frame P \<Longrightarrow> keeps P (apply_event c ev)"
  by (cases ev) (auto simp: apply_event_def store_snapshot_def intro!: ot_inv frame_inv)

lemma frame_on_divergence [frame_inv]: "service_frame P \<Longrightarrow> keeps P (on_divergence c code)"
  unfolding on_divergence_def Let_def by (intro ot_inv frame_inv)

lemma frame_pump_event [frame_inv]:
  assumes "service_frame P"
  shows "keeps P (pump_event c ev)"
proof -
  have hb: "keeps P (on_heartbeat policy t)" for policy t
    unfolding on_heartbeat_def by (auto intro!: ot_inv frame_inv assms split: prod.split)
  have other: "keeps P (handle (apply_event c ev) (\<lambda>e. case e of
            ExecutionDivergenceError code oid \<Rightarrow> seq (on_divergence c code) (\<lambda>_. raise e)
          | _ \<Rightarrow> if is_value_error e then audit_note ''execution.event.skipped'' else raise e))"
    by (rule keeps_handle) (auto intro!: ot_inv frame_inv assms split: exn.split)
  then show ?thesis by (cases ev; cases "sc_emergency c") (auto simp: pump_event_def Let_def intro: hb)
qed

lemma frame_run_callback [frame_inv]:
  "service_frame P \<Longrightarrow> (\<And>r. keeps P (g r)) \<Longrightarrow> keeps P (run_callback en (Some g) reason action none)"
  unfolding run_callback_def by (auto intro!: ot_inv frame_inv)

lemma frame_check_dead_man [frame_inv]:
  assumes "service_frame P" and "\<And>r. keeps P (g r)"
  shows "keeps P (check_dead_man policy (Some g) now)"
  unfolding check_dead_man_def by (intro ot_inv frame_inv assms)

lemma frame_check_emergency [frame_inv]:
  assumes "service_frame P" and "\<And>r. keeps P (flatten_positions c cl r)"
  shows "keeps P (check_emergency c cl)"
  unfolding check_emergency_def by (intro ot_inv frame_inv assms)

lemma frame_drain [frame_inv]:
  assumes "service_frame P" and "\<And>r. keeps P (flatten_positions c cl r)" and "keeps P (cl_drain_events cl)"
  shows "keeps P (drain_events c cl)"
  unfolding drain_events_def by (intro ot_inv frame_inv assms)

text \<open>Apart from emergency closures, a submission is sent only by the submit path itself.\<close>

definition closures_only :: "(submit_args \<times> exec_store) list \<Rightarrow> 'c service \<Rightarrow> bool" where
  "closures_only before s \<longleftrightarrow> (\<exists>new. w_sent (snd s) = before @ new \<and>
     list_all (\<lambda>x. sa_strategy_id (fst x) = emergency_strategy_id) new)"

lemma closures_frame [frame_inv]: "service_frame (closures_only b)"
  by (simp add: service_frame_def closures_only_def)

lemma closures_quiet: "quiet m \<Longrightarrow> keeps (closures_only b) m"
  by (rule keepsI) (simp add: closures_only_def quiet_def same_core_def split_paired_all)

context quiet_client
begin

lemma closures_send:
  "sa_strategy_id args = emergency_strategy_id \<Longrightarrow> keeps (closures_only b) (send_submit cl args)"
  unfolding send_submit_def
  by (rule keeps_seq [OF _ closures_quiet [OF submit_quiet]])
    (rule keepsI, auto simp: closures_only_def on_world_run)

lemma closures_flatten [frame_inv]: "keeps (closures_only b) (flatten_positions c cl r)"
  unfolding flatten_positions_def flatten_position_def Let_def
  by (intro ot_inv frame_inv closures_send) (simp add: args_of_intent_def closing_intent_def)

lemma closures_check_emergency [frame_inv]: "keeps (closures_only b) (check_emergency c cl)"
  by (intro frame_inv)

end

text \<open>Everything that has to hold, after the dead man switch was evaluated, for an order to be sent.\<close>

definition mode_authorized ::
    "service_config \<Rightarrow> order_intent \<Rightarrow> bool \<Rightarrow> price_context option \<Rightarrow> risk_decision option \<Rightarrow> instant \<Rightarrow> 'c world \<Rightarrow> bool" where
  "mode_authorized c intent attests price decision now w \<longleftrightarrow>
     (oi_operating_mode intent = OM_LIVE_GATED \<longrightarrow> (\<exists>g p a. sc_live_gate c = Some g \<and> price = Some p \<and>
        fst (consume g attests intent p now (w_gate w)) = Inr a)) \<and>
     (oi_operating_mode intent = OM_LIVE_AUTO \<longrightarrow> (\<exists>lac d p. sc_live_auto c = Some lac \<and> decision = Some d \<and>
        price = Some p \<and> fst (assert_submission_authorized lac intent d p now (w_registry w)) = Inr ()))"

definition gates_open ::
    "service_config \<Rightarrow> 'c client \<Rightarrow> order_intent \<Rightarrow> bool \<Rightarrow> price_context option \<Rightarrow> risk_decision option \<Rightarrow> 'c service \<Rightarrow> bool" where
  "gates_open c cl intent attests price decision s \<longleftrightarrow>
     (case check_emergency c cl s of (r, (e, w)) \<Rightarrow>
        \<not> isl r \<and>
        (sc_emergency c \<noteq> None \<longrightarrow> blocked_reasons (oi_strategy_id intent) (oi_instrument_id intent) e = []) \<and>
        \<not> safe_mode_is_active (w_engine w) \<and> oi_operating_mode intent = sc_operating_mode c \<and>
        mode_authorized c intent attests price decision (sc_clock c (w_ticks w)) w)"

lemma authorize_refuses:
  assumes "\<not> mode_authorized c intent attests price decision (sc_clock c (w_ticks w)) w"
  shows "isl (fst (authorize c intent attests price decision (e, w)))"
proof (cases "oi_operating_mode intent = OM_LIVE_GATED")
  case True
  show ?thesis
  proof (cases "sc_live_gate c = None \<or> price = None")
    case True
    with \<open>oi_operating_mode intent = OM_LIVE_GATED\<close> show ?thesis by (auto simp: authorize_def split: option.split)
  next
    case False
    then obtain g p where gp: "sc_live_gate c = Some g" "price = Some p" by auto
    then obtain x gs where "consume g attests intent p (sc_clock c (w_ticks w)) (w_gate w) = (Inl x, gs)"
      using assms True by (cases "consume g attests intent p (sc_clock c (w_ticks w)) (w_gate w)"; cases "fst (consume g attests intent p (sc_clock c (w_ticks w)) (w_gate w))")
        (auto simp: mode_authorized_def)
    with gp True show ?thesis
      by (simp add: authorize_def clock_now_def seq_run next_of_run on_gate_def on_world_run zoom_def)
  qed
next
  case False
  then have auto: "oi_operating_mode intent = OM_LIVE_AUTO" using assms by (auto simp: mode_authorized_def)
  show ?thesis
  proof (cases "sc_live_auto c = None \<or> decision = None \<or> price = None")
    case True
    with auto show ?thesis by (auto simp: authorize_def split: option.split)
  next
    case False
    then obtain lac d p where gp: "sc_live_auto c = Some lac" "decision = Some d" "price = Some p" by auto
    then obtain x rs where "assert_submission_authorized lac intent d p (sc_clock c (w_ticks w)) (w_registry w) = (Inl x, rs)"
      using assms auto by (cases "assert_submission_authorized lac intent d p (sc_clock c (w_ticks w)) (w_registry w)"; cases "fst (assert_submission_authorized lac intent d p (sc_clock c (w_ticks w)) (w_registry w))")
        (auto simp: mode_authorized_def)
    with gp auto show ?thesis
      by (simp add: authorize_def clock_now_def seq_run next_of_run on_registry_def on_world_run zoom_def)
  qed
qed

lemma closures_authorize: "keeps (closures_only b) (authorize c i a p d)"
proof -
  have "keeps (closures_only b) (on_gate m)" for m :: "'x gate_prog"
    by (rule keepsI) (auto simp: closures_only_def on_gate_def on_world_def zoom_def split: prod.split)
  then show ?thesis unfolding authorize_def by (auto intro!: ot_inv frame_inv split: option.split)
qed

lemma seq_isl: "isl (fst (m s)) \<Longrightarrow> \<exists>e. seq m k s = (Inl e, snd (m s))"
  by (cases "m s"; cases "fst (m s)") auto

context quiet_client
begin

lemma closed_gate_refuses:
  assumes "\<not> gates_open c cl intent attests price decision s"
  shows "isl (fst (submit c cl intent venue attests price decision s)) \<and>
    closures_only (w_sent (snd s)) (snd (submit c cl intent venue attests price decision s))"
proof -
  obtain r e w where ce: "check_emergency c cl s = (r, (e, w))" by (metis prod.exhaust)
  have "closures_only (w_sent (snd s)) s" by (auto simp: closures_only_def)
  then have c1: "closures_only (w_sent (snd s)) (e, w)" using keepsD [OF closures_check_emergency, of _ s c] ce by simp
  show ?thesis
  proof (cases "isl r \<or> (sc_emergency c \<noteq> None \<and> blocked_reasons (oi_strategy_id intent) (oi_instrument_id intent) e \<noteq> []) \<or>
      safe_mode_is_active (w_engine w) \<or> oi_operating_mode intent \<noteq> sc_operating_mode c")
    case True
    then show ?thesis
      using c1 ce by (auto simp: submit_def seq_run assert_can_enter_def on_engine_run assert_allowed_def
          blocked_actions_def safe_mode_is_active_def split: option.split sum.split)
  next
    case False
    then have na: "\<not> mode_authorized c intent attests price decision (sc_clock c (w_ticks w)) w"
      using assms ce by (auto simp: gates_open_def)
    let ?a = "authorize c intent attests price decision (e, w)"
    have "closures_only (w_sent (snd s)) (snd ?a)" by (rule keepsD [OF closures_authorize c1])
    moreover obtain x where "seq (authorize c intent attests price decision) k (e, w) = (Inl x, snd ?a)" for k :: "_ \<Rightarrow> ('c, order_record) sv_prog"
      using seq_isl [where m = "authorize c intent attests price decision" and s = "(e, w)", OF authorize_refuses [OF na]]
      by (metis (no_types, lifting) authorize_refuses fst_conv na seq_Inl sum.collapse(1) surjective_pairing)
    ultimately show ?thesis
      using False ce by (auto simp: submit_def seq_run [of "check_emergency c cl"] assert_can_enter_def on_engine_run assert_allowed_def
          seq_run [of "on_engine m" for m] blocked_actions_def safe_mode_is_active_def split: option.split sum.split)
  qed
qed

end

section \<open>The restart procedure decides the posture\<close>

text \<open>Entering and leaving SAFE_MODE with a note always succeeds on a valid record.\<close>

lemma enter_safe_mode_total:
  assumes "valid_safe_mode_record (get_safe_mode (en_store x))" and "rs \<noteq> []" and "n \<noteq> []"
  shows "\<exists>m x'. enter_safe_mode rs (Some n) now x = (Inr m, x') \<and> sm_active m \<and> get_safe_mode (en_store x') = m \<and>
    set rs \<subseteq> set (sm_reason_codes m) \<and> en_store x' = (en_store x)\<lparr>es_safe_mode := Some m\<rparr>"
  using assms by (auto simp: safe_mode_defs seq_run Let_def valid_safe_mode_record_def or_text_def)

lemma exit_safe_mode_total:
  assumes "n \<noteq> []"
  shows "\<exists>m x'. exit_safe_mode (Some n) now x = (Inr m, x') \<and> \<not> sm_active m \<and> get_safe_mode (en_store x') = m \<and>
    es_orders (en_store x') = es_orders (en_store x) \<and> es_positions (en_store x') = es_positions (en_store x)"
  using assms by (auto simp: safe_mode_defs seq_run Let_def valid_safe_mode_record_def or_text_def)

lemma agreement_cong:
  assumes "es_orders st' = es_orders st" and "es_positions st' = es_positions st"
  shows "agreement s0 v st' = agreement s0 v st"
proof -
  have "is_live st' k = is_live st k" for k
    using assms(1) by (simp add: is_live_def get_order_def)
  moreover have "open_position k st' = open_position k st" for k
    using assms(2) by (simp add: open_position_def get_position_def)
  ultimately show ?thesis by (simp add: agreement_def)
qed

text \<open>The reconciler's own guarantee, for a store and a view that satisfy their invariants.\<close>

lemma reconcile_decides:
  assumes "store_ok st" and "view_ok v"
  shows "\<exists>run st'. reconcile tol rid v started now st = (Inr run, st') \<and> 0 \<le> rr_material_discrepancies run \<and>
    es_safe_mode st' = es_safe_mode st \<and>
    (rr_material_discrepancies run = 0 \<longrightarrow> bv_broker_connected v \<and> agreement st v st')"
proof (cases "bv_broker_connected v")
  case True
  obtain t where t: "reconcile_connected tol v now (fresh_recon st) = (Inr (), t)" "recon_base st t"
    "clean t \<longrightarrow> agreement st v (rc_store t)"
    using reconcile_connected_total [OF assms] by blast
  show ?thesis
    using reconcile_run_connected(1) [OF t(1,2) True] t(2,3) True
    by (auto simp: run_of_def material_count_zero clean_def recon_base_def) (simp_all add: material_count_def)
next
  case False
  then show ?thesis using reconcile_run_disconnected(1) [OF False] by (simp add: disconnected_run_def)
qed

lemma get_safe_mode_runs [simp]: "get_safe_mode (s\<lparr>es_runs := y\<rparr>) = get_safe_mode s"
  by (simp add: get_safe_mode_def)

lemma get_safe_mode_cong: "es_safe_mode s = es_safe_mode t \<Longrightarrow> get_safe_mode s = get_safe_mode t"
  by (simp add: get_safe_mode_def)

context quiet_client
begin

lemma reconcile_with_decides:
  assumes ok: "store_ok (w_store w)" and v: "view_ok view" and sm: "valid_safe_mode_record (get_safe_mode (w_store w))"
    and resync: "\<And>m s. fst (cl_resync_sequences cl m s) = Inr ()"
  shows "\<exists>out e' w'. reconcile_with c cl was view (e, w) = (Inr out, (e', w')) \<and> so_broker_reachable out \<and>
    (so_safe_mode_active out \<longleftrightarrow> safe_mode_is_active (w_engine w')) \<and>
    (so_safe_mode_active out \<longleftrightarrow> 0 < so_material_discrepancies out) \<and>
    (\<not> so_safe_mode_active out \<longrightarrow> bv_broker_connected view \<and> agreement (w_store w) view (w_store w'))"
proof -
  let ?w3 = "w\<lparr>w_ticks := w_ticks w + 3\<rparr>"
  obtain run st' where rec: "reconcile (sc_price_tolerance c) (sc_uuid4 c (w_ticks w + 1)) view (sc_clock c (w_ticks w))
      (sc_clock c (w_ticks w + 2)) (w_store w) = (Inr run, st')" "0 \<le> rr_material_discrepancies run"
      "es_safe_mode st' = es_safe_mode (w_store w)"
      "rr_material_discrepancies run = 0 \<longrightarrow> bv_broker_connected view \<and> agreement (w_store w) view st'"
    using reconcile_decides [OF ok v] by blast
  let ?w4 = "?w3\<lparr>w_engine := (w_engine w)\<lparr>en_store := st'\<rparr>\<rparr>"
  obtain e5 w5 where rs: "cl_resync_sequences cl (bv_last_sequences view) (e, ?w4) = (Inr (), (e5, w5))"
    using resync [of "bv_last_sequences view" "(e, ?w4)"] by (metis prod.collapse)
  have w5: "w_engine w5 = (w_engine w)\<lparr>en_store := st'\<rparr>" using quietD [OF resync_quiet rs] by (simp add: same_core_def)
  have gs: "get_safe_mode st' = get_safe_mode (w_store w)" by (rule get_safe_mode_cong [OF rec(3)])
  have run: "reconcile_with c cl was view (e, w) = seq (react_to_run c was run) (\<lambda>run.
     seq (on_orders (save_reconciliation_run run)) (\<lambda>_.
     seq (emit_reconciliation_event (0 < rr_material_discrepancies run)) (\<lambda>_.
     seq (audit_note ''reconciliation.run'') (\<lambda>_.
     reads (\<lambda>(e, w). \<lparr>so_run_id = rr_run_id run, so_broker_reachable = True,
        so_safe_mode_active = safe_mode_is_active (w_engine w),
        so_safe_mode_reason_codes = sm_reason_codes (get_safe_mode (w_store w)),
        so_material_discrepancies = rr_material_discrepancies run,
        so_orders_reconciled = rr_orders_reconciled run\<rparr>))))) (e5, w5)"
    using rec(1) rs by (simp add: reconcile_with_def clock_now_def uuid4_def seq_run next_of_run on_orders_run add.commute numeral_3_eq_3)
  show ?thesis
  proof (cases "0 < rr_material_discrepancies run")
    case True
    obtain m x' where "enter_safe_mode [safe_mode_reason_value SMR_RECONCILIATION_DIVERGENCE]
         (Some ''material discrepancies at startup'') (sc_clock c (w_ticks w5)) (w_engine w5) = (Inr m, x')"
        "sm_active m" "get_safe_mode (en_store x') = m"
      using enter_safe_mode_total [of "w_engine w5" "[safe_mode_reason_value SMR_RECONCILIATION_DIVERGENCE]"
          "''material discrepancies at startup''" "sc_clock c (w_ticks w5)"] sm gs w5 by auto
    then show ?thesis
      using True w5 by (simp add: run react_to_run_def clock_now_def seq_run next_of_run on_engine_run on_orders_run
          save_reconciliation_run_def emit_reconciliation_event_def audit_note_def send_def safe_mode_is_active_def)
  next
    case False
    then have z: "rr_material_discrepancies run = 0" using rec(2) by simp
    obtain m x' where ex: "exit_safe_mode (Some ''clean startup reconciliation'') (sc_clock c (w_ticks w5)) (w_engine w5) = (Inr m, x')"
        "\<not> sm_active m" "get_safe_mode (en_store x') = m" "es_orders (en_store x') = es_orders st'" "es_positions (en_store x') = es_positions st'"
      using exit_safe_mode_total [of "''clean startup reconciliation''" "sc_clock c (w_ticks w5)" "w_engine w5"] w5 by auto
    have "agreement (w_store w) view ((en_store x')\<lparr>es_runs := y\<rparr>)" for y
      using rec(4) z agreement_cong [of "(en_store x')\<lparr>es_runs := y\<rparr>" st'] ex(4,5) by simp
    with ex z rec(4) show ?thesis
      by (simp add: run react_to_run_def clock_now_def seq_run next_of_run on_engine_run on_orders_run
          save_reconciliation_run_def emit_reconciliation_event_def audit_note_def send_def safe_mode_is_active_def)
  qed
qed

lemma startup_decides:
  assumes ce: "check_emergency c cl (e, w\<lparr>w_ticks := w_ticks w + 1\<rparr>) = (Inr (), (e1, w1))"
    and ok: "store_ok (w_store w1)" and sm: "valid_safe_mode_record (get_safe_mode (w_store w1))"
    and rc: "cl_reconcile cl (e1, w1) = (Inr r, (e2, w2))" and v: "view_ok (broker_view_of r)"
    and resync: "\<And>m s. fst (cl_resync_sequences cl m s) = Inr ()"
  shows "\<exists>out e' w'. startup_reconciliation c cl (e, w) = (Inr out, (e', w')) \<and> so_broker_reachable out \<and>
    (so_safe_mode_active out \<longleftrightarrow> safe_mode_is_active (w_engine w')) \<and>
    (so_safe_mode_active out \<longleftrightarrow> 0 < so_material_discrepancies out) \<and>
    (\<not> so_safe_mode_active out \<longrightarrow> rs_broker_connected r \<and> agreement (w_store w1) (broker_view_of r) (w_store w'))"
proof -
  have same: "w_store w2 = w_store w1" using quietD [OF reconcile_quiet rc] by (simp add: same_core_def w_store_def)
  have "startup_reconciliation c cl (e, w) = reconcile_with c cl (sm_active (get_safe_mode (w_store w1))) (broker_view_of r) (e2, w2)"
    using ce rc by (simp add: startup_reconciliation_def catch_protocol_error_def handle_def clock_now_def seq_run next_of_run)
  then show ?thesis
    using reconcile_with_decides [OF _ v _ resync, of w2] ok sm same by (simp add: broker_view_of_def)
qed

lemma startup_unreachable:
  assumes ce: "check_emergency c cl (e, w\<lparr>w_ticks := w_ticks w + 1\<rparr>) = (Inr (), (e1, w1))"
    and sm: "valid_safe_mode_record (get_safe_mode (w_store w1))"
    and rc: "cl_reconcile cl (e1, w1) = (Inl (Mt4ProtocolError msg), (e2, w2))"
  shows "\<exists>out e' w'. startup_reconciliation c cl (e, w) = (Inr out, (e', w')) \<and> \<not> so_broker_reachable out \<and>
    so_safe_mode_active out \<and> safe_mode_is_active (w_engine w') \<and>
    safe_mode_reason_value SMR_BROKER_UNREACHABLE \<in> set (so_safe_mode_reason_codes out)"
proof -
  have same: "w_store w2 = w_store w1" using quietD [OF reconcile_quiet rc] by (simp add: same_core_def w_store_def)
  let ?run = "unreachable_run (sc_uuid4 c (w_ticks w2)) (sc_clock c (w_ticks w)) (sc_clock c (w_ticks w2 + 1))"
  let ?x = "(w_engine w2)\<lparr>en_store := (w_store w2)\<lparr>es_runs := es_runs (w_store w2) @ [?run]\<rparr>\<rparr>"
  obtain m x' where "enter_safe_mode [safe_mode_reason_value SMR_BROKER_UNREACHABLE]
       (Some ''startup reconciliation could not reach the broker'') (sc_clock c (w_ticks w2 + 2)) ?x = (Inr m, x')"
      "sm_active m" "get_safe_mode (en_store x') = m" "safe_mode_reason_value SMR_BROKER_UNREACHABLE \<in> set (sm_reason_codes m)"
    using enter_safe_mode_total [of ?x "[safe_mode_reason_value SMR_BROKER_UNREACHABLE]"
        "''startup reconciliation could not reach the broker''" "sc_clock c (w_ticks w2 + 2)"] sm same by auto
  then show ?thesis
    using ce rc by (simp add: startup_reconciliation_def catch_protocol_error_def handle_def clock_now_def uuid4_def seq_run next_of_run
        broker_unreachable_def record_unreachable_run_def on_engine_run on_orders_run save_reconciliation_run_def
        emit_reconciliation_event_def send_def safe_mode_is_active_def)
qed

end

end
