(* ===== verification/Mt4_Client.thy ===== *)
theory Mt4_Client
  imports Mt4_Bridge Service_Properties
begin

text \<open>
  The Core side of the wire: \<open>Mt4ExecutionClient\<close> of \<^verbatim>\<open>adapters/mt4/client.py\<close> with the
  \<open>ConnectionMonitor\<close> of \<^verbatim>\<open>adapters/mt4/transport.py\<close>.

  The sockets are a state of their own: \<open>mc_frames\<close> is what was written to the command
  socket, \<open>mc_inbox\<close> what waits in the event socket, where a frame that does not parse
  is the exception that reading it raises. What comes back on the command socket is given by
  the parameter \<open>cc_exchange\<close>, an arbitrary function of everything sent so
  far: a reply, or the exception of a timeout or of a malformed frame.
  The authorizers are programs over the whole state of the service.
\<close>

section \<open>Connection health\<close>

datatype connection_health = CONNECTED | DEGRADED | DOWN

record client_state =
  mc_connected :: bool
  mc_last_heartbeat :: "instant option"
  mc_connected_at :: "instant option"
  mc_sequences :: "(string, int) dict"
  mc_frames :: "command list"
  mc_inbox :: "(exn + wire_event) list"

type_synonym 'a cl_prog = "(client_state, 'a) sv_prog"

record client_config =
  cc_operating_mode :: operating_mode
  cc_degraded_after :: duration
  cc_down_after :: duration
  cc_live_authorizer :: "(order_intent \<Rightarrow> client_state service \<Rightarrow> (exn + unit) \<times> client_state service) option"
  cc_live_mutation_authorizer :: "(command \<Rightarrow> client_state service \<Rightarrow> (exn + unit) \<times> client_state service) option"
  cc_checksum :: "command \<Rightarrow> string"
  cc_exchange :: "command list \<Rightarrow> exn + wire_reply"

definition valid_monitor :: "client_config \<Rightarrow> bool" where
  "valid_monitor k \<longleftrightarrow> 0 < cc_degraded_after k \<and> cc_degraded_after k < cc_down_after k"

definition client_init :: "client_config \<Rightarrow> exn + client_config" where
  "client_init k =
     (if cc_operating_mode k = OM_LIVE_GATED \<and> cc_live_authorizer k = None
      then Inl (ValueError ''LIVE_GATED MT4 client requires a live approval authorizer'')
      else if cc_operating_mode k = OM_LIVE_AUTO \<and> cc_live_authorizer k = None
      then Inl (ValueError ''LIVE_AUTO MT4 client requires a live order authorizer'')
      else if \<not> valid_monitor k then Inl (ValueError ''require 0 < degraded_after < down_after'')
      else Inr k)"

definition mark_connected :: "instant \<Rightarrow> client_state \<Rightarrow> client_state" where
  "mark_connected now m = m\<lparr>mc_connected_at := Some now, mc_last_heartbeat := None\<rparr>"

definition monitor_heartbeat :: "instant \<Rightarrow> client_state \<Rightarrow> client_state" where
  "monitor_heartbeat now m = m\<lparr>mc_last_heartbeat := Some now\<rparr>"

definition monitor_state :: "client_config \<Rightarrow> instant \<Rightarrow> client_state \<Rightarrow> connection_health" where
  "monitor_state k now m =
     (case (case mc_last_heartbeat m of Some t \<Rightarrow> Some t | None \<Rightarrow> mc_connected_at m) of
        None \<Rightarrow> DOWN
      | Some reference \<Rightarrow>
          if cc_down_after k \<le> now - reference then DOWN
          else if cc_degraded_after k \<le> now - reference then DEGRADED
          else CONNECTED)"

definition block_new_commands :: "client_config \<Rightarrow> instant \<Rightarrow> client_state \<Rightarrow> bool" where
  "block_new_commands k now m \<longleftrightarrow> monitor_state k now m = DOWN"

definition on_client :: "(client_state, exn, 'a) prog \<Rightarrow> 'a cl_prog" where
  "on_client m = on_world (zoom w_client (\<lambda>x w. w\<lparr>w_client := x\<rparr>) m)"

definition connect :: "service_config \<Rightarrow> unit cl_prog" where
  "connect c =
     seq (on_client (reads mc_connected)) (\<lambda>connected.
     seq (guard (\<not> connected) (RuntimeError ''client already connected'')) (\<lambda>_.
     seq (clock_now c) (\<lambda>now.
     on_client (modify (\<lambda>m. mark_connected now (m\<lparr>mc_connected := True\<rparr>))))))"

definition close :: "unit cl_prog" where
  "close = on_client (modify (\<lambda>m. m\<lparr>mc_connected := False\<rparr>))"

definition connection_health_now :: "service_config \<Rightarrow> client_config \<Rightarrow> connection_health cl_prog" where
  "connection_health_now c k =
     seq (clock_now c) (\<lambda>now. on_client (reads (monitor_state k now)))"

definition protocol_error :: "mt4_error_code \<Rightarrow> exn" where
  "protocol_error code = Mt4ProtocolError (mt4_error_value code)"

section \<open>The command channel\<close>

definition sequence_of :: "string \<Rightarrow> client_state \<Rightarrow> int" where
  "sequence_of sid m = (case map_of (mc_sequences m) sid of None \<Rightarrow> 0 | Some n \<Rightarrow> n)"

definition next_sequence :: "string \<Rightarrow> int cl_prog" where
  "next_sequence sid = on_client
     (seq (modify (\<lambda>m. m\<lparr>mc_sequences := AList.update sid (sequence_of sid m + 1) (mc_sequences m)\<rparr>)) (\<lambda>_.
      reads (sequence_of sid)))"

definition resync_sequences :: "(string, int) dict \<Rightarrow> unit cl_prog" where
  "resync_sequences mapping = for_each mapping (\<lambda>(sid, last).
     on_client (modify (\<lambda>m. m\<lparr>mc_sequences := AList.update sid (max (sequence_of sid m) last) (mc_sequences m)\<rparr>)))"

definition send_command :: "service_config \<Rightarrow> client_config \<Rightarrow> command \<Rightarrow> reply_body cl_prog" where
  "send_command c k command =
     seq (on_client (reads mc_connected)) (\<lambda>connected.
     seq (guard connected (protocol_error NOT_CONNECTED)) (\<lambda>_.
     seq (clock_now c) (\<lambda>now.
     seq (on_client (reads (block_new_commands k now))) (\<lambda>blocked.
     seq (guard (\<not> blocked) (protocol_error NOT_CONNECTED)) (\<lambda>_.
     seq (on_client (modify (\<lambda>m. m\<lparr>mc_frames := mc_frames m @ [with_checksum (cc_checksum k) command]\<rparr>))) (\<lambda>_.
     seq (on_client (reads (\<lambda>m. cc_exchange k (mc_frames m)))) (\<lambda>answer.
     case answer of
       Inl e \<Rightarrow> raise e
     | Inr reply \<Rightarrow>
         seq (guard (wr_correlation_id reply = Some (cmd_message_id command)) (protocol_error SCHEMA_INVALID)) (\<lambda>_.
         if wr_body reply = ReplyHeartbeat
         then seq (clock_now c) (\<lambda>t. seq (on_client (modify (monitor_heartbeat t))) (\<lambda>_. ret (wr_body reply)))
         else ret (wr_body reply)))))))))"

definition expect_order_reply :: "reply_body \<Rightarrow> venue_reply cl_prog" where
  "expect_order_reply body =
     (case body of ReplyOrder r \<Rightarrow> ret r | _ \<Rightarrow> raise (protocol_error INTERNAL_ERROR))"

text \<open>Constructing a command validates it.\<close>

definition construct_command :: "command \<Rightarrow> command cl_prog" where
  "construct_command command =
     (if valid_command command then ret command else raise (ValueError ''CommandMessage''))"

definition intent_matches_args :: "order_intent \<Rightarrow> submit_args \<Rightarrow> bool" where
  "intent_matches_args i a \<longleftrightarrow>
     oi_order_intent_id i = sa_order_intent_id a \<and> oi_strategy_id i = sa_strategy_id a \<and>
     oi_strategy_version i = sa_strategy_version a \<and> oi_instrument_id i = sa_symbol a \<and>
     oi_side i = sa_side a \<and> oi_quantity i = sa_quantity a \<and> oi_order_type i = sa_order_type a \<and>
     oi_price i = sa_price a \<and> oi_stop_loss i = sa_stop_loss a \<and> oi_take_profit i = sa_take_profit a \<and>
     oi_max_slippage i = sa_max_slippage a \<and> oi_time_in_force i = GTC"

definition authorize_submission :: "client_config \<Rightarrow> submit_args \<Rightarrow> unit cl_prog" where
  "authorize_submission k a =
     (if cc_operating_mode k \<in> {OM_LIVE_GATED, OM_LIVE_AUTO} then
        (case (cc_live_authorizer k, sa_live_intent a) of
           (Some authorizer, Some intent) \<Rightarrow>
             seq (guard (intent_matches_args intent a) (protocol_error INTERNAL_ERROR)) (\<lambda>_. authorizer intent)
         | _ \<Rightarrow> raise (protocol_error INTERNAL_ERROR))
      else ret ())"

text \<open>
  The keyword arguments of a command are evaluated in order: identifier, time stamp, sequence
  number, expiry. The sequence number is taken before the command is validated or sent.
\<close>

definition blank_command :: "command_type \<Rightarrow> uuid \<Rightarrow> instant \<Rightarrow> int \<Rightarrow> string \<Rightarrow> string \<Rightarrow> command" where
  "blank_command ty mid now n sid version =
     \<lparr>cmd_type = ty, cmd_message_id = mid, cmd_trace_id = None, cmd_timestamp = now, cmd_sequence = n,
      cmd_correlation_id = None, cmd_checksum = None, cmd_order_intent_id = None, cmd_strategy_id = sid,
      cmd_strategy_version = version, cmd_expires_at = None, cmd_symbol = None, cmd_side = None,
      cmd_quantity = None, cmd_order_type = None, cmd_price = None, cmd_stop_loss = None,
      cmd_take_profit = None, cmd_max_slippage = 0, cmd_time_in_force = GTC, cmd_reason = None,
      cmd_new_price = None, cmd_new_stop_loss = None, cmd_new_take_profit = None\<rparr>"

definition client_submit_order :: "service_config \<Rightarrow> client_config \<Rightarrow> submit_args \<Rightarrow> venue_reply cl_prog" where
  "client_submit_order c k a =
     seq (authorize_submission k a) (\<lambda>_.
     seq (uuid4 c) (\<lambda>mid.
     seq (clock_now c) (\<lambda>now.
     seq (next_sequence (sa_strategy_id a)) (\<lambda>n.
     seq (case sa_expires_at a of Some t \<Rightarrow> ret t | None \<Rightarrow> seq (clock_now c) (\<lambda>t. ret (t + seconds 30))) (\<lambda>expires.
     seq (construct_command ((blank_command SUBMIT_ORDER mid now n (sa_strategy_id a) (sa_strategy_version a))
        \<lparr>cmd_trace_id := sa_trace_id a, cmd_order_intent_id := Some (sa_order_intent_id a),
         cmd_expires_at := Some expires, cmd_symbol := Some (sa_symbol a), cmd_side := Some (sa_side a),
         cmd_quantity := Some (sa_quantity a), cmd_order_type := Some (sa_order_type a),
         cmd_price := sa_price a, cmd_stop_loss := sa_stop_loss a, cmd_take_profit := sa_take_profit a,
         cmd_max_slippage := sa_max_slippage a, cmd_time_in_force := GTC\<rparr>)) (\<lambda>command.
     seq (send_command c k command) expect_order_reply))))))"

definition assert_mutation :: "client_config \<Rightarrow> command \<Rightarrow> unit cl_prog" where
  "assert_mutation k command =
     (if cc_operating_mode k \<notin> {OM_LIVE_GATED, OM_LIVE_AUTO} then ret ()
      else case cc_live_mutation_authorizer k of
             None \<Rightarrow> raise (protocol_error INTERNAL_ERROR)
           | Some authorizer \<Rightarrow> authorizer command)"

definition client_cancel_order :: "service_config \<Rightarrow> client_config \<Rightarrow> cancel_args \<Rightarrow> venue_reply cl_prog" where
  "client_cancel_order c k a =
     seq (uuid4 c) (\<lambda>mid.
     seq (clock_now c) (\<lambda>now.
     seq (next_sequence (ca_strategy_id a)) (\<lambda>n.
     seq (clock_now c) (\<lambda>t.
     seq (construct_command ((blank_command CANCEL_ORDER mid now n (ca_strategy_id a) (ca_strategy_version a))
        \<lparr>cmd_order_intent_id := Some (ca_order_intent_id a), cmd_expires_at := Some (t + seconds 30),
         cmd_symbol := Some (ca_symbol a), cmd_side := Some (ca_side a),
         cmd_quantity := Some (ca_quantity a), cmd_order_type := Some (ca_order_type a),
         cmd_reason := Some (ca_reason a)\<rparr>)) (\<lambda>command.
     seq (assert_mutation k command) (\<lambda>_.
     seq (send_command c k command) expect_order_reply))))))"

record modify_args =
  ma_order_intent_id :: uuid
  ma_strategy_id :: string
  ma_strategy_version :: string
  ma_symbol :: string
  ma_side :: order_side
  ma_quantity :: decimal
  ma_order_type :: order_type
  ma_new_price :: "decimal option"
  ma_new_stop_loss :: "decimal option"
  ma_new_take_profit :: "decimal option"

definition client_modify_order :: "service_config \<Rightarrow> client_config \<Rightarrow> modify_args \<Rightarrow> venue_reply cl_prog" where
  "client_modify_order c k a =
     seq (uuid4 c) (\<lambda>mid.
     seq (clock_now c) (\<lambda>now.
     seq (next_sequence (ma_strategy_id a)) (\<lambda>n.
     seq (clock_now c) (\<lambda>t.
     seq (construct_command ((blank_command MODIFY_ORDER mid now n (ma_strategy_id a) (ma_strategy_version a))
        \<lparr>cmd_order_intent_id := Some (ma_order_intent_id a), cmd_expires_at := Some (t + seconds 30),
         cmd_symbol := Some (ma_symbol a), cmd_side := Some (ma_side a),
         cmd_quantity := Some (ma_quantity a), cmd_order_type := Some (ma_order_type a),
         cmd_new_price := ma_new_price a, cmd_new_stop_loss := ma_new_stop_loss a,
         cmd_new_take_profit := ma_new_take_profit a\<rparr>)) (\<lambda>command.
     seq (assert_mutation k command) (\<lambda>_.
     seq (send_command c k command) expect_order_reply))))))"

definition client_reconcile :: "service_config \<Rightarrow> client_config \<Rightarrow> reconciliation_response cl_prog" where
  "client_reconcile c k =
     seq (uuid4 c) (\<lambda>mid.
     seq (clock_now c) (\<lambda>now.
     seq (next_sequence ''CORE'') (\<lambda>n.
     seq (construct_command (blank_command RECONCILIATION_REQUEST mid now n ''CORE'' ''CORE'')) (\<lambda>command.
     seq (send_command c k command) (\<lambda>body.
     case body of ReplyReconciliation r \<Rightarrow> ret r | _ \<Rightarrow> raise (protocol_error INTERNAL_ERROR))))))"

section \<open>The event channel\<close>

definition poll_event :: "service_config \<Rightarrow> wire_event option cl_prog" where
  "poll_event c =
     seq (on_client (reads (\<lambda>m. if mc_connected m then mc_inbox m else []))) (\<lambda>inbox.
     case inbox of
       [] \<Rightarrow> ret None
     | raw # rest \<Rightarrow>
         seq (on_client (modify (\<lambda>m. m\<lparr>mc_inbox := rest\<rparr>))) (\<lambda>_.
         case raw of
           Inl e \<Rightarrow> raise e
         | Inr (HeartbeatEvent t) \<Rightarrow>
             seq (clock_now c) (\<lambda>now. seq (on_client (modify (monitor_heartbeat now))) (\<lambda>_.
               ret (Some (HeartbeatEvent t))))
         | Inr ev \<Rightarrow> ret (Some ev)))"

text \<open>
  The loop runs until a poll finds nothing; one round more than there are frames waiting is enough.
\<close>

primrec drain_loop :: "service_config \<Rightarrow> nat \<Rightarrow> wire_event list \<Rightarrow> wire_event list cl_prog" where
  "drain_loop c 0 events = ret events"
| "drain_loop c (Suc n) events =
     seq (poll_event c) (\<lambda>ev. case ev of None \<Rightarrow> ret events | Some e \<Rightarrow> drain_loop c n (events @ [e]))"

definition client_drain_events :: "service_config \<Rightarrow> wire_event list cl_prog" where
  "client_drain_events c =
     seq (on_client (reads (\<lambda>m. length (mc_inbox m)))) (\<lambda>n. drain_loop c (Suc n) [])"

definition mt4_client :: "service_config \<Rightarrow> client_config \<Rightarrow> client_state client" where
  "mt4_client c k = \<lparr>cl_submit_order = client_submit_order c k, cl_cancel_order = client_cancel_order c k,
     cl_reconcile = client_reconcile c k, cl_resync_sequences = resync_sequences,
     cl_drain_events = client_drain_events c\<rparr>"

section \<open>The client keeps its contract\<close>

named_theorems quiet_inv \<open>programs that leave the core state alone\<close>

lemma quiet_leaves [quiet_inv]: "quiet (ret x)" "quiet (raise e)" "quiet (guard b e)" "quiet (reads f)"
  by (simp_all add: quiet_def)

lemma quiet_seq [quiet_inv]: "quiet m \<Longrightarrow> (\<And>x. quiet (f x)) \<Longrightarrow> quiet (seq m f)"
  unfolding quiet_def
proof
  fix s assume m: "\<forall>s. same_core s (snd (m s))" and f: "\<And>x. \<forall>s. same_core s (snd (f x s))"
  obtain r s' where r: "m s = (r, s')" by (rule prod.exhaust)
  have "same_core s s'" using m [THEN spec, of s] r by simp
  show "same_core s (snd (seq m f s))"
  proof (cases r)
    case (Inl e)
    then show ?thesis using \<open>same_core s s'\<close> r by simp
  next
    case (Inr x)
    have "same_core s' (snd (f x s'))" using f [of x] by (rule spec)
    then show ?thesis using same_core_trans [OF \<open>same_core s s'\<close>] r Inr by simp
  qed
qed

lemma quiet_if [quiet_inv]: "quiet m \<Longrightarrow> quiet n \<Longrightarrow> quiet (if b then m else n)"
  by simp

lemma quiet_option [quiet_inv]: "quiet m \<Longrightarrow> (\<And>x. quiet (f x)) \<Longrightarrow> quiet (case y of None \<Rightarrow> m | Some x \<Rightarrow> f x)"
  by (cases y) auto

lemma quiet_for_each [quiet_inv]: "(\<And>x. quiet (f x)) \<Longrightarrow> quiet (for_each xs f)"
  by (induction xs) (auto intro: quiet_inv)

lemma quiet_on_client [quiet_inv]: "quiet (on_client m)"
  by (auto simp: quiet_def same_core_def on_client_def on_world_def zoom_def split: prod.split)

lemma quiet_next [quiet_inv]: "quiet (clock_now c)" "quiet (uuid4 c)"
  by (auto simp: quiet_def same_core_def clock_now_def uuid4_def next_of_def on_world_def zoom_def seq_run)

lemma quiet_send_command [quiet_inv]: "quiet (send_command c k cmd)"
proof -
  have "quiet (case answer of Inl e \<Rightarrow> raise e | Inr reply \<Rightarrow>
         seq (guard (wr_correlation_id reply = Some (cmd_message_id cmd)) (protocol_error SCHEMA_INVALID)) (\<lambda>_.
         if wr_body reply = ReplyHeartbeat
         then seq (clock_now c) (\<lambda>t. seq (on_client (modify (monitor_heartbeat t))) (\<lambda>_. ret (wr_body reply)))
         else ret (wr_body reply)))" for answer
    by (cases answer) (auto intro!: quiet_inv)
  then show ?thesis unfolding send_command_def by (intro quiet_inv)
qed

lemma quiet_commands [quiet_inv]: "quiet (expect_order_reply body)" "quiet (construct_command cmd)" "quiet (next_sequence sid)"
  by (cases body) (auto simp: expect_order_reply_def construct_command_def next_sequence_def intro: quiet_inv)

text \<open>An authorizer decides: it changes neither the core state nor the client.\<close>

definition deciding :: "'a cl_prog \<Rightarrow> bool" where
  "deciding m \<longleftrightarrow> quiet m \<and> (\<forall>s. w_client (snd (snd (m s))) = w_client (snd s))"

definition quiet_config :: "client_config \<Rightarrow> bool" where
  "quiet_config k \<longleftrightarrow> (\<forall>a i. cc_live_authorizer k = Some a \<longrightarrow> deciding (a i)) \<and>
     (\<forall>a cmd. cc_live_mutation_authorizer k = Some a \<longrightarrow> deciding (a cmd))"

lemma quiet_authorizers:
  "quiet_config k \<Longrightarrow> quiet (authorize_submission k a)" "quiet_config k \<Longrightarrow> quiet (assert_mutation k cmd)"
  by (auto simp: authorize_submission_def assert_mutation_def quiet_config_def deciding_def intro!: quiet_inv split: option.split)

lemma quiet_poll [quiet_inv]: "quiet (poll_event c)"
proof -
  have "quiet (case raw of Inl e \<Rightarrow> raise e
         | Inr (HeartbeatEvent t) \<Rightarrow>
             seq (clock_now c) (\<lambda>now. seq (on_client (modify (monitor_heartbeat now))) (\<lambda>_.
               ret (Some (HeartbeatEvent t))))
         | Inr ev \<Rightarrow> ret (Some ev))" for raw
    by (auto intro!: quiet_inv split: sum.split wire_event.split)
  then show ?thesis unfolding poll_event_def by (auto intro!: quiet_inv split: list.split)
qed

lemma quiet_drain_loop [quiet_inv]: "quiet (drain_loop c n evs)"
  by (induction n arbitrary: evs) (auto intro!: quiet_inv)

lemma quiet_mt4_client:
  assumes "quiet_config k"
  shows "quiet_client (mt4_client c k)"
proof
  note auth = quiet_authorizers [OF assms]
  show "quiet (cl_submit_order (mt4_client c k) a)" for a
    unfolding mt4_client_def client_submit_order_def client.simps by (intro quiet_inv auth)
  show "quiet (cl_cancel_order (mt4_client c k) a)" for a
    unfolding mt4_client_def client_cancel_order_def client.simps by (intro quiet_inv auth)
  show "quiet (cl_reconcile (mt4_client c k))"
    unfolding mt4_client_def client_reconcile_def client.simps by (auto intro!: quiet_inv split: reply_body.split)
  show "quiet (cl_resync_sequences (mt4_client c k) m)" for m
    unfolding mt4_client_def resync_sequences_def client.simps by (auto intro!: quiet_inv)
  show "quiet (cl_drain_events (mt4_client c k))"
    unfolding mt4_client_def client_drain_events_def client.simps by (intro quiet_inv)
qed

lemma resync_total: "fst (cl_resync_sequences (mt4_client c k) m s) = Inr ()"
proof -
  have "fst (resync_sequences m s) = Inr ()"
  proof (induction m arbitrary: s)
    case (Cons x m)
    obtain sid last where x: "x = (sid, last)" by (cases x)
    then show ?case using Cons
      by (cases s) (simp add: resync_sequences_def seq_run on_client_def on_world_def zoom_def)
  qed (simp add: resync_sequences_def)
  then show ?thesis by (simp add: mt4_client_def)
qed

section \<open>The event pump\<close>

text \<open>
  Frames that parse come before the first that does not; \<open>drained\<close> are the events of the former.
\<close>

fun good_prefix :: "(exn + 'a) list \<Rightarrow> 'a list" where
  "good_prefix (Inr x # xs) = x # good_prefix xs"
| "good_prefix _ = []"

fun after_bad :: "(exn + 'a) list \<Rightarrow> (exn \<times> (exn + 'a) list) option" where
  "after_bad [] = None"
| "after_bad (Inl e # xs) = Some (e, xs)"
| "after_bad (Inr x # xs) = after_bad xs"

lemma on_client_run: "on_client m (e, w) = (case m (w_client w) of (r, x) \<Rightarrow> (r, (e, w\<lparr>w_client := x\<rparr>)))"
  by (simp add: on_client_def on_world_run zoom_def split: prod.split)

lemma poll_event_run:
  assumes "mc_connected (w_client w)" and "mc_inbox (w_client w) = raw # rest"
  shows "\<exists>w'. poll_event c (e, w) = (map_sum id Some raw, (e, w')) \<and> mc_connected (w_client w') \<and> mc_inbox (w_client w') = rest"
  using assms
  by (auto simp: poll_event_def seq_run on_client_run clock_now_def next_of_run monitor_heartbeat_def
      split: sum.split wire_event.split)

lemma poll_event_empty:
  "mc_connected (w_client w) \<Longrightarrow> mc_inbox (w_client w) = [] \<Longrightarrow> poll_event c (e, w) = (Inr None, (e, w))"
  by (simp add: poll_event_def seq_run on_client_run)

lemma drain_loop_run:
  assumes "mc_connected (w_client w)" and "length (mc_inbox (w_client w)) < n"
  shows "\<exists>w'. drain_loop c n acc (e, w) =
      (case after_bad (mc_inbox (w_client w)) of None \<Rightarrow> Inr (acc @ good_prefix (mc_inbox (w_client w))) | Some (x, rest) \<Rightarrow> Inl x, (e, w')) \<and>
    mc_inbox (w_client w') = (case after_bad (mc_inbox (w_client w)) of None \<Rightarrow> [] | Some (x, rest) \<Rightarrow> rest)"
  using assms
proof (induction n arbitrary: acc w)
  case (Suc n)
  show ?case
  proof (cases "mc_inbox (w_client w)")
    case Nil
    then show ?thesis using Suc.prems(1) poll_event_empty [of w c e] by simp
  next
    case (Cons raw rest)
    obtain w1 where w1: "poll_event c (e, w) = (map_sum id Some raw, (e, w1))" "mc_connected (w_client w1)" "mc_inbox (w_client w1) = rest"
      using poll_event_run [OF Suc.prems(1) Cons] by blast
    show ?thesis
    proof (cases raw)
      case (Inl x)
      then show ?thesis using w1 Cons by simp
    next
      case (Inr ev)
      then show ?thesis using w1 Cons Suc.IH [OF w1(2), of "acc @ [ev]"] Suc.prems(2) by (auto split: option.splits)
    qed
  qed
qed simp

text \<open>
  Draining the event socket. The loop ends on every queue. When every waiting frame parses,
  the caller gets all events in order and the queue is empty. As soon as one frame does not parse, the exception of that frame is
  raised, the events before it have left the queue and reach nobody (a fill among them is lost until the next
  reconciliation), and the frames behind it wait for the next call.
\<close>

lemma drain_exact:
  assumes "mc_connected (w_client w)"
  shows "\<exists>w'. client_drain_events c (e, w) =
      (case after_bad (mc_inbox (w_client w)) of
         None \<Rightarrow> Inr (good_prefix (mc_inbox (w_client w)))
       | Some (x, rest) \<Rightarrow> Inl x, (e, w')) \<and>
    mc_inbox (w_client w') = (case after_bad (mc_inbox (w_client w)) of None \<Rightarrow> [] | Some (x, rest) \<Rightarrow> rest)"
  using drain_loop_run [OF assms, of "Suc (length (mc_inbox (w_client w)))" c "[]" e]
  by (auto simp: client_drain_events_def seq_run on_client_run simp del: drain_loop.simps split: option.splits)

definition idle_client :: client_state where
  "idle_client = \<lparr>mc_connected = False, mc_last_heartbeat = None, mc_connected_at = None, mc_sequences = [],
     mc_frames = [], mc_inbox = []\<rparr>"

definition starting_world :: "client_state \<Rightarrow> client_state world" where
  "starting_world m = \<lparr>w_engine = \<lparr>en_store = empty_store, en_signals = []\<rparr>, w_gate = empty_gate,
     w_registry = empty_registry, w_ticks = 0, w_sent = [], w_client = m\<rparr>"

definition counting_config :: service_config where
  "counting_config = \<lparr>sc_operating_mode = OM_PAPER, sc_clock = (\<lambda>n. seconds (int n)), sc_uuid4 = (\<lambda>n. n),
     sc_emergency = None, sc_live_gate = None, sc_live_auto = None, sc_price_tolerance = default_price_tolerance\<rparr>"

lemma drain_exact_witness:
  "\<exists>w'. client_drain_events counting_config (new_controller 0, starting_world (idle_client
       \<lparr>mc_connected := True, mc_inbox := [Inr OtherEvent, Inl (ValueError ''frame''), Inr (HeartbeatEvent 3)]\<rparr>)) =
     (Inl (ValueError ''frame''), (new_controller 0, w')) \<and> mc_inbox (w_client w') = [Inr (HeartbeatEvent 3)]"
proof -
  let ?w = "starting_world (idle_client
     \<lparr>mc_connected := True, mc_inbox := [Inr OtherEvent, Inl (ValueError ''frame''), Inr (HeartbeatEvent 3)]\<rparr>)"
  have "mc_connected (w_client ?w)" by (simp add: starting_world_def)
  from drain_exact [OF this, of counting_config "new_controller 0"]
  show ?thesis by (simp add: starting_world_def)
qed

section \<open>Sequence numbers\<close>

text \<open>What one client operation does to the frames and the counters.\<close>

definition frames_step :: "string \<Rightarrow> client_state \<Rightarrow> client_state \<Rightarrow> bool" where
  "frames_step sid m m' \<longleftrightarrow>
     (\<forall>k. sequence_of k m' = sequence_of k m + (if k = sid then 1 else 0)) \<and>
     (mc_frames m' = mc_frames m \<or> (\<exists>fr. mc_frames m' = mc_frames m @ [fr] \<and>
        cmd_strategy_id fr = sid \<and> cmd_sequence fr = sequence_of sid m + 1))"

definition idle_step :: "client_state \<Rightarrow> client_state \<Rightarrow> bool" where
  "idle_step m m' \<longleftrightarrow> mc_sequences m' = mc_sequences m \<and> mc_frames m' = mc_frames m"

lemma send_command_client:
  "send_command c k cmd (e, w) = (r, (e', w')) \<Longrightarrow> mc_sequences (w_client w') = mc_sequences (w_client w) \<and>
    (mc_frames (w_client w') = mc_frames (w_client w) \<or>
     mc_frames (w_client w') = mc_frames (w_client w) @ [with_checksum (cc_checksum k) cmd])"
  by (auto simp: send_command_def seq_run on_client_run clock_now_def next_of_run monitor_heartbeat_def
      split: if_splits sum.splits)

text \<open>The common end of every command: construct, perhaps check, send, expect.\<close>

lemma send_tail:
  assumes "\<And>s. w_client (snd (snd (check s))) = w_client (snd s)"
    and "seq (construct_command cmd) (\<lambda>x. seq check (\<lambda>_. seq (send_command c k x) g)) (e, w) = (r, (e', w'))"
    and "\<And>b s. w_client (snd (snd (g b s))) = w_client (snd s)"
  shows "mc_sequences (w_client w') = mc_sequences (w_client w) \<and>
    (mc_frames (w_client w') = mc_frames (w_client w) \<or>
     mc_frames (w_client w') = mc_frames (w_client w) @ [with_checksum (cc_checksum k) cmd])"
proof (cases "valid_command cmd")
  case True
  obtain r1 e1 w1 where 1: "check (e, w) = (r1, (e1, w1))" by (metis prod.exhaust)
  then have c1: "w_client w1 = w_client w" using assms(1) [of "(e, w)"] by simp
  show ?thesis
  proof (cases r1)
    case (Inl x)
    then show ?thesis using assms(2) 1 c1 True by (simp add: construct_command_def)
  next
    case (Inr u)
    obtain r2 e2 w2 where 2: "send_command c k cmd (e1, w1) = (r2, (e2, w2))" by (metis prod.exhaust)
    have "w_client w' = w_client w2"
    proof (cases r2)
      case (Inl x)
      then show ?thesis using assms(2) 1 2 Inr True by (simp add: construct_command_def)
    next
      case (Inr b)
      then have "g b (e2, w2) = (r, (e', w'))" using assms(2) 1 2 \<open>r1 = Inr u\<close> True by (simp add: construct_command_def)
      then show ?thesis using assms(3) [of b "(e2, w2)"] by simp
    qed
    then show ?thesis using send_command_client [OF 2] c1 by simp
  qed
next
  case False
  then show ?thesis using assms(2) by (simp add: construct_command_def)
qed

lemma next_sequence_run:
  "next_sequence sid (e, w) = (Inr (sequence_of sid (w_client w) + 1), (e, w\<lparr>w_client := (w_client w)\<lparr>mc_sequences :=
     AList.update sid (sequence_of sid (w_client w) + 1) (mc_sequences (w_client w))\<rparr>\<rparr>))"
  by (simp add: next_sequence_def on_client_run sequence_of_def)

lemma with_checksum_fields [simp]:
  "cmd_strategy_id (with_checksum d x) = cmd_strategy_id x" "cmd_sequence (with_checksum d x) = cmd_sequence x"
  "cmd_type (with_checksum d x) = cmd_type x" "cmd_order_intent_id (with_checksum d x) = cmd_order_intent_id x"
  by (simp_all add: with_checksum_def)

lemma counted_send:
  assumes "w_client w1 = (w_client w)\<lparr>mc_sequences := AList.update sid (sequence_of sid (w_client w) + 1) (mc_sequences (w_client w))\<rparr>"
    and "mc_sequences (w_client w') = mc_sequences (w_client w1) \<and>
    (mc_frames (w_client w') = mc_frames (w_client w1) \<or>
     mc_frames (w_client w') = mc_frames (w_client w1) @ [with_checksum d cmd])"
    and "cmd_strategy_id cmd = sid" and "cmd_sequence cmd = sequence_of sid (w_client w) + 1"
  shows "frames_step sid (w_client w) (w_client w')"
  using assms by (auto simp: frames_step_def sequence_of_def)

lemma expect_client: "w_client (snd (snd (expect_order_reply b s))) = w_client (snd s)"
  by (simp add: expect_order_reply_def split: reply_body.split)

lemma authorize_client:
  "quiet_config k \<Longrightarrow> w_client (snd (snd (authorize_submission k a s))) = w_client (snd s)"
  "quiet_config k \<Longrightarrow> w_client (snd (snd (assert_mutation k cmd s))) = w_client (snd s)"
  by (cases s; auto simp: authorize_submission_def assert_mutation_def quiet_config_def deciding_def split: option.split)+

lemma submit_frames:
  assumes "quiet_config k" and run: "client_submit_order c k a (e, w) = (r, (e', w'))"
  shows "idle_step (w_client w) (w_client w') \<or> frames_step (sa_strategy_id a) (w_client w) (w_client w')"
proof -
  obtain r0 e0 w0 where 0: "authorize_submission k a (e, w) = (r0, (e0, w0))" by (metis prod.exhaust)
  have c0: "w_client w0 = w_client w" using authorize_client(1) [OF assms(1), of a "(e, w)"] 0 by simp
  show ?thesis
  proof (cases r0)
    case (Inl x)
    then show ?thesis using run 0 c0 by (simp add: client_submit_order_def idle_step_def)
  next
    case (Inr u)
    let ?n = "sequence_of (sa_strategy_id a) (w_client w0) + 1"
    obtain w1 expires where t: "seq (construct_command ((blank_command SUBMIT_ORDER (sc_uuid4 c (w_ticks w0)) (sc_clock c (w_ticks w0 + 1)) ?n (sa_strategy_id a) (sa_strategy_version a))
        \<lparr>cmd_trace_id := sa_trace_id a, cmd_order_intent_id := Some (sa_order_intent_id a),
         cmd_expires_at := Some expires, cmd_symbol := Some (sa_symbol a), cmd_side := Some (sa_side a),
         cmd_quantity := Some (sa_quantity a), cmd_order_type := Some (sa_order_type a),
         cmd_price := sa_price a, cmd_stop_loss := sa_stop_loss a, cmd_take_profit := sa_take_profit a,
         cmd_max_slippage := sa_max_slippage a, cmd_time_in_force := GTC\<rparr>)) (\<lambda>command.
       seq (ret ()) (\<lambda>_. seq (send_command c k command) expect_order_reply))
       (e0, w1) = (r, (e', w'))" and w1: "w_client w1 = (w_client w0)\<lparr>mc_sequences := AList.update (sa_strategy_id a) ?n (mc_sequences (w_client w0))\<rparr>"
      using run 0 Inr
      by (cases "sa_expires_at a") (auto simp: client_submit_order_def seq_run [of "next_sequence s" for s] uuid4_def clock_now_def
          seq_run [of "next_of f" for f] next_of_run next_sequence_run)
    have "frames_step (sa_strategy_id a) (w_client w0) (w_client w')"
      by (rule counted_send [OF w1 send_tail [OF _ t expect_client]]) (simp_all add: blank_command_def)
    then show ?thesis by (simp add: c0)
  qed
qed

lemma mutation_frames:
  assumes q: "quiet_config k"
    and run: "seq (uuid4 c) (\<lambda>mid. seq (clock_now c) (\<lambda>now. seq (next_sequence sid) (\<lambda>n. seq (clock_now c) (\<lambda>t.
      seq (construct_command (mk mid now n t)) (\<lambda>command. seq (assert_mutation k command) (\<lambda>_.
      seq (send_command c k command) expect_order_reply)))))) (e, w) = (r, (e', w'))"
    and mk: "\<And>mid now n t. cmd_strategy_id (mk mid now n t) = sid \<and> cmd_sequence (mk mid now n t) = n"
  shows "frames_step sid (w_client w) (w_client w')"
proof -
  let ?n = "sequence_of sid (w_client w) + 1"
  let ?cmd = "mk (sc_uuid4 c (w_ticks w)) (sc_clock c (w_ticks w + 1)) ?n (sc_clock c (w_ticks w + 2))"
  obtain w1 where t: "seq (construct_command ?cmd) (\<lambda>command. seq (assert_mutation k ?cmd) (\<lambda>_. seq (send_command c k command) expect_order_reply)) (e, w1) = (r, (e', w'))"
      and w1: "w_client w1 = (w_client w)\<lparr>mc_sequences := AList.update sid ?n (mc_sequences (w_client w))\<rparr>"
    using run by (auto simp: seq_run [of "next_sequence s" for s] uuid4_def clock_now_def
          seq_run [of "next_of f" for f] next_of_run next_sequence_run construct_command_def split: if_splits)
  from counted_send [OF w1 send_tail [OF _ t expect_client]] show ?thesis
    using mk authorize_client(2) [OF q] by simp
qed

lemma cancel_frames:
  "quiet_config k \<Longrightarrow> client_cancel_order c k a (e, w) = (r, (e', w')) \<Longrightarrow> frames_step (ca_strategy_id a) (w_client w) (w_client w')"
  unfolding client_cancel_order_def by (erule mutation_frames) (auto simp: blank_command_def)

lemma modify_frames:
  "quiet_config k \<Longrightarrow> client_modify_order c k a (e, w) = (r, (e', w')) \<Longrightarrow> frames_step (ma_strategy_id a) (w_client w) (w_client w')"
  unfolding client_modify_order_def by (erule mutation_frames) (auto simp: blank_command_def)

lemma reconcile_frames:
  assumes run: "client_reconcile c k (e, w) = (r, (e', w'))"
  shows "frames_step ''CORE'' (w_client w) (w_client w')"
proof -
  let ?n = "sequence_of ''CORE'' (w_client w) + 1"
  let ?cmd = "blank_command RECONCILIATION_REQUEST (sc_uuid4 c (w_ticks w)) (sc_clock c (w_ticks w + 1)) ?n ''CORE'' ''CORE''"
  let ?g = "\<lambda>body. case body of ReplyReconciliation r \<Rightarrow> ret r | _ \<Rightarrow> raise (protocol_error INTERNAL_ERROR)"
  have g: "w_client (snd (snd (?g b s))) = w_client (snd s)" for b and s :: "client_state service"
    by (simp split: reply_body.split)
  obtain w1 where t: "seq (construct_command ?cmd) (\<lambda>command. seq (ret ()) (\<lambda>_. seq (send_command c k command) ?g)) (e, w1) = (r, (e', w'))"
      and w1: "w_client w1 = (w_client w)\<lparr>mc_sequences := AList.update ''CORE'' ?n (mc_sequences (w_client w))\<rparr>"
    using run by (auto simp: client_reconcile_def seq_run [of "next_sequence s" for s] uuid4_def clock_now_def
        seq_run [of "next_of f" for f] next_of_run next_sequence_run)
  show ?thesis
    by (rule counted_send [OF w1 send_tail [OF _ t g]]) (simp_all add: blank_command_def)
qed

lemma resync_frames:
  assumes "resync_sequences mapping (e, w) = (r, (e', w'))"
  shows "mc_frames (w_client w') = mc_frames (w_client w) \<and> sequence_of sid (w_client w) \<le> sequence_of sid (w_client w')"
  using assms
proof (induction mapping arbitrary: w)
  case (Cons x mapping)
  obtain k n where x: "x = (k, n)" by (cases x)
  let ?m = "(w_client w)\<lparr>mc_sequences := AList.update k (max (sequence_of k (w_client w)) n) (mc_sequences (w_client w))\<rparr>"
  have "resync_sequences mapping (e, w\<lparr>w_client := ?m\<rparr>) = (r, (e', w'))"
    using Cons.prems by (simp add: resync_sequences_def x seq_run on_client_run)
  from Cons.IH [OF this] show ?case by (auto simp: sequence_of_def split: if_splits)
qed (simp add: resync_sequences_def)

subsection \<open>Client and bridge together\<close>

datatype client_op =
    ClSubmit submit_args
  | ClCancel cancel_args
  | ClModify modify_args
  | ClReconcile
  | ClResync

primrec client_step ::
    "service_config \<Rightarrow> client_config \<Rightarrow> (string, int) dict \<Rightarrow> client_op \<Rightarrow> client_state service \<Rightarrow> client_state service" where
  "client_step c k snapshot (ClSubmit a) s = snd (client_submit_order c k a s)"
| "client_step c k snapshot (ClCancel a) s = snd (client_cancel_order c k a s)"
| "client_step c k snapshot (ClModify a) s = snd (client_modify_order c k a s)"
| "client_step c k snapshot ClReconcile s = snd (client_reconcile c k s)"
| "client_step c k snapshot ClResync s = snd (resync_sequences snapshot s)"

text \<open>
  Every new frame of the client reaches the bridge, which handles it at some instant; a resynchronization
  adopts the sequence numbers the bridge reports.
\<close>

definition link_step ::
    "service_config \<Rightarrow> client_config \<Rightarrow> bridge_functions \<Rightarrow> 'b venue \<Rightarrow> client_op \<times> instant \<Rightarrow>
     client_state service \<times> 'b bridge \<Rightarrow> client_state service \<times> 'b bridge" where
  "link_step c k f v x p = (let (s, b) = p; s' = client_step c k (sequences_snapshot (br_gate b)) (fst x) s;
       new = drop (length (mc_frames (w_client (snd s)))) (mc_frames (w_client (snd s')))
     in (s', fold (\<lambda>fr b. snd (handle_command f v (snd x) fr b)) new b))"

definition run_link ::
    "service_config \<Rightarrow> client_config \<Rightarrow> bridge_functions \<Rightarrow> 'b venue \<Rightarrow> (client_op \<times> instant) list \<Rightarrow>
     client_state service \<times> 'b bridge \<Rightarrow> client_state service \<times> 'b bridge" where
  "run_link c k f v ops p = fold (link_step c k f v) ops p"

lemma client_step_frames:
  fixes s :: "client_state service" and c :: service_config and k :: client_config
    and snap :: "(string, int) dict" and opn :: client_op and sid :: string
  assumes "quiet_config k"
  defines "m \<equiv> w_client (snd s)" and "m' \<equiv> w_client (snd (client_step c k snap opn s))"
  shows "(mc_frames m' = mc_frames m \<and> sequence_of sid m \<le> sequence_of sid m') \<or> (\<exists>k. frames_step k m m')"
proof -
  obtain e w where s: "s = (e, w)" by (cases s)
  have idle: "idle_step m x \<Longrightarrow> mc_frames x = mc_frames m \<and> sequence_of sid m \<le> sequence_of sid x" for x
    by (simp add: idle_step_def sequence_of_def)
  show ?thesis
  proof (cases opn)
    case (ClSubmit a)
    obtain r e' w' where "client_submit_order c k a s = (r, (e', w'))" by (metis prod.exhaust)
    then show ?thesis using submit_frames [OF assms(1), of c a e w] s ClSubmit idle by (auto simp: m_def m'_def)
  next
    case (ClCancel a)
    obtain r e' w' where "client_cancel_order c k a s = (r, (e', w'))" by (metis prod.exhaust)
    then show ?thesis using cancel_frames [OF assms(1), of c a e w] s ClCancel by (auto simp: m_def m'_def)
  next
    case (ClModify a)
    obtain r e' w' where "client_modify_order c k a s = (r, (e', w'))" by (metis prod.exhaust)
    then show ?thesis using modify_frames [OF assms(1), of c a e w] s ClModify by (auto simp: m_def m'_def)
  next
    case ClReconcile
    obtain r e' w' where "client_reconcile c k s = (r, (e', w'))" by (metis prod.exhaust)
    then show ?thesis using reconcile_frames [of c k e w] s ClReconcile by (auto simp: m_def m'_def)
  next
    case ClResync
    obtain r e' w' where "resync_sequences snap s = (r, (e', w'))" by (metis prod.exhaust)
    then show ?thesis using resync_frames [of snap e w] s ClResync by (auto simp: m_def m'_def)
  qed
qed

text \<open>A frame of another strategy, or with another number than the next, does not touch the strategy.\<close>

lemma handle_command_other:
  fixes c :: command and f :: bridge_functions and v :: "'b venue" and now :: instant and b :: "'b bridge" and sid :: string
  assumes inv: "bridge_inv b" and "cmd_strategy_id c = sid \<Longrightarrow> cmd_sequence c \<noteq> last_sequence sid (br_gate b) + 1"
  defines "b' \<equiv> snd (handle_command f v now c b)"
  shows "executed_of sid b' = executed_of sid b \<and> last_sequence sid (br_gate b') = last_sequence sid (br_gate b)"
  using handle_command_cases [OF inv, of f v now c]
proof (elim disjE exE conjE)
  fix code c' assume "handle_command f v now c b = refuse_with f c' code b"
  then show ?thesis using refuse_with_run [of f c' code b] by (auto simp: b'_def executed_of_def)
next
  assume run: "handle_command f v now c b = execute_command f v now c b" and "valid_command c"
    and sq: "cmd_sequence c = last_sequence (cmd_strategy_id c) (br_gate b) + 1"
    and fresh: "one_shot c \<longrightarrow> (\<forall>oid. cmd_order_intent_id c = Some oid \<longrightarrow> ledger_lookup oid (cmd_type c) (br_gate b) = None)"
  then have other: "cmd_strategy_id c \<noteq> sid" using assms(2) by auto
  show ?thesis
  proof (cases "cmd_type c = RECONCILIATION_REQUEST")
    case True
    then show ?thesis using reconciliation_run [of c f v now b] run by (auto simp: b'_def)
  next
    case False
    then obtain k where k: "cmd_order_intent_id c = Some k" using valid_command_intent \<open>valid_command c\<close> by blast
    obtain reply events b1 where "execute_command f v now c b = (Inr (reframe_reply f c reply, events), b1)"
        "br_executed b1 = br_executed b @ [c]" "br_gate b1 = memory_after (bf_digest f) k c reply (br_gate b)"
      using execute_command_run [OF False k sq, of f v now] fresh k by blast
    then show ?thesis using run other by (auto simp: b'_def executed_of_def)
  qed
next
  assume "handle_command f v now c b = execute_command f v now c b" and "cmd_type c = RECONCILIATION_REQUEST"
  then show ?thesis using reconciliation_run [of c f v now b] by (auto simp: b'_def)
next
  fix reply assume "handle_command f v now c b = (Inr (reframe_reply f c reply, []), b)"
  then show ?thesis by (simp add: b'_def)
qed

definition ahead :: "string \<Rightarrow> client_state service \<times> 'b bridge \<Rightarrow> bool" where
  "ahead sid p \<longleftrightarrow> bridge_inv (snd p) \<and> last_sequence sid (br_gate (snd p)) < sequence_of sid (w_client (snd (fst p)))"

lemma link_step_ahead:
  assumes q: "quiet_config k" and ahead: "ahead sid p"
  shows "ahead sid (link_step c k f v x p) \<and> executed_of sid (snd (link_step c k f v x p)) = executed_of sid (snd p)"
proof -
  obtain s b where p: "p = (s, b)" by (cases p)
  let ?s = "client_step c k (sequences_snapshot (br_gate b)) (fst x) s"
  let ?m = "w_client (snd s)" and ?m' = "w_client (snd ?s)"
  have inv: "bridge_inv b" and gap: "last_sequence sid (br_gate b) < sequence_of sid ?m" using ahead p by (auto simp: ahead_def)
  consider "mc_frames ?m' = mc_frames ?m" "sequence_of sid ?m \<le> sequence_of sid ?m'"
    | fr where "mc_frames ?m' = mc_frames ?m @ [fr]" "sequence_of sid ?m \<le> sequence_of sid ?m'"
        "cmd_strategy_id fr = sid \<Longrightarrow> cmd_sequence fr = sequence_of sid ?m + 1"
    using client_step_frames [OF q, of c "sequences_snapshot (br_gate b)" "fst x" s sid]
    by (auto simp: frames_step_def)
  then show ?thesis
  proof cases
    case 1
    then show ?thesis using inv gap p by (simp add: link_step_def Let_def ahead_def)
  next
    case 2
    let ?b = "snd (handle_command f v (snd x) fr b)"
    have "executed_of sid ?b = executed_of sid b \<and> last_sequence sid (br_gate ?b) = last_sequence sid (br_gate b)"
      by (rule handle_command_other [OF inv]) (use 2(3) gap in simp)
    moreover have "bridge_inv ?b" using handle_command_inv [OF inv, of f v "snd x" fr] by auto
    ultimately show ?thesis using 2(1,2) gap p by (simp add: link_step_def Let_def ahead_def)
  qed
qed

lemma run_link_ahead:
  "quiet_config k \<Longrightarrow> ahead sid p \<Longrightarrow> executed_of sid (snd (run_link c k f v ops p)) = executed_of sid (snd p)"
  unfolding run_link_def
proof (induction ops arbitrary: p)
  case (Cons x ops)
  then show ?case using link_step_ahead [OF Cons.prems, of c f v x] by simp
qed simp


definition offline_config :: client_config where
  "offline_config = \<lparr>cc_operating_mode = OM_PAPER, cc_degraded_after = seconds 3, cc_down_after = seconds 6,
     cc_live_authorizer = None, cc_live_mutation_authorizer = None, cc_checksum = (\<lambda>_. ''sum''),
     cc_exchange = (\<lambda>_. Inl (protocol_error TIMEOUT))\<rparr>"

definition example_submit_args :: submit_args where
  "example_submit_args = args_of_intent example_live_intent None None"

definition no_venue :: "unit venue" where
  "no_venue = \<lparr>vn_process = (\<lambda>_ _ _. (Inl BROKER_ERROR, ())), vn_is_demo = (\<lambda>_. True), vn_positions = (\<lambda>_ _. []),
     vn_open_order_intent_ids = (\<lambda>_. []), vn_trading_enabled = (\<lambda>_. True)\<rparr>"

definition constant_functions :: bridge_functions where
  "constant_functions = \<lparr>bf_checksum = (\<lambda>_. ''sum''), bf_digest = (\<lambda>_. ''digest''), bf_uuid5 = (\<lambda>n _. n), bf_emulator_id = 0\<rparr>"


end
