(* ===== verification/Live_Runtime.thy ===== *)
theory Live_Runtime
  imports Mt4_Client
begin

text \<open>
  The composition root of live trading, \<^verbatim>\<open>engines/execution/live_runtime.py\<close>: the checks that a
  live runtime has to pass before it is built, the two authorizers that stand between the client
  and the wire, and the composition of service, client, gate, registry and emergency
  controller. The properties of the composed system are at the end: what an order on the
  wire presupposes, that orders are persisted before they are sent and sent once, and how the
  restart procedure decides whether trading resumes.

  The state is that of the service with the MT4 client. The dictionaries, stores and sinks that the
  builder opens are parts of that state, the remaining arguments of the builder are the fields of
  \<open>runtime_parts\<close>: the readings of the clock and of \<open>uuid4\<close>, the cryptographic functions and the
  answers of the command socket.
\<close>

section \<open>Settings\<close>

record live_settings =
  ls_operating_mode :: operating_mode
  ls_live_approval_signing_key :: "nat list option"
  ls_live_broker_demo :: bool
  ls_live_max_quantity :: "decimal option"
  ls_live_approval_ttl_seconds :: int
  ls_live_max_price_drift_bps :: decimal
  ls_live_max_quote_age_seconds :: int
  ls_live_auto_enabled :: bool
  ls_live_auto_max_strategies :: int
  ls_live_auto_max_capital :: "decimal option"
  ls_live_auto_max_loss :: "decimal option"
  ls_live_auto_strategy_risk_budgets :: "(string, decimal) dict"
  ls_emergency_dead_man_enabled :: bool
  ls_emergency_heartbeat_timeout :: duration
  ls_emergency_cancel_pending_on_kill :: bool
  ls_emergency_flatten_on_kill :: bool
  ls_emergency_flatten_on_heartbeat_loss :: bool
  ls_mt4_degraded_after :: duration
  ls_mt4_down_after :: duration

record runtime_parts =
  rp_clock :: "nat \<Rightarrow> instant"
  rp_uuid4 :: "nat \<Rightarrow> uuid"
  rp_hmac :: "nat list \<Rightarrow> json \<Rightarrow> string"
  rp_sha256 :: "order_intent \<Rightarrow> string"
  rp_checksum :: "command \<Rightarrow> string"
  rp_exchange :: "command list \<Rightarrow> exn + wire_reply"

definition emergency_policy_of :: "live_settings \<Rightarrow> exn + emergency_policy" where
  "emergency_policy_of st =
     (let p = \<lparr>epol_dead_man_switch_enabled = ls_emergency_dead_man_enabled st,
        epol_heartbeat_timeout = ls_emergency_heartbeat_timeout st,
        epol_cancel_pending_on_emergency_kill = ls_emergency_cancel_pending_on_kill st,
        epol_flatten_on_emergency_kill = ls_emergency_flatten_on_kill st,
        epol_flatten_on_heartbeat_loss = ls_emergency_flatten_on_heartbeat_loss st\<rparr>
      in if valid_emergency_policy p then Inr p else Inl (ValueError ''heartbeat_timeout must be positive''))"

definition live_gate_of :: "runtime_parts \<Rightarrow> live_settings \<Rightarrow> nat list \<Rightarrow> exn + live_gate" where
  "live_gate_of parts st key =
     rbind (live_gate_config_post_init
       \<lparr>lgc_approval_ttl = seconds (ls_live_approval_ttl_seconds st),
        lgc_max_price_drift_bps = ls_live_max_price_drift_bps st,
        lgc_max_quote_age = seconds (ls_live_max_quote_age_seconds st),
        lgc_broker_demo = ls_live_broker_demo st, lgc_max_live_quantity = ls_live_max_quantity st\<rparr>) (\<lambda>config.
     new_gate \<lparr>lg_key = key, lg_config = config, lg_attestor_present = ls_live_broker_demo st,
       lg_hmac = rp_hmac parts, lg_sha256 = rp_sha256 parts\<rparr>)"

definition live_auto_from_settings :: "live_settings \<Rightarrow> exn + live_auto_config" where
  "live_auto_from_settings st = live_auto_config_post_init
     \<lparr>lac_enabled = ls_live_auto_enabled st, lac_max_strategies = ls_live_auto_max_strategies st,
      lac_max_capital = ls_live_auto_max_capital st, lac_max_loss = ls_live_auto_max_loss st,
      lac_strategy_risk_budget_ceilings = ls_live_auto_strategy_risk_budgets st,
      lac_max_quote_age = seconds (ls_live_max_quote_age_seconds st),
      lac_max_quantity = ls_live_max_quantity st\<rparr>"

section \<open>The authorizers\<close>

definition live_authorizer :: "service_config \<Rightarrow> order_intent \<Rightarrow> unit cl_prog" where
  "live_authorizer c intent =
     (if oi_strategy_id intent = emergency_strategy_id then
        (case sc_emergency c of
           None \<Rightarrow> raise AssertionError
         | Some policy \<Rightarrow>
             seq (assert_emergency_close_authorized policy intent) (\<lambda>_.
             seq (reads (\<lambda>(e, w). list_positions True (w_store w))) (\<lambda>positions.
             case assert_emergency_closure_matches_positions positions intent of
               Inl e \<Rightarrow> raise e
             | Inr _ \<Rightarrow> ret ())))
      else
        (case sc_live_auto c of
           Some lac \<Rightarrow> on_registry (assert_wire_authorized lac intent)
         | None \<Rightarrow>
             (case sc_live_gate c of
                None \<Rightarrow> raise AssertionError
              | Some g \<Rightarrow> seq (clock_now c) (\<lambda>now. on_gate (assert_consumed_authorization g intent now)))))"

definition targets_live_order :: "command \<Rightarrow> order_record \<Rightarrow> bool" where
  "targets_live_order command r \<longleftrightarrow> Some (or_order_intent_id r) = cmd_order_intent_id command \<and>
     or_state r \<in> set live_order_states \<and> Some (or_instrument_id r) = cmd_symbol command \<and>
     Some (or_side r) = cmd_side command \<and> Some (or_requested_quantity r) = cmd_quantity command"

definition live_mutation_authorizer :: "command \<Rightarrow> unit cl_prog" where
  "live_mutation_authorizer command =
     seq assert_mutation_authorized (\<lambda>_.
     seq (reads (\<lambda>(e, w). list_ex (targets_live_order command) (list_orders (w_store w)))) (\<lambda>known.
     guard known (LiveGateViolation ''order mutation does not target a known live order'')))"

definition live_client_config :: "runtime_parts \<Rightarrow> live_settings \<Rightarrow> service_config \<Rightarrow> client_config" where
  "live_client_config parts st c =
     \<lparr>cc_operating_mode = ls_operating_mode st, cc_degraded_after = ls_mt4_degraded_after st,
      cc_down_after = ls_mt4_down_after st, cc_live_authorizer = Some (live_authorizer c),
      cc_live_mutation_authorizer = Some live_mutation_authorizer, cc_checksum = rp_checksum parts,
      cc_exchange = rp_exchange parts\<rparr>"

section \<open>The builder\<close>

definition gate_or_registry ::
    "runtime_parts \<Rightarrow> live_settings \<Rightarrow> exn + live_gate option \<times> live_auto_config option" where
  "gate_or_registry parts st =
     (if ls_operating_mode st = OM_LIVE_GATED then
        (case ls_live_approval_signing_key st of
           None \<Rightarrow> Inl (ValueError ''LIVE_GATED requires OT_LIVE_APPROVAL_SIGNING_KEY'')
         | Some key \<Rightarrow> rbind (live_gate_of parts st key) (\<lambda>g. Inr (Some g, None)))
      else
        rbind (live_auto_from_settings st) (\<lambda>lac.
        rbind (assert_enabled lac) (\<lambda>_. Inr (None, Some lac))))"

definition live_service_config ::
    "runtime_parts \<Rightarrow> live_settings \<Rightarrow> emergency_policy \<Rightarrow> live_gate option \<Rightarrow> live_auto_config option \<Rightarrow> service_config" where
  "live_service_config parts st policy gate live_auto =
     \<lparr>sc_operating_mode = ls_operating_mode st, sc_clock = rp_clock parts, sc_uuid4 = rp_uuid4 parts,
      sc_emergency = Some policy, sc_live_gate = gate, sc_live_auto = live_auto,
      sc_price_tolerance = default_price_tolerance\<rparr>"

definition build_live_execution_runtime ::
    "runtime_parts \<Rightarrow> live_settings \<Rightarrow> exn + service_config \<times> client_config" where
  "build_live_execution_runtime parts st =
     (if ls_operating_mode st \<notin> {OM_LIVE_GATED, OM_LIVE_AUTO}
      then Inl (ValueError ''live runtime requires OT_OPERATING_MODE=LIVE_GATED or LIVE_AUTO'')
      else if ls_operating_mode st = OM_LIVE_GATED \<and> ls_live_approval_signing_key st = None
      then Inl (ValueError ''LIVE_GATED requires OT_LIVE_APPROVAL_SIGNING_KEY'')
      else
        rbind (emergency_policy_of st) (\<lambda>policy.
        rbind (gate_or_registry parts st) (\<lambda>(gate, live_auto).
        let c = live_service_config parts st policy gate live_auto
        in rbind (client_init (live_client_config parts st c)) (\<lambda>k.
           rbind (service_init c) (\<lambda>c'. Inr (c', k))))))"

definition connect_and_reconcile :: "service_config \<Rightarrow> client_config \<Rightarrow> startup_outcome cl_prog" where
  "connect_and_reconcile c k = seq (connect c) (\<lambda>_. startup_reconciliation c (mt4_client c k))"

section \<open>Fail closed\<close>

lemma budgets_ok:
  fixes xs :: "(string, decimal) dict"
  shows "list_ex (\<lambda>(sid, cap). sid = [] \<or> cap \<le> 0) xs \<longleftrightarrow> \<not> list_all (\<lambda>(sid, cap). sid \<noteq> [] \<and> 0 < cap) xs"
  by (induction xs) auto

lemma live_client_init: "client_init (live_client_config parts st c) =
    (if 0 < ls_mt4_degraded_after st \<and> ls_mt4_degraded_after st < ls_mt4_down_after st then Inr (live_client_config parts st c)
     else Inl (ValueError ''require 0 < degraded_after < down_after''))"
  by (simp add: client_init_def live_client_config_def valid_monitor_def)

lemma live_service_init:
  "ls_operating_mode st = OM_LIVE_GATED \<Longrightarrow>
     service_init (live_service_config parts st p (Some g) None) = Inr (live_service_config parts st p (Some g) None)"
  "ls_operating_mode st = OM_LIVE_AUTO \<Longrightarrow>
     service_init (live_service_config parts st p None (Some l)) = Inr (live_service_config parts st p None (Some l))"
  by (simp_all add: service_init_def live_service_config_def)

lemma policy_accepted: "isl (emergency_policy_of st) \<longleftrightarrow> \<not> 0 < ls_emergency_heartbeat_timeout st"
  by (simp add: emergency_policy_of_def Let_def valid_emergency_policy_def)

lemma gate_accepted:
  "\<not> isl (live_gate_of parts st key) \<longleftrightarrow> 32 \<le> length key \<and> 0 < ls_live_approval_ttl_seconds st \<and>
     0 < ls_live_max_quote_age_seconds st \<and> 0 \<le> ls_live_max_price_drift_bps st \<and> positive_limit (ls_live_max_quantity st) \<and>
     (ls_live_max_quantity st \<noteq> None \<or> ls_live_broker_demo st)"
  by (auto simp: live_gate_of_def live_gate_config_post_init_def new_gate_def seconds_def positive_limit_def not_le not_less
      split: option.split)

lemma registry_accepted:
  "\<not> isl (rbind (live_auto_from_settings st) (\<lambda>lac. rbind (assert_enabled lac) (\<lambda>_. Inr lac))) \<longleftrightarrow>
     ls_live_auto_enabled st \<and> 1 \<le> ls_live_auto_max_strategies st \<and>
     (\<exists>capital. ls_live_auto_max_capital st = Some capital \<and> 0 < capital) \<and>
     (\<exists>loss. ls_live_auto_max_loss st = Some loss \<and> 0 < loss) \<and>
     list_all (\<lambda>(sid, cap). sid \<noteq> [] \<and> 0 < cap) (ls_live_auto_strategy_risk_budgets st) \<and>
     0 < ls_live_max_quote_age_seconds st \<and> positive_limit (ls_live_max_quantity st)"
  by (auto simp: live_auto_from_settings_def live_auto_config_post_init_def assert_enabled_def budgets_ok seconds_def
      positive_limit_def split: option.split)

lemmas build_defs = build_live_execution_runtime_def gate_or_registry_def live_client_init live_service_init Let_def

text \<open>
  C7: the builder fails closed. A live runtime is built exactly when the emergency and connection timeouts are
  sensible and either LIVE_GATED has a signing key of at least 32 bytes, positive lifetimes, and an explicit
  quantity cap or the demo attestation; or LIVE_AUTO is enabled with a positive number of strategies, capital and loss
  limit, and well-formed budgets. In every other case the builder raises.
\<close>

theorem live_runtime_fails_closed:
  "\<not> isl (build_live_execution_runtime parts st) \<longleftrightarrow>
     0 < ls_emergency_heartbeat_timeout st \<and> 0 < ls_mt4_degraded_after st \<and> ls_mt4_degraded_after st < ls_mt4_down_after st \<and>
     0 < ls_live_max_quote_age_seconds st \<and> positive_limit (ls_live_max_quantity st) \<and>
     (ls_operating_mode st = OM_LIVE_GATED \<and> (\<exists>key. ls_live_approval_signing_key st = Some key \<and> 32 \<le> length key) \<and>
        0 < ls_live_approval_ttl_seconds st \<and> 0 \<le> ls_live_max_price_drift_bps st \<and>
        ((\<exists>cap. ls_live_max_quantity st = Some cap) \<or> ls_live_broker_demo st)
      \<or> ls_operating_mode st = OM_LIVE_AUTO \<and> ls_live_auto_enabled st \<and> 1 \<le> ls_live_auto_max_strategies st \<and>
        (\<exists>capital. ls_live_auto_max_capital st = Some capital \<and> 0 < capital) \<and>
        (\<exists>loss. ls_live_auto_max_loss st = Some loss \<and> 0 < loss) \<and>
        list_all (\<lambda>(sid, cap). sid \<noteq> [] \<and> 0 < cap) (ls_live_auto_strategy_risk_budgets st))"
proof -
  consider "ls_operating_mode st = OM_LIVE_GATED" | "ls_operating_mode st = OM_LIVE_AUTO"
    | "ls_operating_mode st \<notin> {OM_LIVE_GATED, OM_LIVE_AUTO}" by blast
  then show ?thesis
  proof cases
    case 1
    have "\<not> isl (build_live_execution_runtime parts st) \<longleftrightarrow> \<not> isl (emergency_policy_of st) \<and>
        (\<exists>key. ls_live_approval_signing_key st = Some key \<and> \<not> isl (live_gate_of parts st key)) \<and>
        0 < ls_mt4_degraded_after st \<and> ls_mt4_degraded_after st < ls_mt4_down_after st"
      using 1 by (cases "emergency_policy_of st"; cases "ls_live_approval_signing_key st"; cases "live_gate_of parts st (the (ls_live_approval_signing_key st))")
        (simp_all add: build_defs)
    then show ?thesis using 1 policy_accepted gate_accepted by auto
  next
    case 2
    have "\<not> isl (build_live_execution_runtime parts st) \<longleftrightarrow> \<not> isl (emergency_policy_of st) \<and>
        \<not> isl (rbind (live_auto_from_settings st) (\<lambda>lac. rbind (assert_enabled lac) (\<lambda>_. Inr lac))) \<and>
        0 < ls_mt4_degraded_after st \<and> ls_mt4_degraded_after st < ls_mt4_down_after st"
      using 2 by (cases "emergency_policy_of st"; cases "live_auto_from_settings st"; cases "assert_enabled (projr (live_auto_from_settings st))")
        (simp_all add: build_defs)
    then show ?thesis using 2 policy_accepted registry_accepted by auto
  next
    case 3
    then show ?thesis by (simp add: build_live_execution_runtime_def)
  qed
qed

section \<open>The authorizers only decide\<close>

lemma deciding_registry:
  assumes "\<And>x. rg_strategies (snd (m x)) = rg_strategies x" and "\<And>x. rg_pnl (snd (m x)) = rg_pnl x"
  shows "deciding (on_registry m)"
  using assms by (auto simp: deciding_def quiet_def same_core_def on_registry_def on_world_run zoom_def split: prod.split)
    (metis snd_conv)+

lemma deciding_gate: "(\<And>now x. snd (m now x) = x) \<Longrightarrow> deciding (seq (clock_now c) (\<lambda>now. on_gate (m now)))"
  by (auto simp: deciding_def quiet_def same_core_def on_gate_def on_world_run zoom_def clock_now_def seq_run next_of_run split: prod.split)
    (metis snd_conv)+

lemma deciding_pure: "(\<And>s. snd (m s) = s) \<Longrightarrow> deciding m"
  by (simp add: deciding_def quiet_def split_paired_all)

lemma audited_denial_pnl: "reads_only m \<Longrightarrow> rg_pnl (snd (audited_denial intent m s)) = rg_pnl s"
  by (auto simp: audited_denial_def handle_def reads_only_def split: prod.split sum.split exn.split)
     (metis snd_conv)+

lemma live_authorizer_deciding: "deciding (live_authorizer c intent)"
proof -
  have gate: "deciding (seq (clock_now c) (\<lambda>now. on_gate (assert_consumed_authorization g intent now)))" for g
    by (rule deciding_gate) (use boundary_check_exact in blast)
  have wire: "deciding (on_registry (assert_wire_authorized lac intent))" for lac
    by (rule deciding_registry) (simp_all add: assert_wire_authorized_def audited_denial_pnl audited_denial_strategies impl_reads_only)
  show ?thesis
    unfolding live_authorizer_def
    by (auto intro!: gate wire deciding_pure simp: assert_emergency_close_authorized_def seq_assoc split: option.split sum.split)
qed

lemma live_mutation_deciding: "deciding (live_mutation_authorizer command)"
  by (rule deciding_pure) (auto simp: live_mutation_authorizer_def assert_mutation_authorized_def seq_run)

lemma live_config_quiet: "quiet_config (live_client_config parts st c)"
  by (simp add: quiet_config_def live_client_config_def live_authorizer_deciding live_mutation_deciding)

text \<open>The client of a live runtime keeps the contract the service relies on.\<close>

interpretation live: quiet_client "mt4_client c (live_client_config parts st c')" for c parts st c'
  by (rule quiet_mt4_client [OF live_config_quiet])

section \<open>Runs of a live runtime\<close>

text \<open>
  Besides the operations of the service: connecting with the reconciliation that follows, closing, and the arrival of a
  frame of the venue on the event socket.
\<close>

datatype runtime_op =
    RtService service_op
  | RtConnect
  | RtClose
  | RtArrives "exn + wire_event"

primrec runtime_step ::
    "service_config \<Rightarrow> client_config \<Rightarrow> runtime_op \<Rightarrow> client_state service \<Rightarrow> client_state service" where
  "runtime_step c k (RtService x) s = service_step c (mt4_client c k) x s"
| "runtime_step c k RtConnect s = snd (connect_and_reconcile c k s)"
| "runtime_step c k RtClose s = snd (close s)"
| "runtime_step c k (RtArrives raw) s = snd (on_client (modify (\<lambda>m. m\<lparr>mc_inbox := mc_inbox m @ [raw]\<rparr>)) s)"

definition run_runtime ::
    "service_config \<Rightarrow> client_config \<Rightarrow> runtime_op list \<Rightarrow> client_state service \<Rightarrow> client_state service" where
  "run_runtime c k ops s = fold (runtime_step c k) ops s"

definition runtime_start :: "instant \<Rightarrow> client_state service" where
  "runtime_start armed = (new_controller armed, starting_world idle_client)"

definition example_settings :: live_settings where
  "example_settings = \<lparr>ls_operating_mode = OM_LIVE_GATED, ls_live_approval_signing_key = Some (replicate 32 7),
     ls_live_broker_demo = False, ls_live_max_quantity = Some 2, ls_live_approval_ttl_seconds = 30,
     ls_live_max_price_drift_bps = 10, ls_live_max_quote_age_seconds = 5, ls_live_auto_enabled = False,
     ls_live_auto_max_strategies = 0, ls_live_auto_max_capital = None, ls_live_auto_max_loss = None,
     ls_live_auto_strategy_risk_budgets = [], ls_emergency_dead_man_enabled = False,
     ls_emergency_heartbeat_timeout = seconds 6, ls_emergency_cancel_pending_on_kill = True,
     ls_emergency_flatten_on_kill = False, ls_emergency_flatten_on_heartbeat_loss = False,
     ls_mt4_degraded_after = seconds 3, ls_mt4_down_after = seconds 6\<rparr>"

text \<open>A venue that acknowledges every order and reports an empty account.\<close>

definition example_exchange :: "command list \<Rightarrow> exn + wire_reply" where
  "example_exchange frames = (let fr = last frames in
     Inr \<lparr>wr_correlation_id = Some (cmd_message_id fr),
       wr_body = (if cmd_type fr = RECONCILIATION_REQUEST
         then ReplyReconciliation \<lparr>rs_is_demo = False, rs_positions = [], rs_open_order_intent_ids = [],
           rs_last_sequences = [], rs_broker_connected = True, rs_trading_enabled = True\<rparr>
         else ReplyOrder (OrderAck (cmd_message_id fr) Ack_ACKNOWLEDGED (Some ''T1'')))\<rparr>)"

definition example_parts :: runtime_parts where
  "example_parts = \<lparr>rp_clock = (\<lambda>n. int n * 1000), rp_uuid4 = (\<lambda>n. n + 100), rp_hmac = (\<lambda>k j. ''mac''),
     rp_sha256 = oi_strategy_id, rp_checksum = (\<lambda>_. ''sum''), rp_exchange = example_exchange\<rparr>"

section \<open>Persisted before sent, sent once\<close>

lemma runtime_start_ok: "sends_ok (runtime_start armed)"
  by (simp add: sends_ok_def runtime_start_def starting_world_def w_store_def keyed_def empty_store_def get_order_def)

lemma runtime_step_sends:
  assumes "sends_ok s"
  shows "sends_ok (runtime_step c (live_client_config parts st c) x s)"
proof -
  have q: "keeps sends_ok (connect c)" "keeps sends_ok close" "keeps sends_ok (on_client m)" for m :: "(client_state, exn, unit) prog"
    unfolding connect_def close_def by (rule keeps_quiet; intro quiet_inv)+
  have "keeps sends_ok (connect_and_reconcile c (live_client_config parts st c))"
    unfolding connect_and_reconcile_def by (intro ot_inv q(1) live.startup_keeps)
  then show ?thesis
    using assms by (cases x) (simp_all add: live.service_step_keeps keepsD [OF q(2)] keepsD [OF q(3)] keepsD)
qed

text \<open>
  C2: persisted before sent, and sent once. In every run of a live runtime (submissions, events of the
  venue, emergency actions, restarts, approvals, in any order and with any answers of
  the venue): when an order is handed to the client, the store already holds it as \<open>SUBMITTED\<close>; and no
  order intent is handed to the client twice.
\<close>

theorem orders_persisted_and_sent_once:
  "let sent = w_sent (snd (run_runtime c (live_client_config parts st c) ops (runtime_start armed))) in
     distinct (map (\<lambda>x. sa_order_intent_id (fst x)) sent) \<and>
     list_all (\<lambda>(args, store). \<exists>r. get_order (sa_order_intent_id args) store = Some r \<and> or_state r = OS_SUBMITTED) sent"
proof -
  have "sends_ok (run_runtime c (live_client_config parts st c) ops s)" if "sends_ok s" for s
    using that unfolding run_runtime_def by (induction ops arbitrary: s) (simp_all add: runtime_step_sends)
  from this [OF runtime_start_ok [of armed]] show ?thesis
    by (auto simp: sends_ok_def persisted_submitted_def Let_def list_all_iff)
qed

text \<open>
  C3: the gates of the submit path. When, after the dead man switch was evaluated, an emergency control blocks
  the strategy or the instrument, or SAFE_MODE is active, or the mode of the order is not the authoritative one,
  or the gate of that mode refuses, then \<open>submit\<close> raises, and nothing is handed to the client except
  closures of the emergency controller.
\<close>

theorem submit_respects_gates:
  assumes "\<not> gates_open c (mt4_client c (live_client_config parts st c)) intent attests price decision s"
  shows "isl (fst (submit c (mt4_client c (live_client_config parts st c)) intent venue attests price decision s)) \<and>
     (\<exists>new. w_sent (snd (snd (submit c (mt4_client c (live_client_config parts st c)) intent venue attests price decision s))) =
        w_sent (snd s) @ new \<and> list_all (\<lambda>x. sa_strategy_id (fst x) = emergency_strategy_id) new)"
  using live.closed_gate_refuses [OF assms] by (simp add: closures_only_def)

theorem submit_respects_gates_witness:
  "let k = live_client_config example_parts example_settings counting_config in
     isl (fst (submit counting_config (mt4_client counting_config k) example_live_intent ''mt4'' False None None (runtime_start 0)))"
proof -
  let ?cl = "mt4_client counting_config (live_client_config example_parts example_settings counting_config)"
  have "\<not> gates_open counting_config ?cl example_live_intent False None None (runtime_start 0)"
    by (simp add: gates_open_def check_emergency_def counting_config_def example_live_intent_def runtime_start_def)
  from submit_respects_gates [OF this] show ?thesis by (simp add: Let_def)
qed


lemma empty_store_ok: "store_ok empty_store" "valid_safe_mode_record (get_safe_mode empty_store)"
  by (simp_all add: store_ok_def orders_inv_def keyed_def empty_store_def get_order_def get_safe_mode_def
      valid_safe_mode_record_def empty_safe_mode_def)

definition online_client :: client_state where
  "online_client = idle_client\<lparr>mc_connected := True, mc_connected_at := Some 0\<rparr>"

definition example_client :: "client_state client" where
  "example_client = mt4_client counting_config (live_client_config example_parts example_settings counting_config)"


text \<open>
  An unreachable broker stops trading. When the reconciliation request fails on the wire, the restart procedure
  still completes, and it leaves SAFE_MODE active with the reason \<open>BROKER_UNREACHABLE\<close>.
\<close>

lemma unreachable_broker_stops_trading:
  assumes cl: "cl = mt4_client c (live_client_config parts st c)"
    and "check_emergency c cl (e, w\<lparr>w_ticks := w_ticks w + 1\<rparr>) = (Inr (), (e1, w1))"
    and "valid_safe_mode_record (get_safe_mode (w_store w1))"
    and "cl_reconcile cl (e1, w1) = (Inl (Mt4ProtocolError msg), (e2, w2))"
  shows "\<exists>out e' w'. startup_reconciliation c cl (e, w) = (Inr out, (e', w')) \<and> \<not> so_broker_reachable out \<and>
    so_safe_mode_active out \<and> safe_mode_is_active (w_engine w') \<and>
    safe_mode_reason_value SMR_BROKER_UNREACHABLE \<in> set (so_safe_mode_reason_codes out)"
  using live.startup_unreachable [OF assms(2-4) [unfolded cl]] unfolding cl by blast

theorem unreachable_broker_stops_trading_witness:
  "\<exists>out e' w'. startup_reconciliation counting_config example_client (new_controller 0, starting_world idle_client) = (Inr out, (e', w')) \<and>
     safe_mode_is_active (w_engine w')"
proof -
  let ?w = "(starting_world idle_client)\<lparr>w_ticks := 1\<rparr>"
  let ?rc = "cl_reconcile example_client (new_controller 0, ?w)"
  have ce: "check_emergency counting_config example_client (new_controller 0, (starting_world idle_client)\<lparr>w_ticks := w_ticks (starting_world idle_client) + 1\<rparr>)
      = (Inr (), (new_controller 0, ?w))"
    by (simp add: check_emergency_def counting_config_def starting_world_def)
  have ok: "valid_safe_mode_record (get_safe_mode (w_store ?w))"
    using empty_store_ok by (simp add: starting_world_def w_store_def)
  have "fst ?rc = Inl (Mt4ProtocolError ''NOT_CONNECTED'')" by code_simp
  then obtain e2 w2 where rc: "?rc = (Inl (Mt4ProtocolError ''NOT_CONNECTED''), (e2, w2))" by (cases ?rc) auto
  from unreachable_broker_stops_trading [OF example_client_def ce ok rc] show ?thesis by blast
qed

section \<open>No live order on the wire without a human\<close>

text \<open>
  The frame of a submission carries exactly the fields of an intent, and somebody approved that intent: an approval
  of this order intent was entered, and the approval record with that approver's signature was made for this intent.
\<close>

definition frame_of_intent :: "order_intent \<Rightarrow> command \<Rightarrow> bool" where
  "frame_of_intent i fr \<longleftrightarrow>
     cmd_order_intent_id fr = Some (oi_order_intent_id i) \<and> cmd_strategy_id fr = oi_strategy_id i \<and>
     cmd_strategy_version fr = oi_strategy_version i \<and> cmd_symbol fr = Some (oi_instrument_id i) \<and>
     cmd_side fr = Some (oi_side i) \<and> cmd_quantity fr = Some (oi_quantity i) \<and>
     cmd_order_type fr = Some (oi_order_type i) \<and> cmd_price fr = oi_price i \<and> cmd_stop_loss fr = oi_stop_loss i \<and>
     cmd_take_profit fr = oi_take_profit i \<and> cmd_max_slippage fr = oi_max_slippage i \<and> cmd_time_in_force fr = oi_time_in_force i"

definition human_sanctioned :: "live_gate \<Rightarrow> runtime_op list \<Rightarrow> command \<Rightarrow> bool" where
  "human_sanctioned g ops fr \<longleftrightarrow> (\<exists>i r a t. frame_of_intent i fr \<and> matches_intent g r i \<and> signed_by g r (strip a) t \<and>
     RtService (OpGate (Approve (oi_order_intent_id i) a)) \<in> set ops \<and> \<not> is_blank a)"

definition frame_ok :: "live_gate \<Rightarrow> runtime_op list \<Rightarrow> command \<Rightarrow> bool" where
  "frame_ok g ops fr \<longleftrightarrow> cmd_type fr = SUBMIT_ORDER \<longrightarrow> cmd_strategy_id fr = emergency_strategy_id \<or> human_sanctioned g ops fr"

definition gate_history :: "live_gate \<Rightarrow> runtime_op list \<Rightarrow> gate_state \<Rightarrow> bool" where
  "gate_history g ops s \<longleftrightarrow> approvals_keyed s \<and> (\<exists>gops. approvals_human g gops s \<and>
     (\<forall>k a t. (Approve k a, t) \<in> set gops \<longrightarrow> RtService (OpGate (Approve k a)) \<in> set ops))"

definition gated_ok :: "live_gate \<Rightarrow> runtime_op list \<Rightarrow> client_state service \<Rightarrow> bool" where
  "gated_ok g ops s \<longleftrightarrow> gate_history g ops (w_gate (snd s)) \<and> list_all (frame_ok g ops) (mc_frames (w_client (snd s)))"

lemma gated_mono: "gated_ok g ops s \<Longrightarrow> gated_ok g (ops @ [x]) s"
  by (fastforce simp: gated_ok_def gate_history_def list_all_iff frame_ok_def human_sanctioned_def)

lemma gate_history_step:
  assumes "gate_history g ops s" and "\<And>k a. fst x = Approve k a \<Longrightarrow> RtService (OpGate (Approve k a)) \<in> set ops"
  shows "gate_history g ops (snd (gate_step g x s))"
proof -
  obtain gops where h: "approvals_human g gops s" "\<forall>k a t. (Approve k a, t) \<in> set gops \<longrightarrow> RtService (OpGate (Approve k a)) \<in> set ops"
    using assms(1) by (auto simp: gate_history_def)
  have keyed: "approvals_keyed s" using assms(1) by (simp add: gate_history_def)
  show ?thesis
    unfolding gate_history_def
    using gate_step_keyed [OF keyed, of g x] approvals_human_step [OF keyed h(1), of x] h(2) assms(2)
    by (intro conjI exI [of _ "gops @ [x]"]) auto
qed

text \<open>An authorized boundary check names the human.\<close>

lemma boundary_names_human:
  assumes "gate_history g ops s" and "fst (assert_consumed_authorization g i now s) = Inr ()" and "frame_of_intent i fr"
  shows "human_sanctioned g ops fr"
proof -
  obtain r where r: "get_approval (oi_order_intent_id i) (gs_store s) = Some r" "ar_status r = AP_CONSUMED" "matches_intent g r i"
    using boundary_check_exact [of g i now s] assms(2) by auto
  obtain gops where h: "approvals_human g gops s" "\<forall>k a t. (Approve k a, t) \<in> set gops \<longrightarrow> RtService (OpGate (Approve k a)) \<in> set ops"
    using assms(1) by (auto simp: gate_history_def)
  then have "human_approved g gops (oi_order_intent_id i) r" using r(1,2) by (simp add: approvals_human_def)
  then show ?thesis using r(3) h(2) assms(3) unfolding human_approved_def human_sanctioned_def by blast
qed

text \<open>What keeps the approvals and adds no bad frame keeps the discipline.\<close>

lemma gated_frame [frame_inv]: "service_frame (gated_ok g ops)"
  by (simp add: service_frame_def gated_ok_def)

lemma gated_quiet_store:
  "same_core s s' \<Longrightarrow> gate_history g ops (w_gate (snd s)) = gate_history g ops (w_gate (snd s'))"
  by (simp add: same_core_def gate_history_def approvals_keyed_def approvals_human_def)

lemma gated_on_client: "(\<And>x. mc_frames (snd (m x)) = mc_frames x) \<Longrightarrow> keeps (gated_ok g ops) (on_client m)"
  by (rule keepsI) (auto simp: gated_ok_def on_client_run split: prod.split, metis snd_conv)

lemma gated_send:
  assumes "frame_ok g ops (with_checksum (cc_checksum k) cmd)"
  shows "keeps (gated_ok g ops) (send_command c k cmd)"
proof -
  have put: "keeps (gated_ok g ops) (on_client (modify (\<lambda>m. m\<lparr>mc_frames := mc_frames m @ [with_checksum (cc_checksum k) cmd]\<rparr>)))"
    by (rule keepsI) (use assms in \<open>auto simp: gated_ok_def on_client_run\<close>)
  have tail: "keeps (gated_ok g ops) (case answer of Inl e \<Rightarrow> raise e
     | Inr reply \<Rightarrow>
         seq (guard (wr_correlation_id reply = Some (cmd_message_id cmd)) (protocol_error SCHEMA_INVALID)) (\<lambda>_.
         if wr_body reply = ReplyHeartbeat
         then seq (clock_now c) (\<lambda>t. seq (on_client (modify (monitor_heartbeat t))) (\<lambda>_. ret (wr_body reply)))
         else ret (wr_body reply)))" for answer
    by (auto intro!: ot_inv frame_inv gated_on_client simp: monitor_heartbeat_def split: sum.split)
  show ?thesis unfolding send_command_def
    by (intro ot_inv frame_inv put tail) (auto intro!: gated_on_client)
qed

lemma gated_deciding:
  assumes "deciding m"
  shows "keeps (gated_ok g ops) m"
proof (rule keepsI)
  fix s assume "gated_ok g ops s"
  moreover have "same_core s (snd (m s))" "w_client (snd (snd (m s))) = w_client (snd s)"
    using assms unfolding deciding_def quiet_def by blast+
  ultimately show "gated_ok g ops (snd (m s))"
    using gated_quiet_store [of s "snd (m s)" g ops] by (simp add: gated_ok_def)
qed

lemma seq_construct: "seq (construct_command cmd) f =
    (if valid_command cmd then f cmd else raise (ValueError ''CommandMessage''))"
  by (simp add: construct_command_def del: valid_command.simps)

lemma gated_client_leaves:
  "keeps (gated_ok g ops) (next_sequence sid)" "keeps (gated_ok g ops) (expect_order_reply body)"
  unfolding next_sequence_def expect_order_reply_def
  by (auto intro!: gated_on_client ot_inv split: reply_body.split)

lemma gated_mutation:
  assumes "quiet_config k"
  shows "keeps (gated_ok g ops) (assert_mutation k cmd)"
  using assms by (cases "cc_live_mutation_authorizer k") (auto simp: assert_mutation_def quiet_config_def intro!: ot_inv intro: gated_deciding)

lemma frame_ok_other: "cmd_type cmd \<noteq> SUBMIT_ORDER \<Longrightarrow> frame_ok g ops (with_checksum d cmd)"
  by (simp add: frame_ok_def)

lemma gated_cancel:
  assumes "quiet_config k"
  shows "keeps (gated_ok g ops) (client_cancel_order c k a)"
  unfolding client_cancel_order_def seq_construct
  by (intro ot_inv frame_inv gated_client_leaves gated_mutation [OF assms] gated_send frame_ok_other)
    (simp add: blank_command_def)

lemma gated_reconcile: "keeps (gated_ok g ops) (client_reconcile c k)"
proof -
  have "keeps (gated_ok g ops) (case body of ReplyReconciliation r \<Rightarrow> ret r | _ \<Rightarrow> raise e)" for body e
    by (auto intro!: ot_inv split: reply_body.split)
  then show ?thesis
    unfolding client_reconcile_def seq_construct
    by (intro ot_inv frame_inv gated_client_leaves gated_send frame_ok_other) (simp add: blank_command_def)
qed

lemma gated_resync: "keeps (gated_ok g ops) (resync_sequences m)"
  unfolding resync_sequences_def by (auto intro!: ot_inv gated_on_client)

lemma gated_poll: "keeps (gated_ok g ops) (poll_event c)"
proof -
  have "keeps (gated_ok g ops) (case raw of Inl e \<Rightarrow> raise e
         | Inr (HeartbeatEvent t) \<Rightarrow>
             seq (clock_now c) (\<lambda>now. seq (on_client (modify (monitor_heartbeat now))) (\<lambda>_.
               ret (Some (HeartbeatEvent t))))
         | Inr ev \<Rightarrow> ret (Some ev))" for raw
    by (auto intro!: ot_inv frame_inv gated_on_client simp: monitor_heartbeat_def split: sum.split wire_event.split)
  then show ?thesis
    unfolding poll_event_def by (auto intro!: ot_inv gated_on_client split: list.split)
qed

lemma gated_drain: "keeps (gated_ok g ops) (client_drain_events c)"
proof -
  have "keeps (gated_ok g ops) (drain_loop c n evs)" for n evs
    by (induction n arbitrary: evs) (auto intro!: ot_inv gated_poll)
  then show ?thesis unfolding client_drain_events_def by (auto intro!: ot_inv gated_on_client simp del: drain_loop.simps)
qed

text \<open>The submission: what the authorizer of a gated runtime lets through has a human behind it.\<close>

definition fits :: "submit_args \<Rightarrow> command \<Rightarrow> bool" where
  "fits a fr \<longleftrightarrow> cmd_order_intent_id fr = Some (sa_order_intent_id a) \<and> cmd_strategy_id fr = sa_strategy_id a \<and>
     cmd_strategy_version fr = sa_strategy_version a \<and> cmd_symbol fr = Some (sa_symbol a) \<and>
     cmd_side fr = Some (sa_side a) \<and> cmd_quantity fr = Some (sa_quantity a) \<and>
     cmd_order_type fr = Some (sa_order_type a) \<and> cmd_price fr = sa_price a \<and> cmd_stop_loss fr = sa_stop_loss a \<and>
     cmd_take_profit fr = sa_take_profit a \<and> cmd_max_slippage fr = sa_max_slippage a \<and> cmd_time_in_force fr = GTC"

lemma live_authorizer_gated:
  assumes "sc_live_gate c = Some g" and "sc_live_auto c = None" and "oi_strategy_id i \<noteq> emergency_strategy_id"
    and "live_authorizer c i (e, w) = (Inr (), s')"
  shows "\<exists>now. fst (assert_consumed_authorization g i now (w_gate w)) = Inr ()"
  using assms
  by (auto simp: live_authorizer_def clock_now_def seq_run next_of_run on_gate_def on_world_run zoom_def split: prod.splits)
    (metis fst_conv)

lemma authorized_frame_ok:
  assumes g: "sc_live_gate c = Some g" "sc_live_auto c = None" and mode: "ls_operating_mode st = OM_LIVE_GATED"
    and hist: "gate_history g ops (w_gate w)"
    and auth: "authorize_submission (live_client_config parts st c) a (e, w) = (Inr (), s')" and fits: "fits a fr"
  shows "frame_ok g ops fr"
proof -
  obtain i where i: "sa_live_intent a = Some i"
    using auth mode by (cases "sa_live_intent a") (auto simp: authorize_submission_def live_client_config_def)
  then have m: "intent_matches_args i a" and l: "live_authorizer c i (e, w) = (Inr (), s')"
    using auth mode by (auto simp: authorize_submission_def live_client_config_def split: if_splits)
  have f: "frame_of_intent i fr" using m fits by (simp add: intent_matches_args_def fits_def frame_of_intent_def)
  show ?thesis
  proof (cases "oi_strategy_id i = emergency_strategy_id")
    case True
    then show ?thesis using f by (simp add: frame_ok_def frame_of_intent_def)
  next
    case False
    from live_authorizer_gated [OF g False l] obtain now where "fst (assert_consumed_authorization g i now (w_gate w)) = Inr ()" by blast
    from boundary_names_human [OF hist this f] show ?thesis by (simp add: frame_ok_def)
  qed
qed

lemma gated_submit:
  assumes g: "sc_live_gate c = Some g" "sc_live_auto c = None" and mode: "ls_operating_mode st = OM_LIVE_GATED"
  shows "keeps (gated_ok g ops) (client_submit_order c (live_client_config parts st c) a)"
proof (rule keepsI)
  let ?k = "live_client_config parts st c"
  fix s assume ok: "gated_ok g ops s"
  obtain e w where s: "s = (e, w)" by (cases s)
  obtain r0 s0 where 0: "authorize_submission ?k a s = (r0, s0)" by (metis prod.exhaust)
  have auth: "keeps (gated_ok g ops) (authorize_submission ?k a)"
    using live_config_quiet [of parts st c]
    by (auto simp: authorize_submission_def quiet_config_def intro!: ot_inv intro: gated_deciding split: option.split)
  have ok0: "gated_ok g ops s0" using keeps_run [OF auth ok 0] .
  show "gated_ok g ops (snd (client_submit_order c ?k a s))"
  proof (cases r0)
    case (Inl x)
    then show ?thesis using 0 ok0 by (simp add: client_submit_order_def)
  next
    case (Inr u)
    have fr: "frame_ok g ops fr" if "fits a fr" for fr
      by (rule authorized_frame_ok [OF g mode _ _ that]) (use ok 0 Inr s in \<open>auto simp: gated_ok_def\<close>)
    have "keeps (gated_ok g ops) (seq (uuid4 c) (\<lambda>mid.
     seq (clock_now c) (\<lambda>now.
     seq (next_sequence (sa_strategy_id a)) (\<lambda>n.
     seq (case sa_expires_at a of Some t \<Rightarrow> ret t | None \<Rightarrow> seq (clock_now c) (\<lambda>t. ret (t + seconds 30))) (\<lambda>expires.
     seq (construct_command ((blank_command SUBMIT_ORDER mid now n (sa_strategy_id a) (sa_strategy_version a))
        \<lparr>cmd_trace_id := sa_trace_id a, cmd_order_intent_id := Some (sa_order_intent_id a),
         cmd_expires_at := Some expires, cmd_symbol := Some (sa_symbol a), cmd_side := Some (sa_side a),
         cmd_quantity := Some (sa_quantity a), cmd_order_type := Some (sa_order_type a),
         cmd_price := sa_price a, cmd_stop_loss := sa_stop_loss a, cmd_take_profit := sa_take_profit a,
         cmd_max_slippage := sa_max_slippage a, cmd_time_in_force := GTC\<rparr>)) (\<lambda>command.
     seq (send_command c ?k command) expect_order_reply))))))"
      unfolding seq_construct
      by (intro ot_inv frame_inv gated_client_leaves gated_send fr)
        (simp add: fits_def with_checksum_def blank_command_def)
    from keepsD [OF this ok0] show ?thesis
      using 0 Inr by (simp add: client_submit_order_def seq_run [of "authorize_submission k a" for k])
  qed
qed

text \<open>The operations of the service on top of it.\<close>

lemma gated_consume:
  assumes "gated_ok g ops (e, w)"
  shows "gated_ok g ops (snd (on_gate (consume g attests intent p now) (e, w)))"
  using assms gate_history_step [of g ops "w_gate w" "(Consume attests intent p, now)"]
  by (auto simp: gated_ok_def on_gate_def on_world_run zoom_def split: prod.split)

lemma frame_em_emit [frame_inv]: "service_frame P \<Longrightarrow> keeps P (em_emit n a r)"
  unfolding em_emit_def by (intro ot_inv frame_inv)

lemma frame_activate [frame_inv]:
  assumes "service_frame P" and "\<And>r. keeps P (f r)" and "\<And>r. keeps P (h r)"
  shows "keeps P (activate policy (Some f) (Some h) l t a r now)"
proof (cases "validate_target l t")
  case (Inl e)
  then show ?thesis by (auto simp: activate_def intro!: ot_inv)
next
  case (Inr u)
  show ?thesis
    unfolding activate_def run_emergency_side_effects_def Let_def Inr sum.case
    by (intro ot_inv frame_inv assms)
qed

lemma frame_deactivate [frame_inv]:
  assumes "service_frame P"
  shows "keeps P (deactivate l t a r now)"
proof (cases "validate_target l t")
  case (Inl e)
  then show ?thesis by (auto simp: deactivate_def intro!: ot_inv)
next
  case (Inr u)
  then show ?thesis by (auto simp: deactivate_def intro!: ot_inv frame_inv assms split: prod.split)
qed

text \<open>
  The interface between the service and a client that keeps an invariant of the wire and the approvals:
  every operation of the service keeps it as soon as the five operations of the client and the consumption of an approval do.
\<close>

locale guarded_client =
  fixes P :: "'c service \<Rightarrow> bool" and c :: service_config and cl :: "'c client"
  assumes frame: "service_frame P"
    and submit_keeps: "keeps P (cl_submit_order cl a)"
    and cancel_keeps: "keeps P (cl_cancel_order cl b)"
    and reconcile_keeps: "keeps P (cl_reconcile cl)"
    and resync_keeps: "keeps P (cl_resync_sequences cl m)"
    and drain_keeps: "keeps P (cl_drain_events cl)"
    and sent_free: "P s \<Longrightarrow> P (fst s, (snd s)\<lparr>w_sent := sent\<rparr>)"
    and consume_keeps: "sc_live_gate c = Some g \<Longrightarrow> keeps P (on_gate (consume g attests intent p now))"
begin

lemma send_keeps: "keeps P (send_submit cl args)"
proof -
  have "keeps P (on_world (modify (\<lambda>w. w\<lparr>w_sent := w_sent w @ [(args, w_store w)]\<rparr>)))"
    by (rule keepsI) (auto simp: on_world_run dest: sent_free)
  then show ?thesis unfolding send_submit_def by (intro ot_inv submit_keeps)
qed

lemma flatten_keeps: "keeps P (flatten_positions c cl r)"
  unfolding flatten_positions_def flatten_position_def Let_def by (intro ot_inv frame_inv frame send_keeps)

lemma check_keeps: "keeps P (check_emergency c cl)"
  by (intro frame_inv frame flatten_keeps)

lemma pump_keeps: "keeps P (drain_events c cl)"
  by (intro frame_inv frame flatten_keeps drain_keeps)

lemma cancel_pending_keeps: "keeps P (cancel_pending_orders c cl r)"
proof -
  have "keeps P (case reply of
            OrderAck message_id _ _ \<Rightarrow>
              seq (applying c (record_cancelled oid (Some (uuid_str message_id)) None)) (\<lambda>_. ret ())
          | OrderReject _ _ \<Rightarrow> ret ())" for reply oid
    by (auto intro!: ot_inv frame_inv frame split: venue_reply.split)
  then show ?thesis unfolding cancel_pending_orders_def cancel_pending_def by (intro ot_inv frame_inv frame cancel_keeps)
qed

lemma authorize_keeps: "keeps P (authorize c i a p d)"
  unfolding authorize_def by (auto intro!: ot_inv frame_inv frame consume_keeps split: option.split)

lemma submit_path_keeps: "keeps P (submit c cl i v a p d)"
proof -
  have "keeps P (assert_can_enter x y)" for x y
    unfolding assert_can_enter_def by (auto intro!: ot_inv)
  moreover have "keeps P (persist_submission c i v)" by (intro frame_inv frame)
  ultimately show ?thesis
    unfolding submit_def by (auto intro!: ot_inv frame_inv frame check_keeps pump_keeps authorize_keeps send_keeps split: option.split)
qed

lemma startup_keeps: "keeps P (startup_reconciliation c cl)"
proof -
  have "keeps P (catch_protocol_error (cl_reconcile cl))"
    unfolding catch_protocol_error_def by (rule keeps_handle) (auto intro!: ot_inv reconcile_keeps split: exn.split)
  moreover have "keeps P (broker_unreachable c t)" for t
    unfolding broker_unreachable_def record_unreachable_run_def emit_reconciliation_event_def by (intro ot_inv frame_inv frame)
  moreover have "keeps P (reconcile_with c cl b v)" for b v
    unfolding reconcile_with_def react_to_run_def emit_reconciliation_event_def by (intro ot_inv frame_inv frame resync_keeps)
  ultimately show ?thesis unfolding startup_reconciliation_def by (intro ot_inv frame_inv frame check_keeps)
qed

lemma service_step_keeps:
  assumes "\<And>g now h. opn = OpGate h \<Longrightarrow> sc_live_gate c = Some g \<Longrightarrow> keeps P (on_gate (gate_step g (h, now)))" and "P s"
  shows "P (service_step c cl opn s)"
proof (cases opn)
  case (OpActivate l t a r)
  have "keeps P (seq (clock_now c) (activate policy (Some (cancel_pending_orders c cl)) (Some (flatten_positions c cl)) l t a r))" for policy
    by (intro ot_inv frame_inv frame cancel_pending_keeps flatten_keeps)
  from keepsD [OF this assms(2)] show ?thesis using OpActivate assms(2) by (simp split: option.split)
next
  case (OpDeactivate l t a r)
  have "keeps P (seq (clock_now c) (deactivate l t a r))" by (intro ot_inv frame_inv frame)
  from keepsD [OF this assms(2)] show ?thesis using OpDeactivate assms(2) by (simp split: option.split)
next
  case (OpGate h)
  have "keeps P (seq (clock_now c) (\<lambda>now. on_gate (gate_step g (h, now))))" if "sc_live_gate c = Some g" for g
    by (intro ot_inv frame_inv frame assms(1) [OF OpGate that])
  from keepsD [OF this assms(2)] show ?thesis using OpGate assms(2) by (simp split: option.split)
next
  case (OpRegistry r)
  have "keeps P (seq (clock_now c) (\<lambda>now. on_registry (modify (registry_step lac (r, now)))))" for lac
    by (intro ot_inv frame_inv frame)
  from keepsD [OF this assms(2)] show ?thesis using OpRegistry assms(2) by (simp split: option.split)
qed (use assms(2) in \<open>simp_all add: keepsD [OF submit_path_keeps] keepsD [OF pump_keeps] keepsD [OF startup_keeps]
      keepsD [OF check_keeps] keepsD [OF cancel_pending_keeps] keepsD [OF flatten_keeps]\<close>)

end

interpretation gated: guarded_client "gated_ok g ops" "live_service_config parts st policy (Some g) None"
    "mt4_client (live_service_config parts st policy (Some g) None)
       (live_client_config parts (st'\<lparr>ls_operating_mode := OM_LIVE_GATED\<rparr>) (live_service_config parts st policy (Some g) None))"
  for g ops parts st policy st'
proof
  show "keeps (gated_ok g ops) (on_gate (consume g' attests intent p now))"
    if "sc_live_gate (live_service_config parts st policy (Some g) None) = Some g'" for g' attests intent p now
    using that gated_consume by (intro keepsI) (auto simp: split_paired_all live_service_config_def)
qed (use gated_cancel [OF live_config_quiet] gated_reconcile gated_resync gated_drain in
    \<open>simp_all add: mt4_client_def gated_submit gated_frame live_service_config_def, simp_all add: gated_ok_def\<close>)

lemma gated_runtime_step:
  assumes ok: "gated_ok g ops s" and mode: "ls_operating_mode st = OM_LIVE_GATED"
    and c: "c = live_service_config parts st policy (Some g) None"
  shows "gated_ok g (ops @ [x]) (runtime_step c (live_client_config parts st c) x s)"
proof -
  let ?P = "gated_ok g (ops @ [x])"
  have st: "st\<lparr>ls_operating_mode := OM_LIVE_GATED\<rparr> = st" using mode by simp
  note live_steps = gated.service_step_keeps [where g = g and parts = parts and policy = policy and st = st and st' = st, unfolded st, folded c]
    gated.startup_keeps [where g = g and parts = parts and policy = policy and st = st and st' = st, unfolded st, folded c]
  have ok': "?P s" by (rule gated_mono [OF ok])
  have c': "keeps ?P (connect c)" "keeps ?P close" "keeps ?P (on_client (modify (\<lambda>m. m\<lparr>mc_inbox := mc_inbox m @ [raw]\<rparr>)))" for raw
    unfolding connect_def close_def by (auto intro!: ot_inv frame_inv gated_on_client simp: mark_connected_def)
  have start: "keeps ?P (connect_and_reconcile c (live_client_config parts st c))"
    unfolding connect_and_reconcile_def by (intro ot_inv c'(1) live_steps(2))
  show ?thesis
  proof (cases x)
    case (RtService y)
    have "keeps ?P (on_gate (gate_step g' (h, now)))" if "y = OpGate h" "sc_live_gate c = Some g'" for g' h now
    proof (rule keepsI)
      fix s assume "?P s"
      moreover have "g' = g" using that(2) c by (simp add: live_service_config_def)
      ultimately show "?P (snd (on_gate (gate_step g' (h, now)) s))"
        using gate_history_step [of g "ops @ [x]" "w_gate (snd s)" "(h, now)"] RtService that(1)
        by (cases s) (auto simp: gated_ok_def on_gate_def on_world_run zoom_def split: prod.split)
    qed
    then show ?thesis using RtService live_steps(1) [OF _ ok'] by simp
  qed (use keepsD [OF start ok'] keepsD [OF c'(2) ok'] keepsD [OF c'(3) ok'] in simp_all)
qed

lemma gated_run:
  assumes "ls_operating_mode st = OM_LIVE_GATED" and "c = live_service_config parts st policy (Some g) None"
  shows "gated_ok g ops (run_runtime c (live_client_config parts st c) ops (runtime_start armed))"
proof (induction ops rule: rev_induct)
  case Nil
  show ?case
    by (auto simp: run_runtime_def gated_ok_def gate_history_def runtime_start_def starting_world_def idle_client_def
        approvals_human_def empty_gate_def get_approval_def intro: exI [of _ "[]"])
      (simp add: empty_gate_keyed [unfolded empty_gate_def])
next
  case (snoc x ops)
  from gated_runtime_step [OF this assms] show ?case by (simp add: run_runtime_def)
qed

text \<open>
  C1: no live order on the wire without a human. Take any run of a LIVE_GATED runtime that the builder accepts, with
  whatever orders, approvals, kill switches, emergencies, restarts and answers of the venue. Every submission
  frame on the command socket is either a closure of the emergency controller, or it carries exactly the fields of an
  order intent for which an operator with a name entered an approval in this run, and the gate holds that approver's
  signature over a record made for this very intent.
\<close>

theorem wire_order_needs_a_human:
  assumes "build_live_execution_runtime parts st = Inr (c, k)" and "ls_operating_mode st = OM_LIVE_GATED"
  shows "\<exists>g. sc_live_gate c = Some g \<and>
    list_all (\<lambda>fr. cmd_type fr = SUBMIT_ORDER \<longrightarrow> cmd_strategy_id fr = emergency_strategy_id \<or> human_sanctioned g ops fr)
      (mc_frames (w_client (snd (run_runtime c k ops (runtime_start armed)))))"
proof -
  obtain g policy where c: "c = live_service_config parts st policy (Some g) None" and k: "k = live_client_config parts st c"
    using assms by (auto simp: build_live_execution_runtime_def gate_or_registry_def rbind_Inr_iff client_init_def
        service_init_def Let_def split: if_splits option.splits)
  from gated_run [OF assms(2) c, of ops armed] show ?thesis
    unfolding gated_ok_def frame_ok_def using k c by (simp add: live_service_config_def)
qed

definition example_run :: "runtime_op list" where
  "example_run = [RtConnect,
     RtService (OpGate (RequestApproval False 1 example_live_intent (example_quote 1 0))),
     RtService (OpGate (Approve 5 ''ana'')),
     RtService (OpSubmit example_live_intent ''mt4'' False (Some (example_quote 1 0)) None)]"

theorem wire_order_needs_a_human_witness:
  "\<exists>c k g. build_live_execution_runtime example_parts example_settings = Inr (c, k) \<and> sc_live_gate c = Some g \<and>
     list_all (\<lambda>fr. cmd_type fr = SUBMIT_ORDER \<longrightarrow> cmd_strategy_id fr = emergency_strategy_id \<or> human_sanctioned g example_run fr)
       (mc_frames (w_client (snd (run_runtime c k example_run (runtime_start 0)))))"
proof -
  let ?b = "build_live_execution_runtime example_parts example_settings"
  have "\<not> isl ?b" by code_simp
  then obtain c k where b: "?b = Inr (c, k)" by (cases ?b) auto
  have "ls_operating_mode example_settings = OM_LIVE_GATED" by (simp add: example_settings_def)
  from wire_order_needs_a_human [OF b this] b show ?thesis by blast
qed

section \<open>Provenance of a position\<close>

text \<open>
  The provenance of a position survives the wire. A venue that reports the order intent behind a position in its
  canonical text form, among whatever other source ids, is understood exactly: the reconciler's view of the
  position and the stored position carry this very intent.
\<close>

lemma provenance_round_trip:
  assumes "u < 2 ^ 128" and "map_of (ven_source_ids v) ''order_intent_id'' = Some (uuid_str u)"
  shows "vp_order_intent_id (view_position v) = Some u \<and> ep_order_intent_id (snapshot_position account v) = Some u"
  using assms by (simp add: view_position_def snapshot_position_def Let_def provenance_intent_def uuid_round_trip)

theorem provenance_round_trip_witness:
  "\<exists>v. map_of (ven_source_ids v) ''order_intent_id'' = Some (uuid_str 255) \<and> vp_order_intent_id (view_position v) = Some 255"
proof -
  obtain v :: venue_position where v: "ven_source_ids v = [(''venue'', ''mt4''), (''order_intent_id'', uuid_str 255)]"
    by (metis venue_position.select_convs(4))
  from provenance_round_trip [of 255 v] show ?thesis by (intro exI [of _ v]) (simp add: v)
qed

end
