(* ===== verification/Mt4_Broker.thy ===== *)
theory Mt4_Broker
  imports Mt4_Bridge Risk_Sizing
begin

text \<open>
  The deterministic venue behind the emulator, \<open>SimulatedBroker\<close> of
  \<^verbatim>\<open>adapters/mt4/broker.py\<close>: quotes, the checks made before an order is accepted, the matching of resting
  orders, partial fills, and the book of positions.

  The state is mutable, and an order object is shared between the dictionary of working orders and the
  method that fills it; the model writes the changed order back to the dictionary at the point where
  the code assigns its field. Two functions are parameters: the draws of the seeded random generator, already
  converted to a decimal, and the magic number of a strategy, which is a hash. Left out of the
  events are their identifiers and time stamps, which the emulator fills in, and the content of the account snapshot.
\<close>

section \<open>Configuration\<close>

record symbol_spec =
  ss_min_lot :: decimal
  ss_max_lot :: decimal
  ss_lot_step :: decimal
  ss_contract_size :: decimal
  ss_spread :: decimal
  ss_max_spread :: decimal
  ss_stop_level :: decimal
  ss_freeze_level :: decimal
  ss_initial_mid :: decimal
  ss_vol_per_step :: decimal
  ss_digits :: nat

definition valid_symbol_spec :: "symbol_spec \<Rightarrow> bool" where
  "valid_symbol_spec s \<longleftrightarrow> 0 < ss_min_lot s \<and> 0 < ss_max_lot s \<and> 0 < ss_lot_step s \<and> 0 < ss_contract_size s \<and>
     0 \<le> ss_spread s \<and> 0 < ss_max_spread s \<and> 0 \<le> ss_stop_level s \<and> 0 \<le> ss_freeze_level s \<and>
     0 < ss_initial_mid s \<and> 0 \<le> ss_vol_per_step s \<and> ss_digits s \<le> 8"

definition default_symbol_spec :: symbol_spec where
  "default_symbol_spec = \<lparr>ss_min_lot = 1 / 100, ss_max_lot = 100, ss_lot_step = 1 / 100, ss_contract_size = 100000,
     ss_spread = 12 / 100000, ss_max_spread = 3 / 10000, ss_stop_level = 5 / 10000, ss_freeze_level = 0,
     ss_initial_mid = 108 / 100, ss_vol_per_step = 5 / 100000, ss_digits = 5\<rparr>"

record broker_config =
  bc_account_id :: string
  bc_is_demo :: bool
  bc_balance :: decimal
  bc_leverage :: decimal
  bc_symbols :: "(string, symbol_spec) dict"
  bc_market_open :: bool
  bc_max_quote_age :: duration
  bc_partial_fill_ratio :: decimal
  bc_commission_per_lot :: decimal
  bc_magic_whitelist :: "int list"

definition valid_broker_config :: "broker_config \<Rightarrow> bool" where
  "valid_broker_config c \<longleftrightarrow> bc_account_id c \<noteq> [] \<and> 0 < bc_balance c \<and> 0 < bc_leverage c \<and> 0 < bc_max_quote_age c \<and>
     0 < bc_partial_fill_ratio c \<and> bc_partial_fill_ratio c \<le> 1 \<and> 0 \<le> bc_commission_per_lot c \<and>
     bc_symbols c \<noteq> [] \<and> distinct (map fst (bc_symbols c)) \<and> list_all (\<lambda>(k, s). valid_symbol_spec s) (bc_symbols c)"

record broker_env =
  be_config :: broker_config
  be_draw :: "string \<Rightarrow> nat \<Rightarrow> decimal"
  be_magic :: "string \<Rightarrow> int"

section \<open>State\<close>

record working_order =
  wo_venue_order_id :: string
  wo_order_intent_id :: uuid
  wo_strategy_id :: string
  wo_symbol :: string
  wo_side :: order_side
  wo_order_type :: order_type
  wo_quantity :: decimal
  wo_remaining :: decimal
  wo_price :: "decimal option"
  wo_stop_loss :: "decimal option"
  wo_take_profit :: "decimal option"
  wo_magic :: int
  wo_ref_price :: decimal
  wo_max_slippage :: decimal

text \<open>The dictionaries of the quote engine are the fields \<open>bk_mids\<close>, \<open>bk_last_quote_at\<close> and \<open>bk_draws\<close>.\<close>

record broker =
  bk_trading_enabled :: bool
  bk_positions :: "(string, venue_position) dict"
  bk_working :: "(string, working_order) dict"
  bk_counter :: nat
  bk_balance :: decimal
  bk_realized :: decimal
  bk_mids :: "(string, decimal) dict"
  bk_last_quote_at :: "(string, instant) dict"
  bk_draws :: "(string, nat) dict"

type_synonym 'a broker_prog = "(broker, exn, 'a) prog"

definition item :: "string \<Rightarrow> 'a option \<Rightarrow> 'a broker_prog" where
  "item key v = (case v of None \<Rightarrow> raise (KeyError key) | Some x \<Rightarrow> ret x)"

definition decimal_result :: "decimal_error + 'a \<Rightarrow> 'a broker_prog" where
  "decimal_result r = (case r of Inl e \<Rightarrow> raise (DecimalError e) | Inr x \<Rightarrow> ret x)"

definition spec_of :: "broker_env \<Rightarrow> string \<Rightarrow> symbol_spec broker_prog" where
  "spec_of env symbol = item symbol (map_of (bc_symbols (be_config env)) symbol)"

section \<open>Quotes\<close>

definition draws_of :: "string \<Rightarrow> broker \<Rightarrow> nat" where
  "draws_of symbol b = (case map_of (bk_draws b) symbol of None \<Rightarrow> 0 | Some n \<Rightarrow> n)"

definition quote_step :: "broker_env \<Rightarrow> string \<Rightarrow> instant \<Rightarrow> unit broker_prog" where
  "quote_step env symbol now =
     seq (spec_of env symbol) (\<lambda>spec.
     seq (reads (draws_of symbol)) (\<lambda>n.
     seq (modify (\<lambda>b. b\<lparr>bk_draws := AList.update symbol (n + 1) (bk_draws b)\<rparr>)) (\<lambda>_.
     seq (reads (\<lambda>b. map_of (bk_mids b) symbol)) (\<lambda>m.
     seq (item symbol m) (\<lambda>mid.
     seq (decimal_result (quantize (dadd mid (dmul (be_draw env symbol n) (ss_vol_per_step spec))) (- int (ss_digits spec)))) (\<lambda>mid'.
     modify (\<lambda>b. b\<lparr>bk_mids := AList.update symbol mid' (bk_mids b),
                   bk_last_quote_at := AList.update symbol now (bk_last_quote_at b)\<rparr>)))))))"

text \<open>The specification of a symbol with its bid and ask.\<close>

definition book :: "broker_env \<Rightarrow> string \<Rightarrow> (symbol_spec \<times> decimal \<times> decimal) broker_prog" where
  "book env symbol =
     seq (spec_of env symbol) (\<lambda>spec.
     seq (reads (\<lambda>b. map_of (bk_mids b) symbol)) (\<lambda>m.
     seq (item symbol m) (\<lambda>mid.
     let half = ddiv_nz (ss_spread spec) 2 in ret (spec, dsub mid half, dadd mid half))))"

definition quote_stale :: "broker_env \<Rightarrow> string \<Rightarrow> instant \<Rightarrow> broker \<Rightarrow> bool" where
  "quote_stale env symbol now b =
     (case map_of (bk_last_quote_at b) symbol of
        None \<Rightarrow> True
      | Some t \<Rightarrow> bc_max_quote_age (be_config env) < now - t)"

section \<open>Account\<close>

record venue_account =
  va_balance :: decimal
  va_equity :: decimal
  va_margin :: decimal
  va_free_margin :: decimal

definition position_margin :: "broker_env \<Rightarrow> venue_position \<Rightarrow> decimal broker_prog" where
  "position_margin env v =
     seq (spec_of env (pos_instrument_id (ven_position v))) (\<lambda>spec.
     ret (ddiv_nz (dmul (pos_quantity (ven_position v)) (ss_contract_size spec)) (bc_leverage (be_config env))))"

primrec sum_margin :: "broker_env \<Rightarrow> venue_position list \<Rightarrow> decimal \<Rightarrow> decimal broker_prog" where
  "sum_margin env [] amount = ret amount"
| "sum_margin env (v # vs) amount = seq (position_margin env v) (\<lambda>m. sum_margin env vs (dadd amount m))"

definition venue_account_state :: "broker_env \<Rightarrow> venue_account broker_prog" where
  "venue_account_state env =
     seq (reads (\<lambda>b. map snd (bk_positions b))) (\<lambda>positions.
     seq (sum_margin env positions 0) (\<lambda>margin.
     seq (guard (0 \<le> margin) (ValueError ''AccountState'')) (\<lambda>_.
     reads (\<lambda>b. let equity = dadd (bk_balance b) (bk_realized b) in
       \<lparr>va_balance = bk_balance b, va_equity = equity, va_margin = margin, va_free_margin = dsub equity margin\<rparr>))))"

definition broker_next_id :: "string \<Rightarrow> string broker_prog" where
  "broker_next_id prefix =
     seq (modify (\<lambda>b. b\<lparr>bk_counter := bk_counter b + 1\<rparr>)) (\<lambda>_.
     reads (\<lambda>b. prefix @ ''-'' @ decimal_str (bk_counter b)))"

definition working_by_intent :: "uuid \<Rightarrow> broker \<Rightarrow> working_order option" where
  "working_by_intent oid b = find (\<lambda>o'. wo_order_intent_id o' = oid) (map snd (bk_working b))"

definition position_by_intent :: "uuid \<Rightarrow> broker \<Rightarrow> venue_position option" where
  "position_by_intent oid b =
     find (\<lambda>v. map_of (ven_source_ids v) ''order_intent_id'' = Some (uuid_str oid)) (map snd (bk_positions b))"

definition broker_open_order_intent_ids :: "broker \<Rightarrow> uuid list" where
  "broker_open_order_intent_ids b = map (\<lambda>x. wo_order_intent_id (snd x)) (bk_working b)"

definition set_trading_enabled :: "bool \<Rightarrow> unit broker_prog" where
  "set_trading_enabled v = modify (\<lambda>b. b\<lparr>bk_trading_enabled := v\<rparr>)"

definition open_manual_position ::
    "position_snapshot \<Rightarrow> (string, string) dict \<Rightarrow> int \<Rightarrow> venue_position broker_prog" where
  "open_manual_position p source_ids magic =
     (let v = \<lparr>ven_venue_position_id = pos_position_id p, ven_magic = magic, ven_position = p, ven_source_ids = source_ids\<rparr> in
      seq (guard (pos_position_id p \<noteq> [] \<and> 0 \<le> magic) (ValueError ''VenuePosition'')) (\<lambda>_.
      seq (modify (\<lambda>b. b\<lparr>bk_positions := AList.update (pos_position_id p) v (bk_positions b)\<rparr>)) (\<lambda>_. ret v)))"

section \<open>Checks\<close>

definition stop_violation :: "symbol_spec \<Rightarrow> order_side \<Rightarrow> decimal \<Rightarrow> bool \<Rightarrow> decimal \<Rightarrow> bool" where
  "stop_violation spec side reference is_stop_loss v \<longleftrightarrow>
     (side = BUY \<and> is_stop_loss \<and> reference \<le> v) \<or> (side = BUY \<and> \<not> is_stop_loss \<and> v \<le> reference) \<or>
     (side = SELL \<and> is_stop_loss \<and> v \<le> reference) \<or> (side = SELL \<and> \<not> is_stop_loss \<and> reference \<le> v) \<or>
     dabs (dsub reference v) < ss_stop_level spec"

definition stop_level_rejects ::
    "symbol_spec \<Rightarrow> order_side \<Rightarrow> decimal \<Rightarrow> decimal option \<Rightarrow> decimal option \<Rightarrow> bool" where
  "stop_level_rejects spec side reference stop_loss take_profit \<longleftrightarrow>
     (case stop_loss of None \<Rightarrow> False | Some v \<Rightarrow> stop_violation spec side reference True v) \<or>
     (case take_profit of None \<Rightarrow> False | Some v \<Rightarrow> stop_violation spec side reference False v)"

definition venue_checks ::
    "broker_env \<Rightarrow> command \<Rightarrow> string \<Rightarrow> order_side \<Rightarrow> decimal \<Rightarrow> instant \<Rightarrow> mt4_error_code option broker_prog" where
  "venue_checks env c symbol side quantity now =
     seq (reads bk_trading_enabled) (\<lambda>enabled.
     if \<not> enabled then ret (Some TRADING_DISABLED)
     else if \<not> bc_market_open (be_config env) then ret (Some MARKET_CLOSED)
     else case map_of (bc_symbols (be_config env)) symbol of
       None \<Rightarrow> ret (Some SYMBOL_NOT_ALLOWED)
     | Some spec \<Rightarrow>
         if quantity < ss_min_lot spec then ret (Some LOT_LIMIT_EXCEEDED)
         else if ss_max_lot spec < quantity then ret (Some LOT_LIMIT_EXCEEDED)
         else seq (decimal_result (dmod quantity (ss_lot_step spec))) (\<lambda>rest.
           if rest \<noteq> 0 then ret (Some LOT_STEP_INVALID)
           else seq (reads (quote_stale env symbol now)) (\<lambda>stale.
             if stale then ret (Some EC_STALE_QUOTES)
             else seq (book env symbol) (\<lambda>(_, bid, ask).
               if ss_max_spread spec < dsub ask bid then ret (Some EC_SPREAD_TOO_HIGH)
               else if stop_level_rejects spec side (case cmd_price c of Some p \<Rightarrow> p | None \<Rightarrow> ask)
                 (cmd_stop_loss c) (cmd_take_profit c)
               then ret (Some STOP_LEVEL_VIOLATION)
               else seq (venue_account_state env) (\<lambda>account.
                 if va_free_margin account < ddiv_nz (dmul (dmul quantity (ss_contract_size spec)) ask) (bc_leverage (be_config env))
                 then ret (Some INSUFFICIENT_MARGIN)
                 else if bc_magic_whitelist (be_config env) \<noteq> [] \<and>
                   be_magic env (cmd_strategy_id c) \<notin> set (bc_magic_whitelist (be_config env))
                 then ret (Some INVALID_MAGIC)
                 else ret None)))))"

section \<open>Matching\<close>

definition touched :: "working_order \<Rightarrow> decimal \<Rightarrow> decimal \<Rightarrow> bool" where
  "touched w bid ask =
     (if wo_order_type w = MARKET then True
      else case wo_price w of
        None \<Rightarrow> False
      | Some p \<Rightarrow>
          if wo_order_type w = LIMIT then (if wo_side w = BUY then ask \<le> p else p \<le> bid)
          else (if wo_side w = BUY then p \<le> ask else bid \<le> p))"

definition is_touched :: "broker_env \<Rightarrow> working_order \<Rightarrow> bool broker_prog" where
  "is_touched env w =
     (if wo_order_type w = MARKET then ret True
      else if wo_price w = None then ret False
      else seq (book env (wo_symbol w)) (\<lambda>(_, bid, ask). ret (touched w bid ask)))"

text \<open>Rounding to whole lots, half up.\<close>

definition quote_lots :: "decimal \<Rightarrow> decimal \<Rightarrow> decimal" where
  "quote_lots qty step = dmul (of_int (round_half_up (ddiv_nz qty step))) step"

definition fill_price :: "working_order \<Rightarrow> decimal \<Rightarrow> decimal \<Rightarrow> decimal" where
  "fill_price w bid ask = (if wo_side w = BUY then ask else bid)"

definition fill_slippage :: "working_order \<Rightarrow> decimal \<Rightarrow> decimal" where
  "fill_slippage w price =
     (let slippage = dsub price (wo_ref_price w) in if wo_side w = SELL then dneg slippage else slippage)"

definition fill_ratio :: "broker_env \<Rightarrow> working_order \<Rightarrow> decimal" where
  "fill_ratio env w =
     (if wo_order_type w = MARKET \<and> wo_remaining w = wo_quantity w then bc_partial_fill_ratio (be_config env) else 1)"

definition fill_quantity :: "broker_env \<Rightarrow> symbol_spec \<Rightarrow> working_order \<Rightarrow> decimal broker_prog" where
  "fill_quantity env spec w =
     seq (if 1 \<le> fill_ratio env w then ret (wo_remaining w)
          else decimal_result (quantize (dmul (wo_remaining w) (fill_ratio env w)) (- 6))) (\<lambda>qty.
     ret (quote_lots qty (ss_lot_step spec)))"

text \<open>The fill is added to the position of the order intent, which is opened when there is none.\<close>

definition new_venue_position ::
    "broker_env \<Rightarrow> working_order \<Rightarrow> decimal \<Rightarrow> decimal \<Rightarrow> instant \<Rightarrow> string \<Rightarrow> venue_position" where
  "new_venue_position env w qty price now pid =
     \<lparr>ven_venue_position_id = pid, ven_magic = wo_magic w,
      ven_position = \<lparr>pos_position_id = pid, pos_account_id = bc_account_id (be_config env),
        pos_strategy_id = Some (wo_strategy_id w), pos_instrument_id = wo_symbol w,
        pos_side = (if wo_side w = BUY then PS_LONG else PS_SHORT), pos_quantity = qty,
        pos_average_entry_price = price, pos_mark_price = Some price, pos_unrealized_pnl = None, pos_as_of = now\<rparr>,
      ven_source_ids = [(''order_intent_id'', uuid_str (wo_order_intent_id w))]\<rparr>"

definition grown_position :: "venue_position \<Rightarrow> decimal \<Rightarrow> decimal \<Rightarrow> instant \<Rightarrow> venue_position" where
  "grown_position v qty price now =
     (let p = ven_position v; amount = dadd (pos_quantity p) qty in
      v\<lparr>ven_position := p\<lparr>pos_quantity := amount,
        pos_average_entry_price :=
          ddiv_nz (dadd (dmul (pos_average_entry_price p) (pos_quantity p)) (dmul price qty)) amount,
        pos_as_of := now\<rparr>\<rparr>)"

definition position_event ::
    "broker_env \<Rightarrow> working_order \<Rightarrow> decimal \<Rightarrow> decimal \<Rightarrow> instant \<Rightarrow> wire_event broker_prog" where
  "position_event env w qty price now =
     seq (reads (position_by_intent (wo_order_intent_id w))) (\<lambda>existing.
     seq (case existing of
            None \<Rightarrow>
              seq (broker_next_id ''pos'') (\<lambda>pid.
              let v = new_venue_position env w qty price now pid in
              seq (guard (valid_position_snapshot (ven_position v) \<and> 0 \<le> ven_magic v) (ValueError ''PositionSnapshot'')) (\<lambda>_.
              modify (\<lambda>b. b\<lparr>bk_positions := AList.update pid v (bk_positions b)\<rparr>)))
          | Some v \<Rightarrow>
              modify (\<lambda>b. b\<lparr>bk_positions :=
                AList.update (ven_venue_position_id v) (grown_position v qty price now) (bk_positions b)\<rparr>)) (\<lambda>_.
     reads (\<lambda>b. PositionSnapshotEvent (bc_account_id (be_config env)) (map snd (bk_positions b)))))"

definition account_event :: "broker_env \<Rightarrow> wire_event broker_prog" where
  "account_event env = seq (venue_account_state env) (\<lambda>_. ret OtherEvent)"

definition fill_report :: "working_order \<Rightarrow> decimal \<Rightarrow> decimal \<Rightarrow> decimal \<Rightarrow> decimal \<Rightarrow> fill_message" where
  "fill_report w qty price commission slippage =
     \<lparr>fm_message_id = 0, fm_sequence = 0, fm_order_intent_id = wo_order_intent_id w,
      fm_venue_order_id = wo_venue_order_id w, fm_filled_quantity = qty, fm_average_fill_price = price,
      fm_commission = commission, fm_slippage = Some slippage\<rparr>"

definition fill_order :: "broker_env \<Rightarrow> working_order \<Rightarrow> instant \<Rightarrow> (wire_event list \<times> working_order) broker_prog" where
  "fill_order env w now =
     seq (book env (wo_symbol w)) (\<lambda>(spec, bid, ask).
     let price = fill_price w bid ask; slippage = fill_slippage w price in
     if wo_max_slippage w < slippage then ret ([], w)
     else seq (fill_quantity env spec w) (\<lambda>qty.
       if qty \<le> 0 then ret ([], w)
       else
         let w' = w\<lparr>wo_remaining := dsub (wo_remaining w) qty\<rparr>;
             commission = dmul qty (bc_commission_per_lot (be_config env));
             report = fill_report w qty price commission slippage
         in seq (modify (\<lambda>b. b\<lparr>bk_working := AList.update (wo_venue_order_id w) w' (bk_working b)\<rparr>)) (\<lambda>_.
            seq (guard (0 < price \<and> 0 \<le> commission) (ValueError ''FillEvent'')) (\<lambda>_.
            seq (if 0 < wo_remaining w' then ret (PartialFillEvent report)
                 else seq (modify (\<lambda>b. b\<lparr>bk_working := AList.delete (wo_venue_order_id w) (bk_working b),
                        bk_realized := dsub (bk_realized b) commission\<rparr>)) (\<lambda>_. ret (FillEvent report))) (\<lambda>base.
            seq (position_event env w qty price now) (\<lambda>position.
            seq (account_event env) (\<lambda>account.
            ret ([base, position, account], w'))))))))"

definition match_order :: "broker_env \<Rightarrow> instant \<Rightarrow> string \<Rightarrow> wire_event list broker_prog" where
  "match_order env now vid =
     seq (reads (\<lambda>b. map_of (bk_working b) vid)) (\<lambda>found.
     seq (item vid found) (\<lambda>w.
     seq (is_touched env w) (\<lambda>hit.
     if hit then seq (fill_order env w now) (\<lambda>(events, _). ret events) else ret [])))"

primrec match_orders :: "broker_env \<Rightarrow> instant \<Rightarrow> string list \<Rightarrow> wire_event list broker_prog" where
  "match_orders env now [] = ret []"
| "match_orders env now (vid # vids) =
     seq (match_order env now vid) (\<lambda>events. seq (match_orders env now vids) (\<lambda>more. ret (events @ more)))"

definition broker_advance :: "broker_env \<Rightarrow> instant \<Rightarrow> wire_event list broker_prog" where
  "broker_advance env now =
     seq (for_each (map fst (bc_symbols (be_config env))) (\<lambda>symbol. quote_step env symbol now)) (\<lambda>_.
     seq (reads (\<lambda>b. map fst (bk_working b))) (\<lambda>vids. match_orders env now vids))"

section \<open>Commands\<close>

type_synonym broker_outcome = "mt4_error_code + venue_reply \<times> wire_event list"

definition new_working_order ::
    "broker_env \<Rightarrow> command \<Rightarrow> uuid \<Rightarrow> string \<Rightarrow> order_side \<Rightarrow> decimal \<Rightarrow> order_type \<Rightarrow> decimal \<Rightarrow> decimal \<Rightarrow> string \<Rightarrow> working_order" where
  "new_working_order env c oid symbol side quantity ty bid ask vid =
     \<lparr>wo_venue_order_id = vid, wo_order_intent_id = oid, wo_strategy_id = cmd_strategy_id c, wo_symbol = symbol,
      wo_side = side, wo_order_type = ty, wo_quantity = quantity, wo_remaining = quantity, wo_price = cmd_price c,
      wo_stop_loss = cmd_stop_loss c, wo_take_profit = cmd_take_profit c, wo_magic = be_magic env (cmd_strategy_id c),
      wo_ref_price = (if side = BUY then ask else bid), wo_max_slippage = cmd_max_slippage c\<rparr>"

definition process_submit :: "broker_env \<Rightarrow> command \<Rightarrow> instant \<Rightarrow> broker_outcome broker_prog" where
  "process_submit env c now =
     (case (cmd_order_intent_id c, cmd_symbol c, cmd_side c, cmd_quantity c, cmd_order_type c) of
        (Some oid, Some symbol, Some side, Some quantity, Some ty) \<Rightarrow>
          seq (venue_checks env c symbol side quantity now) (\<lambda>reject.
          case reject of
            Some code \<Rightarrow> ret (Inl code)
          | None \<Rightarrow>
              seq (broker_next_id ''vo'') (\<lambda>vid.
              seq (book env symbol) (\<lambda>(_, bid, ask).
              let w = new_working_order env c oid symbol side quantity ty bid ask vid in
              seq (modify (\<lambda>b. b\<lparr>bk_working := AList.update vid w (bk_working b)\<rparr>)) (\<lambda>_.
              seq (if ty = MARKET then fill_order env w now else ret ([], w)) (\<lambda>(events, w').
              ret (Inr (OrderAck 0 (if wo_remaining w' = 0 then Ack_FILLED else Ack_SUBMITTED) (Some vid), events)))))))
      | _ \<Rightarrow> raise AssertionError)"

definition process_cancel :: "broker_env \<Rightarrow> command \<Rightarrow> instant \<Rightarrow> broker_outcome broker_prog" where
  "process_cancel env c now =
     (case cmd_order_intent_id c of
        None \<Rightarrow> raise AssertionError
      | Some oid \<Rightarrow>
          seq (reads (\<lambda>b. (working_by_intent oid b, position_by_intent oid b))) (\<lambda>(found, position).
          case found of
            None \<Rightarrow> ret (Inl (if position \<noteq> None then ORDER_NOT_ACTIVE else UNKNOWN_ORDER))
          | Some w \<Rightarrow>
              if wo_remaining w \<le> 0 then ret (Inl ORDER_NOT_ACTIVE)
              else seq (modify (\<lambda>b. b\<lparr>bk_working := AList.delete (wo_venue_order_id w) (bk_working b)\<rparr>)) (\<lambda>_.
                ret (Inr (OrderAck 0 Ack_CANCELLED (Some (wo_venue_order_id w)), [])))))"

definition or_default :: "'a option \<Rightarrow> 'a option \<Rightarrow> 'a option" where
  "or_default x y = (case x of None \<Rightarrow> y | Some _ \<Rightarrow> x)"

definition within_freeze :: "symbol_spec \<Rightarrow> decimal option \<Rightarrow> decimal option \<Rightarrow> bool" where
  "within_freeze spec new_price price =
     (case (new_price, price) of (Some a, Some b) \<Rightarrow> dabs (dsub a b) < ss_freeze_level spec | _ \<Rightarrow> False)"

definition process_modify :: "broker_env \<Rightarrow> command \<Rightarrow> instant \<Rightarrow> broker_outcome broker_prog" where
  "process_modify env c now =
     (case cmd_order_intent_id c of
        None \<Rightarrow> raise AssertionError
      | Some oid \<Rightarrow>
          seq (reads (working_by_intent oid)) (\<lambda>found.
          case found of
            None \<Rightarrow> ret (Inl UNKNOWN_ORDER)
          | Some w \<Rightarrow>
              if wo_remaining w \<le> 0 then ret (Inl ORDER_NOT_ACTIVE)
              else
                let price = or_default (cmd_new_price c) (wo_price w);
                    sl = or_default (cmd_new_stop_loss c) (wo_stop_loss w);
                    tp = or_default (cmd_new_take_profit c) (wo_take_profit w)
                in seq (book env (wo_symbol w)) (\<lambda>(spec, _, ask).
                  if within_freeze spec (cmd_new_price c) (wo_price w) then ret (Inl STOP_LEVEL_VIOLATION)
                  else if stop_level_rejects spec (wo_side w) (case price of Some p \<Rightarrow> p | None \<Rightarrow> ask) sl tp
                  then ret (Inl STOP_LEVEL_VIOLATION)
                  else seq (modify (\<lambda>b. b\<lparr>bk_working := AList.update (wo_venue_order_id w)
                      (w\<lparr>wo_price := price, wo_stop_loss := sl, wo_take_profit := tp\<rparr>) (bk_working b)\<rparr>)) (\<lambda>_.
                    ret (Inr (OrderAck 0 Ack_MODIFIED (Some (wo_venue_order_id w)), []))))))"

definition broker_init :: "broker_env \<Rightarrow> instant \<Rightarrow> bool \<Rightarrow> exn + broker" where
  "broker_init env now enabled =
     (let symbols = bc_symbols (be_config env);
          b = \<lparr>bk_trading_enabled = enabled, bk_positions = [], bk_working = [], bk_counter = 0,
            bk_balance = bc_balance (be_config env), bk_realized = 0,
            bk_mids = map (\<lambda>(k, s). (k, ss_initial_mid s)) symbols, bk_last_quote_at = [], bk_draws = []\<rparr>
      in case for_each (map fst symbols) (\<lambda>symbol. quote_step env symbol now) b of
           (Inl e, _) \<Rightarrow> Inl e
         | (Inr _, b') \<Rightarrow> Inr b')"

end
