(* ===== verification/Mt4_Broker_Properties.thy ===== *)
theory Mt4_Broker_Properties
  imports Mt4_Broker
begin

text \<open>
  What the simulated venue guarantees over its runs: the fills it reports for an order add up to the
  ordered quantity, never to more; a stop order beyond its slippage cap is never filled; and no operation ever removes a
  position.
\<close>

section \<open>Runs\<close>

datatype broker_op =
    BkSubmit command instant
  | BkCancel command instant
  | BkModify command instant
  | BkAdvance instant
  | BkTrading bool
  | BkManual position_snapshot "(string, string) dict" int

text \<open>The journal of a run: accepted orders with their quantity, cancellations, and the events sent.\<close>

datatype broker_entry =
    Accepted string decimal
  | Cancelled string
  | Sent wire_event

fun journal_submit :: "command \<Rightarrow> broker_outcome \<Rightarrow> broker_entry list" where
  "journal_submit c (Inr (OrderAck _ _ (Some vid), events)) = Accepted vid (the (cmd_quantity c)) # map Sent events"
| "journal_submit c _ = []"

fun journal_cancel :: "broker_outcome \<Rightarrow> broker_entry list" where
  "journal_cancel (Inr (OrderAck _ _ (Some vid), _)) = [Cancelled vid]"
| "journal_cancel _ = []"

primrec broker_step :: "broker_env \<Rightarrow> broker_op \<Rightarrow> broker_entry list broker_prog" where
  "broker_step env (BkSubmit c now) = seq (process_submit env c now) (\<lambda>r. ret (journal_submit c r))"
| "broker_step env (BkCancel c now) = seq (process_cancel env c now) (\<lambda>r. ret (journal_cancel r))"
| "broker_step env (BkModify c now) = seq (process_modify env c now) (\<lambda>_. ret [])"
| "broker_step env (BkAdvance now) = seq (broker_advance env now) (\<lambda>events. ret (map Sent events))"
| "broker_step env (BkTrading v) = seq (set_trading_enabled v) (\<lambda>_. ret [])"
| "broker_step env (BkManual p ids magic) = seq (open_manual_position p ids magic) (\<lambda>_. ret [])"

text \<open>An exception ends the run, as it ends the thread that serves the venue.\<close>

primrec run_broker :: "broker_env \<Rightarrow> broker_op list \<Rightarrow> broker_entry list broker_prog" where
  "run_broker env [] = ret []"
| "run_broker env (x # xs) = seq (broker_step env x) (\<lambda>j. seq (run_broker env xs) (\<lambda>more. ret (j @ more)))"

fun filled_by :: "string \<Rightarrow> broker_entry \<Rightarrow> decimal" where
  "filled_by vid (Sent (FillEvent m)) = (if fm_venue_order_id m = vid then fm_filled_quantity m else 0)"
| "filled_by vid (Sent (PartialFillEvent m)) = (if fm_venue_order_id m = vid then fm_filled_quantity m else 0)"
| "filled_by vid _ = 0"

definition filled :: "string \<Rightarrow> broker_entry list \<Rightarrow> decimal" where
  "filled vid journal = sum_list (map (filled_by vid) journal)"

lemma filled_simps [simp]:
  "filled vid [] = 0" "filled vid (x # xs) = filled_by vid x + filled vid xs" "filled vid (xs @ ys) = filled vid xs + filled vid ys"
  by (simp_all add: filled_def)

section \<open>Whole lots\<close>

text \<open>A lot step in millionths, and quantities of whole lots below a bound that keeps the arithmetic exact.\<close>

definition lot_grid :: "decimal \<Rightarrow> bool" where
  "lot_grid step \<longleftrightarrow> (\<exists>s. step = of_int s / 10 ^ 6 \<and> 0 < s)"

definition lots :: "decimal \<Rightarrow> decimal \<Rightarrow> bool" where
  "lots step q \<longleftrightarrow> (\<exists>k. q = of_int k * step \<and> 0 < k) \<and> q \<le> 10 ^ 20"

definition lot_config :: "broker_config \<Rightarrow> bool" where
  "lot_config c \<longleftrightarrow> 0 < bc_partial_fill_ratio c \<and> bc_partial_fill_ratio c \<le> 1 \<and>
     (\<forall>k s. map_of (bc_symbols c) k = Some s \<longrightarrow> lot_grid (ss_lot_step s) \<and> 0 < ss_min_lot s \<and> ss_max_lot s \<le> 10 ^ 20)"

lemma millionths: "of_int n / 10 ^ 6 = of_int n * pow10 (- 6)"
  by (simp add: pow10_def)

lemma millionths_fit: "\<bar>n\<bar> < 10 ^ 28 \<Longrightarrow> fits28 (of_int n / 10 ^ 6)"
  unfolding millionths by (rule fits28I [OF refl])

lemma lots_bound:
  assumes "lot_grid step" and "lots step q"
  obtains s k where "step = of_int s / 10 ^ 6" "0 < s" "q = of_int k * step" "0 < k" "k * s \<le> 10 ^ 26"
    "fits28 q" "fits28 (of_int k)"
proof -
  obtain s k where sk: "step = of_int s / 10 ^ 6" "0 < s" "q = of_int k * step" "0 < k" "q \<le> 10 ^ 20"
    using assms by (auto simp: lot_grid_def lots_def)
  have q: "q = of_int (k * s) / 10 ^ 6" by (simp add: sk(1,3))
  have "(of_int (k * s) :: rat) \<le> 10 ^ 20 * 10 ^ 6" using sk(5) unfolding q by (simp add: field_simps)
  then have "(of_int (k * s) :: rat) \<le> of_int (10 ^ 26)" by simp
  then have ks: "k * s \<le> 10 ^ 26" by (simp only: of_int_le_iff)
  have "0 < k * s" "k * 1 \<le> k * s" using sk(2,4) by (simp, intro mult_left_mono) simp_all
  moreover have "(10::int) ^ 26 < 10 ^ 28" by simp
  ultimately have "\<bar>k * s\<bar> < 10 ^ 28 \<and> \<bar>k\<bar> < 10 ^ 28" using ks sk(4) by linarith
  then have "fits28 q" "fits28 (of_int k)" unfolding q using millionths_fit [of "k * s"] fits28_of_int [of k] by blast+
  then show thesis using that sk ks by blast
qed

lemma round_half_up_of_int [simp]: "round_half_up (of_int k) = k"
  by (simp add: round_half_up_def) (simp add: floor_eq_iff)

lemma round_half_up_mono:
  assumes "0 \<le> x" and "x \<le> y"
  shows "round_half_up x \<le> round_half_up y"
  using assms by (simp add: round_half_up_def floor_mono)

lemma round_half_up_nonneg: "0 \<le> x \<Longrightarrow> 0 \<le> round_half_up x"
  by (simp add: round_half_up_def)

lemma quote_lots_le:
  assumes step: "lot_grid step" and r: "lots step r" and x: "0 \<le> x" "x \<le> r"
  shows "\<exists>k. quote_lots x step = of_int k * step \<and> 0 \<le> k \<and> of_int k * step \<le> r"
proof -
  obtain s k where sk: "step = of_int s / 10 ^ 6" "0 < s" "r = of_int k * step" "0 < k" "k * s \<le> 10 ^ 26" "fits28 r" "fits28 (of_int k)"
    by (rule lots_bound [OF step r])
  have pos: "0 < step" using sk(1,2) by simp
  let ?m = "round_half_up (ddiv_nz x step)"
  have "x / step \<le> of_int k" using x(2) sk(3) pos by (simp add: divide_le_eq)
  then have "ddiv_nz x step \<le> of_int k"
    unfolding ddiv_nz_def by (rule ctx_round_le_fits [OF sk(7)])
  moreover have "0 \<le> ddiv_nz x step" using x(1) pos by (simp add: ddiv_nz_def)
  ultimately have m: "0 \<le> ?m" "?m \<le> k"
    using round_half_up_mono [of "ddiv_nz x step" "of_int k"] round_half_up_nonneg by simp_all
  have "?m * s \<le> k * s" "0 \<le> ?m * s" using m sk(2) by (simp_all add: mult_right_mono)
  moreover have "(10::int) ^ 26 < 10 ^ 28" by simp
  ultimately have "\<bar>?m * s\<bar> < 10 ^ 28" using sk(5) by linarith
  then have "fits28 (of_int (?m * s) / 10 ^ 6)" by (rule millionths_fit)
  then have "quote_lots x step = of_int ?m * step"
    unfolding quote_lots_def by (intro dmul_exact) (simp add: sk(1))
  moreover have "of_int ?m * step \<le> r" using m(2) pos unfolding sk(3) by (intro mult_right_mono) simp_all
  ultimately show ?thesis using m(1) by blast
qed

lemma quote_lots_exact:
  assumes "lot_grid step" and "lots step r"
  shows "quote_lots r step = r"
proof -
  obtain s k where sk: "step = of_int s / 10 ^ 6" "0 < s" "r = of_int k * step" "0 < k" "k * s \<le> 10 ^ 26" "fits28 r" "fits28 (of_int k)"
    by (rule lots_bound [OF assms])
  have "r / step = of_int k" using sk(1,2) by (simp add: sk(3))
  then have "ddiv_nz r step = of_int k" using sk(7) by (simp add: ddiv_nz_def ctx_round_exact)
  then show ?thesis using sk(6) by (simp add: quote_lots_def dmul_exact sk(3) [symmetric])
qed

lemma fill_quantity_lots:
  assumes step: "lot_grid (ss_lot_step spec)" and r: "lots (ss_lot_step spec) (wo_remaining w)"
    and ratio: "0 < fill_ratio env w" and run: "fill_quantity env spec w b = (Inr qty, b')"
  shows "b' = b \<and> (\<exists>k. qty = of_int k * ss_lot_step spec \<and> qty \<le> wo_remaining w)"
proof (cases "1 \<le> fill_ratio env w")
  case True
  then show ?thesis using run quote_lots_exact [OF step r] r by (auto simp: fill_quantity_def lots_def)
next
  case False
  let ?x = "dmul (wo_remaining w) (fill_ratio env w)"
  obtain s k where sk: "ss_lot_step spec = of_int s / 10 ^ 6" "0 < s" "wo_remaining w = of_int k * ss_lot_step spec" "0 < k"
      "fits28 (wo_remaining w)"
    by (rule lots_bound [OF step r])
  have rpos: "0 < wo_remaining w" using sk(1-4) by simp
  have "wo_remaining w * fill_ratio env w \<le> wo_remaining w * 1" using False rpos by (intro mult_left_mono) simp_all
  then have x: "?x \<le> wo_remaining w" unfolding dmul_def by (intro ctx_round_le_fits [OF sk(5)]) simp
  have x0: "0 < ?x" using ratio rpos by (simp add: dmul_pos)
  obtain y where y: "quantize ?x (- 6) = Inr y" and qty: "qty = quote_lots y (ss_lot_step spec)" "b' = b"
    using run False by (auto simp: fill_quantity_def decimal_result_def split: sum.splits)
  let ?c = "round_half_even (?x / pow10 (- 6))"
  have yc: "y = of_int ?c * pow10 (- 6)" using y by (auto simp: quantize_def Let_def split: if_splits)
  have rc: "wo_remaining w = of_int (k * s) * pow10 (- 6)" unfolding millionths [symmetric] by (simp add: sk(3) sk(1))
  have "?x / pow10 (- 6) \<le> of_int (k * s)" using x unfolding rc by (simp add: divide_le_eq)
  then have "?c \<le> k * s" using round_half_even_mono [of "?x / pow10 (- 6)" "of_int (k * s)"] by (simp del: of_int_mult)
  then have "(of_int ?c :: rat) \<le> of_int (k * s)" by (simp only: of_int_le_iff)
  then have yr: "y \<le> wo_remaining w" unfolding yc rc by (intro mult_right_mono) simp_all
  have "0 \<le> ?c" using x0 round_half_even_mono [of 0 "?x / pow10 (- 6)"] round_half_even_of_int [of 0] by simp
  then have "0 \<le> y" unfolding yc by simp
  from quote_lots_le [OF step r this yr] show ?thesis using qty by auto
qed

text \<open>The parts of the venue that touch neither the working orders nor lower the counter.\<close>

definition settled :: "(string, working_order) dict \<Rightarrow> nat \<Rightarrow> broker \<Rightarrow> bool" where
  "settled ws n b \<longleftrightarrow> bk_working b = ws \<and> n \<le> bk_counter b"

lemma item_run [simp]: "item key v b = (case v of None \<Rightarrow> (Inl (KeyError key), b) | Some x \<Rightarrow> (Inr x, b))"
  by (simp add: item_def split: option.split)

lemma settled_leaves [ot_inv]:
  "keeps (settled ws n) (item key v)" "keeps (settled ws n) (decimal_result r)" "keeps (settled ws n) (broker_next_id p)"
  "keeps (settled ws n) (spec_of env symbol)"
  by (auto simp: keeps_def settled_def decimal_result_def broker_next_id_def spec_of_def seq_run split: option.split sum.split)

lemma settled_modify: "(\<And>b. bk_working (f b) = bk_working b \<and> bk_counter (f b) = bk_counter b) \<Longrightarrow> keeps (settled ws n) (modify f)"
  by (simp add: keeps_def settled_def)

lemma settled_book [ot_inv]: "keeps (settled ws n) (book env symbol)"
  unfolding book_def Let_def by (intro ot_inv)

lemma settled_account [ot_inv]: "keeps (settled ws n) (venue_account_state env)"
proof -
  have "keeps (settled ws n) (sum_margin env vs acc)" for vs acc
    by (induction vs arbitrary: acc) (auto intro!: ot_inv simp: position_margin_def)
  then show ?thesis unfolding venue_account_state_def by (intro ot_inv)
qed

lemma settled_position [ot_inv]: "keeps (settled ws n) (position_event env w qty price now)"
  unfolding position_event_def Let_def by (intro ot_inv settled_modify) simp_all

lemma settled_account_event [ot_inv]: "keeps (settled ws n) (account_event env)"
  unfolding account_event_def by (intro ot_inv)

lemma settled_quote [ot_inv]: "keeps (settled ws n) (quote_step env symbol now)"
  unfolding quote_step_def by (intro ot_inv settled_modify) simp_all

lemma settled_quotes: "keeps (settled ws n) (for_each symbols (\<lambda>symbol. quote_step env symbol now))"
  by (intro ot_inv)

lemma settled_checks [ot_inv]: "keeps (settled ws n) (venue_checks env c symbol side quantity now)"
  unfolding venue_checks_def by (auto intro!: ot_inv split: option.split)

lemma book_run: "book env symbol b = (Inr (spec, bid, ask), b') \<Longrightarrow> b' = b \<and> map_of (bc_symbols (be_config env)) symbol = Some spec"
  by (auto simp: book_def spec_of_def seq_run Let_def split: option.splits)

lemma lots_diff:
  assumes "lot_grid step" and "lots step r" and "qty = of_int k * step" and "0 < qty" and "qty \<le> r"
  shows "dsub r qty = r - qty" and "r - qty = 0 \<or> lots step (r - qty)"
proof -
  obtain s j where sj: "step = of_int s / 10 ^ 6" "0 < s" "r = of_int j * step" "0 < j" "j * s \<le> 10 ^ 26"
    by (rule lots_bound [OF assms(1,2)])
  have pos: "0 < step" using sj(1,2) by simp
  have kj: "0 < k" "k \<le> j" using assms(3,4,5) pos sj(3) by (simp_all add: zero_less_mult_iff)
  have d: "r - qty = of_int (j - k) * step" by (simp add: assms(3) sj(3) left_diff_distrib)
  have "(j - k) * s \<le> j * s" using kj sj(2) by (intro mult_right_mono) simp_all
  moreover have "0 \<le> (j - k) * s" using kj sj(2) by simp
  moreover have "(10::int) ^ 26 < 10 ^ 28" by simp
  ultimately have "\<bar>(j - k) * s\<bar> < 10 ^ 28" using sj(5) by linarith
  then have "fits28 (r - qty)" unfolding d using millionths_fit [of "(j - k) * s"] by (simp add: sj(1))
  then show "dsub r qty = r - qty" by (rule dsub_exact)
  show "r - qty = 0 \<or> lots step (r - qty)"
  proof (cases "k = j")
    case False
    then have "0 < j - k" using kj(2) by simp
    moreover have "r - qty \<le> 10 ^ 20" using assms(2,4) by (simp add: lots_def)
    ultimately show ?thesis unfolding lots_def using d by blast
  qed (simp add: assms(3) sj(3))
qed

lemma events_settled:
  assumes "seq (position_event env w qty price now) (\<lambda>position. seq (account_event env) (\<lambda>account.
      ret ([base, position, account], w'))) b = (Inr (events, x), b')"
  shows "x = w' \<and> bk_working b' = bk_working b \<and> bk_counter b \<le> bk_counter b' \<and>
     (\<forall>vid. filled vid (map Sent events) = filled_by vid (Sent base))"
proof -
  obtain p b1 where 1: "position_event env w qty price now b = (Inr p, b1)"
      "seq (account_event env) (\<lambda>account. ret ([base, p, account], w')) b1 = (Inr (events, x), b')"
    by (rule seq_InrE [OF assms])
  obtain a b2 where 2: "account_event env b1 = (Inr a, b2)" "ret ([base, p, a], w') b2 = (Inr (events, x), b')"
    using 1(2) by (auto elim!: seq_InrE)
  have "settled (bk_working b) (bk_counter b) b" by (simp add: settled_def)
  from keeps_run [OF settled_account_event keeps_run [OF settled_position this 1(1)] 2(1)]
  have "settled (bk_working b) (bk_counter b) b2" .
  moreover have "\<exists>acc vs. p = PositionSnapshotEvent acc vs"
    using 1(1) by (auto simp: position_event_def elim!: seq_InrE)
  moreover have "a = OtherEvent" using 2(1) by (auto simp: account_event_def elim!: seq_InrE)
  ultimately show ?thesis using 2(2) by (auto simp: settled_def)
qed

lemma fill_order_outcome:
  assumes cfg: "lot_config (be_config env)" and spec: "map_of (bc_symbols (be_config env)) (wo_symbol w) = Some spec"
    and r: "lots (ss_lot_step spec) (wo_remaining w)" and run: "fill_order env w now b = (Inr (events, w'), b')"
  shows "(events = [] \<and> w' = w \<and> b' = b) \<or>
    (\<exists>qty. 0 < qty \<and> qty \<le> wo_remaining w \<and> w' = w\<lparr>wo_remaining := wo_remaining w - qty\<rparr> \<and>
       (wo_remaining w' = 0 \<or> lots (ss_lot_step spec) (wo_remaining w')) \<and> bk_counter b \<le> bk_counter b' \<and>
       (\<forall>vid. filled vid (map Sent events) = (if vid = wo_venue_order_id w then qty else 0)) \<and>
       bk_working b' = (if wo_remaining w' = 0 then AList.delete (wo_venue_order_id w) (AList.update (wo_venue_order_id w) w' (bk_working b))
         else AList.update (wo_venue_order_id w) w' (bk_working b)))"
proof -
  have step: "lot_grid (ss_lot_step spec)" using cfg spec unfolding lot_config_def by blast
  have ratio: "0 < fill_ratio env w" using cfg by (simp add: lot_config_def fill_ratio_def)
  obtain x b0 where x: "book env (wo_symbol w) b = (Inr x, b0)"
    using run unfolding fill_order_def by (rule seq_InrE) blast
  then obtain bid ask where bk: "book env (wo_symbol w) b = (Inr (spec, bid, ask), b)"
    using book_run [of env "wo_symbol w" b "fst x" "fst (snd x)" "snd (snd x)" b0] spec by (cases x) auto
  let ?price = "fill_price w bid ask" let ?slip = "fill_slippage w ?price"
  show ?thesis
  proof (cases "wo_max_slippage w < ?slip")
    case True
    then show ?thesis using run bk by (simp add: fill_order_def Let_def)
  next
    case False
    then obtain qty b1 where q: "fill_quantity env spec w b = (Inr qty, b1)"
      using run bk by (cases "fill_quantity env spec w b"; cases "fst (fill_quantity env spec w b)") (auto simp: fill_order_def Let_def)
    obtain k where k: "b1 = b" "qty = of_int k * ss_lot_step spec" "qty \<le> wo_remaining w"
      using fill_quantity_lots [OF step r ratio q] by blast
    show ?thesis
    proof (cases "qty \<le> 0")
      case True
      then show ?thesis using run bk q k(1) False by (simp add: fill_order_def Let_def)
    next
      case pos: False
      let ?w = "w\<lparr>wo_remaining := wo_remaining w - qty\<rparr>"
      let ?id = "wo_venue_order_id w"
      let ?report = "fill_report w qty ?price (dmul qty (bc_commission_per_lot (be_config env))) ?slip"
      have d: "dsub (wo_remaining w) qty = wo_remaining w - qty" "wo_remaining ?w = 0 \<or> lots (ss_lot_step spec) (wo_remaining ?w)"
        using lots_diff [OF step r k(2) _ k(3)] pos by simp_all
      let ?base = "if qty < wo_remaining w then PartialFillEvent ?report else FillEvent ?report"
      let ?b1 = "b\<lparr>bk_working := AList.update ?id ?w (bk_working b)\<rparr>"
      let ?b2 = "if qty < wo_remaining w then ?b1 else ?b1\<lparr>bk_working := AList.delete ?id (bk_working ?b1),
          bk_realized := dsub (bk_realized b) (dmul qty (bc_commission_per_lot (be_config env)))\<rparr>"
      have tail: "seq (position_event env w qty ?price now) (\<lambda>position. seq (account_event env) (\<lambda>account.
             ret ([?base, position, account], ?w))) ?b2 = (Inr (events, w'), b')"
        using run bk q k(1,3) False pos d(1)
        by (cases "qty < wo_remaining w") (simp_all add: fill_order_def Let_def split: if_splits)
      have "filled_by vid (Sent ?base) = (if vid = ?id then qty else 0)" for vid
        by (simp add: fill_report_def)
      moreover have "bk_counter ?b2 = bk_counter b" by simp
      moreover have "bk_working ?b2 = (if wo_remaining ?w = 0 then AList.delete ?id (AList.update ?id ?w (bk_working b))
          else AList.update ?id ?w (bk_working b))" using k(3) by simp
      ultimately show ?thesis using events_settled [OF tail] d(2) k(3) pos
        by (intro disjI2 exI [of _ qty]) simp
    qed
  qed
qed

section \<open>The book of working orders\<close>

definition order_ok :: "broker_env \<Rightarrow> broker_entry list \<Rightarrow> string \<Rightarrow> working_order \<Rightarrow> bool" where
  "order_ok env journal vid w \<longleftrightarrow> wo_venue_order_id w = vid \<and>
     (\<exists>spec. map_of (bc_symbols (be_config env)) (wo_symbol w) = Some spec \<and> lots (ss_lot_step spec) (wo_remaining w)) \<and>
     Accepted vid (filled vid journal + wo_remaining w) \<in> set journal \<and> Cancelled vid \<notin> set journal"

definition entry_ok :: "broker_entry list \<Rightarrow> broker \<Rightarrow> string \<Rightarrow> decimal \<Rightarrow> bool" where
  "entry_ok journal b vid q \<longleftrightarrow> (\<exists>n \<le> bk_counter b. vid = ''vo-'' @ decimal_str n) \<and> filled vid journal \<le> q \<and>
     (\<forall>q'. Accepted vid q' \<in> set journal \<longrightarrow> q' = q) \<and>
     (map_of (bk_working b) vid = None \<longrightarrow> Cancelled vid \<in> set journal \<or> filled vid journal = q)"

definition broker_inv :: "broker_env \<Rightarrow> broker_entry list \<Rightarrow> broker \<Rightarrow> bool" where
  "broker_inv env journal b \<longleftrightarrow> distinct (map fst (bk_working b)) \<and>
     (\<forall>vid w. map_of (bk_working b) vid = Some w \<longrightarrow> order_ok env journal vid w) \<and>
     (\<forall>vid q. Accepted vid q \<in> set journal \<longrightarrow> entry_ok journal b vid q) \<and>
     (\<forall>vid. (\<forall>q. Accepted vid q \<notin> set journal) \<longrightarrow> filled vid journal = 0 \<and> Cancelled vid \<notin> set journal)"

lemma broker_inv_settled:
  assumes "broker_inv env journal b" and "settled (bk_working b) (bk_counter b) b'"
  shows "broker_inv env journal b'"
proof -
  have work: "bk_working b' = bk_working b" and counter: "bk_counter b \<le> bk_counter b'" using assms(2) by (simp_all add: settled_def)
  have "entry_ok journal b vid q \<Longrightarrow> entry_ok journal b' vid q" for vid q
    unfolding entry_ok_def work using counter order_trans by blast
  then show ?thesis using assms(1) unfolding broker_inv_def work by blast
qed

lemma broker_inv_keeps:
  assumes "\<And>ws n. keeps (settled ws n) m"
  shows "keeps (broker_inv env journal) m"
proof (rule keepsI)
  fix b assume "broker_inv env journal b"
  then show "broker_inv env journal (snd (m b))"
    by (rule broker_inv_settled) (rule keepsD [OF assms], simp add: settled_def)
qed

lemmas broker_inv_checks = broker_inv_keeps [OF settled_checks]

lemma broker_inv_quotes: "keeps (broker_inv env journal) (for_each symbols (\<lambda>symbol. quote_step env' symbol now))"
  by (intro broker_inv_keeps settled_quotes)

lemma broker_inv_entry: "broker_inv env journal b \<Longrightarrow> Accepted vid q \<in> set journal \<Longrightarrow> entry_ok journal b vid q"
  unfolding broker_inv_def by blast

lemma broker_inv_order: "broker_inv env journal b \<Longrightarrow> map_of (bk_working b) vid = Some w \<Longrightarrow> order_ok env journal vid w"
  unfolding broker_inv_def by blast

lemma seq_item_Inr [simp]: "seq (item key v) k b = (Inr y, b') \<longleftrightarrow> (\<exists>x. v = Some x \<and> k x b = (Inr y, b'))"
  by (simp add: seq_run split: option.split)

lemma in_sent [simp]: "Accepted vid q \<notin> Sent ` A" "Cancelled vid \<notin> Sent ` A"
  by auto

text \<open>One fill: the order loses what its report adds.\<close>

lemma broker_inv_fill:
  assumes inv: "broker_inv env journal b" and w: "map_of (bk_working b) vid = Some w"
    and w': "w' = w\<lparr>wo_remaining := wo_remaining w - qty\<rparr>" and qty: "0 < qty"
    and spec: "map_of (bc_symbols (be_config env)) (wo_symbol w) = Some spec"
    and left: "wo_remaining w' = 0 \<or> lots (ss_lot_step spec) (wo_remaining w')" "qty \<le> wo_remaining w"
    and counter: "bk_counter b \<le> bk_counter b'"
    and events: "\<forall>v. filled v (map Sent events) = (if v = vid then qty else 0)"
    and work: "bk_working b' = (if wo_remaining w' = 0 then AList.delete vid (AList.update vid w' (bk_working b))
         else AList.update vid w' (bk_working b))"
  shows "broker_inv env (journal @ map Sent events) b'"
proof -
  let ?j = "journal @ map Sent events"
  have ok: "order_ok env journal vid w" and dist: "distinct (map fst (bk_working b))" using inv w by (auto simp: broker_inv_def)
  have maps: "map_of (bk_working b') v = (if v = vid then (if wo_remaining w' = 0 then None else Some w') else map_of (bk_working b) v)" for v
    by (simp add: work delete_conv')
  have f: "filled v ?j = filled v journal + (if v = vid then qty else 0)" for v using events by simp
  have acc: "Accepted vid (filled vid journal + wo_remaining w) \<in> set journal" using ok by (simp add: order_ok_def)
  have one: "order_ok env ?j vid w'" if "wo_remaining w' \<noteq> 0"
    using ok spec left(1) that f [of vid] by (auto simp: order_ok_def w')
  have "order_ok env ?j v u" if "map_of (bk_working b') v = Some u" for v u
  proof (cases "v = vid")
    case True
    then show ?thesis using that one by (simp add: maps split: if_splits)
  next
    case False
    then show ?thesis using that inv f [of v] by (auto simp: maps broker_inv_def order_ok_def)
  qed
  moreover have "entry_ok ?j b' v q" if a: "Accepted v q \<in> set ?j" for v q
  proof -
    have e: "entry_ok journal b v q" using a inv by (auto simp: broker_inv_def)
    show ?thesis
    proof (cases "v = vid")
      case True
      then have "q = filled vid journal + wo_remaining w" using e acc by (auto simp: entry_ok_def)
      then show ?thesis using e True counter f [of vid] left(2) maps [of vid]
        by (auto simp: entry_ok_def w' intro: order_trans split: if_splits)
    next
      case False
      then show ?thesis using e counter f [of v] maps [of v] by (auto simp: entry_ok_def intro: order_trans)
    qed
  qed
  moreover have "filled v ?j = 0 \<and> Cancelled v \<notin> set ?j" if "\<forall>q. Accepted v q \<notin> set ?j" for v
    using that inv acc f [of v] by (auto simp: broker_inv_def)
  moreover have "distinct (map fst (bk_working b'))"
    using dist by (simp add: work distinct_update distinct_delete)
  ultimately show ?thesis by (simp add: broker_inv_def)
qed

lemma broker_inv_fill_order:
  assumes cfg: "lot_config (be_config env)" and inv: "broker_inv env journal b" and w: "map_of (bk_working b) vid = Some w"
    and run: "fill_order env w now b = (Inr (events, w'), b')"
  shows "broker_inv env (journal @ map Sent events) b'"
proof -
  obtain spec where spec: "map_of (bc_symbols (be_config env)) (wo_symbol w) = Some spec" "lots (ss_lot_step spec) (wo_remaining w)"
    and vid: "wo_venue_order_id w = vid"
    using broker_inv_order [OF inv w] by (auto simp: order_ok_def)
  from fill_order_outcome [OF cfg spec run] show ?thesis
  proof
    assume "events = [] \<and> w' = w \<and> b' = b"
    then show ?thesis using inv by simp
  next
    assume "\<exists>qty. 0 < qty \<and> qty \<le> wo_remaining w \<and> w' = w\<lparr>wo_remaining := wo_remaining w - qty\<rparr> \<and>
       (wo_remaining w' = 0 \<or> lots (ss_lot_step spec) (wo_remaining w')) \<and> bk_counter b \<le> bk_counter b' \<and>
       (\<forall>vid. filled vid (map Sent events) = (if vid = wo_venue_order_id w then qty else 0)) \<and>
       bk_working b' = (if wo_remaining w' = 0 then AList.delete (wo_venue_order_id w) (AList.update (wo_venue_order_id w) w' (bk_working b))
         else AList.update (wo_venue_order_id w) w' (bk_working b))"
    then show ?thesis using broker_inv_fill [OF inv w _ _ spec(1)] unfolding vid by blast
  qed
qed

lemma settled_touched [ot_inv]: "keeps (settled ws n) (is_touched env w)"
  unfolding is_touched_def by (auto intro!: ot_inv)

lemma broker_inv_match_order:
  assumes "lot_config (be_config env)" and inv: "broker_inv env journal b" and run: "match_order env now vid b = (Inr events, b')"
  shows "broker_inv env (journal @ map Sent events) b'"
proof -
  obtain w where w: "map_of (bk_working b) vid = Some w" using run by (auto simp: match_order_def)
  then obtain hit b1 where hit: "is_touched env w b = (Inr hit, b1)"
      and rest: "(if hit then seq (fill_order env w now) (\<lambda>(events, _). ret events) else ret []) b1 = (Inr events, b')"
    using run by (auto simp: match_order_def elim!: seq_InrE)
  have "settled (bk_working b) (bk_counter b) b1"
    by (rule keeps_run [OF settled_touched _ hit]) (simp add: settled_def)
  then have inv1: "broker_inv env journal b1" and "map_of (bk_working b1) vid = Some w"
    using broker_inv_settled [OF inv] w by (simp_all add: settled_def)
  with rest show ?thesis using broker_inv_fill_order [OF assms(1) inv1]
    by (cases hit) (auto elim!: seq_InrE split: prod.splits)
qed

lemma broker_inv_match_orders:
  assumes "lot_config (be_config env)" and "broker_inv env journal b" and "match_orders env now vids b = (Inr events, b')"
  shows "broker_inv env (journal @ map Sent events) b'"
  using assms(2,3)
proof (induction vids arbitrary: journal b events)
  case (Cons vid vids)
  obtain es b1 more where 1: "match_order env now vid b = (Inr es, b1)" "match_orders env now vids b1 = (Inr more, b')" "events = es @ more"
    using Cons.prems(2) by (auto elim!: seq_InrE)
  show ?case using Cons.IH [OF broker_inv_match_order [OF assms(1) Cons.prems(1) 1(1)] 1(2)] 1(3) by simp
qed simp

lemma broker_inv_advance:
  assumes "lot_config (be_config env)" and inv: "broker_inv env journal b" and run: "broker_advance env now b = (Inr events, b')"
  shows "broker_inv env (journal @ map Sent events) b'"
proof -
  obtain u b1 where 1: "for_each (map fst (bc_symbols (be_config env))) (\<lambda>symbol. quote_step env symbol now) b = (Inr u, b1)"
      "match_orders env now (map fst (bk_working b1)) b1 = (Inr events, b')"
    using run by (auto simp: broker_advance_def elim!: seq_InrE)
  have "broker_inv env journal b1" by (rule keeps_run [OF broker_inv_quotes inv 1(1)])
  from broker_inv_match_orders [OF assms(1) this 1(2)] show ?thesis .
qed

text \<open>An order that is accepted: its identifier is fresh, its quantity whole lots.\<close>

lemma venue_checks_pass:
  assumes cfg: "lot_config (be_config env)" and run: "venue_checks env c symbol side quantity now b = (Inr None, b')"
  shows "\<exists>spec. map_of (bc_symbols (be_config env)) symbol = Some spec \<and> lots (ss_lot_step spec) quantity \<and> 0 < quantity"
proof -
  obtain spec where spec: "map_of (bc_symbols (be_config env)) symbol = Some spec" "ss_min_lot spec \<le> quantity" "quantity \<le> ss_max_lot spec"
      "dmod quantity (ss_lot_step spec) = Inr 0"
    using run by (auto simp: venue_checks_def decimal_result_def elim!: seq_InrE split: if_splits option.splits sum.splits)
  have c: "0 < ss_min_lot spec" "ss_max_lot spec \<le> 10 ^ 20" "lot_grid (ss_lot_step spec)" using cfg spec(1) by (auto simp: lot_config_def)
  then have pos: "0 < ss_lot_step spec" by (auto simp: lot_grid_def)
  let ?k = "round_down (quantity / ss_lot_step spec)"
  have "quantity = of_int ?k * ss_lot_step spec" using spec(4) by (auto simp: dmod_def split: if_splits)
  moreover from this have "0 < ?k" using spec(2) c(1) pos by (metis less_le_trans of_int_0_less_iff zero_less_mult_pos2)
  ultimately show ?thesis using spec(1,2,3) c(1,2) unfolding lots_def by (metis order_trans less_le_trans)
qed

lemma broker_inv_accept:
  assumes inv: "broker_inv env journal b" and fresh: "bk_counter b < n" and vid: "vid = ''vo-'' @ decimal_str n"
    and b': "bk_counter b' = n" "bk_working b' = AList.update vid w (bk_working b)"
    and w: "wo_venue_order_id w = vid" "wo_remaining w = q" "map_of (bc_symbols (be_config env)) (wo_symbol w) = Some spec"
      "lots (ss_lot_step spec) q" and q: "0 < q"
  shows "broker_inv env (journal @ [Accepted vid q]) b'"
proof -
  let ?j = "journal @ [Accepted vid q]"
  have new: "Accepted vid p \<notin> set journal" for p
    using broker_inv_entry [OF inv, of vid p] fresh by (auto simp: entry_ok_def vid)
  then have none: "filled vid journal = 0" "Cancelled vid \<notin> set journal" using inv by (auto simp: broker_inv_def)
  have f: "filled v ?j = filled v journal" for v by simp
  have "order_ok env ?j v u" if "map_of (bk_working b') v = Some u" for v u
  proof (cases "v = vid")
    case True
    then have "u = w" using that by (simp add: b')
    then show ?thesis using True w none by (simp add: order_ok_def)
  next
    case False
    then show ?thesis using that inv by (auto simp: b' broker_inv_def order_ok_def)
  qed
  moreover have "entry_ok ?j b' v p" if a: "Accepted v p \<in> set ?j" for v p
  proof (cases "v = vid")
    case True
    then have "p = q" using a new by auto
    moreover have "\<exists>m \<le> bk_counter b'. vid = ''vo-'' @ decimal_str m" using vid b'(1) by blast
    ultimately show ?thesis using True none new q by (auto simp: entry_ok_def b'(2))
  next
    case False
    then have "entry_ok journal b v p" using a inv by (auto simp: broker_inv_def)
    then show ?thesis using False fresh b'(1) unfolding entry_ok_def b'(2) by (auto intro: order_trans)
  qed
  moreover have "filled v ?j = 0 \<and> Cancelled v \<notin> set ?j" if "\<forall>p. Accepted v p \<notin> set ?j" for v
    using that inv by (auto simp: broker_inv_def)
  moreover have "distinct (map fst (bk_working b'))"
    using inv by (simp add: b'(2) broker_inv_def distinct_update)
  ultimately show ?thesis by (simp add: broker_inv_def)
qed

text \<open>An accepted order is entered in the book under a new identifier, and filled at once when it is a market order.\<close>

definition entered :: "string \<Rightarrow> working_order \<Rightarrow> broker \<Rightarrow> broker" where
  "entered vid w b = b\<lparr>bk_counter := bk_counter b + 1, bk_working := AList.update vid w (bk_working b)\<rparr>"

definition filled_now :: "broker_env \<Rightarrow> instant \<Rightarrow> working_order \<Rightarrow> (wire_event list \<times> working_order) broker_prog" where
  "filled_now env now w = (if wo_order_type w = MARKET then fill_order env w now else ret ([], w))"

lemma submit_cases:
  assumes run: "process_submit env c now b = (Inr r, b')"
  obtains
    (reject) code where "r = Inl code" "settled (bk_working b) (bk_counter b) b'"
  | (accept) b1 vid w spec q events w' status where "settled (bk_working b) (bk_counter b) b1"
      "vid = ''vo-'' @ decimal_str (bk_counter b1 + 1)" "wo_venue_order_id w = vid" "wo_remaining w = q" "cmd_quantity c = Some q"
      "venue_checks env c (wo_symbol w) (wo_side w) q now b = (Inr None, b1)"
      "map_of (bc_symbols (be_config env)) (wo_symbol w) = Some spec"
      "filled_now env now w (entered vid w b1) = (Inr (events, w'), b')" "r = Inr (OrderAck 0 status (Some vid), events)"
proof -
  obtain oid symbol side quantity ty where cmd: "cmd_order_intent_id c = Some oid" "cmd_symbol c = Some symbol" "cmd_side c = Some side"
      "cmd_quantity c = Some quantity" "cmd_order_type c = Some ty"
    using run by (auto simp: process_submit_def split: option.splits)
  obtain rej b1 where 1: "venue_checks env c symbol side quantity now b = (Inr rej, b1)"
    using run unfolding process_submit_def cmd option.case prod.case by (rule seq_InrE) blast
  have s1: "settled (bk_working b) (bk_counter b) b1" by (rule keeps_run [OF settled_checks _ 1]) (simp add: settled_def)
  show thesis
  proof (cases rej)
    case (Some code)
    then show thesis using run 1 cmd s1 reject by (auto simp: process_submit_def)
  next
    case None
    define vid where "vid = ''vo-'' @ decimal_str (bk_counter b1 + 1)"
    let ?b2 = "b1\<lparr>bk_counter := bk_counter b1 + 1\<rparr>"
    have fresh: "broker_next_id ''vo'' b1 = (Inr vid, ?b2)" by (simp add: broker_next_id_def vid_def)
    obtain x b3 where x: "book env symbol ?b2 = (Inr x, b3)"
      using run 1 None cmd fresh by (auto simp: process_submit_def elim!: seq_InrE)
    obtain spec bid ask where x': "x = (spec, bid, ask)" by (cases x)
    note b3 = book_run [OF x [unfolded x']]
    define w where "w = new_working_order env c oid symbol side quantity ty bid ask vid"
    have w: "wo_order_type w = ty" "wo_venue_order_id w = vid" "wo_symbol w = symbol" "wo_side w = side" "wo_remaining w = quantity"
      by (simp_all add: w_def new_working_order_def)
    have rest: "seq (filled_now env now w) (\<lambda>(events, w'). ret (Inr (OrderAck 0
        (if wo_remaining w' = 0 then Ack_FILLED else Ack_SUBMITTED) (Some vid), events))) (entered vid w b1) = (Inr r, b')"
      using run 1 None cmd fresh x x' b3 by (simp add: process_submit_def Let_def w_def filled_now_def entered_def new_working_order_def)
    obtain events w' where 4: "filled_now env now w (entered vid w b1) = (Inr (events, w'), b')"
        "r = Inr (OrderAck 0 (if wo_remaining w' = 0 then Ack_FILLED else Ack_SUBMITTED) (Some vid), events)"
      using rest by (auto elim!: seq_InrE)
    show thesis
      by (rule accept [OF s1 vid_def w(2,5) cmd(4) _ _ 4]) (use 1 None b3 w in simp_all)
  qed
qed

lemma broker_inv_entered:
  assumes cfg: "lot_config (be_config env)" and inv: "broker_inv env journal b"
    and accept: "settled (bk_working b) (bk_counter b) b1" "vid = ''vo-'' @ decimal_str (bk_counter b1 + 1)"
      "wo_venue_order_id w = vid" "wo_remaining w = q"
      "venue_checks env c (wo_symbol w) (wo_side w) q now b = (Inr None, b1)"
      "map_of (bc_symbols (be_config env)) (wo_symbol w) = Some spec"
  shows "broker_inv env (journal @ [Accepted vid q]) (entered vid w b1)"
proof -
  have "lots (ss_lot_step spec) q \<and> 0 < q" using venue_checks_pass [OF cfg accept(5)] accept(6) by simp
  then show ?thesis
    using accept by (intro broker_inv_accept [OF broker_inv_settled [OF inv accept(1)], where n = "bk_counter b1 + 1" and w = w and spec = spec])
      (simp_all add: entered_def)
qed

lemma broker_inv_submit:
  assumes cfg: "lot_config (be_config env)" and inv: "broker_inv env journal b" and run: "process_submit env c now b = (Inr r, b')"
  shows "broker_inv env (journal @ journal_submit c r) b'"
  using run
proof (cases rule: submit_cases)
  case (reject code)
  then show ?thesis using broker_inv_settled [OF inv] by simp
next
  case (accept b1 vid w spec q events w')
  note inv2 = broker_inv_entered [OF cfg inv accept(1-4,6,7)]
  then have "broker_inv env ((journal @ [Accepted vid q]) @ map Sent events) b'"
    using accept(8) broker_inv_fill_order [OF cfg inv2, of vid w] by (auto simp: filled_now_def entered_def split: if_splits)
  then show ?thesis using accept by simp
qed

lemma working_by_intent_in:
  assumes "broker_inv env journal b" and "working_by_intent oid b = Some w"
  shows "map_of (bk_working b) (wo_venue_order_id w) = Some w"
proof -
  obtain vid where "(vid, w) \<in> set (bk_working b)"
    using assms(2) by (auto simp: working_by_intent_def find_Some_iff in_set_conv_nth) (metis prod.collapse)
  then have "map_of (bk_working b) vid = Some w" using assms(1) by (simp add: broker_inv_def)
  moreover from broker_inv_order [OF assms(1) this] have "wo_venue_order_id w = vid" by (simp add: order_ok_def)
  ultimately show ?thesis by simp
qed

lemma broker_inv_cancel:
  assumes inv: "broker_inv env journal b" and run: "process_cancel env c now b = (Inr r, b')"
  shows "broker_inv env (journal @ journal_cancel r) b'"
proof (cases "b' = b \<and> journal_cancel r = []")
  case True
  then show ?thesis using inv by simp
next
  case False
  obtain oid where oid: "cmd_order_intent_id c = Some oid" using run by (auto simp: process_cancel_def split: option.splits)
  with False obtain w where w: "working_by_intent oid b = Some w" using run by (auto simp: process_cancel_def split: option.splits)
  let ?id = "wo_venue_order_id w"
  have b': "b' = b\<lparr>bk_working := AList.delete ?id (bk_working b)\<rparr>" "journal_cancel r = [Cancelled ?id]"
    using run oid w False by (auto simp: process_cancel_def split: if_splits)
  have m: "map_of (bk_working b) ?id = Some w" by (rule working_by_intent_in [OF inv w])
  have maps: "map_of (bk_working b') v = (if v = ?id then None else map_of (bk_working b) v)" for v
    by (simp add: b' delete_conv')
  have "order_ok env (journal @ [Cancelled ?id]) v u" if "map_of (bk_working b') v = Some u" for v u
    using that broker_inv_order [OF inv, of v u] by (auto simp: maps order_ok_def split: if_splits)
  moreover have "entry_ok (journal @ [Cancelled ?id]) b' v q" if "Accepted v q \<in> set (journal @ [Cancelled ?id])" for v q
  proof -
    have "entry_ok journal b v q" using that inv by (auto simp: broker_inv_def)
    then show ?thesis using maps [of v] by (auto simp: entry_ok_def b'(1) split: if_splits)
  qed
  moreover have "filled v (journal @ [Cancelled ?id]) = 0 \<and> Cancelled v \<notin> set (journal @ [Cancelled ?id])"
    if "\<forall>q. Accepted v q \<notin> set (journal @ [Cancelled ?id])" for v
    using that inv broker_inv_order [OF inv m] by (auto simp: broker_inv_def order_ok_def)
  moreover have "distinct (map fst (bk_working b'))" using inv by (simp add: b'(1) broker_inv_def distinct_delete)
  ultimately show ?thesis unfolding b'(2) by (simp add: broker_inv_def)
qed

lemma modify_cases:
  assumes run: "process_modify env c now b = (Inr r, b')"
  obtains "b' = b"
  | oid w x where "cmd_order_intent_id c = Some oid" "working_by_intent oid b = Some w"
      "b' = b\<lparr>bk_working := AList.update (wo_venue_order_id w) x (bk_working b)\<rparr>"
      "wo_venue_order_id x = wo_venue_order_id w" "wo_symbol x = wo_symbol w" "wo_remaining x = wo_remaining w"
proof -
  obtain oid where oid: "cmd_order_intent_id c = Some oid" using run by (auto simp: process_modify_def split: option.splits)
  have "\<exists>w x. working_by_intent oid b = Some w \<and> b' = b\<lparr>bk_working := AList.update (wo_venue_order_id w) x (bk_working b)\<rparr> \<and>
      wo_venue_order_id x = wo_venue_order_id w \<and> wo_symbol x = wo_symbol w \<and> wo_remaining x = wo_remaining w" if "b' \<noteq> b"
    using run oid that book_run [of env]
    by (fastforce simp: process_modify_def Let_def elim!: seq_InrE split: option.splits if_splits)
  then show thesis using that oid by blast
qed

lemma broker_inv_modify:
  assumes inv: "broker_inv env journal b" and run: "process_modify env c now b = (Inr r, b')"
  shows "broker_inv env journal b'"
  using run
proof (cases rule: modify_cases)
  case (2 oid w x)
  have m: "map_of (bk_working b) (wo_venue_order_id w) = Some w" by (rule working_by_intent_in [OF inv 2(2)])
  have "order_ok env journal v u" if "map_of (bk_working b') v = Some u" for v u
    using that broker_inv_order [OF inv, of v u] broker_inv_order [OF inv m] 2(4-6)
    by (auto simp: 2(3) order_ok_def split: if_splits)
  moreover have "entry_ok journal b' v q" if "Accepted v q \<in> set journal" for v q
    using that inv m by (auto simp: broker_inv_def entry_ok_def 2(3))
  ultimately show ?thesis using inv by (simp add: broker_inv_def 2(3) distinct_update)
qed (use inv in simp)

lemma broker_inv_step:
  assumes cfg: "lot_config (be_config env)" and inv: "broker_inv env journal b" and run: "broker_step env x b = (Inr j, b')"
  shows "broker_inv env (journal @ j) b'"
proof (cases x)
  case (BkSubmit c now)
  then show ?thesis using run broker_inv_submit [OF cfg inv] by (auto elim!: seq_InrE)
next
  case (BkCancel c now)
  then show ?thesis using run broker_inv_cancel [OF inv] by (auto elim!: seq_InrE)
next
  case (BkModify c now)
  then show ?thesis using run broker_inv_modify [OF inv] by (auto elim!: seq_InrE)
next
  case (BkAdvance now)
  then show ?thesis using run broker_inv_advance [OF cfg inv] by (auto elim!: seq_InrE)
next
  case (BkTrading v)
  then have "j = []" "settled (bk_working b) (bk_counter b) b'" using run by (auto simp: set_trading_enabled_def settled_def)
  then show ?thesis using broker_inv_settled [OF inv] by simp
next
  case (BkManual p ids magic)
  then have "j = []" "settled (bk_working b) (bk_counter b) b'"
    using run by (auto simp: open_manual_position_def Let_def settled_def elim!: seq_InrE split: if_splits)
  then show ?thesis using broker_inv_settled [OF inv] by simp
qed

lemma broker_inv_run:
  assumes "lot_config (be_config env)" and "broker_inv env journal b" and "run_broker env xs b = (Inr j, b')"
  shows "broker_inv env (journal @ j) b'"
  using assms(2,3)
proof (induction xs arbitrary: journal b j)
  case (Cons x xs)
  obtain j1 b1 more where 1: "broker_step env x b = (Inr j1, b1)" "run_broker env xs b1 = (Inr more, b')" "j = j1 @ more"
    using Cons.prems(2) by (auto elim!: seq_InrE)
  show ?case using Cons.IH [OF broker_inv_step [OF assms(1) Cons.prems(1) 1(1)] 1(2)] 1(3) by simp
qed simp

lemma broker_inv_init:
  assumes "broker_init env now enabled = Inr b"
  shows "broker_inv env [] b"
proof -
  let ?b = "\<lparr>bk_trading_enabled = enabled, bk_positions = [], bk_working = [], bk_counter = 0,
            bk_balance = bc_balance (be_config env), bk_realized = 0,
            bk_mids = map (\<lambda>(k, s). (k, ss_initial_mid s)) (bc_symbols (be_config env)), bk_last_quote_at = [], bk_draws = []\<rparr>"
  obtain u where run: "for_each (map fst (bc_symbols (be_config env))) (\<lambda>symbol. quote_step env symbol now) ?b = (Inr u, b)"
    using assms by (auto simp: broker_init_def Let_def split: prod.splits sum.splits)
  have "broker_inv env [] ?b" by (simp add: broker_inv_def)
  from keeps_run [OF broker_inv_quotes this run] show ?thesis .
qed

section \<open>Orders that cannot trigger\<close>

text \<open>The distance from the quote at submission to the trigger of a stop order, in the direction that costs.\<close>

definition trigger_cost :: "working_order \<Rightarrow> decimal \<Rightarrow> decimal" where
  "trigger_cost w p = (if wo_side w = BUY then dsub p (wo_ref_price w) else dsub (wo_ref_price w) p)"

definition beyond_cap :: "working_order \<Rightarrow> bool" where
  "beyond_cap w \<longleftrightarrow> wo_order_type w \<in> {STOP, STOP_LIMIT} \<and>
     (case wo_price w of None \<Rightarrow> True | Some p \<Rightarrow> wo_max_slippage w < trigger_cost w p)"

fun concerns :: "uuid \<Rightarrow> broker_op \<Rightarrow> bool" where
  "concerns oid (BkCancel c _) = (cmd_order_intent_id c = Some oid)"
| "concerns oid (BkModify c _) = (cmd_order_intent_id c = Some oid)"
| "concerns oid _ = False"

lemma beyond_cap_slips:
  assumes "beyond_cap w" and "touched w bid ask"
  shows "wo_max_slippage w < fill_slippage w (fill_price w bid ask)"
proof -
  obtain p where p: "wo_price w = Some p" "wo_max_slippage w < trigger_cost w p"
      and hit: "if wo_side w = BUY then p \<le> ask else bid \<le> p"
    using assms by (auto simp: beyond_cap_def touched_def split: option.splits if_splits)
  have "trigger_cost w p \<le> fill_slippage w (fill_price w bid ask)"
  proof (cases "wo_side w")
    case BUY
    then show ?thesis using hit by (simp add: trigger_cost_def fill_slippage_def fill_price_def dsub_def ctx_round_mono)
  next
    case SELL
    have "dneg (dsub bid (wo_ref_price w)) = dsub (wo_ref_price w) bid"
      using ctx_round_minus [of "bid - wo_ref_price w"] by (simp add: dneg_def dsub_def ctx_round_minus)
    then show ?thesis using SELL hit by (simp add: trigger_cost_def fill_slippage_def fill_price_def dsub_def ctx_round_mono)
  qed
  with p(2) show ?thesis by simp
qed

lemma beyond_cap_not_matched:
  assumes "beyond_cap w" and "map_of (bk_working b) vid = Some w" and run: "match_order env now vid b = (Inr events, b')"
  shows "events = [] \<and> b' = b"
proof -
  have m: "wo_order_type w \<noteq> MARKET" using assms(1) by (auto simp: beyond_cap_def)
  obtain hit b1 where hit: "is_touched env w b = (Inr hit, b1)"
      and rest: "(if hit then seq (fill_order env w now) (\<lambda>(events, _). ret events) else ret []) b1 = (Inr events, b')"
    using run assms(2) by (auto simp: match_order_def elim!: seq_InrE)
  show ?thesis
  proof (cases hit)
    case True
    obtain x where x: "book env (wo_symbol w) b = (Inr x, b1)" "touched w (fst (snd x)) (snd (snd x))"
      using hit True m by (auto simp: is_touched_def elim!: seq_InrE split: if_splits prod.splits)
    have "b1 = b" using x(1) book_run [of env "wo_symbol w" b "fst x" "fst (snd x)" "snd (snd x)" b1] by simp
    then have "fill_order env w now b1 = (Inr ([], w), b)"
      using x(1) beyond_cap_slips [OF assms(1) x(2)] by (cases x) (simp add: fill_order_def Let_def)
    then show ?thesis using rest True by simp
  next
    case False
    then have "b1 = b" using hit m by (auto simp: is_touched_def elim!: seq_InrE dest: book_run split: if_splits prod.splits)
    then show ?thesis using rest False by simp
  qed
qed

lemma fill_other_order:
  assumes "lot_config (be_config env)" and inv: "broker_inv env journal b" and w: "map_of (bk_working b) v = Some w" and "v \<noteq> vid"
    and run: "fill_order env w now b = (Inr (events, w'), b')"
  shows "map_of (bk_working b') vid = map_of (bk_working b) vid \<and> filled vid (map Sent events) = 0"
proof -
  obtain spec where "map_of (bc_symbols (be_config env)) (wo_symbol w) = Some spec" "lots (ss_lot_step spec) (wo_remaining w)"
      "wo_venue_order_id w = v"
    using broker_inv_order [OF inv w] by (auto simp: order_ok_def)
  then show ?thesis using fill_order_outcome [OF assms(1) _ _ run] assms(4) by (auto simp: delete_conv')
qed

lemma match_other_order:
  assumes cfg: "lot_config (be_config env)" and inv: "broker_inv env journal b" and "v \<noteq> vid"
    and run: "match_order env now v b = (Inr events, b')"
  shows "map_of (bk_working b') vid = map_of (bk_working b) vid \<and> filled vid (map Sent events) = 0"
proof -
  obtain w where w: "map_of (bk_working b) v = Some w" using run by (auto simp: match_order_def)
  then obtain hit b1 where hit: "is_touched env w b = (Inr hit, b1)"
      and rest: "(if hit then seq (fill_order env w now) (\<lambda>(events, _). ret events) else ret []) b1 = (Inr events, b')"
    using run by (auto simp: match_order_def elim!: seq_InrE)
  have s: "settled (bk_working b) (bk_counter b) b1" by (rule keeps_run [OF settled_touched _ hit]) (simp add: settled_def)
  then have "map_of (bk_working b1) v = Some w" "bk_working b1 = bk_working b" using w by (simp_all add: settled_def)
  then show ?thesis using rest fill_other_order [OF cfg broker_inv_settled [OF inv s] _ assms(3)]
    by (cases hit) (auto elim!: seq_InrE split: prod.splits)
qed

lemma match_keeps_order:
  assumes cfg: "lot_config (be_config env)" and w: "beyond_cap w"
    and "broker_inv env journal b" and "map_of (bk_working b) vid = Some w" and "match_orders env now vids b = (Inr events, b')"
  shows "map_of (bk_working b') vid = Some w \<and> filled vid (map Sent events) = 0"
  using assms(3-5)
proof (induction vids arbitrary: journal b events)
  case (Cons v vids)
  obtain es b1 more where 1: "match_order env now v b = (Inr es, b1)" "match_orders env now vids b1 = (Inr more, b')" "events = es @ more"
    using Cons.prems(3) by (auto elim!: seq_InrE)
  have keep: "map_of (bk_working b1) vid = Some w \<and> filled vid (map Sent es) = 0"
    using 1(1) Cons.prems beyond_cap_not_matched [OF w, of b vid env now es b1] match_other_order [OF cfg Cons.prems(1) _ 1(1), of vid]
    by (cases "v = vid") auto
  show ?case using Cons.IH [OF broker_inv_match_order [OF cfg Cons.prems(1) 1(1)] _ 1(2)] keep 1(3) by simp
qed simp

lemma beyond_cap_step:
  assumes cfg: "lot_config (be_config env)" and inv: "broker_inv env journal b" and m: "map_of (bk_working b) vid = Some w"
    and w: "beyond_cap w" and other: "\<not> concerns (wo_order_intent_id w) x" and run: "broker_step env x b = (Inr j, b')"
  shows "map_of (bk_working b') vid = Some w \<and> filled vid j = 0"
proof -
  have id: "wo_venue_order_id w = vid" using broker_inv_order [OF inv m] by (simp add: order_ok_def)
  have differ: "wo_venue_order_id u \<noteq> vid" if "working_by_intent oid b = Some u" "oid \<noteq> wo_order_intent_id w" for oid u
    using working_by_intent_in [OF inv that(1)] that m by (auto simp: working_by_intent_def find_Some_iff)
  show ?thesis
  proof (cases x)
    case (BkSubmit c now)
    then obtain r where r: "process_submit env c now b = (Inr r, b')" "j = journal_submit c r" using run by (auto elim!: seq_InrE)
    from r(1) show ?thesis
    proof (cases rule: submit_cases)
      case (reject code)
      then show ?thesis using m r(2) by (simp add: settled_def)
    next
      case (accept b1 v u spec q events u')
      have "Accepted vid (filled vid journal + wo_remaining w) \<in> set journal" using broker_inv_order [OF inv m] by (simp add: order_ok_def)
      from broker_inv_entry [OF inv this] have "v \<noteq> vid" using accept(1,2) by (auto simp: entry_ok_def settled_def)
      moreover have "map_of (bk_working (entered v u b1)) vid = Some w" using m accept(1) \<open>v \<noteq> vid\<close> by (simp add: entered_def settled_def)
      moreover have "map_of (bk_working (entered v u b1)) v = Some u" by (simp add: entered_def)
      ultimately show ?thesis using accept(8,9) r(2) fill_other_order [OF cfg broker_inv_entered [OF cfg inv accept(1-4,6,7)], of v u vid]
        by (auto simp: filled_now_def split: if_splits)
    qed
  next
    case (BkCancel c now)
    then show ?thesis using run m other
      by (auto simp: process_cancel_def delete_conv' elim!: seq_InrE dest!: differ split: option.splits if_splits)
  next
    case (BkModify c now)
    then obtain r where r: "process_modify env c now b = (Inr r, b')" "j = []" using run by (auto elim!: seq_InrE)
    from r(1) show ?thesis using r(2) m
    proof (cases rule: modify_cases)
      case (2 oid u y)
      then show ?thesis using BkModify other differ [OF 2(2)] m r(2) by simp
    qed simp
  next
    case (BkAdvance now)
    then obtain events b1 where 1: "for_each (map fst (bc_symbols (be_config env))) (\<lambda>symbol. quote_step env symbol now) b = (Inr (), b1)"
        "match_orders env now (map fst (bk_working b1)) b1 = (Inr events, b')" "j = map Sent events"
      using run by (auto simp: broker_advance_def elim!: seq_InrE)
    have "settled (bk_working b) (bk_counter b) b1" 
      by (rule keeps_run [OF settled_quotes _ 1(1)]) (simp add: settled_def)
    then have "map_of (bk_working b1) vid = Some w" "broker_inv env journal b1"
      using m broker_inv_settled [OF inv] by (simp_all add: settled_def)
    then show ?thesis using match_keeps_order [OF cfg w _ _ 1(2)] 1(3) by simp
  next
    case (BkTrading v)
    then show ?thesis using run m by (auto simp: set_trading_enabled_def)
  next
    case (BkManual p ids magic)
    then show ?thesis using run m by (auto simp: open_manual_position_def Let_def elim!: seq_InrE split: if_splits)
  qed
qed

lemma beyond_cap_run:
  assumes cfg: "lot_config (be_config env)" and w: "beyond_cap w" and "broker_inv env journal b"
    and "map_of (bk_working b) vid = Some w" and "\<forall>x \<in> set xs. \<not> concerns (wo_order_intent_id w) x" and "run_broker env xs b = (Inr j, b')"
  shows "map_of (bk_working b') vid = Some w \<and> filled vid j = 0"
  using assms(3-)
proof (induction xs arbitrary: journal b j)
  case (Cons x xs)
  obtain j1 b1 more where 1: "broker_step env x b = (Inr j1, b1)" "run_broker env xs b1 = (Inr more, b')" "j = j1 @ more"
    using Cons.prems(4) by (auto elim!: seq_InrE)
  have "map_of (bk_working b1) vid = Some w \<and> filled vid j1 = 0"
    using beyond_cap_step [OF cfg Cons.prems(1,2) w _ 1(1)] Cons.prems(3) by simp
  then show ?case using Cons.IH [OF broker_inv_step [OF cfg Cons.prems(1) 1(1)] _ _ 1(2)] Cons.prems(3) 1(3) by simp
qed simp

section \<open>Properties\<close>

text \<open>A venue with one symbol, whose market orders are filled by halves.\<close>

definition demo_broker_config :: broker_config where
  "demo_broker_config = \<lparr>bc_account_id = ''acc'', bc_is_demo = True, bc_balance = 100000, bc_leverage = 100,
     bc_symbols = [(''EURUSD'', default_symbol_spec)], bc_market_open = True, bc_max_quote_age = seconds 60,
     bc_partial_fill_ratio = 1 / 2, bc_commission_per_lot = 7, bc_magic_whitelist = []\<rparr>"

definition demo_broker_env :: broker_env where
  "demo_broker_env = \<lparr>be_config = demo_broker_config, be_draw = (\<lambda>_ _. 0), be_magic = (\<lambda>_. 7)\<rparr>"

lemma demo_lot_config: "lot_config (be_config demo_broker_env)"
proof -
  have "lot_grid (1 / 100)" unfolding lot_grid_def by (rule exI [of _ 10000]) simp
  then show ?thesis by (auto simp: lot_config_def demo_broker_env_def demo_broker_config_def default_symbol_spec_def split: if_splits)
qed

definition demo_order :: "uuid \<Rightarrow> order_type \<Rightarrow> decimal option \<Rightarrow> command" where
  "demo_order oid ty price = \<lparr>cmd_type = SUBMIT_ORDER, cmd_message_id = 1, cmd_trace_id = None, cmd_timestamp = 0, cmd_sequence = 1,
     cmd_correlation_id = None, cmd_checksum = None, cmd_order_intent_id = Some oid, cmd_strategy_id = ''s'', cmd_strategy_version = ''1'',
     cmd_expires_at = None, cmd_symbol = Some ''EURUSD'', cmd_side = Some BUY, cmd_quantity = Some (1 / 10), cmd_order_type = Some ty,
     cmd_price = price, cmd_stop_loss = None, cmd_take_profit = None, cmd_max_slippage = 0, cmd_time_in_force = GTC,
     cmd_reason = None, cmd_new_price = None, cmd_new_stop_loss = None, cmd_new_take_profit = None\<rparr>"

definition demo_book :: broker where
  "demo_book = \<lparr>bk_trading_enabled = True, bk_positions = [], bk_working = [], bk_counter = 0, bk_balance = 100000, bk_realized = 0,
     bk_mids = [(''EURUSD'', 108 / 100)], bk_last_quote_at = [(''EURUSD'', 0)], bk_draws = [(''EURUSD'', 1)]\<rparr>"

lemma demo_init: "broker_init demo_broker_env 0 True = Inr demo_book"
  by code_simp

lemma demo_checks: "venue_checks demo_broker_env (demo_order 5 MARKET None) ''EURUSD'' BUY (1 / 10) 0 demo_book = (Inr None, demo_book)"
  by code_simp

definition demo_working :: working_order where
  "demo_working = new_working_order demo_broker_env (demo_order 5 MARKET None) 5 ''EURUSD'' BUY (1 / 10) MARKET
     (53997 / 50000) (54003 / 50000) ''vo-1''"

lemma demo_quote: "book demo_broker_env ''EURUSD'' (demo_book\<lparr>bk_counter := 1\<rparr>) =
    (Inr (default_symbol_spec, 53997 / 50000, 54003 / 50000), demo_book\<lparr>bk_counter := 1\<rparr>)"
  by code_simp

lemma demo_filled:
  "\<exists>events w b. fill_order demo_broker_env demo_working 0 (demo_book\<lparr>bk_counter := 1, bk_working := [(''vo-1'', demo_working)]\<rparr>) = (Inr (events, w), b)"
proof -
  let ?r = "fill_order demo_broker_env demo_working 0 (demo_book\<lparr>bk_counter := 1, bk_working := [(''vo-1'', demo_working)]\<rparr>)"
  have "\<not> isl (fst ?r)" by code_simp
  then show ?thesis by (cases ?r; cases "fst ?r") auto
qed

lemma demo_market_run:
  "\<exists>b. fst (run_broker demo_broker_env [BkSubmit (demo_order 5 MARKET None) 0] demo_book) = Inr b \<and> Accepted ''vo-1'' (1 / 10) \<in> set b"
proof -
  obtain events w b where f: "fill_order demo_broker_env demo_working 0 (demo_book\<lparr>bk_counter := 1, bk_working := [(''vo-1'', demo_working)]\<rparr>)
      = (Inr (events, w), b)" using demo_filled by blast
  have next_id: "broker_next_id ''vo'' demo_book = (Inr ''vo-1'', demo_book\<lparr>bk_counter := 1\<rparr>)" by code_simp
  have cmd: "cmd_order_intent_id c = Some 5" "cmd_symbol c = Some ''EURUSD''" "cmd_side c = Some BUY" "cmd_quantity c = Some (1 / 10)"
      "cmd_order_type c = Some MARKET" if "c = demo_order 5 MARKET None" for c
    by (simp_all add: that demo_order_def)
  have "bk_working demo_book = []" by (simp add: demo_book_def)
  then have "\<exists>status. process_submit demo_broker_env (demo_order 5 MARKET None) 0 demo_book = (Inr (Inr (OrderAck 0 status (Some ''vo-1''), events)), b)"
    by (simp add: process_submit_def cmd [OF refl] demo_checks next_id demo_quote demo_working_def [symmetric] f Let_def del: One_nat_def)
  then show ?thesis using cmd(4) [OF refl] by auto
qed

text \<open>
  C13: the fills of an order add up. In every run of the venue whose lot sizes are on the grid of a millionth,
  an accepted order is never filled beyond its quantity; while it rests in the book, what remains of it is the quantity less what was
  filled, and positive; and an order that left the book was cancelled or is filled exactly.
\<close>

theorem broker_fills_conserved:
  assumes "lot_config (be_config env)" and "broker_init env start enabled = Inr b0" and "run_broker env ops b0 = (Inr journal, b)"
    and "Accepted vid q \<in> set journal"
  shows "filled vid journal \<le> q \<and>
    (case map_of (bk_working b) vid of
       Some w \<Rightarrow> wo_remaining w = q - filled vid journal \<and> 0 < wo_remaining w \<and> Cancelled vid \<notin> set journal
     | None \<Rightarrow> Cancelled vid \<in> set journal \<or> filled vid journal = q)"
proof -
  have inv: "broker_inv env journal b" using broker_inv_run [OF assms(1) broker_inv_init [OF assms(2)] assms(3)] by simp
  note e = broker_inv_entry [OF inv assms(4)]
  show ?thesis
  proof (cases "map_of (bk_working b) vid")
    case (Some w)
    then obtain spec where w: "Accepted vid (filled vid journal + wo_remaining w) \<in> set journal" "Cancelled vid \<notin> set journal"
        and lots: "map_of (bc_symbols (be_config env)) (wo_symbol w) = Some spec" "lots (ss_lot_step spec) (wo_remaining w)"
      using broker_inv_order [OF inv Some] by (auto simp: order_ok_def)
    have "lot_grid (ss_lot_step spec)" using assms(1) lots(1) by (auto simp: lot_config_def)
    with lots(2) have "0 < wo_remaining w" by (auto simp: lot_grid_def lots_def)
    then show ?thesis using e w Some by (auto simp: entry_ok_def)
  qed (use e in \<open>simp add: entry_ok_def\<close>)
qed

theorem broker_fills_conserved_witness:
  "\<exists>journal b. run_broker demo_broker_env [BkSubmit (demo_order 5 MARKET None) 0] demo_book = (Inr journal, b) \<and>
     Accepted ''vo-1'' (1 / 10) \<in> set journal \<and> filled ''vo-1'' journal \<le> 1 / 10"
proof -
  obtain j b where run: "run_broker demo_broker_env [BkSubmit (demo_order 5 MARKET None) 0] demo_book = (Inr j, b)"
      and "Accepted ''vo-1'' (1 / 10) \<in> set j"
    using demo_market_run by (metis prod.collapse)
  with broker_fills_conserved [OF demo_lot_config demo_init run] show ?thesis by blast
qed

lemma demo_stop_run:
  "\<exists>j b w j' b'. run_broker demo_broker_env [BkSubmit (demo_order 5 STOP (Some (109 / 100))) 0] demo_book = (Inr j, b) \<and>
     map_of (bk_working b) ''vo-1'' = Some w \<and> beyond_cap w \<and> run_broker demo_broker_env [BkAdvance 1] b = (Inr j', b')"
proof -
  let ?r = "run_broker demo_broker_env [BkSubmit (demo_order 5 STOP (Some (109 / 100))) 0] demo_book"
  have "case ?r of (Inr j, b) \<Rightarrow> (case map_of (bk_working b) ''vo-1'' of Some w \<Rightarrow> beyond_cap w | None \<Rightarrow> False) \<and>
      (case fst (run_broker demo_broker_env [BkAdvance 1] b) of Inr _ \<Rightarrow> True | _ \<Rightarrow> False) | _ \<Rightarrow> False" by code_simp
  then show ?thesis
    by (cases ?r; cases "fst ?r"; cases "map_of (bk_working (snd ?r)) ''vo-1''";
        cases "run_broker demo_broker_env [BkAdvance 1] (snd ?r)"; cases "fst (run_broker demo_broker_env [BkAdvance 1] (snd ?r))") auto
qed

text \<open>
  A stop order whose trigger lies further from the quote at submission than its slippage cap is never filled. The
  venue measures slippage from that quote and not from the trigger, so whatever the market does, and whatever other orders do, the
  order rests unfilled until somebody cancels or modifies it. The cap is zero unless the intent gives one.
\<close>

lemma stop_beyond_cap_never_fills:
  assumes "lot_config (be_config env)" and "broker_init env start enabled = Inr b0" and "run_broker env ops b0 = (Inr journal, b)"
    and "map_of (bk_working b) vid = Some w" and "beyond_cap w" and "run_broker env later b = (Inr journal', b')"
    and "\<forall>x \<in> set later. \<not> concerns (wo_order_intent_id w) x"
  shows "map_of (bk_working b') vid = Some w \<and> filled vid journal' = 0"
proof -
  have "broker_inv env journal b" using broker_inv_run [OF assms(1) broker_inv_init [OF assms(2)] assms(3)] by simp
  then show ?thesis by (rule beyond_cap_run [OF assms(1,5) _ assms(4,7,6)])
qed

theorem stop_beyond_cap_never_fills_witness:
  "\<exists>j b w j' b'. run_broker demo_broker_env [BkSubmit (demo_order 5 STOP (Some (109 / 100))) 0] demo_book = (Inr j, b) \<and>
     run_broker demo_broker_env [BkAdvance 1] b = (Inr j', b') \<and> map_of (bk_working b') ''vo-1'' = Some w \<and> filled ''vo-1'' j' = 0"
proof -
  obtain j b w j' b' where run: "run_broker demo_broker_env [BkSubmit (demo_order 5 STOP (Some (109 / 100))) 0] demo_book = (Inr j, b)"
      "map_of (bk_working b) ''vo-1'' = Some w" "beyond_cap w" "run_broker demo_broker_env [BkAdvance 1] b = (Inr j', b')"
    using demo_stop_run by blast
  from stop_beyond_cap_never_fills [OF demo_lot_config demo_init run] have "map_of (bk_working b') ''vo-1'' = Some w \<and> filled ''vo-1'' j' = 0" by simp
  with run show ?thesis by blast
qed



end
