(* ===== verification/Worker_Store.thy ===== *)
theory Worker_Store
  imports Contracts
begin

text \<open>
  The state of the unattended paper pipeline: the records of \<^verbatim>\<open>core/schemas/pipeline.py\<close>
  and the in-memory store of \<^verbatim>\<open>apps/worker/persistence.py\<close>, which the PostgreSQL store mirrors. A run record
  says how far a stage came with a trace; the lifecycle follows a trade; the account is what the risk engine reads.

  Left out of a run record are the cycle, the instrument and the references to inputs and outputs, which annotate it and are never
  read; a context fragment is the text of its JSON document.
\<close>

section \<open>Records\<close>

datatype pipeline_stage_name =
    PS_INGEST | PS_RESEARCH | PS_FUSION | PS_PROPOSAL | PS_RISK | PS_ORDER_INTENT | PS_EXECUTION | PS_POSITIONS
  | PS_ACCOUNTING | PS_POSTTRADE

datatype pipeline_status = PL_PENDING | PL_RUNNING | PL_SUCCEEDED | PL_FAILED | PL_SKIPPED

record pipeline_run_record =
  pr_run_id :: uuid
  pr_trace_id :: uuid
  pr_stage :: pipeline_stage_name
  pr_status :: pipeline_status
  pr_attempt :: int
  pr_started_at :: instant
  pr_completed_at :: "instant option"
  pr_error :: "exn option"

definition valid_pipeline_run_record :: "pipeline_run_record \<Rightarrow> bool" where
  "valid_pipeline_run_record r \<longleftrightarrow> 1 \<le> pr_attempt r"

record trade_lifecycle =
  tl_lifecycle_id :: uuid
  tl_trace_id :: uuid
  tl_proposal_id :: "uuid option"
  tl_strategy_id :: string
  tl_strategy_version :: string
  tl_instrument_id :: string
  tl_state :: trade_lifecycle_state
  tl_version :: int
  tl_direction :: "signal_direction option"
  tl_risk_decision_id :: "uuid option"
  tl_order_intent_id :: "uuid option"
  tl_position_id :: "string option"
  tl_trade_id :: "uuid option"
  tl_stop_loss :: "decimal option"
  tl_take_profit :: "decimal option"
  tl_error :: "string option"
  tl_created_at :: instant
  tl_updated_at :: instant

definition valid_trade_lifecycle :: "trade_lifecycle \<Rightarrow> bool" where
  "valid_trade_lifecycle l \<longleftrightarrow> tl_strategy_id l \<noteq> [] \<and> tl_strategy_version l \<noteq> [] \<and> tl_instrument_id l \<noteq> [] \<and> 1 \<le> tl_version l"

record paper_account_record =
  pa_account_id :: string
  pa_currency :: string
  pa_balance :: decimal
  pa_equity :: decimal
  pa_realized_pnl :: decimal
  pa_daily_pnl :: decimal
  pa_peak_equity :: decimal
  pa_consecutive_losses :: int
  pa_last_loss_at :: "instant option"
  pa_open_positions :: int
  pa_version :: int
  pa_updated_at :: instant

definition valid_paper_account :: "paper_account_record \<Rightarrow> bool" where
  "valid_paper_account a \<longleftrightarrow> pa_account_id a \<noteq> [] \<and> currency_ok (pa_currency a) \<and> 0 \<le> pa_balance a \<and> 0 < pa_equity a \<and>
     0 < pa_peak_equity a \<and> 0 \<le> pa_consecutive_losses a \<and> 0 \<le> pa_open_positions a \<and> 1 \<le> pa_version a \<and>
     (0 < pa_consecutive_losses a \<longrightarrow> pa_last_loss_at a \<noteq> None)"

record trade_context =
  tc_trace_id :: uuid
  tc_instrument_id :: string
  tc_fragments :: "(string, string) dict"
  tc_updated_at :: instant

record pipeline_store =
  ps_runs :: "(uuid \<times> pipeline_stage_name, pipeline_run_record) dict"
  ps_lifecycles :: "(uuid, trade_lifecycle) dict"
  ps_by_proposal :: "(uuid, uuid) dict"
  ps_by_order :: "(uuid, uuid) dict"
  ps_by_trace :: "(uuid, uuid) dict"
  ps_accounts :: "(string, paper_account_record) dict"
  ps_contexts :: "(uuid, trade_context) dict"

definition empty_pipeline_store :: pipeline_store where
  "empty_pipeline_store = \<lparr>ps_runs = [], ps_lifecycles = [], ps_by_proposal = [], ps_by_order = [], ps_by_trace = [],
     ps_accounts = [], ps_contexts = []\<rparr>"

type_synonym 'a store_prog = "(pipeline_store, exn, 'a) prog"

section \<open>Runs\<close>

definition get_run :: "uuid \<Rightarrow> pipeline_stage_name \<Rightarrow> pipeline_store \<Rightarrow> pipeline_run_record option" where
  "get_run trace_id stage s = map_of (ps_runs s) (trace_id, stage)"

definition run_final :: "pipeline_run_record \<Rightarrow> bool" where
  "run_final r \<longleftrightarrow> pr_status r \<in> {PL_SUCCEEDED, PL_SKIPPED}"

definition save_run :: "pipeline_run_record \<Rightarrow> pipeline_run_record store_prog" where
  "save_run r s =
     (case get_run (pr_trace_id r) (pr_stage r) s of
        Some existing \<Rightarrow>
          if run_final existing then (Inr existing, s)
          else (Inr r, s\<lparr>ps_runs := AList.update (pr_trace_id r, pr_stage r) r (ps_runs s)\<rparr>)
      | None \<Rightarrow> (Inr r, s\<lparr>ps_runs := AList.update (pr_trace_id r, pr_stage r) r (ps_runs s)\<rparr>))"

definition runs_for_trace :: "uuid \<Rightarrow> pipeline_store \<Rightarrow> pipeline_run_record list" where
  "runs_for_trace trace_id s = map snd (filter (\<lambda>((tid, _), _). tid = trace_id) (ps_runs s))"

definition has_succeeded :: "uuid \<Rightarrow> pipeline_stage_name \<Rightarrow> pipeline_store \<Rightarrow> bool" where
  "has_succeeded trace_id stage s =
     (case get_run trace_id stage s of None \<Rightarrow> False | Some r \<Rightarrow> pr_status r = PL_SUCCEEDED)"

definition list_runs :: "pipeline_store \<Rightarrow> pipeline_run_record list" where
  "list_runs s = map snd (ps_runs s)"

section \<open>Lifecycles\<close>

definition get_lifecycle :: "uuid \<Rightarrow> pipeline_store \<Rightarrow> trade_lifecycle option" where
  "get_lifecycle lid s = map_of (ps_lifecycles s) lid"

definition lifecycle_by :: "(uuid, uuid) dict \<Rightarrow> uuid \<Rightarrow> pipeline_store \<Rightarrow> trade_lifecycle option" where
  "lifecycle_by index key s = Option.bind (map_of index key) (\<lambda>lid. get_lifecycle lid s)"

definition get_lifecycle_by_proposal :: "uuid \<Rightarrow> pipeline_store \<Rightarrow> trade_lifecycle option" where
  "get_lifecycle_by_proposal pid s = lifecycle_by (ps_by_proposal s) pid s"

definition get_lifecycle_by_order :: "uuid \<Rightarrow> pipeline_store \<Rightarrow> trade_lifecycle option" where
  "get_lifecycle_by_order oid s = lifecycle_by (ps_by_order s) oid s"

definition get_lifecycle_by_trace :: "uuid \<Rightarrow> pipeline_store \<Rightarrow> trade_lifecycle option" where
  "get_lifecycle_by_trace tid s = lifecycle_by (ps_by_trace s) tid s"

definition index_opt :: "uuid option \<Rightarrow> uuid \<Rightarrow> (uuid, uuid) dict \<Rightarrow> (uuid, uuid) dict" where
  "index_opt key v d = (case key of None \<Rightarrow> d | Some k \<Rightarrow> AList.update k v d)"

definition save_lifecycle :: "trade_lifecycle \<Rightarrow> trade_lifecycle store_prog" where
  "save_lifecycle l s =
     (case get_lifecycle (tl_lifecycle_id l) s of
        Some existing \<Rightarrow> (Inr existing, s)
      | None \<Rightarrow> (Inr l, s\<lparr>
          ps_lifecycles := AList.update (tl_lifecycle_id l) l (ps_lifecycles s),
          ps_by_proposal := index_opt (tl_proposal_id l) (tl_lifecycle_id l) (ps_by_proposal s),
          ps_by_order := index_opt (tl_order_intent_id l) (tl_lifecycle_id l) (ps_by_order s),
          ps_by_trace := (if map_of (ps_by_trace s) (tl_trace_id l) = None
            then AList.update (tl_trace_id l) (tl_lifecycle_id l) (ps_by_trace s) else ps_by_trace s)\<rparr>))"

definition update_lifecycle :: "trade_lifecycle \<Rightarrow> int \<Rightarrow> trade_lifecycle store_prog" where
  "update_lifecycle l expected s =
     (case get_lifecycle (tl_lifecycle_id l) s of
        None \<Rightarrow> (Inl (StalePipelineStateError ''lifecycle'' expected 0), s)
      | Some current \<Rightarrow>
          if tl_version current \<noteq> expected then (Inl (StalePipelineStateError ''lifecycle'' expected (tl_version current)), s)
          else if tl_version l \<noteq> expected + 1 then (Inl (ValueError ''update_lifecycle''), s)
          else (Inr l, s\<lparr>ps_lifecycles := AList.update (tl_lifecycle_id l) l (ps_lifecycles s)\<rparr>))"

definition list_lifecycles :: "pipeline_store \<Rightarrow> trade_lifecycle list" where
  "list_lifecycles s = map snd (ps_lifecycles s)"

section \<open>Account and context\<close>

definition get_account :: "string \<Rightarrow> pipeline_store \<Rightarrow> paper_account_record option" where
  "get_account aid s = map_of (ps_accounts s) aid"

definition upsert_account :: "paper_account_record \<Rightarrow> int option \<Rightarrow> paper_account_record store_prog" where
  "upsert_account r expected s =
     (let put = (Inr r, s\<lparr>ps_accounts := AList.update (pa_account_id r) r (ps_accounts s)\<rparr>) in
      case expected of
        None \<Rightarrow> put
      | Some v \<Rightarrow>
          if pa_version r \<noteq> v + 1 then (Inl (ValueError ''upsert_account''), s)
          else case get_account (pa_account_id r) s of
            None \<Rightarrow> put
          | Some current \<Rightarrow>
              if pa_version current \<noteq> v then (Inl (StalePipelineStateError (pa_account_id r) v (pa_version current)), s)
              else put)"

definition save_context_fragment :: "uuid \<Rightarrow> string \<Rightarrow> string \<Rightarrow> string \<Rightarrow> instant \<Rightarrow> unit store_prog" where
  "save_context_fragment trace_id key payload instrument_id updated_at s =
     (Inr (), s\<lparr>ps_contexts := AList.update trace_id
       (case map_of (ps_contexts s) trace_id of
          None \<Rightarrow> \<lparr>tc_trace_id = trace_id, tc_instrument_id = instrument_id, tc_fragments = [(key, payload)],
            tc_updated_at = updated_at\<rparr>
        | Some existing \<Rightarrow> existing\<lparr>tc_fragments := AList.update key payload (tc_fragments existing), tc_updated_at := updated_at\<rparr>)
       (ps_contexts s)\<rparr>)"

definition get_context :: "uuid \<Rightarrow> pipeline_store \<Rightarrow> trade_context option" where
  "get_context trace_id s = map_of (ps_contexts s) trace_id"

section \<open>The run ledger as an interface\<close>

text \<open>
  What the stages rely on: a run record is read back after it was saved, a final record is never replaced, and other keys
  are left alone.
\<close>

locale run_ledger =
  fixes look :: "uuid \<Rightarrow> pipeline_stage_name \<Rightarrow> 's \<Rightarrow> pipeline_run_record option"
    and save :: "pipeline_run_record \<Rightarrow> ('s, exn, pipeline_run_record) prog"
  assumes save_returns: "\<exists>r' s'. save r s = (Inr r', s')"
    and save_reads_back: "save r s = (Inr r', s') \<Longrightarrow> look (pr_trace_id r) (pr_stage r) s' = Some r'"
    and save_replaces: "save r s = (Inr r', s') \<Longrightarrow>
      r' = (case look (pr_trace_id r) (pr_stage r) s of
              None \<Rightarrow> r | Some old \<Rightarrow> if run_final old then old else r)"
    and save_frame: "save r s = (Inr r', s') \<Longrightarrow> (t, st) \<noteq> (pr_trace_id r, pr_stage r) \<Longrightarrow> look t st s' = look t st s"
begin

text \<open>Once a key holds a final record, no save changes it.\<close>

lemma final_is_stable:
  assumes "look t st s = Some old" and "run_final old"
  shows "look t st (snd (save r s)) = Some old"
proof -
  obtain r' s' where run: "save r s = (Inr r', s')" using save_returns by blast
  show ?thesis
  proof (cases "(t, st) = (pr_trace_id r, pr_stage r)")
    case True
    then show ?thesis using save_reads_back [OF run] save_replaces [OF run] assms run by auto
  next
    case False
    then show ?thesis using save_frame [OF run False] assms(1) run by simp
  qed
qed

lemma success_is_recorded:
  assumes "\<not> (\<exists>old. look (pr_trace_id r) (pr_stage r) s = Some old \<and> run_final old)"
  shows "look (pr_trace_id r) (pr_stage r) (snd (save r s)) = Some r"
proof -
  obtain r' s' where run: "save r s = (Inr r', s')" using save_returns by blast
  then show ?thesis using save_reads_back [OF run] save_replaces [OF run] assms by (auto split: option.splits if_splits)
qed

end

interpretation runs: run_ledger get_run save_run
proof unfold_locales
  fix r s r' s' t st
  show "\<exists>r' s'. save_run r s = (Inr r', s')" by (simp add: save_run_def split: option.split)
  assume run: "save_run r s = (Inr r', s')"
  then show "get_run (pr_trace_id r) (pr_stage r) s' = Some r'"
    by (auto simp: save_run_def get_run_def split: option.splits if_splits)
  show "r' = (case get_run (pr_trace_id r) (pr_stage r) s of None \<Rightarrow> r | Some old \<Rightarrow> if run_final old then old else r)"
    using run by (auto simp: save_run_def split: option.splits if_splits)
  assume "(t, st) \<noteq> (pr_trace_id r, pr_stage r)"
  then show "get_run t st s' = get_run t st s"
    using run by (auto simp: save_run_def get_run_def split: option.splits if_splits)
qed

end
