(* ===== verification/Paper_Ledger.thy ===== *)
theory Paper_Ledger
  imports Applier Worker_Store Risk_Sizing
begin

text \<open>
  The paper ledger, \<open>PaperLedger\<close> of \<^verbatim>\<open>apps/worker/ledger.py\<close>: it nets fills into one position per instrument, writes the
  positions to the execution store, and turns a closed position into a trade outcome.

  The state holds the dictionaries of the object and the execution store it shares with the stages. Position objects are mutated in
  place; the model writes the changed position back to the dictionary at the point of the assignment. Parameters are the clock and the
  hexadecimal suffix of a random identifier, both indexed by the number of readings; fields that only say who produced a record are
  left out.
\<close>

section \<open>State\<close>

record ledger_position =
  lp_instrument_id :: string
  lp_side :: position_side
  lp_quantity :: decimal
  lp_average_entry_price :: decimal
  lp_opened_at :: instant
  lp_venue_position_id :: string
  lp_order_intent_ids :: "uuid list"
  lp_entry_costs :: decimal
  lp_stop_loss :: "decimal option"
  lp_take_profit :: "decimal option"

record price_point =
  pp_ts :: instant
  pp_high :: decimal
  pp_low :: decimal
  pp_close :: decimal

record fill_application =
  fa_position :: "position_snapshot option"
  fa_outcome :: "trade_outcome option"
  fa_realized_pnl :: decimal
  fa_costs :: decimal

record ledger =
  lg_positions :: "(string, ledger_position) dict"
  lg_outcomes :: "trade_outcome list"
  lg_paths :: "(string, price_point list) dict"
  lg_exec :: exec_store
  lg_ticks :: nat
  lg_ids :: nat

record ledger_env =
  le_account_id :: string
  le_currency :: string
  le_instruments :: "(string, instrument) dict"
  le_clock :: "nat \<Rightarrow> instant"
  le_suffix :: "nat \<Rightarrow> string"

type_synonym 'a ledger_prog = "(ledger, exn, 'a) prog"

definition max_path_points :: nat where
  "max_path_points = 20000"

definition of_result :: "exn + 'a \<Rightarrow> ('s, exn, 'a) prog" where
  "of_result r = (case r of Inl e \<Rightarrow> raise e | Inr x \<Rightarrow> ret x)"

definition found_or :: "exn \<Rightarrow> 'a option \<Rightarrow> ('s, exn, 'a) prog" where
  "found_or e v = (case v of None \<Rightarrow> raise e | Some x \<Rightarrow> ret x)"

definition ledger_now :: "ledger_env \<Rightarrow> instant ledger_prog" where
  "ledger_now env = (\<lambda>l. (Inr (le_clock env (lg_ticks l)), l\<lparr>lg_ticks := lg_ticks l + 1\<rparr>))"

definition on_exec :: "(exec_store, exn, 'a) prog \<Rightarrow> 'a ledger_prog" where
  "on_exec m = zoom lg_exec (\<lambda>x l. l\<lparr>lg_exec := x\<rparr>) m"

section \<open>Queries\<close>

definition loaded_position :: "execution_position \<Rightarrow> ledger_position" where
  "loaded_position p = \<lparr>lp_instrument_id = ep_instrument_id p, lp_side = ep_side p, lp_quantity = ep_quantity p,
     lp_average_entry_price = ep_average_entry_price p, lp_opened_at = ep_opened_at p,
     lp_venue_position_id = ep_venue_position_id p,
     lp_order_intent_ids = (case ep_order_intent_id p of None \<Rightarrow> [] | Some oid \<Rightarrow> [oid]),
     lp_entry_costs = 0, lp_stop_loss = None, lp_take_profit = None\<rparr>"

primrec load_positions :: "execution_position list \<Rightarrow> (string, ledger_position) dict \<Rightarrow> (string, ledger_position) dict" where
  "load_positions [] d = d"
| "load_positions (p # ps) d = load_positions ps
     (if ep_closed_at p \<noteq> None then d else AList.update (ep_instrument_id p) (loaded_position p) d)"

definition load :: "execution_position list \<Rightarrow> unit ledger_prog" where
  "load ps = modify (\<lambda>l. l\<lparr>lg_positions := load_positions ps []\<rparr>)"

definition position :: "string \<Rightarrow> ledger \<Rightarrow> ledger_position option" where
  "position iid l = map_of (lg_positions l) iid"

definition open_positions :: "ledger \<Rightarrow> ledger_position list" where
  "open_positions l = map snd (lg_positions l)"

definition or_mid :: "decimal option \<Rightarrow> decimal \<Rightarrow> decimal" where
  "or_mid x mid = (case x of None \<Rightarrow> mid | Some v \<Rightarrow> v)"

definition price_path :: "string \<Rightarrow> ledger \<Rightarrow> price_point list" where
  "price_path pid l = (case map_of (lg_paths l) pid of None \<Rightarrow> [] | Some ps \<Rightarrow> ps)"

definition record_mark :: "market_snapshot \<Rightarrow> unit ledger_prog" where
  "record_mark snapshot = modify (\<lambda>l.
     case position (ms_instrument_id snapshot) l of
       None \<Rightarrow> l
     | Some p \<Rightarrow>
         if lp_venue_position_id p = [] then l
         else let mid = ms_mid snapshot;
                  point = \<lparr>pp_ts = ms_as_of snapshot, pp_high = or_mid (ms_high snapshot) mid,
                    pp_low = or_mid (ms_low snapshot) mid, pp_close = or_mid (ms_close snapshot) mid\<rparr>;
                  path = price_path (lp_venue_position_id p) l @ [point]
              in l\<lparr>lg_paths := AList.update (lp_venue_position_id p)
                   (drop (length path - max_path_points) path) (lg_paths l)\<rparr>)"

definition clear_price_path :: "string \<Rightarrow> unit ledger_prog" where
  "clear_price_path pid = modify (\<lambda>l. l\<lparr>lg_paths := AList.delete pid (lg_paths l)\<rparr>)"

section \<open>Money\<close>

definition currency_text :: "string option \<Rightarrow> string" where
  "currency_text c = (case c of None \<Rightarrow> ''None'' | Some s \<Rightarrow> s)"

definition to_account_currency :: "ledger_env \<Rightarrow> decimal \<Rightarrow> string \<Rightarrow> decimal \<Rightarrow> exn + decimal" where
  "to_account_currency env pnl_quote iid at_price =
     (case map_of (le_instruments env) iid of
        None \<Rightarrow> Inl (KeyError iid)
      | Some i \<Rightarrow>
          if currency_text (ins_quote_currency i) = le_currency env then Inr pnl_quote
          else if currency_text (ins_base_currency i) = le_currency env
          then (if at_price \<le> 0 then Inr pnl_quote else Inr (ddiv_nz pnl_quote at_price))
          else Inl (NotImplementedError ''paper ledger''))"

definition units_multiplier :: decimal where
  "units_multiplier = 1"

definition unrealized :: "ledger_env \<Rightarrow> ledger_position \<Rightarrow> decimal \<Rightarrow> exn + decimal" where
  "unrealized env p mark =
     (let delta = dsub mark (lp_average_entry_price p);
          delta = (if lp_side p = PS_SHORT then dneg delta else delta)
      in to_account_currency env (dmul delta (lp_quantity p)) (lp_instrument_id p) mark)"

definition side_of :: "order_side \<Rightarrow> position_side" where
  "side_of side = (if side = BUY then PS_LONG else PS_SHORT)"

definition position_id :: "string \<Rightarrow> string" where
  "position_id iid = ''paper:'' @ iid"

definition new_position_id :: "ledger_env \<Rightarrow> string \<Rightarrow> string ledger_prog" where
  "new_position_id env iid = (\<lambda>l. (Inr (''paper:'' @ iid @ '':'' @ le_suffix env (lg_ids l)), l\<lparr>lg_ids := lg_ids l + 1\<rparr>))"

section \<open>Fills\<close>

definition put_position :: "ledger_position \<Rightarrow> unit ledger_prog" where
  "put_position p = modify (\<lambda>l. l\<lparr>lg_positions := AList.update (lp_instrument_id p) p (lg_positions l)\<rparr>)"

definition execution_position_of :: "ledger_env \<Rightarrow> ledger_position \<Rightarrow> instant \<Rightarrow> bool \<Rightarrow> execution_position" where
  "execution_position_of env p now is_closed =
     \<lparr>ep_venue_position_id = lp_venue_position_id p, ep_account_id = le_account_id env, ep_instrument_id = lp_instrument_id p,
      ep_side = lp_side p, ep_quantity = lp_quantity p, ep_average_entry_price = lp_average_entry_price p,
      ep_order_intent_id = (if lp_order_intent_ids p = [] then None else Some (last (lp_order_intent_ids p))),
      ep_opened_at = lp_opened_at p, ep_updated_at = now, ep_closed_at = (if is_closed then Some now else None)\<rparr>"

definition persisted_snapshot :: "execution_position \<Rightarrow> instant \<Rightarrow> position_snapshot" where
  "persisted_snapshot p now =
     \<lparr>pos_position_id = ep_venue_position_id p, pos_account_id = ep_account_id p, pos_strategy_id = None,
      pos_instrument_id = ep_instrument_id p, pos_side = ep_side p, pos_quantity = ep_quantity p,
      pos_average_entry_price = ep_average_entry_price p, pos_mark_price = Some (ep_average_entry_price p),
      pos_unrealized_pnl = Some 0, pos_as_of = now\<rparr>"

text \<open>The position keeps its place in the dictionary while it is open, so that a new identifier is visible there.\<close>

definition persist_position :: "ledger_env \<Rightarrow> ledger_position \<Rightarrow> bool \<Rightarrow> position_snapshot ledger_prog" where
  "persist_position env p is_closed =
     seq (ledger_now env) (\<lambda>now.
     seq (if lp_venue_position_id p \<noteq> [] then ret (lp_venue_position_id p) else new_position_id env (lp_instrument_id p)) (\<lambda>vid.
     let p' = p\<lparr>lp_venue_position_id := vid\<rparr>; e = execution_position_of env p' now is_closed in
     seq (if is_closed then ret () else put_position p') (\<lambda>_.
     seq (guard (valid_execution_position e) (ValueError ''ExecutionPosition'')) (\<lambda>_.
     seq (on_exec (upsert_position e)) (\<lambda>_.
     seq (guard (valid_position_snapshot (persisted_snapshot e now)) (ValueError ''PositionSnapshot'')) (\<lambda>_.
     ret (persisted_snapshot e now)))))))"

definition opened_position :: "execution_report \<Rightarrow> order_intent \<Rightarrow> decimal \<Rightarrow> string \<Rightarrow> ledger_position" where
  "opened_position report intent price pid =
     \<lparr>lp_instrument_id = oi_instrument_id intent, lp_side = side_of (oi_side intent), lp_quantity = er_filled_quantity report,
      lp_average_entry_price = price, lp_opened_at = er_report_time report, lp_venue_position_id = pid,
      lp_order_intent_ids = [oi_order_intent_id intent], lp_entry_costs = er_commission report,
      lp_stop_loss = None, lp_take_profit = None\<rparr>"

text \<open>The assignments of the branch that adds to a position; the average price is computed before anything is assigned.\<close>

definition grown :: "execution_report \<Rightarrow> order_intent \<Rightarrow> decimal \<Rightarrow> ledger_position \<Rightarrow> exn + ledger_position" where
  "grown report intent price p =
     (let amount = dadd (lp_quantity p) (er_filled_quantity report);
          cost = dadd (dmul (lp_average_entry_price p) (lp_quantity p)) (dmul price (er_filled_quantity report))
      in rbind (lift_dec (ddiv cost amount)) (\<lambda>average.
         Inr (p\<lparr>lp_average_entry_price := average, lp_quantity := amount,
                lp_entry_costs := dadd (lp_entry_costs p) (er_commission report),
                lp_order_intent_ids := lp_order_intent_ids p @ [oi_order_intent_id intent]\<rparr>)))"

definition closing_pnl :: "ledger_position \<Rightarrow> decimal \<Rightarrow> decimal \<Rightarrow> decimal" where
  "closing_pnl p price closed_qty =
     (let delta = dsub price (lp_average_entry_price p) in
      dmul (dmul (if lp_side p = PS_LONG then delta else dneg delta) closed_qty) units_multiplier)"

definition outcome_gross :: "ledger_position \<Rightarrow> decimal \<Rightarrow> decimal \<Rightarrow> decimal" where
  "outcome_gross p price closed_qty =
     (let entry = lp_average_entry_price p in
      dmul (dmul (if lp_side p = PS_LONG then dsub price entry else dsub entry price) closed_qty) units_multiplier)"

definition build_outcome ::
    "ledger_env \<Rightarrow> ledger_position \<Rightarrow> decimal \<Rightarrow> decimal \<Rightarrow> execution_report \<Rightarrow> trade_outcome ledger_prog" where
  "build_outcome env p closed_qty exit_price report =
     seq (ledger_now env) (\<lambda>now.
     seq (of_result (to_account_currency env (outcome_gross p exit_price closed_qty) (lp_instrument_id p) exit_price)) (\<lambda>realized.
     let t = \<lparr>to_trade_id = er_execution_report_id report,
          to_position_id = Some (if lp_venue_position_id p \<noteq> [] then lp_venue_position_id p else position_id (lp_instrument_id p)),
          to_order_intent_ids = lp_order_intent_ids p, to_instrument_id = lp_instrument_id p,
          to_direction = (if lp_side p = PS_LONG then SD_LONG else SD_SHORT), to_quantity = closed_qty,
          to_entry_price = lp_average_entry_price p, to_exit_price = exit_price, to_realized_pnl = realized,
          to_costs = dadd (lp_entry_costs p) (er_commission report), to_opened_at = lp_opened_at p, to_closed_at = now,
          to_exit_reason = ''position_closed''\<rparr>
     in seq (guard (valid_trade_outcome t) (ValueError ''TradeOutcome'')) (\<lambda>_. ret t)))"

definition application :: "position_snapshot \<Rightarrow> trade_outcome option \<Rightarrow> decimal \<Rightarrow> decimal \<Rightarrow> fill_application" where
  "application p out realized costs = \<lparr>fa_position = Some p, fa_outcome = out, fa_realized_pnl = realized, fa_costs = costs\<rparr>"

definition reduce_position :: "ledger_env \<Rightarrow> execution_report \<Rightarrow> order_intent \<Rightarrow> decimal \<Rightarrow> ledger_position \<Rightarrow> fill_application ledger_prog" where
  "reduce_position env report intent price p =
     (let closed_qty = min (lp_quantity p) (er_filled_quantity report) in
      seq (of_result (to_account_currency env (closing_pnl p price closed_qty) (oi_instrument_id intent) price)) (\<lambda>realized.
      let remaining = dsub (lp_quantity p) (er_filled_quantity report) in
      if remaining \<le> 0 then
        let p' = p\<lparr>lp_order_intent_ids := lp_order_intent_ids p @ [oi_order_intent_id intent]\<rparr> in
        seq (put_position p') (\<lambda>_.
        seq (build_outcome env p' closed_qty price report) (\<lambda>t.
        seq (modify (\<lambda>l. l\<lparr>lg_positions := AList.delete (oi_instrument_id intent) (lg_positions l), lg_outcomes := lg_outcomes l @ [t]\<rparr>)) (\<lambda>_.
        seq (persist_position env p' True) (\<lambda>s. ret (application s (Some t) realized (er_commission report))))))
      else
        let p' = p\<lparr>lp_quantity := remaining, lp_entry_costs := dadd (lp_entry_costs p) (er_commission report)\<rparr> in
        seq (put_position p') (\<lambda>_.
        seq (persist_position env p' False) (\<lambda>s. ret (application s None realized (er_commission report))))))"

definition apply_fill :: "ledger_env \<Rightarrow> execution_report \<Rightarrow> order_intent \<Rightarrow> fill_application ledger_prog" where
  "apply_fill env report intent =
     seq (guard (0 < er_filled_quantity report) (ValueError ''apply_fill requires a positive filled_quantity'')) (\<lambda>_.
     seq (found_or (ValueError ''apply_fill requires average_fill_price'') (er_average_fill_price report)) (\<lambda>price.
     seq (reads (position (oi_instrument_id intent))) (\<lambda>current.
     case current of
       None \<Rightarrow>
         seq (new_position_id env (oi_instrument_id intent)) (\<lambda>pid.
         let p = opened_position report intent price pid in
         seq (put_position p) (\<lambda>_.
         seq (persist_position env p False) (\<lambda>s. ret (application s None 0 (er_commission report)))))
     | Some p \<Rightarrow>
         if lp_side p = side_of (oi_side intent) then
           seq (of_result (grown report intent price p)) (\<lambda>p'.
           seq (put_position p') (\<lambda>_.
           seq (persist_position env p' False) (\<lambda>s. ret (application s None 0 (er_commission report)))))
         else reduce_position env report intent price p)))"

section \<open>Views for the risk engine\<close>

definition mark_of :: "(string, decimal) dict \<Rightarrow> ledger_position \<Rightarrow> decimal" where
  "mark_of marks p = get_or marks (lp_instrument_id p) (lp_average_entry_price p)"

definition ledger_snapshot :: "ledger_env \<Rightarrow> (string, decimal) dict \<Rightarrow> instant \<Rightarrow> ledger_position \<Rightarrow> exn + position_snapshot" where
  "ledger_snapshot env marks now p =
     rbind (unrealized env p (mark_of marks p)) (\<lambda>u.
     let s = \<lparr>pos_position_id = position_id (lp_instrument_id p), pos_account_id = le_account_id env, pos_strategy_id = None,
       pos_instrument_id = lp_instrument_id p, pos_side = lp_side p, pos_quantity = lp_quantity p,
       pos_average_entry_price = lp_average_entry_price p, pos_mark_price = Some (mark_of marks p),
       pos_unrealized_pnl = Some u, pos_as_of = now\<rparr>
     in if valid_position_snapshot s then Inr s else Inl (ValueError ''PositionSnapshot''))"

primrec ledger_snapshots :: "ledger_env \<Rightarrow> (string, decimal) dict \<Rightarrow> instant \<Rightarrow> ledger_position list \<Rightarrow> exn + position_snapshot list" where
  "ledger_snapshots env marks now [] = Inr []"
| "ledger_snapshots env marks now (p # ps) =
     rbind (ledger_snapshot env marks now p) (\<lambda>s. rbind (ledger_snapshots env marks now ps) (\<lambda>ss. Inr (s # ss)))"

definition snapshots :: "ledger_env \<Rightarrow> (string, decimal) dict \<Rightarrow> instant \<Rightarrow> ledger \<Rightarrow> exn + position_snapshot list" where
  "snapshots env marks now l = ledger_snapshots env marks now (open_positions l)"

definition ledger_marks :: "(string, market_snapshot) dict \<Rightarrow> (string, decimal) dict" where
  "ledger_marks ss = map (\<lambda>(iid, s). (iid, ms_mid s)) ss"

definition ledger_account_state :: "paper_account_record \<Rightarrow> instant \<Rightarrow> exn + account_state" where
  "ledger_account_state a now =
     (let s = \<lparr>ac_account_id = pa_account_id a, ac_currency = pa_currency a, ac_balance = pa_balance a, ac_equity = pa_equity a,
        ac_free_margin = pa_equity a, ac_leverage = 50, ac_peak_equity = pa_peak_equity a, ac_daily_pnl = pa_daily_pnl a,
        ac_consecutive_losses = pa_consecutive_losses a, ac_last_loss_at = pa_last_loss_at a, ac_broker_connected = True,
        ac_last_heartbeat_at = Some now, ac_safe_mode = False, ac_as_of = now\<rparr>
      in if valid_account_state s then Inr s else Inl (ValueError ''AccountState''))"

primrec exposure_loop ::
    "ledger_env \<Rightarrow> (string, decimal) dict \<Rightarrow> ledger_position list \<Rightarrow> portfolio_exposure \<Rightarrow> exn + portfolio_exposure" where
  "exposure_loop env marks [] e = Inr e"
| "exposure_loop env marks (p # ps) e =
     (case map_of (le_instruments env) (lp_instrument_id p) of
        None \<Rightarrow> Inl (KeyError (lp_instrument_id p))
      | Some i \<Rightarrow>
          let notional = dmul (lp_quantity p) (mark_of marks p);
              quote = currency_text (ins_quote_currency i);
              signed = dmul (if lp_side p = PS_LONG then 1 else - 1) notional
          in exposure_loop env marks ps (e\<lparr>
            pe_total_notional := dadd (pe_total_notional e) notional,
            pe_by_instrument := AList.update (lp_instrument_id p) notional (pe_by_instrument e),
            pe_net_by_currency := AList.update quote (dadd (get_or (pe_net_by_currency e) quote 0) signed) (pe_net_by_currency e)\<rparr>))"

definition ledger_portfolio_state ::
    "ledger_env \<Rightarrow> paper_account_record \<Rightarrow> (string, decimal) dict \<Rightarrow> int \<Rightarrow> instant \<Rightarrow> ledger \<Rightarrow> exn + portfolio_state" where
  "ledger_portfolio_state env a marks pending_orders now l =
     rbind (snapshots env marks now l) (\<lambda>positions.
     rbind (exposure_loop env marks (open_positions l)
       \<lparr>pe_total_notional = 0, pe_by_instrument = [], pe_by_asset_class = [], pe_net_by_currency = []\<rparr>) (\<lambda>e.
     if \<not> valid_portfolio_exposure e then Inl (ValueError ''PortfolioExposure'')
     else let s = \<lparr>pf_account_id = pa_account_id a, pf_positions = positions, pf_pending_order_count = pending_orders,
            pf_exposure = e, pf_as_of = now\<rparr>
          in if valid_portfolio_state s then Inr s else Inl (ValueError ''PortfolioState'')))"

end
