(* ===== verification/Ledger_Properties.thy ===== *)
theory Ledger_Properties
  imports Paper_Ledger Risk_Engine
begin

text \<open>
  What the paper ledger guarantees: its state is well formed whatever happens, fills are netted per instrument, and a restart from the
  persisted rows rebuilds the positions.
\<close>

section \<open>Well-formed ledgers\<close>

definition position_ok :: "string \<Rightarrow> ledger_position \<Rightarrow> bool" where
  "position_ok iid p \<longleftrightarrow> lp_instrument_id p = iid \<and> 0 < lp_quantity p \<and> 0 < lp_average_entry_price p \<and> lp_side p \<noteq> PS_FLAT \<and>
     lp_venue_position_id p \<noteq> []"

definition ledger_ok :: "ledger \<Rightarrow> bool" where
  "ledger_ok l \<longleftrightarrow> (\<forall>iid p. position iid l = Some p \<longrightarrow> position_ok iid p)"

lemma ledger_okD: "ledger_ok l \<Longrightarrow> position iid l = Some p \<Longrightarrow> position_ok iid p"
  by (simp add: ledger_ok_def)

lemma position_frame [simp]: "position iid (l\<lparr>lg_ticks := n\<rparr>) = position iid l" "position iid (l\<lparr>lg_ids := n\<rparr>) = position iid l"
  "position iid (l\<lparr>lg_exec := s\<rparr>) = position iid l" "position iid (l\<lparr>lg_outcomes := ts\<rparr>) = position iid l" "position iid (l\<lparr>lg_paths := ps\<rparr>) = position iid l"
  by (simp_all add: position_def)

lemma position_put [simp]: "position iid (l\<lparr>lg_positions := AList.update k p d\<rparr>) = (if iid = k then Some p else map_of d iid)"
  by (simp add: position_def)

lemma position_delete [simp]: "position iid (l\<lparr>lg_positions := AList.delete k (lg_positions l)\<rparr>) = (if iid = k then None else position iid l)"
  by (simp add: position_def delete_conv')

lemma put_position_run [simp]: "put_position p l = (Inr (), l\<lparr>lg_positions := AList.update (lp_instrument_id p) p (lg_positions l)\<rparr>)"
  by (simp add: put_position_def)

text \<open>A row that satisfies its contract has a snapshot that does, so a persisted position is always reported.\<close>

lemma row_snapshot_valid: "valid_execution_position e \<Longrightarrow> valid_position_snapshot (persisted_snapshot e now)"
  by (simp add: valid_execution_position_def valid_position_snapshot_def persisted_snapshot_def opt_pos_def)

definition row_of :: "ledger_env \<Rightarrow> ledger_position \<Rightarrow> bool \<Rightarrow> ledger \<Rightarrow> execution_position" where
  "row_of env p is_closed l = execution_position_of env p (le_clock env (lg_ticks l)) is_closed"

lemma persist_run:
  assumes "lp_venue_position_id p \<noteq> []"
  shows "persist_position env p c l =
    (let l1 = l\<lparr>lg_ticks := lg_ticks l + 1, lg_positions := (if c then lg_positions l else AList.update (lp_instrument_id p) p (lg_positions l))\<rparr>
     in if valid_execution_position (row_of env p c l)
        then (Inr (persisted_snapshot (row_of env p c l) (le_clock env (lg_ticks l))),
              l1\<lparr>lg_exec := (lg_exec l)\<lparr>es_positions := AList.update (lp_venue_position_id p) (row_of env p c l) (es_positions (lg_exec l))\<rparr>\<rparr>)
        else (Inl (ValueError ''ExecutionPosition''), l1))"
proof -
  let ?e = "row_of env p c l" let ?now = "le_clock env (lg_ticks l)"
  have same: "p\<lparr>lp_venue_position_id := lp_venue_position_id p\<rparr> = p" by simp
  have e: "execution_position_of env p ?now c = ?e" "ep_venue_position_id ?e = lp_venue_position_id p"
    by (simp_all add: row_of_def execution_position_of_def)
  have "valid_execution_position ?e \<Longrightarrow> valid_position_snapshot (persisted_snapshot ?e ?now)" by (rule row_snapshot_valid)
  then show ?thesis
    using assms e by (cases c) (simp_all add: persist_position_def ledger_now_def Let_def on_exec_def zoom_def upsert_position_def seq_run guard_def same)
qed

lemma ledger_ok_put: "ledger_ok l \<Longrightarrow> position_ok (lp_instrument_id p) p \<Longrightarrow> ledger_ok (l\<lparr>lg_positions := AList.update (lp_instrument_id p) p (lg_positions l)\<rparr>)"
  by (simp add: ledger_ok_def position_def)

lemma ledger_ok_frame [simp]: "ledger_ok (l\<lparr>lg_ticks := n\<rparr>) = ledger_ok l" "ledger_ok (l\<lparr>lg_ids := n\<rparr>) = ledger_ok l"
  "ledger_ok (l\<lparr>lg_exec := s\<rparr>) = ledger_ok l" "ledger_ok (l\<lparr>lg_outcomes := ts\<rparr>) = ledger_ok l" "ledger_ok (l\<lparr>lg_paths := ps\<rparr>) = ledger_ok l"
  by (simp_all add: ledger_ok_def)

lemma ledger_ok_delete: "ledger_ok l \<Longrightarrow> ledger_ok (l\<lparr>lg_positions := AList.delete k (lg_positions l)\<rparr>)"
  by (simp add: ledger_ok_def)

lemma ledger_ok_persist:
  assumes "ledger_ok l" and "position_ok (lp_instrument_id p) p"
  shows "ledger_ok (snd (persist_position env p c l))"
proof -
  have vid: "lp_venue_position_id p \<noteq> []" using assms(2) by (simp add: position_ok_def)
  have "ledger_ok (l\<lparr>lg_positions := AList.update (lp_instrument_id p) p (lg_positions l)\<rparr>)" by (rule ledger_ok_put [OF assms])
  then show ?thesis using assms(1) by (simp add: persist_run [OF vid] Let_def ledger_ok_def position_def)
qed

lemma grown_ok:
  assumes "grown r i price p = Inr p'" and "position_ok iid p" and "0 < price" and "0 < er_filled_quantity r"
  shows "position_ok iid p'" and "lp_quantity p' = dadd (lp_quantity p) (er_filled_quantity r)" and "lp_side p' = lp_side p"
    "lp_venue_position_id p' = lp_venue_position_id p"
proof -
  let ?q = "dadd (lp_quantity p) (er_filled_quantity r)"
  let ?c = "dadd (dmul (lp_average_entry_price p) (lp_quantity p)) (dmul price (er_filled_quantity r))"
  have pos: "0 < ?q" "0 < ?c" using assms(2,3,4) by (simp_all add: position_ok_def dadd_pos dmul_pos)
  then have "ddiv ?c ?q = Inr (ddiv_nz ?c ?q)" by (simp add: ddiv_def ddiv_nz_def)
  then have p': "p' = p\<lparr>lp_average_entry_price := ddiv_nz ?c ?q, lp_quantity := ?q, lp_entry_costs := dadd (lp_entry_costs p) (er_commission r),
      lp_order_intent_ids := lp_order_intent_ids p @ [oi_order_intent_id i]\<rparr>"
    using assms(1) by (simp add: grown_def Let_def lift_dec_def)
  have "0 < ddiv_nz ?c ?q" using pos by (simp add: ddiv_nz_def)
  then show "position_ok iid p'" using assms(2) pos by (simp add: p' position_ok_def)
  show "lp_quantity p' = ?q" "lp_side p' = lp_side p" "lp_venue_position_id p' = lp_venue_position_id p" by (simp_all add: p')
qed

lemma opened_ok:
  assumes "0 < price" and "0 < er_filled_quantity r" and "pid \<noteq> []"
  shows "position_ok (oi_instrument_id i) (opened_position r i price pid)"
  using assms by (simp add: position_ok_def opened_position_def side_of_def)

lemma ledger_ok_reduce:
  assumes ok: "ledger_ok l" and p: "position_ok (oi_instrument_id i) p"
  shows "ledger_ok (snd (reduce_position env r i price p l))"
proof -
  let ?qty = "min (lp_quantity p) (er_filled_quantity r)"
  show ?thesis
  proof (cases "to_account_currency env (closing_pnl p price ?qty) (oi_instrument_id i) price")
    case (Inl x)
    then show ?thesis using ok by (simp add: reduce_position_def of_result_def)
  next
    case (Inr realized)
    let ?rest = "dsub (lp_quantity p) (er_filled_quantity r)"
    show ?thesis
    proof (cases "?rest \<le> 0")
      case False
      let ?p = "p\<lparr>lp_quantity := ?rest, lp_entry_costs := dadd (lp_entry_costs p) (er_commission r)\<rparr>"
      have p': "position_ok (lp_instrument_id ?p) ?p" using p False by (simp add: position_ok_def not_le)
      show ?thesis using Inr False ledger_ok_persist [OF ledger_ok_put [OF ok p'] p', of env False]
        by (simp add: reduce_position_def of_result_def Let_def)
    next
      case True
      let ?p = "p\<lparr>lp_order_intent_ids := lp_order_intent_ids p @ [oi_order_intent_id i]\<rparr>"
      have p': "position_ok (lp_instrument_id ?p) ?p" using p by (simp add: position_ok_def)
      let ?l = "l\<lparr>lg_positions := AList.update (lp_instrument_id ?p) ?p (lg_positions l)\<rparr>"
      have l: "ledger_ok ?l" by (rule ledger_ok_put [OF ok p'])
      obtain q l2 where q: "build_outcome env ?p ?qty price r ?l = (q, l2)" by (cases "build_outcome env ?p ?qty price r ?l")
      have l2: "l2 = ?l\<lparr>lg_ticks := lg_ticks l + 1\<rparr>"
        using q by (auto simp: build_outcome_def ledger_now_def of_result_def Let_def seq_run guard_def split: sum.splits if_splits)
      show ?thesis
      proof (cases q)
        case (Inl x)
        then show ?thesis using Inr True q l2 l by (simp add: reduce_position_def of_result_def Let_def)
      next
        case out: (Inr t)
        have l3: "ledger_ok (l2\<lparr>lg_positions := AList.delete (oi_instrument_id i) (lg_positions l2), lg_outcomes := lg_outcomes l2 @ [t]\<rparr>)"
        proof -
          have "ledger_ok l2" unfolding l2 using l by (simp only: ledger_ok_frame)
          from ledger_ok_delete [OF this] show ?thesis by (simp only: ledger_ok_frame)
        qed
        show ?thesis using Inr True q out ledger_ok_persist [OF l3 p', of env True]
          by (simp add: reduce_position_def of_result_def Let_def)
      qed
    qed
  qed
qed

lemma ledger_ok_fill:
  assumes "valid_execution_report r"
  shows "keeps ledger_ok (apply_fill env r i)"
proof (rule keepsI)
  fix l assume ok: "ledger_ok l"
  show "ledger_ok (snd (apply_fill env r i l))"
  proof (cases "0 < er_filled_quantity r \<and> er_average_fill_price r \<noteq> None")
    case False
    then show ?thesis using ok by (auto simp: apply_fill_def found_or_def guard_def)
  next
    case True
    then obtain price where price: "er_average_fill_price r = Some price" "0 < price"
      using assms by (auto simp: valid_execution_report_def opt_pos_def split: option.splits)
    let ?iid = "oi_instrument_id i"
    show ?thesis
    proof (cases "position ?iid l")
      case None
      let ?pid = "''paper:'' @ ?iid @ '':'' @ le_suffix env (lg_ids l)"
      have p: "position_ok (lp_instrument_id (opened_position r i price ?pid)) (opened_position r i price ?pid)"
        using opened_ok [of price r ?pid i] price True by (simp add: opened_position_def)
      have "ledger_ok (l\<lparr>lg_ids := lg_ids l + 1\<rparr>)" using ok by simp
      from ledger_ok_persist [OF ledger_ok_put [OF this p] p, of env False] show ?thesis using None True price(1)
        by (simp add: apply_fill_def found_or_def new_position_id_def Let_def guard_def)
    next
      case (Some p)
      have p: "position_ok ?iid p" by (rule ledger_okD [OF ok Some])
      show ?thesis
      proof (cases "lp_side p = side_of (oi_side i)")
        case False
        then show ?thesis using ledger_ok_reduce [OF ok p, of env r price] Some True price(1)
          by (simp add: apply_fill_def found_or_def guard_def)
      next
        case same: True
        show ?thesis
        proof (cases "grown r i price p")
          case (Inl x)
          then show ?thesis using Some True price(1) same ok by (simp add: apply_fill_def found_or_def guard_def of_result_def)
        next
          case (Inr p')
          have p': "position_ok ?iid p'" using grown_ok(1) [OF Inr p price(2)] True by simp
          then have k: "lp_instrument_id p' = ?iid" by (simp add: position_ok_def)
          have ok': "position_ok (lp_instrument_id p') p'" using p' k by simp
          from ledger_ok_persist [OF ledger_ok_put [OF ok ok'] ok', of env False] show ?thesis using Some True price(1) same Inr
            by (simp add: apply_fill_def found_or_def guard_def of_result_def)
        qed
      qed
    qed
  qed
qed

section \<open>The effect of a fill\<close>

definition stored :: "ledger \<Rightarrow> (string, execution_position) dict" where
  "stored l = es_positions (lg_exec l)"

lemma stored_frame [simp]: "stored (l\<lparr>lg_ticks := n\<rparr>) = stored l" "stored (l\<lparr>lg_ids := n\<rparr>) = stored l"
  "stored (l\<lparr>lg_positions := d\<rparr>) = stored l" "stored (l\<lparr>lg_outcomes := ts\<rparr>) = stored l"
  by (simp_all add: stored_def)

lemma persist_returns:
  assumes "persist_position env p c l = (Inr s, l')" and "lp_venue_position_id p \<noteq> []"
  shows "position k l' = (if c then position k l else if k = lp_instrument_id p then Some p else position k l)"
    and "stored l' = AList.update (lp_venue_position_id p) (row_of env p c l) (stored l)"
  using assms(1) by (auto simp: persist_run [OF assms(2)] Let_def stored_def position_def split: if_splits)

lemma reduce_effect:
  assumes p: "position_ok (oi_instrument_id i) p" and run: "reduce_position env r i price p l = (Inr a, l')"
  obtains
    (part) p' l1 where "fa_outcome a = None" "lp_venue_position_id p' = lp_venue_position_id p" "lp_side p' = lp_side p"
      "lp_instrument_id p' = oi_instrument_id i" "lp_quantity p' = dsub (lp_quantity p) (er_filled_quantity r)" "er_filled_quantity r < lp_quantity p"
      "\<And>k. position k l' = (if k = oi_instrument_id i then Some p' else position k l)"
      "stored l' = AList.update (lp_venue_position_id p) (row_of env p' False l1) (stored l)"
  | (full) p' t l1 where "fa_outcome a = Some t" "lp_quantity p \<le> er_filled_quantity r" "lp_venue_position_id p' = lp_venue_position_id p"
      "\<And>k. position k l' = (if k = oi_instrument_id i then None else position k l)"
      "stored l' = AList.update (lp_venue_position_id p) (row_of env p' True l1) (stored l)"
proof -
  let ?iid = "oi_instrument_id i" let ?qty = "min (lp_quantity p) (er_filled_quantity r)"
  have vid: "lp_venue_position_id p \<noteq> []" and id: "lp_instrument_id p = ?iid" using p by (simp_all add: position_ok_def)
  obtain realized where cur: "to_account_currency env (closing_pnl p price ?qty) ?iid price = Inr realized"
    using run by (cases "to_account_currency env (closing_pnl p price ?qty) ?iid price") (auto simp: reduce_position_def of_result_def Let_def)
  show thesis
  proof (cases "dsub (lp_quantity p) (er_filled_quantity r) \<le> 0")
    case False
    let ?p = "p\<lparr>lp_quantity := dsub (lp_quantity p) (er_filled_quantity r), lp_entry_costs := dadd (lp_entry_costs p) (er_commission r)\<rparr>"
    obtain s where s: "persist_position env ?p False (l\<lparr>lg_positions := AList.update ?iid ?p (lg_positions l)\<rparr>) = (Inr s, l')"
        "a = application s None realized (er_commission r)"
      using run cur False id by (auto simp: reduce_position_def of_result_def Let_def elim!: seq_InrE)
    have vid': "lp_venue_position_id ?p \<noteq> []" using vid by simp
    show thesis
      by (rule part [of ?p]) (use persist_returns [OF s(1) vid'] id s(2) False in \<open>auto simp: application_def position_def not_le\<close>)
  next
    case True
    let ?p = "p\<lparr>lp_order_intent_ids := lp_order_intent_ids p @ [oi_order_intent_id i]\<rparr>"
    let ?l = "l\<lparr>lg_positions := AList.update ?iid ?p (lg_positions l)\<rparr>"
    obtain t l2 s where t: "build_outcome env ?p ?qty price r ?l = (Inr t, l2)"
        "persist_position env ?p True (l2\<lparr>lg_positions := AList.delete ?iid (lg_positions l2), lg_outcomes := lg_outcomes l2 @ [t]\<rparr>) = (Inr s, l')"
        "a = application s (Some t) realized (er_commission r)"
      using run cur True id by (auto simp: reduce_position_def of_result_def Let_def elim!: seq_InrE)
    have l2: "l2 = ?l\<lparr>lg_ticks := lg_ticks l + 1\<rparr>"
      using t(1) by (auto simp: build_outcome_def ledger_now_def of_result_def Let_def seq_run guard_def split: sum.splits if_splits)
    have vid': "lp_venue_position_id ?p \<noteq> []" using vid by simp
    have q: "lp_quantity p \<le> er_filled_quantity r" using True dsub_pos_iff not_le by blast
    show thesis
      by (rule full [of t ?p]) (use persist_returns [OF t(2) vid'] t(3) q l2 in \<open>auto simp: application_def position_def delete_conv'\<close>)
  qed
qed

text \<open>The ways in which a fill is applied.\<close>

lemma fill_effect:
  assumes ok: "ledger_ok l" and valid: "valid_execution_report r" and run: "apply_fill env r i l = (Inr a, l')"
  obtains
    (opened) price p l1 where "er_average_fill_price r = Some price" "position (oi_instrument_id i) l = None" "fa_outcome a = None"
      "p = opened_position r i price (''paper:'' @ oi_instrument_id i @ '':'' @ le_suffix env (lg_ids l))"
      "\<And>k. position k l' = (if k = oi_instrument_id i then Some p else position k l)"
      "stored l' = AList.update (lp_venue_position_id p) (row_of env p False l1) (stored l)"
  | (changed) p p' l1 where "position (oi_instrument_id i) l = Some p" "fa_outcome a = None"
      "lp_venue_position_id p' = lp_venue_position_id p" "lp_side p' = lp_side p" "lp_instrument_id p' = oi_instrument_id i"
      "lp_quantity p' = (if lp_side p = side_of (oi_side i) then dadd (lp_quantity p) (er_filled_quantity r)
         else dsub (lp_quantity p) (er_filled_quantity r))"
      "lp_side p \<noteq> side_of (oi_side i) \<longrightarrow> er_filled_quantity r < lp_quantity p"
      "\<And>k. position k l' = (if k = oi_instrument_id i then Some p' else position k l)"
      "stored l' = AList.update (lp_venue_position_id p) (row_of env p' False l1) (stored l)"
  | (ended) p p' t l1 where "position (oi_instrument_id i) l = Some p" "fa_outcome a = Some t" "lp_side p \<noteq> side_of (oi_side i)"
      "lp_quantity p \<le> er_filled_quantity r" "lp_venue_position_id p' = lp_venue_position_id p"
      "\<And>k. position k l' = (if k = oi_instrument_id i then None else position k l)"
      "stored l' = AList.update (lp_venue_position_id p) (row_of env p' True l1) (stored l)"
proof -
  let ?iid = "oi_instrument_id i"
  have g: "0 < er_filled_quantity r" using run by (auto simp: apply_fill_def guard_def split: if_splits)
  obtain price where price: "er_average_fill_price r = Some price"
    using run g by (cases "er_average_fill_price r") (auto simp: apply_fill_def found_or_def guard_def)
  have pos: "0 < price" using valid price by (simp add: valid_execution_report_def opt_pos_def)
  show thesis
  proof (cases "position ?iid l")
    case None
    let ?p = "opened_position r i price (''paper:'' @ ?iid @ '':'' @ le_suffix env (lg_ids l))"
    let ?l = "l\<lparr>lg_ids := lg_ids l + 1, lg_positions := AList.update ?iid ?p (lg_positions l)\<rparr>"
    have vid: "lp_venue_position_id ?p \<noteq> []" and id: "lp_instrument_id ?p = ?iid" by (simp_all add: opened_position_def)
    obtain s where s: "persist_position env ?p False ?l = (Inr s, l')" "a = application s None 0 (er_commission r)"
      using run g price None id by (auto simp: apply_fill_def guard_def found_or_def new_position_id_def Let_def elim!: seq_InrE)
    show thesis
      by (rule opened [OF price None, of ?p ?l]) (use persist_returns [OF s(1) vid] id s(2) in \<open>auto simp: application_def position_def\<close>)
  next
    case (Some p)
    have p: "position_ok ?iid p" by (rule ledger_okD [OF ok Some])
    then have vid: "lp_venue_position_id p \<noteq> []" and id: "lp_instrument_id p = ?iid" by (simp_all add: position_ok_def)
    show thesis
    proof (cases "lp_side p = side_of (oi_side i)")
      case True
      obtain p' s where p': "grown r i price p = Inr p'"
          "persist_position env p' False (l\<lparr>lg_positions := AList.update (lp_instrument_id p') p' (lg_positions l)\<rparr>) = (Inr s, l')"
          "a = application s None 0 (er_commission r)"
        using run g price Some True by (auto simp: apply_fill_def guard_def found_or_def of_result_def elim!: seq_InrE split: sum.splits)
      note gr = grown_ok [OF p'(1) p pos g]
      have id': "lp_instrument_id p' = ?iid" and vid': "lp_venue_position_id p' \<noteq> []" using gr(1) by (simp_all add: position_ok_def)
      show thesis
        by (rule changed [OF Some _ gr(4) gr(3) id']) (use persist_returns [OF p'(2) vid'] gr id' p'(3) True in \<open>auto simp: application_def position_def\<close>)
    next
      case False
      then have "reduce_position env r i price p l = (Inr a, l')" using run g price Some by (simp add: apply_fill_def guard_def found_or_def)
      from p this show thesis
      proof (cases rule: reduce_effect)
        case (part p' l1)
        then show thesis using False by (intro changed [OF Some, of p' l1]) auto
      next
        case (full p' t l1)
        then show thesis using False by (intro ended [OF Some, of t p' l1]) auto
      qed
    qed
  qed
qed

section \<open>Netting\<close>

definition signed_quantity :: "position_side \<Rightarrow> decimal \<Rightarrow> decimal" where
  "signed_quantity side q = (if side = PS_LONG then q else - q)"

definition net :: "string \<Rightarrow> ledger \<Rightarrow> decimal" where
  "net iid l = (case position iid l of None \<Rightarrow> 0 | Some p \<Rightarrow> signed_quantity (lp_side p) (lp_quantity p))"

definition fill_amount :: "execution_report \<Rightarrow> order_intent \<Rightarrow> decimal" where
  "fill_amount r i = signed_quantity (side_of (oi_side i)) (er_filled_quantity r)"

text \<open>The specification: one signed quantity per instrument. A fill against the position that exceeds it ends flat; the excess does not open the other side.\<close>

definition net_step :: "decimal \<Rightarrow> decimal \<Rightarrow> decimal" where
  "net_step n x = (if n = 0 then x else if (0 < n) \<noteq> (0 < x) \<and> \<bar>n\<bar> \<le> \<bar>x\<bar> then 0 else dadd n x)"

lemma dadd_minus: "dsub (- a) b = - dadd a b" "dadd a (- b) = dsub a b" "dadd (- a) b = - dsub a b"
  using ctx_round_minus [of "a + b"] ctx_round_minus [of "a - b"] by (simp_all add: dadd_def dsub_def)

lemma fill_nets:
  assumes ok: "ledger_ok l" and valid: "valid_execution_report r" and run: "apply_fill env r i l = (Inr a, l')"
  shows "net (oi_instrument_id i) l' = net_step (net (oi_instrument_id i) l) (fill_amount r i)"
    and "k \<noteq> oi_instrument_id i \<Longrightarrow> net k l' = net k l"
    and "fa_outcome a \<noteq> None \<longleftrightarrow> net (oi_instrument_id i) l \<noteq> 0 \<and> net (oi_instrument_id i) l' = 0"
proof -
  have g: "0 < er_filled_quantity r" using run by (auto simp: apply_fill_def guard_def split: if_splits)
  have side: "side_of s = PS_LONG \<or> side_of s = PS_SHORT" for s by (simp add: side_of_def)
  have "net (oi_instrument_id i) l' = net_step (net (oi_instrument_id i) l) (fill_amount r i) \<and>
      (k \<noteq> oi_instrument_id i \<longrightarrow> net k l' = net k l) \<and> (fa_outcome a \<noteq> None \<longleftrightarrow> net (oi_instrument_id i) l \<noteq> 0 \<and> net (oi_instrument_id i) l' = 0)"
    using ok valid run
  proof (cases rule: fill_effect)
    case (opened price p l1)
    then show ?thesis using g side [of "oi_side i"]
      by (auto simp: net_def net_step_def fill_amount_def signed_quantity_def opened_position_def)
  next
    case (changed p p' l1)
    have p: "0 < lp_quantity p" "lp_side p = PS_LONG \<or> lp_side p = PS_SHORT"
      using ledger_okD [OF ok changed(1)] by (cases "lp_side p"; simp add: position_ok_def)+
    then have "0 < lp_quantity p'" using changed g by (auto simp: dadd_pos split: if_splits)
    then show ?thesis using p changed g side [of "oi_side i"]
      by (auto simp: net_def net_step_def fill_amount_def signed_quantity_def dadd_minus)
  next
    case (ended p p' t l1)
    have p: "0 < lp_quantity p" "lp_side p = PS_LONG \<or> lp_side p = PS_SHORT"
      using ledger_okD [OF ok ended(1)] by (cases "lp_side p"; simp add: position_ok_def)+
    then show ?thesis using ended g side [of "oi_side i"]
      by (auto simp: net_def net_step_def fill_amount_def signed_quantity_def)
  qed
  then show "net (oi_instrument_id i) l' = net_step (net (oi_instrument_id i) l) (fill_amount r i)"
    "k \<noteq> oi_instrument_id i \<Longrightarrow> net k l' = net k l"
    "fa_outcome a \<noteq> None \<longleftrightarrow> net (oi_instrument_id i) l \<noteq> 0 \<and> net (oi_instrument_id i) l' = 0" by blast+
qed

definition apply_fills :: "ledger_env \<Rightarrow> (execution_report \<times> order_intent) list \<Rightarrow> unit ledger_prog" where
  "apply_fills env fills = for_each fills (\<lambda>x. seq (apply_fill env (fst x) (snd x)) (\<lambda>_. ret ()))"

lemma apply_fills_Cons:
  assumes "apply_fills env (x # xs) l = (Inr (), l')"
  obtains a l1 where "apply_fill env (fst x) (snd x) l = (Inr a, l1)" "apply_fills env xs l1 = (Inr (), l')"
  using assms by (auto simp: apply_fills_def elim!: seq_InrE)

definition signed_fills :: "string \<Rightarrow> (execution_report \<times> order_intent) list \<Rightarrow> decimal list" where
  "signed_fills iid fills = map (\<lambda>x. fill_amount (fst x) (snd x)) (filter (\<lambda>x. oi_instrument_id (snd x) = iid) fills)"

section \<open>Restart\<close>

definition row_matches :: "ledger_position \<Rightarrow> execution_position \<Rightarrow> bool" where
  "row_matches p r \<longleftrightarrow> ep_venue_position_id r = lp_venue_position_id p \<and> ep_instrument_id r = lp_instrument_id p \<and> ep_side r = lp_side p \<and>
     ep_quantity r = lp_quantity p \<and> ep_average_entry_price r = lp_average_entry_price p \<and> ep_opened_at r = lp_opened_at p \<and> ep_closed_at r = None"

definition venue_id :: "string \<Rightarrow> string \<Rightarrow> bool" where
  "venue_id iid vid \<longleftrightarrow> (\<exists>suffix. length suffix = 12 \<and> vid = ''paper:'' @ iid @ '':'' @ suffix)"

lemma venue_id_unique: "venue_id a vid \<Longrightarrow> venue_id b vid \<Longrightarrow> a = b"
  by (auto simp: venue_id_def)

text \<open>Every open position has its row, and every open row is the row of a position.\<close>

definition persisted :: "ledger \<Rightarrow> bool" where
  "persisted l \<longleftrightarrow> distinct (map fst (stored l)) \<and>
     (\<forall>iid p. position iid l = Some p \<longrightarrow> venue_id iid (lp_venue_position_id p) \<and>
        (\<exists>r. map_of (stored l) (lp_venue_position_id p) = Some r \<and> row_matches p r)) \<and>
     (\<forall>vid r. map_of (stored l) vid = Some r \<and> ep_closed_at r = None \<longrightarrow>
        (\<exists>p. position (ep_instrument_id r) l = Some p \<and> lp_venue_position_id p = vid))"

lemma row_of_matches: "row_matches p (row_of env p False l)" and row_of_closed: "ep_closed_at (row_of env p True l) \<noteq> None"
  by (simp_all add: row_matches_def row_of_def execution_position_of_def)

lemma persisted_put:
  assumes per: "persisted l" and vid: "venue_id iid (lp_venue_position_id p)" "lp_instrument_id p = iid"
    and old: "\<And>p0. position iid l = Some p0 \<Longrightarrow> lp_venue_position_id p0 = lp_venue_position_id p"
    and new: "\<And>k. position k l' = (if k = iid then Some p else position k l)"
      "stored l' = AList.update (lp_venue_position_id p) (row_of env p False l1) (stored l)"
  shows "persisted l'"
proof -
  have other: "lp_venue_position_id q \<noteq> lp_venue_position_id p" if "position k l = Some q" "k \<noteq> iid" for k q
    using per that vid venue_id_unique unfolding persisted_def by metis
  have "\<exists>q. position (ep_instrument_id r) l' = Some q \<and> lp_venue_position_id q = v" if r: "map_of (stored l') v = Some r" "ep_closed_at r = None" for v r
  proof (cases "v = lp_venue_position_id p")
    case True
    then have "r = row_of env p False l1" using r(1) new(2) by simp
    then show ?thesis using new(1) vid(2) True by (simp add: row_of_def execution_position_of_def)
  next
    case False
    then have "map_of (stored l) v = Some r" using r(1) new(2) by simp
    then obtain q where q: "position (ep_instrument_id r) l = Some q" "lp_venue_position_id q = v"
      using r(2) per unfolding persisted_def by blast
    then show ?thesis using old False new(1) by (cases "ep_instrument_id r = iid") auto
  qed
  moreover have "distinct (map fst (stored l'))" using per new(2) by (simp add: persisted_def distinct_update)
  moreover have "venue_id k (lp_venue_position_id q) \<and> (\<exists>r. map_of (stored l') (lp_venue_position_id q) = Some r \<and> row_matches q r)"
    if q: "position k l' = Some q" for k q
  proof (cases "k = iid")
    case True
    then show ?thesis using q new vid row_of_matches by auto
  next
    case False
    then have "position k l = Some q" using q new(1) by simp
    then show ?thesis using per other [OF _ False] new(2) unfolding persisted_def by auto
  qed
  ultimately show ?thesis unfolding persisted_def by blast
qed

lemma persisted_close:
  assumes per: "persisted l" and old: "position iid l = Some p"
    and new: "\<And>k. position k l' = (if k = iid then None else position k l)"
      "stored l' = AList.update (lp_venue_position_id p) (row_of env p' True l1) (stored l)"
  shows "persisted l'"
proof -
  have vid: "venue_id iid (lp_venue_position_id p)" using per old by (auto simp: persisted_def)
  have other: "lp_venue_position_id q \<noteq> lp_venue_position_id p" if "position k l = Some q" "k \<noteq> iid" for k q
    using per that vid venue_id_unique unfolding persisted_def by metis
  have "\<exists>q. position (ep_instrument_id r) l' = Some q \<and> lp_venue_position_id q = v" if r: "map_of (stored l') v = Some r" "ep_closed_at r = None" for v r
  proof -
    have v: "v \<noteq> lp_venue_position_id p" using r new(2) row_of_closed [of env p' l1] by auto
    then have "map_of (stored l) v = Some r" using r(1) new(2) by simp
    then obtain q where "position (ep_instrument_id r) l = Some q" "lp_venue_position_id q = v"
      using r(2) per unfolding persisted_def by blast
    then show ?thesis using v new(1) old by auto
  qed
  moreover have "distinct (map fst (stored l'))" using per new(2) by (simp add: persisted_def distinct_update)
  moreover have "venue_id k (lp_venue_position_id q) \<and> (\<exists>r. map_of (stored l') (lp_venue_position_id q) = Some r \<and> row_matches q r)"
    if q: "position k l' = Some q" for k q
  proof -
    have k: "k \<noteq> iid" "position k l = Some q" using q new(1) by (auto split: if_splits)
    then show ?thesis using per other [OF k(2,1)] new(2) unfolding persisted_def by auto
  qed
  ultimately show ?thesis unfolding persisted_def by blast
qed

lemma fill_persists:
  assumes ok: "ledger_ok l" and valid: "valid_execution_report r" and run: "apply_fill env r i l = (Inr a, l')"
    and per: "persisted l" and suffix: "\<And>n. length (le_suffix env n) = 12"
  shows "persisted l'"
  using ok valid run
proof (cases rule: fill_effect)
  case (opened price p l1)
  have "venue_id (oi_instrument_id i) (lp_venue_position_id p)" "lp_instrument_id p = oi_instrument_id i"
    using suffix by (auto simp: opened(4) opened_position_def venue_id_def)
  then show ?thesis using persisted_put [OF per _ _ _ opened(5,6)] opened(2) by simp
next
  case (changed p p' l1)
  have v: "venue_id (oi_instrument_id i) (lp_venue_position_id p')" using per changed(1,3) by (auto simp: persisted_def)
  have st: "stored l' = AList.update (lp_venue_position_id p') (row_of env p' False l1) (stored l)" using changed(3,9) by simp
  have "lp_venue_position_id p0 = lp_venue_position_id p'" if "position (oi_instrument_id i) l = Some p0" for p0 using that changed(1,3) by simp
  from persisted_put [OF per v changed(5) this changed(8) st] show ?thesis by simp
next
  case (ended p p' t l1)
  show ?thesis by (rule persisted_close [OF per ended(1,6,7)])
qed

lemma load_positions_lookup:
  "map_of (load_positions ps d) iid =
     (let rs = filter (\<lambda>r. ep_closed_at r = None \<and> ep_instrument_id r = iid) ps
      in if rs = [] then map_of d iid else Some (loaded_position (last rs)))"
  by (induction ps arbitrary: d) (auto simp: Let_def)

definition position_core :: "ledger_position \<Rightarrow> string \<times> position_side \<times> decimal \<times> decimal \<times> instant \<times> string" where
  "position_core p = (lp_instrument_id p, lp_side p, lp_quantity p, lp_average_entry_price p, lp_opened_at p, lp_venue_position_id p)"

lemma restart_rebuilds:
  assumes per: "persisted l" and ok: "ledger_ok l"
  shows "map_option position_core (position iid (snd (load (list_positions True (lg_exec l)) l))) = map_option position_core (position iid l)"
proof -
  let ?ps = "list_positions True (lg_exec l)"
  let ?mine = "filter (\<lambda>r. ep_closed_at r = None \<and> ep_instrument_id r = iid) ?ps"
  have stored: "r \<in> set ?ps \<longleftrightarrow> ep_closed_at r = None \<and> (\<exists>v. map_of (stored l) v = Some r)" for r
  proof -
    have "distinct (map fst (es_positions (lg_exec l)))" using per by (simp add: persisted_def stored_def)
    then show ?thesis by (force simp: list_positions_def Let_def stored_def)
  qed
  have loaded: "position iid (snd (load ?ps l)) = (if ?mine = [] then None else Some (loaded_position (last ?mine)))"
    using load_positions_lookup [of ?ps "[]" iid] by (simp add: load_def position_def Let_def del: filter_empty_conv)
  show ?thesis
  proof (cases "position iid l")
    case None
    have "?mine = []" using None per stored unfolding persisted_def filter_empty_conv by (metis option.distinct(1))
    then show ?thesis using None loaded by simp
  next
    case (Some p)
    then obtain r where r: "map_of (stored l) (lp_venue_position_id p) = Some r" "row_matches p r" using per unfolding persisted_def by blast
    have only: "r' = r" if "r' \<in> set ?mine" for r'
    proof -
      obtain v where v: "map_of (stored l) v = Some r'" "ep_closed_at r' = None" "ep_instrument_id r' = iid" using \<open>r' \<in> set ?mine\<close> stored by auto
      then have "v = lp_venue_position_id p" using per Some unfolding persisted_def by (metis option.inject)
      then show ?thesis using r(1) v(1) by simp
    qed
    have "ep_instrument_id r = iid" using r(2) ledger_okD [OF ok Some] by (simp add: row_matches_def position_ok_def)
    then have "r \<in> set ?mine" using r stored by (auto simp: row_matches_def)
    then have "?mine \<noteq> []" by (metis empty_iff list.set(1))
    then have "last ?mine = r" using only last_in_set by blast
    then have "position iid (snd (load ?ps l)) = Some (loaded_position r)" using loaded \<open>?mine \<noteq> []\<close> by simp
    then show ?thesis using Some r(2) by (simp add: position_core_def loaded_position_def row_matches_def)
  qed
qed

section \<open>Properties\<close>

definition example_book_env :: ledger_env where
  "example_book_env = \<lparr>le_account_id = ''paper'', le_currency = ''USD'', le_instruments = [(''EURUSD'', example_instrument)],
     le_clock = (\<lambda>n. int n * 1000000), le_suffix = (\<lambda>_. ''0123456789ab'')\<rparr>"

definition example_book :: ledger where
  "example_book = \<lparr>lg_positions = [], lg_outcomes = [], lg_paths = [], lg_exec = empty_store, lg_ticks = 0, lg_ids = 0\<rparr>"

definition example_book_fill :: "uuid \<Rightarrow> order_side \<Rightarrow> decimal \<Rightarrow> decimal \<Rightarrow> execution_report \<times> order_intent" where
  "example_book_fill k side q price =
     (\<lparr>er_execution_report_id = 100 + k, er_order_intent_id = k, er_venue_order_id = None, er_status = ES_FILLED, er_filled_quantity = q,
       er_average_fill_price = Some price, er_commission = 1, er_fees = 0, er_slippage = None, er_reject_reason = None, er_report_time = 0, er_sequence = 0\<rparr>,
      \<lparr>oi_order_intent_id = k, oi_risk_decision_id = 7, oi_proposal_id = None, oi_strategy_id = ''trend'', oi_strategy_version = ''1'',
       oi_instrument_id = ''EURUSD'', oi_operating_mode = OM_PAPER, oi_side = side, oi_order_type = MARKET, oi_time_in_force = GTC, oi_quantity = q,
       oi_price = None, oi_stop_loss = None, oi_take_profit = None, oi_max_slippage = 0, oi_sequence = 0, oi_valid_until = None,
       oi_created_by = ''apps.worker.order-intent'', oi_trace_id = None, oi_produced_at = 0\<rparr>)"

text \<open>Buy two thousand, sell five hundred at a loss of one hundred, and later sell the rest.\<close>

definition example_book_fills :: "(execution_report \<times> order_intent) list" where
  "example_book_fills = [example_book_fill 1 BUY 2000 1, example_book_fill 2 SELL 500 (4 / 5)]"

definition example_book_after :: ledger where
  "example_book_after = snd (apply_fills example_book_env example_book_fills example_book)"

lemma example_book_run: "apply_fills example_book_env example_book_fills example_book = (Inr (), example_book_after)"
proof -
  have "fst (apply_fills example_book_env example_book_fills example_book) = Inr ()" by code_simp
  then show ?thesis unfolding example_book_after_def by (metis prod.collapse)
qed

lemma example_book_valid: "list_all (\<lambda>x. valid_execution_report (fst x)) example_book_fills"
  by code_simp

lemma example_book_ok: "ledger_ok example_book"
  by (simp add: ledger_ok_def example_book_def position_def)

lemma apply_fills_keep:
  assumes "list_all (\<lambda>x. valid_execution_report (fst x)) fills" and "apply_fills env fills l = (Inr (), l')" and "ledger_ok l"
    and "\<And>n. length (le_suffix env n) = 12" and "persisted l"
  shows "ledger_ok l' \<and> persisted l'"
  using assms(1,2,3,5)
proof (induction fills arbitrary: l)
  case (Cons x xs)
  obtain a l1 where l1: "apply_fill env (fst x) (snd x) l = (Inr a, l1)" "apply_fills env xs l1 = (Inr (), l')"
    by (rule apply_fills_Cons [OF Cons.prems(2)])
  have v: "valid_execution_report (fst x)" using Cons.prems(1) by simp
  have "ledger_ok l1" using keeps_run [OF ledger_ok_fill [OF v] Cons.prems(3) l1(1)] .
  moreover have "persisted l1" by (rule fill_persists [OF Cons.prems(3) v l1(1) Cons.prems(4) assms(4)])
  ultimately show ?case using Cons.IH [OF _ l1(2)] Cons.prems(1) by simp
qed (simp add: apply_fills_def)



text \<open>
  C11: a restart loses no position. After any sequence of accepted fills on an empty ledger, loading the open rows of the execution
  store rebuilds, for every instrument, the same side, quantity, average price, opening time and venue identifier. The suffix of a position
  identifier has twelve characters, as the slice of the code gives it.
\<close>

theorem ledger_restart_rebuilds:
  assumes "\<And>n. length (le_suffix env n) = 12" and "lg_positions l = []" and "es_positions (lg_exec l) = []"
    and "list_all (\<lambda>x. valid_execution_report (fst x)) fills" and "apply_fills env fills l = (Inr (), l')"
  shows "map_option position_core (position iid (snd (load (list_positions True (lg_exec l')) l'))) = map_option position_core (position iid l')"
proof -
  have "ledger_ok l" "persisted l" using assms(2,3) by (simp_all add: ledger_ok_def persisted_def position_def stored_def)
  from apply_fills_keep [OF assms(4,5) this(1) assms(1) this(2)] show ?thesis using restart_rebuilds by blast
qed

theorem ledger_restart_rebuilds_witness:
  "map_option position_core (position ''EURUSD'' (snd (load (list_positions True (lg_exec example_book_after)) example_book_after))) =
     Some (''EURUSD'', PS_LONG, 1500, 1, 0, ''paper:EURUSD:0123456789ab'')"
proof -
  have "map_option position_core (position ''EURUSD'' example_book_after) =
      Some (''EURUSD'', PS_LONG, 1500, 1, 0, ''paper:EURUSD:0123456789ab'')" by code_simp
  then show ?thesis
    using ledger_restart_rebuilds [OF _ _ _ example_book_valid example_book_run, of "''EURUSD''"]
    by (simp add: example_book_env_def example_book_def empty_store_def)
qed

lemma paths_fill: "keeps (\<lambda>l. lg_paths l = ps) (apply_fill env r i)"
proof -
  let ?P = "\<lambda>l. lg_paths l = ps"
  have basic: "keeps ?P (ledger_now env)" "keeps ?P (new_position_id env iid)" "keeps ?P (put_position p)" for iid p
    by (simp_all add: keeps_def ledger_now_def new_position_id_def put_position_def)
  have exec: "keeps ?P (on_exec (upsert_position e))" for e
    by (simp add: keeps_def on_exec_def zoom_def upsert_position_def)
  have res: "keeps ?P (of_result x)" "keeps ?P (found_or e v)" for x :: "exn + decimal" and e and v :: "decimal option"
    by (simp_all add: keeps_def of_result_def found_or_def split: sum.split option.split)
  have grow: "keeps ?P (of_result x)" for x :: "exn + ledger_position" by (simp add: keeps_def of_result_def split: sum.split)
  have persist: "keeps ?P (persist_position env p c)" for p c
    unfolding persist_position_def Let_def by (intro ot_inv basic exec)
  have outcome: "keeps ?P (build_outcome env p q x r)" for p q x
    unfolding build_outcome_def Let_def by (intro ot_inv basic res)
  have reduce: "keeps ?P (reduce_position env r i price p)" for price p
    unfolding reduce_position_def Let_def by (intro ot_inv basic res persist outcome keeps_modify) simp
  show ?thesis unfolding apply_fill_def Let_def by (intro ot_inv basic res grow persist reduce)
qed

text \<open>The operations on a ledger; a call that raises leaves the state it reached.\<close>

datatype ledger_op = L_Fill execution_report order_intent | L_Mark market_snapshot | L_Clear string | L_Load "execution_position list"

fun ledger_op_ok :: "ledger_op \<Rightarrow> bool" where
  "ledger_op_ok (L_Fill r i) = valid_execution_report r"
| "ledger_op_ok (L_Load ps) = list_all valid_execution_position ps"
| "ledger_op_ok _ = True"

fun ledger_step :: "ledger_env \<Rightarrow> ledger_op \<Rightarrow> ledger \<Rightarrow> ledger" where
  "ledger_step env (L_Fill r i) l = snd (apply_fill env r i l)"
| "ledger_step env (L_Mark s) l = snd (record_mark s l)"
| "ledger_step env (L_Clear pid) l = snd (clear_price_path pid l)"
| "ledger_step env (L_Load ps) l = snd (load ps l)"

definition ledger_typed :: "ledger \<Rightarrow> bool" where
  "ledger_typed l \<longleftrightarrow> ledger_ok l \<and> (\<forall>pid. length (price_path pid l) \<le> max_path_points)"

lemma load_ok: "list_all valid_execution_position ps \<Longrightarrow> ledger_ok (snd (load ps l))"
proof -
  assume v: "list_all valid_execution_position ps"
  have "position_ok iid (loaded_position r)" if "r \<in> set ps" "ep_instrument_id r = iid" for iid r
    using v that by (auto simp: list_all_iff valid_execution_position_def position_ok_def loaded_position_def)
  moreover have "\<exists>r \<in> set ps. ep_instrument_id r = iid \<and> p = loaded_position r" if "map_of (load_positions ps []) iid = Some p" for iid p
  proof -
    let ?rs = "filter (\<lambda>r. ep_closed_at r = None \<and> ep_instrument_id r = iid) ps"
    have "?rs \<noteq> []" "p = loaded_position (last ?rs)"
      using that load_positions_lookup [of ps "[]" iid] by (simp_all add: Let_def del: filter_empty_conv split: if_splits)
    then show ?thesis using last_in_set [of ?rs] by auto
  qed
  ultimately have "position_ok iid p" if "map_of (load_positions ps []) iid = Some p" for iid p using that by blast
  then show ?thesis by (simp add: load_def ledger_ok_def position_def)
qed

lemma ledger_step_typed:
  assumes "ledger_typed l" and "ledger_op_ok op"
  shows "ledger_typed (ledger_step env op l)"
proof (cases op)
  case (L_Fill r i)
  have "ledger_ok (snd (apply_fill env r i l))" using assms L_Fill keepsD [OF ledger_ok_fill] by (simp add: ledger_typed_def)
  moreover have "lg_paths (snd (apply_fill env r i l)) = lg_paths l" by (rule keepsD [OF paths_fill refl])
  ultimately show ?thesis using assms(1) L_Fill by (simp add: ledger_typed_def price_path_def)
next
  case (L_Mark s)
  then show ?thesis using assms(1)
    by (auto simp: ledger_typed_def record_mark_def Let_def price_path_def split: option.splits)
next
  case (L_Clear pid)
  then show ?thesis using assms(1)
    by (auto simp: ledger_typed_def clear_price_path_def price_path_def delete_conv' split: option.splits)
next
  case (L_Load ps)
  then show ?thesis using assms load_ok [of ps l] by (simp add: ledger_typed_def load_def price_path_def)
qed

text \<open>
  C12: the ledger keeps its types. Whatever sequence of fills, marks, restarts and path deletions is applied, and whether each call returns
  or raises, every position is filed under its own instrument with a positive quantity, a positive average price, a side and a venue identifier, and no price
  path holds more than its bound of twenty thousand points.
\<close>

theorem ledger_state_typed:
  assumes "ledger_typed l" and "list_all ledger_op_ok ops"
  shows "ledger_typed (fold (ledger_step env) ops l)"
  using assms by (induction ops arbitrary: l) (simp_all add: ledger_step_typed)

theorem ledger_state_typed_witness:
  "ledger_typed (fold (ledger_step example_book_env)
     [L_Fill (fst (example_book_fill 1 BUY 2000 1)) (snd (example_book_fill 1 BUY 2000 1)), L_Mark example_snapshot, L_Load [],
      L_Clear ''paper:EURUSD:0123456789ab''] example_book)"
proof (rule ledger_state_typed)
  show "ledger_typed example_book" using example_book_ok by (simp add: ledger_typed_def price_path_def example_book_def)
  show "list_all ledger_op_ok [L_Fill (fst (example_book_fill 1 BUY 2000 1)) (snd (example_book_fill 1 BUY 2000 1)), L_Mark example_snapshot, L_Load [],
      L_Clear ''paper:EURUSD:0123456789ab'']" by code_simp
qed

section \<open>Partial closes\<close>

lemma closing_pnl_outcome: "closing_pnl p price q = outcome_gross p price q"
  using dadd_minus(2) [of price "lp_average_entry_price p"] ctx_round_minus [of "price - lp_average_entry_price p"]
  by (simp add: closing_pnl_def outcome_gross_def Let_def dneg_def dsub_def fits28_ctx_round ctx_round_exact)

lemma reduce_realized:
  assumes run: "reduce_position env r i price p l = (Inr a, l')" and id: "lp_instrument_id p = oi_instrument_id i"
    and t: "fa_outcome a = Some t"
  shows "to_realized_pnl t = fa_realized_pnl a \<and> to_quantity t = min (lp_quantity p) (er_filled_quantity r)"
proof -
  let ?qty = "min (lp_quantity p) (er_filled_quantity r)"
  obtain realized where cur: "to_account_currency env (closing_pnl p price ?qty) (oi_instrument_id i) price = Inr realized"
    using run by (cases "to_account_currency env (closing_pnl p price ?qty) (oi_instrument_id i) price") (auto simp: reduce_position_def of_result_def Let_def)
  have gross: "outcome_gross (p\<lparr>lp_order_intent_ids := ids\<rparr>) price ?qty = closing_pnl p price ?qty" for ids
    by (simp add: closing_pnl_outcome outcome_gross_def)
  show "to_realized_pnl t = fa_realized_pnl a \<and> to_quantity t = ?qty"
    using run cur gross id t
    by (auto simp: reduce_position_def of_result_def Let_def application_def build_outcome_def elim!: seq_InrE split: if_splits sum.splits)
qed

text \<open>
  The profit of a partial close is never booked. A position that is closed in two steps gives one trade outcome, with the
  quantity and the realized profit of the last step alone: the profit of the first step appears in no outcome, and the outcome is all that the accounting stage sees.
\<close>

lemma outcome_omits_partial_close:
  assumes "ledger_ok l" and "position (oi_instrument_id i1) l = Some p" and "lp_side p \<noteq> side_of (oi_side i1)"
    and "valid_execution_report r1" and "er_filled_quantity r1 < lp_quantity p" and "apply_fill env r1 i1 l = (Inr a1, l1)"
    and "oi_instrument_id i2 = oi_instrument_id i1" and "oi_side i2 = oi_side i1"
    and "valid_execution_report r2" and "apply_fill env r2 i2 l1 = (Inr a2, l2)" and "fa_outcome a2 = Some t"
  shows "fa_outcome a1 = None \<and> to_realized_pnl t = fa_realized_pnl a2 \<and>
    to_quantity t = min (dsub (lp_quantity p) (er_filled_quantity r1)) (er_filled_quantity r2)"
proof -
  have ok1: "ledger_ok l1" by (rule keeps_run [OF ledger_ok_fill [OF assms(4)] assms(1,6)])
  obtain p1 where p1: "fa_outcome a1 = None" "position (oi_instrument_id i1) l1 = Some p1" "lp_side p1 = lp_side p"
      "lp_quantity p1 = dsub (lp_quantity p) (er_filled_quantity r1)"
    using assms(1,4,6)
  proof (cases rule: fill_effect)
    case (changed q q' l1)
    then show thesis using that [of q'] assms(2,3) by simp
  qed (use assms(2,5) in auto)
  have id: "lp_instrument_id p1 = oi_instrument_id i2" using ledger_okD [OF ok1 p1(2)] assms(7) by (simp add: position_ok_def)
  have g: "0 < er_filled_quantity r2" using assms(10) by (auto simp: apply_fill_def guard_def split: if_splits)
  obtain price where price: "er_average_fill_price r2 = Some price"
    using assms(10) g by (cases "er_average_fill_price r2") (auto simp: apply_fill_def found_or_def guard_def)
  have "reduce_position env r2 i2 price p1 l1 = (Inr a2, l2)"
    using assms(3,7,8,10) g price p1(2,3) by (simp add: apply_fill_def guard_def found_or_def)
  from reduce_realized [OF this id assms(11)] show ?thesis using p1(1,4) by simp
qed

definition example_bought :: ledger where
  "example_bought = snd (apply_fill example_book_env (fst (example_book_fill 1 BUY 2000 1)) (snd (example_book_fill 1 BUY 2000 1)) example_book)"

definition example_reduced :: "(exn + fill_application) \<times> ledger" where
  "example_reduced = apply_fill example_book_env (fst (example_book_fill 2 SELL 500 (4 / 5))) (snd (example_book_fill 2 SELL 500 (4 / 5))) example_bought"

definition example_sold :: "(exn + fill_application) \<times> ledger" where
  "example_sold = apply_fill example_book_env (fst (example_book_fill 3 SELL 1500 (11 / 10))) (snd (example_book_fill 3 SELL 1500 (11 / 10))) (snd example_reduced)"

theorem outcome_omits_partial_close_witness:
  "\<exists>a1 a2 t. fst example_reduced = Inr a1 \<and> fst example_sold = Inr a2 \<and> fa_outcome a2 = Some t \<and>
     fa_realized_pnl a1 = - 100 \<and> to_realized_pnl t = 150 \<and> to_quantity t = 1500"
proof -
  let ?f2 = "example_book_fill 2 SELL 500 (4 / 5)" let ?f3 = "example_book_fill 3 SELL 1500 (11 / 10)"
  have "case example_reduced of (Inr a, _) \<Rightarrow> fa_realized_pnl a = - 100 | _ \<Rightarrow> False" by code_simp
  then obtain a1 l1 where a1: "example_reduced = (Inr a1, l1)" "fa_realized_pnl a1 = - 100" by (auto split: prod.splits sum.splits)
  have "case example_sold of (Inr a, _) \<Rightarrow> fa_realized_pnl a = 150 \<and> fa_outcome a \<noteq> None | _ \<Rightarrow> False" by code_simp
  then obtain a2 l2 t where a2: "example_sold = (Inr a2, l2)" "fa_realized_pnl a2 = 150" "fa_outcome a2 = Some t" by (auto split: prod.splits sum.splits)
  have ok: "ledger_ok example_bought"
    unfolding example_bought_def by (rule keepsD [OF ledger_ok_fill example_book_ok]) (simp add: example_book_fill_def valid_execution_report_def opt_pos_def)
  have "case position ''EURUSD'' example_bought of None \<Rightarrow> False | Some p \<Rightarrow> lp_side p = PS_LONG \<and> lp_quantity p = 2000" by code_simp
  then obtain p where p: "position ''EURUSD'' example_bought = Some p" "lp_side p = PS_LONG" "lp_quantity p = 2000" by (auto split: option.splits)
  have v: "valid_execution_report (fst ?f2)" "valid_execution_report (fst ?f3)"
    by (simp_all add: example_book_fill_def valid_execution_report_def opt_pos_def)
  have sub: "dsub 2000 500 = 1500" by code_simp
  have i: "oi_instrument_id (snd ?f2) = ''EURUSD''" "oi_side (snd ?f2) = SELL" "er_filled_quantity (fst ?f2) = 500"
    "oi_instrument_id (snd ?f3) = ''EURUSD''" "oi_side (snd ?f3) = SELL" "er_filled_quantity (fst ?f3) = 1500"
    by (simp_all add: example_book_fill_def)
  have l1: "snd example_reduced = l1" using arg_cong [OF a1(1), of snd] by (simp only: snd_conv)
  have sold: "apply_fill example_book_env (fst ?f3) (snd ?f3) l1 = (Inr a2, l2)" using a2(1) unfolding example_sold_def l1 .
  have "to_realized_pnl t = fa_realized_pnl a2 \<and> to_quantity t = 1500"
    using outcome_omits_partial_close [OF ok _ _ v(1) _ a1(1) [unfolded example_reduced_def] _ _ v(2) sold a2(3), of p] p i sub
    by (simp add: side_of_def)
  moreover have "fst example_reduced = Inr a1" "fst example_sold = Inr a2"
    using arg_cong [OF a1(1), of fst] arg_cong [OF a2(1), of fst] by (simp_all only: fst_conv)
  ultimately show ?thesis using a1(2) a2(2,3) by auto
qed

end
