(* ===== verification/Worker_Bus.thy ===== *)
theory Worker_Bus
  imports Domain
begin

text \<open>
  The event bus of the worker: \<open>InMemoryStreamBus\<close> of \<^verbatim>\<open>apps/worker/bus.py\<close>, which mirrors the
  delivery protocol of the Redis stream. One stream of numbered entries is read by consumer groups; a grp has a cursor into the stream
  and the messages that were delivered and not acknowledged.

  The bus is polymorphic in the events it carries. A time stamp, in the code the float \<open>datetime.timestamp()\<close>, is the instant itself,
  and each reading of the clock is the next value of \<open>clock\<close>, counted by \<open>bus_ticks\<close>.
\<close>

record pending_info =
  pi_consumer :: string
  pi_deliveries :: nat
  pi_delivered_at :: instant

record group_state =
  gs_cursor :: nat
  gs_pending :: "(string, pending_info) dict"

record 'e bus =
  bus_entries :: "(string \<times> 'e) list"
  bus_last_id :: nat
  bus_groups :: "(string, group_state) dict"
  bus_dead :: "(string, (string \<times> 'e \<times> string) list) dict"
  bus_ticks :: nat

definition empty_bus :: "'e bus" where
  "empty_bus = \<lparr>bus_entries = [], bus_last_id = 0, bus_groups = [], bus_dead = [], bus_ticks = 0\<rparr>"

record 'e stream_message =
  sm_message_id :: string
  sm_delivery_count :: nat
  sm_event :: 'e

record pending_message =
  pm_message_id :: string
  pm_consumer :: string
  pm_idle_ms :: int
  pm_delivery_count :: nat

type_synonym ('e, 'a) bus_prog = "('e bus, exn, 'a) prog"

definition bus_now :: "(nat \<Rightarrow> instant) \<Rightarrow> ('e, instant) bus_prog" where
  "bus_now clock = (\<lambda>b. (Inr (clock (bus_ticks b)), b\<lparr>bus_ticks := bus_ticks b + 1\<rparr>))"

definition message_id_of :: "nat \<Rightarrow> string" where
  "message_id_of n = decimal_str n @ ''-0''"

definition publish :: "'e \<Rightarrow> ('e, string) bus_prog" where
  "publish event =
     seq (modify (\<lambda>b. b\<lparr>bus_last_id := bus_last_id b + 1\<rparr>)) (\<lambda>_.
     seq (reads (\<lambda>b. message_id_of (bus_last_id b))) (\<lambda>mid.
     seq (modify (\<lambda>b. b\<lparr>bus_entries := bus_entries b @ [(mid, event)]\<rparr>)) (\<lambda>_. ret mid)))"

definition new_group :: group_state where
  "new_group = \<lparr>gs_cursor = 0, gs_pending = []\<rparr>"

definition ensure_group :: "string \<Rightarrow> ('e, unit) bus_prog" where
  "ensure_group grp = modify (\<lambda>b. if map_of (bus_groups b) grp = None
     then b\<lparr>bus_groups := AList.update grp new_group (bus_groups b)\<rparr> else b)"

text \<open>\<open>self._groups[group]\<close> after \<open>ensure_group\<close>, and the write of the state the code mutates in place.\<close>

definition group_of :: "string \<Rightarrow> 'e bus \<Rightarrow> group_state" where
  "group_of grp b = (case map_of (bus_groups b) grp of None \<Rightarrow> new_group | Some g \<Rightarrow> g)"

definition put_group :: "string \<Rightarrow> group_state \<Rightarrow> 'e bus \<Rightarrow> 'e bus" where
  "put_group grp g b = b\<lparr>bus_groups := AList.update grp g (bus_groups b)\<rparr>"

definition set_pending :: "string \<Rightarrow> string \<Rightarrow> pending_info \<Rightarrow> 'e bus \<Rightarrow> 'e bus" where
  "set_pending grp mid info b =
     put_group grp ((group_of grp b)\<lparr>gs_pending := AList.update mid info (gs_pending (group_of grp b))\<rparr>) b"

definition move_cursor :: "string \<Rightarrow> 'e bus \<Rightarrow> 'e bus" where
  "move_cursor grp b = put_group grp ((group_of grp b)\<lparr>gs_cursor := gs_cursor (group_of grp b) + 1\<rparr>) b"

text \<open>The loop of \<open>read_new\<close> over the entries behind the cursor; \<open>n\<close> messages may still be taken.\<close>

primrec read_loop :: "(nat \<Rightarrow> instant) \<Rightarrow> string \<Rightarrow> string \<Rightarrow> (string \<times> 'e) list \<Rightarrow> nat \<Rightarrow> ('e, 'e stream_message list) bus_prog" where
  "read_loop clock grp consumer [] n = ret []"
| "read_loop clock grp consumer (x # xs) n =
     (if n = 0 then ret []
      else seq (reads (\<lambda>b. map_of (gs_pending (group_of grp b)) (fst x) \<noteq> None)) (\<lambda>known.
        seq (modify (move_cursor grp)) (\<lambda>_.
        if known then read_loop clock grp consumer xs n
        else seq (bus_now clock) (\<lambda>now.
          seq (modify (set_pending grp (fst x) \<lparr>pi_consumer = consumer, pi_deliveries = 1, pi_delivered_at = now\<rparr>)) (\<lambda>_.
          seq (read_loop clock grp consumer xs (n - 1)) (\<lambda>ms.
          ret (\<lparr>sm_message_id = fst x, sm_delivery_count = 1, sm_event = snd x\<rparr> # ms)))))))"

definition read_new :: "(nat \<Rightarrow> instant) \<Rightarrow> string \<Rightarrow> string \<Rightarrow> nat \<Rightarrow> ('e, 'e stream_message list) bus_prog" where
  "read_new clock grp consumer n =
     seq (ensure_group grp) (\<lambda>_.
     seq (reads (\<lambda>b. drop (gs_cursor (group_of grp b)) (bus_entries b))) (\<lambda>entries.
     read_loop clock grp consumer entries n))"

definition event_for :: "string \<Rightarrow> ('e, 'e) bus_prog" where
  "event_for mid =
     seq (reads (\<lambda>b. map_of (bus_entries b) mid)) (\<lambda>found.
     case found of None \<Rightarrow> raise (KeyError mid) | Some e \<Rightarrow> ret e)"

primrec pending_loop :: "string \<Rightarrow> (string \<times> pending_info) list \<Rightarrow> nat \<Rightarrow> ('e, 'e stream_message list) bus_prog" where
  "pending_loop consumer [] n = ret []"
| "pending_loop consumer (x # xs) n =
     (if n = 0 then ret []
      else if pi_consumer (snd x) \<noteq> consumer then pending_loop consumer xs n
      else seq (event_for (fst x)) (\<lambda>event.
        seq (pending_loop consumer xs (n - 1)) (\<lambda>ms.
        ret (\<lparr>sm_message_id = fst x, sm_delivery_count = pi_deliveries (snd x), sm_event = event\<rparr> # ms))))"

definition read_pending :: "string \<Rightarrow> string \<Rightarrow> nat \<Rightarrow> ('e, 'e stream_message list) bus_prog" where
  "read_pending grp consumer n =
     seq (ensure_group grp) (\<lambda>_.
     seq (reads (\<lambda>b. gs_pending (group_of grp b))) (\<lambda>items. pending_loop consumer items n))"

definition pending :: "(nat \<Rightarrow> instant) \<Rightarrow> string \<Rightarrow> nat \<Rightarrow> ('e, pending_message list) bus_prog" where
  "pending clock grp n =
     seq (ensure_group grp) (\<lambda>_.
     seq (bus_now clock) (\<lambda>now.
     reads (\<lambda>b. take n (map (\<lambda>(mid, info). \<lparr>pm_message_id = mid, pm_consumer = pi_consumer info,
       pm_idle_ms = max 0 ((now - pi_delivered_at info) div 1000), pm_delivery_count = pi_deliveries info\<rparr>)
       (gs_pending (group_of grp b))))))"

primrec claim_loop :: "string \<Rightarrow> string \<Rightarrow> int \<Rightarrow> instant \<Rightarrow> (string \<times> pending_info) list \<Rightarrow> nat \<Rightarrow> ('e, 'e stream_message list) bus_prog" where
  "claim_loop grp consumer min_idle_ms now [] n = ret []"
| "claim_loop grp consumer min_idle_ms now (x # xs) n =
     (if now - pi_delivered_at (snd x) < min_idle_ms * 1000 then claim_loop grp consumer min_idle_ms now xs n
      else if n = 0 then ret []
      else let info = \<lparr>pi_consumer = consumer, pi_deliveries = pi_deliveries (snd x) + 1, pi_delivered_at = now\<rparr> in
        seq (modify (set_pending grp (fst x) info)) (\<lambda>_.
        seq (event_for (fst x)) (\<lambda>event.
        seq (claim_loop grp consumer min_idle_ms now xs (n - 1)) (\<lambda>ms.
        ret (\<lparr>sm_message_id = fst x, sm_delivery_count = pi_deliveries info, sm_event = event\<rparr> # ms)))))"

definition claim_stale :: "(nat \<Rightarrow> instant) \<Rightarrow> string \<Rightarrow> string \<Rightarrow> int \<Rightarrow> nat \<Rightarrow> ('e, 'e stream_message list) bus_prog" where
  "claim_stale clock grp consumer min_idle_ms n =
     seq (ensure_group grp) (\<lambda>_.
     seq (bus_now clock) (\<lambda>now.
     seq (reads (\<lambda>b. gs_pending (group_of grp b))) (\<lambda>items.
     claim_loop grp consumer min_idle_ms now items n)))"

definition ack :: "string \<Rightarrow> string \<Rightarrow> ('e, unit) bus_prog" where
  "ack grp mid =
     seq (ensure_group grp) (\<lambda>_.
     modify (\<lambda>b. put_group grp ((group_of grp b)\<lparr>gs_pending := AList.delete mid (gs_pending (group_of grp b))\<rparr>) b))"

definition dead_of :: "string \<Rightarrow> 'e bus \<Rightarrow> (string \<times> 'e \<times> string) list" where
  "dead_of grp b = (case map_of (bus_dead b) grp of None \<Rightarrow> [] | Some ds \<Rightarrow> ds)"

definition dead_letter :: "string \<Rightarrow> 'e stream_message \<Rightarrow> string \<Rightarrow> ('e, unit) bus_prog" where
  "dead_letter grp m error =
     seq (ensure_group grp) (\<lambda>_.
     seq (ack grp (sm_message_id m)) (\<lambda>_.
     modify (\<lambda>b. b\<lparr>bus_dead := AList.update grp (dead_of grp b @ [(sm_message_id m, sm_event m, error)]) (bus_dead b)\<rparr>)))"

section \<open>The invariant of a group\<close>

text \<open>
  A message that the cursor has passed is pending, or it was acknowledged: \<open>gone\<close> collects the identifiers that
  \<open>ack\<close> removed. So no message gets lost between the stream and the acknowledgement.
\<close>

definition bus_ids_ok :: "'e bus \<Rightarrow> bool" where
  "bus_ids_ok b \<longleftrightarrow> map fst (bus_entries b) = map message_id_of [1..<Suc (length (bus_entries b))] \<and>
     bus_last_id b = length (bus_entries b)"

definition group_ok :: "'e bus \<Rightarrow> string set \<Rightarrow> group_state \<Rightarrow> bool" where
  "group_ok b gone g \<longleftrightarrow> gs_cursor g \<le> length (bus_entries b) \<and> distinct (map fst (gs_pending g)) \<and>
     (\<forall>i < gs_cursor g. fst (bus_entries b ! i) \<in> gone \<or> map_of (gs_pending g) (fst (bus_entries b ! i)) \<noteq> None) \<and>
     (\<forall>mid info. map_of (gs_pending g) mid = Some info \<longrightarrow>
        1 \<le> pi_deliveries info \<and> (\<exists>i < gs_cursor g. fst (bus_entries b ! i) = mid))"

definition bus_inv :: "string \<Rightarrow> string set \<Rightarrow> 'e bus \<Rightarrow> bool" where
  "bus_inv grp gone b \<longleftrightarrow> bus_ids_ok b \<and> group_ok b gone (group_of grp b)"

lemma group_of_put [simp]: "group_of g (put_group h x b) = (if g = h then x else group_of g b)"
  by (simp add: group_of_def put_group_def)

lemma put_group_frame [simp]: "bus_entries (put_group h x b) = bus_entries b" "bus_last_id (put_group h x b) = bus_last_id b"
  "bus_dead (put_group h x b) = bus_dead b" "bus_ticks (put_group h x b) = bus_ticks b"
  by (simp_all add: put_group_def)

lemma ticks_frame [simp]: "group_of g (b\<lparr>bus_ticks := n\<rparr>) = group_of g b" "group_of g (b\<lparr>bus_dead := d\<rparr>) = group_of g b"
  "group_of g (b\<lparr>bus_last_id := k\<rparr>) = group_of g b" "group_of g (b\<lparr>bus_entries := es\<rparr>) = group_of g b"
  by (simp_all add: group_of_def)

lemma ensure_group_frame:
  "ensure_group h b = (Inr (), b') \<Longrightarrow> group_of g b' = group_of g b \<and> bus_entries b' = bus_entries b \<and> bus_last_id b' = bus_last_id b \<and>
     bus_dead b' = bus_dead b \<and> map_of (bus_groups b') h \<noteq> None"
  by (auto simp: ensure_group_def group_of_def split: if_splits)

lemma bus_now_run [simp]: "bus_now clock b = (Inr (clock (bus_ticks b)), b\<lparr>bus_ticks := bus_ticks b + 1\<rparr>)"
  by (simp add: bus_now_def)

lemma bus_inv_cong:
  assumes "bus_entries b' = bus_entries b" and "bus_last_id b' = bus_last_id b" and "group_of g b' = group_of g b"
  shows "bus_inv g gone b' = bus_inv g gone b"
  using assms by (simp add: bus_inv_def bus_ids_ok_def group_ok_def)

lemma bus_inv_mono: "bus_inv g gone b \<Longrightarrow> gone \<subseteq> gone' \<Longrightarrow> bus_inv g gone' b"
  by (auto simp: bus_inv_def group_ok_def)

lemma message_id_inj [simp]: "message_id_of m = message_id_of n \<longleftrightarrow> m = n"
  by (simp add: message_id_of_def)

lemma bus_ids_nth: "bus_ids_ok b \<Longrightarrow> i < length (bus_entries b) \<Longrightarrow> fst (bus_entries b ! i) = message_id_of (Suc i)"
proof -
  assume ids: "bus_ids_ok b" and i: "i < length (bus_entries b)"
  have "map fst (bus_entries b) ! i = map message_id_of [1..<Suc (length (bus_entries b))] ! i"
    using ids by (simp only: bus_ids_ok_def)
  then show ?thesis using i by (simp del: upt_Suc)
qed

lemma bus_ids_distinct: "bus_ids_ok b \<Longrightarrow> distinct (map fst (bus_entries b))"
  by (simp add: bus_ids_ok_def distinct_map inj_on_def)

lemma bus_inv_empty: "bus_inv g {} empty_bus"
  by (simp add: bus_inv_def bus_ids_ok_def group_ok_def group_of_def empty_bus_def new_group_def)

lemma bus_inv_publish [ot_inv]: "keeps (bus_inv g gone) (publish e)"
proof (rule keepsI)
  fix b :: "'a bus" assume inv: "bus_inv g gone b"
  let ?n = "length (bus_entries b)"
  let ?b = "b\<lparr>bus_last_id := Suc ?n, bus_entries := bus_entries b @ [(message_id_of (Suc ?n), e)]\<rparr>"
  have b': "snd (publish e b) = ?b" using inv by (simp add: publish_def bus_inv_def bus_ids_ok_def)
  have ids: "bus_ids_ok ?b" using inv by (simp add: bus_inv_def bus_ids_ok_def)
  have nth: "(bus_entries b @ [x]) ! i = bus_entries b ! i" if "i < gs_cursor (group_of g b)" for i x
    using that inv by (simp add: bus_inv_def group_ok_def nth_append)
  have ok: "group_ok b gone (group_of g b)" using inv by (simp add: bus_inv_def)
  have "group_ok ?b gone (group_of g b)"
    unfolding group_ok_def
  proof (intro conjI allI impI)
    fix mid info assume "map_of (gs_pending (group_of g b)) mid = Some info"
    then obtain i where "1 \<le> pi_deliveries info" "i < gs_cursor (group_of g b)" "fst (bus_entries b ! i) = mid"
      using ok unfolding group_ok_def by blast
    then show "1 \<le> pi_deliveries info" "\<exists>i < gs_cursor (group_of g b). fst (bus_entries ?b ! i) = mid" using nth by auto
  qed (use ok nth in \<open>auto simp: group_ok_def\<close>)
  then show "bus_inv g gone (snd (publish e b))" unfolding b' bus_inv_def using ids by simp
qed

lemma bus_inv_ensure [ot_inv]: "keeps (bus_inv g gone) (ensure_group h)"
proof (rule keepsI)
  fix b :: "'a bus" assume inv: "bus_inv g gone b"
  have run: "ensure_group h b = (Inr (), snd (ensure_group h b))" by (simp add: ensure_group_def)
  show "bus_inv g gone (snd (ensure_group h b))" using ensure_group_frame [OF run, of g] bus_inv_cong [of _ b g gone] inv by simp
qed

lemma bus_inv_now [ot_inv]: "keeps (bus_inv g gone) (bus_now clock)"
proof (rule keepsI)
  fix b :: "'a bus" assume inv: "bus_inv g gone b"
  have "bus_inv g gone (b\<lparr>bus_ticks := n\<rparr>) = bus_inv g gone b" for n by (rule bus_inv_cong) simp_all
  then show "bus_inv g gone (snd (bus_now clock b))" using inv by simp
qed

lemma bus_inv_other:
  assumes "g \<noteq> h"
  shows "bus_inv g gone (put_group h x b) = bus_inv g gone b"
  by (rule bus_inv_cong) (simp_all add: assms)

lemma bus_inv_event_for [ot_inv]: "keeps (bus_inv g gone) (event_for mid)"
  unfolding event_for_def by (intro ot_inv)

lemma bus_inv_read_pending [ot_inv]: "keeps (bus_inv g gone) (read_pending h consumer n)"
proof -
  have "keeps (bus_inv g gone) (pending_loop consumer xs n)" for xs n
    by (induction xs arbitrary: n) (auto intro!: ot_inv)
  then show ?thesis unfolding read_pending_def by (intro ot_inv)
qed

lemma bus_inv_pending [ot_inv]: "keeps (bus_inv g gone) (pending clock h n)"
  unfolding pending_def by (intro ot_inv)

text \<open>Delivery: the cursor passes an entry, which is pending afterwards.\<close>

lemma bus_inv_deliver:
  assumes inv: "bus_inv g gone b" and x: "drop (gs_cursor (group_of g b)) (bus_entries b) = x # xs"
    and new: "map_of (gs_pending (group_of g b)) (fst x) = None" and info: "1 \<le> pi_deliveries info"
  shows "bus_inv g gone (set_pending g (fst x) info (move_cursor g b))"
proof -
  let ?G = "group_of g b"
  have ok: "group_ok b gone ?G" using inv by (simp add: bus_inv_def)
  have c: "gs_cursor ?G < length (bus_entries b)" using x by (metis drop_all list.distinct(1) not_le)
  have x': "bus_entries b ! gs_cursor ?G = x" using x c by (metis Cons_nth_drop_Suc list.inject)
  let ?G' = "?G\<lparr>gs_cursor := gs_cursor ?G + 1, gs_pending := AList.update (fst x) info (gs_pending ?G)\<rparr>"
  have "group_ok b gone ?G'"
    unfolding group_ok_def
  proof (intro conjI allI impI)
    show "distinct (map fst (gs_pending ?G'))" using ok by (simp add: group_ok_def distinct_update)
    fix i assume "i < gs_cursor ?G'"
    then have "i < gs_cursor ?G \<or> i = gs_cursor ?G" by auto
    then show "fst (bus_entries b ! i) \<in> gone \<or> map_of (gs_pending ?G') (fst (bus_entries b ! i)) \<noteq> None"
      using ok x' unfolding group_ok_def by auto
  next
    fix mid inf assume m: "map_of (gs_pending ?G') mid = Some inf"
    show "1 \<le> pi_deliveries inf" using m info ok by (auto simp: group_ok_def split: if_splits)
    show "\<exists>i < gs_cursor ?G'. fst (bus_entries b ! i) = mid"
    proof (cases "mid = fst x")
      case True
      then show ?thesis using x' by auto
    next
      case False
      then have "map_of (gs_pending ?G) mid = Some inf" using m by simp
      then obtain i where "i < gs_cursor ?G" "fst (bus_entries b ! i) = mid" using ok unfolding group_ok_def by blast
      then show ?thesis by (auto intro: less_SucI)
    qed
  qed (use c in simp)
  then show ?thesis using inv by (simp add: bus_inv_def set_pending_def move_cursor_def bus_ids_ok_def group_ok_def)
qed

lemma bus_inv_move:
  assumes inv: "bus_inv g gone b" and x: "drop (gs_cursor (group_of g b)) (bus_entries b) = x # xs"
  shows "map_of (gs_pending (group_of g b)) (fst x) = None"
proof (rule ccontr)
  let ?c = "gs_cursor (group_of g b)"
  assume "map_of (gs_pending (group_of g b)) (fst x) \<noteq> None"
  then obtain i where i: "i < ?c" "fst (bus_entries b ! i) = fst x"
    using inv unfolding bus_inv_def group_ok_def by blast
  have c: "?c < length (bus_entries b)" using x by (metis drop_all list.distinct(1) not_le)
  moreover have "bus_entries b ! ?c = x" using x c by (metis Cons_nth_drop_Suc list.inject)
  ultimately show False using i bus_ids_nth [of b i] bus_ids_nth [of b ?c] inv by (auto simp: bus_inv_def)
qed

lemma bus_inv_read_loop:
  assumes "bus_inv g gone b" and "drop (gs_cursor (group_of g b)) (bus_entries b) = xs"
  shows "bus_inv g gone (snd (read_loop clock g consumer xs n b))"
  using assms
proof (induction xs arbitrary: b n)
  case (Cons x xs)
  show ?case
  proof (cases "n = 0")
    case False
    let ?info = "\<lparr>pi_consumer = consumer, pi_deliveries = 1, pi_delivered_at = clock (bus_ticks (move_cursor g b))\<rparr>"
    let ?b = "set_pending g (fst x) ?info ((move_cursor g b)\<lparr>bus_ticks := bus_ticks (move_cursor g b) + 1\<rparr>)"
    have new: "map_of (gs_pending (group_of g b)) (fst x) = None" by (rule bus_inv_move [OF Cons.prems])
    have "bus_inv g gone (set_pending g (fst x) ?info (move_cursor g b))"
      by (rule bus_inv_deliver [OF Cons.prems new]) simp
    then have inv: "bus_inv g gone ?b" by (simp add: bus_inv_def group_ok_def bus_ids_ok_def set_pending_def)
    have "drop (gs_cursor (group_of g ?b)) (bus_entries ?b) = xs"
      using Cons.prems(2) by (simp add: set_pending_def move_cursor_def) (metis drop_Suc list.sel(3) tl_drop)
    from Cons.IH [OF inv this, of "n - 1"] show ?thesis
      using False new by simp
  qed (use Cons.prems in simp)
qed simp

lemma other_read_loop:
  assumes "g \<noteq> h"
  shows "keeps (bus_inv g gone) (read_loop clock h consumer xs n)"
proof (induction xs arbitrary: n)
  case (Cons x xs)
  then show ?case
    by (auto intro!: ot_inv keeps_modify simp: move_cursor_def set_pending_def bus_inv_other [OF assms])
qed (simp add: ot_inv)

lemma bus_inv_read_new [ot_inv]: "keeps (bus_inv g gone) (read_new clock h consumer n)"
proof (cases "g = h")
  case True
  show ?thesis
  proof (rule keepsI)
    fix b :: "'a bus" assume inv: "bus_inv g gone b"
    have run: "ensure_group h b = (Inr (), snd (ensure_group h b))" by (simp add: ensure_group_def)
    have "bus_inv g gone (snd (ensure_group h b))" using inv by (rule keepsD [OF bus_inv_ensure])
    then show "bus_inv g gone (snd (read_new clock h consumer n b))"
      unfolding read_new_def seq_Inr [of "ensure_group h", OF run] using bus_inv_read_loop [OF _ refl] True by simp
  qed
next
  case False
  then show ?thesis unfolding read_new_def by (intro ot_inv other_read_loop)
qed

text \<open>A claim rewrites the delivery data of a pending message and nothing else.\<close>

lemma bus_inv_redeliver:
  assumes inv: "bus_inv g gone b" and old: "map_of (gs_pending (group_of g b)) mid \<noteq> None" and info: "1 \<le> pi_deliveries info"
  shows "bus_inv g gone (set_pending g mid info b)"
proof -
  let ?G = "group_of g b" let ?G' = "?G\<lparr>gs_pending := AList.update mid info (gs_pending ?G)\<rparr>"
  have ok: "group_ok b gone ?G" using inv by (simp add: bus_inv_def)
  have "group_ok b gone ?G'"
    unfolding group_ok_def
  proof (intro conjI allI impI)
    fix m inf assume m: "map_of (gs_pending ?G') m = Some inf"
    show "1 \<le> pi_deliveries inf" using m info ok by (auto simp: group_ok_def split: if_splits)
    have "map_of (gs_pending ?G) m \<noteq> None" using m old by (auto split: if_splits)
    then show "\<exists>i < gs_cursor ?G'. fst (bus_entries b ! i) = m" using ok unfolding group_ok_def by auto
  qed (use ok in \<open>auto simp: group_ok_def distinct_update\<close>)
  then show ?thesis using inv by (simp add: bus_inv_def set_pending_def bus_ids_ok_def group_ok_def)
qed

lemma bus_inv_claim_loop:
  assumes "bus_inv g gone b" and "\<forall>x \<in> set xs. map_of (gs_pending (group_of g b)) (fst x) \<noteq> None"
  shows "bus_inv g gone (snd (claim_loop g consumer idle now xs n b))"
  using assms
proof (induction xs arbitrary: b n)
  case (Cons x xs)
  show ?case
  proof (cases "now - pi_delivered_at (snd x) < idle * 1000 \<or> n = 0")
    case True
    then show ?thesis using Cons by auto
  next
    case False
    let ?info = "\<lparr>pi_consumer = consumer, pi_deliveries = pi_deliveries (snd x) + 1, pi_delivered_at = now\<rparr>"
    let ?b = "set_pending g (fst x) ?info b"
    have inv: "bus_inv g gone ?b" using Cons.prems by (intro bus_inv_redeliver) simp_all
    have "\<forall>y \<in> set xs. map_of (gs_pending (group_of g ?b)) (fst y) \<noteq> None" using Cons.prems(2) by (simp add: set_pending_def)
    from Cons.IH [OF inv this, of "n - 1"] show ?thesis
      using False inv by (cases "map_of (bus_entries ?b) (fst x)") (simp_all add: event_for_def Let_def seq_assoc)
  qed
qed simp

lemma bus_inv_claim_stale [ot_inv]: "keeps (bus_inv g gone) (claim_stale clock h consumer idle n)"
proof (cases "g = h")
  case True
  show ?thesis
  proof (rule keepsI)
    fix b :: "'a bus" assume inv: "bus_inv g gone b"
    have run: "ensure_group h b = (Inr (), snd (ensure_group h b))" by (simp add: ensure_group_def)
    let ?b = "(snd (ensure_group h b))\<lparr>bus_ticks := bus_ticks (snd (ensure_group h b)) + 1\<rparr>"
    have "bus_inv g gone (snd (ensure_group h b))" using inv by (rule keepsD [OF bus_inv_ensure])
    then have inv2: "bus_inv h gone ?b" using keepsD [OF bus_inv_now, of g gone _ clock] True by simp
    have "\<forall>x \<in> set (gs_pending (group_of h ?b)). map_of (gs_pending (group_of h ?b)) (fst x) \<noteq> None"
      by (metis map_of_eq_None_iff image_eqI)
    then have "bus_inv h gone (snd (claim_loop h consumer idle (clock (bus_ticks (snd (ensure_group h b)))) (gs_pending (group_of h ?b)) n ?b))"
      by (rule bus_inv_claim_loop [OF inv2])
    then show "bus_inv g gone (snd (claim_stale clock h consumer idle n b))"
      unfolding claim_stale_def seq_Inr [of "ensure_group h", OF run] using True by simp
  qed
next
  case False
  have "keeps (bus_inv g gone) (claim_loop h consumer idle now xs n)" for now xs n
    by (induction xs arbitrary: n) (auto intro!: ot_inv keeps_modify simp: Let_def set_pending_def bus_inv_other [OF False])
  then show ?thesis unfolding claim_stale_def by (intro ot_inv)
qed

text \<open>An acknowledgement moves one identifier to those that are gone.\<close>

lemma bus_inv_remove:
  assumes "bus_inv g gone b"
  shows "bus_inv g (insert mid gone) (put_group g ((group_of g b)\<lparr>gs_pending := AList.delete mid (gs_pending (group_of g b))\<rparr>) b)"
  using assms by (auto simp: bus_inv_def bus_ids_ok_def group_ok_def delete_conv' distinct_delete split: if_splits)

lemma bus_inv_ack:
  assumes "bus_inv g gone b"
  shows "bus_inv g (if h = g then insert mid gone else gone) (snd (ack h mid b))"
proof -
  have run: "ensure_group h b = (Inr (), snd (ensure_group h b))" by (simp add: ensure_group_def)
  have "bus_inv g gone (snd (ensure_group h b))" using assms by (rule keepsD [OF bus_inv_ensure])
  then show ?thesis unfolding ack_def seq_Inr [of "ensure_group h", OF run]
    by (cases "h = g") (auto simp: bus_inv_remove bus_inv_other)
qed

lemma bus_inv_dead [simp]: "bus_inv g gone (b\<lparr>bus_dead := d\<rparr>) = bus_inv g gone b"
  by (rule bus_inv_cong) simp_all

lemma bus_inv_dead_letter:
  assumes "bus_inv g gone b"
  shows "bus_inv g (if h = g then insert (sm_message_id m) gone else gone) (snd (dead_letter h m error b))"
proof -
  have run: "ensure_group h b = (Inr (), snd (ensure_group h b))" by (simp add: ensure_group_def)
  let ?b = "snd (ensure_group h b)"
  have a: "ack h mid c = (Inr (), snd (ack h mid c))" for mid c by (simp add: ack_def ensure_group_def)
  have "bus_inv g gone ?b" using assms by (rule keepsD [OF bus_inv_ensure])
  from bus_inv_ack [OF this, of h "sm_message_id m"] show ?thesis unfolding dead_letter_def seq_Inr [of "ensure_group h", OF run] seq_Inr [of "ack h (sm_message_id m)", OF a] by simp
qed



end
