(* ===== verification/Worker_Stages.thy ===== *)
theory Worker_Stages
  imports Paper_Ledger Worker_Bus Risk_Engine Uuid_Text
begin

text \<open>
  The stages of the paper pipeline: the framework of \<^verbatim>\<open>apps/worker/stages/base.py\<close> (run records, idempotency, publication), the
  lifecycle helper of \<^verbatim>\<open>apps/worker/lifecycle.py\<close>, and the stages from the risk decision to the account:
  \<^verbatim>\<open>stages/risk.py\<close>, \<^verbatim>\<open>stages/order_intent.py\<close>, \<^verbatim>\<open>stages/execution.py\<close>, \<^verbatim>\<open>stages/positions.py\<close> and \<^verbatim>\<open>stages/accounting.py\<close>.

  An event carries its payload as a value of a sum; parsing a payload of another kind raises. Parameters are the clock, the
  generators of random and name-based identifiers, the digest of the risk engine, the paper venue (the executor of an instrument), and whether the
  n-th publication reaches the stream. Metrics, traces, audit records and the text of context fragments are left out.
\<close>

section \<open>Events and runtime\<close>

datatype payload =
    P_Snapshot market_snapshot
  | P_Proposal trade_proposal
  | P_Decision risk_decision
  | P_Intent order_intent
  | P_Report execution_report
  | P_Outcome trade_outcome
  | P_Position position_snapshot
  | P_Other

record domain_event =
  ev_event_name :: string
  ev_trace_id :: "uuid option"
  ev_payload :: payload

record worker =
  wk_ledger :: ledger
  wk_store :: pipeline_store
  wk_latest :: "(string, market_snapshot) dict"
  wk_cache :: "(string \<times> int, market_snapshot) dict"
  wk_bus :: "domain_event bus"
  wk_uuids :: nat
  wk_publications :: nat
  wk_venue_calls :: nat

record worker_env =
  we_ledger :: ledger_env
  we_uuid4 :: "nat \<Rightarrow> uuid"
  we_intent_id :: "uuid \<Rightarrow> uuid"
  we_digest :: "json \<Rightarrow> string"
  we_uuid5 :: "string \<Rightarrow> uuid"
  we_operating_mode :: operating_mode
  we_strategy_id :: string
  we_strategy_version :: string
  we_watchlist :: "string list"
  we_starting_balance :: decimal
  we_cycle_interval_seconds :: int
  we_policy :: risk_policy
  we_source :: "string \<Rightarrow> instant \<Rightarrow> int \<Rightarrow> exn + market_snapshot"
  we_executor :: "string \<Rightarrow> (nat \<Rightarrow> order_intent \<Rightarrow> market_snapshot \<Rightarrow> exn + execution_report list) option"
  we_publish_ok :: "nat \<Rightarrow> bool"
  we_max_deliveries :: nat
  we_claim_idle_ms :: int
  we_batch_size :: nat

type_synonym 'a worker_prog = "(worker, exn, 'a) prog"

definition on_ledger :: "'a ledger_prog \<Rightarrow> 'a worker_prog" where
  "on_ledger m = zoom wk_ledger (\<lambda>x w. w\<lparr>wk_ledger := x\<rparr>) m"

definition on_pipeline :: "'a store_prog \<Rightarrow> 'a worker_prog" where
  "on_pipeline m = zoom wk_store (\<lambda>x w. w\<lparr>wk_store := x\<rparr>) m"

definition on_bus :: "(domain_event, 'a) bus_prog \<Rightarrow> 'a worker_prog" where
  "on_bus m = zoom wk_bus (\<lambda>x w. w\<lparr>wk_bus := x\<rparr>) m"

definition exec_of :: "worker \<Rightarrow> exec_store" where
  "exec_of w = lg_exec (wk_ledger w)"

definition worker_now :: "worker_env \<Rightarrow> instant worker_prog" where
  "worker_now env = on_ledger (ledger_now (we_ledger env))"

definition worker_uuid4 :: "worker_env \<Rightarrow> uuid worker_prog" where
  "worker_uuid4 env = (\<lambda>w. (Inr (we_uuid4 env (wk_uuids w)), w\<lparr>wk_uuids := wk_uuids w + 1\<rparr>))"

text \<open>Every call of the order applier reads the clock once.\<close>

definition applies :: "worker_env \<Rightarrow> (instant \<Rightarrow> (exec_store, exn, 'a) prog) \<Rightarrow> 'a worker_prog" where
  "applies env m = seq (worker_now env) (\<lambda>now. on_ledger (on_exec (m now)))"

definition publish_event :: "worker_env \<Rightarrow> domain_event \<Rightarrow> unit worker_prog" where
  "publish_event env e =
     seq (reads wk_publications) (\<lambda>n.
     seq (modify (\<lambda>w. w\<lparr>wk_publications := wk_publications w + 1\<rparr>)) (\<lambda>_.
     seq (guard (we_publish_ok env n) (RuntimeError ''BusUnavailableError'')) (\<lambda>_.
     seq (on_bus (publish e)) (\<lambda>_. ret ()))))"

definition snapshot_for :: "worker_env \<Rightarrow> string \<Rightarrow> int \<Rightarrow> instant \<Rightarrow> market_snapshot worker_prog" where
  "snapshot_for env iid step now =
     seq (reads (\<lambda>w. map_of (wk_cache w) (iid, step))) (\<lambda>cached.
     case cached of
       Some s \<Rightarrow> ret s
     | None \<Rightarrow>
         seq (of_result (we_source env iid now step)) (\<lambda>s.
         seq (modify (\<lambda>w. w\<lparr>wk_cache := AList.update (iid, step) s (wk_cache w)\<rparr>)) (\<lambda>_. ret s)))"

definition last_snapshot :: "string \<Rightarrow> worker \<Rightarrow> market_snapshot option" where
  "last_snapshot iid w =
     (case map_of (wk_latest w) iid of
        Some s \<Rightarrow> Some s
      | None \<Rightarrow> map_option snd (find (\<lambda>x. fst (fst x) = iid) (rev (wk_cache w))))"

definition make_event :: "string \<Rightarrow> payload \<Rightarrow> uuid \<Rightarrow> domain_event" where
  "make_event name p trace_id = \<lparr>ev_event_name = name, ev_trace_id = Some trace_id, ev_payload = p\<rparr>"

section \<open>Stage framework\<close>

record stage =
  sg_name :: pipeline_stage_name
  sg_consumes :: "string list"
  sg_process :: "uuid \<Rightarrow> domain_event \<Rightarrow> domain_event list worker_prog"

definition accepts :: "stage \<Rightarrow> string \<Rightarrow> bool" where
  "accepts s name \<longleftrightarrow> name \<in> set (sg_consumes s)"

definition next_attempt :: "uuid \<Rightarrow> pipeline_stage_name \<Rightarrow> worker \<Rightarrow> int" where
  "next_attempt trace_id name w = (case get_run trace_id name (wk_store w) of None \<Rightarrow> 1 | Some r \<Rightarrow> pr_attempt r + 1)"

definition record_run ::
    "worker_env \<Rightarrow> uuid \<Rightarrow> pipeline_stage_name \<Rightarrow> pipeline_status \<Rightarrow> int \<Rightarrow> instant \<Rightarrow> instant option \<Rightarrow> exn option \<Rightarrow> unit worker_prog" where
  "record_run env trace_id name status attempt started completed err =
     seq (worker_uuid4 env) (\<lambda>rid.
     seq (on_pipeline (save_run \<lparr>pr_run_id = rid, pr_trace_id = trace_id, pr_stage = name, pr_status = status, pr_attempt = attempt,
       pr_started_at = started, pr_completed_at = completed, pr_error = err\<rparr>)) (\<lambda>_. ret ()))"

definition handle_event :: "worker_env \<Rightarrow> stage \<Rightarrow> domain_event \<Rightarrow> domain_event list worker_prog" where
  "handle_event env s event =
     (case ev_trace_id event of
        None \<Rightarrow> ret []
      | Some trace_id \<Rightarrow>
          seq (reads (\<lambda>w. has_succeeded trace_id (sg_name s) (wk_store w))) (\<lambda>known.
          if known then ret []
          else seq (worker_now env) (\<lambda>started.
            seq (reads (next_attempt trace_id (sg_name s))) (\<lambda>attempt.
            seq (record_run env trace_id (sg_name s) PL_RUNNING attempt started None None) (\<lambda>_.
            seq (handle (sg_process s trace_id event) (\<lambda>e.
                   seq (worker_now env) (\<lambda>completed.
                   seq (record_run env trace_id (sg_name s) PL_FAILED attempt started (Some completed) (Some e)) (\<lambda>_.
                   raise e)))) (\<lambda>outputs.
            seq (for_each outputs (publish_event env)) (\<lambda>_.
            seq (worker_now env) (\<lambda>completed.
            seq (record_run env trace_id (sg_name s) PL_SUCCEEDED attempt started (Some completed) None) (\<lambda>_.
            ret outputs)))))))))"

section \<open>Lifecycle\<close>

fun is_stale_pipeline :: "exn \<Rightarrow> bool" where
  "is_stale_pipeline (StalePipelineStateError _ _ _) = True"
| "is_stale_pipeline _ = False"

definition lifecycle_transition ::
    "worker_env \<Rightarrow> uuid \<Rightarrow> trade_lifecycle_state \<Rightarrow> (trade_lifecycle \<Rightarrow> trade_lifecycle) \<Rightarrow> trade_lifecycle_state option \<Rightarrow>
     trade_lifecycle option worker_prog" where
  "lifecycle_transition env trace_id target upd required_from =
     seq (reads (\<lambda>w. get_lifecycle_by_trace trace_id (wk_store w))) (\<lambda>found.
     case found of
       None \<Rightarrow> ret None
     | Some l \<Rightarrow>
         if required_from \<noteq> None \<and> required_from \<noteq> Some (tl_state l) then ret None
         else if tl_state l = target then ret (Some l)
         else if \<not> is_valid_trade_transition (tl_state l) target then raise (InvalidTradeTransition (tl_state l) target)
         else seq (worker_now env) (\<lambda>now.
           handle (seq (on_pipeline (update_lifecycle
               (upd (l\<lparr>tl_state := target, tl_version := tl_version l + 1, tl_updated_at := now\<rparr>)) (tl_version l))) (\<lambda>u. ret (Some u)))
             (\<lambda>e. if is_stale_pipeline e then ret None else raise e)))"

primrec transition_chain ::
    "worker_env \<Rightarrow> uuid \<Rightarrow> trade_lifecycle_state list \<Rightarrow> (trade_lifecycle \<Rightarrow> trade_lifecycle) \<Rightarrow> trade_lifecycle option \<Rightarrow>
     trade_lifecycle option worker_prog" where
  "transition_chain env trace_id [] upd result = ret result"
| "transition_chain env trace_id (t # ts) upd result =
     seq (lifecycle_transition env trace_id t upd None) (\<lambda>r.
     if r = None then ret None else transition_chain env trace_id ts upd r)"

section \<open>Risk stage\<close>

definition strategy_configuration_of :: "worker_env \<Rightarrow> instant \<Rightarrow> strategy_configuration" where
  "strategy_configuration_of env at_time = \<lparr>sc_strategy_id = we_strategy_id env, sc_strategy_version = we_strategy_version env,
     sc_enabled = True, sc_state = SS_PAPER, sc_allowed_instruments = Some (we_watchlist env), sc_as_of = at_time\<rparr>"

definition pending_orders :: "worker \<Rightarrow> int" where
  "pending_orders w = int (length (filter (\<lambda>r. or_state r \<in> set live_order_states) (list_orders (exec_of w))))"

definition side_direction :: "position_side \<Rightarrow> signal_direction" where
  "side_direction s = (case s of PS_LONG \<Rightarrow> SD_LONG | PS_SHORT \<Rightarrow> SD_SHORT | PS_FLAT \<Rightarrow> SD_FLAT)"

definition is_close :: "ledger \<Rightarrow> trade_proposal \<Rightarrow> bool" where
  "is_close l p = (case position (tp_instrument_id p) l of None \<Rightarrow> False | Some q \<Rightarrow> tp_direction p \<noteq> side_direction (lp_side q))"

primrec exit_exposure :: "worker_env \<Rightarrow> position_snapshot list \<Rightarrow> portfolio_exposure \<Rightarrow> exn + portfolio_exposure" where
  "exit_exposure env [] e = Inr e"
| "exit_exposure env (p # ps) e =
     (let mark = (case pos_mark_price p of None \<Rightarrow> pos_average_entry_price p | Some m \<Rightarrow> if m = 0 then pos_average_entry_price p else m);
          notional = dmul (pos_quantity p) mark
      in case map_of (le_instruments (we_ledger env)) (pos_instrument_id p) of
        None \<Rightarrow> Inl (KeyError (pos_instrument_id p))
      | Some i \<Rightarrow>
          let quote = currency_text (ins_quote_currency i);
              signed = dmul (if pos_side p = PS_LONG then 1 else - 1) notional
          in exit_exposure env ps (e\<lparr>
            pe_total_notional := dadd (pe_total_notional e) notional,
            pe_by_instrument := AList.update (pos_instrument_id p) notional (pe_by_instrument e),
            pe_net_by_currency := AList.update quote (dadd (get_or (pe_net_by_currency e) quote 0) signed) (pe_net_by_currency e)\<rparr>))"

definition post_exit_portfolio :: "worker_env \<Rightarrow> portfolio_state \<Rightarrow> trade_proposal \<Rightarrow> exn + portfolio_state" where
  "post_exit_portfolio env pf p =
     (let remaining = filter (\<lambda>q. pos_instrument_id q \<noteq> tp_instrument_id p) (pf_positions pf) in
      rbind (exit_exposure env remaining
        \<lparr>pe_total_notional = 0, pe_by_instrument = [], pe_by_asset_class = [], pe_net_by_currency = []\<rparr>) (\<lambda>e.
      let s = pf\<lparr>pf_positions := remaining, pf_exposure := e\<rparr>
      in if valid_portfolio_exposure e \<and> valid_portfolio_state s then Inr s else Inl (ValueError ''PortfolioState'')))"

definition risk_event_name :: "risk_decision_type \<Rightarrow> string" where
  "risk_event_name t = (case t of RD_APPROVE \<Rightarrow> ''risk.approved'' | RD_RESIZE \<Rightarrow> ''risk.resized'' | RD_REJECT \<Rightarrow> ''risk.rejected'')"

text \<open>
  The inputs of the risk engine. The engine is the option-valued \<open>evaluate_proposal\<close>; the branch for a sizing loop that does not end is
  never taken for an instrument that satisfies its contract.
\<close>

definition risk_inputs_of :: "worker_env \<Rightarrow> trade_proposal \<Rightarrow> worker \<Rightarrow> instant \<Rightarrow> exn + risk_inputs" where
  "risk_inputs_of env p w now =
     (case get_account (le_account_id (we_ledger env)) (wk_store w) of
        None \<Rightarrow> Inl (ValueError ''paper account not initialized'')
      | Some account \<Rightarrow>
          let snapshot = last_snapshot (tp_instrument_id p) w;
              ms = (case snapshot of None \<Rightarrow> [] | Some s \<Rightarrow> ledger_marks [(tp_instrument_id p, s)]);
              at_time = (case snapshot of None \<Rightarrow> now | Some s \<Rightarrow> ms_as_of s)
          in rbind (ledger_portfolio_state (we_ledger env) account ms (pending_orders w) at_time (wk_ledger w)) (\<lambda>pf.
             rbind (if is_close (wk_ledger w) p then post_exit_portfolio env pf p else Inr pf) (\<lambda>pf'.
             rbind (ledger_account_state account at_time) (\<lambda>a.
             case map_of (le_instruments (we_ledger env)) (tp_instrument_id p) of
               None \<Rightarrow> Inl (KeyError (tp_instrument_id p))
             | Some i \<Rightarrow> Inr \<lparr>ri_proposal = p, ri_account = a, ri_portfolio = pf', ri_snapshot = snapshot,
                 ri_strategy = strategy_configuration_of env at_time, ri_policy = we_policy env, ri_instrument = i\<rparr>))))"

definition risk_process :: "worker_env \<Rightarrow> uuid \<Rightarrow> domain_event \<Rightarrow> domain_event list worker_prog" where
  "risk_process env trace_id event =
     (case ev_payload event of
        P_Proposal p \<Rightarrow>
          seq (worker_now env) (\<lambda>now.
          seq (reads (\<lambda>w. risk_inputs_of env p w now)) (\<lambda>inputs.
          seq (of_result inputs) (\<lambda>x.
          seq (found_or (RuntimeError ''sizing loop'') (evaluate_proposal (we_digest env) (we_uuid5 env) x)) (\<lambda>result.
          seq (of_result result) (\<lambda>d.
          seq (on_pipeline (save_context_fragment trace_id ''risk_decision'' [] (tp_instrument_id p) now)) (\<lambda>_.
          seq (lifecycle_transition env trace_id (if rd_decision d = RD_REJECT then TL_RISK_REJECTED else TL_RISK_APPROVED)
                 (\<lambda>l. l\<lparr>tl_risk_decision_id := Some (rd_decision_id d),
                        tl_error := (if rd_decision d = RD_REJECT then Some ''rejected'' else None)\<rparr>) None) (\<lambda>_.
          ret [make_event (risk_event_name (rd_decision d)) (P_Decision d) trace_id])))))))
      | _ \<Rightarrow> raise (ValueError ''TradeProposal''))"

section \<open>Order intent stage\<close>

definition intent_of ::
    "worker_env \<Rightarrow> risk_decision \<Rightarrow> trade_lifecycle \<Rightarrow> signal_direction \<Rightarrow> decimal \<Rightarrow> instant \<Rightarrow> uuid \<Rightarrow> order_intent" where
  "intent_of env d l direction units now trace_id =
     \<lparr>oi_order_intent_id = we_intent_id env (rd_decision_id d), oi_risk_decision_id = rd_decision_id d,
      oi_proposal_id = Some (rd_proposal_id d), oi_strategy_id = tl_strategy_id l, oi_strategy_version = tl_strategy_version l,
      oi_instrument_id = tl_instrument_id l, oi_operating_mode = we_operating_mode env,
      oi_side = (if direction = SD_LONG then BUY else SELL), oi_order_type = MARKET, oi_time_in_force = GTC, oi_quantity = units,
      oi_price = None, oi_stop_loss = rd_approved_stop d, oi_take_profit = tl_take_profit l,
      oi_max_slippage = rp_max_slippage_relative (we_policy env), oi_sequence = 0,
      oi_valid_until = Some (now + seconds (we_cycle_interval_seconds env)), oi_created_by = ''apps.worker.order-intent'',
      oi_trace_id = Some trace_id, oi_produced_at = now\<rparr>"

text \<open>An exit is never sized beyond the open position.\<close>

definition intent_units :: "decimal \<Rightarrow> instrument \<Rightarrow> ledger_position option \<Rightarrow> signal_direction \<Rightarrow> exn + decimal" where
  "intent_units quantity i current direction =
     (let units = dmul quantity (ins_contract_size i) in
      case current of
        None \<Rightarrow> Inr units
      | Some p \<Rightarrow>
          if side_direction (lp_side p) = direction then Inr units
          else let units' = min units (lp_quantity p)
               in if units' \<le> 0 then Inl (ValueError ''close order cannot be sized below one unit'') else Inr units')"

definition order_intent_process :: "worker_env \<Rightarrow> uuid \<Rightarrow> domain_event \<Rightarrow> domain_event list worker_prog" where
  "order_intent_process env trace_id event =
     (case ev_payload event of
        P_Decision d \<Rightarrow>
          if rd_decision d = RD_REJECT then ret []
          else seq (worker_now env) (\<lambda>now.
            let oid = we_intent_id env (rd_decision_id d) in
            seq (reads (\<lambda>w. get_order oid (exec_of w))) (\<lambda>existing.
            if existing \<noteq> None then ret []
            else seq (reads (\<lambda>w. get_lifecycle_by_trace trace_id (wk_store w))) (\<lambda>found.
              seq (found_or (ValueError ''no lifecycle for trace'') found) (\<lambda>l.
              seq (found_or (ValueError ''lifecycle has no direction'') (tl_direction l)) (\<lambda>direction.
              seq (found_or (ValueError ''approved risk decision requires approved quantity and stop'')
                (if rd_approved_stop d = None then None else rd_approved_quantity d)) (\<lambda>quantity.
              seq (found_or (KeyError (tl_instrument_id l)) (map_of (le_instruments (we_ledger env)) (tl_instrument_id l))) (\<lambda>i.
              seq (reads (\<lambda>w. position (tl_instrument_id l) (wk_ledger w))) (\<lambda>current.
              seq (of_result (intent_units quantity i current direction)) (\<lambda>units.
              let intent = intent_of env d l direction units now trace_id in
              seq (guard (valid_order_intent intent) (ValueError ''OrderIntent'')) (\<lambda>_.
              seq (applies env (record_candidate oid (oi_strategy_id intent) (oi_strategy_version intent) (oi_instrument_id intent)
                (oi_side intent) MARKET (oi_quantity intent))) (\<lambda>_.
              seq (applies env (record_approved oid)) (\<lambda>_.
              seq (applies env (record_order_intent intent ''PAPER'')) (\<lambda>_.
              seq (on_pipeline (save_context_fragment trace_id ''order_intent'' [] (oi_instrument_id intent) now)) (\<lambda>_.
              seq (lifecycle_transition env trace_id TL_ORDER_CREATED (\<lambda>l. l\<lparr>tl_order_intent_id := Some oid\<rparr>) None) (\<lambda>_.
              ret [make_event ''order.intent.created'' (P_Intent intent) trace_id])))))))))))))))
      | _ \<Rightarrow> raise (ValueError ''RiskDecision''))"

section \<open>Execution stage\<close>

record report_loop =
  rl_events :: "domain_event list"
  rl_filled :: "execution_report option"
  rl_rejected :: bool

definition fill_event_of :: "execution_report \<Rightarrow> decimal \<Rightarrow> fill_event" where
  "fill_event_of r price = \<lparr>fe_event_id = Some (uuid_str (er_execution_report_id r)), fe_sequence = er_sequence r,
     fe_quantity = er_filled_quantity r, fe_price = price, fe_venue_order_id = er_venue_order_id r, fe_venue_position_id = None,
     fe_commission = er_commission r, fe_slippage = er_slippage r\<rparr>"

text \<open>One report of the venue; of several fills the last one is kept for the ledger.\<close>

definition apply_report :: "worker_env \<Rightarrow> uuid \<Rightarrow> order_intent \<Rightarrow> execution_report \<Rightarrow> report_loop \<Rightarrow> report_loop worker_prog" where
  "apply_report env trace_id intent r st =
     (let oid = oi_order_intent_id intent; event_id = uuid_str (er_execution_report_id r);
          emit = (\<lambda>name. rl_events st @ [make_event name (P_Report r) trace_id])
      in case er_status r of
        ES_SUBMITTED \<Rightarrow> ret (st\<lparr>rl_events := emit ''order.submitted''\<rparr>)
      | ES_ACKNOWLEDGED \<Rightarrow>
          seq (applies env (record_acknowledged oid (er_venue_order_id r) (Some event_id))) (\<lambda>_.
          ret (st\<lparr>rl_events := emit ''order.acknowledged''\<rparr>))
      | ES_REJECTED \<Rightarrow>
          seq (applies env (record_rejected oid (case er_reject_reason r of None \<Rightarrow> ''paper venue reject''
            | Some reason \<Rightarrow> if reason = [] then ''paper venue reject'' else reason) (Some event_id))) (\<lambda>_.
          ret (st\<lparr>rl_events := emit ''order.rejected'', rl_rejected := True\<rparr>))
      | ES_CANCELLED \<Rightarrow> ret st
      | _ \<Rightarrow>
          seq (found_or (ValueError ''fill report requires average_fill_price'') (er_average_fill_price r)) (\<lambda>price.
          seq (applies env (record_fill oid (fill_event_of r price))) (\<lambda>_.
          ret (st\<lparr>rl_events := emit ''order.filled'', rl_filled := Some r\<rparr>))))"

primrec apply_reports ::
    "worker_env \<Rightarrow> uuid \<Rightarrow> order_intent \<Rightarrow> execution_report list \<Rightarrow> report_loop \<Rightarrow> report_loop worker_prog" where
  "apply_reports env trace_id intent [] st = ret st"
| "apply_reports env trace_id intent (r # rs) st =
     seq (apply_report env trace_id intent r st) (\<lambda>st'. apply_reports env trace_id intent rs st')"

definition call_venue :: "worker_env \<Rightarrow> order_intent \<Rightarrow> market_snapshot \<Rightarrow> execution_report list worker_prog" where
  "call_venue env intent snapshot =
     seq (found_or (ValueError ''no paper executor'') (we_executor env (oi_instrument_id intent))) (\<lambda>submit.
     seq (reads wk_venue_calls) (\<lambda>n.
     seq (modify (\<lambda>w. w\<lparr>wk_venue_calls := wk_venue_calls w + 1\<rparr>)) (\<lambda>_.
     of_result (submit n intent snapshot))))"

definition set_levels :: "order_intent \<Rightarrow> unit worker_prog" where
  "set_levels intent = modify (\<lambda>w.
     case position (oi_instrument_id intent) (wk_ledger w) of
       None \<Rightarrow> w
     | Some p \<Rightarrow>
         if oi_stop_loss intent = None \<and> oi_take_profit intent = None then w
         else w\<lparr>wk_ledger := (wk_ledger w)\<lparr>lg_positions := AList.update (oi_instrument_id intent)
           (p\<lparr>lp_stop_loss := oi_stop_loss intent, lp_take_profit := oi_take_profit intent\<rparr>) (lg_positions (wk_ledger w))\<rparr>\<rparr>)"

text \<open>What happens after the venue has filled the order: the ledger, the lifecycle and the events.\<close>

definition settle_fill :: "worker_env \<Rightarrow> uuid \<Rightarrow> order_intent \<Rightarrow> execution_report \<Rightarrow> domain_event list \<Rightarrow> domain_event list worker_prog" where
  "settle_fill env trace_id intent filled events =
     seq (reads (\<lambda>w. get_order (oi_order_intent_id intent) (exec_of w))) (\<lambda>after.
     seq (if map_option or_state after = Some OS_FILLED
          then seq (applies env (record_closed (oi_order_intent_id intent) (Some ''paper fill applied''))) (\<lambda>_. ret ()) else ret ()) (\<lambda>_.
     seq (on_ledger (apply_fill (we_ledger env) filled intent)) (\<lambda>a.
     seq (if fa_outcome a = None \<and> fa_position a \<noteq> None then set_levels intent else ret ()) (\<lambda>_.
     seq (case fa_outcome a of
            None \<Rightarrow> ret events
          | Some t \<Rightarrow>
              seq (lifecycle_transition env trace_id TL_POSITION_CLOSED (\<lambda>l. l\<lparr>tl_trade_id := Some (to_trade_id t)\<rparr>) None) (\<lambda>_.
              ret (events @ [make_event ''trade.closed'' (P_Outcome t) trace_id]))) (\<lambda>events'.
     case fa_position a of
       None \<Rightarrow> ret events'
     | Some s \<Rightarrow>
         seq (if fa_outcome a = None
              then seq (lifecycle_transition env trace_id TL_POSITION_OPEN (\<lambda>l. l\<lparr>tl_position_id := Some (pos_position_id s)\<rparr>) None) (\<lambda>_. ret ())
              else ret ()) (\<lambda>_.
         ret (events' @ [make_event ''position.updated'' (P_Position s) trace_id])))))))"

definition execution_process :: "worker_env \<Rightarrow> uuid \<Rightarrow> domain_event \<Rightarrow> domain_event list worker_prog" where
  "execution_process env trace_id event =
     (case ev_payload event of
        P_Intent intent \<Rightarrow>
          seq (guard (we_operating_mode env = OM_PAPER) (RuntimeError ''execution stage refuses mode'')) (\<lambda>_.
          seq (reads (\<lambda>w. get_order (oi_order_intent_id intent) (exec_of w))) (\<lambda>record.
          if map_option or_state record \<notin> {None, Some OS_ORDER_INTENT} then ret []
          else seq (applies env (record_submitted (oi_order_intent_id intent))) (\<lambda>_.
            seq (reads (last_snapshot (oi_instrument_id intent))) (\<lambda>found.
            seq (found_or (ValueError ''no snapshot at execution time'') found) (\<lambda>snapshot.
            seq (call_venue env intent snapshot) (\<lambda>reports.
            seq (apply_reports env trace_id intent reports \<lparr>rl_events = [], rl_filled = None, rl_rejected = False\<rparr>) (\<lambda>st.
            if rl_rejected st then
              seq (lifecycle_transition env trace_id TL_ORDER_REJECTED (\<lambda>l. l\<lparr>tl_error := Some ''paper venue rejected the order''\<rparr>) None)
                (\<lambda>_. ret (rl_events st))
            else case rl_filled st of
              None \<Rightarrow> raise (RuntimeError ''paper venue returned no terminal report'')
            | Some filled \<Rightarrow> settle_fill env trace_id intent filled (rl_events st))))))))
      | _ \<Rightarrow> raise (ValueError ''OrderIntent''))"

section \<open>Positions stage\<close>

definition in_flight_order_states :: "order_state list" where
  "in_flight_order_states = live_order_states @ [OS_CANDIDATE, OS_APPROVED, OS_ORDER_INTENT]"

definition close_chain_lifecycle_states :: "trade_lifecycle_state list" where
  "close_chain_lifecycle_states = [TL_PROPOSED, TL_RISK_APPROVED, TL_ORDER_CREATED]"

definition close_in_flight :: "string \<Rightarrow> worker \<Rightarrow> bool" where
  "close_in_flight iid w \<longleftrightarrow>
     list_ex (\<lambda>r. or_instrument_id r = iid \<and> or_state r \<in> set in_flight_order_states) (list_orders (exec_of w)) \<or>
     list_ex (\<lambda>l. tl_instrument_id l = iid \<and> tl_state l \<in> set close_chain_lifecycle_states) (list_lifecycles (wk_store w))"

primrec reattach :: "trade_lifecycle list \<Rightarrow> (string, ledger_position) dict \<Rightarrow> (string, ledger_position) dict" where
  "reattach [] d = d"
| "reattach (l # ls) d = reattach ls
     (if tl_state l \<noteq> TL_POSITION_OPEN \<or> tl_position_id l = None then d
      else case map_of d (tl_instrument_id l) of
        None \<Rightarrow> d
      | Some p \<Rightarrow> AList.update (tl_instrument_id l)
          (p\<lparr>lp_stop_loss := (if lp_stop_loss p = None then tl_stop_loss l else lp_stop_loss p),
             lp_take_profit := (if lp_take_profit p = None then tl_take_profit l else lp_take_profit p)\<rparr>) d)"

definition reattach_stop_levels :: "unit worker_prog" where
  "reattach_stop_levels = modify (\<lambda>w. w\<lparr>wk_ledger := (wk_ledger w)\<lparr>lg_positions :=
     reattach (list_lifecycles (wk_store w)) (lg_positions (wk_ledger w))\<rparr>\<rparr>)"

definition level_crossed :: "ledger_position \<Rightarrow> decimal \<Rightarrow> bool" where
  "level_crossed p mark \<longleftrightarrow>
     (if lp_side p = PS_LONG
      then (case lp_stop_loss p of None \<Rightarrow> False | Some s \<Rightarrow> mark \<le> s) \<or> (case lp_take_profit p of None \<Rightarrow> False | Some t \<Rightarrow> t \<le> mark)
      else (case lp_stop_loss p of None \<Rightarrow> False | Some s \<Rightarrow> s \<le> mark) \<or> (case lp_take_profit p of None \<Rightarrow> False | Some t \<Rightarrow> mark \<le> t))"

definition close_proposal ::
    "worker_env \<Rightarrow> instrument \<Rightarrow> ledger_position \<Rightarrow> decimal \<Rightarrow> uuid \<Rightarrow> instant \<Rightarrow> uuid \<Rightarrow> trade_proposal" where
  "close_proposal env i p mark pid now trace_id =
     \<lparr>tp_proposal_id = pid, tp_strategy_id = we_strategy_id env, tp_strategy_version = we_strategy_version env,
      tp_instrument_id = lp_instrument_id p, tp_operating_mode = we_operating_mode env,
      tp_direction = (if lp_side p = PS_LONG then SD_SHORT else SD_LONG), tp_order_type = MARKET, tp_time_in_force = GTC,
      tp_quantity = ddiv_nz (lp_quantity p) (ins_contract_size i), tp_limit_price = None,
      tp_stop_loss = Some (if lp_side p = PS_LONG then dadd mark (ins_tick_size i) else dsub mark (ins_tick_size i)),
      tp_take_profit = None, tp_rationale = ''SL/TP exit'', tp_expires_at = Some (now + seconds (we_cycle_interval_seconds env)),
      tp_trace_id = Some trace_id\<rparr>"

definition close_lifecycle ::
    "worker_env \<Rightarrow> trade_proposal \<Rightarrow> uuid \<Rightarrow> uuid \<Rightarrow> instant \<Rightarrow> trade_lifecycle" where
  "close_lifecycle env p lid trace_id now =
     \<lparr>tl_lifecycle_id = lid, tl_trace_id = trace_id, tl_proposal_id = Some (tp_proposal_id p), tl_strategy_id = we_strategy_id env,
      tl_strategy_version = we_strategy_version env, tl_instrument_id = tp_instrument_id p, tl_state = TL_PROPOSED, tl_version = 1,
      tl_direction = Some (tp_direction p), tl_risk_decision_id = None, tl_order_intent_id = None, tl_position_id = None,
      tl_trade_id = None, tl_stop_loss = None, tl_take_profit = None, tl_error = None, tl_created_at = now, tl_updated_at = now\<rparr>"

definition trigger_close :: "worker_env \<Rightarrow> string \<Rightarrow> ledger_position \<Rightarrow> decimal \<Rightarrow> domain_event list worker_prog" where
  "trigger_close env iid p mark =
     seq (worker_now env) (\<lambda>now.
     seq (worker_uuid4 env) (\<lambda>trace_id.
     seq (on_pipeline (save_context_fragment trace_id ''telemetry'' [] iid now)) (\<lambda>_.
     seq (found_or (KeyError iid) (map_of (le_instruments (we_ledger env)) iid)) (\<lambda>i.
     seq (worker_uuid4 env) (\<lambda>pid.
     let proposal = close_proposal env i p mark pid now trace_id in
     seq (guard (valid_trade_proposal proposal) (ValueError ''TradeProposal'')) (\<lambda>_.
     seq (worker_uuid4 env) (\<lambda>lid.
     seq (on_pipeline (save_lifecycle (close_lifecycle env proposal lid trace_id now))) (\<lambda>_.
     ret [make_event ''trade.proposal.created'' (P_Proposal proposal) trace_id]))))))))"

definition positions_process :: "worker_env \<Rightarrow> uuid \<Rightarrow> domain_event \<Rightarrow> domain_event list worker_prog" where
  "positions_process env trace_id event =
     (case ev_payload event of
        P_Snapshot snapshot \<Rightarrow>
          let iid = ms_instrument_id snapshot in
          seq (modify (\<lambda>w. w\<lparr>wk_latest := AList.update iid snapshot (wk_latest w)\<rparr>)) (\<lambda>_.
          seq reattach_stop_levels (\<lambda>_.
          seq (reads (\<lambda>w. position iid (wk_ledger w))) (\<lambda>found.
          case found of
            None \<Rightarrow> ret []
          | Some p \<Rightarrow>
              seq (on_ledger (record_mark snapshot)) (\<lambda>_.
              seq (reads (close_in_flight iid)) (\<lambda>busy.
              if busy \<or> \<not> level_crossed p (ms_mid snapshot) then ret []
              else trigger_close env iid p (ms_mid snapshot))))))
      | _ \<Rightarrow> raise (ValueError ''MarketSnapshot''))"

section \<open>Accounting stage\<close>

text \<open>The calendar day of an instant, in UTC.\<close>

definition utc_date :: "instant \<Rightarrow> int" where
  "utc_date t = t div day_micros"

definition account_mark :: "worker \<Rightarrow> ledger_position \<Rightarrow> decimal" where
  "account_mark w p = (case last_snapshot (lp_instrument_id p) w of None \<Rightarrow> lp_average_entry_price p | Some s \<Rightarrow> ms_mid s)"

primrec account_unrealized :: "worker_env \<Rightarrow> worker \<Rightarrow> ledger_position list \<Rightarrow> decimal \<Rightarrow> exn + decimal" where
  "account_unrealized env w [] amount = Inr amount"
| "account_unrealized env w (p # ps) amount =
     (let mark = account_mark w p in
      case map_of (le_instruments (we_ledger env)) (lp_instrument_id p) of
        None \<Rightarrow> Inl (KeyError (lp_instrument_id p))
      | Some i \<Rightarrow>
          let delta = dsub mark (lp_average_entry_price p);
              delta = (if lp_side p = PS_SHORT then dneg delta else delta);
              pnl = dmul delta (lp_quantity p);
              currency = le_currency (we_ledger env)
          in account_unrealized env w ps
            (if currency_text (ins_quote_currency i) = currency then dadd amount pnl
             else if currency_text (ins_base_currency i) = currency \<and> 0 < mark then dadd amount (ddiv_nz pnl mark)
             else amount))"

definition apply_outcome :: "worker_env \<Rightarrow> paper_account_record \<Rightarrow> trade_outcome \<Rightarrow> instant \<Rightarrow> decimal \<Rightarrow> paper_account_record" where
  "apply_outcome env account t now open_pnl =
     (let net = dsub (to_realized_pnl t) (to_costs t);
          realized = dadd (pa_realized_pnl account) net;
          balance = dadd (we_starting_balance env) realized;
          equity = dadd balance open_pnl
      in account\<lparr>pa_balance := balance, pa_equity := equity, pa_realized_pnl := realized,
           pa_daily_pnl := (if utc_date (pa_updated_at account) = utc_date now then dadd (pa_daily_pnl account) net else net),
           pa_peak_equity := max (pa_peak_equity account) equity,
           pa_consecutive_losses := (if net < 0 then pa_consecutive_losses account + 1 else if 0 < net then 0 else pa_consecutive_losses account),
           pa_last_loss_at := (if net < 0 then Some now else pa_last_loss_at account),
           pa_version := pa_version account + 1, pa_updated_at := now\<rparr>)"

definition refresh_equity :: "paper_account_record \<Rightarrow> instant \<Rightarrow> decimal \<Rightarrow> paper_account_record" where
  "refresh_equity account now open_pnl =
     (let equity = dadd (pa_balance account) open_pnl in
      account\<lparr>pa_equity := equity, pa_peak_equity := max (pa_peak_equity account) equity,
        pa_version := pa_version account + 1, pa_updated_at := now\<rparr>)"

definition accounting_process :: "worker_env \<Rightarrow> uuid \<Rightarrow> domain_event \<Rightarrow> domain_event list worker_prog" where
  "accounting_process env trace_id event =
     seq (reads (\<lambda>w. get_account (le_account_id (we_ledger env)) (wk_store w))) (\<lambda>found.
     seq (found_or (ValueError ''paper account not initialized'') found) (\<lambda>account.
     seq (worker_now env) (\<lambda>now.
     seq (reads (\<lambda>w. account_unrealized env w (open_positions (wk_ledger w)) 0)) (\<lambda>open_pnl.
     seq (if ev_event_name event = ''trade.closed''
          then (case ev_payload event of
                  P_Outcome t \<Rightarrow> seq (of_result open_pnl) (\<lambda>u. ret (apply_outcome env account t now u))
                | _ \<Rightarrow> raise (ValueError ''TradeOutcome''))
          else seq (of_result open_pnl) (\<lambda>u. ret (refresh_equity account now u))) (\<lambda>account'.
     seq (on_pipeline (upsert_account account' (Some (pa_version account' - 1)))) (\<lambda>_.
     seq (on_pipeline (save_context_fragment trace_id ''portfolio_snapshot'' [] (le_account_id (we_ledger env)) now)) (\<lambda>_.
     ret [])))))))"

section \<open>The stages\<close>

definition risk_stage :: "worker_env \<Rightarrow> stage" where
  "risk_stage env = \<lparr>sg_name = PS_RISK, sg_consumes = [''trade.proposal.created''], sg_process = risk_process env\<rparr>"

definition order_intent_stage :: "worker_env \<Rightarrow> stage" where
  "order_intent_stage env = \<lparr>sg_name = PS_ORDER_INTENT, sg_consumes = [''risk.approved'', ''risk.resized''], sg_process = order_intent_process env\<rparr>"

definition execution_stage :: "worker_env \<Rightarrow> stage" where
  "execution_stage env = \<lparr>sg_name = PS_EXECUTION, sg_consumes = [''order.intent.created''], sg_process = execution_process env\<rparr>"

definition positions_stage :: "worker_env \<Rightarrow> stage" where
  "positions_stage env = \<lparr>sg_name = PS_POSITIONS, sg_consumes = [''market.snapshot.created''], sg_process = positions_process env\<rparr>"

definition accounting_stage :: "worker_env \<Rightarrow> stage" where
  "accounting_stage env = \<lparr>sg_name = PS_ACCOUNTING, sg_consumes = [''trade.closed'', ''position.updated''], sg_process = accounting_process env\<rparr>"

end
