(* ===== verification/Worker_Pipeline.thy ===== *)
theory Worker_Pipeline
  imports Worker_Stages
begin

text \<open>
  The worker loop of \<^verbatim>\<open>apps/worker/pipeline.py\<close>: a consumer group with its stages reclaims what a crashed worker
  left behind, archives poisoned messages, dispatches new ones, and acknowledges a message when every stage that consumes it has returned.

  The locale \<open>pipeline_stage\<close> states what the framework needs of a stage, that its own logic neither touches the stream nor the
  run records, and proves idempotency once; it is interpreted for the five stages.
\<close>

section \<open>Worker loop\<close>

record stage_worker =
  sw_group :: string
  sw_consumer :: string
  sw_stages :: "stage list"

definition bus_clock :: "worker_env \<Rightarrow> nat \<Rightarrow> instant" where
  "bus_clock env = le_clock (we_ledger env)"

definition worker_start :: "stage_worker \<Rightarrow> unit worker_prog" where
  "worker_start k = on_bus (ensure_group (sw_group k))"

definition archive_poisoned :: "worker_env \<Rightarrow> stage_worker \<Rightarrow> string \<Rightarrow> unit worker_prog" where
  "archive_poisoned env k mid =
     seq (on_bus (read_pending (sw_group k) (sw_consumer k) 100)) (\<lambda>ms.
     case find (\<lambda>m. sm_message_id m = mid) ms of
       None \<Rightarrow> ret ()
     | Some m \<Rightarrow> on_bus (dead_letter (sw_group k) m ''exceeded deliveries''))"

primrec recover_loop :: "worker_env \<Rightarrow> stage_worker \<Rightarrow> pending_message list \<Rightarrow> domain_event stream_message list \<Rightarrow> domain_event stream_message list worker_prog" where
  "recover_loop env k [] reclaimed = ret reclaimed"
| "recover_loop env k (p # ps) reclaimed =
     (if we_max_deliveries env < pm_delivery_count p
      then seq (archive_poisoned env k (pm_message_id p)) (\<lambda>_. recover_loop env k ps reclaimed)
      else if we_claim_idle_ms env \<le> pm_idle_ms p
      then seq (on_bus (claim_stale (bus_clock env) (sw_group k) (sw_consumer k) (we_claim_idle_ms env) (we_batch_size env))) (\<lambda>ms.
        recover_loop env k ps (reclaimed @ ms))
      else recover_loop env k ps reclaimed)"

definition recover :: "worker_env \<Rightarrow> stage_worker \<Rightarrow> domain_event stream_message list worker_prog" where
  "recover env k =
     seq (on_bus (pending (bus_clock env) (sw_group k) 100)) (\<lambda>ps. recover_loop env k ps [])"

definition worker_read_new :: "worker_env \<Rightarrow> stage_worker \<Rightarrow> domain_event stream_message list worker_prog" where
  "worker_read_new env k = on_bus (read_new (bus_clock env) (sw_group k) (sw_consumer k) (we_batch_size env))"

primrec run_stages :: "worker_env \<Rightarrow> stage list \<Rightarrow> domain_event \<Rightarrow> bool \<Rightarrow> bool worker_prog" where
  "run_stages env [] event matched = ret matched"
| "run_stages env (s # ss) event matched =
     (if \<not> accepts s (ev_event_name event) then run_stages env ss event matched
      else seq (handle_event env s event) (\<lambda>_. run_stages env ss event True))"

definition handle_message :: "worker_env \<Rightarrow> stage_worker \<Rightarrow> domain_event stream_message \<Rightarrow> bool worker_prog" where
  "handle_message env k m =
     seq (run_stages env (sw_stages k) (sm_event m) False) (\<lambda>matched.
     seq (on_bus (ack (sw_group k) (sm_message_id m))) (\<lambda>_. ret matched))"

primrec dispatch_messages :: "worker_env \<Rightarrow> stage_worker \<Rightarrow> domain_event stream_message list \<Rightarrow> nat \<Rightarrow> nat worker_prog" where
  "dispatch_messages env k [] n = ret n"
| "dispatch_messages env k (m # ms) n =
     seq (handle (seq (handle_message env k m) (\<lambda>_. ret (n + 1))) (\<lambda>_. ret n)) (\<lambda>n'. dispatch_messages env k ms n')"

definition run_iteration :: "worker_env \<Rightarrow> stage_worker \<Rightarrow> (nat \<times> nat) worker_prog" where
  "run_iteration env k =
     seq (recover env k) (\<lambda>reclaimed.
     seq (worker_read_new env k) (\<lambda>new.
     seq (dispatch_messages env k (reclaimed @ new) 0) (\<lambda>n. ret (length reclaimed, n))))"

text \<open>Synchronous dispatch of one event to the stages that consume it.\<close>

primrec dispatch_event :: "worker_env \<Rightarrow> stage list \<Rightarrow> domain_event \<Rightarrow> domain_event list worker_prog" where
  "dispatch_event env [] event = ret []"
| "dispatch_event env (s # ss) event =
     (if \<not> accepts s (ev_event_name event) then dispatch_event env ss event
      else seq (handle_event env s event) (\<lambda>out. seq (dispatch_event env ss event) (\<lambda>rest. ret (out @ rest))))"

section \<open>What a stage leaves alone\<close>

definition still ::
    "domain_event bus \<Rightarrow> (uuid \<times> pipeline_stage_name, pipeline_run_record) dict \<Rightarrow> (string, paper_account_record) dict \<Rightarrow> worker \<Rightarrow> bool" where
  "still b runs accs w \<longleftrightarrow> wk_bus w = b \<and> ps_runs (wk_store w) = runs \<and> ps_accounts (wk_store w) = accs"

definition stage_quiet :: "domain_event bus \<Rightarrow> (uuid \<times> pipeline_stage_name, pipeline_run_record) dict \<Rightarrow> worker \<Rightarrow> bool" where
  "stage_quiet b runs w \<longleftrightarrow> wk_bus w = b \<and> ps_runs (wk_store w) = runs"

named_theorems stage_inv \<open>programs of the stages that keep the stream and the run records\<close>

lemma still_ledger [stage_inv]: "keeps (still b runs accs) (on_ledger m)"
  unfolding on_ledger_def by (rule zoom_keeps) (simp add: still_def)

lemma still_now [stage_inv]: "keeps (still b runs accs) (worker_now env)"
  unfolding worker_now_def by (rule still_ledger)

lemma still_applies [stage_inv]: "keeps (still b runs accs) (applies env m)"
  unfolding applies_def by (intro ot_inv stage_inv)

lemma still_uuid4 [stage_inv]: "keeps (still b runs accs) (worker_uuid4 env)"
  by (simp add: keeps_def worker_uuid4_def still_def)

lemma still_found [stage_inv]: "keeps P (found_or e v)" "keeps P (of_result r)"
  by (simp_all add: found_or_def of_result_def keeps_def split: option.split sum.split)

lemma still_store:
  assumes "\<And>s. ps_runs (snd (m s)) = ps_runs s" and "\<And>s. ps_accounts (snd (m s)) = ps_accounts s"
  shows "keeps (still b runs accs) (on_pipeline m)"
proof (rule keepsI)
  fix w assume "still b runs accs w"
  then show "still b runs accs (snd (on_pipeline m w))"
    using assms [of "wk_store w"] by (cases "m (wk_store w)") (simp add: still_def on_pipeline_def zoom_def)
qed

lemma still_store_ops [stage_inv]:
  "keeps (still b runs accs) (on_pipeline (save_context_fragment t key payload iid now))"
  "keeps (still b runs accs) (on_pipeline (save_lifecycle l))"
  "keeps (still b runs accs) (on_pipeline (update_lifecycle l v))"
  by (rule still_store; simp add: save_context_fragment_def save_lifecycle_def update_lifecycle_def
      split: option.split)+

lemma still_lifecycle [stage_inv]: "keeps (still b runs accs) (lifecycle_transition env t target f r)"
  unfolding lifecycle_transition_def by (intro ot_inv stage_inv)

lemma still_risk: "keeps (still b runs accs) (risk_process env t e)"
  unfolding risk_process_def by (cases "ev_payload e") (auto intro!: ot_inv stage_inv)

lemma still_order_intent: "keeps (still b runs accs) (order_intent_process env t e)"
  unfolding order_intent_process_def Let_def by (cases "ev_payload e") (auto intro!: ot_inv stage_inv)

lemma still_report [stage_inv]: "keeps (still b runs accs) (apply_report env t i r st)"
  unfolding apply_report_def Let_def by (cases "er_status r") (auto intro!: ot_inv stage_inv)

lemma still_reports [stage_inv]: "keeps (still b runs accs) (apply_reports env t i rs st)"
  by (induction rs arbitrary: st) (auto intro!: ot_inv stage_inv)

lemma still_venue [stage_inv]: "keeps (still b runs accs) (call_venue env i s)"
  unfolding call_venue_def by (intro ot_inv stage_inv keeps_modify) (simp add: still_def)

lemma still_levels [stage_inv]: "keeps (still b runs accs) (set_levels i)"
  unfolding set_levels_def by (rule keeps_modify) (simp add: still_def split: option.split)

lemma still_settle [stage_inv]: "keeps (still b runs accs) (settle_fill env t i r es)"
  unfolding settle_fill_def by (auto intro!: ot_inv stage_inv split: option.split)

lemma still_execution: "keeps (still b runs accs) (execution_process env t e)"
  unfolding execution_process_def by (cases "ev_payload e") (auto intro!: ot_inv stage_inv split: option.split)

lemma still_positions: "keeps (still b runs accs) (positions_process env t e)"
proof -
  have "keeps (still b runs accs) reattach_stop_levels"
    unfolding reattach_stop_levels_def by (rule keeps_modify) (simp add: still_def)
  moreover have "keeps (still b runs accs) (trigger_close env iid p mark)" for iid p mark
    unfolding trigger_close_def Let_def by (intro ot_inv stage_inv)
  moreover have "keeps (still b runs accs) (modify (\<lambda>w. w\<lparr>wk_latest := f w\<rparr>))" for f
    by (rule keeps_modify) (simp add: still_def)
  ultimately show ?thesis
    unfolding positions_process_def Let_def by (cases "ev_payload e") (auto intro!: ot_inv stage_inv split: option.split)
qed

text \<open>The accounting stage writes the account; the others leave it alone too.\<close>

lemma quiet_still:
  assumes "\<And>accs. keeps (still b runs accs) m"
  shows "keeps (stage_quiet b runs) m"
proof (rule keepsI)
  fix w assume "stage_quiet b runs w"
  then have "still b runs (ps_accounts (wk_store w)) w" by (simp add: still_def stage_quiet_def)
  then show "stage_quiet b runs (snd (m w))" using keepsD [OF assms] by (auto simp: still_def stage_quiet_def)
qed

lemma quiet_accounting: "keeps (stage_quiet b runs) (accounting_process env t e)"
proof -
  have u: "keeps (stage_quiet b runs) (on_pipeline (upsert_account a v))" for a v
  proof (rule keepsI)
    fix w assume "stage_quiet b runs w"
    moreover have "ps_runs (snd (upsert_account a v (wk_store w))) = ps_runs (wk_store w)"
      by (simp add: upsert_account_def Let_def split: option.split)
    ultimately show "stage_quiet b runs (snd (on_pipeline (upsert_account a v) w))"
      by (cases "upsert_account a v (wk_store w)") (simp add: stage_quiet_def on_pipeline_def zoom_def)
  qed
  show ?thesis
    unfolding accounting_process_def
    by (cases "ev_payload e") (auto intro!: ot_inv u quiet_still [OF still_now] quiet_still [OF still_store_ops(1)] still_found)
qed

section \<open>Idempotency of a stage\<close>

definition succeeded :: "uuid \<Rightarrow> pipeline_stage_name \<Rightarrow> worker \<Rightarrow> bool" where
  "succeeded t n w \<longleftrightarrow> has_succeeded t n (wk_store w)"

definition run_status :: "uuid \<Rightarrow> pipeline_stage_name \<Rightarrow> worker \<Rightarrow> pipeline_status option" where
  "run_status t n w = map_option pr_status (get_run t n (wk_store w))"

lemma succeeded_status: "succeeded t n w \<longleftrightarrow> run_status t n w = Some PL_SUCCEEDED"
  by (auto simp: succeeded_def run_status_def has_succeeded_def split: option.splits)

lemma quiet_status: "stage_quiet (wk_bus w) (ps_runs (wk_store w)) w' \<Longrightarrow> run_status t n w' = run_status t n w"
  by (simp add: stage_quiet_def run_status_def get_run_def)

lemma quiet_refl: "stage_quiet (wk_bus w) (ps_runs (wk_store w)) w"
  by (simp add: stage_quiet_def)

lemma worker_now_returns: "worker_now env w = (Inr (le_clock (we_ledger env) (lg_ticks (wk_ledger w))), w\<lparr>wk_ledger := (wk_ledger w)\<lparr>lg_ticks := lg_ticks (wk_ledger w) + 1\<rparr>\<rparr>)"
  by (simp add: worker_now_def on_ledger_def zoom_def ledger_now_def)

text \<open>What the bookkeeping of the framework leaves alone.\<close>

definition frame :: "worker \<Rightarrow> worker \<Rightarrow> bool" where
  "frame w w' \<longleftrightarrow> wk_bus w' = wk_bus w \<and> exec_of w' = exec_of w \<and> lg_positions (wk_ledger w') = lg_positions (wk_ledger w) \<and>
     lg_outcomes (wk_ledger w') = lg_outcomes (wk_ledger w) \<and>
     ps_accounts (wk_store w') = ps_accounts (wk_store w) \<and> ps_lifecycles (wk_store w') = ps_lifecycles (wk_store w) \<and>
     ps_by_trace (wk_store w') = ps_by_trace (wk_store w) \<and> wk_latest w' = wk_latest w \<and> wk_cache w' = wk_cache w"

lemma frame_trans: "frame w w1 \<Longrightarrow> frame w1 w2 \<Longrightarrow> frame w w2"
  by (simp add: frame_def)

lemma frame_now: "worker_now env w = (r, w') \<Longrightarrow> frame w w' \<and> run_status t n w' = run_status t n w"
  by (auto simp: worker_now_returns frame_def exec_of_def run_status_def)

lemma record_run_returns:
  "\<exists>w'. record_run env t n st a started completed err w = (Inr (), w') \<and> frame w w' \<and>
     (\<forall>t' n'. run_status t' n' w' = (if (t', n') = (t, n) \<and> run_status t n w \<notin> {Some PL_SUCCEEDED, Some PL_SKIPPED}
        then Some st else run_status t' n' w))"
proof -
  let ?r = "\<lparr>pr_run_id = we_uuid4 env (wk_uuids w), pr_trace_id = t, pr_stage = n, pr_status = st, pr_attempt = a,
       pr_started_at = started, pr_completed_at = completed, pr_error = err\<rparr>"
  obtain r' s' where run: "save_run ?r (wk_store w) = (Inr r', s')" using runs.save_returns by blast
  have other: "ps_accounts s' = ps_accounts (wk_store w)" "ps_lifecycles s' = ps_lifecycles (wk_store w)"
      "ps_by_trace s' = ps_by_trace (wk_store w)"
    using run by (auto simp: save_run_def split: option.splits if_splits)
  have status: "run_status t' n' (w\<lparr>wk_uuids := u, wk_store := s'\<rparr>) = (if (t', n') = (t, n) \<and> run_status t n w \<notin> {Some PL_SUCCEEDED, Some PL_SKIPPED}
        then Some st else run_status t' n' w)" for t' n' u
    using runs.save_reads_back [OF run] runs.save_replaces [OF run] runs.save_frame [OF run, of t' n']
    by (cases "(t', n') = (t, n)") (auto simp: run_status_def run_final_def split: option.splits)
  show ?thesis
    using run other by (simp add: record_run_def worker_uuid4_def on_pipeline_def zoom_def status seq_run frame_def exec_of_def)
qed

locale pipeline_stage =
  fixes env :: worker_env and s :: stage
  assumes process_quiet: "keeps (stage_quiet b rs) (sg_process s t e)"
begin

lemma process_status:
  assumes "sg_process s t e w = (r, w')"
  shows "run_status t' n w' = run_status t' n w" and "wk_bus w' = wk_bus w"
proof -
  have "stage_quiet (wk_bus w) (ps_runs (wk_store w)) w'" by (rule keeps_run [OF process_quiet quiet_refl assms])
  then show "run_status t' n w' = run_status t' n w" "wk_bus w' = wk_bus w"
    by (simp_all add: quiet_status) (simp add: stage_quiet_def)
qed

text \<open>A redelivery after success does nothing.\<close>

lemma redelivery_is_noop:
  assumes "ev_trace_id e = Some t" and "succeeded t (sg_name s) w"
  shows "handle_event env s e w = (Inr [], w)"
  using assms by (simp add: handle_event_def succeeded_def)

lemma publish_status: "run_status t n (snd (publish_event env e w)) = run_status t n w"
  by (simp add: publish_event_def seq_run on_bus_def zoom_def run_status_def split: prod.split sum.split)

lemma publishes_status: "run_status t n (snd (for_each es (publish_event env) w)) = run_status t n w"
proof (induction es arbitrary: w)
  case (Cons e es)
  show ?case
    using Cons publish_status [of t n e w] by (auto simp: seq_run split: prod.splits sum.splits)
qed simp

text \<open>The outcomes of a delivery that the stage has not completed before.\<close>

lemma handle_cases:
  assumes e: "ev_trace_id e = Some t" and new: "run_status t (sg_name s) w \<notin> {Some PL_SUCCEEDED, Some PL_SKIPPED}"
    and run: "handle_event env s e w = (r, w')"
  obtains
    (failed) x w2 w3 where "frame w w2" "sg_process s t e w2 = (Inl x, w3)" "r = Inl x" "frame w3 w'"
      "run_status t (sg_name s) w' = Some PL_FAILED"
  | (unpublished) x outs w2 w3 where "frame w w2" "sg_process s t e w2 = (Inr outs, w3)" "for_each outs (publish_event env) w3 = (Inl x, w')"
      "r = Inl x" "run_status t (sg_name s) w' = Some PL_RUNNING"
  | (completed) outs w2 w3 w4 where "frame w w2" "sg_process s t e w2 = (Inr outs, w3)" "for_each outs (publish_event env) w3 = (Inr (), w4)"
      "r = Inr outs" "frame w4 w'" "run_status t (sg_name s) w' = Some PL_SUCCEEDED"
proof -
  let ?n = "sg_name s"
  obtain now w1 where w1: "worker_now env w = (Inr now, w1)" by (simp add: worker_now_returns)
  note f1 = frame_now [OF w1, of t ?n]
  obtain w2 where w2: "record_run env t ?n PL_RUNNING (next_attempt t ?n w1) now None None w1 = (Inr (), w2)" "frame w1 w2"
      "run_status t ?n w2 = Some PL_RUNNING"
    using record_run_returns [of env t ?n PL_RUNNING "next_attempt t ?n w1" now None None w1] f1 new by auto
  have f2: "frame w w2" using f1 w2(2) frame_trans by blast
  have "\<not> has_succeeded t ?n (wk_store w)" using new succeeded_status by (auto simp: succeeded_def)
  then have rest: "handle_event env s e w = seq (handle (sg_process s t e) (\<lambda>x. seq (worker_now env) (\<lambda>completed.
        seq (record_run env t ?n PL_FAILED (next_attempt t ?n w1) now (Some completed) (Some x)) (\<lambda>_. raise x))))
      (\<lambda>outputs. seq (for_each outputs (publish_event env)) (\<lambda>_. seq (worker_now env) (\<lambda>completed.
        seq (record_run env t ?n PL_SUCCEEDED (next_attempt t ?n w1) now (Some completed) None) (\<lambda>_. ret outputs)))) w2"
    using e w1 w2(1) by (simp add: handle_event_def)
  obtain p w3 where p: "sg_process s t e w2 = (p, w3)" by (cases "sg_process s t e w2")
  have s3: "run_status t ?n w3 = Some PL_RUNNING" using process_status(1) [OF p] w2(3) by simp
  show thesis
  proof (cases p)
    case (Inl x)
    obtain n4 w4 where w4: "worker_now env w3 = (Inr n4, w4)" by (simp add: worker_now_returns)
    obtain w5 where w5: "record_run env t ?n PL_FAILED (next_attempt t ?n w1) now (Some n4) (Some x) w4 = (Inr (), w5)" "frame w4 w5"
        "run_status t ?n w5 = Some PL_FAILED"
      using record_run_returns [of env t ?n PL_FAILED "next_attempt t ?n w1" now "Some n4" "Some x" w4] frame_now [OF w4, of t ?n] s3 by auto
    have "handle_event env s e w = (Inl x, w5)" unfolding rest using p Inl w4 w5(1) by (simp add: handle_def seq_run)
    moreover have "frame w3 w5" using frame_now [OF w4] w5(2) frame_trans by blast
    ultimately show thesis using failed [OF f2] p Inl run w5(3) by auto
  next
    case (Inr outs)
    obtain q w4 where q: "for_each outs (publish_event env) w3 = (q, w4)" by (cases "for_each outs (publish_event env) w3")
    have s4: "run_status t ?n w4 = Some PL_RUNNING" using publishes_status [of t ?n outs w3] q s3 by simp
    show thesis
    proof (cases q)
      case (Inl x)
      then have "handle_event env s e w = (Inl x, w4)" unfolding rest using p Inr q by (simp add: handle_def seq_run)
      then show thesis using unpublished [OF f2] p Inr q Inl run s4 by auto
    next
      case q': (Inr u)
      obtain n5 w5 where w5: "worker_now env w4 = (Inr n5, w5)" by (simp add: worker_now_returns)
      obtain w6 where w6: "record_run env t ?n PL_SUCCEEDED (next_attempt t ?n w1) now (Some n5) None w5 = (Inr (), w6)" "frame w5 w6"
          "run_status t ?n w6 = Some PL_SUCCEEDED"
        using record_run_returns [of env t ?n PL_SUCCEEDED "next_attempt t ?n w1" now "Some n5" None w5] frame_now [OF w5, of t ?n] s4 by auto
      have "handle_event env s e w = (Inr outs, w6)" unfolding rest using p Inr q q' w5 w6(1) by (simp add: handle_def seq_run)
      moreover have "frame w4 w6" using frame_now [OF w5] w6(2) frame_trans by blast
      ultimately show thesis using completed [OF f2] p Inr q q' run w6(3) by auto
    qed
  qed
qed

text \<open>Success is final.\<close>

lemma process_keeps_succeeded: "keeps (succeeded t' n) (sg_process s t e)"
  by (rule keepsI) (metis process_status(1) prod.collapse succeeded_status)

lemma handle_keeps_succeeded: "keeps (succeeded t' n) (handle_event env s e)"
proof -
  have r: "keeps (succeeded t' n) (record_run env t m st a started completed err)" for t m st a started completed err
  proof (rule keepsI)
    fix w assume "succeeded t' n w"
    then show "succeeded t' n (snd (record_run env t m st a started completed err w))"
      using record_run_returns [of env t m st a started completed err w] by (auto simp: succeeded_status)
  qed
  have p: "keeps (succeeded t' n) (publish_event env x)" for x
    by (rule keepsI) (simp add: succeeded_status publish_status)
  have n: "keeps (succeeded t' n) (worker_now env)"
    by (rule keepsI) (simp add: succeeded_status worker_now_returns run_status_def)
  show ?thesis
    unfolding handle_event_def by (auto intro!: ot_inv r p n process_keeps_succeeded split: option.split)
qed

text \<open>A delivery touches the record of its own trace and stage only.\<close>

lemma handle_other_status:
  assumes "ev_trace_id e = Some t" and "(t', n) \<noteq> (t, sg_name s)"
  shows "keeps (\<lambda>w. run_status t' n w = st) (handle_event env s e)"
proof -
  have r: "keeps (\<lambda>w. run_status t' n w = st) (record_run env t (sg_name s) x a started completed err)" for x a started completed err
  proof (rule keepsI)
    fix w assume "run_status t' n w = st"
    then show "run_status t' n (snd (record_run env t (sg_name s) x a started completed err w)) = st"
      using record_run_returns [of env t "sg_name s" x a started completed err w] assms(2) by auto
  qed
  have p: "keeps (\<lambda>w. run_status t' n w = st) (publish_event env x)" for x
    by (rule keepsI) (simp add: publish_status)
  have q: "keeps (\<lambda>w. run_status t' n w = st) (sg_process s t e)"
    by (rule keepsI) (metis process_status(1) prod.collapse)
  have c: "keeps (\<lambda>w. run_status t' n w = st) (worker_now env)"
    by (rule keepsI) (simp add: worker_now_returns run_status_def)
  show ?thesis
    unfolding handle_event_def assms(1) by (auto intro!: ot_inv r p c q)
qed

text \<open>A delivery that returns has completed the stage for its trace.\<close>

lemma returning_completes:
  assumes e: "ev_trace_id e = Some t" and run: "handle_event env s e w = (Inr outs, w')"
    and skip: "run_status t (sg_name s) w \<noteq> Some PL_SKIPPED"
  shows "succeeded t (sg_name s) w'"
proof (cases "succeeded t (sg_name s) w")
  case True
  then show ?thesis using redelivery_is_noop [OF e True] run by simp
next
  case False
  then have "run_status t (sg_name s) w \<notin> {Some PL_SUCCEEDED, Some PL_SKIPPED}" using skip by (simp add: succeeded_status)
  from handle_cases [OF e this run] show ?thesis by (auto simp: succeeded_status)
qed

end

interpretation risk: pipeline_stage env "risk_stage env" for env
  by unfold_locales (simp add: risk_stage_def quiet_still still_risk)

interpretation intent: pipeline_stage env "order_intent_stage env" for env
  by unfold_locales (simp add: order_intent_stage_def quiet_still still_order_intent)

interpretation execution: pipeline_stage env "execution_stage env" for env
  by unfold_locales (simp add: execution_stage_def quiet_still still_execution)

interpretation positions: pipeline_stage env "positions_stage env" for env
  by unfold_locales (simp add: positions_stage_def quiet_still still_positions)

interpretation accounting: pipeline_stage env "accounting_stage env" for env
  by unfold_locales (simp add: accounting_stage_def quiet_accounting)

end
