(* ===== verification/Worker_Delivery.thy ===== *)
theory Worker_Delivery
  imports Worker_Pipeline
begin

text \<open>
  Delivery guarantees of the worker: whatever the stages do and wherever they fail, an event that was published is not lost. It waits
  in the stream, is pending in its group, was archived as poisoned, or every stage of the group that consumes it has succeeded for its trace.
\<close>

section \<open>The stream only grows\<close>

definition bus_grows :: "string \<Rightarrow> (string \<times> 'e) list \<Rightarrow> string set \<Rightarrow> 'e bus \<Rightarrow> bool" where
  "bus_grows g es dead b \<longleftrightarrow> (\<exists>tail. bus_entries b = es @ tail) \<and> dead \<subseteq> fst ` set (dead_of g b)"

lemma bus_grows_put [simp]: "bus_grows g es dead (put_group h x b) = bus_grows g es dead b"
  by (simp add: bus_grows_def dead_of_def)

lemma bus_grows_now [ot_inv]: "keeps (bus_grows g es dead) (bus_now clock)"
  by (simp add: keeps_def bus_grows_def dead_of_def)

lemma bus_grows_ensure [ot_inv]: "keeps (bus_grows g es dead) (ensure_group h)"
  unfolding ensure_group_def by (rule keeps_modify) (simp add: bus_grows_def dead_of_def)

lemma bus_grows_marks [ot_inv]: "keeps (bus_grows g es dead) (modify (set_pending h mid info))"
  "keeps (bus_grows g es dead) (modify (move_cursor h))"
  by (rule keeps_modify; simp add: set_pending_def move_cursor_def)+

lemma bus_grows_publish [ot_inv]: "keeps (bus_grows g es dead) (publish e)"
  unfolding publish_def by (intro ot_inv keeps_modify) (auto simp: bus_grows_def dead_of_def)

lemma bus_grows_event_for [ot_inv]: "keeps (bus_grows g es dead) (event_for mid)"
  unfolding event_for_def by (intro ot_inv)

lemma bus_grows_read_new [ot_inv]: "keeps (bus_grows g es dead) (read_new clock h consumer n)"
proof -
  have "keeps (bus_grows g es dead) (read_loop clock h consumer xs n)" for xs n
    by (induction xs arbitrary: n) (auto intro!: ot_inv)
  then show ?thesis unfolding read_new_def by (intro ot_inv)
qed

lemma bus_grows_read_pending [ot_inv]: "keeps (bus_grows g es dead) (read_pending h consumer n)"
proof -
  have "keeps (bus_grows g es dead) (pending_loop consumer xs n)" for xs n
    by (induction xs arbitrary: n) (auto intro!: ot_inv)
  then show ?thesis unfolding read_pending_def by (intro ot_inv)
qed

lemma bus_grows_pending [ot_inv]: "keeps (bus_grows g es dead) (pending clock h n)"
  unfolding pending_def by (intro ot_inv)

lemma bus_grows_claim [ot_inv]: "keeps (bus_grows g es dead) (claim_stale clock h consumer idle n)"
proof -
  have "keeps (bus_grows g es dead) (claim_loop h consumer idle now xs n)" for now xs n
    by (induction xs arbitrary: n) (auto intro!: ot_inv simp: Let_def)
  then show ?thesis unfolding claim_stale_def by (intro ot_inv)
qed

lemma bus_grows_ack [ot_inv]: "keeps (bus_grows g es dead) (ack h mid)"
  unfolding ack_def by (intro ot_inv keeps_modify) simp

lemma bus_grows_dead_letter [ot_inv]: "keeps (bus_grows g es dead) (dead_letter h m err)"
proof -
  have "keeps (bus_grows g es dead) (modify (\<lambda>b. b\<lparr>bus_dead := AList.update h (dead_of h b @ [x]) (bus_dead b)\<rparr>))" for x :: "string \<times> 'a \<times> string"
    by (rule keeps_modify) (auto simp: bus_grows_def dead_of_def split: option.splits)
  then show ?thesis unfolding dead_letter_def by (intro ot_inv)
qed

text \<open>The messages that are handed out carry the event of their entry.\<close>

definition message_ok :: "'e bus \<Rightarrow> 'e stream_message \<Rightarrow> bool" where
  "message_ok b m \<longleftrightarrow> map_of (bus_entries b) (sm_message_id m) = Some (sm_event m)"

lemma message_ok_grows: "message_ok b m \<Longrightarrow> bus_grows g (bus_entries b) {} b' \<Longrightarrow> message_ok b' m"
  by (auto simp: message_ok_def bus_grows_def map_add_def)

lemma bus_grows_refl: "bus_grows g (bus_entries b) {} b" "bus_grows g (bus_entries b) (fst ` set (dead_of g b)) b"
  by (auto simp: bus_grows_def)

lemma event_for_ok:
  assumes "event_for mid b = (Inr e, b')"
  shows "b' = b \<and> map_of (bus_entries b) mid = Some e"
  using assms by (auto simp: event_for_def split: option.splits)

lemma read_loop_messages:
  assumes "read_loop clock h consumer xs n b = (Inr ms, b')" and "distinct (map fst es)" and "bus_entries b = es" and "set xs \<subseteq> set es"
  shows "bus_entries b' = es \<and> (\<forall>m \<in> set ms. map_of es (sm_message_id m) = Some (sm_event m))"
  using assms(1,3,4)
proof (induction xs arbitrary: n b ms)
  case (Cons x xs)
  show ?case
  proof (cases "n = 0")
    case True
    then show ?thesis using Cons.prems by simp
  next
    case False
    have x: "map_of es (fst x) = Some (snd x)" using Cons.prems(3) assms(2) by (cases x) (simp add: map_of_eq_Some_iff)
    show ?thesis
    proof (cases "map_of (gs_pending (group_of h b)) (fst x) = None")
      case True
      let ?b = "(move_cursor h b)\<lparr>bus_ticks := bus_ticks (move_cursor h b) + 1\<rparr>"
      let ?c = "set_pending h (fst x) \<lparr>pi_consumer = consumer, pi_deliveries = 1, pi_delivered_at = clock (bus_ticks (move_cursor h b))\<rparr> ?b"
      obtain ms' where "read_loop clock h consumer xs (n - 1) ?c = (Inr ms', b')"
          "ms = \<lparr>sm_message_id = fst x, sm_delivery_count = 1, sm_event = snd x\<rparr> # ms'"
        using Cons.prems(1) False True by (auto elim!: seq_InrE)
      then show ?thesis using Cons.IH [of "n - 1" ?c ms'] Cons.prems(2,3) x by (auto simp: set_pending_def move_cursor_def)
    next
      case known: False
      then have "read_loop clock h consumer xs n (move_cursor h b) = (Inr ms, b')" using Cons.prems(1) False by auto
      then show ?thesis using Cons.IH [of n "move_cursor h b" ms] Cons.prems(2,3) by (auto simp: move_cursor_def)
    qed
  qed
qed simp

lemma read_new_messages:
  assumes "read_new clock h consumer n b = (Inr ms, b')" and "distinct (map fst (bus_entries b))" and "m \<in> set ms"
  shows "message_ok b' m"
proof -
  let ?b = "snd (ensure_group h b)"
  have e: "bus_entries ?b = bus_entries b" by (simp add: ensure_group_def)
  have "read_loop clock h consumer (drop (gs_cursor (group_of h ?b)) (bus_entries ?b)) n ?b = (Inr ms, b')"
    using assms(1) by (simp add: read_new_def ensure_group_def)
  moreover have "set (drop (gs_cursor (group_of h ?b)) (bus_entries ?b)) \<subseteq> set (bus_entries b)" unfolding e by (rule set_drop_subset)
  ultimately show ?thesis using read_loop_messages [OF _ assms(2) e] assms(3) by (simp add: message_ok_def)
qed

lemma claim_loop_messages:
  assumes "claim_loop h consumer idle now xs n b = (Inr ms, b')"
  shows "bus_entries b' = bus_entries b \<and> (\<forall>m \<in> set ms. message_ok b m)"
  using assms
proof (induction xs arbitrary: n b ms)
  case (Cons x xs)
  show ?case
  proof (cases "now - pi_delivered_at (snd x) < idle * 1000 \<or> n = 0")
    case True
    then show ?thesis using Cons by (auto split: if_splits)
  next
    case False
    let ?b = "set_pending h (fst x) \<lparr>pi_consumer = consumer, pi_deliveries = pi_deliveries (snd x) + 1, pi_delivered_at = now\<rparr> b"
    obtain e b2 ms' where 1: "event_for (fst x) ?b = (Inr e, b2)" "claim_loop h consumer idle now xs (n - 1) b2 = (Inr ms', b')"
        "ms = \<lparr>sm_message_id = fst x, sm_delivery_count = pi_deliveries (snd x) + 1, sm_event = e\<rparr> # ms'"
      using Cons.prems False by (auto simp: Let_def elim!: seq_InrE)
    have b2: "bus_entries b2 = bus_entries b" "map_of (bus_entries b) (fst x) = Some e"
      using event_for_ok [OF 1(1)] by (auto simp: set_pending_def)
    then show ?thesis using Cons.IH [OF 1(2)] 1(3) by (auto simp: message_ok_def)
  qed
qed simp

lemma claim_stale_messages:
  assumes "claim_stale clock h consumer idle n b = (Inr ms, b')" and "m \<in> set ms"
  shows "message_ok b' m"
proof -
  let ?b = "(snd (ensure_group h b))\<lparr>bus_ticks := bus_ticks (snd (ensure_group h b)) + 1\<rparr>"
  have "claim_loop h consumer idle (clock (bus_ticks (snd (ensure_group h b)))) (gs_pending (group_of h ?b)) n ?b = (Inr ms, b')"
    using assms(1) by (simp add: claim_stale_def ensure_group_def)
  from claim_loop_messages [OF this] show ?thesis using assms(2) by (auto simp: message_ok_def)
qed

lemma pending_loop_messages:
  assumes "pending_loop consumer xs n b = (Inr ms, b')"
  shows "b' = b \<and> (\<forall>m \<in> set ms. message_ok b m)"
  using assms
proof (induction xs arbitrary: n ms b)
  case (Cons x xs)
  then show ?case
    by (auto split: if_splits elim!: seq_InrE dest!: event_for_ok simp: message_ok_def)
qed simp

lemma read_pending_messages:
  assumes "read_pending h consumer n b = (Inr ms, b')" and "m \<in> set ms"
  shows "message_ok b' m"
proof -
  have "pending_loop consumer (gs_pending (group_of h (snd (ensure_group h b)))) n (snd (ensure_group h b)) = (Inr ms, b')"
    using assms(1) by (simp add: read_pending_def ensure_group_def)
  from pending_loop_messages [OF this] show ?thesis using assms(2) by auto
qed

section \<open>What the worker keeps\<close>

definition no_skips :: "worker \<Rightarrow> bool" where
  "no_skips w \<longleftrightarrow> (\<forall>t n. run_status t n w \<noteq> Some PL_SKIPPED)"

text \<open>
  The state \<open>w\<close> after \<open>w0\<close>: the stream, the archive and the successes have grown, and the group has lost nothing but \<open>gone\<close>.
\<close>

definition calm :: "string \<Rightarrow> string set \<Rightarrow> worker \<Rightarrow> worker \<Rightarrow> bool" where
  "calm g gone w0 w \<longleftrightarrow> bus_inv g gone (wk_bus w) \<and> bus_grows g (bus_entries (wk_bus w0)) (fst ` set (dead_of g (wk_bus w0))) (wk_bus w) \<and>
     (\<forall>t n. succeeded t n w0 \<longrightarrow> succeeded t n w) \<and> no_skips w"

named_theorems calm_inv \<open>programs of the worker that acknowledge nothing\<close>

lemma calm_bus:
  assumes "keeps (bus_inv g gone) m" and "\<And>es dead. keeps (bus_grows g es dead) m"
  shows "keeps (calm g gone w0) (on_bus m)"
proof (rule keepsI)
  fix w assume c: "calm g gone w0 w"
  let ?b = "snd (m (wk_bus w))"
  have w': "snd (on_bus m w) = w\<lparr>wk_bus := ?b\<rparr>" by (simp add: on_bus_def zoom_def split: prod.split)
  have "bus_inv g gone ?b" "bus_grows g (bus_entries (wk_bus w0)) (fst ` set (dead_of g (wk_bus w0))) ?b"
    using c keepsD [OF assms(1)] keepsD [OF assms(2)] by (auto simp: calm_def)
  then show "calm g gone w0 (snd (on_bus m w))"
    unfolding w' using c by (simp add: calm_def succeeded_def no_skips_def run_status_def)
qed

lemma calm_status:
  assumes "\<And>w. wk_bus (snd (m w)) = wk_bus w" and "\<And>w t n. run_status t n (snd (m w)) = run_status t n w"
  shows "keeps (calm g gone w0) m"
  by (rule keepsI) (simp add: calm_def succeeded_status no_skips_def assms)

lemma calm_now [calm_inv]: "keeps (calm g gone w0) (worker_now env)"
  by (rule calm_status) (simp_all add: worker_now_returns run_status_def)

lemma calm_record [calm_inv]:
  assumes "st \<noteq> PL_SKIPPED"
  shows "keeps (calm g gone w0) (record_run env t n st a started completed err)"
proof (rule keepsI)
  fix w assume c: "calm g gone w0 w"
  obtain w' where w': "record_run env t n st a started completed err w = (Inr (), w')" "frame w w'"
      "\<forall>t' n'. run_status t' n' w' = (if (t', n') = (t, n) \<and> run_status t n w \<notin> {Some PL_SUCCEEDED, Some PL_SKIPPED}
        then Some st else run_status t' n' w)"
    using record_run_returns by metis
  then show "calm g gone w0 (snd (record_run env t n st a started completed err w))"
    using c assms by (auto simp: calm_def succeeded_status no_skips_def frame_def)
qed

lemma calm_publish [calm_inv]: "keeps (calm g gone w0) (publish_event env e)"
  unfolding publish_event_def
  by (intro ot_inv calm_bus) (simp add: keeps_def calm_def succeeded_def no_skips_def run_status_def)

definition all_stages :: "worker_env \<Rightarrow> stage list" where
  "all_stages env = [risk_stage env, order_intent_stage env, execution_stage env, positions_stage env, accounting_stage env]"

lemma all_stages_quiet: "s \<in> set (all_stages env) \<Longrightarrow> pipeline_stage s"
  unfolding all_stages_def pipeline_stage_def
  by (auto simp: risk.process_quiet intent.process_quiet execution.process_quiet positions.process_quiet accounting.process_quiet)

lemma calm_handle:
  assumes "s \<in> set (all_stages env)"
  shows "keeps (calm g gone w0) (handle_event env s e)"
proof -
  have q: "keeps (stage_quiet b rs) (sg_process s t x)" for b rs t x
    using all_stages_quiet [OF assms] by (simp add: pipeline_stage_def)
  have p: "keeps (calm g gone w0) (sg_process s t x)" for t x
  proof (rule calm_status)
    fix w t' n
    have "stage_quiet (wk_bus w) (ps_runs (wk_store w)) (snd (sg_process s t x w))" by (rule keepsD [OF q quiet_refl])
    then show "wk_bus (snd (sg_process s t x w)) = wk_bus w" "run_status t' n (snd (sg_process s t x w)) = run_status t' n w"
      by (simp_all add: quiet_status) (simp add: stage_quiet_def)
  qed
  show ?thesis unfolding handle_event_def by (auto intro!: ot_inv calm_inv p split: option.split)
qed

lemma calm_stages:
  assumes "set ss \<subseteq> set (all_stages env)"
  shows "keeps (calm g gone w0) (run_stages env ss e matched)"
  using assms by (induction ss arbitrary: matched) (auto intro!: ot_inv calm_handle)

text \<open>
  A message is settled for the group \<open>g\<close> with the stages \<open>ss\<close> when it was archived or when each stage that consumes its event has succeeded;
  an event without a trace identifier is dropped by every stage.
\<close>

definition done_by :: "domain_event \<Rightarrow> stage \<Rightarrow> worker \<Rightarrow> bool" where
  "done_by e s w = (case ev_trace_id e of None \<Rightarrow> True | Some t \<Rightarrow> succeeded t (sg_name s) w)"

definition settled_message :: "string \<Rightarrow> stage list \<Rightarrow> worker \<Rightarrow> string \<Rightarrow> bool" where
  "settled_message g ss w mid \<longleftrightarrow> mid \<in> fst ` set (dead_of g (wk_bus w)) \<or>
     (\<exists>e. map_of (bus_entries (wk_bus w)) mid = Some e \<and>
        (\<forall>s \<in> set ss. accepts s (ev_event_name e) \<longrightarrow> done_by e s w))"

definition delivery_inv :: "string \<Rightarrow> stage list \<Rightarrow> worker \<Rightarrow> bool" where
  "delivery_inv g ss w \<longleftrightarrow> (\<exists>gone. bus_inv g gone (wk_bus w) \<and> (\<forall>mid \<in> gone. settled_message g ss w mid)) \<and> no_skips w"

lemma settled_stable:
  assumes "settled_message g ss w0 mid" and "calm g gone w0 w"
  shows "settled_message g ss w mid"
proof -
  have dead: "fst ` set (dead_of g (wk_bus w0)) \<subseteq> fst ` set (dead_of g (wk_bus w))" and ok: "\<And>t n. succeeded t n w0 \<Longrightarrow> succeeded t n w"
    using assms(2) by (auto simp: calm_def bus_grows_def)
  obtain tail where "bus_entries (wk_bus w) = bus_entries (wk_bus w0) @ tail" using assms(2) by (auto simp: calm_def bus_grows_def)
  then have "map_of (bus_entries (wk_bus w0)) mid = Some e \<Longrightarrow> map_of (bus_entries (wk_bus w)) mid = Some e" for e
    by (simp add: map_add_def)
  then have keep: "\<exists>e. map_of (bus_entries (wk_bus w)) mid = Some e \<and> (\<forall>s \<in> set ss. accepts s (ev_event_name e) \<longrightarrow> done_by e s w)"
    if "map_of (bus_entries (wk_bus w0)) mid = Some e" "\<forall>s \<in> set ss. accepts s (ev_event_name e) \<longrightarrow> done_by e s w0" for e
    using that ok by (auto simp: done_by_def split: option.splits)
  show ?thesis using assms(1) dead keep unfolding settled_message_def by blast
qed

lemma delivery_inv_calm:
  assumes "\<And>gone w0. keeps (calm g gone w0) m"
  shows "keeps (delivery_inv g ss) m"
proof (rule keepsI)
  fix w assume "delivery_inv g ss w"
  then obtain gone where gone: "bus_inv g gone (wk_bus w)" "\<forall>mid \<in> gone. settled_message g ss w mid" "no_skips w"
    by (auto simp: delivery_inv_def)
  then have "calm g gone w w" by (auto simp: calm_def bus_grows_refl)
  then have c: "calm g gone w (snd (m w))" by (rule keepsD [OF assms])
  then show "delivery_inv g ss (snd (m w))"
    using gone(2) settled_stable [OF _ c] by (auto simp: delivery_inv_def calm_def)
qed

lemma delivery_calm:
  assumes "delivery_inv g ss w"
  obtains gone where "calm g gone w w" "\<forall>mid \<in> gone. settled_message g ss w mid"
  using assms by (auto simp: delivery_inv_def calm_def bus_grows_refl)

lemma run_stages_complete:
  assumes "set ss \<subseteq> set (all_stages env)" and "calm g gone w0 w" and "run_stages env ss e matched w = (Inr r, w')" and e: "ev_trace_id e = Some t"
    and "s \<in> set ss" and "accepts s (ev_event_name e)"
  shows "succeeded t (sg_name s) w'"
  using assms(1,2,3,5)
proof (induction ss arbitrary: w matched)
  case (Cons a ss)
  have stable: "keeps (succeeded t n) (run_stages env ss e x)" for n x
    using Cons.prems(1)
  proof (induction ss arbitrary: x)
    case (Cons b ss)
    then have "pipeline_stage b" using all_stages_quiet by auto
    then show ?case using Cons by (auto intro!: ot_inv pipeline_stage.handle_keeps_succeeded)
  qed (simp add: ot_inv)
  have a: "pipeline_stage a" "a \<in> set (all_stages env)" using Cons.prems(1) all_stages_quiet by auto
  show ?case
  proof (cases "accepts a (ev_event_name e)")
    case True
    then obtain outs w1 where w1: "handle_event env a e w = (Inr outs, w1)" "run_stages env ss e True w1 = (Inr r, w')"
      using Cons.prems(3) by (auto elim!: seq_InrE)
    have calm: "calm g gone w0 w1" by (rule keeps_run [OF calm_handle [OF a(2)] Cons.prems(2) w1(1)])
    show ?thesis
    proof (cases "s = a")
      case True
      have "run_status t (sg_name a) w \<noteq> Some PL_SKIPPED" using Cons.prems(2) by (simp add: calm_def no_skips_def)
      from pipeline_stage.returning_completes [OF a(1) e w1(1) this] show ?thesis using keeps_run [OF stable _ w1(2)] True by simp
    next
      case False
      then show ?thesis using Cons.IH [OF _ calm w1(2)] Cons.prems(1,4) by simp
    qed
  next
    case False
    then show ?thesis using Cons assms(6) by auto
  qed
qed simp

lemma delivery_ack:
  assumes inv: "delivery_inv g ss w" and settled: "h = g \<Longrightarrow> settled_message g ss w mid"
  shows "delivery_inv g ss (snd (on_bus (ack h mid) w))"
proof -
  obtain gone where gone: "calm g gone w w" "\<forall>m \<in> gone. settled_message g ss w m" by (rule delivery_calm [OF inv])
  let ?gone = "if h = g then insert mid gone else gone"
  let ?w = "snd (on_bus (ack h mid) w)"
  have w': "?w = w\<lparr>wk_bus := snd (ack h mid (wk_bus w))\<rparr>" by (simp add: on_bus_def zoom_def split: prod.split)
  have "bus_inv g ?gone (wk_bus ?w)" unfolding w' using bus_inv_ack [of g gone "wk_bus w" h mid] gone(1) by (simp add: calm_def)
  moreover have "bus_grows g (bus_entries (wk_bus w)) (fst ` set (dead_of g (wk_bus w))) (wk_bus ?w)"
    unfolding w' using keepsD [OF bus_grows_ack bus_grows_refl(2)] by simp
  moreover have "run_status t n ?w = run_status t n w" for t n unfolding w' by (simp add: run_status_def)
  ultimately have c: "calm g ?gone w ?w" using gone(1) by (simp add: calm_def succeeded_status no_skips_def)
  have "\<forall>m \<in> ?gone. settled_message g ss w m" using gone(2) settled by auto
  then show ?thesis using settled_stable [OF _ c] c by (auto simp: delivery_inv_def calm_def)
qed

lemma delivery_dead_letter:
  assumes inv: "delivery_inv g ss w" and ok: "message_ok (wk_bus w) m"
  shows "delivery_inv g ss (snd (on_bus (dead_letter h m err) w))"
proof -
  obtain gone where gone: "calm g gone w w" "\<forall>x \<in> gone. settled_message g ss w x" by (rule delivery_calm [OF inv])
  let ?gone = "if h = g then insert (sm_message_id m) gone else gone"
  let ?w = "snd (on_bus (dead_letter h m err) w)"
  have w': "?w = w\<lparr>wk_bus := snd (dead_letter h m err (wk_bus w))\<rparr>" by (simp add: on_bus_def zoom_def split: prod.split)
  have "bus_inv g ?gone (wk_bus ?w)" unfolding w' using bus_inv_dead_letter [of g gone "wk_bus w" h m err] gone(1) by (simp add: calm_def)
  moreover have "bus_grows g (bus_entries (wk_bus w)) (fst ` set (dead_of g (wk_bus w))) (wk_bus ?w)"
    unfolding w' using keepsD [OF bus_grows_dead_letter bus_grows_refl(2)] by simp
  moreover have "run_status t n ?w = run_status t n w" for t n unfolding w' by (simp add: run_status_def)
  ultimately have c: "calm g ?gone w ?w" using gone(1) by (simp add: calm_def succeeded_status no_skips_def)
  have "sm_message_id m \<in> fst ` set (dead_of g (wk_bus ?w))" if "h = g"
    unfolding w' using that by (simp add: dead_letter_def seq_run dead_of_def ack_def ensure_group_def)
  then have "settled_message g ss ?w (sm_message_id m)" if "h = g" using that by (simp add: settled_message_def)
  moreover have "settled_message g ss ?w x" if "x \<in> gone" for x using that gone(2) settled_stable [OF _ c] by blast
  ultimately have "\<forall>x \<in> ?gone. settled_message g ss ?w x" by auto
  then show ?thesis using c by (auto simp: delivery_inv_def calm_def)
qed

lemma delivery_message:
  assumes inv: "delivery_inv g ss w" and stages: "set (sw_stages k) \<subseteq> set (all_stages env)" and mine: "sw_group k = g \<Longrightarrow> set ss \<subseteq> set (sw_stages k)"
    and ok: "message_ok (wk_bus w) m" and run: "handle_message env k m w = (r, w')"
  shows "delivery_inv g ss w' \<and> (\<exists>tail. bus_entries (wk_bus w') = bus_entries (wk_bus w) @ tail)"
proof -
  obtain gone where gone: "calm g gone w w" by (rule delivery_calm [OF inv])
  obtain q w1 where q: "run_stages env (sw_stages k) (sm_event m) False w = (q, w1)" by (cases "run_stages env (sw_stages k) (sm_event m) False w")
  have c: "calm g gone w w1" by (rule keeps_run [OF calm_stages [OF stages] gone q])
  have inv1: "delivery_inv g ss w1" by (rule keeps_run [OF delivery_inv_calm [OF calm_stages [OF stages]] inv q])
  obtain tail where tail: "bus_entries (wk_bus w1) = bus_entries (wk_bus w) @ tail" using c by (auto simp: calm_def bus_grows_def)
  show ?thesis
  proof (cases q)
    case (Inl x)
    then show ?thesis using run q inv1 tail by (simp add: handle_message_def)
  next
    case (Inr matched)
    have w': "w' = snd (on_bus (ack (sw_group k) (sm_message_id m)) w1)"
      using run q Inr by (auto simp: handle_message_def on_bus_def zoom_def ack_def ensure_group_def seq_run split: if_splits)
    have "done_by (sm_event m) s w1" if "s \<in> set (sw_stages k)" "accepts s (ev_event_name (sm_event m))" for s
      using run_stages_complete [OF stages gone q [unfolded Inr] _ that] by (simp add: done_by_def split: option.split)
    moreover have "map_of (bus_entries (wk_bus w1)) (sm_message_id m) = Some (sm_event m)"
      using ok tail by (simp add: message_ok_def map_add_def)
    ultimately have "settled_message g ss w1 (sm_message_id m)" if "sw_group k = g"
      using mine [OF that] by (auto simp: settled_message_def)
    then have "delivery_inv g ss w'" unfolding w' by (rule delivery_ack [OF inv1])
    moreover have "bus_entries (wk_bus w') = bus_entries (wk_bus w1)"
      unfolding w' by (simp add: on_bus_def zoom_def ack_def ensure_group_def seq_run)
    ultimately show ?thesis using tail by simp
  qed
qed

section \<open>Recovery and dispatch\<close>

text \<open>The invariant together with the entries that were there before.\<close>

definition delivers :: "string \<Rightarrow> stage list \<Rightarrow> (string \<times> domain_event) list \<Rightarrow> worker \<Rightarrow> bool" where
  "delivers g ss es w \<longleftrightarrow> delivery_inv g ss w \<and> (\<exists>tail. bus_entries (wk_bus w) = es @ tail)"

lemma delivers_calm:
  assumes "\<And>gone w0. keeps (calm g gone w0) m"
  shows "keeps (delivers g ss es) m"
proof (rule keepsI)
  fix w assume d: "delivers g ss es w"
  then have "delivery_inv g ss w" by (simp add: delivers_def)
  then obtain gone where "calm g gone w w" by (rule delivery_calm)
  then have "calm g gone w (snd (m w))" by (rule keepsD [OF assms])
  moreover have "delivery_inv g ss (snd (m w))" using d keepsD [OF delivery_inv_calm [OF assms]] by (simp add: delivers_def)
  ultimately show "delivers g ss es (snd (m w))" using d by (auto simp: delivers_def calm_def bus_grows_def)
qed

lemma delivers_bus_ops [calm_inv]:
  "keeps (delivers g ss es) (on_bus (pending clock h n))" "keeps (delivers g ss es) (on_bus (claim_stale clock h consumer idle n))"
  "keeps (delivers g ss es) (on_bus (read_new clock h consumer n))" "keeps (delivers g ss es) (on_bus (read_pending h consumer n))"
  "keeps (delivers g ss es) (on_bus (ensure_group h))" "keeps (delivers g ss es) (on_bus (publish e))"
  by (intro delivers_calm calm_bus ot_inv)+

lemma message_delivers: "message_ok (wk_bus w) m \<Longrightarrow> delivers g ss (bus_entries (wk_bus w)) w' \<Longrightarrow> message_ok (wk_bus w') m"
  by (auto simp: delivers_def message_ok_def map_add_def)

lemma delivers_refl: "delivery_inv g ss w \<Longrightarrow> delivers g ss (bus_entries (wk_bus w)) w"
  by (simp add: delivers_def)

lemma delivers_trans: "delivers g ss es w \<Longrightarrow> delivers g ss (bus_entries (wk_bus w)) w' \<Longrightarrow> delivers g ss es w'"
  by (auto simp: delivers_def)

lemma on_bus_run: "on_bus m w = (r, w') \<longleftrightarrow> (\<exists>b. m (wk_bus w) = (r, b) \<and> w' = w\<lparr>wk_bus := b\<rparr>)"
  by (auto simp: on_bus_def zoom_def split: prod.splits)

lemma delivers_distinct: "delivers g ss es w \<Longrightarrow> distinct (map fst (bus_entries (wk_bus w)))"
  by (auto simp: delivers_def delivery_inv_def bus_inv_def bus_ids_distinct)

lemma archive_delivers: "keeps (delivers g ss es) (archive_poisoned env k mid)"
proof (rule keepsI)
  fix w assume d: "delivers g ss es w"
  obtain r w1 where r: "on_bus (read_pending (sw_group k) (sw_consumer k) 100) w = (r, w1)" by (cases "on_bus (read_pending (sw_group k) (sw_consumer k) 100) w")
  have d1: "delivers g ss es w1" by (rule keeps_run [OF delivers_bus_ops(4) d r])
  show "delivers g ss es (snd (archive_poisoned env k mid w))"
  proof (cases r)
    case (Inl x)
    then show ?thesis using r d1 by (simp add: archive_poisoned_def)
  next
    case (Inr ms)
    show ?thesis
    proof (cases "find (\<lambda>m. sm_message_id m = mid) ms")
      case None
      then show ?thesis using r Inr d1 by (simp add: archive_poisoned_def)
    next
      case (Some m)
      then have "m \<in> set ms" by (auto simp: find_Some_iff)
      then have ok: "message_ok (wk_bus w1) m" using r Inr read_pending_messages by (fastforce simp: on_bus_run)
      let ?w = "snd (on_bus (dead_letter (sw_group k) m ''exceeded deliveries'') w1)"
      have "delivery_inv g ss ?w" using delivery_dead_letter [OF _ ok] d1 by (simp add: delivers_def)
      moreover have "bus_entries (wk_bus ?w) = bus_entries (wk_bus w1)"
        by (simp add: on_bus_def zoom_def dead_letter_def ack_def ensure_group_def seq_run)
      ultimately show ?thesis using r Inr Some d1 by (simp add: archive_poisoned_def delivers_def)
    qed
  qed
qed

lemma recover_loop_delivers:
  assumes "delivers g ss es w" and "\<forall>m \<in> set ms. message_ok (wk_bus w) m" and "recover_loop env k ps ms w = (r, w')"
  shows "delivers g ss es w' \<and> (\<forall>out. r = Inr out \<longrightarrow> (\<forall>m \<in> set out. message_ok (wk_bus w') m))"
  using assms
proof (induction ps arbitrary: ms w)
  case (Cons p ps)
  have step: ?case if run: "n w = (q, w1)" and keep: "\<And>es'. keeps (delivers g ss es') n"
      and rest: "(case q of Inl x \<Rightarrow> r = Inl x \<and> w' = w1 | Inr x \<Rightarrow> recover_loop env k ps (f x) w1 = (r, w') \<and> (\<forall>m \<in> set (f x) - set ms. message_ok (wk_bus w1) m))"
      for q w1 f and n :: "'b worker_prog"
  proof -
    have d: "delivers g ss es w1" by (rule keeps_run [OF keep Cons.prems(1) run])
    have "delivers g ss (bus_entries (wk_bus w)) w1"
      by (rule keeps_run [OF keep delivers_refl run]) (use Cons.prems(1) in \<open>simp add: delivers_def\<close>)
    then have old: "\<forall>m \<in> set ms. message_ok (wk_bus w1) m" using Cons.prems(2) message_delivers by blast
    show ?thesis
    proof (cases q)
      case (Inr x)
      then have "\<forall>m \<in> set (f x). message_ok (wk_bus w1) m" using rest old by auto
      then show ?thesis using Cons.IH [OF d] rest Inr by auto
    qed (use rest d in auto)
  qed
  consider "we_max_deliveries env < pm_delivery_count p" | "\<not> we_max_deliveries env < pm_delivery_count p" "we_claim_idle_ms env \<le> pm_idle_ms p"
    | "\<not> we_max_deliveries env < pm_delivery_count p" "\<not> we_claim_idle_ms env \<le> pm_idle_ms p" by blast
  then show ?case
  proof cases
    case 1
    obtain q w1 where q: "archive_poisoned env k (pm_message_id p) w = (q, w1)" by (cases "archive_poisoned env k (pm_message_id p) w")
    show ?thesis
      by (rule step [OF q archive_delivers, of "\<lambda>_. ms"]) (use Cons.prems(3) 1 q in \<open>simp add: seq_run split: sum.splits\<close>)
  next
    case 2
    let ?c = "on_bus (claim_stale (bus_clock env) (sw_group k) (sw_consumer k) (we_claim_idle_ms env) (we_batch_size env))"
    obtain q w1 where q: "?c w = (q, w1)" by (cases "?c w")
    have new: "\<forall>m \<in> set x. message_ok (wk_bus w1) m" if "q = Inr x" for x
      using q that claim_stale_messages by (fastforce simp: on_bus_run)
    show ?thesis
      by (rule step [OF q delivers_bus_ops(2), of "\<lambda>x. ms @ x"]) (use Cons.prems(3) 2 q new in \<open>auto simp: seq_run split: sum.splits\<close>)
  next
    case 3
    then show ?thesis using Cons by simp
  qed
qed auto

lemma recover_delivers:
  assumes d: "delivers g ss es w" and run: "recover env k w = (r, w')"
  shows "delivers g ss es w' \<and> (\<forall>out. r = Inr out \<longrightarrow> (\<forall>m \<in> set out. message_ok (wk_bus w') m))"
proof -
  let ?p = "on_bus (pending (bus_clock env) (sw_group k) 100)"
  obtain q w1 where q: "?p w = (q, w1)" by (cases "?p w")
  have d1: "delivers g ss es w1" by (rule keeps_run [OF delivers_bus_ops(1) d q])
  show ?thesis
  proof (cases q)
    case (Inl x)
    then show ?thesis using run q d1 by (auto simp: recover_def)
  next
    case (Inr ps)
    then have "recover_loop env k ps [] w1 = (r, w')" using run q by (simp add: recover_def)
    from recover_loop_delivers [OF d1 _ this] show ?thesis by simp
  qed
qed

lemma dispatch_delivers:
  assumes "delivers g ss es w" and "\<forall>m \<in> set ms. message_ok (wk_bus w) m"
    and stages: "set (sw_stages k) \<subseteq> set (all_stages env)" and mine: "sw_group k = g \<Longrightarrow> set ss \<subseteq> set (sw_stages k)"
    and "dispatch_messages env k ms n w = (r, w')"
  shows "delivers g ss es w'"
  using assms(1,2,5)
proof (induction ms arbitrary: n w)
  case (Cons m ms)
  obtain q w1 where q: "handle_message env k m w = (q, w1)" by (cases "handle_message env k m w")
  have inv: "delivery_inv g ss w" using Cons.prems(1) by (simp add: delivers_def)
  have m: "delivery_inv g ss w1 \<and> (\<exists>tail. bus_entries (wk_bus w1) = bus_entries (wk_bus w) @ tail)"
    by (rule delivery_message [OF inv stages mine _ q]) (use Cons.prems(2) in simp_all)
  then have d1: "delivers g ss (bus_entries (wk_bus w)) w1" by (simp add: delivers_def)
  have ok: "\<forall>x \<in> set ms. message_ok (wk_bus w1) x" using message_delivers [OF _ d1] Cons.prems(2) by simp
  have "\<exists>n'. dispatch_messages env k ms n' w1 = (r, w')"
    using Cons.prems(3) q by (cases q) (auto simp: handle_def seq_run)
  then show ?case using Cons.IH [OF delivers_trans [OF Cons.prems(1) d1] ok] by blast
qed simp

lemma iteration_delivers:
  assumes d: "delivers g ss es w" and stages: "set (sw_stages k) \<subseteq> set (all_stages env)"
    and mine: "sw_group k = g \<Longrightarrow> set ss \<subseteq> set (sw_stages k)" and run: "run_iteration env k w = (r, w')"
  shows "delivers g ss es w'"
proof -
  obtain q w1 where q: "recover env k w = (q, w1)" by (cases "recover env k w")
  note rec = recover_delivers [OF d q]
  show ?thesis
  proof (cases q)
    case (Inl x)
    then show ?thesis using run q rec by (simp add: run_iteration_def)
  next
    case (Inr old)
    obtain q2 w2 where q2: "worker_read_new env k w1 = (q2, w2)" by (cases "worker_read_new env k w1")
    have d1: "delivers g ss es w1" using rec by simp
    have d2: "delivers g ss es w2" by (rule keeps_run [OF delivers_bus_ops(3) d1 q2 [unfolded worker_read_new_def]])
    show ?thesis
    proof (cases q2)
      case (Inl x)
      then show ?thesis using run q Inr q2 d2 by (simp add: run_iteration_def)
    next
      case new: (Inr new)
      have grow: "delivers g ss (bus_entries (wk_bus w1)) w2"
        by (rule keeps_run [OF delivers_bus_ops(3) delivers_refl q2 [unfolded worker_read_new_def]]) (use d1 in \<open>simp add: delivers_def\<close>)
      have "\<forall>m \<in> set old. message_ok (wk_bus w2) m" using rec Inr message_delivers [OF _ grow] by simp
      moreover have "message_ok (wk_bus w2) m" if "m \<in> set new" for m
        using q2 new read_new_messages [OF _ delivers_distinct [OF d1] that] by (auto simp: worker_read_new_def on_bus_run)
      ultimately have ok: "\<forall>m \<in> set (old @ new). message_ok (wk_bus w2) m" by auto
      obtain q3 where "dispatch_messages env k (old @ new) 0 w2 = (q3, w')"
        using run q Inr q2 new by (auto simp: run_iteration_def seq_run split: prod.splits sum.splits)
      from dispatch_delivers [OF d2 ok stages mine this] show ?thesis .
    qed
  qed
qed

section \<open>Runs of the worker\<close>

text \<open>
  A run interleaves, in any order, the iterations of the consumer groups, their start, and events that arrive from outside. An iteration counts
  whether it returns or raises: the state it leaves is what the next step sees.
\<close>

inductive worker_reach :: "worker_env \<Rightarrow> stage_worker set \<Rightarrow> worker \<Rightarrow> worker \<Rightarrow> bool" for env ks w0 where
  boot: "worker_reach env ks w0 w0"
| start: "worker_reach env ks w0 w \<Longrightarrow> k \<in> ks \<Longrightarrow> worker_reach env ks w0 (snd (worker_start k w))"
| arrive: "worker_reach env ks w0 w \<Longrightarrow> worker_reach env ks w0 (snd (on_bus (publish e) w))"
| iterate: "worker_reach env ks w0 w \<Longrightarrow> k \<in> ks \<Longrightarrow> worker_reach env ks w0 (snd (run_iteration env k w))"

definition fresh_worker :: "worker \<Rightarrow> bool" where
  "fresh_worker w \<longleftrightarrow> wk_bus w = empty_bus \<and> ps_runs (wk_store w) = []"

text \<open>The workers of a configuration run known stages, and workers of one group run the same stages.\<close>

definition workers_ok :: "worker_env \<Rightarrow> stage_worker set \<Rightarrow> bool" where
  "workers_ok env ks \<longleftrightarrow> (\<forall>k \<in> ks. set (sw_stages k) \<subseteq> set (all_stages env)) \<and>
     (\<forall>k \<in> ks. \<forall>k' \<in> ks. sw_group k = sw_group k' \<longrightarrow> sw_stages k = sw_stages k')"

text \<open>A property that no change of the stream affects and that every delivery keeps holds in all states a run reaches.\<close>

lemma iteration_keeps:
  assumes bus: "\<And>w b. P w \<Longrightarrow> P (w\<lparr>wk_bus := b\<rparr>)" and handle: "\<And>s e. s \<in> set (all_stages env) \<Longrightarrow> keeps P (handle_event env s e)"
    and stages: "set (sw_stages k) \<subseteq> set (all_stages env)"
  shows "keeps P (run_iteration env k)"
proof -
  have unit: "keeps P (on_bus m)" for m :: "(domain_event, unit) bus_prog" unfolding on_bus_def by (rule zoom_keeps) (rule bus)
  have msgs: "keeps P (on_bus m)" for m :: "(domain_event, domain_event stream_message list) bus_prog"
    unfolding on_bus_def by (rule zoom_keeps) (rule bus)
  have pend: "keeps P (on_bus m)" for m :: "(domain_event, pending_message list) bus_prog" unfolding on_bus_def by (rule zoom_keeps) (rule bus)
  have "keeps P (archive_poisoned env k mid)" for mid unfolding archive_poisoned_def by (auto intro!: ot_inv unit msgs)
  then have "keeps P (recover_loop env k ps ms)" for ps ms by (induction ps arbitrary: ms) (auto intro!: ot_inv msgs)
  then have recover: "keeps P (recover env k)" unfolding recover_def by (intro ot_inv pend)
  have "keeps P (run_stages env ss e matched)" if "set ss \<subseteq> set (all_stages env)" for ss e matched
    using that by (induction ss arbitrary: matched) (auto intro!: ot_inv handle)
  then have "keeps P (handle_message env k m)" for m unfolding handle_message_def using stages by (auto intro!: ot_inv unit)
  then have "keeps P (dispatch_messages env k ms n)" for ms n by (induction ms arbitrary: n) (auto intro!: ot_inv)
  then show ?thesis unfolding run_iteration_def worker_read_new_def by (intro ot_inv recover msgs)
qed

lemma reach_keeps:
  assumes "worker_reach env ks w0 w" and ok: "workers_ok env ks"
    and bus: "\<And>w b. P w \<Longrightarrow> P (w\<lparr>wk_bus := b\<rparr>)" and handle: "\<And>s e. s \<in> set (all_stages env) \<Longrightarrow> keeps P (handle_event env s e)" and "P w0"
  shows "P w"
  using assms(1)
proof induction
  case boot
  show ?case by (rule assms(5))
next
  case (start w k)
  then show ?case by (simp add: worker_start_def on_bus_def zoom_def bus split: prod.split)
next
  case (arrive w e)
  then show ?case by (simp add: on_bus_def zoom_def bus split: prod.split)
next
  case (iterate w k)
  have "set (sw_stages k) \<subseteq> set (all_stages env)" using ok iterate(2) unfolding workers_ok_def by blast
  from keepsD [OF iteration_keeps [OF bus handle this] iterate(3)] show ?case .
qed

lemma worker_reach_delivers:
  assumes "worker_reach env ks w0 w" and "workers_ok env ks" and k: "k \<in> ks" and fresh: "fresh_worker w0"
  shows "delivery_inv (sw_group k) (sw_stages k) w"
  using assms(1)
proof induction
  case boot
  have "run_status t n w0 = None" for t n using fresh by (simp add: run_status_def get_run_def fresh_worker_def)
  then show ?case using fresh bus_inv_empty by (auto simp: delivery_inv_def no_skips_def fresh_worker_def)
next
  case (start w k')
  have "delivers (sw_group k) (sw_stages k) (bus_entries (wk_bus w)) w" by (rule delivers_refl [OF start(3)])
  from keepsD [OF delivers_bus_ops(5) this] show ?case by (simp add: worker_start_def delivers_def)
next
  case (arrive w e)
  have "delivers (sw_group k) (sw_stages k) (bus_entries (wk_bus w)) w" by (rule delivers_refl [OF arrive(2)])
  from keepsD [OF delivers_bus_ops(6) this] show ?case by (simp add: delivers_def)
next
  case (iterate w k')
  have d: "delivers (sw_group k) (sw_stages k) (bus_entries (wk_bus w)) w" by (rule delivers_refl [OF iterate(3)])
  have st: "set (sw_stages k') \<subseteq> set (all_stages env)" using assms(2) iterate(2) unfolding workers_ok_def by blast
  have "sw_stages k = sw_stages k'" if "sw_group k' = sw_group k" using assms(2) iterate(2) k that unfolding workers_ok_def by metis
  then have mine: "set (sw_stages k) \<subseteq> set (sw_stages k')" if "sw_group k' = sw_group k" using that by simp
  obtain r w' where w': "run_iteration env k' w = (r, w')" by (cases "run_iteration env k' w")
  from iteration_delivers [OF d st mine w'] show ?case using w' by (simp add: delivers_def)
qed

section \<open>Nothing is lost\<close>

text \<open>
  C8: no event is lost. In every state that a worker reaches from an empty stream, whatever the interleaving of its consumer groups,
  the failures of the stages and of the publication, each event of the stream is, for every group: still ahead of the cursor of the group, or pending
  (delivered and not acknowledged, so that it is reclaimed), or archived as poisoned, or every stage of the group that consumes it has succeeded for
  its trace.
\<close>

theorem worker_loses_nothing:
  assumes "fresh_worker w0" and "worker_reach env ks w0 w" and "workers_ok env ks" and "k \<in> ks"
    and "i < length (bus_entries (wk_bus w))" and "bus_entries (wk_bus w) ! i = (mid, e)"
  shows "gs_cursor (group_of (sw_group k) (wk_bus w)) \<le> i \<or> mid \<in> fst ` set (gs_pending (group_of (sw_group k) (wk_bus w))) \<or>
    mid \<in> fst ` set (dead_of (sw_group k) (wk_bus w)) \<or> (\<forall>s \<in> set (sw_stages k). accepts s (ev_event_name e) \<longrightarrow> done_by e s w)"
proof (cases "gs_cursor (group_of (sw_group k) (wk_bus w)) \<le> i")
  case False
  let ?g = "sw_group k" let ?b = "wk_bus w"
  obtain gone where inv: "bus_inv ?g gone ?b" and gone: "\<forall>x \<in> gone. settled_message ?g (sw_stages k) w x"
    using worker_reach_delivers [OF assms(2,3,4,1)] by (auto simp: delivery_inv_def)
  have "mid \<in> gone \<or> map_of (gs_pending (group_of ?g ?b)) mid \<noteq> None"
    using inv False assms(6) unfolding bus_inv_def group_ok_def by (metis fst_conv not_le)
  then consider "map_of (gs_pending (group_of ?g ?b)) mid \<noteq> None" | "settled_message ?g (sw_stages k) w mid" using gone by blast
  then show ?thesis
  proof cases
    case 1
    then show ?thesis by (auto simp: map_of_eq_None_iff)
  next
    case 2
    have "map_of (bus_entries ?b) mid = Some e"
      using inv assms(5,6) bus_ids_distinct [of ?b] by (auto simp: bus_inv_def intro!: map_of_is_SomeI) (metis nth_mem)
    then show ?thesis using 2 by (auto simp: settled_message_def)
  qed
qed simp

definition example_ledger_env :: ledger_env where
  "example_ledger_env = \<lparr>le_account_id = ''paper'', le_currency = ''USD'', le_instruments = [(''EURUSD'', example_instrument)],
     le_clock = (\<lambda>n. int n * 1000000), le_suffix = (\<lambda>n. decimal_str n)\<rparr>"

definition example_worker_env :: worker_env where
  "example_worker_env = \<lparr>we_ledger = example_ledger_env, we_uuid4 = (\<lambda>n. 100 + n), we_intent_id = (\<lambda>d. d + 1000),
     we_digest = (\<lambda>_. ''h''), we_uuid5 = (\<lambda>_. 7), we_operating_mode = OM_PAPER, we_strategy_id = ''trend'', we_strategy_version = ''1'',
     we_watchlist = [''EURUSD''], we_starting_balance = 50000, we_cycle_interval_seconds = 60, we_policy = example_policy,
     we_source = (\<lambda>_ _ _. Inr example_snapshot), we_executor = (\<lambda>_. None), we_publish_ok = (\<lambda>_. True),
     we_max_deliveries = 3, we_claim_idle_ms = 0, we_batch_size = 10\<rparr>"

definition example_account :: paper_account_record where
  "example_account = \<lparr>pa_account_id = ''paper'', pa_currency = ''USD'', pa_balance = 50000, pa_equity = 50000, pa_realized_pnl = 0,
     pa_daily_pnl = 0, pa_peak_equity = 50000, pa_consecutive_losses = 0, pa_last_loss_at = None, pa_open_positions = 0,
     pa_version = 1, pa_updated_at = 0\<rparr>"

definition example_worker :: worker where
  "example_worker = \<lparr>wk_ledger = \<lparr>lg_positions = [], lg_outcomes = [], lg_paths = [], lg_exec = empty_store, lg_ticks = 0, lg_ids = 0\<rparr>,
     wk_store = empty_pipeline_store\<lparr>ps_accounts := [(''paper'', example_account)]\<rparr>, wk_latest = [], wk_cache = [],
     wk_bus = empty_bus, wk_uuids = 0, wk_publications = 0, wk_venue_calls = 0\<rparr>"

definition example_group :: stage_worker where
  "example_group = \<lparr>sw_group = ''paper:accounting'', sw_consumer = ''c1'', sw_stages = [accounting_stage example_worker_env]\<rparr>"

definition example_outcome :: trade_outcome where
  "example_outcome = \<lparr>to_trade_id = 1, to_position_id = Some ''paper:EURUSD:0'', to_order_intent_ids = [5], to_instrument_id = ''EURUSD'',
     to_direction = SD_LONG, to_quantity = 1000, to_entry_price = 1, to_exit_price = 99 / 100, to_realized_pnl = - 10, to_costs = 1,
     to_opened_at = 0, to_closed_at = 1, to_exit_reason = ''position_closed''\<rparr>"

definition example_closed :: domain_event where
  "example_closed = make_event ''trade.closed'' (P_Outcome example_outcome) 42"

definition example_reached :: worker where
  "example_reached = snd (run_iteration example_worker_env example_group (snd (on_bus (publish example_closed) example_worker)))"

lemma example_workers_ok: "workers_ok example_worker_env {example_group}"
  by (simp add: workers_ok_def example_group_def all_stages_def)

lemma example_reach: "worker_reach example_worker_env {example_group} example_worker example_reached"
  unfolding example_reached_def by (intro worker_reach.intros) simp

lemma example_fresh: "fresh_worker example_worker"
  by (simp add: fresh_worker_def example_worker_def empty_pipeline_store_def)

definition example_summary :: "worker \<Rightarrow> (string \<times> domain_event) list \<times> nat \<times> nat \<times> nat \<times> bool \<times> (decimal \<times> int) option" where
  "example_summary w = (bus_entries (wk_bus w), gs_cursor (group_of ''paper:accounting'' (wk_bus w)),
     length (gs_pending (group_of ''paper:accounting'' (wk_bus w))), length (dead_of ''paper:accounting'' (wk_bus w)),
     has_succeeded 42 PS_ACCOUNTING (wk_store w),
     map_option (\<lambda>a. (pa_balance a, pa_version a)) (get_account ''paper'' (wk_store w)))"

lemma example_summary_value: "example_summary example_reached = ([(''1-0'', example_closed)], 1, 0, 0, True, Some (49989, 2))"
  by code_simp

theorem worker_loses_nothing_witness:
  "bus_entries (wk_bus example_reached) ! 0 = (''1-0'', example_closed) \<and> gs_cursor (group_of ''paper:accounting'' (wk_bus example_reached)) = 1 \<and>
   done_by example_closed (accounting_stage example_worker_env) example_reached"
proof -
  note v = example_summary_value [unfolded example_summary_def]
  have "bus_entries (wk_bus example_reached) ! 0 = (''1-0'', example_closed)" "0 < length (bus_entries (wk_bus example_reached))" using v by simp_all
  with worker_loses_nothing [OF example_fresh example_reach example_workers_ok, of example_group 0 "''1-0''" example_closed] v
  show ?thesis by (simp add: example_group_def accepts_def accounting_stage_def example_closed_def make_event_def)
qed

end
