(* ===== verification/Worker_Account.thy ===== *)
theory Worker_Account
  imports Worker_Delivery
begin

text \<open>
  The paper account under redelivery: whatever the order of deliveries, failures and retries, each trace changes the account at
  most once, and the account stays consistent with itself.
\<close>

section \<open>One change per trace\<close>

definition booked :: "worker \<Rightarrow> uuid set" where
  "booked w = {t. succeeded t PS_ACCOUNTING w}"

definition account_inv :: "worker_env \<Rightarrow> int \<Rightarrow> worker \<Rightarrow> bool" where
  "account_inv env v0 w \<longleftrightarrow> finite (booked w) \<and> no_skips w \<and>
     (case get_account (le_account_id (we_ledger env)) (wk_store w) of
        None \<Rightarrow> False
      | Some a \<Rightarrow> pa_account_id a = le_account_id (we_ledger env) \<and> pa_version a = v0 + int (card (booked w)) \<and>
          pa_balance a = dadd (we_starting_balance env) (pa_realized_pnl a) \<and> pa_equity a \<le> pa_peak_equity a \<and>
          0 \<le> pa_consecutive_losses a \<and> (pa_consecutive_losses a = 0 \<or> pa_last_loss_at a \<noteq> None))"

definition booked_account :: "worker_env \<Rightarrow> paper_account_record \<Rightarrow> paper_account_record \<Rightarrow> bool" where
  "booked_account env a a' \<longleftrightarrow> pa_account_id a' = pa_account_id a \<and> pa_version a' = pa_version a + 1 \<and>
     (pa_balance a = dadd (we_starting_balance env) (pa_realized_pnl a) \<longrightarrow> pa_balance a' = dadd (we_starting_balance env) (pa_realized_pnl a')) \<and>
     pa_equity a' \<le> pa_peak_equity a' \<and> (0 \<le> pa_consecutive_losses a \<longrightarrow> 0 \<le> pa_consecutive_losses a') \<and>
     (pa_consecutive_losses a = 0 \<or> pa_last_loss_at a \<noteq> None \<longrightarrow> pa_consecutive_losses a' = 0 \<or> pa_last_loss_at a' \<noteq> None)"

lemma apply_outcome_books: "booked_account env a (apply_outcome env a t now u)"
  by (auto simp: booked_account_def apply_outcome_def Let_def)

lemma refresh_books: "booked_account env a (refresh_equity a now u)"
  by (auto simp: booked_account_def refresh_equity_def Let_def)

lemma on_store_run: "on_pipeline m w = (r, w') \<longleftrightarrow> (\<exists>s. m (wk_store w) = (r, s) \<and> w' = w\<lparr>wk_store := s\<rparr>)"
  by (auto simp: on_pipeline_def zoom_def split: prod.splits)

text \<open>The accounting stage either raises and leaves the accounts alone, or replaces the account by the next version.\<close>

lemma accounting_effect:
  assumes "accounting_process env t e w = (r, w')"
    and acc: "get_account (le_account_id (we_ledger env)) (wk_store w) = Some a" and id: "pa_account_id a = le_account_id (we_ledger env)"
  shows "(\<exists>x. r = Inl x \<and> ps_accounts (wk_store w') = ps_accounts (wk_store w)) \<or>
    (\<exists>a'. r = Inr [] \<and> booked_account env a a' \<and> ps_accounts (wk_store w') = AList.update (pa_account_id a') a' (ps_accounts (wk_store w)))"
proof -
  let ?w = "w\<lparr>wk_ledger := (wk_ledger w)\<lparr>lg_ticks := lg_ticks (wk_ledger w) + 1\<rparr>\<rparr>"
  let ?now = "le_clock (we_ledger env) (lg_ticks (wk_ledger w))"
  let ?u = "account_unrealized env ?w (open_positions (wk_ledger ?w)) 0"
  have put: "upsert_account a' (Some (pa_version a' - 1)) (wk_store w) =
      (Inr a', (wk_store w)\<lparr>ps_accounts := AList.update (pa_account_id a') a' (ps_accounts (wk_store w))\<rparr>)" if "booked_account env a a'" for a'
    using that acc id by (simp add: upsert_account_def booked_account_def)
  have finish: ?thesis if "seq (on_pipeline (upsert_account a' (Some (pa_version a' - 1)))) (\<lambda>_.
        seq (on_pipeline (save_context_fragment t ''portfolio_snapshot'' [] (le_account_id (we_ledger env)) ?now)) (\<lambda>_. ret [])) ?w = (r, w')"
      "booked_account env a a'" for a'
  proof -
    have "r = Inr [] \<and> ps_accounts (wk_store w') = AList.update (pa_account_id a') a' (ps_accounts (wk_store w))"
      using that(1) put [OF that(2)] by (auto simp: seq_run on_pipeline_def zoom_def save_context_fragment_def)
    then show ?thesis using that(2) by blast
  qed
  consider (raises) x where "r = Inl x" "w' = ?w"
    | (outcome) tr u where "?u = Inr u" "ev_payload e = P_Outcome tr" "ev_event_name e = ''trade.closed''"
    | (refresh) u where "?u = Inr u" "ev_event_name e \<noteq> ''trade.closed''"
    using assms(1) acc
    by (cases ?u; cases "ev_payload e"; cases "ev_event_name e = ''trade.closed''")
       (auto simp: accounting_process_def found_or_def worker_now_returns seq_run of_result_def)
  then show ?thesis
  proof cases
    case raises
    then show ?thesis by simp
  next
    case outcome
    with assms(1) acc show ?thesis
      by (intro finish [OF _ apply_outcome_books [of env a tr ?now u]])
        (simp_all add: accounting_process_def found_or_def worker_now_returns of_result_def)
  next
    case refresh
    with assms(1) acc show ?thesis
      by (intro finish [OF _ refresh_books [of env a ?now u]])
        (simp_all add: accounting_process_def found_or_def worker_now_returns of_result_def)
  qed
qed

lemma keeps_accounts_still:
  assumes "\<And>b runs accs. keeps (still b runs accs) m" and "m w = (r, w')"
  shows "ps_accounts (wk_store w') = ps_accounts (wk_store w)"
proof -
  have "still (wk_bus w) (ps_runs (wk_store w)) (ps_accounts (wk_store w)) w" by (simp add: still_def)
  from keeps_run [OF assms(1) this assms(2)] show ?thesis by (simp add: still_def)
qed

lemma publish_accounts: "for_each es (publish_event env) w = (r, w') \<Longrightarrow> ps_accounts (wk_store w') = ps_accounts (wk_store w)"
proof (induction es arbitrary: w)
  case (Cons e es)
  obtain q w1 where q: "publish_event env e w = (q, w1)" by (cases "publish_event env e w")
  have "ps_accounts (wk_store w1) = ps_accounts (wk_store w)"
    using q by (auto simp: publish_event_def seq_run on_bus_def zoom_def split: sum.splits prod.splits if_splits)
  then show ?case using Cons q by (cases q) auto
qed simp

lemma stage_effect:
  assumes "s \<in> set (all_stages env)" and "sg_process s t e w = (r, w')"
    and "get_account (le_account_id (we_ledger env)) (wk_store w) = Some a" and "pa_account_id a = le_account_id (we_ledger env)"
  shows "if sg_name s = PS_ACCOUNTING \<and> \<not> isl r
    then r = Inr [] \<and> (\<exists>a'. booked_account env a a' \<and> ps_accounts (wk_store w') = AList.update (pa_account_id a') a' (ps_accounts (wk_store w)))
    else ps_accounts (wk_store w') = ps_accounts (wk_store w)"
proof -
  consider "s = accounting_stage env" | "s \<in> {risk_stage env, order_intent_stage env, execution_stage env, positions_stage env}"
    using assms(1) by (auto simp: all_stages_def)
  then show ?thesis
  proof cases
    case 1
    then show ?thesis using accounting_effect [of env t e w r w' a] assms by (auto simp: accounting_stage_def)
  next
    case 2
    then have still: "keeps (still b runs accs) (sg_process s t e)" for b runs accs
      by (auto simp: risk_stage_def order_intent_stage_def execution_stage_def positions_stage_def still_risk still_order_intent
          still_execution still_positions)
    have "sg_name s \<noteq> PS_ACCOUNTING"
      using 2 by (auto simp: risk_stage_def order_intent_stage_def execution_stage_def positions_stage_def)
    then show ?thesis using keeps_accounts_still [OF still assms(2)] by simp
  qed
qed

lemma account_inv_cong:
  assumes "ps_accounts (wk_store w') = ps_accounts (wk_store w)" and "booked w' = booked w" and "no_skips w'"
  shows "account_inv env v0 w \<Longrightarrow> account_inv env v0 w'"
  using assms by (auto simp: account_inv_def get_account_def split: option.splits)

lemma account_inv_books:
  assumes "account_inv env v0 w" and "get_account (le_account_id (we_ledger env)) (wk_store w) = Some a" and "booked_account env a a'"
    and "ps_accounts (wk_store w') = AList.update (pa_account_id a') a' (ps_accounts (wk_store w))"
    and "booked w' = insert t (booked w)" and "t \<notin> booked w" and "no_skips w'"
  shows "account_inv env v0 w'"
  using assms by (auto simp: account_inv_def get_account_def booked_account_def)

lemma handle_account:
  assumes s: "s \<in> set (all_stages env)"
  shows "keeps (account_inv env v0) (handle_event env s e)"
proof (rule keepsI)
  fix w assume inv: "account_inv env v0 w"
  obtain a where a: "get_account (le_account_id (we_ledger env)) (wk_store w) = Some a" "pa_account_id a = le_account_id (we_ledger env)"
    using inv by (auto simp: account_inv_def split: option.splits)
  have ps: "pipeline_stage s" by (rule all_stages_quiet [OF s])
  obtain r w' where run: "handle_event env s e w = (r, w')" by (cases "handle_event env s e w")
  show "account_inv env v0 (snd (handle_event env s e w))"
  proof (cases "ev_trace_id e")
    case None
    then show ?thesis using inv by (simp add: handle_event_def)
  next
    case (Some t)
    show ?thesis
    proof (cases "succeeded t (sg_name s) w")
      case True
      then show ?thesis using pipeline_stage.redelivery_is_noop [OF ps Some True] inv by simp
    next
      case False
      then have new: "run_status t (sg_name s) w \<notin> {Some PL_SUCCEEDED, Some PL_SKIPPED}"
        using inv by (simp add: succeeded_status account_inv_def no_skips_def)
      have other: "run_status t' n w' = run_status t' n w" if "(t', n) \<noteq> (t, sg_name s)" for t' n
        by (rule keeps_run [OF pipeline_stage.handle_other_status [OF ps Some that] refl run])
      have old: "run_status t' n w \<noteq> Some PL_SKIPPED" for t' n using inv by (simp add: account_inv_def no_skips_def)
      have skips: "no_skips w'" if own: "run_status t (sg_name s) w' \<noteq> Some PL_SKIPPED"
      proof -
        have "run_status t' n w' \<noteq> Some PL_SKIPPED" for t' n
          using other [of t' n] old [of t' n] own by (cases "(t', n) = (t, sg_name s)") auto
        then show ?thesis by (simp add: no_skips_def)
      qed
      have books: "booked w' = (if sg_name s = PS_ACCOUNTING \<and> succeeded t (sg_name s) w' then insert t (booked w) else booked w)"
      proof (rule set_eqI)
        fix x
        show "x \<in> booked w' \<longleftrightarrow> x \<in> (if sg_name s = PS_ACCOUNTING \<and> succeeded t (sg_name s) w' then insert t (booked w) else booked w)"
          using other [of x PS_ACCOUNTING] False by (cases "(x, PS_ACCOUNTING) = (t, sg_name s)") (auto simp: booked_def succeeded_status)
      qed
      have t: "t \<notin> booked w" if "sg_name s = PS_ACCOUNTING" using False that by (simp add: booked_def)
      have acc: "get_account (le_account_id (we_ledger env)) (wk_store w2) = Some a" if "frame w w2" for w2
        using a(1) that by (simp add: get_account_def frame_def)
      show ?thesis
      proof (cases rule: pipeline_stage.handle_cases [OF ps Some new run, consumes 0, case_names failed unpublished completed])
        case (failed x w2 w3)
        have "ps_accounts (wk_store w') = ps_accounts (wk_store w)"
          using stage_effect [OF s failed(2) acc [OF failed(1)] a(2)] failed(1,4) by (simp add: frame_def)
        then show ?thesis using account_inv_cong [of w' w] books failed(5) inv skips run by (simp add: succeeded_status)
      next
        case (unpublished x outs w2 w3)
        have "sg_name s \<noteq> PS_ACCOUNTING" using stage_effect [OF s unpublished(2) acc [OF unpublished(1)] a(2)] unpublished(3) by auto
        then have "ps_accounts (wk_store w') = ps_accounts (wk_store w)"
          using stage_effect [OF s unpublished(2) acc [OF unpublished(1)] a(2)] publish_accounts [OF unpublished(3)] unpublished(1)
          by (simp add: frame_def)
        then show ?thesis using account_inv_cong [of w' w] books unpublished(5) inv skips run by (simp add: succeeded_status)
      next
        case (completed outs w2 w3 w4)
        note effect = stage_effect [OF s completed(2) acc [OF completed(1)] a(2)]
        have accs: "ps_accounts (wk_store w') = ps_accounts (wk_store w3)" "ps_accounts (wk_store w2) = ps_accounts (wk_store w)"
          using publish_accounts [OF completed(3)] completed(1,5) by (simp_all add: frame_def)
        show ?thesis
        proof (cases "sg_name s = PS_ACCOUNTING")
          case True
          then obtain a' where "booked_account env a a'" "ps_accounts (wk_store w') = AList.update (pa_account_id a') a' (ps_accounts (wk_store w))"
            using effect accs by auto
          then show ?thesis
            using account_inv_books [OF inv a(1), of a' w' t] books completed(6) True t skips run by (simp add: succeeded_status)
        next
          case False
          then show ?thesis using account_inv_cong [of w' w] effect accs books completed(6) inv skips run by simp
        qed
      qed
    qed
  qed
qed

text \<open>The loop around the stages leaves the account alone.\<close>

lemma account_inv_bus:
  assumes "account_inv env v0 w"
  shows "account_inv env v0 (w\<lparr>wk_bus := b\<rparr>)"
proof -
  have "run_status t n (w\<lparr>wk_bus := b\<rparr>) = run_status t n w" for t n by (simp add: run_status_def)
  then have "booked (w\<lparr>wk_bus := b\<rparr>) = booked w" "no_skips (w\<lparr>wk_bus := b\<rparr>)"
    using assms by (simp_all add: booked_def succeeded_status no_skips_def account_inv_def)
  then show ?thesis using account_inv_cong [of "w\<lparr>wk_bus := b\<rparr>" w env v0] assms by simp
qed

lemma account_inv_reach:
  assumes "worker_reach env ks w0 w" and "workers_ok env ks" and "account_inv env v0 w0"
  shows "account_inv env v0 w"
  by (rule reach_keeps [OF assms(1,2) account_inv_bus handle_account assms(3)])



section \<open>A closed trade can be dropped\<close>

lemma success_is_final:
  assumes "worker_reach env ks w0 w" and "workers_ok env ks" and "succeeded t n w0"
  shows "succeeded t n w"
proof (rule reach_keeps [where P = "succeeded t n", OF assms(1,2) _ _ assms(3)])
  show "keeps (succeeded t n) (handle_event env s e)" if "s \<in> set (all_stages env)" for s e
    by (rule pipeline_stage.handle_keeps_succeeded [OF all_stages_quiet [OF that]])
qed (simp add: succeeded_def)

text \<open>
  The accounting stage consumes two kinds of events and remembers only that it has succeeded for a trace. The events of one trace
  are \<open>trade.closed\<close> and \<open>position.updated\<close>: once a delivery of the second has returned, every later
  delivery of the first (for instance its retry after a transient failure) is answered with success and books nothing.
\<close>

lemma outcome_dropped_after_refresh:
  assumes "ev_event_name e = ''position.updated''" and "ev_trace_id e = Some t" and "no_skips w"
    and "handle_event env (accounting_stage env) e w = (Inr outs, w1)" and "workers_ok env ks" and "worker_reach env ks w1 w2"
  shows "handle_event env (accounting_stage env) (make_event ''trade.closed'' (P_Outcome outcome) t) w2 = (Inr [], w2)"
proof -
  have "run_status t (sg_name (accounting_stage env)) w \<noteq> Some PL_SKIPPED" using assms(3) by (simp add: no_skips_def)
  then have "succeeded t (sg_name (accounting_stage env)) w1" by (rule accounting.returning_completes [OF assms(2,4)])
  from success_is_final [OF assms(6,5) this] show ?thesis by (intro accounting.redelivery_is_noop) (simp_all add: make_event_def)
qed

definition example_marked :: domain_event where
  "example_marked = make_event ''position.updated'' P_Other 42"

definition example_refreshed :: worker where
  "example_refreshed = snd (handle_event example_worker_env (accounting_stage example_worker_env) example_marked example_worker)"

theorem outcome_dropped_after_refresh_witness:
  "handle_event example_worker_env (accounting_stage example_worker_env) example_closed example_refreshed = (Inr [], example_refreshed) \<and>
   map_option pa_balance (get_account ''paper'' (wk_store example_refreshed)) = Some 50000"
proof -
  have "fst (handle_event example_worker_env (accounting_stage example_worker_env) example_marked example_worker) = Inr []" by code_simp
  then have run: "handle_event example_worker_env (accounting_stage example_worker_env) example_marked example_worker = (Inr [], example_refreshed)"
    by (simp add: example_refreshed_def prod_eq_iff)
  have skips: "no_skips example_worker"
    by (simp add: no_skips_def run_status_def get_run_def example_worker_def empty_pipeline_store_def)
  have "map_option pa_balance (get_account ''paper'' (wk_store example_refreshed)) = Some 50000" by code_simp
  then show ?thesis
    using outcome_dropped_after_refresh [OF _ _ skips run, of 42 "{}" example_refreshed example_outcome]
    by (simp add: example_marked_def example_closed_def make_event_def workers_ok_def worker_reach.boot)
qed

end
