(* ===== verification/Worker_Hazards.thy ===== *)
theory Worker_Hazards
  imports Worker_Account
begin

text \<open>
  Two places where the stages of the paper pipeline, each correct on its own, do not add up: the exits that the risk stage refuses, and the
  events that a retried execution no longer publishes.
\<close>

section \<open>Exits under the daily loss limit\<close>

lemma risk_process_returns:
  assumes "risk_process env t e w = (Inr outs, w')" and "ev_payload e = P_Proposal p"
  obtains now x d w1 where "risk_inputs_of env p w1 now = Inr x" "evaluate (we_digest env) (we_uuid5 env) x = Some (Inr d)"
    "outs = [make_event (risk_event_name (rd_decision d)) (P_Decision d) t]"
    "wk_store w1 = wk_store w"
proof -
  let ?now = "le_clock (we_ledger env) (lg_ticks (wk_ledger w))"
  let ?w = "w\<lparr>wk_ledger := (wk_ledger w)\<lparr>lg_ticks := lg_ticks (wk_ledger w) + 1\<rparr>\<rparr>"
  obtain x d where "risk_inputs_of env p ?w ?now = Inr x" "evaluate_proposal (we_digest env) (we_uuid5 env) x = Some (Inr d)"
      "outs = [make_event (risk_event_name (rd_decision d)) (P_Decision d) t]"
    using assms by (auto simp: risk_process_def worker_now_returns of_result_def found_or_def elim!: seq_InrE
        split: sum.splits option.splits)
  then show thesis using that [of ?w ?now x d] by (simp add: evaluate_proposal_def)
qed

lemma daily_loss_hard:
  assumes "ac_daily_pnl (ri_account x) \<le> dneg (rp_max_daily_loss (ri_policy x))" and "evaluate digest uuid5 x = Some (Inr d)"
  shows "rd_decision d = RD_REJECT \<and> MAX_DAILY_LOSS_REACHED \<in> set (rd_reason_codes d)"
proof -
  have v: "MAX_DAILY_LOSS_REACHED \<in> set (run_hard_checks (hard_check_args x now))" for now
  proof -
    have "(MAX_DAILY_LOSS_REACHED, \<lambda>k. daily_loss_reached (ca_account k) (ca_policy k)) \<in> set hard_check_order"
      by (simp add: hard_check_order_def)
    then show ?thesis using assms(1) by (simp add: run_hard_checks_iff daily_loss_reached_def hard_check_args_def)
  qed
  from assms(2) show ?thesis
  proof (cases rule: evaluate_cases)
    case hard
    then show ?thesis using v by simp
  next
    case (sized now snapshot plan)
    then show ?thesis using v [of now] by simp
  qed
qed

lemma risk_inputs_account:
  assumes "risk_inputs_of env p w now = Inr x" and "get_account (le_account_id (we_ledger env)) (wk_store w) = Some a"
  shows "ac_daily_pnl (ri_account x) = pa_daily_pnl a" and "ri_policy x = we_policy env"
  using assms by (auto simp: risk_inputs_of_def rbind_def ledger_account_state_def Let_def split: sum.splits option.splits if_splits)

text \<open>
  Once the daily loss limit is reached, the worker no longer closes positions. A proposal that the positions stage makes because
  a stop was crossed goes through the same hard checks as an entry; whatever it proposes, if the risk stage returns then its
  only output is a rejection that names the daily loss.
\<close>

lemma exit_blocked_by_daily_loss:
  assumes "get_account (le_account_id (we_ledger env)) (wk_store w) = Some a"
    and "pa_daily_pnl a \<le> dneg (rp_max_daily_loss (we_policy env))"
    and "ev_payload e = P_Proposal p" and "is_close (wk_ledger w) p" and "risk_process env t e w = (Inr outs, w')"
  shows "\<exists>d. outs = [make_event ''risk.rejected'' (P_Decision d) t] \<and> rd_decision d = RD_REJECT \<and> MAX_DAILY_LOSS_REACHED \<in> set (rd_reason_codes d)"
proof -
  obtain now x d w1 where r: "risk_inputs_of env p w1 now = Inr x" "evaluate (we_digest env) (we_uuid5 env) x = Some (Inr d)"
      "outs = [make_event (risk_event_name (rd_decision d)) (P_Decision d) t]" "wk_store w1 = wk_store w"
    by (rule risk_process_returns [OF assms(5,3)])
  have "get_account (le_account_id (we_ledger env)) (wk_store w1) = Some a" using assms(1) r(4) by simp
  from risk_inputs_account [OF r(1) this] assms(2) have "ac_daily_pnl (ri_account x) \<le> dneg (rp_max_daily_loss (ri_policy x))" by simp
  from daily_loss_hard [OF this r(2)] show ?thesis using r(3) by (auto simp: risk_event_name_def)
qed

definition example_held :: ledger_position where
  "example_held = \<lparr>lp_instrument_id = ''EURUSD'', lp_side = PS_LONG, lp_quantity = 1000, lp_average_entry_price = 11 / 10, lp_opened_at = 0,
     lp_venue_position_id = ''paper:EURUSD:0'', lp_order_intent_ids = [5], lp_entry_costs = 1, lp_stop_loss = Some (105 / 100),
     lp_take_profit = None\<rparr>"

definition example_losing_day :: worker where
  "example_losing_day = example_worker\<lparr>
     wk_ledger := (wk_ledger example_worker)\<lparr>lg_positions := [(''EURUSD'', example_held)]\<rparr>,
     wk_store := (wk_store example_worker)\<lparr>ps_accounts := [(''paper'', example_account\<lparr>pa_daily_pnl := - 1000, pa_balance := 49000,
       pa_equity := 49000, pa_realized_pnl := - 1000\<rparr>)]\<rparr>,
     wk_latest := [(''EURUSD'', example_snapshot)]\<rparr>"

text \<open>The proposal that the positions stage makes when the stop of the position above is crossed.\<close>

definition example_exit :: domain_event where
  "example_exit = make_event ''trade.proposal.created'' (P_Proposal (close_proposal example_worker_env example_instrument example_held 1 102 0 101)) 101"

theorem exit_blocked_by_daily_loss_witness:
  "level_crossed example_held (ms_mid example_snapshot) \<and>
   (\<exists>d. fst (risk_process example_worker_env 101 example_exit example_losing_day) = Inr [make_event ''risk.rejected'' (P_Decision d) 101] \<and>
     MAX_DAILY_LOSS_REACHED \<in> set (rd_reason_codes d))"
proof -
  let ?p = "close_proposal example_worker_env example_instrument example_held 1 102 0 101"
  have "\<not> isl (fst (risk_process example_worker_env 101 example_exit example_losing_day))" by code_simp
  then obtain outs where outs: "fst (risk_process example_worker_env 101 example_exit example_losing_day) = Inr outs" 
    by (cases "fst (risk_process example_worker_env 101 example_exit example_losing_day)") auto
  then have run: "risk_process example_worker_env 101 example_exit example_losing_day = (Inr outs, snd (risk_process example_worker_env 101 example_exit example_losing_day))"
    by (metis prod.collapse)
  let ?a = "example_account\<lparr>pa_daily_pnl := - 1000, pa_balance := 49000, pa_equity := 49000, pa_realized_pnl := - 1000\<rparr>"
  have a: "get_account (le_account_id (we_ledger example_worker_env)) (wk_store example_losing_day) = Some ?a"
    by (simp add: example_losing_day_def get_account_def example_worker_env_def example_ledger_env_def)
  have l: "pa_daily_pnl ?a \<le> dneg (rp_max_daily_loss (we_policy example_worker_env))" by code_simp
  have c: "is_close (wk_ledger example_losing_day) ?p" by code_simp
  have e: "ev_payload example_exit = P_Proposal ?p" by (simp add: example_exit_def make_event_def)
  have "level_crossed example_held (ms_mid example_snapshot)" by code_simp
  then show ?thesis using exit_blocked_by_daily_loss [OF a l e c run] outs by auto
qed

section \<open>A retried execution\<close>

text \<open>
  A retried execution reports nothing. The execution stage applies the fill, and then the framework publishes its events. If a
  publication fails the message is redelivered, but the order has left \<open>ORDER_INTENT\<close> by then: the second
  delivery returns no event, records success and acknowledges, so the events of the fill, and with them the close of the trade, are never published.
\<close>

lemma execution_retry_publishes_nothing:
  assumes "ev_trace_id e = Some t" and "ev_payload e = P_Intent i" and "we_operating_mode env = OM_PAPER"
    and "get_order (oi_order_intent_id i) (exec_of w) = Some r" and "or_state r \<noteq> OS_ORDER_INTENT"
    and "run_status t PS_EXECUTION w = Some PL_RUNNING"
  shows "\<exists>w'. handle_event env (execution_stage env) e w = (Inr [], w') \<and> succeeded t PS_EXECUTION w' \<and> wk_bus w' = wk_bus w \<and>
    lg_positions (wk_ledger w') = lg_positions (wk_ledger w) \<and> exec_of w' = exec_of w"
proof -
  obtain q w' where q: "handle_event env (execution_stage env) e w = (q, w')" by (cases "handle_event env (execution_stage env) e w")
  have n: "sg_name (execution_stage env) = PS_EXECUTION" by (simp add: execution_stage_def)
  have proc: "sg_process (execution_stage env) t e v = (Inr [], v)" if "frame w v" for v
    using assms that by (simp add: execution_stage_def execution_process_def frame_def)
  have new: "run_status t (sg_name (execution_stage env)) w \<notin> {Some PL_SUCCEEDED, Some PL_SKIPPED}" using assms(6) n by simp
  show ?thesis
  proof (cases rule: execution.handle_cases [OF assms(1) new q, consumes 0, case_names failed unpublished completed])
    case (failed x w2 w3)
    then show ?thesis using proc [of w2] by simp
  next
    case (unpublished x outs w2 w3)
    then show ?thesis using proc [of w2] by simp
  next
    case (completed outs w2 w3 w4)
    then have "outs = []" "w3 = w2" "w4 = w2" using proc [of w2] by auto
    then show ?thesis using completed q n by (auto simp: frame_def succeeded_status)
  qed
qed

definition example_buy :: order_intent where
  "example_buy = \<lparr>oi_order_intent_id = 5, oi_risk_decision_id = 7, oi_proposal_id = Some 11, oi_strategy_id = ''trend'', oi_strategy_version = ''1'',
     oi_instrument_id = ''EURUSD'', oi_operating_mode = OM_PAPER, oi_side = BUY, oi_order_type = MARKET, oi_time_in_force = GTC, oi_quantity = 2,
     oi_price = None, oi_stop_loss = Some (9 / 10), oi_take_profit = None, oi_max_slippage = 0, oi_sequence = 0, oi_valid_until = None,
     oi_created_by = ''apps.worker.order-intent'', oi_trace_id = Some 42, oi_produced_at = 0\<rparr>"

definition example_fill_report :: execution_report where
  "example_fill_report = \<lparr>er_execution_report_id = 900, er_order_intent_id = 5, er_venue_order_id = Some ''v1'', er_status = ES_FILLED,
     er_filled_quantity = 2, er_average_fill_price = Some 1, er_commission = 0, er_fees = 0, er_slippage = None, er_reject_reason = None,
     er_report_time = 0, er_sequence = 1\<rparr>"

text \<open>The paper venue fills the order; the first publication does not reach the stream.\<close>

definition example_flaky_env :: worker_env where
  "example_flaky_env = example_worker_env\<lparr>we_executor := (\<lambda>_. Some (\<lambda>_ _ _. Inr [example_fill_report])), we_publish_ok := (\<lambda>n. n \<noteq> 0)\<rparr>"

definition example_ready :: worker where
  "example_ready = example_worker\<lparr>
     wk_ledger := (wk_ledger example_worker)\<lparr>lg_exec := empty_store\<lparr>es_orders := [(5, example_order\<lparr>or_state := OS_ORDER_INTENT, or_submitted_at := None\<rparr>)],
       es_created_order := [(5, 100)]\<rparr>\<rparr>,
     wk_latest := [(''EURUSD'', example_snapshot)]\<rparr>"

definition example_intent_event :: domain_event where
  "example_intent_event = make_event ''order.intent.created'' (P_Intent example_buy) 42"

definition example_failed_once :: worker where
  "example_failed_once = snd (handle_event example_flaky_env (execution_stage example_flaky_env) example_intent_event example_ready)"

definition example_failure_summary :: "worker \<Rightarrow> order_state option \<times> pipeline_status option \<times> decimal list \<times> nat" where
  "example_failure_summary w = (map_option or_state (get_order 5 (exec_of w)), run_status 42 PS_EXECUTION w,
     map lp_quantity (open_positions (wk_ledger w)), length (bus_entries (wk_bus w)))"

lemma example_failure_value:
  "example_failure_summary example_failed_once = (Some OS_CLOSED, Some PL_RUNNING, [2], 0)"
  by code_simp

theorem execution_retry_publishes_nothing_witness:
  "let (q, w') = handle_event example_flaky_env (execution_stage example_flaky_env) example_intent_event example_failed_once
   in q = Inr [] \<and> succeeded 42 PS_EXECUTION w' \<and> bus_entries (wk_bus w') = [] \<and> map lp_quantity (open_positions (wk_ledger w')) = [2]"
proof -
  note v = example_failure_value [unfolded example_failure_summary_def]
  obtain r where r: "get_order 5 (exec_of example_failed_once) = Some r" "or_state r = OS_CLOSED" using v by auto
  have e: "ev_trace_id example_intent_event = Some 42" "ev_payload example_intent_event = P_Intent example_buy"
    by (simp_all add: example_intent_event_def make_event_def)
  have o: "get_order (oi_order_intent_id example_buy) (exec_of example_failed_once) = Some r" using r by (simp add: example_buy_def)
  have m: "we_operating_mode example_flaky_env = OM_PAPER" by (simp add: example_flaky_env_def example_worker_env_def)
  from execution_retry_publishes_nothing [OF e m o] r(2) v
  obtain w' where "handle_event example_flaky_env (execution_stage example_flaky_env) example_intent_event example_failed_once = (Inr [], w')"
      "succeeded 42 PS_EXECUTION w'" "wk_bus w' = wk_bus example_failed_once"
      "lg_positions (wk_ledger w') = lg_positions (wk_ledger example_failed_once)" by auto
  then show ?thesis using v by (simp add: open_positions_def)
qed

end
