(* ===== verification/Float64.thy ===== *)
theory Float64
  imports Decimal
begin

text \<open>
  Python's \<^verbatim>\<open>float\<close>, IEEE 754 binary64 with rounding to nearest even, as far as the code uses it: the four operations,
  the built-in \<open>sum\<close> (compensated since Python 3.12), \<open>round(x, n)\<close>, \<open>float(Decimal)\<close> and \<open>math.isclose\<close>.

  A float is modelled by its value, a rational number; \<open>fl\<close> rounds an exact result to the nearest float, gradual underflow
  included. The two zeros are one value, as they are for every comparison of the code. The values of the code (scores, shares, returns
  in percent) are far below the overflow threshold, so infinities and NaN are not represented.

  The lemmas say that \<open>fl\<close> is monotone, odd and the identity on floats, which bounds every rounded result between floats, and bound
  its error.
\<close>

type_synonym float64 = rat

subsection \<open>Powers of two and the binary exponent\<close>

definition pow2 :: "int \<Rightarrow> rat" where
  "pow2 e = (if 0 \<le> e then 2 ^ nat e else 1 / 2 ^ nat (- e))"

fun nbits :: "nat \<Rightarrow> nat" where
  "nbits n = (if n < 2 then 1 else Suc (nbits (n div 2)))"

declare nbits.simps [simp del]

definition exponent2 :: "rat \<Rightarrow> int" where
  "exponent2 x =
     (let (n, d) = quotient_of \<bar>x\<bar>;
          e = int (nbits (nat n)) - int (nbits (nat d))
      in if pow2 e \<le> \<bar>x\<bar> then e else e - 1)"

lemma pow2_powi: "pow2 e = 2 powi e"
  by (simp add: pow2_def power_int_def field_simps)

lemma pow2_pos [simp]: "0 < pow2 e"
  by (simp add: pow2_def)

lemma pow2_nonneg [simp]: "0 \<le> pow2 e"
  using pow2_pos [of e] by linarith

lemma pow2_nz [simp]: "pow2 e \<noteq> 0"
  using pow2_pos [of e] by linarith

lemma pow2_add: "pow2 (a + b) = pow2 a * pow2 b"
  by (simp add: pow2_powi power_int_add)

lemma pow2_diff: "pow2 (a - b) = pow2 a / pow2 b"
  by (simp add: pow2_powi power_int_diff)

lemma pow2_mono: "a \<le> b \<Longrightarrow> pow2 a \<le> pow2 b"
  by (simp add: pow2_powi power_int_increasing)

lemma pow2_of_nat: "pow2 (int n) = 2 ^ n"
  by (simp add: pow2_def)

lemma pow2_int: "0 \<le> e \<Longrightarrow> pow2 e = of_int (2 ^ nat e)"
  by (simp add: pow2_def)

lemma pow2_split: "q \<le> e \<Longrightarrow> pow2 e = of_int (2 ^ nat (e - q)) * pow2 q"
  using pow2_add [of "e - q" q] by (simp add: pow2_int)

lemma nbits_bounds: "0 < n \<Longrightarrow> 2 ^ (nbits n - 1) \<le> n \<and> n < 2 ^ nbits n"
proof (induction n rule: nbits.induct)
  case (1 n)
  show ?case
  proof (cases "n < 2")
    case True
    with "1.prems" show ?thesis by (simp add: nbits.simps [of n])
  next
    case False
    let ?m = "n div 2"
    from False have "0 < ?m" by simp
    with "1.IH" False have IH: "2 ^ (nbits ?m - 1) \<le> ?m" "?m < 2 ^ nbits ?m" by auto
    have "0 < nbits ?m" by (simp add: nbits.simps [of ?m])
    then obtain k where k: "nbits ?m = Suc k" using gr0_implies_Suc by blast
    have "nbits n = Suc (Suc k)" using False k by (simp add: nbits.simps [of n])
    moreover have "2 ^ Suc k \<le> n" "n < 2 ^ Suc (Suc k)" using IH k by simp_all
    ultimately show ?thesis by simp
  qed
qed

lemma nbits_rat_bounds:
  assumes "0 < n"
  shows "pow2 (int (nbits (nat n)) - 1) \<le> of_int n" and "of_int n < pow2 (int (nbits (nat n)))"
proof -
  have b: "2 ^ (nbits (nat n) - 1) \<le> nat n" "nat n < 2 ^ nbits (nat n)"
    using nbits_bounds [of "nat n"] assms by auto
  have n: "of_int n = (of_nat (nat n) :: rat)" using assms by simp
  have p: "int (nbits (nat n)) - 1 = int (nbits (nat n) - 1)"
    by (simp add: nbits.simps [of "nat n"])
  show "pow2 (int (nbits (nat n)) - 1) \<le> of_int n"
    using b(1) unfolding p pow2_of_nat n by (metis of_nat_le_iff of_nat_numeral of_nat_power)
  show "of_int n < pow2 (int (nbits (nat n)))"
    using b(2) unfolding pow2_of_nat n by (metis of_nat_less_iff of_nat_numeral of_nat_power)
qed

lemma exponent2_bounds:
  assumes "x \<noteq> 0"
  shows "pow2 (exponent2 x) \<le> \<bar>x\<bar>" and "\<bar>x\<bar> < pow2 (exponent2 x + 1)"
proof -
  obtain n d where q: "quotient_of \<bar>x\<bar> = (n, d)" by fastforce
  have d: "0 < d" using quotient_of_denom_pos [OF q] .
  have x: "\<bar>x\<bar> = of_int n / of_int d" using quotient_of_div [OF q] .
  have n: "0 < n"
  proof (rule ccontr)
    assume "\<not> 0 < n"
    then have "of_int n / of_int d \<le> (0::rat)" using d by (simp add: divide_nonpos_pos)
    with x assms show False by simp
  qed
  define a where "a = int (nbits (nat n))"
  define b where "b = int (nbits (nat d))"
  note nb = nbits_rat_bounds [OF n, folded a_def] and db = nbits_rat_bounds [OF d, folded b_def]
  have dpos: "(0::rat) < of_int d" using d by simp
  have "\<bar>x\<bar> < pow2 a / of_int d" using nb(2) dpos x by (simp add: divide_strict_right_mono)
  also have "\<dots> \<le> pow2 a / pow2 (b - 1)" using db(1) by (simp add: frac_le)
  finally have hi: "\<bar>x\<bar> < pow2 (a - b + 1)" by (simp add: pow2_diff [symmetric] algebra_simps)
  have "pow2 (a - b - 1) = pow2 (a - 1) / pow2 b" by (simp add: pow2_diff [symmetric] algebra_simps)
  also have "\<dots> \<le> pow2 (a - 1) / of_int d" using db(2) dpos by (simp add: frac_le)
  also have "\<dots> \<le> \<bar>x\<bar>" using nb(1) dpos x by (simp add: divide_right_mono)
  finally have lo: "pow2 (a - b - 1) \<le> \<bar>x\<bar>" .
  have e: "exponent2 x = (if pow2 (a - b) \<le> \<bar>x\<bar> then a - b else a - b - 1)"
    by (simp add: exponent2_def q a_def b_def)
  show "pow2 (exponent2 x) \<le> \<bar>x\<bar>" using e lo by (simp split: if_splits)
  show "\<bar>x\<bar> < pow2 (exponent2 x + 1)" using e hi by (simp split: if_splits)
qed

lemma exponent2_minus [simp]: "exponent2 (- x) = exponent2 x"
  by (simp add: exponent2_def)

lemma exponent2_mono:
  assumes "0 < x" and "x \<le> y"
  shows "exponent2 x \<le> exponent2 y"
proof (rule ccontr)
  assume "\<not> exponent2 x \<le> exponent2 y"
  then have "pow2 (exponent2 y + 1) \<le> pow2 (exponent2 x)" by (intro pow2_mono) simp
  with exponent2_bounds [of x] exponent2_bounds [of y] assms show False by simp
qed

subsection \<open>Rounding to the nearest float\<close>

text \<open>The exponent of the last place: 53 bits of precision, and no place below \<open>2 ^ -1074\<close>.\<close>

definition last_place :: "rat \<Rightarrow> int" where
  "last_place x = max (exponent2 x - 52) (- 1074)"

definition fl :: "rat \<Rightarrow> float64" where
  "fl x =
     (if x = 0 then 0
      else let q = pow2 (last_place x) in of_int (round_half_even (x / q)) * q)"

text \<open>The rationals that are floats.\<close>

definition is_float :: "rat \<Rightarrow> bool" where
  "is_float x \<longleftrightarrow> (\<exists>k e. x = of_int k * pow2 e \<and> \<bar>k\<bar> \<le> 2 ^ 53 \<and> - 1074 \<le> e)"

lemma is_floatI: "x = of_int k * pow2 e \<Longrightarrow> \<bar>k\<bar> \<le> 2 ^ 53 \<Longrightarrow> - 1074 \<le> e \<Longrightarrow> is_float x"
  by (auto simp: is_float_def)

lemma fl_0 [simp]: "fl 0 = 0"
  by (simp add: fl_def)

lemma fl_nz: "x \<noteq> 0 \<Longrightarrow> fl x = of_int (round_half_even (x / pow2 (last_place x))) * pow2 (last_place x)"
  by (simp add: fl_def Let_def)

lemma fl_minus: "fl (- x) = - fl x"
  by (simp add: fl_def Let_def last_place_def round_half_even_minus)

text \<open>A multiple of the last place is kept.\<close>

lemma fl_multiple:
  assumes "x = of_int k * pow2 e" and "last_place x \<le> e"
  shows "fl x = x"
proof (cases "x = 0")
  case False
  let ?q = "last_place x"
  have "pow2 (e - ?q) = of_int (2 ^ nat (e - ?q))" using assms(2) by (simp add: pow2_int)
  moreover have "x / pow2 ?q = of_int k * pow2 (e - ?q)"
    by (subst assms(1)) (simp only: pow2_diff [of e ?q] times_divide_eq_right)
  ultimately have "x / pow2 ?q = of_int (k * 2 ^ nat (e - ?q))" by (simp only: of_int_mult)
  then have "of_int (round_half_even (x / pow2 ?q)) = x / pow2 ?q"
    by (metis round_half_even_of_int)
  with False show ?thesis by (simp add: fl_nz)
qed simp

lemma fl_exact:
  assumes "is_float x"
  shows "fl x = x"
proof (cases "x = 0")
  case False
  obtain k e where x: "x = of_int k * pow2 e" and k: "\<bar>k\<bar> \<le> 2 ^ 53" and e: "- 1074 \<le> e"
    using assms by (auto simp: is_float_def)
  have "of_int \<bar>k\<bar> \<le> (of_int (2 ^ 53) :: rat)" using k by (simp only: of_int_le_iff)
  then have "\<bar>x\<bar> \<le> pow2 (53 + e)" using pow2_of_nat [of 53] by (simp add: x abs_mult pow2_add)
  show ?thesis
  proof (cases "exponent2 x \<le> 52 + e")
    case True
    with x e show ?thesis by (intro fl_multiple [of x k e]) (simp_all add: last_place_def)
  next
    case False
    then have le: "53 + e \<le> exponent2 x" by simp
    have "pow2 (53 + e) \<le> pow2 (exponent2 x)" using le by (rule pow2_mono)
    with \<open>\<bar>x\<bar> \<le> pow2 (53 + e)\<close> exponent2_bounds [OF \<open>x \<noteq> 0\<close>] have a: "\<bar>x\<bar> = pow2 (53 + e)" by simp
    have "exponent2 x = 53 + e"
    proof (rule ccontr)
      assume "exponent2 x \<noteq> 53 + e"
      with le have "pow2 (53 + e + 1) \<le> pow2 (exponent2 x)" by (intro pow2_mono) simp
      then have "pow2 (53 + e + 1) \<le> pow2 (53 + e)" using exponent2_bounds(1) [OF \<open>x \<noteq> 0\<close>] a by linarith
      then have "pow2 (53 + e) * 2 \<le> pow2 (53 + e)"
        unfolding pow2_add [of "53 + e" 1] using pow2_of_nat [of 1] by simp
      then show False using pow2_pos [of "53 + e"] by linarith
    qed
    moreover have "x = of_int (if 0 < x then 1 else - 1) * pow2 (53 + e)" using a by auto
    ultimately show ?thesis using e by (intro fl_multiple) (auto simp: last_place_def)
  qed
qed simp

text \<open>Every result is a float, so rounding is idempotent.\<close>

lemma is_float_fl: "is_float (fl x)"
proof (cases "x = 0")
  case True
  then show ?thesis by (simp add: is_floatI [of 0 0 0])
next
  case False
  let ?q = "pow2 (last_place x)"
  have "exponent2 x + 1 \<le> 53 + last_place x" by (simp add: last_place_def)
  then have "pow2 (exponent2 x + 1) \<le> pow2 (53 + last_place x)" by (rule pow2_mono)
  then have "\<bar>x\<bar> < 2 ^ 53 * ?q"
    using exponent2_bounds(2) [OF False] pow2_of_nat [of 53] by (simp add: pow2_add)
  then have "x / ?q \<le> of_int (2 ^ 53)" "of_int (- (2 ^ 53)) \<le> x / ?q"
    by (auto simp: abs_less_iff divide_le_eq le_divide_eq)
  then have "round_half_even (x / ?q) \<le> 2 ^ 53" "- (2 ^ 53) \<le> round_half_even (x / ?q)"
    using round_half_even_mono [of "x / ?q" "of_int (2 ^ 53)"]
      round_half_even_mono [of "of_int (- (2 ^ 53))" "x / ?q"]
    by (simp_all only: round_half_even_of_int)
  with False show ?thesis
    by (intro is_floatI [of _ "round_half_even (x / ?q)" "last_place x"])
      (simp_all add: fl_nz last_place_def abs_le_iff)
qed

lemma fl_idem [simp]: "fl (fl x) = fl x"
  by (rule fl_exact [OF is_float_fl])

text \<open>Rounding is monotone.\<close>

lemma fl_nonneg: "0 \<le> x \<Longrightarrow> 0 \<le> fl x"
proof (cases "x = 0")
  case False
  assume "0 \<le> x"
  then have "round_half_even (of_int 0) \<le> round_half_even (x / pow2 (last_place x))"
    by (intro round_half_even_mono) simp
  then have "0 \<le> round_half_even (x / pow2 (last_place x))" by (simp only: round_half_even_of_int)
  with False show ?thesis by (simp add: fl_nz)
qed simp

lemma fl_le_pow2:
  assumes "0 < x" and "- 1074 \<le> e"
  shows "x \<le> pow2 e \<Longrightarrow> fl x \<le> pow2 e" and "pow2 e \<le> x \<Longrightarrow> pow2 e \<le> fl x"
proof -
  let ?q = "last_place x"
  assume le: "x \<le> pow2 e"
  have "?q \<le> e"
  proof (rule ccontr)
    assume "\<not> ?q \<le> e"
    with assms(2) have "e + 1 \<le> exponent2 x" by (auto simp: last_place_def)
    then have "pow2 (e + 1) \<le> pow2 (exponent2 x)" by (rule pow2_mono)
    with exponent2_bounds(1) [of x] assms(1) le have "pow2 (e + 1) \<le> pow2 e" by simp
    then show False using pow2_add [of e 1] pow2_of_nat [of 1] pow2_pos [of e] by simp
  qed
  then have i: "pow2 e = of_int (2 ^ nat (e - ?q)) * pow2 ?q" by (rule pow2_split)
  then have "x / pow2 ?q \<le> of_int (2 ^ nat (e - ?q))" using le by (simp add: divide_le_eq)
  then have "round_half_even (x / pow2 ?q) \<le> 2 ^ nat (e - ?q)"
    using round_half_even_mono by (metis round_half_even_of_int)
  then have "of_int (round_half_even (x / pow2 ?q)) \<le> (of_int (2 ^ nat (e - ?q)) :: rat)"
    by (simp only: of_int_le_iff)
  then show "fl x \<le> pow2 e" using assms(1) unfolding i by (simp add: fl_nz mult_right_mono)
next
  let ?q = "last_place x"
  assume le: "pow2 e \<le> x"
  show "pow2 e \<le> fl x"
  proof (cases "?q \<le> e")
    case True
    then have i: "pow2 e = of_int (2 ^ nat (e - ?q)) * pow2 ?q" by (rule pow2_split)
    then have "of_int (2 ^ nat (e - ?q)) \<le> x / pow2 ?q" using le by (simp add: le_divide_eq)
    then have "2 ^ nat (e - ?q) \<le> round_half_even (x / pow2 ?q)"
      using round_half_even_mono by (metis round_half_even_of_int)
    then have "(of_int (2 ^ nat (e - ?q)) :: rat) \<le> of_int (round_half_even (x / pow2 ?q))"
      by (simp only: of_int_le_iff)
    then show ?thesis using assms(1) unfolding i by (simp add: fl_nz mult_right_mono)
  next
    case False
    with assms(2) have q: "?q = exponent2 x - 52" by (auto simp: last_place_def)
    have "pow2 ?q \<le> x" using exponent2_bounds(1) [of x] assms(1) pow2_mono [of ?q "exponent2 x"] q by simp
    then have "of_int 1 \<le> x / pow2 ?q" by (simp add: le_divide_eq)
    then have "1 \<le> round_half_even (x / pow2 ?q)" using round_half_even_mono by (metis round_half_even_of_int)
    then have "(of_int 1 :: rat) \<le> of_int (round_half_even (x / pow2 ?q))" by (simp only: of_int_le_iff)
    then have "pow2 ?q \<le> fl x" using assms(1) by (simp add: fl_nz)
    then show ?thesis using pow2_mono [of e ?q] False by simp
  qed
qed

lemma fl_mono_pos:
  assumes "0 < x" and "x \<le> y"
  shows "fl x \<le> fl y"
proof (cases "last_place x = last_place y")
  case True
  have "x / pow2 (last_place x) \<le> y / pow2 (last_place x)" using assms(2) by (simp add: divide_right_mono)
  then have "round_half_even (x / pow2 (last_place x)) \<le> round_half_even (y / pow2 (last_place x))"
    by (rule round_half_even_mono)
  with True assms show ?thesis by (simp add: fl_nz mult_right_mono)
next
  case False
  have m: "exponent2 x \<le> exponent2 y" using assms by (rule exponent2_mono)
  with False have e: "exponent2 x + 1 \<le> exponent2 y" "- 1074 \<le> exponent2 y"
    by (auto simp: last_place_def split: if_splits)
  have "x \<le> pow2 (exponent2 x + 1)" using exponent2_bounds(2) [of x] assms by simp
  also have "\<dots> \<le> pow2 (exponent2 y)" using e(1) by (rule pow2_mono)
  finally have "fl x \<le> pow2 (exponent2 y)" using assms(1) e(2) by (intro fl_le_pow2(1))
  also have "\<dots> \<le> fl y" using exponent2_bounds(1) [of y] assms e(2) by (intro fl_le_pow2(2)) simp_all
  finally show ?thesis .
qed

lemma fl_mono: "x \<le> y \<Longrightarrow> fl x \<le> fl y"
proof -
  assume xy: "x \<le> y"
  consider "0 < x" | "y < 0" | "x \<le> 0" "0 \<le> y" by linarith
  then show ?thesis
  proof cases
    case 1
    with xy show ?thesis by (intro fl_mono_pos)
  next
    case 2
    with xy have "fl (- y) \<le> fl (- x)" by (intro fl_mono_pos) simp_all
    then show ?thesis by (simp add: fl_minus)
  next
    case 3
    then have "0 \<le> fl y" "0 \<le> fl (- x)" by (simp_all add: fl_nonneg)
    then show ?thesis by (simp add: fl_minus)
  qed
qed

lemma fl_le: "x \<le> y \<Longrightarrow> is_float y \<Longrightarrow> fl x \<le> y"
  using fl_mono [of x y] by (simp add: fl_exact)

lemma fl_ge: "x \<le> y \<Longrightarrow> is_float x \<Longrightarrow> x \<le> fl y"
  using fl_mono [of x y] by (simp add: fl_exact)

text \<open>The error of one rounding.\<close>

lemma fl_error: "\<bar>fl x - x\<bar> \<le> \<bar>x\<bar> / 2 ^ 53 + pow2 (- 1075)"
proof (cases "x = 0")
  case False
  let ?q = "pow2 (last_place x)"
  have "fl x - x = (of_int (round_half_even (x / ?q)) - x / ?q) * ?q"
    using False by (simp add: fl_nz left_diff_distrib)
  then have "\<bar>fl x - x\<bar> = \<bar>of_int (round_half_even (x / ?q)) - x / ?q\<bar> * ?q"
    by (simp add: abs_mult)
  also have "\<dots> \<le> 1 / 2 * ?q" by (rule mult_right_mono [OF round_half_even_error]) simp
  also have "\<dots> \<le> \<bar>x\<bar> / 2 ^ 53 + pow2 (- 1075)"
  proof (cases "exponent2 x - 52 \<le> - 1074")
    case True
    then have "?q = pow2 (- 1075 + 1)" by (simp add: last_place_def)
    also have "\<dots> = pow2 (- 1075) * 2" using pow2_of_nat [of 1] by (simp only: pow2_add) simp
    finally show ?thesis by simp
  next
    case False
    then have "?q = pow2 (exponent2 x) / 2 ^ 52"
      using pow2_of_nat [of 52] by (simp add: last_place_def pow2_diff)
    then have "1 / 2 * ?q \<le> \<bar>x\<bar> / 2 ^ 53" using exponent2_bounds(1) [OF \<open>x \<noteq> 0\<close>] by simp
    then show ?thesis using pow2_nonneg [of "- 1075"] by linarith
  qed
  finally show ?thesis .
qed simp

subsection \<open>Floats at hand\<close>

lemma fl_of_int: "\<bar>k\<bar> \<le> 2 ^ 53 \<Longrightarrow> fl (of_int k) = of_int k"
  by (rule fl_exact, rule is_floatI [of _ k 0]) (simp_all add: pow2_def)

lemma is_float_0 [simp]: "is_float 0"
  by (rule is_floatI [of _ 0 0]) simp_all

lemma is_float_of_int: "\<bar>k\<bar> \<le> 2 ^ 53 \<Longrightarrow> is_float (of_int k)"
  by (rule is_floatI [of _ k 0]) (simp_all add: pow2_def)

lemma is_float_1 [simp]: "is_float 1"
  using is_float_of_int [of 1] by simp

lemma is_float_uminus [simp]: "is_float (- x) \<longleftrightarrow> is_float x"
proof -
  have "is_float y \<Longrightarrow> is_float (- y)" for y
    by (metis fl_exact fl_minus is_float_fl)
  from this [of x] this [of "- x"] show ?thesis by auto
qed

lemma is_float_iff: "is_float x \<longleftrightarrow> fl x = x"
  using fl_exact is_float_fl by metis

lemma fl_1 [simp]: "fl 1 = 1"
  by (simp add: fl_exact)

lemma fl_unit: "0 \<le> x \<Longrightarrow> x \<le> 1 \<Longrightarrow> 0 \<le> fl x \<and> fl x \<le> 1"
  by (simp add: fl_nonneg fl_le)

subsection \<open>Operations\<close>

definition fadd :: "float64 \<Rightarrow> float64 \<Rightarrow> float64" where "fadd x y = fl (x + y)"
definition fsub :: "float64 \<Rightarrow> float64 \<Rightarrow> float64" where "fsub x y = fl (x - y)"
definition fmul :: "float64 \<Rightarrow> float64 \<Rightarrow> float64" where "fmul x y = fl (x * y)"
definition fdiv :: "float64 \<Rightarrow> float64 \<Rightarrow> float64" where "fdiv x y = fl (x / y)"

text \<open>\<open>float(d)\<close> of a decimal, correctly rounded.\<close>

definition float_of_decimal :: "decimal \<Rightarrow> float64" where
  "float_of_decimal d = fl d"

text \<open>
  The built-in \<open>sum\<close> on floats: the partial sum is accompanied by a compensation (Neumaier), which is added at the end. Starting
  from the integer 0 the first element becomes the partial sum.
\<close>

fun sum_comp :: "float64 \<Rightarrow> float64 \<Rightarrow> float64 list \<Rightarrow> float64" where
  "sum_comp s c [] = (if c \<noteq> 0 then fadd s c else s)"
| "sum_comp s c (x # xs) =
     (let t = fadd s x;
          d = (if \<bar>x\<bar> \<le> \<bar>s\<bar> then fadd (fsub s t) x else fadd (fsub x t) s)
      in sum_comp t (fadd c d) xs)"

fun fsum :: "float64 list \<Rightarrow> float64" where
  "fsum [] = 0"
| "fsum (x # xs) = sum_comp x 0 xs"

text \<open>
  \<open>round(x, n)\<close>: the exact value is rounded half-even to \<open>n\<close> decimal places and the result read back as a float.
\<close>

definition pyround :: "nat \<Rightarrow> float64 \<Rightarrow> float64" where
  "pyround n x = fl (of_int (round_half_even (x * 10 ^ n)) / 10 ^ n)"

text \<open>\<open>math.isclose(a, b, abs_tol=tol)\<close> with the default relative tolerance.\<close>

definition isclose :: "float64 \<Rightarrow> float64 \<Rightarrow> float64 \<Rightarrow> bool" where
  "isclose tol a b \<longleftrightarrow>
     (let diff = \<bar>fsub b a\<bar>; rel = fl (1 / 10 ^ 9)
      in a = b \<or> diff \<le> \<bar>fmul rel b\<bar> \<or> diff \<le> \<bar>fmul rel a\<bar> \<or> diff \<le> tol)"

lemma is_float_ops [simp]: "is_float (fadd x y)" "is_float (fsub x y)" "is_float (fmul x y)" "is_float (fdiv x y)"
  "is_float (float_of_decimal d)" "is_float (pyround n x)"
  by (simp_all add: fadd_def fsub_def fmul_def fdiv_def float_of_decimal_def pyround_def is_float_fl)

lemma pyround_0 [simp]: "pyround n 0 = 0"
  using round_half_even_of_int [of 0] by (simp add: pyround_def)

lemma pyround_1 [simp]: "pyround n 1 = 1"
  using round_half_even_of_int [of "10 ^ n"] by (simp add: pyround_def)

lemma pyround_minus: "pyround n (- x) = - pyround n x"
  by (simp add: pyround_def round_half_even_minus fl_minus)

lemma pyround_mono: "x \<le> y \<Longrightarrow> pyround n x \<le> pyround n y"
  by (simp add: pyround_def fl_mono divide_right_mono round_half_even_mono mult_right_mono)

lemma pyround_unit: "0 \<le> x \<Longrightarrow> x \<le> 1 \<Longrightarrow> 0 \<le> pyround n x \<and> pyround n x \<le> 1"
  using pyround_mono [of 0 x n] pyround_mono [of x 1 n] by simp

lemma pyround_abs_le: "\<bar>x\<bar> \<le> 1 \<Longrightarrow> \<bar>pyround n x\<bar> \<le> 1"
  using pyround_mono [of "- 1" x n] pyround_mono [of x 1 n] by (simp add: abs_le_iff pyround_minus)

subsection \<open>Errors of bounded computations\<close>

text \<open>
  On values of magnitude at most 64 an operation errs by less than \<open>2 ^ -46\<close>. The sum of at most 16 values of the unit interval then
  errs by less than \<open>10 ^ -11\<close>.
\<close>

definition eps :: rat where
  "eps = 1 / 2 ^ 46"

lemma pow2_tiny: "pow2 (- 1075) \<le> 1 / 2 ^ 60"
  using pow2_mono [of "- 1075" "- 60"] by (simp add: pow2_def [of "- 60"])

lemma fl_error_64: "\<bar>x\<bar> \<le> 64 \<Longrightarrow> \<bar>fl x - x\<bar> \<le> eps"
  using fl_error [of x] pow2_tiny by (simp add: eps_def)

lemma fl_abs_le: "\<bar>x\<bar> \<le> y \<Longrightarrow> is_float y \<Longrightarrow> \<bar>fl x\<bar> \<le> y"
  using fl_le [of x y] fl_ge [of "- y" x] by (auto simp: abs_le_iff)

lemma fl_error_2: "\<bar>x\<bar> \<le> 2 \<Longrightarrow> \<bar>fl x - x\<bar> \<le> 1 / 2 ^ 51"
  using fl_error [of x] pow2_tiny by simp

lemma pyround_12_error:
  assumes "\<bar>x\<bar> \<le> 1"
  shows "\<bar>pyround 12 x - x\<bar> \<le> 1 / 10 ^ 12"
proof -
  define r where "r = of_int (round_half_even (x * 10 ^ 12)) / (10 ^ 12 :: rat)"
  have "\<bar>of_int (round_half_even (x * 10 ^ 12)) - x * 10 ^ 12\<bar> \<le> 1 / 2" by (rule round_half_even_error)
  moreover have "of_int (round_half_even (x * 10 ^ 12)) = r * 10 ^ 12" by (simp add: r_def)
  ultimately have "\<bar>r * 10 ^ 12 - x * 10 ^ 12\<bar> \<le> 1 / 2" by metis
  then have "\<bar>r - x\<bar> * 10 ^ 12 \<le> 1 / 2" by (simp only: left_diff_distrib [symmetric] abs_mult) simp
  then have e: "\<bar>r - x\<bar> \<le> (1 / 2) / 10 ^ 12" by (simp only: pos_le_divide_eq zero_less_power zero_less_numeral)
  then have "\<bar>r - x\<bar> \<le> 1" by simp
  then have "\<bar>r\<bar> \<le> 2" using assms by linarith
  then have "\<bar>fl r - r\<bar> \<le> 1 / 2 ^ 51" by (rule fl_error_2)
  moreover have "1 / 2 / 10 ^ 12 + 1 / 2 ^ 51 \<le> (1 / 10 ^ 12 :: rat)" by simp
  ultimately have "\<bar>fl r - x\<bar> \<le> 1 / 10 ^ 12" using e by linarith
  then show ?thesis by (simp only: pyround_def r_def)
qed

lemma fadd_error: "\<bar>x + y\<bar> \<le> 64 \<Longrightarrow> \<bar>fadd x y - (x + y)\<bar> \<le> eps"
  by (simp add: fadd_def fl_error_64)

lemma fsub_error: "\<bar>x - y\<bar> \<le> 64 \<Longrightarrow> \<bar>fsub x y - (x - y)\<bar> \<le> eps"
  by (simp add: fsub_def fl_error_64)

lemma compensation_small:
  assumes "\<bar>t - (s + x)\<bar> \<le> eps" and "\<bar>s\<bar> \<le> 20" and "\<bar>x\<bar> \<le> 20"
  shows "\<bar>fadd (fsub s t) x\<bar> \<le> 3 * eps"
proof -
  have e: "0 \<le> eps" "eps \<le> 1" by (simp_all add: eps_def)
  have "\<bar>s - t\<bar> \<le> 64" using assms e by linarith
  then have a: "\<bar>fsub s t - (s - t)\<bar> \<le> eps" by (rule fsub_error)
  then have "\<bar>fsub s t + x\<bar> \<le> 2 * eps" using assms(1) by linarith
  moreover from this have "\<bar>fadd (fsub s t) x - (fsub s t + x)\<bar> \<le> eps"
    using e by (intro fadd_error) linarith
  ultimately show ?thesis by linarith
qed

lemma sum_comp_error:
  assumes "\<bar>s - S\<bar> \<le> k * eps" and "\<bar>c\<bar> \<le> 4 * k * eps" and "\<bar>S\<bar> \<le> k"
    and "k + of_nat (length xs) \<le> 16" and "\<forall>x\<in>set xs. \<bar>x\<bar> \<le> 1"
  shows "\<bar>sum_comp s c xs - (S + sum_list xs)\<bar> \<le> 100 * eps"
  using assms
proof (induction xs arbitrary: s c S k)
  case Nil
  have k: "0 \<le> k" "k \<le> 16" using Nil.prems(3,4) by auto
  have e: "0 \<le> eps" "81 * eps \<le> 1" by (simp_all add: eps_def)
  have ke: "k * eps \<le> 16 * eps" using k e by (intro mult_right_mono) simp_all
  have c: "\<bar>c\<bar> \<le> 64 * eps" using Nil.prems(2) ke by linarith
  have "\<bar>s + c\<bar> \<le> 64" using Nil.prems(1,3) ke c e k by linarith
  then have "\<bar>fadd s c - (s + c)\<bar> \<le> eps" by (rule fadd_error)
  then show ?case using Nil.prems(1) ke c e by (auto split: if_splits)
next
  case (Cons x xs)
  have k: "0 \<le> k" "k \<le> 15" and x: "\<bar>x\<bar> \<le> 1" using Cons.prems(3,4,5) by auto
  have e: "0 \<le> eps" "100 * eps \<le> 1" by (simp_all add: eps_def)
  have ke: "k * eps \<le> 15 * eps" using k e by (intro mult_right_mono) simp_all
  have s: "\<bar>s\<bar> \<le> 16" using Cons.prems(1,3) ke e k by linarith
  define t where "t = fadd s x"
  define d where "d = (if \<bar>x\<bar> \<le> \<bar>s\<bar> then fadd (fsub s t) x else fadd (fsub x t) s)"
  have t: "\<bar>t - (s + x)\<bar> \<le> eps" unfolding t_def using s x by (intro fadd_error) linarith
  have d: "\<bar>d\<bar> \<le> 3 * eps"
    using compensation_small [of t s x] compensation_small [of t x s] t s x
    by (auto simp: d_def add.commute)
  have "\<bar>c + d\<bar> \<le> 64" using Cons.prems(2) d ke e by linarith
  then have "\<bar>fadd c d - (c + d)\<bar> \<le> eps" by (rule fadd_error)
  then have c: "\<bar>fadd c d\<bar> \<le> 4 * (k + 1) * eps" using Cons.prems(2) d by (simp add: algebra_simps)
  have "\<bar>t - (S + x)\<bar> \<le> (k + 1) * eps" using t Cons.prems(1) by (simp add: algebra_simps)
  moreover note c
  moreover have "\<bar>S + x\<bar> \<le> k + 1" using Cons.prems(3) x by linarith
  moreover have "(k + 1) + of_nat (length xs) \<le> 16" using Cons.prems(4) by simp
  moreover have "\<forall>y\<in>set xs. \<bar>y\<bar> \<le> 1" using Cons.prems(5) by simp
  ultimately have "\<bar>sum_comp t (fadd c d) xs - (S + x + sum_list xs)\<bar> \<le> 100 * eps" by (rule Cons.IH)
  then show ?case by (simp add: t_def [symmetric] d_def [symmetric] Let_def add.assoc)
qed

lemma fsum_error:
  assumes "length xs \<le> 16" and "\<forall>x\<in>set xs. \<bar>x\<bar> \<le> 1"
  shows "\<bar>fsum xs - sum_list xs\<bar> \<le> 1 / 10 ^ 11"
proof (cases xs)
  case (Cons x ys)
  have "\<bar>sum_comp x 0 ys - (x + sum_list ys)\<bar> \<le> 100 * eps"
    using assms Cons by (intro sum_comp_error [where k = 1]) (auto simp: eps_def)
  moreover have "100 * eps \<le> 1 / 10 ^ 11" by (simp add: eps_def)
  ultimately show ?thesis using Cons by simp
qed simp

subsection \<open>Evaluation\<close>

text \<open>Code equations over the integers, for the evaluation of concrete inputs.\<close>

fun ibits :: "int \<Rightarrow> int" where
  "ibits n = (if n < 2 then 1 else 1 + ibits (n div 2))"

declare ibits.simps [simp del]

lemma nbits_nat: "int (nbits (nat n)) = ibits n"
proof (induction n rule: ibits.induct)
  case (1 n)
  show ?case
  proof (cases "n < 2")
    case True
    then have "nat n < 2" by linarith
    with True show ?thesis by (simp add: nbits.simps [of "nat n"] ibits.simps [of n])
  next
    case False
    then have "nat n div 2 = nat (n div 2)" "\<not> nat n < 2" by (simp_all add: nat_div_distrib)
    with False 1 show ?thesis by (simp add: nbits.simps [of "nat n"] ibits.simps [of n])
  qed
qed

lemma exponent2_code [code]:
  "exponent2 x =
     (let (n, d) = quotient_of \<bar>x\<bar>; e = ibits n - ibits d
      in if pow2 e \<le> \<bar>x\<bar> then e else e - 1)"
  by (simp add: exponent2_def nbits_nat split_def Let_def)

lemma pow2_code [code]:
  "pow2 e = (if 0 \<le> e then of_int (2 ^ nat e) else 1 / of_int (2 ^ nat (- e)))"
  by (simp add: pow2_def)

end
