(* ===== verification/Signal_Fusion.thy ===== *)
theory Signal_Fusion
  imports Float64 Canonical_Json
begin

text \<open>
  The signal fusion engine: the signal contracts of \<^verbatim>\<open>core/schemas/signals.py\<close> and \<^verbatim>\<open>core/schemas/fusion.py\<close>, the configuration of
  \<^verbatim>\<open>engines/signal_fusion/config.py\<close> and the fusion of \<^verbatim>\<open>engines/signal_fusion/fusion.py\<close>.

  The inputs have four fixed names, here the constructors of \<open>component\<close>; a Python dict over names is an association list in the
  order of insertion. A pydantic validator is a bool-valued function, building an invalid model raises
  \<open>ValidationError\<close>. SHA-256 and UUIDv5 are parameters. Reasoning texts, committee and evidence of the signals play no part in the fusion and are
  left out.
\<close>

section \<open>Contracts\<close>

datatype fusion_error =
    FusionError string
  | CalibrationInsufficientDataError
  | ValidationError string
  | ZipLengthError
  | UnreachableAssertion
  | ZeroDivisionError

datatype component = QUANT | LLM | REGIME | MEMORY

fun component_name :: "component \<Rightarrow> string" where
  "component_name QUANT = ''quant''"
| "component_name LLM = ''llm''"
| "component_name REGIME = ''regime''"
| "component_name MEMORY = ''memory''"

definition component_names :: "component list" where
  "component_names = [QUANT, LLM, REGIME, MEMORY]"

fun component_index :: "component \<Rightarrow> int" where
  "component_index QUANT = 0"
| "component_index LLM = 1"
| "component_index REGIME = 2"
| "component_index MEMORY = 3"

record quant_signal =
  qs_signal_id :: uuid
  qs_instrument_id :: string
  qs_direction :: signal_direction
  qs_strength :: float64
  qs_score :: "float64 option"
  qs_confidence :: float64
  qs_horizon_seconds :: "int option"
  qs_expected_return :: "float64 option"
  qs_model_id :: string
  qs_model_version :: string
  qs_as_of :: instant

record llm_signal =
  ls_signal_id :: uuid
  ls_instrument_id :: string
  ls_direction :: signal_direction
  ls_strength :: float64
  ls_confidence :: float64
  ls_model_name :: string
  ls_provider :: string
  ls_prompt_version :: string
  ls_as_of :: instant

record regime_context =
  rc_regime :: string
  rc_direction :: signal_direction
  rc_score :: float64
  rc_confidence :: float64
  rc_classifier_version :: string
  rc_as_of :: instant

record memory_context =
  mc_direction :: signal_direction
  mc_score :: float64
  mc_confidence :: float64
  mc_memory_version :: string
  mc_as_of :: instant

record fusion_inputs =
  fi_quant :: "quant_signal option"
  fi_llm :: "llm_signal option"
  fi_regime :: "regime_context option"
  fi_memory :: "memory_context option"

definition unit_float :: "float64 \<Rightarrow> bool" where
  "unit_float x \<longleftrightarrow> is_float x \<and> 0 \<le> x \<and> x \<le> 1"

definition quant_signal_ok :: "quant_signal \<Rightarrow> bool" where
  "quant_signal_ok q \<longleftrightarrow> qs_instrument_id q \<noteq> [] \<and> unit_float (qs_strength q) \<and> unit_float (qs_confidence q) \<and>
     (case qs_horizon_seconds q of None \<Rightarrow> True | Some h \<Rightarrow> 0 \<le> h) \<and> qs_model_id q \<noteq> [] \<and> qs_model_version q \<noteq> []"

definition llm_signal_ok :: "llm_signal \<Rightarrow> bool" where
  "llm_signal_ok l \<longleftrightarrow> ls_instrument_id l \<noteq> [] \<and> unit_float (ls_strength l) \<and> unit_float (ls_confidence l) \<and>
     ls_model_name l \<noteq> [] \<and> ls_provider l \<noteq> [] \<and> ls_prompt_version l \<noteq> []"

definition regime_context_ok :: "regime_context \<Rightarrow> bool" where
  "regime_context_ok r \<longleftrightarrow> rc_regime r \<noteq> [] \<and> unit_float (rc_score r) \<and> unit_float (rc_confidence r) \<and>
     rc_classifier_version r \<noteq> []"

definition memory_context_ok :: "memory_context \<Rightarrow> bool" where
  "memory_context_ok m \<longleftrightarrow> unit_float (mc_score m) \<and> unit_float (mc_confidence m) \<and> mc_memory_version m \<noteq> []"

definition fusion_inputs_ok :: "fusion_inputs \<Rightarrow> bool" where
  "fusion_inputs_ok i \<longleftrightarrow> pred_option quant_signal_ok (fi_quant i) \<and> pred_option llm_signal_ok (fi_llm i) \<and>
     pred_option regime_context_ok (fi_regime i) \<and> pred_option memory_context_ok (fi_memory i)"

fun is_present :: "fusion_inputs \<Rightarrow> component \<Rightarrow> bool" where
  "is_present i QUANT = (fi_quant i \<noteq> None)"
| "is_present i LLM = (fi_llm i \<noteq> None)"
| "is_present i REGIME = (fi_regime i \<noteq> None)"
| "is_present i MEMORY = (fi_memory i \<noteq> None)"

text \<open>\<open>FusionInputs.available\<close>.\<close>

definition available :: "fusion_inputs \<Rightarrow> component list" where
  "available i = filter (is_present i) component_names"

record signal_component =
  sc_name :: component
  sc_score :: float64
  sc_weight :: float64

definition signal_component_ok :: "signal_component \<Rightarrow> bool" where
  "signal_component_ok c \<longleftrightarrow> - 1 \<le> sc_score c \<and> sc_score c \<le> 1 \<and> 0 \<le> sc_weight c \<and> sc_weight c \<le> 1"

datatype disagreement_policy = NEUTRALIZE | TRUST_HIGHER_CONFIDENCE | REQUIRE_CONSENSUS

datatype missing_signal_policy = RENORMALIZE | REQUIRE_QUANT

record disagreement_record =
  dr_components :: "component list"
  dr_policy_applied :: disagreement_policy
  dr_winner :: "component option"

record fused_signal =
  fs_signal_id :: uuid
  fs_instrument_id :: string
  fs_direction :: signal_direction
  fs_fused_strength :: float64
  fs_confidence :: float64
  fs_components :: "signal_component list"
  fs_calibration_version :: string
  fs_calibration_notes :: "string option"
  fs_compared_against :: "string list"
  fs_missing_inputs :: "component list"
  fs_disagreements :: "disagreement_record list"
  fs_as_of :: instant
  fs_produced_at :: instant
  fs_trace_id :: "uuid option"

text \<open>\<open>FusedSignal._check_weights\<close>, in the order of its checks.\<close>

definition check_weights :: "fused_signal \<Rightarrow> fusion_error + unit" where
  "check_weights f =
     (let tol = fl (1 / 10 ^ 9);
          weight_sum = fsum (map sc_weight (fs_components f));
          net = fsum (map (\<lambda>c. fmul (sc_score c) (sc_weight c)) (fs_components f))
      in if \<not> isclose tol weight_sum 1 then Inl (ValidationError ''component weights must sum to 1.0'')
         else if \<not> isclose tol \<bar>net\<bar> (fs_fused_strength f) then Inl (ValidationError ''fused_strength must equal the absolute weighted sum'')
         else if 0 < net \<and> fs_direction f \<noteq> SD_LONG then Inl (ValidationError ''positive net score requires direction LONG'')
         else if net < 0 \<and> fs_direction f \<noteq> SD_SHORT then Inl (ValidationError ''negative net score requires direction SHORT'')
         else if isclose tol net 0 \<and> (fs_direction f \<noteq> SD_FLAT \<or> \<not> isclose tol (fs_fused_strength f) 0)
         then Inl (ValidationError ''a FLAT fused signal requires zero net score and zero strength'')
         else Inr ())"

definition fused_fields_ok :: "fused_signal \<Rightarrow> bool" where
  "fused_fields_ok f \<longleftrightarrow> fs_instrument_id f \<noteq> [] \<and> 0 \<le> fs_fused_strength f \<and> fs_fused_strength f \<le> 1 \<and>
     0 \<le> fs_confidence f \<and> fs_confidence f \<le> 1 \<and> fs_components f \<noteq> [] \<and> list_all signal_component_ok (fs_components f) \<and>
     fs_calibration_version f \<noteq> []"

definition build_fused_signal :: "fused_signal \<Rightarrow> fusion_error + fused_signal" where
  "build_fused_signal f =
     (if fused_fields_ok f then rbind (check_weights f) (\<lambda>_. Inr f) else Inl (ValidationError ''field constraint''))"

section \<open>Configuration\<close>

record component_weights =
  cw_quant_bp :: int
  cw_llm_bp :: int
  cw_regime_bp :: int
  cw_memory_bp :: int

fun bp_for :: "component_weights \<Rightarrow> component \<Rightarrow> int" where
  "bp_for w QUANT = cw_quant_bp w"
| "bp_for w LLM = cw_llm_bp w"
| "bp_for w REGIME = cw_regime_bp w"
| "bp_for w MEMORY = cw_memory_bp w"

definition component_weights_ok :: "component_weights \<Rightarrow> bool" where
  "component_weights_ok w \<longleftrightarrow> list_all (\<lambda>c. 0 \<le> bp_for w c \<and> bp_for w c \<le> 10000) component_names \<and>
     cw_quant_bp w + cw_llm_bp w + cw_regime_bp w + cw_memory_bp w = 10000"

record confidence_map =
  cm_x :: "float64 list"
  cm_y :: "float64 list"

text \<open>
  \<open>any(p(a, b) for a, b in zip(xs, ys, strict=True))\<close>: \<open>any\<close> stops at the first hit; when one list ends before the other without a
  hit, \<open>zip\<close> raises.
\<close>

fun zip_strict_any :: "('a \<Rightarrow> 'b \<Rightarrow> bool) \<Rightarrow> 'a list \<Rightarrow> 'b list \<Rightarrow> fusion_error + bool" where
  "zip_strict_any p [] [] = Inr False"
| "zip_strict_any p (x # xs) (y # ys) = (if p x y then Inr True else zip_strict_any p xs ys)"
| "zip_strict_any p _ _ = Inl ZipLengthError"

text \<open>\<open>ConfidenceMap._check_shape\<close>. A \<open>ValueError\<close> inside the validator is reported as a \<open>ValidationError\<close>.\<close>

definition check_shape :: "confidence_map \<Rightarrow> fusion_error + unit" where
  "check_shape m =
     (if length (cm_x m) \<noteq> length (cm_y m) then Inl (ValidationError ''x and y must have the same length'')
      else rbind (if 1 < length (cm_x m) then zip_strict_any (\<lambda>a b. b \<le> a) (cm_x m) (tl (cm_x m)) else Inr False) (\<lambda>decreasing.
        if decreasing then Inl (ValidationError ''x breakpoints must be strictly increasing'')
        else if list_ex (\<lambda>v. v < 0 \<or> 1 < v) (cm_y m) then Inl (ValidationError ''calibrated confidence values must be in [0, 1]'')
        else Inr ()))"

definition confidence_map_ok :: "confidence_map \<Rightarrow> bool" where
  "confidence_map_ok m \<longleftrightarrow> check_shape m = Inr ()"

text \<open>The loop of \<open>ConfidenceMap.map\<close> over adjacent breakpoints, again by a strict \<open>zip\<close>.\<close>

fun interpolate :: "float64 \<Rightarrow> float64 list \<Rightarrow> float64 list \<Rightarrow> float64 list \<Rightarrow> fusion_error + float64" where
  "interpolate raw (lo # xs) (hi # xs') (y # ys) =
     (if lo \<le> raw \<and> raw \<le> hi
      then if hi = lo then Inr y
           else let ratio = fdiv (fsub raw lo) (fsub hi lo) in Inr (fadd y (fmul ratio (fsub (hd ys) y)))
      else interpolate raw xs xs' ys)"
| "interpolate raw [] [] _ = Inl UnreachableAssertion"
| "interpolate raw _ _ _ = Inl ZipLengthError"

definition map_confidence :: "confidence_map \<Rightarrow> float64 \<Rightarrow> fusion_error + float64" where
  "map_confidence m raw =
     (if cm_x m = [] then Inr raw
      else if raw \<le> hd (cm_x m) then Inr (hd (cm_y m))
      else if last (cm_x m) \<le> raw then Inr (last (cm_y m))
      else interpolate raw (cm_x m) (tl (cm_x m)) (cm_y m))"

record fusion_config =
  fc_name :: string
  fc_version :: string
  fc_default_weights :: component_weights
  fc_regime_weights :: "(string, component_weights) dict"
  fc_confidence_calibration :: "(string, confidence_map) dict"
  fc_disagreement_policy :: disagreement_policy
  fc_missing_policy :: missing_signal_policy
  fc_flat_threshold :: float64
  fc_compared_against :: "string list"
  fc_notes :: "string option"

definition fusion_config_ok :: "fusion_config \<Rightarrow> bool" where
  "fusion_config_ok c \<longleftrightarrow> fc_name c \<noteq> [] \<and> fc_version c \<noteq> [] \<and> component_weights_ok (fc_default_weights c) \<and>
     list_all (\<lambda>(_, w). component_weights_ok w) (fc_regime_weights c) \<and>
     list_all (\<lambda>(_, m). confidence_map_ok m) (fc_confidence_calibration c) \<and>
     unit_float (fc_flat_threshold c) \<and> fc_version c \<noteq> ''uncalibrated''"

definition weights_for_regime :: "fusion_config \<Rightarrow> string option \<Rightarrow> component_weights" where
  "weights_for_regime c regime =
     (case Option.bind regime (map_of (fc_regime_weights c)) of Some w \<Rightarrow> w | None \<Rightarrow> fc_default_weights c)"

definition calibrated_confidence :: "fusion_config \<Rightarrow> component \<Rightarrow> string \<Rightarrow> float64 \<Rightarrow> fusion_error + float64" where
  "calibrated_confidence c cmp producer_key raw =
     (case map_of (fc_confidence_calibration c) (component_name cmp @ '':'' @ producer_key) of
        None \<Rightarrow> Inr raw
      | Some m \<Rightarrow> map_confidence m raw)"

section \<open>Fusion\<close>

fun direction_sign :: "signal_direction \<Rightarrow> float64" where
  "direction_sign SD_LONG = 1"
| "direction_sign SD_SHORT = - 1"
| "direction_sign SD_FLAT = 0"

text \<open>A dict that has an entry for each present input, in canonical order.\<close>

definition per_component ::
    "(quant_signal \<Rightarrow> 'a) \<Rightarrow> (llm_signal \<Rightarrow> 'a) \<Rightarrow> (regime_context \<Rightarrow> 'a) \<Rightarrow> (memory_context \<Rightarrow> 'a) \<Rightarrow> fusion_inputs \<Rightarrow> (component, 'a) dict" where
  "per_component q l r m i =
     (case fi_quant i of None \<Rightarrow> [] | Some x \<Rightarrow> [(QUANT, q x)]) @
     (case fi_llm i of None \<Rightarrow> [] | Some x \<Rightarrow> [(LLM, l x)]) @
     (case fi_regime i of None \<Rightarrow> [] | Some x \<Rightarrow> [(REGIME, r x)]) @
     (case fi_memory i of None \<Rightarrow> [] | Some x \<Rightarrow> [(MEMORY, m x)])"

definition signed_scores :: "fusion_inputs \<Rightarrow> (component, float64) dict" where
  "signed_scores =
     per_component (\<lambda>q. fmul (direction_sign (qs_direction q)) (qs_strength q)) (\<lambda>l. fmul (direction_sign (ls_direction l)) (ls_strength l))
       (\<lambda>r. fmul (direction_sign (rc_direction r)) (rc_score r)) (\<lambda>m. fmul (direction_sign (mc_direction m)) (mc_score m))"

definition raw_confidences :: "fusion_inputs \<Rightarrow> (component, float64) dict" where
  "raw_confidences = per_component qs_confidence ls_confidence rc_confidence mc_confidence"

definition producer_keys :: "fusion_inputs \<Rightarrow> (component, string) dict" where
  "producer_keys = per_component qs_model_id ls_model_name rc_classifier_version mc_memory_version"

definition input_as_of :: "fusion_inputs \<Rightarrow> (component, instant) dict" where
  "input_as_of = per_component qs_as_of ls_as_of rc_as_of mc_as_of"

text \<open>\<open>d[name]\<close>; every lookup of the engine is at a present input and finds its key (\<open>per_component_lookup\<close>).\<close>

definition item :: "('k, 'v) dict \<Rightarrow> 'k \<Rightarrow> 'v" where
  "item d k = the (map_of d k)"

text \<open>The remainder of an equal split goes to the first components.\<close>

fun spread :: "component list \<Rightarrow> int \<Rightarrow> (component, int) dict \<Rightarrow> (component, int) dict" where
  "spread [] remainder d = d"
| "spread (n # ns) remainder d =
     (if remainder \<le> 0 then d
      else case map_of d n of
        None \<Rightarrow> spread ns remainder d
      | Some v \<Rightarrow> spread ns (remainder - 1) (AList.update n (v + 1) d))"

definition equal_split :: "component list \<Rightarrow> (component, int) dict" where
  "equal_split names =
     (let n = int (length names) in spread component_names (10000 mod n) (map (\<lambda>c. (c, 10000 div n)) names))"

definition renormalized_weights :: "component_weights \<Rightarrow> component list \<Rightarrow> (component, float64) dict" where
  "renormalized_weights w names =
     (let total_bp = sum_list (map (bp_for w) names)
      in if total_bp = 0
         then map (\<lambda>c. (c, pyround 12 (fl (of_int (item (equal_split names) c) / 10000)))) names
         else map (\<lambda>c. (c, pyround 12 (fl (of_int (bp_for w c) / of_int total_bp)))) names)"

fun max_by :: "('a \<Rightarrow> 'a \<Rightarrow> bool) \<Rightarrow> 'a \<Rightarrow> 'a list \<Rightarrow> 'a" where
  "max_by gt best [] = best"
| "max_by gt best (x # xs) = max_by gt (if gt x best then x else best) xs"

definition resolve_disagreements ::
    "(component, float64) dict \<Rightarrow> (component, float64) dict \<Rightarrow> disagreement_policy \<Rightarrow>
     (component, float64) dict \<times> disagreement_record list" where
  "resolve_disagreements scores confidences policy =
     (let directional = filter (\<lambda>c. c \<in> fst ` set scores \<and> item scores c \<noteq> 0) component_names;
          long_voters = filter (\<lambda>c. 0 < item scores c) directional;
          short_voters = filter (\<lambda>c. item scores c < 0) directional;
          voters = long_voters @ short_voters
      in if long_voters = [] \<or> short_voters = [] then (scores, [])
         else case policy of
           NEUTRALIZE \<Rightarrow> (scores, [\<lparr>dr_components = voters, dr_policy_applied = policy, dr_winner = None\<rparr>])
         | REQUIRE_CONSENSUS \<Rightarrow>
             (map (\<lambda>(c, s). (c, if c \<in> set directional then 0 else s)) scores,
              [\<lparr>dr_components = voters, dr_policy_applied = policy, dr_winner = None\<rparr>])
         | TRUST_HIGHER_CONFIDENCE \<Rightarrow>
             (let gt = (\<lambda>a b. item confidences b < item confidences a \<or>
                         item confidences b = item confidences a \<and> component_index a < component_index b);
                  winner = max_by gt (hd voters) (tl voters)
              in (map (\<lambda>(c, s). (c, if c \<in> set voters \<and> c \<noteq> winner then 0 else s)) scores,
                  [\<lparr>dr_components = voters, dr_policy_applied = policy, dr_winner = Some winner\<rparr>])))"

definition net_and_direction :: "(component, float64) dict \<Rightarrow> (component, float64) dict \<Rightarrow> float64" where
  "net_and_direction scores weights = pyround 12 (fsum (map (\<lambda>(c, w). fmul (item scores c) w) weights))"

fun traverse :: "('a \<Rightarrow> 'e + 'b) \<Rightarrow> 'a list \<Rightarrow> 'e + 'b list" where
  "traverse f [] = Inr []"
| "traverse f (x # xs) = rbind (f x) (\<lambda>y. rbind (traverse f xs) (\<lambda>ys. Inr (y # ys)))"

definition instrument_of :: "fusion_inputs \<Rightarrow> fusion_error + string" where
  "instrument_of i =
     (case (fi_quant i, fi_llm i) of
        (None, None) \<Rightarrow> Inl (FusionError ''no fusion input carries an instrument_id'')
      | (Some q, Some l) \<Rightarrow>
          (if qs_instrument_id q \<noteq> ls_instrument_id l then Inl (FusionError ''fusion inputs disagree on instrument'')
           else Inr (qs_instrument_id q))
      | (Some q, None) \<Rightarrow> Inr (qs_instrument_id q)
      | (None, Some l) \<Rightarrow> Inr (ls_instrument_id l))"

text \<open>
  The canonical JSON that is hashed into the signal id: the floats of the inputs are rounded to 12 places, those of the configuration
  are written as they are.
\<close>

datatype fusion_json =
    FJ_Null
  | FJ_Str string
  | FJ_Int int
  | FJ_Float float64
  | FJ_Uuid uuid
  | FJ_Datetime instant
  | FJ_Arr "fusion_json list"
  | FJ_Obj "(string \<times> fusion_json) list"

definition fj_opt :: "('a \<Rightarrow> fusion_json) \<Rightarrow> 'a option \<Rightarrow> fusion_json" where
  "fj_opt leaf x = (case x of None \<Rightarrow> FJ_Null | Some v \<Rightarrow> leaf v)"

definition quant_json :: "quant_signal \<Rightarrow> fusion_json" where
  "quant_json q =
     FJ_Obj [(''signal_id'', FJ_Uuid (qs_signal_id q)), (''direction'', FJ_Str (signal_direction_value (qs_direction q))),
       (''strength'', FJ_Float (pyround 12 (qs_strength q))), (''confidence'', FJ_Float (pyround 12 (qs_confidence q))),
       (''score'', fj_opt FJ_Float (qs_score q)), (''model_id'', FJ_Str (qs_model_id q)),
       (''model_version'', FJ_Str (qs_model_version q)), (''as_of'', FJ_Datetime (qs_as_of q))]"

definition llm_json :: "llm_signal \<Rightarrow> fusion_json" where
  "llm_json l =
     FJ_Obj [(''signal_id'', FJ_Uuid (ls_signal_id l)), (''direction'', FJ_Str (signal_direction_value (ls_direction l))),
       (''strength'', FJ_Float (pyround 12 (ls_strength l))), (''confidence'', FJ_Float (pyround 12 (ls_confidence l))),
       (''model_name'', FJ_Str (ls_model_name l)), (''provider'', FJ_Str (ls_provider l)),
       (''prompt_version'', FJ_Str (ls_prompt_version l)), (''as_of'', FJ_Datetime (ls_as_of l))]"

definition regime_json :: "regime_context \<Rightarrow> fusion_json" where
  "regime_json r =
     FJ_Obj [(''regime'', FJ_Str (rc_regime r)), (''direction'', FJ_Str (signal_direction_value (rc_direction r))),
       (''score'', FJ_Float (pyround 12 (rc_score r))), (''confidence'', FJ_Float (pyround 12 (rc_confidence r))),
       (''classifier_version'', FJ_Str (rc_classifier_version r)), (''as_of'', FJ_Datetime (rc_as_of r))]"

definition memory_json :: "memory_context \<Rightarrow> fusion_json" where
  "memory_json m =
     FJ_Obj [(''direction'', FJ_Str (signal_direction_value (mc_direction m))), (''score'', FJ_Float (pyround 12 (mc_score m))),
       (''confidence'', FJ_Float (pyround 12 (mc_confidence m))), (''memory_version'', FJ_Str (mc_memory_version m)),
       (''as_of'', FJ_Datetime (mc_as_of m))]"

definition inputs_canonical :: "fusion_inputs \<Rightarrow> fusion_json" where
  "inputs_canonical i =
     FJ_Obj (map (\<lambda>(c, v). (component_name c, v)) (per_component quant_json llm_json regime_json memory_json i))"

definition weights_json :: "component_weights \<Rightarrow> fusion_json" where
  "weights_json w = FJ_Obj (map (\<lambda>c. (component_name c, FJ_Int (bp_for w c))) component_names)"

fun disagreement_policy_value :: "disagreement_policy \<Rightarrow> string" where
  "disagreement_policy_value NEUTRALIZE = ''NEUTRALIZE''"
| "disagreement_policy_value TRUST_HIGHER_CONFIDENCE = ''TRUST_HIGHER_CONFIDENCE''"
| "disagreement_policy_value REQUIRE_CONSENSUS = ''REQUIRE_CONSENSUS''"

fun missing_policy_value :: "missing_signal_policy \<Rightarrow> string" where
  "missing_policy_value RENORMALIZE = ''RENORMALIZE''"
| "missing_policy_value REQUIRE_QUANT = ''REQUIRE_QUANT''"

definition config_canonical :: "fusion_config \<Rightarrow> fusion_json" where
  "config_canonical c =
     FJ_Obj [(''name'', FJ_Str (fc_name c)), (''version'', FJ_Str (fc_version c)),
       (''default_weights'', weights_json (fc_default_weights c)),
       (''regime_weights'', FJ_Obj (map (\<lambda>(k, w). (k, weights_json w)) (sort_key fst (fc_regime_weights c)))),
       (''confidence_calibration'', FJ_Obj (map (\<lambda>(k, m). (k, FJ_Obj [(''x'', FJ_Arr (map FJ_Float (cm_x m))), (''y'', FJ_Arr (map FJ_Float (cm_y m)))]))
          (sort_key fst (fc_confidence_calibration c)))),
       (''disagreement_policy'', FJ_Str (disagreement_policy_value (fc_disagreement_policy c))),
       (''missing_policy'', FJ_Str (missing_policy_value (fc_missing_policy c))),
       (''flat_threshold'', FJ_Float (fc_flat_threshold c)),
       (''compared_against'', FJ_Arr (map FJ_Str (fc_compared_against c)))]"

text \<open>\<open>sha\<close> is SHA-256 of the text that \<open>canonical_dumps\<close> writes, keys sorted.\<close>

fun fj_sort_keys :: "fusion_json \<Rightarrow> fusion_json" where
  "fj_sort_keys (FJ_Obj members) = FJ_Obj (sort_key fst (map (\<lambda>(k, v). (k, fj_sort_keys v)) members))"
| "fj_sort_keys (FJ_Arr items) = FJ_Arr (map fj_sort_keys items)"
| "fj_sort_keys v = v"

definition compute_fusion_hash :: "(fusion_json \<Rightarrow> string) \<Rightarrow> fusion_inputs \<Rightarrow> fusion_config \<Rightarrow> string" where
  "compute_fusion_hash sha i c =
     sha (fj_sort_keys (FJ_Obj [(''engine_version'', FJ_Str ''1.0.0''), (''config'', config_canonical c), (''inputs'', inputs_canonical i)]))"

definition sign_direction :: "float64 \<Rightarrow> signal_direction" where
  "sign_direction net = (if 0 < net then SD_LONG else if net < 0 then SD_SHORT else SD_FLAT)"

text \<open>The dict \<open>calibrated_conf\<close> of \<open>fuse_signals\<close>.\<close>

definition calibrated_confidences :: "fusion_config \<Rightarrow> fusion_inputs \<Rightarrow> fusion_error + (component, float64) dict" where
  "calibrated_confidences config i =
     traverse (\<lambda>n. rbind (calibrated_confidence config n (item (producer_keys i) n) (item (raw_confidences i) n)) (\<lambda>v. Inr (n, v)))
       (available i)"

text \<open>
  \<open>fuse_signals\<close>: \<open>Inr None\<close> is the missing signal, a result \<open>Inl\<close> an exception.
\<close>

definition fuse_signals ::
    "(fusion_json \<Rightarrow> string) \<Rightarrow> (string \<Rightarrow> uuid) \<Rightarrow> fusion_inputs \<Rightarrow> fusion_config \<Rightarrow> instant \<Rightarrow> uuid option \<Rightarrow>
     fusion_error + fused_signal option" where
  "fuse_signals sha uuid5 i config now trace_id =
     (let names = available i
      in if names = [] then Inr None
         else if fc_missing_policy config = REQUIRE_QUANT \<and> QUANT \<notin> set names then Inr None
         else if \<exists>n\<in>set names. now < item (input_as_of i) n then Inl (FusionError ''input as_of is in the future'')
         else rbind (calibrated_confidences config i) (\<lambda>calibrated_conf.
             let (resolved, disagreements) = resolve_disagreements (signed_scores i) calibrated_conf (fc_disagreement_policy config);
                 weights = renormalized_weights (weights_for_regime config (map_option rc_regime (fi_regime i))) names;
                 net0 = net_and_direction resolved weights;
                 flat = \<bar>net0\<bar> < fc_flat_threshold config;
                 scores = (if flat then map (\<lambda>n. (n, 0)) names else resolved);
                 net = (if flat then 0 else net0);
                 confidence = min 1 (max 0 (pyround 12 (fsum (map (\<lambda>n. fmul (item calibrated_conf n) (item weights n)) names))))
             in rbind (instrument_of i) (\<lambda>iid.
                rbind (build_fused_signal
                  \<lparr>fs_signal_id = uuid5 (compute_fusion_hash sha i config), fs_instrument_id = iid,
                   fs_direction = sign_direction net, fs_fused_strength = pyround 12 \<bar>net\<bar>, fs_confidence = confidence,
                   fs_components = map (\<lambda>n. \<lparr>sc_name = n, sc_score = pyround 12 (item scores n), sc_weight = item weights n\<rparr>) names,
                   fs_calibration_version = fc_version config, fs_calibration_notes = fc_notes config,
                   fs_compared_against = fc_compared_against config,
                   fs_missing_inputs = filter (\<lambda>c. c \<notin> set names) component_names, fs_disagreements = disagreements,
                   fs_as_of = Max ((\<lambda>n. item (input_as_of i) n) ` set names), fs_produced_at = now, fs_trace_id = trace_id\<rparr>)
                (\<lambda>f. Inr (Some f)))))"

end
