(* ===== verification/Signal_Calibration.thy ===== *)
theory Signal_Calibration
  imports Signal_Fusion
begin

text \<open>
  Learning of the fusion configuration: isotonic regression (\<^verbatim>\<open>engines/signal_fusion/isotonic.py\<close>), the comparison of configurations on
  labeled history (\<^verbatim>\<open>evaluation.py\<close>) and the calibrator (\<^verbatim>\<open>calibration.py\<close>).

  Powers of floats go to the C library's \<open>pow\<close>, a parameter \<open>pow\<close> of the definitions that use it; SHA-256 and UUIDv5 are parameters
  too. The texts of the selection notes and the summary of the data are left out.
\<close>

section \<open>Isotonic regression\<close>

text \<open>\<open>_collapse_x\<close>: the last entry is at the head while the loop runs.\<close>

fun collapse_step :: "(float64 \<times> float64 \<times> nat) list \<Rightarrow> float64 \<times> float64 \<Rightarrow> (float64 \<times> float64 \<times> nat) list" where
  "collapse_step ((x, s, n) # acc) (xi, yi) = (if xi = x then (x, fadd s yi, n + 1) # acc else (xi, yi, 1) # (x, s, n) # acc)"
| "collapse_step [] (xi, yi) = [(xi, yi, 1)]"

definition collapse_x :: "float64 list \<Rightarrow> float64 list \<Rightarrow> float64 list \<times> float64 list" where
  "collapse_x x y =
     (let acc = rev (foldl collapse_step [] (zip x y)) in (map fst acc, map (\<lambda>(_, s, n). fdiv s (of_nat n)) acc))"

definition fmean :: "float64 list \<Rightarrow> float64" where
  "fmean b = fdiv (fsum b) (of_nat (length b))"

text \<open>One pass over the blocks; the flag is \<open>changed\<close>.\<close>

function pav_pass :: "float64 list list \<Rightarrow> float64 list list \<times> bool" where
  "pav_pass [] = ([], False)"
| "pav_pass [b] = ([b], False)"
| "pav_pass (b1 # b2 # bs) =
     (if fmean b2 < fmean b1 then (fst (pav_pass ((b1 @ b2) # bs)), True)
      else let (r, changed) = pav_pass (b2 # bs) in (b1 # r, changed))"
  by pat_completeness auto
termination by (relation "measure length") auto

lemma pav_pass_length: "length (fst (pav_pass bs)) \<le> length bs \<and> (snd (pav_pass bs) \<longrightarrow> length (fst (pav_pass bs)) < length bs)"
  by (induction bs rule: pav_pass.induct) (auto split: prod.splits)

function pav :: "float64 list list \<Rightarrow> float64 list list" where
  "pav bs = (let (r, changed) = pav_pass bs in if changed then pav r else r)"
  by pat_completeness auto
termination
proof (relation "measure length", goal_cases)
  case (2 bs p r changed)
  then show ?case using pav_pass_length [of bs] by (metis fst_conv in_measure snd_conv)
qed simp

declare pav.simps [simp del]

definition isotonic_regression :: "float64 list \<Rightarrow> float64 list \<Rightarrow> fusion_error + float64 list \<times> float64 list" where
  "isotonic_regression x y =
     (if length x \<noteq> length y then Inl (ValidationError ''x and y must have the same length'')
      else if x = [] then Inr ([], [])
      else let (xs, ys) = collapse_x x y; blocks = pav (map (\<lambda>v. [v]) ys)
           in Inr (xs, concat (map (\<lambda>b. replicate (length b) (fmean b)) blocks)))"

section \<open>Evaluation of configurations\<close>

record labeled_case =
  lc_inputs :: fusion_inputs
  lc_realized_return :: float64
  lc_as_of :: instant

record config_metrics =
  mt_config_name :: string
  mt_component_weights :: "(component, int) dict"
  mt_n_cases :: nat
  mt_directional_accuracy :: float64
  mt_mean_return :: float64
  mt_std_return :: float64
  mt_information_ratio :: float64
  mt_ece :: float64
  mt_n_flat :: nat

definition fsign :: "float64 \<Rightarrow> int" where
  "fsign v = (if 0 < v then 1 else if v < 0 then - 1 else 0)"

definition as_dict :: "component_weights \<Rightarrow> (component, int) dict" where
  "as_dict w = map (\<lambda>c. (c, bp_for w c)) component_names"

definition baseline_weights_bp :: "component list \<Rightarrow> fusion_error + (component, int) dict" where
  "baseline_weights_bp names = (if names = [] then Inl CalibrationInsufficientDataError else Inr (equal_split names))"

definition weighted_bp :: "(component, float64) dict \<Rightarrow> (component, int) dict \<Rightarrow> component list \<Rightarrow> float64" where
  "weighted_bp values weights_bp names = fsum (map (\<lambda>n. fmul (item values n) (of_int (item weights_bp n))) names)"

definition case_net :: "(component, float64) dict \<Rightarrow> component list \<Rightarrow> (component, int) dict \<Rightarrow> float64 \<Rightarrow> float64" where
  "case_net scores names weights_bp flat_threshold =
     (let total_bp = sum_list (map (item weights_bp) names)
      in if total_bp = 0 then 0
         else let net = pyround 12 (fdiv (weighted_bp scores weights_bp names) (of_int total_bp))
              in if \<bar>net\<bar> < flat_threshold then 0 else net)"

text \<open>The weights a configuration gives to one case.\<close>

definition effective_weights ::
    "fusion_config \<Rightarrow> (component, int) dict option \<Rightarrow> bool \<Rightarrow> labeled_case \<Rightarrow> fusion_error + (component, int) dict" where
  "effective_weights config weights_bp regime_aware c =
     (case weights_bp of
        Some w \<Rightarrow> Inr w
      | None \<Rightarrow>
          if regime_aware then Inr (as_dict (weights_for_regime config (map_option rc_regime (fi_regime (lc_inputs c)))))
          else baseline_weights_bp (available (lc_inputs c)))"

text \<open>What one iteration of \<open>compute_metrics\<close> contributes: the weights, the net score, the predicted confidence.\<close>

definition score_case ::
    "fusion_config \<Rightarrow> (component, int) dict option \<Rightarrow> bool \<Rightarrow> bool \<Rightarrow> labeled_case \<Rightarrow>
     fusion_error + (component, int) dict \<times> float64 \<times> float64" where
  "score_case config weights_bp calibrate_confidence regime_aware c =
     (let i = lc_inputs c; names = available i
      in rbind (effective_weights config weights_bp regime_aware c) (\<lambda>w.
         let net = case_net (signed_scores i) names w (fc_flat_threshold config);
             total_bp = sum_list (map (item w) names)
         in rbind (if calibrate_confidence then calibrated_confidences config i else Inr (raw_confidences i)) (\<lambda>conf.
            if total_bp = 0 then Inl ZeroDivisionError
            else Inr (w, net, fdiv (weighted_bp conf w names) (of_int total_bp)))))"

definition bin_index :: "float64 \<Rightarrow> nat" where
  "bin_index conf = min (nat (round_down (fmul conf 10))) 9"

definition case_hit :: "float64 \<Rightarrow> labeled_case \<Rightarrow> bool" where
  "case_hit net c \<longleftrightarrow> net \<noteq> 0 \<and> fsign net = fsign (lc_realized_return c)"

definition bin_error :: "(float64 \<Rightarrow> float64 \<Rightarrow> float64) \<Rightarrow> (float64 \<times> bool) list \<Rightarrow> float64" where
  "bin_error pow b =
     (let n = of_nat (length b)
      in fmul (pow (fsub (fdiv (fsum (map fst b)) n) (fl (of_nat (length (filter snd b)) / n))) 2) n)"

definition compute_metrics ::
    "(float64 \<Rightarrow> float64 \<Rightarrow> float64) \<Rightarrow> labeled_case list \<Rightarrow> string \<Rightarrow> fusion_config \<Rightarrow> (component, int) dict option \<Rightarrow> bool \<Rightarrow> bool \<Rightarrow>
     fusion_error + config_metrics" where
  "compute_metrics pow cases name config weights_bp calibrate_confidence regime_aware =
     rbind (traverse (\<lambda>c. rbind (score_case config weights_bp calibrate_confidence regime_aware c) (\<lambda>s. Inr (c, s))) cases) (\<lambda>scored.
       if scored = [] then Inl ZeroDivisionError
       else let n = length cases;
                hits = length (filter (\<lambda>(c, _, net, _). case_hit net c) scored);
                flats = length (filter (\<lambda>(_, _, net, _). net = 0) scored);
                returns = map (\<lambda>(c, _, net, _). fmul (of_int (fsign net)) (lc_realized_return c)) scored;
                bins = map (\<lambda>b. map (\<lambda>(c, _, net, conf). (conf, case_hit net c)) (filter (\<lambda>(_, _, _, conf). bin_index conf = b) scored)) [0..<10];
                mean_return = fdiv (fsum returns) (of_nat n);
                variance = fdiv (fsum (map (\<lambda>r. pow (fsub r mean_return) 2) returns)) (of_nat n);
                std_return = pow variance (1 / 2)
            in Inr \<lparr>mt_config_name = name, mt_component_weights = fst (snd (last scored)), mt_n_cases = n,
                 mt_directional_accuracy = fl (of_nat hits / of_nat n), mt_mean_return = mean_return, mt_std_return = std_return,
                 mt_information_ratio = (if 0 < std_return then fdiv mean_return std_return else 0),
                 mt_ece = fdiv (fsum (map (bin_error pow) (filter (\<lambda>b. b \<noteq> []) bins))) (of_nat n), mt_n_flat = flats\<rparr>)"

definition only_weights :: "component \<Rightarrow> (component, int) dict" where
  "only_weights c = map (\<lambda>n. (n, if n = c then 10000 else 0)) component_names"

definition metrics_rank_gt :: "config_metrics \<times> int \<Rightarrow> config_metrics \<times> int \<Rightarrow> bool" where
  "metrics_rank_gt a b \<longleftrightarrow>
     mt_mean_return (fst b) < mt_mean_return (fst a) \<or>
     mt_mean_return (fst b) = mt_mean_return (fst a) \<and>
       (mt_directional_accuracy (fst b) < mt_directional_accuracy (fst a) \<or>
        mt_directional_accuracy (fst b) = mt_directional_accuracy (fst a) \<and> snd a < snd b)"

text \<open>\<open>evaluate_cases\<close>: the metrics of the four configurations and the name of the winner.\<close>

definition evaluate_cases ::
    "(float64 \<Rightarrow> float64 \<Rightarrow> float64) \<Rightarrow> labeled_case list \<Rightarrow> fusion_config \<Rightarrow> bool \<Rightarrow> fusion_error + config_metrics list \<times> string" where
  "evaluate_cases pow cases config regime_aware =
     (if cases = [] then Inl CalibrationInsufficientDataError
      else rbind (compute_metrics pow cases ''quant_only'' config (Some (only_weights QUANT)) True False) (\<lambda>m1.
           rbind (compute_metrics pow cases ''llm_only'' config (Some (only_weights LLM)) True False) (\<lambda>m2.
           rbind (compute_metrics pow cases ''quant_plus_llm'' config
             (if regime_aware then None else Some (as_dict (fc_default_weights config))) True regime_aware) (\<lambda>m3.
           rbind (compute_metrics pow cases ''baseline'' config None False False) (\<lambda>m4.
             Inr ([m1, m2, m3, m4],
               mt_config_name (fst (max_by metrics_rank_gt (m1, 0) [(m2, 1), (m3, 2), (m4, 3)]))))))))"

section \<open>Calibrator\<close>

record calibrator =
  cb_weight_step_bp :: int
  cb_min_cases_per_regime :: nat
  cb_min_cases_confidence :: nat
  cb_min_improvement :: float64
  cb_flat_threshold :: float64
  cb_disagreement_policy :: disagreement_policy
  cb_missing_policy :: missing_signal_policy

text \<open>\<open>Calibrator.__init__\<close>: the remainder is computed before the sign of the step is looked at.\<close>

definition make_calibrator :: "calibrator \<Rightarrow> fusion_error + calibrator" where
  "make_calibrator cb =
     (if cb_weight_step_bp cb = 0 then Inl ZeroDivisionError
      else if 10000 mod cb_weight_step_bp cb \<noteq> 0 \<or> cb_weight_step_bp cb \<le> 0 then Inl CalibrationInsufficientDataError
      else Inr cb)"

definition add_point :: "string \<Rightarrow> 'v \<Rightarrow> (string, 'v list) dict \<Rightarrow> (string, 'v list) dict" where
  "add_point k v d = AList.update k ((case map_of d k of None \<Rightarrow> [] | Some vs \<Rightarrow> vs) @ [v]) d"

definition case_points :: "labeled_case \<Rightarrow> (string \<times> float64 \<times> float64) list" where
  "case_points c =
     (let i = lc_inputs c; scores = signed_scores i; confidences = raw_confidences i
      in map (\<lambda>(n, key). (component_name n @ '':'' @ key, item confidences n,
           if item scores n \<noteq> 0 \<and> fsign (item scores n) = fsign (lc_realized_return c) then 1 else 0)) (producer_keys i))"

definition grouped_points :: "labeled_case list \<Rightarrow> (string, (float64 \<times> float64) list) dict" where
  "grouped_points cases = foldl (\<lambda>d (k, p). add_point k p d) [] (concat (map case_points cases))"

fun pair_le :: "float64 \<times> float64 \<Rightarrow> float64 \<times> float64 \<Rightarrow> bool" where
  "pair_le (a, b) (c, d) \<longleftrightarrow> a < c \<or> a = c \<and> b \<le> d"

text \<open>\<open>sorted(points)\<close>, in the order of pairs.\<close>

fun insert_pair :: "float64 \<times> float64 \<Rightarrow> (float64 \<times> float64) list \<Rightarrow> (float64 \<times> float64) list" where
  "insert_pair p [] = [p]"
| "insert_pair p (q # qs) = (if pair_le p q then p # q # qs else q # insert_pair p qs)"

definition sort_pairs :: "(float64 \<times> float64) list \<Rightarrow> (float64 \<times> float64) list" where
  "sort_pairs ps = foldr insert_pair ps []"

definition confidence_map_of :: "(float64 \<times> float64) list \<Rightarrow> fusion_error + confidence_map" where
  "confidence_map_of points =
     (let ps = sort_pairs points
      in rbind (isotonic_regression (map fst ps) (map snd ps)) (\<lambda>(xs, ys).
         let m = \<lparr>cm_x = xs, cm_y = ys\<rparr> in rbind (check_shape m) (\<lambda>_. Inr m)))"

definition confidence_maps :: "calibrator \<Rightarrow> labeled_case list \<Rightarrow> fusion_error + (string, confidence_map) dict" where
  "confidence_maps cb cases =
     traverse (\<lambda>(k, points). rbind (confidence_map_of points) (\<lambda>m. Inr (k, m)))
       (filter (\<lambda>(_, points). cb_min_cases_confidence cb \<le> length points) (sort_key fst (grouped_points cases)))"

definition directional_returns :: "calibrator \<Rightarrow> labeled_case list \<Rightarrow> (component, int) dict \<Rightarrow> float64 list" where
  "directional_returns cb cases weights_bp =
     concat (map (\<lambda>c.
       let names = available (lc_inputs c); total_bp = sum_list (map (item weights_bp) names)
       in if total_bp = 0 then []
          else let net = pyround 12 (fdiv (weighted_bp (signed_scores (lc_inputs c)) weights_bp names) (of_int total_bp));
                   net' = (if \<bar>net\<bar> < cb_flat_threshold cb then 0 else net)
               in [fmul (of_int (fsign net')) (lc_realized_return c)]) cases)"

definition mean_directional_return :: "calibrator \<Rightarrow> labeled_case list \<Rightarrow> (component, int) dict \<Rightarrow> float64" where
  "mean_directional_return cb cases weights_bp =
     (let returns = directional_returns cb cases weights_bp
      in if returns = [] then 0 else fdiv (fsum returns) (of_nat (length returns)))"

text \<open>\<open>_weight_grid\<close>: all compositions of \<open>units\<close> into \<open>n\<close> parts, in the order of the recursion.\<close>

fun weight_grid :: "nat \<Rightarrow> nat \<Rightarrow> nat list list" where
  "weight_grid units 0 = []"
| "weight_grid units (Suc 0) = [[units]]"
| "weight_grid units (Suc (Suc n)) = concat (map (\<lambda>v. map ((#) v) (weight_grid (units - v) (Suc n))) [0..<Suc units])"

definition weights_of :: "(component, int) dict \<Rightarrow> component_weights" where
  "weights_of d = \<lparr>cw_quant_bp = item d QUANT, cw_llm_bp = item d LLM, cw_regime_bp = item d REGIME, cw_memory_bp = item d MEMORY\<rparr>"

text \<open>\<open>key > best_key\<close> on tuples; the start value of the search is below every candidate.\<close>

definition key_gt :: "float64 \<times> component_weights \<Rightarrow> float64 \<times> component_weights \<Rightarrow> bool" where
  "key_gt a b \<longleftrightarrow>
     fst b < fst a \<or> fst b = fst a \<and>
       (let v = snd a; w = snd b in
        cw_quant_bp w < cw_quant_bp v \<or> cw_quant_bp w = cw_quant_bp v \<and>
          (cw_llm_bp w < cw_llm_bp v \<or> cw_llm_bp w = cw_llm_bp v \<and>
            (cw_regime_bp w < cw_regime_bp v \<or> cw_regime_bp w = cw_regime_bp v \<and> cw_memory_bp w < cw_memory_bp v)))"

definition start_key :: "float64 \<times> component_weights" where
  "start_key = (- (10 ^ 18), \<lparr>cw_quant_bp = - 1, cw_llm_bp = - 1, cw_regime_bp = - 1, cw_memory_bp = - 1\<rparr>)"

definition candidates :: "calibrator \<Rightarrow> (component, int) dict \<Rightarrow> (component, int) dict list" where
  "candidates cb fixed =
     (let units = nat (10000 div cb_weight_step_bp cb);
          free = filter (\<lambda>c. c \<notin> fst ` set fixed) component_names
      in map (\<lambda>combo. fixed @ zip free (map (\<lambda>u. int u * cb_weight_step_bp cb) combo)) (weight_grid units (length free)))"

definition best_weights :: "calibrator \<Rightarrow> labeled_case list \<Rightarrow> (component, int) dict \<Rightarrow> fusion_error + component_weights" where
  "best_weights cb cases fixed =
     (let keys = map (\<lambda>d. (mean_directional_return cb cases d, weights_of d)) (candidates cb fixed);
          best = max_by key_gt start_key keys
      in if best = start_key then Inl UnreachableAssertion else Inr (snd best))"

definition maybe_zero_llm :: "calibrator \<Rightarrow> labeled_case list \<Rightarrow> component_weights \<Rightarrow> fusion_error + component_weights \<times> bool" where
  "maybe_zero_llm cb cases learned =
     (if cw_llm_bp learned = 0 then Inr (learned, False)
      else rbind (best_weights cb cases [(LLM, 0)]) (\<lambda>without_llm.
        if mean_directional_return cb cases (as_dict learned) \<le>
             fadd (mean_directional_return cb cases (as_dict without_llm)) (cb_min_improvement cb)
        then Inr (without_llm, False)
        else Inr (learned, True)))"

definition by_regime :: "labeled_case list \<Rightarrow> (string, labeled_case list) dict" where
  "by_regime cases =
     foldl (\<lambda>d c. case fi_regime (lc_inputs c) of None \<Rightarrow> d | Some r \<Rightarrow> add_point (rc_regime r) c d) [] cases"

record calibration_artifact =
  ca_calibration_version :: string
  ca_config :: fusion_config
  ca_train_metrics :: "config_metrics list"
  ca_llm_added_value :: bool
  ca_llm_weight_bp :: int

definition build_fusion_config :: "fusion_config \<Rightarrow> fusion_error + fusion_config" where
  "build_fusion_config c = (if fusion_config_ok c then Inr c else Inl (ValidationError ''FusionConfig''))"

text \<open>
  \<open>version\<close> gives the calibration version, the hash of the hyperparameters and the cases.
\<close>

definition calibrate ::
    "(float64 \<Rightarrow> float64 \<Rightarrow> float64) \<Rightarrow> (calibrator \<Rightarrow> string \<Rightarrow> labeled_case list \<Rightarrow> string) \<Rightarrow> calibrator \<Rightarrow> labeled_case list \<Rightarrow> string \<Rightarrow>
     fusion_error + calibration_artifact" where
  "calibrate pow version cb cases name =
     (if cases = [] then Inl CalibrationInsufficientDataError
      else rbind (confidence_maps cb cases) (\<lambda>maps.
        rbind (best_weights cb cases []) (\<lambda>default0.
        let eligible = filter (\<lambda>(_, rcases). cb_min_cases_per_regime cb \<le> length rcases) (sort_key fst (by_regime cases))
        in rbind (traverse (\<lambda>(r, rcases). rbind (best_weights cb rcases []) (\<lambda>w. Inr (r, rcases, w))) eligible) (\<lambda>regimes0.
        rbind (maybe_zero_llm cb cases default0) (\<lambda>(default, default_kept).
        rbind (traverse (\<lambda>(r, rcases, w). rbind (maybe_zero_llm cb rcases w) (\<lambda>(w', kept). Inr (r, w', kept))) regimes0) (\<lambda>regimes.
        rbind (build_fusion_config
          \<lparr>fc_name = name, fc_version = version cb name cases, fc_default_weights = default,
           fc_regime_weights = map (\<lambda>(r, w, _). (r, w)) regimes, fc_confidence_calibration = maps,
           fc_disagreement_policy = cb_disagreement_policy cb, fc_missing_policy = cb_missing_policy cb,
           fc_flat_threshold = cb_flat_threshold cb,
           fc_compared_against = [''quant_only'', ''llm_only'', ''quant_plus_llm'', ''baseline''], fc_notes = None\<rparr>) (\<lambda>config.
        rbind (evaluate_cases pow cases config False) (\<lambda>(metrics, _).
          Inr \<lparr>ca_calibration_version = fc_version config, ca_config = config, ca_train_metrics = metrics,
            ca_llm_added_value = default_kept \<or> list_ex (\<lambda>(_, _, kept). kept) regimes,
            ca_llm_weight_bp = cw_llm_bp default\<rparr>))))))))"

end
