(* ===== verification/Fusion_Properties.thy ===== *)
theory Fusion_Properties
  imports Signal_Fusion
begin

text \<open>
  What the fusion engine guarantees: its outcome on every branch, the agreement of the floating-point vote with the exact weighted vote, and that
  the fused signal satisfies its own contract when the flat threshold separates votes from rounding. The two places where it does not: the
  validator of confidence maps, and votes that cancel up to rounding.
\<close>

section \<open>Dictionaries over the present inputs\<close>

lemma per_component_keys: "map fst (per_component q l r m i) = available i"
  by (simp add: per_component_def available_def component_names_def split: option.splits)

lemma available_distinct [simp]: "distinct (available i)"
  by (simp add: available_def component_names_def)

lemma available_length: "length (available i) \<le> 4"
  unfolding available_def by (rule order_trans [OF length_filter_le]) (simp add: component_names_def)

lemma per_component_lookup:
  assumes "n \<in> set (available i)"
  obtains v where "map_of (per_component q l r m i) n = Some v" and "(n, v) \<in> set (per_component q l r m i)"
proof -
  have "n \<in> fst ` set (per_component q l r m i)" using assms per_component_keys [of q l r m i] by (simp flip: set_map)
  then have "map_of (per_component q l r m i) n \<noteq> None" by (simp only: map_of_eq_None_iff not_not)
  then obtain v where v: "map_of (per_component q l r m i) n = Some v" by blast
  show ?thesis using that [OF v map_of_SomeD [OF v]] .
qed

lemma item_map: "n \<in> set ns \<Longrightarrow> item (map (\<lambda>c. (c, f c)) ns) n = f n"
  by (simp add: item_def map_of_map_restrict)

section \<open>Scores and weights\<close>

lemma sign_product:
  assumes "unit_float x"
  shows "\<bar>fmul (direction_sign d) x\<bar> \<le> 1"
  using assms by (cases d) (auto simp: fmul_def unit_float_def fl_minus fl_exact)

lemma signed_scores_bound:
  assumes "fusion_inputs_ok i" and "(n, s) \<in> set (signed_scores i)"
  shows "\<bar>s\<bar> \<le> 1"
  using assms
  by (cases "fi_quant i"; cases "fi_llm i"; cases "fi_regime i"; cases "fi_memory i")
    (auto simp: signed_scores_def per_component_def fusion_inputs_ok_def quant_signal_ok_def llm_signal_ok_def
      regime_context_ok_def memory_context_ok_def sign_product)

lemma resolve_keys: "map fst (fst (resolve_disagreements scores conf policy)) = map fst scores"
  by (cases policy) (auto simp: resolve_disagreements_def Let_def comp_def split_beta)

lemma resolve_bound:
  assumes "\<And>n s. (n, s) \<in> set scores \<Longrightarrow> \<bar>s\<bar> \<le> (1 :: rat)" and "(n, s) \<in> set (fst (resolve_disagreements scores conf policy))"
  shows "\<bar>s\<bar> \<le> 1"
  using assms by (cases policy) (auto simp: resolve_disagreements_def Let_def split: if_splits)

lemma item_bound:
  assumes "n \<in> fst ` set d" and "\<And>n s. (n, s) \<in> set d \<Longrightarrow> P s"
  shows "P (item d n)"
proof -
  have "map_of d n \<noteq> None" using assms(1) by (simp only: map_of_eq_None_iff not_not)
  then obtain v where v: "map_of d n = Some v" by blast
  show ?thesis using assms(2) [OF map_of_SomeD [OF v]] v by (simp add: item_def)
qed

text \<open>The exact share of a component, before it is rounded to a float of 12 places.\<close>

definition exact_share :: "component_weights \<Rightarrow> component list \<Rightarrow> component \<Rightarrow> rat" where
  "exact_share w names c =
     (let total_bp = sum_list (map (bp_for w) names)
      in if total_bp = 0 then of_int (item (equal_split names) c) / 10000 else of_int (bp_for w c) / of_int total_bp)"

lemma renormalized_weights_shares:
  "renormalized_weights w names = map (\<lambda>c. (c, pyround 12 (fl (exact_share w names c)))) names"
  by (simp add: renormalized_weights_def exact_share_def Let_def)

lemma equal_split_available:
  assumes "names = available i" and "names \<noteq> []"
  shows "sum_list (map (item (equal_split names)) names) = 10000" and "\<forall>c\<in>set names. 0 \<le> item (equal_split names) c"
  using assms
  by (cases "is_present i QUANT"; cases "is_present i LLM"; cases "is_present i REGIME"; cases "is_present i MEMORY";
      simp add: available_def component_names_def equal_split_def item_def)+

lemma bp_nonneg: "component_weights_ok w \<Longrightarrow> 0 \<le> bp_for w c"
  by (cases c) (auto simp: component_weights_ok_def component_names_def)

lemma sum_list_divide: "sum_list (map (\<lambda>x. f x / c) xs) = sum_list (map f xs) / (c :: rat)"
  by (induction xs) (simp_all add: add_divide_distrib)

lemma sum_list_of_int: "sum_list (map (\<lambda>x. of_int (f x)) xs) = (of_int (sum_list (map f xs)) :: rat)"
  by (induction xs) simp_all

lemma exact_share_sum:
  assumes "names = available i" and "names \<noteq> []"
  shows "sum_list (map (exact_share w names) names) = 1"
proof (cases "sum_list (map (bp_for w) names) = 0")
  case True
  then have e: "exact_share w names = (\<lambda>c. of_int (item (equal_split names) c) / 10000)"
    by (simp add: exact_share_def Let_def fun_eq_iff)
  show ?thesis using equal_split_available(1) [OF assms] unfolding e by (simp add: sum_list_divide sum_list_of_int)
next
  case False
  then have e: "exact_share w names = (\<lambda>c. of_int (bp_for w c) / of_int (sum_list (map (bp_for w) names)))"
    by (simp add: exact_share_def Let_def fun_eq_iff)
  show ?thesis using False unfolding e by (simp add: sum_list_divide sum_list_of_int)
qed

lemma exact_share_nonneg:
  assumes "names = available i" and "component_weights_ok w" and "c \<in> set names"
  shows "0 \<le> exact_share w names c"
proof -
  have "0 \<le> sum_list (map (bp_for w) names)" using bp_nonneg [OF assms(2)] by (intro sum_list_nonneg) auto
  moreover have "names \<noteq> []" using assms(3) by auto
  ultimately show ?thesis
    using equal_split_available(2) [OF assms(1)] assms(3) bp_nonneg [OF assms(2)]
    by (auto simp: exact_share_def Let_def)
qed

lemma exact_share_unit:
  assumes "names = available i" and "component_weights_ok w" and "c \<in> set names"
  shows "0 \<le> exact_share w names c \<and> exact_share w names c \<le> 1"
proof -
  have n: "names \<noteq> []" using assms(3) by auto
  have "exact_share w names c \<le> sum_list (map (exact_share w names) names)"
    using assms exact_share_nonneg [OF assms(1,2)] by (intro member_le_sum_list) auto
  then show ?thesis using exact_share_sum [OF assms(1) n] exact_share_nonneg [OF assms] by simp
qed

lemma weight_unit:
  assumes "0 \<le> s" and "s \<le> 1"
  shows "0 \<le> pyround 12 (fl s) \<and> pyround 12 (fl s) \<le> 1"
  using fl_unit [OF assms] by (intro pyround_unit) auto

lemma weight_error:
  assumes "0 \<le> s" and "s \<le> 1"
  shows "\<bar>pyround 12 (fl s) - s\<bar> \<le> 2 / 10 ^ 12"
proof -
  have "\<bar>fl s - s\<bar> \<le> 1 / 2 ^ 51" using assms by (intro fl_error_2) simp
  moreover have "\<bar>pyround 12 (fl s) - fl s\<bar> \<le> 1 / 10 ^ 12"
    using fl_unit [OF assms] by (intro pyround_12_error) simp
  moreover have "1 / 2 ^ 51 + 1 / 10 ^ 12 \<le> (2 / 10 ^ 12 :: rat)" by simp
  ultimately show ?thesis by linarith
qed

section \<open>The exact vote\<close>

lemma abs_tri:
  fixes a b c p q r :: rat
  shows "\<bar>a - b\<bar> \<le> p \<Longrightarrow> \<bar>b\<bar> \<le> q \<Longrightarrow> p + q \<le> r \<Longrightarrow> \<bar>a\<bar> \<le> r"
    and "\<bar>a - b\<bar> \<le> p \<Longrightarrow> \<bar>b - c\<bar> \<le> q \<Longrightarrow> p + q \<le> r \<Longrightarrow> \<bar>a - c\<bar> \<le> r"
  by linarith+

lemma abs_gap:
  fixes a b p q :: rat
  assumes "\<bar>a - b\<bar> \<le> p" and "q \<le> \<bar>b\<bar>" and "p < q"
  shows "q - p \<le> \<bar>a\<bar>" and "0 < a \<longleftrightarrow> 0 < b" and "a < 0 \<longleftrightarrow> b < 0"
  using assms by linarith+

lemma sum_list_close:
  assumes "\<forall>x\<in>set xs. \<bar>f x - g x\<bar> \<le> (d :: rat)"
  shows "\<bar>sum_list (map f xs) - sum_list (map g xs)\<bar> \<le> of_nat (length xs) * d"
  using assms
proof (induction xs)
  case (Cons x xs)
  then have "\<bar>f x - g x\<bar> \<le> d" "\<bar>sum_list (map f xs) - sum_list (map g xs)\<bar> \<le> of_nat (length xs) * d" by auto
  then show ?case by (simp add: algebra_simps)
qed simp

lemma fmul_unit: "\<bar>s\<bar> \<le> 1 \<Longrightarrow> \<bar>w\<bar> \<le> 1 \<Longrightarrow> \<bar>fmul s w\<bar> \<le> 1"
  using mult_mono [of "\<bar>s\<bar>" 1 "\<bar>w\<bar>" 1] by (simp add: fmul_def fl_abs_le abs_mult)

lemma product_close:
  assumes "\<bar>s\<bar> \<le> 1" and "\<bar>w\<bar> \<le> 1" and "\<bar>e\<bar> \<le> 1" and "\<bar>w - e\<bar> \<le> 2 / 10 ^ 12" and "\<bar>s - t\<bar> \<le> 1 / 10 ^ 12"
  shows "\<bar>fmul s w - t * e\<bar> \<le> 4 / 10 ^ 12"
proof -
  have p: "\<bar>s * w\<bar> \<le> 1" using mult_mono [of "\<bar>s\<bar>" 1 "\<bar>w\<bar>" 1] assms(1,2) by (simp add: abs_mult)
  have "\<bar>fmul s w - s * w\<bar> \<le> 1 / 2 ^ 51" using p unfolding fmul_def by (intro fl_error_2) simp
  moreover have "\<bar>s * w - s * e\<bar> \<le> 2 / 10 ^ 12"
    using mult_mono [of "\<bar>s\<bar>" 1 "\<bar>w - e\<bar>" "2 / 10 ^ 12"] assms(1,4) by (simp add: abs_mult flip: right_diff_distrib)
  moreover have "\<bar>s * e - t * e\<bar> \<le> 1 / 10 ^ 12"
    using mult_mono [of "\<bar>s - t\<bar>" "1 / 10 ^ 12" "\<bar>e\<bar>" 1] assms(3,5) by (simp add: abs_mult flip: left_diff_distrib)
  moreover have "1 / 2 ^ 51 + 2 / 10 ^ 12 + 1 / 10 ^ 12 \<le> (4 / 10 ^ 12 :: rat)" by simp
  ultimately show "\<bar>fmul s w - t * e\<bar> \<le> 4 / 10 ^ 12" by linarith
qed

lemma weighted_fsum:
  assumes "length ns \<le> 4"
    and "\<And>n. n \<in> set ns \<Longrightarrow> \<bar>s n\<bar> \<le> 1 \<and> \<bar>w n\<bar> \<le> 1 \<and> \<bar>e n\<bar> \<le> 1 \<and> \<bar>w n - e n\<bar> \<le> 2 / 10 ^ 12 \<and> \<bar>s n - t n\<bar> \<le> 1 / 10 ^ 12"
  shows "\<bar>fsum (map (\<lambda>n. fmul (s n) (w n)) ns) - sum_list (map (\<lambda>n. t n * e n) ns)\<bar> \<le> 3 / 10 ^ 11"
proof -
  have "\<bar>fsum (map (\<lambda>n. fmul (s n) (w n)) ns) - sum_list (map (\<lambda>n. fmul (s n) (w n)) ns)\<bar> \<le> 1 / 10 ^ 11"
    using assms fmul_unit by (intro fsum_error) auto
  moreover have "\<bar>sum_list (map (\<lambda>n. fmul (s n) (w n)) ns) - sum_list (map (\<lambda>n. t n * e n) ns)\<bar> \<le> of_nat (length ns) * (4 / 10 ^ 12)"
    using assms(2) product_close by (intro sum_list_close) blast
  moreover have "of_nat (length ns) * (4 / 10 ^ 12) \<le> (16 / 10 ^ 12 :: rat)"
    using assms(1) of_nat_mono [of "length ns" 4, where ?'a = rat] by simp
  moreover have "1 / 10 ^ 11 + 16 / 10 ^ 12 \<le> (3 / 10 ^ 11 :: rat)" by simp
  ultimately show ?thesis by linarith
qed

definition config_weights :: "fusion_config \<Rightarrow> fusion_inputs \<Rightarrow> component_weights" where
  "config_weights config i = weights_for_regime config (map_option rc_regime (fi_regime i))"

definition resolved_scores :: "fusion_config \<Rightarrow> fusion_inputs \<Rightarrow> (component, float64) dict \<Rightarrow> (component, float64) dict" where
  "resolved_scores config i conf = fst (resolve_disagreements (signed_scores i) conf (fc_disagreement_policy config))"

text \<open>The weighted vote without any rounding: the specification of the fused score.\<close>

definition exact_vote :: "fusion_config \<Rightarrow> fusion_inputs \<Rightarrow> (component, float64) dict \<Rightarrow> rat" where
  "exact_vote config i conf =
     sum_list (map (\<lambda>n. item (resolved_scores config i conf) n * exact_share (config_weights config i) (available i) n) (available i))"

lemma config_weights_ok: "fusion_config_ok config \<Longrightarrow> component_weights_ok (config_weights config i)"
  by (auto simp: config_weights_def weights_for_regime_def fusion_config_ok_def list_all_iff Option.bind_eq_Some_conv
      dest!: map_of_SomeD split: option.splits)

lemma resolved_bound:
  assumes "fusion_inputs_ok i" and "n \<in> set (available i)"
  shows "\<bar>item (resolved_scores config i conf) n\<bar> \<le> 1"
proof (rule item_bound)
  have "map fst (resolved_scores config i conf) = available i"
    by (simp add: resolved_scores_def resolve_keys signed_scores_def per_component_keys)
  then show "n \<in> fst ` set (resolved_scores config i conf)" using assms(2) by (simp flip: set_map)
  show "\<bar>s\<bar> \<le> 1" if "(m, s) \<in> set (resolved_scores config i conf)" for m s
    using resolve_bound [OF signed_scores_bound [OF assms(1)]] that by (simp add: resolved_scores_def)
qed

lemma vote_facts:
  assumes "fusion_inputs_ok i" and "fusion_config_ok config" and "n \<in> set (available i)"
  defines "e \<equiv> exact_share (config_weights config i) (available i) n"
  shows "\<bar>item (resolved_scores config i conf) n\<bar> \<le> 1" and "\<bar>pyround 12 (fl e)\<bar> \<le> 1" and "\<bar>e\<bar> \<le> 1" and "\<bar>pyround 12 (fl e) - e\<bar> \<le> 2 / 10 ^ 12"
    and "0 \<le> pyround 12 (fl e)"
proof -
  have u: "0 \<le> e \<and> e \<le> 1"
    unfolding e_def using exact_share_unit [OF refl config_weights_ok [OF assms(2)] assms(3)] .
  show "\<bar>item (resolved_scores config i conf) n\<bar> \<le> 1" using resolved_bound [OF assms(1,3)] .
  show "\<bar>e\<bar> \<le> 1" "\<bar>pyround 12 (fl e) - e\<bar> \<le> 2 / 10 ^ 12" using u weight_error [of e] by auto
  show "\<bar>pyround 12 (fl e)\<bar> \<le> 1" "0 \<le> pyround 12 (fl e)" using u weight_unit [of e] by auto
qed

text \<open>The float vote, and the vote the validator recomputes from rounded scores, are within \<open>10 ^ -10\<close> of the exact one.\<close>

lemma net_close:
  fixes conf :: "(component, float64) dict"
  assumes "fusion_inputs_ok i" and "fusion_config_ok config"
  defines "names \<equiv> available i" and "w \<equiv> config_weights config i" and "sc \<equiv> resolved_scores config i conf"
  shows "\<bar>fsum (map (\<lambda>n. fmul (item sc n) (pyround 12 (fl (exact_share w names n)))) names) - exact_vote config i conf\<bar> \<le> 3 / 10 ^ 11"
    and "\<bar>fsum (map (\<lambda>n. fmul (pyround 12 (item sc n)) (pyround 12 (fl (exact_share w names n)))) names) - exact_vote config i conf\<bar> \<le> 3 / 10 ^ 11"
    and "\<bar>fsum (map (\<lambda>n. pyround 12 (fl (exact_share w names n))) names) - (if names = [] then 0 else 1)\<bar> \<le> 3 / 10 ^ 11"
proof -
  note f = vote_facts [OF assms(1,2)]
  have v: "exact_vote config i conf = sum_list (map (\<lambda>n. item sc n * exact_share w names n) names)"
    by (simp add: exact_vote_def names_def w_def sc_def)
  have len: "length names \<le> 4" unfolding names_def by (rule available_length)
  show "\<bar>fsum (map (\<lambda>n. fmul (item sc n) (pyround 12 (fl (exact_share w names n)))) names) - exact_vote config i conf\<bar> \<le> 3 / 10 ^ 11"
    unfolding v by (rule weighted_fsum [OF len]) (use f in \<open>simp add: names_def w_def sc_def\<close>)
  show "\<bar>fsum (map (\<lambda>n. fmul (pyround 12 (item sc n)) (pyround 12 (fl (exact_share w names n)))) names) - exact_vote config i conf\<bar> \<le> 3 / 10 ^ 11"
    unfolding v
  proof (rule weighted_fsum [OF len])
    fix n assume n: "n \<in> set names"
    have "\<bar>item sc n\<bar> \<le> 1" using f(1) n by (simp add: names_def sc_def)
    then have "\<bar>pyround 12 (item sc n) - item sc n\<bar> \<le> 1 / 10 ^ 12" "\<bar>pyround 12 (item sc n)\<bar> \<le> 1"
      by (rule pyround_12_error, rule pyround_abs_le)
    with f(2-4) n show "\<bar>pyround 12 (item sc n)\<bar> \<le> 1 \<and> \<bar>pyround 12 (fl (exact_share w names n))\<bar> \<le> 1 \<and>
      \<bar>exact_share w names n\<bar> \<le> 1 \<and> \<bar>pyround 12 (fl (exact_share w names n)) - exact_share w names n\<bar> \<le> 2 / 10 ^ 12 \<and>
      \<bar>pyround 12 (item sc n) - item sc n\<bar> \<le> 1 / 10 ^ 12"
      by (simp add: names_def w_def)
  qed
  have "\<bar>fsum (map (\<lambda>n. fmul 1 (pyround 12 (fl (exact_share w names n)))) names) - sum_list (map (\<lambda>n. 1 * exact_share w names n) names)\<bar> \<le> 3 / 10 ^ 11"
    by (rule weighted_fsum [OF len]) (use f in \<open>simp add: names_def w_def\<close>)
  moreover have "fmul 1 (pyround 12 x) = pyround 12 x" for x by (simp add: fmul_def fl_exact)
  moreover have "names \<noteq> [] \<Longrightarrow> sum_list (map (exact_share w names) names) = 1"
    using exact_share_sum [of names i w] by (simp add: names_def)
  ultimately show "\<bar>fsum (map (\<lambda>n. pyround 12 (fl (exact_share w names n))) names) - (if names = [] then 0 else 1)\<bar> \<le> 3 / 10 ^ 11"
    by auto
qed

lemma is_float_sum_comp: "is_float s \<Longrightarrow> is_float (sum_comp s c xs)"
  by (induction s c xs rule: sum_comp.induct) (simp_all add: Let_def)

lemma is_float_fsum: "list_all is_float xs \<Longrightarrow> is_float (fsum xs)"
  by (cases xs) (simp_all add: is_float_sum_comp)

lemma fsum_zeros: "set xs \<subseteq> {0} \<Longrightarrow> fsum xs = 0"
proof (cases xs)
  case (Cons x ys)
  have "set ys \<subseteq> {0} \<Longrightarrow> sum_comp 0 0 ys = 0" for ys
    by (induction ys) (auto simp: fadd_def fsub_def)
  moreover assume "set xs \<subseteq> {0}"
  ultimately show ?thesis using Cons by simp
qed simp

section \<open>Tolerances\<close>

abbreviation tol :: rat where
  "tol \<equiv> fl (1 / 10 ^ 9)"

lemma tol_bounds: "1 / 10 ^ 9 - 1 / 10 ^ 12 \<le> tol" "tol \<le> 1 / 10 ^ 9 + 1 / 10 ^ 12"
proof -
  have "\<bar>tol - 1 / 10 ^ 9\<bar> \<le> 1 / 2 ^ 51" by (rule fl_error_2) simp
  moreover have "1 / 2 ^ 51 \<le> (1 / 10 ^ 12 :: rat)" by simp
  ultimately show "1 / 10 ^ 9 - 1 / 10 ^ 12 \<le> tol" "tol \<le> 1 / 10 ^ 9 + 1 / 10 ^ 12" by linarith+
qed

lemma isclose_near:
  assumes "\<bar>b - a\<bar> \<le> 1 / 10 ^ 9"
  shows "isclose tol a b"
proof -
  have "b - a \<le> 1 / 10 ^ 9" "- (1 / 10 ^ 9) \<le> b - a" using assms by (simp_all only: abs_le_iff) linarith
  then have "\<bar>fl (b - a)\<bar> \<le> tol" using fl_mono [of "b - a"] fl_mono [of "- (1 / 10 ^ 9)"] by (simp only: abs_le_iff fl_minus) fastforce
  then show ?thesis by (simp add: isclose_def Let_def fsub_def)
qed

lemma not_isclose_zero:
  assumes "is_float x" and "19 / 10 ^ 10 \<le> \<bar>x\<bar>"
  shows "\<not> isclose tol x 0"
proof -
  have x: "x \<noteq> 0" using assms(2) by auto
  have d: "\<bar>fsub 0 x\<bar> = \<bar>x\<bar>" using assms(1) by (simp add: fsub_def fl_minus fl_exact)
  have t: "tol < \<bar>x\<bar>" using tol_bounds(2) assms(2) by simp
  have "tol * \<bar>x\<bar> \<le> (1 / 10 ^ 9 + 1 / 10 ^ 12) * \<bar>x\<bar>" by (rule mult_right_mono [OF tol_bounds(2)]) simp
  also have "\<dots> \<le> \<bar>x\<bar> / 2" by simp
  finally have p: "tol * \<bar>x\<bar> \<le> \<bar>x\<bar> / 2" .
  have lt: "fl y < z" if "0 \<le> y" "y \<le> z / 2" "19 / 10 ^ 10 \<le> z" for y z
  proof -
    have "\<bar>fl y - y\<bar> \<le> y / 2 ^ 53 + pow2 (- 1075)" using fl_error [of y] that(1) by simp
    moreover have "y / 2 ^ 53 \<le> y / 4" using that(1) by (simp add: divide_left_mono)
    moreover have "pow2 (- 1075) \<le> 1 / 10 ^ 10" using pow2_tiny by simp
    ultimately show ?thesis using that(1-3) by simp
  qed
  have "fl (tol * \<bar>x\<bar>) < \<bar>x\<bar>" using tol_bounds(1) p assms(2) by (intro lt) simp_all
  moreover have "\<bar>fmul tol x\<bar> = fl (tol * \<bar>x\<bar>)"
  proof -
    have "0 \<le> fl (tol * \<bar>x\<bar>)" using tol_bounds(1) by (intro fl_nonneg) simp
    then show ?thesis by (cases "0 \<le> x") (auto simp: fmul_def fl_minus abs_if)
  qed
  ultimately show ?thesis using x d t by (simp add: isclose_def Let_def fmul_def)
qed

section \<open>Confidence maps\<close>

lemma zip_strict_any_uneven:
  "length xs = Suc (length ys) \<Longrightarrow> zip_strict_any p xs ys = Inr True \<or> zip_strict_any p xs ys = Inl ZipLengthError"
  by (induction p xs ys rule: zip_strict_any.induct) auto

lemma check_shape_iff:
  "check_shape m = Inr () \<longleftrightarrow> length (cm_x m) = length (cm_y m) \<and> length (cm_x m) \<le> 1 \<and> list_all (\<lambda>v. 0 \<le> v \<and> v \<le> 1) (cm_y m)"
proof (cases "1 < length (cm_x m)")
  case True
  then have "length (cm_x m) = Suc (length (tl (cm_x m)))" by simp
  from zip_strict_any_uneven [OF this, of "\<lambda>a b. b \<le> a"] True show ?thesis by (auto simp: check_shape_def)
next
  case False
  then show ?thesis by (auto simp: check_shape_def list_ex_iff list_all_iff not_less not_le)
qed

text \<open>
  A confidence map that passes its own validator has at most one breakpoint, because the strict \<open>zip\<close> of the list with its tail always
  raises on longer ones. The calibrated confidence of a producer is therefore its raw confidence or a constant of the unit interval,
  whatever was learned.
\<close>

lemma confidence_maps_are_constant:
  assumes "check_shape m = Inr ()"
  shows "length (cm_x m) \<le> 1 \<and>
    map_confidence m raw = (if cm_x m = [] then Inr raw else Inr (hd (cm_y m))) \<and> list_all (\<lambda>v. 0 \<le> v \<and> v \<le> 1) (cm_y m)"
proof (cases "cm_x m")
  case (Cons x xs)
  with assms have "length (cm_y m) = 1" "cm_x m = [x]" by (auto simp: check_shape_iff)
  then obtain y where "cm_x m = [x]" "cm_y m = [y]" by (auto simp: length_Suc_conv)
  with assms show ?thesis by (auto simp: map_confidence_def check_shape_iff)
qed (use assms in \<open>simp add: map_confidence_def check_shape_iff\<close>)

theorem confidence_maps_are_constant_witness:
  "check_shape \<lparr>cm_x = [1 / 2], cm_y = [3 / 4]\<rparr> = Inr () \<and>
   map_confidence \<lparr>cm_x = [1 / 2], cm_y = [3 / 4]\<rparr> 1 = Inr (3 / 4) \<and>
   check_shape \<lparr>cm_x = [1 / 4, 1 / 2], cm_y = [1 / 2, 3 / 4]\<rparr> = Inl ZipLengthError"
  using confidence_maps_are_constant [of "\<lparr>cm_x = [1 / 2], cm_y = [3 / 4]\<rparr>" 1]
  by (simp add: check_shape_def)

section \<open>The fused signal\<close>

lemma traverse_Inr: "(\<And>x. x \<in> set xs \<Longrightarrow> \<exists>y. f x = Inr y) \<Longrightarrow> \<exists>ys. traverse f xs = Inr ys"
proof (induction xs)
  case (Cons x xs)
  then obtain y ys where "f x = Inr y" "traverse f xs = Inr ys" by (metis list.set_intros)
  then show ?case by simp
qed simp

lemma map_confidence_returns: "confidence_map_ok m \<Longrightarrow> \<exists>v. map_confidence m raw = Inr v"
proof (cases "cm_x m")
  case (Cons x xs)
  assume "confidence_map_ok m"
  then have "cm_x m = [x]" using Cons by (auto simp: confidence_map_ok_def check_shape_iff)
  then show ?thesis by (auto simp: map_confidence_def)
qed (simp add: map_confidence_def)

lemma calibrated_confidences_return: "fusion_config_ok config \<Longrightarrow> \<exists>conf. calibrated_confidences config i = Inr conf"
proof -
  assume ok: "fusion_config_ok config"
  have "\<exists>v. calibrated_confidence config n k raw = Inr v" for n k raw
    using ok map_confidence_returns
    by (fastforce simp: calibrated_confidence_def fusion_config_ok_def list_all_iff dest: map_of_SomeD split: option.splits)
  then have "\<exists>y. rbind (calibrated_confidence config n k raw) (\<lambda>v. Inr (n, v)) = Inr y" for n k raw
    by (metis rbind_simps(2))
  then show ?thesis unfolding calibrated_confidences_def by (intro traverse_Inr)
qed

text \<open>The candidate that \<open>fuse_signals\<close> hands to the contract.\<close>

definition fused_scores :: "fusion_config \<Rightarrow> fusion_inputs \<Rightarrow> (component, float64) dict \<Rightarrow> (component, float64) dict" where
  "fused_scores config i conf =
     (let weights = renormalized_weights (config_weights config i) (available i);
          resolved = resolved_scores config i conf
      in if \<bar>net_and_direction resolved weights\<bar> < fc_flat_threshold config then map (\<lambda>n. (n, 0)) (available i) else resolved)"

definition fused_net :: "fusion_config \<Rightarrow> fusion_inputs \<Rightarrow> (component, float64) dict \<Rightarrow> float64" where
  "fused_net config i conf =
     (let net = net_and_direction (resolved_scores config i conf) (renormalized_weights (config_weights config i) (available i))
      in if \<bar>net\<bar> < fc_flat_threshold config then 0 else net)"

lemma fuse_signals_run:
  assumes "available i \<noteq> []" and "fc_missing_policy config = REQUIRE_QUANT \<longrightarrow> QUANT \<in> set (available i)"
    and "\<forall>n\<in>set (available i). item (input_as_of i) n \<le> now" and "calibrated_confidences config i = Inr conf"
    and "instrument_of i = Inr iid"
  shows "\<exists>f. fuse_signals sha uuid5 i config now trace_id = rbind (build_fused_signal f) (\<lambda>f. Inr (Some f)) \<and>
    fs_instrument_id f = iid \<and> fs_direction f = sign_direction (fused_net config i conf) \<and>
    fs_fused_strength f = pyround 12 \<bar>fused_net config i conf\<bar> \<and> 0 \<le> fs_confidence f \<and> fs_confidence f \<le> 1 \<and>
    fs_components f = map (\<lambda>n. \<lparr>sc_name = n, sc_score = pyround 12 (item (fused_scores config i conf) n),
      sc_weight = pyround 12 (fl (exact_share (config_weights config i) (available i) n))\<rparr>) (available i) \<and>
    fs_calibration_version f = fc_version config"
proof -
  obtain rs ds where r: "resolve_disagreements (signed_scores i) conf (fc_disagreement_policy config) = (rs, ds)" by fastforce
  have w: "item (renormalized_weights w (available i)) n = pyround 12 (fl (exact_share w (available i) n))" if "n \<in> set (available i)" for n w
    using that by (simp add: renormalized_weights_shares item_map)
  have m: "\<not> (fc_missing_policy config = REQUIRE_QUANT \<and> QUANT \<notin> set (available i))" using assms(2) by blast
  have t: "\<not> (\<exists>n\<in>set (available i). now < item (input_as_of i) n)" using assms(3) by (auto simp: not_less)
  show ?thesis
    unfolding fuse_signals_def Let_def assms(4,5) r rbind_simps if_not_P [OF assms(1)] if_not_P [OF m] if_not_P [OF t] prod.case
    by (rule exI, rule conjI, rule refl)
      (simp add: w fused_net_def fused_scores_def resolved_scores_def r config_weights_def Let_def)
qed

text \<open>The validator recomputes the vote from the components of the candidate.\<close>

definition recomputed_net :: "fusion_config \<Rightarrow> fusion_inputs \<Rightarrow> (component, float64) dict \<Rightarrow> float64" where
  "recomputed_net config i conf =
     fsum (map (\<lambda>n. fmul (pyround 12 (item (fused_scores config i conf) n))
       (pyround 12 (fl (exact_share (config_weights config i) (available i) n)))) (available i))"

lemma net_and_direction_shares:
  "net_and_direction sc (renormalized_weights w ns) = pyround 12 (fsum (map (\<lambda>n. fmul (item sc n) (pyround 12 (fl (exact_share w ns n)))) ns))"
  by (simp add: net_and_direction_def renormalized_weights_shares comp_def)

lemma fused_net_close:
  assumes "fusion_inputs_ok i" and "fusion_config_ok config" and "\<bar>exact_vote config i conf\<bar> \<le> 1 - 1 / 10 ^ 9"
  defines "net \<equiv> net_and_direction (resolved_scores config i conf) (renormalized_weights (config_weights config i) (available i))"
  shows "\<bar>net - exact_vote config i conf\<bar> \<le> 4 / 10 ^ 11" and "\<bar>net\<bar> \<le> 1"
proof -
  let ?x = "fsum (map (\<lambda>n. fmul (item (resolved_scores config i conf) n)
    (pyround 12 (fl (exact_share (config_weights config i) (available i) n)))) (available i))"
  have n: "net = pyround 12 ?x" by (simp add: net_def net_and_direction_shares)
  have c: "\<bar>?x - exact_vote config i conf\<bar> \<le> 3 / 10 ^ 11" using net_close(1) [OF assms(1,2)] .
  have u: "\<bar>?x\<bar> \<le> 1" by (rule abs_tri(1) [OF c assms(3)]) simp
  show "\<bar>net\<bar> \<le> 1" unfolding n using u by (rule pyround_abs_le)
  have "\<bar>net - ?x\<bar> \<le> 1 / 10 ^ 12" unfolding n using u by (rule pyround_12_error)
  then show "\<bar>net - exact_vote config i conf\<bar> \<le> 4 / 10 ^ 11" by (rule abs_tri(2) [OF _ c]) simp
qed

lemma recomputed_close:
  assumes "fusion_inputs_ok i" and "fusion_config_ok config" and "\<bar>exact_vote config i conf\<bar> \<le> 1 - 1 / 10 ^ 9"
  shows "\<bar>recomputed_net config i conf - fused_net config i conf\<bar> \<le> 1 / 10 ^ 10"
    and "fused_net config i conf = 0 \<Longrightarrow> fc_flat_threshold config \<noteq> 0 \<Longrightarrow> recomputed_net config i conf = 0"
proof -
  let ?net = "net_and_direction (resolved_scores config i conf) (renormalized_weights (config_weights config i) (available i))"
  have flat: "recomputed_net config i conf = 0" if "\<bar>?net\<bar> < fc_flat_threshold config"
    using that by (auto simp: recomputed_net_def fused_scores_def Let_def item_map fmul_def intro!: fsum_zeros)
  have near: "\<bar>recomputed_net config i conf - exact_vote config i conf\<bar> \<le> 3 / 10 ^ 11" if "\<not> \<bar>?net\<bar> < fc_flat_threshold config"
    using net_close(2) [OF assms(1,2)] that by (simp add: recomputed_net_def fused_scores_def Let_def)
  have m: "\<bar>exact_vote config i conf - ?net\<bar> \<le> 4 / 10 ^ 11" using fused_net_close(1) [OF assms] by (simp only: abs_minus_commute)
  have "\<bar>recomputed_net config i conf - ?net\<bar> \<le> 1 / 10 ^ 10" if "\<not> \<bar>?net\<bar> < fc_flat_threshold config"
    by (rule abs_tri(2) [OF near [OF that] m]) simp
  with flat show "\<bar>recomputed_net config i conf - fused_net config i conf\<bar> \<le> 1 / 10 ^ 10"
    by (simp add: fused_net_def Let_def)
  show "recomputed_net config i conf = 0" if "fused_net config i conf = 0" "fc_flat_threshold config \<noteq> 0"
    using that flat assms(2) by (auto simp: fused_net_def Let_def fusion_config_ok_def unit_float_def split: if_splits)
qed

lemma fused_net_gap: "fused_net config i conf = 0 \<or> fc_flat_threshold config \<le> \<bar>fused_net config i conf\<bar>"
  by (auto simp: fused_net_def Let_def)

lemma recomputed_float: "is_float (recomputed_net config i conf)"
  by (auto simp: recomputed_net_def list_all_iff intro!: is_float_fsum)

text \<open>A candidate whose vote is separated from zero by the threshold passes the validator.\<close>

lemma candidate_accepted:
  assumes "fusion_inputs_ok i" and "fusion_config_ok config" and "\<bar>exact_vote config i conf\<bar> \<le> 1 - 1 / 10 ^ 9"
    and "2 / 10 ^ 9 \<le> fc_flat_threshold config" and "available i \<noteq> []"
    and dir: "fs_direction f = sign_direction (fused_net config i conf)"
    and str: "fs_fused_strength f = pyround 12 \<bar>fused_net config i conf\<bar>"
    and cmp: "fs_components f = map (\<lambda>n. \<lparr>sc_name = n, sc_score = pyround 12 (item (fused_scores config i conf) n),
      sc_weight = pyround 12 (fl (exact_share (config_weights config i) (available i) n))\<rparr>) (available i)"
  shows "check_weights f = Inr ()"
proof -
  define net where "net = recomputed_net config i conf"
  define fn where "fn = fused_net config i conf"
  have close: "\<bar>net - fn\<bar> \<le> 1 / 10 ^ 10" using recomputed_close(1) [OF assms(1-3)] by (simp add: net_def fn_def)
  have fu: "\<bar>fn\<bar> \<le> 1" using fused_net_close(2) [OF assms(1-3)] by (simp add: fn_def fused_net_def Let_def)
  have p: "\<bar>pyround 12 \<bar>fn\<bar> - \<bar>fn\<bar>\<bar> \<le> 1 / 10 ^ 12" using fu by (intro pyround_12_error) simp
  have net: "fsum (map (\<lambda>c. fmul (sc_score c) (sc_weight c)) (fs_components f)) = net"
    by (simp add: cmp net_def recomputed_net_def comp_def)
  have s: "\<bar>fsum (map sc_weight (fs_components f)) - 1\<bar> \<le> 3 / 10 ^ 11"
    using net_close(3) [OF assms(1,2)] assms(5) by (simp add: cmp comp_def)
  have w: "isclose tol (fsum (map sc_weight (fs_components f))) 1"
    by (rule isclose_near) (use s in \<open>simp add: abs_minus_commute\<close>)
  have q: "\<bar>\<bar>fn\<bar> - \<bar>net\<bar>\<bar> \<le> 1 / 10 ^ 10" using close by linarith
  have g: "isclose tol \<bar>net\<bar> (fs_fused_strength f)"
    unfolding str fn_def [symmetric] by (intro isclose_near abs_tri(2) [OF p q]) simp
  consider (flat) "fn = 0" "net = 0" | (vote) "2 / 10 ^ 9 \<le> \<bar>fn\<bar>"
    using fused_net_gap [of config i conf] recomputed_close(2) [OF assms(1-3)] assms(4) by (force simp: fn_def net_def)
  then show ?thesis
  proof cases
    case flat
    then have "fs_direction f = SD_FLAT" "fs_fused_strength f = 0" using dir str by (simp_all add: fn_def sign_direction_def)
    with w g net flat show ?thesis by (simp add: check_weights_def Let_def isclose_def)
  next
    case vote
    note g3 = abs_gap [OF close vote]
    have sgn: "0 < net \<longleftrightarrow> 0 < fn" "net < 0 \<longleftrightarrow> fn < 0" using g3(2,3) by simp_all
    have "19 / 10 ^ 10 \<le> \<bar>net\<bar>" using g3(1) by simp
    then have "\<not> isclose tol net 0" using recomputed_float by (intro not_isclose_zero) (simp_all add: net_def)
    with w g net dir sgn show ?thesis by (auto simp: check_weights_def Let_def sign_direction_def fn_def [symmetric])
  qed
qed

lemma candidate_fields:
  assumes "fusion_inputs_ok i" and "fusion_config_ok config" and "\<bar>exact_vote config i conf\<bar> \<le> 1 - 1 / 10 ^ 9"
    and "available i \<noteq> []" and "fs_instrument_id f \<noteq> []" and "0 \<le> fs_confidence f \<and> fs_confidence f \<le> 1"
    and "fs_calibration_version f = fc_version config"
    and str: "fs_fused_strength f = pyround 12 \<bar>fused_net config i conf\<bar>"
    and cmp: "fs_components f = map (\<lambda>n. \<lparr>sc_name = n, sc_score = pyround 12 (item (fused_scores config i conf) n),
      sc_weight = pyround 12 (fl (exact_share (config_weights config i) (available i) n))\<rparr>) (available i)"
  shows "fused_fields_ok f"
proof -
  have "\<bar>fused_net config i conf\<bar> \<le> 1" using fused_net_close(2) [OF assms(1-3)] by (simp add: fused_net_def Let_def)
  then have st: "0 \<le> fs_fused_strength f \<and> fs_fused_strength f \<le> 1" unfolding str by (intro pyround_unit) simp_all
  have "signal_component_ok c" if c: "c \<in> set (fs_components f)" for c
  proof -
    obtain n where n: "n \<in> set (available i)" and c: "c = \<lparr>sc_name = n, sc_score = pyround 12 (item (fused_scores config i conf) n),
      sc_weight = pyround 12 (fl (exact_share (config_weights config i) (available i) n))\<rparr>" using c cmp by auto
    have "\<bar>item (fused_scores config i conf) n\<bar> \<le> 1"
      using vote_facts(1) [OF assms(1,2) n] n by (simp add: fused_scores_def Let_def item_map)
    then have "\<bar>pyround 12 (item (fused_scores config i conf) n)\<bar> \<le> 1" by (rule pyround_abs_le)
    then show ?thesis using vote_facts(2,5) [OF assms(1,2) n] by (simp add: c signal_component_ok_def abs_le_iff)
  qed
  with st assms cmp show ?thesis by (simp add: fused_fields_ok_def list_all_iff fusion_config_ok_def)
qed

text \<open>
  C29: with a flat threshold of at least \<open>2 * 10 ^ -9\<close> and a vote short of full unanimity, valid inputs that are not from the future and name one
  instrument always yield a fused signal that satisfies its contract. Its direction and strength are those of the exact weighted vote,
  up to \<open>10 ^ -10\<close>; a vote below the threshold is flat. In particular no valid configuration makes the calibration of confidences fail.
\<close>

theorem fused_signal_follows_exact_vote:
  assumes "fusion_inputs_ok i" and "fusion_config_ok config" and "2 / 10 ^ 9 \<le> fc_flat_threshold config"
    and "fc_missing_policy config = REQUIRE_QUANT \<longrightarrow> fi_quant i \<noteq> None"
    and "\<forall>n\<in>set (available i). item (input_as_of i) n \<le> now"
    and "instrument_of i = Inr iid"
    and "calibrated_confidences config i = Inr conf" and "\<bar>exact_vote config i conf\<bar> \<le> 1 - 1 / 10 ^ 9"
  defines "vote \<equiv> exact_vote config i conf" and "thr \<equiv> fc_flat_threshold config"
  shows "\<exists>f. fuse_signals sha uuid5 i config now trace_id = Inr (Some f) \<and> fused_fields_ok f \<and> check_weights f = Inr () \<and>
    fs_instrument_id f = iid \<and>
    (thr + 1 / 10 ^ 10 \<le> vote \<longrightarrow> fs_direction f = SD_LONG \<and> \<bar>fs_fused_strength f - vote\<bar> \<le> 1 / 10 ^ 10) \<and>
    (vote \<le> - (thr + 1 / 10 ^ 10) \<longrightarrow> fs_direction f = SD_SHORT \<and> \<bar>fs_fused_strength f + vote\<bar> \<le> 1 / 10 ^ 10) \<and>
    (\<bar>vote\<bar> \<le> thr - 1 / 10 ^ 10 \<longrightarrow> fs_direction f = SD_FLAT \<and> fs_fused_strength f = 0)"
proof -
  have present: "available i \<noteq> []" and iid: "iid \<noteq> []"
    using assms(1,6) by (auto simp: instrument_of_def available_def component_names_def fusion_inputs_ok_def
        quant_signal_ok_def llm_signal_ok_def split: option.splits if_splits)
  have quant: "fc_missing_policy config = REQUIRE_QUANT \<longrightarrow> QUANT \<in> set (available i)"
    using assms(4) by (simp add: available_def component_names_def)
  obtain f where run: "fuse_signals sha uuid5 i config now trace_id = rbind (build_fused_signal f) (\<lambda>f. Inr (Some f))"
    and f: "fs_instrument_id f = iid" "fs_direction f = sign_direction (fused_net config i conf)"
      "fs_fused_strength f = pyround 12 \<bar>fused_net config i conf\<bar>" "0 \<le> fs_confidence f \<and> fs_confidence f \<le> 1"
      "fs_components f = map (\<lambda>n. \<lparr>sc_name = n, sc_score = pyround 12 (item (fused_scores config i conf) n),
        sc_weight = pyround 12 (fl (exact_share (config_weights config i) (available i) n))\<rparr>) (available i)"
      "fs_calibration_version f = fc_version config"
    using fuse_signals_run [OF present quant assms(5,7,6), of sha uuid5 trace_id] by blast
  have ok: "fused_fields_ok f" "check_weights f = Inr ()"
    using candidate_fields [OF assms(1,2,8) present _ f(4,6,3,5)] candidate_accepted [OF assms(1,2,8,3) present f(2,3,5)] iid f(1) by auto
  define net where "net = net_and_direction (resolved_scores config i conf) (renormalized_weights (config_weights config i) (available i))"
  have n: "\<bar>net - vote\<bar> \<le> 4 / 10 ^ 11" "\<bar>net\<bar> \<le> 1"
    using fused_net_close [OF assms(1,2,8)] by (simp_all add: net_def vote_def)
  have p: "\<bar>pyround 12 \<bar>net\<bar> - \<bar>net\<bar>\<bar> \<le> 1 / 10 ^ 12" using n(2) by (intro pyround_12_error) simp
  have thr: "0 \<le> thr" using assms(3) by (simp add: thr_def)
  have fn: "fused_net config i conf = (if \<bar>net\<bar> < thr then 0 else net)" by (simp add: fused_net_def net_def thr_def Let_def)
  have b: "vote - 4 / 10 ^ 11 \<le> net" "net \<le> vote + 4 / 10 ^ 11" using n(1) unfolding abs_le_iff by linarith+
  have "\<bar>\<bar>net\<bar> - \<bar>vote\<bar>\<bar> \<le> 4 / 10 ^ 11" using n(1) by linarith
  then have s: "\<bar>pyround 12 \<bar>net\<bar> - \<bar>vote\<bar>\<bar> \<le> 1 / 10 ^ 10" by (rule abs_tri(2) [OF p]) simp
  have "fs_direction f = SD_LONG \<and> \<bar>fs_fused_strength f - vote\<bar> \<le> 1 / 10 ^ 10" if v: "thr + 1 / 10 ^ 10 \<le> vote"
  proof -
    have "thr < net" "0 < vote" using v b thr by simp_all
    with thr s show ?thesis by (simp add: f fn sign_direction_def)
  qed
  moreover have "fs_direction f = SD_SHORT \<and> \<bar>fs_fused_strength f + vote\<bar> \<le> 1 / 10 ^ 10" if v: "vote \<le> - (thr + 1 / 10 ^ 10)"
  proof -
    have "net < - thr" "vote < 0" using v b thr by simp_all
    with thr s show ?thesis by (simp add: f fn sign_direction_def)
  qed
  moreover have "fs_direction f = SD_FLAT \<and> fs_fused_strength f = 0" if "\<bar>vote\<bar> \<le> thr - 1 / 10 ^ 10"
    using that b by (auto simp: f fn sign_direction_def abs_le_iff abs_less_iff)
  ultimately show ?thesis using run ok f(1) by (auto simp: build_fused_signal_def)
qed

section \<open>Votes at the edges\<close>

text \<open>
  When the vote the validator recomputes is not zero but within its tolerance of zero, fusion raises instead of returning a flat signal:
  a signal that is not flat is too weak for the contract, and a flat one has a vote that is not exactly zero.
\<close>

lemma near_cancelling_votes_raise:
  assumes "available i \<noteq> []" and "fc_missing_policy config = REQUIRE_QUANT \<longrightarrow> QUANT \<in> set (available i)"
    and "\<forall>n\<in>set (available i). item (input_as_of i) n \<le> now"
    and "instrument_of i = Inr iid" and "calibrated_confidences config i = Inr conf"
    and "recomputed_net config i conf \<noteq> 0" and "\<bar>recomputed_net config i conf\<bar> \<le> 9 / 10 ^ 10"
  shows "\<exists>message. fuse_signals sha uuid5 i config now trace_id = Inl (ValidationError message)"
proof -
  obtain f where run: "fuse_signals sha uuid5 i config now trace_id = rbind (build_fused_signal f) (\<lambda>f. Inr (Some f))"
    and cmp: "fs_components f = map (\<lambda>n. \<lparr>sc_name = n, sc_score = pyround 12 (item (fused_scores config i conf) n),
        sc_weight = pyround 12 (fl (exact_share (config_weights config i) (available i) n))\<rparr>) (available i)"
    using fuse_signals_run [OF assms(1-3,5,4), of sha uuid5 trace_id] by blast
  define net where "net = recomputed_net config i conf"
  have net: "fsum (map (\<lambda>c. fmul (sc_score c) (sc_weight c)) (fs_components f)) = net"
    by (simp add: cmp net_def recomputed_net_def comp_def)
  have "isclose tol net 0" using assms(7) by (intro isclose_near) (simp add: net_def)
  moreover have "net \<noteq> 0" using assms(6) by (simp add: net_def)
  ultimately have "\<exists>message. check_weights f = Inl (ValidationError message)"
    using net by (cases "fs_direction f") (auto simp: check_weights_def Let_def)
  then show ?thesis using run by (auto simp: build_fused_signal_def)
qed

definition example_quant :: "signal_direction \<Rightarrow> float64 \<Rightarrow> quant_signal" where
  "example_quant d strength = \<lparr>qs_signal_id = 1, qs_instrument_id = ''EURUSD'', qs_direction = d, qs_strength = strength, qs_score = None,
     qs_confidence = 1 / 2, qs_horizon_seconds = None, qs_expected_return = None, qs_model_id = ''m'', qs_model_version = ''1'', qs_as_of = 0\<rparr>"

definition example_llm :: "signal_direction \<Rightarrow> float64 \<Rightarrow> llm_signal" where
  "example_llm d strength = \<lparr>ls_signal_id = 2, ls_instrument_id = ''EURUSD'', ls_direction = d, ls_strength = strength,
     ls_confidence = 1 / 2, ls_model_name = ''g'', ls_provider = ''p'', ls_prompt_version = ''1'', ls_as_of = 0\<rparr>"

definition example_regime :: "signal_direction \<Rightarrow> float64 \<Rightarrow> regime_context" where
  "example_regime d score = \<lparr>rc_regime = ''range'', rc_direction = d, rc_score = score, rc_confidence = 1 / 2, rc_classifier_version = ''1'', rc_as_of = 0\<rparr>"

definition example_config :: "int \<times> int \<times> int \<times> int \<Rightarrow> float64 \<Rightarrow> fusion_config" where
  "example_config bp thr = (case bp of (q, l, r, m) \<Rightarrow>
     \<lparr>fc_name = ''c'', fc_version = ''v1'', fc_default_weights = \<lparr>cw_quant_bp = q, cw_llm_bp = l, cw_regime_bp = r, cw_memory_bp = m\<rparr>,
      fc_regime_weights = [], fc_confidence_calibration = [], fc_disagreement_policy = NEUTRALIZE, fc_missing_policy = RENORMALIZE,
      fc_flat_threshold = thr, fc_compared_against = [], fc_notes = None\<rparr>)"

definition opposed_inputs :: fusion_inputs where
  "opposed_inputs = \<lparr>fi_quant = Some (example_quant SD_LONG (fl (3 / 10))), fi_llm = Some (example_llm SD_SHORT (fl (1 / 10))), fi_regime = None, fi_memory = None\<rparr>"

definition example_conf :: "(component, float64) dict" where
  "example_conf = [(QUANT, 1 / 2), (LLM, 1 / 2)]"

lemmas fusion_eval = available_def component_names_def per_component_def signed_scores_def resolved_scores_def resolve_disagreements_def
  config_weights_def weights_for_regime_def exact_share_def item_def example_quant_def example_llm_def example_regime_def example_config_def
  calibrated_confidences_def calibrated_confidence_def producer_keys_def raw_confidences_def input_as_of_def instrument_of_def
  net_and_direction_shares fused_scores_def Let_def

lemma opposed_values:
  "fmul 1 (fl (3 / 10)) = fl (3 / 10)" "fmul (- 1) (fl (1 / 10)) = - fl (1 / 10)" "fl (3 / 10) \<noteq> 0" "0 < fl (3 / 10)" "fl (1 / 10) \<noteq> 0"
  "0 < fl (1 / 10)" "pyround 12 (fl (1 / 4)) = 1 / 4" "pyround 12 (fl (3 / 4)) = 3 / 4"
  "pyround 12 (fsum [fmul (fl (3 / 10)) (1 / 4), fmul (- fl (1 / 10)) (3 / 4)]) = 0"
  "pyround 12 (fl (3 / 10)) = fl (3 / 10)" "pyround 12 (- fl (1 / 10)) = - fl (1 / 10)"
  "fsum [fmul (fl (3 / 10)) (1 / 4), fmul (- fl (1 / 10)) (3 / 4)] = - (1 / 2 ^ 56)"
  by code_simp+

lemma opposed_net: "recomputed_net (example_config (2500, 7500, 0, 0) 0) opposed_inputs example_conf = - (1 / 2 ^ 56)"
proof -
  have a: "available opposed_inputs = [QUANT, LLM]" by (simp add: fusion_eval opposed_inputs_def)
  have s: "signed_scores opposed_inputs = [(QUANT, fl (3 / 10)), (LLM, - fl (1 / 10))]"
    by (simp add: fusion_eval opposed_inputs_def opposed_values)
  have r: "resolved_scores (example_config (2500, 7500, 0, 0) 0) opposed_inputs example_conf = [(QUANT, fl (3 / 10)), (LLM, - fl (1 / 10))]"
    unfolding resolved_scores_def s by (simp add: fusion_eval opposed_values)
  have w: "exact_share (config_weights (example_config (2500, 7500, 0, 0) 0) opposed_inputs) [QUANT, LLM] QUANT = 1 / 4"
    "exact_share (config_weights (example_config (2500, 7500, 0, 0) 0) opposed_inputs) [QUANT, LLM] LLM = 3 / 4"
    by (simp_all add: fusion_eval opposed_inputs_def)
  have f: "fused_scores (example_config (2500, 7500, 0, 0) 0) opposed_inputs example_conf = [(QUANT, fl (3 / 10)), (LLM, - fl (1 / 10))]"
    unfolding fused_scores_def a r by (simp add: example_config_def Let_def)
  show ?thesis unfolding recomputed_net_def a f by (simp add: w item_def opposed_values del: fsum.simps)
qed

theorem near_cancelling_votes_raise_witness:
  "\<exists>message. fuse_signals (\<lambda>_. []) (\<lambda>_. 0) opposed_inputs (example_config (2500, 7500, 0, 0) 0) 5 None = Inl (ValidationError message)"
  using near_cancelling_votes_raise [of opposed_inputs "example_config (2500, 7500, 0, 0) 0" 5 "''EURUSD''" example_conf "\<lambda>_. []" "\<lambda>_. 0" None]
  by (simp add: opposed_net) (simp add: fusion_eval opposed_inputs_def example_conf_def)

definition unanimous_inputs :: fusion_inputs where
  "unanimous_inputs = \<lparr>fi_quant = Some (example_quant SD_LONG 1), fi_llm = Some (example_llm SD_LONG 1), fi_regime = Some (example_regime SD_LONG 1), fi_memory = None\<rparr>"

lemma unanimous_values:
  "fmul 1 1 = 1" "pyround 12 (fsum [fmul 1 (pyround 12 (fl (1 / 6))), fmul 1 (pyround 12 (fl (1 / 6))), fmul 1 (pyround 12 (fl (2 / 3)))]) = fl (1 + 1 / 10 ^ 12)"
  "1 < pyround 12 (fl (1 + 1 / 10 ^ 12))" "0 < fl (1 + 1 / 10 ^ 12)"
  by code_simp+

text \<open>
  Three inputs that are unanimous at full strength are refused when their shares are sixths and thirds: the shares are rounded up to twelve
  places, the fused strength becomes \<open>1 + 10 ^ -12\<close>, and the contract allows at most 1.
\<close>

lemma unanimous_vote_refused:
  "fuse_signals sha uuid5 unanimous_inputs (example_config (1000, 1000, 4000, 4000) 0) 0 trace_id = Inl (ValidationError ''field constraint'')"
proof -
  let ?c = "example_config (1000, 1000, 4000, 4000) 0" and ?i = unanimous_inputs
  let ?conf = "[(QUANT, 1 / 2), (LLM, 1 / 2), (REGIME, 1 / 2)]"
  have a: "available ?i = [QUANT, LLM, REGIME]" by (simp add: fusion_eval unanimous_inputs_def)
  have s: "signed_scores ?i = [(QUANT, 1), (LLM, 1), (REGIME, 1)]"
    by (simp add: fusion_eval unanimous_inputs_def unanimous_values)
  have r: "resolved_scores ?c ?i ?conf = [(QUANT, 1), (LLM, 1), (REGIME, 1)]"
    unfolding resolved_scores_def s by (simp add: fusion_eval)
  have w: "exact_share (config_weights ?c ?i) [QUANT, LLM, REGIME] QUANT = 1 / 6" "exact_share (config_weights ?c ?i) [QUANT, LLM, REGIME] LLM = 1 / 6"
    "exact_share (config_weights ?c ?i) [QUANT, LLM, REGIME] REGIME = 2 / 3"
    by (simp_all add: fusion_eval unanimous_inputs_def)
  have t: "fc_flat_threshold ?c = 0" by (simp add: example_config_def)
  have n: "fused_net ?c ?i ?conf = fl (1 + 1 / 10 ^ 12)"
    unfolding fused_net_def a r net_and_direction_shares using unanimous_values t
    by (simp add: w item_def Let_def del: fsum.simps)
  have "\<exists>f. fuse_signals sha uuid5 ?i ?c 0 trace_id = rbind (build_fused_signal f) (\<lambda>f. Inr (Some f)) \<and>
      fs_fused_strength f = pyround 12 \<bar>fused_net ?c ?i ?conf\<bar>"
    using fuse_signals_run [of ?i ?c 0 ?conf "''EURUSD''" sha uuid5 trace_id]
    by (force simp: fusion_eval unanimous_inputs_def)
  then obtain f where f: "fuse_signals sha uuid5 ?i ?c 0 trace_id = rbind (build_fused_signal f) (\<lambda>f. Inr (Some f))"
    "fs_fused_strength f = pyround 12 \<bar>fl (1 + 1 / 10 ^ 12)\<bar>" using n by auto
  then have "1 < fs_fused_strength f" using unanimous_values(3,4) by simp
  then show ?thesis using f(1) by (simp add: build_fused_signal_def fused_fields_ok_def)
qed

definition leaning_inputs :: fusion_inputs where
  "leaning_inputs = \<lparr>fi_quant = Some (example_quant SD_LONG (1 / 2)), fi_llm = Some (example_llm SD_SHORT (1 / 4)), fi_regime = None, fi_memory = None\<rparr>"

lemma leaning_values: "fmul 1 (1 / 2) = 1 / 2" "fmul (- 1) (1 / 4) = - (1 / 4)" "fl (1 / 2) = 1 / 2" "fl (1 / 4) = 1 / 4" "fl (1 / 64) = 1 / 64"
  by code_simp+

theorem fused_signal_follows_exact_vote_witness:
  "exact_vote (example_config (5000, 5000, 0, 0) (1 / 64)) leaning_inputs example_conf = 1 / 8 \<and>
   (\<exists>f. fuse_signals (\<lambda>_. []) (\<lambda>_. 0) leaning_inputs (example_config (5000, 5000, 0, 0) (1 / 64)) 5 None = Inr (Some f) \<and> fs_direction f = SD_LONG \<and>
     \<bar>fs_fused_strength f - 1 / 8\<bar> \<le> 1 / 10 ^ 10)"
proof -
  let ?c = "example_config (5000, 5000, 0, 0) (1 / 64)" and ?i = leaning_inputs
  have a: "available ?i = [QUANT, LLM]" by (simp add: fusion_eval leaning_inputs_def)
  have s: "signed_scores ?i = [(QUANT, 1 / 2), (LLM, - (1 / 4))]"
    by (simp add: fusion_eval leaning_inputs_def leaning_values)
  have r: "resolved_scores ?c ?i example_conf = [(QUANT, 1 / 2), (LLM, - (1 / 4))]"
    unfolding resolved_scores_def s by (simp add: fusion_eval)
  have v: "exact_vote ?c ?i example_conf = 1 / 8"
    unfolding exact_vote_def a r by (simp add: fusion_eval leaning_inputs_def)
  have ok: "fusion_inputs_ok ?i" "fusion_config_ok ?c"
    by (simp_all add: fusion_inputs_ok_def fusion_config_ok_def leaning_inputs_def example_quant_def example_llm_def example_config_def
        quant_signal_ok_def llm_signal_ok_def unit_float_def is_float_iff leaning_values component_weights_ok_def component_names_def)
  have "calibrated_confidences ?c ?i = Inr example_conf" "instrument_of ?i = Inr ''EURUSD''" "\<forall>n\<in>set (available ?i). item (input_as_of ?i) n \<le> 5"
    "2 / 10 ^ 9 \<le> fc_flat_threshold ?c" "fc_flat_threshold ?c = 1 / 64" "fc_missing_policy ?c = RENORMALIZE"
    by (simp_all add: fusion_eval leaning_inputs_def example_conf_def)
  then show ?thesis
    using fused_signal_follows_exact_vote [of ?i ?c 5 "''EURUSD''" example_conf "\<lambda>_. []" "\<lambda>_. 0" None] ok v by force
qed

end
