(* ===== verification/Calibration_Properties.thy ===== *)
theory Calibration_Properties
  imports Signal_Calibration Fusion_Properties
begin

text \<open>
  What learning guarantees: the isotonic fit is monotone in spite of rounding, the comparison of configurations returns exactly on complete
  history, and a language model keeps weight only when it measurably beats every weighting without it.
\<close>

section \<open>Isotonic regression\<close>

lemma pav_pass_concat: "concat (fst (pav_pass bs)) = concat bs"
  by (induction bs rule: pav_pass.induct) (auto split: prod.splits)

lemma pav_pass_stable: "\<not> snd (pav_pass bs) \<Longrightarrow> fst (pav_pass bs) = bs \<and> sorted (map fmean bs)"
  by (induction bs rule: pav_pass.induct) (fastforce split: prod.splits if_splits)+

lemma pav_result: "concat (pav bs) = concat bs \<and> sorted (map fmean (pav bs))"
proof (induction bs rule: pav.induct)
  case (1 bs)
  obtain r changed where p: "pav_pass bs = (r, changed)" by fastforce
  show ?case
  proof (cases changed)
    case True
    then show ?thesis using 1 [OF p [symmetric] refl] pav_pass_concat [of bs] p by (simp add: pav.simps [of bs])
  next
    case False
    then show ?thesis using pav_pass_stable [of bs] p by (simp add: pav.simps [of bs])
  qed
qed

lemma sorted_replicates:
  "sorted (map f bs) \<Longrightarrow> sorted (concat (map (\<lambda>b. replicate (length b) (f b)) bs) :: float64 list)"
  by (induction bs) (auto simp: sorted_append)

lemma length_replicates: "length (concat (map (\<lambda>b. replicate (length b) (f b)) bs)) = length (concat bs)"
  by (induction bs) simp_all

text \<open>Collapsing sorted abscissae keeps each of them once, in order.\<close>

lemma collapse_loop:
  assumes "sorted (map fst ps)" and "sorted_wrt (>) (map fst acc)" and "\<And>a p. a \<in> fst ` set acc \<Longrightarrow> p \<in> set ps \<Longrightarrow> a \<le> fst p"
  shows "sorted_wrt (>) (map fst (foldl collapse_step acc ps)) \<and> fst ` set (foldl collapse_step acc ps) = fst ` set acc \<union> fst ` set ps"
  using assms
proof (induction ps arbitrary: acc)
  case (Cons p ps)
  obtain x y where p: "p = (x, y)" by fastforce
  define acc' where "acc' = collapse_step acc p"
  have keys: "fst ` set acc' = insert x (fst ` set acc)"
    unfolding acc'_def p by (cases acc) (auto split: if_splits)
  have le: "a \<le> x" if "a \<in> fst ` set acc" for a using Cons.prems(3) [OF that, of p] by (simp add: p)
  have "sorted_wrt (>) (map fst acc')"
  proof (cases acc)
    case (Cons e es)
    obtain x0 s n where e: "e = (x0, s, n)" by (cases e) auto
    have "x0 \<le> x" using le Cons e by simp
    moreover have "\<forall>a\<in>fst ` set es. a < x0" using \<open>sorted_wrt (>) (map fst acc)\<close> Cons e by auto
    ultimately show ?thesis using \<open>sorted_wrt (>) (map fst acc)\<close> Cons by (auto simp: acc'_def p e)
  qed (simp add: acc'_def p)
  moreover have "sorted (map fst ps)" using Cons.prems(1) by simp
  moreover have "a \<le> fst q" if "a \<in> fst ` set acc'" "q \<in> set ps" for a q
  proof -
    have "x \<le> fst q" using Cons.prems(1) that(2) by (auto simp: p)
    then show ?thesis using that(1) le unfolding keys by (auto intro: order_trans)
  qed
  ultimately have "sorted_wrt (>) (map fst (foldl collapse_step acc' ps)) \<and> fst ` set (foldl collapse_step acc' ps) = fst ` set acc' \<union> fst ` set ps"
    by (intro Cons.IH)
  then show ?case using keys by (simp add: acc'_def p)
qed simp

lemma collapse_x_keys:
  assumes "sorted x" and "length x = length y"
  shows "sorted_wrt (<) (fst (collapse_x x y)) \<and> set (fst (collapse_x x y)) = set x \<and> length (snd (collapse_x x y)) = length (fst (collapse_x x y))"
proof -
  have "sorted_wrt (>) (map fst (foldl collapse_step [] (zip x y))) \<and> fst ` set (foldl collapse_step [] (zip x y)) = {} \<union> fst ` set (zip x y)"
    using collapse_loop [of "zip x y" "[]"] assms by simp
  moreover have "fst ` set (zip x y) = set x" using assms(2) by (metis list.set_map map_fst_zip)
  ultimately show ?thesis by (simp add: collapse_x_def Let_def rev_map [symmetric] sorted_wrt_rev)
qed

lemma isotonic_fit:
  assumes "sorted x" and "length x = length y"
  shows "\<exists>xs ys blocks. isotonic_regression x y = Inr (xs, ys) \<and> sorted_wrt (<) xs \<and> set xs = set x \<and> length ys = length xs \<and> sorted ys \<and>
    concat blocks = snd (collapse_x x y) \<and> ys = concat (map (\<lambda>b. replicate (length b) (fmean b)) blocks)"
proof (cases "x = []")
  case True
  with assms show ?thesis
    by (intro exI [of _ "[]"]) (simp add: isotonic_regression_def collapse_x_def)
next
  case False
  obtain xs ys where c: "collapse_x x y = (xs, ys)" by fastforce
  define blocks where "blocks = pav (map (\<lambda>v. [v]) ys)"
  have b: "concat blocks = ys" "sorted (map fmean blocks)" using pav_result [of "map (\<lambda>v. [v]) ys"] by (simp_all add: blocks_def)
  have "isotonic_regression x y = Inr (xs, concat (map (\<lambda>b. replicate (length b) (fmean b)) blocks))"
    using False assms(2) c by (simp add: isotonic_regression_def blocks_def Let_def)
  then show ?thesis using collapse_x_keys [OF assms] c b sorted_replicates [OF b(2)] length_replicates [of fmean blocks]
    by (intro exI [of _ xs] exI [of _ blocks] exI) simp
qed



section \<open>Comparison of configurations\<close>

lemma traverse_Inr_iff: "(\<exists>ys. traverse f xs = Inr ys) \<longleftrightarrow> (\<forall>x\<in>set xs. \<exists>y. f x = Inr y)"
  by (induction xs) (auto simp: rbind_def split: sum.splits)

lemma traverse_length: "traverse f xs = Inr ys \<Longrightarrow> length ys = length xs"
  by (induction xs arbitrary: ys) (auto simp: rbind_def split: sum.splits)

lemma compute_metrics_returns:
  "(\<exists>m. compute_metrics pow cases name config w cal aware = Inr m) \<longleftrightarrow>
     cases \<noteq> [] \<and> (\<forall>c\<in>set cases. \<exists>s. score_case config w cal aware c = Inr s)"
proof -
  let ?f = "\<lambda>c. rbind (score_case config w cal aware c) (\<lambda>s. Inr (c, s))"
  have "(\<exists>y. ?f c = Inr y) \<longleftrightarrow> (\<exists>s. score_case config w cal aware c = Inr s)" for c
    by (auto simp: rbind_def split: sum.splits)
  then have t: "(\<exists>ys. traverse ?f cases = Inr ys) \<longleftrightarrow> (\<forall>c\<in>set cases. \<exists>s. score_case config w cal aware c = Inr s)"
    by (simp add: traverse_Inr_iff)
  show ?thesis
  proof (cases "traverse ?f cases")
    case (Inl e)
    then show ?thesis using t by (simp add: compute_metrics_def)
  next
    case (Inr ys)
    then have "ys = [] \<longleftrightarrow> cases = []" using traverse_length [OF Inr] by auto
    with Inr t show ?thesis by (auto simp: compute_metrics_def Let_def)
  qed
qed

lemma score_case_returns:
  assumes "fusion_config_ok config"
  shows "(\<exists>s. score_case config (Some w) True False c = Inr s) \<longleftrightarrow> sum_list (map (item w) (available (lc_inputs c))) \<noteq> 0"
  using calibrated_confidences_return [OF assms, of "lc_inputs c"]
  by (auto simp: score_case_def effective_weights_def Let_def)

lemma baseline_returns: "(\<exists>s. score_case config None False False c = Inr s) \<longleftrightarrow> available (lc_inputs c) \<noteq> []"
proof (cases "available (lc_inputs c) = []")
  case False
  then have "sum_list (map (item (equal_split (available (lc_inputs c)))) (available (lc_inputs c))) = 10000"
    by (intro equal_split_available(1)) simp_all
  with False show ?thesis by (simp add: score_case_def effective_weights_def baseline_weights_bp_def Let_def)
qed (simp add: score_case_def effective_weights_def baseline_weights_bp_def Let_def)

lemma only_weights_sum:
  "sum_list (map (item (only_weights QUANT)) (available i)) \<noteq> 0 \<longleftrightarrow> fi_quant i \<noteq> None"
  "sum_list (map (item (only_weights LLM)) (available i)) \<noteq> 0 \<longleftrightarrow> fi_llm i \<noteq> None"
  by (cases "fi_quant i"; cases "fi_llm i"; cases "fi_regime i"; cases "fi_memory i";
      simp add: available_def component_names_def only_weights_def item_def)+

lemma item_as_dict: "item (as_dict w) c = bp_for w c"
  by (cases c) (simp_all add: as_dict_def component_names_def item_def)

text \<open>
  The comparison of the mandatory configurations returns a result exactly when there are cases and every one of them has a quantitative and a
  language-model input and a present input with positive default weight. One case without either signal makes the evaluation, and with it every calibration,
  fail with a division by zero.
\<close>

lemma evaluation_needs_quant_and_llm:
  assumes "fusion_config_ok config"
  shows "(\<exists>r. evaluate_cases pow cases config False = Inr r) \<longleftrightarrow>
    cases \<noteq> [] \<and> (\<forall>c\<in>set cases. fi_quant (lc_inputs c) \<noteq> None \<and> fi_llm (lc_inputs c) \<noteq> None \<and>
      sum_list (map (bp_for (fc_default_weights config)) (available (lc_inputs c))) \<noteq> 0)"
proof -
  have "(\<exists>r. evaluate_cases pow cases config False = Inr r) \<longleftrightarrow> cases \<noteq> [] \<and>
      (\<exists>m. compute_metrics pow cases ''quant_only'' config (Some (only_weights QUANT)) True False = Inr m) \<and>
      (\<exists>m. compute_metrics pow cases ''llm_only'' config (Some (only_weights LLM)) True False = Inr m) \<and>
      (\<exists>m. compute_metrics pow cases ''quant_plus_llm'' config (Some (as_dict (fc_default_weights config))) True False = Inr m) \<and>
      (\<exists>m. compute_metrics pow cases ''baseline'' config None False False = Inr m)"
    by (auto simp: evaluate_cases_def rbind_def split: sum.splits)
  also have "\<dots> \<longleftrightarrow> cases \<noteq> [] \<and> (\<forall>c\<in>set cases. fi_quant (lc_inputs c) \<noteq> None \<and> fi_llm (lc_inputs c) \<noteq> None \<and>
      sum_list (map (bp_for (fc_default_weights config)) (available (lc_inputs c))) \<noteq> 0 \<and> available (lc_inputs c) \<noteq> [])"
    unfolding compute_metrics_returns score_case_returns [OF assms] baseline_returns only_weights_sum item_as_dict by blast
  also have "\<dots> \<longleftrightarrow> cases \<noteq> [] \<and> (\<forall>c\<in>set cases. fi_quant (lc_inputs c) \<noteq> None \<and> fi_llm (lc_inputs c) \<noteq> None \<and>
      sum_list (map (bp_for (fc_default_weights config)) (available (lc_inputs c))) \<noteq> 0)"
    by (metis list.simps(8) sum_list.Nil)
  finally show ?thesis .
qed

definition quant_only_case :: labeled_case where
  "quant_only_case = \<lparr>lc_inputs = \<lparr>fi_quant = Some (example_quant SD_LONG 1), fi_llm = None, fi_regime = None, fi_memory = None\<rparr>,
     lc_realized_return = 1, lc_as_of = 0\<rparr>"

theorem evaluation_needs_quant_and_llm_witness:
  "\<not> (\<exists>r. evaluate_cases (\<lambda>x y. x) [quant_only_case] (example_config (5000, 5000, 0, 0) 0) False = Inr r)"
proof -
  have "fusion_config_ok (example_config (5000, 5000, 0, 0) 0)"
    by (simp add: fusion_config_ok_def example_config_def unit_float_def component_weights_ok_def component_names_def)
  from evaluation_needs_quant_and_llm [OF this, of "\<lambda>x y. x" "[quant_only_case]"] show ?thesis by (simp add: quant_only_case_def)
qed

section \<open>Weights of the language model\<close>

lemma max_by_upper:
  assumes "\<And>a b c. \<not> gt b a \<Longrightarrow> \<not> gt c b \<Longrightarrow> \<not> gt c a" and "\<And>a b. gt a b \<Longrightarrow> \<not> gt b a"
  shows "\<not> gt best (max_by gt best xs) \<and> (\<forall>x\<in>set xs. \<not> gt x (max_by gt best xs))"
proof (induction xs arbitrary: best)
  case (Cons x xs)
  let ?b = "if gt x best then x else best"
  let ?m = "max_by gt ?b xs"
  have b: "\<not> gt best ?b" "\<not> gt x ?b" using assms(2) by auto
  have m: "\<not> gt ?b ?m" "\<forall>y\<in>set xs. \<not> gt y ?m" using Cons [of ?b] by auto
  have "\<not> gt best ?m" "\<not> gt x ?m" using assms(1) [OF m(1) b(1)] assms(1) [OF m(1) b(2)] by auto
  with m(2) show ?case by simp
next
  case Nil
  show ?case using assms(2) [of best best] by auto
qed

lemma max_by_in: "max_by gt best xs = best \<or> max_by gt best xs \<in> set xs"
  by (induction xs arbitrary: best) (simp_all, metis)

lemma key_gt_order: "\<not> key_gt b a \<Longrightarrow> \<not> key_gt c b \<Longrightarrow> \<not> key_gt c a" "key_gt a b \<Longrightarrow> \<not> key_gt b a"
  unfolding key_gt_def Let_def by linarith+

text \<open>The grid search returns a candidate, and none has a larger mean return.\<close>

lemma best_weights_optimal:
  assumes "best_weights cb cases fixed = Inr w"
  shows "\<exists>d\<in>set (candidates cb fixed). w = weights_of d \<and>
    (\<forall>d'\<in>set (candidates cb fixed). mean_directional_return cb cases d' \<le> mean_directional_return cb cases d)"
proof -
  let ?keys = "map (\<lambda>d. (mean_directional_return cb cases d, weights_of d)) (candidates cb fixed)"
  let ?best = "max_by key_gt start_key ?keys"
  have b: "?best \<noteq> start_key" "w = snd ?best" using assms by (auto simp: best_weights_def Let_def split: if_splits)
  then have "?best \<in> set ?keys" using max_by_in [of key_gt start_key ?keys] by blast
  then obtain d where d: "d \<in> set (candidates cb fixed)" "?best = (mean_directional_return cb cases d, weights_of d)" by auto
  have "\<forall>k\<in>set ?keys. \<not> key_gt k ?best" using max_by_upper [of key_gt start_key ?keys] key_gt_order by blast
  then have "\<forall>d'\<in>set (candidates cb fixed). mean_directional_return cb cases d' \<le> mean_directional_return cb cases d"
    unfolding d(2) by (auto simp: key_gt_def not_less)
  then show ?thesis using d b(2) by auto
qed

lemma mean_return_cong:
  assumes "\<And>c. item d c = item d' c"
  shows "mean_directional_return cb cases d = mean_directional_return cb cases d'"
proof -
  have "item d = item d'" using assms by (rule ext)
  then show ?thesis by (simp only: mean_directional_return_def directional_returns_def weighted_bp_def)
qed

lemma item_weights_of: "item (as_dict (weights_of d)) c = item d c"
  by (cases c) (simp_all add: item_as_dict weights_of_def)

text \<open>
  C31: after the value test a weighting gives the language model a share only if it is kept as learned, and its mean directional return on the
  cases exceeds that of every weighting of the grid without the language model, by more than the required improvement.
\<close>

theorem llm_weight_needs_measured_value:
  assumes "maybe_zero_llm cb cases learned = Inr (w, kept)" and "cw_llm_bp w \<noteq> 0"
  shows "w = learned \<and> kept \<and>
    (\<forall>d\<in>set (candidates cb [(LLM, 0)]).
       fadd (mean_directional_return cb cases d) (cb_min_improvement cb) < mean_directional_return cb cases (as_dict w))"
proof (cases "cw_llm_bp learned = 0")
  case True
  with assms show ?thesis by (simp add: maybe_zero_llm_def)
next
  case False
  then obtain v where v: "best_weights cb cases [(LLM, 0)] = Inr v"
    using assms(1) by (auto simp: maybe_zero_llm_def rbind_def split: sum.splits)
  obtain d where d: "d \<in> set (candidates cb [(LLM, 0)])" "v = weights_of d"
    "\<forall>d'\<in>set (candidates cb [(LLM, 0)]). mean_directional_return cb cases d' \<le> mean_directional_return cb cases d"
    using best_weights_optimal [OF v] by blast
  have "cw_llm_bp v = 0" using d(1,2) by (auto simp: candidates_def Let_def weights_of_def item_def)
  then have k: "w = learned" "kept" "fadd (mean_directional_return cb cases (as_dict v)) (cb_min_improvement cb) < mean_directional_return cb cases (as_dict w)"
    using assms False v by (auto simp: maybe_zero_llm_def not_le split: if_splits)
  have "mean_directional_return cb cases (as_dict v) = mean_directional_return cb cases d"
    unfolding d(2) by (rule mean_return_cong) (rule item_weights_of)
  then have "fadd (mean_directional_return cb cases d') (cb_min_improvement cb) \<le> fadd (mean_directional_return cb cases (as_dict v)) (cb_min_improvement cb)"
    if "d' \<in> set (candidates cb [(LLM, 0)])" for d'
    using d(3) that by (simp add: fadd_def fl_mono)
  with k show ?thesis by (metis order_le_less_trans)
qed

definition example_calibrator :: calibrator where
  "example_calibrator = \<lparr>cb_weight_step_bp = 10000, cb_min_cases_per_regime = 20, cb_min_cases_confidence = 10, cb_min_improvement = 0,
     cb_flat_threshold = 0, cb_disagreement_policy = NEUTRALIZE, cb_missing_policy = RENORMALIZE\<rparr>"

definition llm_right_case :: labeled_case where
  "llm_right_case = \<lparr>lc_inputs = \<lparr>fi_quant = Some (example_quant SD_SHORT 1), fi_llm = Some (example_llm SD_LONG 1), fi_regime = None, fi_memory = None\<rparr>,
     lc_realized_return = 1, lc_as_of = 0\<rparr>"

definition llm_alone :: component_weights where
  "llm_alone = \<lparr>cw_quant_bp = 0, cw_llm_bp = 10000, cw_regime_bp = 0, cw_memory_bp = 0\<rparr>"

lemma llm_right_kept: "maybe_zero_llm example_calibrator [llm_right_case] llm_alone = Inr (llm_alone, True)"
  by code_simp

lemma quant_candidate: "[(LLM, 0), (QUANT, 10000), (REGIME, 0), (MEMORY, 0)] \<in> set (candidates example_calibrator [(LLM, 0)])"
  by code_simp

theorem llm_weight_needs_measured_value_witness:
  "fadd (mean_directional_return example_calibrator [llm_right_case] [(LLM, 0), (QUANT, 10000), (REGIME, 0), (MEMORY, 0)]) 0 <
   mean_directional_return example_calibrator [llm_right_case] (as_dict llm_alone)"
  using llm_weight_needs_measured_value [OF llm_right_kept] quant_candidate by (simp add: llm_alone_def example_calibrator_def)

section \<open>Learning of confidence maps\<close>

lemma insert_pair_props: "set (insert_pair p qs) = insert p (set qs) \<and> (sorted (map fst qs) \<longrightarrow> sorted (map fst (insert_pair p qs)))"
proof (induction qs)
  case (Cons q qs)
  obtain a b c d where "p = (a, b)" "q = (c, d)" by (cases p, cases q)
  with Cons show ?case by auto
qed simp

lemma sort_pairs_props: "set (sort_pairs ps) = set ps \<and> sorted (map fst (sort_pairs ps))"
  using insert_pair_props by (induction ps) (auto simp: sort_pairs_def)

lemma varied_confidence_refused:
  assumes "p \<in> set points" and "q \<in> set points" and "fst p \<noteq> fst q"
  shows "\<exists>e. confidence_map_of points = Inl e"
proof -
  define ps where "ps = sort_pairs points"
  obtain xs ys where r: "isotonic_regression (map fst ps) (map snd ps) = Inr (xs, ys)" "set xs = fst ` set ps"
    using isotonic_fit [of "map fst ps" "map snd ps"] sort_pairs_props [of points] by (auto simp: ps_def)
  have "fst p \<in> set xs" "fst q \<in> set xs" using r(2) assms sort_pairs_props [of points] by (auto simp: ps_def)
  then have "\<not> length xs \<le> 1" using assms(3) by (cases xs rule: remdups_adj.cases) auto
  then have "check_shape \<lparr>cm_x = xs, cm_y = ys\<rparr> \<noteq> Inr ()" by (simp add: check_shape_iff)
  then obtain e where "check_shape \<lparr>cm_x = xs, cm_y = ys\<rparr> = Inl e" by (cases "check_shape \<lparr>cm_x = xs, cm_y = ys\<rparr>") auto
  then show ?thesis using r(1) by (simp add: confidence_map_of_def ps_def [symmetric] Let_def)
qed

text \<open>
  Calibration fails on every history in which some producer has enough cases to be calibrated and reported two different confidences,
  whatever the other parameters: the learned map has two breakpoints, and its validator refuses those.
\<close>

lemma varied_confidence_fails_calibration:
  assumes "(key, points) \<in> set (grouped_points cases)" and "cb_min_cases_confidence cb \<le> length points"
    and "p \<in> set points" and "q \<in> set points" and "fst p \<noteq> fst q"
  shows "\<exists>e. calibrate pow version cb cases name = Inl e"
proof -
  let ?f = "\<lambda>(k, points). rbind (confidence_map_of points) (\<lambda>m. Inr (k, m))"
  let ?groups = "filter (\<lambda>(_, points). cb_min_cases_confidence cb \<le> length points) (sort_key fst (grouped_points cases))"
  have "(key, points) \<in> set ?groups" using assms(1,2) by simp
  moreover have "\<not> (\<exists>y. ?f (key, points) = Inr y)" using varied_confidence_refused [OF assms(3-5)] by auto
  ultimately have "\<not> (\<exists>ys. traverse ?f ?groups = Inr ys)" unfolding traverse_Inr_iff by blast
  then obtain e where "confidence_maps cb cases = Inl e" unfolding confidence_maps_def by (cases "traverse ?f ?groups") auto
  then show ?thesis by (auto simp: calibrate_def)
qed

definition confident_case :: "float64 \<Rightarrow> labeled_case" where
  "confident_case conf = \<lparr>lc_inputs = \<lparr>fi_quant = Some ((example_quant SD_LONG 1)\<lparr>qs_confidence := conf\<rparr>), fi_llm = None, fi_regime = None, fi_memory = None\<rparr>,
     lc_realized_return = 1, lc_as_of = 0\<rparr>"

theorem varied_confidence_fails_calibration_witness:
  "\<exists>e. calibrate (\<lambda>x y. x) (\<lambda>_ _ _. ''v'') (example_calibrator\<lparr>cb_min_cases_confidence := 2\<rparr>) [confident_case (1 / 2), confident_case 1] ''n'' = Inl e"
proof -
  have "(''quant:m'', [(1 / 2, 1), (1, 1)]) \<in> set (grouped_points [confident_case (1 / 2), confident_case 1])"
    by code_simp
  from varied_confidence_fails_calibration [OF this, of "example_calibrator\<lparr>cb_min_cases_confidence := 2\<rparr>" "(1 / 2, 1)" "(1, 1)"]
  show ?thesis by (simp add: example_calibrator_def)
qed

end
