(* ===== verification/Posttrade.thy ===== *)
theory Posttrade
  imports Signal_Fusion Paper_Ledger
begin

text \<open>
  The post-trade engine: the metrics of a closed trade (\<^verbatim>\<open>engines/posttrade/metrics.py\<close>), its contracts
  (\<^verbatim>\<open>core/schemas/posttrade.py\<close>) and the analysis that judges each link of the decision chain (\<^verbatim>\<open>engines/posttrade/analysis.py\<close>).

  Amounts are decimals, ratios floats. Lessons and notes are values of a datatype instead of texts. Parameters are the C library's \<open>pow\<close>
  and \<open>repr_decimal\<close>, the decimal that \<open>Decimal(str(x))\<close> reads back from the shortest representation of a float.
\<close>

section \<open>Contracts\<close>

record closed_trade = trade_outcome +
  to_slippage_total :: "decimal option"
  to_regime_at_entry :: "string option"

record trade_metrics =
  tm_pnl_gross :: decimal
  tm_pnl_net :: decimal
  tm_fees :: decimal
  tm_slippage :: decimal
  tm_r_multiple :: "float64 option"
  tm_alpha_pct :: "float64 option"
  tm_mae_pct :: "float64 option"
  tm_mfe_pct :: "float64 option"
  tm_holding_seconds :: int
  tm_entry_efficiency :: "float64 option"
  tm_exit_efficiency :: "float64 option"
  tm_signal_calibration_error :: "(string, float64) dict"
  tm_prediction_error_pct :: "float64 option"
  tm_market_regime :: string
  tm_expected_return_pct :: "float64 option"
  tm_actual_return_pct :: float64
  tm_benchmark_return_pct :: "float64 option"
  tm_expected_r :: "float64 option"

definition opt_nonneg :: "rat option \<Rightarrow> bool" where
  "opt_nonneg x \<longleftrightarrow> (case x of None \<Rightarrow> True | Some v \<Rightarrow> 0 \<le> v)"

definition opt_unit :: "rat option \<Rightarrow> bool" where
  "opt_unit x \<longleftrightarrow> (case x of None \<Rightarrow> True | Some v \<Rightarrow> 0 \<le> v \<and> v \<le> 1)"

definition valid_trade_metrics :: "trade_metrics \<Rightarrow> bool" where
  "valid_trade_metrics m \<longleftrightarrow> 0 \<le> tm_fees m \<and> 0 \<le> tm_slippage m \<and> opt_nonneg (tm_mae_pct m) \<and> opt_nonneg (tm_mfe_pct m) \<and>
     0 \<le> tm_holding_seconds m \<and> opt_unit (tm_exit_efficiency m) \<and> opt_nonneg (tm_prediction_error_pct m) \<and>
     tm_market_regime m \<noteq> [] \<and> opt_nonneg (tm_expected_r m)"

definition valid_price_point :: "price_point \<Rightarrow> bool" where
  "valid_price_point p \<longleftrightarrow> 0 < pp_high p \<and> 0 < pp_low p \<and> 0 < pp_close p"

section \<open>Metrics\<close>

record metrics_input =
  mi_outcome :: closed_trade
  mi_risk_amount :: "decimal option"
  mi_expected_return_pct :: "float64 option"
  mi_benchmark_return_pct :: "float64 option"
  mi_path :: "price_point list"
  mi_regime :: "string option"
  mi_signal_calibration_error :: "(string, float64) dict"
  mi_planned_stop :: "decimal option"
  mi_planned_take :: "decimal option"

definition signed_return_pct :: "decimal \<Rightarrow> decimal \<Rightarrow> signal_direction \<Rightarrow> exn + float64" where
  "signed_return_pct entry exit_price direction =
     (if entry \<le> 0 then Inl (ValueError ''entry price must be positive'')
      else let sgn = (if direction = SD_LONG then 1 else - 1)
           in Inr (float_of_decimal (dmul (ddiv_nz (dmul sgn (dsub exit_price entry)) entry) 100)))"

fun direction_correct :: "signal_direction option \<Rightarrow> bool \<Rightarrow> bool option" where
  "direction_correct (Some SD_LONG) up = Some up"
| "direction_correct (Some SD_SHORT) up = Some (\<not> up)"
| "direction_correct _ up = None"

definition brier_error :: "(float64 \<Rightarrow> float64 \<Rightarrow> float64) \<Rightarrow> float64 option \<Rightarrow> bool \<Rightarrow> float64 option" where
  "brier_error pow confidence hit = map_option (\<lambda>c. pow (fsub c (if hit then 1 else 0)) 2) confidence"

definition favorable_extreme :: "price_point list \<Rightarrow> signal_direction \<Rightarrow> decimal option" where
  "favorable_extreme path direction =
     (if path = [] then None
      else if direction = SD_LONG then Some (Max (set (map pp_high path))) else Some (Min (set (map pp_low path))))"

definition adverse_extreme :: "price_point list \<Rightarrow> signal_direction \<Rightarrow> decimal option" where
  "adverse_extreme path direction =
     (if path = [] then None
      else if direction = SD_LONG then Some (Min (set (map pp_low path))) else Some (Max (set (map pp_high path))))"

text \<open>The share of \<open>entry\<close> that lies between two prices, in percent, never negative.\<close>

definition excursion_pct :: "decimal \<Rightarrow> decimal \<Rightarrow> decimal \<Rightarrow> float64" where
  "excursion_pct entry a b = max (float_of_decimal (dmul (ddiv_nz (dsub a b) entry) 100)) 0"

definition expected_r_of :: "decimal \<Rightarrow> decimal option \<Rightarrow> decimal option \<Rightarrow> float64 option" where
  "expected_r_of entry planned_stop planned_take =
     (case planned_stop of
        None \<Rightarrow> None
      | Some stop \<Rightarrow>
          if stop = entry then None
          else let stop_distance = dabs (dsub stop entry);
                   take_distance = (case planned_take of None \<Rightarrow> stop_distance | Some tk \<Rightarrow> dabs (dsub tk entry))
               in if 0 < stop_distance then Some (float_of_decimal (ddiv_nz take_distance stop_distance)) else None)"

text \<open>\<open>or\<close> on optional strings: the empty string counts as absent.\<close>

definition str_or :: "string option \<Rightarrow> string \<Rightarrow> string" where
  "str_or x d = (case x of None \<Rightarrow> d | Some s \<Rightarrow> if s = [] then d else s)"

definition holding_seconds_of :: "closed_trade \<Rightarrow> int" where
  "holding_seconds_of t = round_down (fl (of_int (to_closed_at t - to_opened_at t) / 10 ^ 6))"

definition compute_trade_metrics :: "metrics_input \<Rightarrow> exn + trade_metrics" where
  "compute_trade_metrics inp =
     (let t = mi_outcome inp; entry = to_entry_price t; exit_price = to_exit_price t; direction = to_direction t;
          pnl_net = dsub (to_realized_pnl t) (to_costs t);
          best = favorable_extreme (mi_path inp) direction; worst = adverse_extreme (mi_path inp) direction
      in rbind (signed_return_pct entry exit_price direction) (\<lambda>actual.
         let m = \<lparr>tm_pnl_gross = to_realized_pnl t, tm_pnl_net = pnl_net, tm_fees = to_costs t,
            tm_slippage = (case to_slippage_total t of None \<Rightarrow> 0 | Some s \<Rightarrow> s),
            tm_r_multiple = (case mi_risk_amount inp of None \<Rightarrow> None | Some r \<Rightarrow> if 0 < r then Some (float_of_decimal (ddiv_nz pnl_net r)) else None),
            tm_alpha_pct = (case mi_benchmark_return_pct inp of Some b \<Rightarrow> Some (fsub actual b) | None \<Rightarrow> map_option (fsub actual) (mi_expected_return_pct inp)),
            tm_mae_pct = (case (best, worst) of (Some _, Some w) \<Rightarrow> Some (if direction = SD_LONG then excursion_pct entry entry w else excursion_pct entry w entry) | _ \<Rightarrow> None),
            tm_mfe_pct = (case (best, worst) of (Some b, Some _) \<Rightarrow> Some (if direction = SD_LONG then excursion_pct entry b entry else excursion_pct entry entry b) | _ \<Rightarrow> None),
            tm_holding_seconds = holding_seconds_of t,
            tm_entry_efficiency = (case (best, worst) of
               (Some b, Some _) \<Rightarrow> if b \<noteq> entry then Some (float_of_decimal (ddiv_nz (dsub exit_price entry) (dsub b entry))) else None | _ \<Rightarrow> None),
            tm_exit_efficiency = (case (best, worst) of
               (Some b, Some w) \<Rightarrow> if b \<noteq> w then Some (min (max (float_of_decimal (ddiv_nz (dsub exit_price w) (dsub b w))) 0) 1) else None | _ \<Rightarrow> None),
            tm_signal_calibration_error = mi_signal_calibration_error inp,
            tm_prediction_error_pct = map_option (\<lambda>e. \<bar>fsub actual e\<bar>) (mi_expected_return_pct inp),
            tm_market_regime = str_or (mi_regime inp) (str_or (to_regime_at_entry t) ''unknown''),
            tm_expected_return_pct = mi_expected_return_pct inp, tm_actual_return_pct = actual,
            tm_benchmark_return_pct = mi_benchmark_return_pct inp,
            tm_expected_r = expected_r_of entry (mi_planned_stop inp) (mi_planned_take inp)\<rparr>
         in if valid_trade_metrics m then Inr m else Inl (ValueError ''TradeMetrics'')))"

section \<open>Analysis\<close>

datatype producer = PR_QUANT | PR_LLM | PR_FUSED | PR_MEMORY

fun producer_name :: "producer \<Rightarrow> string" where
  "producer_name PR_QUANT = ''quant''"
| "producer_name PR_LLM = ''llm''"
| "producer_name PR_FUSED = ''fused''"
| "producer_name PR_MEMORY = ''memory''"

definition producer_order :: "producer list" where
  "producer_order = [PR_QUANT, PR_LLM, PR_FUSED, PR_MEMORY]"

datatype signal_note = SN_Not_Captured | SN_Missing_Inputs "component list" | SN_Disagreements nat

record signal_quality =
  sq_producer :: producer
  sq_present :: bool
  sq_direction :: "signal_direction option"
  sq_confidence :: "float64 option"
  sq_direction_correct :: "bool option"
  sq_brier_error :: "float64 option"
  sq_notes :: "signal_note list"

datatype risk_note =
    RN_No_Decision
  | RN_Size_Deviates decimal decimal
  | RN_Stop_Exceeded
  | RN_Resized "risk_reason_code list"
  | RN_Rejected "risk_reason_code list"
  | RN_Risk_Amount "decimal option"

record risk_quality =
  rq_limits_respected :: bool
  rq_decision :: "risk_decision_type option"
  rq_approved :: bool
  rq_size_respected :: "bool option"
  rq_planned_stop_respected :: "bool option"
  rq_risk_amount :: "decimal option"
  rq_notes :: "risk_note list"

record execution_quality =
  xq_slippage_pct :: "float64 option"
  xq_fees_pct :: "float64 option"
  xq_fill_quality :: string

record analysis_context =
  ax_outcome :: closed_trade
  ax_entry_stop :: "decimal option"
  ax_entry_take :: "decimal option"
  ax_risk_decision :: "risk_decision option"
  ax_quant :: "quant_signal option"
  ax_llm :: "llm_signal option"
  ax_fused :: "fused_signal option"
  ax_memory :: "memory_context option"
  ax_price_path :: "price_point list"
  ax_regime :: "string option"
  ax_benchmark_return_pct :: "float64 option"
  ax_contract_size :: decimal
  ax_venue :: string

datatype verdict = SUPPORTED | CONTRADICTED | INCONCLUSIVE

datatype lesson =
    L_Wrong_Direction producer
  | L_Lost_R
  | L_Winner_R
  | L_Gave_Back
  | L_Closed_Below_Entry
  | L_Fee_Erosion
  | L_Deviated_From_Plan
  | L_Disagreement producer
  | L_Stop_Exit
  | L_Stop_Breach

record analysis_result =
  ar_metrics :: trade_metrics
  ar_signal_quality :: "signal_quality list"
  ar_risk_quality :: risk_quality
  ar_execution_quality :: execution_quality
  ar_expected_vs_actual :: "(string, float64) dict"
  ar_lessons :: "lesson list"
  ar_verdict :: verdict
  ar_verdict_confidence :: float64

text \<open>Direction and confidence of a captured producer.\<close>

fun stance :: "analysis_context \<Rightarrow> producer \<Rightarrow> (signal_direction \<times> float64) option" where
  "stance c PR_QUANT = map_option (\<lambda>q. (qs_direction q, qs_confidence q)) (ax_quant c)"
| "stance c PR_LLM = map_option (\<lambda>l. (ls_direction l, ls_confidence l)) (ax_llm c)"
| "stance c PR_FUSED = map_option (\<lambda>f. (fs_direction f, fs_confidence f)) (ax_fused c)"
| "stance c PR_MEMORY = map_option (\<lambda>m. (mc_direction m, mc_confidence m)) (ax_memory c)"

definition fused_notes :: "analysis_context \<Rightarrow> producer \<Rightarrow> signal_note list" where
  "fused_notes c p =
     (case (p, ax_fused c) of
        (PR_FUSED, Some f) \<Rightarrow>
          (if fs_missing_inputs f \<noteq> [] then [SN_Missing_Inputs (fs_missing_inputs f)] else []) @
          (if fs_disagreements f \<noteq> [] then [SN_Disagreements (length (fs_disagreements f))] else [])
      | _ \<Rightarrow> [])"

definition evaluate_signal :: "(float64 \<Rightarrow> float64 \<Rightarrow> float64) \<Rightarrow> analysis_context \<Rightarrow> bool \<Rightarrow> producer \<Rightarrow> signal_quality" where
  "evaluate_signal pow c realized_up p =
     (case stance c p of
        None \<Rightarrow> \<lparr>sq_producer = p, sq_present = False, sq_direction = None, sq_confidence = None, sq_direction_correct = None,
                 sq_brier_error = None, sq_notes = [SN_Not_Captured]\<rparr>
      | Some (d, conf) \<Rightarrow>
          let correct = direction_correct (Some d) realized_up
          in \<lparr>sq_producer = p, sq_present = True, sq_direction = Some d, sq_confidence = Some conf, sq_direction_correct = correct,
              sq_brier_error = Option.bind correct (brier_error pow (Some conf)), sq_notes = fused_notes c p\<rparr>)"

definition valid_signal_quality :: "signal_quality \<Rightarrow> bool" where
  "valid_signal_quality q \<longleftrightarrow> opt_unit (sq_confidence q) \<and> opt_unit (sq_brier_error q)"

definition expected_return_of :: "analysis_context \<Rightarrow> exn + float64 option" where
  "expected_return_of c =
     (case Option.bind (ax_quant c) qs_expected_return of
        Some r \<Rightarrow> Inr (Some (fmul (fmul (if map_option qs_direction (ax_quant c) = Some SD_LONG then 1 else - 1) r) 100))
      | None \<Rightarrow>
          (case ax_entry_take c of
             None \<Rightarrow> Inr None
           | Some tk \<Rightarrow> rbind (signed_return_pct (to_entry_price (ax_outcome c)) tk (to_direction (ax_outcome c))) (\<lambda>v. Inr (Some v))))"

definition is_approved :: "risk_decision \<Rightarrow> bool" where
  "is_approved d \<longleftrightarrow> rd_decision d = RD_APPROVE \<or> rd_decision d = RD_RESIZE"

definition size_respected_of :: "analysis_context \<Rightarrow> risk_decision \<Rightarrow> bool option" where
  "size_respected_of c d =
     (case rd_approved_quantity d of
        Some q \<Rightarrow>
          if is_approved d \<and> 0 < ax_contract_size c
          then let approved_units = dmul q (ax_contract_size c); filled = to_quantity (ax_outcome c)
               in Some (dabs (dsub approved_units filled) \<le> dmul (max approved_units filled) (1 / 10 ^ 6))
          else None
      | None \<Rightarrow> None)"

definition planned_stop_respected_of :: "(float64 \<Rightarrow> decimal) \<Rightarrow> analysis_context \<Rightarrow> trade_metrics \<Rightarrow> bool option" where
  "planned_stop_respected_of repr_decimal c m =
     (case (ax_entry_stop c, tm_mae_pct m) of
        (Some stop, Some mae) \<Rightarrow>
          let entry = to_entry_price (ax_outcome c);
              mae_price = ddiv_nz (dmul entry (repr_decimal mae)) 100
          in Some (mae_price \<le> dmul (dabs (dsub stop entry)) (105 / 100))
      | _ \<Rightarrow> None)"

definition evaluate_risk :: "(float64 \<Rightarrow> decimal) \<Rightarrow> analysis_context \<Rightarrow> trade_metrics \<Rightarrow> risk_quality" where
  "evaluate_risk repr_decimal c m =
     (case ax_risk_decision c of
        None \<Rightarrow> \<lparr>rq_limits_respected = False, rq_decision = None, rq_approved = False, rq_size_respected = None,
                 rq_planned_stop_respected = None, rq_risk_amount = None, rq_notes = [RN_No_Decision]\<rparr>
      | Some d \<Rightarrow>
          let approved = is_approved d; size = size_respected_of c d; stop = planned_stop_respected_of repr_decimal c m
          in \<lparr>rq_limits_respected = approved, rq_decision = Some (rd_decision d), rq_approved = approved, rq_size_respected = size,
              rq_planned_stop_respected = stop, rq_risk_amount = rd_risk_amount d,
              rq_notes =
                (case rd_approved_quantity d of
                   Some q \<Rightarrow> if size = Some False then [RN_Size_Deviates (dmul q (ax_contract_size c)) (to_quantity (ax_outcome c))] else []
                 | None \<Rightarrow> []) @
                (if stop = Some False then [RN_Stop_Exceeded] else []) @
                (if approved \<and> rd_reason_codes d \<noteq> [] then [RN_Resized (rd_reason_codes d)] else []) @
                (if \<not> approved \<and> rd_reason_codes d \<noteq> [] then [RN_Rejected (rd_reason_codes d)] else []) @
                (if approved then [RN_Risk_Amount (rd_risk_amount d)] else [])\<rparr>)"

definition evaluate_execution :: "analysis_context \<Rightarrow> trade_metrics \<Rightarrow> execution_quality" where
  "evaluate_execution c m =
     (let notional = dmul (to_entry_price (ax_outcome c)) (to_quantity (ax_outcome c));
          pct = (\<lambda>x. if 0 < notional then Some (float_of_decimal (dmul (ddiv_nz x notional) 100)) else None)
      in \<lparr>xq_slippage_pct = pct (tm_slippage m), xq_fees_pct = pct (tm_fees m),
          xq_fill_quality = (if ax_venue c \<noteq> ''paper'' then ''venue-fill'' else ''paper'')\<rparr>)"

definition verdict_of :: "analysis_context \<Rightarrow> trade_metrics \<Rightarrow> bool \<Rightarrow> verdict \<times> float64" where
  "verdict_of c m realized_up =
     (let right = (direction_correct (Some (to_direction (ax_outcome c))) realized_up = Some True);
          confidence = (case ax_fused c of Some f \<Rightarrow> fs_confidence f
                        | None \<Rightarrow> (case ax_quant c of Some q \<Rightarrow> qs_confidence q | None \<Rightarrow> 1 / 2))
      in (if right \<and> 0 < tm_pnl_net m then SUPPORTED
          else if \<not> right \<and> tm_pnl_net m < 0 then CONTRADICTED else INCONCLUSIVE, confidence))"

text \<open>\<open>keyword in text.lower()\<close>, on ASCII texts.\<close>

definition lower_char :: "char \<Rightarrow> char" where
  "lower_char ch = (if 65 \<le> (of_char ch :: nat) \<and> (of_char ch :: nat) \<le> 90 then char_of ((of_char ch :: nat) + 32) else ch)"

fun contains_text :: "string \<Rightarrow> string \<Rightarrow> bool" where
  "contains_text k [] = (k = [])"
| "contains_text k (ch # s) = (take (length k) (ch # s) = k \<or> contains_text k s)"

definition is_stop_exit :: "string \<Rightarrow> bool" where
  "is_stop_exit reason \<longleftrightarrow> (\<exists>k\<in>set [''stop'', ''sl'']. contains_text k (map lower_char reason))"

definition disagreement_lesson :: "signal_quality list \<Rightarrow> lesson list" where
  "disagreement_lesson quality =
     (case (find (\<lambda>q. sq_producer q = PR_QUANT) quality, find (\<lambda>q. sq_producer q = PR_LLM) quality) of
        (Some q, Some l) \<Rightarrow>
          if sq_present q \<and> sq_present l \<and> sq_direction q \<noteq> None \<and> sq_direction l \<noteq> None \<and> sq_direction q \<noteq> sq_direction l
          then [L_Disagreement (if sq_direction_correct q = Some True then PR_QUANT else PR_LLM)] else []
      | _ \<Rightarrow> [])"

definition all_lessons :: "analysis_context \<Rightarrow> trade_metrics \<Rightarrow> signal_quality list \<Rightarrow> risk_quality \<Rightarrow> execution_quality \<Rightarrow> lesson list" where
  "all_lessons c m quality risk xq =
     map (\<lambda>q. L_Wrong_Direction (sq_producer q)) (filter (\<lambda>q. sq_present q \<and> sq_direction_correct q = Some False) quality) @
     (case tm_r_multiple m of Some r \<Rightarrow> if r \<le> - 1 then [L_Lost_R] else if 1 \<le> r then [L_Winner_R] else [] | None \<Rightarrow> []) @
     (case tm_exit_efficiency m of Some e \<Rightarrow> if e < 1 / 2 then [L_Gave_Back] else [] | None \<Rightarrow> []) @
     (case tm_entry_efficiency m of
        Some e \<Rightarrow> if e < 0 \<and> 0 < (case tm_mfe_pct m of None \<Rightarrow> 0 | Some v \<Rightarrow> v) then [L_Closed_Below_Entry] else [] | None \<Rightarrow> []) @
     (case xq_fees_pct xq of
        Some f \<Rightarrow> if tm_actual_return_pct m \<noteq> 0 \<and> fl (2 / 10) < fdiv f \<bar>tm_actual_return_pct m\<bar> then [L_Fee_Erosion] else [] | None \<Rightarrow> []) @
     (case (tm_alpha_pct m, tm_expected_return_pct m) of
        (Some a, Some e) \<Rightarrow> if 0 < \<bar>e\<bar> \<and> fmul (1 / 2) \<bar>e\<bar> < \<bar>a\<bar> then [L_Deviated_From_Plan] else [] | _ \<Rightarrow> []) @
     disagreement_lesson quality @
     (if is_stop_exit (to_exit_reason (ax_outcome c)) then [L_Stop_Exit] else []) @
     (if rq_planned_stop_respected risk = Some False then [L_Stop_Breach] else [])"

definition lessons_of :: "analysis_context \<Rightarrow> trade_metrics \<Rightarrow> signal_quality list \<Rightarrow> risk_quality \<Rightarrow> execution_quality \<Rightarrow> lesson list" where
  "lessons_of c m quality risk xq = take 10 (all_lessons c m quality risk xq)"

definition expected_vs_actual_of :: "analysis_context \<Rightarrow> trade_metrics \<Rightarrow> bool \<Rightarrow> (string, float64) dict" where
  "expected_vs_actual_of c m realized_up =
     [(''direction_hit'', if direction_correct (Some (to_direction (ax_outcome c))) realized_up = Some True then 1 else 0),
      (''actual_r'', case tm_r_multiple m of None \<Rightarrow> 0 | Some r \<Rightarrow> r),
      (''actual_return_pct'', tm_actual_return_pct m)] @
     (case tm_expected_return_pct m of None \<Rightarrow> [] | Some v \<Rightarrow> [(''expected_return_pct'', v)]) @
     (case tm_expected_r m of None \<Rightarrow> [] | Some v \<Rightarrow> [(''expected_r'', v)]) @
     (case tm_prediction_error_pct m of None \<Rightarrow> [] | Some v \<Rightarrow> [(''prediction_error_pct'', v)])"

definition valid_execution_quality :: "execution_quality \<Rightarrow> bool" where
  "valid_execution_quality x \<longleftrightarrow> opt_nonneg (xq_slippage_pct x) \<and> opt_nonneg (xq_fees_pct x)"

definition analyze ::
    "(float64 \<Rightarrow> float64 \<Rightarrow> float64) \<Rightarrow> (float64 \<Rightarrow> decimal) \<Rightarrow> analysis_context \<Rightarrow> exn + analysis_result" where
  "analyze pow repr_decimal c =
     (let t = ax_outcome c; realized_up = (to_entry_price t \<le> to_exit_price t);
          quality = map (evaluate_signal pow c realized_up) producer_order;
          calibration = concat (map (\<lambda>q. case sq_brier_error q of None \<Rightarrow> [] | Some e \<Rightarrow> [(producer_name (sq_producer q), e)]) quality)
      in if \<not> list_all valid_signal_quality quality then Inl (ValueError ''SignalQualityRecord'')
         else rbind (expected_return_of c) (\<lambda>expected.
           rbind (compute_trade_metrics
             \<lparr>mi_outcome = t, mi_risk_amount = Option.bind (ax_risk_decision c) rd_risk_amount, mi_expected_return_pct = expected,
              mi_benchmark_return_pct = ax_benchmark_return_pct c, mi_path = ax_price_path c, mi_regime = ax_regime c,
              mi_signal_calibration_error = calibration, mi_planned_stop = ax_entry_stop c, mi_planned_take = ax_entry_take c\<rparr>) (\<lambda>m.
           let risk = evaluate_risk repr_decimal c m; xq = evaluate_execution c m
           in if \<not> opt_pos (rq_risk_amount risk) then Inl (ValueError ''RiskQualityRecord'')
              else if \<not> valid_execution_quality xq then Inl (ValueError ''ExecutionQualityRecord'')
              else Inr \<lparr>ar_metrics = m, ar_signal_quality = quality, ar_risk_quality = risk, ar_execution_quality = xq,
                ar_expected_vs_actual = expected_vs_actual_of c m realized_up, ar_lessons = lessons_of c m quality risk xq,
                ar_verdict = fst (verdict_of c m realized_up), ar_verdict_confidence = snd (verdict_of c m realized_up)\<rparr>)))"

end
