(* ===== verification/Posttrade_Properties.thy ===== *)
theory Posttrade_Properties
  imports Posttrade
begin

text \<open>
  What the post-trade engine guarantees: metrics satisfy their contract exactly when slippage is not negative, the list of lessons
  is complete up to one lesson, and two places where it misjudges: a wrong language model is credited against a flat quantitative signal, and a
  trade that was never in profit has no negative entry efficiency.
\<close>

section \<open>Metrics\<close>

lemma float_of_decimal_nonneg: "0 \<le> d \<Longrightarrow> 0 \<le> float_of_decimal d"
  by (simp add: float_of_decimal_def fl_nonneg)

lemma ddiv_nz_nonneg: "0 \<le> a / b \<Longrightarrow> 0 \<le> ddiv_nz a b"
  by (simp add: ddiv_nz_def)

lemma opt_nonneg_simps [simp]: "opt_nonneg None" "opt_nonneg (Some v) \<longleftrightarrow> 0 \<le> v"
  by (simp_all add: opt_nonneg_def)

lemma opt_unit_simps [simp]: "opt_unit None" "opt_unit (Some v) \<longleftrightarrow> 0 \<le> v \<and> v \<le> 1"
  by (simp_all add: opt_unit_def)

lemma expected_r_nonneg: "opt_nonneg (expected_r_of entry stop tk)"
proof -
  have "0 \<le> dabs x" for x by (simp add: dabs_def)
  then show ?thesis
    by (auto simp: expected_r_of_def Let_def split: option.splits
        intro!: float_of_decimal_nonneg ddiv_nz_nonneg divide_nonneg_pos)
qed

lemma str_or_nonempty: "d \<noteq> [] \<Longrightarrow> str_or x d \<noteq> []"
  by (auto simp: str_or_def split: option.splits)

lemma holding_nonneg: "to_opened_at t \<le> to_closed_at t \<Longrightarrow> 0 \<le> holding_seconds_of t"
proof -
  assume "to_opened_at t \<le> to_closed_at t"
  then have "0 \<le> fl (of_int (to_closed_at t - to_opened_at t) / 10 ^ 6)" by (intro fl_nonneg) simp
  then show ?thesis by (simp add: holding_seconds_of_def round_down_def)
qed

definition slippage_ok :: "closed_trade \<Rightarrow> bool" where
  "slippage_ok t \<longleftrightarrow> (case to_slippage_total t of None \<Rightarrow> True | Some s \<Rightarrow> 0 \<le> s)"

lemma metrics_run:
  assumes "valid_trade_outcome (trade_outcome.truncate (mi_outcome inp))"
  shows "\<exists>m. compute_trade_metrics inp = (if slippage_ok (mi_outcome inp) then Inr m else Inl (ValueError ''TradeMetrics'')) \<and>
    (slippage_ok (mi_outcome inp) \<longrightarrow> valid_trade_metrics m) \<and> (tm_mae_pct m = None \<longleftrightarrow> mi_path inp = []) \<and> (tm_mfe_pct m = None \<longleftrightarrow> mi_path inp = [])"
proof -
  let ?t = "mi_outcome inp"
  have t: "0 < to_entry_price ?t" "0 \<le> to_costs ?t" "to_opened_at ?t \<le> to_closed_at ?t"
    using assms by (simp_all add: valid_trade_outcome_def trade_outcome.truncate_def)
  obtain actual where a: "signed_return_pct (to_entry_price ?t) (to_exit_price ?t) (to_direction ?t) = Inr actual"
    using t(1) by (simp add: signed_return_pct_def Let_def)
  have e: "0 \<le> excursion_pct x y z" for x y z by (simp add: excursion_pct_def)
  have p: "opt_nonneg (map_option (\<lambda>e. \<bar>f e\<bar>) x)" for f :: "rat \<Rightarrow> rat" and x by (cases x) simp_all
  show ?thesis
    unfolding compute_trade_metrics_def Let_def a rbind_simps
    by (rule exI, rule conjI, rule arg_cong2 [where f = "\<lambda>b x. if b then x else Inl (ValueError ''TradeMetrics'')", OF _ refl])
      (auto simp: valid_trade_metrics_def slippage_ok_def t holding_nonneg expected_r_nonneg str_or_nonempty e p
        favorable_extreme_def adverse_extreme_def split: option.splits)
qed

text \<open>
  For a valid closed trade the metrics are computed and satisfy their contract exactly when the slippage is unknown or not negative; a
  trade with price improvement cannot be reviewed. Excursions are reported exactly when a price path was observed.
\<close>

lemma metrics_exactly_without_price_improvement:
  assumes "valid_trade_outcome (trade_outcome.truncate (mi_outcome inp))"
  shows "if slippage_ok (mi_outcome inp)
    then \<exists>m. compute_trade_metrics inp = Inr m \<and> valid_trade_metrics m \<and> (tm_mae_pct m = None \<longleftrightarrow> mi_path inp = []) \<and> (tm_mfe_pct m = None \<longleftrightarrow> mi_path inp = [])
    else compute_trade_metrics inp = Inl (ValueError ''TradeMetrics'')"
  using metrics_run [OF assms] by (auto split: if_splits)

section \<open>Lessons\<close>

lemma quality_find:
  "find (\<lambda>q. sq_producer q = PR_QUANT) (map (evaluate_signal pow c up) producer_order) = Some (evaluate_signal pow c up PR_QUANT)"
  "find (\<lambda>q. sq_producer q = PR_LLM) (map (evaluate_signal pow c up) producer_order) = Some (evaluate_signal pow c up PR_LLM)"
proof -
  have "sq_producer (evaluate_signal pow c up p) = p" for p
    by (simp add: evaluate_signal_def Let_def split: option.splits prod.splits)
  then show "find (\<lambda>q. sq_producer q = PR_QUANT) (map (evaluate_signal pow c up) producer_order) = Some (evaluate_signal pow c up PR_QUANT)"
    "find (\<lambda>q. sq_producer q = PR_LLM) (map (evaluate_signal pow c up) producer_order) = Some (evaluate_signal pow c up PR_LLM)"
    by (simp_all add: producer_order_def)
qed

definition wrong_direction :: "(float64 \<Rightarrow> float64 \<Rightarrow> float64) \<Rightarrow> analysis_context \<Rightarrow> bool \<Rightarrow> producer \<Rightarrow> bool" where
  "wrong_direction pow c up p \<longleftrightarrow> sq_present (evaluate_signal pow c up p) \<and> sq_direction_correct (evaluate_signal pow c up p) = Some False"

lemma wrong_direction_stance: "wrong_direction pow c up p \<longleftrightarrow> (\<exists>d conf. stance c p = Some (d, conf) \<and> direction_correct (Some d) up = Some False)"
  by (auto simp: wrong_direction_def evaluate_signal_def Let_def split: option.splits prod.splits)

lemma wrong_unique: "direction_correct (Some d) up = Some False \<Longrightarrow> d = (if up then SD_SHORT else SD_LONG)"
  by (cases d) auto

text \<open>When the quantitative signal and the language model disagree, they are not both wrong.\<close>

lemma disagreement_not_both_wrong:
  assumes "disagreement_lesson (map (evaluate_signal pow c up) producer_order) \<noteq> []"
  shows "\<not> (wrong_direction pow c up PR_QUANT \<and> wrong_direction pow c up PR_LLM)"
proof
  assume w: "wrong_direction pow c up PR_QUANT \<and> wrong_direction pow c up PR_LLM"
  then obtain dq cq dl cl where s: "stance c PR_QUANT = Some (dq, cq)" "stance c PR_LLM = Some (dl, cl)" "dq = dl"
    using wrong_unique by (auto simp only: wrong_direction_stance) blast
  then have "sq_direction (evaluate_signal pow c up PR_QUANT) = sq_direction (evaluate_signal pow c up PR_LLM)"
    by (simp add: evaluate_signal_def Let_def del: stance.simps)
  with assms show False by (simp add: disagreement_lesson_def quality_find)
qed

lemma wrong_list: "map (\<lambda>q. L_Wrong_Direction (sq_producer q)) (filter (\<lambda>q. sq_present q \<and> sq_direction_correct q = Some False)
    (map (evaluate_signal pow c up) producer_order)) = map L_Wrong_Direction (filter (wrong_direction pow c up) producer_order)"
proof -
  have "sq_producer (evaluate_signal pow c up p) = p" for p
    by (simp add: evaluate_signal_def Let_def split: option.splits prod.splits)
  then show ?thesis by (simp add: filter_map comp_def wrong_direction_def [abs_def])
qed

lemma disagreement_length: "length (disagreement_lesson q) \<le> 1"
  by (simp add: disagreement_lesson_def split: option.splits)

lemma wrong_and_disagreement:
  "length (filter (wrong_direction pow c up) producer_order) + length (disagreement_lesson (map (evaluate_signal pow c up) producer_order)) \<le> 4"
proof (cases "disagreement_lesson (map (evaluate_signal pow c up) producer_order) = []")
  case True
  then show ?thesis using length_filter_le [of "wrong_direction pow c up" producer_order] by (simp add: producer_order_def)
next
  case False
  from disagreement_not_both_wrong [OF this] have "length (filter (wrong_direction pow c up) producer_order) \<le> 3" by (auto simp: producer_order_def)
  then show ?thesis using disagreement_length [of "map (evaluate_signal pow c up) producer_order"] by linarith
qed

definition lessons_before_breach :: "analysis_context \<Rightarrow> trade_metrics \<Rightarrow> signal_quality list \<Rightarrow> risk_quality \<Rightarrow> execution_quality \<Rightarrow> lesson list" where
  "lessons_before_breach c m quality risk xq = all_lessons c m quality (risk\<lparr>rq_planned_stop_respected := None\<rparr>) xq"

lemma all_lessons_split:
  "all_lessons c m quality risk xq = lessons_before_breach c m quality risk xq @ (if rq_planned_stop_respected risk = Some False then [L_Stop_Breach] else [])"
  by (simp add: all_lessons_def lessons_before_breach_def)

lemma length_opt:
  fixes x :: "'a option"
  shows "length (case x of None \<Rightarrow> [] | Some v \<Rightarrow> if P v then [y] else []) \<le> 1"
  by (simp split: option.splits)

lemma lessons_before_breach_length: "length (lessons_before_breach c m (map (evaluate_signal pow c up) producer_order) risk xq) \<le> 10"
proof -
  have r: "length (case tm_r_multiple m of Some r \<Rightarrow> if r \<le> - 1 then [L_Lost_R] else if 1 \<le> r then [L_Winner_R] else [] | None \<Rightarrow> []) \<le> 1"
    by (simp split: option.splits)
  have a: "length (case (tm_alpha_pct m, tm_expected_return_pct m) of
        (Some a, Some e) \<Rightarrow> if 0 < \<bar>e\<bar> \<and> fmul (1 / 2) \<bar>e\<bar> < \<bar>a\<bar> then [L_Deviated_From_Plan] else [] | _ \<Rightarrow> []) \<le> 1"
    by (simp split: option.splits)
  show ?thesis
    unfolding lessons_before_breach_def all_lessons_def wrong_list length_append length_map
    using wrong_and_disagreement [of pow c up] r a
      length_opt [where x = "tm_exit_efficiency m" and P = "\<lambda>e. e < 1 / 2" and y = L_Gave_Back]
      length_opt [where x = "tm_entry_efficiency m" and P = "\<lambda>e. e < 0 \<and> 0 < (case tm_mfe_pct m of None \<Rightarrow> 0 | Some v \<Rightarrow> v)" and y = L_Closed_Below_Entry]
      length_opt [where x = "xq_fees_pct xq" and P = "\<lambda>f. tm_actual_return_pct m \<noteq> 0 \<and> fl (2 / 10) < fdiv f \<bar>tm_actual_return_pct m\<bar>" and y = L_Fee_Erosion]
    by simp
qed

lemma analyze_lessons:
  assumes "analyze pow repr_decimal c = Inr r"
  defines "up \<equiv> to_entry_price (ax_outcome c) \<le> to_exit_price (ax_outcome c)"
  shows "ar_signal_quality r = map (evaluate_signal pow c up) producer_order \<and>
    ar_lessons r = take 10 (all_lessons c (ar_metrics r) (ar_signal_quality r) (ar_risk_quality r) (ar_execution_quality r))"
  using assms by (auto simp: analyze_def Let_def rbind_def lessons_of_def split: sum.splits if_splits)

text \<open>
  The analysis reports every lesson it draws, with one exception: when there are eleven, the one it drops is always the breach of the planned stop.
\<close>

lemma only_stop_breach_lesson_is_dropped:
  assumes "analyze pow repr_decimal c = Inr r"
  defines "lessons \<equiv> all_lessons c (ar_metrics r) (ar_signal_quality r) (ar_risk_quality r) (ar_execution_quality r)"
  shows "if length lessons \<le> 10 then ar_lessons r = lessons else lessons = ar_lessons r @ [L_Stop_Breach]"
proof -
  let ?before = "lessons_before_breach c (ar_metrics r) (ar_signal_quality r) (ar_risk_quality r) (ar_execution_quality r)"
  have "length ?before \<le> 10" using analyze_lessons [OF assms(1)] lessons_before_breach_length by metis
  then show ?thesis using analyze_lessons [OF assms(1)] by (auto simp: lessons_def all_lessons_split)
qed

text \<open>
  When the quantitative signal was flat and the language model pointed the wrong way, the analysis records both that the language model was wrong
  and that, of the two, the language model was correct.
\<close>

lemma flat_quant_credits_wrong_llm:
  assumes "analyze pow repr_decimal c = Inr r" and "stance c PR_QUANT = Some (SD_FLAT, confq)" and "stance c PR_LLM = Some (d, confl)"
    and "direction_correct (Some d) (to_entry_price (ax_outcome c) \<le> to_exit_price (ax_outcome c)) = Some False"
  shows "L_Wrong_Direction PR_LLM \<in> set (ar_lessons r) \<and> L_Disagreement PR_LLM \<in> set (ar_lessons r)"
proof -
  define up where "up = (to_entry_price (ax_outcome c) \<le> to_exit_price (ax_outcome c))"
  let ?q = "map (evaluate_signal pow c up) producer_order"
  let ?before = "lessons_before_breach c (ar_metrics r) ?q (ar_risk_quality r) (ar_execution_quality r)"
  have "wrong_direction pow c up PR_LLM" using assms(3,4) by (auto simp: wrong_direction_stance up_def simp del: stance.simps)
  then have w: "L_Wrong_Direction PR_LLM \<in> set ?before"
    unfolding lessons_before_breach_def all_lessons_def wrong_list by (simp add: producer_order_def)
  have "d \<noteq> SD_FLAT" using assms(4) by auto
  then have "disagreement_lesson ?q = [L_Disagreement PR_LLM]"
    using assms(2,3) by (simp add: disagreement_lesson_def quality_find evaluate_signal_def Let_def del: stance.simps)
  then have "L_Disagreement PR_LLM \<in> set ?before" by (simp add: lessons_before_breach_def all_lessons_def)
  moreover have "set ?before \<subseteq> set (ar_lessons r)"
    using analyze_lessons [OF assms(1)] lessons_before_breach_length [of c "ar_metrics r" pow up]
    by (auto simp: all_lessons_split up_def [symmetric])
  ultimately show ?thesis using w by blast
qed

section \<open>Examples\<close>

definition example_trade :: "decimal option \<Rightarrow> closed_trade" where
  "example_trade slippage = \<lparr>to_trade_id = 1, to_position_id = None, to_order_intent_ids = [], to_instrument_id = ''EURUSD'', to_direction = SD_LONG,
     to_quantity = 1, to_entry_price = 100, to_exit_price = 90, to_realized_pnl = - 10, to_costs = 100, to_opened_at = 0, to_closed_at = 5000000,
     to_exit_reason = ''stop'', to_slippage_total = slippage, to_regime_at_entry = None\<rparr>"

definition example_quant_signal :: "signal_direction \<Rightarrow> quant_signal" where
  "example_quant_signal d = \<lparr>qs_signal_id = 1, qs_instrument_id = ''EURUSD'', qs_direction = d, qs_strength = 1, qs_score = None,
     qs_confidence = 1 / 2, qs_horizon_seconds = None, qs_expected_return = None, qs_model_id = ''m'', qs_model_version = ''1'', qs_as_of = 0\<rparr>"

definition example_llm_signal :: llm_signal where
  "example_llm_signal = \<lparr>ls_signal_id = 2, ls_instrument_id = ''EURUSD'', ls_direction = SD_LONG, ls_strength = 1, ls_confidence = 1 / 2,
     ls_model_name = ''g'', ls_provider = ''p'', ls_prompt_version = ''1'', ls_as_of = 0\<rparr>"

definition example_fused_signal :: fused_signal where
  "example_fused_signal = \<lparr>fs_signal_id = 3, fs_instrument_id = ''EURUSD'', fs_direction = SD_LONG, fs_fused_strength = 1, fs_confidence = 1 / 2,
     fs_components = [\<lparr>sc_name = QUANT, sc_score = 1, sc_weight = 1\<rparr>], fs_calibration_version = ''v'', fs_calibration_notes = None,
     fs_compared_against = [], fs_missing_inputs = [], fs_disagreements = [], fs_as_of = 0, fs_produced_at = 0, fs_trace_id = None\<rparr>"

definition reviewed_decision :: risk_decision where
  "reviewed_decision = \<lparr>rd_decision_id = 1, rd_proposal_id = 1, rd_decision = RD_APPROVE, rd_reason_codes = [], rd_approved_quantity = Some 1,
     rd_approved_stop = Some 99, rd_risk_amount = Some 1, rd_policy_version = ''1'', rd_risk_engine_version = ''1'', rd_inputs_hash = None,
     rd_produced_at = 0, rd_trace_id = None\<rparr>"

definition example_analysis :: "signal_direction \<Rightarrow> analysis_context" where
  "example_analysis quant = \<lparr>ax_outcome = example_trade None, ax_entry_stop = Some 99, ax_entry_take = Some 110, ax_risk_decision = Some reviewed_decision,
     ax_quant = Some (example_quant_signal quant), ax_llm = Some example_llm_signal, ax_fused = Some example_fused_signal,
     ax_memory = Some \<lparr>mc_direction = SD_LONG, mc_score = 1, mc_confidence = 1 / 2, mc_memory_version = ''1'', mc_as_of = 0\<rparr>,
     ax_price_path = [\<lparr>pp_ts = 0, pp_high = 101, pp_low = 80, pp_close = 90\<rparr>], ax_regime = None, ax_benchmark_return_pct = None,
     ax_contract_size = 1, ax_venue = ''paper''\<rparr>"

definition example_review :: "signal_direction \<Rightarrow> exn + analysis_result" where
  "example_review quant = analyze (\<lambda>x y. fmul x x) (\<lambda>x. x) (example_analysis quant)"

lemma example_review_summary:
  "(case example_review SD_LONG of Inl _ \<Rightarrow> None
    | Inr r \<Rightarrow> Some (length (all_lessons (example_analysis SD_LONG) (ar_metrics r) (ar_signal_quality r) (ar_risk_quality r) (ar_execution_quality r)),
        rq_planned_stop_respected (ar_risk_quality r))) = Some (11, Some False)"
  by code_simp

lemma example_review_flat: "isl (example_review SD_FLAT) = False"
  by code_simp

theorem metrics_exactly_without_price_improvement_witness:
  "compute_trade_metrics \<lparr>mi_outcome = example_trade (Some (- 1)), mi_risk_amount = None, mi_expected_return_pct = None, mi_benchmark_return_pct = None,
     mi_path = [], mi_regime = None, mi_signal_calibration_error = [], mi_planned_stop = None, mi_planned_take = None\<rparr> = Inl (ValueError ''TradeMetrics'')"
  using metrics_exactly_without_price_improvement [of "\<lparr>mi_outcome = example_trade (Some (- 1)), mi_risk_amount = None, mi_expected_return_pct = None,
     mi_benchmark_return_pct = None, mi_path = [], mi_regime = None, mi_signal_calibration_error = [], mi_planned_stop = None, mi_planned_take = None\<rparr>"]
  by (simp add: example_trade_def valid_trade_outcome_def trade_outcome.truncate_def slippage_ok_def)

theorem only_stop_breach_lesson_is_dropped_witness:
  "\<exists>r. example_review SD_LONG = Inr r \<and> rq_planned_stop_respected (ar_risk_quality r) = Some False \<and> length (ar_lessons r) = 10"
proof -
  obtain r where r: "example_review SD_LONG = Inr r" using example_review_summary by (cases "example_review SD_LONG") auto
  let ?l = "all_lessons (example_analysis SD_LONG) (ar_metrics r) (ar_signal_quality r) (ar_risk_quality r) (ar_execution_quality r)"
  have s: "length ?l = 11" "rq_planned_stop_respected (ar_risk_quality r) = Some False" using example_review_summary r by auto
  have "?l = ar_lessons r @ [L_Stop_Breach]"
    using only_stop_breach_lesson_is_dropped [OF r [unfolded example_review_def]] s(1) by simp
  then have "length ?l = length (ar_lessons r) + 1" by simp
  then show ?thesis using r s by auto
qed

theorem flat_quant_credits_wrong_llm_witness:
  "\<exists>r. example_review SD_FLAT = Inr r \<and> L_Wrong_Direction PR_LLM \<in> set (ar_lessons r) \<and> L_Disagreement PR_LLM \<in> set (ar_lessons r)"
proof -
  obtain r where r: "example_review SD_FLAT = Inr r" using example_review_flat by (cases "example_review SD_FLAT") auto
  from flat_quant_credits_wrong_llm [OF r [unfolded example_review_def], of "1 / 2" SD_LONG "1 / 2"] r show ?thesis
    by (simp add: example_analysis_def example_quant_signal_def example_llm_signal_def example_trade_def)
qed

text \<open>A losing long trade whose path never reached above the entry has a non-negative entry efficiency.\<close>

lemma never_in_profit_efficiency:
  assumes "compute_trade_metrics inp = Inr m" and "to_direction (mi_outcome inp) = SD_LONG" and "mi_path inp \<noteq> []"
    and "\<forall>p\<in>set (mi_path inp). pp_high p < to_entry_price (mi_outcome inp)" and "to_exit_price (mi_outcome inp) < to_entry_price (mi_outcome inp)"
  shows "\<exists>e. tm_entry_efficiency m = Some e \<and> 0 \<le> e"
proof -
  let ?entry = "to_entry_price (mi_outcome inp)" and ?exit = "to_exit_price (mi_outcome inp)"
  let ?best = "Max (pp_high ` set (mi_path inp))"
  have b: "?best < ?entry" using assms(3,4) by simp
  then have "dsub ?best ?entry < 0" "dsub ?exit ?entry < 0"
    using assms(5) by (simp_all add: dsub_def ctx_round_neg)
  then have "0 \<le> dsub ?exit ?entry / dsub ?best ?entry" by (simp add: divide_nonpos_neg)
  then have "0 \<le> float_of_decimal (ddiv_nz (dsub ?exit ?entry) (dsub ?best ?entry))"
    by (intro float_of_decimal_nonneg ddiv_nz_nonneg)
  moreover have "tm_entry_efficiency m = Some (float_of_decimal (ddiv_nz (dsub ?exit ?entry) (dsub ?best ?entry)))"
    using assms(1,2,3) less_imp_neq [OF b] by (auto simp: compute_trade_metrics_def Let_def rbind_def favorable_extreme_def adverse_extreme_def split: sum.splits if_splits)
  ultimately show ?thesis by blast
qed

end
