(* ===== verification/Xau_Core.thy ===== *)
theory Xau_Core
  imports OT_Prelude Float64
begin

text \<open>
  The gold strategy XAU_RPB (\<^verbatim>\<open>research/strategies/xau_rpb\<close>): its value objects (\<^verbatim>\<open>types.py\<close>), parameters with their validation
  (\<^verbatim>\<open>config.py\<close>), the indicators (\<^verbatim>\<open>indicators.py\<close>) and the regime engine (\<^verbatim>\<open>regime.py\<close>).

  Prices are floats. A series of an indicator has \<open>None\<close> where the code has NaN, and arithmetic on it propagates \<open>None\<close> as
  the code's does; infinities are not represented. Bar times are naive broker times in microseconds since 1970-01-01.

  An indicator must not look ahead: its value at a bar may depend on that bar and the bars before it only. The locale
  \<open>causal_series\<close> states this, every indicator interprets it, and it carries over to the regime.
\<close>

subsection \<open>Types\<close>

datatype xau_error = XValueError | XZeroDivisionError | XIndexError | XAssertionError

datatype regime = RG_INVALID | RG_TREND_UP | RG_TREND_DOWN | RG_RANGE | RG_HIGH_VOLATILITY

fun regime_name :: "regime \<Rightarrow> string" where
  "regime_name RG_INVALID = ''INVALID''"
| "regime_name RG_TREND_UP = ''TREND_UP''"
| "regime_name RG_TREND_DOWN = ''TREND_DOWN''"
| "regime_name RG_RANGE = ''RANGE''"
| "regime_name RG_HIGH_VOLATILITY = ''HIGH_VOLATILITY''"

datatype direction = DIR_LONG | DIR_SHORT

fun direction_value :: "direction \<Rightarrow> rat" where
  "direction_value DIR_LONG = 1"
| "direction_value DIR_SHORT = - 1"

datatype exit_reason =
  STOP_LOSS | TARGET | ATR_TRAIL | REGIME_INVALIDATION | TIME_EXIT | SESSION_EXIT | RISK_KILL | MANUAL | BROKER_ERROR_RECOVERY

datatype reject_reason =
  SCORE_BELOW_THRESHOLD | RISK_SIZE_ZERO | SPREAD_TOO_WIDE | SESSION_BLOCKED | NEWS_BLACKOUT | DAILY_LOSS_STOP | WEEKLY_LOSS_STOP
  | HARD_DRAWDOWN_KILL | POSITION_ALREADY_OPEN | BROKER_SPEC_INVALID | STOP_LEVEL_VIOLATION | INSUFFICIENT_MARGIN
  | INSUFFICIENT_HISTORY | ATR_INVALID | DUPLICATE_SIGNAL | SAFE_MODE_BLOCK

record bar =
  b_time :: instant
  b_open :: float64
  b_high :: float64
  b_low :: float64
  b_close :: float64
  b_volume :: float64
  b_spread_points :: float64

definition bar_is_valid :: "bar \<Rightarrow> bool" where
  "bar_is_valid b =
     (if min (min (b_open b) (b_high b)) (min (b_low b) (b_close b)) \<le> 0 then False
      else if b_high b < b_low b then False
      else b_low b \<le> min (b_open b) (b_close b) \<and> max (b_open b) (b_close b) \<le> b_high b)"

record broker_spec =
  bs_point :: float64
  bs_tick_value :: float64
  bs_tick_size :: float64
  bs_min_lot :: float64
  bs_max_lot :: float64
  bs_lot_step :: float64
  bs_stop_level_points :: float64
  bs_swap_long :: float64
  bs_swap_short :: float64

definition spec_is_valid :: "broker_spec \<Rightarrow> bool" where
  "spec_is_valid s =
     (if \<exists>v \<in> set [bs_point s, bs_tick_value s, bs_tick_size s, bs_min_lot s, bs_lot_step s]. v \<le> 0 then False
      else bs_min_lot s \<le> bs_max_lot s)"

record trade =
  t_entry_time :: instant
  t_direction :: direction
  t_entry_price :: float64
  t_stop_price :: float64
  t_initial_stop_price :: float64
  t_lots :: float64
  t_atr_at_signal :: float64
  t_score :: int
  t_regime_at_entry :: regime
  t_risk_amount :: float64
  t_exit_time :: "instant option"
  t_exit_price :: "float64 option"
  t_exit_reason :: "exit_reason option"
  t_pnl :: float64
  t_r_multiple :: float64
  t_mae :: float64
  t_mfe :: float64
  t_bars_held :: int
  t_entry_slippage :: float64
  t_exit_slippage :: float64
  t_costs :: float64

definition risk_per_unit :: "trade \<Rightarrow> float64" where
  "risk_per_unit t = \<bar>fsub (t_entry_price t) (t_initial_stop_price t)\<bar>"

subsection \<open>Parameters\<close>

record research_params =
  rp_ema_fast_period :: int
  rp_ema_slow_period :: int
  rp_adx_period :: int
  rp_adx_trend_min :: float64
  rp_adx_range_max :: float64
  rp_spread_trend_min :: float64
  rp_slope_trend_min :: float64
  rp_slope_lookback :: int
  rp_er_window :: int
  rp_er_trend_min :: float64
  rp_atr_period_h1 :: int
  rp_atr_period_m15 :: int
  rp_atr_pct_window :: int
  rp_atr_pct_high :: float64
  rp_atr_pct_floor :: float64
  rp_impulse_lookback :: int
  rp_min_pullback_bars :: int
  rp_max_pullback_bars :: int
  rp_min_pullback_depth_atr :: float64
  rp_max_pullback_depth_atr :: float64
  rp_breakout_window_bars :: int
  rp_breakout_buffer_atr :: float64
  rp_max_setup_bars :: int
  rp_entry_score_threshold :: int
  rp_score_slope_min :: float64
  rp_sl_atr_mult :: float64
  rp_tp_r_multiple :: float64
  rp_trail_atr_mult :: float64
  rp_trail_activate_r :: float64
  rp_be_trigger_r :: float64
  rp_max_bars_in_trade :: int

definition validate_research :: "research_params \<Rightarrow> xau_error + unit" where
  "validate_research p =
     (if rp_ema_slow_period p \<le> rp_ema_fast_period p then Inl XValueError
      else if rp_adx_trend_min p < rp_adx_range_max p then Inl XValueError
      else if rp_max_pullback_bars p < rp_min_pullback_bars p then Inl XValueError
      else if rp_max_pullback_depth_atr p \<le> rp_min_pullback_depth_atr p then Inl XValueError
      else if rp_atr_pct_high p \<le> rp_atr_pct_floor p then Inl XValueError
      else if \<not> (0 \<le> rp_entry_score_threshold p \<and> rp_entry_score_threshold p \<le> 9) then Inl XValueError
      else if rp_sl_atr_mult p \<le> 0 then Inl XValueError
      else if \<exists>n \<in> set [rp_ema_fast_period p, rp_ema_slow_period p, rp_adx_period p, rp_er_window p, rp_atr_period_h1 p,
                rp_atr_period_m15 p, rp_atr_pct_window p, rp_impulse_lookback p, rp_slope_lookback p,
                rp_breakout_window_bars p]. n < 1 then Inl XValueError
      else Inr ())"

record risk_policy_params =
  kp_risk_pct :: float64
  kp_daily_loss_stop_pct :: float64
  kp_weekly_loss_stop_pct :: float64
  kp_soft_dd_pct :: float64
  kp_hard_dd_pct :: float64
  kp_soft_dd_risk_multiplier :: float64
  kp_research_auto_reset_hard_kill :: bool

definition validate_risk :: "risk_policy_params \<Rightarrow> xau_error + unit" where
  "validate_risk k =
     (if \<not> (0 < kp_risk_pct k \<and> kp_risk_pct k \<le> 2) then Inl XValueError
      else if kp_hard_dd_pct k \<le> kp_soft_dd_pct k then Inl XValueError
      else if kp_weekly_loss_stop_pct k \<le> kp_daily_loss_stop_pct k then Inl XValueError
      else Inr ())"

record execution_params =
  ep_spread_atr_max :: float64
  ep_spread_abs_max_points :: float64
  ep_commission_per_lot :: float64
  ep_slippage_points_entry :: float64
  ep_slippage_points_exit :: float64
  ep_spread_multiplier :: float64

record operational_params =
  op_session_exit_enabled :: bool
  op_news_required :: bool
  op_allow_asian_session :: bool
  op_block_rollover :: bool

record strategy_config =
  sc_research :: research_params
  sc_risk :: risk_policy_params
  sc_execution :: execution_params
  sc_operational :: operational_params

definition validate_config :: "strategy_config \<Rightarrow> xau_error + unit" where
  "validate_config c = rbind (validate_research (sc_research c)) (\<lambda>_. validate_risk (sc_risk c))"

definition warmup_bars_m15 :: "strategy_config \<Rightarrow> int" where
  "warmup_bars_m15 c = max (rp_atr_period_m15 (sc_research c) + 1) (rp_impulse_lookback (sc_research c) + 2)"

subsection \<open>Arithmetic that propagates NaN\<close>

type_synonym series = "float64 option list"

definition nan2 :: "(float64 \<Rightarrow> float64 \<Rightarrow> float64) \<Rightarrow> float64 option \<Rightarrow> float64 option \<Rightarrow> float64 option" where
  "nan2 f x y = (case (x, y) of (Some a, Some b) \<Rightarrow> Some (f a b) | _ \<Rightarrow> None)"

text \<open>\<open>math.fsum\<close> rounds the exact sum once; NaN among the summands gives NaN.\<close>

definition exact_sum :: "float64 list \<Rightarrow> float64" where
  "exact_sum xs = fl (sum_list xs)"

definition nan_sum :: "series \<Rightarrow> float64 option" where
  "nan_sum xs = (if None \<in> set xs then None else Some (exact_sum (map the xs)))"

subsection \<open>Indicators\<close>

fun ema_from :: "float64 \<Rightarrow> float64 \<Rightarrow> float64 list \<Rightarrow> float64 list" where
  "ema_from alpha prev [] = []"
| "ema_from alpha prev (v # vs) =
     (let e = fadd (fmul v alpha) (fmul prev (fsub 1 alpha)) in e # ema_from alpha e vs)"

definition ema_series :: "nat \<Rightarrow> float64 list \<Rightarrow> series" where
  "ema_series n values =
     (if length values < n then replicate (length values) None
      else let seed = fdiv (exact_sum (take n values)) (of_nat n)
           in replicate (n - 1) None @ Some seed #
              map Some (ema_from (fdiv 2 (fadd (of_nat n) 1)) seed (drop n values)))"

definition ema :: "float64 list \<Rightarrow> int \<Rightarrow> xau_error + series" where
  "ema values period = (if period < 1 then Inl XValueError else Inr (ema_series (nat period) values))"

definition bar_range :: "bar \<Rightarrow> bar \<Rightarrow> float64" where
  "bar_range prev b =
     max (max (fsub (b_high b) (b_low b)) \<bar>fsub (b_high b) (b_close prev)\<bar>) \<bar>fsub (b_low b) (b_close prev)\<bar>"

text \<open>A series over consecutive bars, undefined at the first one.\<close>

fun pairwise :: "(bar \<Rightarrow> bar \<Rightarrow> 'a) \<Rightarrow> bar list \<Rightarrow> 'a option list" where
  "pairwise f [] = []"
| "pairwise f [b] = [None]"
| "pairwise f (a # b # bs) = None # map2 (\<lambda>x y. Some (f x y)) (a # b # bs) (b # bs)"

definition true_range :: "bar list \<Rightarrow> series" where
  "true_range bars = pairwise bar_range bars"

fun rma_from :: "nat \<Rightarrow> float64 option \<Rightarrow> series \<Rightarrow> series" where
  "rma_from n prev [] = []"
| "rma_from n prev (v # vs) =
     (let e = map_option (\<lambda>x. fdiv x (of_nat n))
                (nan2 fadd (map_option (\<lambda>x. fmul x (of_nat n - 1)) prev) v)
      in e # rma_from n e vs)"

definition rma_series :: "nat \<Rightarrow> nat \<Rightarrow> series \<Rightarrow> series" where
  "rma_series n start values =
     (if length values < start + n then replicate (length values) None
      else let seed = map_option (\<lambda>x. fdiv x (of_nat n)) (nan_sum (take n (drop start values)))
           in replicate (start + n - 1) None @ seed # rma_from n seed (drop (start + n) values))"

definition wilder_rma :: "series \<Rightarrow> int \<Rightarrow> nat \<Rightarrow> xau_error + series" where
  "wilder_rma values period start =
     (if period < 1 then Inl XValueError else Inr (rma_series (nat period) start values))"

definition atr :: "bar list \<Rightarrow> int \<Rightarrow> xau_error + series" where
  "atr bars period = wilder_rma (true_range bars) period 1"

definition plus_dm :: "bar \<Rightarrow> bar \<Rightarrow> float64" where
  "plus_dm prev b =
     (let up = fsub (b_high b) (b_high prev); down = fsub (b_low prev) (b_low b)
      in if down < up \<and> 0 < up then up else 0)"

definition minus_dm :: "bar \<Rightarrow> bar \<Rightarrow> float64" where
  "minus_dm prev b =
     (let up = fsub (b_high b) (b_high prev); down = fsub (b_low prev) (b_low b)
      in if up < down \<and> 0 < down then down else 0)"

definition moving :: "float64 option \<Rightarrow> bool" where
  "moving tr = (case tr of Some r \<Rightarrow> 0 < r | None \<Rightarrow> False)"

definition directional_index :: "float64 option \<Rightarrow> float64 option \<Rightarrow> float64 option \<Rightarrow> float64 option" where
  "directional_index up down tr =
     (if \<not> moving tr then None
      else let plus_di = nan2 fdiv (map_option (fmul 100) up) tr;
               minus_di = nan2 fdiv (map_option (fmul 100) down) tr;
               denom = nan2 fadd plus_di minus_di
           in if denom = Some 0 then Some 0
              else nan2 fdiv (map_option (\<lambda>d. fmul 100 \<bar>d\<bar>) (nan2 fsub plus_di minus_di)) denom)"

fun first_index :: "('a \<Rightarrow> bool) \<Rightarrow> 'a list \<Rightarrow> nat option" where
  "first_index P [] = None"
| "first_index P (x # xs) = (if P x then Some 0 else map_option Suc (first_index P xs))"

definition adx_series :: "nat \<Rightarrow> bar list \<Rightarrow> series" where
  "adx_series n bars =
     (if length bars < 2 then replicate (length bars) None
      else let sm_plus = rma_series n 1 (pairwise plus_dm bars);
               sm_minus = rma_series n 1 (pairwise minus_dm bars);
               sm_tr = rma_series n 1 (true_range bars);
               dx = map (\<lambda>(p, m, t). directional_index p m t) (zip sm_plus (zip sm_minus sm_tr))
           in case first_index moving sm_tr of
                None \<Rightarrow> replicate (length bars) None
              | Some first_dx \<Rightarrow> rma_series n first_dx dx)"

definition adx :: "bar list \<Rightarrow> int \<Rightarrow> xau_error + series" where
  "adx bars period =
     (if length bars < 2 then Inr (replicate (length bars) None)
      else if period < 1 then Inl XValueError
      else Inr (adx_series (nat period) bars))"

definition er_at :: "nat \<Rightarrow> float64 list \<Rightarrow> nat \<Rightarrow> float64 option" where
  "er_at w closes i =
     (if i < w then None
      else let net = \<bar>fsub (closes ! i) (closes ! (i - w))\<bar>;
               path = exact_sum (map (\<lambda>j. \<bar>fsub (closes ! j) (closes ! (j - 1))\<bar>) [i - w + 1..<i + 1])
           in Some (if path = 0 then 0 else fdiv net path))"

definition er_series :: "nat \<Rightarrow> float64 list \<Rightarrow> series" where
  "er_series w closes = map (er_at w closes) [0..<length closes]"

definition efficiency_ratio :: "float64 list \<Rightarrow> int \<Rightarrow> xau_error + series" where
  "efficiency_ratio closes window =
     (if window < 1 then Inl XValueError else Inr (er_series (nat window) closes))"

definition percentile_at :: "nat \<Rightarrow> series \<Rightarrow> nat \<Rightarrow> float64 option" where
  "percentile_at w atrs i =
     (case atrs ! i of
        None \<Rightarrow> None
      | Some current \<Rightarrow>
          if i + 1 < w then None
          else let sample = take w (drop (i + 1 - w) atrs)
               in if None \<in> set sample then None
                  else Some (fdiv (of_nat (length (filter (\<lambda>v. the v < current) sample))) (of_nat w)))"

definition percentile_series :: "nat \<Rightarrow> series \<Rightarrow> series" where
  "percentile_series w atrs = map (percentile_at w atrs) [0..<length atrs]"

definition atr_percentile :: "series \<Rightarrow> int \<Rightarrow> xau_error + series" where
  "atr_percentile atrs window =
     (if window < 1 then Inl XValueError else Inr (percentile_series (nat window) atrs))"

subsection \<open>The regime engine\<close>

record regime_features =
  rf_regime :: regime
  rf_ema_fast :: "float64 option"
  rf_ema_slow :: "float64 option"
  rf_atr_h1 :: "float64 option"
  rf_adx :: "float64 option"
  rf_er :: "float64 option"
  rf_atr_pct :: "float64 option"
  rf_normalized_spread :: "float64 option"
  rf_normalized_slope :: "float64 option"

definition invalid_features :: regime_features where
  "invalid_features = \<lparr>rf_regime = RG_INVALID, rf_ema_fast = None, rf_ema_slow = None, rf_atr_h1 = None, rf_adx = None,
     rf_er = None, rf_atr_pct = None, rf_normalized_spread = None, rf_normalized_slope = None\<rparr>"

definition classify ::
  "float64 option \<Rightarrow> float64 option \<Rightarrow> float64 option \<Rightarrow> float64 option \<Rightarrow> float64 option \<Rightarrow> research_params \<Rightarrow> regime" where
  "classify adx_value spread slope er atr_pct p =
     (case (adx_value, spread, slope, er, atr_pct) of
        (Some a, Some sp, Some sl, Some e, Some pct) \<Rightarrow>
          if rp_atr_pct_high p \<le> pct then RG_HIGH_VOLATILITY
          else let trending = rp_adx_trend_min p \<le> a \<and> rp_er_trend_min p \<le> e
               in if trending \<and> rp_spread_trend_min p \<le> sp \<and> rp_slope_trend_min p \<le> sl then RG_TREND_UP
                  else if trending \<and> sp \<le> - rp_spread_trend_min p \<and> sl \<le> - rp_slope_trend_min p then RG_TREND_DOWN
                  else if a < rp_adx_range_max p then RG_RANGE
                  else RG_INVALID
      | _ \<Rightarrow> RG_INVALID)"

record regime_series =
  rs_length :: nat
  rs_params :: research_params
  rs_ema_fast :: series
  rs_ema_slow :: series
  rs_atr :: series
  rs_adx :: series
  rs_er :: series
  rs_atr_pct :: series

definition make_regime_series :: "bar list \<Rightarrow> research_params \<Rightarrow> xau_error + regime_series" where
  "make_regime_series bars p =
     (let closes = map b_close bars
      in rbind (ema closes (rp_ema_fast_period p)) (\<lambda>fast.
         rbind (ema closes (rp_ema_slow_period p)) (\<lambda>slow.
         rbind (atr bars (rp_atr_period_h1 p)) (\<lambda>atrs.
         rbind (adx bars (rp_adx_period p)) (\<lambda>adxs.
         rbind (efficiency_ratio closes (rp_er_window p)) (\<lambda>ers.
         rbind (atr_percentile atrs (rp_atr_pct_window p)) (\<lambda>pcts.
         Inr \<lparr>rs_length = length bars, rs_params = p, rs_ema_fast = fast, rs_ema_slow = slow, rs_atr = atrs, rs_adx = adxs,
              rs_er = ers, rs_atr_pct = pcts\<rparr>)))))))"

definition features_of ::
  "research_params \<Rightarrow> float64 option \<Rightarrow> float64 option \<Rightarrow> float64 option \<Rightarrow> float64 option \<Rightarrow> float64 option \<Rightarrow> float64 option
    \<Rightarrow> float64 option \<Rightarrow> xau_error + regime_features" where
  "features_of p ema_fast ema_slow ema_fast_prev atr_v adx_v er_v pct_v =
     (case (ema_fast, ema_slow, ema_fast_prev, atr_v, adx_v, er_v, pct_v) of
        (Some fast, Some slow, Some fast_prev, Some atr_h1, Some adx_value, Some er, Some atr_pct) \<Rightarrow>
          if atr_h1 \<le> 0 then Inr invalid_features
          else let divisor = fmul (of_int (rp_slope_lookback p)) atr_h1
          in if divisor = 0 then Inl XZeroDivisionError
          else let spread = Some (fdiv (fsub fast slow) atr_h1);
                   slope = Some (fdiv (fsub fast fast_prev) divisor)
          in Inr \<lparr>rf_regime = classify (Some adx_value) spread slope (Some er) (Some atr_pct) p,
                  rf_ema_fast = Some fast, rf_ema_slow = Some slow, rf_atr_h1 = Some atr_h1, rf_adx = Some adx_value,
                  rf_er = Some er, rf_atr_pct = Some atr_pct, rf_normalized_spread = spread, rf_normalized_slope = slope\<rparr>
      | _ \<Rightarrow> Inr invalid_features)"

definition regime_at :: "regime_series \<Rightarrow> int \<Rightarrow> xau_error + regime_features" where
  "regime_at s index =
     (let p = rs_params s
      in if index < 0 \<or> int (rs_length s) \<le> index then Inr invalid_features
      else let slope_index = index - rp_slope_lookback p
      in if slope_index < 0 then Inr invalid_features
      else if int (length (rs_ema_fast s)) \<le> slope_index then Inl XIndexError
      else let i = nat index
      in features_of p (rs_ema_fast s ! i) (rs_ema_slow s ! i) (rs_ema_fast s ! nat slope_index) (rs_atr s ! i) (rs_adx s ! i)
           (rs_er s ! i) (rs_atr_pct s ! i))"

subsection \<open>No indicator looks ahead\<close>

locale causal_series =
  fixes series :: "'a list \<Rightarrow> 'b list"
  assumes length_series: "length (series xs) = length xs"
    and prefix_series: "take k (series xs) = series (take k xs)"
begin

lemma nth_prefix: "i < k \<Longrightarrow> series (take k xs) ! i = series xs ! i"
  using prefix_series [of k xs] by (metis nth_take)

lemma nth_append_series: "i < length xs \<Longrightarrow> series (xs @ ys) ! i = series xs ! i"
  using nth_prefix [of i "length xs" "xs @ ys"] by simp

end

lemma take_ema_from: "take k (ema_from a prev vs) = ema_from a prev (take k vs)"
  by (induction vs arbitrary: prev k) (simp_all add: Let_def take_Cons split: nat.split)

lemma length_ema_from [simp]: "length (ema_from a prev vs) = length vs"
  by (induction vs arbitrary: prev) (simp_all add: Let_def)

interpretation ema: causal_series "ema_series (Suc n)" for n
proof
  show "length (ema_series (Suc n) xs) = length xs" for xs
    by (auto simp: ema_series_def Let_def)
  show "take k (ema_series (Suc n) xs) = ema_series (Suc n) (take k xs)" for k xs
  proof (cases "Suc n \<le> k")
    case True
    then show ?thesis
      by (auto simp: ema_series_def Let_def take_map take_ema_from drop_take min_def take_Cons' Suc_diff_le)
  next
    case False
    then show ?thesis
      by (auto simp: ema_series_def Let_def min_def)
  qed
qed

lemma length_pairwise [simp]: "length (pairwise f bars) = length bars"
  by (induction f bars rule: pairwise.induct) auto

lemma pairwise_nth:
  "i < length bars \<Longrightarrow> pairwise f bars ! i = (if i = 0 then None else Some (f (bars ! (i - 1)) (bars ! i)))"
  by (induction f bars rule: pairwise.induct) (auto simp: nth_Cons')

interpretation pairwise: causal_series "pairwise f" for f
proof
  show "take k (pairwise f xs) = pairwise f (take k xs)" for k xs
    by (rule nth_equalityI) (auto simp: pairwise_nth)
qed simp

lemma take_rma_from: "take k (rma_from n prev vs) = rma_from n prev (take k vs)"
  by (induction vs arbitrary: prev k) (simp_all add: Let_def take_Cons split: nat.split)

lemma length_rma_from [simp]: "length (rma_from n prev vs) = length vs"
  by (induction vs arbitrary: prev) (simp_all add: Let_def)

interpretation rma: causal_series "rma_series (Suc n) start" for n start
proof
  show "length (rma_series (Suc n) start xs) = length xs" for xs
    by (auto simp: rma_series_def Let_def)
  show "take k (rma_series (Suc n) start xs) = rma_series (Suc n) start (take k xs)" for k xs
  proof (cases "start + Suc n \<le> k")
    case True
    then show ?thesis
      by (auto simp: rma_series_def Let_def take_rma_from drop_take min_def take_Cons' Suc_diff_le)
  next
    case False
    then show ?thesis
      by (auto simp: rma_series_def Let_def min_def)
  qed
qed

lemma fdiv_option_float: "Some a = map_option (\<lambda>x. fdiv x c) v \<Longrightarrow> is_float a"
  by (cases v) auto

lemma rma_from_floats: "Some a \<in> set (rma_from n prev vs) \<Longrightarrow> is_float a"
  by (induction vs arbitrary: prev) (auto simp: Let_def dest: fdiv_option_float)

lemma rma_series_floats: "Some a \<in> set (rma_series n start xs) \<Longrightarrow> is_float a"
  by (auto simp: rma_series_def Let_def dest: rma_from_floats fdiv_option_float split: if_splits)

lemma first_index_take:
  "first_index P (take k xs) =
     (case first_index P xs of Some i \<Rightarrow> if i < k then Some i else None | None \<Rightarrow> None)"
  by (induction xs arbitrary: k) (auto simp: take_Cons' split: option.splits)

lemma first_index_less: "first_index P xs = Some i \<Longrightarrow> i < length xs"
  by (induction xs arbitrary: i) (auto split: if_splits)

lemma rma_series_short: "k < start + n \<Longrightarrow> take k (rma_series n start xs) = replicate (min k (length xs)) None"
  by (auto simp: rma_series_def Let_def min_def)

text \<open>The directional index is causal pointwise, and its smoothing starts at the first bar with movement.\<close>

definition smoothed_range :: "nat \<Rightarrow> bar list \<Rightarrow> series" where
  "smoothed_range n bars = rma_series n 1 (true_range bars)"

definition dx_series :: "nat \<Rightarrow> bar list \<Rightarrow> series" where
  "dx_series n bars =
     map (\<lambda>(p, m, t). directional_index p m t)
       (zip (rma_series n 1 (pairwise plus_dm bars)) (zip (rma_series n 1 (pairwise minus_dm bars)) (smoothed_range n bars)))"

lemma take_smoothed_range: "smoothed_range (Suc n) (take k xs) = take k (smoothed_range (Suc n) xs)"
  by (simp add: smoothed_range_def true_range_def rma.prefix_series pairwise.prefix_series)

lemma take_dx_series: "dx_series (Suc n) (take k xs) = take k (dx_series (Suc n) xs)"
  by (simp add: dx_series_def take_smoothed_range take_map take_zip rma.prefix_series pairwise.prefix_series)

lemma length_dx_series [simp]: "length (dx_series (Suc n) xs) = length xs"
  by (simp add: dx_series_def smoothed_range_def true_range_def rma.length_series)

lemma length_smoothed_range [simp]: "length (smoothed_range (Suc n) xs) = length xs"
  by (simp add: smoothed_range_def true_range_def rma.length_series)

lemma first_index_none: "first_index P xs = None \<longleftrightarrow> (\<forall>x \<in> set xs. \<not> P x)"
  by (induction xs) auto

lemma adx_series_alt:
  "adx_series (Suc n) bars =
     (case first_index moving (smoothed_range (Suc n) bars) of
        None \<Rightarrow> replicate (length bars) None
      | Some first_dx \<Rightarrow> rma_series (Suc n) first_dx (dx_series (Suc n) bars))"
proof (cases "length bars < 2")
  case True
  then have "smoothed_range (Suc n) bars = replicate (length bars) None"
    by (auto simp: smoothed_range_def rma_series_def true_range_def)
  then have "first_index moving (smoothed_range (Suc n) bars) = None"
    by (simp add: first_index_none moving_def)
  with True show ?thesis by (simp add: adx_series_def)
next
  case False
  then show ?thesis by (simp only: adx_series_def dx_series_def smoothed_range_def Let_def if_False)
qed

interpretation adx: causal_series "adx_series (Suc n)" for n
proof
  show "length (adx_series (Suc n) xs) = length xs" for xs
    by (simp add: adx_series_alt rma.length_series split: option.split)
  show "take k (adx_series (Suc n) xs) = adx_series (Suc n) (take k xs)" for k xs
  proof (cases "first_index moving (smoothed_range (Suc n) xs)")
    case None
    then show ?thesis by (simp add: adx_series_alt take_smoothed_range first_index_take min.commute)
  next
    case (Some i)
    then show ?thesis
      using rma_series_short [of k i "Suc n" "dx_series (Suc n) xs"]
      by (auto simp: adx_series_alt take_smoothed_range first_index_take take_dx_series rma.prefix_series min.commute)
  qed
qed

lemma er_at_take: "i < k \<Longrightarrow> er_at w (take k xs) i = er_at w xs i"
proof -
  assume "i < k"
  then have "map (\<lambda>j. \<bar>fsub (take k xs ! j) (take k xs ! (j - 1))\<bar>) [i - w + 1..<i + 1] =
    map (\<lambda>j. \<bar>fsub (xs ! j) (xs ! (j - 1))\<bar>) [i - w + 1..<i + 1]"
    by (intro map_cong) auto
  then show ?thesis unfolding er_at_def Let_def using \<open>i < k\<close> by (simp only: nth_take less_imp_diff_less)
qed

interpretation er: causal_series "er_series w" for w
proof
  show "take k (er_series w xs) = er_series w (take k xs)" for k xs
    by (rule nth_equalityI) (simp_all add: er_series_def er_at_take)
qed (simp add: er_series_def)

lemma percentile_at_take: "i < k \<Longrightarrow> percentile_at w (take k xs) i = percentile_at w xs i"
proof -
  assume "i < k"
  then have "w \<le> k - (i + 1 - w)" if "w \<le> i + 1"
    using that by arith
  then have "take w (drop (i + 1 - w) (take k xs)) = take w (drop (i + 1 - w) xs)" if "w \<le> i + 1"
    using that by (simp add: drop_take min_absorb1 del: diff_diff_right)
  with \<open>i < k\<close> show ?thesis by (simp add: percentile_at_def Let_def split: option.split)
qed

interpretation percentile: causal_series "percentile_series w" for w
proof
  show "take k (percentile_series w xs) = percentile_series w (take k xs)" for k xs
    by (rule nth_equalityI) (simp_all add: percentile_series_def percentile_at_take)
qed (simp add: percentile_series_def)

text \<open>Validated parameters build every series, and what the engine says at a bar depends on the bars up to it.\<close>

definition params_ok :: "research_params \<Rightarrow> bool" where
  "params_ok p \<longleftrightarrow> validate_research p = Inr ()"

definition regime_series_of :: "research_params \<Rightarrow> bar list \<Rightarrow> regime_series" where
  "regime_series_of p bars =
     \<lparr>rs_length = length bars, rs_params = p,
      rs_ema_fast = ema_series (nat (rp_ema_fast_period p)) (map b_close bars),
      rs_ema_slow = ema_series (nat (rp_ema_slow_period p)) (map b_close bars),
      rs_atr = rma_series (nat (rp_atr_period_h1 p)) 1 (true_range bars),
      rs_adx = adx_series (nat (rp_adx_period p)) bars,
      rs_er = er_series (nat (rp_er_window p)) (map b_close bars),
      rs_atr_pct = percentile_series (nat (rp_atr_pct_window p)) (rma_series (nat (rp_atr_period_h1 p)) 1 (true_range bars))\<rparr>"

lemma params_ok_periods:
  assumes "params_ok p"
  shows "1 \<le> rp_ema_fast_period p" "1 \<le> rp_ema_slow_period p" "1 \<le> rp_adx_period p" "1 \<le> rp_er_window p"
    "1 \<le> rp_atr_period_h1 p" "1 \<le> rp_atr_period_m15 p" "1 \<le> rp_atr_pct_window p" "1 \<le> rp_impulse_lookback p"
    "1 \<le> rp_slope_lookback p" "1 \<le> rp_breakout_window_bars p"
  using assms by (simp_all add: params_ok_def validate_research_def split: if_splits)

lemma make_regime_series_ok:
  assumes "params_ok p"
  shows "make_regime_series bars p = Inr (regime_series_of p bars)"
  using params_ok_periods [OF assms]
  by (simp add: make_regime_series_def Let_def ema_def atr_def wilder_rma_def adx_def efficiency_ratio_def atr_percentile_def
      regime_series_of_def adx_series_def)

lemma period_Suc: "1 \<le> k \<Longrightarrow> nat k = Suc (nat (k - 1))"
  by simp

lemma regime_at_prefix:
  assumes ok: "params_ok p" and i: "0 \<le> i" "i < int (length xs)"
  shows "regime_at (regime_series_of p (xs @ ys)) i = regime_at (regime_series_of p xs) i"
proof -
  note per = params_ok_periods [OF ok]
  let ?s = "regime_series_of p (xs @ ys)" and ?t = "regime_series_of p xs"
  have len: "length (rs_ema_fast ?s) = length (xs @ ys)" "length (rs_ema_fast ?t) = length xs"
    using per by (simp_all add: regime_series_of_def period_Suc ema.length_series)
  have nth: "rs_ema_fast ?s ! k = rs_ema_fast ?t ! k" "rs_ema_slow ?s ! k = rs_ema_slow ?t ! k"
      "rs_atr ?s ! k = rs_atr ?t ! k" "rs_adx ?s ! k = rs_adx ?t ! k" "rs_er ?s ! k = rs_er ?t ! k"
      "rs_atr_pct ?s ! k = rs_atr_pct ?t ! k" if k: "k < length xs" for k
  proof -
    let ?r = "\<lambda>bs. rma_series (nat (rp_atr_period_h1 p)) 1 (true_range bs)"
    have r: "?r (xs @ ys) ! k = ?r xs ! k" "take (length xs) (?r (xs @ ys)) = ?r xs"
      using per k pairwise.prefix_series [of "length xs" bar_range "xs @ ys"]
        rma.prefix_series [of "length xs" "nat (rp_atr_period_h1 p - 1)" 1 "true_range (xs @ ys)"]
      by (simp_all add: period_Suc true_range_def) (metis nth_take)
    show "rs_atr ?s ! k = rs_atr ?t ! k" using r by (simp add: regime_series_of_def)
    show "rs_atr_pct ?s ! k = rs_atr_pct ?t ! k"
      using percentile.nth_prefix [OF k, of _ "?r (xs @ ys)"] r by (simp add: regime_series_of_def)
    show "rs_ema_fast ?s ! k = rs_ema_fast ?t ! k" "rs_ema_slow ?s ! k = rs_ema_slow ?t ! k"
        "rs_adx ?s ! k = rs_adx ?t ! k" "rs_er ?s ! k = rs_er ?t ! k"
      using per k by (simp_all add: regime_series_of_def period_Suc ema.nth_append_series adx.nth_append_series er.nth_append_series)
  qed
  have "nat i < length xs" "nat (i - rp_slope_lookback p) < length xs" using i per by auto
  moreover have "rs_params ?s = p" "rs_params ?t = p" "rs_length ?s = length xs + length ys" "rs_length ?t = length xs"
    by (simp_all add: regime_series_of_def)
  moreover have "i - rp_slope_lookback p < int (length xs)" using i per by simp
  ultimately show ?thesis
    using i nth [of "nat i"] nth [of "nat (i - rp_slope_lookback p)"] len
    unfolding regime_at_def Let_def by simp
qed

text \<open>On validated parameters the engine never raises.\<close>

lemma regime_at_returns:
  assumes ok: "params_ok p"
  shows "\<exists>f. regime_at (regime_series_of p bars) i = Inr f"
proof -
  note per = params_ok_periods [OF ok]
  have len: "length (rs_ema_fast (regime_series_of p bars)) = length bars" "rs_length (regime_series_of p bars) = length bars"
    using per by (simp_all add: regime_series_of_def period_Suc ema.length_series)
  have nz: "fmul (of_int (rp_slope_lookback p)) a \<noteq> 0" if "\<not> a \<le> 0" "is_float a" for a
  proof -
    have "a \<le> of_int (rp_slope_lookback p) * a" using per(9) that by (simp add: mult_le_cancel_right1)
    then show ?thesis using fl_ge [of a "of_int (rp_slope_lookback p) * a"] that by (auto simp: fmul_def)
  qed
  have "is_float a" if "rs_atr (regime_series_of p bars) ! nat i = Some a" "0 \<le> i" "i < int (length bars)" for a
    using that per rma_series_floats [of a "nat (rp_atr_period_h1 p)" 1 "true_range bars"]
      rma.length_series [of "nat (rp_atr_period_h1 p - 1)" 1 "true_range bars"]
    by (simp add: regime_series_of_def period_Suc true_range_def) (metis nat_less_iff nth_mem)
  with nz have "\<exists>f. features_of p x y z (rs_atr (regime_series_of p bars) ! nat i) u v w = Inr f"
    if "0 \<le> i" "i < int (length bars)" for x y z u v w
    using that by (auto simp: features_of_def Let_def split: option.splits)
  moreover have "rs_params (regime_series_of p bars) = p" by (simp add: regime_series_of_def)
  ultimately show ?thesis using per(9) len by (auto simp: regime_at_def Let_def)
qed

end
