(* ===== verification/Xau_Machine.thy ===== *)
theory Xau_Machine
  imports Xau_Core
begin

text \<open>
  The setup state machine of the gold strategy (\<^verbatim>\<open>research/strategies/xau_rpb/state_machine.py\<close>): from scanning through the pullback to
  the confirmed breakout, and the callbacks of the execution side. A method that only assigns fields is a function on the machine; a
  method that contains an assertion or may raise also returns an error, with the machine reached so far.

  Shown are the invariant of every reachable machine (fields, setup bounds and log), that a closed bar is processed without an
  exception, what a signal guarantees, and that an open setup is resolved after a bounded number of bars.
\<close>

datatype setup_state =
  SCANNING | ARMED | PULLBACK_ACTIVE | BREAKOUT_WINDOW | SIGNAL_READY | ORDER_SUBMITTED | IN_POSITION

record setup_transition =
  tr_bar_index :: int
  tr_from :: setup_state
  tr_to :: setup_state
  tr_reason :: string

record setup_machine =
  sm_params :: research_params
  sm_state :: setup_state
  sm_direction :: "direction option"
  sm_pullback_bars :: int
  sm_pullback_extreme :: float64
  sm_breakout_reference :: float64
  sm_swing_extreme :: float64
  sm_swing_origin :: float64
  sm_window_bars_left :: int
  sm_setup_age_bars :: int
  sm_depth_atr :: "float64 option"
  sm_transitions :: "setup_transition list"

definition new_machine :: "research_params \<Rightarrow> setup_machine" where
  "new_machine p = \<lparr>sm_params = p, sm_state = SCANNING, sm_direction = None, sm_pullback_bars = 0, sm_pullback_extreme = 0,
     sm_breakout_reference = 0, sm_swing_extreme = 0, sm_swing_origin = 0, sm_window_bars_left = 0, sm_setup_age_bars = 0,
     sm_depth_atr = Some 0, sm_transitions = []\<rparr>"

definition goto :: "int \<Rightarrow> setup_state \<Rightarrow> string \<Rightarrow> setup_machine \<Rightarrow> setup_machine" where
  "goto index tgt reason m =
     (if tgt \<noteq> sm_state m
      then m\<lparr>sm_transitions := sm_transitions m @
               [\<lparr>tr_bar_index = index, tr_from = sm_state m, tr_to = tgt, tr_reason = reason\<rparr>]\<rparr>
      else m)\<lparr>sm_state := tgt\<rparr>"

definition reset_setup :: "int \<Rightarrow> string \<Rightarrow> setup_machine \<Rightarrow> setup_machine" where
  "reset_setup index reason m =
     (goto index SCANNING reason m)\<lparr>sm_direction := None, sm_pullback_bars := 0, sm_pullback_extreme := 0,
        sm_breakout_reference := 0, sm_swing_extreme := 0, sm_swing_origin := 0, sm_window_bars_left := 0,
        sm_setup_age_bars := 0, sm_depth_atr := Some 0\<rparr>"

definition counter_trend :: "bar \<Rightarrow> setup_machine \<Rightarrow> xau_error + bool" where
  "counter_trend b m =
     (case sm_direction m of
        None \<Rightarrow> Inl XAssertionError
      | Some d \<Rightarrow> Inr (direction_value d * fsub (b_close b) (b_open b) < 0))"

fun direction_for :: "regime \<Rightarrow> direction option" where
  "direction_for RG_TREND_UP = Some DIR_LONG"
| "direction_for RG_TREND_DOWN = Some DIR_SHORT"
| "direction_for _ = None"

definition update_swing :: "bar list \<Rightarrow> int \<Rightarrow> setup_machine \<Rightarrow> (xau_error + bool) \<times> setup_machine" where
  "update_swing bars end_index m =
     (case sm_direction m of
        None \<Rightarrow> (Inl XAssertionError, m)
      | Some d \<Rightarrow>
          let lo = end_index - rp_impulse_lookback (sm_params m) + 1
          in if lo < 0 \<or> end_index < 0 then (Inr False, m)
             else let window = take (nat (end_index + 1 - lo)) (drop (nat lo) bars);
                      highs = map b_high window;
                      lows = map b_low window
             in if window = [] then (Inl XValueError, m)
                else case d of
                  DIR_LONG \<Rightarrow> (Inr True, m\<lparr>sm_swing_extreme := Max (set highs), sm_swing_origin := Min (set lows)\<rparr>)
                | DIR_SHORT \<Rightarrow> (Inr True, m\<lparr>sm_swing_extreme := Min (set lows), sm_swing_origin := Max (set highs)\<rparr>))"

definition compute_depth :: "float64 \<Rightarrow> setup_machine \<Rightarrow> float64 option" where
  "compute_depth atr_m15 m =
     (if atr_m15 \<le> 0 then None else Some (fdiv \<bar>fsub (sm_swing_extreme m) (sm_pullback_extreme m)\<bar> atr_m15))"

definition breakout_confirmed :: "bar \<Rightarrow> float64 \<Rightarrow> setup_machine \<Rightarrow> xau_error + bool" where
  "breakout_confirmed b atr_m15 m =
     (case sm_direction m of
        None \<Rightarrow> Inl XAssertionError
      | Some d \<Rightarrow>
          let buffer = fmul (rp_breakout_buffer_atr (sm_params m)) atr_m15
          in Inr (case d of
                    DIR_LONG \<Rightarrow> fadd (sm_breakout_reference m) buffer < b_close b
                  | DIR_SHORT \<Rightarrow> b_close b < fsub (sm_breakout_reference m) buffer))"

definition step_scanning :: "int \<Rightarrow> regime \<Rightarrow> setup_machine \<Rightarrow> (xau_error + bool) \<times> setup_machine" where
  "step_scanning index rg m =
     (case direction_for rg of
        None \<Rightarrow> (Inr False, m)
      | Some d \<Rightarrow>
          (Inr False, goto index ARMED (''REGIME_'' @ regime_name rg) (m\<lparr>sm_direction := Some d, sm_setup_age_bars := 0\<rparr>)))"

definition regime_still_valid :: "int \<Rightarrow> regime \<Rightarrow> setup_machine \<Rightarrow> bool \<times> setup_machine" where
  "regime_still_valid index rg m =
     (if direction_for rg = None \<or> direction_for rg \<noteq> sm_direction m
      then (False, reset_setup index ''REGIME_INVALIDATED'' m)
      else (True, m))"

definition too_deep :: "setup_machine \<Rightarrow> bool" where
  "too_deep m = (case sm_depth_atr m of None \<Rightarrow> True | Some d \<Rightarrow> rp_max_pullback_depth_atr (sm_params m) < d)"

definition structure_lost :: "setup_machine \<Rightarrow> bool" where
  "structure_lost m =
     (if sm_direction m = Some DIR_LONG then sm_pullback_extreme m < sm_swing_origin m
      else sm_swing_origin m < sm_pullback_extreme m)"

definition step_armed ::
  "bar list \<Rightarrow> int \<Rightarrow> regime \<Rightarrow> float64 \<Rightarrow> setup_machine \<Rightarrow> (xau_error + bool) \<times> setup_machine" where
  "step_armed bars index rg atr_m15 m =
     (let (still, m) = regime_still_valid index rg m
      in if \<not> still then (Inr False, m)
      else let b = bars ! nat index
      in case counter_trend b m of
        Inl e \<Rightarrow> (Inl e, m)
      | Inr False \<Rightarrow> (Inr False, m)
      | Inr True \<Rightarrow>
          (case update_swing bars (index - 1) m of
             (Inl e, m) \<Rightarrow> (Inl e, m)
           | (Inr False, m) \<Rightarrow> (Inr False, m)
           | (Inr True, m) \<Rightarrow>
               let prev = bars ! nat (index - 1);
                   m = m\<lparr>sm_pullback_bars := 1\<rparr>;
                   m = (if sm_direction m = Some DIR_LONG
                        then m\<lparr>sm_pullback_extreme := b_low b, sm_breakout_reference := max (b_high b) (b_high prev)\<rparr>
                        else m\<lparr>sm_pullback_extreme := b_high b, sm_breakout_reference := min (b_low b) (b_low prev)\<rparr>);
                   m = m\<lparr>sm_depth_atr := compute_depth atr_m15 m\<rparr>
               in if too_deep m then (Inr False, reset_setup index ''PULLBACK_TOO_DEEP'' m)
                  else if structure_lost m then (Inr False, reset_setup index ''STRUCTURE_LOST'' m)
                  else (Inr False, goto index PULLBACK_ACTIVE ''PULLBACK_STARTED'' m)))"

definition extend_pullback :: "bar \<Rightarrow> float64 \<Rightarrow> setup_machine \<Rightarrow> setup_machine" where
  "extend_pullback b atr_m15 m =
     (let m = m\<lparr>sm_pullback_bars := sm_pullback_bars m + 1\<rparr>;
          m = (if sm_direction m = Some DIR_LONG
               then m\<lparr>sm_pullback_extreme := min (sm_pullback_extreme m) (b_low b),
                      sm_breakout_reference := max (sm_breakout_reference m) (b_high b)\<rparr>
               else m\<lparr>sm_pullback_extreme := max (sm_pullback_extreme m) (b_high b),
                      sm_breakout_reference := min (sm_breakout_reference m) (b_low b)\<rparr>)
      in m\<lparr>sm_depth_atr := compute_depth atr_m15 m\<rparr>)"

definition step_pullback ::
  "bar list \<Rightarrow> int \<Rightarrow> regime \<Rightarrow> float64 \<Rightarrow> setup_machine \<Rightarrow> (xau_error + bool) \<times> setup_machine" where
  "step_pullback bars index rg atr_m15 m =
     (let (still, m) = regime_still_valid index rg m
      in if \<not> still then (Inr False, m)
      else let p = sm_params m; b = bars ! nat index
      in case counter_trend b m of
        Inl e \<Rightarrow> (Inl e, m)
      | Inr True \<Rightarrow>
          (let m = extend_pullback b atr_m15 m
           in if rp_max_pullback_bars p < sm_pullback_bars m then (Inr False, reset_setup index ''PULLBACK_TOO_LONG'' m)
              else if too_deep m then (Inr False, reset_setup index ''PULLBACK_TOO_DEEP'' m)
              else if structure_lost m then (Inr False, reset_setup index ''STRUCTURE_LOST'' m)
              else (Inr False, m))
      | Inr False \<Rightarrow>
          (if sm_pullback_bars m < rp_min_pullback_bars p then (Inr False, reset_setup index ''PULLBACK_TOO_SHORT'' m)
           else let m = m\<lparr>sm_depth_atr := compute_depth atr_m15 m\<rparr>
           in case sm_depth_atr m of
                None \<Rightarrow> (Inr False, reset_setup index ''ATR_INVALID'' m)
              | Some d \<Rightarrow>
                  if d < rp_min_pullback_depth_atr p then (Inr False, reset_setup index ''PULLBACK_TOO_SHALLOW'' m)
                  else if rp_max_pullback_depth_atr p < d then (Inr False, reset_setup index ''PULLBACK_TOO_DEEP'' m)
                  else let m = goto index BREAKOUT_WINDOW ''PULLBACK_COMPLETE'' (m\<lparr>sm_window_bars_left := rp_breakout_window_bars p\<rparr>)
                  in case breakout_confirmed b atr_m15 m of
                       Inl e \<Rightarrow> (Inl e, m)
                     | Inr True \<Rightarrow> (Inr True, goto index SIGNAL_READY ''BREAKOUT_CONFIRMED'' m)
                     | Inr False \<Rightarrow> (Inr False, m)))"

definition step_window :: "int \<Rightarrow> regime \<Rightarrow> float64 \<Rightarrow> bar \<Rightarrow> setup_machine \<Rightarrow> (xau_error + bool) \<times> setup_machine" where
  "step_window index rg atr_m15 b m =
     (let (still, m) = regime_still_valid index rg m
      in if \<not> still then (Inr False, m)
      else case breakout_confirmed b atr_m15 m of
        Inl e \<Rightarrow> (Inl e, m)
      | Inr True \<Rightarrow> (Inr True, goto index SIGNAL_READY ''BREAKOUT_CONFIRMED'' m)
      | Inr False \<Rightarrow>
          (let m = m\<lparr>sm_window_bars_left := sm_window_bars_left m - 1\<rparr>
           in if sm_window_bars_left m \<le> 0 then (Inr False, reset_setup index ''BREAKOUT_WINDOW_EXPIRED'' m)
              else if rp_max_setup_bars (sm_params m) \<le> sm_setup_age_bars m
              then (Inr False, reset_setup index ''SETUP_LIFETIME_EXCEEDED'' m)
              else (Inr False, m)))"

definition on_closed_bar ::
  "bar list \<Rightarrow> int \<Rightarrow> regime \<Rightarrow> float64 option \<Rightarrow> setup_machine \<Rightarrow> (xau_error + bool) \<times> setup_machine" where
  "on_closed_bar bars index rg atr_m15 m =
     (if sm_state m = ORDER_SUBMITTED \<or> sm_state m = IN_POSITION then (Inr False, m)
      else if index < 0 \<or> int (length bars) \<le> index then (Inr False, m)
      else case atr_m15 of
        None \<Rightarrow> (Inr False, if sm_state m \<noteq> SCANNING then reset_setup index ''ATR_INVALID'' m else m)
      | Some a \<Rightarrow>
          if a \<le> 0 then (Inr False, if sm_state m \<noteq> SCANNING then reset_setup index ''ATR_INVALID'' m else m)
          else let m = (if sm_state m \<noteq> SCANNING then m\<lparr>sm_setup_age_bars := sm_setup_age_bars m + 1\<rparr> else m)
          in (case sm_state m of
                SCANNING \<Rightarrow> step_scanning index rg m
              | ARMED \<Rightarrow> step_armed bars index rg a m
              | PULLBACK_ACTIVE \<Rightarrow> step_pullback bars index rg a m
              | BREAKOUT_WINDOW \<Rightarrow> step_window index rg a (bars ! nat index) m
              | _ \<Rightarrow> (Inr False, m)))"

definition on_order_submitted :: "int \<Rightarrow> setup_machine \<Rightarrow> setup_machine" where
  "on_order_submitted index = goto index ORDER_SUBMITTED ''ORDER_SUBMITTED''"

definition on_filled :: "int \<Rightarrow> setup_machine \<Rightarrow> setup_machine" where
  "on_filled index = goto index IN_POSITION ''FILLED''"

definition on_rejected :: "int \<Rightarrow> string \<Rightarrow> setup_machine \<Rightarrow> setup_machine" where
  "on_rejected index reason = reset_setup index (''REJECTED_'' @ reason)"

definition on_signal_discarded :: "int \<Rightarrow> string \<Rightarrow> setup_machine \<Rightarrow> setup_machine" where
  "on_signal_discarded index reason = reset_setup index reason"

definition on_position_closed :: "int \<Rightarrow> string \<Rightarrow> setup_machine \<Rightarrow> setup_machine" where
  "on_position_closed index reason = reset_setup index (''CLOSED_'' @ reason)"

definition adopt_recovered_position :: "direction \<Rightarrow> setup_machine \<Rightarrow> setup_machine" where
  "adopt_recovered_position d m = m\<lparr>sm_state := IN_POSITION, sm_direction := Some d\<rparr>"

subsection \<open>The invariant\<close>

fun setup_edge :: "setup_state \<Rightarrow> setup_state \<Rightarrow> bool" where
  "setup_edge SCANNING t = (t = ARMED)"
| "setup_edge ARMED t = (t = PULLBACK_ACTIVE \<or> t = SCANNING)"
| "setup_edge PULLBACK_ACTIVE t = (t = BREAKOUT_WINDOW \<or> t = SCANNING)"
| "setup_edge BREAKOUT_WINDOW t = (t = SIGNAL_READY \<or> t = SCANNING)"
| "setup_edge SIGNAL_READY t = (t = ORDER_SUBMITTED \<or> t = SCANNING)"
| "setup_edge ORDER_SUBMITTED t = (t = IN_POSITION \<or> t = SCANNING)"
| "setup_edge IN_POSITION t = (t = SCANNING)"

fun log_path :: "setup_state \<Rightarrow> setup_transition list \<Rightarrow> setup_state \<Rightarrow> bool" where
  "log_path s [] t = (s = t)"
| "log_path s (x # xs) t = (tr_from x = s \<and> setup_edge s (tr_to x) \<and> log_path (tr_to x) xs t)"

definition pullback_passed :: "setup_machine \<Rightarrow> bool" where
  "pullback_passed m \<longleftrightarrow>
     (let p = sm_params m
      in sm_direction m \<noteq> None \<and> max 1 (rp_min_pullback_bars p) \<le> sm_pullback_bars m
         \<and> sm_pullback_bars m \<le> max 1 (rp_max_pullback_bars p) \<and> \<not> too_deep m
         \<and> (\<exists>d. sm_depth_atr m = Some d \<and> rp_min_pullback_depth_atr p \<le> d) \<and> \<not> structure_lost m)"

definition cleared :: "setup_machine \<Rightarrow> bool" where
  "cleared m \<longleftrightarrow>
     sm_state m = SCANNING \<and> sm_direction m = None \<and> sm_pullback_bars m = 0 \<and> sm_pullback_extreme m = 0
     \<and> sm_breakout_reference m = 0 \<and> sm_swing_extreme m = 0 \<and> sm_swing_origin m = 0 \<and> sm_window_bars_left m = 0
     \<and> sm_setup_age_bars m = 0 \<and> sm_depth_atr m = Some 0"

definition setup_fields :: "setup_machine \<Rightarrow> bool" where
  "setup_fields m \<longleftrightarrow>
     0 \<le> sm_setup_age_bars m \<and>
     (case sm_state m of
        SCANNING \<Rightarrow> cleared m
      | ARMED \<Rightarrow> sm_direction m \<noteq> None
      | PULLBACK_ACTIVE \<Rightarrow>
          sm_direction m \<noteq> None \<and> 1 \<le> sm_pullback_bars m \<and> sm_pullback_bars m \<le> max 1 (rp_max_pullback_bars (sm_params m))
          \<and> \<not> too_deep m \<and> \<not> structure_lost m
      | BREAKOUT_WINDOW \<Rightarrow>
          pullback_passed m \<and> 1 \<le> sm_window_bars_left m \<and> sm_window_bars_left m \<le> rp_breakout_window_bars (sm_params m)
      | SIGNAL_READY \<Rightarrow> pullback_passed m
      | ORDER_SUBMITTED \<Rightarrow> pullback_passed m
      | IN_POSITION \<Rightarrow> sm_direction m \<noteq> None)"

definition machine_inv :: "research_params \<Rightarrow> setup_state \<Rightarrow> setup_machine \<Rightarrow> bool" where
  "machine_inv p s0 m \<longleftrightarrow> sm_params m = p \<and> setup_fields m \<and> log_path s0 (sm_transitions m) (sm_state m)"

lemma log_path_append: "log_path s (xs @ ys) t \<longleftrightarrow> (\<exists>u. log_path s xs u \<and> log_path u ys t)"
  by (induction xs arbitrary: s) auto

lemma goto_fields [simp]:
  "sm_params (goto i t r m) = sm_params m" "sm_state (goto i t r m) = t" "sm_direction (goto i t r m) = sm_direction m"
  "sm_pullback_bars (goto i t r m) = sm_pullback_bars m" "sm_pullback_extreme (goto i t r m) = sm_pullback_extreme m"
  "sm_breakout_reference (goto i t r m) = sm_breakout_reference m" "sm_swing_extreme (goto i t r m) = sm_swing_extreme m"
  "sm_swing_origin (goto i t r m) = sm_swing_origin m" "sm_window_bars_left (goto i t r m) = sm_window_bars_left m"
  "sm_setup_age_bars (goto i t r m) = sm_setup_age_bars m" "sm_depth_atr (goto i t r m) = sm_depth_atr m"
  by (simp_all add: goto_def)

lemma reset_fields [simp]:
  "sm_params (reset_setup i r m) = sm_params m" "sm_state (reset_setup i r m) = SCANNING"
  "cleared (reset_setup i r m)" "sm_setup_age_bars (reset_setup i r m) = 0"
  by (simp_all add: reset_setup_def cleared_def)

lemma goto_log:
  "log_path s0 (sm_transitions m) (sm_state m) \<Longrightarrow> t = sm_state m \<or> setup_edge (sm_state m) t
     \<Longrightarrow> log_path s0 (sm_transitions (goto i t r m)) t"
  by (auto simp: goto_def log_path_append)

lemma edge_to_scanning: "s = SCANNING \<or> setup_edge s SCANNING"
  by (cases s) auto

lemma reset_log:
  assumes "log_path s0 (sm_transitions m) (sm_state m)"
  shows "log_path s0 (sm_transitions (reset_setup i r m)) SCANNING"
proof -
  have "sm_transitions (reset_setup i r m) = sm_transitions (goto i SCANNING r m)" by (simp add: reset_setup_def)
  then show ?thesis using goto_log [OF assms, of SCANNING i r] edge_to_scanning by metis
qed

lemma reset_inv:
  "sm_params m = p \<Longrightarrow> log_path s0 (sm_transitions m) (sm_state m) \<Longrightarrow> machine_inv p s0 (reset_setup i r m)"
  by (simp add: machine_inv_def setup_fields_def reset_log)

lemma params_ok_depth: "params_ok p \<Longrightarrow> rp_min_pullback_depth_atr p < rp_max_pullback_depth_atr p"
  by (simp add: params_ok_def validate_research_def split: if_splits)

text \<open>Machines that agree on the fields a test reads pass it alike.\<close>

lemma pullback_passed_cong [simp]:
  "pullback_passed (goto i t r m) = pullback_passed m" "too_deep (goto i t r m) = too_deep m" "structure_lost (goto i t r m) = structure_lost m"
  "pullback_passed (m\<lparr>sm_setup_age_bars := a\<rparr>) = pullback_passed m" "too_deep (m\<lparr>sm_setup_age_bars := a\<rparr>) = too_deep m"
  "structure_lost (m\<lparr>sm_setup_age_bars := a\<rparr>) = structure_lost m"
  "pullback_passed (m\<lparr>sm_window_bars_left := w\<rparr>) = pullback_passed m" "too_deep (m\<lparr>sm_window_bars_left := w\<rparr>) = too_deep m"
  "structure_lost (m\<lparr>sm_window_bars_left := w\<rparr>) = structure_lost m"
  by (simp_all add: pullback_passed_def too_deep_def structure_lost_def Let_def cong: option.case_cong)

text \<open>What a step promises: it does not raise, keeps the invariant, and reports a signal exactly when it reaches
  \<open>SIGNAL_READY\<close>, with the regime of the direction and a close beyond the structure level.\<close>

definition confirmed :: "regime \<Rightarrow> float64 \<Rightarrow> bar \<Rightarrow> setup_machine \<Rightarrow> bool" where
  "confirmed rg a b m \<longleftrightarrow>
     sm_state m = SIGNAL_READY \<and> sm_direction m = direction_for rg \<and> breakout_confirmed b a m = Inr True"

definition step_ok :: "research_params \<Rightarrow> setup_state \<Rightarrow> regime \<Rightarrow> float64 \<Rightarrow> bar \<Rightarrow> (xau_error + bool) \<times> setup_machine \<Rightarrow> bool" where
  "step_ok p s0 rg a b r \<longleftrightarrow>
     (case r of (Inl _, m') \<Rightarrow> False
      | (Inr f, m') \<Rightarrow> machine_inv p s0 m' \<and> (if f then confirmed rg a b m' else sm_state m' \<noteq> SIGNAL_READY))"

lemma step_okI: "machine_inv p s0 m' \<Longrightarrow> sm_state m' \<noteq> SIGNAL_READY \<Longrightarrow> step_ok p s0 rg a b (Inr False, m')"
  by (simp add: step_ok_def)

lemma step_ok_reset:
  "sm_params m = p \<Longrightarrow> log_path s0 (sm_transitions m) (sm_state m) \<Longrightarrow> step_ok p s0 rg a b (Inr False, reset_setup i r m)"
  by (simp add: step_okI reset_inv)

lemma scanning_step: "machine_inv p s0 m \<Longrightarrow> sm_state m = SCANNING \<Longrightarrow> step_ok p s0 rg a b (step_scanning i rg m)"
  by (auto simp: step_scanning_def step_ok_def machine_inv_def setup_fields_def goto_log split: option.split)

text \<open>The regime guard either resets or hands the machine on.\<close>

lemma regime_guard:
  assumes inv: "machine_inv p s0 m"
    and go: "sm_direction m = direction_for rg \<Longrightarrow> sm_direction m \<noteq> None \<Longrightarrow> step_ok p s0 rg a b (k m)"
  shows "step_ok p s0 rg a b (let (still, m) = regime_still_valid i rg m in if \<not> still then (Inr False, m) else k m)"
proof (cases "direction_for rg = None \<or> direction_for rg \<noteq> sm_direction m")
  case True
  then show ?thesis using inv step_ok_reset [of m p s0] by (simp add: regime_still_valid_def machine_inv_def)
next
  case False
  then show ?thesis using go by (auto simp: regime_still_valid_def)
qed

lemma update_swing_cases:
  assumes "sm_direction m \<noteq> None" "1 \<le> rp_impulse_lookback (sm_params m)" "end_index < int (length bars)"
  obtains "update_swing bars end_index m = (Inr False, m)"
    | e org where "update_swing bars end_index m = (Inr True, m\<lparr>sm_swing_extreme := e, sm_swing_origin := org\<rparr>)"
proof -
  let ?l = "rp_impulse_lookback (sm_params m)"
  from assms(1) obtain d where d: "sm_direction m = Some d" by auto
  have "update_swing bars end_index m = (Inr False, m)
      \<or> (\<exists>e org. update_swing bars end_index m = (Inr True, m\<lparr>sm_swing_extreme := e, sm_swing_origin := org\<rparr>))"
  proof (cases "end_index - ?l + 1 < 0 \<or> end_index < 0")
    case True
    then show ?thesis using d by (simp add: update_swing_def)
  next
    case False
    then have "\<not> length bars \<le> nat (end_index - ?l + 1)" "\<not> ?l \<le> 0" using assms(2,3) by auto
    then show ?thesis using d False by (cases d) (auto simp: update_swing_def Let_def)
  qed
  with that show thesis by blast
qed

lemma armed_step:
  assumes inv: "machine_inv p s0 m" and st: "sm_state m = ARMED" and ok: "params_ok p"
    and i: "0 \<le> i" "i < int (length bars)"
  shows "step_ok p s0 rg a b (step_armed bars i rg a m)"
  unfolding step_armed_def
proof (rule regime_guard [OF inv])
  let ?b = "bars ! nat i"
  assume d: "sm_direction m \<noteq> None"
  have par: "sm_params m = p" and log: "log_path s0 (sm_transitions m) ARMED" and age: "0 \<le> sm_setup_age_bars m"
    using inv st by (auto simp: machine_inv_def setup_fields_def)
  have stay: "step_ok p s0 rg a b (Inr False, m)" using inv st by (simp add: step_okI)
  have begun: "step_ok p s0 rg a b
      (if too_deep n then (Inr False, reset_setup i ''PULLBACK_TOO_DEEP'' n)
       else if structure_lost n then (Inr False, reset_setup i ''STRUCTURE_LOST'' n)
       else (Inr False, goto i PULLBACK_ACTIVE ''PULLBACK_STARTED'' n))"
    if "sm_params n = p" "sm_transitions n = sm_transitions m" "sm_state n = ARMED" "sm_direction n \<noteq> None"
      "sm_pullback_bars n = 1" "0 \<le> sm_setup_age_bars n" for n
    using that log
    by (auto intro!: step_okI simp: machine_inv_def setup_fields_def goto_log reset_log)
  from d obtain c where c: "counter_trend ?b m = Inr c" by (auto simp: counter_trend_def)
  have l: "1 \<le> rp_impulse_lookback (sm_params m)" "i - 1 < int (length bars)"
    using params_ok_periods(8) [OF ok] par i by auto
  show "step_ok p s0 rg a b
    (let b = ?b in case counter_trend b m of Inl e \<Rightarrow> (Inl e, m) | Inr True \<Rightarrow>
       (case update_swing bars (i - 1) m of (Inl e, m) \<Rightarrow> (Inl e, m)
        | (Inr True, m) \<Rightarrow>
           let prev = bars ! nat (i - 1); m = m\<lparr>sm_pullback_bars := 1\<rparr>;
               m = if sm_direction m = Some DIR_LONG
                   then m\<lparr>sm_pullback_extreme := b_low b, sm_breakout_reference := max (b_high b) (b_high prev)\<rparr>
                   else m\<lparr>sm_pullback_extreme := b_high b, sm_breakout_reference := min (b_low b) (b_low prev)\<rparr>;
               m = m\<lparr>sm_depth_atr := compute_depth a m\<rparr>
           in if too_deep m then (Inr False, reset_setup i ''PULLBACK_TOO_DEEP'' m)
              else if structure_lost m then (Inr False, reset_setup i ''STRUCTURE_LOST'' m)
                   else (Inr False, goto i PULLBACK_ACTIVE ''PULLBACK_STARTED'' m)
        | (Inr False, m) \<Rightarrow> (Inr False, m))
     | Inr False \<Rightarrow> (Inr False, m))"
  proof (cases c)
    case True
    show ?thesis
      using d l
    proof (cases rule: update_swing_cases [where end_index = "i - 1" and bars = bars])
      case 1
      then show ?thesis using c True stay by simp
    next
      case (2 e org)
      have ct: "counter_trend ?b m = Inr True" using c True by simp
      show ?thesis
        unfolding Let_def ct 2 prod.case sum.case bool.case
        by (rule begun) (use par st d age in auto)
    qed
  next
    case False
    then show ?thesis using c stay by simp
  qed
qed

lemma extend_pullback_fields [simp]:
  "sm_params (extend_pullback b a m) = sm_params m" "sm_state (extend_pullback b a m) = sm_state m"
  "sm_direction (extend_pullback b a m) = sm_direction m" "sm_transitions (extend_pullback b a m) = sm_transitions m"
  "sm_setup_age_bars (extend_pullback b a m) = sm_setup_age_bars m"
  "sm_pullback_bars (extend_pullback b a m) = sm_pullback_bars m + 1"
  by (simp_all add: extend_pullback_def Let_def)

lemma breakout_confirmed_cong [simp]:
  "breakout_confirmed b a (goto i t r m) = breakout_confirmed b a m"
  "breakout_confirmed b a (m\<lparr>sm_window_bars_left := w\<rparr>) = breakout_confirmed b a m"
  "breakout_confirmed b a (m\<lparr>sm_setup_age_bars := g\<rparr>) = breakout_confirmed b a m"
  "breakout_confirmed b a (m\<lparr>sm_depth_atr := x\<rparr>) = breakout_confirmed b a m"
  by (simp_all add: breakout_confirmed_def Let_def cong: option.case_cong direction.case_cong)

text \<open>An open window either confirms or waits.\<close>

lemma window_opens:
  assumes "sm_params m = p" "log_path s0 (sm_transitions m) BREAKOUT_WINDOW" "sm_state m = BREAKOUT_WINDOW" "pullback_passed m"
    "1 \<le> sm_window_bars_left m" "sm_window_bars_left m \<le> rp_breakout_window_bars p" "0 \<le> sm_setup_age_bars m"
    "sm_direction m = direction_for rg"
  shows "step_ok p s0 rg a b
    (case breakout_confirmed b a m of Inl e \<Rightarrow> (Inl e, m) | Inr True \<Rightarrow> (Inr True, goto i SIGNAL_READY ''BREAKOUT_CONFIRMED'' m)
     | Inr False \<Rightarrow> (Inr False, m))"
proof -
  from assms(4) obtain c where c: "breakout_confirmed b a m = Inr c"
    by (auto simp: pullback_passed_def Let_def breakout_confirmed_def)
  with assms show ?thesis
    by (cases c) (auto simp: step_ok_def confirmed_def machine_inv_def setup_fields_def goto_log)
qed

lemma pullback_step:
  assumes inv: "machine_inv p s0 m" and st: "sm_state m = PULLBACK_ACTIVE" and ok: "params_ok p"
  shows "step_ok p s0 rg a (bars ! nat i) (step_pullback bars i rg a m)"
  unfolding step_pullback_def
proof (rule regime_guard [OF inv])
  let ?b = "bars ! nat i"
  assume dir: "sm_direction m = direction_for rg" and d: "sm_direction m \<noteq> None"
  have par: "sm_params m = p" and log: "log_path s0 (sm_transitions m) PULLBACK_ACTIVE" and age: "0 \<le> sm_setup_age_bars m"
    and pb: "1 \<le> sm_pullback_bars m" "sm_pullback_bars m \<le> max 1 (rp_max_pullback_bars p)" and sl: "\<not> structure_lost m"
    using inv st by (auto simp: machine_inv_def setup_fields_def)
  from d obtain c where c: "counter_trend ?b m = Inr c" by (auto simp: counter_trend_def)
  have reset: "step_ok p s0 rg a ?b (Inr False, reset_setup i r n)"
    if "sm_params n = p" "sm_transitions n = sm_transitions m" "sm_state n = PULLBACK_ACTIVE" for n r
    using that log by (simp add: step_ok_reset)
  have longer: "step_ok p s0 rg a ?b
      (let m = extend_pullback ?b a m
       in if rp_max_pullback_bars p < sm_pullback_bars m then (Inr False, reset_setup i ''PULLBACK_TOO_LONG'' m)
          else if too_deep m then (Inr False, reset_setup i ''PULLBACK_TOO_DEEP'' m)
          else if structure_lost m then (Inr False, reset_setup i ''STRUCTURE_LOST'' m)
          else (Inr False, m))"
    using par st log age pb d reset
    by (auto simp: Let_def intro!: step_okI simp: machine_inv_def setup_fields_def)
  define n where "n = m\<lparr>sm_depth_atr := compute_depth a m, sm_window_bars_left := rp_breakout_window_bars p\<rparr>"
  have complete: "step_ok p s0 rg a ?b
      (let m = goto i BREAKOUT_WINDOW ''PULLBACK_COMPLETE'' n
       in case breakout_confirmed ?b a m of Inl e \<Rightarrow> (Inl e, m)
          | Inr True \<Rightarrow> (Inr True, goto i SIGNAL_READY ''BREAKOUT_CONFIRMED'' m) | Inr False \<Rightarrow> (Inr False, m))"
    if dep: "compute_depth a m = Some dd" "\<not> dd < rp_min_pullback_depth_atr p" "\<not> rp_max_pullback_depth_atr p < dd"
      and min: "\<not> sm_pullback_bars m < rp_min_pullback_bars p" for dd
    unfolding Let_def
  proof (rule window_opens)
    show "pullback_passed (goto i BREAKOUT_WINDOW ''PULLBACK_COMPLETE'' n)"
      using par pb d sl dep min by (auto simp: n_def pullback_passed_def Let_def too_deep_def structure_lost_def)
    show "log_path s0 (sm_transitions (goto i BREAKOUT_WINDOW ''PULLBACK_COMPLETE'' n)) BREAKOUT_WINDOW"
      by (rule goto_log) (use log st in \<open>simp_all add: n_def\<close>)
  qed (use par age dir params_ok_periods(10) [OF ok] in \<open>simp_all add: n_def\<close>)
  show "step_ok p s0 rg a ?b
    (let p = sm_params m; b = ?b in case counter_trend b m of
       Inl e \<Rightarrow> (Inl e, m)
     | Inr True \<Rightarrow>
         let m = extend_pullback b a m
         in if rp_max_pullback_bars p < sm_pullback_bars m then (Inr False, reset_setup i ''PULLBACK_TOO_LONG'' m)
            else if too_deep m then (Inr False, reset_setup i ''PULLBACK_TOO_DEEP'' m)
            else if structure_lost m then (Inr False, reset_setup i ''STRUCTURE_LOST'' m)
            else (Inr False, m)
     | Inr False \<Rightarrow>
         if sm_pullback_bars m < rp_min_pullback_bars p then (Inr False, reset_setup i ''PULLBACK_TOO_SHORT'' m)
         else let m = m\<lparr>sm_depth_atr := compute_depth a m\<rparr>
         in case sm_depth_atr m of None \<Rightarrow> (Inr False, reset_setup i ''ATR_INVALID'' m)
            | Some d \<Rightarrow>
                if d < rp_min_pullback_depth_atr p then (Inr False, reset_setup i ''PULLBACK_TOO_SHALLOW'' m)
                else if rp_max_pullback_depth_atr p < d then (Inr False, reset_setup i ''PULLBACK_TOO_DEEP'' m)
                else let m = goto i BREAKOUT_WINDOW ''PULLBACK_COMPLETE'' (m\<lparr>sm_window_bars_left := rp_breakout_window_bars p\<rparr>)
                in case breakout_confirmed b a m of Inl e \<Rightarrow> (Inl e, m)
                   | Inr True \<Rightarrow> (Inr True, goto i SIGNAL_READY ''BREAKOUT_CONFIRMED'' m)
                   | Inr False \<Rightarrow> (Inr False, m))"
  proof (cases c)
    case True
    with c longer par show ?thesis by (simp add: Let_def)
  next
    case False
    with c complete par st reset show ?thesis by (auto simp: Let_def n_def split: option.split)
  qed
qed

lemma window_step:
  assumes inv: "machine_inv p s0 m" and st: "sm_state m = BREAKOUT_WINDOW"
  shows "step_ok p s0 rg a b (step_window i rg a b m)"
  unfolding step_window_def
proof (rule regime_guard [OF inv])
  assume dir: "sm_direction m = direction_for rg" and d: "sm_direction m \<noteq> None"
  from d obtain c where c: "breakout_confirmed b a m = Inr c" by (auto simp: breakout_confirmed_def Let_def)
  show "step_ok p s0 rg a b
    (case breakout_confirmed b a m of Inl e \<Rightarrow> (Inl e, m) | Inr True \<Rightarrow> (Inr True, goto i SIGNAL_READY ''BREAKOUT_CONFIRMED'' m)
     | Inr False \<Rightarrow>
         let m = m\<lparr>sm_window_bars_left := sm_window_bars_left m - 1\<rparr>
         in if sm_window_bars_left m \<le> 0 then (Inr False, reset_setup i ''BREAKOUT_WINDOW_EXPIRED'' m)
            else if rp_max_setup_bars (sm_params m) \<le> sm_setup_age_bars m
                 then (Inr False, reset_setup i ''SETUP_LIFETIME_EXCEEDED'' m) else (Inr False, m))"
    using inv st c dir
    by (cases c) (auto simp: Let_def step_ok_def confirmed_def machine_inv_def setup_fields_def goto_log reset_log)
qed

text \<open>One closed bar.\<close>

lemma aged_inv: "machine_inv p s0 m \<Longrightarrow> sm_state m \<noteq> SCANNING \<Longrightarrow> machine_inv p s0 (m\<lparr>sm_setup_age_bars := sm_setup_age_bars m + 1\<rparr>)"
  by (cases "sm_state m") (auto simp: machine_inv_def setup_fields_def)

lemma on_closed_bar_ok:
  assumes inv: "machine_inv p s0 m" and ok: "params_ok p"
  obtains f m' where "on_closed_bar bars i rg atr_v m = (Inr f, m')" "machine_inv p s0 m'"
    "f \<longrightarrow> (\<exists>a. atr_v = Some a \<and> 0 < a \<and> sm_state m \<noteq> SIGNAL_READY \<and> confirmed rg a (bars ! nat i) m')"
    "\<not> f \<longrightarrow> sm_state m' = SIGNAL_READY \<longrightarrow> sm_state m = SIGNAL_READY"
proof (cases "(sm_state m = ORDER_SUBMITTED \<or> sm_state m = IN_POSITION \<or> i < 0 \<or> int (length bars) \<le> i)
    \<or> (case atr_v of None \<Rightarrow> True | Some a \<Rightarrow> a \<le> 0)")
  case True
  have "log_path s0 (sm_transitions m) (sm_state m)" "sm_params m = p" using inv by (auto simp: machine_inv_def)
  then have "machine_inv p s0 (reset_setup i ''ATR_INVALID'' m)" by (simp add: reset_inv)
  moreover have "on_closed_bar bars i rg atr_v m = (Inr False, m)
      \<or> on_closed_bar bars i rg atr_v m = (Inr False, reset_setup i ''ATR_INVALID'' m)"
    using True by (auto simp: on_closed_bar_def split: option.splits)
  ultimately show ?thesis
    by (elim disjE) (rule that, assumption, use inv in simp_all)+
next
  case False
  then obtain a where a: "atr_v = Some a" "0 < a" and i: "0 \<le> i" "i < int (length bars)"
    and st: "sm_state m \<noteq> ORDER_SUBMITTED" "sm_state m \<noteq> IN_POSITION"
    by (auto split: option.splits)
  define n where "n = (if sm_state m \<noteq> SCANNING then m\<lparr>sm_setup_age_bars := sm_setup_age_bars m + 1\<rparr> else m)"
  have n: "machine_inv p s0 n" "sm_state n = sm_state m" using inv aged_inv by (auto simp: n_def)
  define r where "r = on_closed_bar bars i rg atr_v m"
  have r: "r = (case sm_state n of SCANNING \<Rightarrow> step_scanning i rg n | ARMED \<Rightarrow> step_armed bars i rg a n
      | PULLBACK_ACTIVE \<Rightarrow> step_pullback bars i rg a n | BREAKOUT_WINDOW \<Rightarrow> step_window i rg a (bars ! nat i) n
      | _ \<Rightarrow> (Inr False, n))"
    using a i st by (simp add: r_def on_closed_bar_def Let_def n_def [symmetric] cong: setup_state.case_cong)
  show ?thesis
  proof (cases "sm_state m = SIGNAL_READY")
    case True
    with r n that [of False n] show ?thesis by (simp add: r_def)
  next
    case False
    have "step_ok p s0 rg a (bars ! nat i) r"
      using n st False r scanning_step [OF n(1)] armed_step [OF n(1) _ ok i] pullback_step [OF n(1) _ ok] window_step [OF n(1)]
      by (cases "sm_state m") auto
    then obtain f m' where "r = (Inr f, m')" "machine_inv p s0 m'" "if f then confirmed rg a (bars ! nat i) m' else sm_state m' \<noteq> SIGNAL_READY"
      by (auto simp: step_ok_def split: prod.splits sum.splits)
    then show ?thesis using that [of f m'] a False by (auto simp: r_def split: if_splits)
  qed
qed

subsection \<open>Runs\<close>

inductive machine_reach :: "setup_machine \<Rightarrow> setup_machine \<Rightarrow> bool" for m0 where
  start: "machine_reach m0 m0"
| closed_bar: "machine_reach m0 m \<Longrightarrow> machine_reach m0 (snd (on_closed_bar bars i rg atr_v m))"
| submitted: "machine_reach m0 m \<Longrightarrow> sm_state m = SIGNAL_READY \<Longrightarrow> machine_reach m0 (on_order_submitted i m)"
| filled: "machine_reach m0 m \<Longrightarrow> sm_state m = ORDER_SUBMITTED \<Longrightarrow> machine_reach m0 (on_filled i m)"
| rejected: "machine_reach m0 m \<Longrightarrow> sm_state m = ORDER_SUBMITTED \<Longrightarrow> machine_reach m0 (on_rejected i r m)"
| discarded: "machine_reach m0 m \<Longrightarrow> sm_state m = SIGNAL_READY \<Longrightarrow> machine_reach m0 (on_signal_discarded i r m)"
| position_closed: "machine_reach m0 m \<Longrightarrow> sm_state m = IN_POSITION \<Longrightarrow> machine_reach m0 (on_position_closed i r m)"

definition start_machine :: "research_params \<Rightarrow> direction option \<Rightarrow> setup_machine" where
  "start_machine p recovered =
     (case recovered of None \<Rightarrow> new_machine p | Some d \<Rightarrow> adopt_recovered_position d (new_machine p))"

lemma start_inv: "machine_inv p (sm_state (start_machine p recovered)) (start_machine p recovered)"
  by (auto simp: start_machine_def machine_inv_def setup_fields_def new_machine_def adopt_recovered_position_def cleared_def
      split: option.split)

lemma callback_inv:
  assumes "machine_inv p s0 m"
  shows "machine_inv p s0 (reset_setup i r m)"
    and "sm_state m = SIGNAL_READY \<Longrightarrow> machine_inv p s0 (on_order_submitted i m)"
    and "sm_state m = ORDER_SUBMITTED \<Longrightarrow> machine_inv p s0 (on_filled i m)"
  using assms
  by (auto simp: machine_inv_def setup_fields_def reset_log goto_log on_order_submitted_def on_filled_def pullback_passed_def Let_def)

lemma reach_inv:
  assumes "params_ok p" "machine_reach (start_machine p recovered) m"
  shows "machine_inv p (sm_state (start_machine p recovered)) m"
  using assms(2)
proof induction
  case (closed_bar m bars i rg atr_v)
  from closed_bar.IH assms(1) show ?case
    by (rule on_closed_bar_ok [where bars = bars and i = i and rg = rg and atr_v = atr_v]) simp
qed (auto simp: start_inv callback_inv on_rejected_def on_signal_discarded_def on_position_closed_def)


text \<open>
  C35: on validated parameters a closed bar is processed without an exception. It reports a signal exactly when it moves the machine to
  \<open>SIGNAL_READY\<close>; then the volatility reading is positive, the regime trends in the direction of the setup, the bar closed beyond the
  structure level by the buffer, and the depth of the pullback lies within its limits.
\<close>

theorem signal_means_confirmed_breakout:
  assumes "params_ok p" and "machine_reach (start_machine p recovered) m"
    and "on_closed_bar bars i rg atr_v m = (r, m')"
  shows "\<exists>f. r = Inr f \<and> (f \<longleftrightarrow> sm_state m' = SIGNAL_READY \<and> sm_state m \<noteq> SIGNAL_READY) \<and>
    (f \<longrightarrow> (\<exists>a d depth. atr_v = Some a \<and> 0 < a \<and> sm_direction m' = Some d \<and> sm_depth_atr m' = Some depth
        \<and> rp_min_pullback_depth_atr p \<le> depth \<and> depth \<le> rp_max_pullback_depth_atr p
        \<and> (case d of
             DIR_LONG \<Rightarrow> rg = RG_TREND_UP
               \<and> fadd (sm_breakout_reference m') (fmul (rp_breakout_buffer_atr p) a) < b_close (bars ! nat i)
           | DIR_SHORT \<Rightarrow> rg = RG_TREND_DOWN
               \<and> b_close (bars ! nat i) < fsub (sm_breakout_reference m') (fmul (rp_breakout_buffer_atr p) a))))"
proof -
  obtain f n where n: "on_closed_bar bars i rg atr_v m = (Inr f, n)" "machine_inv p (sm_state (start_machine p recovered)) n"
    "f \<longrightarrow> (\<exists>a. atr_v = Some a \<and> 0 < a \<and> sm_state m \<noteq> SIGNAL_READY \<and> confirmed rg a (bars ! nat i) n)"
    "\<not> f \<longrightarrow> sm_state n = SIGNAL_READY \<longrightarrow> sm_state m = SIGNAL_READY"
    by (rule on_closed_bar_ok [OF reach_inv [OF assms(1,2)] assms(1), of bars i rg atr_v])
  with assms(3) have f: "r = Inr f" "n = m'" by simp_all
  note f = f(1) n(2-4) [unfolded f(2)]
  have detail: "\<exists>a d depth. atr_v = Some a \<and> 0 < a \<and> sm_direction m' = Some d \<and> sm_depth_atr m' = Some depth
        \<and> rp_min_pullback_depth_atr p \<le> depth \<and> depth \<le> rp_max_pullback_depth_atr p
        \<and> (case d of
             DIR_LONG \<Rightarrow> rg = RG_TREND_UP
               \<and> fadd (sm_breakout_reference m') (fmul (rp_breakout_buffer_atr p) a) < b_close (bars ! nat i)
           | DIR_SHORT \<Rightarrow> rg = RG_TREND_DOWN
               \<and> b_close (bars ! nat i) < fsub (sm_breakout_reference m') (fmul (rp_breakout_buffer_atr p) a))" if "f"
  proof -
    from f(3) that obtain a where a: "atr_v = Some a" "0 < a" and c: "confirmed rg a (bars ! nat i) m'" by blast
    have q: "pullback_passed m'" "sm_params m' = p" using f(2) c by (auto simp: machine_inv_def setup_fields_def confirmed_def)
    then obtain depth where depth: "sm_depth_atr m' = Some depth" "rp_min_pullback_depth_atr p \<le> depth" "depth \<le> rp_max_pullback_depth_atr p"
      by (auto simp: pullback_passed_def Let_def too_deep_def)
    from q obtain d where d: "sm_direction m' = Some d" by (auto simp: pullback_passed_def Let_def)
    have "case d of
             DIR_LONG \<Rightarrow> rg = RG_TREND_UP
               \<and> fadd (sm_breakout_reference m') (fmul (rp_breakout_buffer_atr p) a) < b_close (bars ! nat i)
           | DIR_SHORT \<Rightarrow> rg = RG_TREND_DOWN
               \<and> b_close (bars ! nat i) < fsub (sm_breakout_reference m') (fmul (rp_breakout_buffer_atr p) a)"
      using c d q by (cases rg; cases d) (auto simp: confirmed_def breakout_confirmed_def Let_def)
    with a depth d show ?thesis by blast
  qed
  have iff: "f \<longleftrightarrow> sm_state m' = SIGNAL_READY \<and> sm_state m \<noteq> SIGNAL_READY"
    using f(3,4) by (auto simp: confirmed_def)
  show ?thesis
    by (intro exI [of _ f] conjI impI) (rule f(1), rule iff, rule detail)
qed

subsection \<open>An open setup is resolved\<close>

definition bars_to_go :: "setup_machine \<Rightarrow> nat" where
  "bars_to_go m =
     (if sm_state m = PULLBACK_ACTIVE
      then nat (max 1 (rp_max_pullback_bars (sm_params m)) - sm_pullback_bars m + 1 + rp_breakout_window_bars (sm_params m))
      else nat (sm_window_bars_left m))"

fun feed :: "setup_machine \<Rightarrow> (bar list \<times> int \<times> regime \<times> float64 option) list \<Rightarrow> setup_machine" where
  "feed m [] = m"
| "feed m ((bars, i, rg, atr_v) # xs) = feed (snd (on_closed_bar bars i rg atr_v m)) xs"

definition progress :: "setup_machine \<Rightarrow> setup_machine \<Rightarrow> bool" where
  "progress m m' \<longleftrightarrow> sm_state m' \<in> {SCANNING, SIGNAL_READY}
     \<or> sm_state m' \<in> {PULLBACK_ACTIVE, BREAKOUT_WINDOW} \<and> bars_to_go m' < bars_to_go m"

lemma progress_reset [simp]: "progress m (reset_setup i r n)"
  by (simp add: progress_def)

lemma pullback_progress:
  assumes inv: "machine_inv p s0 m" and st: "sm_state m = PULLBACK_ACTIVE" and ok: "params_ok p"
  shows "progress m (snd (step_pullback bars i rg a m))"
proof (cases "direction_for rg = None \<or> direction_for rg \<noteq> sm_direction m")
  case True
  then show ?thesis by (simp add: step_pullback_def regime_still_valid_def)
next
  case False
  then obtain d where d: "sm_direction m = Some d" "direction_for rg = Some d" by (metis not_None_eq)
  obtain c where c: "counter_trend (bars ! nat i) m = Inr c" using d by (simp add: counter_trend_def)
  obtain e where e: "breakout_confirmed (bars ! nat i) a m = Inr e"
    using d by (simp add: breakout_confirmed_def Let_def)
  have par: "sm_params m = p" and pb: "1 \<le> sm_pullback_bars m" "sm_pullback_bars m \<le> max 1 (rp_max_pullback_bars p)"
    using inv st by (auto simp: machine_inv_def setup_fields_def)
  have w: "1 \<le> rp_breakout_window_bars p" using ok by (rule params_ok_periods)
  show ?thesis
  proof (cases c)
    case True
    have "progress m (extend_pullback (bars ! nat i) a m)"
      if "\<not> rp_max_pullback_bars p < sm_pullback_bars m + 1"
      using that st par pb w by (simp add: progress_def bars_to_go_def)
    then show ?thesis
      using True c d par by (simp add: step_pullback_def regime_still_valid_def Let_def)
  next
    case False
    have "progress m (goto i BREAKOUT_WINDOW r (m\<lparr>sm_depth_atr := x, sm_window_bars_left := rp_breakout_window_bars p\<rparr>))" for r x
      using st par pb w by (simp add: progress_def bars_to_go_def)
    moreover have "progress m (goto i SIGNAL_READY r n)" for r n by (simp add: progress_def)
    ultimately show ?thesis
      using False c d e par by (simp add: step_pullback_def regime_still_valid_def Let_def split: option.split bool.split)
  qed
qed

lemma window_progress:
  assumes inv: "machine_inv p s0 m" and st: "sm_state m = BREAKOUT_WINDOW"
  shows "progress m (snd (step_window i rg a b m))"
proof (cases "direction_for rg = None \<or> direction_for rg \<noteq> sm_direction m")
  case True
  then show ?thesis by (simp add: step_window_def regime_still_valid_def)
next
  case False
  then obtain d where d: "sm_direction m = Some d" "direction_for rg = Some d" by (metis not_None_eq)
  obtain e where e: "breakout_confirmed b a m = Inr e" using d by (simp add: breakout_confirmed_def Let_def)
  have "progress m (goto i SIGNAL_READY r m)" for r by (simp add: progress_def)
  moreover have "progress m (m\<lparr>sm_window_bars_left := sm_window_bars_left m - 1\<rparr>)" if "\<not> sm_window_bars_left m - 1 \<le> 0"
    using st that by (simp add: progress_def bars_to_go_def)
  ultimately show ?thesis
    using d e by (simp add: step_window_def regime_still_valid_def Let_def split: bool.split)
qed

lemma bar_progress:
  assumes inv: "machine_inv p s0 m" and st: "sm_state m \<in> {PULLBACK_ACTIVE, BREAKOUT_WINDOW}" and ok: "params_ok p"
    and i: "0 \<le> i" "i < int (length bars)"
  shows "progress m (snd (on_closed_bar bars i rg atr_v m))"
proof -
  let ?n = "m\<lparr>sm_setup_age_bars := sm_setup_age_bars m + 1\<rparr>"
  have n: "machine_inv p s0 ?n" "sm_state ?n = sm_state m" "bars_to_go ?n = bars_to_go m"
    using inv aged_inv st by (auto simp: bars_to_go_def)
  then have "progress ?n n' \<longleftrightarrow> progress m n'" for n' by (simp add: progress_def)
  then show ?thesis
    using st i pullback_progress [OF n(1) _ ok] window_progress [OF n(1)]
    by (auto simp: on_closed_bar_def Let_def split: option.split)
qed

lemma bars_to_go_pos:
  "machine_inv p s0 m \<Longrightarrow> params_ok p \<Longrightarrow> sm_state m \<in> {PULLBACK_ACTIVE, BREAKOUT_WINDOW} \<Longrightarrow> 1 \<le> bars_to_go m"
  using params_ok_periods(10) [of p] by (auto simp: bars_to_go_def machine_inv_def setup_fields_def)

lemma feed_resolves:
  assumes "machine_inv p s0 m" "params_ok p" "sm_state m \<in> {PULLBACK_ACTIVE, BREAKOUT_WINDOW}" "bars_to_go m \<le> length xs"
    "list_all (\<lambda>(bars, i, _, _). 0 \<le> i \<and> i < int (length bars)) xs"
  shows "\<exists>k \<le> bars_to_go m. sm_state (feed m (take k xs)) \<in> {SCANNING, SIGNAL_READY}"
  using assms
proof (induction xs arbitrary: m)
  case Nil
  then show ?case using bars_to_go_pos [of p s0 m] by auto
next
  case (Cons x xs)
  obtain bars i rg atr_v where x: "x = (bars, i, rg, atr_v)" by (cases x)
  let ?m = "snd (on_closed_bar bars i rg atr_v m)"
  have prog: "progress m ?m" using Cons.prems x by (intro bar_progress) auto
  have inv: "machine_inv p s0 ?m"
    by (rule on_closed_bar_ok [OF Cons.prems(1,2), of bars i rg atr_v]) simp
  show ?case
  proof (cases "sm_state ?m \<in> {SCANNING, SIGNAL_READY}")
    case True
    have "1 \<le> bars_to_go m" using Cons.prems(1-3) by (rule bars_to_go_pos)
    with True x show ?thesis by (intro exI [of _ 1]) simp
  next
    case False
    with prog have st: "sm_state ?m \<in> {PULLBACK_ACTIVE, BREAKOUT_WINDOW}" "bars_to_go ?m < bars_to_go m" by (auto simp: progress_def)
    with Cons.IH [OF inv Cons.prems(2)] Cons.prems(4,5) obtain k where "k \<le> bars_to_go ?m" "sm_state (feed ?m (take k xs)) \<in> {SCANNING, SIGNAL_READY}"
      by auto
    with st(2) x show ?thesis by (intro exI [of _ "Suc k"]) auto
  qed
qed

text \<open>
  C36: an open setup does not linger. From every reachable machine in a pullback or a breakout window, whatever bars, regimes and
  volatility readings follow, after at most \<open>max_pullback_bars\<close> plus \<open>breakout_window_bars\<close> closed bars the machine has either
  reported a signal or returned to scanning.
\<close>

theorem open_setup_is_resolved:
  assumes "params_ok p" and "machine_reach (start_machine p recovered) m"
    and "sm_state m \<in> {PULLBACK_ACTIVE, BREAKOUT_WINDOW}"
    and "list_all (\<lambda>(bars, i, _, _). 0 \<le> i \<and> i < int (length bars)) xs"
    and "max 1 (rp_max_pullback_bars p) + rp_breakout_window_bars p \<le> int (length xs)"
  shows "\<exists>k. int k \<le> max 1 (rp_max_pullback_bars p) + rp_breakout_window_bars p
    \<and> sm_state (feed m (take k xs)) \<in> {SCANNING, SIGNAL_READY}"
proof -
  have inv: "machine_inv p (sm_state (start_machine p recovered)) m" using assms(1,2) by (rule reach_inv)
  have go: "int (bars_to_go m) \<le> max 1 (rp_max_pullback_bars p) + rp_breakout_window_bars p"
    using inv assms(3) params_ok_periods(10) [OF assms(1)] by (auto simp: machine_inv_def setup_fields_def bars_to_go_def)
  from feed_resolves [OF inv assms(1,3) _ assms(4)] go assms(5) obtain k
    where "k \<le> bars_to_go m" "sm_state (feed m (take k xs)) \<in> {SCANNING, SIGNAL_READY}"
    by auto
  with go show ?thesis by (intro exI [of _ k]) auto
qed

subsection \<open>Witnesses\<close>

definition example_params :: research_params where
  "example_params = \<lparr>rp_ema_fast_period = 1, rp_ema_slow_period = 2, rp_adx_period = 1, rp_adx_trend_min = 20, rp_adx_range_max = 18,
     rp_spread_trend_min = 1 / 4, rp_slope_trend_min = 1 / 32, rp_slope_lookback = 1, rp_er_window = 1, rp_er_trend_min = 1 / 4,
     rp_atr_period_h1 = 1, rp_atr_period_m15 = 1, rp_atr_pct_window = 1, rp_atr_pct_high = 1, rp_atr_pct_floor = 0,
     rp_impulse_lookback = 1, rp_min_pullback_bars = 1, rp_max_pullback_bars = 4, rp_min_pullback_depth_atr = 1 / 4,
     rp_max_pullback_depth_atr = 2, rp_breakout_window_bars = 3, rp_breakout_buffer_atr = 1 / 8, rp_max_setup_bars = 12,
     rp_entry_score_threshold = 5, rp_score_slope_min = 1 / 32, rp_sl_atr_mult = 2, rp_tp_r_multiple = 0, rp_trail_atr_mult = 2,
     rp_trail_activate_r = 1, rp_be_trigger_r = 0, rp_max_bars_in_trade = 48\<rparr>"

definition example_bar :: "int \<Rightarrow> float64 \<Rightarrow> float64 \<Rightarrow> float64 \<Rightarrow> float64 \<Rightarrow> bar" where
  "example_bar t op hi lo cl = \<lparr>b_time = t, b_open = op, b_high = hi, b_low = lo, b_close = cl, b_volume = 100, b_spread_points = 2\<rparr>"

definition example_bars :: "bar list" where
  "example_bars = [example_bar 0 100 101 99 (201/2), example_bar 1 (201/2) (403/4) 100 (401/4), example_bar 2 (401/4) 102 (401/4) (407/4)]"

definition example_pullback :: setup_machine where
  "example_pullback = snd (on_closed_bar example_bars 1 RG_TREND_UP (Some 1)
     (snd (on_closed_bar example_bars 0 RG_TREND_UP (Some 1) (start_machine example_params None))))"

lemma example_params_ok: "params_ok example_params"
  by (simp add: params_ok_def validate_research_def example_params_def)

lemma example_pullback_reach: "machine_reach (start_machine example_params None) example_pullback"
  unfolding example_pullback_def by (intro machine_reach.intros)

lemma example_pullback_state: "sm_state example_pullback = PULLBACK_ACTIVE"
  by code_simp


theorem signal_means_confirmed_breakout_witness:
  "\<exists>a. fadd (sm_breakout_reference (snd (on_closed_bar example_bars 2 RG_TREND_UP (Some 1) example_pullback))) (fmul (1 / 8) a)
     < b_close (example_bars ! 2) \<and> 0 < a"
proof -
  obtain r m' where r: "on_closed_bar example_bars 2 RG_TREND_UP (Some 1) example_pullback = (r, m')" by fastforce
  have st: "sm_state m' = SIGNAL_READY" "sm_direction m' = Some DIR_LONG"
  proof -
    have "sm_state (snd (on_closed_bar example_bars 2 RG_TREND_UP (Some 1) example_pullback)) = SIGNAL_READY"
      "sm_direction (snd (on_closed_bar example_bars 2 RG_TREND_UP (Some 1) example_pullback)) = Some DIR_LONG"
      by code_simp+
    with r show "sm_state m' = SIGNAL_READY" "sm_direction m' = Some DIR_LONG" by simp_all
  qed
  from signal_means_confirmed_breakout [OF example_params_ok example_pullback_reach r] st example_pullback_state r show ?thesis
    by (auto simp: example_params_def)
qed

theorem open_setup_is_resolved_witness:
  "\<exists>k. int k \<le> 7 \<and> sm_state (feed example_pullback (take k (replicate 7 (example_bars, 1, RG_TREND_UP, Some 1)))) \<in> {SCANNING, SIGNAL_READY}"
  using open_setup_is_resolved [OF example_params_ok example_pullback_reach, of "replicate 7 (example_bars, 1, RG_TREND_UP, Some 1)"]
    example_pullback_state
  by (simp add: example_params_def example_bars_def list_all_length)

end
