(* ===== verification/Xau_Risk.thy ===== *)
theory Xau_Risk
  imports Xau_Core
begin

text \<open>
  What decides whether a confirmed breakout of the gold strategy becomes an order, below \<^verbatim>\<open>research/strategies/xau_rpb\<close>: the account
  limits (\<^verbatim>\<open>risk_limits.py\<close>), position sizing (\<^verbatim>\<open>sizing.py\<close>), the score (\<^verbatim>\<open>scoring.py\<close>), session filter (\<^verbatim>\<open>sessions.py\<close>) and news
  blackout (\<^verbatim>\<open>news.py\<close>).

  The calendar is Python's \<^verbatim>\<open>datetime\<close>: a naive broker time in microseconds since 1970, its ordinal day, year, month and day. The pair
  of ISO year and week identifies a week that starts on Monday; it is kept as the number of that week. The time zone database is a
  parameter: the offset of London, New York and Tokyo at an instant.
\<close>

subsection \<open>Dates\<close>

definition to_ordinal :: "instant \<Rightarrow> int" where
  "to_ordinal t = t div day_micros + 719163"

definition iso_week :: "instant \<Rightarrow> int" where
  "iso_week t = (to_ordinal t - 1) div 7"

definition is_leap :: "int \<Rightarrow> bool" where
  "is_leap y \<longleftrightarrow> y mod 4 = 0 \<and> (y mod 100 \<noteq> 0 \<or> y mod 400 = 0)"

definition days_before_year :: "int \<Rightarrow> int" where
  "days_before_year y = (let z = y - 1 in z * 365 + z div 4 - z div 100 + z div 400)"

definition month_days :: "int list" where
  "month_days = [0, 31, 59, 90, 120, 151, 181, 212, 243, 273, 304, 334]"

definition days_before_month :: "int \<Rightarrow> int \<Rightarrow> int" where
  "days_before_month y m = month_days ! nat (m - 1) + (if 2 < m \<and> is_leap y then 1 else 0)"

definition ymd_to_ordinal :: "int \<Rightarrow> int \<Rightarrow> int \<Rightarrow> int" where
  "ymd_to_ordinal y m d = days_before_year y + days_before_month y m + d"

definition ordinal_to_ymd :: "int \<Rightarrow> int \<times> int \<times> int" where
  "ordinal_to_ymd ordinal =
     (let n = ordinal - 1;
          n400 = n div 146097; n = n mod 146097;
          n100 = n div 36524; n = n mod 36524;
          n4 = n div 1461; n = n mod 1461;
          n1 = n div 365; n = n mod 365;
          year = n400 * 400 + 1 + n100 * 100 + n4 * 4 + n1
      in if n1 = 4 \<or> n100 = 4 then (year - 1, 12, 31)
         else let guess = (n + 50) div 32;
                  month = (if n < days_before_month year guess then guess - 1 else guess)
              in (year, month, n - days_before_month year month + 1))"

definition year_of :: "instant \<Rightarrow> int" where
  "year_of t = fst (ordinal_to_ymd (to_ordinal t))"

subsection \<open>Account limits\<close>

record risk_state =
  ks_day_start_equity :: float64
  ks_week_start_equity :: float64
  ks_peak_equity :: float64
  ks_current_day :: "int option"
  ks_current_week :: "int option"
  ks_current_year :: "int option"
  ks_hard_kill_active :: bool
  ks_soft_dd_active :: bool
  ks_daily_stop_hit :: bool
  ks_weekly_stop_hit :: bool
  ks_safe_mode :: bool
  ks_safe_mode_reason :: string

definition new_risk_state :: risk_state where
  "new_risk_state = \<lparr>ks_day_start_equity = 0, ks_week_start_equity = 0, ks_peak_equity = 0, ks_current_day = None,
     ks_current_week = None, ks_current_year = None, ks_hard_kill_active = False, ks_soft_dd_active = False,
     ks_daily_stop_hit = False, ks_weekly_stop_hit = False, ks_safe_mode = False, ks_safe_mode_reason = []\<rparr>"

definition loss_pct :: "float64 \<Rightarrow> float64 \<Rightarrow> float64" where
  "loss_pct ref equity = fmul (fdiv (fsub ref equity) ref) 100"

definition evaluate_limits :: "risk_policy_params \<Rightarrow> float64 \<Rightarrow> risk_state \<Rightarrow> risk_state" where
  "evaluate_limits p equity s =
     (let s = (if 0 < ks_day_start_equity s \<and> kp_daily_loss_stop_pct p \<le> loss_pct (ks_day_start_equity s) equity
               then s\<lparr>ks_daily_stop_hit := True\<rparr> else s);
          s = (if 0 < ks_week_start_equity s \<and> kp_weekly_loss_stop_pct p \<le> loss_pct (ks_week_start_equity s) equity
               then s\<lparr>ks_weekly_stop_hit := True\<rparr> else s)
      in if 0 < ks_peak_equity s
         then let equity_dd = loss_pct (ks_peak_equity s) equity;
                  s = s\<lparr>ks_soft_dd_active := kp_soft_dd_pct p \<le> equity_dd\<rparr>
              in if kp_hard_dd_pct p \<le> equity_dd then s\<lparr>ks_hard_kill_active := True\<rparr> else s
         else s)"

definition roll_day :: "instant \<Rightarrow> float64 \<Rightarrow> risk_state \<Rightarrow> risk_state" where
  "roll_day moment equity s =
     (if ks_current_day s \<noteq> Some (to_ordinal moment)
      then s\<lparr>ks_current_day := Some (to_ordinal moment), ks_day_start_equity := equity, ks_daily_stop_hit := False\<rparr> else s)"

definition roll_week :: "instant \<Rightarrow> float64 \<Rightarrow> risk_state \<Rightarrow> risk_state" where
  "roll_week moment equity s =
     (if ks_current_week s \<noteq> Some (iso_week moment)
      then s\<lparr>ks_current_week := Some (iso_week moment), ks_week_start_equity := equity, ks_weekly_stop_hit := False\<rparr> else s)"

definition roll_year :: "risk_policy_params \<Rightarrow> instant \<Rightarrow> float64 \<Rightarrow> risk_state \<Rightarrow> risk_state" where
  "roll_year p moment equity s =
     (if kp_research_auto_reset_hard_kill p \<and> ks_hard_kill_active s \<and> ks_current_year s \<noteq> Some (year_of moment)
      then s\<lparr>ks_hard_kill_active := False, ks_peak_equity := equity\<rparr> else s)\<lparr>ks_current_year := Some (year_of moment)\<rparr>"

definition observe :: "risk_policy_params \<Rightarrow> instant \<Rightarrow> float64 \<Rightarrow> risk_state \<Rightarrow> risk_state" where
  "observe p moment equity s =
     (let s = roll_year p moment equity (roll_week moment equity (roll_day moment equity s));
          s = (if ks_peak_equity s < equity then s\<lparr>ks_peak_equity := equity\<rparr> else s)
      in evaluate_limits p equity s)"

definition entry_block_reason :: "risk_state \<Rightarrow> reject_reason option" where
  "entry_block_reason s =
     (if ks_safe_mode s then Some SAFE_MODE_BLOCK
      else if ks_hard_kill_active s then Some HARD_DRAWDOWN_KILL
      else if ks_weekly_stop_hit s then Some WEEKLY_LOSS_STOP
      else if ks_daily_stop_hit s then Some DAILY_LOSS_STOP
      else None)"

definition allows_new_entry :: "risk_state \<Rightarrow> bool" where
  "allows_new_entry s \<longleftrightarrow> entry_block_reason s = None"

definition effective_risk_pct :: "risk_policy_params \<Rightarrow> risk_state \<Rightarrow> float64" where
  "effective_risk_pct p s =
     (if ks_soft_dd_active s then fmul (kp_risk_pct p) (kp_soft_dd_risk_multiplier p) else kp_risk_pct p)"

definition enter_safe_mode_x :: "string \<Rightarrow> risk_state \<Rightarrow> risk_state" where
  "enter_safe_mode_x reason s = s\<lparr>ks_safe_mode := True, ks_safe_mode_reason := reason\<rparr>"

definition reset_hard_kill :: "string \<Rightarrow> risk_state \<Rightarrow> (xau_error + unit) \<times> risk_state" where
  "reset_hard_kill operator s =
     (if operator = [] then (Inl XValueError, s) else (Inr (), s\<lparr>ks_hard_kill_active := False\<rparr>))"

subsection \<open>Position sizing\<close>

record sizing_result =
  sz_lots :: float64
  sz_risk_money :: float64
  sz_risk_per_lot :: float64
  sz_stop_distance :: float64
  sz_actual_risk :: float64
  sz_reject_reason :: "reject_reason option"

definition is_tradeable :: "sizing_result \<Rightarrow> bool" where
  "is_tradeable s \<longleftrightarrow> 0 < sz_lots s \<and> sz_reject_reason s = None"

definition floor_lots :: "float64 \<Rightarrow> float64 \<Rightarrow> xau_error + float64" where
  "floor_lots v step =
     (if step \<le> 0 then Inl XValueError
      else if v \<le> 0 then Inr 0
      else let ratio = fdiv v step;
               nudged = \<lfloor>fadd ratio (fmul (fl (1 / 10 ^ 9)) (max 1 \<bar>ratio\<bar>))\<rfloor>
           in Inr (pyround 8 (fmul (fl (of_int nudged)) step)))"

definition no_size :: "float64 \<Rightarrow> float64 \<Rightarrow> float64 \<Rightarrow> reject_reason \<Rightarrow> sizing_result" where
  "no_size money per_lot sdist reason =
     \<lparr>sz_lots = 0, sz_risk_money = money, sz_risk_per_lot = per_lot, sz_stop_distance = sdist, sz_actual_risk = 0,
      sz_reject_reason = Some reason\<rparr>"

definition calculate_lots :: "float64 \<Rightarrow> float64 \<Rightarrow> float64 \<Rightarrow> float64 \<Rightarrow> broker_spec \<Rightarrow> xau_error + sizing_result" where
  "calculate_lots equity risk_pct entry stop spec =
     (if \<not> spec_is_valid spec then Inr (no_size 0 0 0 BROKER_SPEC_INVALID)
      else if equity \<le> 0 \<or> risk_pct \<le> 0 then Inr (no_size 0 0 0 RISK_SIZE_ZERO)
      else let sdist = \<bar>fsub entry stop\<bar>
      in if sdist \<le> 0 then Inr (no_size 0 0 0 RISK_SIZE_ZERO)
      else if bs_tick_size spec \<le> 0 then Inr (no_size 0 0 sdist BROKER_SPEC_INVALID)
      else let risk_money = fdiv (fmul equity risk_pct) 100;
               ticks = fdiv sdist (bs_tick_size spec);
               risk_per_lot = fmul ticks (bs_tick_value spec)
      in if risk_per_lot \<le> 0 then Inr (no_size risk_money 0 sdist BROKER_SPEC_INVALID)
      else rbind (floor_lots (fdiv risk_money risk_per_lot) (bs_lot_step spec)) (\<lambda>raw.
           rbind (if bs_max_lot spec < raw then floor_lots (bs_max_lot spec) (bs_lot_step spec) else Inr raw) (\<lambda>lots.
           if lots < bs_min_lot spec then Inr (no_size risk_money risk_per_lot sdist RISK_SIZE_ZERO)
           else let actual = fmul lots risk_per_lot
           in if fmul risk_money (fadd 1 (fl (1 / 10 ^ 9))) < actual
              then Inr (no_size risk_money risk_per_lot sdist RISK_SIZE_ZERO)
              else Inr \<lparr>sz_lots = lots, sz_risk_money = risk_money, sz_risk_per_lot = risk_per_lot, sz_stop_distance = sdist,
                        sz_actual_risk = actual, sz_reject_reason = None\<rparr>)))"

subsection \<open>Score\<close>

record score_breakdown =
  sb_regime_confirmed :: int
  sb_slope_ok :: int
  sb_depth_ok :: int
  sb_breakout_confirmed :: int
  sb_atr_regime_ok :: int
  sb_session_ok :: int
  sb_spread_ok :: int

definition score_total :: "score_breakdown \<Rightarrow> int" where
  "score_total s = sb_regime_confirmed s + sb_slope_ok s + sb_depth_ok s + sb_breakout_confirmed s + sb_atr_regime_ok s
     + sb_session_ok s + sb_spread_ok s"

definition holds_some :: "(float64 \<Rightarrow> bool) \<Rightarrow> float64 option \<Rightarrow> bool" where
  "holds_some P v = (case v of None \<Rightarrow> False | Some x \<Rightarrow> P x)"

definition compute_score ::
  "regime \<Rightarrow> direction \<Rightarrow> float64 option \<Rightarrow> float64 option \<Rightarrow> float64 option \<Rightarrow> bool \<Rightarrow> bool \<Rightarrow> float64 \<Rightarrow> float64 option
    \<Rightarrow> research_params \<Rightarrow> float64 \<Rightarrow> float64 \<Rightarrow> float64 \<Rightarrow> score_breakdown" where
  "compute_score rg d slope atr_pct depth breakout session spread_points atr_m15 p spread_atr_max spread_abs_max_points point =
     (let expected = (if d = DIR_LONG then RG_TREND_UP else RG_TREND_DOWN);
          spread_price = fmul spread_points point
      in \<lparr>sb_regime_confirmed = (if rg = expected then 2 else 0),
          sb_slope_ok = (if holds_some (\<lambda>s. rp_score_slope_min p \<le> \<bar>s\<bar>) slope then 1 else 0),
          sb_depth_ok = (if holds_some (\<lambda>x. rp_min_pullback_depth_atr p \<le> x \<and> x \<le> rp_max_pullback_depth_atr p) depth then 1 else 0),
          sb_breakout_confirmed = (if breakout then 2 else 0),
          sb_atr_regime_ok = (if holds_some (\<lambda>x. rp_atr_pct_floor p \<le> x \<and> x < rp_atr_pct_high p) atr_pct then 1 else 0),
          sb_session_ok = (if session then 1 else 0),
          sb_spread_ok = (if holds_some (\<lambda>a. spread_price \<le> fmul spread_atr_max a) atr_m15 \<and> spread_points \<le> spread_abs_max_points
                          then 1 else 0)\<rparr>)"

subsection \<open>Sessions\<close>

record zones =
  tz_london :: "instant \<Rightarrow> duration"
  tz_new_york :: "instant \<Rightarrow> duration"
  tz_tokyo :: "instant \<Rightarrow> duration"

record session_flags =
  sf_utc :: instant
  sf_london :: bool
  sf_new_york :: bool
  sf_overlap :: bool
  sf_asian :: bool
  sf_rollover :: bool

record session_resolver =
  sr_offset :: "instant \<Rightarrow> float64"
  sr_allow_asian :: bool
  sr_block_rollover :: bool

definition minute_of_day :: "instant \<Rightarrow> int" where
  "minute_of_day t = time_of_day t div seconds 60"

definition within_hours :: "instant \<Rightarrow> int \<times> int \<Rightarrow> int \<times> int \<Rightarrow> bool" where
  "within_hours local_time from_hm to_hm \<longleftrightarrow>
     fst from_hm * 60 + snd from_hm \<le> minute_of_day local_time \<and> minute_of_day local_time < fst to_hm * 60 + snd to_hm"

definition day_of_week :: "int \<Rightarrow> int \<Rightarrow> int \<Rightarrow> int" where
  "day_of_week year month day =
     (let table = [0, 3, 2, 5, 0, 3, 5, 1, 4, 6, 2, 4];
          y = (if month < 3 then year - 1 else year)
      in (y + y div 4 - y div 100 + y div 400 + table ! nat (month - 1) + day) mod 7)"

partial_function (option) sunday_from :: "int \<Rightarrow> int \<Rightarrow> int \<Rightarrow> int option" where
  "sunday_from year month day =
     (if day_of_week year month day \<noteq> 0 then sunday_from year month (day + 1) else Some day)"

definition us_dst_broker_offset :: "instant \<Rightarrow> float64 option" where
  "us_dst_broker_offset broker_time =
     (let (year, month, day) = ordinal_to_ymd (to_ordinal broker_time)
      in if month < 3 \<or> 11 < month then Some 2
         else if 3 < month \<and> month < 11 then Some 3
         else if month = 3 then map_option (\<lambda>first. if first + 7 \<le> day then 3 else 2) (sunday_from year 3 1)
         else map_option (\<lambda>first. if day < first then 3 else 2) (sunday_from year 11 1))"

definition to_utc :: "session_resolver \<Rightarrow> instant \<Rightarrow> instant" where
  "to_utc r broker_time = broker_time - round_half_even (sr_offset r broker_time * 3600000000)"

definition session_flags_at :: "zones \<Rightarrow> session_resolver \<Rightarrow> instant \<Rightarrow> session_flags" where
  "session_flags_at z r broker_time =
     (let utc = to_utc r broker_time;
          in_london = within_hours (utc + tz_london z utc) (8, 0) (16, 30);
          in_ny = within_hours (utc + tz_new_york z utc) (8, 0) (17, 0);
          in_asia = within_hours (utc + tz_tokyo z utc) (9, 0) (17, 0);
          hour = time_of_day utc div seconds 3600
      in \<lparr>sf_utc = utc, sf_london = in_london, sf_new_york = in_ny, sf_overlap = in_london \<and> in_ny, sf_asian = in_asia,
          sf_rollover = 21 \<le> hour \<and> hour < 23\<rparr>)"

definition session_label :: "session_flags \<Rightarrow> string" where
  "session_label f =
     (if sf_rollover f then ''ROLLOVER''
      else if sf_overlap f then ''OVERLAP''
      else if sf_london f then ''LONDON''
      else if sf_new_york f then ''NEW_YORK''
      else if sf_asian f then ''ASIAN''
      else ''OFF_SESSION'')"

definition is_permitted :: "zones \<Rightarrow> session_resolver \<Rightarrow> instant \<Rightarrow> bool" where
  "is_permitted z r broker_time =
     (let f = session_flags_at z r broker_time
      in if sr_block_rollover r \<and> sf_rollover f then False
         else if sf_london f \<or> sf_new_york f then True
         else sr_allow_asian r \<and> sf_asian f)"

definition infer_broker_utc_offset :: "instant \<Rightarrow> instant \<Rightarrow> float64" where
  "infer_broker_utc_offset broker_time known_utc =
     (let hours = fdiv (fl (of_int (broker_time - known_utc) / 1000000)) 3600
      in fdiv (of_int (round_half_even (fmul hours 4))) 4)"

subsection \<open>News\<close>

record news_calendar =
  nc_times :: "instant list"
  nc_before :: duration
  nc_after :: duration
  nc_required :: bool
  nc_loaded :: bool

definition make_calendar :: "instant list \<Rightarrow> int \<Rightarrow> int \<Rightarrow> bool \<Rightarrow> bool \<Rightarrow> news_calendar" where
  "make_calendar event_times before_min after_min required loaded =
     \<lparr>nc_times = sort event_times, nc_before = seconds (60 * before_min), nc_after = seconds (60 * after_min), nc_required = required,
      nc_loaded = loaded\<rparr>"

definition empty_calendar :: "bool \<Rightarrow> news_calendar" where
  "empty_calendar required = make_calendar [] 30 15 required (\<not> required)"

definition failed_calendar :: news_calendar where
  "failed_calendar = make_calendar [] 30 15 True False"

definition is_usable :: "news_calendar \<Rightarrow> bool" where
  "is_usable c \<longleftrightarrow> nc_loaded c \<or> \<not> nc_required c"

text \<open>\<open>bisect_left\<close>: binary search for the first position whose value is not smaller.\<close>

function bisect_left :: "instant list \<Rightarrow> instant \<Rightarrow> nat \<Rightarrow> nat \<Rightarrow> nat" where
  "bisect_left xs x lo hi =
     (if lo < hi then let mid = (lo + hi) div 2
        in if xs ! mid < x then bisect_left xs x (mid + 1) hi else bisect_left xs x lo mid
      else lo)"
  by pat_completeness auto
termination by (relation "measure (\<lambda>(xs, x, lo, hi). hi - lo)") auto

fun blackout_scan :: "duration \<Rightarrow> duration \<Rightarrow> instant \<Rightarrow> instant list \<Rightarrow> bool" where
  "blackout_scan before after moment [] = False"
| "blackout_scan before after moment (t # ts) =
     (if moment < t - before then False
      else if t - before \<le> moment \<and> moment \<le> t + after then True
      else blackout_scan before after moment ts)"

definition is_blackout :: "news_calendar \<Rightarrow> instant \<Rightarrow> bool" where
  "is_blackout c moment =
     (if \<not> is_usable c then True
      else if nc_times c = [] then False
      else blackout_scan (nc_before c) (nc_after c) moment
             (drop (bisect_left (nc_times c) (moment - nc_after c) 0 (length (nc_times c))) (nc_times c)))"

declare bisect_left.simps [simp del]

subsection \<open>The blackout query is the declarative one\<close>

lemma bisect_left_inv:
  assumes "sorted xs" "hi \<le> length xs" "lo \<le> hi" "\<And>i. i < lo \<Longrightarrow> xs ! i < x" "\<And>i. hi \<le> i \<Longrightarrow> i < length xs \<Longrightarrow> x \<le> xs ! i"
  shows "bisect_left xs x lo hi \<le> length xs \<and> (\<forall>i < bisect_left xs x lo hi. xs ! i < x)
    \<and> (\<forall>i. bisect_left xs x lo hi \<le> i \<longrightarrow> i < length xs \<longrightarrow> x \<le> xs ! i)"
  using assms
proof (induction xs x lo hi rule: bisect_left.induct)
  case (1 xs x lo hi)
  show ?case
  proof (cases "lo < hi")
    case False
    then have "bisect_left xs x lo hi = lo" by (subst bisect_left.simps) simp
    moreover have "lo = hi" using False "1.prems"(3) by simp
    ultimately show ?thesis using "1.prems"(2,4,5) by auto
  next
    case True
    let ?mid = "(lo + hi) div 2"
    have mid: "lo \<le> ?mid" "?mid < hi" "?mid < length xs" using True "1.prems"(2) by auto
    show ?thesis
    proof (cases "xs ! ?mid < x")
      case below: True
      have "xs ! i < x" if "i < ?mid + 1" for i
        using that below mid(3) sorted_nth_mono [OF "1.prems"(1), of i ?mid] by linarith
      note low = this
      have le: "?mid + 1 \<le> hi" using mid(2) by linarith
      have IH: "bisect_left xs x (?mid + 1) hi \<le> length xs \<and> (\<forall>i < bisect_left xs x (?mid + 1) hi. xs ! i < x)
          \<and> (\<forall>i. bisect_left xs x (?mid + 1) hi \<le> i \<longrightarrow> i < length xs \<longrightarrow> x \<le> xs ! i)"
        by (rule "1.IH"(1) [OF True refl below "1.prems"(1,2) le]) (fact low, fact "1.prems"(5))
      have eq: "bisect_left xs x lo hi = bisect_left xs x (?mid + 1) hi"
        using True below by (subst bisect_left.simps) (simp only: Let_def if_True)
      show ?thesis unfolding eq by (rule IH)
    next
      case above: False
      have "x \<le> xs ! i" if "?mid \<le> i" "i < length xs" for i
        using that above sorted_nth_mono [OF "1.prems"(1), of ?mid i] by linarith
      note high = this
      have IH: "bisect_left xs x lo ?mid \<le> length xs \<and> (\<forall>i < bisect_left xs x lo ?mid. xs ! i < x)
          \<and> (\<forall>i. bisect_left xs x lo ?mid \<le> i \<longrightarrow> i < length xs \<longrightarrow> x \<le> xs ! i)"
        by (rule "1.IH"(2) [OF True refl above "1.prems"(1) less_imp_le [OF mid(3)] mid(1)]) (fact "1.prems"(4), fact high)
      have eq: "bisect_left xs x lo hi = bisect_left xs x lo ?mid"
        using True above by (subst bisect_left.simps) (simp only: Let_def if_True if_False)
      show ?thesis unfolding eq by (rule IH)
    qed
  qed
qed

lemma blackout_scan_iff:
  "sorted ts \<Longrightarrow> blackout_scan before after moment ts \<longleftrightarrow> (\<exists>t \<in> set ts. t - before \<le> moment \<and> moment \<le> t + after)"
  by (induction ts) auto

text \<open>
  The binary search and the early exit of the blackout query change nothing. On every calendar the constructor builds it answers
  that entries are blocked exactly when the calendar is required and could not be loaded, or some event of it lies within the window around the moment.
\<close>

lemma blackout_query_exact:
  "is_blackout (make_calendar event_times before_min after_min required loaded) moment \<longleftrightarrow>
     (required \<and> \<not> loaded) \<or>
     (\<exists>t \<in> set event_times. t - before_min * 60000000 \<le> moment \<and> moment \<le> t + after_min * 60000000)"
proof -
  let ?c = "make_calendar event_times before_min after_min required loaded"
  let ?k = "bisect_left (nc_times ?c) (moment - nc_after ?c) 0 (length (nc_times ?c))"
  have so: "sorted (nc_times ?c)" by (simp add: make_calendar_def)
  from bisect_left_inv [OF so, of "length (nc_times ?c)" 0]
  have k: "\<forall>i < ?k. nc_times ?c ! i < moment - nc_after ?c" by simp
  have "(\<exists>t \<in> set (drop ?k (nc_times ?c)). t - nc_before ?c \<le> moment \<and> moment \<le> t + nc_after ?c)
      \<longleftrightarrow> (\<exists>t \<in> set (nc_times ?c). t - nc_before ?c \<le> moment \<and> moment \<le> t + nc_after ?c)" (is "?l = ?r")
  proof
    assume ?r
    then obtain i where i: "i < length (nc_times ?c)" "nc_times ?c ! i - nc_before ?c \<le> moment" "moment \<le> nc_times ?c ! i + nc_after ?c"
      by (auto simp: in_set_conv_nth)
    with k have "?k \<le> i" by (force simp: not_less [symmetric])
    with i have "nc_times ?c ! i \<in> set (drop ?k (nc_times ?c))"
      by (auto simp: in_set_conv_nth intro!: exI [of _ "i - ?k"])
    with i show ?l by blast
  qed (auto dest: in_set_dropD)
  moreover have "sorted (drop ?k (nc_times ?c))" using so by (rule sorted_wrt_drop)
  ultimately show ?thesis
    by (auto simp: is_blackout_def is_usable_def blackout_scan_iff make_calendar_def seconds_def mult.commute)
qed

subsection \<open>Sundays\<close>

lemma div_step:
  assumes "0 < (k :: int)"
  shows "y div k = (y - 1) div k + (if y mod k = 0 then 1 else 0)"
proof (cases "y mod k = 0")
  case True
  have "(y - 1) div k = y div k - 1"
    by (rule int_div_pos_eq [of _ _ _ "k - 1"]) (use True assms div_mult_mod_eq [of y k] in \<open>auto simp: algebra_simps\<close>)
  with True show ?thesis by simp
next
  case False
  have "(y - 1) div k = y div k"
    by (rule int_div_pos_eq [of _ _ _ "y mod k - 1"])
      (use False assms div_mult_mod_eq [of y k] pos_mod_sign [OF assms, of y] pos_mod_bound [OF assms, of y] in \<open>auto simp: algebra_simps\<close>)
  with False show ?thesis by simp
qed

lemma leap_count:
  assumes "y mod 100 = 0 \<Longrightarrow> y mod 4 = 0" "y mod 400 = 0 \<Longrightarrow> y mod 100 = 0"
    and "a' = a + (if y mod 4 = 0 then 1 else 0)" "b' = b + (if y mod 100 = 0 then 1 else 0)"
    and "c' = c + (if y mod 400 = 0 then 1 else 0 :: int)"
  shows "a' - b' + c' = a - b + c + (if is_leap y then 1 else 0)"
  unfolding is_leap_def using assms by (cases "y mod 4 = 0"; cases "y mod 100 = 0"; cases "y mod 400 = 0") simp_all

lemma leap_days: "y div 4 - y div 100 + y div 400 = (y - 1) div 4 - (y - 1) div 100 + (y - 1) div 400 + (if is_leap y then 1 else 0)"
proof (rule leap_count)
  show "y mod 4 = 0" if "y mod 100 = 0" using that unfolding mod_eq_0_iff_dvd by (rule dvd_trans [rotated]) simp
  show "y mod 100 = 0" if "y mod 400 = 0" using that unfolding mod_eq_0_iff_dvd by (rule dvd_trans [rotated]) simp
qed (rule div_step, simp)+

text \<open>The arithmetic of the day of the week, with the divisions as atoms.\<close>

lemma sakamoto_before_march:
  "y - 1 + a - b + c + t + d = ((y - 1) * 365 + a - b + c) + (t + 7 * k) + d + 7 * (- 52 * (y - 1) - k :: int)"
  by (simp add: algebra_simps)

lemma sakamoto_from_march:
  "a' - b' + c' = a - b + c + l \<Longrightarrow>
     y + a' - b' + c' + t + d = ((y - 1) * 365 + a - b + c) + (t + 1 + 7 * k + l) + d + 7 * (- 52 * (y - 1) - k :: int)"
  by (simp add: algebra_simps)

lemma mod_7_eqI: "a = b + 7 * k \<Longrightarrow> (a :: int) mod 7 = b mod 7"
  by simp

text \<open>The congruence of Sakamoto agrees with the calendar: the ordinal of a Sunday is a multiple of seven.\<close>

lemma month_table:
  "\<forall>m \<in> {1..12 :: int}. (month_days ! nat (m - 1) - [0, 3, 2, 5, 0, 3, 5, 1, 4, 6, 2, 4] ! nat (m - 1) - (if m < 3 then 0 else 1)) mod 7 = 0"
  by code_simp

lemma day_of_week_ordinal:
  assumes "1 \<le> m" "m \<le> 12"
  shows "day_of_week y m d = ymd_to_ordinal y m d mod 7"
proof -
  let ?t = "[0, 3, 2, 5, 0, 3, 5, 1, 4, 6, 2, 4] ! nat (m - 1)"
  have "(month_days ! nat (m - 1) - ?t - (if m < 3 then 0 else 1)) mod 7 = 0"
    by (rule bspec [OF month_table]) (use assms in simp)
  then obtain k where "month_days ! nat (m - 1) - ?t - (if m < 3 then 0 else 1) = 7 * k"
    unfolding mod_eq_0_iff_dvd by (rule dvdE)
  then have k: "month_days ! nat (m - 1) = ?t + (if m < 3 then 0 else 1) + 7 * k" by linarith
  show ?thesis
  proof (cases "m < 3")
    case True
    with k have dbm: "days_before_month y m = ?t + 7 * k" by (simp add: days_before_month_def)
    have "day_of_week y m d = (y - 1 + (y - 1) div 4 - (y - 1) div 100 + (y - 1) div 400 + ?t + d) mod 7"
      using True by (simp add: day_of_week_def Let_def)
    also have "\<dots> = ymd_to_ordinal y m d mod 7"
      unfolding ymd_to_ordinal_def days_before_year_def Let_def dbm by (rule mod_7_eqI [OF sakamoto_before_march])
    finally show ?thesis .
  next
    case False
    with k have dbm: "days_before_month y m = ?t + 1 + 7 * k + (if is_leap y then 1 else 0)" by (simp add: days_before_month_def)
    have "day_of_week y m d = (y + y div 4 - y div 100 + y div 400 + ?t + d) mod 7"
      using False by (simp add: day_of_week_def Let_def)
    also have "\<dots> = ymd_to_ordinal y m d mod 7"
      unfolding ymd_to_ordinal_def days_before_year_def Let_def dbm
      by (rule mod_7_eqI [OF sakamoto_from_march [OF leap_days]])
    finally show ?thesis .
  qed
qed

lemma next_weekday: "0 \<le> w \<Longrightarrow> w < 7 \<Longrightarrow> w \<noteq> 0 \<Longrightarrow> (- ((w + 1) mod 7)) mod 7 = (- w) mod 7 - (1 :: int)"
proof -
  assume "0 \<le> w" "w < 7" "w \<noteq> 0"
  then have "w = 1 \<or> w = 2 \<or> w = 3 \<or> w = 4 \<or> w = 5 \<or> w = 6" by arith
  then show ?thesis by (elim disjE) simp_all
qed

lemma day_of_week_next: "day_of_week y m (d + 1) = (day_of_week y m d + 1) mod 7"
  unfolding day_of_week_def Let_def by (simp only: mod_add_left_eq add.assoc [symmetric])

text \<open>The search for a Sunday ends within a week.\<close>

lemma sunday_from_ends: "sunday_from y m d = Some (d + (- day_of_week y m d) mod 7)"
proof (induction "nat ((- day_of_week y m d) mod 7)" arbitrary: d)
  case 0
  have "0 \<le> day_of_week y m d" "day_of_week y m d < 7" by (simp_all add: day_of_week_def Let_def)
  moreover have "(- day_of_week y m d) mod 7 \<le> 0" using 0 by simp
  ultimately have "day_of_week y m d = 0" by presburger
  then show ?case by (subst sunday_from.simps) simp
next
  case (Suc n)
  have r: "0 \<le> day_of_week y m d" "day_of_week y m d < 7" by (simp_all add: day_of_week_def Let_def)
  with Suc.hyps(2) have nz: "day_of_week y m d \<noteq> 0" by auto
  have step: "(- day_of_week y m (d + 1)) mod 7 = (- day_of_week y m d) mod 7 - 1"
    unfolding day_of_week_next using r nz by (rule next_weekday)
  then have "n = nat ((- day_of_week y m (d + 1)) mod 7)" using Suc.hyps(2) by simp
  note later = Suc.hyps(1) [OF this]
  have "sunday_from y m d = sunday_from y m (d + 1)" using nz by (subst sunday_from.simps) (simp only: if_True not_False_eq_True)
  then show ?case unfolding later step by simp
qed

text \<open>The offset of a server that follows United States daylight saving: three hours exactly from the second Sunday of March until
  the day before the first Sunday of November.\<close>

definition sunday :: "int \<Rightarrow> int \<Rightarrow> int \<Rightarrow> bool" where
  "sunday y m d \<longleftrightarrow> ymd_to_ordinal y m d mod 7 = 0"

lemma first_sunday:
  assumes "1 \<le> m" "m \<le> 12"
  obtains f where "sunday_from y m 1 = Some f" "1 \<le> f" "f \<le> 7" "sunday y m f" "\<And>s. 1 \<le> s \<Longrightarrow> sunday y m s \<Longrightarrow> f \<le> s"
proof -
  define w where "w = day_of_week y m 1"
  have w: "0 \<le> w" "w < 7" by (simp_all add: w_def day_of_week_def Let_def)
  have dow: "day_of_week y m s = (w + (s - 1)) mod 7" for s
    unfolding w_def day_of_week_def Let_def by (simp add: mod_add_left_eq) (simp add: algebra_simps)
  let ?f = "1 + (- w) mod 7"
  have "sunday y m s \<longleftrightarrow> (w + (s - 1)) mod 7 = 0" for s
    using day_of_week_ordinal [OF assms, of y s] dow [of s] by (simp add: sunday_def)
  moreover have "(w + (?f - 1)) mod 7 = 0" using w by presburger
  moreover have "?f \<le> s" if "1 \<le> s" "(w + (s - 1)) mod 7 = 0" for s using w that by presburger
  ultimately show thesis
    using that [of ?f] sunday_from_ends [of y m 1] w by (simp add: w_def)
qed

lemma us_dst_offset_exact:
  assumes "ordinal_to_ymd (to_ordinal t) = (y, m, d)"
  shows "us_dst_broker_offset t =
    Some (if 3 < m \<and> m < 11 \<or> m = 3 \<and> (\<exists>s. 1 \<le> s \<and> s + 7 \<le> d \<and> sunday y 3 s)
            \<or> m = 11 \<and> (\<forall>s. 1 \<le> s \<and> s \<le> d \<longrightarrow> \<not> sunday y 11 s) then 3 else 2)"
proof -
  obtain f where f: "sunday_from y 3 1 = Some f" "1 \<le> f" "sunday y 3 f" "\<And>s. 1 \<le> s \<Longrightarrow> sunday y 3 s \<Longrightarrow> f \<le> s"
    by (rule first_sunday [of 3 y]) auto
  obtain g where g: "sunday_from y 11 1 = Some g" "1 \<le> g" "sunday y 11 g" "\<And>s. 1 \<le> s \<Longrightarrow> sunday y 11 s \<Longrightarrow> g \<le> s"
    by (rule first_sunday [of 11 y]) auto
  have "(\<exists>s. 1 \<le> s \<and> s + 7 \<le> d \<and> sunday y 3 s) \<longleftrightarrow> f + 7 \<le> d" using f(2-4) by force
  moreover have "(\<forall>s. 1 \<le> s \<and> s \<le> d \<longrightarrow> \<not> sunday y 11 s) \<longleftrightarrow> d < g" using g(2-4) by force
  ultimately show ?thesis using assms f(1) g(1) by (auto simp: us_dst_broker_offset_def)
qed

subsection \<open>The drawdown kill\<close>

definition governed :: "risk_policy_params \<Rightarrow> (instant \<times> float64) list \<Rightarrow> risk_state" where
  "governed p observations = fold (\<lambda>(moment, equity). observe p moment equity) observations new_risk_state"

definition peak_of :: "(instant \<times> float64) list \<Rightarrow> float64" where
  "peak_of observations = Max (set (0 # map snd observations))"

lemma governed_snoc: "governed p (xs @ [(m, e)]) = observe p m e (governed p xs)"
  by (simp add: governed_def)

lemma peak_snoc: "peak_of (xs @ [(m, e)]) = max (peak_of xs) e"
proof -
  have "set (0 # map snd (xs @ [(m, e)])) = insert e (set (0 # map snd xs))" by auto
  then show ?thesis unfolding peak_of_def by (simp only: Max_insert finite_set set_empty list.distinct simp_thms max.commute)
qed

lemma roll_fields [simp]:
  "ks_peak_equity (roll_day m e s) = ks_peak_equity s" "ks_hard_kill_active (roll_day m e s) = ks_hard_kill_active s"
  "ks_peak_equity (roll_week m e s) = ks_peak_equity s" "ks_hard_kill_active (roll_week m e s) = ks_hard_kill_active s"
  "\<not> kp_research_auto_reset_hard_kill p \<Longrightarrow> ks_peak_equity (roll_year p m e s) = ks_peak_equity s"
  "\<not> kp_research_auto_reset_hard_kill p \<Longrightarrow> ks_hard_kill_active (roll_year p m e s) = ks_hard_kill_active s"
  by (simp_all add: roll_day_def roll_week_def roll_year_def)

lemma evaluate_limits_fields [simp]:
  "ks_peak_equity (evaluate_limits p e s) = ks_peak_equity s"
  "ks_hard_kill_active (evaluate_limits p e s) \<longleftrightarrow>
     ks_hard_kill_active s \<or> 0 < ks_peak_equity s \<and> kp_hard_dd_pct p \<le> loss_pct (ks_peak_equity s) e"
  by (auto simp: evaluate_limits_def Let_def)

lemma observe_fields:
  assumes "\<not> kp_research_auto_reset_hard_kill p"
  shows "ks_peak_equity (observe p m e s) = max (ks_peak_equity s) e"
    "ks_hard_kill_active (observe p m e s) \<longleftrightarrow>
       ks_hard_kill_active s \<or> 0 < max (ks_peak_equity s) e \<and> kp_hard_dd_pct p \<le> loss_pct (max (ks_peak_equity s) e) e"
  using assms by (auto simp: observe_def Let_def max_def)

lemma governed_fields:
  assumes "\<not> kp_research_auto_reset_hard_kill p"
  shows "ks_peak_equity (governed p xs) = peak_of xs \<and>
    (ks_hard_kill_active (governed p xs) \<longleftrightarrow>
      (\<exists>k < length xs. 0 < peak_of (take (k + 1) xs) \<and> kp_hard_dd_pct p \<le> loss_pct (peak_of (take (k + 1) xs)) (snd (xs ! k))))"
proof (induction xs rule: rev_induct)
  case Nil
  then show ?case by (simp add: governed_def new_risk_state_def peak_of_def)
next
  case (snoc x xs)
  obtain m e where x: "x = (m, e)" by (cases x)
  have split: "(\<exists>k < Suc n. P k) \<longleftrightarrow> (\<exists>k < n. P k) \<or> P n" for n P by (auto simp: less_Suc_eq)
  show ?case
    unfolding x governed_snoc observe_fields [OF assms] using snoc
    by (auto simp: peak_snoc split nth_append)
qed

text \<open>
  The drawdown kill latches. Without the research-only reset, whatever equity is observed and however it recovers, a new entry is
  allowed only if at no observation the loss from the highest equity seen until then reached the hard limit; once reached, the block names the kill
  until an operator resets it.
\<close>

lemma drawdown_kill_latches:
  assumes "\<not> kp_research_auto_reset_hard_kill p"
    and "k < length xs" and "0 < peak_of (take (k + 1) xs)"
    and "kp_hard_dd_pct p \<le> loss_pct (peak_of (take (k + 1) xs)) (snd (xs ! k))"
  shows "\<not> allows_new_entry (governed p xs)
    \<and> entry_block_reason (governed p xs) \<in> {Some SAFE_MODE_BLOCK, Some HARD_DRAWDOWN_KILL}
    \<and> allows_new_entry (snd (reset_hard_kill [] (governed p xs))) = False"
proof -
  have "ks_hard_kill_active (governed p xs)" using assms governed_fields [of p xs] by blast
  then show ?thesis by (simp add: allows_new_entry_def entry_block_reason_def reset_hard_kill_def)
qed

definition example_policy :: risk_policy_params where
  "example_policy = \<lparr>kp_risk_pct = 1 / 2, kp_daily_loss_stop_pct = 3 / 2, kp_weekly_loss_stop_pct = 3, kp_soft_dd_pct = 5,
     kp_hard_dd_pct = 9, kp_soft_dd_risk_multiplier = 1 / 2, kp_research_auto_reset_hard_kill = False\<rparr>"

theorem drawdown_kill_latches_witness:
  "\<not> allows_new_entry (governed example_policy [(0, 100), (1, 90), (100 * day_micros, 120)])"
proof -
  let ?xs = "[(0, 100), (1, 90), (100 * day_micros, 120 :: float64)]"
  have "kp_hard_dd_pct example_policy \<le> loss_pct 100 90" by code_simp
  moreover have "peak_of (take 2 ?xs) = 100" by (simp add: peak_of_def)
  ultimately show ?thesis
    using drawdown_kill_latches [of example_policy 1 ?xs] by (simp add: example_policy_def numeral_2_eq_2)
qed

subsection \<open>The size respects the mandate\<close>

lemma fl_relative:
  assumes "1 / 10 ^ 60 \<le> x"
  shows "x * (1 - 1 / 2 ^ 52) \<le> fl x" "fl x \<le> x * (1 + 1 / 2 ^ 52)"
proof -
  have "pow2 (- 1075) \<le> 1 / 10 ^ 60 / 2 ^ 53" by code_simp
  also have "\<dots> \<le> x / 2 ^ 53" using assms by (simp add: divide_right_mono)
  finally have "\<bar>fl x - x\<bar> \<le> x / 2 ^ 52"
    using fl_error [of x] assms by (simp add: field_simps)
  then have "x - x / 2 ^ 52 \<le> fl x" "fl x \<le> x + x / 2 ^ 52" unfolding abs_le_iff by linarith+
  then show "x * (1 - 1 / 2 ^ 52) \<le> fl x" "fl x \<le> x * (1 + 1 / 2 ^ 52)"
    by (simp_all only: right_diff_distrib distrib_left mult_1_right times_divide_eq_right)
qed

lemma tradeable_size:
  assumes "calculate_lots equity risk_pct entry stop spec = Inr r" "is_tradeable r"
  shows "spec_is_valid spec" "bs_min_lot spec \<le> sz_lots r" "0 < equity" "0 < risk_pct"
    "fmul (sz_lots r) (fmul (fdiv \<bar>fsub entry stop\<bar> (bs_tick_size spec)) (bs_tick_value spec))
       \<le> fmul (fdiv (fmul equity risk_pct) 100) (fadd 1 (fl (1 / 10 ^ 9)))"
  using assms
  by (auto simp: calculate_lots_def Let_def rbind_Inr_iff is_tradeable_def no_size_def split: if_splits)

lemma fl_from_below:
  assumes "y \<le> x" "1 / 10 ^ 60 \<le> y"
  shows "y * (1 - 1 / 2 ^ 52) \<le> fl x"
  using fl_relative(1) [OF assms(2)] fl_mono [OF assms(1)] by linarith

lemma fl_from_above:
  assumes "x \<le> y" "1 / 10 ^ 60 \<le> y"
  shows "fl x \<le> y * (1 + 1 / 2 ^ 52)"
  using fl_relative(2) [OF assms(2)] fl_mono [OF assms(1)] by linarith

lemma abs_fl: "\<bar>fl x\<bar> = fl \<bar>x\<bar>"
proof (cases "0 \<le> x")
  case True
  then show ?thesis using fl_nonneg [of x] by simp
next
  case False
  then show ?thesis using fl_nonneg [of "- x"] by (simp add: fl_minus)
qed

text \<open>Four rounded operations from below, three from above.\<close>

lemma risk_from_below:
  fixes d ts tv l :: rat
  defines "c \<equiv> 1 - 1 / 2 ^ 52"
  assumes d: "1 / 10 ^ 12 \<le> d" and ts: "0 < ts" "ts \<le> 10 ^ 12" and tv: "1 / 10 ^ 12 \<le> tv" and l: "1 / 10 ^ 12 \<le> l"
  shows "l * (d / ts * tv) * c ^ 4 \<le> fmul l (fmul (fdiv (fl d) ts) tv)"
proof -
  have c: "1 / 2 \<le> c" "0 < c" by (simp_all add: c_def)
  have 1: "d * c \<le> fl d" unfolding c_def by (rule fl_from_below) (use d in simp_all)
  have d1: "1 / 10 ^ 24 / 2 \<le> d * c / ts"
  proof -
    have "1 / 10 ^ 12 * (1 / 2) \<le> d * c" by (rule mult_mono) (use d c in simp_all)
    then show ?thesis using ts frac_le [of "d * c" "1 / 10 ^ 12 * (1 / 2)" ts "10 ^ 12"] d c by simp
  qed
  have 2: "d * c / ts * c \<le> fdiv (fl d) ts" unfolding fdiv_def
    by (rule fl_from_below [folded c_def]) (use 1 ts d1 in \<open>simp_all add: divide_right_mono\<close>)
  have d2: "1 / 10 ^ 24 / 2 * (1 / 2) * (1 / 10 ^ 12) \<le> d * c / ts * c * tv"
    by (intro mult_mono d1 c tv) (use d c ts in simp_all)
  have 3: "d * c / ts * c * tv * c \<le> fmul (fdiv (fl d) ts) tv" unfolding fmul_def
  proof (rule fl_from_below [folded c_def])
    show "d * c / ts * c * tv \<le> fdiv (fl d) ts * tv" by (rule mult_right_mono [OF 2]) (use tv in simp)
    show "1 / 10 ^ 60 \<le> d * c / ts * c * tv" by (rule order_trans [OF _ d2]) simp
  qed
  have d3: "1 / 10 ^ 12 * (1 / 10 ^ 24 / 2 * (1 / 2) * (1 / 10 ^ 12) * (1 / 2)) \<le> l * (d * c / ts * c * tv * c)"
    by (rule mult_mono [OF l mult_mono [OF d2 c(1)]]) (use d c ts tv l in simp_all)
  have "l * (d * c / ts * c * tv * c) * c \<le> fmul l (fmul (fdiv (fl d) ts) tv)" unfolding fmul_def [of l]
  proof (rule fl_from_below [folded c_def])
    show "l * (d * c / ts * c * tv * c) \<le> l * fmul (fdiv (fl d) ts) tv" by (rule mult_left_mono [OF 3]) (use l in simp)
    show "1 / 10 ^ 60 \<le> l * (d * c / ts * c * tv * c)" by (rule order_trans [OF _ d3]) simp
  qed
  moreover have "l * (d * c / ts * c * tv * c) * c = l * (d / ts * tv) * c ^ 4" by (simp add: power4_eq_xxxx)
  ultimately show ?thesis by (simp only:)
qed

lemma budget_from_above:
  fixes e :: rat
  assumes "1 / 10 ^ 12 \<le> e"
  shows "fmul (fdiv (fl e) 100) (fadd 1 (fl (1 / 10 ^ 9))) \<le> e / 100 * ((1 + 1 / 2 ^ 52) ^ 3 * (1 + 2 / 10 ^ 9))"
proof -
  let ?u = "1 + 1 / 2 ^ 52 :: rat" and ?k = "fadd 1 (fl (1 / 10 ^ 9))"
  have k: "0 \<le> ?k" "?k \<le> 1 + 2 / 10 ^ 9" by code_simp+
  have 1: "fl e \<le> e * ?u" by (rule fl_from_above) (use assms in simp_all)
  have 2: "fdiv (fl e) 100 \<le> e * ?u / 100 * ?u" unfolding fdiv_def
    by (rule fl_from_above) (use 1 assms in simp_all)
  have "fdiv (fl e) 100 * ?k \<le> e * ?u / 100 * ?u * (1 + 2 / 10 ^ 9)"
    by (rule mult_mono [OF 2 k(2) _ k(1)]) (use assms in simp)
  then have "fmul (fdiv (fl e) 100) ?k \<le> e * ?u / 100 * ?u * (1 + 2 / 10 ^ 9) * ?u" unfolding fmul_def
    by (rule fl_from_above) (use assms in simp)
  also have "\<dots> = e / 100 * (?u ^ 3 * (1 + 2 / 10 ^ 9))" by (simp add: power3_eq_cube)
  finally show ?thesis .
qed

text \<open>
  C37: a tradeable size is at least the minimum lot, and the money lost at the stop, computed exactly, exceeds the risk budget by at
  most one part in a hundred million, for every account, stop distance and instrument with values between \<open>10 ^ -12\<close> and \<open>10 ^ 12\<close>.
\<close>

theorem position_risk_within_mandate:
  assumes "calculate_lots equity risk_pct entry stop spec = Inr r" and "is_tradeable r"
    and "1 / 10 ^ 12 \<le> \<bar>entry - stop\<bar>" and "bs_tick_size spec \<le> 10 ^ 12" and "1 / 10 ^ 12 \<le> bs_tick_value spec"
    and "1 / 10 ^ 12 \<le> sz_lots r" and "1 / 10 ^ 12 \<le> equity * risk_pct"
  shows "bs_min_lot spec \<le> sz_lots r
    \<and> sz_lots r * (\<bar>entry - stop\<bar> / bs_tick_size spec * bs_tick_value spec) \<le> equity * risk_pct / 100 * (1 + 1 / 10 ^ 8)"
proof -
  note t = tradeable_size [OF assms(1,2)]
  let ?c = "1 - 1 / 2 ^ 52 :: rat" and ?x = "sz_lots r * (\<bar>entry - stop\<bar> / bs_tick_size spec * bs_tick_value spec)"
  have ts: "0 < bs_tick_size spec" using t(1) by (auto simp: spec_is_valid_def split: if_splits)
  have "?x * ?c ^ 4 \<le> fmul (sz_lots r) (fmul (fdiv (fl \<bar>entry - stop\<bar>) (bs_tick_size spec)) (bs_tick_value spec))"
    using assms(3) ts assms(4,5,6) by (rule risk_from_below)
  also have "\<dots> \<le> fmul (fdiv (fl (equity * risk_pct)) 100) (fadd 1 (fl (1 / 10 ^ 9)))"
    using t(5) by (simp add: fsub_def abs_fl fmul_def [of equity])
  also have "\<dots> \<le> equity * risk_pct / 100 * ((1 + 1 / 2 ^ 52) ^ 3 * (1 + 2 / 10 ^ 9))"
    using assms(7) by (rule budget_from_above)
  also have "\<dots> \<le> equity * risk_pct / 100 * ((1 + 1 / 10 ^ 8) * ?c ^ 4)"
  proof (rule mult_left_mono)
    show "(1 + 1 / 2 ^ 52) ^ 3 * (1 + 2 / 10 ^ 9) \<le> (1 + 1 / 10 ^ 8) * ?c ^ 4" by code_simp
  qed (use t(3,4) in simp)
  finally have "?x * ?c ^ 4 \<le> equity * risk_pct / 100 * (1 + 1 / 10 ^ 8) * ?c ^ 4" by (simp only: mult.assoc)
  then have "?x \<le> equity * risk_pct / 100 * (1 + 1 / 10 ^ 8)" by (rule mult_right_le_imp_le) simp
  with t(2) show ?thesis by blast
qed

text \<open>Under the default session policy an entry is permitted exactly when the label of the moment names London, New York or their overlap.\<close>

lemma permitted_by_label:
  assumes "sr_block_rollover r" "\<not> sr_allow_asian r"
  shows "is_permitted z r t \<longleftrightarrow> session_label (session_flags_at z r t) \<in> {''OVERLAP'', ''LONDON'', ''NEW_YORK''}"
  using assms by (auto simp: is_permitted_def session_label_def session_flags_at_def Let_def)

definition example_spec :: broker_spec where
  "example_spec = \<lparr>bs_point = 1 / 64, bs_tick_value = 1, bs_tick_size = 1 / 64, bs_min_lot = 1 / 64, bs_max_lot = 100, bs_lot_step = 1 / 64,
     bs_stop_level_points = 0, bs_swap_long = 0, bs_swap_short = 0\<rparr>"

theorem position_risk_within_mandate_witness:
  "\<exists>r. calculate_lots 100000 (1 / 2) 2000 1990 example_spec = Inr r \<and> sz_lots r * (10 * 64) \<le> 500 * (1 + 1 / 10 ^ 8)"
proof -
  obtain r where r: "calculate_lots 100000 (1 / 2) 2000 1990 example_spec = Inr r" "is_tradeable r" "1 / 10 ^ 12 \<le> sz_lots r"
  proof -
    have "case calculate_lots 100000 (1 / 2) 2000 1990 example_spec of Inr r \<Rightarrow> is_tradeable r \<and> 1 / 10 ^ 12 \<le> sz_lots r | Inl _ \<Rightarrow> False"
      by code_simp
    with that show thesis by (auto split: sum.splits)
  qed
  from position_risk_within_mandate [OF r(1,2) _ _ _ r(3)] show ?thesis
    using r(1) by (auto simp: example_spec_def)
qed

end
