(* ===== verification/Xau_Backtest.thy ===== *)
theory Xau_Backtest
  imports Xau_Machine Xau_Risk
begin

text \<open>
  The event-driven backtest of the gold strategy (\<^verbatim>\<open>research/strategies/xau_rpb/backtest.py\<close>): hourly bars from quarter-hour bars, the entry
  guards, opening, managing and closing a position, and the loop over the bars. The state of the loop is one record; an exception ends the
  run, so the loop body returns an error or the next state. The telemetry rows and the configuration hash, which no decision reads, are left out.
\<close>

subsection \<open>Results and positions\<close>

fun reject_value :: "reject_reason \<Rightarrow> string" where
  "reject_value SCORE_BELOW_THRESHOLD = ''SCORE_BELOW_THRESHOLD''"
| "reject_value RISK_SIZE_ZERO = ''RISK_SIZE_ZERO''"
| "reject_value SPREAD_TOO_WIDE = ''SPREAD_TOO_WIDE''"
| "reject_value SESSION_BLOCKED = ''SESSION_BLOCKED''"
| "reject_value NEWS_BLACKOUT = ''NEWS_BLACKOUT''"
| "reject_value DAILY_LOSS_STOP = ''DAILY_LOSS_STOP''"
| "reject_value WEEKLY_LOSS_STOP = ''WEEKLY_LOSS_STOP''"
| "reject_value HARD_DRAWDOWN_KILL = ''HARD_DRAWDOWN_KILL''"
| "reject_value POSITION_ALREADY_OPEN = ''POSITION_ALREADY_OPEN''"
| "reject_value BROKER_SPEC_INVALID = ''BROKER_SPEC_INVALID''"
| "reject_value STOP_LEVEL_VIOLATION = ''STOP_LEVEL_VIOLATION''"
| "reject_value INSUFFICIENT_MARGIN = ''INSUFFICIENT_MARGIN''"
| "reject_value INSUFFICIENT_HISTORY = ''INSUFFICIENT_HISTORY''"
| "reject_value ATR_INVALID = ''ATR_INVALID''"
| "reject_value DUPLICATE_SIGNAL = ''DUPLICATE_SIGNAL''"
| "reject_value SAFE_MODE_BLOCK = ''SAFE_MODE''"

fun exit_value :: "exit_reason \<Rightarrow> string" where
  "exit_value STOP_LOSS = ''STOP_LOSS''"
| "exit_value TARGET = ''TARGET''"
| "exit_value ATR_TRAIL = ''ATR_TRAIL''"
| "exit_value REGIME_INVALIDATION = ''REGIME_INVALIDATION''"
| "exit_value TIME_EXIT = ''TIME_EXIT''"
| "exit_value SESSION_EXIT = ''SESSION_EXIT''"
| "exit_value RISK_KILL = ''RISK_KILL''"
| "exit_value MANUAL = ''MANUAL''"
| "exit_value BROKER_ERROR_RECOVERY = ''BROKER_ERROR_RECOVERY''"

record open_position =
  xp_trade :: trade
  xp_target_price :: "float64 option"
  xp_extreme :: float64
  xp_bars_held :: int
  xp_be_applied :: bool
  xp_trail_active :: bool
  xp_last_swap_day :: int

record backtest_result =
  br_trades :: "trade list"
  br_equity_curve :: "(instant \<times> float64) list"
  br_rejections :: "(string, int) dict"
  br_regime_bar_counts :: "(string, int) dict"
  br_final_equity :: float64
  br_bars_processed :: int

definition bump :: "string \<Rightarrow> (string, int) dict \<Rightarrow> (string, int) dict" where
  "bump k d = AList.update k ((case map_of d k of None \<Rightarrow> 0 | Some n \<Rightarrow> n) + 1) d"

definition record_rejection :: "string \<Rightarrow> backtest_result \<Rightarrow> backtest_result" where
  "record_rejection reason r = r\<lparr>br_rejections := bump reason (br_rejections r)\<rparr>"

subsection \<open>Hourly bars\<close>

definition hour_of :: "instant \<Rightarrow> instant" where
  "hour_of t = t - t mod seconds 3600"

function h1_search :: "instant \<Rightarrow> instant list \<Rightarrow> int \<Rightarrow> int \<Rightarrow> int \<Rightarrow> int" where
  "h1_search t h1_times lo hi result =
     (if lo \<le> hi then
        let mid = (lo + hi) div 2
        in if h1_times ! nat mid + seconds 3600 \<le> t then h1_search t h1_times (mid + 1) hi mid
           else h1_search t h1_times lo (mid - 1) result
      else result)"
  by pat_completeness auto
termination by (relation "measure (\<lambda>(t, ts, lo, hi, r). nat (hi - lo + 1))") auto

declare h1_search.simps [simp del]

definition h1_index_for :: "instant \<Rightarrow> instant list \<Rightarrow> int" where
  "h1_index_for m15_time h1_times = h1_search m15_time h1_times 0 (int (length h1_times) - 1) (- 1)"

definition hour_bar :: "instant \<Rightarrow> bar list \<Rightarrow> bar" where
  "hour_bar key group_bars =
     \<lparr>b_time = key, b_open = b_open (hd group_bars), b_high = Max (set (map b_high group_bars)),
      b_low = Min (set (map b_low group_bars)), b_close = b_close (last group_bars),
      b_volume = exact_sum (map b_volume group_bars), b_spread_points = b_spread_points (last group_bars)\<rparr>"

definition hour_group :: "bar list \<Rightarrow> instant \<Rightarrow> bar list" where
  "hour_group m15_bars key = filter (\<lambda>b. hour_of (b_time b) = key) m15_bars"

definition aggregate_h1 :: "bar list \<Rightarrow> bar list" where
  "aggregate_h1 m15_bars =
     map (\<lambda>key. hour_bar key (hour_group m15_bars key))
       (filter (\<lambda>key. 4 \<le> length (hour_group m15_bars key)) (sort (remdups (map (\<lambda>b. hour_of (b_time b)) m15_bars))))"

subsection \<open>Guards and positions\<close>

definition entry_guards ::
  "int \<Rightarrow> int \<Rightarrow> bool \<Rightarrow> bool \<Rightarrow> bool \<Rightarrow> risk_state \<Rightarrow> float64 option \<Rightarrow> reject_reason option" where
  "entry_guards score threshold session_ok spread_ok blackout governor atr_value =
     (if \<not> holds_some (\<lambda>a. 0 < a) atr_value then Some ATR_INVALID
      else case entry_block_reason governor of
        Some block \<Rightarrow> Some block
      | None \<Rightarrow>
          if blackout then Some NEWS_BLACKOUT
          else if \<not> session_ok then Some SESSION_BLOCKED
          else if \<not> spread_ok then Some SPREAD_TOO_WIDE
          else if score < threshold then Some SCORE_BELOW_THRESHOLD
          else None)"

definition value_per_price_unit :: "float64 \<Rightarrow> broker_spec \<Rightarrow> float64" where
  "value_per_price_unit lots spec =
     (if bs_tick_size spec \<le> 0 then 0 else fdiv (fmul lots (bs_tick_value spec)) (bs_tick_size spec))"

definition entry_fill :: "bar \<Rightarrow> direction \<Rightarrow> broker_spec \<Rightarrow> execution_params \<Rightarrow> float64 \<times> float64" where
  "entry_fill b d spec ex =
     (let spread_price = fmul (fmul (b_spread_points b) (ep_spread_multiplier ex)) (bs_point spec);
          slip = fmul (ep_slippage_points_entry ex) (bs_point spec);
          cost = fmul (direction_value d) (fadd spread_price slip)
      in (fadd (b_open b) cost, \<bar>cost\<bar>))"

definition new_trade ::
  "bar \<Rightarrow> direction \<Rightarrow> float64 \<Rightarrow> float64 \<Rightarrow> float64 \<Rightarrow> int \<Rightarrow> regime \<Rightarrow> sizing_result \<Rightarrow> float64 \<Rightarrow> float64 \<Rightarrow> trade" where
  "new_trade b d entry stop signal_atr score rg sizing slippage commission =
     \<lparr>t_entry_time = b_time b, t_direction = d, t_entry_price = entry, t_stop_price = stop, t_initial_stop_price = stop,
      t_lots = sz_lots sizing, t_atr_at_signal = signal_atr, t_score = score, t_regime_at_entry = rg,
      t_risk_amount = sz_actual_risk sizing, t_exit_time = None, t_exit_price = None, t_exit_reason = None, t_pnl = 0,
      t_r_multiple = 0, t_mae = 0, t_mfe = 0, t_bars_held = 0, t_entry_slippage = slippage, t_exit_slippage = 0,
      t_costs = commission\<rparr>"

definition target_of :: "research_params \<Rightarrow> direction \<Rightarrow> float64 \<Rightarrow> float64 \<Rightarrow> float64 option" where
  "target_of p d entry stop =
     (if 0 < rp_tp_r_multiple p
      then Some (fadd entry (fmul (fmul (direction_value d) (rp_tp_r_multiple p)) \<bar>fsub entry stop\<bar>))
      else None)"

definition close_trade ::
  "open_position \<Rightarrow> instant \<Rightarrow> float64 \<Rightarrow> exit_reason \<Rightarrow> broker_spec \<Rightarrow> strategy_config \<Rightarrow> trade" where
  "close_trade pos exit_time exit_level reason spec cfg =
     (let t = xp_trade pos;
          slip = fmul (ep_slippage_points_exit (sc_execution cfg)) (bs_point spec);
          exit_price = (if t_direction t = DIR_LONG then fsub exit_level slip else fadd exit_level slip);
          move = (if t_direction t = DIR_LONG then fsub exit_price (t_entry_price t) else fsub (t_entry_price t) exit_price);
          pnl = fmul move (value_per_price_unit (t_lots t) spec);
          r_distance = risk_per_unit t
      in t\<lparr>t_exit_time := Some exit_time, t_exit_price := Some exit_price, t_exit_reason := Some reason, t_pnl := pnl,
           t_exit_slippage := slip,
           t_costs := fadd (t_costs t) (fmul (fadd (t_entry_slippage t) slip) (value_per_price_unit (t_lots t) spec)),
           t_bars_held := xp_bars_held pos,
           t_r_multiple := (if 0 < r_distance then fdiv move r_distance else 0)\<rparr>)"

subsection \<open>Managing a position\<close>

definition track_extremes :: "bar \<Rightarrow> open_position \<Rightarrow> open_position" where
  "track_extremes b pos =
     (let t = xp_trade pos;
          pos = pos\<lparr>xp_bars_held := xp_bars_held pos + 1\<rparr>
      in if t_direction t = DIR_LONG
         then pos\<lparr>xp_extreme := max (xp_extreme pos) (b_high b),
                  xp_trade := t\<lparr>t_mae := min (t_mae t) (fsub (b_low b) (t_entry_price t)),
                                t_mfe := max (t_mfe t) (fsub (b_high b) (t_entry_price t))\<rparr>\<rparr>
         else pos\<lparr>xp_extreme := min (xp_extreme pos) (b_low b),
                  xp_trade := t\<lparr>t_mae := min (t_mae t) (fsub (t_entry_price t) (b_high b)),
                                t_mfe := max (t_mfe t) (fsub (t_entry_price t) (b_low b))\<rparr>\<rparr>)"

definition stop_hit :: "bar \<Rightarrow> trade \<Rightarrow> bool" where
  "stop_hit b t = (if t_direction t = DIR_LONG then b_low b \<le> t_stop_price t else t_stop_price t \<le> b_high b)"

definition target_hit :: "bar \<Rightarrow> open_position \<Rightarrow> bool" where
  "target_hit b pos =
     holds_some (\<lambda>g. if t_direction (xp_trade pos) = DIR_LONG then g \<le> b_high b else b_low b \<le> g) (xp_target_price pos)"

definition tighter :: "trade \<Rightarrow> float64 \<Rightarrow> bool" where
  "tighter t candidate =
     (if t_direction t = DIR_LONG then t_stop_price t < candidate else candidate < t_stop_price t)"

definition break_even :: "research_params \<Rightarrow> float64 \<Rightarrow> open_position \<Rightarrow> open_position" where
  "break_even p r_now pos =
     (if 0 < rp_be_trigger_r p \<and> \<not> xp_be_applied pos \<and> rp_be_trigger_r p \<le> r_now \<and> tighter (xp_trade pos) (t_entry_price (xp_trade pos))
      then pos\<lparr>xp_trade := (xp_trade pos)\<lparr>t_stop_price := t_entry_price (xp_trade pos)\<rparr>, xp_be_applied := True\<rparr>
      else pos)"

definition trail_stop :: "research_params \<Rightarrow> float64 \<Rightarrow> open_position \<Rightarrow> open_position" where
  "trail_stop p r_now pos =
     (let t = xp_trade pos;
          offset = fmul (rp_trail_atr_mult p) (t_atr_at_signal t);
          candidate = (if t_direction t = DIR_LONG then fsub (xp_extreme pos) offset else fadd (xp_extreme pos) offset)
      in if rp_trail_activate_r p \<le> r_now \<and> 0 < t_atr_at_signal t \<and> tighter t candidate
         then pos\<lparr>xp_trade := t\<lparr>t_stop_price := candidate\<rparr>, xp_trail_active := True\<rparr>
         else pos)"

definition tighten_stop :: "research_params \<Rightarrow> bar \<Rightarrow> open_position \<Rightarrow> open_position" where
  "tighten_stop p b pos =
     (let t = xp_trade pos; r_distance = risk_per_unit t
      in if 0 < r_distance
         then let move = (if t_direction t = DIR_LONG then fsub (b_close b) (t_entry_price t) else fsub (t_entry_price t) (b_close b));
                  r_now = fdiv move r_distance
              in trail_stop p r_now (break_even p r_now pos)
         else pos)"

definition charge_swap :: "bar \<Rightarrow> broker_spec \<Rightarrow> open_position \<Rightarrow> float64 \<Rightarrow> open_position \<times> float64" where
  "charge_swap b spec pos equity =
     (let day_key = to_ordinal (b_time b); t = xp_trade pos
      in if xp_last_swap_day pos < 0 then (pos\<lparr>xp_last_swap_day := day_key\<rparr>, equity)
         else if xp_last_swap_day pos < day_key
         then let nights = of_int (day_key - xp_last_swap_day pos);
                  rate = (if t_direction t = DIR_LONG then bs_swap_long spec else bs_swap_short spec);
                  amount = fmul (fmul rate (t_lots t)) nights
              in (pos\<lparr>xp_trade := t\<lparr>t_costs := fsub (t_costs t) amount\<rparr>, xp_last_swap_day := day_key\<rparr>, fadd equity amount)
         else (pos, equity))"

text \<open>The position after the bar, or the closed trade; and the equity.\<close>

definition manage_position ::
  "open_position \<Rightarrow> bar \<Rightarrow> regime \<Rightarrow> float64 \<Rightarrow> broker_spec \<Rightarrow> strategy_config \<Rightarrow> zones \<Rightarrow> session_resolver
    \<Rightarrow> (open_position + trade) \<times> float64" where
  "manage_position pos b rg equity spec cfg z sessions =
     (let p = sc_research cfg;
          pos = track_extremes b pos;
          close = (\<lambda>pos level reason. let t = close_trade pos (b_time b) level reason spec cfg in (Inr t, fadd equity (t_pnl t)))
      in if stop_hit b (xp_trade pos)
         then close pos (t_stop_price (xp_trade pos)) (if xp_trail_active pos then ATR_TRAIL else STOP_LOSS)
      else if target_hit b pos then close pos (the (xp_target_price pos)) TARGET
      else let pos = tighten_stop p b pos;
               opposite = (if t_direction (xp_trade pos) = DIR_LONG then RG_TREND_DOWN else RG_TREND_UP)
      in if rg = opposite then close pos (b_close b) REGIME_INVALIDATION
      else if rp_max_bars_in_trade p \<le> xp_bars_held pos then close pos (b_close b) TIME_EXIT
      else if op_session_exit_enabled (sc_operational cfg) \<and> \<not> is_permitted z sessions (b_time b)
      then close pos (b_close b) SESSION_EXIT
      else let (pos, equity) = charge_swap b spec pos equity in (Inl pos, equity))"

subsection \<open>The loop\<close>

record backtest_env =
  be_bars :: "bar list"
  be_h1_times :: "instant list"
  be_regimes :: regime_series
  be_atr_m15 :: series
  be_config :: strategy_config
  be_spec :: broker_spec
  be_zones :: zones
  be_sessions :: session_resolver
  be_calendar :: news_calendar

record backtest_state =
  bt_equity :: float64
  bt_position :: "open_position option"
  bt_pending :: "(direction \<times> float64 \<times> float64 \<times> int \<times> regime) option"
  bt_last_signal_bar :: int
  bt_governor :: risk_state
  bt_machine :: setup_machine
  bt_result :: backtest_result

definition reject_signal :: "int \<Rightarrow> reject_reason \<Rightarrow> backtest_state \<Rightarrow> backtest_state" where
  "reject_signal i reason st =
     st\<lparr>bt_machine := on_signal_discarded i (reject_value reason) (bt_machine st),
        bt_result := record_rejection (reject_value reason) (bt_result st)\<rparr>"

definition open_pending :: "backtest_env \<Rightarrow> int \<Rightarrow> bar \<Rightarrow> backtest_state \<Rightarrow> xau_error + backtest_state" where
  "open_pending env i b st =
     (case (bt_pending st, bt_position st) of
        (Some (d, stop, signal_atr, score, rg), None) \<Rightarrow>
          let cfg = be_config env; spec = be_spec env; ex = sc_execution cfg;
              (entry, slippage) = entry_fill b d spec ex;
              st = st\<lparr>bt_pending := None\<rparr>
          in rbind (calculate_lots (bt_equity st) (effective_risk_pct (sc_risk cfg) (bt_governor st)) entry stop spec) (\<lambda>sizing.
             if \<not> is_tradeable sizing
             then let reason = reject_value (case sz_reject_reason sizing of None \<Rightarrow> RISK_SIZE_ZERO | Some r \<Rightarrow> r)
                  in Inr (st\<lparr>bt_machine := on_rejected i reason (bt_machine st),
                             bt_result := record_rejection reason (bt_result st)\<rparr>)
             else let commission = fmul (ep_commission_per_lot ex) (sz_lots sizing);
                      t = new_trade b d entry stop signal_atr score rg sizing slippage commission
                  in Inr (st\<lparr>bt_equity := fsub (bt_equity st) commission,
                             bt_machine := on_filled i (bt_machine st),
                             bt_position := Some \<lparr>xp_trade = t, xp_target_price = target_of (sc_research cfg) d entry stop,
                               xp_extreme = entry, xp_bars_held = 0, xp_be_applied = False, xp_trail_active = False,
                               xp_last_swap_day = - 1\<rparr>\<rparr>))
      | _ \<Rightarrow> Inr st)"

definition manage_open :: "backtest_env \<Rightarrow> int \<Rightarrow> bar \<Rightarrow> regime \<Rightarrow> backtest_state \<Rightarrow> backtest_state" where
  "manage_open env i b rg st =
     (case bt_position st of
        None \<Rightarrow> st
      | Some pos \<Rightarrow>
          (case manage_position pos b rg (bt_equity st) (be_spec env) (be_config env) (be_zones env) (be_sessions env) of
             (Inl pos', equity) \<Rightarrow> st\<lparr>bt_position := Some pos', bt_equity := equity\<rparr>
           | (Inr t, equity) \<Rightarrow>
               st\<lparr>bt_position := None, bt_equity := equity,
                  bt_machine := on_position_closed i (case t_exit_reason t of None \<Rightarrow> ''None'' | Some r \<Rightarrow> exit_value r) (bt_machine st),
                  bt_result := (bt_result st)\<lparr>br_trades := br_trades (bt_result st) @ [t]\<rparr>\<rparr>))"

definition stop_for :: "research_params \<Rightarrow> direction \<Rightarrow> float64 \<Rightarrow> float64 \<Rightarrow> float64" where
  "stop_for p d close_price a =
     (if d = DIR_LONG then fsub close_price (fmul (rp_sl_atr_mult p) a) else fadd close_price (fmul (rp_sl_atr_mult p) a))"

definition handle_signal ::
  "backtest_env \<Rightarrow> int \<Rightarrow> bar \<Rightarrow> regime_features \<Rightarrow> float64 option \<Rightarrow> direction \<Rightarrow> backtest_state \<Rightarrow> xau_error + backtest_state" where
  "handle_signal env i b features atr_v d st =
     (let cfg = be_config env; p = sc_research cfg; ex = sc_execution cfg; spec = be_spec env; rg = rf_regime features
      in if i = bt_last_signal_bar st then Inr (reject_signal i DUPLICATE_SIGNAL st)
      else let session_ok = is_permitted (be_zones env) (be_sessions env) (b_time b);
               effective_spread = fmul (b_spread_points b) (ep_spread_multiplier ex);
               breakdown = compute_score rg d (rf_normalized_slope features) (rf_atr_pct features) (sm_depth_atr (bt_machine st))
                 True session_ok effective_spread atr_v p (ep_spread_atr_max ex) (ep_spread_abs_max_points ex) (bs_point spec)
      in case entry_guards (score_total breakdown) (rp_entry_score_threshold p) session_ok (sb_spread_ok breakdown = 1)
               (is_blackout (be_calendar env) (to_utc (be_sessions env) (b_time b))) (bt_governor st) atr_v of
           Some reason \<Rightarrow> Inr (reject_signal i reason st)
         | None \<Rightarrow>
             let a = the atr_v; stop = stop_for p d (b_close b) a
             in rbind (calculate_lots (bt_equity st) (effective_risk_pct (sc_risk cfg) (bt_governor st)) (b_close b) stop spec) (\<lambda>sizing.
                if \<not> is_tradeable sizing
                then Inr (reject_signal i (case sz_reject_reason sizing of None \<Rightarrow> RISK_SIZE_ZERO | Some r \<Rightarrow> r) st)
                else if 0 < bs_stop_level_points spec
                  \<and> \<bar>fsub (b_close b) stop\<bar> < fmul (bs_stop_level_points spec) (bs_point spec)
                then Inr (reject_signal i STOP_LEVEL_VIOLATION st)
                else Inr (st\<lparr>bt_machine := on_order_submitted i (bt_machine st),
                             bt_pending := Some (d, stop, a, score_total breakdown, rg),
                             bt_last_signal_bar := i\<rparr>)))"

definition observe_bar :: "backtest_env \<Rightarrow> bar \<Rightarrow> regime \<Rightarrow> backtest_state \<Rightarrow> backtest_state" where
  "observe_bar env b rg st =
     st\<lparr>bt_governor := observe (sc_risk (be_config env)) (b_time b) (bt_equity st) (bt_governor st),
        bt_result := (bt_result st)\<lparr>br_regime_bar_counts := bump (''REGIME_'' @ regime_name rg) (br_regime_bar_counts (bt_result st))\<rparr>\<rparr>"

definition mark_bar :: "bar \<Rightarrow> backtest_state \<Rightarrow> backtest_state" where
  "mark_bar b st =
     st\<lparr>bt_result := (bt_result st)\<lparr>br_equity_curve := br_equity_curve (bt_result st) @ [(b_time b, bt_equity st)],
                                   br_bars_processed := br_bars_processed (bt_result st) + 1\<rparr>\<rparr>"

definition step_bar :: "backtest_env \<Rightarrow> nat \<times> bar \<Rightarrow> backtest_state \<Rightarrow> xau_error + backtest_state" where
  "step_bar env ib st =
     (let (n, b) = ib; i = int n
      in if \<not> bar_is_valid b then Inr (st\<lparr>bt_result := record_rejection ''BAR_INVALID'' (bt_result st)\<rparr>)
      else rbind (regime_at (be_regimes env) (h1_index_for (b_time b) (be_h1_times env))) (\<lambda>features.
        let rg = rf_regime features;
            atr_v = (if n < length (be_atr_m15 env) then be_atr_m15 env ! n else None)
        in rbind (open_pending env i b (observe_bar env b rg st)) (\<lambda>st.
           let st = mark_bar b (manage_open env i b rg st)
           in if i < warmup_bars_m15 (be_config env) then Inr st
              else if bt_position st \<noteq> None then Inr st
              else let (ready, machine) = on_closed_bar (be_bars env) i rg atr_v (bt_machine st);
                       st = st\<lparr>bt_machine := machine\<rparr>
              in case ready of
                   Inl e \<Rightarrow> Inl e
                 | Inr False \<Rightarrow> Inr st
                 | Inr True \<Rightarrow>
                     (case sm_direction machine of
                        None \<Rightarrow> Inr st
                      | Some d \<Rightarrow> handle_signal env i b features atr_v d st))))"

fun run_bars :: "backtest_env \<Rightarrow> (nat \<times> bar) list \<Rightarrow> backtest_state \<Rightarrow> xau_error + backtest_state" where
  "run_bars env [] st = Inr st"
| "run_bars env (ib # rest) st = rbind (step_bar env ib st) (run_bars env rest)"

definition start_state :: "research_params \<Rightarrow> float64 \<Rightarrow> backtest_state" where
  "start_state p equity =
     \<lparr>bt_equity = equity, bt_position = None, bt_pending = None, bt_last_signal_bar = - 1, bt_governor = new_risk_state,
      bt_machine = new_machine p,
      bt_result = \<lparr>br_trades = [], br_equity_curve = [], br_rejections = [], br_regime_bar_counts = [], br_final_equity = 0,
        br_bars_processed = 0\<rparr>\<rparr>"

definition make_env ::
  "bar list \<Rightarrow> strategy_config \<Rightarrow> broker_spec \<Rightarrow> bar list option \<Rightarrow> news_calendar option \<Rightarrow> zones \<Rightarrow> (instant \<Rightarrow> float64)
    \<Rightarrow> xau_error + backtest_env" where
  "make_env m15_bars cfg spec h1_bars news z offset =
     (let p = sc_research cfg; op = sc_operational cfg;
          h1 = (case h1_bars of None \<Rightarrow> aggregate_h1 m15_bars | Some bs \<Rightarrow> bs)
      in rbind (make_regime_series h1 p) (\<lambda>regimes.
         rbind (atr m15_bars (rp_atr_period_m15 p)) (\<lambda>atr_m15.
         Inr \<lparr>be_bars = m15_bars, be_h1_times = map b_time h1, be_regimes = regimes, be_atr_m15 = atr_m15, be_config = cfg,
              be_spec = spec, be_zones = z,
              be_sessions = \<lparr>sr_offset = offset, sr_allow_asian = op_allow_asian_session op, sr_block_rollover = op_block_rollover op\<rparr>,
              be_calendar = (case news of Some c \<Rightarrow> c | None \<Rightarrow> empty_calendar (op_news_required op))\<rparr>)))"

definition finish_run :: "backtest_env \<Rightarrow> backtest_state \<Rightarrow> backtest_result" where
  "finish_run env st =
     (case (bt_position st, be_bars env) of
        (Some pos, _ # _) \<Rightarrow>
          let b = last (be_bars env);
              t = close_trade pos (b_time b) (b_close b) MANUAL (be_spec env) (be_config env)
          in (bt_result st)\<lparr>br_trades := br_trades (bt_result st) @ [t], br_final_equity := fadd (bt_equity st) (t_pnl t)\<rparr>
      | _ \<Rightarrow> (bt_result st)\<lparr>br_final_equity := bt_equity st\<rparr>)"

definition run_backtest ::
  "bar list \<Rightarrow> strategy_config \<Rightarrow> broker_spec \<Rightarrow> float64 \<Rightarrow> bar list option \<Rightarrow> news_calendar option \<Rightarrow> zones \<Rightarrow> (instant \<Rightarrow> float64)
    \<Rightarrow> xau_error + backtest_result" where
  "run_backtest m15_bars cfg spec initial_equity h1_bars news z offset =
     rbind (validate_config cfg) (\<lambda>_.
     rbind (make_env m15_bars cfg spec h1_bars news z offset) (\<lambda>env.
     rbind (run_bars env (enumerate 0 m15_bars) (start_state (sc_research cfg) initial_equity)) (\<lambda>st.
     Inr (finish_run env st))))"

end
