(* ===== verification/Xau_Properties.thy ===== *)
theory Xau_Properties
  imports Xau_Backtest
begin

text \<open>
  What the backtest of the gold strategy guarantees: it returns on every validated configuration, it does not look ahead, its trades are
  the ones the setup machine and the guards admitted, and a stop only moves in favour of the position. Also what it does when the market
  opens beyond the stop of a pending order.
\<close>

subsection \<open>The last closed hour\<close>

abbreviation hour_micros :: int where
  "hour_micros \<equiv> seconds 3600"

lemma h1_search_spec:
  assumes "sorted ts" "0 \<le> lo" "hi < int (length ts)" "lo \<le> hi + 1"
    and "\<forall>k < nat lo. ts ! k + hour_micros \<le> t" and "\<forall>k. nat (hi + 1) \<le> k \<longrightarrow> k < length ts \<longrightarrow> t < ts ! k + hour_micros"
  shows "\<exists>n. h1_search t ts lo hi (lo - 1) = int n - 1 \<and> n \<le> length ts
    \<and> (\<forall>k < n. ts ! k + hour_micros \<le> t) \<and> (\<forall>k. n \<le> k \<longrightarrow> k < length ts \<longrightarrow> t < ts ! k + hour_micros)"
  using assms
proof (induction "nat (hi - lo + 1)" arbitrary: lo hi rule: less_induct)
  case less
  show ?case
  proof (cases "lo \<le> hi")
    case False
    then have "h1_search t ts lo hi (lo - 1) = int (nat lo) - 1" using less.prems(2) by (subst h1_search.simps) simp
    moreover have "nat (hi + 1) = nat lo" using False less.prems(4) by simp
    ultimately show ?thesis using less.prems by (intro exI [of _ "nat lo"]) auto
  next
    case True
    define mid where "mid = (lo + hi) div 2"
    have mid: "lo \<le> mid" "mid \<le> hi" using True by (auto simp: mid_def)
    have m: "nat mid < length ts" "nat (mid + 1) = Suc (nat mid)" using mid less.prems by auto
    show ?thesis
    proof (cases "ts ! nat mid + hour_micros \<le> t")
      case below: True
      have "\<forall>k < nat (mid + 1). ts ! k + hour_micros \<le> t"
      proof (intro allI impI)
        fix k assume "k < nat (mid + 1)"
        then have "ts ! k \<le> ts ! nat mid" using m less.prems(1) by (intro sorted_nth_mono) auto
        with below show "ts ! k + hour_micros \<le> t" by linarith
      qed
      then have "\<exists>n. h1_search t ts (mid + 1) hi (mid + 1 - 1) = int n - 1 \<and> n \<le> length ts
          \<and> (\<forall>k < n. ts ! k + hour_micros \<le> t) \<and> (\<forall>k. n \<le> k \<longrightarrow> k < length ts \<longrightarrow> t < ts ! k + hour_micros)"
        using less.hyps [of hi "mid + 1"] less.prems mid by simp
      moreover have "h1_search t ts lo hi (lo - 1) = h1_search t ts (mid + 1) hi mid"
        using True below by (subst h1_search.simps) (simp add: mid_def Let_def)
      ultimately show ?thesis by simp
    next
      case above: False
      have "\<forall>k. nat (mid - 1 + 1) \<le> k \<longrightarrow> k < length ts \<longrightarrow> t < ts ! k + hour_micros"
      proof (intro allI impI)
        fix k assume "nat (mid - 1 + 1) \<le> k" "k < length ts"
        then have "ts ! nat mid \<le> ts ! k" using less.prems(1) by (intro sorted_nth_mono) auto
        with above show "t < ts ! k + hour_micros" by linarith
      qed
      then have "\<exists>n. h1_search t ts lo (mid - 1) (lo - 1) = int n - 1 \<and> n \<le> length ts
          \<and> (\<forall>k < n. ts ! k + hour_micros \<le> t) \<and> (\<forall>k. n \<le> k \<longrightarrow> k < length ts \<longrightarrow> t < ts ! k + hour_micros)"
        using less.hyps [of "mid - 1" lo] less.prems mid by simp
      moreover have "h1_search t ts lo hi (lo - 1) = h1_search t ts lo (mid - 1) (lo - 1)"
        using True above by (subst h1_search.simps) (simp add: mid_def Let_def)
      ultimately show ?thesis by simp
    qed
  qed
qed

definition closed_h1 :: "instant \<Rightarrow> bar list \<Rightarrow> bar list" where
  "closed_h1 t h1 = takeWhile (\<lambda>b. b_time b + hour_micros \<le> t) h1"

lemma h1_index_closed:
  assumes "sorted (map b_time h1)"
  shows "h1_index_for t (map b_time h1) = int (length (closed_h1 t h1)) - 1"
proof -
  let ?ts = "map b_time h1"
  from h1_search_spec [OF assms, of 0 "int (length ?ts) - 1" t] obtain n
    where n: "h1_index_for t ?ts = int n - 1" "n \<le> length h1" "\<forall>k < n. ?ts ! k + hour_micros \<le> t"
      "\<forall>k. n \<le> k \<longrightarrow> k < length h1 \<longrightarrow> t < ?ts ! k + hour_micros"
    by (auto simp: h1_index_for_def)
  have "closed_h1 t h1 = take n h1"
    unfolding closed_h1_def by (rule takeWhile_eq_take_P_nth) (use n(3,4) in force)+
  then have "length (closed_h1 t h1) = n" using n(2) by simp
  with n(1) show ?thesis by simp
qed

subsection \<open>The hours of a prefix\<close>

lemma hour_of_bounds: "hour_of t \<le> t" "t < hour_of t + hour_micros"
proof -
  have "0 \<le> t mod hour_micros" "t mod hour_micros < hour_micros" by (simp_all add: seconds_def)
  then show "hour_of t \<le> t" "t < hour_of t + hour_micros" by (simp_all add: hour_of_def)
qed

lemma hour_group_append:
  assumes "\<forall>b \<in> set ys. t \<le> b_time b" "key + hour_micros \<le> t"
  shows "hour_group (xs @ ys) key = hour_group xs key"
proof -
  have "hour_of (b_time b) \<noteq> key" if "b \<in> set ys" for b
    using assms that hour_of_bounds(2) [of "b_time b"] by force
  then show ?thesis by (simp add: hour_group_def filter_empty_conv)
qed

definition hour_keys :: "bar list \<Rightarrow> instant list" where
  "hour_keys bars = sort (remdups (map (\<lambda>b. hour_of (b_time b)) bars))"

lemma hour_keys_props: "sorted (hour_keys bars)" "distinct (hour_keys bars)" "set (hour_keys bars) = (\<lambda>b. hour_of (b_time b)) ` set bars"
  by (simp_all add: hour_keys_def)

lemma closed_keys_append:
  assumes "\<forall>b \<in> set ys. t \<le> b_time b"
  shows "filter (\<lambda>k. k + hour_micros \<le> t) (hour_keys (xs @ ys)) = filter (\<lambda>k. k + hour_micros \<le> t) (hour_keys xs)"
proof (rule sorted_distinct_set_unique)
  have "hour_of (b_time b) + hour_micros \<le> t \<Longrightarrow> False" if "b \<in> set ys" for b
    using assms that hour_of_bounds(2) [of "b_time b"] by force
  then show "set (filter (\<lambda>k. k + hour_micros \<le> t) (hour_keys (xs @ ys))) = set (filter (\<lambda>k. k + hour_micros \<le> t) (hour_keys xs))"
    by (auto simp: hour_keys_props)
qed (simp_all add: hour_keys_props sorted_wrt_filter)

lemma aggregate_times: "sorted (map b_time (aggregate_h1 bars))"
proof -
  have "map b_time (aggregate_h1 bars) = filter (\<lambda>key. 4 \<le> length (hour_group bars key)) (hour_keys bars)"
    by (simp add: aggregate_h1_def hour_keys_def hour_bar_def comp_def)
  then show ?thesis by (simp add: hour_keys_props sorted_wrt_filter)
qed

lemma takeWhile_sorted_filter:
  "sorted (map b_time h1) \<Longrightarrow> takeWhile (\<lambda>b. b_time b + c \<le> t) h1 = filter (\<lambda>b. b_time b + c \<le> t) h1"
proof (induction h1)
  case (Cons h hs)
  have "filter (\<lambda>b. b_time b + c \<le> t) hs = []" if "\<not> b_time h + c \<le> t"
    using Cons.prems that by (auto simp: filter_empty_conv)
  with Cons show ?case by auto
qed simp

lemma closed_h1_append:
  assumes "\<forall>b \<in> set ys. t \<le> b_time b"
  shows "closed_h1 t (aggregate_h1 (xs @ ys)) = closed_h1 t (aggregate_h1 xs)"
proof -
  have shape: "closed_h1 t (aggregate_h1 bars) =
      map (\<lambda>key. hour_bar key (hour_group bars key))
        (filter (\<lambda>key. 4 \<le> length (hour_group bars key)) (filter (\<lambda>k. k + hour_micros \<le> t) (hour_keys bars)))" for bars
    unfolding closed_h1_def takeWhile_sorted_filter [OF aggregate_times]
    by (simp add: aggregate_h1_def hour_keys_def filter_map comp_def hour_bar_def conj_commute)
  have "hour_group (xs @ ys) k = hour_group xs k" if "k \<in> set (filter (\<lambda>k. k + hour_micros \<le> t) (hour_keys xs))" for k
    using that assms by (intro hour_group_append) auto
  then show ?thesis
    unfolding shape closed_keys_append [OF assms] by (intro map_cong filter_cong) auto
qed

subsection \<open>No look-ahead\<close>

lemma regime_of_closed:
  assumes ok: "params_ok p" and so: "sorted (map b_time h1)"
  shows "regime_at (regime_series_of p h1) (h1_index_for t (map b_time h1)) =
    (let c = closed_h1 t h1 in regime_at (regime_series_of p c) (int (length c) - 1))"
proof -
  let ?c = "closed_h1 t h1"
  obtain rest where h1: "h1 = ?c @ rest" unfolding closed_h1_def by (metis takeWhile_dropWhile_id)
  show ?thesis
  proof (cases "?c = []")
    case True
    then show ?thesis unfolding h1_index_closed [OF so] by (simp add: regime_at_def Let_def)
  next
    case False
    then have "regime_at (regime_series_of p (?c @ rest)) (int (length ?c) - 1) = regime_at (regime_series_of p ?c) (int (length ?c) - 1)"
      by (intro regime_at_prefix [OF ok]) (simp_all add: Suc_leI)
    then show ?thesis unfolding h1_index_closed [OF so] Let_def h1 [symmetric] .
  qed
qed

lemma nth_append_less: "0 \<le> i \<Longrightarrow> i < int (length xs) \<Longrightarrow> (xs @ ys) ! nat i = xs ! nat i"
  by (subst nth_append) (simp add: nat_less_iff)

lemma update_swing_prefix:
  assumes "end_index < int (length xs)"
  shows "update_swing (xs @ ys) end_index m = update_swing xs end_index m"
proof (cases "sm_direction m")
  case (Some d)
  let ?lo = "end_index - rp_impulse_lookback (sm_params m) + 1"
  have w: "take (nat (end_index + 1 - ?lo)) (drop (nat ?lo) (xs @ ys)) = take (nat (end_index + 1 - ?lo)) (drop (nat ?lo) xs)"
    if "\<not> (?lo < 0 \<or> end_index < 0)"
  proof (cases "0 \<le> end_index + 1 - ?lo")
    case True
    then have "nat (end_index + 1 - ?lo) \<le> length xs - nat ?lo" using assms that by linarith
    then show ?thesis by (simp add: take_append)
  qed simp
  show ?thesis
  proof (cases "?lo < 0 \<or> end_index < 0")
    case True
    with Some show ?thesis by (simp add: update_swing_def)
  next
    case False
    show ?thesis unfolding update_swing_def Let_def w [OF False] ..
  qed
qed (simp add: update_swing_def)

lemma on_closed_bar_prefix:
  assumes "i < int (length xs)"
  shows "on_closed_bar (xs @ ys) i rg atr_v m = on_closed_bar xs i rg atr_v m"
proof (cases "0 \<le> i")
  case True
  have sw: "update_swing (xs @ ys) (i - 1) n = update_swing xs (i - 1) n" for n using assms by (intro update_swing_prefix) simp
  have b: "(xs @ ys) ! nat i = xs ! nat i" using True assms by (rule nth_append_less)
  have prev: "(xs @ ys) ! nat (i - 1) = xs ! nat (i - 1)" using True assms by (subst nth_append) auto
  have sa: "step_armed (xs @ ys) i rg a n = step_armed xs i rg a n" for a n unfolding step_armed_def sw b prev ..
  have sp: "step_pullback (xs @ ys) i rg a n = step_pullback xs i rg a n" for a n unfolding step_pullback_def b ..
  have len: "i < 0 \<or> int (length (xs @ ys)) \<le> i \<longleftrightarrow> i < 0 \<or> int (length xs) \<le> i" using assms by simp
  show ?thesis unfolding on_closed_bar_def b sa sp len ..
qed (simp add: on_closed_bar_def)

text \<open>The environment of a run that is given a prefix of the bars.\<close>

definition env_of ::
  "strategy_config \<Rightarrow> broker_spec \<Rightarrow> news_calendar option \<Rightarrow> zones \<Rightarrow> (instant \<Rightarrow> float64) \<Rightarrow> bar list \<Rightarrow> backtest_env" where
  "env_of cfg spec news z offset bars =
     (let p = sc_research cfg; op = sc_operational cfg
      in \<lparr>be_bars = bars, be_h1_times = map b_time (aggregate_h1 bars), be_regimes = regime_series_of p (aggregate_h1 bars),
          be_atr_m15 = rma_series (nat (rp_atr_period_m15 p)) 1 (true_range bars), be_config = cfg, be_spec = spec, be_zones = z,
          be_sessions = \<lparr>sr_offset = offset, sr_allow_asian = op_allow_asian_session op, sr_block_rollover = op_block_rollover op\<rparr>,
          be_calendar = (case news of Some c \<Rightarrow> c | None \<Rightarrow> empty_calendar (op_news_required op))\<rparr>)"

lemma config_params_ok: "validate_config cfg = Inr () \<Longrightarrow> params_ok (sc_research cfg)"
  by (auto simp: validate_config_def params_ok_def rbind_Inr_iff)

lemma make_env_ok:
  assumes "params_ok (sc_research cfg)"
  shows "make_env bars cfg spec None news z offset = Inr (env_of cfg spec news z offset bars)"
  using params_ok_periods(6) [OF assms]
  by (simp add: make_env_def Let_def make_regime_series_ok [OF assms] atr_def wilder_rma_def env_of_def)

lemma env_fields [simp]:
  "be_bars (env_of cfg spec news z offset bars) = bars"
  "be_h1_times (env_of cfg spec news z offset bars) = map b_time (aggregate_h1 bars)"
  "be_regimes (env_of cfg spec news z offset bars) = regime_series_of (sc_research cfg) (aggregate_h1 bars)"
  "be_atr_m15 (env_of cfg spec news z offset bars) = rma_series (nat (rp_atr_period_m15 (sc_research cfg))) 1 (true_range bars)"
  "be_config (env_of cfg spec news z offset bars) = cfg" "be_spec (env_of cfg spec news z offset bars) = spec"
  by (simp_all add: env_of_def Let_def)

lemma env_shared:
  "be_zones (env_of cfg spec news z offset xs) = be_zones (env_of cfg spec news z offset ys)"
  "be_sessions (env_of cfg spec news z offset xs) = be_sessions (env_of cfg spec news z offset ys)"
  "be_calendar (env_of cfg spec news z offset xs) = be_calendar (env_of cfg spec news z offset ys)"
  by (simp_all add: env_of_def Let_def)

lemma step_bar_prefix:
  assumes ok: "params_ok (sc_research cfg)" and so: "sorted (map b_time (xs @ ys))" and n: "n < length xs" "b = xs ! n"
  shows "step_bar (env_of cfg spec news z offset (xs @ ys)) (n, b) st = step_bar (env_of cfg spec news z offset xs) (n, b) st"
proof -
  let ?p = "sc_research cfg" and ?e = "env_of cfg spec news z offset (xs @ ys)" and ?f = "env_of cfg spec news z offset xs"
  have later: "\<forall>c \<in> set ys. b_time b \<le> b_time c" using so n by (auto simp: sorted_append)
  have rg: "regime_at (be_regimes ?e) (h1_index_for (b_time b) (be_h1_times ?e)) =
      regime_at (be_regimes ?f) (h1_index_for (b_time b) (be_h1_times ?f))"
    by (simp add: regime_of_closed [OF ok aggregate_times] closed_h1_append [OF later])
  obtain k where k: "nat (rp_atr_period_m15 ?p) = Suc k" using params_ok_periods(6) [OF ok] by (metis period_Suc)
  have tr: "true_range xs = take (length xs) (true_range (xs @ ys))"
    using pairwise.prefix_series [of "length xs" bar_range "xs @ ys"] by (simp add: true_range_def)
  have len: "length (true_range bars) = length bars" for bars by (simp add: true_range_def)
  have a: "(if n < length (be_atr_m15 ?e) then be_atr_m15 ?e ! n else None) = (if n < length (be_atr_m15 ?f) then be_atr_m15 ?f ! n else None)"
    using n(1) rma.nth_prefix [of n "length xs" k 1 "true_range (xs @ ys)"] tr by (simp add: k rma.length_series len)
  have oc: "on_closed_bar (xs @ ys) (int n) rg v m = on_closed_bar xs (int n) rg v m" for rg v m
    using n(1) by (intro on_closed_bar_prefix) simp
  note sh = env_shared [of cfg spec news z offset "xs @ ys" xs]
  have op: "open_pending ?e i b s = open_pending ?f i b s" for i s unfolding open_pending_def env_fields ..
  have mo: "manage_open ?e i b rg s = manage_open ?f i b rg s" for i rg s unfolding manage_open_def env_fields sh ..
  have ob: "observe_bar ?e b rg s = observe_bar ?f b rg s" for rg s unfolding observe_bar_def env_fields ..
  have hs: "handle_signal ?e i b fs v d s = handle_signal ?f i b fs v d s" for i fs v d s
    unfolding handle_signal_def env_fields sh ..
  show ?thesis unfolding step_bar_def prod.case Let_def rg a op mo ob hs env_fields(1,5) oc ..
qed

lemma run_bars_append: "run_bars env (xs @ ys) st = rbind (run_bars env xs st) (run_bars env ys)"
  by (induction xs arbitrary: st) (auto simp: rbind_def split: sum.split)

lemma run_bars_cong:
  "(\<And>ib s. ib \<in> set ibs \<Longrightarrow> step_bar env ib s = step_bar env' ib s) \<Longrightarrow> run_bars env ibs st = run_bars env' ibs st"
  by (induction ibs arbitrary: st) (auto simp: rbind_def split: sum.split)

lemma run_bars_prefix:
  assumes "params_ok (sc_research cfg)" "sorted (map b_time (xs @ ys))"
  shows "run_bars (env_of cfg spec news z offset (xs @ ys)) (enumerate 0 xs) st =
    run_bars (env_of cfg spec news z offset xs) (enumerate 0 xs) st"
proof (rule run_bars_cong)
  fix ib s assume mem: "ib \<in> set (enumerate 0 xs)"
  obtain n c where ib: "ib = (n, c)" by (cases ib)
  have "n < length xs" "c = xs ! n" using mem ib by (auto simp: in_set_enumerate_eq)
  then show "step_bar (env_of cfg spec news z offset (xs @ ys)) ib s = step_bar (env_of cfg spec news z offset xs) ib s"
    unfolding ib by (rule step_bar_prefix [OF assms])
qed

subsection \<open>The run returns and its records only grow\<close>

lemma floor_lots_returns: "0 < step \<Longrightarrow> \<exists>v. floor_lots x step = Inr v"
  by (simp add: floor_lots_def Let_def)

lemma calculate_lots_returns: "\<exists>r. calculate_lots equity risk_pct entry stop spec = Inr r"
proof (cases "spec_is_valid spec")
  case True
  then have "0 < bs_lot_step spec" by (auto simp: spec_is_valid_def split: if_splits)
  then have "\<exists>v. floor_lots x (bs_lot_step spec) = Inr v" for x by (rule floor_lots_returns)
  then show ?thesis
    unfolding calculate_lots_def Let_def by (auto simp: rbind_def split: sum.split) (metis sum.distinct(1))+
qed (simp add: calculate_lots_def)

text \<open>The stop of an open position only tightens, and what the order was admitted on is never changed.\<close>

fun trend_of :: "direction \<Rightarrow> regime" where
  "trend_of DIR_LONG = RG_TREND_UP"
| "trend_of DIR_SHORT = RG_TREND_DOWN"

lemma trend_of_direction: "direction_for rg = Some d \<Longrightarrow> rg = trend_of d"
  by (cases rg) auto

definition no_looser :: "trade \<Rightarrow> trade \<Rightarrow> bool" where
  "no_looser t t' \<longleftrightarrow>
     t_entry_time t' = t_entry_time t \<and> t_direction t' = t_direction t \<and> t_entry_price t' = t_entry_price t \<and> t_initial_stop_price t' = t_initial_stop_price t
     \<and> t_lots t' = t_lots t \<and> t_score t' = t_score t \<and> t_regime_at_entry t' = t_regime_at_entry t
     \<and> (case t_direction t of DIR_LONG \<Rightarrow> t_stop_price t \<le> t_stop_price t' | DIR_SHORT \<Rightarrow> t_stop_price t' \<le> t_stop_price t)"

lemma no_looser_refl [simp]: "no_looser t t"
  by (simp add: no_looser_def split: direction.split)

lemma no_looser_trans: "no_looser t u \<Longrightarrow> no_looser u v \<Longrightarrow> no_looser t v"
  by (auto simp: no_looser_def split: direction.splits)

lemma track_no_looser: "no_looser (xp_trade pos) (xp_trade (track_extremes b pos))"
  by (auto simp: track_extremes_def no_looser_def Let_def split: direction.split)

lemma tighten_no_looser: "no_looser (xp_trade pos) (xp_trade (tighten_stop p b pos))"
proof -
  have be: "no_looser (xp_trade pos) (xp_trade (break_even p r pos))" for r pos
    by (auto simp: break_even_def no_looser_def tighter_def split: direction.split)
  have tr: "no_looser (xp_trade pos) (xp_trade (trail_stop p r pos))" for r pos
    by (auto simp: trail_stop_def no_looser_def tighter_def Let_def split: direction.split)
  have "no_looser (xp_trade pos) (xp_trade (trail_stop p r (break_even p r pos)))" for r
    by (rule no_looser_trans [OF be tr])
  then show ?thesis by (simp add: tighten_stop_def Let_def)
qed

lemma close_no_looser: "no_looser (xp_trade pos) (close_trade pos tm level reason spec cfg)"
  by (simp add: close_trade_def Let_def no_looser_def split: direction.split)

lemma close_exit: "t_exit_reason (close_trade pos tm level reason spec cfg) = Some reason" "t_exit_time (close_trade pos tm level reason spec cfg) = Some tm"
  by (simp_all add: close_trade_def Let_def)

lemma swap_no_looser: "no_looser (xp_trade pos) (xp_trade (fst (charge_swap b spec pos equity)))"
  by (auto simp: charge_swap_def Let_def no_looser_def split: direction.split)

lemma manage_no_looser:
  assumes "manage_position pos b rg equity spec cfg z sessions = (r, equity')"
  shows "case r of Inl pos' \<Rightarrow> no_looser (xp_trade pos) (xp_trade pos')
    | Inr t \<Rightarrow> no_looser (xp_trade pos) t \<and> t_exit_reason t \<noteq> None \<and> t_exit_time t = Some (b_time b)"
proof -
  define p1 where "p1 = track_extremes b pos"
  define p2 where "p2 = tighten_stop (sc_research cfg) b p1"
  have 1: "no_looser (xp_trade pos) (xp_trade p1)" unfolding p1_def by (rule track_no_looser)
  then have 2: "no_looser (xp_trade pos) (xp_trade p2)" unfolding p2_def using tighten_no_looser no_looser_trans by blast
  have c: "no_looser (xp_trade pos) (close_trade p1 tm level reason spec cfg)" "no_looser (xp_trade pos) (close_trade p2 tm level reason spec cfg)"
    for tm level reason using 1 2 close_no_looser no_looser_trans by blast+
  have s: "no_looser (xp_trade pos) (xp_trade (fst (charge_swap b spec p2 equity)))" using 2 swap_no_looser no_looser_trans by blast
  show ?thesis
    using assms c s
    by (auto simp: manage_position_def Let_def p1_def [symmetric] p2_def [symmetric] close_exit split: if_splits prod.splits)
qed

subsection \<open>The invariant of the loop\<close>

definition trade_sound :: "strategy_config \<Rightarrow> broker_spec \<Rightarrow> trade \<Rightarrow> bool" where
  "trade_sound cfg spec t \<longleftrightarrow>
     t_regime_at_entry t = trend_of (t_direction t) \<and> rp_entry_score_threshold (sc_research cfg) \<le> t_score t
     \<and> bs_min_lot spec \<le> t_lots t
     \<and> (case t_direction t of DIR_LONG \<Rightarrow> t_initial_stop_price t \<le> t_stop_price t | DIR_SHORT \<Rightarrow> t_stop_price t \<le> t_initial_stop_price t)"

definition closed_sound :: "strategy_config \<Rightarrow> broker_spec \<Rightarrow> trade \<Rightarrow> bool" where
  "closed_sound cfg spec t \<longleftrightarrow> trade_sound cfg spec t \<and> t_exit_reason t \<noteq> None \<and> t_exit_time t \<noteq> None"

definition phase_ok :: "strategy_config \<Rightarrow> broker_spec \<Rightarrow> backtest_state \<Rightarrow> bool" where
  "phase_ok cfg spec st \<longleftrightarrow>
     (case (bt_position st, bt_pending st) of
        (Some pos, None) \<Rightarrow> sm_state (bt_machine st) = IN_POSITION \<and> trade_sound cfg spec (xp_trade pos)
      | (None, Some (d, _, _, score, rg)) \<Rightarrow>
          sm_state (bt_machine st) = ORDER_SUBMITTED \<and> rg = trend_of d \<and> rp_entry_score_threshold (sc_research cfg) \<le> score
      | (None, None) \<Rightarrow> sm_state (bt_machine st) \<in> {SCANNING, ARMED, PULLBACK_ACTIVE, BREAKOUT_WINDOW}
      | (Some _, Some _) \<Rightarrow> False)"

definition bt_inv :: "strategy_config \<Rightarrow> broker_spec \<Rightarrow> backtest_state \<Rightarrow> bool" where
  "bt_inv cfg spec st \<longleftrightarrow>
     machine_inv (sc_research cfg) SCANNING (bt_machine st) \<and> phase_ok cfg spec st
     \<and> (\<forall>t \<in> set (br_trades (bt_result st)). closed_sound cfg spec t)"

definition extends :: "backtest_state \<Rightarrow> backtest_state \<Rightarrow> bool" where
  "extends st st' \<longleftrightarrow>
     (\<exists>ts. br_trades (bt_result st') = br_trades (bt_result st) @ ts)
     \<and> (\<exists>es. br_equity_curve (bt_result st') = br_equity_curve (bt_result st) @ es)"

lemma extends_refl [simp]: "extends st st"
  by (simp add: extends_def)

lemma extends_trans: "extends st st' \<Longrightarrow> extends st' st'' \<Longrightarrow> extends st st''"
  by (auto simp: extends_def)

lemma no_looser_sound: "trade_sound cfg spec t \<Longrightarrow> no_looser t t' \<Longrightarrow> trade_sound cfg spec t'"
  by (auto simp: trade_sound_def no_looser_def split: direction.splits)

lemma record_rejection_fields [simp]:
  "br_trades (record_rejection r res) = br_trades res" "br_equity_curve (record_rejection r res) = br_equity_curve res"
  by (simp_all add: record_rejection_def)

lemma reset_machine_state [simp]:
  "sm_state (on_rejected i r m) = SCANNING" "sm_state (on_signal_discarded i r m) = SCANNING" "sm_state (on_position_closed i r m) = SCANNING"
  "sm_state (on_order_submitted i m) = ORDER_SUBMITTED" "sm_state (on_filled i m) = IN_POSITION"
  by (simp_all add: on_rejected_def on_signal_discarded_def on_position_closed_def on_order_submitted_def on_filled_def)

lemma callbacks_inv:
  assumes "machine_inv p s0 m"
  shows "machine_inv p s0 (on_rejected i r m)" "machine_inv p s0 (on_signal_discarded i r m)" "machine_inv p s0 (on_position_closed i r m)"
  using callback_inv(1) [OF assms] by (simp_all add: on_rejected_def on_signal_discarded_def on_position_closed_def)

lemma phase_ok_cong:
  "bt_position st' = bt_position st \<Longrightarrow> bt_pending st' = bt_pending st \<Longrightarrow> bt_machine st' = bt_machine st
     \<Longrightarrow> phase_ok cfg spec st' = phase_ok cfg spec st"
  by (simp add: phase_ok_def cong: option.case_cong)

lemma observe_bar_ok: "bt_inv cfg spec st \<Longrightarrow> bt_inv cfg spec (observe_bar env b rg st) \<and> extends st (observe_bar env b rg st)"
proof -
  have "phase_ok cfg spec (observe_bar env b rg st) = phase_ok cfg spec st" by (rule phase_ok_cong) (simp_all add: observe_bar_def)
  then show "bt_inv cfg spec st \<Longrightarrow> ?thesis" unfolding bt_inv_def by (simp add: observe_bar_def extends_def)
qed

lemma mark_bar_ok: "bt_inv cfg spec st \<Longrightarrow> bt_inv cfg spec (mark_bar b st) \<and> extends st (mark_bar b st)"
proof -
  have "phase_ok cfg spec (mark_bar b st) = phase_ok cfg spec st" by (rule phase_ok_cong) (simp_all add: mark_bar_def)
  then show "bt_inv cfg spec st \<Longrightarrow> ?thesis" unfolding bt_inv_def by (simp add: mark_bar_def extends_def)
qed

lemma mark_bar_fields [simp]:
  "bt_position (mark_bar b st) = bt_position st" "bt_pending (mark_bar b st) = bt_pending st" "bt_machine (mark_bar b st) = bt_machine st"
  by (simp_all add: mark_bar_def)

lemma open_pending_ok:
  assumes "bt_inv cfg spec st" "be_config env = cfg" "be_spec env = spec"
  shows "\<exists>st'. open_pending env i b st = Inr st' \<and> bt_inv cfg spec st' \<and> bt_pending st' = None \<and> extends st st'"
proof (cases "bt_pending st")
  case None
  then show ?thesis using assms(1) by (simp add: open_pending_def)
next
  case (Some q)
  obtain d stop a score rg where q: "q = (d, stop, a, score, rg)" by (cases q)
  have pos: "bt_position st = None" and st: "sm_state (bt_machine st) = ORDER_SUBMITTED" and rg: "rg = trend_of d"
    and sc: "rp_entry_score_threshold (sc_research cfg) \<le> score"
    using assms(1) Some q by (auto simp: bt_inv_def phase_ok_def split: option.splits)
  have inv: "machine_inv (sc_research cfg) SCANNING (bt_machine st)"
    and trades: "\<forall>t \<in> set (br_trades (bt_result st)). closed_sound cfg spec t"
    using assms(1) by (auto simp: bt_inv_def)
  obtain entry slippage where e: "entry_fill b d spec (sc_execution cfg) = (entry, slippage)" by fastforce
  obtain sizing where sz: "calculate_lots (bt_equity st) (effective_risk_pct (sc_risk cfg) (bt_governor st)) entry stop spec = Inr sizing"
    using calculate_lots_returns by blast
  show ?thesis
  proof (cases "is_tradeable sizing")
    case True
    have "trade_sound cfg spec (new_trade b d entry stop a score rg sizing slippage c)" for c
      using tradeable_size(2) [OF sz True] rg sc by (simp add: new_trade_def trade_sound_def split: direction.split)
    with True show ?thesis
      using Some q pos assms(2,3) e sz callback_inv(3) [OF inv st] trades
      by (simp add: open_pending_def Let_def bt_inv_def phase_ok_def extends_def)
  next
    case False
    then show ?thesis
      using Some q pos assms(2,3) e sz callbacks_inv [OF inv] trades
      by (simp add: open_pending_def Let_def bt_inv_def phase_ok_def extends_def)
  qed
qed

lemma manage_open_ok:
  assumes "bt_inv cfg spec st" "bt_pending st = None"
  shows "bt_inv cfg spec (manage_open env i b rg st) \<and> bt_pending (manage_open env i b rg st) = None \<and> extends st (manage_open env i b rg st)"
proof (cases "bt_position st")
  case None
  then show ?thesis using assms by (simp add: manage_open_def)
next
  case (Some pos)
  obtain r equity where m: "manage_position pos b rg (bt_equity st) (be_spec env) (be_config env) (be_zones env) (be_sessions env) = (r, equity)"
    by fastforce
  have ts: "trade_sound cfg spec (xp_trade pos)" and st: "sm_state (bt_machine st) = IN_POSITION"
    and inv: "machine_inv (sc_research cfg) SCANNING (bt_machine st)"
    and trades: "\<forall>t \<in> set (br_trades (bt_result st)). closed_sound cfg spec t"
    using assms Some by (auto simp: bt_inv_def phase_ok_def)
  show ?thesis
  proof (cases r)
    case (Inl pos')
    then have "trade_sound cfg spec (xp_trade pos')" using manage_no_looser [OF m] no_looser_sound [OF ts] by simp
    then show ?thesis
      using Some m Inl assms(2) st inv trades by (simp add: manage_open_def bt_inv_def phase_ok_def extends_def)
  next
    case (Inr t)
    then have "closed_sound cfg spec t" using manage_no_looser [OF m] no_looser_sound [OF ts] by (simp add: closed_sound_def)
    then show ?thesis
      using Some m Inr assms(2) callbacks_inv [OF inv] trades by (auto simp: manage_open_def bt_inv_def phase_ok_def extends_def)
  qed
qed

text \<open>A signal that the machine confirmed is either discarded or submitted.\<close>

lemma reject_signal_ok:
  assumes "machine_inv (sc_research cfg) SCANNING (bt_machine st)" "bt_position st = None" "bt_pending st = None"
    "\<forall>t \<in> set (br_trades (bt_result st)). closed_sound cfg spec t"
  shows "bt_inv cfg spec (reject_signal i reason st)" "extends st (reject_signal i reason st)"
  using callbacks_inv [OF assms(1)] assms by (simp_all add: reject_signal_def bt_inv_def phase_ok_def extends_def)

lemma guards_score: "entry_guards score threshold a b c g v = None \<Longrightarrow> threshold \<le> score"
  by (auto simp: entry_guards_def split: if_splits option.splits)

lemma handle_signal_ok:
  assumes "machine_inv (sc_research cfg) SCANNING (bt_machine st)" "bt_position st = None" "bt_pending st = None"
    "\<forall>t \<in> set (br_trades (bt_result st)). closed_sound cfg spec t"
    and ready: "sm_state (bt_machine st) = SIGNAL_READY" and rg: "direction_for (rf_regime features) = Some d"
    and env: "be_config env = cfg" "be_spec env = spec"
  shows "\<exists>st'. handle_signal env i b features atr_v d st = Inr st' \<and> bt_inv cfg spec st' \<and> extends st st'"
proof -
  note rej = reject_signal_ok [OF assms(1-4)]
  obtain sz where sz: "calculate_lots (bt_equity st) (effective_risk_pct (sc_risk cfg) (bt_governor st)) (b_close b)
      (stop_for (sc_research cfg) d (b_close b) (the atr_v)) spec = Inr sz" using calculate_lots_returns by blast
  have sub: "bt_inv cfg spec (st\<lparr>bt_machine := on_order_submitted i (bt_machine st), bt_pending := Some (d, stop, a, score, rf_regime features),
      bt_last_signal_bar := i\<rparr>)" if "rp_entry_score_threshold (sc_research cfg) \<le> score" for stop a score
    using assms(2,4) callback_inv(2) [OF assms(1) ready] that trend_of_direction [OF rg] by (simp add: bt_inv_def phase_ok_def)
  have ext: "extends st (st\<lparr>bt_machine := m, bt_pending := q, bt_last_signal_bar := j\<rparr>)" for m q j by (simp add: extends_def)
  show ?thesis
    unfolding handle_signal_def Let_def env sz
    by (auto simp: rej sub ext dest!: guards_score split: option.split)
qed

lemma update_swing_state [simp]: "sm_state (snd (update_swing bars i m)) = sm_state m"
  by (auto simp: update_swing_def Let_def split: option.split direction.split)

text \<open>A closed bar never submits an order and never opens a position.\<close>

definition waiting_states :: "setup_state set" where
  "waiting_states = {SCANNING, ARMED, PULLBACK_ACTIVE, BREAKOUT_WINDOW}"

lemma step_armed_waits:
  assumes "sm_state m = ARMED"
  shows "sm_state (snd (step_armed bars i rg a m)) \<in> waiting_states"
  using assms update_swing_state [of bars "i - 1" m]
  by (auto simp: step_armed_def regime_still_valid_def waiting_states_def Let_def simp del: update_swing_state split: sum.split bool.split prod.split)

lemma step_pullback_waits:
  assumes "sm_state m = PULLBACK_ACTIVE"
  shows "sm_state (snd (step_pullback bars i rg a m)) \<in> insert SIGNAL_READY waiting_states"
  using assms
  by (auto simp: step_pullback_def extend_pullback_def regime_still_valid_def waiting_states_def Let_def split: sum.split bool.split option.split)

lemma step_window_waits:
  assumes "sm_state m = BREAKOUT_WINDOW"
  shows "sm_state (snd (step_window i rg a b m)) \<in> insert SIGNAL_READY waiting_states"
  using assms by (auto simp: step_window_def regime_still_valid_def waiting_states_def Let_def split: sum.split bool.split)

lemma on_closed_bar_waits:
  assumes "sm_state m \<in> waiting_states"
  shows "sm_state (snd (on_closed_bar bars i rg v m)) \<in> insert SIGNAL_READY waiting_states"
proof -
  let ?m = "m\<lparr>sm_setup_age_bars := sm_setup_age_bars m + 1\<rparr>"
  have sc: "sm_state (snd (step_scanning i rg m)) \<in> insert SIGNAL_READY waiting_states" if "sm_state m = SCANNING"
    using that by (auto simp: step_scanning_def waiting_states_def split: option.split)
  have reset: "SCANNING \<in> waiting_states" by (simp add: waiting_states_def)
  from assms consider "sm_state m = SCANNING" | "sm_state m = ARMED" | "sm_state m = PULLBACK_ACTIVE" | "sm_state m = BREAKOUT_WINDOW"
    by (auto simp: waiting_states_def)
  then show ?thesis
    using assms reset sc step_armed_waits [of ?m bars i rg] step_pullback_waits [of ?m bars i rg] step_window_waits [of ?m i rg]
    by cases (simp_all add: on_closed_bar_def split: option.split)
qed

lemma step_bar_ok:
  assumes inv: "bt_inv cfg spec st" and ok: "params_ok (sc_research cfg)"
    and env: "be_config env = cfg" "be_spec env = spec" "be_regimes env = regime_series_of (sc_research cfg) h1"
  shows "\<exists>st'. step_bar env ib st = Inr st' \<and> bt_inv cfg spec st' \<and> extends st st'"
proof -
  obtain n b where ib: "ib = (n, b)" by (cases ib)
  show ?thesis
  proof (cases "bar_is_valid b")
    case False
    have "bt_inv cfg spec (st\<lparr>bt_result := record_rejection r (bt_result st)\<rparr>)" for r
      using inv phase_ok_cong [of "st\<lparr>bt_result := record_rejection r (bt_result st)\<rparr>" st] by (simp add: bt_inv_def)
    then show ?thesis using False ib by (simp add: step_bar_def extends_def)
  next
    case True
    obtain features where f: "regime_at (be_regimes env) (h1_index_for (b_time b) (be_h1_times env)) = Inr features"
      unfolding env(3) using regime_at_returns [OF ok] by blast
    let ?rg = "rf_regime features"
    define v where "v = (if n < length (be_atr_m15 env) then be_atr_m15 env ! n else None)"
    from observe_bar_ok [OF inv, of env b ?rg] open_pending_ok [OF _ env(1,2), where st = "observe_bar env b ?rg st"]
    obtain st1 where st1: "open_pending env (int n) b (observe_bar env b ?rg st) = Inr st1" "bt_inv cfg spec st1" "bt_pending st1 = None"
      "extends st st1" using extends_trans by blast
    define st2 where "st2 = mark_bar b (manage_open env (int n) b ?rg st1)"
    have st2: "bt_inv cfg spec st2" "bt_pending st2 = None" "extends st st2"
      using manage_open_ok [OF st1(2,3), of env "int n" b ?rg] mark_bar_ok st1(4) extends_trans unfolding st2_def by (blast, simp, blast)
    have step: "step_bar env ib st =
      (if int n < warmup_bars_m15 (be_config env) then Inr st2
       else if bt_position st2 \<noteq> None then Inr st2
       else let (ready, machine) = on_closed_bar (be_bars env) (int n) ?rg v (bt_machine st2); st3 = st2\<lparr>bt_machine := machine\<rparr>
       in case ready of Inl e \<Rightarrow> Inl e | Inr False \<Rightarrow> Inr st3
          | Inr True \<Rightarrow> (case sm_direction machine of None \<Rightarrow> Inr st3
             | Some d \<Rightarrow> handle_signal env (int n) b features v d st3))"
      unfolding ib step_bar_def prod.case Let_def f v_def [symmetric] rbind_def sum.case st1(1) st2_def [symmetric] using True by simp
    show ?thesis
    proof (cases "int n < warmup_bars_m15 (be_config env) \<or> bt_position st2 \<noteq> None")
      case True
      then show ?thesis using st2 unfolding step by auto
    next
      case False
      then have pos: "bt_position st2 = None" by simp
      have m2: "machine_inv (sc_research cfg) SCANNING (bt_machine st2)" and s2: "sm_state (bt_machine st2) \<in> {SCANNING, ARMED, PULLBACK_ACTIVE, BREAKOUT_WINDOW}"
        and trades: "\<forall>t \<in> set (br_trades (bt_result st2)). closed_sound cfg spec t"
        using st2(1,2) pos by (auto simp: bt_inv_def phase_ok_def)
      obtain g m3 where m3: "on_closed_bar (be_bars env) (int n) ?rg v (bt_machine st2) = (Inr g, m3)"
        "machine_inv (sc_research cfg) SCANNING m3"
        "g \<longrightarrow> (\<exists>a. v = Some a \<and> 0 < a \<and> sm_state (bt_machine st2) \<noteq> SIGNAL_READY \<and> confirmed ?rg a (be_bars env ! nat (int n)) m3)"
        "\<not> g \<longrightarrow> sm_state m3 = SIGNAL_READY \<longrightarrow> sm_state (bt_machine st2) = SIGNAL_READY"
        by (rule on_closed_bar_ok [OF m2 ok, of "be_bars env" "int n" ?rg v])
      let ?st3 = "st2\<lparr>bt_machine := m3\<rparr>"
      have e3: "extends st ?st3" using st2(3) by (simp add: extends_def)
      show ?thesis
      proof (cases g)
        case True
        then have c: "sm_state m3 = SIGNAL_READY" "sm_direction m3 = direction_for ?rg" using m3(3) by (auto simp: confirmed_def)
        then obtain d where d: "sm_direction m3 = Some d" using m3(2) by (auto simp: machine_inv_def setup_fields_def pullback_passed_def Let_def)
        have "\<exists>st'. handle_signal env (int n) b features v d ?st3 = Inr st' \<and> bt_inv cfg spec st' \<and> extends ?st3 st'"
          by (rule handle_signal_ok) (use m3(2) pos st2(2) trades c d env in simp_all)
        then show ?thesis using False True m3(1) d e3 extends_trans unfolding step by auto
      next
        case no: False
        have "sm_state m3 \<in> {SCANNING, ARMED, PULLBACK_ACTIVE, BREAKOUT_WINDOW}"
          using on_closed_bar_waits [of "bt_machine st2" "be_bars env" "int n" ?rg v] s2 m3(1,4) no by (auto simp: waiting_states_def)
        then have "bt_inv cfg spec ?st3" using m3(2) pos st2(2) trades by (simp add: bt_inv_def phase_ok_def)
        then show ?thesis using False no m3(1) e3 unfolding step by simp
      qed
    qed
  qed
qed

lemma run_bars_ok:
  assumes "params_ok (sc_research cfg)" "be_config env = cfg" "be_spec env = spec" "be_regimes env = regime_series_of (sc_research cfg) h1"
    and "bt_inv cfg spec st"
  shows "\<exists>st'. run_bars env ibs st = Inr st' \<and> bt_inv cfg spec st' \<and> extends st st'"
  using assms(5)
proof (induction ibs arbitrary: st)
  case (Cons ib ibs)
  obtain st1 where 1: "step_bar env ib st = Inr st1" "bt_inv cfg spec st1" "extends st st1"
    using step_bar_ok [OF Cons.prems assms(1-4), of ib] by blast
  obtain st2 where "run_bars env ibs st1 = Inr st2" "bt_inv cfg spec st2" "extends st1 st2" using Cons.IH [OF 1(2)] by blast
  then show ?case using 1 extends_trans by auto
qed simp

lemma start_state_inv: "bt_inv cfg spec (start_state (sc_research cfg) equity)"
  by (simp add: bt_inv_def start_state_def phase_ok_def machine_inv_def setup_fields_def new_machine_def cleared_def)

text \<open>The run of a validated configuration: the state of the loop at the end and the result built from it.\<close>

lemma make_env_returns:
  assumes "params_ok (sc_research cfg)"
  obtains env where "make_env bars cfg spec h1_bars news z offset = Inr env" "be_bars env = bars" "be_config env = cfg" "be_spec env = spec"
    "be_regimes env = regime_series_of (sc_research cfg) (case h1_bars of None \<Rightarrow> aggregate_h1 bars | Some bs \<Rightarrow> bs)"
proof -
  have "\<exists>env. make_env bars cfg spec h1_bars news z offset = Inr env \<and> be_bars env = bars \<and> be_config env = cfg \<and> be_spec env = spec
    \<and> be_regimes env = regime_series_of (sc_research cfg) (case h1_bars of None \<Rightarrow> aggregate_h1 bars | Some bs \<Rightarrow> bs)"
    using params_ok_periods(6) [OF assms] by (simp add: make_env_def Let_def make_regime_series_ok [OF assms] atr_def wilder_rma_def)
  with that show thesis by blast
qed

lemma run_backtest_shape:
  assumes "validate_config cfg = Inr ()"
  obtains env st where "make_env bars cfg spec h1_bars news z offset = Inr env"
    "be_bars env = bars" "be_config env = cfg" "be_spec env = spec"
    "run_bars env (enumerate 0 bars) (start_state (sc_research cfg) equity) = Inr st" "bt_inv cfg spec st"
    "run_backtest bars cfg spec equity h1_bars news z offset = Inr (finish_run env st)"
proof -
  note ok = config_params_ok [OF assms]
  obtain env where env: "make_env bars cfg spec h1_bars news z offset = Inr env" "be_bars env = bars" "be_config env = cfg" "be_spec env = spec"
    "be_regimes env = regime_series_of (sc_research cfg) (case h1_bars of None \<Rightarrow> aggregate_h1 bars | Some bs \<Rightarrow> bs)"
    by (rule make_env_returns [OF ok])
  obtain st where "run_bars env (enumerate 0 bars) (start_state (sc_research cfg) equity) = Inr st" "bt_inv cfg spec st"
    using run_bars_ok [OF ok env(3-5) start_state_inv] by blast
  then show thesis using that env assms by (simp add: run_backtest_def)
qed

lemma finish_trades:
  "br_trades (finish_run env st) =
     br_trades (bt_result st) @ (case (bt_position st, be_bars env) of
        (Some pos, _ # _) \<Rightarrow> [close_trade pos (b_time (last (be_bars env))) (b_close (last (be_bars env))) MANUAL (be_spec env) (be_config env)]
      | _ \<Rightarrow> [])"
  "br_equity_curve (finish_run env st) = br_equity_curve (bt_result st)"
  by (simp_all add: finish_run_def Let_def split: option.split list.split)

lemma finish_sound:
  assumes "bt_inv cfg spec st" "t \<in> set (br_trades (finish_run env st))"
  shows "closed_sound cfg spec t"
proof (cases "t \<in> set (br_trades (bt_result st))")
  case False
  then obtain pos tm level where pos: "bt_position st = Some pos" "t = close_trade pos tm level MANUAL (be_spec env) (be_config env)"
    using assms(2) by (cases "bt_position st"; cases "be_bars env") (auto simp: finish_trades)
  then have "trade_sound cfg spec (xp_trade pos)" using assms(1) by (auto simp: bt_inv_def phase_ok_def split: option.splits)
  then show ?thesis using pos(2) close_no_looser no_looser_sound close_exit by (auto simp: closed_sound_def)
qed (use assms(1) in \<open>auto simp: bt_inv_def\<close>)

subsection \<open>The books of a bar\<close>

text \<open>What a run books: the trades, the equity curve and the open position. Deciding on a signal does not touch them.\<close>

abbreviation curve :: "backtest_state \<Rightarrow> (instant \<times> float64) list" where
  "curve st \<equiv> br_equity_curve (bt_result st)"

definition same_books :: "backtest_state \<Rightarrow> backtest_state \<Rightarrow> bool" where
  "same_books st st' \<longleftrightarrow>
     bt_position st' = bt_position st \<and> br_trades (bt_result st') = br_trades (bt_result st) \<and> curve st' = curve st"

lemma same_books_parts:
  "same_books st (observe_bar env b rg st)" "same_books st (reject_signal i r st)" "same_books st (st\<lparr>bt_machine := m\<rparr>)"
  by (simp_all add: same_books_def observe_bar_def reject_signal_def)

lemma same_books_trans: "same_books st st' \<Longrightarrow> same_books st' st'' \<Longrightarrow> same_books st st''"
  by (simp add: same_books_def)

lemma same_books_signal: "handle_signal env i b f v d st = Inr st' \<Longrightarrow> same_books st st'"
  by (auto simp: handle_signal_def Let_def rbind_Inr_iff same_books_def reject_signal_def split: option.splits if_splits)

lemma step_bar_books:
  assumes "step_bar env (n, b) st = Inr st'" "bar_is_valid b"
  obtains rg st1 where "open_pending env (int n) b (observe_bar env b rg st) = Inr st1"
    "same_books (mark_bar b (manage_open env (int n) b rg st1)) st'"
proof -
  define v where "v = (if n < length (be_atr_m15 env) then be_atr_m15 env ! n else None)"
  obtain f st1 where 1: "open_pending env (int n) b (observe_bar env b (rf_regime f) st) = Inr st1"
    and rest: "(let st2 = mark_bar b (manage_open env (int n) b (rf_regime f) st1)
      in if int n < warmup_bars_m15 (be_config env) then Inr st2
         else if bt_position st2 \<noteq> None then Inr st2
         else let (ready, machine) = on_closed_bar (be_bars env) (int n) (rf_regime f) v (bt_machine st2); st3 = st2\<lparr>bt_machine := machine\<rparr>
         in case ready of Inl e \<Rightarrow> Inl e | Inr False \<Rightarrow> Inr st3
            | Inr True \<Rightarrow> (case sm_direction machine of None \<Rightarrow> Inr st3
               | Some d \<Rightarrow> handle_signal env (int n) b f v d st3)) = Inr st'"
    using assms unfolding step_bar_def prod.case Let_def v_def [symmetric] by (auto simp: rbind_Inr_iff simp del: mark_bar_fields)
  let ?st2 = "mark_bar b (manage_open env (int n) b (rf_regime f) st1)"
  have sg: "same_books ?st2 st'" if "handle_signal env (int n) b f v d (?st2\<lparr>bt_machine := m\<rparr>) = Inr st'" for d m
    using same_books_trans [OF same_books_parts(3) same_books_signal [OF that]] .
  have "same_books ?st2 ?st2" by (simp add: same_books_def)
  then have "same_books ?st2 st'"
    using rest same_books_parts(3) [of ?st2]
    by (auto simp: Let_def simp del: mark_bar_fields dest!: sg split: if_splits option.splits prod.splits sum.splits bool.splits)
  with 1 that show thesis by blast
qed

lemma open_pending_curve: "open_pending env i b st = Inr st' \<Longrightarrow> curve st' = curve st"
  by (auto simp: open_pending_def Let_def rbind_Inr_iff split: option.splits prod.splits if_splits)

lemma manage_open_curve: "curve (manage_open env i b rg st) = curve st"
  by (simp add: manage_open_def split: option.split prod.split sum.split)

lemma invalid_bar_books: "step_bar env (n, b) st = Inr st' \<Longrightarrow> \<not> bar_is_valid b \<Longrightarrow> same_books st st'"
  by (auto simp: step_bar_def same_books_def)

lemma curve_step_bar:
  assumes "step_bar env (n, b) st = Inr st'"
  shows "map fst (curve st') = map fst (curve st) @ (if bar_is_valid b then [b_time b] else [])"
proof (cases "bar_is_valid b")
  case False
  then show ?thesis using invalid_bar_books [OF assms] by (simp add: same_books_def)
next
  case True
  then obtain rg st1 where 1: "open_pending env (int n) b (observe_bar env b rg st) = Inr st1"
    and 2: "same_books (mark_bar b (manage_open env (int n) b rg st1)) st'" by (rule step_bar_books [OF assms])
  have "curve st1 = curve st" using open_pending_curve [OF 1] same_books_parts(1) by (simp add: same_books_def)
  then show ?thesis using 2 True by (simp add: same_books_def mark_bar_def manage_open_curve)
qed

lemma curve_run_bars:
  "run_bars env ibs st = Inr st' \<Longrightarrow> map fst (curve st') = map fst (curve st) @ map b_time (filter bar_is_valid (map snd ibs))"
proof (induction ibs arbitrary: st)
  case (Cons ib ibs)
  then obtain st1 where "step_bar env ib st = Inr st1" "run_bars env ibs st1 = Inr st'" by (auto simp: rbind_Inr_iff)
  then show ?case using Cons.IH curve_step_bar [of env "fst ib" "snd ib" st st1] by simp
qed simp

subsection \<open>One position at a time\<close>

definition trade_times :: "trade list \<Rightarrow> instant list" where
  "trade_times ts = concat (map (\<lambda>t. [t_entry_time t, the (t_exit_time t)]) ts)"

lemma trade_times_simps [simp]:
  "trade_times [] = []" "trade_times (ts @ us) = trade_times ts @ trade_times us" "trade_times [t] = [t_entry_time t, the (t_exit_time t)]"
  by (simp_all add: trade_times_def)

definition booked_times :: "backtest_state \<Rightarrow> instant list" where
  "booked_times st = trade_times (br_trades (bt_result st)) @ (case bt_position st of None \<Rightarrow> [] | Some pos \<Rightarrow> [t_entry_time (xp_trade pos)])"

definition ordered_until :: "instant \<Rightarrow> backtest_state \<Rightarrow> bool" where
  "ordered_until now st \<longleftrightarrow> sorted (booked_times st) \<and> (\<forall>x \<in> set (booked_times st). x \<le> now)"

lemma same_books_ordered: "same_books st st' \<Longrightarrow> ordered_until now st' = ordered_until now st"
  by (simp add: ordered_until_def booked_times_def same_books_def)

lemma ordered_later: "ordered_until now st \<Longrightarrow> now \<le> later \<Longrightarrow> ordered_until later st"
  by (auto simp: ordered_until_def)

lemma open_pending_ordered:
  assumes "ordered_until (b_time b) st" "open_pending env i b st = Inr st'"
  shows "ordered_until (b_time b) st'"
proof -
  have "booked_times st' = booked_times st \<or> booked_times st' = booked_times st @ [b_time b]"
    using assms(2)
    by (auto simp: open_pending_def Let_def rbind_Inr_iff booked_times_def new_trade_def record_rejection_def
        split: option.splits prod.splits if_splits)
  then show ?thesis using assms(1) by (auto simp: ordered_until_def sorted_append)
qed

lemma manage_open_ordered:
  assumes "ordered_until (b_time b) st"
  shows "ordered_until (b_time b) (manage_open env i b rg st)"
proof (cases "bt_position st")
  case None
  then show ?thesis using assms by (simp add: manage_open_def)
next
  case (Some pos)
  obtain r equity where m: "manage_position pos b rg (bt_equity st) (be_spec env) (be_config env) (be_zones env) (be_sessions env) = (r, equity)"
    by fastforce
  from manage_no_looser [OF m] have "booked_times (manage_open env i b rg st) = booked_times st
      \<or> booked_times (manage_open env i b rg st) = booked_times st @ [b_time b]"
    using Some m by (cases r) (auto simp: manage_open_def booked_times_def no_looser_def)
  then show ?thesis using assms by (auto simp: ordered_until_def sorted_append)
qed

lemma step_bar_ordered:
  assumes "ordered_until now st" "now \<le> b_time b" "step_bar env (n, b) st = Inr st'"
  shows "ordered_until (b_time b) st'"
proof (cases "bar_is_valid b")
  case False
  then show ?thesis using invalid_bar_books [OF assms(3)] ordered_later [OF assms(1,2)] same_books_ordered by blast
next
  case True
  then obtain rg st1 where 1: "open_pending env (int n) b (observe_bar env b rg st) = Inr st1"
    and 2: "same_books (mark_bar b (manage_open env (int n) b rg st1)) st'" by (rule step_bar_books [OF assms(3)])
  have "ordered_until (b_time b) (observe_bar env b rg st)"
    using ordered_later [OF assms(1,2)] same_books_parts(1) same_books_ordered by blast
  then have "ordered_until (b_time b) (manage_open env (int n) b rg st1)" using 1 open_pending_ordered manage_open_ordered by blast
  then have "ordered_until (b_time b) (mark_bar b (manage_open env (int n) b rg st1))" by (simp add: ordered_until_def booked_times_def mark_bar_def)
  then show ?thesis using same_books_ordered [OF 2] by simp
qed

lemma run_bars_ordered:
  assumes "ordered_until now st" "sorted (now # map (b_time \<circ> snd) ibs)" "run_bars env ibs st = Inr st'"
  shows "ordered_until (last (now # map (b_time \<circ> snd) ibs)) st'"
  using assms
proof (induction ibs arbitrary: now st)
  case (Cons ib ibs)
  obtain n b where ib: "ib = (n, b)" by (cases ib)
  from Cons.prems(3) obtain st1 where 1: "step_bar env ib st = Inr st1" "run_bars env ibs st1 = Inr st'" by (auto simp: rbind_Inr_iff)
  have "ordered_until (b_time b) st1" using step_bar_ordered Cons.prems(1,2) 1(1) ib by fastforce
  then show ?case using Cons.IH [of "b_time b" st1] Cons.prems(2) 1(2) ib by simp
qed simp

subsection \<open>Properties\<close>

text \<open>C32: The backtest does not look ahead. For bars in time order and a validated configuration, a run on the bars so far returns,
  marks the equity once for every valid bar, and a run on the same bars followed by any later ones returns the same equity curve and
  the same closed trades up to that point; only the position still open at the end of the shorter run, which it marks to market, may
  differ.\<close>

theorem backtest_no_lookahead:
  assumes "validate_config cfg = Inr ()" "sorted (map b_time (xs @ ys))"
  shows "\<exists>r r' ts open_trades. run_backtest xs cfg spec equity None news z offset = Inr r
    \<and> run_backtest (xs @ ys) cfg spec equity None news z offset = Inr r'
    \<and> map fst (br_equity_curve r) = map b_time (filter bar_is_valid xs)
    \<and> take (length (br_equity_curve r)) (br_equity_curve r') = br_equity_curve r
    \<and> br_trades r = ts @ open_trades \<and> take (length ts) (br_trades r') = ts
    \<and> length open_trades \<le> 1 \<and> (\<forall>t \<in> set open_trades. t_exit_reason t = Some MANUAL)"
proof -
  note ok = config_params_ok [OF assms(1)]
  let ?env = "env_of cfg spec news z offset" and ?s0 = "start_state (sc_research cfg) equity"
  obtain env st where st: "make_env xs cfg spec None news z offset = Inr env" "be_bars env = xs"
    "run_bars env (enumerate 0 xs) ?s0 = Inr st" "bt_inv cfg spec st"
    "run_backtest xs cfg spec equity None news z offset = Inr (finish_run env st)" by (rule run_backtest_shape [OF assms(1)])
  obtain env' st' where st': "make_env (xs @ ys) cfg spec None news z offset = Inr env'"
    "run_bars env' (enumerate 0 (xs @ ys)) ?s0 = Inr st'"
    "run_backtest (xs @ ys) cfg spec equity None news z offset = Inr (finish_run env' st')" by (rule run_backtest_shape [OF assms(1)])
  have env: "env = ?env xs" "env' = ?env (xs @ ys)" using st(1) st'(1) make_env_ok [OF ok] by simp_all
  have "run_bars env' (enumerate 0 xs) ?s0 = Inr st" using run_bars_prefix [OF ok assms(2)] st(3) env by simp
  then have "run_bars env' (enumerate (length xs) ys) st = Inr st'" using st'(2) by (simp add: enumerate_append_eq run_bars_append)
  moreover have "\<exists>u. run_bars env' ibs st = Inr u \<and> bt_inv cfg spec u \<and> extends st u" for ibs
    using run_bars_ok [OF ok _ _ _ st(4), of env'] env(2) by simp
  ultimately have ext: "extends st st'" by (metis sum.inject(2))
  have curve: "map fst (curve st) = map b_time (filter bar_is_valid xs)" using curve_run_bars [OF st(3)] by (simp add: start_state_def)
  define opens where "opens = (case (bt_position st, be_bars env) of
        (Some pos, _ # _) \<Rightarrow> [close_trade pos (b_time (last xs)) (b_close (last xs)) MANUAL (be_spec env) (be_config env)] | _ \<Rightarrow> [])"
  have o: "br_trades (finish_run env st) = br_trades (bt_result st) @ opens" "length opens \<le> 1" "\<forall>t \<in> set opens. t_exit_reason t = Some MANUAL"
    unfolding opens_def by (auto simp: finish_trades st(2) close_exit split: option.split list.split)
  show ?thesis
    using st(5) st'(3) curve o ext by (auto simp: finish_trades(2) extends_def finish_trades(1) [of env'] intro!: exI)
qed


text \<open>A long order whose next open has already gapped through its stop is still filled, below its stop, and the same bar closes it
  at the stop price above the fill: the trade is booked as a stop loss with a profit that no market order could have made.\<close>

lemma gap_through_stop_profits:
  assumes "bt_pending st = Some (DIR_LONG, stop, a, score, rg)" "bt_position st = None"
    and "fst (entry_fill b DIR_LONG (be_spec env) (sc_execution (be_config env))) < stop" "b_low b \<le> stop"
    and "fst (entry_fill b DIR_LONG (be_spec env) (sc_execution (be_config env)))
      \<le> fsub stop (fmul (ep_slippage_points_exit (sc_execution (be_config env))) (bs_point (be_spec env)))"
    and "open_pending env i b st = Inr st1" "bt_position st1 \<noteq> None"
  shows "\<exists>t. br_trades (bt_result (manage_open env i b rg' st1)) = br_trades (bt_result st) @ [t]
    \<and> t_entry_price t < t_stop_price t \<and> t_exit_reason t = Some STOP_LOSS \<and> t_exit_time t = Some (t_entry_time t)
    \<and> t_entry_price t \<le> the (t_exit_price t) \<and> 0 \<le> t_pnl t"
proof -
  let ?cfg = "be_config env" and ?spec = "be_spec env"
  obtain entry slippage where e: "entry_fill b DIR_LONG ?spec (sc_execution ?cfg) = (entry, slippage)" by fastforce
  obtain sz where sz: "calculate_lots (bt_equity st) (effective_risk_pct (sc_risk ?cfg) (bt_governor st)) entry stop ?spec = Inr sz"
    "is_tradeable sz" and st1: "br_trades (bt_result st1) = br_trades (bt_result st)"
    and pos: "bt_position st1 = Some \<lparr>xp_trade = new_trade b DIR_LONG entry stop a score rg sz slippage
        (fmul (ep_commission_per_lot (sc_execution ?cfg)) (sz_lots sz)), xp_target_price = target_of (sc_research ?cfg) DIR_LONG entry stop,
      xp_extreme = entry, xp_bars_held = 0, xp_be_applied = False, xp_trail_active = False, xp_last_swap_day = - 1\<rparr>"
    using assms(1,2,6,7) e by (auto simp: open_pending_def Let_def rbind_Inr_iff split: if_splits)
  have lots: "0 \<le> sz_lots sz" "0 < bs_tick_value ?spec" "0 < bs_tick_size ?spec"
    using tradeable_size(1,2) [OF sz] by (auto simp: spec_is_valid_def split: if_splits)
  then have unit_value: "0 \<le> value_per_price_unit (sz_lots sz) ?spec" by (simp add: value_per_price_unit_def fdiv_def fmul_def fl_nonneg)
  let ?x = "fsub stop (fmul (ep_slippage_points_exit (sc_execution ?cfg)) (bs_point ?spec))"
  have "0 \<le> fsub ?x entry" using assms(5) e by (simp add: fsub_def fl_nonneg)
  then have "0 \<le> fmul (fsub ?x entry) (value_per_price_unit (sz_lots sz) ?spec)" using unit_value by (simp add: fmul_def fl_nonneg)
  then show ?thesis
    using pos st1 assms(3-5) e
    by (auto simp: manage_open_def manage_position_def track_extremes_def stop_hit_def new_trade_def close_trade_def Let_def)
qed

subsection \<open>Instances\<close>

definition example_config :: strategy_config where
  "example_config = \<lparr>sc_research = example_params,
     sc_risk = \<lparr>kp_risk_pct = 1 / 2, kp_daily_loss_stop_pct = 2, kp_weekly_loss_stop_pct = 4, kp_soft_dd_pct = 5, kp_hard_dd_pct = 10,
       kp_soft_dd_risk_multiplier = 1 / 2, kp_research_auto_reset_hard_kill = False\<rparr>,
     sc_execution = \<lparr>ep_spread_atr_max = 1, ep_spread_abs_max_points = 50, ep_commission_per_lot = 0, ep_slippage_points_entry = 0,
       ep_slippage_points_exit = 0, ep_spread_multiplier = 1\<rparr>,
     sc_operational = \<lparr>op_session_exit_enabled = False, op_news_required = False, op_allow_asian_session = True, op_block_rollover = False\<rparr>\<rparr>"

definition example_zones :: zones where
  "example_zones = \<lparr>tz_london = (\<lambda>_. 0), tz_new_york = (\<lambda>_. 0), tz_tokyo = (\<lambda>_. 0)\<rparr>"

lemma example_config_ok: "validate_config example_config = Inr ()"
  by code_simp

theorem backtest_no_lookahead_witness:
  "\<exists>r r'. run_backtest (take 2 example_bars) example_config example_spec 100000 None None example_zones (\<lambda>_. 0) = Inr r
    \<and> run_backtest (take 2 example_bars @ drop 2 example_bars) example_config example_spec 100000 None None example_zones (\<lambda>_. 0) = Inr r'
    \<and> take (length (br_equity_curve r)) (br_equity_curve r') = br_equity_curve r
    \<and> map fst (br_equity_curve r) = [0, 1]"
proof -
  have "sorted (map b_time (take 2 example_bars @ drop 2 example_bars))" by code_simp
  moreover have "map b_time (filter bar_is_valid (take 2 example_bars)) = [0, 1]" by code_simp
  ultimately show ?thesis
    using backtest_no_lookahead [OF example_config_ok, of "take 2 example_bars" "drop 2 example_bars" example_spec 100000 None example_zones "\<lambda>_. 0"]
    by auto
qed


definition example_env :: backtest_env where
  "example_env = \<lparr>be_bars = example_bars, be_h1_times = [], be_regimes = \<lparr>rs_length = 0, rs_params = example_params, rs_ema_fast = [],
       rs_ema_slow = [], rs_atr = [], rs_adx = [], rs_er = [], rs_atr_pct = []\<rparr>, be_atr_m15 = [], be_config = example_config,
     be_spec = example_spec, be_zones = example_zones,
     be_sessions = \<lparr>sr_offset = (\<lambda>_. 0), sr_allow_asian = True, sr_block_rollover = False\<rparr>, be_calendar = empty_calendar False\<rparr>"

definition example_gap :: backtest_state where
  "example_gap = (start_state example_params 100000)\<lparr>bt_pending := Some (DIR_LONG, 110, 4, 9, RG_TREND_UP)\<rparr>"

theorem gap_through_stop_profits_witness:
  "\<exists>st1 t. open_pending example_env 1 (example_bars ! 1) example_gap = Inr st1
    \<and> br_trades (bt_result (manage_open example_env 1 (example_bars ! 1) RG_TREND_UP st1)) = [t]
    \<and> t_exit_reason t = Some STOP_LOSS \<and> t_entry_price t < t_stop_price t \<and> 0 \<le> t_pnl t"
proof -
  have fill: "fst (entry_fill (example_bars ! 1) DIR_LONG example_spec (sc_execution example_config)) < 110"
    "fst (entry_fill (example_bars ! 1) DIR_LONG example_spec (sc_execution example_config))
      \<le> fsub 110 (fmul (ep_slippage_points_exit (sc_execution example_config)) (bs_point example_spec))"
    "b_low (example_bars ! 1) \<le> 110"
    by code_simp+
  have env: "be_config example_env = example_config" "be_spec example_env = example_spec" by (simp_all add: example_env_def)
  have "case open_pending example_env 1 (example_bars ! 1) example_gap of Inr s \<Rightarrow> bt_position s \<noteq> None | Inl _ \<Rightarrow> False"
    by code_simp
  then obtain st1 where "open_pending example_env 1 (example_bars ! 1) example_gap = Inr st1" "bt_position st1 \<noteq> None"
    by (auto split: sum.splits)
  then show ?thesis
    using gap_through_stop_profits [of example_gap 110 4 9 RG_TREND_UP "example_bars ! 1" example_env 1 st1 RG_TREND_UP] fill env
    by (auto simp: example_gap_def start_state_def)
qed

end
