(* ===== verification/Research_Validation.thy ===== *)
theory Research_Validation
  imports Xau_Risk
begin

text \<open>
  The validation of strategies (\<^verbatim>\<open>research/validation\<close>): the performance metrics of \<^verbatim>\<open>metrics.py\<close>, the acceptance gates of
  \<^verbatim>\<open>gates.py\<close>, and the chronological partitions and walk-forward windows of \<^verbatim>\<open>splits.py\<close>. The square root and the power of the
  mathematics library are arguments. The rejection conditions are values that carry the numbers their texts print.

  Shown are that the reported drawdown is the worst of the drawdown series, that the streaks are the longest runs, that a candidate
  classification means every threshold was met, and that partitions and windows keep training data before test data.
\<close>

subsection \<open>Metrics\<close>

record performance_metrics =
  pm_trades :: int
  pm_wins :: int
  pm_losses :: int
  pm_net_profit :: float64
  pm_net_return_pct :: float64
  pm_cagr_pct :: "float64 option"
  pm_profit_factor :: "float64 option"
  pm_expectancy :: float64
  pm_expectancy_r :: float64
  pm_sharpe :: "float64 option"
  pm_sortino :: "float64 option"
  pm_max_drawdown_pct :: float64
  pm_max_drawdown_abs :: float64
  pm_recovery_factor :: "float64 option"
  pm_calmar :: "float64 option"
  pm_win_rate :: float64
  pm_average_win :: float64
  pm_average_loss :: float64
  pm_payoff_ratio :: "float64 option"
  pm_average_holding_bars :: float64
  pm_max_losing_streak :: int
  pm_max_winning_streak :: int
  pm_average_mae :: float64
  pm_average_mfe :: float64
  pm_exposure_pct :: float64
  pm_total_costs :: float64
  pm_initial_equity :: float64
  pm_final_equity :: float64
  pm_start :: "instant option"
  pm_end :: "instant option"
  pm_largest_win :: float64
  pm_largest_loss :: float64
  pm_top5_profit_share :: "float64 option"

definition new_metrics :: "float64 \<Rightarrow> performance_metrics" where
  "new_metrics initial_equity =
     \<lparr>pm_trades = 0, pm_wins = 0, pm_losses = 0, pm_net_profit = 0, pm_net_return_pct = 0, pm_cagr_pct = None, pm_profit_factor = None,
      pm_expectancy = 0, pm_expectancy_r = 0, pm_sharpe = None, pm_sortino = None, pm_max_drawdown_pct = 0, pm_max_drawdown_abs = 0,
      pm_recovery_factor = None, pm_calmar = None, pm_win_rate = 0, pm_average_win = 0, pm_average_loss = 0, pm_payoff_ratio = None,
      pm_average_holding_bars = 0, pm_max_losing_streak = 0, pm_max_winning_streak = 0, pm_average_mae = 0, pm_average_mfe = 0,
      pm_exposure_pct = 0, pm_total_costs = 0, pm_initial_equity = initial_equity, pm_final_equity = 0, pm_start = None, pm_end = None,
      pm_largest_win = 0, pm_largest_loss = 0, pm_top5_profit_share = None\<rparr>"

text \<open>The peak starts at minus infinity, here \<open>None\<close>.\<close>

definition new_peak :: "float64 option \<Rightarrow> float64 \<Rightarrow> float64" where
  "new_peak peak v = (case peak of None \<Rightarrow> v | Some q \<Rightarrow> max q v)"

definition loss_from :: "float64 \<Rightarrow> float64 \<Rightarrow> float64" where
  "loss_from peak v = fmul (fdiv (fsub peak v) peak) 100"

fun drawdown_from :: "float64 option \<Rightarrow> float64 list \<Rightarrow> float64 list" where
  "drawdown_from peak [] = []"
| "drawdown_from peak (v # vs) =
     (let q = new_peak peak v in (if q \<le> 0 then 0 else loss_from q v) # drawdown_from (Some q) vs)"

definition drawdown_series :: "float64 list \<Rightarrow> float64 list" where
  "drawdown_series equity = drawdown_from None equity"

fun worst_from :: "float64 option \<Rightarrow> float64 \<Rightarrow> float64 \<Rightarrow> float64 list \<Rightarrow> float64 \<times> float64" where
  "worst_from peak worst_pct worst_abs [] = (worst_pct, worst_abs)"
| "worst_from peak worst_pct worst_abs (v # vs) =
     (let q = new_peak peak v
      in worst_from (Some q) (if 0 < q then max worst_pct (loss_from q v) else worst_pct) (max worst_abs (fsub q v)) vs)"

definition max_drawdown :: "float64 list \<Rightarrow> float64 \<times> float64" where
  "max_drawdown equity = worst_from None 0 0 equity"

fun streaks_from :: "nat \<Rightarrow> nat \<Rightarrow> nat \<Rightarrow> nat \<Rightarrow> trade list \<Rightarrow> nat \<times> nat" where
  "streaks_from longest_loss longest_win current_loss current_win [] = (longest_loss, longest_win)"
| "streaks_from longest_loss longest_win current_loss current_win (t # ts) =
     (let current_win' = (if 0 < t_pnl t then current_win + 1 else 0);
          current_loss' = (if 0 < t_pnl t then 0 else if t_pnl t < 0 then current_loss + 1 else 0)
      in streaks_from (max longest_loss current_loss') (max longest_win current_win') current_loss' current_win' ts)"

definition streaks :: "trade list \<Rightarrow> nat \<times> nat" where
  "streaks trades = streaks_from 0 0 0 0 trades"

definition sharpe_sortino ::
  "(float64 \<Rightarrow> float64) \<Rightarrow> (float64 \<Rightarrow> float64 \<Rightarrow> float64) \<Rightarrow> float64 list \<Rightarrow> float64 \<Rightarrow> float64 option \<times> float64 option" where
  "sharpe_sortino sqrt_fn pow_fn returns periods_per_year =
     (let n = length returns
      in if n < 2 then (None, None)
      else let mean = fdiv (exact_sum returns) (of_nat n);
               variance = fdiv (exact_sum (map (\<lambda>r. pow_fn (fsub r mean) 2) returns)) (of_nat (n - 1));
               std = sqrt_fn variance;
               sharpe = (if std \<le> 0 then None else Some (fmul (fdiv mean std) (sqrt_fn periods_per_year)));
               downside = filter (\<lambda>r. r < 0) returns
      in if downside = [] then (sharpe, None)
      else let downside_var = fdiv (exact_sum (map (\<lambda>r. fmul r r) downside)) (of_nat (length downside));
               downside_std = sqrt_fn downside_var
      in (sharpe, if downside_std \<le> 0 then None else Some (fmul (fdiv mean downside_std) (sqrt_fn periods_per_year))))"

definition returns_of :: "float64 list \<Rightarrow> float64 list" where
  "returns_of values =
     map (\<lambda>(prev, v). fdiv (fsub v prev) prev) (filter (\<lambda>(prev, v). 0 < prev) (zip values (tl values)))"

definition profit_metrics :: "trade list \<Rightarrow> float64 \<Rightarrow> performance_metrics \<Rightarrow> performance_metrics" where
  "profit_metrics trades initial_equity m =
     (let n = of_nat (length trades);
          wins = filter (\<lambda>t. 0 < t_pnl t) trades;
          losses = filter (\<lambda>t. t_pnl t < 0) trades;
          gross_profit = exact_sum (map t_pnl wins);
          gross_loss = \<bar>exact_sum (map t_pnl losses)\<bar>;
          net_profit = fsub gross_profit gross_loss;
          average_win = (if wins \<noteq> [] then fdiv gross_profit (of_nat (length wins)) else 0);
          average_loss = (if losses \<noteq> [] then fdiv gross_loss (of_nat (length losses)) else 0)
      in m\<lparr>pm_wins := int (length wins), pm_losses := int (length losses), pm_win_rate := fdiv (of_nat (length wins)) n,
           pm_net_profit := net_profit,
           pm_net_return_pct := (if 0 < initial_equity then fmul (fdiv net_profit initial_equity) 100 else 0),
           pm_profit_factor := (if gross_loss = 0 then None else Some (fdiv gross_profit gross_loss)),
           pm_expectancy := fdiv net_profit n, pm_expectancy_r := fdiv (exact_sum (map t_r_multiple trades)) n,
           pm_average_win := average_win, pm_average_loss := average_loss,
           pm_payoff_ratio := (if average_loss = 0 then None else Some (fdiv average_win average_loss)),
           pm_largest_win := Max (set (map t_pnl trades)), pm_largest_loss := Min (set (map t_pnl trades)),
           pm_top5_profit_share :=
             (if 0 < net_profit then Some (fdiv (exact_sum (take 5 (rev (sort (map t_pnl trades))))) net_profit) else None)\<rparr>)"

definition holding_metrics :: "trade list \<Rightarrow> performance_metrics \<Rightarrow> performance_metrics" where
  "holding_metrics trades m =
     (let n = of_nat (length trades); (losing, winning) = streaks trades
      in m\<lparr>pm_average_holding_bars := fdiv (exact_sum (map (\<lambda>t. of_int (t_bars_held t)) trades)) n,
           pm_average_mae := fdiv (exact_sum (map t_mae trades)) n, pm_average_mfe := fdiv (exact_sum (map t_mfe trades)) n,
           pm_total_costs := exact_sum (map t_costs trades),
           pm_max_losing_streak := int losing, pm_max_winning_streak := int winning\<rparr>)"

definition exposure_metrics ::
  "(float64 \<Rightarrow> float64) \<Rightarrow> (float64 \<Rightarrow> float64 \<Rightarrow> float64) \<Rightarrow> trade list \<Rightarrow> float64 list \<Rightarrow> float64 \<Rightarrow> performance_metrics \<Rightarrow> performance_metrics" where
  "exposure_metrics sqrt_fn pow_fn trades equity_values bars_per_year m =
     (if 1 < length equity_values
      then let held = exact_sum (map (\<lambda>t. of_int (t_bars_held t)) trades);
               (sharpe, sortino) = sharpe_sortino sqrt_fn pow_fn (returns_of equity_values) bars_per_year
           in m\<lparr>pm_exposure_pct := min 100 (fmul (fdiv held (of_nat (length equity_values))) 100),
                pm_sharpe := sharpe, pm_sortino := sortino\<rparr>
      else m)"

definition growth_metrics :: "(float64 \<Rightarrow> float64 \<Rightarrow> float64) \<Rightarrow> float64 \<Rightarrow> performance_metrics \<Rightarrow> performance_metrics" where
  "growth_metrics pow_fn initial_equity m =
     (case (pm_start m, pm_end m) of
        (Some s, Some e) \<Rightarrow>
          if 0 < initial_equity \<and> 0 < pm_final_equity m
          then let years = fdiv (of_int ((e - s) div seconds 86400)) (1461 / 4)
               in if 1 / 4 < years
                  then let cagr = fmul (fsub (pow_fn (fdiv (pm_final_equity m) initial_equity) (fdiv 1 years)) 1) 100
                       in m\<lparr>pm_cagr_pct := Some cagr,
                            pm_calmar := (if 0 < pm_max_drawdown_pct m then Some (fdiv cagr (pm_max_drawdown_pct m)) else pm_calmar m)\<rparr>
                  else m
          else m
      | _ \<Rightarrow> m)"

definition compute_performance ::
  "(float64 \<Rightarrow> float64) \<Rightarrow> (float64 \<Rightarrow> float64 \<Rightarrow> float64) \<Rightarrow> trade list \<Rightarrow> (instant \<times> float64) list \<Rightarrow> float64 \<Rightarrow> float64
    \<Rightarrow> performance_metrics" where
  "compute_performance sqrt_fn pow_fn trades equity_curve initial_equity bars_per_year =
     (let m = (new_metrics initial_equity)\<lparr>pm_trades := int (length trades)\<rparr>;
          m = (if equity_curve \<noteq> []
               then m\<lparr>pm_start := Some (fst (hd equity_curve)), pm_end := Some (fst (last equity_curve)), pm_final_equity := snd (last equity_curve)\<rparr>
               else m\<lparr>pm_final_equity := initial_equity\<rparr>);
          equity_values = (if equity_curve \<noteq> [] then map snd equity_curve else [initial_equity]);
          (worst_pct, worst_abs) = max_drawdown equity_values;
          m = m\<lparr>pm_max_drawdown_pct := worst_pct, pm_max_drawdown_abs := worst_abs\<rparr>
      in if trades = [] then m
         else let m = growth_metrics pow_fn initial_equity
                (exposure_metrics sqrt_fn pow_fn trades equity_values bars_per_year (holding_metrics trades (profit_metrics trades initial_equity m)))
              in if 0 < worst_abs then m\<lparr>pm_recovery_factor := Some (fdiv (pm_net_profit m) worst_abs)\<rparr> else m)"

definition side_breakdown ::
  "(float64 \<Rightarrow> float64) \<Rightarrow> (float64 \<Rightarrow> float64 \<Rightarrow> float64) \<Rightarrow> trade list \<Rightarrow> (instant \<times> float64) list \<Rightarrow> float64 \<Rightarrow> float64
    \<Rightarrow> performance_metrics \<times> performance_metrics \<times> performance_metrics" where
  "side_breakdown sqrt_fn pow_fn trades equity_curve initial_equity bars_per_year =
     (let compute = (\<lambda>ts. compute_performance sqrt_fn pow_fn ts equity_curve initial_equity bars_per_year)
      in (compute (filter (\<lambda>t. t_direction t = DIR_LONG) trades), compute (filter (\<lambda>t. t_direction t = DIR_SHORT) trades), compute trades))"

record year_stats =
  ys_year :: int
  ys_trades :: int
  ys_net_profit :: float64
  ys_win_rate :: float64
  ys_profit_factor :: "float64 option"
  ys_contribution_pct :: float64

definition stats_of_year :: "float64 \<Rightarrow> int \<Rightarrow> trade list \<Rightarrow> year_stats" where
  "stats_of_year all_profit year bucket =
     (let gross_profit = exact_sum (map t_pnl (filter (\<lambda>t. 0 < t_pnl t) bucket));
          gross_loss = \<bar>exact_sum (map t_pnl (filter (\<lambda>t. t_pnl t < 0) bucket))\<bar>;
          net = exact_sum (map t_pnl bucket)
      in \<lparr>ys_year = year, ys_trades = int (length bucket), ys_net_profit = net,
          ys_win_rate = (if bucket \<noteq> [] then fdiv (of_nat (length (filter (\<lambda>t. 0 < t_pnl t) bucket))) (of_nat (length bucket)) else 0),
          ys_profit_factor = (if gross_loss = 0 then None else Some (fdiv gross_profit gross_loss)),
          ys_contribution_pct = (if all_profit \<noteq> 0 then fmul (fdiv net all_profit) 100 else 0)\<rparr>)"

definition yearly_breakdown :: "trade list \<Rightarrow> year_stats list" where
  "yearly_breakdown trades =
     map (\<lambda>year. stats_of_year (exact_sum (map t_pnl trades)) year (filter (\<lambda>t. year_of (t_entry_time t) = year) trades))
       (sort (remdups (map (\<lambda>t. year_of (t_entry_time t)) trades)))"

subsection \<open>Gates\<close>

datatype acceptance_outcome = GATE_PASS | GATE_FAIL | DESIRED_MET | NOT_EVALUABLE

datatype qualification = QUAL_REJECTED | RESEARCH_ONLY | FORWARD_TEST_CANDIDATE | MICRO_LIVE_CANDIDATE

record gate_result =
  gr_name :: string
  gr_outcome :: acceptance_outcome
  gr_observed :: "float64 option"
  gr_minimum :: "float64 option"
  gr_desired :: "float64 option"

datatype rejection =
  LOW_PROFIT_FACTOR float64
| NO_EXPECTANCY float64
| DEEP_DRAWDOWN float64
| PROFIT_FACTOR_COLLAPSE float64
| SPREAD_STRESS float64
| MONTE_CARLO_DRAWDOWN float64
| SINGLE_YEAR float64
| TOP_TRADES float64
| NOT_PORTABLE "string set"

record gate_report =
  gp_results :: "gate_result list"
  gp_rejections :: "rejection list"
  gp_qualification :: qualification
  gp_evaluable :: bool

definition gate :: "string \<Rightarrow> float64 option \<Rightarrow> float64 option \<Rightarrow> float64 option \<Rightarrow> bool \<Rightarrow> gate_result" where
  "gate name observed minimum desired higher_is_better =
     (let result = (\<lambda>out. \<lparr>gr_name = name, gr_outcome = out, gr_observed = observed, gr_minimum = minimum, gr_desired = desired\<rparr>);
          reaches = (\<lambda>x bound. if higher_is_better then bound \<le> x else x \<le> bound)
      in case observed of
           None \<Rightarrow> result NOT_EVALUABLE
         | Some x \<Rightarrow>
             if (case minimum of None \<Rightarrow> False | Some bound \<Rightarrow> \<not> reaches x bound) then result GATE_FAIL
             else if (case desired of None \<Rightarrow> False | Some bound \<Rightarrow> reaches x bound) then result DESIRED_MET
             else result GATE_PASS)"

definition gate_failures :: "gate_report \<Rightarrow> gate_result list" where
  "gate_failures report = filter (\<lambda>r. gr_outcome r = GATE_FAIL) (gp_results report)"

definition not_evaluable :: "gate_report \<Rightarrow> gate_result list" where
  "not_evaluable report = filter (\<lambda>r. gr_outcome r = NOT_EVALUABLE) (gp_results report)"

definition degradation_of :: "float64 option \<Rightarrow> float64 option \<Rightarrow> float64 option" where
  "degradation_of is_pf oos_pf =
     (case (is_pf, oos_pf) of
        (Some i, Some x) \<Rightarrow> if 0 < i then Some (fmul (fdiv (fsub i x) i) 100) else None
      | _ \<Rightarrow> None)"

definition gate_results :: "performance_metrics \<Rightarrow> float64 option \<Rightarrow> float64 option \<Rightarrow> float64 option \<Rightarrow> gate_result list" where
  "gate_results oos degradation spread_stress_pf monte_carlo_p95_dd =
     [gate ''OOS net profit factor'' (pm_profit_factor oos) (Some (5 / 4)) (Some (fl (135 / 100))) True,
      gate ''OOS expectancy (R/trade)'' (Some (pm_expectancy_r oos)) (Some 0) (Some (fl (1 / 10))) True,
      gate ''OOS max drawdown %'' (Some (pm_max_drawdown_pct oos)) (Some 15) (Some 10) False,
      gate ''Recovery factor'' (pm_recovery_factor oos) (Some (3 / 2)) (Some 2) True,
      gate ''Sharpe (annualized)'' (pm_sharpe oos) (Some (1 / 2)) (Some (fl (8 / 10))) True,
      gate ''OOS trade count'' (Some (of_int (pm_trades oos))) (Some 200) (Some 300) True,
      gate ''PF degradation IS->OOS %'' degradation (Some 30) (Some 20) False,
      gate ''1.5x spread stress PF'' spread_stress_pf (Some 1) (Some (fl (115 / 100))) True,
      gate ''Monte Carlo P95 drawdown %'' monte_carlo_p95_dd (Some 20) (Some 15) False]"

definition reject_when :: "('a \<Rightarrow> bool) \<Rightarrow> ('a \<Rightarrow> rejection) \<Rightarrow> 'a option \<Rightarrow> rejection list" where
  "reject_when bad report_it v = (case v of None \<Rightarrow> [] | Some x \<Rightarrow> if bad x then [report_it x] else [])"

definition losing_brokers :: "(string \<times> float64) list \<Rightarrow> (string \<times> float64) list" where
  "losing_brokers brokers = filter (\<lambda>(k, v). v < 1) brokers"

definition rejections_of ::
  "performance_metrics \<Rightarrow> float64 option \<Rightarrow> float64 option \<Rightarrow> float64 option \<Rightarrow> (string \<times> float64) list option \<Rightarrow> float64 option
    \<Rightarrow> float64 option \<Rightarrow> rejection list" where
  "rejections_of oos degradation spread_stress_pf monte_carlo_p95_dd broker_profit_factors max_year_contribution_pct top5_profit_share =
     reject_when (\<lambda>x. x < fl (11 / 10)) LOW_PROFIT_FACTOR (pm_profit_factor oos)
     @ (if 0 < pm_trades oos \<and> pm_expectancy_r oos \<le> 0 then [NO_EXPECTANCY (pm_expectancy_r oos)] else [])
     @ (if 20 < pm_max_drawdown_pct oos then [DEEP_DRAWDOWN (pm_max_drawdown_pct oos)] else [])
     @ reject_when (\<lambda>x. 40 < x) PROFIT_FACTOR_COLLAPSE degradation
     @ reject_when (\<lambda>x. x < 1) SPREAD_STRESS spread_stress_pf
     @ reject_when (\<lambda>x. 20 < x) MONTE_CARLO_DRAWDOWN monte_carlo_p95_dd
     @ reject_when (\<lambda>x. 50 < x) SINGLE_YEAR max_year_contribution_pct
     @ reject_when (\<lambda>x. fl (8 / 10) < x) TOP_TRADES (if top5_profit_share \<noteq> None then top5_profit_share else pm_top5_profit_share oos)
     @ (let brokers = (case broker_profit_factors of None \<Rightarrow> [] | Some bs \<Rightarrow> bs); losing = losing_brokers brokers
        in if losing \<noteq> [] \<and> length losing < length brokers then [NOT_PORTABLE (fst ` set losing)] else [])"

definition evaluate_gates ::
  "performance_metrics \<Rightarrow> float64 option \<Rightarrow> float64 option \<Rightarrow> float64 option \<Rightarrow> (string \<times> float64) list option \<Rightarrow> float64 option
    \<Rightarrow> float64 option \<Rightarrow> gate_report" where
  "evaluate_gates oos is_profit_factor spread_stress_pf monte_carlo_p95_dd broker_profit_factors max_year_contribution_pct top5_profit_share =
     (let degradation = degradation_of is_profit_factor (pm_profit_factor oos);
          report = \<lparr>gp_results = gate_results oos degradation spread_stress_pf monte_carlo_p95_dd,
            gp_rejections = rejections_of oos degradation spread_stress_pf monte_carlo_p95_dd broker_profit_factors
              max_year_contribution_pct top5_profit_share,
            gp_qualification = RESEARCH_ONLY, gp_evaluable = True\<rparr>;
          report = report\<lparr>gp_evaluable := not_evaluable report = []\<rparr>
      in report\<lparr>gp_qualification :=
           (if gp_rejections report \<noteq> [] then QUAL_REJECTED
            else if \<not> gp_evaluable report \<or> pm_trades oos = 0 then RESEARCH_ONLY
            else if gate_failures report \<noteq> [] then RESEARCH_ONLY
            else if length (gp_results report) - 1 \<le> length (filter (\<lambda>g. gr_outcome g = DESIRED_MET) (gp_results report))
            then MICRO_LIVE_CANDIDATE else FORWARD_TEST_CANDIDATE)\<rparr>)"

subsection \<open>Partitions\<close>

record partition =
  pt_name :: string
  pt_start :: instant
  pt_end :: instant
  pt_bars :: "bar list"

definition make_partition :: "string \<Rightarrow> bar list \<Rightarrow> xau_error + partition" where
  "make_partition name chunk =
     (if chunk = [] then Inl XValueError
      else Inr \<lparr>pt_name = name, pt_start = b_time (hd chunk), pt_end = b_time (last chunk), pt_bars = chunk\<rparr>)"

record chrono_split =
  cs_development :: partition
  cs_validation :: partition
  cs_final_oos :: partition

definition chronological_split :: "bar list \<Rightarrow> float64 \<Rightarrow> float64 \<Rightarrow> xau_error + chrono_split" where
  "chronological_split bars development_frac validation_frac =
     (if bars = [] then Inl XValueError
      else if development_frac \<le> 0 \<or> validation_frac \<le> 0 then Inl XValueError
      else if 1 \<le> fadd development_frac validation_frac then Inl XValueError
      else let ordered = sort_key b_time bars; n = length ordered;
               dev_end = nat \<lfloor>fmul (of_nat n) development_frac\<rfloor>;
               val_end = dev_end + nat \<lfloor>fmul (of_nat n) validation_frac\<rfloor>
      in rbind (make_partition ''DEVELOPMENT'' (take dev_end ordered)) (\<lambda>dev.
         rbind (make_partition ''VALIDATION'' (take (val_end - dev_end) (drop dev_end ordered))) (\<lambda>val.
         rbind (make_partition ''FINAL_OOS'' (drop val_end ordered)) (\<lambda>oos.
         Inr \<lparr>cs_development = dev, cs_validation = val, cs_final_oos = oos\<rparr>))))"

subsection \<open>Walk-forward windows\<close>

record walk_forward_window =
  ww_index :: nat
  ww_train :: "bar list"
  ww_test :: "bar list"
  ww_anchored :: bool

definition trunc_int :: "rat \<Rightarrow> int" where
  "trunc_int x = (if 0 \<le> x then \<lfloor>x\<rfloor> else \<lceil>x\<rceil>)"

definition months_delta :: "int \<Rightarrow> duration" where
  "months_delta months = trunc_int (fmul (of_int months) (fl (3044 / 100))) * seconds 86400"

definition bars_between :: "instant \<Rightarrow> instant \<Rightarrow> bar list \<Rightarrow> bar list" where
  "bars_between lo hi bars = filter (\<lambda>b. lo \<le> b_time b \<and> b_time b < hi) bars"

partial_function (option) walk_loop ::
  "bar list \<Rightarrow> bool \<Rightarrow> instant \<Rightarrow> instant \<Rightarrow> duration \<Rightarrow> duration \<Rightarrow> instant \<Rightarrow> nat \<Rightarrow> walk_forward_window list
    \<Rightarrow> walk_forward_window list option" where
  "walk_loop ordered anchored start stop train_delta test_delta train_start index windows =
     (let train_end = train_start + train_delta; test_end = train_end + test_delta
      in if stop < test_end then Some windows
      else let train = bars_between (if anchored then start else train_start) train_end ordered;
               test = bars_between train_end test_end ordered
      in if train \<noteq> [] \<and> test \<noteq> []
         then walk_loop ordered anchored start stop train_delta test_delta (train_start + test_delta) (index + 1)
           (windows @ [\<lparr>ww_index = index, ww_train = train, ww_test = test, ww_anchored = anchored\<rparr>])
         else walk_loop ordered anchored start stop train_delta test_delta (train_start + test_delta) index windows)"

definition walk_forward_windows :: "bar list \<Rightarrow> int \<Rightarrow> int \<Rightarrow> bool \<Rightarrow> walk_forward_window list option" where
  "walk_forward_windows bars train_months test_months anchored =
     (if bars = [] then Some []
      else let ordered = sort_key b_time bars; start = b_time (hd ordered); stop = b_time (last ordered)
           in walk_loop ordered anchored start stop (months_delta train_months) (months_delta test_months) start 0 [])"

subsection \<open>The ledger of the final partition\<close>

record oos_entry =
  oe_consulted_at :: instant
  oe_config_hash :: string
  oe_spec_version :: string
  oe_reason :: string

definition ledger_record :: "instant \<Rightarrow> string \<Rightarrow> string \<Rightarrow> string \<Rightarrow> oos_entry list \<Rightarrow> oos_entry list" where
  "ledger_record now config_hash spec_version why entries =
     entries @ [\<lparr>oe_consulted_at = now, oe_config_hash = config_hash, oe_spec_version = spec_version, oe_reason = why\<rparr>]"

definition is_spent :: "oos_entry list \<Rightarrow> bool" where
  "is_spent entries = (1 < card (set (map oe_config_hash entries)))"

datatype oos_warning = NO_WARNING | OOS_SPENT nat nat | CONSULTED_ONCE string

definition oos_warning_of :: "oos_entry list \<Rightarrow> oos_warning" where
  "oos_warning_of entries =
     (if entries = [] then NO_WARNING
      else if is_spent entries then OOS_SPENT (length entries) (card (set (map oe_config_hash entries)))
      else CONSULTED_ONCE (oe_config_hash (hd entries)))"

lemma is_spent_iff: "is_spent entries \<longleftrightarrow> (\<exists>e \<in> set entries. \<exists>f \<in> set entries. oe_config_hash e \<noteq> oe_config_hash f)"
proof -
  have "1 < card A \<longleftrightarrow> (\<exists>x \<in> A. \<exists>y \<in> A. x \<noteq> y)" if "finite A" for A :: "string set"
    using that by (metis card_le_Suc0_iff_eq linorder_not_less One_nat_def)
  from this [of "oe_config_hash ` set entries"] show ?thesis unfolding is_spent_def set_map by auto
qed

text \<open>A consultation with another configuration spends the partition, and it stays spent.\<close>

lemma ledger_stays_spent: "is_spent entries \<Longrightarrow> is_spent (ledger_record now c v why entries)"
  unfolding is_spent_iff ledger_record_def set_append by blast

lemma other_configuration_spends: "e \<in> set entries \<Longrightarrow> oe_config_hash e \<noteq> c \<Longrightarrow> is_spent (ledger_record now c v why entries)"
  unfolding is_spent_iff ledger_record_def
  by (intro bexI [of _ e] bexI [of _ "\<lparr>oe_consulted_at = now, oe_config_hash = c, oe_spec_version = v, oe_reason = why\<rparr>"]) simp_all

subsection \<open>Drawdown and streaks\<close>

lemma worst_pct_fold:
  "0 \<le> w \<Longrightarrow> fst (worst_from peak w a vs) = Max (insert w (set (drawdown_from peak vs)))"
proof (induction vs arbitrary: peak w a)
  case (Cons v vs)
  let ?q = "new_peak peak v"
  let ?d = "if ?q \<le> 0 then 0 else loss_from ?q v"
  have w: "(if 0 < ?q then max w (loss_from ?q v) else w) = max w ?d" using Cons.prems by auto
  have "fst (worst_from peak w a (v # vs)) = Max (insert (max w ?d) (set (drawdown_from (Some ?q) vs)))"
    using Cons.IH [of "max w ?d"] Cons.prems w by (simp add: Let_def)
  also have "\<dots> = Max (insert w (set (drawdown_from peak (v # vs))))"
    by (cases "drawdown_from (Some ?q) vs = []") (simp_all add: Let_def max.assoc)
  finally show ?case .
qed simp

lemma loss_from_unit:
  assumes "is_float q" "0 < q" "0 \<le> v" "v \<le> q"
  shows "0 \<le> loss_from q v" "loss_from q v \<le> 100"
proof -
  have f: "0 \<le> fsub q v" "fsub q v \<le> q" using assms by (auto simp: fsub_def intro: fl_nonneg fl_le)
  then have d: "0 \<le> fdiv (fsub q v) q" "fdiv (fsub q v) q \<le> 1" using assms(2) by (auto simp: fdiv_def intro!: fl_nonneg fl_le)
  then show "0 \<le> loss_from q v" by (simp add: loss_from_def fmul_def fl_nonneg)
  have "is_float (100 :: rat)" using is_float_of_int [of 100] by simp
  then show "loss_from q v \<le> 100" using d by (auto simp: loss_from_def fmul_def intro!: fl_le)
qed

lemma drawdowns_unit:
  assumes "\<forall>v \<in> set vs. 0 \<le> v \<and> is_float v" "\<forall>q. peak = Some q \<longrightarrow> is_float q"
  shows "\<forall>d \<in> set (drawdown_from peak vs). 0 \<le> d \<and> d \<le> 100"
  using assms
proof (induction vs arbitrary: peak)
  case (Cons v vs)
  let ?q = "new_peak peak v"
  have q: "is_float ?q" "v \<le> ?q" using Cons.prems by (auto simp: new_peak_def max_def split: option.splits)
  then have "0 \<le> (if ?q \<le> 0 then 0 else loss_from ?q v) \<and> (if ?q \<le> 0 then 0 else loss_from ?q v) \<le> 100"
    using loss_from_unit [of ?q v] Cons.prems(1) by auto
  then show ?case using Cons.IH [of "Some ?q"] Cons.prems(1) q(1) by (auto simp: Let_def)
qed simp

fun run_from :: "('a \<Rightarrow> bool) \<Rightarrow> nat \<Rightarrow> nat \<Rightarrow> 'a list \<Rightarrow> nat" where
  "run_from P best cur [] = best"
| "run_from P best cur (x # xs) = (let cur' = (if P x then cur + 1 else 0) in run_from P (max best cur') cur' xs)"

lemma streaks_runs:
  "streaks_from ll lw cl cw ts = (run_from (\<lambda>t. t_pnl t < 0) ll cl ts, run_from (\<lambda>t. 0 < t_pnl t) lw cw ts)"
  by (induction ts arbitrary: ll lw cl cw) (auto simp: Let_def)

definition has_run :: "('a \<Rightarrow> bool) \<Rightarrow> nat \<Rightarrow> 'a list \<Rightarrow> bool" where
  "has_run P n xs \<longleftrightarrow> (\<exists>a b c. xs = a @ b @ c \<and> length b = n \<and> (\<forall>x \<in> set b. P x))"

lemma has_run_Cons: "has_run P n (x # xs) \<longleftrightarrow> n \<le> length (takeWhile P (x # xs)) \<or> has_run P n xs"
proof
  assume "has_run P n (x # xs)"
  then obtain a b c where r: "x # xs = a @ b @ c" "length b = n" "\<forall>y \<in> set b. P y" by (auto simp: has_run_def)
  show "n \<le> length (takeWhile P (x # xs)) \<or> has_run P n xs"
  proof (cases a)
    case Nil
    then have "takeWhile P (x # xs) = b @ takeWhile P c" using r by (simp add: takeWhile_append2)
    then show ?thesis using r(2) by simp
  next
    case (Cons y ys)
    then have "xs = ys @ b @ c" using r(1) by simp
    then show ?thesis using r(2,3) by (auto simp: has_run_def)
  qed
next
  assume "n \<le> length (takeWhile P (x # xs)) \<or> has_run P n xs"
  then show "has_run P n (x # xs)"
  proof
    assume n: "n \<le> length (takeWhile P (x # xs))"
    let ?t = "takeWhile P (x # xs)"
    have "x # xs = [] @ take n ?t @ (drop n ?t @ dropWhile P (x # xs))"
      by (metis append_Nil append_assoc append_take_drop_id takeWhile_dropWhile_id)
    moreover have "\<forall>y \<in> set (take n ?t). P y" by (meson in_set_takeD set_takeWhileD)
    ultimately show ?thesis using n unfolding has_run_def by (metis length_take min.absorb2)
  next
    assume "has_run P n xs"
    then obtain a b c where "xs = a @ b @ c" "length b = n" "\<forall>y \<in> set b. P y" by (auto simp: has_run_def)
    then have "x # xs = (x # a) @ b @ c" by simp
    then show ?thesis using \<open>length b = n\<close> \<open>\<forall>y \<in> set b. P y\<close> unfolding has_run_def by blast
  qed
qed

lemma run_from_iff:
  "n \<le> run_from P best cur xs \<longleftrightarrow> n \<le> best \<or> (xs \<noteq> [] \<and> P (hd xs) \<and> n \<le> cur + length (takeWhile P xs)) \<or> has_run P n xs"
proof (induction xs arbitrary: best cur)
  case Nil
  then show ?case by (auto simp: has_run_def)
next
  case (Cons x xs)
  have tw: "takeWhile P xs = []" if "\<not> (xs \<noteq> [] \<and> P (hd xs))" using that by (cases xs) auto
  have run: "has_run P n xs" if "n \<le> length (takeWhile P xs)" using that has_run_Cons [of P n] by (cases xs) (simp add: has_run_def, simp)
  show ?case
  proof (cases "P x")
    case True
    have "n \<le> run_from P best cur (x # xs) \<longleftrightarrow>
        n \<le> max best (cur + 1) \<or> (xs \<noteq> [] \<and> P (hd xs) \<and> n \<le> cur + 1 + length (takeWhile P xs)) \<or> has_run P n xs"
      using True Cons.IH by (simp add: Let_def)
    also have "\<dots> \<longleftrightarrow> n \<le> best \<or> n \<le> cur + Suc (length (takeWhile P xs)) \<or> n \<le> Suc (length (takeWhile P xs)) \<or> has_run P n xs"
      using tw by (cases "xs \<noteq> [] \<and> P (hd xs)") (auto simp: le_max_iff_disj)
    finally show ?thesis using True by (simp add: has_run_Cons)
  next
    case False
    then have "n \<le> run_from P best cur (x # xs) \<longleftrightarrow> n \<le> best \<or> (xs \<noteq> [] \<and> P (hd xs) \<and> n \<le> length (takeWhile P xs)) \<or> has_run P n xs"
      using Cons.IH by (simp add: Let_def)
    also have "\<dots> \<longleftrightarrow> n \<le> best \<or> has_run P n xs" using run by blast
    moreover have "has_run P 0 xs" by (auto simp: has_run_def)
    ultimately show ?thesis using False by (auto simp: has_run_Cons)
  qed
qed

subsection \<open>Gates\<close>

definition gate_passed :: "gate_result \<Rightarrow> bool" where
  "gate_passed r \<longleftrightarrow> gr_outcome r \<noteq> GATE_FAIL \<and> gr_outcome r \<noteq> NOT_EVALUABLE"

lemma gate_met:
  "gate_passed (gate name observed (Some bound) desired True) \<longleftrightarrow> (\<exists>x. observed = Some x \<and> bound \<le> x)"
  "gate_passed (gate name observed (Some bound) desired False) \<longleftrightarrow> (\<exists>x. observed = Some x \<and> x \<le> bound)"
  by (auto simp: gate_passed_def gate_def Let_def split: option.splits)

lemma candidate_iff:
  "gp_qualification (evaluate_gates oos is_pf spread_pf mc brokers year top5) \<in> {FORWARD_TEST_CANDIDATE, MICRO_LIVE_CANDIDATE}
     \<longleftrightarrow> rejections_of oos (degradation_of is_pf (pm_profit_factor oos)) spread_pf mc brokers year top5 = [] \<and> pm_trades oos \<noteq> 0
       \<and> (\<forall>r \<in> set (gate_results oos (degradation_of is_pf (pm_profit_factor oos)) spread_pf mc). gate_passed r)"
  by (auto simp: gate_passed_def evaluate_gates_def Let_def not_evaluable_def gate_failures_def filter_empty_conv)

lemma reject_when_Nil: "reject_when bad f v = [] \<longleftrightarrow> (\<forall>x. v = Some x \<longrightarrow> \<not> bad x)"
  by (auto simp: reject_when_def split: option.splits)

lemma degradation_Some:
  "degradation_of is_pf pf = Some d \<longleftrightarrow> (\<exists>i x. is_pf = Some i \<and> pf = Some x \<and> 0 < i \<and> d = fmul (fdiv (fsub i x) i) 100)"
  by (auto simp: degradation_of_def split: option.splits if_splits)

subsection \<open>Walk-forward loop\<close>

lemma thirty_days: "fl (3044 / 100) \<ge> 30"
proof -
  have "is_float (30 :: rat)" using is_float_of_int [of 30] by simp
  then show ?thesis by (intro fl_ge) auto
qed

lemma months_delta_pos: "1 \<le> months \<Longrightarrow> 0 < months_delta months"
proof -
  assume m: "1 \<le> months"
  have "1 * (30 :: rat) \<le> of_int months * fl (3044 / 100)" by (rule mult_mono) (use m thirty_days in auto)
  moreover have "is_float (30 :: rat)" using is_float_of_int [of 30] by simp
  ultimately have "30 \<le> fmul (of_int months) (fl (3044 / 100))" unfolding fmul_def by (intro fl_ge) auto
  then have "30 \<le> trunc_int (fmul (of_int months) (fl (3044 / 100)))" by (auto simp: trunc_int_def le_floor_iff)
  then show ?thesis by (simp add: months_delta_def seconds_def)
qed

text \<open>What the loop keeps of its windows: training bars come before test bars, test bars lie before the next test period, and the windows
  are numbered.\<close>

definition windows_ok :: "bar list \<Rightarrow> instant \<Rightarrow> walk_forward_window list \<Rightarrow> bool" where
  "windows_ok ordered bound ws \<longleftrightarrow>
     map ww_index ws = [0..<length ws]
     \<and> (\<forall>w \<in> set ws. ww_train w \<noteq> [] \<and> ww_test w \<noteq> [] \<and> set (ww_train w) \<union> set (ww_test w) \<subseteq> set ordered
          \<and> (\<forall>x \<in> set (ww_train w). \<forall>y \<in> set (ww_test w). b_time x < b_time y) \<and> (\<forall>y \<in> set (ww_test w). b_time y < bound))
     \<and> sorted_wrt (\<lambda>v w. \<forall>x \<in> set (ww_test v). \<forall>y \<in> set (ww_test w). b_time x < b_time y) ws"

lemma windows_ok_later: "windows_ok ordered bound ws \<Longrightarrow> bound \<le> bound' \<Longrightarrow> windows_ok ordered bound' ws"
  unfolding windows_ok_def by (meson order_less_le_trans)

lemma windows_ok_snoc:
  assumes "windows_ok ordered train_end ws" "train_end \<le> test_end"
    and "train = bars_between lo train_end ordered" "test = bars_between train_end test_end ordered" "train \<noteq> []" "test \<noteq> []"
  shows "windows_ok ordered test_end (ws @ [\<lparr>ww_index = length ws, ww_train = train, ww_test = test, ww_anchored = anchored\<rparr>])"
proof -
  have t: "\<forall>x \<in> set train. b_time x < train_end" "\<forall>y \<in> set test. train_end \<le> b_time y \<and> b_time y < test_end"
    "set train \<subseteq> set ordered" "set test \<subseteq> set ordered"
    using assms(3,4) by (auto simp: bars_between_def)
  moreover have "\<forall>w \<in> set ws. \<forall>x \<in> set (ww_test w). \<forall>y \<in> set test. b_time x < b_time y"
    using assms(1) t(2) unfolding windows_ok_def by (meson order_less_le_trans)
  moreover have "\<forall>x \<in> set train. \<forall>y \<in> set test. b_time x < b_time y" using t(1,2) by (meson order_less_le_trans)
  ultimately show ?thesis
    using windows_ok_later [OF assms(1,2)] assms(5,6) by (simp add: windows_ok_def sorted_wrt_append)
qed

lemma walk_loop_ok:
  assumes "0 < test_delta" "windows_ok ordered (train_start + train_delta) ws" "index = length ws"
  shows "\<exists>ws' bound. walk_loop ordered anchored start stop train_delta test_delta train_start index ws = Some ws' \<and> windows_ok ordered bound ws'"
  using assms
proof (induction "nat (stop - train_start - train_delta)" arbitrary: train_start index ws rule: less_induct)
  case less
  let ?train_end = "train_start + train_delta" and ?test_end = "train_start + train_delta + test_delta"
  let ?train = "bars_between (if anchored then start else train_start) ?train_end ordered" and ?test = "bars_between ?train_end ?test_end ordered"
  let ?w = "\<lparr>ww_index = index, ww_train = ?train, ww_test = ?test, ww_anchored = anchored\<rparr>"
  show ?case
  proof (cases "stop < ?test_end")
    case True
    then show ?thesis using less.prems(2) by (subst walk_loop.simps) auto
  next
    case False
    have dec: "nat (stop - (train_start + test_delta) - train_delta) < nat (stop - train_start - train_delta)" using False less.prems(1) by simp
    have end_eq: "train_start + test_delta + train_delta = ?test_end" by simp
    show ?thesis
    proof (cases "?train \<noteq> [] \<and> ?test \<noteq> []")
      case True
      have "windows_ok ordered ?test_end (ws @ [?w])"
        using windows_ok_snoc [OF less.prems(2), of ?test_end ?train _ ?test] less.prems(1,3) True by simp
      then show ?thesis
        using less.hyps [OF dec less.prems(1), of "ws @ [?w]" "index + 1"] less.prems(3) False True
        by (subst walk_loop.simps) (simp add: Let_def end_eq)
    next
      case skip: False
      have "windows_ok ordered ?test_end ws" using windows_ok_later [OF less.prems(2)] less.prems(1) by simp
      then show ?thesis
        using less.hyps [OF dec less.prems(1), of ws index] less.prems(3) False skip
        by (subst walk_loop.simps) (auto simp: Let_def end_eq)
    qed
  qed
qed

lemma walk_loop_returned:
  assumes "walk_loop ordered anchored start stop train_delta test_delta train_start index ws = Some r"
  shows "test_delta = 0 \<longrightarrow> stop < train_start + train_delta"
proof (rule walk_loop.raw_induct [where P = "\<lambda>ordered anchored start stop train_delta test_delta train_start index ws r.
    test_delta = 0 \<longrightarrow> stop < train_start + train_delta", OF _ assms], goal_cases)
  case (1 loop ordered anchored start stop train_delta test_delta train_start index ws r)
  show ?case
  proof
    assume z: "test_delta = 0"
    show "stop < train_start + train_delta"
    proof (rule ccontr)
      assume "\<not> stop < train_start + train_delta"
      then obtain i' ws' where "loop ordered anchored start stop train_delta test_delta (train_start + test_delta) i' ws' = Some r"
        using 1(2) z by (auto simp: Let_def split: if_splits)
      from 1(1) [OF this] z \<open>\<not> stop < train_start + train_delta\<close> show False by simp
    qed
  qed
qed

subsection \<open>Properties\<close>

text \<open>The reported maximum drawdown is exactly the worst point of the drawdown series; for a curve of non-negative equities it
  is a percentage between 0 and 100. The losing and the winning streak are exactly the longest runs of consecutive losing and winning
  trades.\<close>

lemma drawdown_and_streaks_exact:
  "fst (max_drawdown equity) = Max (insert 0 (set (drawdown_series equity)))
   \<and> ((\<forall>v \<in> set equity. 0 \<le> v \<and> fl v = v) \<longrightarrow> 0 \<le> fst (max_drawdown equity) \<and> fst (max_drawdown equity) \<le> 100)
   \<and> (n \<le> fst (streaks trades) \<longleftrightarrow> (\<exists>a b c. trades = a @ b @ c \<and> length b = n \<and> (\<forall>t \<in> set b. t_pnl t < 0)))
   \<and> (n \<le> snd (streaks trades) \<longleftrightarrow> (\<exists>a b c. trades = a @ b @ c \<and> length b = n \<and> (\<forall>t \<in> set b. 0 < t_pnl t)))"
proof (intro conjI impI)
  show worst: "fst (max_drawdown equity) = Max (insert 0 (set (drawdown_series equity)))"
    unfolding max_drawdown_def drawdown_series_def by (rule worst_pct_fold) simp
  assume "\<forall>v \<in> set equity. 0 \<le> v \<and> fl v = v"
  then have "\<forall>d \<in> set (drawdown_series equity). 0 \<le> d \<and> d \<le> 100"
    unfolding drawdown_series_def by (intro drawdowns_unit) (auto simp: is_float_iff)
  then show "0 \<le> fst (max_drawdown equity)" "fst (max_drawdown equity) \<le> 100" unfolding worst by auto
next
  have "n \<le> run_from P 0 0 trades \<longleftrightarrow> has_run P n trades" for P
    using run_from_iff [of n P 0 0 trades] has_run_Cons [of P n] by (cases trades) (auto simp: has_run_def)
  then show "n \<le> fst (streaks trades) \<longleftrightarrow> (\<exists>a b c. trades = a @ b @ c \<and> length b = n \<and> (\<forall>t \<in> set b. t_pnl t < 0))"
    "n \<le> snd (streaks trades) \<longleftrightarrow> (\<exists>a b c. trades = a @ b @ c \<and> length b = n \<and> (\<forall>t \<in> set b. 0 < t_pnl t))"
    by (simp_all add: streaks_def streaks_runs has_run_def)
qed

text \<open>C39: A strategy is classified as a candidate exactly when every number was supplied and reaches its threshold: out-of-sample profit
  factor at least 1.25, positive expectancy, drawdown at most 15 percent, recovery factor, Sharpe ratio, at least 200 trades, profit
  factor degradation at most 30 percent, spread stress and Monte Carlo bounds, and no concentration or portability
  rejection. A missing number never passes.\<close>

theorem candidate_meets_every_threshold:
  "gp_qualification (evaluate_gates oos is_pf spread_pf mc brokers year top5) \<in> {FORWARD_TEST_CANDIDATE, MICRO_LIVE_CANDIDATE}
   \<longleftrightarrow> (\<exists>pf recovery sharpe i stress p95.
        pm_profit_factor oos = Some pf \<and> 5 / 4 \<le> pf \<and> 0 < pm_expectancy_r oos \<and> pm_max_drawdown_pct oos \<le> 15
        \<and> pm_recovery_factor oos = Some recovery \<and> 3 / 2 \<le> recovery \<and> pm_sharpe oos = Some sharpe \<and> 1 / 2 \<le> sharpe
        \<and> 200 \<le> pm_trades oos \<and> is_pf = Some i \<and> 0 < i \<and> fmul (fdiv (fsub i pf) i) 100 \<le> 30
        \<and> spread_pf = Some stress \<and> 1 \<le> stress \<and> mc = Some p95 \<and> p95 \<le> 20)
     \<and> (case year of None \<Rightarrow> True | Some y \<Rightarrow> y \<le> 50)
     \<and> (case (if top5 \<noteq> None then top5 else pm_top5_profit_share oos) of None \<Rightarrow> True | Some s \<Rightarrow> s \<le> fl (8 / 10))
     \<and> (case brokers of None \<Rightarrow> True | Some bs \<Rightarrow> losing_brokers bs = [] \<or> losing_brokers bs = bs)" (is "?L \<longleftrightarrow> ?N \<and> ?Y \<and> ?T \<and> ?B")
proof -
  let ?d = "degradation_of is_pf (pm_profit_factor oos)" and ?share = "if top5 \<noteq> None then top5 else pm_top5_profit_share oos"
  have pf: "fl (11 / 10) \<le> (5 / 4 :: rat)" by (rule fl_le) (auto intro!: is_floatI [of _ 5 "- 2"] simp: pow2_def)
  have lb: "(losing_brokers bs \<noteq> [] \<and> length (losing_brokers bs) < length bs) \<longleftrightarrow> \<not> (losing_brokers bs = [] \<or> losing_brokers bs = bs)" for bs
    unfolding losing_brokers_def by (metis filter_id_conv length_filter_less less_irrefl)
  have gates: "(\<forall>r \<in> set (gate_results oos ?d spread_pf mc). gate_passed r) \<longleftrightarrow>
      (\<exists>pf. pm_profit_factor oos = Some pf \<and> 5 / 4 \<le> pf) \<and> 0 \<le> pm_expectancy_r oos \<and> pm_max_drawdown_pct oos \<le> 15
      \<and> (\<exists>r. pm_recovery_factor oos = Some r \<and> 3 / 2 \<le> r) \<and> (\<exists>s. pm_sharpe oos = Some s \<and> 1 / 2 \<le> s) \<and> 200 \<le> pm_trades oos
      \<and> (\<exists>x. ?d = Some x \<and> x \<le> 30) \<and> (\<exists>x. spread_pf = Some x \<and> 1 \<le> x) \<and> (\<exists>x. mc = Some x \<and> x \<le> 20)"
    unfolding gate_results_def by (simp add: gate_met)
  have br: "(let bs = (case brokers of None \<Rightarrow> [] | Some bs \<Rightarrow> bs); losing = losing_brokers bs
      in if losing \<noteq> [] \<and> length losing < length bs then [NOT_PORTABLE (fst ` set losing)] else []) = [] \<longleftrightarrow> ?B"
    unfolding Let_def by (cases brokers) (simp_all add: lb losing_brokers_def [of "[]"])
  have upto: "(case v of None \<Rightarrow> True | Some x \<Rightarrow> x \<le> c) \<longleftrightarrow> (\<forall>x. v = Some x \<longrightarrow> \<not> c < x)" for v and c :: rat by (cases v) auto
  have one: "(if c then [a] else []) = [] \<longleftrightarrow> \<not> c" for c and a :: rejection by simp
  have rej: "rejections_of oos ?d spread_pf mc brokers year top5 = [] \<longleftrightarrow>
      (\<forall>x. pm_profit_factor oos = Some x \<longrightarrow> \<not> x < fl (11 / 10)) \<and> \<not> (0 < pm_trades oos \<and> pm_expectancy_r oos \<le> 0)
      \<and> \<not> 20 < pm_max_drawdown_pct oos \<and> (\<forall>x. ?d = Some x \<longrightarrow> \<not> 40 < x) \<and> (\<forall>x. spread_pf = Some x \<longrightarrow> \<not> x < 1)
      \<and> (\<forall>x. mc = Some x \<longrightarrow> \<not> 20 < x) \<and> ?Y \<and> ?T \<and> ?B"
    unfolding rejections_of_def append_is_Nil_conv reject_when_Nil br upto one by (rule refl)
  show ?thesis
    unfolding candidate_iff gates rej degradation_Some using pf by auto
qed

text \<open>A successful chronological split loses and reorders nothing: its three partitions are not empty, their concatenation is the
  history in time order, and no bar of a partition is later than a bar of a following one.\<close>

lemma chronological_split_exact:
  assumes "chronological_split bars development_frac validation_frac = Inr s"
  shows "pt_bars (cs_development s) @ pt_bars (cs_validation s) @ pt_bars (cs_final_oos s) = sort_key b_time bars
    \<and> pt_bars (cs_development s) \<noteq> [] \<and> pt_bars (cs_validation s) \<noteq> [] \<and> pt_bars (cs_final_oos s) \<noteq> []
    \<and> (\<forall>x \<in> set (pt_bars (cs_development s)). \<forall>y \<in> set (pt_bars (cs_validation s)) \<union> set (pt_bars (cs_final_oos s)). b_time x \<le> b_time y)
    \<and> (\<forall>x \<in> set (pt_bars (cs_validation s)). \<forall>y \<in> set (pt_bars (cs_final_oos s)). b_time x \<le> b_time y)"
proof -
  have part: "make_partition name chunk = Inr p \<Longrightarrow> pt_bars p = chunk \<and> chunk \<noteq> []" for name chunk p
    by (auto simp: make_partition_def split: if_splits)
  obtain d v where s: "pt_bars (cs_development s) = take d (sort_key b_time bars)" "pt_bars (cs_validation s) = take v (drop d (sort_key b_time bars))"
    "pt_bars (cs_final_oos s) = drop (d + v) (sort_key b_time bars)"
    "pt_bars (cs_development s) \<noteq> []" "pt_bars (cs_validation s) \<noteq> []" "pt_bars (cs_final_oos s) \<noteq> []"
    using assms by (auto simp: chronological_split_def Let_def rbind_Inr_iff dest!: part split: if_splits)
  have join: "pt_bars (cs_development s) @ pt_bars (cs_validation s) @ pt_bars (cs_final_oos s) = sort_key b_time bars"
    unfolding s(1-3) by (metis add.commute append_take_drop_id drop_drop)
  have "sorted (map b_time (pt_bars (cs_development s) @ pt_bars (cs_validation s) @ pt_bars (cs_final_oos s)))" unfolding join by simp
  then have "(\<forall>x \<in> set (pt_bars (cs_development s)). \<forall>y \<in> set (pt_bars (cs_validation s)) \<union> set (pt_bars (cs_final_oos s)). b_time x \<le> b_time y)
    \<and> (\<forall>x \<in> set (pt_bars (cs_validation s)). \<forall>y \<in> set (pt_bars (cs_final_oos s)). b_time x \<le> b_time y)"
    by (simp only: map_append sorted_append set_append set_map) blast
  with join s(4-6) show ?thesis by (intro conjI) simp_all
qed

text \<open>C40: Walk-forward windows do not leak: with a test period of at least one month the loop ends, the windows are numbered, in each of
  them every training bar is earlier than every test bar, and the test bars of a window are all earlier than those of the following
  windows, so no bar is tested twice.\<close>

theorem walk_forward_no_leak:
  assumes "1 \<le> test_months"
  shows "\<exists>ws. walk_forward_windows bars train_months test_months anchored = Some ws \<and> map ww_index ws = [0..<length ws]
    \<and> (\<forall>w \<in> set ws. ww_train w \<noteq> [] \<and> ww_test w \<noteq> [] \<and> set (ww_train w) \<union> set (ww_test w) \<subseteq> set bars
         \<and> (\<forall>x \<in> set (ww_train w). \<forall>y \<in> set (ww_test w). b_time x < b_time y))
    \<and> sorted_wrt (\<lambda>v w. \<forall>x \<in> set (ww_test v). \<forall>y \<in> set (ww_test w). b_time x < b_time y) ws"
proof (cases "bars = []")
  case True
  then show ?thesis by (simp add: walk_forward_windows_def)
next
  case False
  let ?o = "sort_key b_time bars"
  have "windows_ok ?o (b_time (hd ?o) + months_delta train_months) []" by (simp add: windows_ok_def)
  from walk_loop_ok [OF months_delta_pos [OF assms] this, of 0 anchored "b_time (hd ?o)" "b_time (last ?o)"] False
  obtain ws bound where "walk_forward_windows bars train_months test_months anchored = Some ws" "windows_ok ?o bound ws"
    by (auto simp: walk_forward_windows_def)
  then show ?thesis unfolding windows_ok_def by (intro exI [of _ ws]) auto
qed

text \<open>With a test period of zero months the loop never ends once the history is long enough for the first training period.\<close>

lemma zero_test_months_diverges:
  assumes "bars \<noteq> []" "b_time (hd (sort_key b_time bars)) + months_delta train_months \<le> b_time (last (sort_key b_time bars))"
  shows "walk_forward_windows bars train_months 0 anchored = None"
proof (rule ccontr)
  assume "walk_forward_windows bars train_months 0 anchored \<noteq> None"
  then obtain ws where "walk_forward_windows bars train_months 0 anchored = Some ws" by blast
  moreover have "months_delta 0 = 0" by (simp add: months_delta_def trunc_int_def fmul_def)
  ultimately show False
    using assms walk_loop_returned by (fastforce simp: walk_forward_windows_def Let_def)
qed

theorem drawdown_and_streaks_exact_witness:
  "0 \<le> fst (max_drawdown [100, 110, 99]) \<and> fst (max_drawdown [100, 110, 99]) \<le> 100"
proof -
  have "\<forall>v \<in> set [100, 110, 99 :: rat]. 0 \<le> v \<and> fl v = v" using fl_of_int [of 100] fl_of_int [of 110] fl_of_int [of 99] by simp
  then show ?thesis using drawdown_and_streaks_exact [of "[100, 110, 99]"] by blast
qed

definition example_history :: "bar list" where
  "example_history = map (\<lambda>k. \<lparr>b_time = seconds (86400 * k), b_open = 100, b_high = 101, b_low = 99, b_close = 100, b_volume = 1,
     b_spread_points = 2\<rparr>) [70, 0, 20, 40, 50]"

theorem walk_forward_no_leak_witness:
  "\<exists>ws. walk_forward_windows example_history 1 1 False = Some ws \<and> map ww_index ws = [0..<length ws]
    \<and> (\<forall>w \<in> set ws. \<forall>x \<in> set (ww_train w). \<forall>y \<in> set (ww_test w). b_time x < b_time y)"
  using walk_forward_no_leak [of 1 example_history 1 False] by auto

theorem chronological_split_exact_witness:
  "\<exists>s. chronological_split example_history (1 / 2) (1 / 4) = Inr s
    \<and> pt_bars (cs_development s) @ pt_bars (cs_validation s) @ pt_bars (cs_final_oos s) = sort_key b_time example_history"
proof -
  have "case chronological_split example_history (1 / 2) (1 / 4) of Inr _ \<Rightarrow> True | Inl _ \<Rightarrow> False" by code_simp
  then obtain s where "chronological_split example_history (1 / 2) (1 / 4) = Inr s" by (auto split: sum.splits)
  then show ?thesis using chronological_split_exact [of example_history "1 / 2" "1 / 4" s] by blast
qed

end
