(* ===== verification/Promotion.thy ===== *)
theory Promotion
  imports Domain Float64
begin

text \<open>
  The strategy validation factory (\<^verbatim>\<open>engines/promotion/validation.py\<close>): the stages a strategy candidate has to pass before it may be
  considered for paper trading, the evaluation of each stage against the policy, and the check of the report. The runner and
  the durable recorder are interfaces: the runner is a function from a stage to an outcome or an exception, the
  recorder a step on its own state that may fail. Metrics are Python floats including infinities and NaN. Of a run the name, status,
  reasons, metrics, artifacts and dataset are kept; identifiers and the copied lineage are left out.

  Shown are that a report exists only when every run was recorded, that it is eligible exactly when every required stage passed, and what
  an eligible candidate has therefore proved.
\<close>

subsection \<open>Floats with infinities and NaN\<close>

datatype xfloat = Fin rat | PosInf | NegInf | NaN

fun xle :: "xfloat \<Rightarrow> xfloat \<Rightarrow> bool" where
  "xle NaN y = False"
| "xle x NaN = False"
| "xle NegInf y = True"
| "xle x PosInf = True"
| "xle (Fin a) (Fin b) = (a \<le> b)"
| "xle (Fin a) NegInf = False"
| "xle PosInf (Fin b) = False"
| "xle PosInf NegInf = False"

fun xlt :: "xfloat \<Rightarrow> xfloat \<Rightarrow> bool" where
  "xlt NaN y = False"
| "xlt x NaN = False"
| "xlt (Fin a) (Fin b) = (a < b)"
| "xlt NegInf NegInf = False"
| "xlt NegInf y = True"
| "xlt PosInf y = False"
| "xlt (Fin a) PosInf = True"
| "xlt (Fin a) NegInf = False"

fun xmul :: "xfloat \<Rightarrow> xfloat \<Rightarrow> xfloat" where
  "xmul NaN y = NaN"
| "xmul x NaN = NaN"
| "xmul (Fin a) (Fin b) = Fin (fmul a b)"
| "xmul PosInf (Fin b) = (if b = 0 then NaN else if 0 < b then PosInf else NegInf)"
| "xmul NegInf (Fin b) = (if b = 0 then NaN else if 0 < b then NegInf else PosInf)"
| "xmul (Fin a) PosInf = (if a = 0 then NaN else if 0 < a then PosInf else NegInf)"
| "xmul (Fin a) NegInf = (if a = 0 then NaN else if 0 < a then NegInf else PosInf)"
| "xmul PosInf PosInf = PosInf"
| "xmul PosInf NegInf = NegInf"
| "xmul NegInf PosInf = NegInf"
| "xmul NegInf NegInf = PosInf"

definition xfinite :: "xfloat \<Rightarrow> bool" where
  "xfinite x = (case x of Fin _ \<Rightarrow> True | _ \<Rightarrow> False)"

subsection \<open>Stages, policy and reports\<close>

definition all_validation_stages :: "string list" where
  "all_validation_stages = [''basic_backtest'', ''transaction_costs'', ''spread'', ''slippage'', ''swap_financing'', ''out_of_sample'',
     ''walk_forward'', ''purged_validation'', ''embargo'', ''monte_carlo'', ''parameter_perturbation'', ''regime_tests'',
     ''sensitivity_analysis'', ''multiple_testing_controls'']"

definition quant_model_stages :: "string list" where
  "quant_model_stages = [''factor_diagnostics'']"

definition required_performance_metrics :: "string list" where
  "required_performance_metrics = [''cagr'', ''sharpe'', ''sortino'', ''calmar'', ''max_drawdown'', ''profit_factor'', ''expectancy'',
     ''turnover'', ''tail_loss'', ''stability'', ''regime_dependence'']"

definition required_quant_metrics :: "string list" where
  "required_quant_metrics = [''ic'', ''rank_ic'', ''factor_decay'', ''calibration'', ''drift_sensitivity'']"

text \<open>A value of the details, of which only truth values and truthiness are read.\<close>

datatype detail = DBool bool | DOther bool

fun truthy :: "detail \<Rightarrow> bool" where
  "truthy (DBool b) = b"
| "truthy (DOther b) = b"

record stage_outcome =
  so_metrics :: "(string, xfloat) dict"
  so_artifacts :: "string list"
  so_details :: "(string, detail) dict"

record validation_policy =
  vp_min_cagr :: xfloat
  vp_min_sharpe :: xfloat
  vp_min_sortino :: xfloat
  vp_min_calmar :: xfloat
  vp_max_drawdown :: xfloat
  vp_min_profit_factor :: xfloat
  vp_min_expectancy :: xfloat
  vp_max_turnover :: xfloat
  vp_max_tail_loss :: xfloat
  vp_min_stability :: xfloat
  vp_max_regime_dependence :: xfloat
  vp_min_cost_retention :: xfloat
  vp_min_perturbation_retention :: xfloat
  vp_min_monte_carlo_pass_rate :: xfloat
  vp_max_adjusted_p_value :: xfloat
  vp_require_embargo :: bool
  vp_min_walk_forward_windows :: int
  vp_min_regimes_tested :: int

datatype reason =
  StageReason string string
| MissingMetrics string "string set"
| RunnerFailed string string

datatype experiment_status = EXP_FAILED | EXP_COMPLETED

record experiment_run =
  xr_name :: string
  xr_status :: experiment_status
  xr_reasons :: "reason list"
  xr_metrics :: "(string, xfloat) dict"
  xr_artifacts :: "string list"
  xr_dataset_ref :: string
  xr_dataset_hash :: string
  xr_finished_at :: instant

record strategy_candidate =
  sc_candidate_id :: uuid
  sc_candidate_state :: strategy_state
  sc_model_ids :: "string list"
  sc_code_sha :: string
  sc_dependencies :: "(string \<times> string) list"
  sc_llm_metadata :: "(string \<times> string) list"

record validation_report =
  vr_receipt_id :: uuid
  vr_strategy_candidate_id :: uuid
  vr_eligible_for_paper :: bool
  vr_required_stages :: "string list"
  vr_completed_stages :: "string list"
  vr_failed_stages :: "string list"
  vr_experiment_runs :: "experiment_run list"
  vr_reasons :: "reason list"

datatype validation_error = VValueError string | LedgerUnavailable string | RunInvalid

record validation_config =
  vc_as_of :: "instant option"
  vc_seed :: "int option"
  vc_config_hash :: string
  vc_data_max_timestamp :: "instant option"

definition assert_eligible :: "strategy_candidate \<Rightarrow> validation_report \<Rightarrow> validation_error + unit" where
  "assert_eligible candidate report =
     (if sc_candidate_id candidate \<noteq> vr_strategy_candidate_id report then Inl (VValueError ''candidate'')
      else if sc_candidate_state candidate \<noteq> SS_ROBUSTNESS_OK then Inl (VValueError ''state'')
      else if set (vr_required_stages report) \<noteq> set (vr_completed_stages report) then Inl (VValueError ''stages'')
      else if \<not> vr_eligible_for_paper report then Inl (VValueError ''not passed'')
      else Inr ())"

subsection \<open>Evaluation of a stage\<close>

definition metric :: "stage_outcome \<Rightarrow> string \<Rightarrow> xfloat \<Rightarrow> xfloat" where
  "metric outcome key fallback = (case map_of (so_metrics outcome) key of None \<Rightarrow> fallback | Some v \<Rightarrow> v)"

definition when_bad :: "bool \<Rightarrow> reason \<Rightarrow> reason list" where
  "when_bad bad r = (if bad then [r] else [])"

definition missing_metrics :: "string list \<Rightarrow> stage_outcome \<Rightarrow> string set" where
  "missing_metrics required outcome = set required - fst ` set (so_metrics outcome)"

definition backtest_checks :: "validation_policy \<Rightarrow> stage_outcome \<Rightarrow> (string \<times> bool) list" where
  "backtest_checks policy outcome =
     (let least = (\<lambda>key bound. (key, xle bound (metric outcome key NegInf)));
          most = (\<lambda>key bound. (key, xle (metric outcome key PosInf) bound))
      in [least ''cagr'' (vp_min_cagr policy), least ''sharpe'' (vp_min_sharpe policy), least ''sortino'' (vp_min_sortino policy),
          least ''calmar'' (vp_min_calmar policy), most ''max_drawdown'' (vp_max_drawdown policy),
          least ''profit_factor'' (vp_min_profit_factor policy), least ''expectancy'' (vp_min_expectancy policy),
          most ''turnover'' (vp_max_turnover policy), most ''tail_loss'' (vp_max_tail_loss policy),
          least ''stability'' (vp_min_stability policy), most ''regime_dependence'' (vp_max_regime_dependence policy)])"

definition basic_reasons :: "validation_policy \<Rightarrow> stage_outcome \<Rightarrow> reason list" where
  "basic_reasons policy outcome =
     (let missing = missing_metrics required_performance_metrics outcome
      in when_bad (missing \<noteq> {}) (MissingMetrics ''basic_backtest'' missing)
         @ map (\<lambda>(name, _). StageReason ''basic_backtest'' (name @ '' threshold failed''))
             (filter (\<lambda>(_, passed). \<not> passed) (backtest_checks policy outcome)))"

definition embargo_reasons :: "validation_policy \<Rightarrow> stage_outcome \<Rightarrow> reason list" where
  "embargo_reasons policy outcome =
     (if map_of (so_details outcome) ''applicable'' = Some (DBool False)
      then (if vp_require_embargo policy then [StageReason ''embargo'' ''policy requires embargo'']
            else when_bad (\<not> (case map_of (so_details outcome) ''reason'' of None \<Rightarrow> False | Some d \<Rightarrow> truthy d))
              (StageReason ''embargo'' ''inapplicability requires a recorded reason''))
      else when_bad (xle (metric outcome ''embargo_period'' (Fin 0)) (Fin 0)) (StageReason ''embargo'' ''no positive embargo period''))"

definition evaluate_stage ::
  "validation_policy \<Rightarrow> string \<Rightarrow> stage_outcome \<Rightarrow> stage_outcome option \<Rightarrow> bool \<Rightarrow> reason list" where
  "evaluate_stage policy stage outcome baseline is_quant_model =
     when_bad (so_metrics outcome = []) (StageReason stage ''missing validation metrics'')
     @ when_bad (\<exists>v \<in> snd ` set (so_metrics outcome). \<not> xfinite v) (StageReason stage ''non-finite validation metric'')
     @ when_bad (so_artifacts outcome = []) (StageReason stage ''missing validation artifacts'')
     @ (if stage = ''basic_backtest'' then basic_reasons policy outcome else [])
     @ when_bad (stage \<in> {''transaction_costs'', ''spread'', ''slippage'', ''swap_financing''}
         \<and> (case baseline of None \<Rightarrow> False
             | Some base \<Rightarrow> xlt (metric outcome ''cagr'' NegInf) (xmul (metric base ''cagr'' (Fin 0)) (vp_min_cost_retention policy))))
         (StageReason stage ''performance disappears under realistic trading costs'')
     @ when_bad (stage \<in> {''parameter_perturbation'', ''sensitivity_analysis''}
         \<and> xlt (metric outcome ''cagr_retention'' NegInf) (vp_min_perturbation_retention policy))
         (StageReason stage ''fragile under small parameter changes'')
     @ when_bad (stage = ''monte_carlo'' \<and> xlt (metric outcome ''pass_rate'' NegInf) (vp_min_monte_carlo_pass_rate policy))
         (StageReason stage ''insufficient resampled-trade robustness'')
     @ when_bad (stage = ''multiple_testing_controls'' \<and> xlt (vp_max_adjusted_p_value policy) (metric outcome ''adjusted_p_value'' PosInf))
         (StageReason stage ''adjusted p-value exceeds policy'')
     @ when_bad (stage = ''multiple_testing_controls'' \<and> xlt (metric outcome ''experiments_recorded'' (Fin 0)) (Fin 1))
         (StageReason stage ''experiment ledger is incomplete'')
     @ when_bad (stage = ''out_of_sample'' \<and> map_of (so_details outcome) ''out_of_sample'' \<noteq> Some (DBool True))
         (StageReason stage ''runner did not prove held-out data'')
     @ when_bad (stage = ''walk_forward'' \<and> xlt (metric outcome ''windows'' (Fin 0)) (Fin (of_int (vp_min_walk_forward_windows policy))))
         (StageReason stage ''insufficient chronological forward windows'')
     @ when_bad (stage = ''purged_validation'' \<and> xle (metric outcome ''purge_gap'' (Fin 0)) (Fin 0))
         (StageReason stage ''no positive purge gap'')
     @ (if stage = ''embargo'' then embargo_reasons policy outcome else [])
     @ when_bad (stage = ''regime_tests'' \<and> xlt (metric outcome ''regimes_tested'' (Fin 0)) (Fin (of_int (vp_min_regimes_tested policy))))
         (StageReason stage ''insufficient regime coverage'')
     @ (let missing = missing_metrics required_quant_metrics outcome
        in when_bad (stage = ''factor_diagnostics'' \<and> is_quant_model \<and> missing \<noteq> {}) (MissingMetrics stage missing))"

definition validate_config_v :: "validation_config \<Rightarrow> validation_error + unit" where
  "validate_config_v config =
     (case vc_as_of config of
        None \<Rightarrow> Inl (VValueError ''as_of'')
      | Some as_of \<Rightarrow>
          if vc_seed config = None then Inl (VValueError ''seed'')
          else if vc_config_hash config = '''' then Inl (VValueError ''config_hash'')
          else case vc_data_max_timestamp config of
            None \<Rightarrow> Inl (VValueError ''data_max_timestamp'')
          | Some cutoff \<Rightarrow> if as_of < cutoff then Inl (VValueError ''data_max_timestamp after as_of'') else Inr ())"

definition validate_candidate_lineage :: "strategy_candidate \<Rightarrow> string \<Rightarrow> validation_error + unit" where
  "validate_candidate_lineage candidate dataset_hash =
     (if sc_code_sha candidate = '''' \<or> sc_dependencies candidate = [] \<or> sc_llm_metadata candidate = [] then Inl (VValueError ''lineage'')
      else if take 7 dataset_hash \<noteq> ''sha256:'' \<or> length dataset_hash \<noteq> 71 then Inl (VValueError ''dataset_hash'')
      else Inr ())"

subsection \<open>The factory\<close>

text \<open>The constructor of a run raises on an empty dataset reference.\<close>

definition make_run ::
  "string \<Rightarrow> string \<Rightarrow> instant \<Rightarrow> string \<Rightarrow> stage_outcome \<Rightarrow> experiment_status \<Rightarrow> reason list \<Rightarrow> experiment_run option" where
  "make_run dataset_ref dataset_hash now stage outcome status reasons =
     (if dataset_ref = '''' then None
      else Some \<lparr>xr_name = ''validation:'' @ stage, xr_status = status, xr_reasons = reasons, xr_metrics = so_metrics outcome,
        xr_artifacts = (if so_artifacts outcome = [] then [''inline://validation-result''] else so_artifacts outcome),
        xr_dataset_ref = dataset_ref, xr_dataset_hash = dataset_hash, xr_finished_at = now\<rparr>)"

definition failed_run :: "string \<Rightarrow> string \<Rightarrow> instant \<Rightarrow> string \<Rightarrow> string \<Rightarrow> experiment_run option" where
  "failed_run dataset_ref dataset_hash now stage exc =
     make_run dataset_ref dataset_hash now stage \<lparr>so_metrics = [], so_artifacts = [''inline://validation-error''], so_details = []\<rparr>
       EXP_FAILED [RunnerFailed stage exc]"

record factory_state =
  fs_runs :: "experiment_run list"
  fs_failed :: "string list"
  fs_reasons :: "reason list"
  fs_baseline :: "stage_outcome option"

text \<open>One stage: run, evaluate, record. A failed construction of the run inside the handler is not caught.\<close>

definition run_one ::
  "validation_policy \<Rightarrow> bool \<Rightarrow> (string \<Rightarrow> string + stage_outcome) \<Rightarrow> (experiment_run \<Rightarrow> 'r \<Rightarrow> bool \<times> 'r) \<Rightarrow> string \<Rightarrow> string \<Rightarrow> instant
    \<Rightarrow> string \<Rightarrow> factory_state \<times> 'r \<Rightarrow> validation_error + factory_state \<times> 'r" where
  "run_one policy is_quant run_stage record_run dataset_ref dataset_hash now stage st =
     (let (fs, r) = st;
          entry = (case run_stage stage of
              Inl exc \<Rightarrow>
                map_option (\<lambda>run. (run, fs\<lparr>fs_failed := fs_failed fs @ [stage], fs_reasons := fs_reasons fs @ [RunnerFailed stage exc]\<rparr>))
                  (failed_run dataset_ref dataset_hash now stage exc)
            | Inr outcome \<Rightarrow>
                let reasons = evaluate_stage policy stage outcome (fs_baseline fs) is_quant;
                    fs = (if stage = ''basic_backtest'' then fs\<lparr>fs_baseline := Some outcome\<rparr> else fs);
                    fs = (if reasons \<noteq> [] then fs\<lparr>fs_failed := fs_failed fs @ [stage], fs_reasons := fs_reasons fs @ reasons\<rparr> else fs)
                in map_option (\<lambda>run. (run, fs))
                     (make_run dataset_ref dataset_hash now stage outcome (if reasons \<noteq> [] then EXP_FAILED else EXP_COMPLETED) reasons))
      in case entry of
           None \<Rightarrow> Inl RunInvalid
         | Some (run, fs) \<Rightarrow>
             (case record_run run r of
                (False, r) \<Rightarrow> Inl (LedgerUnavailable stage)
              | (True, r) \<Rightarrow> Inr (fs\<lparr>fs_runs := fs_runs fs @ [run]\<rparr>, r)))"

fun run_all ::
  "validation_policy \<Rightarrow> bool \<Rightarrow> (string \<Rightarrow> string + stage_outcome) \<Rightarrow> (experiment_run \<Rightarrow> 'r \<Rightarrow> bool \<times> 'r) \<Rightarrow> string \<Rightarrow> string \<Rightarrow> instant
    \<Rightarrow> string list \<Rightarrow> factory_state \<times> 'r \<Rightarrow> validation_error + factory_state \<times> 'r" where
  "run_all policy is_quant run_stage record_run dataset_ref dataset_hash now [] st = Inr st"
| "run_all policy is_quant run_stage record_run dataset_ref dataset_hash now (stage # stages) st =
     rbind (run_one policy is_quant run_stage record_run dataset_ref dataset_hash now stage st)
       (run_all policy is_quant run_stage record_run dataset_ref dataset_hash now stages)"

definition stages_of :: "strategy_candidate \<Rightarrow> string list" where
  "stages_of candidate = all_validation_stages @ (if sc_model_ids candidate \<noteq> [] then quant_model_stages else [])"

definition validate_strategy ::
  "validation_policy \<Rightarrow> (string \<Rightarrow> string + stage_outcome) \<Rightarrow> (experiment_run \<Rightarrow> 'r \<Rightarrow> bool \<times> 'r) \<Rightarrow> strategy_candidate \<Rightarrow> validation_config
    \<Rightarrow> string \<Rightarrow> string \<Rightarrow> instant \<Rightarrow> uuid \<Rightarrow> 'r \<Rightarrow> validation_error + validation_report \<times> 'r" where
  "validate_strategy policy run_stage record_run candidate config dataset_ref dataset_hash now receipt r =
     rbind (validate_config_v config) (\<lambda>_.
     rbind (validate_candidate_lineage candidate dataset_hash) (\<lambda>_.
     let stages = stages_of candidate
     in rbind (run_all policy (sc_model_ids candidate \<noteq> []) run_stage record_run dataset_ref dataset_hash now stages
          (\<lparr>fs_runs = [], fs_failed = [], fs_reasons = [], fs_baseline = None\<rparr>, r)) (\<lambda>(fs, r).
        Inr (\<lparr>vr_receipt_id = receipt, vr_strategy_candidate_id = sc_candidate_id candidate,
               vr_eligible_for_paper = (fs_failed fs = [] \<and> length (fs_runs fs) = length stages),
               vr_required_stages = stages, vr_completed_stages = map (\<lambda>run. drop 11 (xr_name run)) (fs_runs fs),
               vr_failed_stages = fs_failed fs, vr_experiment_runs = fs_runs fs, vr_reasons = fs_reasons fs\<rparr>, r))))"

subsection \<open>A report means every stage was run, evaluated and recorded\<close>

definition baseline_of :: "(string \<Rightarrow> string + stage_outcome) \<Rightarrow> stage_outcome option" where
  "baseline_of run_stage = (case run_stage ''basic_backtest'' of Inl _ \<Rightarrow> None | Inr outcome \<Rightarrow> Some outcome)"

definition stage_passed :: "validation_policy \<Rightarrow> bool \<Rightarrow> (string \<Rightarrow> string + stage_outcome) \<Rightarrow> string \<Rightarrow> bool" where
  "stage_passed policy is_quant run_stage stage \<longleftrightarrow>
     (\<exists>outcome. run_stage stage = Inr outcome \<and> evaluate_stage policy stage outcome (baseline_of run_stage) is_quant = [])"

fun record_list :: "(experiment_run \<Rightarrow> 'r \<Rightarrow> bool \<times> 'r) \<Rightarrow> experiment_run list \<Rightarrow> 'r \<Rightarrow> 'r option" where
  "record_list record_run [] r = Some r"
| "record_list record_run (run # runs) r = (case record_run run r of (False, _) \<Rightarrow> None | (True, r) \<Rightarrow> record_list record_run runs r)"

lemma record_list_append: "record_list record_run (xs @ ys) r = Option.bind (record_list record_run xs r) (record_list record_run ys)"
  by (induction xs arbitrary: r) (auto split: prod.split bool.split)

lemma when_bad_Nil [simp]: "when_bad bad r = [] \<longleftrightarrow> \<not> bad"
  by (simp add: when_bad_def)

lemma basic_ignores_baseline: "evaluate_stage policy ''basic_backtest'' outcome b q = evaluate_stage policy ''basic_backtest'' outcome b' q"
  by (simp add: evaluate_stage_def)

definition stage_step ::
  "validation_policy \<Rightarrow> bool \<Rightarrow> (string \<Rightarrow> string + stage_outcome) \<Rightarrow> (experiment_run \<Rightarrow> 'r \<Rightarrow> bool \<times> 'r) \<Rightarrow> string list \<Rightarrow> factory_state \<times> 'r
    \<Rightarrow> factory_state \<times> 'r \<Rightarrow> bool" where
  "stage_step policy is_quant run_stage record_run stages st st' \<longleftrightarrow>
     (\<exists>runs. fs_runs (fst st') = fs_runs (fst st) @ runs \<and> map xr_name runs = map (\<lambda>s. ''validation:'' @ s) stages
        \<and> record_list record_run runs (snd st) = Some (snd st'))
     \<and> (fs_failed (fst st') = [] \<longleftrightarrow> fs_failed (fst st) = [] \<and> (\<forall>s \<in> set stages. stage_passed policy is_quant run_stage s))"

lemma stage_step_append:
  "stage_step policy q run_stage record_run xs st st' \<Longrightarrow> stage_step policy q run_stage record_run ys st' st''
     \<Longrightarrow> stage_step policy q run_stage record_run (xs @ ys) st st''"
  unfolding stage_step_def by (auto simp: record_list_append)

lemma run_one_step:
  assumes "run_one policy q run_stage record_run dataset_ref dataset_hash now stage (fs, r) = Inr st'"
    and "stage = ''basic_backtest'' \<or> fs_baseline fs = baseline_of run_stage"
  shows "stage_step policy q run_stage record_run [stage] (fs, r) st'"
    and "fs_baseline (fst st') = (if stage = ''basic_backtest'' then (case run_stage stage of Inl _ \<Rightarrow> fs_baseline fs | Inr o1 \<Rightarrow> Some o1)
      else fs_baseline fs)"
proof -
  define entry where "entry = (case run_stage stage of
      Inl exc \<Rightarrow> map_option (\<lambda>run. (run, fs\<lparr>fs_failed := fs_failed fs @ [stage], fs_reasons := fs_reasons fs @ [RunnerFailed stage exc]\<rparr>))
          (failed_run dataset_ref dataset_hash now stage exc)
    | Inr outcome \<Rightarrow>
        let reasons = evaluate_stage policy stage outcome (fs_baseline fs) q;
            fs = (if stage = ''basic_backtest'' then fs\<lparr>fs_baseline := Some outcome\<rparr> else fs);
            fs = (if reasons \<noteq> [] then fs\<lparr>fs_failed := fs_failed fs @ [stage], fs_reasons := fs_reasons fs @ reasons\<rparr> else fs)
        in map_option (\<lambda>run. (run, fs))
             (make_run dataset_ref dataset_hash now stage outcome (if reasons \<noteq> [] then EXP_FAILED else EXP_COMPLETED) reasons))"
  have "run_one policy q run_stage record_run dataset_ref dataset_hash now stage (fs, r) =
      (case entry of None \<Rightarrow> Inl RunInvalid
       | Some (run, fs) \<Rightarrow> (case record_run run r of (False, r) \<Rightarrow> Inl (LedgerUnavailable stage) | (True, r) \<Rightarrow> Inr (fs\<lparr>fs_runs := fs_runs fs @ [run]\<rparr>, r)))"
    unfolding run_one_def entry_def by (simp only: Let_def prod.case)
  then obtain run fs1 r1 where e: "entry = Some (run, fs1)" "record_run run r = (True, r1)" "st' = (fs1\<lparr>fs_runs := fs_runs fs1 @ [run]\<rparr>, r1)"
    using assms(1) by (auto split: option.splits prod.splits bool.splits)
  have base: "evaluate_stage policy stage outcome (baseline_of run_stage) q = evaluate_stage policy stage outcome (fs_baseline fs) q" for outcome
    using assms(2) basic_ignores_baseline by metis
  have f: "xr_name run = ''validation:'' @ stage" "fs_runs fs1 = fs_runs fs"
    "fs_failed fs1 = (if stage_passed policy q run_stage stage then fs_failed fs else fs_failed fs @ [stage])"
    "fs_baseline fs1 = (if stage = ''basic_backtest'' then (case run_stage stage of Inl _ \<Rightarrow> fs_baseline fs | Inr o1 \<Rightarrow> Some o1) else fs_baseline fs)"
    using e(1) unfolding entry_def stage_passed_def base
    by (auto simp: Let_def failed_run_def make_run_def split: sum.splits if_splits)
  show "stage_step policy q run_stage record_run [stage] (fs, r) st'" using e(2,3) f(1-3) by (simp add: stage_step_def)
  show "fs_baseline (fst st') = (if stage = ''basic_backtest'' then (case run_stage stage of Inl _ \<Rightarrow> fs_baseline fs | Inr o1 \<Rightarrow> Some o1)
      else fs_baseline fs)" using e(3) f(4) by simp
qed

lemma run_all_step:
  assumes "run_all policy q run_stage record_run dataset_ref dataset_hash now stages (fs, r) = Inr st'"
    and "''basic_backtest'' \<notin> set stages" "fs_baseline fs = baseline_of run_stage"
  shows "stage_step policy q run_stage record_run stages (fs, r) st'"
  using assms
proof (induction stages arbitrary: fs r)
  case Nil
  then show ?case by (simp add: stage_step_def)
next
  case (Cons stage stages)
  from Cons.prems(1) obtain fs1 r1 where 1: "run_one policy q run_stage record_run dataset_ref dataset_hash now stage (fs, r) = Inr (fs1, r1)"
    "run_all policy q run_stage record_run dataset_ref dataset_hash now stages (fs1, r1) = Inr st'" by (auto simp: rbind_Inr_iff)
  have a: "stage_step policy q run_stage record_run [stage] (fs, r) (fs1, r1)" "fs_baseline fs1 = baseline_of run_stage"
    using run_one_step [OF 1(1)] Cons.prems(2,3) by (auto split: if_splits)
  then have "stage_step policy q run_stage record_run stages (fs1, r1) st'" using Cons.IH [OF 1(2)] Cons.prems(2) by simp
  then show ?case using stage_step_append [OF a(1)] by fastforce
qed

lemma stages_shape: "stages_of candidate = ''basic_backtest'' # tl (stages_of candidate)" "''basic_backtest'' \<notin> set (tl (stages_of candidate))"
  by (simp_all add: stages_of_def all_validation_stages_def quant_model_stages_def)

lemma validate_report:
  assumes "validate_strategy policy run_stage record_run candidate config dataset_ref dataset_hash now receipt r = Inr (report, r')"
  shows "vr_required_stages report = stages_of candidate \<and> vr_completed_stages report = stages_of candidate
    \<and> record_list record_run (vr_experiment_runs report) r = Some r'
    \<and> vr_strategy_candidate_id report = sc_candidate_id candidate
    \<and> (vr_eligible_for_paper report \<longleftrightarrow> (\<forall>stage \<in> set (stages_of candidate). stage_passed policy (sc_model_ids candidate \<noteq> []) run_stage stage))"
proof -
  let ?q = "sc_model_ids candidate \<noteq> []" and ?fs = "\<lparr>fs_runs = [], fs_failed = [], fs_reasons = [], fs_baseline = None\<rparr>"
  from assms obtain fs where all: "run_all policy ?q run_stage record_run dataset_ref dataset_hash now (stages_of candidate) (?fs, r) = Inr (fs, r')"
    and report: "report = \<lparr>vr_receipt_id = receipt, vr_strategy_candidate_id = sc_candidate_id candidate,
               vr_eligible_for_paper = (fs_failed fs = [] \<and> length (fs_runs fs) = length (stages_of candidate)),
               vr_required_stages = stages_of candidate, vr_completed_stages = map (\<lambda>run. drop 11 (xr_name run)) (fs_runs fs),
               vr_failed_stages = fs_failed fs, vr_experiment_runs = fs_runs fs, vr_reasons = fs_reasons fs\<rparr>"
    by (auto simp: validate_strategy_def Let_def rbind_Inr_iff)
  obtain fs1 r1 where 1: "run_one policy ?q run_stage record_run dataset_ref dataset_hash now ''basic_backtest'' (?fs, r) = Inr (fs1, r1)"
    "run_all policy ?q run_stage record_run dataset_ref dataset_hash now (tl (stages_of candidate)) (fs1, r1) = Inr (fs, r')"
    using all by (subst (asm) stages_shape(1)) (auto simp: rbind_Inr_iff)
  have a: "stage_step policy ?q run_stage record_run [''basic_backtest''] (?fs, r) (fs1, r1)" "fs_baseline fs1 = baseline_of run_stage"
    using run_one_step [OF 1(1)] by (simp_all add: baseline_of_def split: sum.split)
  have "stage_step policy ?q run_stage record_run (stages_of candidate) (?fs, r) (fs, r')"
    using stage_step_append [OF a(1) run_all_step [OF 1(2) stages_shape(2) a(2)]] stages_shape(1) [of candidate] by simp
  then obtain st: "map xr_name (fs_runs fs) = map (\<lambda>s. ''validation:'' @ s) (stages_of candidate)"
    "record_list record_run (fs_runs fs) r = Some r'"
    "fs_failed fs = [] \<longleftrightarrow> (\<forall>s \<in> set (stages_of candidate). stage_passed policy ?q run_stage s)"
    by (auto simp: stage_step_def)
  have "map (\<lambda>run. drop 11 (xr_name run)) (fs_runs fs) = map (drop 11) (map xr_name (fs_runs fs))" by simp
  also have "\<dots> = stages_of candidate" unfolding st(1) by (simp add: comp_def)
  finally have names: "map (\<lambda>run. drop 11 (xr_name run)) (fs_runs fs) = stages_of candidate" .
  moreover have "length (fs_runs fs) = length (stages_of candidate)" using names by (metis length_map)
  ultimately show ?thesis using st unfolding report by simp
qed

subsection \<open>What an eligible candidate has proved\<close>

lemma passed_finite: "evaluate_stage policy stage outcome b q = [] \<Longrightarrow> \<forall>v \<in> snd ` set (so_metrics outcome). xfinite v"
  unfolding evaluate_stage_def append_is_Nil_conv when_bad_Nil by blast

lemma finite_metric:
  assumes "evaluate_stage policy stage outcome b q = []" "metric outcome key d \<noteq> d"
  shows "\<exists>x. map_of (so_metrics outcome) key = Some (Fin x)"
proof -
  obtain v where v: "map_of (so_metrics outcome) key = Some v" using assms(2) by (auto simp: metric_def split: option.splits)
  then have "v \<in> snd ` set (so_metrics outcome)" by (force dest: map_of_SomeD)
  then have "xfinite v" using passed_finite [OF assms(1)] by blast
  with v show ?thesis by (auto simp: xfinite_def split: xfloat.splits)
qed

lemma not_below:
  assumes "evaluate_stage policy stage outcome b q = []" "\<not> xlt (metric outcome key d) (Fin c)" "xlt d (Fin c)"
  shows "\<exists>x. map_of (so_metrics outcome) key = Some (Fin x) \<and> c \<le> x"
proof -
  have "metric outcome key d \<noteq> d" using assms(2,3) by auto
  then obtain x where x: "map_of (so_metrics outcome) key = Some (Fin x)" using finite_metric [OF assms(1)] by blast
  then show ?thesis using assms(2) by (simp add: metric_def)
qed

lemma not_above:
  assumes "evaluate_stage policy stage outcome b q = []" "\<not> xlt (Fin c) (metric outcome key PosInf)"
  shows "\<exists>x. map_of (so_metrics outcome) key = Some (Fin x) \<and> x \<le> c"
proof -
  have "metric outcome key PosInf \<noteq> PosInf" using assms(2) by auto
  then obtain x where x: "map_of (so_metrics outcome) key = Some (Fin x)" using finite_metric [OF assms(1)] by blast
  then show ?thesis using assms(2) by (simp add: metric_def)
qed

lemma positive_metric:
  assumes "evaluate_stage policy stage outcome b q = []" "\<not> xle (metric outcome key (Fin 0)) (Fin 0)"
  shows "\<exists>x. map_of (so_metrics outcome) key = Some (Fin x) \<and> 0 < x"
proof -
  have "metric outcome key (Fin 0) \<noteq> Fin 0" using assms(2) by auto
  then obtain x where x: "map_of (so_metrics outcome) key = Some (Fin x)" using finite_metric [OF assms(1)] by blast
  then show ?thesis using assms(2) by (simp add: metric_def)
qed

lemma basic_reasons_Nil:
  "basic_reasons policy outcome = [] \<longleftrightarrow>
     set required_performance_metrics \<subseteq> fst ` set (so_metrics outcome) \<and> (\<forall>c \<in> set (backtest_checks policy outcome). snd c)"
  by (auto simp: basic_reasons_def missing_metrics_def Let_def filter_empty_conv)

lemmas stage_clean = evaluate_stage_def append_is_Nil_conv when_bad_Nil

lemma passed_basic:
  assumes "evaluate_stage policy ''basic_backtest'' outcome b q = []"
  shows "set required_performance_metrics \<subseteq> fst ` set (so_metrics outcome)
     \<and> (\<forall>c \<in> set (backtest_checks policy outcome). snd c) \<and> (\<forall>v \<in> snd ` set (so_metrics outcome). xfinite v)"
proof -
  have "basic_reasons policy outcome = []" using assms unfolding stage_clean by simp
  then show ?thesis using passed_finite [OF assms] by (simp add: basic_reasons_Nil)
qed

lemma passed_out_of_sample:
  assumes "evaluate_stage policy ''out_of_sample'' outcome b q = []"
  shows "map_of (so_details outcome) ''out_of_sample'' = Some (DBool True)"
  using assms unfolding stage_clean by simp

lemma passed_walk_forward:
  assumes "evaluate_stage policy ''walk_forward'' outcome b q = []" "1 \<le> vp_min_walk_forward_windows policy"
  shows "\<exists>n. map_of (so_metrics outcome) ''windows'' = Some (Fin n) \<and> of_int (vp_min_walk_forward_windows policy) \<le> n"
proof (rule not_below [OF assms(1), where d = "Fin 0"])
  show "\<not> xlt (metric outcome ''windows'' (Fin 0)) (Fin (of_int (vp_min_walk_forward_windows policy)))"
    using assms(1) unfolding stage_clean by simp
qed (use assms(2) in simp)

lemma passed_purge:
  assumes "evaluate_stage policy ''purged_validation'' outcome b q = []"
  shows "\<exists>gap. map_of (so_metrics outcome) ''purge_gap'' = Some (Fin gap) \<and> 0 < gap"
proof (rule positive_metric [OF assms])
  show "\<not> xle (metric outcome ''purge_gap'' (Fin 0)) (Fin 0)" using assms unfolding stage_clean by simp
qed

lemma passed_monte_carlo:
  assumes "evaluate_stage policy ''monte_carlo'' outcome b q = []" "vp_min_monte_carlo_pass_rate policy = Fin rate"
  shows "\<exists>x. map_of (so_metrics outcome) ''pass_rate'' = Some (Fin x) \<and> rate \<le> x"
proof (rule not_below [OF assms(1), where d = NegInf])
  show "\<not> xlt (metric outcome ''pass_rate'' NegInf) (Fin rate)" using assms unfolding stage_clean by simp
qed simp

lemma passed_multiple_testing:
  assumes "evaluate_stage policy ''multiple_testing_controls'' outcome b q = []" "vp_max_adjusted_p_value policy = Fin p_max"
  shows "\<exists>p. map_of (so_metrics outcome) ''adjusted_p_value'' = Some (Fin p) \<and> p \<le> p_max"
proof (rule not_above [OF assms(1)])
  show "\<not> xlt (Fin p_max) (metric outcome ''adjusted_p_value'' PosInf)" using assms unfolding stage_clean by simp
qed

text \<open>With a ledger that records, the factory returns a report.\<close>

lemma validate_returns:
  assumes "validate_config_v config = Inr ()" "validate_candidate_lineage candidate dataset_hash = Inr ()" "dataset_ref \<noteq> ''''"
    and "\<And>run r. fst (record_run run r)"
  shows "\<exists>report r'. validate_strategy policy run_stage record_run candidate config dataset_ref dataset_hash now receipt r = Inr (report, r')"
proof -
  have "\<exists>st'. run_one policy q run_stage record_run dataset_ref dataset_hash now stage st = Inr st'" for q stage st
    using assms(3,4)
    by (auto simp: run_one_def failed_run_def make_run_def Let_def split: prod.split sum.split bool.split) (metis fst_conv)+
  then have "\<exists>st'. run_all policy q run_stage record_run dataset_ref dataset_hash now stages st = Inr st'" for q stages st
  proof (induction stages arbitrary: st)
    case (Cons stage stages)
    from Cons.prems obtain st1 where "run_one policy q run_stage record_run dataset_ref dataset_hash now stage st = Inr st1" by blast
    then show ?case using Cons by simp
  qed simp
  then obtain fs r1 where "run_all policy (sc_model_ids candidate \<noteq> []) run_stage record_run dataset_ref dataset_hash now (stages_of candidate)
      (\<lparr>fs_runs = [], fs_failed = [], fs_reasons = [], fs_baseline = None\<rparr>, r) = Inr (fs, r1)" by (metis surj_pair)
  then show ?thesis using assms(1,2) by (simp add: validate_strategy_def Let_def)
qed


subsection \<open>An instance\<close>

definition example_policy :: validation_policy where
  "example_policy = \<lparr>vp_min_cagr = Fin 0, vp_min_sharpe = Fin 0, vp_min_sortino = Fin 0, vp_min_calmar = Fin 0, vp_max_drawdown = Fin 1,
     vp_min_profit_factor = Fin 1, vp_min_expectancy = Fin 0, vp_max_turnover = PosInf, vp_max_tail_loss = Fin 1, vp_min_stability = Fin 0,
     vp_max_regime_dependence = Fin 1, vp_min_cost_retention = Fin (3 / 4), vp_min_perturbation_retention = Fin (4 / 5),
     vp_min_monte_carlo_pass_rate = Fin (4 / 5), vp_max_adjusted_p_value = Fin (1 / 20), vp_require_embargo = True,
     vp_min_walk_forward_windows = 1, vp_min_regimes_tested = 3\<rparr>"

definition example_outcome :: stage_outcome where
  "example_outcome = \<lparr>so_metrics = map (\<lambda>k. (k, Fin 1)) (required_performance_metrics
       @ [''cagr_retention'', ''pass_rate'', ''experiments_recorded'', ''windows'', ''purge_gap'', ''embargo_period''])
       @ [(''regimes_tested'', Fin 3), (''adjusted_p_value'', Fin 0)],
     so_artifacts = [''report''], so_details = [(''out_of_sample'', DBool True)]\<rparr>"

definition example_candidate :: strategy_candidate where
  "example_candidate = \<lparr>sc_candidate_id = 1, sc_candidate_state = SS_ROBUSTNESS_OK, sc_model_ids = [], sc_code_sha = ''abc'',
     sc_dependencies = [(''qlib'', ''0.9'')], sc_llm_metadata = [(''model'', ''none'')]\<rparr>"

definition example_validation :: "validation_error + validation_report \<times> experiment_run list" where
  "example_validation = validate_strategy example_policy (\<lambda>_. Inr example_outcome) (\<lambda>run runs. (True, runs @ [run])) example_candidate
     \<lparr>vc_as_of = Some 10, vc_seed = Some 7, vc_config_hash = ''h'', vc_data_max_timestamp = Some 5\<rparr> ''bars'' (''sha256:'' @ replicate 64 CHR ''0'') 20 9 []"

lemma example_metrics:
  "metric example_outcome ''cagr'' d = Fin 1" "metric example_outcome ''sharpe'' d = Fin 1" "metric example_outcome ''sortino'' d = Fin 1"
  "metric example_outcome ''calmar'' d = Fin 1" "metric example_outcome ''max_drawdown'' d = Fin 1"
  "metric example_outcome ''profit_factor'' d = Fin 1" "metric example_outcome ''expectancy'' d = Fin 1"
  "metric example_outcome ''turnover'' d = Fin 1" "metric example_outcome ''tail_loss'' d = Fin 1"
  "metric example_outcome ''stability'' d = Fin 1" "metric example_outcome ''regime_dependence'' d = Fin 1"
  "metric example_outcome ''cagr_retention'' d = Fin 1" "metric example_outcome ''pass_rate'' d = Fin 1"
  "metric example_outcome ''experiments_recorded'' d = Fin 1" "metric example_outcome ''windows'' d = Fin 1"
  "metric example_outcome ''purge_gap'' d = Fin 1" "metric example_outcome ''embargo_period'' d = Fin 1"
  "metric example_outcome ''regimes_tested'' d = Fin 3" "metric example_outcome ''adjusted_p_value'' d = Fin 0"
  by (simp_all add: metric_def example_outcome_def required_performance_metrics_def)

lemma example_fields:
  "so_metrics example_outcome \<noteq> []" "\<forall>v \<in> set (so_metrics example_outcome). xfinite (snd v)" "so_artifacts example_outcome \<noteq> []"
  "missing_metrics required_performance_metrics example_outcome = {}"
  "map_of (so_details example_outcome) ''out_of_sample'' = Some (DBool True)" "map_of (so_details example_outcome) ''applicable'' = None"
  by (auto simp: example_outcome_def xfinite_def missing_metrics_def image_image)

lemma example_costs: "\<not> 1 < fmul 1 (3 / 4)"
  using fl_le [of "3 / 4" 1] by (simp add: fmul_def)

lemma example_basic: "basic_reasons example_policy example_outcome = []" "embargo_reasons example_policy example_outcome = []"
  by (simp_all add: basic_reasons_def example_fields backtest_checks_def example_metrics example_policy_def Let_def embargo_reasons_def)

lemma example_stage_passed:
  assumes "stage \<in> set all_validation_stages"
  shows "stage_passed example_policy False (\<lambda>_. Inr example_outcome) stage"
proof -
  let ?P = "example_policy"
  have pol: "vp_min_cost_retention ?P = Fin (3 / 4)" "vp_min_perturbation_retention ?P = Fin (4 / 5)" "vp_min_monte_carlo_pass_rate ?P = Fin (4 / 5)"
    "vp_max_adjusted_p_value ?P = Fin (1 / 20)" "vp_min_walk_forward_windows ?P = 1" "vp_min_regimes_tested ?P = 3"
    by (simp_all add: example_policy_def)
  have base: "baseline_of (\<lambda>_. Inr example_outcome) = Some example_outcome" by (simp add: baseline_of_def)
  have "evaluate_stage ?P stage example_outcome (Some example_outcome) False = []"
    unfolding stage_clean Let_def by (simp add: example_fields example_metrics example_basic pol example_costs)
  then show ?thesis by (simp add: stage_passed_def base)
qed

lemma example_validation_eligible: "\<exists>report runs. example_validation = Inr (report, runs) \<and> assert_eligible example_candidate report = Inr ()"
proof -
  have "\<exists>report runs. example_validation = Inr (report, runs)"
    unfolding example_validation_def
    by (rule validate_returns) (simp_all add: validate_config_v_def validate_candidate_lineage_def example_candidate_def)
  then obtain report runs where v: "example_validation = Inr (report, runs)" by blast
  then show ?thesis
    using validate_report [OF v [unfolded example_validation_def]] example_stage_passed
    by (auto simp: assert_eligible_def example_candidate_def stages_of_def)
qed


end
