(* ===== verification/Spec2Isabelle.thy ===== *)
theory Spec2Isabelle
  imports Risk_Determinism Applier_Properties Live_Runtime Mt4_Broker_Properties Ledger_Properties Worker_Hazards
    Calibration_Properties Posttrade_Properties Xau_Properties Research_Validation Promotion
begin

text \<open>
  A verification library for OpenTrading, a trading platform in which research produces trade proposals, a
  deterministic risk engine decides them, and an execution engine carries approved orders to a broker,
  unattended on paper or, behind human approval or a governance registry, on a live MetaTrader 4 terminal.

  \<^bold>\<open>The program and the theories that model it.\<close> Paths are below \<^verbatim>\<open>src/\<close>.

  \<^item> \<^emph>\<open>Domain and contracts.\<close> \<open>Domain\<close>: the enumerations of \<^verbatim>\<open>core/domain/enums.py\<close> and the order, strategy and
    trade lifecycles of \<^verbatim>\<open>core/domain/state_machines.py\<close>, all three instances of the locale \<open>lifecycle\<close>.
    \<open>Contracts\<close>, \<open>Exec_Contracts\<close>: the frozen models of \<^verbatim>\<open>core/schemas\<close> as records, their validators as
    bool-valued functions. \<open>Canonical_Json\<close>: the JSON text that is hashed and signed. \<open>Uuid_Text\<close>: the text
    form of identifiers. \<open>Decimal\<close>: Python's decimals, exact rationals rounded to 28 digits after
    each operation.
  \<^item> \<^emph>\<open>Risk.\<close> \<open>Risk_Checks\<close>, \<open>Risk_Sizing\<close>, \<open>Risk_Engine\<close>: \<^verbatim>\<open>engines/risk/checks.py\<close>, \<^verbatim>\<open>sizing.py\<close> and
    \<^verbatim>\<open>engine.py\<close>. \<open>evaluate\<close> is the whole pipeline from input validation to the signed decision.
    \<open>Risk_Determinism\<close> shows that the hashed inputs determine the decision.
  \<^item> \<^emph>\<open>Execution state.\<close> \<open>Exec_Store\<close>: the store with optimistic versions of \<^verbatim>\<open>engines/execution/persistence.py\<close>,
    its compare-and-set contract is the locale \<open>cas_store\<close>. \<open>Applier\<close>, \<open>Applier_Properties\<close>:
    \<^verbatim>\<open>engines/execution/applier.py\<close>, the only writer of order states. \<open>Reconciler\<close>, \<open>Reconciler_Properties\<close>:
    \<^verbatim>\<open>reconciler.py\<close>, which compares the store with a broker view and heals it.
  \<^item> \<^emph>\<open>Controls.\<close> \<open>Safe_Mode\<close>, \<open>Emergency\<close>, \<open>Live_Gate\<close>, \<open>Live_Auto\<close>: \<^verbatim>\<open>safe_mode.py\<close>, \<^verbatim>\<open>emergency.py\<close>,
    \<^verbatim>\<open>live_gate.py\<close> and \<^verbatim>\<open>engines/live_auto\<close>. Each decides whether an order may be sent. The
    approval store is reached through the locale \<open>approval_protocol\<close>.
  \<^item> \<^emph>\<open>Service and wire.\<close> \<open>Service\<close>, \<open>Service_Properties\<close>: \<^verbatim>\<open>engines/execution/service.py\<close> over an arbitrary client (locale
    \<open>quiet_client\<close>). \<open>Mt4_Bridge\<close>: commands, checksums, ledger, sequence tracker, gate and emulator of \<^verbatim>\<open>adapters/mt4\<close>.
    \<open>Mt4_Client\<close>: \<^verbatim>\<open>adapters/mt4/client.py\<close>, the client that discharges \<open>quiet_client\<close>. \<open>Live_Runtime\<close>:
    \<^verbatim>\<open>engines/execution/live_runtime.py\<close>, which builds all of this fail-closed; the locale \<open>guarded_client\<close> states what the
    composition adds to a client. \<open>Mt4_Broker\<close>, \<open>Mt4_Broker_Properties\<close>: the simulated venue \<^verbatim>\<open>adapters/mt4/broker.py\<close>.
  \<^item> \<^emph>\<open>Paper pipeline.\<close> \<open>Worker_Store\<close>: \<^verbatim>\<open>core/schemas/pipeline.py\<close> and the in-memory store of \<^verbatim>\<open>apps/worker/persistence.py\<close>
    (locale \<open>run_ledger\<close>). \<open>Worker_Bus\<close>: the stream bus with consumer groups of \<^verbatim>\<open>apps/worker/bus.py\<close>. \<open>Paper_Ledger\<close>,
    \<open>Ledger_Properties\<close>: \<^verbatim>\<open>apps/worker/ledger.py\<close>. \<open>Worker_Stages\<close>: \<^verbatim>\<open>apps/worker/stages\<close> from the risk decision to the account, over the
    stage framework. \<open>Worker_Pipeline\<close>: the loop of \<^verbatim>\<open>apps/worker/pipeline.py\<close>, with the contract of a stage as the locale
    \<open>pipeline_stage\<close>, interpreted on the five modelled stages. \<open>Worker_Delivery\<close>, \<open>Worker_Account\<close>,
    \<open>Worker_Hazards\<close>: what holds over its runs.
  \<^item> \<^emph>\<open>Signal fusion.\<close> \<open>Signal_Fusion\<close>, \<open>Fusion_Properties\<close>: \<^verbatim>\<open>core/schemas/signals.py\<close>, \<^verbatim>\<open>core/schemas/fusion.py\<close>, and the
    configuration and the fusion of \<^verbatim>\<open>engines/signal_fusion\<close>. \<open>Signal_Calibration\<close>, \<open>Calibration_Properties\<close>: its isotonic
    regression, the evaluation of the mandatory weightings and the calibration of weights and confidences.
  \<^item> \<^emph>\<open>Post-trade analysis.\<close> \<open>Posttrade\<close>, \<open>Posttrade_Properties\<close>: \<^verbatim>\<open>core/schemas/posttrade.py\<close> and the metrics and the analysis of
    \<^verbatim>\<open>engines/posttrade\<close>.
  \<^item> \<^emph>\<open>Gold strategy.\<close> \<^verbatim>\<open>research/strategies/xau_rpb\<close>. \<open>Xau_Core\<close>: types, configuration, indicators and regime; the locale
    \<open>causal_series\<close> says that an indicator series of a prefix is the prefix of the series, and is interpreted on every indicator.
    \<open>Xau_Machine\<close>: the setup state machine. \<open>Xau_Risk\<close>: account limits, sizing, score, sessions and news calendar.
    \<open>Xau_Backtest\<close>: the event-driven backtest. \<open>Xau_Properties\<close>: what holds over its runs.
  \<^item> \<^emph>\<open>Strategy validation.\<close> \<open>Research_Validation\<close>: performance metrics, acceptance gates, partitions and walk-forward windows of
    \<^verbatim>\<open>research/validation\<close>. \<open>Promotion\<close>: the validation factory and the eligibility check of \<^verbatim>\<open>engines/promotion/validation.py\<close>.
  \<^item> \<^emph>\<open>Binary floating point.\<close> \<open>Float64\<close>: the finite binary64 numbers as rationals, every operation the exact result rounded to
    nearest even with gradual underflow, and \<^verbatim>\<open>round\<close> and \<^verbatim>\<open>sum\<close> of Python on them. The fusion, calibration, post-trade,
    gold and validation theories compute with it; a NaN of the indicators is \<open>None\<close>, the metrics of \<open>Promotion\<close> are floats with
    infinities and NaN. Overflow of an operation is outside the model.

  \<open>OT_Prelude\<close> holds what they share. An operation that mutates an object and may raise is a
  program \<open>'s \<Rightarrow> ('e + 'a) \<times> 's\<close>, composed with \<open>seq\<close>, \<open>guard\<close>, \<open>handle\<close>, \<open>for_each\<close> and \<open>zoom\<close>. As in Python the state
  reached before an exception is kept. The \<open>keeps\<close> calculus proves that a program preserves an invariant on both
  outcomes, rule by rule (collections \<open>ot_inv\<close>, \<open>stage_inv\<close>, \<open>calm_inv\<close>).

  \<^bold>\<open>What is shown.\<close>

  \<^item> \<^emph>\<open>Nothing reaches the live venue unchecked.\<close> Every submission frame in a run of the composed LIVE_GATED
    runtime was approved by a human or closes an open position; it was persisted before and is sent once; the venue executes it at
    most once and answers a retry with the original reply; kill switches, SAFE_MODE and the gate
    of the mode each stop it. A restart resumes trading only when platform and broker agree.
  \<^item> \<^emph>\<open>Order state is sound.\<close> The applier moves orders along the lifecycle under arbitrary
    interference at the compare-and-set, keeps filled + remaining = requested and counts a fill once. A clean
    reconciliation means agreement with the broker.
  \<^item> \<^emph>\<open>Risk decisions are sound, total and determined by the hashed inputs\<close>, and the approved size
    respects every limit up to the rounding of the decimal context, which is stated.
  \<^item> \<^emph>\<open>The paper pipeline loses no event and counts no trace twice.\<close> The paper ledger refines an abstract
    netting account and is rebuilt by a restart. The simulated venue conserves quantities.
  \<^item> \<^emph>\<open>Fusion and analysis.\<close> In binary arithmetic the direction of a fused signal is that of the exact weighted vote under a stated
    threshold; the isotonic fit is monotone; a language model gets a weight only when its measured value supports it; metrics
    exist exactly for trades without net price improvement.
  \<^item> \<^emph>\<open>The gold strategy is causal.\<close> Its backtest returns on every validated configuration and never uses a bar before it is
    known; a signal means a confirmed breakout after an admissible pullback, and an open setup is resolved in bounded time;
    a position risks no more than the mandate; trades follow one another and stops only tighten.
  \<^item> \<^emph>\<open>Promotion needs evidence.\<close> Walk-forward windows do not leak; a candidate classification means every threshold was met; a
    candidate eligible for paper trading has run, passed and recorded every stage.
  \<^item> \<^emph>\<open>Hazards.\<close> Where components that are each as intended do not add up, the theorem states what
    happens: a concurrent fill that is lost, a revalidation that reopens a spent approval, a sequence number
    whose loss blocks a strategy, exits refused by the daily loss limit, fills that a retry does not announce,
    outcomes that are dropped or omit a partial close, stop orders that can never fill, confidence maps that their own validator
    refuses, votes that cancel up to rounding and raise, a gap through the stop that is booked as a profit. Most of these are
    lemmas of the component's theory.

  \<^bold>\<open>Fuel and bounds.\<close> The lot-step loop of the sizing is a \<open>partial_function\<close> into \<open>option\<close>, where \<open>None\<close> is a loop that never
  ends; it is proved that it returns on every instrument that satisfies its contract. So is the search for the first Sunday of
  a month in the session rules, which is proved to end within the first week, and the walk-forward loop, which ends for every
  positive test period and is proved not to end for an empty one. The compare-and-set loop of the applier has the
  number of attempts of the source. The retry counts of the stages and of the bus are those of the configuration. The
  64 retained fingerprints of an order and the bound of a price path are kept, with what they entail.

  \<^bold>\<open>Parameters.\<close> SHA-256, HMAC, UUID generation, the clock, random draws, the transport and the venue's replies are
  arguments of the definitions; what a theorem needs of them (such as injectivity of a digest on the
  texts at hand) is a named hypothesis, with a witness that instantiates it.

  \<^bold>\<open>Not modelled.\<close> SQL stores and migrations, which mirror the in-memory ones; the Redis client; sockets, JSON and CSV syntax;
  logging, metrics, telemetry and audit texts; the HTTP API and its templates; adapters to language models, notebooks and the
  third-party backtester; the research, fusion, ingestion and post-trade stages of the worker, which call the modelled engines
  between reads and writes of files; Monte Carlo resampling, overfitting statistics and parameter sweeps of the research validation,
  which repeat the modelled backtest on random or enumerated inputs; the expert advisors, which are not Python.
\<close>

end
